(* ===== verification/Prelude.thy ===== *)
theory Prelude
  imports Main "HOL-Library.Word"
begin

text \<open>
  The ground every component stands on: the machine integers of the crate at their width, byte
  streams, the outcome of a decoder, and the generic facts on bytes, words and decoders that the
  component theories share.

  \<^item> A Rust \<open>&mut impl Read\<close> over an in-memory buffer is the list of bytes not yet read. A decoder
    maps it to an \<open>outcome\<close>: a value and the rest, an error and the rest, a panic, or no fuel.
  \<^item> A Rust \<open>String\<close> is the list of its Unicode scalar values (\<open>rstring\<close>); its bytes are computed
    by the UTF-8 encoder of theory \<open>Utf8\<close>.
  \<^item> \<open>usize\<close> is a \<open>nat\<close>; the conversions from the signed 32-bit lengths of the protocol go through
    a 64-bit word, so that a negative length becomes the huge value the code then allocates with.
\<close>

section \<open>Machine types\<close>

type_synonym u8 = "8 word"
type_synonym i8 = "8 word"
type_synonym u16 = "16 word"
type_synonym i16 = "16 word"
type_synonym u32 = "32 word"
type_synonym i32 = "32 word"
type_synonym u64 = "64 word"
type_synonym i64 = "64 word"
type_synonym i128 = "128 word"
type_synonym f32 = "32 word"  \<comment> \<open>the IEEE bit pattern\<close>
type_synonym f64 = "64 word"  \<comment> \<open>the IEEE bit pattern\<close>

type_synonym bytes = "u8 list"
type_synonym rstring = "nat list"  \<comment> \<open>Unicode scalar values\<close>

text \<open>A string literal of the source.\<close>

definition rstr :: "string \<Rightarrow> rstring" where
  "rstr s = map of_char s"

text \<open>The casts \<open>n as i32\<close> (truncating) and \<open>n as usize\<close> (sign-extending).\<close>

definition i32_of_usize :: "nat \<Rightarrow> i32" where
  "i32_of_usize n = word_of_nat n"

definition usize_of_i32 :: "i32 \<Rightarrow> nat" where
  "usize_of_i32 w = unat (scast w :: u64)"

text \<open>\<open>isize::MAX\<close>: an allocation of more bytes panics with a capacity overflow.\<close>

definition isize_max :: nat where
  "isize_max = 2 ^ 63 - 1"

section \<open>Decoders\<close>

text \<open>\<open>io::Error\<close> values the readers produce, and \<open>IgniteError\<close> values by their message. A
  message made by \<open>format!\<close> is the constructor of its format with the arguments.\<close>

datatype io_error =
    UnexpectedEof
  | InvalidUtf8
  | IoOther string
  | IoUnsupported string
  | IoInvalidInput rstring

datatype rerror =
    IoE io_error                 \<comment> \<open>\<open>From<IoError>\<close>\<close>
  | Ignite string                \<comment> \<open>\<open>From<&str>\<close>\<close>
  | CannotReadTypeCode u8
  | UnknownType u8
  | UnsupportedTypeCode u8
  | LazyUnexpectedTypeCode u8
  | ExpectedGot string u8        \<comment> \<open>\<open>Expected \<dots>, got \<dots>\<close> with the type code\<close>
  | IgniteFmt string "int list"  \<comment> \<open>another format, with the numbers it shows\<close>

datatype 'a outcome =
    Ok 'a bytes
  | Err rerror bytes
  | Panic
  | NoFuel

type_synonym 'a reader = "bytes \<Rightarrow> 'a outcome"

named_theorems reader_simps \<open>unfolding of decoders on an input they accept\<close>
named_theorems progress_intros \<open>decoders that never lengthen their input\<close>
named_theorems agree_intros \<open>decoders that agree on short inputs\<close>
named_theorems fuel_intros \<open>decoders that never run out of fuel\<close>

definition ret :: "'a \<Rightarrow> 'a reader" where
  "ret x s = Ok x s"

definition fail :: "rerror \<Rightarrow> 'a reader" where
  "fail e s = Err e s"

definition panic :: "'a reader" where
  "panic s = Panic"

definition rbind :: "'a reader \<Rightarrow> ('a \<Rightarrow> 'b reader) \<Rightarrow> 'b reader" where
  "rbind m f s = (case m s of
      Ok x s' \<Rightarrow> f x s'
    | Err e s' \<Rightarrow> Err e s'
    | Panic \<Rightarrow> Panic
    | NoFuel \<Rightarrow> NoFuel)"

definition rmap :: "('a \<Rightarrow> 'b) \<Rightarrow> 'a reader \<Rightarrow> 'b reader" where
  "rmap f m = rbind m (\<lambda>x. ret (f x))"

text \<open>The result of code that returns an \<open>Option\<close> or panics: \<open>.ok()\<close> of a decoder, and the \<open>?\<close> of an
  \<open>Option\<close>.\<close>

datatype 'a access = Returns "'a option" | Panics

fun ok_access :: "'a outcome \<Rightarrow> 'a access" where
  "ok_access (Ok x s) = Returns (Some x)"
| "ok_access (Err e s) = Returns None"
| "ok_access Panic = Panics"
| "ok_access NoFuel = Panics"

fun access_bind :: "'a access \<Rightarrow> ('a \<Rightarrow> 'b access) \<Rightarrow> 'b access" where
  "access_bind (Returns None) f = Returns None"
| "access_bind (Returns (Some x)) f = f x"
| "access_bind Panics f = Panics"

definition access_map :: "('a \<Rightarrow> 'b) \<Rightarrow> 'a access \<Rightarrow> 'b access" where
  "access_map f m = access_bind m (\<lambda>x. Returns (Some (f x)))"

text \<open>\<open>Read::read_exact\<close> into a buffer of \<open>n\<close> bytes. At a short input the cursor moves to the
  end and the error is \<open>UnexpectedEof\<close>.\<close>

definition read_exact :: "nat \<Rightarrow> bytes reader" where
  "read_exact n s = (if n \<le> length s then Ok (take n s) (drop n s) else Err (IoE UnexpectedEof) [])"

text \<open>\<open>vec![0u8; n]\<close> followed by \<open>read_exact\<close>: a capacity overflow panics before the read.\<close>

definition read_vec :: "nat \<Rightarrow> bytes reader" where
  "read_vec n = (if isize_max < n then panic else read_exact n)"

text \<open>\<open>for _ in 0..n \<lbrace> v.push(read(reader)?) \<rbrace>\<close>.\<close>

primrec repeat_read :: "nat \<Rightarrow> 'a reader \<Rightarrow> 'a list reader" where
  "repeat_read 0 r = ret []"
| "repeat_read (Suc n) r = rbind r (\<lambda>x. rbind (repeat_read n r) (\<lambda>xs. ret (x # xs)))"

text \<open>\<open>0..len\<close> for an \<open>i32\<close> bound: empty when the bound is negative.\<close>

definition i32_range :: "i32 \<Rightarrow> nat" where
  "i32_range len = nat (sint len)"

text \<open>\<open>Vec::with_capacity(len as usize)\<close> on a negative length panics with a capacity overflow.\<close>

definition with_capacity :: "i32 \<Rightarrow> unit reader" where
  "with_capacity len = (if sint len < 0 then panic else ret ())"

lemma ret_apply [reader_simps, simp]: "ret x s = Ok x s"
  by (simp add: ret_def)

lemma fail_apply [reader_simps, simp]: "fail e s = Err e s"
  by (simp add: fail_def)

lemma panic_apply [reader_simps, simp]: "panic s = Panic"
  by (simp add: panic_def)

lemma rbind_Ok [reader_simps]: "m s = Ok x s' \<Longrightarrow> rbind m f s = f x s'"
  by (simp add: rbind_def)

lemma rbind_Err [reader_simps]: "m s = Err e s' \<Longrightarrow> rbind m f s = Err e s'"
  by (simp add: rbind_def)

lemma rbind_Panic: "m s = Panic \<Longrightarrow> rbind m f s = Panic"
  by (simp add: rbind_def)

lemma rbind_ret [simp]: "rbind (ret x) f = f x"
  by (simp add: rbind_def fun_eq_iff)

lemma rbind_fail [simp]: "rbind (fail e) f = fail e"
  by (simp add: rbind_def fun_eq_iff)

lemma rbind_panic [simp]: "rbind panic f = panic"
  by (simp add: rbind_def fun_eq_iff)

lemma rbind_assoc: "rbind (rbind m f) g = rbind m (\<lambda>x. rbind (f x) g)"
  by (simp add: rbind_def fun_eq_iff split: outcome.split)

lemma rbind_eq_Ok:
  "rbind m f s = Ok y t \<longleftrightarrow> (\<exists>x s'. m s = Ok x s' \<and> f x s' = Ok y t)"
  by (simp add: rbind_def split: outcome.split)

lemma rmap_Ok [reader_simps]: "m s = Ok x s' \<Longrightarrow> rmap f m s = Ok (f x) s'"
  by (simp add: rmap_def rbind_def)

lemma read_exact_append [reader_simps]:
  "length bs = n \<Longrightarrow> read_exact n (bs @ s) = Ok bs s"
  by (auto simp: read_exact_def)

lemma read_vec_append [reader_simps]:
  "length bs = n \<Longrightarrow> n \<le> isize_max \<Longrightarrow> read_vec n (bs @ s) = Ok bs s"
  by (simp add: read_vec_def read_exact_append)

text \<open>Reading back a concatenation of encodings, element by element.\<close>

lemma repeat_read_concat:
  assumes "\<And>x t. x \<in> set xs \<Longrightarrow> r (e x @ t) = Ok (g x) t"
  shows "repeat_read (length xs) r (concat (map e xs) @ s) = Ok (map g xs) s"
  using assms
proof (induction xs)
  case Nil
  then show ?case by simp
next
  case (Cons x xs)
  have "r (e x @ concat (map e xs) @ s) = Ok (g x) (concat (map e xs) @ s)"
    by (rule Cons.prems) simp
  moreover have "repeat_read (length xs) r (concat (map e xs) @ s) = Ok (map g xs) s"
    using Cons by simp
  ultimately show ?case by (simp add: rbind_Ok)
qed

section \<open>Decoders consume, and never run dry of fuel\<close>

text \<open>\<open>shrinks k m\<close>: a successful run of \<open>m\<close> consumes at least \<open>k\<close> bytes.\<close>

definition shrinks :: "nat \<Rightarrow> 'a reader \<Rightarrow> bool" where
  "shrinks k m \<longleftrightarrow> (\<forall>s x s'. m s = Ok x s' \<longrightarrow> length s' + k \<le> length s)"

lemma shrinksD: "shrinks k m \<Longrightarrow> m s = Ok x s' \<Longrightarrow> length s' + k \<le> length s"
  by (auto simp: shrinks_def)

lemma shrinks_ret [progress_intros]: "shrinks 0 (ret x)"
  by (simp add: shrinks_def)

lemma shrinks_fail [progress_intros]: "shrinks k (fail e)"
  by (simp add: shrinks_def)

lemma shrinks_panic [progress_intros]: "shrinks k panic"
  by (simp add: shrinks_def)

lemma shrinks_read_exact [progress_intros]: "shrinks n (read_exact n)"
  by (auto simp: shrinks_def read_exact_def split: if_splits)

lemma shrinks_mono: "shrinks k m \<Longrightarrow> j \<le> k \<Longrightarrow> shrinks j m"
  unfolding shrinks_def by (meson add_left_mono le_trans)

lemma shrinks_rbind:
  assumes "shrinks j m" and "\<And>x. shrinks k (f x)"
  shows "shrinks (j + k) (rbind m f)"
  unfolding shrinks_def
proof (intro allI impI)
  fix s y t
  assume "rbind m f s = Ok y t"
  then obtain x s' where m: "m s = Ok x s'" and f: "f x s' = Ok y t"
    by (auto simp: rbind_eq_Ok)
  from shrinksD [OF assms(1) m] shrinksD [OF assms(2) f]
  show "length t + (j + k) \<le> length s" by simp
qed

lemma shrinks_then: "shrinks k m \<Longrightarrow> (\<And>x. shrinks 0 (f x)) \<Longrightarrow> shrinks k (rbind m f)"
  using shrinks_rbind [of k m 0 f] by simp

lemma shrinks_rbind0 [progress_intros]:
  "shrinks 0 m \<Longrightarrow> (\<And>x. shrinks 0 (f x)) \<Longrightarrow> shrinks 0 (rbind m f)"
  using shrinks_rbind [of 0 m 0 f] by simp

lemma shrinks_rmap [progress_intros]: "shrinks k m \<Longrightarrow> shrinks k (rmap f m)"
  unfolding rmap_def using shrinks_rbind [of k m 0] shrinks_ret by fastforce

lemma shrinks_repeat [progress_intros]: "shrinks 0 r \<Longrightarrow> shrinks 0 (repeat_read n r)"
  by (induction n) (auto intro!: shrinks_rbind0 shrinks_ret)

text \<open>\<open>fueled L m\<close>: on inputs of less than \<open>L\<close> bytes \<open>m\<close> does not run out of fuel.\<close>

definition fueled :: "nat \<Rightarrow> 'a reader \<Rightarrow> bool" where
  "fueled L m \<longleftrightarrow> (\<forall>s. length s < L \<longrightarrow> m s \<noteq> NoFuel)"

lemma fueledD: "fueled L m \<Longrightarrow> length s < L \<Longrightarrow> m s \<noteq> NoFuel"
  by (simp add: fueled_def)

lemma fueled_mono: "fueled L m \<Longrightarrow> K \<le> L \<Longrightarrow> fueled K m"
  by (simp add: fueled_def)

lemma fueled_ret [fuel_intros]: "fueled L (ret x)"
  by (simp add: fueled_def)

lemma fueled_fail [fuel_intros]: "fueled L (fail e)"
  by (simp add: fueled_def)

lemma fueled_panic [fuel_intros]: "fueled L panic"
  by (simp add: fueled_def)

lemma fueled_read_exact [fuel_intros]: "fueled L (read_exact n)"
  by (simp add: fueled_def read_exact_def)

text \<open>After a step that consumes \<open>k\<close> bytes, the continuation needs fuel for \<open>k\<close> bytes less.\<close>

lemma fueled_rbind_shrink:
  assumes "fueled L m" and "shrinks k m" and "\<And>x. fueled (L - k) (f x)"
  shows "fueled L (rbind m f)"
  unfolding fueled_def
proof (intro allI impI)
  fix s :: bytes
  assume s: "length s < L"
  show "rbind m f s \<noteq> NoFuel"
  proof (cases "m s")
    case (Ok x s')
    with shrinksD [OF assms(2)] s have "length s' < L - k" by fastforce
    with Ok fueledD [OF assms(3)] show ?thesis by (simp add: rbind_Ok)
  next
    case NoFuel
    with fueledD [OF assms(1) s] show ?thesis by simp
  qed (simp_all add: rbind_def)
qed

lemma fueled_rbind [fuel_intros]:
  assumes "fueled L m" and "shrinks 0 m" and "\<And>x. fueled L (f x)"
  shows "fueled L (rbind m f)"
  using fueled_rbind_shrink [of L m 0 f] assms by simp

lemma fueled_repeat [fuel_intros]:
  "fueled L r \<Longrightarrow> shrinks 0 r \<Longrightarrow> fueled L (repeat_read n r)"
  by (induction n) (auto intro!: fueled_rbind fueled_ret shrinks_repeat)

lemma fueled_rmap [fuel_intros]: "fueled L m \<Longrightarrow> shrinks 0 m \<Longrightarrow> fueled L (rmap f m)"
  unfolding rmap_def by (intro fueled_rbind fueled_ret)

text \<open>\<open>agree L m m'\<close>: two decoders cannot be told apart on inputs of less than \<open>L\<close> bytes.\<close>

definition agree :: "nat \<Rightarrow> 'a reader \<Rightarrow> 'a reader \<Rightarrow> bool" where
  "agree L m m' \<longleftrightarrow> (\<forall>s. length s < L \<longrightarrow> m s = m' s)"

lemma agreeD: "agree L m m' \<Longrightarrow> length s < L \<Longrightarrow> m s = m' s"
  by (simp add: agree_def)

lemma agree_refl [agree_intros]: "agree L m m"
  by (simp add: agree_def)

lemma agree_mono: "agree L m m' \<Longrightarrow> K \<le> L \<Longrightarrow> agree K m m'"
  by (simp add: agree_def)

lemma agree_rbind_shrink:
  assumes "agree L m m'" and "shrinks k m" and "\<And>x. agree (L - k) (f x) (f' x)"
  shows "agree L (rbind m f) (rbind m' f')"
  unfolding agree_def
proof (intro allI impI)
  fix s :: bytes
  assume s: "length s < L"
  show "rbind m f s = rbind m' f' s"
  proof (cases "m s")
    case (Ok x s')
    with shrinksD [OF assms(2)] s have "length s' < L - k" by fastforce
    with Ok agreeD [OF assms(3)] agreeD [OF assms(1) s] show ?thesis by (simp add: rbind_def)
  qed (use agreeD [OF assms(1) s] in \<open>simp_all add: rbind_def\<close>)
qed

lemma agree_rbind [agree_intros]:
  "agree L m m' \<Longrightarrow> shrinks 0 m \<Longrightarrow> (\<And>x. agree L (f x) (f' x)) \<Longrightarrow> agree L (rbind m f) (rbind m' f')"
  using agree_rbind_shrink [of L m m' 0 f f'] by simp

lemma agree_rmap [agree_intros]: "agree L m m' \<Longrightarrow> agree L (rmap f m) (rmap f m')"
  by (simp add: agree_def rmap_def rbind_def)

lemma agree_repeat [agree_intros]:
  "agree L r r' \<Longrightarrow> shrinks 0 r \<Longrightarrow> agree L (repeat_read n r) (repeat_read n r')"
  by (induction n) (auto intro!: agree_rbind agree_refl shrinks_repeat)

lemma shrinks_read_vec [progress_intros]: "shrinks n (read_vec n)"
  by (simp add: read_vec_def shrinks_panic shrinks_read_exact)

lemma fueled_read_vec [fuel_intros]: "fueled L (read_vec n)"
  by (simp add: read_vec_def fueled_panic fueled_read_exact)

lemma shrinks_with_capacity [progress_intros]: "shrinks 0 (with_capacity len)"
  by (simp add: with_capacity_def shrinks_panic shrinks_ret)

lemma fueled_with_capacity [fuel_intros]: "fueled L (with_capacity len)"
  by (simp add: with_capacity_def fueled_panic fueled_ret)

section \<open>Little-endian bytes\<close>

definition byte :: "nat \<Rightarrow> u8" where
  "byte n = word_of_nat n"

primrec to_le :: "nat \<Rightarrow> nat \<Rightarrow> bytes" where
  "to_le 0 x = []"
| "to_le (Suc n) x = byte x # to_le n (x div 256)"

primrec of_le :: "bytes \<Rightarrow> nat" where
  "of_le [] = 0"
| "of_le (b # bs) = unat b + 256 * of_le bs"

lemma length_to_le [simp]: "length (to_le n x) = n"
  by (induction n arbitrary: x) auto

lemma unat_byte [simp]: "unat (byte x) = x mod 256"
  by (simp add: byte_def unat_of_nat take_bit_eq_mod)

lemma byte_unat [simp]: "byte (unat b) = b"
  by (simp add: byte_def)

lemma unat_byte_less [simp]: "unat (b :: u8) < 256"
  using unsigned_less [of b, where ?'a = nat] by simp

lemma byte_mod_add [simp]: "byte (unat b + 256 * n) = b"
  by (rule word_unat_eq_iff [THEN iffD2]) (simp add: take_bit_eq_mod)

lemma of_le_to_le: "of_le (to_le n x) = x mod 256 ^ n"
proof (induction n arbitrary: x)
  case 0
  then show ?case by simp
next
  case (Suc n)
  have "x mod (256 * 256 ^ n) = 256 * (x div 256 mod 256 ^ n) + x mod 256"
    by (rule mod_mult2_eq)
  with Suc.IH [of "x div 256"] show ?case by simp
qed

lemma of_le_less: "of_le bs < 256 ^ length bs"
proof (induction bs)
  case Nil
  then show ?case by simp
next
  case (Cons b bs)
  have "unat b < 256" by simp
  with Cons.IH show ?case unfolding of_le.simps length_Cons power_Suc by linarith
qed

lemma to_le_of_le: "length bs = n \<Longrightarrow> to_le n (of_le bs) = bs"
proof (induction bs arbitrary: n)
  case Nil
  then show ?case by simp
next
  case (Cons b bs)
  have "(unat b + 256 * of_le bs) div 256 = of_le bs"
    using unat_byte_less [of b] by simp
  with Cons show ?case by auto
qed

lemma of_le_to_le_unat:
  fixes w :: "'a::len word"
  assumes "2 ^ LENGTH('a) = (256::nat) ^ n"
  shows "(word_of_nat (of_le (to_le n (unat w))) :: 'a word) = w"
proof -
  have "unat w < 256 ^ n"
    using unsigned_less [of w, where ?'a = nat] assms by simp
  then show ?thesis by (simp add: of_le_to_le)
qed

section \<open>Casts of lengths\<close>

lemma sint_i32_of_usize: "n < 2 ^ 31 \<Longrightarrow> sint (i32_of_usize n) = int n"
  by (simp add: i32_of_usize_def signed_of_nat signed_take_bit_int_eq_self_iff)

lemma unat_word64_of_int: "unat (word_of_int k :: u64) = nat (k mod 2 ^ 64)"
  by (simp add: unsigned_of_int take_bit_eq_mod)

lemma usize_of_i32_eq: "usize_of_i32 w = nat (sint w mod 2 ^ 64)"
  by (simp only: usize_of_i32_def scast_eq unat_word64_of_int)

lemma usize_of_i32_nonneg: "0 \<le> sint w \<Longrightarrow> usize_of_i32 w = nat (sint w)"
proof -
  assume "0 \<le> sint w"
  moreover have "sint w < 2 ^ 31"
    using sint_lt [of w] by simp
  ultimately show ?thesis
    by (simp add: usize_of_i32_eq)
qed

lemma usize_of_i32_neg: "sint w < 0 \<Longrightarrow> isize_max < usize_of_i32 w"
proof -
  assume neg: "sint w < 0"
  have "- (2 ^ 31) \<le> sint w"
    using sint_ge [of w] by simp
  with neg have "(sint w + 2 ^ 64) mod 2 ^ 64 = sint w + 2 ^ 64"
    by (intro mod_pos_pos_trivial) simp_all
  then have "sint w mod 2 ^ 64 = sint w + 2 ^ 64"
    by simp
  with \<open>- (2 ^ 31) \<le> sint w\<close> show ?thesis
    by (simp add: usize_of_i32_eq isize_max_def)
qed

lemma usize_of_i32_of_usize: "n < 2 ^ 31 \<Longrightarrow> usize_of_i32 (i32_of_usize n) = n"
  by (simp add: usize_of_i32_nonneg sint_i32_of_usize)

lemma i32_range_of_usize: "n < 2 ^ 31 \<Longrightarrow> i32_range (i32_of_usize n) = n"
  by (simp add: i32_range_def sint_i32_of_usize)

lemma with_capacity_of_usize: "n < 2 ^ 31 \<Longrightarrow> with_capacity (i32_of_usize n) = ret ()"
  by (simp add: with_capacity_def sint_i32_of_usize)

lemma less_2p31_isize_max: "n < 2 ^ 31 \<Longrightarrow> n \<le> isize_max"
  by (simp add: isize_max_def)

lemmas len_casts = usize_of_i32_of_usize i32_range_of_usize with_capacity_of_usize
  sint_i32_of_usize less_2p31_isize_max

end
