(* ===== verification/Utf8.thy ===== *)
theory Utf8
  imports Prelude
begin

text \<open>
  UTF-8 as Rust's \<open>str::as_bytes\<close>, \<open>String::len\<close> and \<open>String::from_utf8\<close> define it (RFC 3629: no
  overlong forms, no surrogates, nothing above U+10FFFF). A \<open>String\<close> of the model is the list of its
  scalar values; \<open>valid_rstring\<close> is the invariant of the Rust type \<open>char\<close>.
\<close>

definition scalar :: "nat \<Rightarrow> bool" where
  "scalar c \<longleftrightarrow> c < 0xD800 \<or> (0xE000 \<le> c \<and> c < 0x110000)"

definition valid_rstring :: "rstring \<Rightarrow> bool" where
  "valid_rstring s \<longleftrightarrow> list_all scalar s"

definition utf8_char :: "nat \<Rightarrow> bytes" where
  "utf8_char c =
    (if c < 0x80 then [byte c]
     else if c < 0x800 then
       [byte (0xC0 + c div 0x40), byte (0x80 + c mod 0x40)]
     else if c < 0x10000 then
       [byte (0xE0 + c div 0x1000), byte (0x80 + c div 0x40 mod 0x40),
        byte (0x80 + c mod 0x40)]
     else
       [byte (0xF0 + c div 0x40000), byte (0x80 + c div 0x1000 mod 0x40),
        byte (0x80 + c div 0x40 mod 0x40), byte (0x80 + c mod 0x40)])"

definition utf8_encode :: "rstring \<Rightarrow> bytes" where
  "utf8_encode s = concat (map utf8_char s)"

text \<open>\<open>String::len\<close> counts bytes.\<close>

definition str_len :: "rstring \<Rightarrow> nat" where
  "str_len s = length (utf8_encode s)"

definition cont_byte :: "u8 \<Rightarrow> bool" where
  "cont_byte b \<longleftrightarrow> 0x80 \<le> unat b \<and> unat b < 0xC0"

fun utf8_next :: "bytes \<Rightarrow> (nat \<times> bytes) option" where
  "utf8_next [] = None"
| "utf8_next (b0 # bs) =
    (if unat b0 < 0x80 then Some (unat b0, bs)
     else if unat b0 < 0xC0 then None
     else if unat b0 < 0xE0 then
       (case bs of
          b1 # r \<Rightarrow>
            (let c = (unat b0 - 0xC0) * 0x40 + (unat b1 - 0x80)
             in if cont_byte b1 \<and> 0x80 \<le> c then Some (c, r) else None)
        | _ \<Rightarrow> None)
     else if unat b0 < 0xF0 then
       (case bs of
          b1 # b2 # r \<Rightarrow>
            (let c = (unat b0 - 0xE0) * 0x1000 + (unat b1 - 0x80) * 0x40 + (unat b2 - 0x80)
             in if cont_byte b1 \<and> cont_byte b2 \<and> 0x800 \<le> c \<and> scalar c then Some (c, r) else None)
        | _ \<Rightarrow> None)
     else
       (case bs of
          b1 # b2 # b3 # r \<Rightarrow>
            (let c = (unat b0 - 0xF0) * 0x40000 + (unat b1 - 0x80) * 0x1000
                   + (unat b2 - 0x80) * 0x40 + (unat b3 - 0x80)
             in if cont_byte b1 \<and> cont_byte b2 \<and> cont_byte b3 \<and> 0x10000 \<le> c \<and> scalar c
                then Some (c, r) else None)
        | _ \<Rightarrow> None))"

lemma utf8_next_shrinks: "utf8_next bs = Some (c, r) \<Longrightarrow> length r < length bs"
  by (cases bs) (auto simp: Let_def split: if_splits list.splits)

function utf8_decode :: "bytes \<Rightarrow> rstring option" where
  "utf8_decode bs =
    (if bs = [] then Some []
     else case utf8_next bs of
       None \<Rightarrow> None
     | Some (c, r) \<Rightarrow> map_option (Cons c) (utf8_decode r))"
  by pat_completeness auto
termination
  by (relation "measure length") (auto dest: utf8_next_shrinks)

declare utf8_decode.simps [simp del]

lemma utf8_decode_Nil [simp]: "utf8_decode [] = Some []"
  by (simp add: utf8_decode.simps)

lemma utf8_encode_simps [simp]:
  "utf8_encode [] = []"
  "utf8_encode (c # cs) = utf8_char c @ utf8_encode cs"
  by (simp_all add: utf8_encode_def)

lemma valid_rstring_simps [simp]:
  "valid_rstring []"
  "valid_rstring (c # cs) \<longleftrightarrow> scalar c \<and> valid_rstring cs"
  by (simp_all add: valid_rstring_def)

section \<open>Round trips\<close>

text \<open>A code point by its base-64 digits.\<close>

lemma div_0x1000:
  fixes c :: nat
  shows "c div 0x1000 = c div 0x40 div 0x40" and "c div 0x40000 = c div 0x1000 div 0x40"
  by (simp_all flip: div_mult2_eq)

lemma digits64:
  fixes c :: nat
  shows "c = c div 0x40 * 0x40 + c mod 0x40"
    and "c div 0x40 = c div 0x1000 * 0x40 + c div 0x40 mod 0x40"
    and "c div 0x1000 = c div 0x40000 * 0x40 + c div 0x1000 mod 0x40"
proof -
  show "c = c div 0x40 * 0x40 + c mod 0x40" by simp
  show "c div 0x40 = c div 0x1000 * 0x40 + c div 0x40 mod 0x40"
    "c div 0x1000 = c div 0x40000 * 0x40 + c div 0x1000 mod 0x40"
    by (metis div_mult_mod_eq div_0x1000)+
qed

lemma cont_byte_byte: "x < 0x40 \<Longrightarrow> cont_byte (byte (0x80 + x))"
  by (simp add: cont_byte_def)

lemma unat_cont: "x < 0x40 \<Longrightarrow> unat (byte (0x80 + x)) - 0x80 = x"
  by simp

lemma utf8_next2:
  assumes "x < 0x20" "y < 0x40" "0x80 \<le> x * 0x40 + y"
  shows "utf8_next (byte (0xC0 + x) # byte (0x80 + y) # r) = Some (x * 0x40 + y, r)"
  using assms by (simp add: cont_byte_def)

lemma utf8_next3:
  assumes "x < 0x10" "y < 0x40" "z < 0x40"
    and "0x800 \<le> x * 0x1000 + y * 0x40 + z" "scalar (x * 0x1000 + y * 0x40 + z)"
  shows "utf8_next (byte (0xE0 + x) # byte (0x80 + y) # byte (0x80 + z) # r) =
    Some (x * 0x1000 + y * 0x40 + z, r)"
  using assms by (simp add: cont_byte_def)

lemma utf8_next4:
  assumes "w < 8" "x < 0x40" "y < 0x40" "z < 0x40"
    and "0x10000 \<le> w * 0x40000 + x * 0x1000 + y * 0x40 + z"
    and "scalar (w * 0x40000 + x * 0x1000 + y * 0x40 + z)"
  shows "utf8_next (byte (0xF0 + w) # byte (0x80 + x) # byte (0x80 + y) # byte (0x80 + z) # r) =
    Some (w * 0x40000 + x * 0x1000 + y * 0x40 + z, r)"
  using assms by (simp add: cont_byte_def)

lemma utf8_next_char: "scalar c \<Longrightarrow> utf8_next (utf8_char c @ r) = Some (c, r)"
proof -
  assume sc: "scalar c"
  have m: "c mod 0x40 < 0x40" "c div 0x40 mod 0x40 < 0x40" "c div 0x1000 mod 0x40 < 0x40"
    by simp_all
  note d = digits64 [of c]
  consider "c < 0x80" | "0x80 \<le> c" "c < 0x800" | "0x800 \<le> c" "c < 0x10000" | "0x10000 \<le> c"
    by linarith
  then show ?thesis
  proof cases
    case 1
    then show ?thesis by (simp add: utf8_char_def)
  next
    case 2
    then have "c div 0x40 < 0x20" by simp
    with utf8_next2 [of "c div 0x40" "c mod 0x40" r] 2 m d(1)
    have "utf8_next (byte (0xC0 + c div 0x40) # byte (0x80 + c mod 0x40) # r) = Some (c, r)" by metis
    moreover have "utf8_char c = [byte (0xC0 + c div 0x40), byte (0x80 + c mod 0x40)]"
      using 2 by (simp add: utf8_char_def)
    ultimately show ?thesis by simp
  next
    case 3
    then have "c div 0x1000 < 0x10" by simp
    moreover have "c div 0x1000 * 0x1000 + c div 0x40 mod 0x40 * 0x40 + c mod 0x40 = c"
      using d by linarith
    ultimately show ?thesis
      using utf8_next3 [of "c div 0x1000" "c div 0x40 mod 0x40" "c mod 0x40" r] 3 sc m
      by (simp add: utf8_char_def)
  next
    case 4
    with sc have "c div 0x40000 < 8" by (simp add: scalar_def)
    moreover have "c div 0x40000 * 0x40000 + c div 0x1000 mod 0x40 * 0x1000
      + c div 0x40 mod 0x40 * 0x40 + c mod 0x40 = c"
      using d by linarith
    ultimately show ?thesis
      using utf8_next4 [of "c div 0x40000" "c div 0x1000 mod 0x40" "c div 0x40 mod 0x40" "c mod 0x40" r]
        4 sc m
      by (simp add: utf8_char_def)
  qed
qed

lemma utf8_char_not_Nil [simp]: "utf8_char c \<noteq> []"
  by (simp add: utf8_char_def)

lemma utf8_decode_encode: "valid_rstring s \<Longrightarrow> utf8_decode (utf8_encode s) = Some s"
proof (induction s)
  case Nil
  then show ?case by simp
next
  case (Cons c s)
  then show ?case
    by (subst utf8_decode.simps) (simp add: utf8_next_char)
qed

text \<open>Decoding is injective: the bytes that were accepted are the encoding of the result.\<close>

lemma byte_range: "k \<le> unat (b :: u8) \<Longrightarrow> unat b < k + n \<Longrightarrow> \<exists>x < n. b = byte (k + x)"
  by (rule exI [of _ "unat b - k"]) auto

lemma cont_byteE: "cont_byte b \<Longrightarrow> \<exists>x < 0x40. b = byte (0x80 + x)"
  using byte_range [of "0x80" b "0x40"] by (simp add: cont_byte_def)

lemma utf8_char2: "y < 0x40 \<Longrightarrow> 0x80 \<le> x * 0x40 + y \<Longrightarrow> x < 0x20 \<Longrightarrow>
  utf8_char (x * 0x40 + y) = [byte (0xC0 + x), byte (0x80 + y)]"
  by (simp add: utf8_char_def)

lemma div_mod_0x40: "y < 0x40 \<Longrightarrow> (x * 0x40 + y) div 0x40 = x \<and> (x * 0x40 + y) mod 0x40 = (y::nat)"
  by simp

lemma utf8_char3:
  assumes "z < 0x40" "y < 0x40" "x < 0x10" and c: "0x800 \<le> x * 0x1000 + y * 0x40 + z"
  shows "utf8_char (x * 0x1000 + y * 0x40 + z) =
    [byte (0xE0 + x), byte (0x80 + y), byte (0x80 + z)]"
proof -
  let ?c = "x * 0x1000 + y * 0x40 + z"
  have "?c = (x * 0x40 + y) * 0x40 + z" by simp
  then have "?c div 0x40 = x * 0x40 + y" "?c mod 0x40 = z"
    using div_mod_0x40 [OF assms(1)] by metis+
  moreover from this have "?c div 0x1000 = x" "?c div 0x40 mod 0x40 = y"
    using div_mod_0x40 [OF assms(2), of x] div_0x1000 [of ?c] by metis+
  moreover have "?c < 0x10000" using assms by linarith
  ultimately show ?thesis using c by (simp add: utf8_char_def)
qed

lemma utf8_char4:
  assumes "z < 0x40" "y < 0x40" "x < 0x40" and c: "0x10000 \<le> w * 0x40000 + x * 0x1000 + y * 0x40 + z"
  shows "utf8_char (w * 0x40000 + x * 0x1000 + y * 0x40 + z) =
    [byte (0xF0 + w), byte (0x80 + x), byte (0x80 + y), byte (0x80 + z)]"
proof -
  let ?c = "w * 0x40000 + x * 0x1000 + y * 0x40 + z"
  have "?c = ((w * 0x40 + x) * 0x40 + y) * 0x40 + z" by simp
  then have c64: "?c div 0x40 = (w * 0x40 + x) * 0x40 + y" "?c mod 0x40 = z"
    using div_mod_0x40 [OF assms(1)] by metis+
  moreover from c64 have c12: "?c div 0x1000 = w * 0x40 + x" "?c div 0x40 mod 0x40 = y"
    using div_mod_0x40 [OF assms(2), of "w * 0x40 + x"] div_0x1000 [of ?c] by metis+
  moreover from c12 have "?c div 0x40000 = w" "?c div 0x1000 mod 0x40 = x"
    using div_mod_0x40 [OF assms(3), of w] div_0x1000 [of ?c] by metis+
  ultimately show ?thesis using c by (simp add: utf8_char_def)
qed

lemma utf8_next_inverse: "utf8_next bs = Some (c, r) \<Longrightarrow> bs = utf8_char c @ r \<and> scalar c"
proof (cases bs)
  case Nil
  assume "utf8_next bs = Some (c, r)"
  with Nil show ?thesis by simp
next
  case (Cons b0 bs')
  assume n: "utf8_next bs = Some (c, r)"
  consider "unat b0 < 0x80" | "0xC0 \<le> unat b0" "unat b0 < 0xE0"
    | "0xE0 \<le> unat b0" "unat b0 < 0xF0" | "0xF0 \<le> unat b0"
    using n Cons by (fastforce split: if_splits)
  then show ?thesis
  proof cases
    case 1
    with n Cons show ?thesis by (auto simp: utf8_char_def scalar_def)
  next
    case 2
    then obtain x where x: "x < 0x20" "b0 = byte (0xC0 + x)" using byte_range [of "0xC0" b0 "0x20"] by auto
    with 2 n Cons obtain b1 where bs': "bs' = b1 # r" and b1: "cont_byte b1" and c80: "128 \<le> c"
      and c: "c = x * 64 + (unat b1 - 128)"
      by (auto simp: Let_def split: if_splits list.splits)
    from cont_byteE [OF b1] obtain y where "y < 0x40" "b1 = byte (0x80 + y)" by blast
    with x c c80 Cons bs' utf8_char2 [of y x] show ?thesis
      by (auto simp: scalar_def)
  next
    case 3
    then obtain x where x: "x < 0x10" "b0 = byte (0xE0 + x)" using byte_range [of "0xE0" b0 "0x10"] by auto
    with 3 n Cons obtain b1 b2 where bs': "bs' = b1 # b2 # r" and b: "cont_byte b1" "cont_byte b2"
      and c800: "2048 \<le> c" "scalar c"
      and c: "c = x * 4096 + (unat b1 - 128) * 64 + (unat b2 - 128)"
      by (auto simp: Let_def split: if_splits list.splits)
    from b [THEN cont_byteE] obtain y z where "y < 0x40" "b1 = byte (0x80 + y)"
      "z < 0x40" "b2 = byte (0x80 + z)" by blast
    with x c c800 Cons bs' utf8_char3 [of z y x] show ?thesis by auto
  next
    case 4
    then obtain x where x: "x < 0x10" "b0 = byte (0xF0 + x)" using byte_range [of "0xF0" b0 "0x10"] by auto
    with 4 n Cons obtain b1 b2 b3 where bs': "bs' = b1 # b2 # b3 # r"
      and b: "cont_byte b1" "cont_byte b2" "cont_byte b3" and c800: "65536 \<le> c" "scalar c"
      and c: "c = x * 262144 + (unat b1 - 128) * 4096 + (unat b2 - 128) * 64 + (unat b3 - 128)"
      by (auto simp: Let_def split: if_splits list.splits)
    from b [THEN cont_byteE] obtain y z w where "y < 0x40" "b1 = byte (0x80 + y)"
      "z < 0x40" "b2 = byte (0x80 + z)" "w < 0x40" "b3 = byte (0x80 + w)" by blast
    with x c c800 Cons bs' utf8_char4 [of w z y x] show ?thesis by auto
  qed
qed

lemma utf8_encode_decode:
  "utf8_decode bs = Some s \<Longrightarrow> utf8_encode s = bs \<and> valid_rstring s"
proof (induction bs arbitrary: s rule: utf8_decode.induct)
  case (1 bs)
  show ?case
  proof (cases "bs = []")
    case True
    with "1.prems" show ?thesis by simp
  next
    case False
    with "1.prems" obtain c r t where n: "utf8_next bs = Some (c, r)"
      and t: "utf8_decode r = Some t" and s: "s = c # t"
      by (subst (asm) utf8_decode.simps) (auto split: option.splits)
    from "1.IH" [OF False n refl t] utf8_next_inverse [OF n] s show ?thesis by simp
  qed
qed

end
