(* ===== verification/Wire.thy ===== *)
theory Wire
  imports Utf8
begin

text \<open>
  The wire primitives of \<open>ignite-rs/src/protocol/mod.rs\<close>: the type codes, the little-endian readers
  and writers of every primitive, strings, enums, primitive arrays and the \<open>WrappedData\<close> envelope.

  A writer is the list of bytes it appends (a \<open>Vec<u8>\<close> sink never fails). The locale \<open>codec\<close> is the
  contract between a writer and its reader; it is interpreted on every primitive of this theory, and
  the theories of the composite formats are its clients.
\<close>

section \<open>Constants and type codes\<close>

definition FLAG_USER_TYPE :: u16 where "FLAG_USER_TYPE = 0x0001"
definition FLAG_HAS_SCHEMA :: u16 where "FLAG_HAS_SCHEMA = 0x0002"
definition HAS_RAW_DATA :: u16 where "HAS_RAW_DATA = 0x0004"
definition FLAG_COMPACT_FOOTER :: u16 where "FLAG_COMPACT_FOOTER = 0x0020"
definition FLAG_OFFSET_ONE_BYTE :: u16 where "FLAG_OFFSET_ONE_BYTE = 0x0008"
definition FLAG_OFFSET_TWO_BYTES :: u16 where "FLAG_OFFSET_TWO_BYTES = 0x0010"

definition COMPLEX_OBJ_HEADER_LEN :: nat where "COMPLEX_OBJ_HEADER_LEN = 24"

datatype type_code =
    TcByte | TcShort | TcInt | TcLong | TcFloat | TcDouble
  | TcChar | TcBool | TcString | TcUuid | TcDate | TcArrByte
  | TcArrShort | TcArrInt | TcArrLong | TcArrFloat | TcArrDouble | TcArrChar
  | TcArrBool | TcArrString | TcArrUuid | TcArrDate | TcArrObj | TcCollection
  | TcMap | TcDecimal | TcArrDecimal | TcTimestamp | TcArrTimestamp | TcTime
  | TcArrTime | TcWrappedData | TcEnum | TcArrEnum | TcBinaryEnum | TcNull
  | TcHandle | TcComplexObj | TcClass | TcProxy | TcTransformed | TcOptimizedMarshaller

text \<open>The cast \<open>type_code as u8\<close>, and \<open>TryFrom<u8>\<close>.\<close>

fun type_code_u8 :: "type_code \<Rightarrow> u8" where
  "type_code_u8 TcByte = 1"
| "type_code_u8 TcShort = 2"
| "type_code_u8 TcInt = 3"
| "type_code_u8 TcLong = 4"
| "type_code_u8 TcFloat = 5"
| "type_code_u8 TcDouble = 6"
| "type_code_u8 TcChar = 7"
| "type_code_u8 TcBool = 8"
| "type_code_u8 TcString = 9"
| "type_code_u8 TcUuid = 10"
| "type_code_u8 TcDate = 11"
| "type_code_u8 TcArrByte = 12"
| "type_code_u8 TcArrShort = 13"
| "type_code_u8 TcArrInt = 14"
| "type_code_u8 TcArrLong = 15"
| "type_code_u8 TcArrFloat = 16"
| "type_code_u8 TcArrDouble = 17"
| "type_code_u8 TcArrChar = 18"
| "type_code_u8 TcArrBool = 19"
| "type_code_u8 TcArrString = 20"
| "type_code_u8 TcArrUuid = 21"
| "type_code_u8 TcArrDate = 22"
| "type_code_u8 TcArrObj = 23"
| "type_code_u8 TcCollection = 24"
| "type_code_u8 TcMap = 25"
| "type_code_u8 TcDecimal = 30"
| "type_code_u8 TcArrDecimal = 31"
| "type_code_u8 TcTimestamp = 33"
| "type_code_u8 TcArrTimestamp = 34"
| "type_code_u8 TcTime = 36"
| "type_code_u8 TcArrTime = 37"
| "type_code_u8 TcWrappedData = 27"
| "type_code_u8 TcEnum = 28"
| "type_code_u8 TcArrEnum = 29"
| "type_code_u8 TcBinaryEnum = 38"
| "type_code_u8 TcNull = 101"
| "type_code_u8 TcHandle = 102"
| "type_code_u8 TcComplexObj = 103"
| "type_code_u8 TcClass = 32"
| "type_code_u8 TcProxy = 35"
| "type_code_u8 TcTransformed = 253"
| "type_code_u8 TcOptimizedMarshaller = 254"

definition type_code_try_from :: "u8 \<Rightarrow> type_code option" where
  "type_code_try_from value =
    (if value = 1 then Some TcByte
     else if value = 2 then Some TcShort
     else if value = 3 then Some TcInt
     else if value = 4 then Some TcLong
     else if value = 5 then Some TcFloat
     else if value = 6 then Some TcDouble
     else if value = 7 then Some TcChar
     else if value = 8 then Some TcBool
     else if value = 9 then Some TcString
     else if value = 10 then Some TcUuid
     else if value = 11 then Some TcDate
     else if value = 28 then Some TcEnum
     else if value = 29 then Some TcArrEnum
     else if value = 12 then Some TcArrByte
     else if value = 13 then Some TcArrShort
     else if value = 14 then Some TcArrInt
     else if value = 15 then Some TcArrLong
     else if value = 16 then Some TcArrFloat
     else if value = 17 then Some TcArrDouble
     else if value = 18 then Some TcArrChar
     else if value = 19 then Some TcArrBool
     else if value = 20 then Some TcArrString
     else if value = 21 then Some TcArrUuid
     else if value = 22 then Some TcArrDate
     else if value = 23 then Some TcArrObj
     else if value = 30 then Some TcDecimal
     else if value = 31 then Some TcArrDecimal
     else if value = 33 then Some TcTimestamp
     else if value = 34 then Some TcArrTimestamp
     else if value = 36 then Some TcTime
     else if value = 37 then Some TcArrTime
     else if value = 38 then Some TcBinaryEnum
     else if value = 24 then Some TcCollection
     else if value = 25 then Some TcMap
     else if value = 27 then Some TcWrappedData
     else if value = 32 then Some TcClass
     else if value = 35 then Some TcProxy
     else if value = 102 then Some TcHandle
     else if value = 103 then Some TcComplexObj
     else if value = 101 then Some TcNull
     else if value = 253 then Some TcTransformed
     else if value = 254 then Some TcOptimizedMarshaller
     else None)"

text \<open>\<open>Flag\<close> of the general response header.\<close>

datatype flag = Success | Failure i32 rstring

section \<open>Primitives\<close>

definition read_le :: "nat \<Rightarrow> 'a::len word reader" where
  "read_le n = rmap (\<lambda>bs. word_of_nat (of_le bs)) (read_exact n)"

definition read_u8 :: "u8 reader" where
  "read_u8 = read_le 1"

definition write_u8 :: "u8 \<Rightarrow> bytes" where
  "write_u8 v = to_le 1 (unat v)"

definition read_i8 :: "i8 reader" where
  "read_i8 = read_le 1"

definition write_i8 :: "i8 \<Rightarrow> bytes" where
  "write_i8 v = to_le 1 (unat v)"

definition read_u16 :: "u16 reader" where
  "read_u16 = read_le 2"

definition write_u16 :: "u16 \<Rightarrow> bytes" where
  "write_u16 v = to_le 2 (unat v)"

definition read_i16 :: "i16 reader" where
  "read_i16 = read_le 2"

definition write_i16 :: "i16 \<Rightarrow> bytes" where
  "write_i16 v = to_le 2 (unat v)"

definition read_i32 :: "i32 reader" where
  "read_i32 = read_le 4"

definition write_i32 :: "i32 \<Rightarrow> bytes" where
  "write_i32 v = to_le 4 (unat v)"

definition read_u32 :: "u32 reader" where
  "read_u32 = read_le 4"

definition write_u32 :: "u32 \<Rightarrow> bytes" where
  "write_u32 v = to_le 4 (unat v)"

definition read_u64 :: "u64 reader" where
  "read_u64 = read_le 8"

definition write_u64 :: "u64 \<Rightarrow> bytes" where
  "write_u64 v = to_le 8 (unat v)"

definition read_i64 :: "i64 reader" where
  "read_i64 = read_le 8"

definition write_i64 :: "i64 \<Rightarrow> bytes" where
  "write_i64 v = to_le 8 (unat v)"

definition read_f32 :: "f32 reader" where
  "read_f32 = read_le 4"

definition write_f32 :: "f32 \<Rightarrow> bytes" where
  "write_f32 v = to_le 4 (unat v)"

definition read_f64 :: "f64 reader" where
  "read_f64 = read_le 8"

definition write_f64 :: "f64 \<Rightarrow> bytes" where
  "write_f64 v = to_le 8 (unat v)"

definition read_bool :: "bool reader" where
  "read_bool = rmap (\<lambda>bs. bs \<noteq> [0]) (read_exact 1)"

definition write_bool :: "bool \<Rightarrow> bytes" where
  "write_bool v = (if v then write_u8 1 else write_u8 0)"

section \<open>Strings, arrays, enums\<close>

definition write_string :: "rstring \<Rightarrow> bytes" where
  "write_string value = write_i32 (i32_of_usize (str_len value)) @ utf8_encode value"

definition write_string_type_code :: "rstring \<Rightarrow> bytes" where
  "write_string_type_code value =
    write_u8 (type_code_u8 TcString) @ write_i32 (i32_of_usize (str_len value)) @ utf8_encode value"

definition read_string :: "rstring reader" where
  "read_string = rbind read_i32 (\<lambda>str_len.
     rbind (read_vec (usize_of_i32 str_len)) (\<lambda>new_alloc.
       case utf8_decode new_alloc of
         Some s \<Rightarrow> ret s
       | None \<Rightarrow> fail (IoE InvalidUtf8)))"

definition read_primitive_arr :: "'a reader \<Rightarrow> 'a list reader" where
  "read_primitive_arr read_fn = rbind read_i32 (\<lambda>len.
     rbind (with_capacity len) (\<lambda>_. repeat_read (i32_range len) read_fn))"

record enum =
  enum_type_id :: i32
  enum_ordinal :: i32

definition read_enum :: "enum reader" where
  "read_enum = rbind read_i32 (\<lambda>type_id. rbind read_i32 (\<lambda>ordinal.
     ret \<lparr>enum_type_id = type_id, enum_ordinal = ordinal\<rparr>))"

definition write_enum :: "enum \<Rightarrow> bytes" where
  "write_enum val = write_i32 (enum_type_id val) @ write_i32 (enum_ordinal val)"

definition write_null :: bytes where
  "write_null = write_u8 (type_code_u8 TcNull)"

section \<open>Type codes on the wire, and the envelope of wrapped data\<close>

definition read_type_code :: "type_code reader" where
  "read_type_code = rbind read_u8 (\<lambda>v.
     case type_code_try_from v of Some tc \<Rightarrow> ret tc | None \<Rightarrow> fail (CannotReadTypeCode v))"

definition read_object :: "unit option reader" where
  "read_object = rbind read_u8 (\<lambda>flag.
     case type_code_try_from flag of
       None \<Rightarrow> fail (CannotReadTypeCode flag)
     | Some TcNull \<Rightarrow> ret (Some ())
     | Some _ \<Rightarrow> fail (CannotReadTypeCode flag))"

text \<open>In the envelope the value is read without \<open>?\<close>: its error is returned only after the trailing
  offset has been read, and an error there takes precedence.\<close>

definition wrapped_value :: "'a option reader \<Rightarrow> 'a option reader" where
  "wrapped_value rd s = (case rd s of
      Ok v s' \<Rightarrow> rbind read_i32 (\<lambda>_. ret v) s'
    | Err e s' \<Rightarrow> rbind read_i32 (\<lambda>_. fail e) s'
    | Panic \<Rightarrow> Panic
    | NoFuel \<Rightarrow> NoFuel)"

text \<open>\<open>rd\<close> is \<open>T::read\<close>, \<open>ru\<close> is \<open>T::read_unwrapped\<close>.\<close>

definition read_wrapped_data ::
    "'a option reader \<Rightarrow> (type_code \<Rightarrow> 'a option reader) \<Rightarrow> 'a option reader" where
  "read_wrapped_data rd ru = rbind read_type_code (\<lambda>type_code.
     case type_code of
       TcNull \<Rightarrow> ret None
     | TcWrappedData \<Rightarrow> rbind read_i32 (\<lambda>_. wrapped_value rd)
     | _ \<Rightarrow> ru type_code)"

text \<open>The default \<open>ReadableType::read\<close> of a type whose \<open>read_unwrapped\<close> is \<open>ru\<close>. The envelopes may be
  nested; each level costs five bytes, so the length of the input bounds the recursion.\<close>

fun readable_read_fuel :: "nat \<Rightarrow> (type_code \<Rightarrow> 'a option reader) \<Rightarrow> 'a option reader" where
  "readable_read_fuel 0 ru s = NoFuel"
| "readable_read_fuel (Suc n) ru s = read_wrapped_data (readable_read_fuel n ru) ru s"

definition readable_read :: "(type_code \<Rightarrow> 'a option reader) \<Rightarrow> 'a option reader" where
  "readable_read ru s = readable_read_fuel (Suc (length s)) ru s"

section \<open>The contract of a writer and its reader\<close>

text \<open>\<open>ok\<close> are the values the format can carry (a string of less than \<open>2 ^ 31\<close> bytes, say).\<close>

locale codec =
  fixes enc :: "'a \<Rightarrow> bytes" and dec :: "'a reader" and ok :: "'a \<Rightarrow> bool"
  assumes dec_enc: "ok x \<Longrightarrow> dec (enc x @ s) = Ok x s"
    and dec_shrinks: "shrinks 0 dec"
    and dec_fueled: "fueled L dec"
begin

lemma dec_enc_end: "ok x \<Longrightarrow> dec (enc x) = Ok x []"
  using dec_enc [of x "[]"] by simp

text \<open>Encodings are uniquely decodable, whatever follows them.\<close>

lemma enc_unique: "ok x \<Longrightarrow> ok y \<Longrightarrow> enc x @ s = enc y @ t \<Longrightarrow> x = y \<and> s = t"
  using dec_enc [of x s] dec_enc [of y t] by (metis outcome.inject(1))

lemma repeat_dec_enc:
  "list_all ok xs \<Longrightarrow> repeat_read (length xs) dec (concat (map enc xs) @ s) = Ok xs s"
  using repeat_read_concat [of xs dec enc "\<lambda>x. x"] by (simp add: list_all_iff dec_enc)

end

locale fixed_codec = codec enc dec "\<lambda>_. True" for enc :: "'a \<Rightarrow> bytes" and dec +
  fixes width :: nat
  assumes enc_length: "length (enc x) = width"
begin

lemma dec_enc_any [simp]: "dec (enc x @ s) = Ok x s"
  by (rule dec_enc) simp

lemma length_concat_enc: "length (concat (map enc xs)) = width * length xs"
  by (induction xs) (simp_all add: enc_length)

end

lemma read_le_write:
  fixes w :: "'a::len word"
  assumes "2 ^ LENGTH('a) = (256::nat) ^ n"
  shows "read_le n (to_le n (unat w) @ s) = Ok w s"
  unfolding read_le_def
  by (subst rmap_Ok [where m = "read_exact n", OF read_exact_append [OF length_to_le]])
    (simp add: of_le_to_le_unat [OF assms])

lemma shrinks_read_le [progress_intros]: "shrinks n (read_le n)"
  unfolding read_le_def by (intro shrinks_rmap shrinks_read_exact)

lemma fueled_read_le [fuel_intros]: "fueled L (read_le n)"
  unfolding read_le_def by (intro fueled_rmap fueled_read_exact shrinks_mono [OF shrinks_read_exact]) simp

lemma fixed_codec_le:
  assumes "2 ^ LENGTH('a::len) = (256::nat) ^ n"
  shows "fixed_codec (\<lambda>w :: 'a word. to_le n (unat w)) (read_le n) n"
  by unfold_locales
    (simp_all add: read_le_write [OF assms] fueled_read_le shrinks_mono [OF shrinks_read_le])

interpretation u8: fixed_codec write_u8 read_u8 1
  unfolding write_u8_def [abs_def] read_u8_def by (rule fixed_codec_le) simp

interpretation i8: fixed_codec write_i8 read_i8 1
  unfolding write_i8_def [abs_def] read_i8_def by (rule fixed_codec_le) simp

interpretation u16: fixed_codec write_u16 read_u16 2
  unfolding write_u16_def [abs_def] read_u16_def by (rule fixed_codec_le) simp

interpretation i16: fixed_codec write_i16 read_i16 2
  unfolding write_i16_def [abs_def] read_i16_def by (rule fixed_codec_le) simp

interpretation i32: fixed_codec write_i32 read_i32 4
  unfolding write_i32_def [abs_def] read_i32_def by (rule fixed_codec_le) simp

interpretation u32: fixed_codec write_u32 read_u32 4
  unfolding write_u32_def [abs_def] read_u32_def by (rule fixed_codec_le) simp

interpretation u64: fixed_codec write_u64 read_u64 8
  unfolding write_u64_def [abs_def] read_u64_def by (rule fixed_codec_le) simp

interpretation i64: fixed_codec write_i64 read_i64 8
  unfolding write_i64_def [abs_def] read_i64_def by (rule fixed_codec_le) simp

interpretation f32: fixed_codec write_f32 read_f32 4
  unfolding write_f32_def [abs_def] read_f32_def by (rule fixed_codec_le) simp

interpretation f64: fixed_codec write_f64 read_f64 8
  unfolding write_f64_def [abs_def] read_f64_def by (rule fixed_codec_le) simp

lemma shrinks_prims [progress_intros]:
  "shrinks 1 read_u8"
  "shrinks 1 read_i8"
  "shrinks 2 read_u16"
  "shrinks 2 read_i16"
  "shrinks 4 read_i32"
  "shrinks 4 read_u32"
  "shrinks 8 read_u64"
  "shrinks 8 read_i64"
  "shrinks 4 read_f32"
  "shrinks 8 read_f64"
  by (simp_all add: read_u8_def read_i8_def read_u16_def read_i16_def read_i32_def read_u32_def read_u64_def read_i64_def read_f32_def read_f64_def shrinks_read_le)

lemmas shrinks0_prims [progress_intros] =
  u8.dec_shrinks i8.dec_shrinks u16.dec_shrinks i16.dec_shrinks i32.dec_shrinks u32.dec_shrinks u64.dec_shrinks i64.dec_shrinks f32.dec_shrinks f64.dec_shrinks

lemmas fueled_prims [fuel_intros] =
  u8.dec_fueled i8.dec_fueled u16.dec_fueled i16.dec_fueled i32.dec_fueled u32.dec_fueled u64.dec_fueled i64.dec_fueled f32.dec_fueled f64.dec_fueled

lemmas length_writes [simp] =
  u8.enc_length i8.enc_length u16.enc_length i16.enc_length i32.enc_length u32.enc_length u64.enc_length i64.enc_length f32.enc_length f64.enc_length

lemma write_u8_eq: "write_u8 b = [b]"
  by (simp add: write_u8_def byte_def)

lemma read_bool_write: "read_bool (write_bool b @ s) = Ok b s"
  by (simp add: read_bool_def write_bool_def write_u8_def byte_def rmap_def rbind_def read_exact_def)

lemma shrinks_read_bool [progress_intros]: "shrinks 1 read_bool"
  unfolding read_bool_def by (intro shrinks_rmap shrinks_read_exact)

lemma fueled_read_bool [fuel_intros]: "fueled L read_bool"
  unfolding read_bool_def
  by (intro fueled_rmap fueled_read_exact shrinks_mono [OF shrinks_read_exact]) simp

lemma length_write_bool [simp]: "length (write_bool b) = 1"
  by (simp add: write_bool_def)

interpretation bool: fixed_codec write_bool read_bool 1
  by unfold_locales
    (simp_all add: read_bool_write fueled_read_bool shrinks_mono [OF shrinks_read_bool])

lemmas bool_codec [progress_intros] = bool.dec_shrinks

lemma read_enum_write: "read_enum (write_enum v @ s) = Ok v s"
  by (simp add: read_enum_def write_enum_def rbind_Ok)

lemma length_write_enum [simp]: "length (write_enum v) = 8"
  by (simp add: write_enum_def)

lemma shrinks_read_enum [progress_intros]: "shrinks 0 read_enum"
  unfolding read_enum_def by (intro progress_intros)

lemma fueled_read_enum [fuel_intros]: "fueled L read_enum"
  unfolding read_enum_def by (intro fuel_intros progress_intros)

interpretation enum: fixed_codec write_enum read_enum 8
  by unfold_locales (simp_all add: read_enum_write shrinks_read_enum fueled_read_enum)

definition ok_string :: "rstring \<Rightarrow> bool" where
  "ok_string s \<longleftrightarrow> valid_rstring s \<and> str_len s < 2 ^ 31"

lemma read_string_write: "ok_string v \<Longrightarrow> read_string (write_string v @ s) = Ok v s"
  unfolding read_string_def write_string_def ok_string_def
  by (simp add: rbind_Ok read_vec_append len_casts str_len_def utf8_decode_encode)

lemma shrinks0_read_vec [progress_intros]: "shrinks 0 (read_vec n)"
  by (rule shrinks_mono [OF shrinks_read_vec]) simp

lemma shrinks_read_string [progress_intros]: "shrinks 0 read_string"
  unfolding read_string_def by (auto intro!: progress_intros split: option.split)

lemma fueled_read_string [fuel_intros]: "fueled L read_string"
  unfolding read_string_def by (auto intro!: progress_intros fuel_intros split: option.split)

interpretation str: codec write_string read_string ok_string
  by unfold_locales (simp_all add: read_string_write shrinks_read_string fueled_read_string)

lemma length_write_string [simp]: "length (write_string v) = 4 + str_len v"
  by (simp add: write_string_def str_len_def)

context codec
begin

definition write_arr :: "'a list \<Rightarrow> bytes" where
  "write_arr xs = write_i32 (i32_of_usize (length xs)) @ concat (map enc xs)"

lemma read_primitive_arr_write:
  "list_all ok xs \<Longrightarrow> length xs < 2 ^ 31 \<Longrightarrow> read_primitive_arr dec (write_arr xs @ s) = Ok xs s"
  by (simp add: read_primitive_arr_def write_arr_def rbind_Ok len_casts repeat_dec_enc)

end

section \<open>Type codes\<close>

lemma type_code_try_from_u8: "type_code_try_from (type_code_u8 tc) = Some tc"
  by (cases tc) (simp_all add: type_code_try_from_def)

lemma type_code_u8_inject: "type_code_u8 a = type_code_u8 b \<longleftrightarrow> a = b"
  using type_code_try_from_u8 by (metis option.inject)

lemma type_code_u8_try_from: "type_code_try_from v = Some tc \<Longrightarrow> type_code_u8 tc = v"
  by (simp add: type_code_try_from_def split: if_splits)

declare type_code_u8.simps [simp del]

lemma read_type_code_write [reader_simps]:
  "read_type_code (write_u8 (type_code_u8 tc) @ s) = Ok tc s"
  by (simp add: read_type_code_def rbind_Ok type_code_try_from_u8)

lemma shrinks_read_type_code [progress_intros]: "shrinks 1 read_type_code"
  unfolding read_type_code_def
  by (rule shrinks_then [OF shrinks_prims(1)]) (auto intro: progress_intros split: option.split)

lemma fueled_read_type_code [fuel_intros]: "fueled L read_type_code"
  unfolding read_type_code_def by (auto intro!: fuel_intros progress_intros split: option.split)

section \<open>Envelopes: the recursion is bounded by the input\<close>

lemma shrinks_wrapped_value: "shrinks k rd \<Longrightarrow> shrinks k (wrapped_value rd)"
  unfolding shrinks_def
proof (intro allI impI)
  fix s x s'
  assume rd: "\<forall>s x s'. rd s = Ok x s' \<longrightarrow> length s' + k \<le> length s"
    and w: "wrapped_value rd s = Ok x s'"
  from w obtain v t where "rd s = Ok v t" and r: "rbind read_i32 (\<lambda>_. ret v) t = Ok x s'"
    by (auto simp: wrapped_value_def rbind_eq_Ok split: outcome.splits)
  moreover from r have "length s' \<le> length t"
    using shrinksD [OF shrinks0_prims(5)] by (auto simp: rbind_eq_Ok)
  ultimately show "length s' + k \<le> length s" using rd by fastforce
qed

lemma fueled_wrapped_value: "fueled L rd \<Longrightarrow> fueled L (wrapped_value rd)"
  unfolding fueled_def wrapped_value_def
  by (auto simp: rbind_def read_i32_def read_le_def rmap_def read_exact_def split: outcome.split)

lemma shrinks_read_wrapped_data:
  assumes "shrinks 0 rd" and "\<And>tc. shrinks 0 (ru tc)"
  shows "shrinks 1 (read_wrapped_data rd ru)"
  unfolding read_wrapped_data_def
proof (rule shrinks_then [OF shrinks_read_type_code])
  have "shrinks 0 (rbind read_i32 (\<lambda>_. wrapped_value rd))"
    by (intro progress_intros shrinks_wrapped_value assms(1))
  then show "shrinks 0 (case tc of TcNull \<Rightarrow> ret None
      | TcWrappedData \<Rightarrow> rbind read_i32 (\<lambda>_. wrapped_value rd) | _ \<Rightarrow> ru tc)" for tc
    using assms(2) [of tc] by (cases tc) (simp_all add: shrinks_ret)
qed

lemma fueled_read_wrapped_data:
  assumes "fueled (L - 5) rd" and "\<And>tc. fueled (L - 1) (ru tc)"
  shows "fueled L (read_wrapped_data rd ru)"
  unfolding read_wrapped_data_def
proof (rule fueled_rbind_shrink [OF fueled_read_type_code shrinks_read_type_code])
  have "fueled (L - 1) (rbind read_i32 (\<lambda>_. wrapped_value rd))"
    by (rule fueled_rbind_shrink [OF i32.dec_fueled shrinks_prims(5)])
      (simp add: assms(1) fueled_wrapped_value)
  then show "fueled (L - 1) (case tc of TcNull \<Rightarrow> ret None
      | TcWrappedData \<Rightarrow> rbind read_i32 (\<lambda>_. wrapped_value rd) | _ \<Rightarrow> ru tc)" for tc
    using assms(2) [of tc] by (cases tc) (simp_all add: fueled_ret)
qed

lemma shrinks_readable_read_fuel:
  "(\<And>tc. shrinks 0 (ru tc)) \<Longrightarrow> shrinks 0 (readable_read_fuel n ru)"
proof (induction n)
  case 0
  then show ?case by (simp add: shrinks_def)
next
  case (Suc n)
  have "readable_read_fuel (Suc n) ru = read_wrapped_data (readable_read_fuel n ru) ru"
    by (simp add: fun_eq_iff)
  with shrinks_mono [OF shrinks_read_wrapped_data [OF Suc.IH [OF Suc.prems] Suc.prems]]
  show ?case by simp
qed

lemma wrapped_value_cong:
  "(\<And>t. length t \<le> length s \<Longrightarrow> rd t = rd' t) \<Longrightarrow> wrapped_value rd s = wrapped_value rd' s"
  by (simp add: wrapped_value_def)

lemma read_wrapped_data_cong:
  assumes "\<And>t. length t < length s \<Longrightarrow> rd t = rd' t"
    and "\<And>tc t. length t < length s \<Longrightarrow> ru tc t = ru' tc t"
  shows "read_wrapped_data rd ru s = read_wrapped_data rd' ru' s"
proof (cases "read_type_code s")
  case (Ok tc s')
  with shrinksD [OF shrinks_read_type_code] have lt: "length s' < length s" by fastforce
  have w: "rbind read_i32 (\<lambda>_. wrapped_value rd) s' = rbind read_i32 (\<lambda>_. wrapped_value rd') s'"
  proof (cases "read_i32 s'")
    case i: (Ok l t)
    with shrinksD [OF i32.dec_shrinks] lt have "length t < length s" by fastforce
    then have "wrapped_value rd t = wrapped_value rd' t"
      by (intro wrapped_value_cong assms(1)) simp
    with i show ?thesis by (simp add: rbind_Ok)
  qed (simp_all add: rbind_def)
  from Ok w assms(2) [OF lt, of tc] show ?thesis
    by (cases tc) (simp_all add: read_wrapped_data_def rbind_Ok)
qed (simp_all add: read_wrapped_data_def rbind_def)

text \<open>More fuel than bytes is enough, and then the amount does not matter.\<close>

lemma readable_read_fuel_enough:
  "length s < n \<Longrightarrow> length s < m \<Longrightarrow> readable_read_fuel n ru s = readable_read_fuel m ru s"
proof (induction n arbitrary: m s)
  case 0
  then show ?case by simp
next
  case (Suc n)
  then obtain k where m: "m = Suc k" by (cases m) auto
  have "readable_read_fuel n ru t = readable_read_fuel k ru t" if "length t < length s" for t
    using Suc.IH [of t k] Suc.prems that m by simp
  then show ?case
    using read_wrapped_data_cong [of s "readable_read_fuel n ru" "readable_read_fuel k ru" ru ru] m
    by simp
qed

text \<open>\<open>readable_read\<close> satisfies the equation of the source, with no fuel in it.\<close>

lemma readable_read_unfold: "readable_read ru s = read_wrapped_data (readable_read ru) ru s"
proof -
  have "readable_read_fuel (length s) ru t = readable_read ru t" if "length t < length s" for t
    using readable_read_fuel_enough [of t "length s" "Suc (length t)" ru] that
    by (simp add: readable_read_def del: readable_read_fuel.simps)
  then show ?thesis
    using read_wrapped_data_cong [of s "readable_read_fuel (length s) ru" "readable_read ru" ru ru]
    by (simp add: readable_read_def [of ru s])
qed

lemma shrinks_readable_read: "(\<And>tc. shrinks 0 (ru tc)) \<Longrightarrow> shrinks 0 (readable_read ru)"
  unfolding shrinks_def readable_read_def
  using shrinks_readable_read_fuel [of ru] unfolding shrinks_def by blast

lemma fueled_readable_read_fuel:
  "(\<And>tc L. fueled L (ru tc)) \<Longrightarrow> fueled n (readable_read_fuel n ru)"
proof (induction n)
  case 0
  then show ?case by (simp add: fueled_def)
next
  case (Suc n)
  have "fueled (Suc n - 5) (readable_read_fuel n ru)"
    by (rule fueled_mono [OF Suc.IH [OF Suc.prems]]) simp
  then have "fueled (Suc n) (read_wrapped_data (readable_read_fuel n ru) ru)"
    by (rule fueled_read_wrapped_data) (rule Suc.prems)
  then show ?case by (simp add: fueled_def)
qed

lemma fueled_readable_read: "(\<And>tc L. fueled L (ru tc)) \<Longrightarrow> fueled L (readable_read ru)"
  using fueled_readable_read_fuel [of ru] by (auto simp: fueled_def readable_read_def simp del: readable_read_fuel.simps)

lemma readable_read_value:
  assumes "tc \<noteq> TcNull" and "tc \<noteq> TcWrappedData"
  shows "readable_read ru (write_u8 (type_code_u8 tc) @ s) = ru tc s"
  using assms
  by (subst readable_read_unfold, cases tc)
    (simp_all only: read_wrapped_data_def rbind_Ok [where m = read_type_code, OF read_type_code_write]
      type_code.case simp_thms)

lemma readable_read_null: "readable_read ru (write_u8 (type_code_u8 TcNull) @ s) = Ok None s"
  by (subst readable_read_unfold)
    (simp only: read_wrapped_data_def rbind_Ok [where m = read_type_code, OF read_type_code_write]
      type_code.case ret_apply)

section \<open>Properties\<close>

text \<open>Strings on the wire. A valid string of less than \<open>2 ^ 31\<close> bytes is read back, with the rest of
  the stream left; the written length is four more than its UTF-8 length; and a negative length from
  the wire is not an error but a panic of the decoder.\<close>

theorem string_wire:
  "(ok_string v \<longrightarrow> read_string (write_string v @ s) = Ok v s) \<and>
   length (write_string v) = 4 + str_len v \<and>
   (sint n < 0 \<longrightarrow> read_string (write_i32 n @ s) = Panic)"
proof -
  have "read_string (write_i32 n @ s) = Panic" if "sint n < 0"
    using usize_of_i32_neg [OF that] by (simp add: read_string_def rbind_Ok read_vec_def rbind_Panic)
  then show ?thesis by (simp add: read_string_write)
qed

theorem string_wire_witness:
  "read_string (write_string [104, 105] @ [7]) = Ok [104, 105] [7] \<and> read_string (write_i32 (- 1) @ []) = Panic"
  using string_wire [of "[104, 105]" "[7]" 0] string_wire [of "[]" "[]" "- 1"]
  by (simp add: ok_string_def valid_rstring_def scalar_def str_len_def utf8_encode_def utf8_char_def)

text \<open>The type codes are one-to-one with their bytes: a byte decodes to a type code exactly when it is
  the byte of that code, so that no two codes share a byte and every other byte is refused.\<close>

theorem type_codes_bijective:
  "type_code_try_from v = Some tc \<longleftrightarrow> type_code_u8 tc = v"
  using type_code_try_from_u8 type_code_u8_try_from by blast

text \<open>A value in \<open>n\<close> envelopes.\<close>

primrec envelopes :: "nat \<Rightarrow> bytes \<Rightarrow> bytes" where
  "envelopes 0 b = b"
| "envelopes (Suc n) b = write_u8 (type_code_u8 TcWrappedData) @
     write_i32 (i32_of_usize (length (envelopes n b))) @ envelopes n b @ write_i32 0"

lemma read_envelopes:
  assumes "\<And>t. readable_read ru (b @ t) = Ok v t"
  shows "readable_read ru (envelopes n b @ s) = Ok v s"
proof (induction n arbitrary: s)
  case (Suc n)
  have "readable_read ru (envelopes (Suc n) b @ s) =
      rbind read_i32 (\<lambda>_. wrapped_value (readable_read ru))
        (write_i32 (i32_of_usize (length (envelopes n b))) @ envelopes n b @ write_i32 0 @ s)"
    by (subst readable_read_unfold) (simp add: read_wrapped_data_def rbind_Ok read_type_code_write)
  then show ?case by (simp add: rbind_Ok wrapped_value_def Suc.IH)
qed (simp add: assms)

text \<open>\<open>WRAPPED_DATA\<close> envelopes are transparent: if the bytes of a value are decoded to it whatever
  follows, then so are the same bytes in any number of nested envelopes. The decoder ends on every
  input: its recursion through envelopes is bounded by the bytes they take.\<close>

theorem envelopes_transparent:
  assumes "\<And>t. readable_read ru (b @ t) = Ok v t"
  shows "readable_read ru (envelopes n b @ s) = Ok v s"
  using assms by (rule read_envelopes)

theorem envelopes_transparent_witness:
  "readable_read (\<lambda>tc. rmap Some read_i32) (envelopes 3 (write_u8 (type_code_u8 TcInt) @ write_i32 5) @ [1]) = Ok (Some 5) [1]"
  by (rule envelopes_transparent)
    (simp add: readable_read_value [of TcInt, simplified] rmap_Ok)

end
