(* ===== verification/Hashing.thy ===== *)
theory Hashing
  imports Wire
begin

text \<open>
  The hashes of \<open>ignite-rs/src/utils.rs\<close> by which types, fields, caches and keys are named on the
  wire, with the schema types of \<open>protocol/complex_obj.rs\<close> they are computed from.

  \<open>str::to_lowercase\<close> is driven by the Unicode tables of the Rust standard library; every definition
  that uses it takes it as the argument \<open>lc\<close>, and every fact below holds for any such function.
\<close>

unbundle bit_operations_syntax

section \<open>Schema types\<close>

datatype ignite_type =
    ItByte | ItString | ItLong | ItInt | ItShort | ItFloat | ItDouble | ItChar | ItBool | ItUuid
  | ItDate | ItTime | ItBinary | ItObject | ItArray | ItTimestamp
  | ItDecimal i32 i32  \<comment> \<open>precision, scale\<close>
  | ItEnum | ItNull | ItMap | ItCollection

record ignite_field =
  field_name :: rstring
  field_type :: ignite_type

record complex_object_schema =
  schema_type_name :: rstring
  schema_fields :: "ignite_field list"

type_synonym lowercase = "rstring \<Rightarrow> rstring"

section \<open>Hash functions\<close>

text \<open>In a release build \<open>+\<close> on \<open>i32\<close> wraps around.\<close>

definition java_hash_step :: "i32 \<Rightarrow> nat \<Rightarrow> i32" where
  "java_hash_step hash c = 31 * hash + word_of_nat c"

definition string_to_java_hashcode :: "rstring \<Rightarrow> i32" where
  "string_to_java_hashcode value = foldl java_hash_step 0 value"

text \<open>The same function in a build with overflow checks (the \<open>dev\<close> and \<open>test\<close> profiles): the product
  is \<open>overflowing_mul\<close> but the sum is a plain \<open>+\<close>, which panics (\<open>None\<close>) on overflow.\<close>

definition java_hash_step_checked :: "i32 option \<Rightarrow> nat \<Rightarrow> i32 option" where
  "java_hash_step_checked h c = (case h of
      None \<Rightarrow> None
    | Some hash \<Rightarrow>
        (if sint (31 * hash) + int c \<le> 2 ^ 31 - 1 then Some (31 * hash + word_of_nat c) else None))"

definition string_to_java_hashcode_checked :: "rstring \<Rightarrow> i32 option" where
  "string_to_java_hashcode_checked value = foldl java_hash_step_checked (Some 0) value"

definition bytes_to_java_hashcode :: "bytes \<Rightarrow> i32" where
  "bytes_to_java_hashcode data = foldl (\<lambda>h b. h * 31 + scast (b :: i8)) 1 data"

definition FNV1_OFFSET_BASIS :: i32 where
  "FNV1_OFFSET_BASIS = 0x811C9DC5"

definition FNV1_PRIME :: i32 where
  "FNV1_PRIME = 0x01000193"

definition schema_id_step :: "i32 \<Rightarrow> i32 \<Rightarrow> i32" where
  "schema_id_step acc field_id =
    (let res = acc XOR (field_id AND 0xFF);
         res = res * FNV1_PRIME;
         res = res XOR (signed_drop_bit 8 field_id AND 0xFF);
         res = res * FNV1_PRIME;
         res = res XOR (signed_drop_bit 16 field_id AND 0xFF);
         res = res * FNV1_PRIME;
         res = res XOR (signed_drop_bit 24 field_id AND 0xFF)
     in res * FNV1_PRIME)"

definition field_id_of :: "lowercase \<Rightarrow> rstring \<Rightarrow> i32" where
  "field_id_of lc name = string_to_java_hashcode (lc name)"

definition get_schema_id :: "lowercase \<Rightarrow> ignite_field list \<Rightarrow> i32" where
  "get_schema_id lc fs =
    foldl schema_id_step FNV1_OFFSET_BASIS (map (\<lambda>f. field_id_of lc (field_name f)) fs)"

section \<open>References the hashes are compared with\<close>

text \<open>\<open>java.lang.String.hashCode\<close>: the base-31 polynomial of the UTF-16 code units.\<close>

fun poly31 :: "nat list \<Rightarrow> nat" where
  "poly31 [] = 0"
| "poly31 (c # cs) = c * 31 ^ length cs + poly31 cs"

definition utf16_units :: "nat \<Rightarrow> nat list" where
  "utf16_units c =
    (if c < 0x10000 then [c]
     else [0xD800 + (c - 0x10000) div 0x400, 0xDC00 + (c - 0x10000) mod 0x400])"

definition java_string_hash :: "rstring \<Rightarrow> i32" where
  "java_string_hash s = word_of_nat (poly31 (concat (map utf16_units s)))"

text \<open>FNV-1a over a byte stream.\<close>

definition fnv1a :: "i32 \<Rightarrow> u8 \<Rightarrow> i32" where
  "fnv1a h b = (h XOR ucast b) * FNV1_PRIME"

section \<open>Facts\<close>

lemma java_hash_foldl:
  "foldl java_hash_step h s = h * 31 ^ length s + word_of_nat (poly31 s)"
proof (induction s arbitrary: h)
  case Nil
  then show ?case by simp
next
  case (Cons c s)
  have "java_hash_step h c * 31 ^ length s + word_of_nat (poly31 s) =
      h * 31 ^ length (c # s) + word_of_nat (poly31 (c # s))"
    by (simp add: java_hash_step_def algebra_simps)
  with Cons.IH [of "java_hash_step h c"] show ?case by simp
qed

lemma string_hash_poly31: "string_to_java_hashcode s = word_of_nat (poly31 s)"
  by (simp add: string_to_java_hashcode_def java_hash_foldl)

lemma string_hash_append:
  "string_to_java_hashcode (s @ t) =
    31 ^ length t * string_to_java_hashcode s + string_to_java_hashcode t"
  by (simp add: string_to_java_hashcode_def java_hash_foldl algebra_simps)

lemma string_hash_java:
  assumes "list_all (\<lambda>c. c < 0x10000) s"
  shows "string_to_java_hashcode s = java_string_hash s"
proof -
  from assms have "concat (map utf16_units s) = s"
    by (induction s) (simp_all add: utf16_units_def)
  then show ?thesis by (simp add: string_hash_poly31 java_string_hash_def)
qed

lemma checked_None: "foldl java_hash_step_checked None s = None"
  by (induction s) (simp_all add: java_hash_step_checked_def)

lemma checked_foldl:
  "foldl java_hash_step_checked (Some h) s = Some r \<Longrightarrow> foldl java_hash_step h s = r"
proof (induction s arbitrary: h)
  case Nil
  then show ?case by simp
next
  case (Cons c s)
  show ?case
  proof (cases "java_hash_step_checked (Some h) c")
    case None
    with Cons.prems show ?thesis by (simp add: checked_None)
  next
    case (Some h')
    then have "h' = java_hash_step h c"
      by (simp add: java_hash_step_checked_def java_hash_step_def split: if_splits)
    with Some Cons show ?thesis by simp
  qed
qed

lemma string_hash_checked:
  "string_to_java_hashcode_checked s = Some h \<Longrightarrow> string_to_java_hashcode s = h"
  by (simp add: string_to_java_hashcode_checked_def string_to_java_hashcode_def checked_foldl)

lemma to_le4: "to_le 4 n = [byte n, byte (n div 2 ^ 8), byte (n div 2 ^ 16), byte (n div 2 ^ 24)]"
proof -
  have "to_le (Suc (Suc (Suc (Suc 0)))) n =
      [byte n, byte (n div 2 ^ 8), byte (n div 2 ^ 16), byte (n div 2 ^ 24)]"
    by (simp add: div_mult2_eq [symmetric])
  moreover have "(4::nat) = Suc (Suc (Suc (Suc 0)))" by simp
  ultimately show ?thesis by (simp only:)
qed

lemma ucast_byte_low: "k + 8 \<le> 32 \<Longrightarrow> (ucast (byte (unat (w :: i32) div 2 ^ k)) :: i32) = signed_drop_bit k w AND 0xFF"
proof -
  assume k: "k + 8 \<le> 32"
  have "(ucast (byte (unat w div 2 ^ k)) :: i32) = take_bit 8 (drop_bit k w)"
  proof (rule word_unat_eq_iff [THEN iffD2])
    have "unat w mod 4294967296 = unat w"
      using unsigned_less [of w, where ?'a = nat] by simp
    then show "unat (ucast (byte (unat w div 2 ^ k)) :: i32) = unat (take_bit 8 (drop_bit k w))"
      by (simp only: unsigned_ucast_eq unsigned_take_bit_eq unsigned_drop_bit_eq unat_byte)
        (simp add: take_bit_eq_mod drop_bit_eq_div)
  qed
  moreover have "take_bit 8 (drop_bit k w) = signed_drop_bit k w AND 0xFF"
  proof (rule bit_word_eqI)
    fix n assume "n < LENGTH(32)"
    have m: "(0xFF :: i32) = mask 8" by (simp add: mask_eq_exp_minus_1)
    show "bit (take_bit 8 (drop_bit k w)) n = bit (signed_drop_bit k w AND 0xFF) n"
      unfolding m using k by (auto simp: bit_simps)
  qed
  ultimately show ?thesis by simp
qed

lemma schema_id_step_fnv: "schema_id_step acc fid = foldl fnv1a acc (write_i32 fid)"
proof -
  have "signed_drop_bit 0 fid = fid" by (simp add: signed_drop_bit_0)
  then show ?thesis
    using ucast_byte_low [of 0 fid] ucast_byte_low [of 8 fid] ucast_byte_low [of 16 fid]
      ucast_byte_low [of 24 fid]
    by (simp add: schema_id_step_def write_i32_def to_le4 fnv1a_def Let_def)
qed

lemma get_schema_id_fnv:
  "get_schema_id lc fs =
    foldl fnv1a FNV1_OFFSET_BASIS (concat (map (\<lambda>f. write_i32 (field_id_of lc (field_name f))) fs))"
proof -
  have "foldl schema_id_step h (map (\<lambda>f. field_id_of lc (field_name f)) fs) =
      foldl fnv1a h (concat (map (\<lambda>f. write_i32 (field_id_of lc (field_name f))) fs))" for h
    by (induction fs arbitrary: h) (simp_all add: schema_id_step_fnv)
  then show ?thesis by (simp add: get_schema_id_def)
qed

section \<open>Properties\<close>

text \<open>\<open>string_to_java_hashcode\<close> is Java's \<open>String.hashCode\<close> for every string of the basic
  multilingual plane. (It hashes scalar values, Java hashes UTF-16 units, so that it differs beyond
  the plane: U+1F600 is hashed differently.)\<close>

theorem java_hash_bmp:
  "(list_all (\<lambda>c. c < 0x10000) s \<longrightarrow> string_to_java_hashcode s = java_string_hash s) \<and>
   string_to_java_hashcode [0x1F600] \<noteq> java_string_hash [0x1F600]"
proof -
  have "string_to_java_hashcode [0x1F600] \<noteq> java_string_hash [0x1F600]"
    by (simp add: string_hash_poly31 java_string_hash_def utf16_units_def)
  then show ?thesis using string_hash_java by blast
qed

theorem java_hash_bmp_witness: "string_to_java_hashcode [97, 98] = java_string_hash [97, 98]"
  using java_hash_bmp [of "[97, 98]"] by simp

text \<open>The arithmetic of \<open>string_to_java_hashcode\<close>: in a build without overflow checks it computes the
  polynomial \<open>s[0]*31^(n-1) + ... + s[n-1]\<close> modulo \<open>2 ^ 32\<close>; in a build with them it returns the same
  number or panics, and it does panic on some strings, such as "xfjfxwz", because its addition is
  not a wrapping one.\<close>

theorem java_hash_overflow:
  "string_to_java_hashcode s = word_of_nat (poly31 s) \<and>
   (string_to_java_hashcode_checked s = None \<or>
    string_to_java_hashcode_checked s = Some (string_to_java_hashcode s)) \<and>
   string_to_java_hashcode_checked (rstr ''xfjfxwz'') = None"
proof -
  have "string_to_java_hashcode_checked (rstr ''xfjfxwz'') = None"
    by (simp add: string_to_java_hashcode_checked_def java_hash_step_checked_def rstr_def Let_def)
  then show ?thesis
    using string_hash_poly31 string_hash_checked [of s] by (cases "string_to_java_hashcode_checked s") auto
qed

text \<open>The schema id of a list of fields is the 32-bit FNV-1a hash of their field ids, written as
  little-endian bytes, one after the other, whatever the names; the shifts of the code, which are
  arithmetic on a signed number, do not matter.\<close>

theorem schema_id_fnv1a:
  "get_schema_id lc fs =
    foldl fnv1a FNV1_OFFSET_BASIS (concat (map (\<lambda>f. write_i32 (field_id_of lc (field_name f))) fs))"
  by (rule get_schema_id_fnv)

end
