(* ===== verification/DataTypes.thy ===== *)
theory DataTypes
  imports Hashing
begin

text \<open>
  The instances of \<open>WritableType\<close> and \<open>ReadableType\<close> in \<open>ignite-rs/src/protocol/data_types.rs\<close>:
  primitives, strings, enums, primitive vectors, \<open>Vec<Option<T>>\<close> and \<open>Option<T>\<close>. The macros of the
  source are higher-order definitions, and each macro call is an instance.

  The locale \<open>wire_type\<close> is the contract of a type that can be a cache key or value: the announced
  size is the written size, and what is written is read back. It is interpreted on every instance;
  the container instances are its clients.
\<close>

section \<open>Primitives\<close>

definition write_type :: "type_code \<Rightarrow> ('a \<Rightarrow> bytes) \<Rightarrow> 'a \<Rightarrow> bytes" where
  "write_type code write_fn v = write_u8 (type_code_u8 code) @ write_fn v"

definition size_type :: "nat \<Rightarrow> 'a \<Rightarrow> nat" where
  "size_type sz v = sz + 1"

definition read_type :: "'a reader \<Rightarrow> type_code \<Rightarrow> 'a option reader" where
  "read_type read_fn type_code = (case type_code of
      TcNull \<Rightarrow> ret None
    | _ \<Rightarrow> rmap Some read_fn)"

definition string_write :: "rstring \<Rightarrow> bytes" where
  "string_write s = write_u8 (type_code_u8 TcString) @ write_string s"

definition string_size :: "rstring \<Rightarrow> nat" where
  "string_size s = str_len s + 1 + 4"

section \<open>Primitive vectors\<close>

definition write_arr_type :: "type_code \<Rightarrow> ('a \<Rightarrow> bytes) \<Rightarrow> 'a list \<Rightarrow> bytes" where
  "write_arr_type code write_fn xs =
    write_u8 (type_code_u8 code) @ write_i32 (i32_of_usize (length xs)) @ concat (map write_fn xs)"

definition size_arr_type :: "nat \<Rightarrow> 'a list \<Rightarrow> nat" where
  "size_arr_type sz xs = sz * length xs + 4 + 1"

definition read_arr_type :: "'a reader \<Rightarrow> type_code \<Rightarrow> 'a list option reader" where
  "read_arr_type read_fn type_code = (case type_code of
      TcNull \<Rightarrow> ret None
    | _ \<Rightarrow> rmap Some (read_primitive_arr read_fn))"

section \<open>\<open>Vec<Option<T>>\<close> and \<open>Option<T>\<close>\<close>

definition opt_item_write :: "('a \<Rightarrow> bytes) \<Rightarrow> 'a option \<Rightarrow> bytes" where
  "opt_item_write wr item = (case item of
      None \<Rightarrow> write_u8 (type_code_u8 TcNull)
    | Some value \<Rightarrow> wr value)"

definition opt_item_size :: "('a \<Rightarrow> nat) \<Rightarrow> 'a option \<Rightarrow> nat" where
  "opt_item_size sz item = (case item of None \<Rightarrow> 1 | Some value \<Rightarrow> sz value)"

definition vec_opt_write :: "('a \<Rightarrow> bytes) \<Rightarrow> 'a option list \<Rightarrow> bytes" where
  "vec_opt_write wr xs =
    write_u8 (type_code_u8 TcArrObj) @ write_i32 (- 1) @ write_i32 (i32_of_usize (length xs)) @
    concat (map (opt_item_write wr) xs)"

definition vec_opt_size :: "('a \<Rightarrow> nat) \<Rightarrow> 'a option list \<Rightarrow> nat" where
  "vec_opt_size sz xs = sum_list (map (opt_item_size sz) xs) + 1 + 4 + 4"

definition vec_opt_read_unwrapped ::
    "(type_code \<Rightarrow> 'a option reader) \<Rightarrow> type_code \<Rightarrow> 'a option list option reader" where
  "vec_opt_read_unwrapped ru type_code = (case type_code of
      TcNull \<Rightarrow> ret None
    | TcArrObj \<Rightarrow>
        rbind read_i32 (\<lambda>_. rbind read_i32 (\<lambda>len. rbind (with_capacity len) (\<lambda>_.
          rmap Some (repeat_read (i32_range len) (readable_read ru)))))
    | TcCollection \<Rightarrow>
        rbind read_i32 (\<lambda>len. rbind read_i8 (\<lambda>_. rbind (with_capacity len) (\<lambda>_.
          rmap Some (repeat_read (i32_range len) (readable_read ru)))))
    | _ \<Rightarrow> fail (Ignite ''Expected Array or Collection!''))"

definition option_write :: "('a \<Rightarrow> bytes) \<Rightarrow> 'a option \<Rightarrow> bytes" where
  "option_write wr v = (case v of
      None \<Rightarrow> write_u8 (type_code_u8 TcNull)
    | Some inner \<Rightarrow> wr inner)"

definition option_size :: "('a \<Rightarrow> nat) \<Rightarrow> 'a option \<Rightarrow> nat" where
  "option_size sz v = (case v of None \<Rightarrow> 1 | Some inner \<Rightarrow> sz inner)"

definition option_read_unwrapped ::
    "(type_code \<Rightarrow> 'a option reader) \<Rightarrow> type_code \<Rightarrow> 'a option option reader" where
  "option_read_unwrapped ru type_code = rbind (ru type_code) (\<lambda>inner_op.
     case inner_op of None \<Rightarrow> ret None | Some inner \<Rightarrow> ret (Some (Some inner)))"

section \<open>The contract of a cacheable type\<close>

locale wire_type =
  fixes wr :: "'a \<Rightarrow> bytes" and sz :: "'a \<Rightarrow> nat"
    and ru :: "type_code \<Rightarrow> 'a option reader" and ok :: "'a \<Rightarrow> bool"
    and code :: "type_code"
  assumes size_write: "length (wr x) = sz x"
    and write_code: "\<exists>body. wr x = write_u8 (type_code_u8 code) @ body \<and>
          (ok x \<longrightarrow> (\<forall>s. ru code (body @ s) = Ok (Some x) s))"
    and code_value: "code \<noteq> TcNull \<and> code \<noteq> TcWrappedData"
    and read_null: "ru TcNull s = Ok None s"
begin

lemma read_write: "ok x \<Longrightarrow> readable_read ru (wr x @ s) = Ok (Some x) s"
  using write_code [of x] code_value by (auto simp: readable_read_value)

lemma item_read_write:
  "pred_option ok item \<Longrightarrow> readable_read ru (opt_item_write wr item @ s) = Ok item s"
  by (cases item) (simp_all add: opt_item_write_def readable_read_null read_write)

lemma vec_opt_read_write:
  assumes "list_all (pred_option ok) xs" and "length xs < 2 ^ 31"
  shows "vec_opt_read_unwrapped ru TcArrObj
      (write_i32 (- 1) @ write_i32 (i32_of_usize (length xs)) @ concat (map (opt_item_write wr) xs) @ s) =
    Ok (Some xs) s"
proof -
  have "repeat_read (length xs) (readable_read ru) (concat (map (opt_item_write wr) xs) @ s) = Ok xs s"
    using repeat_read_concat [of xs "readable_read ru" "opt_item_write wr" "\<lambda>x. x"] assms(1)
    by (simp add: item_read_write list_all_iff)
  with assms(2) show ?thesis
    by (simp add: vec_opt_read_unwrapped_def rbind_Ok len_casts rmap_Ok)
qed

lemma vec_opt_length: "length (vec_opt_write wr xs) = vec_opt_size sz xs"
proof -
  have "length (concat (map (opt_item_write wr) xs)) = sum_list (map (opt_item_size sz) xs)"
    by (induction xs) (simp_all add: opt_item_write_def opt_item_size_def size_write split: option.split)
  then show ?thesis by (simp add: vec_opt_write_def vec_opt_size_def)
qed

text \<open>\<open>Vec<Option<T>>\<close> of a cacheable type is one.\<close>

lemma vec_opt_wire_type:
  "wire_type (vec_opt_write wr) (vec_opt_size sz) (vec_opt_read_unwrapped ru)
    (\<lambda>xs. list_all (pred_option ok) xs \<and> length xs < 2 ^ 31) TcArrObj"
proof (unfold_locales, goal_cases)
  case (1 xs)
  show ?case by (rule vec_opt_length)
next
  case (2 xs)
  show ?case
    using vec_opt_read_write [of xs] by (auto simp: vec_opt_write_def)
qed (simp_all add: vec_opt_read_unwrapped_def)

text \<open>\<open>Option<T>\<close> writes \<open>Some\<close> as the inner value, so the inner \<open>Some\<close> is read back; \<open>None\<close> is
  written as \<open>Null\<close> and read as no value.\<close>

lemma option_read_write:
  assumes "pred_option ok v"
  shows "readable_read (option_read_unwrapped ru) (option_write wr v @ s) =
    Ok (map_option Some v) s"
proof (cases v)
  case None
  then show ?thesis by (simp add: option_write_def readable_read_null)
next
  case (Some x)
  with write_code [of x] assms obtain body where "wr x = write_u8 (type_code_u8 code) @ body"
    and "ru code (body @ s) = Ok (Some x) s" by auto
  with Some code_value show ?thesis
    by (simp add: option_write_def readable_read_value option_read_unwrapped_def rbind_Ok)
qed

lemma option_length: "length (option_write wr v) = option_size sz v"
  by (simp add: option_write_def option_size_def size_write split: option.split)

end

section \<open>Every instance honours the contract\<close>

lemma read_type_code_value: "tc \<noteq> TcNull \<Longrightarrow> read_type rd tc = rmap Some rd"
  by (cases tc) (simp_all add: read_type_def)

lemma read_type_null: "read_type rd TcNull = ret None"
  by (simp add: read_type_def)

lemma read_arr_type_value: "tc \<noteq> TcNull \<Longrightarrow> read_arr_type rd tc = rmap Some (read_primitive_arr rd)"
  by (cases tc) (simp_all add: read_arr_type_def)

context fixed_codec
begin

lemma prim_wire_type:
  "code \<noteq> TcNull \<Longrightarrow> code \<noteq> TcWrappedData \<Longrightarrow>
    wire_type (write_type code enc) (size_type width) (read_type dec) (\<lambda>_. True) code"
  by unfold_locales
    (auto simp: write_type_def size_type_def enc_length read_type_code_value rmap_Ok read_type_null)

lemma arr_wire_type:
  assumes "code \<noteq> TcNull" "code \<noteq> TcWrappedData"
  shows "wire_type (write_arr_type code enc) (size_arr_type width) (read_arr_type dec)
    (\<lambda>xs. length xs < 2 ^ 31) code"
proof (unfold_locales, goal_cases)
  case (1 xs)
  show ?case by (simp add: write_arr_type_def size_arr_type_def length_concat_enc)
next
  case (2 xs)
  have "read_arr_type dec code (write_arr xs @ s) = Ok (Some xs) s" if "length xs < 2 ^ 31" for s
    using read_primitive_arr_write [of xs s] that assms
    by (simp add: read_arr_type_value rmap_Ok list_all_iff)
  then show ?case by (auto simp: write_arr_type_def write_arr_def)
qed (use assms in \<open>simp_all add: read_arr_type_def\<close>)

end

interpretation w_u8: wire_type "write_type TcByte write_u8" "size_type 1" "read_type read_u8" "\<lambda>_. True" TcByte
  by (rule u8.prim_wire_type) simp_all
interpretation w_u16: wire_type "write_type TcChar write_u16" "size_type 2" "read_type read_u16" "\<lambda>_. True" TcChar
  by (rule u16.prim_wire_type) simp_all
interpretation w_i16: wire_type "write_type TcShort write_i16" "size_type 2" "read_type read_i16" "\<lambda>_. True" TcShort
  by (rule i16.prim_wire_type) simp_all
interpretation w_i32: wire_type "write_type TcInt write_i32" "size_type 4" "read_type read_i32" "\<lambda>_. True" TcInt
  by (rule i32.prim_wire_type) simp_all
interpretation w_i64: wire_type "write_type TcLong write_i64" "size_type 8" "read_type read_i64" "\<lambda>_. True" TcLong
  by (rule i64.prim_wire_type) simp_all
interpretation w_f32: wire_type "write_type TcFloat write_f32" "size_type 4" "read_type read_f32" "\<lambda>_. True" TcFloat
  by (rule f32.prim_wire_type) simp_all
interpretation w_f64: wire_type "write_type TcDouble write_f64" "size_type 8" "read_type read_f64" "\<lambda>_. True" TcDouble
  by (rule f64.prim_wire_type) simp_all
interpretation w_bool: wire_type "write_type TcBool write_bool" "size_type 1" "read_type read_bool" "\<lambda>_. True" TcBool
  by (rule bool.prim_wire_type) simp_all
interpretation w_enum: wire_type "write_type TcEnum write_enum" "size_type 8" "read_type read_enum" "\<lambda>_. True" TcEnum
  by (rule enum.prim_wire_type) simp_all

interpretation w_string: wire_type string_write string_size "read_type read_string" ok_string TcString
  by unfold_locales
    (auto simp: string_write_def string_size_def read_type_code_value rmap_Ok read_string_write read_type_null)

interpretation w_arr_u8: wire_type "write_arr_type TcArrByte write_u8" "size_arr_type 1" "read_arr_type read_u8"
    "\<lambda>xs. length xs < 2 ^ 31" TcArrByte
  by (rule u8.arr_wire_type) simp_all
interpretation w_arr_i16: wire_type "write_arr_type TcArrShort write_i16" "size_arr_type 2" "read_arr_type read_i16"
    "\<lambda>xs. length xs < 2 ^ 31" TcArrShort
  by (rule i16.arr_wire_type) simp_all
interpretation w_arr_i32: wire_type "write_arr_type TcArrInt write_i32" "size_arr_type 4" "read_arr_type read_i32"
    "\<lambda>xs. length xs < 2 ^ 31" TcArrInt
  by (rule i32.arr_wire_type) simp_all
interpretation w_arr_i64: wire_type "write_arr_type TcArrLong write_i64" "size_arr_type 8" "read_arr_type read_i64"
    "\<lambda>xs. length xs < 2 ^ 31" TcArrLong
  by (rule i64.arr_wire_type) simp_all
interpretation w_arr_f32: wire_type "write_arr_type TcArrFloat write_f32" "size_arr_type 4" "read_arr_type read_f32"
    "\<lambda>xs. length xs < 2 ^ 31" TcArrFloat
  by (rule f32.arr_wire_type) simp_all
interpretation w_arr_f64: wire_type "write_arr_type TcArrDouble write_f64" "size_arr_type 8" "read_arr_type read_f64"
    "\<lambda>xs. length xs < 2 ^ 31" TcArrDouble
  by (rule f64.arr_wire_type) simp_all
interpretation w_arr_bool: wire_type "write_arr_type TcArrBool write_bool" "size_arr_type 1" "read_arr_type read_bool"
    "\<lambda>xs. length xs < 2 ^ 31" TcArrBool
  by (rule bool.arr_wire_type) simp_all
interpretation w_arr_u16: wire_type "write_arr_type TcArrChar write_u16" "size_arr_type 2" "read_arr_type read_u16"
    "\<lambda>xs. length xs < 2 ^ 31" TcArrChar
  by (rule u16.arr_wire_type) simp_all

interpretation w_vec_string: wire_type "vec_opt_write string_write" "vec_opt_size string_size"
    "vec_opt_read_unwrapped (read_type read_string)"
    "\<lambda>xs. list_all (pred_option ok_string) xs \<and> length xs < 2 ^ 31" TcArrObj
  by (rule w_string.vec_opt_wire_type)

section \<open>Properties\<close>

text \<open>A \<open>Vec<Option<String>>\<close> is read back as it was written, nulls included, and writes as many bytes
  as it announces; likewise an \<open>Option\<close> of it.\<close>

theorem vec_string_round_trip:
  assumes "list_all (pred_option ok_string) xs" and "length xs < 2 ^ 31"
  shows "readable_read (vec_opt_read_unwrapped (read_type read_string)) (vec_opt_write string_write xs @ s) = Ok (Some xs) s \<and>
    readable_read (option_read_unwrapped (vec_opt_read_unwrapped (read_type read_string)))
      (option_write (vec_opt_write string_write) (Some xs) @ s) = Ok (Some (Some xs)) s \<and>
    length (vec_opt_write string_write xs) = vec_opt_size string_size xs"
  using w_vec_string.read_write [of xs s] w_vec_string.option_read_write [of "Some xs" s]
    w_vec_string.size_write [of xs] assms by simp

theorem vec_string_round_trip_witness:
  "readable_read (vec_opt_read_unwrapped (read_type read_string)) (vec_opt_write string_write [None, Some [97]] @ []) =
    Ok (Some [None, Some [97]]) []"
  using vec_string_round_trip [of "[None, Some [97]]" "[]"]
  by (simp add: ok_string_def valid_rstring_def scalar_def str_len_def utf8_encode_def utf8_char_def)

text \<open>Primitive arrays: a \<open>Vec<i64>\<close> and a \<open>Vec<bool>\<close> of less than \<open>2 ^ 31\<close> elements are read back as
  they were written, and the announced size is the written one for every length.\<close>

theorem array_round_trip:
  "(length xs < 2 ^ 31 \<longrightarrow>
     readable_read (read_arr_type read_i64) (write_arr_type TcArrLong write_i64 xs @ s) = Ok (Some xs) s) \<and>
   (length bs < 2 ^ 31 \<longrightarrow>
     readable_read (read_arr_type read_bool) (write_arr_type TcArrBool write_bool bs @ s) = Ok (Some bs) s) \<and>
   length (write_arr_type TcArrLong write_i64 xs) = size_arr_type 8 xs \<and>
   length (write_arr_type TcArrBool write_bool bs) = size_arr_type 1 bs"
  using w_arr_i64.read_write [of xs s] w_arr_bool.read_write [of bs s]
    w_arr_i64.size_write [of xs] w_arr_bool.size_write [of bs] by blast

theorem array_round_trip_witness:
  "readable_read (read_arr_type read_i64) (write_arr_type TcArrLong write_i64 [5, - 1] @ [3]) = Ok (Some [5, - 1]) [3]"
  using array_round_trip [of "[5, - 1]" "[3]" "[]"] by simp

end
