(* ===== verification/Errors.thy ===== *)
theory Errors
  imports Prelude
begin

text \<open>
  The client's error values, \<open>ignite-rs/src/error.rs\<close>: the kinds, the constructors, the
  classification of server status codes and the test by which the transport decides whether a
  failed request may be retried on another channel.
\<close>

datatype error_kind =
    KOther | KConnection | KHandshake | KAuthentication | KServer | KTls | KAuthorization
  | KEntryProcessorException

record ignite_error =
  err_desc :: rstring
  err_kind :: error_kind
  err_server_status :: "i32 option"

definition err_new :: "rstring \<Rightarrow> ignite_error" where
  "err_new d = \<lparr>err_desc = d, err_kind = KOther, err_server_status = None\<rparr>"

definition err_connection :: "rstring \<Rightarrow> ignite_error" where
  "err_connection d = \<lparr>err_desc = d, err_kind = KConnection, err_server_status = None\<rparr>"

definition err_handshake :: "rstring \<Rightarrow> ignite_error" where
  "err_handshake d = \<lparr>err_desc = d, err_kind = KHandshake, err_server_status = None\<rparr>"

definition err_authentication :: "rstring \<Rightarrow> ignite_error" where
  "err_authentication d = \<lparr>err_desc = d, err_kind = KAuthentication, err_server_status = None\<rparr>"

definition err_server :: "rstring \<Rightarrow> ignite_error" where
  "err_server d = \<lparr>err_desc = d, err_kind = KServer, err_server_status = None\<rparr>"

definition err_tls :: "rstring \<Rightarrow> ignite_error" where
  "err_tls d = \<lparr>err_desc = d, err_kind = KTls, err_server_status = None\<rparr>"

definition SECURITY_VIOLATION :: i32 where "SECURITY_VIOLATION = 1012"
definition ENTRY_PROCESSOR_EXCEPTION :: i32 where "ENTRY_PROCESSOR_EXCEPTION = 1040"

definition from_server_status :: "i32 \<Rightarrow> rstring \<Rightarrow> ignite_error" where
  "from_server_status status d =
    \<lparr>err_desc = d,
     err_kind = (if status = SECURITY_VIOLATION then KAuthorization
                 else if status = ENTRY_PROCESSOR_EXCEPTION then KEntryProcessorException
                 else KServer),
     err_server_status = Some status\<rparr>"

text \<open>\<open>From<Option<String>>\<close>.\<close>

definition err_from_option :: "rstring option \<Rightarrow> ignite_error" where
  "err_from_option d = (case d of
      Some desc \<Rightarrow> err_new desc
    | None \<Rightarrow> err_new (rstr ''Ignite client error! No description provided''))"

definition to_ascii_lowercase :: "rstring \<Rightarrow> rstring" where
  "to_ascii_lowercase s = map (\<lambda>c. if 65 \<le> c \<and> c \<le> 90 then c + 32 else c) s"

fun str_contains :: "rstring \<Rightarrow> rstring \<Rightarrow> bool" where
  "str_contains [] needle = (needle = [])"
| "str_contains (c # cs) needle =
    (take (length needle) (c # cs) = needle \<or> str_contains cs needle)"

definition connection_needles :: "rstring list" where
  "connection_needles = map rstr
    [''connection'', ''channel is closed'', ''closed'', ''broken pipe'', ''reset'', ''timed out'',
     ''timeout'', ''refused'', ''unavailable'', ''transport'', ''network'', ''eof'']"

definition is_connection_related :: "ignite_error \<Rightarrow> bool" where
  "is_connection_related e =
    (if err_kind e = KConnection \<or> err_kind e = KTls then True
     else if err_server_status e \<noteq> None then False
     else list_ex (str_contains (to_ascii_lowercase (err_desc e))) connection_needles)"

section \<open>Facts\<close>

lemma str_contains_iff: "str_contains s needle \<longleftrightarrow> (\<exists>a b. s = a @ needle @ b)"
proof (induction s)
  case Nil
  then show ?case by auto
next
  case (Cons c cs)
  have "take (length needle) (c # cs) = needle \<longleftrightarrow> (\<exists>b. c # cs = needle @ b)"
    by (metis append_eq_conv_conj append_take_drop_id)
  moreover have "(\<exists>a b. c # cs = a @ needle @ b) \<longleftrightarrow>
      (\<exists>b. c # cs = needle @ b) \<or> (\<exists>a b. cs = a @ needle @ b)"
    by (metis append_Cons append_Nil list.inject neq_Nil_conv)
  ultimately show ?case using Cons.IH by simp
qed

lemma server_status_terminal: "\<not> is_connection_related (from_server_status status d)"
  by (simp add: is_connection_related_def from_server_status_def)

lemma from_server_status_kind:
  "err_kind (from_server_status status d) =
    (if status = 1012 then KAuthorization else if status = 1040 then KEntryProcessorException else KServer)"
  by (simp add: from_server_status_def SECURITY_VIOLATION_def ENTRY_PROCESSOR_EXCEPTION_def)

lemma connection_related_needle:
  "is_connection_related e \<longleftrightarrow>
    err_kind e = KConnection \<or> err_kind e = KTls \<or>
    (err_server_status e = None \<and>
      (\<exists>n \<in> set connection_needles. \<exists>a b. to_ascii_lowercase (err_desc e) = a @ n @ b))"
  by (auto simp: is_connection_related_def list_ex_iff str_contains_iff)

section \<open>Properties\<close>

text \<open>An error status of the server is terminal: whatever its code and text, even a text that names
  a broken connection, it is not taken for a connection failure, so that the operation is not retried;
  the two codes with a kind of their own get it, every other code is a server error, and the code and
  the text are kept.\<close>

theorem server_errors_terminal:
  "\<not> is_connection_related (from_server_status status d) \<and>
   err_kind (from_server_status status d) =
     (if status = 1012 then KAuthorization else if status = 1040 then KEntryProcessorException else KServer) \<and>
   err_server_status (from_server_status status d) = Some status \<and>
   err_desc (from_server_status status d) = d"
  using server_status_terminal from_server_status_kind by (simp add: from_server_status_def)

end
