(* ===== verification/BinaryRegistry.thy ===== *)
theory BinaryRegistry
  imports Hashing
begin

text \<open>
  The process-wide cache of binary type metadata, \<open>ignite-rs/src/binary_registry.rs\<close>. The state behind
  the lock is a map from type ids to registered types; an operation takes the registry and, when it
  writes, returns it updated. The lock makes each operation atomic, so any interleaving of clients
  is a sequence of these operations.
\<close>

section \<open>State\<close>

record registered_field =
  rf_name :: rstring
  rf_type_id :: i32
  rf_field_id :: i32

record registered_schema =
  rs_id :: i32
  rs_field_ids :: "i32 list"

record registered_type =
  rt_type_id :: i32
  rt_type_name :: rstring
  rt_affinity_key_field_name :: "rstring option"
  rt_fields :: "registered_field list"
  rt_is_enum :: bool
  rt_enum_values :: "(rstring \<times> i32) list"
  rt_schemas :: "registered_schema list"

type_synonym registry = "i32 \<rightharpoonup> registered_type"

definition registry_default :: registry where
  "registry_default = Map.empty"

section \<open>Type ids of field types\<close>

text \<open>\<open>type_code as i32\<close>.\<close>

definition tc_i32 :: "type_code \<Rightarrow> i32" where
  "tc_i32 tc = ucast (type_code_u8 tc)"

fun ignite_type_id :: "ignite_type \<Rightarrow> i32" where
  "ignite_type_id ItByte = tc_i32 TcByte"
| "ignite_type_id ItShort = tc_i32 TcShort"
| "ignite_type_id ItInt = tc_i32 TcInt"
| "ignite_type_id ItLong = tc_i32 TcLong"
| "ignite_type_id ItFloat = tc_i32 TcFloat"
| "ignite_type_id ItDouble = tc_i32 TcDouble"
| "ignite_type_id ItChar = tc_i32 TcChar"
| "ignite_type_id ItBool = tc_i32 TcBool"
| "ignite_type_id ItString = tc_i32 TcString"
| "ignite_type_id ItUuid = tc_i32 TcUuid"
| "ignite_type_id ItDate = tc_i32 TcDate"
| "ignite_type_id ItBinary = tc_i32 TcArrByte"
| "ignite_type_id ItObject = tc_i32 TcComplexObj"
| "ignite_type_id ItArray = tc_i32 TcArrObj"
| "ignite_type_id ItTimestamp = tc_i32 TcTimestamp"
| "ignite_type_id ItTime = tc_i32 TcTime"
| "ignite_type_id (ItDecimal _ _) = tc_i32 TcDecimal"
| "ignite_type_id ItEnum = tc_i32 TcEnum"
| "ignite_type_id ItNull = tc_i32 TcNull"
| "ignite_type_id ItMap = tc_i32 TcMap"
| "ignite_type_id ItCollection = tc_i32 TcCollection"

definition ignite_type_from_type_id :: "i32 \<Rightarrow> ignite_type" where
  "ignite_type_from_type_id x =
    (if x = tc_i32 TcByte then ItByte
     else if x = tc_i32 TcShort then ItShort
     else if x = tc_i32 TcInt then ItInt
     else if x = tc_i32 TcLong then ItLong
     else if x = tc_i32 TcFloat then ItFloat
     else if x = tc_i32 TcDouble then ItDouble
     else if x = tc_i32 TcChar then ItChar
     else if x = tc_i32 TcBool then ItBool
     else if x = tc_i32 TcString then ItString
     else if x = tc_i32 TcUuid then ItUuid
     else if x = tc_i32 TcDate then ItDate
     else if x = tc_i32 TcArrByte then ItBinary
     else if x = tc_i32 TcComplexObj then ItObject
     else if x = tc_i32 TcArrObj then ItArray
     else if x = tc_i32 TcTimestamp then ItTimestamp
     else if x = tc_i32 TcTime then ItTime
     else if x = tc_i32 TcDecimal then ItDecimal 0 0
     else if x = tc_i32 TcEnum \<or> x = tc_i32 TcBinaryEnum then ItEnum
     else if x = tc_i32 TcMap then ItMap
     else if x = tc_i32 TcCollection then ItCollection
     else ItNull)"

section \<open>Operations\<close>

definition registered_type_from_schema :: "lowercase \<Rightarrow> complex_object_schema \<Rightarrow> registered_type" where
  "registered_type_from_schema lc schema =
    (let fs = map (\<lambda>field. \<lparr>rf_name = field_name field,
                             rf_type_id = ignite_type_id (field_type field),
                             rf_field_id = field_id_of lc (field_name field)\<rparr>) (schema_fields schema);
         field_ids = map rf_field_id fs
     in \<lparr>rt_type_id = string_to_java_hashcode (lc (schema_type_name schema)),
         rt_type_name = schema_type_name schema,
         rt_affinity_key_field_name = None,
         rt_fields = fs,
         rt_is_enum = False,
         rt_enum_values = [],
         rt_schemas = [\<lparr>rs_id = get_schema_id lc (schema_fields schema), rs_field_ids = field_ids\<rparr>]\<rparr>)"

text \<open>\<open>for x in incoming \<lbrace> if !existing.iter().any(|e| key e == key x) \<lbrace> existing.push(x) \<rbrace> \<rbrace>\<close>.\<close>

fun push_new :: "('a \<Rightarrow> 'k) \<Rightarrow> 'a list \<Rightarrow> 'a list \<Rightarrow> 'a list" where
  "push_new key existing [] = existing"
| "push_new key existing (x # xs) =
    (if key x \<in> key ` set existing then push_new key existing xs
     else push_new key (existing @ [x]) xs)"

definition merge_registered_type :: "registered_type \<Rightarrow> registered_type \<Rightarrow> registered_type" where
  "merge_registered_type existing incoming = existing
    \<lparr>rt_type_name := (if rt_type_name existing = [] then rt_type_name incoming else rt_type_name existing),
     rt_affinity_key_field_name :=
       (case rt_affinity_key_field_name existing of
          None \<Rightarrow> rt_affinity_key_field_name incoming
        | Some n \<Rightarrow> Some n),
     rt_is_enum := (rt_is_enum existing \<or> rt_is_enum incoming),
     rt_fields := push_new rf_name (rt_fields existing) (rt_fields incoming),
     rt_enum_values := push_new id (rt_enum_values existing) (rt_enum_values incoming),
     rt_schemas := push_new rs_id (rt_schemas existing) (rt_schemas incoming)\<rparr>"

definition register_type :: "registered_type \<Rightarrow> registry \<Rightarrow> registry" where
  "register_type meta reg = (case reg (rt_type_id meta) of
      Some existing \<Rightarrow> reg(rt_type_id meta \<mapsto> merge_registered_type existing meta)
    | None \<Rightarrow> reg(rt_type_id meta \<mapsto> meta))"

definition register_complex_schema :: "lowercase \<Rightarrow> complex_object_schema \<Rightarrow> registry \<Rightarrow> registry" where
  "register_complex_schema lc schema reg = register_type (registered_type_from_schema lc schema) reg"

definition type_by_id :: "registry \<Rightarrow> i32 \<Rightarrow> registered_type option" where
  "type_by_id reg type_id = reg type_id"

definition registry_type_name :: "registry \<Rightarrow> i32 \<Rightarrow> rstring option" where
  "registry_type_name reg type_id = map_option rt_type_name (type_by_id reg type_id)"

text \<open>The \<open>HashMap\<close> or \<open>BTreeMap\<close> from field ids to fields: a later field with the same id replaces an
  earlier one.\<close>

definition fields_by_id :: "registered_field list \<Rightarrow> (i32 \<rightharpoonup> ignite_field)" where
  "fields_by_id fs = foldl (\<lambda>m field. m(rf_field_id field \<mapsto>
      \<lparr>field_name = rf_name field, field_type = ignite_type_from_type_id (rf_type_id field)\<rparr>)) Map.empty fs"

definition schema_for_ordered :: "registry \<Rightarrow> i32 \<Rightarrow> i32 \<Rightarrow> i32 list \<Rightarrow> complex_object_schema option" where
  "schema_for_ordered reg type_id schema_id footer_field_ids =
    (if footer_field_ids = [] then None
     else case type_by_id reg type_id of
       None \<Rightarrow> None
     | Some meta \<Rightarrow>
         (let fs = List.map_filter (fields_by_id (rt_fields meta)) footer_field_ids
          in if fs = [] then None
             else Some \<lparr>schema_type_name = rt_type_name meta, schema_fields = fs\<rparr>))"

text \<open>The values of the \<open>BTreeMap\<close> in the order of its (signed) keys.\<close>

definition sorted_field_ids :: "registered_field list \<Rightarrow> i32 list" where
  "sorted_field_ids fs = sort_key sint (remdups (map rf_field_id fs))"

definition schema_for :: "registry \<Rightarrow> i32 \<Rightarrow> i32 \<Rightarrow> complex_object_schema option" where
  "schema_for reg type_id schema_id = (case type_by_id reg type_id of
      None \<Rightarrow> None
    | Some meta \<Rightarrow>
        (case find (\<lambda>schema. rs_id schema = schema_id) (rt_schemas meta) of
           Some schema \<Rightarrow>
             Some \<lparr>schema_type_name = rt_type_name meta,
                   schema_fields = List.map_filter (fields_by_id (rt_fields meta)) (rs_field_ids schema)\<rparr>
         | None \<Rightarrow>
             Some \<lparr>schema_type_name = rt_type_name meta,
                   schema_fields =
                     List.map_filter (fields_by_id (rt_fields meta)) (sorted_field_ids (rt_fields meta))\<rparr>))"

section \<open>Facts\<close>

subsection \<open>Merging keeps what is there and adds what is new\<close>

lemma push_new_prefix: "\<exists>ys. push_new key xs news = xs @ ys \<and> set ys \<subseteq> set news"
proof (induction news arbitrary: xs)
  case Nil
  then show ?case by simp
next
  case (Cons x news)
  show ?case
  proof (cases "key x \<in> key ` set xs")
    case True
    with Cons.IH [of xs] show ?thesis by auto
  next
    case False
    obtain ys where "push_new key (xs @ [x]) news = (xs @ [x]) @ ys" "set ys \<subseteq> set news"
      using Cons.IH by blast
    with False show ?thesis by (auto intro!: exI [of _ "x # ys"])
  qed
qed

lemma push_new_subset: "set xs \<subseteq> set (push_new key xs news)"
  using push_new_prefix [of key xs news] by auto

lemma push_new_keys: "key ` set (push_new key xs news) = key ` set xs \<union> key ` set news"
  by (induction key xs news rule: push_new.induct) auto

lemma push_new_distinct: "distinct (map key xs) \<Longrightarrow> distinct (map key (push_new key xs news))"
  by (induction key xs news rule: push_new.induct) auto

lemma push_new_absorb: "key ` set news \<subseteq> key ` set xs \<Longrightarrow> push_new key xs news = xs"
  by (induction key xs news rule: push_new.induct) auto

lemma push_new_again: "push_new key (push_new key xs news) news = push_new key xs news"
  by (rule push_new_absorb) (simp add: push_new_keys)

lemma push_new_self: "push_new key xs xs = xs"
  by (rule push_new_absorb) simp

lemma push_new_fresh:
  "distinct (map key (xs @ news)) \<Longrightarrow> push_new key xs news = xs @ news"
  by (induction key xs news rule: push_new.induct) (auto simp: image_iff)

lemma merge_idem: "merge_registered_type (merge_registered_type e m) m = merge_registered_type e m"
  by (simp add: merge_registered_type_def push_new_again split: option.split)

lemma merge_self: "merge_registered_type m m = m"
  by (simp add: merge_registered_type_def push_new_self split: option.split)

lemma register_type_lookup:
  "register_type meta reg t =
    (if t = rt_type_id meta
     then Some (case reg t of None \<Rightarrow> meta | Some e \<Rightarrow> merge_registered_type e meta)
     else reg t)"
  by (simp add: register_type_def split: option.split)

lemma register_type_idem: "register_type m (register_type m reg) = register_type m reg"
  by (rule ext) (simp add: register_type_lookup merge_idem merge_self split: option.split)

text \<open>Every entry is stored under its own id.\<close>

definition wf_registry :: "registry \<Rightarrow> bool" where
  "wf_registry reg \<longleftrightarrow> (\<forall>t meta. reg t = Some meta \<longrightarrow> rt_type_id meta = t)"

lemma wf_registry_default: "wf_registry registry_default"
  by (simp add: wf_registry_def registry_default_def)

lemma merge_type_id [simp]: "rt_type_id (merge_registered_type e m) = rt_type_id e"
  by (simp add: merge_registered_type_def)

lemma wf_register_type: "wf_registry reg \<Longrightarrow> wf_registry (register_type m reg)"
  by (auto simp: wf_registry_def register_type_lookup split: if_splits option.splits)

text \<open>\<open>extends a b\<close>: the metadata \<open>b\<close> has all that \<open>a\<close> has, in the same places.\<close>

definition meta_extends :: "registered_type \<Rightarrow> registered_type \<Rightarrow> bool" where
  "meta_extends a b \<longleftrightarrow>
    rt_type_id b = rt_type_id a \<and>
    (rt_type_name a \<noteq> [] \<longrightarrow> rt_type_name b = rt_type_name a) \<and>
    (rt_affinity_key_field_name a \<noteq> None \<longrightarrow> rt_affinity_key_field_name b = rt_affinity_key_field_name a) \<and>
    (rt_is_enum a \<longrightarrow> rt_is_enum b) \<and>
    (\<exists>ys. rt_fields b = rt_fields a @ ys) \<and>
    (\<exists>ys. rt_enum_values b = rt_enum_values a @ ys) \<and>
    (\<exists>ys. rt_schemas b = rt_schemas a @ ys)"

lemma meta_extends_refl: "meta_extends a a"
  by (simp add: meta_extends_def)

lemma merge_extends: "meta_extends e (merge_registered_type e m)"
  using push_new_prefix [of rf_name] push_new_prefix [of id] push_new_prefix [of rs_id]
  by (auto simp: meta_extends_def merge_registered_type_def split: option.split) blast+

definition registry_extends :: "registry \<Rightarrow> registry \<Rightarrow> bool" where
  "registry_extends a b \<longleftrightarrow> (\<forall>t m. a t = Some m \<longrightarrow> (\<exists>m'. b t = Some m' \<and> meta_extends m m'))"

lemma registry_extends_refl: "registry_extends a a"
  by (auto simp: registry_extends_def meta_extends_refl)

lemma meta_extends_trans: "meta_extends a b \<Longrightarrow> meta_extends b c \<Longrightarrow> meta_extends a c"
  unfolding meta_extends_def by (metis append_assoc)

lemma registry_extends_trans: "registry_extends a b \<Longrightarrow> registry_extends b c \<Longrightarrow> registry_extends a c"
  unfolding registry_extends_def by (metis meta_extends_trans)

lemma register_type_extends: "registry_extends reg (register_type m reg)"
  by (auto simp: registry_extends_def register_type_lookup meta_extends_refl merge_extends)

subsection \<open>Looking a schema up again\<close>

text \<open>The precision and scale of a decimal field are not kept.\<close>

fun canon_type :: "ignite_type \<Rightarrow> ignite_type" where
  "canon_type (ItDecimal p s) = ItDecimal 0 0"
| "canon_type t = t"

definition canon_field :: "ignite_field \<Rightarrow> ignite_field" where
  "canon_field f = f\<lparr>field_type := canon_type (field_type f)\<rparr>"

definition canon_schema :: "complex_object_schema \<Rightarrow> complex_object_schema" where
  "canon_schema sch = sch\<lparr>schema_fields := map canon_field (schema_fields sch)\<rparr>"

lemma tc_i32_inject: "tc_i32 a = tc_i32 b \<longleftrightarrow> a = b"
proof -
  have "(ucast (ucast x :: i32) :: u8) = x" for x
    by (rule ucast_up_ucast_id) (simp add: is_up)
  then show ?thesis unfolding tc_i32_def by (metis type_code_u8_inject)
qed

lemma ignite_type_from_type_id_type_id: "ignite_type_from_type_id (ignite_type_id t) = canon_type t"
  by (cases t) (simp_all add: ignite_type_from_type_id_def tc_i32_inject)

text \<open>A field as it is registered.\<close>

definition registered_field_of :: "lowercase \<Rightarrow> ignite_field \<Rightarrow> registered_field" where
  "registered_field_of lc f =
    \<lparr>rf_name = field_name f, rf_type_id = ignite_type_id (field_type f),
     rf_field_id = field_id_of lc (field_name f)\<rparr>"

lemma fields_by_id_map_of:
  "fields_by_id fs = map_of (rev (map (\<lambda>f. (rf_field_id f,
     \<lparr>field_name = rf_name f, field_type = ignite_type_from_type_id (rf_type_id f)\<rparr>)) fs))"
proof -
  have "foldl (\<lambda>m f. m(g f \<mapsto> h f)) m0 fs = m0 ++ map_of (rev (map (\<lambda>f. (g f, h f)) fs))"
    for g :: "registered_field \<Rightarrow> i32" and h :: "registered_field \<Rightarrow> ignite_field" and m0
    by (induction fs arbitrary: m0) (simp_all add: fun_eq_iff map_add_def split: option.split)
  from this [of rf_field_id _ Map.empty] show ?thesis by (simp add: fields_by_id_def)
qed

lemma fields_by_id_Some:
  assumes "distinct (map rf_field_id fs)" and "f \<in> set fs"
  shows "fields_by_id fs (rf_field_id f) =
    Some \<lparr>field_name = rf_name f, field_type = ignite_type_from_type_id (rf_type_id f)\<rparr>"
proof -
  let ?g = "\<lambda>f. (rf_field_id f,
     \<lparr>field_name = rf_name f, field_type = ignite_type_from_type_id (rf_type_id f)\<rparr>)"
  have "distinct (map fst (rev (map ?g fs)))"
    using assms(1) by (simp add: rev_map [symmetric] o_def)
  moreover have "?g f \<in> set (rev (map ?g fs))" using assms(2) by simp
  ultimately show ?thesis
    using map_of_is_SomeI [of "rev (map ?g fs)"] by (simp add: fields_by_id_map_of)
qed

lemma registered_field_canon:
  "rf_field_id (registered_field_of lc f) = field_id_of lc (field_name f)"
  "\<lparr>field_name = rf_name (registered_field_of lc f),
     field_type = ignite_type_from_type_id (rf_type_id (registered_field_of lc f))\<rparr> = canon_field f"
  by (simp_all add: registered_field_of_def canon_field_def ignite_type_from_type_id_type_id)

lemma registered_type_from_schema_fields:
  "rt_fields (registered_type_from_schema lc sch) = map (registered_field_of lc) (schema_fields sch)"
  by (simp add: registered_type_from_schema_def registered_field_of_def)

text \<open>A registry knows a schema: its type is there under its name, with all its fields, and no two
  of the registered field names share a hash.\<close>

definition knows_schema :: "lowercase \<Rightarrow> registry \<Rightarrow> complex_object_schema \<Rightarrow> bool" where
  "knows_schema lc reg sch \<longleftrightarrow>
    (case reg (string_to_java_hashcode (lc (schema_type_name sch))) of
       None \<Rightarrow> False
     | Some meta \<Rightarrow>
         rt_type_name meta = schema_type_name sch \<and>
         distinct (map rf_field_id (rt_fields meta)) \<and>
         registered_field_of lc ` set (schema_fields sch) \<subseteq> set (rt_fields meta))"

lemma map_filter_known:
  assumes "distinct (map rf_field_id fs)" and "registered_field_of lc ` set gs \<subseteq> set fs"
  shows "List.map_filter (fields_by_id fs) (map (\<lambda>f. field_id_of lc (field_name f)) gs) = map canon_field gs"
  using assms(2)
proof (induction gs)
  case Nil
  then show ?case by (simp add: List.map_filter_def)
next
  case (Cons f gs)
  then have "fields_by_id fs (field_id_of lc (field_name f)) = Some (canon_field f)"
    using fields_by_id_Some [OF assms(1), of "registered_field_of lc f"]
      registered_field_canon [of lc f] by simp
  with Cons show ?case by (simp add: List.map_filter_simps)
qed

lemma schema_for_ordered_known:
  assumes "knows_schema lc reg sch" and "schema_fields sch \<noteq> []"
  shows "schema_for_ordered reg (string_to_java_hashcode (lc (schema_type_name sch))) schema_id
      (map (\<lambda>f. field_id_of lc (field_name f)) (schema_fields sch)) = Some (canon_schema sch)"
  using assms map_filter_known [of _ lc "schema_fields sch"]
  by (auto simp: knows_schema_def schema_for_ordered_def type_by_id_def canon_schema_def Let_def
      split: option.splits)

text \<open>When registering makes the registry know the schema: the type is new, or what is there agrees
  with it, and the names' hashes do not collide.\<close>

definition schema_compatible :: "lowercase \<Rightarrow> registry \<Rightarrow> complex_object_schema \<Rightarrow> bool" where
  "schema_compatible lc reg sch \<longleftrightarrow>
    distinct (map (\<lambda>f. field_id_of lc (field_name f)) (schema_fields sch)) \<and>
    (case reg (string_to_java_hashcode (lc (schema_type_name sch))) of
       None \<Rightarrow> True
     | Some meta \<Rightarrow>
         (rt_type_name meta = [] \<or> rt_type_name meta = schema_type_name sch) \<and>
         (let fs = map (registered_field_of lc) (schema_fields sch);
              merged = push_new rf_name (rt_fields meta) fs
          in distinct (map rf_field_id merged) \<and> set fs \<subseteq> set merged))"

lemma register_knows_schema:
  assumes "schema_compatible lc reg sch"
  shows "knows_schema lc (register_complex_schema lc sch reg) sch"
proof -
  let ?t = "string_to_java_hashcode (lc (schema_type_name sch))"
  let ?m = "registered_type_from_schema lc sch"
  have m: "rt_type_id ?m = ?t" "rt_type_name ?m = schema_type_name sch"
    by (simp_all add: registered_type_from_schema_def)
  have ids: "rf_field_id \<circ> registered_field_of lc = (\<lambda>f. field_id_of lc (field_name f))"
    by (simp add: registered_field_of_def fun_eq_iff)
  show ?thesis
  proof (cases "reg ?t")
    case None
    with assms m ids show ?thesis
      by (simp add: knows_schema_def register_complex_schema_def register_type_lookup
          schema_compatible_def registered_type_from_schema_fields)
  next
    case (Some e)
    with assms m show ?thesis
      by (auto simp: knows_schema_def register_complex_schema_def register_type_lookup
          schema_compatible_def merge_registered_type_def registered_type_from_schema_fields Let_def)
  qed
qed

section \<open>Properties\<close>

definition sample_schema :: complex_object_schema where
  "sample_schema = \<lparr>schema_type_name = rstr ''T'', schema_fields =
     [\<lparr>field_name = rstr ''a'', field_type = ItInt\<rparr>, \<lparr>field_name = rstr ''b'', field_type = ItString\<rparr>]\<rparr>"

lemma sample_compatible: "schema_compatible id registry_default sample_schema"
  by (simp add: schema_compatible_def registry_default_def sample_schema_def rstr_def field_id_of_def
      string_to_java_hashcode_def java_hash_step_def)

text \<open>Registration is idempotent and loses nothing: registering the same metadata twice is
  registering it once, and every type, name, field and schema that was known before is known after,
  whatever is registered; every type stays under its own id.\<close>

theorem registration_monotone:
  "register_type m (register_type m reg) = register_type m reg \<and>
   registry_extends reg (register_type m reg) \<and>
   (wf_registry reg \<longrightarrow> wf_registry (register_type m reg))"
  using register_type_idem register_type_extends wf_register_type by blast

theorem registration_monotone_witness:
  "wf_registry (register_type (registered_type_from_schema id sample_schema) registry_default)"
  using registration_monotone wf_registry_default by blast

text \<open>A schema is found again: after a schema that does not clash with the registry is registered,
  the lookup by type id and the field ids of an object footer returns it, with the field types
  that the registry can name, whatever the schema id.\<close>

theorem registered_schema_found:
  assumes "schema_compatible lc reg sch" and "schema_fields sch \<noteq> []"
  shows "schema_for_ordered (register_complex_schema lc sch reg)
      (string_to_java_hashcode (lc (schema_type_name sch))) schema_id
      (map (\<lambda>f. field_id_of lc (field_name f)) (schema_fields sch)) = Some (canon_schema sch)"
  by (rule schema_for_ordered_known [OF register_knows_schema [OF assms(1)] assms(2)])

theorem registered_schema_found_witness:
  "schema_for_ordered (register_complex_schema id sample_schema registry_default)
      (string_to_java_hashcode (rstr ''T'')) 5
      (map (\<lambda>f. field_id_of id (field_name f)) (schema_fields sample_schema)) = Some (canon_schema sample_schema)"
proof -
  have "schema_fields sample_schema \<noteq> []" by (simp add: sample_schema_def)
  from registered_schema_found [OF sample_compatible this, of 5]
  show ?thesis by (simp add: sample_schema_def)
qed

end
