(* ===== verification/ComplexObject.thy ===== *)
theory ComplexObject
  imports BinaryRegistry
begin

text \<open>
  Values and complex objects, \<open>ignite-rs/src/protocol/complex_obj.rs\<close>: the data model, the encoder
  (\<open>IgniteValue::write\<close>, \<open>ComplexObject::write\<close> and \<open>get_data\<close>), the announced sizes and the decimal
  conversion.

  Writing a complex object registers its schema, and so does the computation of its size for the
  objects nested in it. A writer therefore takes the registry and returns it with the bytes or the
  \<open>io::Error\<close> of the source.
\<close>

section \<open>Data model\<close>

datatype ignite_value =
    IvByte u8
  | IvString rstring
  | IvLong i64
  | IvInt i32
  | IvShort i16
  | IvFloat f32
  | IvDouble f64
  | IvChar u16
  | IvBool bool
  | IvUuid i64 i64
  | IvDate i64
  | IvTime i64
  | IvBinary bytes
  | IvObject complex_object
  | IvArray "ignite_value list"
  | IvEnum enum
  | IvTimestamp i64 i32
  | IvDecimal i32 bytes
  | IvNull
  | IvMap u8 "(ignite_value \<times> ignite_value) list"
  | IvCollection u8 "ignite_value list"
  | IvOpaqueMarshal bytes
  | IvPreEncoded bytes
  | IvArrTyped u8 "ignite_value list"
and complex_object = ComplexObject (co_schema: complex_object_schema) (co_values: "ignite_value list")

section \<open>Writers\<close>

type_synonym 'a regop = "registry \<Rightarrow> (io_error + 'a) \<times> registry"
type_synonym writer = "bytes regop"

definition wr :: "bytes \<Rightarrow> writer" where
  "wr bs reg = (Inr bs, reg)"

definition wfail :: "io_error \<Rightarrow> 'a regop" where
  "wfail e reg = (Inl e, reg)"

definition wbind :: "'a regop \<Rightarrow> ('a \<Rightarrow> 'b regop) \<Rightarrow> 'b regop" where
  "wbind m f reg = (case m reg of
      (Inl e, reg') \<Rightarrow> (Inl e, reg')
    | (Inr x, reg') \<Rightarrow> f x reg')"

definition wret :: "'a \<Rightarrow> 'a regop" where
  "wret x reg = (Inr x, reg)"

definition wthen :: "writer \<Rightarrow> writer \<Rightarrow> writer" where
  "wthen m k = wbind m (\<lambda>bs. wbind k (\<lambda>cs. wret (bs @ cs)))"

text \<open>\<open>binary_registry::register_complex_schema\<close> as a step of a writer.\<close>

definition wregister :: "lowercase \<Rightarrow> complex_object_schema \<Rightarrow> unit regop" where
  "wregister lc schema reg = (Inr (), register_complex_schema lc schema reg)"

section \<open>The footer of a complex object\<close>

definition offset_flag_of :: "i32 list \<Rightarrow> u16" where
  "offset_flag_of offsets =
    (let max_offset = (if offsets = [] then 0 else Max (sint ` set offsets))
     in if max_offset < 0 then 0
        else if max_offset \<le> 255 then FLAG_OFFSET_ONE_BYTE
        else if max_offset \<le> 65535 then FLAG_OFFSET_TWO_BYTES
        else 0)"

definition write_offset :: "u16 \<Rightarrow> i32 \<Rightarrow> bytes" where
  "write_offset offset_flag offset =
    (if offset_flag = FLAG_OFFSET_ONE_BYTE then write_u8 (ucast offset)
     else if offset_flag = FLAG_OFFSET_TWO_BYTES then write_u16 (ucast offset)
     else write_i32 offset)"

definition write_footer :: "lowercase \<Rightarrow> u16 \<Rightarrow> ignite_field list \<Rightarrow> i32 list \<Rightarrow> bytes" where
  "write_footer lc offset_flag fs offsets =
    concat (map (\<lambda>(field, offset).
      write_i32 (field_id_of lc (field_name field)) @ write_offset offset_flag offset) (zip fs offsets))"

text \<open>\<open>ComplexObject::get_offset_flags\<close>, by the bit length of the last offset.\<close>

fun bit_len :: "nat \<Rightarrow> nat" where
  "bit_len n = (if n = 0 then 0 else Suc (bit_len (n div 2)))"

declare bit_len.simps [simp del]

definition get_offset_flags :: "i32 list \<Rightarrow> u16" where
  "get_offset_flags offsets =
    (if offsets = [] then FLAG_OFFSET_ONE_BYTE
     else let bits = bit_len (unat (last offsets))
          in if bits < 8 then FLAG_OFFSET_ONE_BYTE
             else if bits < 16 then FLAG_OFFSET_TWO_BYTES
             else 0)"

section \<open>The header of a complex object\<close>

definition object_bytes :: "lowercase \<Rightarrow> complex_object_schema \<Rightarrow> bytes \<times> bytes \<times> u16 \<Rightarrow> bytes" where
  "object_bytes lc sch d = (case d of (vals, schema, offset_flag) \<Rightarrow>
     write_u8 (type_code_u8 TcComplexObj) @
     write_u8 1 @
     write_u16 (FLAG_HAS_SCHEMA OR FLAG_USER_TYPE OR offset_flag) @
     write_i32 (string_to_java_hashcode (lc (schema_type_name sch))) @
     write_i32 (bytes_to_java_hashcode vals) @
     write_i32 (i32_of_usize (COMPLEX_OBJ_HEADER_LEN + length vals + length schema)) @
     write_i32 (get_schema_id lc (schema_fields sch)) @
     write_i32 (i32_of_usize COMPLEX_OBJ_HEADER_LEN + i32_of_usize (length vals)) @
     vals @ schema)"

text \<open>\<open>get_data\<close> once the field data and the offsets are there: the narrowest offset width, and the
  footer in that width.\<close>

definition finish_data :: "lowercase \<Rightarrow> complex_object_schema \<Rightarrow> bytes \<times> i32 list \<Rightarrow> bytes \<times> bytes \<times> u16" where
  "finish_data lc sch d = (case d of (vals, offsets) \<Rightarrow>
     (let offset_flag = offset_flag_of offsets
      in (vals, write_footer lc offset_flag (schema_fields sch) offsets, offset_flag)))"

definition JAVA_LONG :: rstring where "JAVA_LONG = rstr ''java.lang.Long''"
definition JAVA_STRING :: rstring where "JAVA_STRING = rstr ''java.lang.String''"

text \<open>Objects whose type is the Java box of a primitive are written as the primitive.\<close>

definition write_boxed_long :: "ignite_value list \<Rightarrow> writer" where
  "write_boxed_long vals =
    (if vals = [] then wfail (IoOther ''No values'')
     else case last vals of
       IvLong val \<Rightarrow> wr (write_u8 (type_code_u8 TcLong) @ write_i64 val)
     | _ \<Rightarrow> wfail (IoOther ''Mismatched types!''))"

definition write_boxed_string :: "ignite_value list \<Rightarrow> writer" where
  "write_boxed_string vals =
    (if vals = [] then wfail (IoOther ''No values'')
     else case last vals of
       IvString val \<Rightarrow> wr (write_u8 (type_code_u8 TcString) @ write_string val)
     | _ \<Rightarrow> wfail (IoOther ''Mismatched types!''))"

section \<open>The encoder\<close>

text \<open>\<open>write_value\<close> is \<open>IgniteValue::write\<close>; \<open>write_field\<close> is the second copy of that match, inlined in
  the field loop of \<open>get_data\<close>; \<open>get_data_loop\<close> is that loop with the bytes and offsets so far.\<close>

function (sequential) write_value :: "lowercase \<Rightarrow> ignite_value \<Rightarrow> writer"
  and write_values :: "lowercase \<Rightarrow> ignite_value list \<Rightarrow> writer"
  and write_entries :: "lowercase \<Rightarrow> (ignite_value \<times> ignite_value) list \<Rightarrow> writer"
  and write_field :: "lowercase \<Rightarrow> ignite_value \<Rightarrow> writer"
  and get_data_loop :: "lowercase \<Rightarrow> ignite_value list \<Rightarrow> ignite_field list \<Rightarrow> bytes \<times> i32 list \<Rightarrow>
        (bytes \<times> i32 list) regop"
  and write_object :: "lowercase \<Rightarrow> complex_object \<Rightarrow> writer"
where
  "write_value lc v = (case v of
       IvByte val \<Rightarrow> wr (write_u8 (type_code_u8 TcByte) @ write_u8 val)
     | IvString val \<Rightarrow> wr (write_u8 (type_code_u8 TcString) @ write_string val)
     | IvLong val \<Rightarrow> wr (write_u8 (type_code_u8 TcLong) @ write_i64 val)
     | IvInt val \<Rightarrow> wr (write_u8 (type_code_u8 TcInt) @ write_i32 val)
     | IvShort val \<Rightarrow> wr (write_u8 (type_code_u8 TcShort) @ write_i16 val)
     | IvFloat val \<Rightarrow> wr (write_u8 (type_code_u8 TcFloat) @ write_f32 val)
     | IvDouble val \<Rightarrow> wr (write_u8 (type_code_u8 TcDouble) @ write_f64 val)
     | IvChar val \<Rightarrow> wr (write_u8 (type_code_u8 TcChar) @ write_u16 val)
     | IvBool val \<Rightarrow> wr (write_u8 (type_code_u8 TcBool) @ write_u8 (if val then 1 else 0))
     | IvUuid most least \<Rightarrow> wr (write_u8 (type_code_u8 TcUuid) @ write_i64 most @ write_i64 least)
     | IvDate val \<Rightarrow> wr (write_u8 (type_code_u8 TcDate) @ write_i64 val)
     | IvTime val \<Rightarrow> wr (write_u8 (type_code_u8 TcTime) @ write_i64 val)
     | IvBinary data \<Rightarrow> wr (write_u8 (type_code_u8 TcArrByte) @ write_i32 (i32_of_usize (length data)) @ data)
     | IvObject value \<Rightarrow> write_object lc value
     | IvArray items \<Rightarrow> wthen (wr (write_u8 (type_code_u8 TcArrObj) @ write_i32 (- 1) @
       write_i32 (i32_of_usize (length items)))) (write_values lc items)
     | IvEnum val \<Rightarrow> wr (write_u8 (type_code_u8 TcEnum) @ write_enum val)
     | IvTimestamp big little \<Rightarrow> wr (write_u8 (type_code_u8 TcTimestamp) @ write_i64 big @ write_i32 little)
     | IvDecimal scale data \<Rightarrow> wr (write_u8 (type_code_u8 TcDecimal) @ write_i32 scale @
       write_i32 (i32_of_usize (length data)) @ data)
     | IvNull \<Rightarrow> wr write_null
     | IvMap map_type entries \<Rightarrow> wthen (wr (write_u8 (type_code_u8 TcMap) @
       write_i32 (i32_of_usize (length entries)) @ write_u8 map_type)) (write_entries lc entries)
     | IvCollection col_type items \<Rightarrow> wthen (wr (write_u8 (type_code_u8 TcCollection) @
       write_i32 (i32_of_usize (length items)) @ write_u8 col_type)) (write_values lc items)
     | IvOpaqueMarshal data \<Rightarrow> wr (write_u8 (type_code_u8 TcOptimizedMarshaller) @
       write_i32 (i32_of_usize (length data)) @ data)
     | IvPreEncoded data \<Rightarrow> wr data
     | IvArrTyped type_code elements \<Rightarrow> wthen (wr (write_u8 type_code @
       write_i32 (i32_of_usize (length elements)))) (write_values lc elements))"

| "write_values lc [] = wr []"
| "write_values lc (item # items) = wthen (write_value lc item) (write_values lc items)"

| "write_entries lc [] = wr []"
| "write_entries lc ((k, v) # entries) =
    wthen (write_value lc k) (wthen (write_value lc v) (write_entries lc entries))"

| "write_field lc v = (case v of
       IvByte val \<Rightarrow> wr (write_u8 (type_code_u8 TcByte) @ write_u8 val)
     | IvString val \<Rightarrow> wr (write_u8 (type_code_u8 TcString) @ write_string val)
     | IvLong val \<Rightarrow> wr (write_u8 (type_code_u8 TcLong) @ write_i64 val)
     | IvInt val \<Rightarrow> wr (write_u8 (type_code_u8 TcInt) @ write_i32 val)
     | IvShort val \<Rightarrow> wr (write_u8 (type_code_u8 TcShort) @ write_i16 val)
     | IvFloat val \<Rightarrow> wr (write_u8 (type_code_u8 TcFloat) @ write_f32 val)
     | IvDouble val \<Rightarrow> wr (write_u8 (type_code_u8 TcDouble) @ write_f64 val)
     | IvChar val \<Rightarrow> wr (write_u8 (type_code_u8 TcChar) @ write_u16 val)
     | IvBool val \<Rightarrow> wr (write_u8 (type_code_u8 TcBool) @ write_u8 (if val then 1 else 0))
     | IvUuid most least \<Rightarrow> wr (write_u8 (type_code_u8 TcUuid) @ write_i64 most @ write_i64 least)
     | IvDate val \<Rightarrow> wr (write_u8 (type_code_u8 TcDate) @ write_i64 val)
     | IvTime val \<Rightarrow> wr (write_u8 (type_code_u8 TcTime) @ write_i64 val)
     | IvBinary data \<Rightarrow> wr (write_u8 (type_code_u8 TcArrByte) @ write_i32 (i32_of_usize (length data)) @ data)
     | IvObject value \<Rightarrow> write_object lc value
     | IvArray items \<Rightarrow> wthen (wr (write_u8 (type_code_u8 TcArrObj) @ write_i32 (- 1) @
       write_i32 (i32_of_usize (length items)))) (write_values lc items)
     | IvEnum val \<Rightarrow> wr (write_u8 (type_code_u8 TcEnum) @ write_enum val)
     | IvTimestamp big little \<Rightarrow> wr (write_u8 (type_code_u8 TcTimestamp) @ write_i64 big @ write_i32 little)
     | IvDecimal scale data \<Rightarrow> wr (write_u8 (type_code_u8 TcDecimal) @ write_i32 scale @
       write_i32 (i32_of_usize (length data)) @ data)
     | IvNull \<Rightarrow> wr write_null
     | IvMap map_type entries \<Rightarrow> wthen (wr (write_u8 (type_code_u8 TcMap) @
       write_i32 (i32_of_usize (length entries)) @ write_u8 map_type)) (write_entries lc entries)
     | IvCollection col_type items \<Rightarrow> wthen (wr (write_u8 (type_code_u8 TcCollection) @
       write_i32 (i32_of_usize (length items)) @ write_u8 col_type)) (write_values lc items)
     | IvOpaqueMarshal data \<Rightarrow> wr (write_u8 (type_code_u8 TcOptimizedMarshaller) @
       write_i32 (i32_of_usize (length data)) @ data)
     | IvPreEncoded data \<Rightarrow> wr data
     | IvArrTyped type_code elements \<Rightarrow> wthen (wr (write_u8 type_code @
       write_i32 (i32_of_usize (length elements)))) (write_values lc elements))"

| "get_data_loop lc (val # vals) (field # fs) d = wbind (write_field lc val) (\<lambda>bs.
    get_data_loop lc vals fs
      (fst d @ bs, snd d @ [i32_of_usize COMPLEX_OBJ_HEADER_LEN + i32_of_usize (length (fst d))]))"
| "get_data_loop lc [] fs d = wret d"
| "get_data_loop lc vals [] d = wret d"

| "write_object lc (ComplexObject sch vals) =
    (if schema_fields sch = [] \<and> length vals = 1 then
       (case vals of v # _ \<Rightarrow> write_value lc v | [] \<Rightarrow> wr [])
     else if schema_type_name sch = JAVA_LONG then write_boxed_long vals
     else if schema_type_name sch = JAVA_STRING then write_boxed_string vals
     else
       wbind (wregister lc sch) (\<lambda>_.
       wbind (get_data_loop lc vals (schema_fields sch) ([], [])) (\<lambda>d.
       wr (object_bytes lc sch (finish_data lc sch d)))))"
  by pat_completeness auto
termination
  by (relation "measure (case_sum
      (case_sum (\<lambda>(lc, v). size v)
        (case_sum (\<lambda>(lc, vs). size_list size vs) (\<lambda>(lc, es). size_list (size_prod size size) es)))
      (case_sum (\<lambda>(lc, v). size v)
        (case_sum (\<lambda>(lc, vs, fs, d). size_list size vs) (\<lambda>(lc, co). size co))))") simp_all

declare write_value.simps [simp del] write_field.simps [simp del]

definition get_data :: "lowercase \<Rightarrow> complex_object \<Rightarrow> (bytes \<times> bytes \<times> u16) regop" where
  "get_data lc co = wbind (get_data_loop lc (co_values co) (schema_fields (co_schema co)) ([], []))
     (\<lambda>d. wret (finish_data lc (co_schema co) d))"

section \<open>Accessors\<close>

fun ignite_type_of :: "ignite_value \<Rightarrow> ignite_type" where
  "ignite_type_of (IvByte _) = ItByte"
| "ignite_type_of (IvString _) = ItString"
| "ignite_type_of (IvLong _) = ItLong"
| "ignite_type_of (IvInt _) = ItInt"
| "ignite_type_of (IvShort _) = ItShort"
| "ignite_type_of (IvFloat _) = ItFloat"
| "ignite_type_of (IvDouble _) = ItDouble"
| "ignite_type_of (IvChar _) = ItChar"
| "ignite_type_of (IvBool _) = ItBool"
| "ignite_type_of (IvUuid _ _) = ItUuid"
| "ignite_type_of (IvDate _) = ItDate"
| "ignite_type_of (IvTime _) = ItTime"
| "ignite_type_of (IvBinary _) = ItBinary"
| "ignite_type_of (IvObject _) = ItObject"
| "ignite_type_of (IvArray _) = ItArray"
| "ignite_type_of (IvEnum _) = ItEnum"
| "ignite_type_of (IvTimestamp _ _) = ItTimestamp"
| "ignite_type_of (IvDecimal _ _) = ItDecimal 0 0"
| "ignite_type_of IvNull = ItNull"
| "ignite_type_of (IvMap _ _) = ItMap"
| "ignite_type_of (IvCollection _ _) = ItCollection"
| "ignite_type_of (IvOpaqueMarshal _) = ItBinary"
| "ignite_type_of (IvPreEncoded _) = ItObject"
| "ignite_type_of (IvArrTyped _ _) = ItArray"

text \<open>\<open>ComplexObject::field\<close>: the value at the position of the first field of that name.\<close>

fun position :: "('a \<Rightarrow> bool) \<Rightarrow> 'a list \<Rightarrow> nat option" where
  "position p [] = None"
| "position p (x # xs) = (if p x then Some 0 else map_option Suc (position p xs))"

definition co_field :: "complex_object \<Rightarrow> rstring \<Rightarrow> ignite_value option" where
  "co_field co name = (case position (\<lambda>f. field_name f = name) (schema_fields (co_schema co)) of
      None \<Rightarrow> None
    | Some idx \<Rightarrow> (if idx < length (co_values co) then Some (co_values co ! idx) else None))"

section \<open>Announced sizes\<close>

text \<open>\<open>size\<close> may panic (\<open>None\<close>), and for a complex object it runs \<open>get_data\<close>, which registers the
  schemas of the nested objects.\<close>

type_synonym sizer = "registry \<Rightarrow> nat option \<times> registry"

definition sret :: "nat \<Rightarrow> sizer" where
  "sret n reg = (Some n, reg)"

definition sadd :: "sizer \<Rightarrow> sizer \<Rightarrow> sizer" where
  "sadd a b reg = (case a reg of
      (None, reg') \<Rightarrow> (None, reg')
    | (Some m, reg') \<Rightarrow>
        (case b reg' of (None, reg'') \<Rightarrow> (None, reg'') | (Some n, reg'') \<Rightarrow> (Some (m + n), reg'')))"

definition size_boxed_string :: "ignite_value list \<Rightarrow> sizer" where
  "size_boxed_string vals reg =
    (if vals = [] then (None, reg)
     else case last vals of
       IvString val \<Rightarrow> (Some (4 + 1 + str_len val), reg)
     | _ \<Rightarrow> (None, reg))"

definition size_of_data :: "(bytes \<times> bytes \<times> u16) regop \<Rightarrow> sizer" where
  "size_of_data m reg = (case m reg of
      (Inl e, reg') \<Rightarrow> (None, reg')
    | (Inr (vals, schema, _), reg') \<Rightarrow>
        (Some (length vals + length schema + COMPLEX_OBJ_HEADER_LEN), reg'))"

function (sequential) value_size :: "lowercase \<Rightarrow> ignite_value \<Rightarrow> sizer"
  and values_size :: "lowercase \<Rightarrow> ignite_value list \<Rightarrow> sizer"
  and entries_size :: "lowercase \<Rightarrow> (ignite_value \<times> ignite_value) list \<Rightarrow> sizer"
  and object_size :: "lowercase \<Rightarrow> complex_object \<Rightarrow> sizer"
where
  "value_size lc v = (case v of
       IvByte _ \<Rightarrow> sret (1 + 1)
     | IvString s \<Rightarrow> sret (1 + 4 + str_len s)
     | IvLong _ \<Rightarrow> sret (1 + 8)
     | IvInt _ \<Rightarrow> sret (1 + 4)
     | IvShort _ \<Rightarrow> sret (1 + 2)
     | IvFloat _ \<Rightarrow> sret (1 + 4)
     | IvDouble _ \<Rightarrow> sret (1 + 8)
     | IvChar _ \<Rightarrow> sret (1 + 2)
     | IvBool _ \<Rightarrow> sret (1 + 1)
     | IvUuid _ _ \<Rightarrow> sret (1 + 8 + 8)
     | IvDate _ \<Rightarrow> sret (1 + 8)
     | IvTime _ \<Rightarrow> sret (1 + 8)
     | IvBinary data \<Rightarrow> sret (1 + 4 + length data)
     | IvObject value \<Rightarrow> object_size lc value
     | IvArray items \<Rightarrow> sadd (sret (1 + 4 + 4)) (values_size lc items)
     | IvEnum _ \<Rightarrow> sret (1 + 4 + 4)
     | IvTimestamp _ _ \<Rightarrow> sret (1 + 8 + 4)
     | IvDecimal _ data \<Rightarrow> sret (1 + 4 + 4 + length data)
     | IvNull \<Rightarrow> sret 1
     | IvMap _ entries \<Rightarrow> sadd (sret (1 + 4 + 1)) (entries_size lc entries)
     | IvCollection _ items \<Rightarrow> sadd (sret (1 + 4 + 1)) (values_size lc items)
     | IvOpaqueMarshal data \<Rightarrow> sret (1 + 4 + length data)
     | IvPreEncoded data \<Rightarrow> sret (length data)
     | IvArrTyped _ elements \<Rightarrow> sadd (sret (1 + 4)) (values_size lc elements))"
| "values_size lc [] = sret 0"
| "values_size lc (item # items) = sadd (value_size lc item) (values_size lc items)"
| "entries_size lc [] = sret 0"
| "entries_size lc ((k, v) # entries) =
    sadd (sadd (value_size lc k) (value_size lc v)) (entries_size lc entries)"
| "object_size lc (ComplexObject sch vals) =
    (if schema_fields sch = [] \<and> length vals = 1 then
       (case vals of v # _ \<Rightarrow> value_size lc v | [] \<Rightarrow> sret 0)
     else if schema_type_name sch = JAVA_LONG then sret (8 + 1)
     else if schema_type_name sch = JAVA_STRING then size_boxed_string vals
     else size_of_data (get_data lc (ComplexObject sch vals)))"
  by pat_completeness auto
termination
  by (relation "measure (case_sum
      (case_sum (\<lambda>(lc, v). size v) (\<lambda>(lc, vs). size_list size vs))
      (case_sum (\<lambda>(lc, es). size_list (size_prod size size) es) (\<lambda>(lc, co). size co)))") simp_all

declare value_size.simps [simp del]

section \<open>Decimals\<close>

text \<open>\<open>to_be_bytes\<close> of an \<open>i128\<close>, and the loops that skip leading sign bytes.\<close>

definition to_be_bytes16 :: "i128 \<Rightarrow> bytes" where
  "to_be_bytes16 w = rev (to_le 16 (unat w))"

function skip_start :: "u8 \<Rightarrow> bytes \<Rightarrow> nat \<Rightarrow> nat" where
  "skip_start fill bs start =
    (if start < 15 \<and> bs ! start = fill then skip_start fill bs (start + 1) else start)"
  by pat_completeness auto
termination
  by (relation "measure (\<lambda>(fill, bs, start). 15 - start)") auto

declare skip_start.simps [simp del]

definition decimal_from_signed_i128 :: "i128 \<Rightarrow> i32 \<Rightarrow> ignite_value" where
  "decimal_from_signed_i128 unscaled scale =
    (if unscaled = 0 then IvDecimal scale [0]
     else
       let bs = to_be_bytes16 unscaled
       in if 0 < sint unscaled then
            (let start = skip_start 0 bs 0;
                 start = (if bs ! start AND 0x80 \<noteq> 0 \<and> start > 0 then start - 1 else start)
             in IvDecimal scale (drop start bs))
          else
            (let start = skip_start 0xFF bs 0;
                 start = (if bs ! start AND 0x80 = 0 \<and> start > 0 then start - 1 else start)
             in IvDecimal scale (drop start bs)))"

end
