(* ===== verification/ObjectEncoding.thy ===== *)
theory ObjectEncoding
  imports ComplexObject
begin

text \<open>
  What the encoder of \<open>ComplexObject\<close> produces: the bytes do not depend on the registry, the registry
  only grows, both copies of the value match agree, the announced size is the written size, and the
  byte layout of every well-formed value, which the decoding theories build on.
\<close>

section \<open>Writers and the registry\<close>

text \<open>A writer whose result does not depend on the registry, and that only extends the registry.\<close>

definition steady :: "'a regop \<Rightarrow> bool" where
  "steady m \<longleftrightarrow> (\<forall>r r'. fst (m r) = fst (m r')) \<and> (\<forall>r. registry_extends r (snd (m r)))"

definition run :: "'a regop \<Rightarrow> io_error + 'a" where
  "run m = fst (m registry_default)"

named_theorems steady_intros

lemma steady_fst: "steady m \<Longrightarrow> fst (m r) = run m"
  by (auto simp: steady_def run_def)

lemma steady_extends: "steady m \<Longrightarrow> registry_extends r (snd (m r))"
  by (simp add: steady_def)

lemma steady_prims [steady_intros]: "steady (wr bs)" "steady (wfail e)" "steady (wret x)"
  by (simp_all add: steady_def wr_def wfail_def wret_def registry_extends_refl)

lemma steady_wregister [steady_intros]: "steady (wregister lc sch)"
  by (simp add: steady_def wregister_def register_complex_schema_def register_type_extends)

lemma steady_wbind [steady_intros]:
  assumes m: "steady m" and f: "\<And>x. steady (f x)"
  shows "steady (wbind m f)"
  unfolding steady_def
proof (intro conjI allI)
  fix r r'
  show "fst (wbind m f r) = fst (wbind m f r')"
    using steady_fst [OF m, of r] steady_fst [OF m, of r'] steady_fst [OF f]
    by (cases "m r"; cases "m r'"; cases "run m") (simp_all add: wbind_def)
next
  fix r
  show "registry_extends r (snd (wbind m f r))"
    using steady_extends [OF m, of r] steady_extends [OF f]
    by (auto simp: wbind_def split: prod.split sum.split intro: registry_extends_trans)
qed

lemma steady_wthen [steady_intros]: "steady m \<Longrightarrow> steady k \<Longrightarrow> steady (wthen m k)"
  by (simp add: wthen_def steady_intros)

lemma steady_boxed [steady_intros]: "steady (write_boxed_long vals)" "steady (write_boxed_string vals)"
  by (auto simp: write_boxed_long_def write_boxed_string_def steady_prims split: ignite_value.split)

lemma steady_writers:
  "steady (write_value lc v)"
  "steady (write_values lc vs)"
  "steady (write_entries lc es)"
  "steady (write_field lc v)"
  "steady (get_data_loop lc vs fs d)"
  "steady (write_object lc co)"
proof (induction lc v and lc vs and lc es and lc v and lc vs fs d and lc co
    rule: write_value_write_values_write_entries_write_field_get_data_loop_write_object.induct)
  case (1 lc v)
  then show ?case
    by (cases v) (simp_all add: write_value.simps steady_intros)
next
  case (6 lc v)
  then show ?case
    by (cases v) (simp_all add: write_field.simps steady_intros)
next
  case (10 lc sch vals)
  then show ?case by (auto simp: steady_intros split: list.split)
qed (simp_all add: steady_intros)

lemmas steady_write_value [steady_intros] = steady_writers(1)
lemmas steady_write_values [steady_intros] = steady_writers(2)
lemmas steady_write_entries [steady_intros] = steady_writers(3)
lemmas steady_write_field [steady_intros] = steady_writers(4)
lemmas steady_get_data_loop [steady_intros] = steady_writers(5)
lemmas steady_write_object [steady_intros] = steady_writers(6)

lemma run_prims [simp]: "run (wr bs) = Inr bs" "run (wfail e) = Inl e" "run (wret x) = Inr x"
    "run (wregister lc sch) = Inr ()"
  by (simp_all add: run_def wr_def wfail_def wret_def wregister_def)

lemma run_wbind:
  "(\<And>x. steady (f x)) \<Longrightarrow> run (wbind m f) = (case run m of Inl e \<Rightarrow> Inl e | Inr x \<Rightarrow> run (f x))"
  using steady_fst [of "f _"] by (auto simp: run_def wbind_def split: prod.split sum.split)

lemma run_wthen:
  "steady k \<Longrightarrow> run (wthen m k) =
    (case run m of Inl e \<Rightarrow> Inl e | Inr bs \<Rightarrow> (case run k of Inl e \<Rightarrow> Inl e | Inr cs \<Rightarrow> Inr (bs @ cs)))"
  by (simp add: wthen_def run_wbind steady_intros split: sum.split)

text \<open>The two copies of the match agree, so that a field is written as the value it holds.\<close>

lemma write_field_eq: "write_field lc v = write_value lc v"
  by (cases v) (simp_all add: write_field.simps write_value.simps)

section \<open>Layout\<close>

text \<open>The bytes of a value the encoder accepts.\<close>

definition enc_value :: "lowercase \<Rightarrow> ignite_value \<Rightarrow> bytes" where
  "enc_value lc v = (case run (write_value lc v) of Inr bs \<Rightarrow> bs | Inl e \<Rightarrow> [])"

definition accepted :: "lowercase \<Rightarrow> ignite_value \<Rightarrow> bool" where
  "accepted lc v \<longleftrightarrow> (\<exists>bs. run (write_value lc v) = Inr bs)"

lemma run_accepted: "accepted lc v \<longleftrightarrow> run (write_value lc v) = Inr (enc_value lc v)"
  by (auto simp: accepted_def enc_value_def)

lemma run_write_values:
  "list_all (accepted lc) vs \<Longrightarrow> run (write_values lc vs) = Inr (concat (map (enc_value lc) vs))"
  by (induction vs) (auto simp: run_wthen steady_intros run_accepted)

lemma run_write_entries:
  "list_all (\<lambda>(k, v). accepted lc k \<and> accepted lc v) es \<Longrightarrow>
    run (write_entries lc es) = Inr (concat (map (\<lambda>(k, v). enc_value lc k @ enc_value lc v) es))"
  by (induction es) (auto simp: run_wthen steady_intros run_accepted)

text \<open>The offset at which each field starts, counted from the start of the object.\<close>

fun field_offsets :: "nat \<Rightarrow> bytes list \<Rightarrow> i32 list" where
  "field_offsets n [] = []"
| "field_offsets n (b # bs) =
    (i32_of_usize COMPLEX_OBJ_HEADER_LEN + i32_of_usize n) # field_offsets (n + length b) bs"

lemma run_get_data_loop:
  "list_all (accepted lc) vs \<Longrightarrow> length vs = length fs \<Longrightarrow>
    run (get_data_loop lc vs fs d) =
      Inr (fst d @ concat (map (enc_value lc) vs),
           snd d @ field_offsets (length (fst d)) (map (enc_value lc) vs))"
proof (induction vs arbitrary: fs d)
  case Nil
  then show ?case by simp
next
  case (Cons v vs)
  then obtain f fs' where fs: "fs = f # fs'" and len: "length vs = length fs'"
    by (cases fs) auto
  with Cons show ?case
    by (simp add: run_wbind steady_intros write_field_eq run_accepted)
qed

definition object_data :: "lowercase \<Rightarrow> complex_object_schema \<Rightarrow> ignite_value list \<Rightarrow> bytes \<times> bytes \<times> u16" where
  "object_data lc sch vs = finish_data lc sch
    (concat (map (enc_value lc) vs), field_offsets 0 (map (enc_value lc) vs))"

text \<open>An object that is written as one: not the wrapper of a primitive, as many values as fields.\<close>

definition proper_object :: "complex_object_schema \<Rightarrow> ignite_value list \<Rightarrow> bool" where
  "proper_object sch vs \<longleftrightarrow>
    \<not> (schema_fields sch = [] \<and> length vs = 1) \<and>
    schema_type_name sch \<noteq> JAVA_LONG \<and> schema_type_name sch \<noteq> JAVA_STRING \<and>
    length vs = length (schema_fields sch)"

lemma run_write_object:
  assumes "proper_object sch vs" and "list_all (accepted lc) vs"
  shows "run (write_object lc (ComplexObject sch vs)) = Inr (object_bytes lc sch (object_data lc sch vs))"
proof -
  from assms(1) have "(schema_fields sch = [] \<and> length vs = 1) = False" by (simp add: proper_object_def)
  with assms show ?thesis
    by (simp only: write_object.simps if_False proper_object_def)
      (simp add: run_wbind steady_intros run_get_data_loop object_data_def)
qed

subsection \<open>Layout of each value\<close>

lemma enc_simple:
  "enc_value lc (IvByte a) = write_u8 (type_code_u8 TcByte) @ write_u8 a"
  "enc_value lc (IvString s) = write_u8 (type_code_u8 TcString) @ write_string s"
  "enc_value lc (IvLong b) = write_u8 (type_code_u8 TcLong) @ write_i64 b"
  "enc_value lc (IvInt c) = write_u8 (type_code_u8 TcInt) @ write_i32 c"
  "enc_value lc (IvShort d) = write_u8 (type_code_u8 TcShort) @ write_i16 d"
  "enc_value lc (IvFloat e) = write_u8 (type_code_u8 TcFloat) @ write_f32 e"
  "enc_value lc (IvDouble f) = write_u8 (type_code_u8 TcDouble) @ write_f64 f"
  "enc_value lc (IvChar g) = write_u8 (type_code_u8 TcChar) @ write_u16 g"
  "enc_value lc (IvBool h) = write_u8 (type_code_u8 TcBool) @ write_bool h"
  "enc_value lc (IvUuid i j) = write_u8 (type_code_u8 TcUuid) @ write_i64 i @ write_i64 j"
  "enc_value lc (IvDate k) = write_u8 (type_code_u8 TcDate) @ write_i64 k"
  "enc_value lc (IvTime l) = write_u8 (type_code_u8 TcTime) @ write_i64 l"
  "enc_value lc (IvBinary m) = write_u8 (type_code_u8 TcArrByte) @ write_i32 (i32_of_usize (length m)) @ m"
  "enc_value lc (IvEnum n) = write_u8 (type_code_u8 TcEnum) @ write_enum n"
  "enc_value lc (IvTimestamp q r) = write_u8 (type_code_u8 TcTimestamp) @ write_i64 q @ write_i32 r"
  "enc_value lc (IvDecimal t u) = write_u8 (type_code_u8 TcDecimal) @ write_i32 t @
      write_i32 (i32_of_usize (length u)) @ u"
  "enc_value lc IvNull = write_u8 (type_code_u8 TcNull)"
  "enc_value lc (IvOpaqueMarshal w) = write_u8 (type_code_u8 TcOptimizedMarshaller) @
      write_i32 (i32_of_usize (length w)) @ w"
  "enc_value lc (IvPreEncoded x) = x"
  by (simp_all add: enc_value_def write_value.simps write_bool_def write_null_def)

lemma enc_containers:
  "list_all (accepted lc) vs \<Longrightarrow> enc_value lc (IvArray vs) =
     write_u8 (type_code_u8 TcArrObj) @ write_i32 (- 1) @ write_i32 (i32_of_usize (length vs)) @
     concat (map (enc_value lc) vs)"
  "list_all (accepted lc) vs \<Longrightarrow> enc_value lc (IvCollection t vs) =
     write_u8 (type_code_u8 TcCollection) @ write_i32 (i32_of_usize (length vs)) @ write_u8 t @
     concat (map (enc_value lc) vs)"
  "list_all (accepted lc) vs \<Longrightarrow> enc_value lc (IvArrTyped c vs) =
     write_u8 c @ write_i32 (i32_of_usize (length vs)) @ concat (map (enc_value lc) vs)"
  "list_all (\<lambda>(k, v). accepted lc k \<and> accepted lc v) es \<Longrightarrow> enc_value lc (IvMap t es) =
     write_u8 (type_code_u8 TcMap) @ write_i32 (i32_of_usize (length es)) @ write_u8 t @
     concat (map (\<lambda>(k, v). enc_value lc k @ enc_value lc v) es)"
  by (simp_all add: enc_value_def [of lc "IvArray _"] enc_value_def [of lc "IvCollection _ _"]
      enc_value_def [of lc "IvArrTyped _ _"] enc_value_def [of lc "IvMap _ _"] write_value.simps
      run_wthen steady_intros run_write_values run_write_entries)

lemma enc_object:
  "proper_object sch vs \<Longrightarrow> list_all (accepted lc) vs \<Longrightarrow>
    enc_value lc (IvObject (ComplexObject sch vs)) = object_bytes lc sch (object_data lc sch vs)"
  by (simp add: enc_value_def [of lc "IvObject _"] write_value.simps run_write_object
      del: write_object.simps)

end
