(* ===== verification/ObjectDecoding.thy ===== *)
theory ObjectDecoding
  imports ObjectEncoding
begin

text \<open>
  The decoder of \<open>ignite-rs/src/protocol/complex_obj.rs\<close>: \<open>ComplexObject::read_unwrapped\<close> with its
  field loop, its footer and the schema lookup, and \<open>flatten_complex_value\<close>.

  The decoder is recursive: an array element is decoded by \<open>ComplexObject::read\<close>, an object field by
  \<open>ComplexObject::read_unwrapped\<close>. The bodies below take those two calls as the arguments \<open>rd\<close> and
  \<open>ru\<close>; the recursion is tied by fuel at the end. Every call consumes input, so that more fuel than
  bytes is enough (\<open>Totality\<close> below), and \<open>co_read\<close> and \<open>co_read_unwrapped\<close> satisfy the equations
  of the source with no fuel in them.
\<close>

section \<open>Bodies\<close>

fun flatten_complex_value :: "complex_object \<Rightarrow> ignite_value" where
  "flatten_complex_value (ComplexObject sch vals) =
    (if schema_fields sch = [] \<and> length vals = 1
     then (case vals of v # _ \<Rightarrow> v | [] \<Rightarrow> IvNull)
     else IvObject (ComplexObject sch vals))"

text \<open>\<open>ComplexObject::read(reader)?.map(flatten_complex_value).unwrap_or(IgniteValue::Null)\<close>.\<close>

definition read_item :: "complex_object option reader \<Rightarrow> ignite_value reader" where
  "read_item rd = rmap (\<lambda>r. case r of None \<Rightarrow> IvNull | Some co \<Rightarrow> flatten_complex_value co) rd"

definition read_pair :: "complex_object option reader \<Rightarrow> (ignite_value \<times> ignite_value) reader" where
  "read_pair rd = rbind (read_item rd) (\<lambda>k. rbind (read_item rd) (\<lambda>v. ret (k, v)))"

text \<open>\<open>vec![0; len as usize]\<close> filled by \<open>read_exact\<close>, after the length.\<close>

definition read_blob :: "bytes reader" where
  "read_blob = rbind read_i32 (\<lambda>len. read_vec (usize_of_i32 len))"

definition read_array_body :: "complex_object option reader \<Rightarrow> ignite_value list reader" where
  "read_array_body rd = rbind read_i32 (\<lambda>_. rbind read_i32 (\<lambda>len. rbind (with_capacity len) (\<lambda>_.
     repeat_read (i32_range len) (read_item rd))))"

definition read_map_body :: "complex_object option reader \<Rightarrow> ignite_value reader" where
  "read_map_body rd = rbind read_i32 (\<lambda>count. rbind read_u8 (\<lambda>map_type.
     rmap (IvMap map_type) (repeat_read (i32_range count) (read_pair rd))))"

definition read_collection_body :: "complex_object option reader \<Rightarrow> ignite_value reader" where
  "read_collection_body rd = rbind read_i32 (\<lambda>count. rbind read_u8 (\<lambda>col_type.
     rmap (IvCollection col_type) (repeat_read (i32_range count) (read_item rd))))"

definition read_typed_array_body :: "complex_object option reader \<Rightarrow> type_code \<Rightarrow> ignite_value reader" where
  "read_typed_array_body rd tc = rbind read_i32 (\<lambda>len.
     rmap (IvArrTyped (type_code_u8 tc)) (repeat_read (i32_range len) (read_item rd)))"

definition typed_array_code :: "type_code \<Rightarrow> bool" where
  "typed_array_code tc \<longleftrightarrow> tc \<in> {TcArrString, TcArrUuid, TcArrDate, TcArrDecimal, TcArrTimestamp, TcArrTime}"

subsection \<open>A field of a complex object\<close>

definition read_uuid_value :: "ignite_value reader" where
  "read_uuid_value = rbind read_i64 (\<lambda>most. rbind read_i64 (\<lambda>least. ret (IvUuid most least)))"

definition read_timestamp_value :: "ignite_value reader" where
  "read_timestamp_value = rbind read_i64 (\<lambda>big. rbind read_i32 (\<lambda>little. ret (IvTimestamp big little)))"

text \<open>The \<open>BINARY_OBJ\<close> envelope of a field is kept verbatim.\<close>

definition read_wrapped_field :: "ignite_value reader" where
  "read_wrapped_field = rbind read_i32 (\<lambda>l.
     let len = usize_of_i32 l in
     rbind (read_vec len) (\<lambda>buf. rbind read_i32 (\<lambda>start_offset.
       ret (IvPreEncoded (write_u8 (type_code_u8 TcWrappedData) @ write_i32 (i32_of_usize len) @ buf @
         write_i32 start_offset)))))"

definition read_field_body ::
    "complex_object option reader \<Rightarrow> (type_code \<Rightarrow> complex_object option reader) \<Rightarrow>
     type_code \<Rightarrow> ignite_value reader" where
  "read_field_body rd ru tc = (case tc of
      TcByte \<Rightarrow> rmap IvByte read_u8
    | TcString \<Rightarrow> rmap IvString read_string
    | TcLong \<Rightarrow> rmap IvLong read_i64
    | TcInt \<Rightarrow> rmap IvInt read_i32
    | TcShort \<Rightarrow> rmap IvShort read_i16
    | TcFloat \<Rightarrow> rmap IvFloat read_f32
    | TcDouble \<Rightarrow> rmap IvDouble read_f64
    | TcChar \<Rightarrow> rmap IvChar read_u16
    | TcBool \<Rightarrow> rmap IvBool read_bool
    | TcUuid \<Rightarrow> read_uuid_value
    | TcDate \<Rightarrow> rmap IvDate read_i64
    | TcTime \<Rightarrow> rmap IvTime read_i64
    | TcArrByte \<Rightarrow> rmap IvBinary read_blob
    | TcArrObj \<Rightarrow> rmap IvArray (read_array_body rd)
    | TcEnum \<Rightarrow> rmap IvEnum read_enum
    | TcBinaryEnum \<Rightarrow> rmap IvEnum read_enum
    | TcComplexObj \<Rightarrow> rbind (ru TcComplexObj) (\<lambda>r. case r of
        None \<Rightarrow> fail (Ignite ''missing nested complex object'')
      | Some co \<Rightarrow> ret (IvObject co))
    | TcTimestamp \<Rightarrow> read_timestamp_value
    | TcDecimal \<Rightarrow> rbind read_i32 (\<lambda>scale. rmap (IvDecimal scale) read_blob)
    | TcNull \<Rightarrow> ret IvNull
    | TcMap \<Rightarrow> read_map_body rd
    | TcCollection \<Rightarrow> read_collection_body rd
    | TcArrString \<Rightarrow> read_typed_array_body rd TcArrString
    | TcArrUuid \<Rightarrow> read_typed_array_body rd TcArrUuid
    | TcArrDate \<Rightarrow> read_typed_array_body rd TcArrDate
    | TcArrDecimal \<Rightarrow> read_typed_array_body rd TcArrDecimal
    | TcArrTimestamp \<Rightarrow> read_typed_array_body rd TcArrTimestamp
    | TcArrTime \<Rightarrow> read_typed_array_body rd TcArrTime
    | TcArrEnum \<Rightarrow> rbind read_i32 (\<lambda>_. rbind read_i32 (\<lambda>len.
        rmap IvArray (repeat_read (i32_range len) (read_item rd))))
    | TcOptimizedMarshaller \<Rightarrow> rmap IvOpaqueMarshal read_blob
    | TcWrappedData \<Rightarrow> read_wrapped_field
    | _ \<Rightarrow> fail (UnknownType (type_code_u8 tc)))"

definition read_field ::
    "complex_object option reader \<Rightarrow> (type_code \<Rightarrow> complex_object option reader) \<Rightarrow> ignite_value reader" where
  "read_field rd ru = rbind read_type_code (read_field_body rd ru)"

text \<open>\<open>while (remainder.position() as usize) < data_end\<close> over a body of \<open>body_len\<close> bytes, of which \<open>s\<close>
  are unread. Each round consumes a byte, so \<open>Suc body_len\<close> rounds are enough.\<close>

fun field_loop :: "nat \<Rightarrow> ignite_value reader \<Rightarrow> nat \<Rightarrow> nat \<Rightarrow> ignite_value list reader" where
  "field_loop 0 rf body_len data_end s = NoFuel"
| "field_loop (Suc n) rf body_len data_end s =
    (if body_len < data_end + length s
     then rbind rf (\<lambda>v. rbind (field_loop n rf body_len data_end) (\<lambda>vs. ret (v # vs))) s
     else Ok [] s)"

subsection \<open>The footer\<close>

definition read_footer_entry :: "nat \<Rightarrow> i32 reader" where
  "read_footer_entry offset_sz = rbind read_i32 (\<lambda>fid.
     rbind (repeat_read offset_sz read_u8) (\<lambda>_. ret fid))"

definition footer_field_ids :: "nat \<Rightarrow> nat \<Rightarrow> bytes \<Rightarrow> i32 list outcome" where
  "footer_field_ids field_indexes_offset offset_sz data =
    (let footer_start = (if field_indexes_offset > COMPLEX_OBJ_HEADER_LEN
                         then field_indexes_offset - COMPLEX_OBJ_HEADER_LEN else 0);
         footer_end = length data;
         entry_size = offset_sz + 4
     in if footer_end > footer_start \<and> entry_size > 0
        then repeat_read ((footer_end - footer_start) div entry_size) (read_footer_entry offset_sz)
               (drop footer_start data)
        else Ok [] [])"

text \<open>The schema of a decoded object: by the footer, else by the schema id, else the empty one.\<close>

definition empty_schema :: complex_object_schema where
  "empty_schema = \<lparr>schema_type_name = [], schema_fields = []\<rparr>"

definition resolve_schema :: "registry \<Rightarrow> i32 \<Rightarrow> i32 \<Rightarrow> i32 list \<Rightarrow> complex_object_schema" where
  "resolve_schema reg type_id schema_id ids =
    (case schema_for_ordered reg type_id schema_id ids of
       Some schema \<Rightarrow> schema
     | None \<Rightarrow> (case schema_for reg type_id schema_id of Some schema \<Rightarrow> schema | None \<Rightarrow> empty_schema))"

subsection \<open>A complex object\<close>

definition offset_size :: "u16 \<Rightarrow> nat option" where
  "offset_size flags =
    (case (flags AND FLAG_OFFSET_ONE_BYTE \<noteq> 0, flags AND FLAG_OFFSET_TWO_BYTES \<noteq> 0) of
       (True, False) \<Rightarrow> Some 1
     | (False, True) \<Rightarrow> Some 2
     | (False, False) \<Rightarrow> Some 4
     | (True, True) \<Rightarrow> None)"

text \<open>The body after the header: fields, then (with a schema) the footer and the schema lookup.\<close>

definition read_object_data ::
    "ignite_value reader \<Rightarrow> registry \<Rightarrow> u16 \<Rightarrow> i32 \<Rightarrow> i32 \<Rightarrow> nat \<Rightarrow> nat \<Rightarrow> bytes \<Rightarrow>
     complex_object option reader" where
  "read_object_data rf reg flags type_id schema_id field_indexes_offset offset_sz data s =
    (let body_len = length data;
         has_raw = (flags AND HAS_RAW_DATA \<noteq> 0);
         has_schema = (flags AND FLAG_HAS_SCHEMA \<noteq> 0);
         data_end = (if has_raw \<and> \<not> has_schema then body_len
                     else if field_indexes_offset > COMPLEX_OBJ_HEADER_LEN
                     then field_indexes_offset - COMPLEX_OBJ_HEADER_LEN
                     else body_len)
     in case field_loop (Suc body_len) rf body_len data_end data of
          Err e _ \<Rightarrow> Err e s
        | Panic \<Rightarrow> Panic
        | NoFuel \<Rightarrow> NoFuel
        | Ok vals _ \<Rightarrow>
            (if has_schema then
               (case footer_field_ids field_indexes_offset offset_sz data of
                  Ok ids _ \<Rightarrow> Ok (Some (ComplexObject (resolve_schema reg type_id schema_id ids) vals)) s
                | Err e _ \<Rightarrow> Err e s
                | Panic \<Rightarrow> Panic
                | NoFuel \<Rightarrow> NoFuel)
             else Ok (Some (ComplexObject empty_schema vals)) s))"

definition read_complex_object :: "ignite_value reader \<Rightarrow> registry \<Rightarrow> complex_object option reader" where
  "read_complex_object rf reg =
    rbind read_u8 (\<lambda>_.
    rbind read_u16 (\<lambda>flags.
    rbind read_i32 (\<lambda>type_id.
    rbind read_i32 (\<lambda>_.
    rbind read_i32 (\<lambda>l.
    rbind read_i32 (\<lambda>schema_id.
    rbind read_i32 (\<lambda>off.
      let object_len = usize_of_i32 l;
          field_indexes_offset = usize_of_i32 off;
          has_raw = (flags AND HAS_RAW_DATA \<noteq> 0);
          has_schema = (flags AND FLAG_HAS_SCHEMA \<noteq> 0)
      in if \<not> has_schema \<and> \<not> has_raw
         then fail (Ignite ''Schema is required for non-raw-data objects'')
         else case offset_size flags of
           None \<Rightarrow> fail (Ignite ''Invalid offset flags'')
         | Some offset_sz \<Rightarrow>
             if object_len < COMPLEX_OBJ_HEADER_LEN then panic
             else rbind (read_vec (object_len - COMPLEX_OBJ_HEADER_LEN)) (\<lambda>data.
                    read_object_data rf reg flags type_id schema_id field_indexes_offset offset_sz data))))))))"

subsection \<open>\<open>read_unwrapped\<close>\<close>

definition wrapper :: "string \<Rightarrow> ignite_value \<Rightarrow> complex_object option" where
  "wrapper name v = Some (ComplexObject \<lparr>schema_type_name = rstr name, schema_fields = []\<rparr> [v])"

definition read_top_decimal :: "ignite_value reader" where
  "read_top_decimal = rbind read_i32 (\<lambda>scale. rbind read_i32 (\<lambda>len.
     rmap (IvDecimal scale) (read_exact (i32_range len))))"

definition read_unwrapped_body ::
    "complex_object option reader \<Rightarrow> (type_code \<Rightarrow> complex_object option reader) \<Rightarrow> registry \<Rightarrow>
     type_code \<Rightarrow> complex_object option reader" where
  "read_unwrapped_body rd ru reg type_code = (case type_code of
      TcByte \<Rightarrow> rmap (\<lambda>v. wrapper ''java.lang.Byte'' (IvByte v)) read_u8
    | TcString \<Rightarrow> rmap (\<lambda>v. wrapper ''java.lang.String'' (IvString v)) read_string
    | TcLong \<Rightarrow> rmap (\<lambda>v. wrapper ''java.lang.Long'' (IvLong v)) read_i64
    | TcInt \<Rightarrow> rmap (\<lambda>v. wrapper ''java.lang.Integer'' (IvInt v)) read_i32
    | TcShort \<Rightarrow> rmap (\<lambda>v. wrapper ''java.lang.Short'' (IvShort v)) read_i16
    | TcFloat \<Rightarrow> rmap (\<lambda>v. wrapper ''java.lang.Float'' (IvFloat v)) read_f32
    | TcDouble \<Rightarrow> rmap (\<lambda>v. wrapper ''java.lang.Double'' (IvDouble v)) read_f64
    | TcChar \<Rightarrow> rmap (\<lambda>v. wrapper ''java.lang.Character'' (IvChar v)) read_u16
    | TcBool \<Rightarrow> rmap (\<lambda>v. wrapper ''java.lang.Boolean'' (IvBool v)) read_bool
    | TcUuid \<Rightarrow> rmap (wrapper ''java.util.UUID'') read_uuid_value
    | TcDate \<Rightarrow> rmap (\<lambda>v. wrapper ''java.sql.Date'' (IvDate v)) read_i64
    | TcTime \<Rightarrow> rmap (\<lambda>v. wrapper ''java.sql.Time'' (IvTime v)) read_i64
    | TcTimestamp \<Rightarrow> rmap (wrapper ''java.sql.Timestamp'') read_timestamp_value
    | TcDecimal \<Rightarrow> rmap (wrapper ''java.math.BigDecimal'') read_top_decimal
    | TcArrByte \<Rightarrow> rmap (\<lambda>v. wrapper ''byte[]'' (IvBinary v)) read_blob
    | TcArrObj \<Rightarrow> rmap (\<lambda>v. wrapper ''java.lang.Object[]'' (IvArray v)) (read_array_body rd)
    | TcEnum \<Rightarrow> rmap (\<lambda>v. wrapper ''java.lang.Enum'' (IvEnum v)) read_enum
    | TcBinaryEnum \<Rightarrow> rmap (\<lambda>v. wrapper ''java.lang.Enum'' (IvEnum v)) read_enum
    | TcArrString \<Rightarrow> rmap (wrapper ''java.lang.Object[]'') (read_typed_array_body rd TcArrString)
    | TcArrUuid \<Rightarrow> rmap (wrapper ''java.lang.Object[]'') (read_typed_array_body rd TcArrUuid)
    | TcArrDate \<Rightarrow> rmap (wrapper ''java.lang.Object[]'') (read_typed_array_body rd TcArrDate)
    | TcArrDecimal \<Rightarrow> rmap (wrapper ''java.lang.Object[]'') (read_typed_array_body rd TcArrDecimal)
    | TcArrTimestamp \<Rightarrow> rmap (wrapper ''java.lang.Object[]'') (read_typed_array_body rd TcArrTimestamp)
    | TcArrTime \<Rightarrow> rmap (wrapper ''java.lang.Object[]'') (read_typed_array_body rd TcArrTime)
    | TcComplexObj \<Rightarrow> read_complex_object (read_field rd ru) reg
    | TcMap \<Rightarrow> rmap (wrapper ''java.util.HashMap'') (read_map_body rd)
    | TcCollection \<Rightarrow> rmap (wrapper ''java.util.HashSet'') (read_collection_body rd)
    | TcNull \<Rightarrow> ret (Some (ComplexObject empty_schema [IvNull]))
    | TcOptimizedMarshaller \<Rightarrow> rmap (\<lambda>v. wrapper ''java.lang.Object'' (IvOpaqueMarshal v)) read_blob
    | _ \<Rightarrow> fail (UnsupportedTypeCode (type_code_u8 type_code)))"

section \<open>The recursion\<close>

fun read_unwrapped_fuel :: "nat \<Rightarrow> registry \<Rightarrow> type_code \<Rightarrow> complex_object option reader"
  and read_fuel :: "nat \<Rightarrow> registry \<Rightarrow> complex_object option reader"
where
  "read_unwrapped_fuel 0 reg tc s = NoFuel"
| "read_unwrapped_fuel (Suc n) reg tc s =
    read_unwrapped_body (read_fuel n reg) (read_unwrapped_fuel n reg) reg tc s"
| "read_fuel 0 reg s = NoFuel"
| "read_fuel (Suc n) reg s = read_wrapped_data (read_fuel n reg) (read_unwrapped_fuel n reg) s"

text \<open>\<open>ComplexObject::read_unwrapped\<close> and \<open>ComplexObject::read\<close>.\<close>

definition co_read_unwrapped :: "registry \<Rightarrow> type_code \<Rightarrow> complex_object option reader" where
  "co_read_unwrapped reg tc s = read_unwrapped_fuel (Suc (length s)) reg tc s"

definition co_read :: "registry \<Rightarrow> complex_object option reader" where
  "co_read reg s = read_fuel (Suc (length s)) reg s"

end
