(* ===== verification/ObjectDecodingTotal.thy ===== *)
theory ObjectDecodingTotal
  imports ObjectDecoding
begin

text \<open>
  The decoder of \<open>ObjectDecoding\<close> is total: on every input it ends with a value, an error or a panic.
  Every nested call is on a shorter input, so that more fuel than bytes is enough, the result does
  not depend on the amount, and the equations of the source hold without fuel.
\<close>

section \<open>Every decoder consumes\<close>

lemma shrinks_read_item [progress_intros]: "shrinks 0 rd \<Longrightarrow> shrinks 0 (read_item rd)"
  unfolding read_item_def by (intro progress_intros)

lemma shrinks_read_pair [progress_intros]: "shrinks 0 rd \<Longrightarrow> shrinks 0 (read_pair rd)"
  unfolding read_pair_def by (intro progress_intros)

lemma shrinks_read_blob [progress_intros]: "shrinks 0 read_blob"
  unfolding read_blob_def by (intro progress_intros)

lemma shrinks_bodies [progress_intros]:
  "shrinks 0 rd \<Longrightarrow> shrinks 0 (read_array_body rd)"
  "shrinks 0 rd \<Longrightarrow> shrinks 0 (read_map_body rd)"
  "shrinks 0 rd \<Longrightarrow> shrinks 0 (read_collection_body rd)"
  "shrinks 0 rd \<Longrightarrow> shrinks 0 (read_typed_array_body rd tc)"
  "shrinks 0 read_uuid_value"
  "shrinks 0 read_timestamp_value"
  unfolding read_array_body_def read_map_body_def read_collection_body_def read_typed_array_body_def
    read_uuid_value_def read_timestamp_value_def
  by (intro progress_intros; assumption)+

lemma shrinks_read_wrapped_field [progress_intros]: "shrinks 0 read_wrapped_field"
  unfolding read_wrapped_field_def Let_def by (intro progress_intros)

lemma shrinks0_read_exact [progress_intros]: "shrinks 0 (read_exact n)"
  by (rule shrinks_mono [OF shrinks_read_exact]) simp

lemma shrinks_read_top_decimal [progress_intros]: "shrinks 0 read_top_decimal"
  unfolding read_top_decimal_def by (intro progress_intros)

lemma shrinks_case_co [progress_intros]:
  "shrinks 0 m \<Longrightarrow> (\<And>co. shrinks 0 (f co)) \<Longrightarrow> shrinks 0 (case r of None \<Rightarrow> m | Some co \<Rightarrow> f co)"
  by (simp split: option.split)

lemma shrinks_read_field_body:
  assumes "shrinks 0 rd" and "\<And>tc. shrinks 0 (ru tc)"
  shows "shrinks 0 (read_field_body rd ru tc)"
  unfolding read_field_body_def
  by (cases tc; simp only: type_code.case; intro progress_intros assms)

lemma shrinks_read_field [progress_intros]:
  assumes "shrinks 0 rd" and "\<And>tc. shrinks 0 (ru tc)"
  shows "shrinks 1 (read_field rd ru)"
  unfolding read_field_def
  by (intro shrinks_then shrinks_read_type_code shrinks_read_field_body assms)

lemma shrinks_read_object_data [progress_intros]:
  "shrinks 0 (read_object_data rf reg flags t i off sz data)"
  by (auto simp: shrinks_def read_object_data_def Let_def split: outcome.splits if_splits)

lemma shrinks_if [progress_intros]: "shrinks k a \<Longrightarrow> shrinks k b \<Longrightarrow> shrinks k (if c then a else b)"
  by simp

lemma shrinks_read_complex_object [progress_intros]: "shrinks 23 (read_complex_object rf reg)"
proof -
  have "shrinks (1 + (2 + (4 + (4 + (4 + (4 + (4 + 0))))))) (read_complex_object rf reg)"
    unfolding read_complex_object_def Let_def
    by (intro shrinks_rbind [OF shrinks_prims(1)] shrinks_rbind [OF shrinks_prims(3)]
        shrinks_rbind [OF shrinks_prims(5)] progress_intros)
  then show ?thesis by simp
qed

lemma shrinks_read_unwrapped_body:
  assumes "shrinks 0 rd" and "\<And>tc. shrinks 0 (ru tc)"
  shows "shrinks 0 (read_unwrapped_body rd ru reg tc)"
  unfolding read_unwrapped_body_def
  by (cases tc; simp only: type_code.case;
      intro progress_intros shrinks_mono [OF shrinks_read_complex_object] assms; simp)

lemma read_fuel_Suc:
  "read_unwrapped_fuel (Suc n) reg tc =
    read_unwrapped_body (read_fuel n reg) (read_unwrapped_fuel n reg) reg tc"
  "read_fuel (Suc n) reg = read_wrapped_data (read_fuel n reg) (read_unwrapped_fuel n reg)"
  by (simp_all add: fun_eq_iff)

lemma shrinks_fuel:
  "(\<forall>tc. shrinks 0 (read_unwrapped_fuel n reg tc)) \<and> shrinks 0 (read_fuel n reg)"
proof (induction n)
  case 0
  show ?case by (simp add: shrinks_def)
next
  case (Suc n)
  then show ?case
    by (auto simp only: read_fuel_Suc
        intro: shrinks_read_unwrapped_body shrinks_mono [OF shrinks_read_wrapped_data])
qed

lemma shrinks_unwrapped_fuel [progress_intros]: "shrinks 0 (read_unwrapped_fuel n reg tc)"
  and shrinks_read_fuel [progress_intros]: "shrinks 0 (read_fuel n reg)"
  using shrinks_fuel by blast+

section \<open>More fuel than bytes is enough\<close>

lemma fueled_first:
  "fueled (Suc L) m \<Longrightarrow> shrinks k m \<Longrightarrow> 0 < k \<Longrightarrow> (\<And>x. fueled L (f x)) \<Longrightarrow> fueled (Suc L) (rbind m f)"
  by (rule fueled_rbind_shrink [where k = k], assumption+) (rule fueled_mono [where L = L], auto)

lemma agree_first:
  "shrinks k m \<Longrightarrow> 0 < k \<Longrightarrow> (\<And>x. agree L (f x) (f' x)) \<Longrightarrow> agree (Suc L) (rbind m f) (rbind m f')"
  by (rule agree_rbind_shrink [where k = k, OF agree_refl], assumption) (rule agree_mono [where L = L], auto)

lemmas first_i32 = fueled_first [OF i32.dec_fueled shrinks_prims(5)]
lemmas agree_i32 = agree_first [OF shrinks_prims(5)]

lemma fueled_read_item [fuel_intros]: "fueled L rd \<Longrightarrow> shrinks 0 rd \<Longrightarrow> fueled L (read_item rd)"
  unfolding read_item_def by (intro fuel_intros)

lemma agree_read_item [agree_intros]: "agree L rd rd' \<Longrightarrow> agree L (read_item rd) (read_item rd')"
  unfolding read_item_def by (intro agree_intros)

lemma fueled_read_pair [fuel_intros]: "fueled L rd \<Longrightarrow> shrinks 0 rd \<Longrightarrow> fueled L (read_pair rd)"
  unfolding read_pair_def by (intro fuel_intros progress_intros)

lemma agree_read_pair [agree_intros]:
  "agree L rd rd' \<Longrightarrow> shrinks 0 rd \<Longrightarrow> agree L (read_pair rd) (read_pair rd')"
  unfolding read_pair_def by (intro agree_intros progress_intros)

lemma fueled_leaf_bodies [fuel_intros]:
  "fueled L read_blob" "fueled L read_uuid_value" "fueled L read_timestamp_value"
  "fueled L read_wrapped_field" "fueled L read_top_decimal"
  unfolding read_blob_def read_uuid_value_def read_timestamp_value_def read_wrapped_field_def
    read_top_decimal_def Let_def
  by (intro fuel_intros progress_intros)+

text \<open>A container reads its length before its first element.\<close>

lemma fueled_containers [fuel_intros]:
  assumes "fueled L rd" and "shrinks 0 rd"
  shows "fueled (Suc L) (read_array_body rd)" "fueled (Suc L) (read_map_body rd)"
    "fueled (Suc L) (read_collection_body rd)" "fueled (Suc L) (read_typed_array_body rd tc)"
    "fueled (Suc L) (rbind read_i32 (\<lambda>_. rbind read_i32 (\<lambda>len.
        rmap IvArray (repeat_read (i32_range len) (read_item rd)))))"
  unfolding read_array_body_def read_map_body_def read_collection_body_def read_typed_array_body_def
  by (intro first_i32 fuel_intros progress_intros assms; simp)+

lemma agree_containers [agree_intros]:
  assumes "agree L rd rd'" and "shrinks 0 rd"
  shows "agree (Suc L) (read_array_body rd) (read_array_body rd')"
    "agree (Suc L) (read_map_body rd) (read_map_body rd')"
    "agree (Suc L) (read_collection_body rd) (read_collection_body rd')"
    "agree (Suc L) (read_typed_array_body rd tc) (read_typed_array_body rd' tc)"
    "agree (Suc L) (rbind read_i32 (\<lambda>_. rbind read_i32 (\<lambda>len.
        rmap IvArray (repeat_read (i32_range len) (read_item rd)))))
      (rbind read_i32 (\<lambda>_. rbind read_i32 (\<lambda>len.
        rmap IvArray (repeat_read (i32_range len) (read_item rd')))))"
  unfolding read_array_body_def read_map_body_def read_collection_body_def read_typed_array_body_def
  by (intro agree_i32 agree_intros progress_intros assms; simp)+

lemma fueled_case_co [fuel_intros]:
  "fueled L m \<Longrightarrow> (\<And>co. fueled L (f co)) \<Longrightarrow> fueled L (case r of None \<Rightarrow> m | Some co \<Rightarrow> f co)"
  by (simp split: option.split)

lemma fueled_read_field_body:
  assumes "fueled L rd" and "shrinks 0 rd" and "\<And>tc. fueled L (ru tc)" and "\<And>tc. shrinks 0 (ru tc)"
  shows "fueled L (read_field_body rd ru tc)"
proof -
  note containers = fueled_mono [OF fueled_containers(1) [OF assms(1,2)]]
    fueled_mono [OF fueled_containers(2) [OF assms(1,2)]]
    fueled_mono [OF fueled_containers(3) [OF assms(1,2)]]
    fueled_mono [OF fueled_containers(4) [OF assms(1,2)]]
    fueled_mono [OF fueled_containers(5) [OF assms(1,2)]]
  show ?thesis
    unfolding read_field_body_def
    by (cases tc; simp only: type_code.case)
      (intro fuel_intros progress_intros containers assms; simp)+
qed

lemma fueled_read_field:
  assumes "fueled L rd" and "shrinks 0 rd" and "\<And>tc. fueled L (ru tc)" and "\<And>tc. shrinks 0 (ru tc)"
  shows "fueled L (read_field rd ru)"
  unfolding read_field_def
  by (intro fueled_rbind fueled_read_type_code shrinks_mono [OF shrinks_read_type_code]
      fueled_read_field_body assms) simp

lemma agree_read_field_body:
  assumes "agree L rd rd'" and "shrinks 0 rd" and "\<And>tc. agree L (ru tc) (ru' tc)" and "\<And>tc. shrinks 0 (ru tc)"
  shows "agree L (read_field_body rd ru tc) (read_field_body rd' ru' tc)"
proof -
  note containers = agree_mono [OF agree_containers(1) [OF assms(1,2)]]
    agree_mono [OF agree_containers(2) [OF assms(1,2)]]
    agree_mono [OF agree_containers(3) [OF assms(1,2)]]
    agree_mono [OF agree_containers(4) [OF assms(1,2)]]
    agree_mono [OF agree_containers(5) [OF assms(1,2)]]
  show ?thesis
    unfolding read_field_body_def
    by (cases tc; simp only: type_code.case)
      (intro agree_rmap agree_refl containers assms agree_rbind [where m = "ru TcComplexObj"]; simp)+
qed

lemma agree_read_field:
  assumes "agree L rd rd'" and "shrinks 0 rd" and "\<And>tc. agree L (ru tc) (ru' tc)" and "\<And>tc. shrinks 0 (ru tc)"
  shows "agree L (read_field rd ru) (read_field rd' ru')"
  unfolding read_field_def
  by (intro agree_rbind agree_refl shrinks_mono [OF shrinks_read_type_code] agree_read_field_body assms) simp

subsection \<open>The field loop and the object\<close>

lemma field_loop_fueled:
  assumes rf: "fueled L rf" "shrinks 1 rf"
  shows "length s < n \<Longrightarrow> length s < L \<Longrightarrow> field_loop n rf body_len data_end s \<noteq> NoFuel"
proof (induction n arbitrary: s)
  case 0
  then show ?case by simp
next
  case (Suc n)
  show ?case
  proof (cases "rf s")
    case (Ok v t)
    with shrinksD [OF rf(2)] have "length t < length s" by fastforce
    with Suc.prems Suc.IH [of t] show ?thesis
      by (auto simp: Ok rbind_def split: outcome.split)
  next
    case NoFuel
    with fueledD [OF rf(1) Suc.prems(2)] show ?thesis by simp
  qed (simp_all add: rbind_def)
qed

lemma field_loop_agree:
  assumes rf: "agree L rf rf'" "shrinks 1 rf"
  shows "length s < L \<Longrightarrow> field_loop n rf body_len data_end s = field_loop n rf' body_len data_end s"
proof (induction n arbitrary: s)
  case 0
  then show ?case by simp
next
  case (Suc n)
  have eq: "rf' s = rf s" using agreeD [OF rf(1) Suc.prems] by simp
  show ?case
  proof (cases "rf s")
    case (Ok v t)
    with shrinksD [OF rf(2)] have "length t < length s" by fastforce
    with Suc.prems Suc.IH [of t] show ?thesis
      by (simp add: Ok eq rbind_def)
  qed (simp_all add: rbind_def eq)
qed

lemma fueled_read_footer_entry: "fueled L (read_footer_entry k)" "shrinks 0 (read_footer_entry k)"
  unfolding read_footer_entry_def by (intro fuel_intros progress_intros)+

lemma footer_field_ids_fueled: "footer_field_ids off sz data \<noteq> NoFuel"
  unfolding footer_field_ids_def Let_def
  using fueledD [OF fueled_repeat [OF fueled_read_footer_entry] lessI] by simp

lemma read_object_data_fueled:
  assumes "fueled L rf" and "shrinks 1 rf" and "length data < L"
  shows "fueled K (read_object_data rf reg flags t i off sz data)"
  using field_loop_fueled [OF assms(1,2) lessI assms(3)] footer_field_ids_fueled
  by (auto simp: fueled_def read_object_data_def Let_def simp del: field_loop.simps split: outcome.split)

lemma read_object_data_agree:
  assumes "agree L rf rf'" and "shrinks 1 rf" and "length data < L"
  shows "read_object_data rf reg flags t i off sz data = read_object_data rf' reg flags t i off sz data"
  by (simp only: fun_eq_iff read_object_data_def Let_def field_loop_agree [OF assms]) simp

lemma read_vec_length: "read_vec n s = Ok data t \<Longrightarrow> length data \<le> length s"
  by (auto simp: read_vec_def read_exact_def split: if_splits)

lemma fueled_read_vec_then:
  assumes "\<And>data. length data < L \<Longrightarrow> fueled L (f data)"
  shows "fueled L (rbind (read_vec n) f)"
  unfolding fueled_def
proof (intro allI impI)
  fix s :: bytes
  assume s: "length s < L"
  show "rbind (read_vec n) f s \<noteq> NoFuel"
  proof (cases "read_vec n s")
    case (Ok data t)
    with s read_vec_length [OF Ok] shrinksD [OF shrinks_read_vec Ok] fueledD [OF assms]
    show ?thesis by (simp add: rbind_def)
  qed (use fueledD [OF fueled_read_vec s] in \<open>simp_all add: rbind_def\<close>)
qed

lemma agree_read_vec_then:
  assumes "\<And>data. length data < L \<Longrightarrow> f data = f' data"
  shows "agree L (rbind (read_vec n) f) (rbind (read_vec n) f')"
  unfolding agree_def
proof (intro allI impI)
  fix s :: bytes
  assume s: "length s < L"
  show "rbind (read_vec n) f s = rbind (read_vec n) f' s"
  proof (cases "read_vec n s")
    case (Ok data t)
    with s read_vec_length [OF Ok] assms [of data] show ?thesis by (simp add: rbind_def)
  qed (simp_all add: rbind_def)
qed

lemma fueled_read_complex_object:
  assumes "fueled L rf" and "shrinks 1 rf"
  shows "fueled (Suc L) (read_complex_object rf reg)"
  unfolding read_complex_object_def Let_def
  by (intro fueled_first [OF u8.dec_fueled shrinks_prims(1)] fueled_rbind fueled_prims
      u8.dec_shrinks u16.dec_shrinks i32.dec_shrinks)
    (auto intro!: fueled_fail fueled_panic fueled_read_vec_then read_object_data_fueled [OF assms]
      split: option.split)

lemma agree_read_complex_object:
  assumes "agree L rf rf'" and "shrinks 1 rf"
  shows "agree (Suc L) (read_complex_object rf reg) (read_complex_object rf' reg)"
  unfolding read_complex_object_def Let_def
  by (intro agree_first [OF shrinks_prims(1)] agree_rbind agree_refl u16.dec_shrinks i32.dec_shrinks)
    (auto intro!: agree_refl agree_read_vec_then read_object_data_agree [OF assms] split: option.split)

lemma fueled_read_unwrapped_body:
  assumes "fueled L rd" and "shrinks 0 rd" and "\<And>tc. fueled L (ru tc)" and "\<And>tc. shrinks 0 (ru tc)"
  shows "fueled (Suc L) (read_unwrapped_body rd ru reg tc)"
  unfolding read_unwrapped_body_def
  by (cases tc; simp only: type_code.case)
    (intro fuel_intros progress_intros fueled_read_complex_object fueled_read_field
      shrinks_read_field assms)+

lemma agree_read_unwrapped_body:
  assumes "agree L rd rd'" and "shrinks 0 rd" and "\<And>tc. agree L (ru tc) (ru' tc)" and "\<And>tc. shrinks 0 (ru tc)"
  shows "agree (Suc L) (read_unwrapped_body rd ru reg tc) (read_unwrapped_body rd' ru' reg tc)"
  unfolding read_unwrapped_body_def
  by (cases tc; simp only: type_code.case)
    (intro agree_rmap agree_refl agree_containers agree_read_complex_object agree_read_field
      shrinks_read_field assms)+

section \<open>The equations of the source\<close>

lemma fueled_fuel:
  "(\<forall>tc. fueled n (read_unwrapped_fuel n reg tc)) \<and> fueled n (read_fuel n reg)"
proof (induction n)
  case 0
  show ?case by (simp add: fueled_def)
next
  case (Suc n)
  then have "fueled n (read_fuel n reg)" and "\<And>tc. fueled n (read_unwrapped_fuel n reg tc)" by simp_all
  then show ?case
    by (simp only: read_fuel_Suc)
      (intro conjI allI fueled_read_unwrapped_body fueled_read_wrapped_data progress_intros;
        auto intro: fueled_mono)
qed

lemma fuel_enough:
  "n \<le> m \<Longrightarrow> (\<forall>tc. agree n (read_unwrapped_fuel n reg tc) (read_unwrapped_fuel m reg tc)) \<and>
    agree n (read_fuel n reg) (read_fuel m reg)"
proof (induction n arbitrary: m)
  case 0
  show ?case by (simp add: agree_def)
next
  case (Suc n)
  then obtain k where m: "m = Suc k" and nk: "n \<le> k" by (cases m) auto
  note IH = Suc.IH [OF nk]
  have "read_wrapped_data (read_fuel n reg) (read_unwrapped_fuel n reg) s =
      read_wrapped_data (read_fuel k reg) (read_unwrapped_fuel k reg) s" if "length s < Suc n" for s
    by (rule read_wrapped_data_cong) (use IH that in \<open>auto simp: agree_def\<close>)
  moreover have "agree (Suc n) (read_unwrapped_fuel (Suc n) reg tc) (read_unwrapped_fuel (Suc k) reg tc)" for tc
    unfolding read_fuel_Suc
    by (intro agree_read_unwrapped_body progress_intros) (use IH in auto)
  ultimately show ?case
    unfolding m by (auto simp: agree_def simp del: read_unwrapped_fuel.simps)
qed

lemma read_fuel_eq:
  assumes "length s < n"
  shows "read_fuel n reg s = co_read reg s"
    and "read_unwrapped_fuel n reg tc s = co_read_unwrapped reg tc s"
  using fuel_enough [of "Suc (length s)" n reg] assms
  by (auto simp: agree_def co_read_def co_read_unwrapped_def
      simp del: read_fuel.simps read_unwrapped_fuel.simps)

lemma co_read_total: "co_read reg s \<noteq> NoFuel" "co_read_unwrapped reg tc s \<noteq> NoFuel"
  using fueled_fuel [of "Suc (length s)" reg]
  by (auto simp: fueled_def co_read_def co_read_unwrapped_def
      simp del: read_fuel.simps read_unwrapped_fuel.simps)

lemma agree_co_read:
  "agree n (read_fuel n reg) (co_read reg)"
  "agree n (read_unwrapped_fuel n reg tc) (co_read_unwrapped reg tc)"
  by (auto simp: agree_def read_fuel_eq)

lemma shrinks_co_read [progress_intros]:
  "shrinks 0 (co_read reg)" "shrinks 0 (co_read_unwrapped reg tc)"
  using shrinks_read_fuel shrinks_unwrapped_fuel
  unfolding shrinks_def co_read_def co_read_unwrapped_def by blast+

lemma co_read_unfold: "co_read reg s = read_wrapped_data (co_read reg) (co_read_unwrapped reg) s"
proof -
  have "co_read reg s = read_wrapped_data (read_fuel (length s) reg) (read_unwrapped_fuel (length s) reg) s"
    by (simp add: co_read_def)
  also have "\<dots> = read_wrapped_data (co_read reg) (co_read_unwrapped reg) s"
    by (rule read_wrapped_data_cong) (simp_all add: read_fuel_eq)
  finally show ?thesis .
qed

lemma co_read_unwrapped_unfold:
  "co_read_unwrapped reg tc s = read_unwrapped_body (co_read reg) (co_read_unwrapped reg) reg tc s"
proof -
  have "agree (Suc (length s))
      (read_unwrapped_body (read_fuel (length s) reg) (read_unwrapped_fuel (length s) reg) reg tc)
      (read_unwrapped_body (co_read reg) (co_read_unwrapped reg) reg tc)"
    by (intro agree_read_unwrapped_body agree_co_read progress_intros)
  then show ?thesis by (simp add: agree_def co_read_unwrapped_def)
qed

text \<open>C32: The decoder of complex objects ends on every input and for every registry with a value, an
  error or a panic, and the functions it is built from satisfy the equations of the source
  (\<open>read\<close> by \<open>read_wrapped_data\<close>, \<open>read_unwrapped\<close> by its match on the type code), with no fuel left in
  them.\<close>

theorem decoder_total:
  "co_read reg s \<noteq> NoFuel \<and> co_read_unwrapped reg tc s \<noteq> NoFuel \<and>
   co_read reg s = read_wrapped_data (co_read reg) (co_read_unwrapped reg) s \<and>
   co_read_unwrapped reg tc s = read_unwrapped_body (co_read reg) (co_read_unwrapped reg) reg tc s"
  using co_read_total co_read_unfold co_read_unwrapped_unfold by blast

end
