(* ===== verification/ObjectRoundTrip.thy ===== *)
theory ObjectRoundTrip
  imports ObjectDecodingTotal
begin

text \<open>
  Writing a value and decoding the bytes gives the value back, whatever follows it in the stream:
  the footer, the header and the body of one object first, then every value by structural induction.
\<close>

section \<open>The footer\<close>

lemma offset_flag_cases:
  "offset_flag_of offs = FLAG_OFFSET_ONE_BYTE \<or> offset_flag_of offs = FLAG_OFFSET_TWO_BYTES \<or> offset_flag_of offs = 0"
  by (simp add: offset_flag_of_def Let_def)

definition offset_width :: "u16 \<Rightarrow> nat" where
  "offset_width flag = (if flag = FLAG_OFFSET_ONE_BYTE then 1 else if flag = FLAG_OFFSET_TWO_BYTES then 2 else 4)"

lemma length_write_offset [simp]: "length (write_offset flag x) = offset_width flag"
  by (simp add: write_offset_def offset_width_def)

lemma header_flags:
  assumes "flag = FLAG_OFFSET_ONE_BYTE \<or> flag = FLAG_OFFSET_TWO_BYTES \<or> flag = 0"
  shows "(FLAG_HAS_SCHEMA OR FLAG_USER_TYPE OR flag) AND FLAG_HAS_SCHEMA \<noteq> 0"
    and "(FLAG_HAS_SCHEMA OR FLAG_USER_TYPE OR flag) AND HAS_RAW_DATA = 0"
    and "offset_size (FLAG_HAS_SCHEMA OR FLAG_USER_TYPE OR flag) = Some (offset_width flag)"
  using assms
  by (auto simp: FLAG_HAS_SCHEMA_def FLAG_USER_TYPE_def HAS_RAW_DATA_def FLAG_OFFSET_ONE_BYTE_def
      FLAG_OFFSET_TWO_BYTES_def offset_size_def offset_width_def)

lemma repeat_read_u8: "length bs = n \<Longrightarrow> \<exists>xs. repeat_read n read_u8 (bs @ s) = Ok xs s"
proof (induction n arbitrary: bs)
  case 0
  then show ?case by simp
next
  case (Suc n)
  then obtain b bs' where bs: "bs = b # bs'" and len: "length bs' = n" by (cases bs) auto
  have "read_u8 (b # bs' @ s) = Ok b (bs' @ s)"
    by (simp add: read_u8_def read_le_def rmap_def rbind_def read_exact_def byte_def)
  with Suc.IH [OF len] show ?case by (auto simp: bs rbind_Ok)
qed

lemma read_footer_entry_write:
  "length bs = k \<Longrightarrow> read_footer_entry k (write_i32 i @ bs @ s) = Ok i s"
  using repeat_read_u8 [of bs k s] by (auto simp: read_footer_entry_def rbind_Ok)

lemma length_concat_const: "(\<And>x. x \<in> set xs \<Longrightarrow> length (f x) = k) \<Longrightarrow> length (concat (map f xs)) = length xs * k"
  by (induction xs) auto

lemma length_write_footer:
  "length (write_footer lc flag fs offs) = min (length fs) (length offs) * (offset_width flag + 4)"
  unfolding write_footer_def by (subst length_concat_const [where k = "offset_width flag + 4"]) auto

lemma footer_field_ids_write:
  assumes len: "length fs = length offs"
    and start: "off = COMPLEX_OBJ_HEADER_LEN + length vals"
  shows "\<exists>t. footer_field_ids off (offset_width flag) (vals @ write_footer lc flag fs offs) =
    Ok (map (\<lambda>f. field_id_of lc (field_name f)) fs) t"
proof -
  let ?k = "offset_width flag + 4"
  let ?e = "\<lambda>(f, off). write_i32 (field_id_of lc (field_name f)) @ write_offset flag off"
  have "repeat_read (length (zip fs offs)) (read_footer_entry (offset_width flag)) (concat (map ?e (zip fs offs)) @ [])
      = Ok (map (\<lambda>(f, off). field_id_of lc (field_name f)) (zip fs offs)) []"
    by (rule repeat_read_concat) (auto simp: read_footer_entry_write)
  moreover have "map (\<lambda>(f, off). field_id_of lc (field_name f)) (zip fs offs) = map (\<lambda>f. field_id_of lc (field_name f)) fs"
    using len by (induction fs offs rule: list_induct2) simp_all
  moreover have "length (write_footer lc flag fs offs) = length fs * ?k"
    using len by (simp add: length_write_footer)
  ultimately show ?thesis
    using len start by (auto simp: footer_field_ids_def Let_def write_footer_def)
qed

section \<open>The field loop\<close>

lemma field_loop_write:
  assumes "\<And>v t. v \<in> set vs \<Longrightarrow> rf (e v @ t) = Ok v t" and "\<And>v. v \<in> set vs \<Longrightarrow> e v \<noteq> []"
    and "body_len = data_end + length footer" and "length (concat (map e vs)) < n"
  shows "field_loop n rf body_len data_end (concat (map e vs) @ footer) = Ok vs footer"
  using assms
proof (induction vs arbitrary: n)
  case Nil
  then show ?case by (cases n) auto
next
  case (Cons v vs)
  then obtain m where n: "n = Suc m" by (cases n) auto
  have "0 < length (e v)"
    using Cons.prems(2) [of v] by simp
  have "rf (e v @ concat (map e vs) @ footer) = Ok v (concat (map e vs) @ footer)"
    by (rule Cons.prems) simp
  moreover have "field_loop m rf body_len data_end (concat (map e vs) @ footer) = Ok vs footer"
    using Cons.prems(4) \<open>0 < length (e v)\<close>
    by (intro Cons.IH Cons.prems) (auto simp: n simp del: length_greater_0_conv)
  ultimately show ?case
    using Cons.prems(2) [of v] Cons.prems(3) by (simp add: n rbind_Ok)
qed

section \<open>One object\<close>

lemma length_field_offsets [simp]: "length (field_offsets n bs) = length bs"
  by (induction bs arbitrary: n) auto

lemma i32_of_usize_add: "i32_of_usize a + i32_of_usize b = i32_of_usize (a + b)"
  by (simp add: i32_of_usize_def)

text \<open>Type and schema ids, and the field ids of the footer, as the encoder writes them.\<close>

definition schema_key :: "lowercase \<Rightarrow> complex_object_schema \<Rightarrow> i32 \<times> i32 \<times> i32 list" where
  "schema_key lc sch = (string_to_java_hashcode (lc (schema_type_name sch)),
     get_schema_id lc (schema_fields sch), map (\<lambda>f. field_id_of lc (field_name f)) (schema_fields sch))"

definition resolves :: "lowercase \<Rightarrow> registry \<Rightarrow> complex_object_schema \<Rightarrow> bool" where
  "resolves lc reg sch \<longleftrightarrow> (case schema_key lc sch of (t, i, ids) \<Rightarrow> resolve_schema reg t i ids = sch)"


text \<open>An object laid out with any of the offset widths: its fields, and a footer with as many offsets. The offsets are not looked at.\<close>

lemma read_laid_out:
  assumes rf: "\<And>v t. v \<in> set vs \<Longrightarrow> rf (enc_value lc v @ t) = Ok v t" and ne: "\<And>v. v \<in> set vs \<Longrightarrow> enc_value lc v \<noteq> []"
    and len: "length vs = length (schema_fields sch)" and res: "resolves lc reg sch"
    and flag: "flag = FLAG_OFFSET_ONE_BYTE \<or> flag = FLAG_OFFSET_TWO_BYTES \<or> flag = 0"
    and vals: "vals = concat (map (enc_value lc) vs)" and offs: "length offs = length vs"
    and footer: "footer = write_footer lc flag (schema_fields sch) offs"
    and small: "length (object_bytes lc sch (vals, footer, flag)) < 2 ^ 31"
  shows "\<exists>bs. object_bytes lc sch (vals, footer, flag) = write_u8 (type_code_u8 TcComplexObj) @ bs \<and>
    read_complex_object rf reg (bs @ s) = Ok (Some (ComplexObject sch vs)) s"
proof -
  obtain t i ids where key: "schema_key lc sch = (t, i, ids)" by (cases "schema_key lc sch") auto
  then have ti: "string_to_java_hashcode (lc (schema_type_name sch)) = t" "get_schema_id lc (schema_fields sch) = i" by (simp_all add: schema_key_def)
  note flags = header_flags [OF flag]
  have empty: "footer = []" if "vals = []"
  proof -
    from that ne have "vs = []" by (cases vs) (auto simp: vals)
    then show ?thesis using len by (simp add: footer write_footer_def)
  qed
  have loop: "field_loop (Suc (length (vals @ footer))) rf (length (vals @ footer)) (length vals) (vals @ footer) = Ok vs footer"
    unfolding vals by (rule field_loop_write) (use rf ne in auto)
  obtain u where ids: "footer_field_ids (COMPLEX_OBJ_HEADER_LEN + length vals) (offset_width flag) (vals @ footer) = Ok ids u"
    using footer_field_ids_write [of "schema_fields sch" offs _ vals flag lc] len offs key by (auto simp: footer schema_key_def)
  have "resolve_schema reg t i ids = sch" using res key by (simp add: resolves_def)
  with ids have body: "read_object_data rf reg (FLAG_HAS_SCHEMA OR FLAG_USER_TYPE OR flag) t i
      (COMPLEX_OBJ_HEADER_LEN + length vals) (offset_width flag) (vals @ footer) s = Ok (Some (ComplexObject sch vs)) s"
    using flags(1,2) loop empty by (cases "vals = []") (simp_all add: read_object_data_def Let_def del: field_loop.simps)
  have small': "COMPLEX_OBJ_HEADER_LEN + length vals + length footer < 2 ^ 31"
    using small by (simp add: object_bytes_def COMPLEX_OBJ_HEADER_LEN_def)
  then have casts: "usize_of_i32 (i32_of_usize (COMPLEX_OBJ_HEADER_LEN + length vals + length footer)) =
        COMPLEX_OBJ_HEADER_LEN + length vals + length footer"
      "usize_of_i32 (i32_of_usize (COMPLEX_OBJ_HEADER_LEN + length vals)) = COMPLEX_OBJ_HEADER_LEN + length vals"
    by (simp_all add: usize_of_i32_of_usize)
  have vec: "read_vec (length vals + length footer) ((vals @ footer) @ s) = Ok (vals @ footer) s"
    by (rule read_vec_append) (use small' in \<open>simp_all add: less_2p31_isize_max\<close>)
  show ?thesis
    unfolding object_bytes_def prod.case ti
    apply (intro exI conjI, rule refl)
    using vec body flags casts by (simp add: read_complex_object_def rbind_Ok Let_def i32_of_usize_add)
qed

lemma read_complex_object_write:
  assumes "\<And>v t. v \<in> set vs \<Longrightarrow> rf (enc_value lc v @ t) = Ok v t"
    and "\<And>v. v \<in> set vs \<Longrightarrow> enc_value lc v \<noteq> []"
    and "length vs = length (schema_fields sch)"
    and "resolves lc reg sch"
    and small: "length (object_bytes lc sch (object_data lc sch vs)) < 2 ^ 31"
  shows "\<exists>bs. object_bytes lc sch (object_data lc sch vs) = write_u8 (type_code_u8 TcComplexObj) @ bs \<and>
    read_complex_object rf reg (bs @ s) = Ok (Some (ComplexObject sch vs)) s"
proof -
  let ?offs = "field_offsets 0 (map (enc_value lc) vs)"
  have "length (object_bytes lc sch (concat (map (enc_value lc) vs), write_footer lc (offset_flag_of ?offs) (schema_fields sch) ?offs, offset_flag_of ?offs)) < 2 ^ 31"
    using small by (simp add: object_data_def finish_data_def Let_def)
  from read_laid_out [where rf = rf, OF assms(1-4) offset_flag_cases refl _ refl this] show ?thesis
    by (simp add: object_data_def finish_data_def Let_def)
qed

section \<open>Every value\<close>

text \<open>The values that survive: strings are valid, an object is written as one and the registry resolves
  its schema, typed arrays carry a code the decoder knows. A pre-encoded value is an arbitrary byte
  string, of which nothing can be said.\<close>

fun decodable :: "lowercase \<Rightarrow> registry \<Rightarrow> ignite_value \<Rightarrow> bool" where
  "decodable lc reg (IvString s) = valid_rstring s"
| "decodable lc reg (IvObject (ComplexObject sch vs)) =
    (proper_object sch vs \<and> resolves lc reg sch \<and> list_all (decodable lc reg) vs)"
| "decodable lc reg (IvArray vs) = list_all (decodable lc reg) vs"
| "decodable lc reg (IvCollection t vs) = list_all (decodable lc reg) vs"
| "decodable lc reg (IvArrTyped c vs) =
    (c \<in> type_code_u8 ` {TcArrString, TcArrUuid, TcArrDate, TcArrDecimal, TcArrTimestamp, TcArrTime} \<and>
     list_all (decodable lc reg) vs)"
| "decodable lc reg (IvMap t es) = list_all (\<lambda>e. decodable lc reg (fst e) \<and> decodable lc reg (snd e)) es"
| "decodable lc reg (IvPreEncoded bs) = False"
| "decodable lc reg v = True"

text \<open>\<open>bs\<close> is decoded as \<open>v\<close> both as a field and as an element, whatever follows.\<close>

definition decodes :: "registry \<Rightarrow> bytes \<Rightarrow> ignite_value \<Rightarrow> bool" where
  "decodes reg bs v \<longleftrightarrow> (\<forall>s. read_field (co_read reg) (co_read_unwrapped reg) (bs @ s) = Ok v s \<and>
     read_item (co_read reg) (bs @ s) = Ok v s)"

lemma decodesI:
  assumes "tc \<noteq> TcNull" and "tc \<noteq> TcWrappedData"
    and "\<And>s. read_field_body (co_read reg) (co_read_unwrapped reg) tc (b @ s) = Ok v s"
    and "\<And>s. read_unwrapped_body (co_read reg) (co_read_unwrapped reg) reg tc (b @ s) = Ok (Some co) s"
    and "flatten_complex_value co = v"
  shows "decodes reg (write_u8 (type_code_u8 tc) @ b) v"
proof -
  have "co_read reg (write_u8 (type_code_u8 tc) @ b @ s) = co_read_unwrapped reg tc (b @ s)" for s
    using assms(1,2)
    by (subst co_read_unfold, cases tc)
      (simp_all only: read_wrapped_data_def rbind_Ok [where m = read_type_code, OF read_type_code_write]
        type_code.case simp_thms)
  with assms(3-5) show ?thesis
    by (simp add: decodes_def read_field_def rbind_Ok read_type_code_write read_item_def rmap_Ok
        co_read_unwrapped_unfold [of reg tc])
qed

lemma flatten_wrapper: "wrapper name v = Some co \<Longrightarrow> flatten_complex_value co = v"
  by (auto simp: wrapper_def)

lemma decodes_null: "decodes reg (write_u8 (type_code_u8 TcNull)) IvNull"
  by (simp add: decodes_def read_field_def read_field_body_def rbind_Ok read_type_code_write
      read_item_def rmap_def co_read_unfold [of reg "_ @ _"] read_wrapped_data_def)

lemma read_blob_write [reader_simps]:
  "length bs < 2 ^ 31 \<Longrightarrow> read_blob (write_i32 (i32_of_usize (length bs)) @ bs @ s) = Ok bs s"
  by (simp add: read_blob_def rbind_Ok read_vec_append len_casts)

lemma decodes_leaf:
  assumes "\<And>s. read_field_body (co_read reg) (co_read_unwrapped reg) tc (b @ s) = Ok v s"
    and "\<And>s. read_unwrapped_body (co_read reg) (co_read_unwrapped reg) reg tc (b @ s) = Ok (wrapper name v) s"
    and "tc \<noteq> TcNull" and "tc \<noteq> TcWrappedData"
  shows "decodes reg (write_u8 (type_code_u8 tc) @ b) v"
  by (rule decodesI [where co = "the (wrapper name v)"]) (use assms in \<open>auto simp: wrapper_def\<close>)

lemmas leaf_readers = read_field_body_def read_unwrapped_body_def rmap_def rbind_Ok
  read_uuid_value_def read_timestamp_value_def read_top_decimal_def

lemma decodes_simple:
  "decodes reg (enc_value lc (IvByte a)) (IvByte a)"
  "decodes reg (enc_value lc (IvLong b)) (IvLong b)"
  "decodes reg (enc_value lc (IvInt c)) (IvInt c)"
  "decodes reg (enc_value lc (IvShort d)) (IvShort d)"
  "decodes reg (enc_value lc (IvFloat e)) (IvFloat e)"
  "decodes reg (enc_value lc (IvDouble f)) (IvDouble f)"
  "decodes reg (enc_value lc (IvChar g)) (IvChar g)"
  "decodes reg (enc_value lc (IvBool h)) (IvBool h)"
  "decodes reg (enc_value lc (IvUuid i j)) (IvUuid i j)"
  "decodes reg (enc_value lc (IvDate k)) (IvDate k)"
  "decodes reg (enc_value lc (IvTime l)) (IvTime l)"
  "decodes reg (enc_value lc (IvEnum m)) (IvEnum m)"
  "decodes reg (enc_value lc (IvTimestamp n q)) (IvTimestamp n q)"
  "decodes reg (enc_value lc IvNull) IvNull"
  unfolding enc_simple by (rule decodes_leaf decodes_null; simp add: leaf_readers; fail)+

lemma decodes_sized:
  "ok_string s \<Longrightarrow> decodes reg (enc_value lc (IvString s)) (IvString s)"
  "length bs < 2 ^ 31 \<Longrightarrow> decodes reg (enc_value lc (IvBinary bs)) (IvBinary bs)"
  "length bs < 2 ^ 31 \<Longrightarrow> decodes reg (enc_value lc (IvDecimal t bs)) (IvDecimal t bs)"
  "length bs < 2 ^ 31 \<Longrightarrow> decodes reg (enc_value lc (IvOpaqueMarshal bs)) (IvOpaqueMarshal bs)"
  unfolding enc_simple
  by (rule decodes_leaf; simp add: leaf_readers read_string_write read_blob_write len_casts
      read_exact_append; fail)+

subsection \<open>Containers\<close>

lemma repeat_read_items:
  assumes "\<And>v. v \<in> set vs \<Longrightarrow> decodes reg (enc_value lc v) v"
  shows "repeat_read (length vs) (read_item (co_read reg)) (concat (map (enc_value lc) vs) @ s) = Ok vs s"
  using repeat_read_concat [of vs "read_item (co_read reg)" "enc_value lc" "\<lambda>v. v" s] assms
  by (simp add: decodes_def)

lemma repeat_read_pairs:
  assumes "\<And>e. e \<in> set es \<Longrightarrow> decodes reg (enc_value lc (fst e)) (fst e) \<and> decodes reg (enc_value lc (snd e)) (snd e)"
  shows "repeat_read (length es) (read_pair (co_read reg))
    (concat (map (\<lambda>(k, v). enc_value lc k @ enc_value lc v) es) @ s) = Ok es s"
  using repeat_read_concat [of es "read_pair (co_read reg)" "\<lambda>(k, v). enc_value lc k @ enc_value lc v" "\<lambda>e. e" s] assms
  by (fastforce simp: decodes_def read_pair_def rbind_Ok)

lemma decodes_containers:
  assumes "\<And>v. v \<in> set vs \<Longrightarrow> decodes reg (enc_value lc v) v"
    and acc: "list_all (accepted lc) vs" and len: "length vs < 2 ^ 31"
  shows "decodes reg (enc_value lc (IvArray vs)) (IvArray vs)"
    and "decodes reg (enc_value lc (IvCollection t vs)) (IvCollection t vs)"
    and "tc \<in> {TcArrString, TcArrUuid, TcArrDate, TcArrDecimal, TcArrTimestamp, TcArrTime} \<Longrightarrow>
      decodes reg (enc_value lc (IvArrTyped (type_code_u8 tc) vs)) (IvArrTyped (type_code_u8 tc) vs)"
proof -
  note facts = leaf_readers read_array_body_def read_collection_body_def read_typed_array_body_def
    i32_range_of_usize [OF len] with_capacity_of_usize [OF len] repeat_read_items [OF assms(1)]
  show "decodes reg (enc_value lc (IvArray vs)) (IvArray vs)"
    and "decodes reg (enc_value lc (IvCollection t vs)) (IvCollection t vs)"
    unfolding enc_containers(1,2) [OF acc] by (rule decodes_leaf; simp add: facts; fail)+
  assume "tc \<in> {TcArrString, TcArrUuid, TcArrDate, TcArrDecimal, TcArrTimestamp, TcArrTime}"
  then show "decodes reg (enc_value lc (IvArrTyped (type_code_u8 tc) vs)) (IvArrTyped (type_code_u8 tc) vs)"
    unfolding enc_containers(3) [OF acc]
    by (elim insertE emptyE; simp only:) (rule decodes_leaf; simp add: facts; fail)+
qed

lemma decodes_map:
  assumes "\<And>e. e \<in> set es \<Longrightarrow> decodes reg (enc_value lc (fst e)) (fst e) \<and> decodes reg (enc_value lc (snd e)) (snd e)"
    and acc: "list_all (\<lambda>(k, v). accepted lc k \<and> accepted lc v) es" and len: "length es < 2 ^ 31"
  shows "decodes reg (enc_value lc (IvMap t es)) (IvMap t es)"
  unfolding enc_containers(4) [OF acc]
  by (rule decodes_leaf; simp add: leaf_readers read_map_body_def i32_range_of_usize [OF len]
      repeat_read_pairs [OF assms(1)]; fail)

lemma unwrapped_object:
  assumes "\<And>v. v \<in> set vs \<Longrightarrow> decodes reg (enc_value lc v) v \<and> enc_value lc v \<noteq> []"
    and acc: "list_all (accepted lc) vs" and proper: "proper_object sch vs" and "resolves lc reg sch"
    and small: "length (enc_value lc (IvObject (ComplexObject sch vs))) < 2 ^ 31"
  obtains bs where "enc_value lc (IvObject (ComplexObject sch vs)) = write_u8 (type_code_u8 TcComplexObj) @ bs"
    and "\<And>s. read_unwrapped_body (co_read reg) (co_read_unwrapped reg) reg TcComplexObj (bs @ s) =
      Ok (Some (ComplexObject sch vs)) s"
proof -
  let ?rf = "read_field (co_read reg) (co_read_unwrapped reg)"
  have len: "length vs = length (schema_fields sch)" using proper by (simp add: proper_object_def)
  have rf: "?rf (enc_value lc v @ t) = Ok v t" and ne: "enc_value lc v \<noteq> []" if "v \<in> set vs" for v t
    using assms(1) [OF that] by (auto simp: decodes_def)
  obtain bs where bs: "enc_value lc (IvObject (ComplexObject sch vs)) = write_u8 (type_code_u8 TcComplexObj) @ bs"
    by (cases "object_data lc sch vs") (auto simp: enc_object [OF proper acc] object_bytes_def)
  have "read_complex_object ?rf reg (bs @ s) = Ok (Some (ComplexObject sch vs)) s" for s
    using read_complex_object_write [OF rf ne len assms(4), of s] small bs
    by (auto simp: enc_object [OF proper acc])
  with bs that show thesis by (simp add: read_unwrapped_body_def)
qed

lemma decodes_object:
  assumes "\<And>v. v \<in> set vs \<Longrightarrow> decodes reg (enc_value lc v) v \<and> enc_value lc v \<noteq> []"
    and "list_all (accepted lc) vs" and "proper_object sch vs" and "resolves lc reg sch"
    and "length (enc_value lc (IvObject (ComplexObject sch vs))) < 2 ^ 31"
  shows "decodes reg (enc_value lc (IvObject (ComplexObject sch vs))) (IvObject (ComplexObject sch vs))"
    and "co_read reg (enc_value lc (IvObject (ComplexObject sch vs)) @ s) = Ok (Some (ComplexObject sch vs)) s"
proof -
  from assms obtain bs where
    bs: "enc_value lc (IvObject (ComplexObject sch vs)) = write_u8 (type_code_u8 TcComplexObj) @ bs"
    and body: "\<And>s. read_unwrapped_body (co_read reg) (co_read_unwrapped reg) reg TcComplexObj (bs @ s) =
      Ok (Some (ComplexObject sch vs)) s"
    by (rule unwrapped_object) blast+
  have "read_field_body (co_read reg) (co_read_unwrapped reg) TcComplexObj (bs @ s) =
      Ok (IvObject (ComplexObject sch vs)) s" for s
    by (simp add: read_field_body_def rbind_Ok co_read_unwrapped_unfold body)
  with body show "decodes reg (enc_value lc (IvObject (ComplexObject sch vs))) (IvObject (ComplexObject sch vs))"
    unfolding bs
    by (intro decodesI [where co = "ComplexObject sch vs"]) (use assms(3) in \<open>auto simp: proper_object_def\<close>)
  show "co_read reg (enc_value lc (IvObject (ComplexObject sch vs)) @ s) = Ok (Some (ComplexObject sch vs)) s"
    by (subst co_read_unfold)
      (simp add: bs read_wrapped_data_def rbind_Ok read_type_code_write co_read_unwrapped_unfold body)
qed

subsection \<open>The encoder accepts what the decoder understands\<close>

lemma accepted_containers:
  "list_all (accepted lc) vs \<Longrightarrow> accepted lc (IvArray vs)"
  "list_all (accepted lc) vs \<Longrightarrow> accepted lc (IvCollection t vs)"
  "list_all (accepted lc) vs \<Longrightarrow> accepted lc (IvArrTyped c vs)"
  "list_all (\<lambda>(k, v). accepted lc k \<and> accepted lc v) es \<Longrightarrow> accepted lc (IvMap t es)"
  "proper_object sch vs \<Longrightarrow> list_all (accepted lc) vs \<Longrightarrow> accepted lc (IvObject (ComplexObject sch vs))"
  by (simp_all add: accepted_def [of lc "IvArray _"] accepted_def [of lc "IvCollection _ _"]
      accepted_def [of lc "IvArrTyped _ _"] accepted_def [of lc "IvMap _ _"] accepted_def [of lc "IvObject _"]
      write_value.simps run_wthen steady_intros run_write_values run_write_entries run_write_object
      del: write_object.simps)

lemma decodable_accepted: "decodable lc reg v \<Longrightarrow> accepted lc v"
proof (induction lc reg v rule: decodable.induct)
  case (6 lc reg t es)
  then have "list_all (\<lambda>(k, v). accepted lc k \<and> accepted lc v) es"
    by (auto simp: list_all_iff)
  then show ?case by (rule accepted_containers)
qed (auto intro!: accepted_containers simp: list_all_iff, simp_all add: accepted_def write_value.simps)

lemma decodable_lists:
  "list_all (decodable lc reg) vs \<Longrightarrow> list_all (accepted lc) vs"
  "list_all (\<lambda>e. decodable lc reg (fst e) \<and> decodable lc reg (snd e)) es \<Longrightarrow>
    list_all (\<lambda>(k, v). accepted lc k \<and> accepted lc v) es"
  by (auto simp: list_all_iff decodable_accepted)

lemma object_bytes_nonempty: "object_bytes lc sch d \<noteq> []" and write_u8_nonempty: "write_u8 b \<noteq> []"
  by (cases d) (auto simp: object_bytes_def write_u8_def)

lemma decodable_nonempty: "decodable lc reg v \<Longrightarrow> enc_value lc v \<noteq> []"
  by (cases "(lc, reg, v)" rule: decodable.cases)
    (auto simp: enc_simple enc_containers enc_object object_bytes_nonempty write_u8_nonempty
      decodable_lists)

subsection \<open>The round trip\<close>

lemma length_concat_mem: "x \<in> set xs \<Longrightarrow> length (f x) \<le> length (concat (map f xs))"
  by (induction xs) auto

lemma length_le_concat: "(\<And>x. x \<in> set xs \<Longrightarrow> f x \<noteq> []) \<Longrightarrow> length xs \<le> length (concat (map f xs))"
proof (induction xs)
  case (Cons x xs)
  then have "0 < length (f x)" and "length xs \<le> length (concat (map f xs))" by simp_all
  then show ?case by (simp del: length_greater_0_conv)
qed simp

lemma small_parts:
  assumes "length (concat (map (enc_value lc) vs)) < 2 ^ 31"
    and "list_all (decodable lc reg) vs"
  shows "length vs < 2 ^ 31" and "v \<in> set vs \<Longrightarrow> length (enc_value lc v) < 2 ^ 31"
  using assms length_le_concat [of vs "enc_value lc"] length_concat_mem [of v vs "enc_value lc"]
    decodable_nonempty [of lc reg]
  by (auto simp: list_all_iff)

lemma decodable_decodes:
  "decodable lc reg v \<Longrightarrow> length (enc_value lc v) < 2 ^ 31 \<Longrightarrow> decodes reg (enc_value lc v) v"
proof (induction lc reg v rule: decodable.induct)
  case (1 lc reg s)
  then show ?case by (intro decodes_sized) (simp add: ok_string_def enc_simple)
next
  case (2 lc reg sch vs)
  then have acc: "list_all (accepted lc) vs" and dec: "list_all (decodable lc reg) vs"
    and proper: "proper_object sch vs"
    by (auto dest: decodable_lists)
  have "length (concat (map (enc_value lc) vs)) < 2 ^ 31"
    using 2(3) by (simp add: enc_object [OF proper acc] object_bytes_def object_data_def
        finish_data_def Let_def)
  note small = small_parts [OF this dec]
  show ?case
    by (rule decodes_object(1))
      (use 2 small acc dec in \<open>auto simp: list_all_iff decodable_nonempty\<close>)
next
  case (3 lc reg vs)
  then have acc: "list_all (accepted lc) vs" and dec: "list_all (decodable lc reg) vs"
    by (auto dest: decodable_lists)
  have "length (concat (map (enc_value lc) vs)) < 2 ^ 31"
    using 3(3) by (simp add: enc_containers(1) [OF acc])
  note small = small_parts [OF this dec]
  show ?case
    by (rule decodes_containers) (use 3 small acc dec in \<open>auto simp: list_all_iff\<close>)
next
  case (4 lc reg t vs)
  then have acc: "list_all (accepted lc) vs" and dec: "list_all (decodable lc reg) vs"
    by (auto dest: decodable_lists)
  have "length (concat (map (enc_value lc) vs)) < 2 ^ 31"
    using 4(3) by (simp add: enc_containers(2) [OF acc])
  note small = small_parts [OF this dec]
  show ?case
    by (rule decodes_containers) (use 4 small acc dec in \<open>auto simp: list_all_iff\<close>)
next
  case (5 lc reg c vs)
  then have acc: "list_all (accepted lc) vs" and dec: "list_all (decodable lc reg) vs"
    by (auto dest: decodable_lists)
  obtain tc where c: "c = type_code_u8 tc"
    and tc: "tc \<in> {TcArrString, TcArrUuid, TcArrDate, TcArrDecimal, TcArrTimestamp, TcArrTime}"
    using 5(2) by auto
  have "length (concat (map (enc_value lc) vs)) < 2 ^ 31"
    using 5(3) by (simp add: enc_containers(3) [OF acc])
  note small = small_parts [OF this dec]
  show ?case
    unfolding c by (rule decodes_containers(3)) (use 5 small acc dec tc in \<open>auto simp: list_all_iff\<close>)
next
  case (6 lc reg t es)
  then have acc: "list_all (\<lambda>(k, v). accepted lc k \<and> accepted lc v) es"
    by (auto dest: decodable_lists)
  let ?e = "\<lambda>(k, v). enc_value lc k @ enc_value lc v"
  have small: "length (concat (map ?e es)) < 2 ^ 31"
    using 6(4) by (simp add: enc_containers(4) [OF acc])
  have ne: "?e e \<noteq> []" if "e \<in> set es" for e
    using 6(3) that by (auto simp: list_all_iff case_prod_unfold decodable_nonempty)
  have part: "length (enc_value lc (fst e)) < 2 ^ 31 \<and> length (enc_value lc (snd e)) < 2 ^ 31" if "e \<in> set es" for e
    using length_concat_mem [OF that, of ?e] small by (auto simp: case_prod_unfold)
  show ?case
    by (rule decodes_map [OF _ acc])
      (use 6 part length_le_concat [of es ?e] ne small in \<open>auto simp: list_all_iff\<close>)
qed (use decodes_simple decodes_sized in \<open>auto simp: enc_simple\<close>)

section \<open>The registry a write leaves behind\<close>

lemma knows_schema_resolves:
  assumes "knows_schema lc reg sch" and "schema_fields sch \<noteq> []" and "canon_schema sch = sch"
  shows "resolves lc reg sch"
  using schema_for_ordered_known [OF assms(1,2)] assms(3)
  by (simp add: resolves_def schema_key_def resolve_schema_def)

text \<open>A value with no object in it, whose write leaves the registry as it is.\<close>

fun object_free :: "ignite_value \<Rightarrow> bool" where
  "object_free (IvObject co) = False"
| "object_free (IvArray vs) = list_all object_free vs"
| "object_free (IvCollection t vs) = list_all object_free vs"
| "object_free (IvArrTyped c vs) = list_all object_free vs"
| "object_free (IvMap t es) = list_all (\<lambda>e. object_free (fst e) \<and> object_free (snd e)) es"
| "object_free v = True"

definition silent :: "'a regop \<Rightarrow> bool" where
  "silent m \<longleftrightarrow> (\<forall>reg. snd (m reg) = reg)"

lemma silent_prims [simp]: "silent (wr bs)" "silent (wret x)"
  by (simp_all add: silent_def wr_def wret_def)

lemma silent_wbind: "silent m \<Longrightarrow> (\<And>x. silent (f x)) \<Longrightarrow> silent (wbind m f)"
  by (auto simp: silent_def wbind_def split: prod.split sum.split) (metis snd_conv)+

lemma silent_wthen: "silent m \<Longrightarrow> silent k \<Longrightarrow> silent (wthen m k)"
  unfolding wthen_def by (intro silent_wbind) simp_all

lemma silent_write_values: "\<forall>v \<in> set vs. silent (write_value lc v) \<Longrightarrow> silent (write_values lc vs)"
  by (induction vs) (auto intro: silent_wthen)

lemma silent_write_entries:
  "\<forall>e \<in> set es. silent (write_value lc (fst e)) \<and> silent (write_value lc (snd e)) \<Longrightarrow> silent (write_entries lc es)"
  by (induction es) (auto intro!: silent_wthen)

lemma object_free_silent: "object_free v \<Longrightarrow> silent (write_value lc v)"
  by (induction v rule: object_free.induct)
    (auto simp: write_value.simps list_all_iff intro!: silent_wthen silent_write_values silent_write_entries)

lemma silent_get_data_loop:
  "list_all object_free vs \<Longrightarrow> silent (get_data_loop lc vs fs d)"
proof (induction vs arbitrary: fs d)
  case Nil
  then show ?case by simp
next
  case (Cons v vs)
  then show ?case
    by (cases fs) (simp_all add: write_field_eq silent_wbind object_free_silent)
qed

lemma write_object_registry:
  assumes "proper_object sch vs" and "list_all object_free vs"
  shows "snd (write_object lc (ComplexObject sch vs) reg) = register_complex_schema lc sch reg"
proof -
  from assms(1) have "(schema_fields sch = [] \<and> length vs = 1) = False" by (simp add: proper_object_def)
  moreover have "silent (wbind (get_data_loop lc vs (schema_fields sch) ([], [])) (\<lambda>d.
       wr (object_bytes lc sch (finish_data lc sch d))))"
    using assms(2) by (intro silent_wbind silent_get_data_loop) simp_all
  ultimately show ?thesis
    using assms(1)
    by (simp only: write_object.simps if_False proper_object_def)
      (simp add: wbind_def wregister_def silent_def)
qed

lemma object_free_decodable: "object_free v \<Longrightarrow> decodable lc reg v \<Longrightarrow> decodable lc reg' v"
  by (induction v rule: object_free.induct) (auto simp: list_all_iff)

lemma co_read_object:
  assumes "decodable lc reg (IvObject (ComplexObject sch vs))"
    and small: "length (enc_value lc (IvObject (ComplexObject sch vs))) < 2 ^ 31"
  shows "co_read reg (enc_value lc (IvObject (ComplexObject sch vs)) @ s) = Ok (Some (ComplexObject sch vs)) s"
proof -
  have dec: "list_all (decodable lc reg) vs" and proper: "proper_object sch vs" and "resolves lc reg sch"
    using assms(1) by auto
  note acc = decodable_lists(1) [OF dec]
  have "length (concat (map (enc_value lc) vs)) < 2 ^ 31"
    using small by (simp add: enc_object [OF proper acc] object_bytes_def object_data_def
        finish_data_def Let_def)
  note part = small_parts [OF this dec]
  show ?thesis
    by (rule decodes_object(2))
      (use dec part acc proper \<open>resolves lc reg sch\<close> small in
        \<open>auto simp: list_all_iff decodable_nonempty intro: decodable_decodes\<close>)
qed

section \<open>Properties\<close>

definition sample_values :: "ignite_value list" where
  "sample_values = [IvInt 7, IvString (rstr ''hi'')]"

lemma sample_proper: "proper_object sample_schema sample_values" "list_all object_free sample_values"
    "list_all (decodable id reg) sample_values" "schema_fields sample_schema \<noteq> []"
    "canon_schema sample_schema = sample_schema"
  by (simp_all add: proper_object_def sample_schema_def sample_values_def rstr_def JAVA_LONG_def
      JAVA_STRING_def canon_schema_def canon_field_def valid_rstring_def scalar_def)

lemma sample_small:
  "length (enc_value id (IvObject (ComplexObject sample_schema sample_values))) < 2 ^ 31"
proof -
  have "list_all (accepted id) sample_values"
    using decodable_lists sample_proper(3) by blast
  then show ?thesis
    by (simp add: enc_object sample_proper object_bytes_def object_data_def finish_data_def Let_def
        length_write_footer, simp add: sample_values_def enc_simple sample_schema_def offset_width_def
        str_len_def rstr_def utf8_encode_def utf8_char_def)
qed

text \<open>C1: Round trip of values. Every value the format can carry (decodable: valid strings, proper
  objects whose schema the registry resolves, known array codes, nested to any depth) is accepted by
  the writer, and its bytes, if there are less than \<open>2 ^ 31\<close> of them, are read back as the same value,
  with exactly the rest of the stream left over, both as a field of an object and as an element of a
  container.\<close>

theorem value_round_trip:
  assumes "decodable lc reg v"
  shows "\<exists>bs. fst (write_value lc v reg0) = Inr bs \<and>
    (length bs < 2 ^ 31 \<longrightarrow>
      read_field (co_read reg) (co_read_unwrapped reg) (bs @ s) = Ok v s \<and>
      read_item (co_read reg) (bs @ s) = Ok v s)"
  using decodable_accepted [OF assms] decodable_decodes [OF assms]
  by (auto simp: run_accepted decodes_def steady_fst [OF steady_write_value])

theorem value_round_trip_witness:
  "\<exists>bs. fst (write_value id (IvArray [IvNull, IvMap 1 [(IvInt 1, IvBinary [2, 3])]]) registry_default) = Inr bs \<and>
    (length bs < 2 ^ 31 \<longrightarrow>
      read_field (co_read registry_default) (co_read_unwrapped registry_default) (bs @ [9]) =
        Ok (IvArray [IvNull, IvMap 1 [(IvInt 1, IvBinary [2, 3])]]) [9] \<and>
      read_item (co_read registry_default) (bs @ [9]) =
        Ok (IvArray [IvNull, IvMap 1 [(IvInt 1, IvBinary [2, 3])]]) [9])"
  by (rule value_round_trip) simp



end
