(* ===== verification/ObjectSize.thy ===== *)
theory ObjectSize
  imports ObjectEncoding
begin

text \<open>
  The announced size of a value is the number of bytes its write produces
  (\<open>IgniteValue::size\<close> and \<open>ComplexObject::size\<close> against \<open>write\<close>), and the decimal conversion gives the
  shortest two's complement bytes of its number.
\<close>

section \<open>Announced sizes\<close>

lemma fst_sadd:
  "(\<And>r. fst (a r) = Some m) \<Longrightarrow> (\<And>r. fst (b r) = Some n) \<Longrightarrow> fst (sadd a b reg) = Some (m + n)"
  unfolding sadd_def by (metis (mono_tags, lifting) fst_conv old.prod.case option.simps(5) surj_pair)

lemma fst_sret [simp]: "fst (sret n reg) = Some n"
  by (simp add: sret_def)

lemma run_wthen_Inr:
  assumes "steady k" and "run (wthen m k) = Inr bs"
  obtains as cs where "run m = Inr as" and "run k = Inr cs" and "bs = as @ cs"
  using assms by (auto simp: run_wthen split: sum.splits)

lemma wthen_assoc: "wthen (wthen a b) c = wthen a (wthen b c)"
  by (rule ext) (simp add: wthen_def wbind_def wret_def split: prod.split sum.split)

lemma fst_sadd_run:
  assumes "run (wthen m k) = Inr bs" and "steady k"
    and "\<And>as r. run m = Inr as \<Longrightarrow> fst (a r) = Some (length as)"
    and "\<And>cs r. run k = Inr cs \<Longrightarrow> fst (b r) = Some (length cs)"
  shows "fst (sadd a b reg) = Some (length bs)"
  by (rule run_wthen_Inr [OF assms(2,1)]) (auto intro!: fst_sadd assms(3,4))

lemma size_of_data_fst:
  assumes "steady m" and "run m = Inr (vals, footer, flag)"
  shows "fst (size_of_data m reg) = Some (length vals + length footer + COMPLEX_OBJ_HEADER_LEN)"
  using steady_fst [OF assms(1), of reg] assms(2)
  by (auto simp: size_of_data_def split: prod.splits sum.splits)

lemma steady_get_data: "steady (get_data lc co)"
  by (simp add: get_data_def steady_intros)

lemma size_object_data:
  assumes "run (wbind (wregister lc sch) (\<lambda>_. wbind (get_data_loop lc vals (schema_fields sch) ([], [])) (\<lambda>d.
       wr (object_bytes lc sch (finish_data lc sch d))))) = Inr bs"
  shows "fst (size_of_data (get_data lc (ComplexObject sch vals)) reg) = Some (length bs)"
proof -
  obtain d where d: "run (get_data_loop lc vals (schema_fields sch) ([], [])) = Inr d"
    and bs: "bs = object_bytes lc sch (finish_data lc sch d)"
    using assms by (auto simp: run_wbind steady_intros split: sum.splits)
  obtain vs footer flag where fin: "finish_data lc sch d = (vs, footer, flag)"
    by (cases "finish_data lc sch d") auto
  have "run (get_data lc (ComplexObject sch vals)) = Inr (vs, footer, flag)"
    using d fin by (simp add: get_data_def run_wbind steady_intros)
  from size_of_data_fst [OF steady_get_data this]
  show ?thesis by (simp add: bs fin object_bytes_def COMPLEX_OBJ_HEADER_LEN_def)
qed

lemma value_size_written:
  "run (write_value lc v) = Inr bs \<Longrightarrow> fst (value_size lc v reg) = Some (length bs)"
  "run (write_values lc vs) = Inr bs \<Longrightarrow> fst (values_size lc vs reg) = Some (length bs)"
  "run (write_entries lc es) = Inr bs \<Longrightarrow> fst (entries_size lc es reg) = Some (length bs)"
  "run (write_object lc co) = Inr bs \<Longrightarrow> fst (object_size lc co reg) = Some (length bs)"
proof (induction lc v and lc vs and lc es and lc co arbitrary: bs reg and bs reg and bs reg and bs reg
    rule: value_size_values_size_entries_size_object_size.induct)
  case (1 lc v)
  show ?case
  proof (cases v)
    case (IvObject co)
    with 1 show ?thesis by (simp add: value_size.simps write_value.simps del: write_object.simps object_size.simps)
  next
    case (IvArray vs)
    with 1 show ?thesis
      by (auto simp: value_size.simps write_value.simps steady_intros intro!: fst_sadd_run)
  next
    case (IvCollection t vs)
    with 1 show ?thesis
      by (auto simp: value_size.simps write_value.simps steady_intros intro!: fst_sadd_run)
  next
    case (IvArrTyped c vs)
    with 1 show ?thesis
      by (auto simp: value_size.simps write_value.simps steady_intros intro!: fst_sadd_run)
  next
    case (IvMap t es)
    with 1 show ?thesis
      by (auto simp: value_size.simps write_value.simps steady_intros intro!: fst_sadd_run)
  qed (use 1 in \<open>auto simp: value_size.simps write_value.simps write_null_def\<close>)
next
  case (3 lc item items)
  then show ?case by (auto simp: steady_intros intro!: fst_sadd_run)
next
  case (5 lc k v entries)
  then have "run (wthen (wthen (write_value lc k) (write_value lc v)) (write_entries lc entries)) = Inr bs"
    by (simp add: wthen_assoc)
  then show ?case
    by (auto simp: steady_intros intro!: fst_sadd_run 5)
next
  case (6 lc sch vals)
  consider (wrapper) v where "schema_fields sch = []" and "vals = [v]"
    | (boxed) "\<not> (schema_fields sch = [] \<and> length vals = 1)" "schema_type_name sch \<in> {JAVA_LONG, JAVA_STRING}"
    | (object) "\<not> (schema_fields sch = [] \<and> length vals = 1)" "schema_type_name sch \<notin> {JAVA_LONG, JAVA_STRING}"
    by (cases vals) auto
  then show ?case
  proof cases
    case wrapper
    with 6 show ?thesis by simp
  next
    case boxed
    then have "(schema_fields sch = [] \<and> length vals = 1) = False" by simp
    with 6(2) boxed(2) show ?thesis
      by (simp only: write_object.simps object_size.simps if_False)
        (auto simp: write_boxed_long_def write_boxed_string_def size_boxed_string_def
          split: if_splits ignite_value.splits)
  next
    case object
    then have "(schema_fields sch = [] \<and> length vals = 1) = False" by simp
    with 6(2) object(2) size_object_data [of lc sch vals bs reg] show ?thesis
      by (simp only: write_object.simps object_size.simps if_False) simp
  qed
qed simp_all

text \<open>The size a value announces is the number of bytes it writes: for every value, whenever the
  write succeeds, \<open>size\<close> does not panic and returns the length of the written bytes, whatever the two
  registries were. (The request header is filled from \<open>size\<close> before the body is written.)\<close>

theorem announced_size_written:
  assumes "fst (write_value lc v reg) = Inr bs"
  shows "fst (value_size lc v reg') = Some (length bs)"
  using value_size_written(1) [of lc v bs reg'] assms by (simp add: steady_fst [OF steady_write_value])

theorem announced_size_written_witness:
  "fst (value_size id (IvArray [IvNull, IvInt 5]) registry_default) = Some 15"
proof -
  have "fst (write_value id (IvArray [IvNull, IvInt 5]) registry_default) =
      Inr (write_u8 (type_code_u8 TcArrObj) @ write_i32 (- 1) @ write_i32 (i32_of_usize 2) @
        write_null @ write_u8 (type_code_u8 TcInt) @ write_i32 5)"
    by (simp add: write_value.simps wthen_def wbind_def wr_def wret_def eval_nat_numeral)
  from announced_size_written [OF this] show ?thesis by (simp add: write_null_def)
qed

section \<open>Decimals\<close>

text \<open>The number big-endian two's complement bytes stand for.\<close>

definition be_signed :: "bytes \<Rightarrow> int" where
  "be_signed bs = int (of_le (rev bs)) - (if bs \<noteq> [] \<and> 128 \<le> unat (hd bs) then 256 ^ length bs else 0)"

lemma of_le_snoc: "of_le (bs @ [b]) = of_le bs + 256 ^ length bs * unat b"
  by (induction bs) (simp_all add: algebra_simps)

lemma be_signed_Cons:
  "be_signed (b # bs) = int (of_le (rev bs)) + 256 ^ length bs * (if 128 \<le> unat b then int (unat b) - 256 else int (unat b))"
  by (simp add: be_signed_def of_le_snoc algebra_simps)

lemma of_le_rev_less: "int (of_le (rev bs)) < 256 ^ length bs"
  using of_le_less [of "rev bs"] by (metis length_rev of_nat_less_iff of_nat_numeral of_nat_power)

lemma be_signed_range:
  assumes "bs \<noteq> []"
  shows "- (128 * 256 ^ (length bs - 1)) \<le> be_signed bs \<and> be_signed bs < 128 * 256 ^ (length bs - 1)"
proof -
  obtain b cs where bs: "bs = b # cs" using assms by (cases bs) auto
  define P :: int where "P = 256 ^ length cs"
  define n where "n = unat b"
  define k :: int where "k = (if 128 \<le> n then int n - 256 else int n)"
  have "n < 256" by (simp add: n_def)
  then have k: "- 128 \<le> k" "k \<le> 127" by (auto simp: k_def)
  have P: "0 < P" by (simp add: P_def)
  have "P * (- 128) \<le> P * k" "P * k \<le> P * 127" using k P by (intro mult_left_mono; simp)+
  moreover have "be_signed bs = int (of_le (rev cs)) + P * k"
    unfolding bs be_signed_Cons P_def k_def n_def ..
  ultimately show ?thesis
    using of_le_rev_less [of cs] unfolding bs list.size(4) add_diff_cancel_right' One_nat_def [symmetric]
      P_def [symmetric] by linarith
qed

text \<open>A leading byte that only repeats the sign of the next one.\<close>

fun redundant :: "bytes \<Rightarrow> bool" where
  "redundant (a # b # bs) \<longleftrightarrow> (a = 0 \<and> unat b < 128) \<or> (a = 0xFF \<and> 128 \<le> unat b)"
| "redundant _ \<longleftrightarrow> False"

lemma unat_bytes: "unat (0 :: u8) = 0" "unat (0xFF :: u8) = 255"
  by simp_all

lemma be_signed_redundant:
  assumes "redundant (a # bs)"
  shows "be_signed (a # bs) = be_signed bs"
proof -
  obtain b cs where bs: "bs = b # cs" using assms by (cases bs) auto
  define m n where "m = unat a" and "n = unat b"
  have "m = 0 \<and> n < 128 \<or> m = 255 \<and> 128 \<le> n"
    using assms unat_bytes by (auto simp: bs m_def n_def)
  then show ?thesis
    by (auto simp: bs be_signed_Cons of_le_snoc algebra_simps simp flip: m_def n_def)
qed

text \<open>Without such a byte the number does not fit in fewer bytes.\<close>

lemma irredundant_range:
  assumes "\<not> redundant (a # b # bs)"
  shows "be_signed (a # b # bs) < - (128 * 256 ^ length bs) \<or> 128 * 256 ^ length bs \<le> be_signed (a # b # bs)"
proof -
  define P :: int where "P = 256 ^ length bs"
  define r where "r = int (of_le (rev bs))"
  have P: "0 < P" by (simp add: P_def)
  have r: "0 \<le> r" "r < P"
    using of_le_rev_less [of bs] by (simp_all add: r_def P_def)
  define m where "m = unat a"
  define n where "n = unat b"
  define k where "k = int n + 256 * (if 128 \<le> m then int m - 256 else int m)"
  have v: "be_signed (a # b # bs) = r + P * k"
    by (simp add: be_signed_Cons of_le_snoc r_def P_def k_def algebra_simps flip: m_def n_def)
  have "m \<noteq> 0 \<or> 128 \<le> n" "m \<noteq> 255 \<or> n < 128"
    using assms unat_bytes word_unat_eq_iff [of a 0] word_unat_eq_iff [of a "0xFF"]
    by (auto simp: m_def n_def not_less)
  moreover have "m < 256" "n < 256" by (simp_all add: m_def n_def)
  ultimately have k: "k \<le> - 129 \<or> 128 \<le> k" by (auto simp: k_def)
  then show ?thesis
  proof
    assume "k \<le> - 129"
    then have "P * k \<le> P * (- 129)" using P by (intro mult_left_mono) simp_all
    with r show ?thesis unfolding v P_def [symmetric] by linarith
  next
    assume "128 \<le> k"
    then have "P * 128 \<le> P * k" using P by (simp add: mult_left_mono)
    with r show ?thesis unfolding v P_def [symmetric] by linarith
  qed
qed

lemma irredundant_shortest:
  assumes "\<not> redundant bs" and "cs \<noteq> []" and "be_signed cs = be_signed bs"
  shows "length bs \<le> length cs"
proof (rule ccontr)
  assume "\<not> length bs \<le> length cs"
  with assms(2) obtain a b ds where bs: "bs = a # b # ds"
    by (cases bs; cases "tl bs") (auto simp: neq_Nil_conv)
  have "length cs - 1 \<le> length ds" using \<open>\<not> length bs \<le> length cs\<close> by (simp add: bs)
  then have "(256 :: int) ^ (length cs - 1) \<le> 256 ^ length ds" by (rule power_increasing) simp
  with be_signed_range [OF assms(2)] irredundant_range [OF assms(1) [unfolded bs]] assms(3) [unfolded bs]
  show False by linarith
qed

text \<open>The loop stops at the first byte that is not the fill byte, or at the last one.\<close>

lemma skip_start_spec:
  "start \<le> 15 \<Longrightarrow> \<forall>i < start. bs ! i = fill \<Longrightarrow>
    (let k = skip_start fill bs start
     in k \<le> 15 \<and> (\<forall>i < k. bs ! i = fill) \<and> (k < 15 \<longrightarrow> bs ! k \<noteq> fill))"
proof (induction fill bs start rule: skip_start.induct)
  case (1 fill bs start)
  show ?case
  proof (cases "start < 15 \<and> bs ! start = fill")
    case True
    with 1 show ?thesis by (subst skip_start.simps) (auto simp: less_Suc_eq)
  next
    case False
    with 1(2,3) show ?thesis by (subst skip_start.simps) (auto simp: Let_def)
  qed
qed

lemma be_signed_drop:
  assumes "k < length bs" and "\<And>i. i < k \<Longrightarrow> redundant (drop i bs)"
  shows "be_signed (drop k bs) = be_signed bs"
  using assms
proof (induction k)
  case (Suc k)
  then have "drop k bs = bs ! k # drop (Suc k) bs" by (simp add: Cons_nth_drop_Suc)
  with be_signed_redundant [of "bs ! k" "drop (Suc k) bs"] Suc.prems(2) [of k] Suc show ?case
    by simp
qed simp

lemma redundant_drop:
  "Suc i < length bs \<Longrightarrow> redundant (drop i bs) \<longleftrightarrow>
    (bs ! i = 0 \<and> unat (bs ! Suc i) < 128) \<or> (bs ! i = 0xFF \<and> 128 \<le> unat (bs ! Suc i))"
  by (simp add: Cons_nth_drop_Suc [symmetric, of i bs] Cons_nth_drop_Suc [symmetric, of "Suc i" bs])

lemma top_bit: "b AND 0x80 \<noteq> 0 \<longleftrightarrow> 128 \<le> unat (b :: u8)"
proof -
  have "b AND 0x80 \<noteq> 0 \<longleftrightarrow> bit b 7"
    using and_exp_eq_0_iff_not_bit [of b 7] by simp
  also have "\<dots> \<longleftrightarrow> odd (unat b div 128)"
    using bit_unsigned_iff [where 'a = nat, of b 7] by (simp add: bit_iff_odd [of "unat b"])
  also have "\<dots> \<longleftrightarrow> 128 \<le> unat b"
  proof -
    have "unat b < 256" by simp
    then have "unat b div 128 < 2" by linarith
    then show ?thesis by (cases "128 \<le> unat b") (auto simp: less_2_cases_iff div_eq_0_iff)
  qed
  finally show ?thesis .
qed

lemma signed_unique:
  fixes a b h :: int
  assumes "a mod (2 * h) = b mod (2 * h)" and "- h \<le> a" "a < h" and "- h \<le> b" "b < h"
  shows "a = b"
proof -
  have "(a + h) mod (2 * h) = (b + h) mod (2 * h)" using assms(1) by (rule mod_add_cong) simp
  with assms(2-5) show ?thesis by (simp add: mod_pos_pos_trivial)
qed

lemma length_to_be_bytes16 [simp]: "length (to_be_bytes16 u) = 16"
  by (simp add: to_be_bytes16_def)

lemma be_signed_to_be_bytes16: "be_signed (to_be_bytes16 u) = sint u"
proof (rule signed_unique [where h = "2 ^ 127"])
  have ne: "to_be_bytes16 u \<noteq> []" using length_to_be_bytes16 [of u] by (metis length_0_conv zero_neq_numeral)
  have "unat u < 256 ^ 16" using unsigned_less [of u, where ?'a = nat] by simp
  then have "of_le (rev (to_be_bytes16 u)) = unat u"
    by (simp add: to_be_bytes16_def of_le_to_le del: to_le.simps)
  then have "be_signed (to_be_bytes16 u) mod 2 ^ 128 = uint u mod 2 ^ 128"
    by (simp add: be_signed_def ne)
  moreover have "sint u mod 2 ^ 128 = uint u mod 2 ^ 128"
    using uint_sint [of u] by (simp add: take_bit_eq_mod)
  ultimately show "be_signed (to_be_bytes16 u) mod (2 * 2 ^ 127) = sint u mod (2 * 2 ^ 127)" by simp
  show "- (2 ^ 127) \<le> be_signed (to_be_bytes16 u)" "be_signed (to_be_bytes16 u) < 2 ^ 127"
    using be_signed_range [OF ne] by simp_all
  show "- (2 ^ 127) \<le> sint u" "sint u < 2 ^ 127"
    using sint_greater_eq [of u] sint_less [of u] by simp_all
qed

lemma be_signed_sign: "bs \<noteq> [] \<Longrightarrow> be_signed bs < 0 \<longleftrightarrow> 128 \<le> unat (bs ! 0)"
  using of_le_rev_less [of bs] by (auto simp: be_signed_def hd_conv_nth)

text \<open>Both branches at once: \<open>fill\<close> is the sign byte, and the cut keeps the sign.\<close>

lemma trimmed:
  fixes bs :: bytes and fill :: u8
  defines "start \<equiv> skip_start fill bs 0"
  defines "k \<equiv> if (128 \<le> unat (bs ! start)) \<noteq> (fill = 0xFF) \<and> start > 0 then start - 1 else start"
  assumes len: "length bs = 16" and fill: "fill = 0 \<or> fill = 0xFF"
    and sign: "128 \<le> unat (bs ! 0) \<longleftrightarrow> fill = 0xFF"
  shows "k \<le> 15" "be_signed (drop k bs) = be_signed bs" "\<not> redundant (drop k bs)"
proof -
  have start: "start \<le> 15" "\<And>i. i < start \<Longrightarrow> bs ! i = fill" "start < 15 \<Longrightarrow> bs ! start \<noteq> fill"
    using skip_start_spec [of 0 bs fill] by (auto simp: start_def Let_def)
  then show k: "k \<le> 15" unfolding k_def by (cases start) auto
  have ff: "128 \<le> unat (bs ! i) \<longleftrightarrow> fill = 0xFF" if "bs ! i = fill" for i
    using fill unat_bytes that by auto
  have red: "redundant (drop i bs)" if "i < k" for i
  proof -
    have "Suc i < start \<or> Suc i = start \<and> (128 \<le> unat (bs ! start) \<longleftrightarrow> fill = 0xFF)"
      using that by (auto simp: k_def split: if_splits)
    then have "bs ! i = fill" "128 \<le> unat (bs ! Suc i) \<longleftrightarrow> fill = 0xFF"
      using start(2) ff by auto
    then show ?thesis using fill that k len by (auto simp: redundant_drop)
  qed
  show "be_signed (drop k bs) = be_signed bs"
    by (rule be_signed_drop) (use k len red in auto)
  show "\<not> redundant (drop k bs)"
  proof (cases "k = 15")
    case True
    then have "length (drop k bs) = 1" using len by simp
    then show ?thesis by (cases "drop k bs" rule: redundant.cases) auto
  next
    case False
    then have k15: "Suc k < length bs" using k len by simp
    have "bs ! k \<noteq> fill \<or> \<not> (128 \<le> unat (bs ! Suc k) \<longleftrightarrow> fill = 0xFF)"
      using start False by (auto simp: k_def split: if_splits)
    moreover have "128 \<le> unat (bs ! k) \<longleftrightarrow> fill = 0xFF"
      using sign start ff by (auto simp: k_def split: if_splits)
    ultimately show ?thesis using fill unat_bytes k15 by (auto simp: redundant_drop)
  qed
qed

text \<open>A decimal is built from the number it is asked for, in the shortest way: for every 128-bit
  number and every scale, the bytes are the big-endian two's complement of the number, at least one
  and at most 16 of them, and no other non-empty byte string of fewer bytes stands for that number
  (what \<open>java.math.BigInteger.toByteArray\<close> returns).\<close>

theorem decimal_shortest:
  "\<exists>bs. decimal_from_signed_i128 u scale = IvDecimal scale bs \<and>
    be_signed bs = sint u \<and> 1 \<le> length bs \<and> length bs \<le> 16 \<and>
    \<not> (\<exists>cs. cs \<noteq> [] \<and> be_signed cs = sint u \<and> length cs < length bs)"
proof (cases "u = 0")
  case True
  then show ?thesis
    by (auto simp: decimal_from_signed_i128_def be_signed_def)
next
  case False
  let ?bs = "to_be_bytes16 u"
  define fill :: u8 where "fill = (if 0 < sint u then 0 else 0xFF)"
  define start where "start = skip_start fill ?bs 0"
  define k where "k = (if (128 \<le> unat (?bs ! start)) \<noteq> (fill = 0xFF) \<and> start > 0 then start - 1 else start)"
  have "sint u \<noteq> 0" using False by (metis signed_eq_0_iff)
  have "?bs \<noteq> []" using length_to_be_bytes16 [of u] by (metis length_0_conv zero_neq_numeral)
  then have "128 \<le> unat (?bs ! 0) \<longleftrightarrow> fill = 0xFF"
    using be_signed_sign [of ?bs] be_signed_to_be_bytes16 [of u] \<open>sint u \<noteq> 0\<close> by (auto simp: fill_def)
  then have tr: "k \<le> 15" "be_signed (drop k ?bs) = sint u" "\<not> redundant (drop k ?bs)"
    using trimmed [of ?bs fill, folded start_def, folded k_def] be_signed_to_be_bytes16 [of u]
    by (auto simp: fill_def)
  have "decimal_from_signed_i128 u scale = IvDecimal scale (drop k ?bs)"
    using False top_bit [of "?bs ! start"]
    by (auto simp: decimal_from_signed_i128_def Let_def k_def start_def fill_def)
  moreover have "\<not> (\<exists>cs. cs \<noteq> [] \<and> be_signed cs = sint u \<and> length cs < length (drop k ?bs))"
    using irredundant_shortest [OF tr(3)] tr(2) by fastforce
  ultimately show ?thesis using tr by auto
qed

end
