(* ===== verification/LazyObject.thy ===== *)
theory LazyObject
  imports ObjectRoundTrip
begin

text \<open>
  \<open>LazyBinaryObject\<close> of \<open>ignite-rs/src/protocol/complex_obj.rs\<close>: the footer is parsed, the fields are
  decoded on demand from the raw body. The accessors index and slice without bounds checks, so that
  they can panic on a malformed body; that they do not, and that they agree with the eager decoder,
  on every body the encoder writes is shown below.
\<close>

section \<open>Model\<close>

record lazy_binary_object =
  lazy_body :: bytes
  lazy_fields :: "(i32 \<times> nat) list"
  lazy_data_end :: nat

definition lazy_offset_sz :: "u16 \<Rightarrow> nat" where
  "lazy_offset_sz flags =
    (case (flags AND FLAG_OFFSET_ONE_BYTE \<noteq> 0, flags AND FLAG_OFFSET_TWO_BYTES \<noteq> 0) of
       (True, False) \<Rightarrow> 1
     | (False, True) \<Rightarrow> 2
     | _ \<Rightarrow> 4)"

definition lazy_entry :: "nat \<Rightarrow> bytes \<Rightarrow> nat \<Rightarrow> i32 \<times> nat" where
  "lazy_entry offset_sz footer i =
    (let base = i * (4 + offset_sz);
         fid = word_of_nat (of_le (take 4 (drop base footer)));
         off = of_le (take offset_sz (drop (base + 4) footer))
     in (fid, off - COMPLEX_OBJ_HEADER_LEN))"

definition lazy_footer :: "nat \<Rightarrow> bytes \<Rightarrow> (i32 \<times> nat) list" where
  "lazy_footer offset_sz footer =
    (let entry_size = 4 + offset_sz;
         num_fields = length footer div entry_size
     in map (lazy_entry offset_sz footer)
          (takeWhile (\<lambda>i. i * entry_size + entry_size \<le> length footer) [0..<num_fields]))"

definition lazy_read_from :: "lazy_binary_object reader" where
  "lazy_read_from =
    rbind read_u8 (\<lambda>_.
    rbind read_u16 (\<lambda>flags.
    rbind read_i32 (\<lambda>_.
    rbind read_i32 (\<lambda>_.
    rbind read_i32 (\<lambda>l.
    rbind read_i32 (\<lambda>_.
    rbind read_i32 (\<lambda>off.
      let object_len = usize_of_i32 l;
          field_indexes_offset = usize_of_i32 off;
          has_schema = (flags AND FLAG_HAS_SCHEMA \<noteq> 0);
          offset_sz = lazy_offset_sz flags;
          body_len = object_len - COMPLEX_OBJ_HEADER_LEN
      in rbind (read_vec body_len) (\<lambda>body.
           let data_end = (if field_indexes_offset > COMPLEX_OBJ_HEADER_LEN
                           then field_indexes_offset - COMPLEX_OBJ_HEADER_LEN else body_len);
               entries = (if has_schema \<and> data_end < body_len
                          then lazy_footer offset_sz (drop data_end body) else [])
           in ret \<lparr>lazy_body = body, lazy_fields = entries, lazy_data_end = data_end\<rparr>))))))))"

definition lazy_read_unwrapped :: "type_code \<Rightarrow> lazy_binary_object option reader" where
  "lazy_read_unwrapped tc = (case tc of
      TcComplexObj \<Rightarrow> rmap Some lazy_read_from
    | TcNull \<Rightarrow> ret None
    | _ \<Rightarrow> fail (LazyUnexpectedTypeCode (type_code_u8 tc)))"

definition lazy_write :: "lazy_binary_object \<Rightarrow> writer" where
  "lazy_write self = wfail (IoUnsupported ''LazyBinaryObject is read-only'')"

definition lazy_size :: "lazy_binary_object \<Rightarrow> nat" where
  "lazy_size self = 0"

definition lazy_field_offset :: "lowercase \<Rightarrow> lazy_binary_object \<Rightarrow> rstring \<Rightarrow> nat option" where
  "lazy_field_offset lc self name =
    (let field_id = string_to_java_hashcode (lc name)
     in map_option snd (List.find (\<lambda>(fid, _). fid = field_id) (lazy_fields self)))"

text \<open>\<open>let off = self.field_offset(name)?; let b = &self.body[off..]\<close>, and what is done with \<open>b\<close>.\<close>

definition lazy_at :: "lowercase \<Rightarrow> lazy_binary_object \<Rightarrow> rstring \<Rightarrow> (bytes \<Rightarrow> 'a access) \<Rightarrow> 'a access" where
  "lazy_at lc self name f = (case lazy_field_offset lc self name of
      None \<Rightarrow> Returns None
    | Some off \<Rightarrow> if off \<le> length (lazy_body self) then f (drop off (lazy_body self)) else Panics)"

definition get_i32 :: "lowercase \<Rightarrow> lazy_binary_object \<Rightarrow> rstring \<Rightarrow> i32 access" where
  "get_i32 lc self name = lazy_at lc self name (\<lambda>b.
     if b = [] then Returns None
     else if hd b = type_code_u8 TcInt
     then (if 5 \<le> length b then Returns (Some (word_of_nat (of_le (take 4 (drop 1 b))))) else Panics)
     else Returns None)"

definition get_i64 :: "lowercase \<Rightarrow> lazy_binary_object \<Rightarrow> rstring \<Rightarrow> i64 access" where
  "get_i64 lc self name = lazy_at lc self name (\<lambda>b.
     if b = [] then Returns None
     else if hd b = type_code_u8 TcLong
     then (if 9 \<le> length b then Returns (Some (word_of_nat (of_le (take 8 (drop 1 b))))) else Panics)
     else Returns None)"

text \<open>The slice \<open>b[5..5 + len]\<close>: a sum past \<open>2 ^ 64\<close> panics in a checked build, and in an unchecked one
  wraps to an end before the start, which the slicing refuses.\<close>

definition lazy_slice :: "bytes \<Rightarrow> bytes access" where
  "lazy_slice b =
    (if length b < 5 then Panics
     else let len = usize_of_i32 (word_of_nat (of_le (take 4 (drop 1 b))))
          in if 2 ^ 64 \<le> 5 + len then Panics
             else if length b < 5 + len then Returns None
             else Returns (Some (take len (drop 5 b))))"

definition get_str :: "lowercase \<Rightarrow> lazy_binary_object \<Rightarrow> rstring \<Rightarrow> rstring access" where
  "get_str lc self name = lazy_at lc self name (\<lambda>b.
     if b = [] \<or> hd b \<noteq> type_code_u8 TcString then Returns None
     else case lazy_slice b of
       Panics \<Rightarrow> Panics
     | Returns None \<Rightarrow> Returns None
     | Returns (Some s) \<Rightarrow> Returns (utf8_decode s))"

definition get_bytes :: "lowercase \<Rightarrow> lazy_binary_object \<Rightarrow> rstring \<Rightarrow> bytes access" where
  "get_bytes lc self name = lazy_at lc self name (\<lambda>b.
     if b = [] \<or> hd b \<noteq> type_code_u8 TcArrByte then Returns None else lazy_slice b)"

definition is_null :: "lowercase \<Rightarrow> lazy_binary_object \<Rightarrow> rstring \<Rightarrow> bool" where
  "is_null lc self name = (case lazy_field_offset lc self name of
      Some off \<Rightarrow> off < length (lazy_body self) \<and> lazy_body self ! off = type_code_u8 TcNull
    | None \<Rightarrow> True)"

definition raw_field_cursor :: "lowercase \<Rightarrow> lazy_binary_object \<Rightarrow> rstring \<Rightarrow> bytes access" where
  "raw_field_cursor lc self name = (case lazy_field_offset lc self name of
      None \<Rightarrow> Returns None
    | Some off \<Rightarrow>
        (let end = max (lazy_data_end self) off
         in if length (lazy_body self) < end then Panics
            else Returns (Some (drop off (take end (lazy_body self))))))"

section \<open>The footer of a written object\<close>

text \<open>The offsets into the body at which the fields start.\<close>

fun body_offsets :: "nat \<Rightarrow> bytes list \<Rightarrow> nat list" where
  "body_offsets n [] = []"
| "body_offsets n (b # bs) = n # body_offsets (n + length b) bs"

lemma field_offsets_body: "field_offsets n bs = map (\<lambda>k. i32_of_usize (COMPLEX_OBJ_HEADER_LEN + k)) (body_offsets n bs)"
  by (induction bs arbitrary: n) (simp_all add: i32_of_usize_add)

lemma length_body_offsets [simp]: "length (body_offsets n bs) = length bs"
  by (induction bs arbitrary: n) simp_all

lemma body_offsets_bound: "k \<in> set (body_offsets n bs) \<Longrightarrow> k \<le> n + length (concat bs)"
  by (induction bs arbitrary: n) fastforce+

lemma body_offsets_nth:
  "i < length bs \<Longrightarrow> drop (body_offsets 0 bs ! i) (concat bs @ t) = concat (drop i bs) @ t"
proof -
  have "i < length bs \<Longrightarrow> body_offsets n bs ! i = n + length (concat (take i bs))" for n
  proof (induction bs arbitrary: n i)
    case (Cons b bs)
    then show ?case by (cases i) simp_all
  qed simp
  moreover assume "i < length bs"
  moreover have "concat bs = concat (take i bs) @ concat (drop i bs)"
    by (metis append_take_drop_id concat_append)
  ultimately show ?thesis by simp
qed

text \<open>The chosen width holds every offset.\<close>

lemma unat_i32_of_usize: "n < 2 ^ 31 \<Longrightarrow> unat (i32_of_usize n) = n"
  by (simp add: i32_of_usize_def unat_of_nat take_bit_eq_mod)

lemma unat_sint_nonneg: "0 \<le> sint (x :: i32) \<Longrightarrow> int (unat x) = sint x"
  using uint_sint [of x] sint_less [of x] by (simp add: take_bit_eq_mod)

lemma write_offset_value:
  assumes "x \<in> set offs" and "\<And>y. y \<in> set offs \<Longrightarrow> 0 \<le> sint y"
  shows "of_le (write_offset (offset_flag_of offs) x) = unat x"
proof -
  have le: "sint x \<le> Max (sint ` set offs)" using assms(1) by (simp add: Max_ge)
  have x: "int (unat x) = sint x" using assms by (blast intro: unat_sint_nonneg)
  have flag: "offset_flag_of offs = (if Max (sint ` set offs) \<le> 255 then FLAG_OFFSET_ONE_BYTE
      else if Max (sint ` set offs) \<le> 65535 then FLAG_OFFSET_TWO_BYTES else 0)"
  proof -
    have "(offs = []) = False" using assms(1) by auto
    moreover have "(Max (sint ` set offs) < 0) = False"
      using order_trans [OF assms(2) [OF assms(1)] le] by (simp only: not_less [symmetric] simp_thms)
    ultimately show ?thesis by (simp only: offset_flag_of_def Let_def if_False)
  qed
  have "unat (ucast x :: u8) = unat x" if "unat x < 256"
    using that by (simp add: unsigned_ucast_eq take_bit_eq_mod)
  moreover have "unat (ucast x :: u16) = unat x" if "unat x < 65536"
    using that by (simp add: unsigned_ucast_eq take_bit_eq_mod)
  moreover have "Max (sint ` set offs) \<le> 255 \<Longrightarrow> unat x < 256" "Max (sint ` set offs) \<le> 65535 \<Longrightarrow> unat x < 65536"
    using le x by linarith+
  moreover have "unat x < 256 ^ 4" using unsigned_less [of x, where ?'a = nat] by simp
  ultimately show ?thesis
    by (simp add: flag write_offset_def FLAG_OFFSET_ONE_BYTE_def FLAG_OFFSET_TWO_BYTES_def
        write_u8_def write_u16_def write_i32_def of_le_to_le del: to_le.simps)
qed

lemma concat_block:
  "\<forall>b \<in> set bs. length b = e \<Longrightarrow> i < length bs \<Longrightarrow> drop (i * e) (concat bs) = bs ! i @ concat (drop (Suc i) bs)"
proof (induction bs arbitrary: i)
  case (Cons b bs)
  then show ?case by (cases i) simp_all
qed simp

lemma lazy_footer_write:
  assumes len: "length fs = length offs" and pos: "\<And>y. y \<in> set offs \<Longrightarrow> 0 \<le> sint y"
  defines "flag \<equiv> offset_flag_of offs"
  shows "lazy_footer (offset_width flag) (write_footer lc flag fs offs) =
    map (\<lambda>(f, off). (field_id_of lc (field_name f), unat off - COMPLEX_OBJ_HEADER_LEN)) (zip fs offs)"
proof -
  let ?e = "4 + offset_width flag"
  let ?ent = "\<lambda>(f, off). write_i32 (field_id_of lc (field_name f)) @ write_offset flag off"
  let ?bs = "map ?ent (zip fs offs)"
  have flen: "length (write_footer lc flag fs offs) = length fs * ?e"
    using len by (simp add: length_write_footer)
  have block: "\<forall>b \<in> set ?bs. length b = ?e" by auto
  have nth: "lazy_entry (offset_width flag) (write_footer lc flag fs offs) i =
      (field_id_of lc (field_name (fs ! i)), unat (offs ! i) - COMPLEX_OBJ_HEADER_LEN)" if "i < length fs" for i
  proof -
    have d: "drop (i * ?e) (write_footer lc flag fs offs) =
        write_i32 (field_id_of lc (field_name (fs ! i))) @ write_offset flag (offs ! i) @ concat (drop (Suc i) ?bs)"
      using concat_block [OF block, of i] that len by (simp add: write_footer_def)
    have "drop (i * ?e + 4) (write_footer lc flag fs offs) =
        write_offset flag (offs ! i) @ concat (drop (Suc i) ?bs)"
      using arg_cong [OF d, of "drop 4"] by (simp add: add.commute)
    moreover have "of_le (write_offset flag (offs ! i)) = unat (offs ! i)"
      unfolding flag_def by (rule write_offset_value) (use that len pos in auto)
    moreover have "word_of_nat (of_le (write_i32 w)) = w" for w :: i32
      using of_le_to_le_unat [where n = 4 and w = w] by (simp add: write_i32_def)
    ultimately show ?thesis by (simp add: lazy_entry_def Let_def d)
  qed
  have tw: "takeWhile (\<lambda>i. i * ?e + ?e \<le> length fs * ?e) [0..<length fs] = [0..<length fs]"
  proof -
    have "i * ?e + ?e \<le> length fs * ?e" if "i < length fs" for i
    proof -
      have "Suc i * ?e \<le> length fs * ?e" using that by (intro mult_le_mono1) simp
      then show ?thesis by simp
    qed
    then show ?thesis by (simp add: takeWhile_eq_all_conv)
  qed
  have num: "length fs * ?e div ?e = length fs" by simp
  have "lazy_footer (offset_width flag) (write_footer lc flag fs offs) =
      map (lazy_entry (offset_width flag) (write_footer lc flag fs offs)) [0..<length fs]"
    unfolding lazy_footer_def Let_def flen num tw ..
  then show ?thesis
    using len nth by (auto intro!: nth_equalityI)
qed

lemma lazy_offset_sz_flags:
  assumes "flag = FLAG_OFFSET_ONE_BYTE \<or> flag = FLAG_OFFSET_TWO_BYTES \<or> flag = 0"
  shows "lazy_offset_sz (FLAG_HAS_SCHEMA OR FLAG_USER_TYPE OR flag) = offset_width flag"
  using assms
  by (auto simp: FLAG_HAS_SCHEMA_def FLAG_USER_TYPE_def FLAG_OFFSET_ONE_BYTE_def
      FLAG_OFFSET_TWO_BYTES_def lazy_offset_sz_def offset_width_def)

section \<open>Reading a written object\<close>

definition lazy_view :: "lowercase \<Rightarrow> complex_object_schema \<Rightarrow> ignite_value list \<Rightarrow> lazy_binary_object" where
  "lazy_view lc sch vs =
    (let bs = map (enc_value lc) vs; vals = concat bs; footer = fst (snd (object_data lc sch vs))
     in \<lparr>lazy_body = vals @ footer,
         lazy_fields = zip (map (\<lambda>f. field_id_of lc (field_name f)) (schema_fields sch)) (body_offsets 0 bs),
         lazy_data_end = length vals\<rparr>)"

lemma lazy_read_from_write:
  assumes len: "length vs = length (schema_fields sch)"
    and ne: "\<And>v. v \<in> set vs \<Longrightarrow> enc_value lc v \<noteq> []"
    and small: "length (object_bytes lc sch (object_data lc sch vs)) < 2 ^ 31"
  obtains bs where "object_bytes lc sch (object_data lc sch vs) = write_u8 (type_code_u8 TcComplexObj) @ bs"
    and "\<And>s. lazy_read_from (bs @ s) = Ok (lazy_view lc sch vs) s"
proof -
  let ?offs = "field_offsets 0 (map (enc_value lc) vs)"
  let ?fs = "schema_fields sch"
  obtain vals footer flag where data: "object_data lc sch vs = (vals, footer, flag)"
    by (cases "object_data lc sch vs") auto
  have vals: "vals = concat (map (enc_value lc) vs)" and flag: "flag = offset_flag_of ?offs"
    and footer: "footer = write_footer lc flag ?fs ?offs"
    using data by (auto simp: object_data_def finish_data_def Let_def)
  have small': "COMPLEX_OBJ_HEADER_LEN + length vals + length footer < 2 ^ 31"
    using small by (simp add: object_bytes_def data COMPLEX_OBJ_HEADER_LEN_def)
  then have casts: "usize_of_i32 (i32_of_usize (COMPLEX_OBJ_HEADER_LEN + length vals + length footer)) =
        COMPLEX_OBJ_HEADER_LEN + length vals + length footer"
      "usize_of_i32 (i32_of_usize (COMPLEX_OBJ_HEADER_LEN + length vals)) = COMPLEX_OBJ_HEADER_LEN + length vals"
    by (simp_all add: usize_of_i32_of_usize)
  have bound: "COMPLEX_OBJ_HEADER_LEN + k < 2 ^ 31" if "k \<in> set (body_offsets 0 (map (enc_value lc) vs))" for k
    using body_offsets_bound [OF that] small' by (simp add: vals)
  have vec: "read_vec (length vals + length footer) ((vals @ footer) @ s) = Ok (vals @ footer) s" for s
    by (rule read_vec_append) (use small' in \<open>simp_all add: less_2p31_isize_max\<close>)
  have "lazy_footer (offset_width flag) footer =
      map (\<lambda>(f, off). (field_id_of lc (field_name f), unat off - COMPLEX_OBJ_HEADER_LEN)) (zip ?fs ?offs)"
    unfolding footer flag
    by (rule lazy_footer_write) (use len bound in \<open>auto simp: field_offsets_body sint_i32_of_usize\<close>)
  also have "\<dots> = zip (map (\<lambda>f. field_id_of lc (field_name f)) ?fs) (body_offsets 0 (map (enc_value lc) vs))"
    using len bound
    by (intro nth_equalityI) (auto simp: field_offsets_body unat_i32_of_usize)
  finally have foot: "lazy_footer (offset_width flag) footer = lazy_fields (lazy_view lc sch vs)"
    by (simp add: lazy_view_def Let_def)
  have empty: "lazy_fields (lazy_view lc sch vs) = [] \<and> (vals = [] \<longrightarrow> footer = [])" if "footer = [] \<or> vals = []"
  proof -
    have "vs = []" using that
    proof
      assume "footer = []"
      then have "length footer = 0" by simp
      then show ?thesis using len by (simp add: footer length_write_footer)
    qed (use ne in \<open>cases vs; auto simp: vals\<close>)
    then show ?thesis using len by (simp add: footer write_footer_def lazy_view_def Let_def)
  qed
  have view: "lazy_body (lazy_view lc sch vs) = vals @ footer" "lazy_data_end (lazy_view lc sch vs) = length vals"
    by (simp_all add: lazy_view_def Let_def vals data)
  note flags = header_flags(1) [OF offset_flag_cases, of ?offs, folded flag]
    lazy_offset_sz_flags [OF offset_flag_cases, of ?offs, folded flag]
  show thesis
  proof (rule that)
    show "object_bytes lc sch (object_data lc sch vs) = write_u8 (type_code_u8 TcComplexObj) @
        write_u8 1 @ write_u16 (FLAG_HAS_SCHEMA OR FLAG_USER_TYPE OR flag) @
        write_i32 (string_to_java_hashcode (lc (schema_type_name sch))) @ write_i32 (bytes_to_java_hashcode vals) @
        write_i32 (i32_of_usize (COMPLEX_OBJ_HEADER_LEN + length vals + length footer)) @
        write_i32 (get_schema_id lc (schema_fields sch)) @
        write_i32 (i32_of_usize COMPLEX_OBJ_HEADER_LEN + i32_of_usize (length vals)) @ vals @ footer"
      by (simp add: object_bytes_def data)
    show "lazy_read_from ((write_u8 1 @ write_u16 (FLAG_HAS_SCHEMA OR FLAG_USER_TYPE OR flag) @
        write_i32 (string_to_java_hashcode (lc (schema_type_name sch))) @ write_i32 (bytes_to_java_hashcode vals) @
        write_i32 (i32_of_usize (COMPLEX_OBJ_HEADER_LEN + length vals + length footer)) @
        write_i32 (get_schema_id lc (schema_fields sch)) @
        write_i32 (i32_of_usize COMPLEX_OBJ_HEADER_LEN + i32_of_usize (length vals)) @ vals @ footer) @ s) =
        Ok (lazy_view lc sch vs) s" for s
      using vec [of s] flags casts empty foot view
      by (cases "lazy_view lc sch vs")
        (auto simp: lazy_read_from_def rbind_Ok Let_def i32_of_usize_add)
  qed
qed

section \<open>Accessors on a written object\<close>

lemma find_zip:
  "distinct ids \<Longrightarrow> length ids = length xs \<Longrightarrow> i < length ids \<Longrightarrow>
    List.find (\<lambda>(k, _). k = ids ! i) (zip ids xs) = Some (ids ! i, xs ! i)"
proof (induction ids xs arbitrary: i rule: list_induct2')
  case (4 k ids x xs)
  then show ?case by (cases i) auto
qed simp_all

text \<open>What each typed accessor makes of a value.\<close>

fun as_i32 :: "ignite_value \<Rightarrow> i32 option" where
  "as_i32 (IvInt x) = Some x"
| "as_i32 _ = None"

fun as_i64 :: "ignite_value \<Rightarrow> i64 option" where
  "as_i64 (IvLong x) = Some x"
| "as_i64 _ = None"

fun as_str :: "ignite_value \<Rightarrow> rstring option" where
  "as_str (IvString s) = Some s"
| "as_str _ = None"

fun as_bytes :: "ignite_value \<Rightarrow> bytes option" where
  "as_bytes (IvBinary bs) = Some bs"
| "as_bytes _ = None"

text \<open>The first byte of a written value.\<close>

fun tag_u8 :: "ignite_value \<Rightarrow> u8" where
  "tag_u8 (IvByte _) = type_code_u8 TcByte"
| "tag_u8 (IvString _) = type_code_u8 TcString"
| "tag_u8 (IvLong _) = type_code_u8 TcLong"
| "tag_u8 (IvInt _) = type_code_u8 TcInt"
| "tag_u8 (IvShort _) = type_code_u8 TcShort"
| "tag_u8 (IvFloat _) = type_code_u8 TcFloat"
| "tag_u8 (IvDouble _) = type_code_u8 TcDouble"
| "tag_u8 (IvChar _) = type_code_u8 TcChar"
| "tag_u8 (IvBool _) = type_code_u8 TcBool"
| "tag_u8 (IvUuid _ _) = type_code_u8 TcUuid"
| "tag_u8 (IvDate _) = type_code_u8 TcDate"
| "tag_u8 (IvTime _) = type_code_u8 TcTime"
| "tag_u8 (IvBinary _) = type_code_u8 TcArrByte"
| "tag_u8 (IvObject _) = type_code_u8 TcComplexObj"
| "tag_u8 (IvArray _) = type_code_u8 TcArrObj"
| "tag_u8 (IvEnum _) = type_code_u8 TcEnum"
| "tag_u8 (IvTimestamp _ _) = type_code_u8 TcTimestamp"
| "tag_u8 (IvDecimal _ _) = type_code_u8 TcDecimal"
| "tag_u8 IvNull = type_code_u8 TcNull"
| "tag_u8 (IvMap _ _) = type_code_u8 TcMap"
| "tag_u8 (IvCollection _ _) = type_code_u8 TcCollection"
| "tag_u8 (IvOpaqueMarshal _) = type_code_u8 TcOptimizedMarshaller"
| "tag_u8 (IvPreEncoded bs) = hd bs"
| "tag_u8 (IvArrTyped c _) = c"

lemma decodable_tag: "decodable lc reg v \<Longrightarrow> \<exists>bs. enc_value lc v = tag_u8 v # bs"
  by (cases "(lc, reg, v)" rule: decodable.cases)
    (auto simp: enc_simple enc_containers enc_object object_bytes_def write_u8_eq decodable_lists
      split: prod.split)

definition field_at :: "lowercase \<Rightarrow> lazy_binary_object \<Rightarrow> rstring \<Rightarrow> bytes \<Rightarrow> bool" where
  "field_at lc lo name b \<longleftrightarrow> (\<exists>off. lazy_field_offset lc lo name = Some off \<and>
     off \<le> length (lazy_body lo) \<and> drop off (lazy_body lo) = b)"

lemma lazy_at_field: "field_at lc lo name b \<Longrightarrow> lazy_at lc lo name f = f b"
  by (auto simp: field_at_def lazy_at_def)

lemma is_null_field: "field_at lc lo name b \<Longrightarrow> is_null lc lo name \<longleftrightarrow> b \<noteq> [] \<and> hd b = type_code_u8 TcNull"
  by (auto simp: field_at_def is_null_def hd_drop_conv_nth)

lemma field_at_write:
  assumes i: "i < length vs" and len: "length vs = length (schema_fields sch)"
    and dist: "distinct (map (\<lambda>f. field_id_of lc (field_name f)) (schema_fields sch))"
  shows "\<exists>t. field_at lc (lazy_view lc sch vs) (field_name (schema_fields sch ! i)) (enc_value lc (vs ! i) @ t)"
proof -
  let ?bs = "map (enc_value lc) vs"
  let ?ids = "map (\<lambda>f. field_id_of lc (field_name f)) (schema_fields sch)"
  let ?o = "body_offsets 0 ?bs ! i"
  let ?body = "lazy_body (lazy_view lc sch vs)"
  have "List.find (\<lambda>(fid, _). fid = ?ids ! i) (zip ?ids (body_offsets 0 ?bs)) = Some (?ids ! i, ?o)"
    by (rule find_zip) (use assms in auto)
  then have "lazy_field_offset lc (lazy_view lc sch vs) (field_name (schema_fields sch ! i)) = Some ?o"
    using i len by (simp add: lazy_field_offset_def lazy_view_def Let_def field_id_of_def)
  moreover define t where "t = concat (drop (Suc i) ?bs) @ fst (snd (object_data lc sch vs))"
  have "drop ?o ?body = enc_value lc (vs ! i) @ t"
    using body_offsets_nth [of i ?bs] i
    by (simp add: lazy_view_def Let_def t_def drop_map Cons_nth_drop_Suc [symmetric])
  moreover have "?o \<le> length ?body"
    using body_offsets_bound [of ?o 0 ?bs] i by (simp add: lazy_view_def Let_def)
  ultimately show ?thesis by (auto simp: field_at_def)
qed

lemma of_le_writes:
  "word_of_nat (of_le (write_i32 x)) = x" "word_of_nat (of_le (write_i64 y)) = y"
  using of_le_to_le_unat [where n = 4 and w = x] of_le_to_le_unat [where n = 8 and w = y]
  by (simp_all add: write_i32_def write_i64_def)

lemma lazy_slice_write:
  "length bs < 2 ^ 31 \<Longrightarrow> lazy_slice (c # write_i32 (i32_of_usize (length bs)) @ bs @ t) = Returns (Some bs)"
  by (simp add: lazy_slice_def Let_def of_le_writes usize_of_i32_of_usize)

lemma tags_distinct:
  assumes "decodable lc reg v"
  shows "tag_u8 v = type_code_u8 TcInt \<Longrightarrow> \<exists>x. v = IvInt x" "tag_u8 v = type_code_u8 TcLong \<Longrightarrow> \<exists>x. v = IvLong x"
    "tag_u8 v = type_code_u8 TcString \<Longrightarrow> \<exists>x. v = IvString x" "tag_u8 v = type_code_u8 TcArrByte \<Longrightarrow> \<exists>x. v = IvBinary x"
    "tag_u8 v = type_code_u8 TcNull \<longleftrightarrow> v = IvNull"
  using assms by (cases v; auto simp: type_code_u8_inject)+

lemma accessor_values:
  assumes v: "decodable lc reg v" and small: "length (enc_value lc v) < 2 ^ 31"
    and "field_at lc lo name (enc_value lc v @ t)"
  shows "get_i32 lc lo name = Returns (as_i32 v)" "get_i64 lc lo name = Returns (as_i64 v)"
    "get_str lc lo name = Returns (as_str v)" "get_bytes lc lo name = Returns (as_bytes v)"
proof -
  note at = lazy_at_field [OF assms(3)]
  obtain w where w: "enc_value lc v = tag_u8 v # w" using decodable_tag [OF v] by blast
  have none: "as_i32 v = None" if "\<nexists>x. v = IvInt x"
    using that by (cases v) auto
  show "get_i32 lc lo name = Returns (as_i32 v)"
  proof (cases "\<exists>x. v = IvInt x")
    case True
    then show ?thesis by (auto simp: get_i32_def at enc_simple write_u8_eq of_le_writes)
  next
    case False
    then show ?thesis using tags_distinct(1) [OF v] none by (auto simp: get_i32_def at w)
  qed
  show "get_i64 lc lo name = Returns (as_i64 v)"
  proof (cases "\<exists>x. v = IvLong x")
    case True
    then show ?thesis by (auto simp: get_i64_def at enc_simple write_u8_eq of_le_writes)
  next
    case False
    then have "as_i64 v = None" by (cases v) auto
    with False tags_distinct(2) [OF v] show ?thesis by (auto simp: get_i64_def at w)
  qed
  show "get_str lc lo name = Returns (as_str v)"
  proof (cases "\<exists>x. v = IvString x")
    case True
    with v small show ?thesis
      by (auto simp: get_str_def at enc_simple write_u8_eq write_string_def str_len_def
          lazy_slice_write utf8_decode_encode)
  next
    case False
    then have "as_str v = None" by (cases v) auto
    with False tags_distinct(3) [OF v] show ?thesis by (auto simp: get_str_def at w)
  qed
  show "get_bytes lc lo name = Returns (as_bytes v)"
  proof (cases "\<exists>x. v = IvBinary x")
    case True
    with small show ?thesis
      by (auto simp: get_bytes_def at enc_simple write_u8_eq lazy_slice_write)
  next
    case False
    then have "as_bytes v = None" by (cases v) auto
    with False tags_distinct(4) [OF v] show ?thesis by (auto simp: get_bytes_def at w)
  qed
qed

text \<open>C33: The lazy object agrees with the encoder. An object that is written is read lazily without
  error, and then, for every field, each accessor returns without a panic exactly what the value
  holds: \<open>get_i32\<close>, \<open>get_i64\<close>, \<open>get_str\<close> and \<open>get_bytes\<close> the value of a field of that type and \<open>None\<close> for
  a field of another, \<open>is_null\<close> whether the field is null. (Fields are found by the hash of their
  names, so no two names of the schema may share one.)\<close>

theorem lazy_agrees:
  assumes "decodable lc reg (IvObject (ComplexObject sch vs))"
    and "fst (write_object lc (ComplexObject sch vs) reg0) = Inr bs" and "length bs < 2 ^ 31"
    and "distinct (map (\<lambda>f. field_id_of lc (field_name f)) (schema_fields sch))"
    and "i < length vs"
  shows "\<exists>lo. readable_read lazy_read_unwrapped (bs @ s) = Ok (Some lo) s \<and>
    get_i32 lc lo (field_name (schema_fields sch ! i)) = Returns (as_i32 (vs ! i)) \<and>
    get_i64 lc lo (field_name (schema_fields sch ! i)) = Returns (as_i64 (vs ! i)) \<and>
    get_str lc lo (field_name (schema_fields sch ! i)) = Returns (as_str (vs ! i)) \<and>
    get_bytes lc lo (field_name (schema_fields sch ! i)) = Returns (as_bytes (vs ! i)) \<and>
    is_null lc lo (field_name (schema_fields sch ! i)) = (vs ! i = IvNull)"
proof -
  have dec: "list_all (decodable lc reg) vs" and proper: "proper_object sch vs"
    using assms(1) by auto
  note acc = decodable_lists(1) [OF dec]
  have len: "length vs = length (schema_fields sch)" using proper by (simp add: proper_object_def)
  have bs: "bs = object_bytes lc sch (object_data lc sch vs)"
    using assms(2) run_write_object [OF proper acc] by (simp add: steady_fst [OF steady_write_object] del: write_object.simps)
  then have "length (concat (map (enc_value lc) vs)) < 2 ^ 31"
    using assms(3) by (simp add: object_bytes_def object_data_def finish_data_def Let_def)
  note part = small_parts(2) [OF this dec]
  have ne: "enc_value lc v \<noteq> []" if "v \<in> set vs" for v
    using that dec decodable_nonempty by (auto simp: list_all_iff)
  let ?v = "vs ! i"
  have v: "decodable lc reg ?v" "length (enc_value lc ?v) < 2 ^ 31"
    using dec part assms(5) by (auto simp: list_all_iff)
  obtain u where u: "bs = write_u8 (type_code_u8 TcComplexObj) @ u"
    "\<And>s. lazy_read_from (u @ s) = Ok (lazy_view lc sch vs) s"
    using lazy_read_from_write [OF len ne] assms(3) unfolding bs by blast
  have read: "readable_read lazy_read_unwrapped (bs @ s) = Ok (Some (lazy_view lc sch vs)) s"
    using readable_read_value [of TcComplexObj lazy_read_unwrapped "u @ s"] u
    by (simp add: lazy_read_unwrapped_def rmap_Ok)
  obtain t where t: "field_at lc (lazy_view lc sch vs) (field_name (schema_fields sch ! i)) (enc_value lc ?v @ t)"
    using field_at_write [OF assms(5) len assms(4)] by blast
  have "is_null lc (lazy_view lc sch vs) (field_name (schema_fields sch ! i)) = (?v = IvNull)"
    using is_null_field [OF t] tags_distinct(5) [OF v(1)] decodable_tag [OF v(1)] by auto
  then show ?thesis
    using read accessor_values [OF v t] by blast
qed

theorem lazy_agrees_witness:
  "\<exists>bs lo. fst (write_object id (ComplexObject sample_schema sample_values) registry_default) = Inr bs \<and>
    readable_read lazy_read_unwrapped (bs @ []) = Ok (Some lo) [] \<and>
    get_i32 id lo (rstr ''a'') = Returns (Some 7) \<and> get_str id lo (rstr ''a'') = Returns None"
proof -
  let ?co = "ComplexObject sample_schema sample_values"
  let ?reg = "register_complex_schema id sample_schema registry_default"
  have dec: "decodable id ?reg (IvObject ?co)"
    using register_knows_schema [OF sample_compatible] sample_proper by (simp add: knows_schema_resolves)
  have "accepted id (IvObject ?co)" by (rule decodable_accepted [OF dec])
  then have bs: "fst (write_object id ?co registry_default) = Inr (enc_value id (IvObject ?co))"
    using steady_fst [OF steady_write_object, of id ?co registry_default]
    by (simp add: run_accepted write_value.simps del: write_object.simps)
  have dist: "distinct (map (\<lambda>f. field_id_of id (field_name f)) (schema_fields sample_schema))"
    using sample_compatible by (simp add: schema_compatible_def)
  have i: "0 < length sample_values" by (simp add: sample_values_def)
  have f: "field_name (schema_fields sample_schema ! 0) = rstr ''a''" "sample_values ! 0 = IvInt 7"
    by (simp_all add: sample_schema_def sample_values_def)
  from lazy_agrees [OF dec bs sample_small dist i, of "[]"] show ?thesis
    unfolding f using bs by auto
qed

end
