(* ===== verification/BTreeMap.thy ===== *)
theory BTreeMap
  imports Prelude "HOL-Library.List_Lexorder"
begin

text \<open>
  The ordered maps of the crate (\<open>std::collections::BTreeMap\<close>, \<open>BTreeSet\<close>): iteration is by ascending
  key, which the code observes. A map is the list of its entries in that order. The interface its
  clients use is the locale \<open>ordered_map\<close>. The order of strings is the lexicographic one: that of
  their scalar values is that of their UTF-8 bytes.
\<close>

section \<open>Interface\<close>

locale ordered_map =
  fixes empty :: 'm
    and insert :: "'k::linorder \<Rightarrow> 'v \<Rightarrow> 'm \<Rightarrow> 'm"
    and remove :: "'k \<Rightarrow> 'm \<Rightarrow> 'm"
    and lookup :: "'m \<Rightarrow> 'k \<Rightarrow> 'v option"
    and entries :: "'m \<Rightarrow> ('k \<times> 'v) list"
    and inv :: "'m \<Rightarrow> bool"
  assumes inv_empty: "inv empty"
    and inv_insert: "inv m \<Longrightarrow> inv (insert k v m)"
    and inv_remove: "inv m \<Longrightarrow> inv (remove k m)"
    and lookup_empty: "lookup empty k = None"
    and lookup_insert: "inv m \<Longrightarrow> lookup (insert k v m) j = (if j = k then Some v else lookup m j)"
    and lookup_remove: "inv m \<Longrightarrow> lookup (remove k m) j = (if j = k then None else lookup m j)"
    and entries_sorted: "inv m \<Longrightarrow> sorted_wrt (<) (map fst (entries m))"
    and entries_lookup: "inv m \<Longrightarrow> map_of (entries m) k = lookup m k"
begin

lemma entries_iff: "inv m \<Longrightarrow> (k, v) \<in> set (entries m) \<longleftrightarrow> lookup m k = Some v"
  using entries_sorted [of m] entries_lookup [of m k]
  by (metis map_of_eq_Some_iff strict_sorted_iff)

lemma entries_keys: "inv m \<Longrightarrow> entries m = map (\<lambda>k. (k, the (lookup m k))) (map fst (entries m))"
  unfolding map_map by (rule map_idI [symmetric]) (auto simp: entries_iff)

text \<open>The order of the entries is a function of the contents, whatever the history.\<close>

lemma entries_unique:
  assumes "inv m" "inv m'" "lookup m = lookup m'"
  shows "entries m = entries m'"
proof -
  have set: "set (entries m) = set (entries m')"
    using assms entries_iff by (metis subset_antisym subrelI)
  have "map fst (entries m) = map fst (entries m')"
    by (rule strict_sorted_equal) (use assms entries_sorted set in \<open>auto simp: strict_sorted_iff\<close>)
  then show ?thesis
    using entries_keys [OF assms(1)] entries_keys [OF assms(2)] assms(3) by simp
qed

lemma insert_again: "inv m \<Longrightarrow> entries (insert k v (insert k w m)) = entries (insert k v m)"
  by (rule entries_unique) (auto simp: inv_insert lookup_insert)

lemma insert_commute: "inv m \<Longrightarrow> j \<noteq> k \<Longrightarrow> entries (insert j v (insert k w m)) = entries (insert k w (insert j v m))"
  by (rule entries_unique) (auto simp: inv_insert lookup_insert)

end

section \<open>Implementation\<close>

type_synonym ('k, 'v) btree = "('k \<times> 'v) list"

fun btree_insert :: "'k::linorder \<Rightarrow> 'v \<Rightarrow> ('k, 'v) btree \<Rightarrow> ('k, 'v) btree" where
  "btree_insert k v [] = [(k, v)]"
| "btree_insert k v ((j, w) # m) =
    (if k < j then (k, v) # (j, w) # m else if k = j then (k, v) # m else (j, w) # btree_insert k v m)"

definition btree_remove :: "'k \<Rightarrow> ('k, 'v) btree \<Rightarrow> ('k, 'v) btree" where
  "btree_remove k m = filter (\<lambda>(j, _). j \<noteq> k) m"

definition btree_inv :: "('k::linorder, 'v) btree \<Rightarrow> bool" where
  "btree_inv m \<longleftrightarrow> sorted_wrt (<) (map fst m)"

lemma btree_insert_keys: "fst ` set (btree_insert k v m) = insert k (fst ` set m)"
  by (induction k v m rule: btree_insert.induct) auto

lemma btree_insert_subset: "set (btree_insert k v m) \<subseteq> insert (k, v) (set m)"
  by (induction k v m rule: btree_insert.induct) auto

lemma btree_insert_inv: "btree_inv m \<Longrightarrow> btree_inv (btree_insert k v m)"
proof (induction k v m rule: btree_insert.induct)
  case (2 k v j w m)
  then show ?case
    using btree_insert_keys [of k v m] by (auto simp: btree_inv_def)
qed (simp add: btree_inv_def)

lemma btree_insert_lookup: "map_of (btree_insert k v m) j = (if j = k then Some v else map_of m j)"
  by (induction k v m rule: btree_insert.induct) auto

lemma btree_remove_inv: "btree_inv m \<Longrightarrow> btree_inv (btree_remove k m)"
  by (induction m) (auto simp: btree_inv_def btree_remove_def)

lemma btree_remove_lookup: "map_of (btree_remove k m) j = (if j = k then None else map_of m j)"
  by (induction m) (auto simp: btree_remove_def)

interpretation btree: ordered_map "[]" btree_insert btree_remove map_of "\<lambda>m. m" btree_inv
  by unfold_locales
    (simp_all add: btree_insert_inv btree_insert_lookup btree_remove_inv btree_remove_lookup,
      simp_all add: btree_inv_def)

end
