(* ===== verification/Topology.thy ===== *)
theory Topology
  imports BTreeMap Utf8
begin

text \<open>
  Cluster topology as the client sees it, \<open>ignite-rs/src/topology.rs\<close>: seed and discovered endpoints,
  node ids and the topology version, behind a lock, with the merged endpoint list published in a
  cache that readers load without the lock.

  Every operation that changes the state takes the write lock for its whole body, so that the
  operations are steps of a sequential machine: the record \<open>topology_cache\<close> is the state, one function
  per operation the step, \<open>topology_reachable\<close> its reachable states.
\<close>

section \<open>Versions\<close>

datatype topology_version = TopologyVersion (major: i64) (minor: i32)

text \<open>The derived \<open>Ord\<close>: signed, first by major and then by minor.\<close>

lemma version_eqI: "sint (major a) = sint (major b) \<Longrightarrow> sint (minor a) = sint (minor b) \<Longrightarrow> a = b"
  by (cases a; cases b) (auto intro: signed_word_eqI)

instantiation topology_version :: linorder
begin

definition less_eq_topology_version :: "topology_version \<Rightarrow> topology_version \<Rightarrow> bool" where
  "less_eq_topology_version a b \<longleftrightarrow>
    sint (major a) < sint (major b) \<or> sint (major a) = sint (major b) \<and> sint (minor a) \<le> sint (minor b)"

definition less_topology_version :: "topology_version \<Rightarrow> topology_version \<Rightarrow> bool" where
  "less_topology_version a b \<longleftrightarrow>
    sint (major a) < sint (major b) \<or> sint (major a) = sint (major b) \<and> sint (minor a) < sint (minor b)"

instance
  by intro_classes (auto simp: less_eq_topology_version_def less_topology_version_def intro: version_eqI)

end

section \<open>State\<close>

record discovered_node =
  node_id :: rstring
  node_endpoints :: "rstring list"

record topology_state =
  seed_endpoints :: "rstring list"
  discovered_nodes :: "(rstring, rstring list) btree"
  active_endpoint :: "rstring option"
  node_ids :: "rstring list"
  current_dc_node_ids :: "rstring list"
  topology_version :: "topology_version option"

record topology_cache =
  topo_state :: topology_state
  cached_endpoints :: "rstring list"

record topology_snapshot =
  snap_seed_endpoints :: "rstring list"
  snap_discovered_endpoints :: "rstring list"
  snap_endpoints :: "rstring list"
  snap_active_endpoint :: "rstring option"
  snap_node_ids :: "rstring list"
  snap_current_dc_node_ids :: "rstring list"
  snap_topology_version :: "topology_version option"

section \<open>Helpers\<close>

text \<open>\<open>filter(|e| seen.insert(e.clone()))\<close>: the first occurrence of every endpoint is kept.\<close>

fun dedupe_from :: "rstring list \<Rightarrow> rstring list \<Rightarrow> rstring list" where
  "dedupe_from seen [] = []"
| "dedupe_from seen (e # es) =
    (if e \<in> set seen then dedupe_from seen es else e # dedupe_from (e # seen) es)"

definition dedupe :: "rstring list \<Rightarrow> rstring list" where
  "dedupe endpoints = dedupe_from [] endpoints"

definition flatten_discovered_nodes :: "(rstring, rstring list) btree \<Rightarrow> rstring list" where
  "flatten_discovered_nodes nodes = dedupe (concat (map snd nodes))"

definition merged_endpoints :: "rstring list \<Rightarrow> rstring list \<Rightarrow> rstring list" where
  "merged_endpoints seeds discovered = dedupe (seeds @ discovered)"

definition rebuild_cache :: "topology_state \<Rightarrow> rstring list" where
  "rebuild_cache st = merged_endpoints (seed_endpoints st) (flatten_discovered_nodes (discovered_nodes st))"

definition refresh_cache_from :: "topology_state \<Rightarrow> topology_cache \<Rightarrow> topology_cache" where
  "refresh_cache_from st tc = tc\<lparr>topo_state := st, cached_endpoints := rebuild_cache st\<rparr>"

definition push_unique :: "'a \<Rightarrow> 'a list \<Rightarrow> 'a list" where
  "push_unique x xs = (if x \<in> set xs then xs else xs @ [x])"

section \<open>Operations\<close>

definition topology_new :: "rstring list \<Rightarrow> topology_cache" where
  "topology_new seeds =
    (let seeds = dedupe seeds
     in \<lparr>topo_state = \<lparr>seed_endpoints = seeds, discovered_nodes = [], active_endpoint = None,
           node_ids = [], current_dc_node_ids = [], topology_version = None\<rparr>,
         cached_endpoints = seeds\<rparr>)"

definition endpoints :: "topology_cache \<Rightarrow> rstring list" where
  "endpoints tc = cached_endpoints tc"

definition replace_seed_endpoints :: "rstring list \<Rightarrow> topology_cache \<Rightarrow> rstring list \<times> topology_cache" where
  "replace_seed_endpoints seeds tc =
    (let st = topo_state tc;
         nxt = dedupe seeds;
         removed = filter (\<lambda>e. \<not> list_ex (\<lambda>c. c = e) nxt) (seed_endpoints st);
         st = st\<lparr>seed_endpoints := nxt\<rparr>
     in (removed, refresh_cache_from st tc))"

definition endpoint_count :: "topology_cache \<Rightarrow> nat" where
  "endpoint_count tc = length (endpoints tc)"

fun position_of :: "rstring \<Rightarrow> rstring list \<Rightarrow> nat option" where
  "position_of a [] = None"
| "position_of a (e # es) = (if e = a then Some 0 else map_option Suc (position_of a es))"

definition next_index_after :: "rstring \<Rightarrow> topology_cache \<Rightarrow> nat" where
  "next_index_after address tc =
    (let eps = endpoints tc
     in if eps = [] then 0
        else (case position_of address eps of Some i \<Rightarrow> (i + 1) mod length eps | None \<Rightarrow> 0))"

definition mark_active :: "rstring \<Rightarrow> topology_cache \<Rightarrow> topology_cache" where
  "mark_active address tc = tc\<lparr>topo_state := (topo_state tc)\<lparr>active_endpoint := Some address\<rparr>\<rparr>"

definition record_node :: "rstring \<Rightarrow> topology_cache \<Rightarrow> topology_cache" where
  "record_node n tc = tc\<lparr>topo_state := (topo_state tc)\<lparr>node_ids := push_unique n (node_ids (topo_state tc))\<rparr>\<rparr>"

definition record_node_endpoint :: "rstring \<Rightarrow> rstring \<Rightarrow> topology_cache \<Rightarrow> topology_cache" where
  "record_node_endpoint n e tc =
    (let st = topo_state tc;
         st = st\<lparr>node_ids := push_unique n (node_ids st)\<rparr>;
         eps = (case map_of (discovered_nodes st) n of None \<Rightarrow> [] | Some es \<Rightarrow> es);
         st = st\<lparr>discovered_nodes := btree_insert n (push_unique e eps) (discovered_nodes st)\<rparr>
     in refresh_cache_from st tc)"

definition current_topology_version :: "topology_cache \<Rightarrow> topology_version option" where
  "current_topology_version tc = topology_version (topo_state tc)"

definition set_topology_version :: "topology_version \<Rightarrow> topology_cache \<Rightarrow> topology_cache" where
  "set_topology_version v tc = tc\<lparr>topo_state := (topo_state tc)\<lparr>topology_version := Some v\<rparr>\<rparr>"

definition set_current_dc_nodes :: "rstring list \<Rightarrow> topology_cache \<Rightarrow> topology_cache" where
  "set_current_dc_nodes ns tc = tc\<lparr>topo_state := (topo_state tc)\<lparr>current_dc_node_ids := dedupe ns\<rparr>\<rparr>"

definition clear_current_dc_nodes :: "topology_cache \<Rightarrow> topology_cache" where
  "clear_current_dc_nodes tc = tc\<lparr>topo_state := (topo_state tc)\<lparr>current_dc_node_ids := []\<rparr>\<rparr>"

definition current_dc_nodes :: "topology_cache \<Rightarrow> rstring list" where
  "current_dc_nodes tc = current_dc_node_ids (topo_state tc)"

definition topology_needs_refresh :: "topology_version \<Rightarrow> topology_cache \<Rightarrow> bool" where
  "topology_needs_refresh v tc =
    (case topology_version (topo_state tc) of Some current \<Rightarrow> current < v | None \<Rightarrow> True)"

definition add_node :: "discovered_node \<Rightarrow> topology_state \<Rightarrow> topology_state" where
  "add_node node st = st\<lparr>
     node_ids := push_unique (node_id node) (node_ids st),
     discovered_nodes := btree_insert (node_id node) (dedupe (node_endpoints node)) (discovered_nodes st)\<rparr>"

definition remove_node :: "rstring \<Rightarrow> topology_state \<Rightarrow> topology_state" where
  "remove_node n st = st\<lparr>
     discovered_nodes := btree_remove n (discovered_nodes st),
     node_ids := filter (\<lambda>e. e \<noteq> n) (node_ids st),
     current_dc_node_ids := filter (\<lambda>e. e \<noteq> n) (current_dc_node_ids st)\<rparr>"

definition apply_discovery_update ::
    "topology_version \<Rightarrow> discovered_node list \<Rightarrow> rstring list \<Rightarrow> topology_cache \<Rightarrow> topology_cache" where
  "apply_discovery_update v added removed tc =
    (let st = topo_state tc;
         st = foldl (\<lambda>st n. add_node n st) st added;
         st = foldl (\<lambda>st n. remove_node n st) st removed;
         st = st\<lparr>topology_version := Some v\<rparr>
     in refresh_cache_from st tc)"

definition snapshot :: "topology_cache \<Rightarrow> topology_snapshot" where
  "snapshot tc =
    (let st = topo_state tc; discovered = flatten_discovered_nodes (discovered_nodes st)
     in \<lparr>snap_seed_endpoints = seed_endpoints st, snap_discovered_endpoints = discovered,
         snap_endpoints = merged_endpoints (seed_endpoints st) discovered,
         snap_active_endpoint = active_endpoint st, snap_node_ids = node_ids st,
         snap_current_dc_node_ids = current_dc_node_ids st,
         snap_topology_version = topology_version st\<rparr>)"

definition endpoints_for_node :: "rstring \<Rightarrow> topology_cache \<Rightarrow> rstring list" where
  "endpoints_for_node n tc = (case map_of (discovered_nodes (topo_state tc)) n of Some es \<Rightarrow> es | None \<Rightarrow> [])"

section \<open>Deduplication\<close>

lemma dedupe_from_set: "set (dedupe_from seen es) = set es - set seen"
  by (induction seen es rule: dedupe_from.induct) auto

lemma dedupe_from_distinct: "distinct (dedupe_from seen es)"
  by (induction seen es rule: dedupe_from.induct) (auto simp: dedupe_from_set)

lemma dedupe_set [simp]: "set (dedupe es) = set es"
  by (simp add: dedupe_def dedupe_from_set)

lemma dedupe_distinct [simp]: "distinct (dedupe es)"
  by (simp add: dedupe_def dedupe_from_distinct)

lemma dedupe_from_append:
  "distinct es \<Longrightarrow> set es \<inter> set seen = {} \<Longrightarrow> dedupe_from seen (es @ fs) = es @ dedupe_from (rev es @ seen) fs"
  by (induction es arbitrary: seen) auto

lemma dedupe_append: "distinct es \<Longrightarrow> dedupe (es @ fs) = es @ dedupe_from (rev es) fs"
  using dedupe_from_append [of es "[]" fs] by (simp add: dedupe_def)

lemma dedupe_id: "distinct es \<Longrightarrow> dedupe es = es"
  using dedupe_append [of es "[]"] by simp

lemma set_merged: "set (merged_endpoints seeds disc) = set seeds \<union> set disc"
  by (simp add: merged_endpoints_def)

lemma set_flatten: "set (flatten_discovered_nodes m) = (\<Union>es \<in> snd ` set m. set es)"
  by (auto simp: flatten_discovered_nodes_def)

lemma set_push_unique [simp]: "set (push_unique x xs) = insert x (set xs)"
  by (auto simp: push_unique_def)

lemma distinct_push_unique [simp]: "distinct (push_unique x xs) = distinct xs"
  by (auto simp: push_unique_def)

section \<open>Reachable states\<close>

inductive topology_step :: "topology_cache \<Rightarrow> topology_cache \<Rightarrow> bool" where
  replace_seeds: "topology_step tc (snd (replace_seed_endpoints seeds tc))"
| mark: "topology_step tc (mark_active a tc)"
| node: "topology_step tc (record_node n tc)"
| node_endpoint: "topology_step tc (record_node_endpoint n e tc)"
| version: "topology_step tc (set_topology_version v tc)"
| dc_nodes: "topology_step tc (set_current_dc_nodes ns tc)"
| clear_dc: "topology_step tc (clear_current_dc_nodes tc)"
| discovery: "topology_step tc (apply_discovery_update v added removed tc)"

inductive topology_reachable :: "topology_cache \<Rightarrow> bool" where
  start: "topology_reachable (topology_new seeds)"
| step: "topology_reachable tc \<Longrightarrow> topology_step tc tc' \<Longrightarrow> topology_reachable tc'"

definition nodes_ok :: "rstring list \<Rightarrow> (rstring, rstring list) btree \<Rightarrow> bool" where
  "nodes_ok ids m \<longleftrightarrow> (\<forall>x \<in> set m. fst x \<in> set ids \<and> distinct (snd x))"

lemma nodes_ok_Nil [simp]: "nodes_ok ids []"
  by (simp add: nodes_ok_def)

lemma nodes_ok_insert:
  "nodes_ok ids m \<Longrightarrow> distinct es \<Longrightarrow> nodes_ok (push_unique n ids) (btree_insert n es m)"
  using btree_insert_subset [of n es m] by (fastforce simp: nodes_ok_def)

lemma nodes_ok_remove: "nodes_ok ids m \<Longrightarrow> nodes_ok (filter (\<lambda>e. e \<noteq> n) ids) (btree_remove n m)"
  by (auto simp: nodes_ok_def btree_remove_def)

lemma nodes_ok_mono: "nodes_ok ids m \<Longrightarrow> set ids \<subseteq> set ids' \<Longrightarrow> nodes_ok ids' m"
  by (auto simp: nodes_ok_def)

lemma nodes_ok_lookup: "nodes_ok ids m \<Longrightarrow> map_of m n = Some es \<Longrightarrow> n \<in> set ids \<and> distinct es"
  by (auto simp: nodes_ok_def dest!: map_of_SomeD)

definition state_inv :: "topology_state \<Rightarrow> bool" where
  "state_inv st \<longleftrightarrow>
    distinct (seed_endpoints st) \<and> distinct (node_ids st) \<and> distinct (current_dc_node_ids st) \<and>
    btree_inv (discovered_nodes st) \<and> nodes_ok (node_ids st) (discovered_nodes st)"

definition topology_inv :: "topology_cache \<Rightarrow> bool" where
  "topology_inv tc \<longleftrightarrow> state_inv (topo_state tc) \<and> cached_endpoints tc = rebuild_cache (topo_state tc)"

lemma inv_refresh: "state_inv st \<Longrightarrow> topology_inv (refresh_cache_from st tc)"
  by (simp add: topology_inv_def refresh_cache_from_def)

lemma state_inv_add: "state_inv st \<Longrightarrow> state_inv (add_node n st)"
  by (simp add: state_inv_def add_node_def btree_insert_inv nodes_ok_insert)

lemma state_inv_remove: "state_inv st \<Longrightarrow> state_inv (remove_node n st)"
  by (simp add: state_inv_def remove_node_def btree_remove_inv nodes_ok_remove)

lemma state_inv_adds: "state_inv st \<Longrightarrow> state_inv (foldl (\<lambda>st n. add_node n st) st added)"
  by (induction added arbitrary: st) (simp_all add: state_inv_add)

lemma state_inv_removes: "state_inv st \<Longrightarrow> state_inv (foldl (\<lambda>st n. remove_node n st) st removed)"
  by (induction removed arbitrary: st) (simp_all add: state_inv_remove)

lemma state_inv_version: "state_inv (st\<lparr>topology_version := v\<rparr>) = state_inv st"
  by (simp add: state_inv_def)

lemma inv_topology_new: "topology_inv (topology_new seeds)"
  by (simp add: topology_inv_def topology_new_def Let_def state_inv_def btree_inv_def rebuild_cache_def
      merged_endpoints_def flatten_discovered_nodes_def dedupe_id)

lemma inv_topology_step: "topology_step tc tc' \<Longrightarrow> topology_inv tc \<Longrightarrow> topology_inv tc'"
proof (induction rule: topology_step.induct)
  case (replace_seeds tc seeds)
  then show ?case
    unfolding replace_seed_endpoints_def Let_def snd_conv
    by (intro inv_refresh) (simp add: topology_inv_def state_inv_def)
next
  case (node_endpoint tc n e)
  then have st: "state_inv (topo_state tc)" by (simp add: topology_inv_def)
  have "distinct (case map_of (discovered_nodes (topo_state tc)) n of None \<Rightarrow> [] | Some es \<Rightarrow> es)"
    using st nodes_ok_lookup [of _ "discovered_nodes (topo_state tc)" n]
    by (auto simp: state_inv_def split: option.split)
  with st show ?case
    unfolding record_node_endpoint_def Let_def
    by (intro inv_refresh)
      (simp add: state_inv_def btree_insert_inv nodes_ok_insert)
next
  case (discovery tc v added removed)
  then have "state_inv (topo_state tc)" by (simp add: topology_inv_def)
  then show ?case
    unfolding apply_discovery_update_def Let_def
    by (intro inv_refresh) (simp add: state_inv_version state_inv_adds state_inv_removes)
next
  case (node tc n)
  then show ?case
    by (auto simp: topology_inv_def state_inv_def rebuild_cache_def record_node_def intro: nodes_ok_mono)
qed (auto simp: topology_inv_def state_inv_def rebuild_cache_def mark_active_def
    set_topology_version_def set_current_dc_nodes_def clear_current_dc_nodes_def)

lemma topology_reachable_inv: "topology_reachable tc \<Longrightarrow> topology_inv tc"
  by (induction rule: topology_reachable.induct) (auto simp: inv_topology_new intro: inv_topology_step)

section \<open>Positions\<close>

lemma position_of_Some: "position_of a es = Some i \<Longrightarrow> i < length es \<and> es ! i = a"
  by (induction a es arbitrary: i rule: position_of.induct) (auto split: if_splits)

lemma position_of_None: "position_of a es = None \<longleftrightarrow> a \<notin> set es"
  by (induction a es rule: position_of.induct) auto

lemma position_of_nth: "distinct es \<Longrightarrow> i < length es \<Longrightarrow> position_of (es ! i) es = Some i"
proof (induction es arbitrary: i)
  case (Cons e es)
  then show ?case by (cases i) auto
qed simp

section \<open>A discovery update\<close>

lemma adds_lookup:
  "map_of (discovered_nodes (foldl (\<lambda>st n. add_node n st) st added)) k =
    (case List.find (\<lambda>n. node_id n = k) (rev added) of
       Some n \<Rightarrow> Some (dedupe (node_endpoints n)) | None \<Rightarrow> map_of (discovered_nodes st) k)"
proof (induction added rule: rev_induct)
  case (snoc n added)
  then show ?case by (simp add: add_node_def btree_insert_lookup)
qed simp

lemma adds_ids: "set (node_ids (foldl (\<lambda>st n. add_node n st) st added)) = set (node_ids st) \<union> node_id ` set added"
  by (induction added arbitrary: st) (auto simp: add_node_def)

lemma removes_lookup:
  "map_of (discovered_nodes (foldl (\<lambda>st n. remove_node n st) st removed)) k =
    (if k \<in> set removed then None else map_of (discovered_nodes st) k)"
  by (induction removed arbitrary: st) (auto simp: remove_node_def btree_remove_lookup)

lemma removes_ids:
  "set (node_ids (foldl (\<lambda>st n. remove_node n st) st removed)) = set (node_ids st) - set removed"
  "set (current_dc_node_ids (foldl (\<lambda>st n. remove_node n st) st removed)) = set (current_dc_node_ids st) - set removed"
  by (induction removed arbitrary: st) (auto simp: remove_node_def)

lemma adds_frame:
  "seed_endpoints (foldl (\<lambda>st n. add_node n st) st added) = seed_endpoints st"
  "current_dc_node_ids (foldl (\<lambda>st n. add_node n st) st added) = current_dc_node_ids st"
  by (induction added arbitrary: st) (simp_all add: add_node_def)

section \<open>Properties\<close>

text \<open>C5: The published endpoint list is always the one a reader under the lock would compute. In every
  state reachable from a start by any sequence of operations, the cached list is the merge of the
  seeds and the discovered endpoints, equal to that of a snapshot; it has no duplicates, starts with
  the seeds in their order, and holds exactly the seeds and the endpoints of the discovered nodes.\<close>

theorem endpoints_coherent:
  assumes "topology_reachable tc"
  shows "endpoints tc = snap_endpoints (snapshot tc) \<and> distinct (endpoints tc) \<and>
    (\<exists>rest. endpoints tc = seed_endpoints (topo_state tc) @ rest) \<and>
    set (endpoints tc) = set (seed_endpoints (topo_state tc)) \<union>
      (\<Union>(n, es) \<in> set (discovered_nodes (topo_state tc)). set es)"
proof -
  have inv: "state_inv (topo_state tc)" "endpoints tc = rebuild_cache (topo_state tc)"
    using topology_reachable_inv [OF assms] by (simp_all add: topology_inv_def endpoints_def)
  have "distinct (seed_endpoints (topo_state tc))" using inv(1) by (simp add: state_inv_def)
  then have "\<exists>rest. endpoints tc = seed_endpoints (topo_state tc) @ rest"
    using inv(2) by (simp add: rebuild_cache_def merged_endpoints_def dedupe_append)
  then show ?thesis
    using inv(2)
    by (auto simp: rebuild_cache_def snapshot_def Let_def set_merged set_flatten merged_endpoints_def
        case_prod_unfold)
qed

theorem endpoints_coherent_witness:
  "distinct (endpoints (record_node_endpoint [1] [7] (topology_new [[5], [7], [5]])))"
  using endpoints_coherent [OF topology_reachable.step [OF topology_reachable.start topology_step.node_endpoint]]
  by blast

text \<open>The rotation over endpoints is a round robin. In every reachable state with endpoints the
  index after an endpoint is that of the next one, and after the last one the first; an unknown
  address starts over at the first; the index is always one of the list.\<close>

theorem next_index_round_robin:
  assumes "topology_reachable tc" and "endpoints tc \<noteq> []"
  shows "next_index_after a tc < endpoint_count tc \<and>
    (a \<notin> set (endpoints tc) \<longrightarrow> next_index_after a tc = 0) \<and>
    (i < endpoint_count tc \<longrightarrow> next_index_after (endpoints tc ! i) tc = (i + 1) mod endpoint_count tc)"
proof -
  have "distinct (endpoints tc)"
    using topology_reachable_inv [OF assms(1)]
    by (simp add: topology_inv_def endpoints_def rebuild_cache_def merged_endpoints_def)
  with assms(2) show ?thesis
    by (auto simp: next_index_after_def Let_def endpoint_count_def position_of_nth position_of_None
        split: option.split dest: position_of_Some)
qed

theorem next_index_round_robin_witness:
  "next_index_after [6] (topology_new [[5], [6]]) = 0"
  using next_index_round_robin [OF topology_reachable.start, of "[[5], [6]]" "[6]" 1]
  by (simp add: endpoints_def topology_new_def Let_def dedupe_def endpoint_count_def)

text \<open>A discovery update does what it announces, for any lists of added and removed nodes: a removed
  node is gone from the endpoints, the node ids and the current data centre even if it was added in
  the same update; an added one has the endpoints of its last announcement; every other node keeps
  its endpoints; the seeds stay, and the version is the announced one, so that this version asks for
  no further refresh.\<close>

theorem discovery_update_spec:
  fixes tc :: topology_cache and v :: topology_version
    and added :: "discovered_node list" and removed :: "rstring list"
  defines "tc' \<equiv> apply_discovery_update v added removed tc"
  shows "map_of (discovered_nodes (topo_state tc')) k =
      (if k \<in> set removed then None
       else case List.find (\<lambda>n. node_id n = k) (rev added) of
         Some n \<Rightarrow> Some (dedupe (node_endpoints n)) | None \<Rightarrow> map_of (discovered_nodes (topo_state tc)) k) \<and>
    set (node_ids (topo_state tc')) = set (node_ids (topo_state tc)) \<union> node_id ` set added - set removed \<and>
    set (current_dc_nodes tc') = set (current_dc_nodes tc) - set removed \<and>
    current_topology_version tc' = Some v \<and>
    (topology_needs_refresh w tc' \<longleftrightarrow> v < w)"
  unfolding tc'_def
  by (simp add: apply_discovery_update_def Let_def refresh_cache_from_def removes_lookup adds_lookup
      removes_ids adds_ids adds_frame current_dc_nodes_def current_topology_version_def
      topology_needs_refresh_def)

text \<open>Replacing the seeds returns exactly the seeds that are no longer there, each once and in their
  order, and the endpoints of the discovered nodes survive the replacement.\<close>

theorem replace_seeds_spec:
  assumes "topology_reachable tc" and "replace_seed_endpoints seeds tc = (removed, tc')"
  shows "set removed = set (seed_endpoints (topo_state tc)) - set seeds \<and> distinct removed \<and>
    set (endpoints tc') = set seeds \<union> (\<Union>(n, es) \<in> set (discovered_nodes (topo_state tc)). set es)"
proof -
  have "distinct (seed_endpoints (topo_state tc))"
    using topology_reachable_inv [OF assms(1)] by (simp add: topology_inv_def state_inv_def)
  moreover have "removed = filter (\<lambda>e. e \<notin> set seeds) (seed_endpoints (topo_state tc))"
    and "endpoints tc' = rebuild_cache ((topo_state tc)\<lparr>seed_endpoints := dedupe seeds\<rparr>)"
    using assms(2)
    by (auto simp: replace_seed_endpoints_def Let_def list_ex_iff refresh_cache_from_def endpoints_def)
  ultimately show ?thesis
    by (auto simp: rebuild_cache_def set_merged set_flatten case_prod_unfold)
qed

theorem replace_seeds_spec_witness:
  "set (fst (replace_seed_endpoints [[6]] (topology_new [[5], [6]]))) = {[5]}"
  using replace_seeds_spec [OF topology_reachable.start, of "[[6]]" "[[5], [6]]" "[[5]]"]
  by (simp add: replace_seed_endpoints_def Let_def topology_new_def dedupe_def)

end
