(* ===== verification/Affinity.thy ===== *)
theory Affinity
  imports ObjectRoundTrip Topology "HOL-Library.AList"
begin

text \<open>
  Partition awareness, \<open>ignite-rs/src/affinity.rs\<close>: the \<open>CACHE_PARTITIONS\<close> request and response, the
  cached partition maps, and the route from a marshaled key to a node. \<open>read_uuid_string\<close> is
  from \<open>connection_async.rs\<close>.

  A \<open>HashMap\<close> is an association list with distinct keys; its order is never observed. The cache is
  published by an atomic pointer swap, and every operation below works on one loaded snapshot, so an
  operation is a function of the state it loads.
\<close>

section \<open>Request\<close>

record cache_partitions_request =
  all_affinity_mappings :: bool
  custom_mappings_required :: bool
  include_dc_id :: bool
  dc_id :: "rstring option"
  cache_ids :: "i32 list"

definition partitions_request_write :: "cache_partitions_request \<Rightarrow> bytes" where
  "partitions_request_write self =
    (if all_affinity_mappings self then write_bool (custom_mappings_required self) else []) @
    (if include_dc_id self
     then (case dc_id self of Some d \<Rightarrow> write_string d | None \<Rightarrow> write_i32 (- 1)) else []) @
    write_i32 (i32_of_usize (length (cache_ids self))) @
    concat (map write_i32 (cache_ids self))"

definition partitions_request_size :: "cache_partitions_request \<Rightarrow> nat" where
  "partitions_request_size self =
    (if all_affinity_mappings self then 1 else 0) +
    (if include_dc_id self then 4 + (case dc_id self of Some d \<Rightarrow> str_len d | None \<Rightarrow> 0) else 0) +
    4 + length (cache_ids self) * 4"

section \<open>Node ids\<close>

definition HEX :: rstring where
  "HEX = rstr ''0123456789abcdef''"

text \<open>The hex digits of the low \<open>n\<close> nibbles of a word, most significant first.\<close>

definition write_hex :: "nat \<Rightarrow> u64 \<Rightarrow> rstring" where
  "write_hex n v = map (\<lambda>i. HEX ! unat (drop_bit (4 * i) v AND 0xf)) (rev [0..<n])"

definition write_hex_u32 :: "u32 \<Rightarrow> rstring" where
  "write_hex_u32 v = write_hex 8 (ucast v)"

definition write_hex_u16 :: "u16 \<Rightarrow> rstring" where
  "write_hex_u16 v = write_hex 4 (ucast v)"

definition write_hex_u48 :: "u64 \<Rightarrow> rstring" where
  "write_hex_u48 v = write_hex 12 v"

definition dash :: rstring where
  "dash = rstr ''-''"

definition uuid_string :: "u64 \<Rightarrow> u64 \<Rightarrow> rstring" where
  "uuid_string most least =
    write_hex_u32 (ucast (drop_bit 32 most)) @ dash @
    write_hex_u16 (ucast (drop_bit 16 most AND 0xffff)) @ dash @
    write_hex_u16 (ucast (most AND 0xffff)) @ dash @
    write_hex_u16 (ucast (drop_bit 48 least)) @ dash @
    write_hex_u48 (least AND 0x0000ffffffffffff)"

definition read_uuid_string :: "rstring reader" where
  "read_uuid_string = rbind read_i64 (\<lambda>most. rbind read_i64 (\<lambda>least. ret (uuid_string most least)))"

section \<open>Response\<close>

definition MAX_AFFINITY_NODE_COUNT :: int where "MAX_AFFINITY_NODE_COUNT = 4096"
definition MAX_AFFINITY_PARTITIONS_PER_NODE :: int where "MAX_AFFINITY_PARTITIONS_PER_NODE = 65536"
definition MAX_AFFINITY_PARTITION_ID :: int where "MAX_AFFINITY_PARTITION_ID = 65535"

type_synonym partition_map = "rstring option list"

record cache_affinity_map =
  primary_partition_to_node :: partition_map
  dc_partition_to_node :: partition_map
  key_field_mapping_present :: bool

type_synonym affinity_caches = "(i32 \<times> cache_affinity_map) list"

definition vec_resize :: "nat \<Rightarrow> partition_map \<Rightarrow> partition_map" where
  "vec_resize n xs = take n xs @ replicate (n - length xs) None"

definition assign_partition :: "rstring \<Rightarrow> nat \<Rightarrow> partition_map \<Rightarrow> partition_map" where
  "assign_partition nid part m =
    (let m' = (if length m \<le> part then vec_resize (part + 1) m else m)
     in m'[part := Some nid])"

primrec read_node_partitions :: "nat \<Rightarrow> rstring \<Rightarrow> partition_map \<Rightarrow> partition_map reader" where
  "read_node_partitions 0 nid m = ret m"
| "read_node_partitions (Suc n) nid m = rbind read_i32 (\<lambda>partition.
     if sint partition < 0 then fail (Ignite ''negative affinity partition id'')
     else if MAX_AFFINITY_PARTITION_ID < sint partition
     then fail (Ignite ''affinity partition id exceeds sanity limit'')
     else read_node_partitions n nid (assign_partition nid (usize_of_i32 partition) m))"

primrec read_partition_nodes :: "nat \<Rightarrow> partition_map \<Rightarrow> partition_map reader" where
  "read_partition_nodes 0 m = ret m"
| "read_partition_nodes (Suc n) m = rbind read_uuid_string (\<lambda>nid. rbind read_i32 (\<lambda>part_count.
     if sint part_count < 0 then fail (Ignite ''negative affinity partition count'')
     else if MAX_AFFINITY_PARTITIONS_PER_NODE < sint part_count
     then fail (Ignite ''affinity partition count exceeds sanity limit'')
     else rbind (read_node_partitions (i32_range part_count) nid m) (read_partition_nodes n)))"

definition read_partition_map :: "partition_map reader" where
  "read_partition_map = rbind read_i32 (\<lambda>node_count.
     if sint node_count < 0 then fail (Ignite ''negative affinity node count'')
     else if MAX_AFFINITY_NODE_COUNT < sint node_count
     then fail (Ignite ''affinity node count exceeds sanity limit'')
     else read_partition_nodes (i32_range node_count) [])"

text \<open>The caches of an applicable group: their ids, and whether one has a key configuration.\<close>

primrec read_group_caches :: "nat \<Rightarrow> i32 list \<times> bool \<Rightarrow> (i32 list \<times> bool) reader" where
  "read_group_caches 0 acc = ret acc"
| "read_group_caches (Suc n) acc = rbind read_i32 (\<lambda>cache_id. rbind read_i32 (\<lambda>key_cfg_count.
     if sint key_cfg_count < 0 then fail (Ignite ''negative affinity key config count'')
     else rbind (repeat_read (i32_range key_cfg_count) (rbind read_i32 (\<lambda>_. read_i32))) (\<lambda>_.
       read_group_caches n (fst acc @ [cache_id], snd acc \<or> 0 < sint key_cfg_count))))"

definition insert_all :: "i32 list \<Rightarrow> cache_affinity_map \<Rightarrow> affinity_caches \<Rightarrow> affinity_caches" where
  "insert_all ids m caches = foldl (\<lambda>c i. AList.update i m c) caches ids"

definition read_mapping :: "bool \<Rightarrow> bool \<Rightarrow> affinity_caches \<Rightarrow> affinity_caches reader" where
  "read_mapping dc_aware all_mappings caches =
    rbind read_bool (\<lambda>applicable. rbind read_i32 (\<lambda>cache_count.
      if sint cache_count < 0 then fail (Ignite ''negative affinity cache count'')
      else if applicable then
        rbind (read_group_caches (i32_range cache_count) ([], False)) (\<lambda>(ids, key_mapping).
        rbind read_partition_map (\<lambda>primary.
        rbind (if dc_aware then rmap (\<lambda>dc. if dc = [] then primary else dc) read_partition_map
               else ret primary) (\<lambda>dc.
        rbind (if all_mappings then rmap (\<lambda>_. ()) read_bool else ret ()) (\<lambda>_.
          ret (insert_all ids \<lparr>primary_partition_to_node = primary, dc_partition_to_node = dc,
                 key_field_mapping_present = key_mapping\<rparr> caches)))))
      else
        rbind (repeat_read (i32_range cache_count) read_i32) (\<lambda>ids.
          ret (insert_all ids \<lparr>primary_partition_to_node = [], dc_partition_to_node = [],
                 key_field_mapping_present = True\<rparr> caches))))"

primrec read_mappings :: "nat \<Rightarrow> bool \<Rightarrow> bool \<Rightarrow> affinity_caches \<Rightarrow> affinity_caches reader" where
  "read_mappings 0 dc_aware all_mappings caches = ret caches"
| "read_mappings (Suc n) dc_aware all_mappings caches =
     rbind (read_mapping dc_aware all_mappings caches) (read_mappings n dc_aware all_mappings)"

record cache_partitions_response =
  response_version :: topology_version
  response_caches :: affinity_caches

definition read_with_flags :: "bool \<Rightarrow> bool \<Rightarrow> cache_partitions_response reader" where
  "read_with_flags dc_aware all_mappings =
    rbind read_i64 (\<lambda>maj. rbind read_i32 (\<lambda>mnr. rbind read_i32 (\<lambda>mappings_count.
      if sint mappings_count < 0 then fail (Ignite ''negative affinity mappings count'')
      else rmap (\<lambda>caches. \<lparr>response_version = TopologyVersion maj mnr, response_caches = caches\<rparr>)
             (read_mappings (i32_range mappings_count) dc_aware all_mappings []))))"

definition read_with_dc_aware :: "bool \<Rightarrow> cache_partitions_response reader" where
  "read_with_dc_aware dc_aware = read_with_flags dc_aware False"

section \<open>Hash of a marshaled key\<close>

definition long_hash :: "i64 \<Rightarrow> i32" where
  "long_hash value = ucast (value XOR drop_bit 32 value)"

text \<open>\<open>31 * result + hash(element)\<close> over the elements, in wrapping arithmetic; \<open>None\<close> when
  the input ends too soon.\<close>

primrec array_hash_loop :: "nat \<Rightarrow> i32 reader \<Rightarrow> i32 \<Rightarrow> i32 reader" where
  "array_hash_loop 0 rd result = ret result"
| "array_hash_loop (Suc n) rd result = rbind rd (\<lambda>h. array_hash_loop n rd (result * 31 + h))"

definition array_hash :: "i32 reader \<Rightarrow> bytes \<Rightarrow> i32 access" where
  "array_hash rd s = ok_access (rbind read_i32 (\<lambda>len. array_hash_loop (i32_range len) rd 1) s)"

definition bool_hash :: "bool \<Rightarrow> i32" where
  "bool_hash b = (if b then 1231 else 1237)"

definition affinity_hash_marshaled :: "bytes \<Rightarrow> i32 access" where
  "affinity_hash_marshaled bs = (case bs of
     [] \<Rightarrow> Returns None
   | b # reader \<Rightarrow> (case type_code_try_from b of
       None \<Rightarrow> Returns None
     | Some tc \<Rightarrow> (case tc of
         TcByte \<Rightarrow> access_map scast (ok_access (read_i8 reader))
       | TcShort \<Rightarrow> access_map scast (ok_access (read_i16 reader))
       | TcInt \<Rightarrow> ok_access (read_i32 reader)
       | TcLong \<Rightarrow> access_map long_hash (ok_access (read_i64 reader))
       | TcFloat \<Rightarrow> ok_access (read_i32 reader)
       | TcDouble \<Rightarrow> access_map long_hash (ok_access (read_i64 reader))
       | TcChar \<Rightarrow> access_map ucast (ok_access (read_u16 reader))
       | TcBool \<Rightarrow> access_map bool_hash (ok_access (read_bool reader))
       | TcString \<Rightarrow> access_map string_to_java_hashcode (ok_access (read_string reader))
       | TcArrByte \<Rightarrow> array_hash (rmap scast read_i8) reader
       | TcArrShort \<Rightarrow> array_hash (rmap scast read_i16) reader
       | TcArrInt \<Rightarrow> array_hash read_i32 reader
       | TcArrLong \<Rightarrow> array_hash (rmap long_hash read_i64) reader
       | TcArrChar \<Rightarrow> array_hash (rmap ucast read_u16) reader
       | TcArrBool \<Rightarrow> array_hash (rmap bool_hash read_bool) reader
       | TcComplexObj \<Rightarrow>
           (if length bs < 12 then Returns None else Returns (Some (word_of_nat (of_le (take 4 (drop 8 bs))))))
       | _ \<Rightarrow> Returns None)))"

section \<open>Rendezvous partition\<close>

text \<open>Rust's \<open>%\<close> takes the sign of the dividend; \<open>wrapping_abs\<close> keeps \<open>i32::MIN\<close>.\<close>

definition i32_rem :: "i32 \<Rightarrow> i32 \<Rightarrow> i32" where
  "i32_rem a b = word_of_int (sgn (sint a) * (\<bar>sint a\<bar> mod \<bar>sint b\<bar>))"

definition wrapping_abs :: "i32 \<Rightarrow> i32" where
  "wrapping_abs a = (if sint a < 0 then - a else a)"

definition rendezvous_partition :: "i32 \<Rightarrow> i32 \<Rightarrow> i32" where
  "rendezvous_partition key_hash partition_count =
    (let mask = (if partition_count AND (partition_count - 1) = 0 then partition_count - 1 else - 1)
     in if 0 \<le> sint mask then (key_hash XOR drop_bit 16 key_hash) AND mask
        else let a = wrapping_abs (i32_rem key_hash partition_count)
             in if sint a < 0 then 0 else a)"

section \<open>The affinity cache\<close>

record affinity_state =
  aff_version :: "topology_version option"
  aff_caches :: affinity_caches
  single_node :: bool

record affinity_cache =
  aff_state :: affinity_state
  single_node_cached :: bool

definition affinity_new :: affinity_cache where
  "affinity_new = \<lparr>aff_state = \<lparr>aff_version = None, aff_caches = [], single_node = False\<rparr>,
     single_node_cached = False\<rparr>"

definition all_nodes :: "affinity_caches \<Rightarrow> rstring list" where
  "all_nodes caches = remdups (concat (map (\<lambda>(_, c).
     List.map_filter id (primary_partition_to_node c @ dc_partition_to_node c)) caches))"

definition affinity_store :: "affinity_state \<Rightarrow> affinity_cache \<Rightarrow> affinity_cache" where
  "affinity_store st self = self\<lparr>single_node_cached := single_node st, aff_state := st\<rparr>"

definition invalidate :: "affinity_cache \<Rightarrow> affinity_cache" where
  "invalidate self = affinity_store
     ((aff_state self)\<lparr>aff_version := None, aff_caches := [], single_node := False\<rparr>) self"

definition invalidate_cache :: "i32 \<Rightarrow> affinity_cache \<Rightarrow> affinity_cache" where
  "invalidate_cache cache_id self =
    (let caches = AList.delete cache_id (aff_caches (aff_state self))
     in affinity_store ((aff_state self)\<lparr>aff_caches := caches,
          single_node := length (all_nodes caches) \<le> 1 \<and> caches \<noteq> []\<rparr>) self)"

definition affinity_needs_refresh :: "i32 \<Rightarrow> affinity_cache \<Rightarrow> bool" where
  "affinity_needs_refresh cache_id self \<longleftrightarrow>
    aff_version (aff_state self) = None \<or> map_of (aff_caches (aff_state self)) cache_id = None"

definition is_single_node :: "affinity_cache \<Rightarrow> bool" where
  "is_single_node self = single_node_cached self"

text \<open>\<open>HashMap::extend\<close>.\<close>

definition map_extend :: "affinity_caches \<Rightarrow> affinity_caches \<Rightarrow> affinity_caches" where
  "map_extend m news = foldl (\<lambda>c (k, v). AList.update k v c) m news"

definition affinity_apply :: "topology_version \<Rightarrow> affinity_caches \<Rightarrow> affinity_cache \<Rightarrow> affinity_cache" where
  "affinity_apply version news self =
    (let caches = map_extend (aff_caches (aff_state self)) news
     in affinity_store ((aff_state self)\<lparr>aff_version := Some version, aff_caches := caches,
          single_node := length (all_nodes caches) \<le> 1\<rparr>) self)"

text \<open>\<open>mapping.get(i).and_then(clone)\<close>.\<close>

definition partition_get :: "partition_map \<Rightarrow> i32 \<Rightarrow> rstring option" where
  "partition_get m p = (let i = usize_of_i32 p in if i < length m then m ! i else None)"

definition node_for_partition :: "affinity_cache \<Rightarrow> i32 \<Rightarrow> i32 \<Rightarrow> bool \<Rightarrow> rstring option" where
  "node_for_partition self cache_id part primary =
    (if sint part < 0 then None
     else case map_of (aff_caches (aff_state self)) cache_id of
       None \<Rightarrow> None
     | Some cache \<Rightarrow> partition_get (if primary then primary_partition_to_node cache
                                    else dc_partition_to_node cache) part)"

definition resolve_node_for_key :: "affinity_cache \<Rightarrow> i32 \<Rightarrow> bytes \<Rightarrow> bool \<Rightarrow> rstring access" where
  "resolve_node_for_key self cache_id marshaled_key primary =
    (if aff_version (aff_state self) = None \<or> map_of (aff_caches (aff_state self)) cache_id = None then Returns None
     else case map_of (aff_caches (aff_state self)) cache_id of
       None \<Rightarrow> Returns None
     | Some cache \<Rightarrow>
         if key_field_mapping_present cache then Returns None
         else let partition_count = i32_of_usize (length (primary_partition_to_node cache))
              in if sint partition_count \<le> 0 then Returns None
                 else access_bind (affinity_hash_marshaled marshaled_key) (\<lambda>key_hash.
              Returns (partition_get (if primary then primary_partition_to_node cache
                                      else dc_partition_to_node cache)
                         (rendezvous_partition key_hash partition_count))))"

definition node_for_marshaled_key :: "affinity_cache \<Rightarrow> i32 \<Rightarrow> bytes \<Rightarrow> bool \<Rightarrow> rstring access" where
  "node_for_marshaled_key self cache_id marshaled_key primary =
    (case map_of (aff_caches (aff_state self)) cache_id of
       None \<Rightarrow> Returns None
     | Some cache \<Rightarrow>
         let partition_count = i32_of_usize (length (primary_partition_to_node cache))
         in if key_field_mapping_present cache \<or> sint partition_count \<le> 0 then Returns None
            else access_bind (affinity_hash_marshaled marshaled_key) (\<lambda>key_hash.
              Returns (partition_get (if primary then primary_partition_to_node cache
                                      else dc_partition_to_node cache)
                         (rendezvous_partition key_hash partition_count))))"

section \<open>The request announces its size\<close>

lemma length_concat_i32: "length (concat (map write_i32 xs)) = 4 * length xs"
  by (rule i32.length_concat_enc)

lemma partitions_request_length: "length (partitions_request_write r) = partitions_request_size r"
  by (simp add: partitions_request_write_def partitions_request_size_def length_concat_i32 split: option.split)

section \<open>Partition numbers\<close>

lemma uint_of_nonneg: "0 \<le> sint (x :: i32) \<Longrightarrow> uint x = sint x"
  using uint_sint [of x] sint_less [of x] by (simp add: take_bit_eq_mod)

lemma sint_word_of_int: "- (2 ^ 31) \<le> k \<Longrightarrow> k < 2 ^ 31 \<Longrightarrow> sint (word_of_int k :: i32) = k"
  by (simp add: signed_of_int signed_take_bit_int_eq_self_iff)

lemma sint_of_small: "uint (x :: i32) < 2 ^ 31 \<Longrightarrow> sint x = uint x"
proof -
  have "- (2 ^ 31) \<le> uint x" by (rule order_trans [OF _ unsigned_greater_eq]) simp
  moreover assume "uint x < 2 ^ 31"
  ultimately show ?thesis using sint_word_of_int [of "uint x"] by simp
qed

lemma and_mask_range:
  fixes x m :: i32
  assumes "0 \<le> sint m"
  shows "0 \<le> sint (x AND m) \<and> sint (x AND m) \<le> sint m"
proof -
  have "uint (x AND m) \<le> uint m"
    by (simp add: unsigned_and_eq AND_upper2)
  then have "uint (x AND m) \<le> sint m" using uint_of_nonneg [OF assms] by simp
  moreover have "sint m < 2 ^ 31" using sint_less [of m] by simp
  ultimately show ?thesis using sint_of_small [of "x AND m"] by simp
qed

lemma wrapping_abs_rem:
  assumes "0 < sint b"
  shows "sint (wrapping_abs (i32_rem a b)) = \<bar>sint a\<bar> mod sint b"
proof -
  define r where "r = sgn (sint a) * (\<bar>sint a\<bar> mod \<bar>sint b\<bar>)"
  have b: "sint b < 2 ^ 31" using sint_less [of b] by simp
  have m: "0 \<le> \<bar>sint a\<bar> mod \<bar>sint b\<bar>" "\<bar>sint a\<bar> mod \<bar>sint b\<bar> < sint b"
    using assms pos_mod_sign [of "sint b"] pos_mod_bound [of "sint b"] by simp_all
  then have r: "- sint b < r" "r < sint b"
    unfolding r_def by (cases "sint a = 0"; cases "sint a < 0"; simp add: sgn_if)+
  have sr: "sint (i32_rem a b) = r"
    unfolding i32_rem_def r_def [symmetric] by (rule sint_word_of_int) (use r b in simp_all)
  have "i32_rem a b = word_of_int r" by (simp add: i32_rem_def r_def)
  then have "- i32_rem a b = word_of_int (- r)" by simp
  then have "sint (- i32_rem a b) = - r" using sint_word_of_int [of "- r"] r b by simp
  then have "sint (wrapping_abs (i32_rem a b)) = \<bar>r\<bar>" using sr by (simp add: wrapping_abs_def)
  moreover have "\<bar>r\<bar> = \<bar>sint a\<bar> mod sint b" using assms m(1) by (cases "sint a = 0") (simp_all add: r_def abs_mult)
  ultimately show ?thesis by simp
qed

lemma sint_pred:
  assumes "0 < sint (n :: i32)"
  shows "sint (n - 1) = sint n - 1"
proof -
  have "n - 1 = word_of_int (sint n - 1)" by simp
  then show ?thesis using assms sint_less [of n] sint_word_of_int [of "sint n - 1"] by simp
qed

lemma rendezvous_range:
  assumes "0 < sint n"
  shows "0 \<le> sint (rendezvous_partition h n) \<and> sint (rendezvous_partition h n) < sint n"
  using and_mask_range [of "n - 1" "h XOR drop_bit 16 h"] wrapping_abs_rem [OF assms, of h]
    pos_mod_bound [OF assms, of "\<bar>sint h\<bar>"] sint_pred [OF assms] assms
  by (auto simp: rendezvous_partition_def Let_def)

lemma and_pred_power: "0 < n \<Longrightarrow> n AND (n - 1) = (0 :: nat) \<Longrightarrow> \<exists>k. n = 2 ^ k"
proof (induction n rule: less_induct)
  case (less n)
  show ?case
  proof (cases "even n")
    case True
    then obtain m where m: "n = 2 * m" "0 < m" using less.prems(1) by auto
    then have "(n - 1) div 2 = m - 1" by linarith
    then have "n AND (n - 1) = 2 * (m AND (m - 1))" using and_nat_rec [of n "n - 1"] m(1) by simp
    then have "m AND (m - 1) = 0" using less.prems(2) by simp
    with less.IH [of m] m obtain k where "m = 2 ^ k" by auto
    then show ?thesis using m by (metis power_Suc)
  next
    case False
    then obtain m where m: "n = 2 * m + 1" by (elim oddE)
    then have "n AND (n - 1) = 2 * m" using and_nat_rec [of n "n - 1"] by simp
    then show ?thesis using less.prems(2) m by (metis add_0 mult_is_0 power_0)
  qed
qed

lemma rendezvous_not_power:
  assumes "0 < sint n" and "\<And>k. sint n \<noteq> 2 ^ k"
  shows "sint (rendezvous_partition h n) = \<bar>sint h\<bar> mod sint n"
proof -
  have n: "int (unat n) = sint n" using uint_of_nonneg [of n] assms(1) by simp
  have "n AND (n - 1) \<noteq> 0"
  proof
    assume "n AND (n - 1) = 0"
    then have "unat (n AND (n - 1)) = 0" by simp
    moreover have "unat (n - 1) = unat n - 1" using assms(1) by (intro unat_minus_one) auto
    ultimately have "unat n AND (unat n - 1) = 0" by (simp add: unsigned_and_eq)
    then obtain k where "unat n = 2 ^ k" using and_pred_power [of "unat n"] n assms(1) by auto
    then show False using assms(2) [of k] n by simp
  qed
  moreover have "0 \<le> \<bar>sint h\<bar> mod sint n" using assms(1) by simp
  ultimately show ?thesis using wrapping_abs_rem [OF assms(1), of h] by (simp add: rendezvous_partition_def Let_def)
qed

lemma rendezvous_power:
  assumes "sint n = 2 ^ k"
  shows "sint (rendezvous_partition h n) = uint (h XOR drop_bit 16 h) mod 2 ^ k"
proof -
  let ?x = "h XOR drop_bit 16 h"
  have "(2 :: int) ^ k < 2 ^ 31" using sint_less [of n] assms by simp
  then have k: "k < 31" by (rule power_less_imp_less_exp [rotated]) simp
  have "word_of_int (sint n) = n" by simp
  then have "n = word_of_int (2 ^ k)" unfolding assms by simp
  then have m: "n - 1 = mask k" "n AND mask k = 0"
    by (simp add: mask_eq_exp_minus_1)
      (auto simp: \<open>n = word_of_int (2 ^ k)\<close> bit_and_iff bit_mask_iff bit_exp_iff intro!: bit_eqI)
  have "uint (?x AND mask k) = take_bit k (uint ?x)"
    by (simp only: take_bit_eq_mask [symmetric] unsigned_take_bit_eq)
  then have "uint (?x AND mask k) = uint ?x mod 2 ^ k"
    by (simp only: take_bit_eq_mod)
  moreover have "uint ?x mod 2 ^ k < 2 ^ 31"
    by (rule order.strict_trans [OF pos_mod_bound \<open>2 ^ k < 2 ^ 31\<close>]) simp
  ultimately have x: "sint (?x AND mask k) = uint ?x mod 2 ^ k" using sint_of_small by simp
  have "0 \<le> sint (mask k :: i32)"
    using sint_pred [of n] assms m(1) by simp
  then show ?thesis by (simp add: rendezvous_partition_def Let_def m x)
qed

section \<open>What a response can hold\<close>

lemma length_vec_resize: "length (vec_resize n m) = n"
  by (simp add: vec_resize_def)

lemma assign_partition_length: "length (assign_partition n p m) = max (length m) (Suc p)"
  by (simp add: assign_partition_def Let_def length_vec_resize)

lemma assign_partition_get:
  "i < length (assign_partition n p m) \<Longrightarrow>
    assign_partition n p m ! i = (if i = p then Some n else if i < length m then m ! i else None)"
  by (auto simp: assign_partition_def Let_def vec_resize_def nth_append nth_list_update)

definition sane_map :: "partition_map \<Rightarrow> bool" where
  "sane_map m \<longleftrightarrow> length m \<le> 65536"

lemma read_node_partitions_sane:
  "read_node_partitions n node m s = Ok m' s' \<Longrightarrow> sane_map m \<Longrightarrow> sane_map m'"
proof (induction n arbitrary: m s)
  case (Suc n)
  then obtain p t where p: "read_i32 s = Ok p t" "0 \<le> sint p" "sint p \<le> MAX_AFFINITY_PARTITION_ID"
    and rest: "read_node_partitions n node (assign_partition node (usize_of_i32 p) m) t = Ok m' s'"
    by (auto simp: rbind_eq_Ok split: if_splits)
  have "usize_of_i32 p \<le> 65535"
    using p by (simp add: usize_of_i32_nonneg MAX_AFFINITY_PARTITION_ID_def)
  then have "sane_map (assign_partition node (usize_of_i32 p) m)"
    using Suc.prems(2) by (simp add: sane_map_def assign_partition_length)
  with Suc.IH [OF rest] show ?case by simp
qed simp

lemma read_partition_nodes_sane:
  "read_partition_nodes n m s = Ok m' s' \<Longrightarrow> sane_map m \<Longrightarrow> sane_map m'"
  by (induction n arbitrary: m s)
    (auto simp: rbind_eq_Ok split: if_splits dest: read_node_partitions_sane)

lemma read_partition_map_sane: "read_partition_map s = Ok m s' \<Longrightarrow> sane_map m"
  unfolding read_partition_map_def
  by (auto simp: rbind_eq_Ok sane_map_def split: if_splits dest: read_partition_nodes_sane [of _ "[]"])

definition sane_cache :: "cache_affinity_map \<Rightarrow> bool" where
  "sane_cache c \<longleftrightarrow> sane_map (primary_partition_to_node c) \<and> sane_map (dc_partition_to_node c)"

definition sane_caches :: "affinity_caches \<Rightarrow> bool" where
  "sane_caches cs \<longleftrightarrow> distinct (map fst cs) \<and> (\<forall>c \<in> snd ` set cs. sane_cache c)"

lemma set_update_subset: "set (AList.update k c cs) \<subseteq> insert (k, c) (set cs)"
  by (induction cs) auto

lemma sane_update: "sane_caches cs \<Longrightarrow> sane_cache c \<Longrightarrow> sane_caches (AList.update k c cs)"
  using set_update_subset [of k c cs] by (fastforce simp: sane_caches_def distinct_update)

lemma sane_Nil: "sane_caches []"
  by (simp add: sane_caches_def)

lemma sane_insert_all: "sane_caches cs \<Longrightarrow> sane_cache c \<Longrightarrow> sane_caches (insert_all ids c cs)"
  unfolding insert_all_def by (induction ids arbitrary: cs) (simp_all add: sane_update)

lemma read_mapping_sane:
  "read_mapping dc al cs s = Ok cs' s' \<Longrightarrow> sane_caches cs \<Longrightarrow> sane_caches cs'"
  unfolding read_mapping_def
  by (auto simp: rbind_eq_Ok rmap_def split: if_splits intro!: sane_insert_all
      dest!: read_partition_map_sane) (simp_all add: sane_cache_def sane_map_def)

lemma read_mappings_sane:
  "read_mappings n dc al cs s = Ok cs' s' \<Longrightarrow> sane_caches cs \<Longrightarrow> sane_caches cs'"
  by (induction n arbitrary: cs s) (auto simp: rbind_eq_Ok dest: read_mapping_sane)

lemma read_with_flags_sane: "read_with_flags dc al s = Ok r s' \<Longrightarrow> sane_caches (response_caches r)"
  unfolding read_with_flags_def
  by (auto simp: rbind_eq_Ok rmap_def split: if_splits dest: read_mappings_sane [OF _ sane_Nil])

section \<open>Reachable caches\<close>

text \<open>The states an affinity cache goes through: a response read from the wire is applied, one cache or
  all are invalidated.\<close>

inductive affinity_reachable :: "affinity_cache \<Rightarrow> bool" where
  new: "affinity_reachable affinity_new"
| apply_response: "affinity_reachable ac \<Longrightarrow> read_with_flags dc al s = Ok r s' \<Longrightarrow>
    affinity_reachable (affinity_apply (response_version r) (response_caches r) ac)"
| invalidate: "affinity_reachable ac \<Longrightarrow> affinity_reachable (invalidate ac)"
| invalidate_cache: "affinity_reachable ac \<Longrightarrow> affinity_reachable (invalidate_cache cache_id ac)"

definition affinity_inv :: "affinity_cache \<Rightarrow> bool" where
  "affinity_inv ac \<longleftrightarrow>
    single_node_cached ac = single_node (aff_state ac) \<and>
    (aff_version (aff_state ac) = None \<longrightarrow> aff_caches (aff_state ac) = []) \<and>
    sane_caches (aff_caches (aff_state ac)) \<and>
    (single_node (aff_state ac) \<longrightarrow> length (all_nodes (aff_caches (aff_state ac))) \<le> 1)"

lemma inv_new: "affinity_inv affinity_new"
  by (simp add: affinity_inv_def affinity_new_def sane_caches_def)

lemma inv_invalidate: "affinity_inv ac \<Longrightarrow> affinity_inv (invalidate ac)"
  by (simp add: affinity_inv_def invalidate_def affinity_store_def sane_caches_def)

lemma sane_delete: "sane_caches cs \<Longrightarrow> sane_caches (AList.delete k cs)"
  by (auto simp: sane_caches_def AList.delete_eq distinct_map_filter)

lemma inv_invalidate_cache: "affinity_inv ac \<Longrightarrow> affinity_inv (invalidate_cache k ac)"
  by (auto simp: affinity_inv_def invalidate_cache_def affinity_store_def Let_def sane_delete)

lemma sane_map_extend: "sane_caches cs \<Longrightarrow> sane_caches news \<Longrightarrow> sane_caches (map_extend cs news)"
proof -
  have "sane_caches cs \<Longrightarrow> \<forall>c \<in> snd ` set news. sane_cache c \<Longrightarrow> sane_caches (map_extend cs news)"
    unfolding map_extend_def
    by (induction news arbitrary: cs) (auto simp: sane_update)
  then show "sane_caches cs \<Longrightarrow> sane_caches news \<Longrightarrow> sane_caches (map_extend cs news)"
    by (simp add: sane_caches_def)
qed

lemma inv_apply: "affinity_inv ac \<Longrightarrow> sane_caches news \<Longrightarrow> affinity_inv (affinity_apply v news ac)"
  by (simp add: affinity_inv_def affinity_apply_def affinity_store_def Let_def sane_map_extend)

lemma affinity_reachable_inv: "affinity_reachable ac \<Longrightarrow> affinity_inv ac"
  by (induction rule: affinity_reachable.induct)
    (simp_all add: inv_new inv_apply read_with_flags_sane inv_invalidate inv_invalidate_cache)

lemma map_extend_lookup:
  "map_of (map_extend cs news) k = (case map_of (rev news) k of None \<Rightarrow> map_of cs k | Some c \<Rightarrow> Some c)"
proof -
  have "map_of (map_extend cs news) = map_of cs ++ map_of (rev news)"
    unfolding map_extend_def
    by (induction news arbitrary: cs) (auto simp: AList.update_conv' map_add_def fun_eq_iff split: option.split)
  then show ?thesis by (simp add: map_add_def split: option.split)
qed

section \<open>No response makes the client panic\<close>

definition calm :: "'a reader \<Rightarrow> bool" where
  "calm m \<longleftrightarrow> (\<forall>s. m s \<noteq> Panic \<and> m s \<noteq> NoFuel)"

named_theorems calm_intros

lemma calm_prims [calm_intros]: "calm (ret x)" "calm (fail e)" "calm (read_exact n)"
  by (simp_all add: calm_def read_exact_def)

lemma calm_rbind [calm_intros]: "calm m \<Longrightarrow> (\<And>x. calm (f x)) \<Longrightarrow> calm (rbind m f)"
  by (simp add: calm_def rbind_def split: outcome.split)

lemma calm_rmap [calm_intros]: "calm m \<Longrightarrow> calm (rmap f m)"
  unfolding rmap_def by (intro calm_intros)

lemma calm_repeat [calm_intros]: "calm r \<Longrightarrow> calm (repeat_read n r)"
  by (induction n) (auto intro!: calm_intros)

lemma calm_if [calm_intros]: "calm a \<Longrightarrow> calm b \<Longrightarrow> calm (if c then a else b)"
  by simp

lemma calm_reads [calm_intros]: "calm read_i32" "calm read_i64" "calm read_bool" "calm read_uuid_string"
  unfolding read_i32_def read_i64_def read_bool_def read_uuid_string_def read_le_def
  by (intro calm_intros)+

lemma calm_read_node_partitions [calm_intros]: "calm (read_node_partitions n node m)"
proof (induction n arbitrary: m)
  case (Suc n)
  show ?case unfolding read_node_partitions.simps by (intro calm_intros Suc.IH)
qed (simp add: calm_prims)

lemma calm_read_partition_nodes [calm_intros]: "calm (read_partition_nodes n m)"
proof (induction n arbitrary: m)
  case (Suc n)
  show ?case unfolding read_partition_nodes.simps by (intro calm_intros Suc.IH)
qed (simp add: calm_prims)

lemma calm_read_group_caches [calm_intros]: "calm (read_group_caches n acc)"
proof (induction n arbitrary: acc)
  case (Suc n)
  show ?case unfolding read_group_caches.simps by (intro calm_intros Suc.IH)
qed (simp add: calm_prims)

lemma calm_read_mapping [calm_intros]: "calm (read_mapping dc al cs)"
  unfolding read_mapping_def read_partition_map_def case_prod_unfold by (intro calm_intros)

lemma calm_read_mappings [calm_intros]: "calm (read_mappings n dc al cs)"
proof (induction n arbitrary: cs)
  case (Suc n)
  show ?case unfolding read_mappings.simps by (intro calm_intros Suc.IH)
qed (simp add: calm_prims)

section \<open>Properties\<close>

text \<open>A \<open>CACHE_PARTITIONS\<close> response cannot bring the client down: whatever the bytes, decoding ends
  with a response or an error, never with a panic, and in a response no cache has more than 65536
  partitions and no cache occurs twice.\<close>

theorem partitions_response_safe:
  "read_with_flags dc al s \<noteq> Panic \<and> read_with_flags dc al s \<noteq> NoFuel \<and>
   (case read_with_flags dc al s of
      Ok r s' \<Rightarrow> distinct (map fst (response_caches r)) \<and>
        list_all (\<lambda>(i, c). length (primary_partition_to_node c) \<le> 65536 \<and>
                            length (dc_partition_to_node c) \<le> 65536) (response_caches r)
    | _ \<Rightarrow> True)"
proof -
  have "calm (read_with_flags dc al)"
    unfolding read_with_flags_def by (intro calm_intros)
  then show ?thesis
    using read_with_flags_sane [of dc al s]
    by (auto simp: calm_def sane_caches_def sane_cache_def sane_map_def list_all_iff split: outcome.split)
      fastforce+
qed

text \<open>The partition of a key is a partition: for every hash and every positive partition count the
  result lies between zero and the count, also for \<open>i32::MIN\<close>, and when the count is a power of two it
  is the folded hash modulo the count.\<close>

theorem rendezvous_partition_range:
  assumes "0 < sint n"
  shows "0 \<le> sint (rendezvous_partition h n) \<and> sint (rendezvous_partition h n) < sint n \<and>
    (sint n = 2 ^ k \<longrightarrow> sint (rendezvous_partition h n) = uint (h XOR drop_bit 16 h) mod 2 ^ k)"
  using rendezvous_range [OF assms, of h] rendezvous_power [of n k h] by blast

theorem rendezvous_partition_range_witness:
  "0 \<le> sint (rendezvous_partition 0x80000000 1000) \<and> sint (rendezvous_partition 0x80000000 1000) < sint (1000 :: i32)"
  using rendezvous_partition_range [of 1000 "0x80000000" 0] by simp

lemma set_map_filter_id: "set (List.map_filter (\<lambda>x. x) xs) = {n. Some n \<in> set xs}"
  by (induction xs) (auto simp: List.map_filter_simps split: option.split)

lemma all_nodes_set:
  "set (all_nodes cs) = {n. \<exists>(i, c) \<in> set cs. Some n \<in> set (primary_partition_to_node c @ dc_partition_to_node c)}"
  by (force simp: all_nodes_def set_map_filter_id id_def)

lemma all_nodes_one:
  assumes "length (all_nodes cs) \<le> 1" and "n \<in> set (all_nodes cs)" and "n' \<in> set (all_nodes cs)"
  shows "n = n'"
  using assms by (cases "all_nodes cs") auto

lemma partition_get_mem: "partition_get m p = Some n \<Longrightarrow> Some n \<in> set m"
  by (auto simp: partition_get_def Let_def split: if_splits) (metis nth_mem)

lemma node_for_partition_mem:
  "node_for_partition ac i p b = Some n \<Longrightarrow> n \<in> set (all_nodes (aff_caches (aff_state ac)))"
  unfolding node_for_partition_def all_nodes_set
  by (auto split: if_splits option.splits dest!: map_of_SomeD partition_get_mem)

text \<open>The affinity cache stays consistent in every state it can reach by applying responses and
  invalidating: the published \<open>single_node\<close> flag is the one of the state, a state with no topology
  version holds no cache, and the single-node shortcut is sound: when \<open>is_single_node\<close> holds, any two
  lookups of a node, in any caches and partitions, primary or not, name the same node.\<close>

theorem single_node_sound:
  assumes "affinity_reachable ac"
  shows "is_single_node ac = single_node (aff_state ac) \<and>
    (aff_version (aff_state ac) = None \<longrightarrow> aff_caches (aff_state ac) = []) \<and>
    (is_single_node ac \<and> node_for_partition ac i p b = Some n \<and> node_for_partition ac i' p' b' = Some n'
      \<longrightarrow> n = n')"
proof -
  note inv = affinity_reachable_inv [OF assms]
  have "n = n'" if "is_single_node ac" "node_for_partition ac i p b = Some n" "node_for_partition ac i' p' b' = Some n'"
  proof (rule all_nodes_one)
    show "length (all_nodes (aff_caches (aff_state ac))) \<le> 1"
      using inv that(1) by (simp add: affinity_inv_def is_single_node_def)
  qed (use that node_for_partition_mem in blast)+
  with inv show ?thesis by (auto simp: affinity_inv_def is_single_node_def)
qed

theorem single_node_sound_witness:
  "is_single_node affinity_new = single_node (aff_state affinity_new)"
  using single_node_sound [OF affinity_reachable.new] by blast

text \<open>C4: Routing of a key. In every reachable state, for a cache with a partition map and no key
  configuration and a key whose hash can be computed, the partition is the one that the rendezvous
  function of the server gives the hash: the mixed bits modulo the number of partitions when that is a
  power of two, the absolute value of the hash modulo the number otherwise. It is an index of the map, so
  that the lookup never falls outside it, and the three lookups agree: the lock-free lookup, the lookup
  after a refresh and the lookup by partition name the same node.\<close>

theorem key_routing:
  assumes "affinity_reachable ac"
    and "map_of (aff_caches (aff_state ac)) i = Some c"
    and "\<not> key_field_mapping_present c" and "primary_partition_to_node c \<noteq> []"
    and "affinity_hash_marshaled key = Returns (Some h)"
  shows "\<exists>p. 0 \<le> sint p \<and> usize_of_i32 p < length (primary_partition_to_node c) \<and>
    (\<forall>k. length (primary_partition_to_node c) = 2 ^ k \<longrightarrow> sint p = uint (h XOR drop_bit 16 h) mod 2 ^ k) \<and>
    ((\<forall>k. length (primary_partition_to_node c) \<noteq> 2 ^ k) \<longrightarrow>
      sint p = \<bar>sint h\<bar> mod int (length (primary_partition_to_node c))) \<and>
    resolve_node_for_key ac i key True = Returns (primary_partition_to_node c ! usize_of_i32 p) \<and>
    resolve_node_for_key ac i key b = Returns (node_for_partition ac i p b) \<and>
    node_for_marshaled_key ac i key b = Returns (node_for_partition ac i p b)"
proof -
  let ?len = "length (primary_partition_to_node c)"
  let ?n = "i32_of_usize ?len"
  let ?p = "rendezvous_partition h ?n"
  note inv = affinity_reachable_inv [OF assms(1)]
  have "c \<in> snd ` set (aff_caches (aff_state ac))" using map_of_SomeD [OF assms(2)] by force
  then have "?len \<le> 65536"
    using inv by (auto simp: affinity_inv_def sane_caches_def sane_cache_def sane_map_def)
  then have n: "sint ?n = int ?len" by (simp add: sint_i32_of_usize)
  have pos: "0 < sint ?n" using assms(4) by (simp add: n)
  note range = rendezvous_range [OF pos, of h]
  then have idx: "usize_of_i32 ?p < ?len" using n by (simp add: usize_of_i32_nonneg nat_less_iff)
  obtain ver where ver: "aff_version (aff_state ac) = Some ver"
    using inv assms(2) by (cases "aff_version (aff_state ac)") (auto simp: affinity_inv_def)
  have "resolve_node_for_key ac i key b = Returns (node_for_partition ac i ?p b)" for b
    using assms(2,3,5) ver pos range
    by (simp add: resolve_node_for_key_def node_for_partition_def Let_def)
  moreover have "node_for_partition ac i ?p True = primary_partition_to_node c ! usize_of_i32 ?p"
    using assms(2) range idx by (simp add: node_for_partition_def partition_get_def Let_def)
  moreover have "node_for_marshaled_key ac i key b = Returns (node_for_partition ac i ?p b)"
    using assms(2,3,5) pos range
    by (simp add: node_for_marshaled_key_def node_for_partition_def Let_def)
  moreover have "sint ?p = uint (h XOR drop_bit 16 h) mod 2 ^ k" if "?len = 2 ^ k" for k
    using that n by (intro rendezvous_power) simp
  moreover have "sint ?p = \<bar>sint h\<bar> mod int ?len" if "\<And>k. ?len \<noteq> 2 ^ k"
    using rendezvous_not_power [OF pos, of h] that n by (metis of_nat_eq_iff of_nat_numeral of_nat_power)
  ultimately show ?thesis using range idx by (intro exI [of _ ?p]) simp
qed

text \<open>A response with one cache, 42, whose only partition is on one node.\<close>

definition sample_response :: bytes where
  "sample_response = write_i64 1 @ write_i32 0 @ write_i32 1 @ write_bool True @ write_i32 1 @
     write_i32 42 @ write_i32 0 @ write_i32 1 @ write_i64 1 @ write_i64 2 @ write_i32 1 @ write_i32 0"

definition sample_cache :: cache_affinity_map where
  "sample_cache = \<lparr>primary_partition_to_node = [Some (uuid_string 1 2)],
     dc_partition_to_node = [Some (uuid_string 1 2)], key_field_mapping_present = False\<rparr>"

lemma read_sample_response:
  "read_with_flags False False sample_response =
    Ok \<lparr>response_version = TopologyVersion 1 0, response_caches = [(42, sample_cache)]\<rparr> []"
  using i32.dec_enc_any [of 0 "[]"]
  by (simp add: sample_response_def read_with_flags_def rbind_Ok rmap_def read_mapping_def i32_range_def
      eval_nat_numeral read_partition_map_def MAX_AFFINITY_NODE_COUNT_def MAX_AFFINITY_PARTITIONS_PER_NODE_def
      MAX_AFFINITY_PARTITION_ID_def read_uuid_string_def insert_all_def assign_partition_def vec_resize_def
      usize_of_i32_def sample_cache_def)

definition sample_affinity :: affinity_cache where
  "sample_affinity = affinity_apply (TopologyVersion 1 0) [(42, sample_cache)] affinity_new"

lemma sample_affinity_reachable: "affinity_reachable sample_affinity"
  using affinity_reachable.apply_response [OF affinity_reachable.new read_sample_response]
  by (simp add: sample_affinity_def)

lemma sample_affinity_caches: "aff_caches (aff_state sample_affinity) = [(42, sample_cache)]"
  by (simp add: sample_affinity_def affinity_apply_def affinity_store_def Let_def map_extend_def
      affinity_new_def)

theorem key_routing_witness:
  "\<exists>p. resolve_node_for_key sample_affinity 42 (write_u8 (type_code_u8 TcInt) @ write_i32 7) True =
    Returns (node_for_partition sample_affinity 42 p True) \<and>
    usize_of_i32 p < length (primary_partition_to_node sample_cache)"
proof -
  have hash: "affinity_hash_marshaled (write_u8 (type_code_u8 TcInt) @ write_i32 7) = Returns (Some 7)"
    using i32.dec_enc_any [of 7 "[]"] type_code_try_from_u8 [of TcInt]
    by (simp add: affinity_hash_marshaled_def write_u8_def byte_def)
  have c: "map_of (aff_caches (aff_state sample_affinity)) 42 = Some sample_cache"
    "\<not> key_field_mapping_present sample_cache" "primary_partition_to_node sample_cache \<noteq> []"
    by (simp_all add: sample_affinity_caches sample_cache_def)
  from key_routing [OF sample_affinity_reachable c hash] show ?thesis by blast
qed

text \<open>Freshness of the affinity cache. After a response is applied, a cache of the response needs
  no refresh and its map is the one of the response, other caches keep their maps; after the
  invalidation of a cache exactly that cache is forgotten; after a full invalidation every cache
  needs a refresh, and no key is routed.\<close>

theorem affinity_freshness:
  "map_of (aff_caches (aff_state (affinity_apply v news ac))) i =
     (case map_of (rev news) i of None \<Rightarrow> map_of (aff_caches (aff_state ac)) i | Some c \<Rightarrow> Some c) \<and>
   affinity_needs_refresh i (affinity_apply v news ac) =
     (i \<notin> fst ` set news \<and> map_of (aff_caches (aff_state ac)) i = None) \<and>
   affinity_needs_refresh j (invalidate_cache i ac) = (j = i \<or> affinity_needs_refresh j ac) \<and>
   affinity_needs_refresh i (invalidate ac) \<and>
   resolve_node_for_key (invalidate ac) i key b = Returns None"
proof -
  have "map_of (rev news) i = None \<longleftrightarrow> i \<notin> fst ` set news" by (simp add: map_of_eq_None_iff)
  then show ?thesis
    by (auto simp: affinity_apply_def affinity_store_def Let_def map_extend_lookup affinity_needs_refresh_def
        invalidate_cache_def invalidate_def resolve_node_for_key_def AList.delete_conv' split: option.split)
qed

text \<open>The hash Java gives the key that a value stands for.\<close>

fun java_key_hash :: "lowercase \<Rightarrow> ignite_value \<Rightarrow> i32 option" where
  "java_key_hash lc (IvByte b) = Some (scast b)"
| "java_key_hash lc (IvShort b) = Some (scast b)"
| "java_key_hash lc (IvInt b) = Some b"
| "java_key_hash lc (IvLong b) = Some (long_hash b)"
| "java_key_hash lc (IvFloat b) = Some b"
| "java_key_hash lc (IvDouble b) = Some (long_hash b)"
| "java_key_hash lc (IvChar c) = Some (ucast c)"
| "java_key_hash lc (IvBool b) = Some (bool_hash b)"
| "java_key_hash lc (IvString s) = Some (string_to_java_hashcode s)"
| "java_key_hash lc (IvObject (ComplexObject sch vs)) =
    Some (bytes_to_java_hashcode (concat (map (enc_value lc) vs)))"
| "java_key_hash lc (IvBinary bs) = Some (foldl (\<lambda>r b. r * 31 + scast b) 1 bs)"
| "java_key_hash lc v = None"

lemma array_hash_write:
  assumes "\<And>x s. rd (e x @ s) = Ok (g x) s"
  shows "array_hash_loop (length xs) rd r (concat (map e xs) @ s) = Ok (foldl (\<lambda>r x. r * 31 + g x) r xs) s"
  by (induction xs arbitrary: r) (simp_all add: rbind_Ok assms)

lemma read_byte: "read_i8 (b # s) = Ok b s"
  by (simp add: read_i8_def read_le_def rmap_def rbind_def read_exact_def byte_def)

lemma write_bits: "write_f32 x = write_i32 x" "write_f64 y = write_i64 y"
  by (simp_all add: write_f32_def write_i32_def write_f64_def write_i64_def)

lemma object_hash_bytes:
  "object_data lc sch vs = (vals, footer, flag) \<Longrightarrow>
    affinity_hash_marshaled (object_bytes lc sch (vals, footer, flag)) = Returns (Some (bytes_to_java_hashcode vals))"
  using of_le_to_le_unat [where n = 4 and w = "bytes_to_java_hashcode vals"] type_code_try_from_u8 [of TcComplexObj]
  by (simp add: affinity_hash_marshaled_def object_bytes_def write_u8_def byte_def write_i32_def)

text \<open>A key is hashed as Java hashes it, straight from its marshaled bytes: for every key the
  encoder accepts, of a primitive type, a string, a byte array or an object, the affinity hash of the
  written bytes is the Java hash of the value. For an object it is the hash of its field data, which
  the encoder has put in the header and the affinity code finds there, at bytes 8 to 11. No such key
  makes the hash panic.\<close>

theorem marshaled_key_hash:
  assumes "decodable lc reg v" and "fst (write_value lc v reg0) = Inr bs" and "length bs < 2 ^ 31"
    and "java_key_hash lc v = Some h"
  shows "affinity_hash_marshaled bs = Returns (Some h)"
proof -
  have bs: "bs = enc_value lc v"
    using assms(2) decodable_accepted [OF assms(1)] by (simp add: steady_fst [OF steady_write_value] run_accepted)
  note facts = affinity_hash_marshaled_def write_u8_eq type_code_try_from_u8 access_map_def
  show ?thesis
  proof (cases v)
    case (IvObject co)
    then obtain sch vs where co: "v = IvObject (ComplexObject sch vs)" by (cases co) auto
    with assms(1) have "proper_object sch vs" "list_all (accepted lc) vs" by (auto dest: decodable_lists)
    with co bs assms(4) show ?thesis
      using object_hash_bytes [of lc sch vs "concat (map (enc_value lc) vs)"]
      by (auto simp: enc_object object_data_def finish_data_def Let_def)
  next
    case (IvBinary xs)
    have "array_hash_loop (length xs) (rmap scast read_i8) 1 (concat (map (\<lambda>x. [x]) xs) @ []) =
        Ok (foldl (\<lambda>r x. r * 31 + scast x) 1 xs) []"
      by (rule array_hash_write) (simp add: rmap_def rbind_Ok read_byte)
    moreover have "concat (map (\<lambda>x. [x]) xs) = xs" by (induction xs) simp_all
    ultimately show ?thesis
      using IvBinary assms(3,4) bs
      by (simp add: facts enc_simple array_hash_def rbind_Ok i32_range_of_usize)
  next
    case (IvString s)
    with assms(1,3,4) bs show ?thesis
      by (simp add: facts enc_simple str.dec_enc_end ok_string_def)
  qed (use assms(4) bs in \<open>simp_all add: facts enc_simple write_bits read_byte
      i16.dec_enc_end i32.dec_enc_end i64.dec_enc_end u16.dec_enc_end bool.dec_enc_end\<close>)
qed

theorem marshaled_key_hash_witness:
  "affinity_hash_marshaled (write_u8 (type_code_u8 TcLong) @ write_i64 5) = Returns (Some (long_hash 5))"
proof (rule marshaled_key_hash)
  show "decodable id registry_default (IvLong 5)" by simp
  show "fst (write_value id (IvLong 5) registry_default) = Inr (write_u8 (type_code_u8 TcLong) @ write_i64 5)"
    by (simp add: write_value.simps wr_def)
  show "length (write_u8 (type_code_u8 TcLong) @ write_i64 5) < 2 ^ 31" by simp
  show "java_key_hash id (IvLong 5) = Some (long_hash 5)" by simp
qed

text \<open>The \<open>CACHE_PARTITIONS\<close> request writes as many bytes as it announces, for every combination of
  the protocol flags.\<close>

theorem partitions_request_announced: "length (partitions_request_write r) = partitions_request_size r"
  by (rule partitions_request_length)

end
