(* ===== verification/CacheConfig.thy ===== *)
theory CacheConfig
  imports DataTypes Hashing
begin

text \<open>
  Cache configurations: the enums and records of \<open>ignite-rs/src/cache.rs\<close>, their encoding in
  \<open>protocol/cache_config.rs\<close> (a list of tagged properties), the decoding of the server's answer (the
  same data by position), and the requests of \<open>api/cache_config.rs\<close>.
\<close>

section \<open>Enums\<close>

text \<open>Every enum has the cast \<open>as i32\<close> of its discriminant and \<open>TryFrom<i32>\<close>.\<close>

datatype atomicity_mode = AmTransactional | AmAtomic

fun atomicity_mode_i32 :: "atomicity_mode \<Rightarrow> i32" where
  "atomicity_mode_i32 AmTransactional = 0"
| "atomicity_mode_i32 AmAtomic = 1"

definition atomicity_mode_try_from :: "i32 \<Rightarrow> atomicity_mode reader" where
  "atomicity_mode_try_from v =
    (if v = 0 then ret AmTransactional
     else if v = 1 then ret AmAtomic
     else fail (Ignite ''Cannot read AtomicityMode''))"

datatype cache_mode = CmLocal | CmReplicated | CmPartitioned

fun cache_mode_i32 :: "cache_mode \<Rightarrow> i32" where
  "cache_mode_i32 CmLocal = 0"
| "cache_mode_i32 CmReplicated = 1"
| "cache_mode_i32 CmPartitioned = 2"

definition cache_mode_try_from :: "i32 \<Rightarrow> cache_mode reader" where
  "cache_mode_try_from v =
    (if v = 0 then ret CmLocal
     else if v = 1 then ret CmReplicated
     else if v = 2 then ret CmPartitioned
     else fail (Ignite ''Cannot read CacheMode''))"

datatype partition_loss_policy = PlpReadOnlySafe | PlpReadOnlyAll | PlpReadWriteSafe | PlpReadWriteAll | PlpIgnore

fun partition_loss_policy_i32 :: "partition_loss_policy \<Rightarrow> i32" where
  "partition_loss_policy_i32 PlpReadOnlySafe = 0"
| "partition_loss_policy_i32 PlpReadOnlyAll = 1"
| "partition_loss_policy_i32 PlpReadWriteSafe = 2"
| "partition_loss_policy_i32 PlpReadWriteAll = 3"
| "partition_loss_policy_i32 PlpIgnore = 4"

definition partition_loss_policy_try_from :: "i32 \<Rightarrow> partition_loss_policy reader" where
  "partition_loss_policy_try_from v =
    (if v = 0 then ret PlpReadOnlySafe
     else if v = 1 then ret PlpReadOnlyAll
     else if v = 2 then ret PlpReadWriteSafe
     else if v = 3 then ret PlpReadWriteAll
     else if v = 4 then ret PlpIgnore
     else fail (Ignite ''Cannot read PartitionLossPolicy''))"

datatype rebalance_mode = RmSync | RmAsync | RmNone

fun rebalance_mode_i32 :: "rebalance_mode \<Rightarrow> i32" where
  "rebalance_mode_i32 RmSync = 0"
| "rebalance_mode_i32 RmAsync = 1"
| "rebalance_mode_i32 RmNone = 2"

definition rebalance_mode_try_from :: "i32 \<Rightarrow> rebalance_mode reader" where
  "rebalance_mode_try_from v =
    (if v = 0 then ret RmSync
     else if v = 1 then ret RmAsync
     else if v = 2 then ret RmNone
     else fail (Ignite ''Cannot read RebalanceMode''))"

datatype write_synchronization_mode = WsmFullSync | WsmFullAsync | WsmPrimarySync

fun write_synchronization_mode_i32 :: "write_synchronization_mode \<Rightarrow> i32" where
  "write_synchronization_mode_i32 WsmFullSync = 0"
| "write_synchronization_mode_i32 WsmFullAsync = 1"
| "write_synchronization_mode_i32 WsmPrimarySync = 2"

definition write_synchronization_mode_try_from :: "i32 \<Rightarrow> write_synchronization_mode reader" where
  "write_synchronization_mode_try_from v =
    (if v = 0 then ret WsmFullSync
     else if v = 1 then ret WsmFullAsync
     else if v = 2 then ret WsmPrimarySync
     else fail (Ignite ''Cannot read WriteSynchronizationMode''))"

datatype cache_peek_mode = CpmAll | CpmNear | CpmPrimary | CpmBackup

fun cache_peek_mode_u8 :: "cache_peek_mode \<Rightarrow> u8" where
  "cache_peek_mode_u8 CpmAll = 0"
| "cache_peek_mode_u8 CpmNear = 1"
| "cache_peek_mode_u8 CpmPrimary = 2"
| "cache_peek_mode_u8 CpmBackup = 3"

datatype index_type = IxSorted | IxFulltext | IxGeoSpatial

fun index_type_u8 :: "index_type \<Rightarrow> u8" where
  "index_type_u8 IxSorted = 0"
| "index_type_u8 IxFulltext = 1"
| "index_type_u8 IxGeoSpatial = 2"

definition index_type_try_from :: "u8 \<Rightarrow> index_type reader" where
  "index_type_try_from v =
    (if v = 0 then ret IxSorted
     else if v = 1 then ret IxFulltext
     else if v = 2 then ret IxGeoSpatial
     else fail (Ignite ''Cannot read IndexType''))"

section \<open>Expiry\<close>

text \<open>A \<open>std::time::Duration\<close> is its number of nanoseconds.\<close>

type_synonym duration = nat

definition as_millis :: "duration \<Rightarrow> nat" where
  "as_millis d = d div 1000000"

definition from_millis :: "nat \<Rightarrow> duration" where
  "from_millis n = n * 1000000"

datatype expiry_duration = Unchanged | Eternal | ZeroDuration | Millis duration

fun to_wire :: "expiry_duration \<Rightarrow> i64" where
  "to_wire Unchanged = - 2"
| "to_wire Eternal = - 1"
| "to_wire ZeroDuration = 0"
| "to_wire (Millis d) = word_of_nat (as_millis d)"

definition from_wire :: "i64 \<Rightarrow> expiry_duration" where
  "from_wire value =
    (if value = - 2 then Unchanged
     else if value = - 1 then Eternal
     else if value = 0 then ZeroDuration
     else if 0 < sint value then Millis (from_millis (unat value))
     else Unchanged)"

record expiry_policy =
  create :: expiry_duration
  update :: expiry_duration
  access :: expiry_duration

definition created :: "duration \<Rightarrow> expiry_policy" where
  "created d = \<lparr>create = Millis d, update = Unchanged, access = Unchanged\<rparr>"

definition modified :: "duration \<Rightarrow> expiry_policy" where
  "modified d = \<lparr>create = Unchanged, update = Millis d, access = Unchanged\<rparr>"

definition accessed :: "duration \<Rightarrow> expiry_policy" where
  "accessed d = \<lparr>create = Unchanged, update = Unchanged, access = Millis d\<rparr>"

section \<open>Configurations\<close>

record cache_key_configuration =
  ckc_type_name :: rstring
  ckc_affinity_key_field_name :: rstring

record query_field =
  qf_name :: rstring
  qf_type_name :: rstring
  qf_key_field :: bool
  qf_not_null_constraint :: bool
  qf_precision :: i32
  qf_scale :: i32

record query_index =
  qi_name :: rstring
  qi_type :: index_type
  qi_inline_size :: i32
  qi_fields :: "(rstring \<times> bool) list"

record query_entity =
  qe_key_type :: rstring
  qe_value_type :: rstring
  qe_table :: rstring
  qe_key_field :: rstring
  qe_value_field :: rstring
  qe_query_fields :: "query_field list"
  qe_field_aliases :: "(rstring \<times> rstring) list"
  qe_query_indexes :: "query_index list"
  qe_default_value :: "rstring option"

record cache_configuration =
  cc_atomicity_mode :: atomicity_mode
  cc_num_backup :: i32
  cc_cache_mode :: cache_mode
  cc_copy_on_read :: bool
  cc_data_region_name :: "rstring option"
  cc_eager_ttl :: bool
  cc_statistics_enabled :: bool
  cc_group_name :: "rstring option"
  cc_default_lock_timeout_ms :: i64
  cc_max_concurrent_async_operations :: i32
  cc_max_query_iterators :: i32
  cc_name :: rstring
  cc_onheap_cache_enabled :: bool
  cc_partition_loss_policy :: partition_loss_policy
  cc_query_detail_metrics_size :: i32
  cc_query_parallelism :: i32
  cc_read_from_backup :: bool
  cc_rebalance_batch_size :: i32
  cc_rebalance_batches_prefetch_count :: i64
  cc_rebalance_delay_ms :: i64
  cc_rebalance_mode :: rebalance_mode
  cc_rebalance_order :: i32
  cc_rebalance_throttle_ms :: i64
  cc_rebalance_timeout_ms :: i64
  cc_sql_escape_all :: bool
  cc_sql_index_max_size :: i32
  cc_sql_schema :: "rstring option"
  cc_write_synchronization_mode :: write_synchronization_mode
  cc_cache_key_configurations :: "cache_key_configuration list option"
  cc_query_entities :: "query_entity list option"
  cc_expiry_policy :: "expiry_policy option"

text \<open>Builders.\<close>

definition cache_key_configuration_new :: "rstring \<Rightarrow> rstring \<Rightarrow> cache_key_configuration" where
  "cache_key_configuration_new type_name affinity_key_field_name =
    \<lparr>ckc_type_name = type_name, ckc_affinity_key_field_name = affinity_key_field_name\<rparr>"

definition query_entity_new :: "rstring \<Rightarrow> rstring \<Rightarrow> query_entity" where
  "query_entity_new key_type value_type =
    \<lparr>qe_key_type = key_type, qe_value_type = value_type, qe_table = [], qe_key_field = [], qe_value_field = [],
     qe_query_fields = [], qe_field_aliases = [], qe_query_indexes = [], qe_default_value = None\<rparr>"

definition set_table_name :: "query_entity \<Rightarrow> rstring \<Rightarrow> query_entity" where
  "set_table_name self table = self\<lparr>qe_table := table\<rparr>"

definition set_key_field_name :: "query_entity \<Rightarrow> rstring \<Rightarrow> query_entity" where
  "set_key_field_name self key_field = self\<lparr>qe_key_field := key_field\<rparr>"

definition set_value_field_name :: "query_entity \<Rightarrow> rstring \<Rightarrow> query_entity" where
  "set_value_field_name self value_field = self\<lparr>qe_value_field := value_field\<rparr>"

definition set_query_fields :: "query_entity \<Rightarrow> query_field list \<Rightarrow> query_entity" where
  "set_query_fields self fs = self\<lparr>qe_query_fields := fs\<rparr>"

definition add_query_field :: "query_entity \<Rightarrow> query_field \<Rightarrow> query_entity" where
  "add_query_field self f = self\<lparr>qe_query_fields := qe_query_fields self @ [f]\<rparr>"

definition set_field_aliases :: "query_entity \<Rightarrow> (rstring \<times> rstring) list \<Rightarrow> query_entity" where
  "set_field_aliases self xs = self\<lparr>qe_field_aliases := xs\<rparr>"

definition add_field_alias :: "query_entity \<Rightarrow> rstring \<Rightarrow> rstring \<Rightarrow> query_entity" where
  "add_field_alias self f alias = self\<lparr>qe_field_aliases := qe_field_aliases self @ [(f, alias)]\<rparr>"

definition set_query_indexes :: "query_entity \<Rightarrow> query_index list \<Rightarrow> query_entity" where
  "set_query_indexes self xs = self\<lparr>qe_query_indexes := xs\<rparr>"

definition add_query_index :: "query_entity \<Rightarrow> query_index \<Rightarrow> query_entity" where
  "add_query_index self i = self\<lparr>qe_query_indexes := qe_query_indexes self @ [i]\<rparr>"

definition query_field_new :: "rstring \<Rightarrow> rstring \<Rightarrow> query_field" where
  "query_field_new name type_name =
    \<lparr>qf_name = name, qf_type_name = type_name, qf_key_field = False, qf_not_null_constraint = False,
     qf_precision = - 1, qf_scale = - 1\<rparr>"

definition query_index_new :: "rstring \<Rightarrow> index_type \<Rightarrow> query_index" where
  "query_index_new index_name index_type =
    \<lparr>qi_name = index_name, qi_type = index_type, qi_inline_size = - 1, qi_fields = []\<rparr>"

definition add_index_field :: "query_index \<Rightarrow> rstring \<Rightarrow> bool \<Rightarrow> query_index" where
  "add_index_field self name is_descending = self\<lparr>qi_fields := qi_fields self @ [(name, is_descending)]\<rparr>"

section \<open>Nested encodings\<close>

definition write_counted :: "('a \<Rightarrow> bytes) \<Rightarrow> 'a list \<Rightarrow> bytes" where
  "write_counted enc xs = write_i32 (i32_of_usize (length xs)) @ concat (map enc xs)"

text \<open>\<open>let count = read_i32(reader)?; for _ in 0..count\<close>, pushing onto an empty vector.\<close>

definition read_counted :: "'a reader \<Rightarrow> 'a list reader" where
  "read_counted dec = rbind read_i32 (\<lambda>count. repeat_read (i32_range count) dec)"

text \<open>\<open>String::read\<close>, and with \<open>unwrap()\<close>, which panics on a null.\<close>

definition string_read :: "rstring option reader" where
  "string_read = readable_read (read_type read_string)"

definition string_unwrap :: "rstring reader" where
  "string_unwrap = rbind string_read (\<lambda>r. case r of Some s \<Rightarrow> ret s | None \<Rightarrow> panic)"

definition string_or_empty :: "rstring reader" where
  "string_or_empty = rmap (\<lambda>r. case r of Some s \<Rightarrow> s | None \<Rightarrow> []) string_read"

definition write_optional_string :: "rstring \<Rightarrow> bytes" where
  "write_optional_string value = (if value = [] then write_null else write_string_type_code value)"

definition write_cache_key_config :: "cache_key_configuration \<Rightarrow> bytes" where
  "write_cache_key_config conf =
    write_string_type_code (ckc_type_name conf) @ write_string_type_code (ckc_affinity_key_field_name conf)"

definition write_cache_key_configs :: "cache_key_configuration list \<Rightarrow> bytes" where
  "write_cache_key_configs configs = write_counted write_cache_key_config configs"

definition read_cache_key_config :: "cache_key_configuration reader" where
  "read_cache_key_config = rbind string_unwrap (\<lambda>t. rbind string_unwrap (\<lambda>a.
     ret \<lparr>ckc_type_name = t, ckc_affinity_key_field_name = a\<rparr>))"

definition read_cache_key_configs :: "cache_key_configuration list reader" where
  "read_cache_key_configs = read_counted read_cache_key_config"

definition write_query_field :: "query_field \<Rightarrow> bytes" where
  "write_query_field f =
    write_string_type_code (qf_name f) @ write_string_type_code (qf_type_name f) @
    write_bool (qf_key_field f) @ write_bool (qf_not_null_constraint f) @ write_null @
    write_i32 (qf_precision f) @ write_i32 (qf_scale f)"

definition write_query_fields :: "query_field list \<Rightarrow> bytes" where
  "write_query_fields fs = write_counted write_query_field fs"

definition read_query_field :: "query_field reader" where
  "read_query_field = rbind string_unwrap (\<lambda>n. rbind string_unwrap (\<lambda>t.
     rbind read_bool (\<lambda>k. rbind read_bool (\<lambda>nn. rbind read_object (\<lambda>_.
     rbind read_i32 (\<lambda>p. rbind read_i32 (\<lambda>sc.
       ret \<lparr>qf_name = n, qf_type_name = t, qf_key_field = k, qf_not_null_constraint = nn,
            qf_precision = p, qf_scale = sc\<rparr>)))))))"

definition read_query_fields :: "query_field list reader" where
  "read_query_fields = read_counted read_query_field"

definition write_field_alias :: "rstring \<times> rstring \<Rightarrow> bytes" where
  "write_field_alias a = write_string_type_code (fst a) @ write_string_type_code (snd a)"

definition write_field_aliases :: "(rstring \<times> rstring) list \<Rightarrow> bytes" where
  "write_field_aliases xs = write_counted write_field_alias xs"

definition read_field_alias :: "(rstring \<times> rstring) reader" where
  "read_field_alias = rbind string_unwrap (\<lambda>n. rbind string_unwrap (\<lambda>a. ret (n, a)))"

definition read_query_field_aliases :: "(rstring \<times> rstring) list reader" where
  "read_query_field_aliases = read_counted read_field_alias"

definition write_index_field :: "rstring \<times> bool \<Rightarrow> bytes" where
  "write_index_field f = write_string_type_code (fst f) @ write_bool (snd f)"

definition write_query_index_fields :: "(rstring \<times> bool) list \<Rightarrow> bytes" where
  "write_query_index_fields fs = write_counted write_index_field fs"

definition read_index_field :: "(rstring \<times> bool) reader" where
  "read_index_field = rbind string_unwrap (\<lambda>n. rbind read_bool (\<lambda>d. ret (n, d)))"

definition read_query_index_fields :: "(rstring \<times> bool) list reader" where
  "read_query_index_fields = read_counted read_index_field"

definition write_query_index :: "query_index \<Rightarrow> bytes" where
  "write_query_index i =
    write_string_type_code (qi_name i) @ write_u8 (index_type_u8 (qi_type i)) @
    write_i32 (qi_inline_size i) @ write_query_index_fields (qi_fields i)"

definition write_query_indexes :: "query_index list \<Rightarrow> bytes" where
  "write_query_indexes xs = write_counted write_query_index xs"

definition read_query_index :: "query_index reader" where
  "read_query_index = rbind string_unwrap (\<lambda>n. rbind read_u8 (\<lambda>t. rbind (index_type_try_from t) (\<lambda>it.
     rbind read_i32 (\<lambda>sz. rbind read_query_index_fields (\<lambda>fs.
       ret \<lparr>qi_name = n, qi_type = it, qi_inline_size = sz, qi_fields = fs\<rparr>)))))"

definition read_query_indexes :: "query_index list reader" where
  "read_query_indexes = read_counted read_query_index"

definition write_query_entity :: "query_entity \<Rightarrow> bytes" where
  "write_query_entity e =
    write_string_type_code (qe_key_type e) @ write_string_type_code (qe_value_type e) @
    write_optional_string (qe_table e) @ write_optional_string (qe_key_field e) @
    write_optional_string (qe_value_field e) @ write_query_fields (qe_query_fields e) @
    write_field_aliases (qe_field_aliases e) @ write_query_indexes (qe_query_indexes e)"

definition write_query_entities :: "query_entity list \<Rightarrow> bytes" where
  "write_query_entities es = write_counted write_query_entity es"

definition read_query_entity :: "query_entity reader" where
  "read_query_entity = rbind string_unwrap (\<lambda>kt. rbind string_unwrap (\<lambda>vt. rbind string_unwrap (\<lambda>t.
     rbind string_or_empty (\<lambda>kf. rbind string_or_empty (\<lambda>vf.
     rbind read_query_fields (\<lambda>fs. rbind read_query_field_aliases (\<lambda>as. rbind read_query_indexes (\<lambda>is.
       ret \<lparr>qe_key_type = kt, qe_value_type = vt, qe_table = t, qe_key_field = kf, qe_value_field = vf,
            qe_query_fields = fs, qe_field_aliases = as, qe_query_indexes = is,
            qe_default_value = None\<rparr>))))))))"

definition read_query_entities :: "query_entity list reader" where
  "read_query_entities = read_counted read_query_entity"

section \<open>Encoding of a configuration\<close>

datatype config_property_code =
    CpName
  | CpCacheMode
  | CpCacheAtomicityMode
  | CpBackups
  | CpWriteSynchronizationMode
  | CpCopyOnRead
  | CpDataRegionName
  | CpEagerTtl
  | CpStatisticsEnabled
  | CpGroupName
  | CpDefaultLockTimeout
  | CpMaxConcurrentAsyncOps
  | CpMaxQueryIterators
  | CpIsOnheapCacheEnabled
  | CpPartitionLossPolicy
  | CpQueryDetailMetricsSize
  | CpQueryParallelism
  | CpReadFromBackup
  | CpRebalanceBatchSize
  | CpRebalanceBatchesPrefetchCount
  | CpRebalanceDelay
  | CpRebalanceMode
  | CpRebalanceOrder
  | CpRebalanceThrottle
  | CpRebalanceTimeout
  | CpSqlEscapeAll
  | CpSqlIndexInlineMaxSize
  | CpSqlSchema
  | CpCacheKeyConfigurations
  | CpQueryEntities
  | CpExpirePolicy

fun config_property_code_i16 :: "config_property_code \<Rightarrow> i16" where
  "config_property_code_i16 CpName = 0"
| "config_property_code_i16 CpCacheMode = 1"
| "config_property_code_i16 CpCacheAtomicityMode = 2"
| "config_property_code_i16 CpBackups = 3"
| "config_property_code_i16 CpWriteSynchronizationMode = 4"
| "config_property_code_i16 CpCopyOnRead = 5"
| "config_property_code_i16 CpDataRegionName = 100"
| "config_property_code_i16 CpEagerTtl = 405"
| "config_property_code_i16 CpStatisticsEnabled = 406"
| "config_property_code_i16 CpGroupName = 400"
| "config_property_code_i16 CpDefaultLockTimeout = 402"
| "config_property_code_i16 CpMaxConcurrentAsyncOps = 403"
| "config_property_code_i16 CpMaxQueryIterators = 206"
| "config_property_code_i16 CpIsOnheapCacheEnabled = 101"
| "config_property_code_i16 CpPartitionLossPolicy = 404"
| "config_property_code_i16 CpQueryDetailMetricsSize = 202"
| "config_property_code_i16 CpQueryParallelism = 201"
| "config_property_code_i16 CpReadFromBackup = 6"
| "config_property_code_i16 CpRebalanceBatchSize = 303"
| "config_property_code_i16 CpRebalanceBatchesPrefetchCount = 304"
| "config_property_code_i16 CpRebalanceDelay = 301"
| "config_property_code_i16 CpRebalanceMode = 300"
| "config_property_code_i16 CpRebalanceOrder = 305"
| "config_property_code_i16 CpRebalanceThrottle = 306"
| "config_property_code_i16 CpRebalanceTimeout = 302"
| "config_property_code_i16 CpSqlEscapeAll = 205"
| "config_property_code_i16 CpSqlIndexInlineMaxSize = 204"
| "config_property_code_i16 CpSqlSchema = 203"
| "config_property_code_i16 CpCacheKeyConfigurations = 401"
| "config_property_code_i16 CpQueryEntities = 200"
| "config_property_code_i16 CpExpirePolicy = 407"

definition MIN_CONFIG_PARAMS :: i16 where
  "MIN_CONFIG_PARAMS = 25"

definition config_property :: "config_property_code \<Rightarrow> bytes \<Rightarrow> bytes" where
  "config_property code payload = write_i16 (config_property_code_i16 code) @ payload"

text \<open>The properties that are always written, and those of the options that are set, in order.\<close>

definition mandatory_properties :: "cache_configuration \<Rightarrow> (config_property_code \<times> bytes) list" where
  "mandatory_properties config =
    [(CpName, write_string_type_code (cc_name config)),
     (CpCacheAtomicityMode, write_i32 (atomicity_mode_i32 (cc_atomicity_mode config))),
     (CpBackups, write_i32 (cc_num_backup config)),
     (CpCacheMode, write_i32 (cache_mode_i32 (cc_cache_mode config))),
     (CpCopyOnRead, write_bool (cc_copy_on_read config)),
     (CpEagerTtl, write_bool (cc_eager_ttl config)),
     (CpStatisticsEnabled, write_bool (cc_statistics_enabled config)),
     (CpDefaultLockTimeout, write_i64 (cc_default_lock_timeout_ms config)),
     (CpMaxConcurrentAsyncOps, write_i32 (cc_max_concurrent_async_operations config)),
     (CpMaxQueryIterators, write_i32 (cc_max_query_iterators config)),
     (CpIsOnheapCacheEnabled, write_bool (cc_onheap_cache_enabled config)),
     (CpPartitionLossPolicy, write_i32 (partition_loss_policy_i32 (cc_partition_loss_policy config))),
     (CpQueryDetailMetricsSize, write_i32 (cc_query_detail_metrics_size config)),
     (CpQueryParallelism, write_i32 (cc_query_parallelism config)),
     (CpReadFromBackup, write_bool (cc_read_from_backup config)),
     (CpRebalanceBatchSize, write_i32 (cc_rebalance_batch_size config)),
     (CpRebalanceBatchesPrefetchCount, write_i64 (cc_rebalance_batches_prefetch_count config)),
     (CpRebalanceDelay, write_i64 (cc_rebalance_delay_ms config)),
     (CpRebalanceMode, write_i32 (rebalance_mode_i32 (cc_rebalance_mode config))),
     (CpRebalanceOrder, write_i32 (cc_rebalance_order config)),
     (CpRebalanceThrottle, write_i64 (cc_rebalance_throttle_ms config)),
     (CpRebalanceTimeout, write_i64 (cc_rebalance_timeout_ms config)),
     (CpSqlEscapeAll, write_bool (cc_sql_escape_all config)),
     (CpSqlIndexInlineMaxSize, write_i32 (cc_sql_index_max_size config)),
     (CpWriteSynchronizationMode, write_i32 (write_synchronization_mode_i32 (cc_write_synchronization_mode config)))]"

definition write_expiry_policy :: "expiry_policy \<Rightarrow> bytes" where
  "write_expiry_policy p = write_bool True @ write_i64 (to_wire (create p)) @
     write_i64 (to_wire (update p)) @ write_i64 (to_wire (access p))"

definition opt_property :: "config_property_code \<Rightarrow> ('a \<Rightarrow> bytes) \<Rightarrow> 'a option \<Rightarrow> (config_property_code \<times> bytes) list" where
  "opt_property code enc v = (case v of None \<Rightarrow> [] | Some x \<Rightarrow> [(code, enc x)])"

definition optional_properties :: "cache_configuration \<Rightarrow> (config_property_code \<times> bytes) list" where
  "optional_properties config =
    opt_property CpDataRegionName write_string_type_code (cc_data_region_name config) @
    opt_property CpGroupName write_string_type_code (cc_group_name config) @
    opt_property CpSqlSchema write_string_type_code (cc_sql_schema config) @
    opt_property CpCacheKeyConfigurations write_cache_key_configs (cc_cache_key_configurations config) @
    opt_property CpQueryEntities write_query_entities (cc_query_entities config) @
    opt_property CpExpirePolicy write_expiry_policy (cc_expiry_policy config)"

text \<open>\<open>config_param_len\<close>: the counter of the code, an \<open>i16\<close> that starts at 25 and is incremented for every
  option that is set.\<close>

definition config_param_len :: "cache_configuration \<Rightarrow> i16" where
  "config_param_len config =
    foldl (\<lambda>n present. if present then n + 1 else n) MIN_CONFIG_PARAMS
      [cc_data_region_name config \<noteq> None, cc_group_name config \<noteq> None, cc_sql_schema config \<noteq> None,
       cc_cache_key_configurations config \<noteq> None, cc_query_entities config \<noteq> None,
       cc_expiry_policy config \<noteq> None]"

definition config_opts :: "cache_configuration \<Rightarrow> bytes" where
  "config_opts config =
    concat (map (\<lambda>(c, p). config_property c p) (mandatory_properties config)) @
    concat (map (\<lambda>(c, p). config_property c p) (optional_properties config))"

definition get_cache_configuration_bytes :: "cache_configuration \<Rightarrow> bytes" where
  "get_cache_configuration_bytes config =
    write_i32 (i32_of_usize (length (config_opts config))) @ write_i16 (config_param_len config) @
    config_opts config"

section \<open>Decoding of a configuration\<close>

definition read_expiry_policy :: "expiry_policy option reader" where
  "read_expiry_policy = rbind read_bool (\<lambda>present.
     if present then rbind read_i64 (\<lambda>c. rbind read_i64 (\<lambda>u. rbind read_i64 (\<lambda>a.
       ret (Some \<lparr>create = from_wire c, update = from_wire u, access = from_wire a\<rparr>))))
     else ret None)"

definition read_name :: "rstring reader" where
  "read_name = rbind string_read (\<lambda>r. case r of Some s \<Rightarrow> ret s | None \<Rightarrow> fail (Ignite ''name is required''))"

definition read_cache_configuration :: "cache_configuration reader" where
  "read_cache_configuration =
    rbind (rbind read_i32 atomicity_mode_try_from) (\<lambda>am.
    rbind read_i32 (\<lambda>nb.
    rbind (rbind read_i32 cache_mode_try_from) (\<lambda>cm.
    rbind read_bool (\<lambda>cor.
    rbind string_read (\<lambda>drn.
    rbind read_bool (\<lambda>et.
    rbind read_bool (\<lambda>se.
    rbind string_read (\<lambda>gn.
    rbind read_i64 (\<lambda>dlt.
    rbind read_i32 (\<lambda>mca.
    rbind read_i32 (\<lambda>mqi.
    rbind read_name (\<lambda>nm.
    rbind read_bool (\<lambda>oce.
    rbind (rbind read_i32 partition_loss_policy_try_from) (\<lambda>plp.
    rbind read_i32 (\<lambda>qdm.
    rbind read_i32 (\<lambda>qp.
    rbind read_bool (\<lambda>rfb.
    rbind read_i32 (\<lambda>rbs.
    rbind read_i64 (\<lambda>rbp.
    rbind read_i64 (\<lambda>rdl.
    rbind (rbind read_i32 rebalance_mode_try_from) (\<lambda>rm.
    rbind read_i32 (\<lambda>ro.
    rbind read_i64 (\<lambda>rth.
    rbind read_i64 (\<lambda>rto.
    rbind read_bool (\<lambda>sea.
    rbind read_i32 (\<lambda>sims.
    rbind string_read (\<lambda>ss.
    rbind (rbind read_i32 write_synchronization_mode_try_from) (\<lambda>wsm.
    rbind read_cache_key_configs (\<lambda>ckc.
    rbind read_query_entities (\<lambda>qe.
    rbind read_expiry_policy (\<lambda>ep.
    ret \<lparr>cc_atomicity_mode = am,
      cc_num_backup = nb,
      cc_cache_mode = cm,
      cc_copy_on_read = cor,
      cc_data_region_name = drn,
      cc_eager_ttl = et,
      cc_statistics_enabled = se,
      cc_group_name = gn,
      cc_default_lock_timeout_ms = dlt,
      cc_max_concurrent_async_operations = mca,
      cc_max_query_iterators = mqi,
      cc_name = nm,
      cc_onheap_cache_enabled = oce,
      cc_partition_loss_policy = plp,
      cc_query_detail_metrics_size = qdm,
      cc_query_parallelism = qp,
      cc_read_from_backup = rfb,
      cc_rebalance_batch_size = rbs,
      cc_rebalance_batches_prefetch_count = rbp,
      cc_rebalance_delay_ms = rdl,
      cc_rebalance_mode = rm,
      cc_rebalance_order = ro,
      cc_rebalance_throttle_ms = rth,
      cc_rebalance_timeout_ms = rto,
      cc_sql_escape_all = sea,
      cc_sql_index_max_size = sims,
      cc_sql_schema = ss,
      cc_write_synchronization_mode = wsm,
      cc_cache_key_configurations = Some ckc,
      cc_query_entities = Some qe,
      cc_expiry_policy = ep\<rparr>)))))))))))))))))))))))))))))))"

definition config_default :: cache_configuration where
  "config_default = \<lparr>cc_atomicity_mode = AmAtomic, cc_num_backup = 0, cc_cache_mode = CmPartitioned,
     cc_copy_on_read = True, cc_data_region_name = None, cc_eager_ttl = True, cc_statistics_enabled = True,
     cc_group_name = None, cc_default_lock_timeout_ms = 0, cc_max_concurrent_async_operations = 500,
     cc_max_query_iterators = 1024, cc_name = [], cc_onheap_cache_enabled = False,
     cc_partition_loss_policy = PlpIgnore, cc_query_detail_metrics_size = 0, cc_query_parallelism = 1,
     cc_read_from_backup = True, cc_rebalance_batch_size = 512 * 1024,
     cc_rebalance_batches_prefetch_count = 2, cc_rebalance_delay_ms = 0, cc_rebalance_mode = RmAsync,
     cc_rebalance_order = 0, cc_rebalance_throttle_ms = 0, cc_rebalance_timeout_ms = 10000,
     cc_sql_escape_all = False, cc_sql_index_max_size = - 1, cc_sql_schema = None,
     cc_write_synchronization_mode = WsmPrimarySync, cc_cache_key_configurations = None,
     cc_query_entities = None, cc_expiry_policy = None\<rparr>"

definition config_new :: "rstring \<Rightarrow> cache_configuration" where
  "config_new name = config_default\<lparr>cc_name := name\<rparr>"

section \<open>Requests\<close>

definition MAGIC_FLAG :: u8 where
  "MAGIC_FLAG = 0"

definition get_names_read :: "rstring list reader" where
  "get_names_read = rbind read_i32 (\<lambda>count. repeat_read (i32_range count)
     (rbind string_read (\<lambda>r. case r of None \<Rightarrow> fail (Ignite ''NULL is not expected'') | Some n \<Rightarrow> ret n)))"

text \<open>The bodies of the requests 1050 to 1056 with the sizes they announce.\<close>

datatype config_request =
    CacheGetNames
  | CacheCreateWithName rstring
  | CacheGetOrCreateWithName rstring
  | CacheCreateWithConfig cache_configuration
  | CacheGetOrCreateWithConfig cache_configuration
  | CacheGetConfig rstring
  | CacheDestroy rstring

fun config_request_write :: "config_request \<Rightarrow> bytes" where
  "config_request_write CacheGetNames = []"
| "config_request_write (CacheCreateWithName name) = write_string_type_code name"
| "config_request_write (CacheGetOrCreateWithName name) = write_string_type_code name"
| "config_request_write (CacheCreateWithConfig config) = get_cache_configuration_bytes config"
| "config_request_write (CacheGetOrCreateWithConfig config) = get_cache_configuration_bytes config"
| "config_request_write (CacheGetConfig name) = write_i32 (string_to_java_hashcode name) @ write_u8 MAGIC_FLAG"
| "config_request_write (CacheDestroy name) = write_i32 (string_to_java_hashcode name)"

fun config_request_size :: "config_request \<Rightarrow> nat" where
  "config_request_size CacheGetNames = 0"
| "config_request_size (CacheCreateWithName name) = str_len name + 5"
| "config_request_size (CacheGetOrCreateWithName name) = str_len name + 5"
| "config_request_size (CacheCreateWithConfig config) = length (get_cache_configuration_bytes config)"
| "config_request_size (CacheGetOrCreateWithConfig config) = length (get_cache_configuration_bytes config)"
| "config_request_size (CacheGetConfig name) = 5"
| "config_request_size (CacheDestroy name) = 4"

definition get_config_read :: "cache_configuration reader" where
  "get_config_read = rbind read_i32 (\<lambda>_. read_cache_configuration)"

section \<open>Schemas of a query entity\<close>

definition convert_type :: "query_field \<Rightarrow> ignite_type option" where
  "convert_type f =
    (let t = qf_type_name f
     in if t = rstr ''java.lang.Byte'' then Some ItByte
        else if t = rstr ''java.lang.Long'' then Some ItLong
        else if t = rstr ''java.lang.Short'' then Some ItShort
        else if t = rstr ''java.lang.String'' then Some ItString
        else if t = rstr ''java.lang.Float'' then Some ItFloat
        else if t = rstr ''java.lang.Double'' then Some ItDouble
        else if t = rstr ''java.lang.Character'' then Some ItChar
        else if t = rstr ''java.sql.Timestamp'' then Some ItTimestamp
        else if t = rstr ''java.sql.Date'' then Some ItDate
        else if t = rstr ''java.sql.Time'' then Some ItTime
        else if t = rstr ''java.util.UUID'' then Some ItUuid
        else if t = rstr ''byte[]'' then Some ItBinary
        else if t = rstr ''java.lang.Integer'' then Some ItInt
        else if t = rstr ''java.lang.Boolean'' then Some ItBool
        else if t = rstr ''java.math.BigDecimal'' then Some (ItDecimal (qf_precision f) (qf_scale f))
        else None)"

text \<open>The error of an unknown type is its name: \<open>Unknown field type: {}\<close>.\<close>

fun convert_fields :: "query_field list \<Rightarrow> rstring + ignite_field list" where
  "convert_fields [] = Inr []"
| "convert_fields (f # fs) = (case convert_type f of
      None \<Rightarrow> Inl (qf_type_name f)
    | Some t \<Rightarrow> (case convert_fields fs of
        Inl e \<Rightarrow> Inl e
      | Inr rest \<Rightarrow> Inr (\<lparr>field_name = qf_name f, field_type = t\<rparr> # rest)))"

definition infer_schemas :: "query_entity \<Rightarrow> rstring + complex_object_schema \<times> complex_object_schema" where
  "infer_schemas entity =
    (let key_fields = filter (\<lambda>f. qf_key_field f \<or> qe_key_field entity = qf_name f) (qe_query_fields entity);
         val_fields = filter (\<lambda>f. \<not> qf_key_field f \<and> qe_key_field entity \<noteq> qf_name f) (qe_query_fields entity)
     in case convert_fields key_fields of
          Inl e \<Rightarrow> Inl e
        | Inr ks \<Rightarrow> (case convert_fields val_fields of
            Inl e \<Rightarrow> Inl e
          | Inr vs \<Rightarrow> Inr (\<lparr>schema_type_name = qe_key_type entity, schema_fields = ks\<rparr>,
                           \<lparr>schema_type_name = qe_value_type entity, schema_fields = vs\<rparr>)))"

section \<open>The nested encodings are codecs\<close>

lemma read_type_string_laws: "shrinks 0 (read_type read_string tc)" "fueled L (read_type read_string tc)"
  unfolding read_type_def by (auto intro!: progress_intros fuel_intros split: type_code.split)

lemma shrinks_string_read [progress_intros]: "shrinks 0 string_read"
  unfolding string_read_def by (rule shrinks_readable_read) (rule read_type_string_laws)

lemma fueled_string_read [fuel_intros]: "fueled L string_read"
  unfolding string_read_def by (rule fueled_readable_read) (rule read_type_string_laws)

lemma string_read_write: "ok_string v \<Longrightarrow> string_read (write_string_type_code v @ s) = Ok (Some v) s"
  using w_string.read_write [of v s] by (simp add: string_read_def string_write_def write_string_type_code_def write_string_def)

lemma string_read_null: "string_read (write_null @ s) = Ok None s"
  by (simp add: string_read_def write_null_def readable_read_null)

interpretation c_string: codec write_string_type_code string_unwrap ok_string
  by unfold_locales
    (auto simp: string_unwrap_def rbind_Ok string_read_write intro!: progress_intros fuel_intros split: option.split)

interpretation c_optional_string: codec write_optional_string string_or_empty ok_string
  by unfold_locales
    (auto simp: string_or_empty_def write_optional_string_def rmap_Ok string_read_write string_read_null
      intro!: progress_intros fuel_intros)

text \<open>A counted sequence of a codec is a codec.\<close>

definition ok_counted :: "('a \<Rightarrow> bool) \<Rightarrow> 'a list \<Rightarrow> bool" where
  "ok_counted p xs \<longleftrightarrow> list_all p xs \<and> length xs < 2 ^ 31"

context codec
begin

lemma counted: "codec (write_counted enc) (read_counted dec) (ok_counted ok)"
proof
  show "ok_counted ok xs \<Longrightarrow> read_counted dec (write_counted enc xs @ s) = Ok xs s" for xs s
    by (simp add: read_counted_def write_counted_def ok_counted_def rbind_Ok len_casts repeat_dec_enc)
  show "shrinks 0 (read_counted dec)"
    unfolding read_counted_def by (intro progress_intros dec_shrinks)
  show "fueled L (read_counted dec)" for L
    unfolding read_counted_def by (intro progress_intros fuel_intros dec_shrinks dec_fueled)
qed

end

lemmas counted_codecs_defs [abs_def] =
  write_cache_key_configs_def read_cache_key_configs_def write_query_fields_def read_query_fields_def
  write_field_aliases_def read_query_field_aliases_def write_query_index_fields_def read_query_index_fields_def
  write_query_indexes_def read_query_indexes_def write_query_entities_def read_query_entities_def

definition ok_key_config :: "cache_key_configuration \<Rightarrow> bool" where
  "ok_key_config c \<longleftrightarrow> ok_string (ckc_type_name c) \<and> ok_string (ckc_affinity_key_field_name c)"

definition ok_query_field :: "query_field \<Rightarrow> bool" where
  "ok_query_field f \<longleftrightarrow> ok_string (qf_name f) \<and> ok_string (qf_type_name f)"

definition ok_alias :: "rstring \<times> rstring \<Rightarrow> bool" where
  "ok_alias a \<longleftrightarrow> ok_string (fst a) \<and> ok_string (snd a)"

definition ok_index :: "query_index \<Rightarrow> bool" where
  "ok_index i \<longleftrightarrow> ok_string (qi_name i) \<and> ok_counted (\<lambda>f. ok_string (fst f)) (qi_fields i)"

text \<open>The table must be named, and the default value of an entity is not on the wire.\<close>

definition ok_entity :: "query_entity \<Rightarrow> bool" where
  "ok_entity e \<longleftrightarrow> ok_string (qe_key_type e) \<and> ok_string (qe_value_type e) \<and> ok_string (qe_table e) \<and>
     qe_table e \<noteq> [] \<and> ok_string (qe_key_field e) \<and> ok_string (qe_value_field e) \<and>
     ok_counted ok_query_field (qe_query_fields e) \<and> ok_counted ok_alias (qe_field_aliases e) \<and>
     ok_counted ok_index (qe_query_indexes e) \<and> qe_default_value e = None"

lemma read_object_null: "read_object (write_null @ s) = Ok (Some ()) s"
  by (simp add: read_object_def write_null_def rbind_Ok type_code_try_from_u8 del: type_code_u8.simps)

lemma read_object_laws: "shrinks 0 read_object" "fueled L read_object"
  unfolding read_object_def
  by (auto intro!: progress_intros fuel_intros split: option.split type_code.split)

lemma index_type_laws:
  "index_type_try_from (index_type_u8 t) = ret t" "shrinks 0 (index_type_try_from b)" "fueled L (index_type_try_from b)"
  by (cases t) (auto simp: index_type_try_from_def intro!: progress_intros fuel_intros)

lemmas codec_laws = progress_intros read_object_laws index_type_laws(2,3) fuel_intros c_string.dec_shrinks c_string.dec_fueled
  c_optional_string.dec_shrinks c_optional_string.dec_fueled bool.dec_fueled

interpretation c_key_config: codec write_cache_key_config read_cache_key_config ok_key_config
  by unfold_locales
    (auto simp: write_cache_key_config_def read_cache_key_config_def ok_key_config_def rbind_Ok c_string.dec_enc
      intro!: codec_laws)

interpretation c_query_field: codec write_query_field read_query_field ok_query_field
  by unfold_locales
    (auto simp: write_query_field_def read_query_field_def ok_query_field_def rbind_Ok c_string.dec_enc
      read_object_null intro!: codec_laws)

interpretation c_alias: codec write_field_alias read_field_alias ok_alias
  by unfold_locales
    (auto simp: write_field_alias_def read_field_alias_def ok_alias_def rbind_Ok c_string.dec_enc
      intro!: codec_laws)

interpretation c_index_field: codec write_index_field read_index_field "\<lambda>f. ok_string (fst f)"
  by unfold_locales
    (auto simp: write_index_field_def read_index_field_def rbind_Ok c_string.dec_enc intro!: codec_laws)

interpretation c_key_configs: codec write_cache_key_configs read_cache_key_configs "ok_counted ok_key_config"
  unfolding counted_codecs_defs by (rule c_key_config.counted)

interpretation c_query_fields: codec write_query_fields read_query_fields "ok_counted ok_query_field"
  unfolding counted_codecs_defs by (rule c_query_field.counted)

interpretation c_aliases: codec write_field_aliases read_query_field_aliases "ok_counted ok_alias"
  unfolding counted_codecs_defs by (rule c_alias.counted)

interpretation c_index_fields: codec write_query_index_fields read_query_index_fields
    "ok_counted (\<lambda>f. ok_string (fst f))"
  unfolding counted_codecs_defs by (rule c_index_field.counted)

interpretation c_index: codec write_query_index read_query_index ok_index
  by unfold_locales
    (auto simp: write_query_index_def read_query_index_def ok_index_def rbind_Ok c_string.dec_enc
      index_type_laws(1) c_index_fields.dec_enc
      intro!: codec_laws c_index_fields.dec_shrinks c_index_fields.dec_fueled)

interpretation c_indexes: codec write_query_indexes read_query_indexes "ok_counted ok_index"
  unfolding counted_codecs_defs(9,10) by (rule c_index.counted)

lemma write_optional_named: "v \<noteq> [] \<Longrightarrow> write_optional_string v = write_string_type_code v"
  by (simp add: write_optional_string_def)

interpretation c_entity: codec write_query_entity read_query_entity ok_entity
proof
  show "read_query_entity (write_query_entity e @ s) = Ok e s" if "ok_entity e" for e s
    using that
    by (simp add: write_query_entity_def read_query_entity_def ok_entity_def rbind_Ok write_optional_named
      c_string.dec_enc c_optional_string.dec_enc c_query_fields.dec_enc c_aliases.dec_enc c_indexes.dec_enc)
  show "shrinks 0 read_query_entity"
    unfolding read_query_entity_def
    by (intro codec_laws c_query_fields.dec_shrinks c_aliases.dec_shrinks c_indexes.dec_shrinks)
  show "fueled L read_query_entity" for L
    unfolding read_query_entity_def
    by (intro codec_laws c_query_fields.dec_shrinks c_aliases.dec_shrinks c_indexes.dec_shrinks
        c_query_fields.dec_fueled c_aliases.dec_fueled c_indexes.dec_fueled)
qed

interpretation c_entities: codec write_query_entities read_query_entities "ok_counted ok_entity"
  unfolding counted_codecs_defs(11,12) by (rule c_entity.counted)


section \<open>The layout of the server's answer\<close>

text \<open>The protocol's layout of a configuration in an answer: the properties by position, an absent string
  as a null, absent lists as empty ones, an absent policy as \<open>false\<close>.\<close>

definition server_opt_string :: "rstring option \<Rightarrow> bytes" where
  "server_opt_string v = (case v of None \<Rightarrow> write_null | Some x \<Rightarrow> write_string_type_code x)"

definition server_policy :: "expiry_policy option \<Rightarrow> bytes" where
  "server_policy p = (case p of None \<Rightarrow> write_bool False | Some x \<Rightarrow> write_expiry_policy x)"

definition server_list :: "'a list option \<Rightarrow> 'a list" where
  "server_list v = (case v of None \<Rightarrow> [] | Some xs \<Rightarrow> xs)"

definition server_configuration :: "cache_configuration \<Rightarrow> bytes" where
  "server_configuration c =
    write_i32 (atomicity_mode_i32 (cc_atomicity_mode c)) @
    write_i32 (cc_num_backup c) @
    write_i32 (cache_mode_i32 (cc_cache_mode c)) @
    write_bool (cc_copy_on_read c) @
    server_opt_string (cc_data_region_name c) @
    write_bool (cc_eager_ttl c) @
    write_bool (cc_statistics_enabled c) @
    server_opt_string (cc_group_name c) @
    write_i64 (cc_default_lock_timeout_ms c) @
    write_i32 (cc_max_concurrent_async_operations c) @
    write_i32 (cc_max_query_iterators c) @
    write_string_type_code (cc_name c) @
    write_bool (cc_onheap_cache_enabled c) @
    write_i32 (partition_loss_policy_i32 (cc_partition_loss_policy c)) @
    write_i32 (cc_query_detail_metrics_size c) @
    write_i32 (cc_query_parallelism c) @
    write_bool (cc_read_from_backup c) @
    write_i32 (cc_rebalance_batch_size c) @
    write_i64 (cc_rebalance_batches_prefetch_count c) @
    write_i64 (cc_rebalance_delay_ms c) @
    write_i32 (rebalance_mode_i32 (cc_rebalance_mode c)) @
    write_i32 (cc_rebalance_order c) @
    write_i64 (cc_rebalance_throttle_ms c) @
    write_i64 (cc_rebalance_timeout_ms c) @
    write_bool (cc_sql_escape_all c) @
    write_i32 (cc_sql_index_max_size c) @
    server_opt_string (cc_sql_schema c) @
    write_i32 (write_synchronization_mode_i32 (cc_write_synchronization_mode c)) @
    write_cache_key_configs (server_list (cc_cache_key_configurations c)) @
    write_query_entities (server_list (cc_query_entities c)) @
    server_policy (cc_expiry_policy c)"

text \<open>What the client makes of it: lists are always there, durations are whole milliseconds.\<close>

definition canonical_policy :: "expiry_policy \<Rightarrow> expiry_policy" where
  "canonical_policy p = \<lparr>create = from_wire (to_wire (create p)), update = from_wire (to_wire (update p)),
     access = from_wire (to_wire (access p))\<rparr>"

definition canonical_configuration :: "cache_configuration \<Rightarrow> cache_configuration" where
  "canonical_configuration c = c\<lparr>
     cc_cache_key_configurations := Some (server_list (cc_cache_key_configurations c)),
     cc_query_entities := Some (server_list (cc_query_entities c)),
     cc_expiry_policy := map_option canonical_policy (cc_expiry_policy c)\<rparr>"

definition ok_configuration :: "cache_configuration \<Rightarrow> bool" where
  "ok_configuration c \<longleftrightarrow> ok_string (cc_name c) \<and>
     pred_option ok_string (cc_data_region_name c) \<and> pred_option ok_string (cc_group_name c) \<and>
     pred_option ok_string (cc_sql_schema c) \<and>
     ok_counted ok_key_config (server_list (cc_cache_key_configurations c)) \<and>
     ok_counted ok_entity (server_list (cc_query_entities c))"

lemma enum_try_from_casts [simp]:
  "atomicity_mode_try_from (atomicity_mode_i32 am) = ret am"
  "cache_mode_try_from (cache_mode_i32 cm) = ret cm"
  "partition_loss_policy_try_from (partition_loss_policy_i32 pl) = ret pl"
  "rebalance_mode_try_from (rebalance_mode_i32 rm) = ret rm"
  "write_synchronization_mode_try_from (write_synchronization_mode_i32 ws) = ret ws"
  by (cases am, simp_all add: atomicity_mode_try_from_def)
    (cases cm, simp_all add: cache_mode_try_from_def,
     cases pl, simp_all add: partition_loss_policy_try_from_def,
     cases rm, simp_all add: rebalance_mode_try_from_def,
     cases ws, simp_all add: write_synchronization_mode_try_from_def)

lemma server_opt_string_read: "pred_option ok_string v \<Longrightarrow> string_read (server_opt_string v @ s) = Ok v s"
  by (cases v) (simp_all add: server_opt_string_def string_read_null string_read_write)

lemma read_name_write: "ok_string v \<Longrightarrow> read_name (write_string_type_code v @ s) = Ok v s"
  by (simp add: read_name_def rbind_Ok string_read_write)

lemma server_policy_read:
  "read_expiry_policy (server_policy p @ s) = Ok (map_option canonical_policy p) s"
  by (cases p)
    (simp_all add: server_policy_def write_expiry_policy_def read_expiry_policy_def rbind_Ok [where m = read_bool, OF read_bool_write] rbind_Ok canonical_policy_def)

lemma read_server_configuration:
  assumes "ok_configuration c"
  shows "read_cache_configuration (server_configuration c @ s) = Ok (canonical_configuration c) s"
proof -
  from assms have ok: "ok_string (cc_name c)" "pred_option ok_string (cc_data_region_name c)"
    "pred_option ok_string (cc_group_name c)" "pred_option ok_string (cc_sql_schema c)"
    "ok_counted ok_key_config (server_list (cc_cache_key_configurations c))"
    "ok_counted ok_entity (server_list (cc_query_entities c))"
    by (simp_all add: ok_configuration_def)
  note reads = server_opt_string_read [OF ok(2)] server_opt_string_read [OF ok(3)] server_opt_string_read [OF ok(4)]
    read_name_write [OF ok(1)] c_key_configs.dec_enc [OF ok(5)] c_entities.dec_enc [OF ok(6)] server_policy_read
  show ?thesis
    unfolding server_configuration_def read_cache_configuration_def
    by (simp add: rbind_Ok reads rbind_assoc canonical_configuration_def)
qed

section \<open>Announced sizes\<close>

lemma length_write_string_type_code [simp]: "length (write_string_type_code v) = 5 + str_len v"
  by (simp add: write_string_type_code_def str_len_def)

lemma config_param_len_nat:
  "config_param_len c = word_of_nat (length (mandatory_properties c @ optional_properties c))"
  by (simp add: config_param_len_def mandatory_properties_def optional_properties_def opt_property_def
    MIN_CONFIG_PARAMS_def split: option.split)

lemma property_count: "length (optional_properties c) \<le> 6"
  by (simp add: optional_properties_def opt_property_def split: option.split)

lemma property_codes_inject: "config_property_code_i16 a = config_property_code_i16 b \<longleftrightarrow> a = b"
  by (cases a; cases b; simp)

lemma property_codes_distinct: "distinct (map fst (mandatory_properties c @ optional_properties c))"
  by (simp add: mandatory_properties_def optional_properties_def opt_property_def split: option.split)

section \<open>Properties\<close>

text \<open>The block of a list of properties: each its code and its value.\<close>

definition property_block :: "(config_property_code \<times> bytes) list \<Rightarrow> bytes" where
  "property_block ps = concat (map (\<lambda>(code, v). write_i16 (config_property_code_i16 code) @ v) ps)"

text \<open>What a \<open>CACHE_GET_OR_CREATE_WITH_CONFIG\<close> carries. The bytes of a configuration are the length of the
  property block, the number of properties in it, and the block, in which the twenty-five mandatory
  properties are followed by those of the options that are set: the counter the code keeps by hand and
  increments for every option is the number of properties written. There are at most thirty-one of them,
  and no two share a code.\<close>

theorem configuration_announced:
  "let ps = mandatory_properties c @ optional_properties c in
     get_cache_configuration_bytes c =
       write_i32 (i32_of_usize (length (property_block ps))) @ write_i16 (word_of_nat (length ps)) @ property_block ps \<and>
     25 \<le> length ps \<and> length ps \<le> 31 \<and> distinct (map (\<lambda>p. config_property_code_i16 (fst p)) ps)"
proof -
  let ?ps = "mandatory_properties c @ optional_properties c"
  have m: "length (mandatory_properties c) = 25" by (simp add: mandatory_properties_def)
  have opts: "config_opts c = property_block ?ps"
    by (simp add: config_opts_def config_property_def property_block_def)
  have "distinct (map config_property_code_i16 (map fst ?ps))"
    using property_codes_distinct [of c]
    by (simp only: distinct_map [of config_property_code_i16]) (simp add: inj_on_def property_codes_inject)
  then have "distinct (map (\<lambda>p. config_property_code_i16 (fst p)) ?ps)" by (simp add: comp_def)
  with m property_count [of c] show ?thesis
    by (simp only: Let_def get_cache_configuration_bytes_def opts config_param_len_nat length_append) simp
qed

text \<open>The configuration of a server's answer is read by position: from the layout of the protocol the
  client recovers every field of the configuration, the lists always present and the durations of an
  expiry policy in whole milliseconds, and leaves the rest of the stream; \<open>CACHE_GET_CONFIGURATION\<close> only
  skips the length before it.\<close>

theorem configuration_read_back:
  assumes "ok_configuration c"
  shows "read_cache_configuration (server_configuration c @ s) = Ok (canonical_configuration c) s \<and>
    get_config_read (write_i32 n @ server_configuration c @ s) = Ok (canonical_configuration c) s"
  using read_server_configuration [OF assms] by (simp add: get_config_read_def rbind_Ok)

definition sample_entity :: query_entity where
  "sample_entity =
    add_query_index
      (add_field_alias
        (add_query_field (set_key_field_name (set_table_name (query_entity_new [75] [86]) [84]) [105])
          ((query_field_new [105] (rstr ''java.lang.Integer''))\<lparr>qf_key_field := True\<rparr>))
        [105] [120])
      (add_index_field (query_index_new [97] IxFulltext) [105] True)"

lemmas builder_defs = query_entity_new_def set_table_name_def set_key_field_name_def set_value_field_name_def
  set_query_fields_def add_query_field_def set_field_aliases_def add_field_alias_def set_query_indexes_def
  add_query_index_def query_field_new_def query_index_new_def add_index_field_def

lemma ok_string_ascii: "list_all (\<lambda>c. c < 128) v \<Longrightarrow> length v < 2 ^ 31 \<Longrightarrow> ok_string v"
proof -
  assume a: "list_all (\<lambda>c. c < 128) v" and l: "length v < 2 ^ 31"
  from a have "valid_rstring v" by (auto simp: valid_rstring_def scalar_def list_all_iff)
  moreover from a have "str_len v = length v"
    by (induction v) (simp_all add: str_len_def utf8_encode_def utf8_char_def)
  ultimately show ?thesis using l by (simp add: ok_string_def)
qed

lemma sample_entity_ok: "ok_entity sample_entity"
  by (simp add: sample_entity_def builder_defs ok_entity_def ok_counted_def ok_query_field_def ok_alias_def ok_index_def
    ok_string_ascii rstr_def)

theorem configuration_read_back_witness:
  "read_cache_configuration (server_configuration (config_new [99]\<lparr>cc_query_entities := Some [sample_entity],
       cc_expiry_policy := Some (created 2500000)\<rparr>) @ [7]) =
     Ok (config_new [99]\<lparr>cc_query_entities := Some [sample_entity], cc_cache_key_configurations := Some [],
       cc_expiry_policy := Some (created 2000000)\<rparr>) [7]"
  using configuration_read_back [of "config_new [99]\<lparr>cc_query_entities := Some [sample_entity],
       cc_expiry_policy := Some (created 2500000)\<rparr>" "[7]" 0]
  by (simp add: ok_configuration_def config_new_def config_default_def ok_counted_def server_list_def
    sample_entity_ok ok_string_ascii canonical_configuration_def canonical_policy_def created_def from_wire_def
    as_millis_def from_millis_def)

text \<open>Query entities round-trip, whatever the strings, fields, aliases and indexes in them, when the table
  is named. An entity with an empty table name is written with a null there, and the reader, which unwraps
  the table name, panics on what the writer wrote.\<close>

theorem query_entities_round_trip:
  "(ok_counted ok_entity es \<longrightarrow> read_query_entities (write_query_entities es @ s) = Ok es s) \<and>
   (ok_string (qe_key_type e) \<and> ok_string (qe_value_type e) \<and> qe_table e = [] \<longrightarrow>
     read_query_entity (write_query_entity e @ s) = Panic)"
proof -
  have "string_unwrap (write_null @ t) = Panic" for t
    by (simp add: string_unwrap_def rbind_Ok string_read_null)
  then show ?thesis
    by (simp add: c_entities.dec_enc read_query_entity_def write_query_entity_def write_optional_string_def rbind_Ok
        c_string.dec_enc rbind_Panic)
qed

theorem query_entities_round_trip_witness:
  "read_query_entities (write_query_entities [sample_entity, sample_entity] @ [1]) = Ok [sample_entity, sample_entity] [1] \<and>
   read_query_entity (write_query_entity (sample_entity\<lparr>qe_table := []\<rparr>) @ [1]) = Panic"
  using query_entities_round_trip [of "[sample_entity, sample_entity]" "[1]" "sample_entity\<lparr>qe_table := []\<rparr>"]
    sample_entity_ok
  by (simp add: ok_counted_def ok_entity_def)

lemma sint_of_millis: "n < 2 ^ 63 \<Longrightarrow> sint (word_of_nat n :: i64) = int n"
  by (simp add: signed_of_nat signed_take_bit_int_eq_self_iff)

lemma unat_of_millis: "n < 2 ^ 63 \<Longrightarrow> unat (word_of_nat n :: i64) = n"
  by (simp add: unat_of_nat take_bit_nat_eq_self_iff)

lemma i64_eq_sint: "(v :: i64) = w \<longleftrightarrow> sint v = sint w"
  by (auto intro: signed_word_eqI)

lemma from_wire_sint:
  "from_wire v = (if sint v = - 2 then Unchanged else if sint v = - 1 then Eternal else if sint v = 0 then ZeroDuration
     else if 0 < sint v then Millis (from_millis (unat v)) else Unchanged)"
  by (simp add: from_wire_def i64_eq_sint)

text \<open>Expiry durations on the wire. A duration of at least one and less than \<open>2 ^ 63\<close> milliseconds comes
  back in whole milliseconds, a shorter one comes back as the zero duration, and the three special values
  come back as they are; a received number is sent back unchanged exactly when it is not below \<open>-2\<close>. A
  duration of \<open>2 ^ 64 - 1\<close> milliseconds, which \<open>Duration\<close> can hold, is sent as "eternal".\<close>

theorem expiry_wire:
  "from_wire (to_wire Unchanged) = Unchanged \<and> from_wire (to_wire Eternal) = Eternal \<and>
   from_wire (to_wire ZeroDuration) = ZeroDuration \<and>
   (as_millis d < 2 ^ 63 \<longrightarrow> from_wire (to_wire (Millis d)) =
      (if d < 1000000 then ZeroDuration else Millis (d div 1000000 * 1000000))) \<and>
   (to_wire (from_wire v) = v \<longleftrightarrow> - 2 \<le> sint v) \<and>
   from_wire (to_wire (Millis (from_millis (2 ^ 64 - 1)))) = Eternal"
proof (intro conjI)
  show "as_millis d < 2 ^ 63 \<longrightarrow> from_wire (to_wire (Millis d)) =
      (if d < 1000000 then ZeroDuration else Millis (d div 1000000 * 1000000))"
  proof
    assume "as_millis d < 2 ^ 63"
    note sint_of_millis [OF this] unat_of_millis [OF this]
    then show "from_wire (to_wire (Millis d)) =
      (if d < 1000000 then ZeroDuration else Millis (d div 1000000 * 1000000))"
      by (simp add: from_wire_sint from_millis_def) (simp add: as_millis_def div_eq_0_iff div_greater_zero_iff)
  qed
  show "to_wire (from_wire v) = v \<longleftrightarrow> - 2 \<le> sint v"
    by (auto simp: from_wire_sint as_millis_def from_millis_def i64_eq_sint)
qed (simp_all add: from_wire_def as_millis_def from_millis_def)

theorem expiry_wire_witness:
  "from_wire (to_wire (Millis 2500000)) = Millis 2000000 \<and> from_wire (to_wire (Millis 999999)) = ZeroDuration"
  using expiry_wire [of 2500000 0] expiry_wire [of 999999 0] by (simp add: as_millis_def)

lemma convert_fields_cases:
  "case convert_fields fs of
     Inl t \<Rightarrow> \<exists>f \<in> set fs. qf_type_name f = t \<and> convert_type f = None
   | Inr gs \<Rightarrow> map field_name gs = map qf_name fs \<and> map (\<lambda>g. Some (field_type g)) gs = map convert_type fs \<and>
       list_all (\<lambda>f. convert_type f \<noteq> None) fs"
  by (induction fs) (auto split: option.splits sum.splits)

text \<open>The fields of a query entity that belong to the key: those marked, and the key field by name.\<close>

definition is_key_field :: "query_entity \<Rightarrow> query_field \<Rightarrow> bool" where
  "is_key_field e f \<longleftrightarrow> qf_key_field f \<or> qe_key_field e = qf_name f"

text \<open>The schemas inferred from a query entity partition its fields: the key schema has the key fields
  and the value schema the others, in the order of the entity, under their names and with the types their
  Java type names stand for. Inference fails exactly when some field has an unknown type, and reports the
  type name of such a field.\<close>

theorem infer_schemas_spec:
  "case infer_schemas e of
     Inl t \<Rightarrow> \<exists>f \<in> set (qe_query_fields e). qf_type_name f = t \<and> convert_type f = None
   | Inr (k, v) \<Rightarrow>
       (let ks = filter (is_key_field e) (qe_query_fields e);
            vs = filter (\<lambda>f. \<not> is_key_field e f) (qe_query_fields e)
        in schema_type_name k = qe_key_type e \<and> schema_type_name v = qe_value_type e \<and>
           map field_name (schema_fields k) = map qf_name ks \<and> map field_name (schema_fields v) = map qf_name vs \<and>
           map (\<lambda>g. Some (field_type g)) (schema_fields k) = map convert_type ks \<and>
           map (\<lambda>g. Some (field_type g)) (schema_fields v) = map convert_type vs \<and>
           length (schema_fields k) + length (schema_fields v) = length (qe_query_fields e) \<and>
           list_all (\<lambda>f. convert_type f \<noteq> None) (qe_query_fields e))"
proof -
  let ?ks = "filter (is_key_field e) (qe_query_fields e)"
  let ?vs = "filter (\<lambda>f. \<not> is_key_field e f) (qe_query_fields e)"
  have unfold: "infer_schemas e = (case convert_fields ?ks of Inl t \<Rightarrow> Inl t | Inr ks \<Rightarrow>
      (case convert_fields ?vs of Inl t \<Rightarrow> Inl t | Inr vs \<Rightarrow>
        Inr (\<lparr>schema_type_name = qe_key_type e, schema_fields = ks\<rparr>,
             \<lparr>schema_type_name = qe_value_type e, schema_fields = vs\<rparr>)))"
    unfolding infer_schemas_def is_key_field_def [abs_def] Let_def de_Morgan_disj ..
  note k = convert_fields_cases [of ?ks] and v = convert_fields_cases [of ?vs]
  show ?thesis
  proof (cases "convert_fields ?ks")
    case (Inl t)
    with k show ?thesis by (auto simp: unfold)
  next
    case ks: (Inr gs)
    show ?thesis
    proof (cases "convert_fields ?vs")
      case (Inl t)
      with v ks show ?thesis by (auto simp: unfold)
    next
      case (Inr hs)
      with k v ks have maps: "map field_name gs = map qf_name ?ks" "map (\<lambda>g. Some (field_type g)) gs = map convert_type ?ks"
        "map field_name hs = map qf_name ?vs" "map (\<lambda>g. Some (field_type g)) hs = map convert_type ?vs"
        and all: "list_all (\<lambda>f. convert_type f \<noteq> None) ?ks" "list_all (\<lambda>f. convert_type f \<noteq> None) ?vs"
        by simp_all
      have "convert_type f \<noteq> None" if "f \<in> set (qe_query_fields e)" for f
        using that all by (cases "is_key_field e f") (simp_all add: list_all_iff)
      moreover have "length gs + length hs = length (qe_query_fields e)"
        using maps(1,3) [THEN arg_cong [where f = length]] sum_length_filter_compl [of "is_key_field e" "qe_query_fields e"]
        by simp
      ultimately show ?thesis using maps ks Inr by (simp add: unfold list_all_iff)
    qed
  qed
qed

text \<open>Every cache management request writes as many bytes as it announces.\<close>

theorem config_requests_announced: "length (config_request_write r) = config_request_size r"
  by (cases r) simp_all

end
