(* ===== verification/Text.thy ===== *)
theory Text
  imports Prelude
begin

text \<open>
  The parts of \<open>str\<close> and of the formatting macros the sources use: decimal output and input, trimming,
  searching and splitting. A string is the list of its scalar values.
\<close>

section \<open>Decimal numbers\<close>

text \<open>\<open>format!(\<lbrace>\<rbrace>)\<close> of an unsigned and of a signed number.\<close>

fun fmt_nat :: "nat \<Rightarrow> rstring" where
  "fmt_nat n = (if n < 10 then [48 + n] else fmt_nat (n div 10) @ [48 + n mod 10])"

declare fmt_nat.simps [simp del]

definition fmt_int :: "int \<Rightarrow> rstring" where
  "fmt_int i = (if i < 0 then 45 # fmt_nat (nat (- i)) else fmt_nat (nat i))"

definition is_digit :: "nat \<Rightarrow> bool" where
  "is_digit c \<longleftrightarrow> 48 \<le> c \<and> c \<le> 57"

text \<open>\<open>str::parse::<u16>\<close>: an optional plus sign, at least one digit, nothing else, and no overflow.\<close>

fun digits_value :: "nat \<Rightarrow> rstring \<Rightarrow> nat" where
  "digits_value acc [] = acc"
| "digits_value acc (c # cs) = digits_value (acc * 10 + (c - 48)) cs"

definition strip_plus :: "rstring \<Rightarrow> rstring" where
  "strip_plus s = (case s of c # cs \<Rightarrow> if c = 43 then cs else s | [] \<Rightarrow> s)"

definition parse_u16 :: "rstring \<Rightarrow> u16 option" where
  "parse_u16 s = (let ds = strip_plus s
     in if ds \<noteq> [] \<and> list_all is_digit ds \<and> digits_value 0 ds < 2 ^ 16
        then Some (word_of_nat (digits_value 0 ds)) else None)"

section \<open>Trimming, searching, splitting\<close>

text \<open>\<open>char::is_whitespace\<close>.\<close>

definition is_whitespace :: "nat \<Rightarrow> bool" where
  "is_whitespace c \<longleftrightarrow> 9 \<le> c \<and> c \<le> 13 \<or> c = 32 \<or> c = 133 \<or> c = 160 \<or> c = 5760 \<or>
     8192 \<le> c \<and> c \<le> 8202 \<or> c = 8232 \<or> c = 8233 \<or> c = 8239 \<or> c = 8287 \<or> c = 12288"

definition trim :: "rstring \<Rightarrow> rstring" where
  "trim s = rev (dropWhile is_whitespace (rev (dropWhile is_whitespace s)))"

definition strip_prefix :: "nat \<Rightarrow> rstring \<Rightarrow> rstring option" where
  "strip_prefix c s = (case s of d # ds \<Rightarrow> if d = c then Some ds else None | [] \<Rightarrow> None)"

text \<open>\<open>find\<close> of a character and the two halves around it.\<close>

definition split_at_char :: "nat \<Rightarrow> rstring \<Rightarrow> (rstring \<times> rstring) option" where
  "split_at_char c s = (if c \<in> set s then Some (takeWhile (\<lambda>d. d \<noteq> c) s, tl (dropWhile (\<lambda>d. d \<noteq> c) s)) else None)"

definition rsplit_once :: "nat \<Rightarrow> rstring \<Rightarrow> (rstring \<times> rstring) option" where
  "rsplit_once c s = map_option (\<lambda>(a, b). (rev b, rev a)) (split_at_char c (rev s))"

text \<open>\<open>split_once("..")\<close>: at the first two dots.\<close>

fun split_dots :: "rstring \<Rightarrow> (rstring \<times> rstring) option" where
  "split_dots (c # d # s) =
    (if c = 46 \<and> d = 46 then Some ([], s) else map_option (\<lambda>(a, b). (c # a, b)) (split_dots (d # s)))"
| "split_dots s = None"

section \<open>Facts\<close>

lemma digits_value_append: "digits_value a (xs @ ys) = digits_value (digits_value a xs) ys"
  by (induction xs arbitrary: a) simp_all

lemma fmt_nat_digits: "list_all is_digit (fmt_nat n)"
proof (induction n rule: fmt_nat.induct)
  case (1 n)
  then show ?case by (subst fmt_nat.simps) (auto simp: list_all_iff is_digit_def)
qed

lemma fmt_nat_value: "digits_value 0 (fmt_nat n) = n"
proof (induction n rule: fmt_nat.induct)
  case (1 n)
  then show ?case by (subst fmt_nat.simps) (auto simp: digits_value_append)
qed

lemma fmt_nat_nonempty [simp]: "fmt_nat n \<noteq> []"
  by (subst fmt_nat.simps) simp

lemma digit_not: "is_digit c \<Longrightarrow> c \<noteq> 43 \<and> c \<noteq> 46 \<and> c \<noteq> 58 \<and> c \<noteq> 91 \<and> c \<noteq> 93"
  by (simp add: is_digit_def)

lemma fmt_nat_chars: "c \<in> set (fmt_nat n) \<Longrightarrow> is_digit c"
  using fmt_nat_digits [of n] by (simp add: list_all_iff)

lemma strip_plus_digits: "list_all is_digit ds \<Longrightarrow> strip_plus ds = ds"
  by (auto simp: strip_plus_def is_digit_def split: list.split)

lemma parse_u16_fmt: "parse_u16 (fmt_nat (unat p)) = Some p"
  using unsigned_less [of p, where 'a = nat]
  by (simp add: parse_u16_def strip_plus_digits fmt_nat_digits fmt_nat_value)

lemma split_at_char_first: "c \<notin> set a \<Longrightarrow> split_at_char c (a @ c # b) = Some (a, b)"
proof -
  assume "c \<notin> set a"
  then have "takeWhile (\<lambda>d. d \<noteq> c) (a @ c # b) = a" "dropWhile (\<lambda>d. d \<noteq> c) (a @ c # b) = c # b"
    by (induction a) auto
  then show ?thesis by (simp add: split_at_char_def)
qed

lemma rsplit_once_last: "c \<notin> set b \<Longrightarrow> rsplit_once c (a @ c # b) = Some (a, b)"
  by (simp add: rsplit_once_def split_at_char_first)

lemma split_at_char_parts:
  "split_at_char c s = Some (a, b) \<Longrightarrow> s = a @ c # b \<and> c \<notin> set a"
proof -
  assume "split_at_char c s = Some (a, b)"
  then have a: "a = takeWhile (\<lambda>d. d \<noteq> c) s" and b: "b = tl (dropWhile (\<lambda>d. d \<noteq> c) s)" and m: "c \<in> set s"
    by (auto simp: split_at_char_def split: if_splits)
  from m have "dropWhile (\<lambda>d. d \<noteq> c) s \<noteq> []" by (simp add: dropWhile_eq_Nil_conv)
  moreover from this have "hd (dropWhile (\<lambda>d. d \<noteq> c) s) = c" using hd_dropWhile by blast
  ultimately have "dropWhile (\<lambda>d. d \<noteq> c) s = c # b" unfolding b by (metis list.collapse)
  then have "s = a @ c # b" unfolding a by (metis takeWhile_dropWhile_id)
  moreover have "c \<notin> set a" unfolding a by (auto dest: set_takeWhileD)
  ultimately show ?thesis by blast
qed

lemma split_dots_Cons: "c \<noteq> 46 \<Longrightarrow> split_dots (c # s) = map_option (\<lambda>(a, b). (c # a, b)) (split_dots s)"
  by (cases s) simp_all

lemma split_dots_first: "46 \<notin> set a \<Longrightarrow> split_dots (a @ 46 # 46 # b) = Some (a, b)"
  by (induction a) (auto simp: split_dots_Cons)

end
