(* ===== verification/Connection.thy ===== *)
theory Connection
  imports Affinity Errors Text
begin

text \<open>
  The connection layer, \<open>ignite-rs/src/connection_async.rs\<close>: the handshake request and its answer, the
  feature bitmap, and the frames the response pump reads. Sockets are byte lists: what was written, and
  what is left to read. Timeouts and TLS are outside the model.
\<close>

section \<open>Constants\<close>

definition HANDSHAKE_OP_CODE :: u8 where "HANDSHAKE_OP_CODE = 1"
definition CLIENT_CODE :: u8 where "CLIENT_CODE = 2"
definition V_MAJOR :: i16 where "V_MAJOR = 1"
definition V_MINOR :: i16 where "V_MINOR = 7"
definition V_PATCH :: i16 where "V_PATCH = 0"
definition FLAG_ERROR :: i16 where "FLAG_ERROR = 1"
definition FLAG_AFFINITY_TOPOLOGY_CHANGED :: i16 where "FLAG_AFFINITY_TOPOLOGY_CHANGED = push_bit 1 1"
definition FLAG_NOTIFICATION :: i16 where "FLAG_NOTIFICATION = push_bit 2 1"

definition FEATURE_USER_ATTRIBUTES :: nat where "FEATURE_USER_ATTRIBUTES = 0"
definition FEATURE_EXECUTE_TASK_BY_NAME :: nat where "FEATURE_EXECUTE_TASK_BY_NAME = 1"
definition FEATURE_CLUSTER_STATES :: nat where "FEATURE_CLUSTER_STATES = 2"
definition FEATURE_NODE_ENDPOINTS :: nat where "FEATURE_NODE_ENDPOINTS = 3"
definition FEATURE_CLUSTER_GROUPS :: nat where "FEATURE_CLUSTER_GROUPS = 4"
definition FEATURE_SERVICE_INVOKE :: nat where "FEATURE_SERVICE_INVOKE = 5"
definition FEATURE_DEFAULT_QRY_TIMEOUT :: nat where "FEATURE_DEFAULT_QRY_TIMEOUT = 6"
definition FEATURE_QRY_PARTITIONS_BATCH_SIZE :: nat where "FEATURE_QRY_PARTITIONS_BATCH_SIZE = 7"
definition FEATURE_BINARY_CONFIGURATION :: nat where "FEATURE_BINARY_CONFIGURATION = 8"
definition FEATURE_GET_SERVICE_DESCRIPTORS :: nat where "FEATURE_GET_SERVICE_DESCRIPTORS = 9"
definition FEATURE_SERVICE_INVOKE_CALLCTX :: nat where "FEATURE_SERVICE_INVOKE_CALLCTX = 10"
definition FEATURE_HEARTBEAT :: nat where "FEATURE_HEARTBEAT = 11"
definition FEATURE_DATA_REPLICATION_OPERATIONS :: nat where "FEATURE_DATA_REPLICATION_OPERATIONS = 12"
definition FEATURE_ALL_AFFINITY_MAPPINGS :: nat where "FEATURE_ALL_AFFINITY_MAPPINGS = 13"
definition FEATURE_INDEX_QUERY :: nat where "FEATURE_INDEX_QUERY = 14"
definition FEATURE_INDEX_QUERY_LIMIT :: nat where "FEATURE_INDEX_QUERY_LIMIT = 15"
definition FEATURE_SERVICE_TOPOLOGY :: nat where "FEATURE_SERVICE_TOPOLOGY = 16"
definition FEATURE_CACHE_INVOKE :: nat where "FEATURE_CACHE_INVOKE = 17"
definition FEATURE_TX_AWARE_QUERIES :: nat where "FEATURE_TX_AWARE_QUERIES = 18"
definition FEATURE_FORCE_DEACTIVATION_FLAG :: nat where "FEATURE_FORCE_DEACTIVATION_FLAG = 19"
definition FEATURE_DC_AWARE :: nat where "FEATURE_DC_AWARE = 22"
definition FEATURE_QRY_INITIATOR_ID :: nat where "FEATURE_QRY_INITIATOR_ID = 23"

definition STATUS_SECURITY_VIOLATION :: i32 where "STATUS_SECURITY_VIOLATION = 1012"
definition STATUS_AUTH_FAILED :: i32 where "STATUS_AUTH_FAILED = 2000"

type_synonym version = "i16 \<times> i16 \<times> i16"

definition PARTITION_AWARENESS_VERSION :: version where "PARTITION_AWARENESS_VERSION = (1, 4, 0)"
definition TRANSACTIONS_VERSION :: version where "TRANSACTIONS_VERSION = (1, 5, 0)"
definition BITMAP_FEATURES_VERSION :: version where "BITMAP_FEATURES_VERSION = (1, 7, 0)"

text \<open>The order of Rust tuples of signed numbers.\<close>

fun version_le :: "version \<Rightarrow> version \<Rightarrow> bool" where
  "version_le (a, b, c) (a', b', c') \<longleftrightarrow>
    sint a < sint a' \<or> a = a' \<and> (sint b < sint b' \<or> b = b' \<and> sint c \<le> sint c')"

definition version_supports_partition_awareness :: "i16 \<Rightarrow> i16 \<Rightarrow> i16 \<Rightarrow> bool" where
  "version_supports_partition_awareness maj mnr patch = version_le PARTITION_AWARENESS_VERSION (maj, mnr, patch)"

definition version_supports_transactions :: "i16 \<Rightarrow> i16 \<Rightarrow> i16 \<Rightarrow> bool" where
  "version_supports_transactions maj mnr patch = version_le TRANSACTIONS_VERSION (maj, mnr, patch)"

definition version_supports_bitmap_features :: "i16 \<Rightarrow> i16 \<Rightarrow> i16 \<Rightarrow> bool" where
  "version_supports_bitmap_features maj mnr patch = version_le BITMAP_FEATURES_VERSION (maj, mnr, patch)"

section \<open>Feature bitmaps\<close>

definition set_feature_bit :: "bytes \<Rightarrow> nat \<Rightarrow> bytes" where
  "set_feature_bit fs n =
    (let byte_index = n div 8;
         fs' = (if length fs \<le> byte_index then fs @ replicate (byte_index + 1 - length fs) 0 else fs)
     in fs'[byte_index := (fs' ! byte_index) OR push_bit (n mod 8) 1])"

definition feature_supported :: "bytes \<Rightarrow> nat \<Rightarrow> bool" where
  "feature_supported fs n =
    (if n div 8 < length fs then (fs ! (n div 8)) AND push_bit (n mod 8) 1 \<noteq> 0 else False)"

text \<open>The part of \<open>ClientConfig\<close> the handshake reads; \<open>user_attributes\<close> is an ordered map.\<close>

record handshake_conf =
  hc_username :: "rstring option"
  hc_password :: "rstring option"
  hc_user_attributes :: "(rstring \<times> rstring) list"

definition IGNITE_DATA_CENTER_ID :: rstring where
  "IGNITE_DATA_CENTER_ID = rstr ''IGNITE_DATA_CENTER_ID''"

definition handshake_feature_bits :: "handshake_conf \<Rightarrow> nat list" where
  "handshake_feature_bits conf =
    (if hc_user_attributes conf \<noteq> [] then [FEATURE_USER_ATTRIBUTES] else []) @
    [FEATURE_EXECUTE_TASK_BY_NAME, FEATURE_CLUSTER_STATES, FEATURE_NODE_ENDPOINTS, FEATURE_CLUSTER_GROUPS,
     FEATURE_SERVICE_INVOKE, FEATURE_DEFAULT_QRY_TIMEOUT, FEATURE_QRY_PARTITIONS_BATCH_SIZE,
     FEATURE_BINARY_CONFIGURATION, FEATURE_GET_SERVICE_DESCRIPTORS, FEATURE_SERVICE_INVOKE_CALLCTX,
     FEATURE_HEARTBEAT, FEATURE_DATA_REPLICATION_OPERATIONS, FEATURE_ALL_AFFINITY_MAPPINGS, FEATURE_INDEX_QUERY,
     FEATURE_INDEX_QUERY_LIMIT, FEATURE_SERVICE_TOPOLOGY, FEATURE_CACHE_INVOKE, FEATURE_TX_AWARE_QUERIES,
     FEATURE_FORCE_DEACTIVATION_FLAG] @
    (if IGNITE_DATA_CENTER_ID \<in> fst ` set (hc_user_attributes conf)
     then [FEATURE_DC_AWARE, FEATURE_QRY_INITIATOR_ID] else [])"

definition handshake_features :: "handshake_conf \<Rightarrow> bytes" where
  "handshake_features conf = foldl set_feature_bit [] (handshake_feature_bits conf)"

section \<open>Handshake request\<close>

definition write_typed_byte_array :: "bytes \<Rightarrow> bytes" where
  "write_typed_byte_array v = write_u8 (type_code_u8 TcArrByte) @ write_i32 (i32_of_usize (length v)) @ v"

definition write_typed_string :: "rstring \<Rightarrow> bytes" where
  "write_typed_string v = write_string_type_code v"

definition write_user_attributes :: "(rstring \<times> rstring) list \<Rightarrow> bytes" where
  "write_user_attributes attributes = write_i32 (i32_of_usize (length attributes)) @
     concat (map (\<lambda>(k, v). write_string_type_code k @ write_string_type_code v) attributes)"

definition handshake_payload :: "handshake_conf \<Rightarrow> bytes" where
  "handshake_payload conf =
    write_u8 HANDSHAKE_OP_CODE @ write_i16 V_MAJOR @ write_i16 V_MINOR @ write_i16 V_PATCH @
    write_u8 CLIENT_CODE @ write_typed_byte_array (handshake_features conf) @
    (if hc_user_attributes conf \<noteq> [] then write_user_attributes (hc_user_attributes conf) else []) @
    (case hc_username conf of None \<Rightarrow> [] | Some user \<Rightarrow>
       write_typed_string user @
       write_typed_string (case hc_password conf of Some p \<Rightarrow> p | None \<Rightarrow> []))"

text \<open>The length prefix is written last, over four bytes reserved for it.\<close>

definition build_handshake_request :: "handshake_conf \<Rightarrow> bytes" where
  "build_handshake_request conf =
    (let buf = write_i32 0 @ handshake_payload conf
     in write_i32 (i32_of_usize (length buf - 4)) @ drop 4 buf)"

section \<open>Handshake answer\<close>

record connection_capabilities =
  partition_awareness :: bool
  node_endpoints :: bool
  heartbeat :: bool
  dc_aware :: bool
  query_partitions_batch_size :: bool
  query_initiator_id :: bool
  index_query_limit :: bool
  service_invoke_callctx :: bool
  transactions :: bool
  all_affinity_mappings :: bool
  force_deactivation_flag :: bool
  cache_invoke :: bool
  index_query :: bool
  execute_task_by_name :: bool
  cluster_groups :: bool
  cluster_states :: bool
  data_replication_operations :: bool
  get_service_descriptors :: bool
  service_invoke :: bool
  binary_configuration :: bool

record connection_metadata =
  capabilities :: connection_capabilities
  server_node_id :: "rstring option"

text \<open>Failures of the handshake and of requests: a decoding error, one with a kind of its own, or one whose
  message puts a prefix before that of its cause.\<close>

datatype conn_error = CDecode rerror | CError ignite_error | CCause string conn_error

definition read_typed_byte_array :: "bytes reader" where
  "read_typed_byte_array = rbind read_type_code (\<lambda>type_code.
     if type_code = TcNull then ret []
     else if type_code \<noteq> TcArrByte then fail (ExpectedGot ''byte array in handshake'' (type_code_u8 type_code))
     else rbind read_i32 (\<lambda>len.
       if sint len < 0 then fail (Ignite ''Negative byte array length'') else read_exact (usize_of_i32 len)))"

definition read_typed_string :: "rstring reader" where
  "read_typed_string = rbind read_type_code (\<lambda>type_code. case type_code of
       TcString \<Rightarrow> read_string
     | TcNull \<Rightarrow> ret []
     | _ \<Rightarrow> fail (ExpectedGot ''string in handshake'' (type_code_u8 type_code)))"

definition read_typed_uuid_string :: "rstring reader" where
  "read_typed_uuid_string = rbind read_type_code (\<lambda>type_code. case type_code of
       TcUuid \<Rightarrow> read_uuid_string
     | TcNull \<Rightarrow> fail (Ignite ''Missing server node id in handshake response'')
     | _ \<Rightarrow> fail (ExpectedGot ''UUID in handshake'' (type_code_u8 type_code)))"

definition capabilities_of :: "bytes \<Rightarrow> connection_capabilities" where
  "capabilities_of fs = \<lparr>
     partition_awareness = version_supports_partition_awareness V_MAJOR V_MINOR V_PATCH,
     node_endpoints = feature_supported fs FEATURE_NODE_ENDPOINTS,
     heartbeat = feature_supported fs FEATURE_HEARTBEAT,
     dc_aware = feature_supported fs FEATURE_DC_AWARE,
     query_partitions_batch_size = feature_supported fs FEATURE_QRY_PARTITIONS_BATCH_SIZE,
     query_initiator_id = feature_supported fs FEATURE_QRY_INITIATOR_ID,
     index_query_limit = feature_supported fs FEATURE_INDEX_QUERY_LIMIT,
     service_invoke_callctx = feature_supported fs FEATURE_SERVICE_INVOKE_CALLCTX,
     transactions = version_supports_transactions V_MAJOR V_MINOR V_PATCH,
     all_affinity_mappings = feature_supported fs FEATURE_ALL_AFFINITY_MAPPINGS,
     force_deactivation_flag = feature_supported fs FEATURE_FORCE_DEACTIVATION_FLAG,
     cache_invoke = feature_supported fs FEATURE_CACHE_INVOKE,
     index_query = feature_supported fs FEATURE_INDEX_QUERY,
     execute_task_by_name = feature_supported fs FEATURE_EXECUTE_TASK_BY_NAME,
     cluster_groups = feature_supported fs FEATURE_CLUSTER_GROUPS,
     cluster_states = feature_supported fs FEATURE_CLUSTER_STATES,
     data_replication_operations = feature_supported fs FEATURE_DATA_REPLICATION_OPERATIONS,
     get_service_descriptors = feature_supported fs FEATURE_GET_SERVICE_DESCRIPTORS,
     service_invoke = feature_supported fs FEATURE_SERVICE_INVOKE,
     binary_configuration = feature_supported fs FEATURE_BINARY_CONFIGURATION\<rparr>"

definition handshake_message :: "i16 \<Rightarrow> i16 \<Rightarrow> i16 \<Rightarrow> rstring \<Rightarrow> i32 option \<Rightarrow> rstring" where
  "handshake_message major_v minor_v patch_v err_msg err_code =
    rstr ''Handshake error: v'' @ fmt_int (sint major_v) @ rstr ''.'' @ fmt_int (sint minor_v) @ rstr ''.'' @
    fmt_int (sint patch_v) @ rstr '' err: '' @ err_msg @
    (case err_code of Some code \<Rightarrow> rstr '' (code '' @ fmt_int (sint code) @ rstr '')'' | None \<Rightarrow> [])"

definition classify_handshake_error :: "rstring \<Rightarrow> i32 option \<Rightarrow> ignite_error" where
  "classify_handshake_error message err_code =
    (let lower = to_ascii_lowercase message
     in if err_code = Some STATUS_SECURITY_VIOLATION \<or> err_code = Some STATUS_AUTH_FAILED
        then err_authentication message
        else if str_contains lower (rstr ''auth'') \<or> str_contains lower (rstr ''credential'')
        then err_authentication message
        else if err_code = Some 1 \<and> str_contains lower (rstr ''user'')
        then err_authentication message
        else err_handshake message)"

text \<open>The body of the answer: the outcome of the match, read from the bytes of the body alone.\<close>

definition read_handshake_success :: "connection_metadata reader" where
  "read_handshake_success =
    rbind (if version_supports_bitmap_features V_MAJOR V_MINOR V_PATCH then read_typed_byte_array else ret [])
      (\<lambda>fs. let caps = capabilities_of fs
         in rbind (if partition_awareness caps then rmap Some read_typed_uuid_string else ret None)
           (\<lambda>node. ret \<lparr>capabilities = caps, server_node_id = node\<rparr>))"

definition read_handshake_failure :: "ignite_error reader" where
  "read_handshake_failure = rbind read_i16 (\<lambda>major_v. rbind read_i16 (\<lambda>minor_v. rbind read_i16 (\<lambda>patch_v.
     rbind read_typed_string (\<lambda>err_msg s.
       rbind (if s \<noteq> [] then rmap Some read_i32 else ret None) (\<lambda>err_code.
         ret (classify_handshake_error (handshake_message major_v minor_v patch_v err_msg err_code) err_code)) s))))"

definition read_handshake_body :: "(ignite_error + connection_metadata) reader" where
  "read_handshake_body = rbind read_u8 (\<lambda>b.
     if b = 1 then rmap Inr read_handshake_success else rmap Inl read_handshake_failure)"

text \<open>A reader on the next \<open>n\<close> bytes of the stream.\<close>

definition within :: "nat \<Rightarrow> (bytes \<Rightarrow> 'a outcome) \<Rightarrow> 'a reader" where
  "within n m = rbind (read_exact n) (\<lambda>body s. case m body of
      Ok x _ \<Rightarrow> Ok x s | Err e _ \<Rightarrow> Err e s | Panic \<Rightarrow> Panic | NoFuel \<Rightarrow> NoFuel)"

definition read_handshake_answer :: "(ignite_error + connection_metadata) reader" where
  "read_handshake_answer = rbind read_i32 (\<lambda>body_len.
     if sint body_len < 0 then fail (Ignite ''Negative handshake response length'')
     else within (usize_of_i32 body_len) read_handshake_body)"

text \<open>\<open>handshake_async\<close>: what it writes, and what it makes of the answer. Nothing is written when a
  password comes without a user name.\<close>

definition handshake_async :: "handshake_conf \<Rightarrow> bytes \<Rightarrow> bytes \<times> (conn_error + connection_metadata) outcome" where
  "handshake_async conf input =
    (if hc_username conf = None \<and> hc_password conf \<noteq> None
     then ([], Ok (Inl (CError (err_handshake (rstr ''Username expected when password is configured!'')))) input)
     else (build_handshake_request conf,
       case read_handshake_answer input of
         Ok (Inl e) s \<Rightarrow> Ok (Inl (CError e)) s
       | Ok (Inr m) s \<Rightarrow> Ok (Inr m) s
       | Err e s \<Rightarrow> Ok (Inl (CDecode e)) s
       | Panic \<Rightarrow> Panic
       | NoFuel \<Rightarrow> NoFuel))"

section \<open>Incoming frames\<close>

definition read_response_error_string :: "rstring reader" where
  "read_response_error_string s = (case read_u8 s of
      Ok b s' \<Rightarrow> (case type_code_try_from b of
          Some TcString \<Rightarrow> read_string s'
        | Some TcNull \<Rightarrow> Ok [] s'
        | _ \<Rightarrow> read_string s)
    | Err e s' \<Rightarrow> Err e s'
    | Panic \<Rightarrow> Panic
    | NoFuel \<Rightarrow> NoFuel)"

record response_frame =
  correlation_id :: i64
  frame_flag :: flag
  frame_body :: bytes
  payload_offset :: nat
  frame_topology_version :: "topology_version option"

datatype incoming_frame =
    IncomingResponse response_frame
  | IncomingNotification i16 response_frame  \<comment> \<open>the correlation id is the resource id\<close>

text \<open>Header of a frame: correlation id, topology version, operation of a notification, and status.\<close>

definition read_status :: "i32 \<Rightarrow> flag reader" where
  "read_status status = rmap (Failure status) read_response_error_string"

definition read_frame_header ::
    "bool \<Rightarrow> (i64 \<times> topology_version option \<times> i16 option \<times> flag) reader" where
  "read_frame_header aware = rbind read_i64 (\<lambda>corr_id.
     if aware then
       rbind read_i16 (\<lambda>flags.
       rbind (if flags AND FLAG_AFFINITY_TOPOLOGY_CHANGED \<noteq> 0
              then rbind read_i64 (\<lambda>maj. rbind read_i32 (\<lambda>mnr. ret (Some (TopologyVersion maj mnr))))
              else ret None) (\<lambda>tv.
       rbind (if flags AND FLAG_NOTIFICATION \<noteq> 0 then rmap Some read_i16 else ret None) (\<lambda>nop.
       rbind (if flags AND FLAG_ERROR \<noteq> 0 then rbind read_i32 read_status else ret Success) (\<lambda>flag.
       ret (corr_id, tv, nop, flag)))))
     else
       rbind read_i32 (\<lambda>status.
       rbind (if status = 0 then ret Success else read_status status) (\<lambda>flag.
       ret (corr_id, None, None, flag))))"

definition decode_frame :: "bool \<Rightarrow> bytes \<Rightarrow> incoming_frame outcome" where
  "decode_frame aware body = (case read_frame_header aware body of
      Ok (corr_id, tv, nop, flag) rest \<Rightarrow>
        (let offset = (case flag of Success \<Rightarrow> length body - length rest | Failure _ _ \<Rightarrow> length body);
             frame = \<lparr>correlation_id = corr_id, frame_flag = flag, frame_body = body,
                      payload_offset = offset, frame_topology_version = tv\<rparr>
         in Ok (case nop of Some op_code \<Rightarrow> IncomingNotification op_code frame | None \<Rightarrow> IncomingResponse frame) rest)
    | Err e s \<Rightarrow> Err e s
    | Panic \<Rightarrow> Panic
    | NoFuel \<Rightarrow> NoFuel)"

definition read_incoming_frame :: "connection_metadata \<Rightarrow> incoming_frame reader" where
  "read_incoming_frame metadata = rbind read_i32 (\<lambda>body_len.
     if sint body_len < 0 then fail (Ignite ''Negative response body length'')
     else within (usize_of_i32 body_len) (decode_frame (partition_awareness (capabilities metadata))))"

text \<open>\<open>&frame.body[frame.payload_offset..]\<close>.\<close>

definition frame_payload :: "response_frame \<Rightarrow> bytes" where
  "frame_payload frame = drop (payload_offset frame) (frame_body frame)"

text \<open>\<open>write_requests\<close>: what reaches the socket of a batch of requests.\<close>

definition write_requests :: "bytes list \<Rightarrow> bytes" where
  "write_requests requests = (if length requests = 1 then hd requests else concat requests)"

section \<open>Feature bits\<close>

lemma and_push_bit_iff: "(x :: 'a::len word) AND push_bit k 1 \<noteq> 0 \<longleftrightarrow> bit x k"
  by (simp add: and_exp_eq_0_iff_not_bit)

lemma feature_supported_iff: "feature_supported fs n \<longleftrightarrow> n div 8 < length fs \<and> bit (fs ! (n div 8)) (n mod 8)"
  by (simp add: feature_supported_def and_push_bit_iff del: push_bit_of_1)

lemma same_byte_bit: "m div 8 = n div 8 \<Longrightarrow> m mod 8 = n mod 8 \<longleftrightarrow> m = (n :: nat)"
  by (metis div_mult_mod_eq)

lemma bit_or_push: "j < 8 \<Longrightarrow> bit ((x :: u8) OR push_bit k 1) j \<longleftrightarrow> bit x j \<or> j = k"
  by (auto simp: bit_or_iff bit_exp_iff)

lemma feature_supported_set:
  "feature_supported (set_feature_bit fs n) m \<longleftrightarrow> m = n \<or> feature_supported fs m"
proof -
  define fs' where "fs' = (if length fs \<le> n div 8 then fs @ replicate (n div 8 + 1 - length fs) 0 else fs)"
  have len: "length fs \<le> length fs'" "n div 8 < length fs'" by (simp_all add: fs'_def)
  have pad: "fs' ! i = (if i < length fs then fs ! i else 0)" if "i < length fs'" for i
    using that by (auto simp: fs'_def nth_append split: if_splits)
  have old: "feature_supported fs m \<longleftrightarrow> m div 8 < length fs' \<and> bit (fs' ! (m div 8)) (m mod 8)"
    using len by (auto simp: feature_supported_iff pad split: if_splits)
  have set: "set_feature_bit fs n = fs'[n div 8 := (fs' ! (n div 8)) OR push_bit (n mod 8) 1]"
    by (simp add: set_feature_bit_def fs'_def Let_def)
  show ?thesis
  proof (cases "m div 8 = n div 8")
    case True
    with len same_byte_bit [OF True] show ?thesis
      unfolding set old by (auto simp: feature_supported_iff bit_or_push simp del: push_bit_of_1)
  next
    case False
    then have "m \<noteq> n" by auto
    with False show ?thesis unfolding set old by (simp add: feature_supported_iff)
  qed
qed

lemma feature_supported_foldl:
  "feature_supported (foldl set_feature_bit fs ns) m \<longleftrightarrow> m \<in> set ns \<or> feature_supported fs m"
  by (induction ns arbitrary: fs) (auto simp: feature_supported_set)

lemma handshake_features_bits: "feature_supported (handshake_features conf) m \<longleftrightarrow> m \<in> set (handshake_feature_bits conf)"
  by (simp add: handshake_features_def feature_supported_foldl) (simp add: feature_supported_def)

section \<open>Decoding of frames\<close>

lemma within_append: "length b = n \<Longrightarrow> m b = Ok x r \<Longrightarrow> within n m (b @ s) = Ok x s"
  by (simp add: within_def rbind_Ok read_exact_append)

lemma read_typed_byte_array_write:
  "length v < 2 ^ 31 \<Longrightarrow> read_typed_byte_array (write_typed_byte_array v @ s) = Ok v s"
  by (simp add: read_typed_byte_array_def write_typed_byte_array_def rbind_Ok read_type_code_write len_casts
      read_exact_append)

lemma read_typed_uuid_write:
  "read_typed_uuid_string (write_u8 (type_code_u8 TcUuid) @ write_i64 most @ write_i64 least @ s) =
    Ok (uuid_string most least) s"
  by (simp add: read_typed_uuid_string_def read_uuid_string_def rbind_Ok read_type_code_write)

lemma read_typed_string_write: "ok_string v \<Longrightarrow> read_typed_string (write_string_type_code v @ s) = Ok v s"
  by (simp add: read_typed_string_def write_string_type_code_def rbind_Ok read_type_code_write
      read_string_write [unfolded write_string_def, simplified])

lemma read_u8_write: "read_u8 (b # s) = Ok b s"
  using u8.dec_enc_any [of b s] by (simp add: write_u8_eq)

lemma read_error_typed: "ok_string v \<Longrightarrow> read_response_error_string (write_string_type_code v @ s) = Ok v s"
  using read_string_write [of v s]
  by (simp add: read_response_error_string_def write_string_type_code_def write_string_def write_u8_eq read_u8_write
      type_code_try_from_u8 del: type_code_u8.simps)

text \<open>The layout of a frame: what the server sends on a connection, partition-aware or not.\<close>

definition server_flags :: "topology_version option \<Rightarrow> i16 option \<Rightarrow> flag \<Rightarrow> i16" where
  "server_flags tv nop flag =
    (if flag = Success then 0 else 1) OR (if tv = None then 0 else 2) OR (if nop = None then 0 else 4)"

definition server_status :: "flag \<Rightarrow> bytes" where
  "server_status flag = (case flag of Success \<Rightarrow> [] | Failure st msg \<Rightarrow> write_i32 st @ write_string_type_code msg)"

definition server_header :: "bool \<Rightarrow> i64 \<Rightarrow> topology_version option \<Rightarrow> i16 option \<Rightarrow> flag \<Rightarrow> bytes" where
  "server_header aware corr_id tv nop flag = write_i64 corr_id @
    (if aware then write_i16 (server_flags tv nop flag) @
       (case tv of None \<Rightarrow> [] | Some v \<Rightarrow> write_i64 (major v) @ write_i32 (minor v)) @
       (case nop of None \<Rightarrow> [] | Some n \<Rightarrow> write_i16 n) @ server_status flag
     else (if flag = Success then write_i32 0 else server_status flag))"

definition server_frame :: "bool \<Rightarrow> i64 \<Rightarrow> topology_version option \<Rightarrow> i16 option \<Rightarrow> flag \<Rightarrow> bytes \<Rightarrow> bytes" where
  "server_frame aware corr_id tv nop flag payload =
    (let body = server_header aware corr_id tv nop flag @ payload
     in write_i32 (i32_of_usize (length body)) @ body)"

text \<open>What a frame can carry: an error message that is a valid string, a nonzero status, and extra header
  fields on a partition-aware connection only.\<close>

definition ok_frame :: "bool \<Rightarrow> topology_version option \<Rightarrow> i16 option \<Rightarrow> flag \<Rightarrow> bool" where
  "ok_frame aware tv nop flag \<longleftrightarrow>
    (case flag of Success \<Rightarrow> True | Failure st msg \<Rightarrow> ok_string msg \<and> (aware \<or> st \<noteq> 0)) \<and>
    (aware \<or> tv = None \<and> nop = None)"

lemma server_flags_bits:
  "server_flags tv nop flag AND FLAG_ERROR \<noteq> 0 \<longleftrightarrow> flag \<noteq> Success"
  "server_flags tv nop flag AND FLAG_AFFINITY_TOPOLOGY_CHANGED \<noteq> 0 \<longleftrightarrow> tv \<noteq> None"
  "server_flags tv nop flag AND FLAG_NOTIFICATION \<noteq> 0 \<longleftrightarrow> nop \<noteq> None"
  by (simp_all add: server_flags_def FLAG_ERROR_def FLAG_AFFINITY_TOPOLOGY_CHANGED_def FLAG_NOTIFICATION_def)

lemma read_server_status:
  "ok_string msg \<Longrightarrow> read_status st (write_string_type_code msg @ s) = Ok (Failure st msg) s"
  by (simp add: read_status_def rmap_Ok read_error_typed)

lemma read_server_header:
  assumes "ok_frame aware tv nop flag"
  shows "read_frame_header aware (server_header aware corr_id tv nop flag @ s) = Ok (corr_id, tv, nop, flag) s"
proof (cases aware)
  case True
  with assms show ?thesis
    by (cases flag; cases tv; cases nop)
      (simp_all add: read_frame_header_def server_header_def ok_frame_def rbind_Ok server_flags_bits server_status_def
        rmap_Ok read_server_status)
next
  case False
  with assms show ?thesis
    by (cases flag)
      (simp_all add: read_frame_header_def server_header_def ok_frame_def rbind_Ok server_status_def read_server_status)
qed

lemma read_frame_body:
  assumes "decode_frame (partition_awareness (capabilities metadata)) b = Ok x r" and "length b < 2 ^ 31"
  shows "read_incoming_frame metadata (write_i32 (i32_of_usize (length b)) @ b @ s) = Ok x s"
  using within_append [where m = "decode_frame (partition_awareness (capabilities metadata))", OF refl assms(1), of s] assms(2)
  by (simp add: read_incoming_frame_def rbind_Ok len_casts)

section \<open>Decoding of the handshake answer\<close>

lemma read_handshake_answer_body:
  assumes "read_handshake_body body = Ok x r" and "length body < 2 ^ 31"
  shows "read_handshake_answer (write_i32 (i32_of_usize (length body)) @ body @ s) = Ok x s"
  using within_append [where m = read_handshake_body, OF refl assms(1), of s] assms(2)
  by (simp add: read_handshake_answer_def rbind_Ok len_casts)

lemma supported_versions:
  "version_supports_bitmap_features V_MAJOR V_MINOR V_PATCH" "version_supports_partition_awareness V_MAJOR V_MINOR V_PATCH"
  "version_supports_transactions V_MAJOR V_MINOR V_PATCH"
  by (simp_all add: version_supports_bitmap_features_def version_supports_partition_awareness_def
      version_supports_transactions_def BITMAP_FEATURES_VERSION_def PARTITION_AWARENESS_VERSION_def
      TRANSACTIONS_VERSION_def V_MAJOR_def V_MINOR_def V_PATCH_def)

lemma read_handshake_body_success:
  assumes "length fs < 2 ^ 30"
  shows "read_handshake_body (write_u8 1 @ write_typed_byte_array fs @ write_u8 (type_code_u8 TcUuid) @
      write_i64 most @ write_i64 least) =
    Ok (Inr \<lparr>capabilities = capabilities_of fs, server_node_id = Some (uuid_string most least)\<rparr>) []"
proof -
  have aware: "partition_awareness (capabilities_of fs)"
    by (simp add: capabilities_of_def supported_versions)
  have u: "read_typed_uuid_string (write_u8 (type_code_u8 TcUuid) @ write_i64 most @ write_i64 least) =
      Ok (uuid_string most least) []"
    using read_typed_uuid_write [of most least "[]"] by simp
  have "read_handshake_success (write_typed_byte_array fs @ write_u8 (type_code_u8 TcUuid) @ write_i64 most @ write_i64 least) =
      Ok \<lparr>capabilities = capabilities_of fs, server_node_id = Some (uuid_string most least)\<rparr> []"
    using assms aware
    by (simp add: read_handshake_success_def supported_versions rbind_Ok rmap_Ok read_typed_byte_array_write u Let_def
        del: type_code_u8.simps)
  then show ?thesis by (simp add: read_handshake_body_def rbind_Ok rmap_Ok)
qed

lemma read_handshake_body_failure:
  assumes "b \<noteq> 1" and "ok_string msg"
  shows "read_handshake_body (write_u8 b @ write_i16 x @ write_i16 y @ write_i16 z @ write_string_type_code msg @
      write_i32 code) =
    Ok (Inl (classify_handshake_error (handshake_message x y z msg (Some code)) (Some code))) []"
proof -
  have i: "read_i32 (write_i32 code) = Ok code []" using i32.dec_enc_end by simp
  have "write_i32 code \<noteq> []" using i32.enc_length [of code] by (metis list.size(3) zero_neq_numeral)
  with assms show ?thesis
    by (simp add: read_handshake_body_def read_handshake_failure_def rbind_Ok rmap_Ok read_typed_string_write i)
qed

lemma classify_handshake_kind:
  "code \<in> {1012, 2000} \<longrightarrow> err_kind (classify_handshake_error m (Some code)) = KAuthentication"
  "err_kind (classify_handshake_error m c) \<in> {KAuthentication, KHandshake}"
  by (auto simp: classify_handshake_error_def err_authentication_def err_handshake_def STATUS_SECURITY_VIOLATION_def
      STATUS_AUTH_FAILED_def Let_def)

section \<open>Properties\<close>

text \<open>C13: Frames. From a frame of the protocol, partition-aware or not, the response pump recovers the
  correlation id, the topology version that changed, whether it is a notification and of which operation,
  the status with its message, and the payload, and leaves the stream at the next frame: frames that
  follow each other do not get out of step. The payload of a failure is empty.\<close>

theorem frame_read_back:
  assumes "ok_frame (partition_awareness (capabilities metadata)) tv nop flag"
    and "length (server_header (partition_awareness (capabilities metadata)) corr_id tv nop flag @ payload) < 2 ^ 31"
  shows "\<exists>frame. read_incoming_frame metadata
      (server_frame (partition_awareness (capabilities metadata)) corr_id tv nop flag payload @ s) =
        Ok (case nop of Some n \<Rightarrow> IncomingNotification n frame | None \<Rightarrow> IncomingResponse frame) s \<and>
      correlation_id frame = corr_id \<and> frame_flag frame = flag \<and> frame_topology_version frame = tv \<and>
      frame_payload frame = (case flag of Success \<Rightarrow> payload | Failure _ _ \<Rightarrow> [])"
proof -
  let ?aware = "partition_awareness (capabilities metadata)"
  let ?body = "server_header ?aware corr_id tv nop flag @ payload"
  let ?frame = "\<lparr>correlation_id = corr_id, frame_flag = flag, frame_body = ?body,
    payload_offset = (case flag of Success \<Rightarrow> length ?body - length payload | Failure _ _ \<Rightarrow> length ?body),
    frame_topology_version = tv\<rparr>"
  have dec: "decode_frame ?aware ?body =
      Ok (case nop of Some n \<Rightarrow> IncomingNotification n ?frame | None \<Rightarrow> IncomingResponse ?frame) payload"
    by (simp add: decode_frame_def read_server_header [OF assms(1)] Let_def)
  from read_frame_body [OF dec assms(2), of s] show ?thesis
    by (intro exI [of _ ?frame]) (simp add: server_frame_def Let_def frame_payload_def split: flag.split)
qed

definition sample_metadata :: connection_metadata where
  "sample_metadata = \<lparr>capabilities = capabilities_of [], server_node_id = None\<rparr>"

lemma sample_metadata_aware: "partition_awareness (capabilities sample_metadata)"
  by (simp add: sample_metadata_def capabilities_of_def version_supports_partition_awareness_def V_MAJOR_def V_MINOR_def
    PARTITION_AWARENESS_VERSION_def)

theorem frame_read_back_witness:
  "\<exists>frame. read_incoming_frame sample_metadata
      (server_frame True 7 (Some (TopologyVersion 3 1)) None (Failure 1011 [104, 105]) [1, 2] @ [9]) =
        Ok (IncomingResponse frame) [9] \<and>
      correlation_id frame = 7 \<and> frame_flag frame = Failure 1011 [104, 105] \<and> frame_payload frame = []"
  using frame_read_back [of sample_metadata "Some (TopologyVersion 3 1)" None "Failure 1011 [104, 105]" 7 "[1, 2]" "[9]"]
    sample_metadata_aware
  by (auto simp: ok_frame_def server_header_def server_status_def ok_string_def valid_rstring_def scalar_def str_len_def
    utf8_encode_def utf8_char_def write_string_type_code_def)



lemma to_le_4: "to_le 4 n = [byte n, byte (n div 256), byte (n div 256 div 256), byte (n div 256 div 256 div 256)]"
proof -
  have "to_le (Suc (Suc (Suc (Suc 0)))) n =
      [byte n, byte (n div 256), byte (n div 256 div 256), byte (n div 256 div 256 div 256)]"
    by simp
  moreover have "(4 :: nat) = Suc (Suc (Suc (Suc 0)))" by simp
  ultimately show ?thesis by (simp only:)
qed

lemma write_string_first:
  assumes "str_len v < 2 ^ 31"
  shows "write_string v = byte (str_len v) # tl (write_string v)"
proof -
  from assms have "unat (i32_of_usize (str_len v)) = str_len v"
    by (simp add: i32_of_usize_def unat_of_nat take_bit_nat_eq_self_iff)
  then show ?thesis by (simp add: write_string_def write_i32_def to_le_4)
qed

lemma byte_eq_iff: "byte n = w \<longleftrightarrow> n mod 256 = unat w"
  by (auto simp: byte_def word_unat_eq_iff unat_of_nat take_bit_nat_def)

lemma read_error_untyped:
  assumes ok: "ok_string v" and "str_len v mod 256 \<noteq> 9" and "str_len v mod 256 \<noteq> 101"
  shows "read_response_error_string (write_string v @ s) = Ok v s"
proof -
  from ok have first: "write_string v @ s = byte (str_len v) # tl (write_string v) @ s"
    using write_string_first [of v] by (metis append_Cons ok_string_def)
  have "type_code_try_from (byte (str_len v)) \<noteq> Some TcString"
    using assms(2) type_code_u8_try_from [of "byte (str_len v)" TcString] byte_eq_iff [of "str_len v" 9] by (auto simp: type_code_u8.simps)
  moreover have "type_code_try_from (byte (str_len v)) \<noteq> Some TcNull"
    using assms(3) type_code_u8_try_from [of "byte (str_len v)" TcNull] byte_eq_iff [of "str_len v" 101] by (auto simp: type_code_u8.simps)
  ultimately have "(case type_code_try_from (byte (str_len v)) of
      Some TcString \<Rightarrow> read_string (tl (write_string v) @ s) | Some TcNull \<Rightarrow> Ok [] (tl (write_string v) @ s)
    | _ \<Rightarrow> read_string (write_string v @ s)) = read_string (write_string v @ s)"
    by (auto split: option.split type_code.split)
  then show ?thesis
    using read_string_write [OF ok, of s]
    unfolding read_response_error_string_def first by (simp add: read_u8_write)
qed

text \<open>Error messages of the server. A typed message is read as it is, and so is an untyped one, the form
  the reader falls back to, unless the low byte of its length is the code of a string or of a null: an
  untyped message of nine bytes, such as "not found", is taken for a typed one and fails to decode, which
  closes the channel.\<close>

theorem error_string_forms:
  "(ok_string v \<longrightarrow> read_response_error_string (write_string_type_code v @ s) = Ok v s) \<and>
   (ok_string v \<and> str_len v mod 256 \<notin> {9, 101} \<longrightarrow> read_response_error_string (write_string v @ s) = Ok v s) \<and>
   read_response_error_string (write_string (rstr ''not found'')) = Err (IoE UnexpectedEof) []"
proof (intro conjI impI)
  show "read_response_error_string (write_string_type_code v @ s) = Ok v s" if "ok_string v"
    using that by (rule read_error_typed)
  show "read_response_error_string (write_string v @ s) = Ok v s" if "ok_string v \<and> str_len v mod 256 \<notin> {9, 101}"
    using that by (simp add: read_error_untyped)
  have "write_string (rstr ''not found'') = [9, 0, 0, 0, 110, 111, 116, 32, 102, 111, 117, 110, 100]"
    by (simp add: write_string_def rstr_def str_len_def utf8_encode_def utf8_char_def write_i32_def i32_of_usize_def
        to_le_4 byte_def)
  then show "read_response_error_string (write_string (rstr ''not found'')) = Err (IoE UnexpectedEof) []"
    by (simp add: read_response_error_string_def read_u8_write type_code_try_from_def read_string_def read_i32_def
        read_le_def rmap_def rbind_def read_exact_def read_vec_def isize_max_def usize_of_i32_def)
qed

theorem error_string_forms_witness:
  "read_response_error_string (write_string_type_code [104, 105] @ [7]) = Ok [104, 105] [7] \<and>
   read_response_error_string (write_string [104, 105] @ [7]) = Ok [104, 105] [7]"
  using error_string_forms [of "[104, 105]" "[7]"]
  by (simp add: ok_string_def valid_rstring_def scalar_def str_len_def utf8_encode_def utf8_char_def)

end
