(* ===== verification/Channel.thy ===== *)
theory Channel
  imports Connection
begin

text \<open>
  One connection's channel, \<open>struct Channel\<close> of \<open>ignite-rs/src/transport.rs\<close>, as a machine of
  interleaved steps: the calls of \<open>request\<close>, the writer pump, the response pump and \<open>close\<close>. A step
  is a stretch of code between two points where another task can be seen: a lock taken, an atomic
  access, an \<open>await\<close>. A call is known by its correlation id, which \<open>next_correlation_id\<close> makes unique;
  a retried call comes back with its id only after it has returned.
\<close>

section \<open>State\<close>

record slot =
  sl_result :: "(ignite_error + response_frame) option"
  sl_done :: bool

definition slot_new :: slot where
  "slot_new = \<lparr>sl_result = None, sl_done = False\<rparr>"

definition fill :: "slot \<Rightarrow> ignite_error + response_frame \<Rightarrow> slot" where
  "fill sl r = (if sl_done sl then sl else \<lparr>sl_result = Some r, sl_done = True\<rparr>)"

text \<open>\<open>WaitFuture::poll\<close>: the value when the slot is done, and the slot with the value taken.\<close>

definition poll :: "slot \<Rightarrow> ((ignite_error + response_frame) \<times> slot) option" where
  "poll sl = (if sl_done sl
     then Some (case sl_result sl of Some r \<Rightarrow> r
                | None \<Rightarrow> Inl (err_connection (rstr ''InFlightSlot finished without a result'')), sl\<lparr>sl_result := None\<rparr>)
     else None)"

text \<open>Where a call of \<open>request\<close> stands; the number is its slot.\<close>

datatype phase =
    PChecked
  | PInserted nat
  | PWaiting nat
  | PFailing
  | PReturned "ignite_error + response_frame"

text \<open>Where a pump stands. Breaking is \<open>mark_broken\<close>: after the swap of \<open>closed\<close> it waits for the lock of
  \<open>last_error\<close> (with what the swap returned), then drains the shards without a pause, then waits for the
  listeners' lock and aborts the others.\<close>

datatype pump =
    Running
  | BkError rstring bool
  | BkDrain rstring nat
  | BkAbort
  | Gone

datatype who = Writer | Responder | Closer

record chan =
  ch_closed :: bool
  ch_last_error :: "rstring option"
  ch_shards :: "(i64 \<Rightarrow> nat option) list"
  ch_slots :: "nat \<Rightarrow> slot"
  ch_next :: nat
  ch_calls :: "i64 \<Rightarrow> phase option"
  ch_queue :: "bytes list"
  ch_wire :: bytes
  ch_pumps :: "who \<Rightarrow> pump"

definition channel_new :: chan where
  "channel_new = \<lparr>ch_closed = False, ch_last_error = None, ch_shards = replicate 16 (\<lambda>_. None),
     ch_slots = (\<lambda>_. slot_new), ch_next = 0, ch_calls = (\<lambda>_. None), ch_queue = [], ch_wire = [],
     ch_pumps = (\<lambda>_. Running)\<rparr>"

definition inflight_shard :: "i64 \<Rightarrow> nat" where
  "inflight_shard corr_id = unat corr_id mod 16"

definition shard_set :: "i64 \<Rightarrow> nat option \<Rightarrow> chan \<Rightarrow> chan" where
  "shard_set corr_id v s = s\<lparr>ch_shards :=
     (ch_shards s)[inflight_shard corr_id := ((ch_shards s) ! inflight_shard corr_id)(corr_id := v)]\<rparr>"

definition shard_get :: "i64 \<Rightarrow> chan \<Rightarrow> nat option" where
  "shard_get corr_id s = ((ch_shards s) ! inflight_shard corr_id) corr_id"

definition set_call :: "i64 \<Rightarrow> phase \<Rightarrow> chan \<Rightarrow> chan" where
  "set_call corr_id p s = s\<lparr>ch_calls := (ch_calls s)(corr_id := Some p)\<rparr>"

definition set_pump :: "who \<Rightarrow> pump \<Rightarrow> chan \<Rightarrow> chan" where
  "set_pump w p s = s\<lparr>ch_pumps := (ch_pumps s)(w := p)\<rparr>"

definition is_available :: "chan \<Rightarrow> bool" where
  "is_available s = (\<not> ch_closed s)"

definition closed_error :: "chan \<Rightarrow> ignite_error" where
  "closed_error s = (case ch_last_error s of
      Some detail \<Rightarrow> err_connection detail
    | None \<Rightarrow> err_connection (rstr ''channel is closed''))"

section \<open>The steps of a call\<close>

definition request_check :: "i64 \<Rightarrow> chan \<Rightarrow> chan" where
  "request_check corr_id s = set_call corr_id (if is_available s then PChecked else PFailing) s"

definition request_insert :: "i64 \<Rightarrow> chan \<Rightarrow> chan" where
  "request_insert corr_id s =
    set_call corr_id (PInserted (ch_next s))
      (shard_set corr_id (Some (ch_next s))
        (s\<lparr>ch_slots := (ch_slots s)(ch_next s := slot_new), ch_next := Suc (ch_next s)\<rparr>))"

text \<open>The queue to the writer pump lives as long as that task.\<close>

definition request_send :: "i64 \<Rightarrow> nat \<Rightarrow> bytes \<Rightarrow> chan \<Rightarrow> chan" where
  "request_send corr_id n request s =
    (if ch_pumps s Writer \<noteq> Gone
     then set_call corr_id (PWaiting n) (s\<lparr>ch_queue := ch_queue s @ [request]\<rparr>)
     else set_call corr_id PFailing (shard_set corr_id None s))"

definition request_closed :: "i64 \<Rightarrow> chan \<Rightarrow> chan" where
  "request_closed corr_id s = set_call corr_id (PReturned (Inl (closed_error s))) s"

definition mismatch_error :: ignite_error where
  "mismatch_error = err_connection (rstr ''Unexpected response correlation id'')"

definition request_wake :: "i64 \<Rightarrow> nat \<Rightarrow> chan \<Rightarrow> chan" where
  "request_wake corr_id n s = (case poll (ch_slots s n) of
      None \<Rightarrow> s
    | Some (r, sl) \<Rightarrow>
        (let s' = s\<lparr>ch_slots := (ch_slots s)(n := sl)\<rparr>
         in case r of
              Inr frame \<Rightarrow> set_call corr_id (PReturned (if correlation_id frame \<noteq> corr_id then Inl mismatch_error
                              else Inr frame)) s'
            | Inl e \<Rightarrow> set_call corr_id (PReturned (Inl e)) (shard_set corr_id None s')))"

definition timeout_error :: ignite_error where
  "timeout_error = err_connection (rstr ''Operation timed out'')"

definition request_timeout :: "i64 \<Rightarrow> chan \<Rightarrow> chan" where
  "request_timeout corr_id s = set_call corr_id (PReturned (Inl timeout_error)) (shard_set corr_id None s)"

section \<open>The steps of the pumps\<close>

definition pump_write :: "chan \<Rightarrow> chan" where
  "pump_write s = s\<lparr>ch_queue := [], ch_wire := ch_wire s @ write_requests (ch_queue s)\<rparr>"

definition pump_respond :: "response_frame \<Rightarrow> chan \<Rightarrow> chan" where
  "pump_respond frame s = (case shard_get (correlation_id frame) s of
      None \<Rightarrow> s
    | Some n \<Rightarrow> shard_set (correlation_id frame) None
        (s\<lparr>ch_slots := (ch_slots s)(n := fill (ch_slots s n) (Inr frame))\<rparr>))"

text \<open>\<open>mark_broken\<close>, from the swap on.\<close>

definition broken_swap :: "who \<Rightarrow> rstring \<Rightarrow> chan \<Rightarrow> chan" where
  "broken_swap w detail s = set_pump w (BkError detail (ch_closed s)) (s\<lparr>ch_closed := True\<rparr>)"

definition broken_error :: "who \<Rightarrow> rstring \<Rightarrow> bool \<Rightarrow> chan \<Rightarrow> chan" where
  "broken_error w detail was_closed s =
    set_pump w (if was_closed then BkAbort else BkDrain detail 0) (s\<lparr>ch_last_error := Some detail\<rparr>)"

definition broken_drain :: "who \<Rightarrow> rstring \<Rightarrow> nat \<Rightarrow> chan \<Rightarrow> chan" where
  "broken_drain w detail k s =
    (if k < length (ch_shards s)
     then let pending = ran ((ch_shards s) ! k)
          in set_pump w (BkDrain detail (Suc k))
              (s\<lparr>ch_shards := (ch_shards s)[k := \<lambda>_. None],
                 ch_slots := (\<lambda>n. if n \<in> pending then fill (ch_slots s n) (Inl (err_connection detail))
                                  else ch_slots s n)\<rparr>)
     else set_pump w BkAbort s)"

text \<open>An aborted task ends at the await it stands at; a task that drains runs on.\<close>

definition abort :: "who \<Rightarrow> chan \<Rightarrow> chan" where
  "abort w s = (case ch_pumps s w of BkDrain _ _ \<Rightarrow> s | _ \<Rightarrow> set_pump w Gone s)"

fun broken_abort :: "who \<Rightarrow> chan \<Rightarrow> chan" where
  "broken_abort Writer s = set_pump Writer Gone (abort Responder s)"
| "broken_abort Responder s = set_pump Responder Gone (abort Writer s)"
| "broken_abort Closer s = set_pump Closer Gone (abort Responder (abort Writer s))"

section \<open>Interleavings\<close>

text \<open>\<open>timed\<close>: a request timeout is configured.\<close>

inductive chan_step :: "bool \<Rightarrow> chan \<Rightarrow> chan \<Rightarrow> bool" for timed :: bool where
  begin_call: "(case ch_calls s c of None \<Rightarrow> True | Some (PReturned _) \<Rightarrow> True | _ \<Rightarrow> False) \<Longrightarrow> chan_step timed s (request_check c s)"
| insert: "ch_calls s c = Some PChecked \<Longrightarrow> chan_step timed s (request_insert c s)"
| send: "ch_calls s c = Some (PInserted n) \<Longrightarrow> chan_step timed s (request_send c n req s)"
| fail: "ch_calls s c = Some PFailing \<Longrightarrow> chan_step timed s (request_closed c s)"
| wake: "ch_calls s c = Some (PWaiting n) \<Longrightarrow> sl_done (ch_slots s n) \<Longrightarrow> chan_step timed s (request_wake c n s)"
| timeout: "timed \<Longrightarrow> ch_calls s c = Some (PWaiting n) \<Longrightarrow> chan_step timed s (request_timeout c s)"
| flush: "ch_pumps s Writer = Running \<Longrightarrow> ch_queue s \<noteq> [] \<Longrightarrow> chan_step timed s (pump_write s)"
| respond: "ch_pumps s Responder = Running \<Longrightarrow> chan_step timed s (pump_respond frame s)"
| swap: "ch_pumps s w = Running \<Longrightarrow> chan_step timed s (broken_swap w detail s)"
| error: "ch_pumps s w = BkError detail b \<Longrightarrow> chan_step timed s (broken_error w detail b s)"
| drain: "ch_pumps s w = BkDrain detail k \<Longrightarrow> chan_step timed s (broken_drain w detail k s)"
| abort: "ch_pumps s w = BkAbort \<Longrightarrow> chan_step timed s (broken_abort w s)"

inductive chan_reachable :: "bool \<Rightarrow> chan \<Rightarrow> bool" for timed :: bool where
  init: "chan_reachable timed channel_new"
| step: "chan_reachable timed s \<Longrightarrow> chan_step timed s s' \<Longrightarrow> chan_reachable timed s'"

section \<open>Invariant\<close>

text \<open>The slot a call owns.\<close>

fun phase_slot :: "phase option \<Rightarrow> nat option" where
  "phase_slot (Some (PInserted n)) = Some n"
| "phase_slot (Some (PWaiting n)) = Some n"
| "phase_slot _ = None"

text \<open>What a done slot of a call holds: the frame of that call, or a connection error.\<close>

definition slot_ok :: "i64 \<Rightarrow> slot \<Rightarrow> bool" where
  "slot_ok c sl \<longleftrightarrow> (sl_done sl \<longrightarrow>
     (case sl_result sl of Some (Inr frame) \<Rightarrow> correlation_id frame = c
      | Some (Inl e) \<Rightarrow> err_kind e = KConnection | None \<Rightarrow> False))"

definition chan_inv :: "chan \<Rightarrow> bool" where
  "chan_inv s \<longleftrightarrow> length (ch_shards s) = 16 \<and>
     (\<forall>k c n. k < 16 \<longrightarrow> (ch_shards s ! k) c = Some n \<longrightarrow>
        k = inflight_shard c \<and> phase_slot (ch_calls s c) = Some n \<and> \<not> sl_done (ch_slots s n)) \<and>
     (\<forall>c n. phase_slot (ch_calls s c) = Some n \<longrightarrow>
        n < ch_next s \<and> slot_ok c (ch_slots s n) \<and> (sl_done (ch_slots s n) \<or> shard_get c s = Some n)) \<and>
     (\<forall>c d n. phase_slot (ch_calls s c) = Some n \<longrightarrow> phase_slot (ch_calls s d) = Some n \<longrightarrow> c = d) \<and>
     (\<forall>c r. ch_calls s c = Some (PReturned r) \<longrightarrow>
        (case r of Inr frame \<Rightarrow> correlation_id frame = c | Inl e \<Rightarrow> err_kind e = KConnection))"

lemma inflight_shard_less [simp]: "inflight_shard c < 16"
  by (simp add: inflight_shard_def)

lemma entry_shard_set:
  "length (ch_shards s) = 16 \<Longrightarrow> k < 16 \<Longrightarrow>
    (ch_shards (shard_set c v s) ! k) d = (if k = inflight_shard c \<and> d = c then v else (ch_shards s ! k) d)"
  by (simp add: shard_set_def nth_list_update)

lemma shard_get_set:
  "length (ch_shards s) = 16 \<Longrightarrow> shard_get d (shard_set c v s) = (if d = c then v else shard_get d s)"
  by (auto simp: shard_get_def entry_shard_set)

lemma shard_set_fields [simp]:
  "length (ch_shards (shard_set c v s)) = length (ch_shards s)" "ch_slots (shard_set c v s) = ch_slots s"
  "ch_calls (shard_set c v s) = ch_calls s" "ch_next (shard_set c v s) = ch_next s"
  by (simp_all add: shard_set_def)

lemma set_call_fields [simp]:
  "ch_shards (set_call c p s) = ch_shards s" "ch_slots (set_call c p s) = ch_slots s"
  "ch_next (set_call c p s) = ch_next s" "ch_calls (set_call c p s) = (ch_calls s)(c := Some p)"
  "shard_get d (set_call c p s) = shard_get d s"
  by (simp_all add: set_call_def shard_get_def)

text \<open>The invariant in parts.\<close>

definition returned_ok :: "i64 \<Rightarrow> phase \<Rightarrow> bool" where
  "returned_ok c p \<longleftrightarrow> (case p of PReturned r \<Rightarrow>
     (case r of Inr frame \<Rightarrow> correlation_id frame = c | Inl e \<Rightarrow> err_kind e = KConnection) | _ \<Rightarrow> True)"

lemma chan_invI:
  assumes "length (ch_shards s) = 16"
    and "\<And>k c n. k < 16 \<Longrightarrow> (ch_shards s ! k) c = Some n \<Longrightarrow>
        k = inflight_shard c \<and> phase_slot (ch_calls s c) = Some n \<and> \<not> sl_done (ch_slots s n)"
    and "\<And>c n. phase_slot (ch_calls s c) = Some n \<Longrightarrow>
        n < ch_next s \<and> slot_ok c (ch_slots s n) \<and> (sl_done (ch_slots s n) \<or> shard_get c s = Some n)"
    and "\<And>c d n. phase_slot (ch_calls s c) = Some n \<Longrightarrow> phase_slot (ch_calls s d) = Some n \<Longrightarrow> c = d"
    and "\<And>c p. ch_calls s c = Some p \<Longrightarrow> returned_ok c p"
  shows "chan_inv s"
  unfolding chan_inv_def using assms by (fastforce simp: returned_ok_def split: sum.split)

lemma chan_invD:
  assumes "chan_inv s"
  shows chan_inv_length: "length (ch_shards s) = 16"
    and chan_inv_entry: "k < 16 \<Longrightarrow> (ch_shards s ! k) c = Some n \<Longrightarrow>
        k = inflight_shard c \<and> phase_slot (ch_calls s c) = Some n \<and> \<not> sl_done (ch_slots s n)"
    and chan_inv_owned: "phase_slot (ch_calls s c) = Some n \<Longrightarrow>
        n < ch_next s \<and> slot_ok c (ch_slots s n) \<and> (sl_done (ch_slots s n) \<or> shard_get c s = Some n)"
    and chan_inv_distinct: "phase_slot (ch_calls s c) = Some n \<Longrightarrow> phase_slot (ch_calls s d) = Some n \<Longrightarrow> c = d"
    and chan_inv_returned: "ch_calls s c = Some p \<Longrightarrow> returned_ok c p"
  using assms unfolding chan_inv_def returned_ok_def by (blast, blast, blast, blast, auto split: phase.split)

lemma chan_inv_pumps [simp]:
  "chan_inv (s\<lparr>ch_pumps := x\<rparr>) = chan_inv s" "chan_inv (s\<lparr>ch_closed := b\<rparr>) = chan_inv s"
  "chan_inv (s\<lparr>ch_last_error := e\<rparr>) = chan_inv s" "chan_inv (s\<lparr>ch_queue := q\<rparr>) = chan_inv s"
  "chan_inv (s\<lparr>ch_wire := wi\<rparr>) = chan_inv s" "chan_inv (set_pump w p s) = chan_inv s"
  by (simp_all add: chan_inv_def shard_get_def set_pump_def)

text \<open>A call that keeps its slot.\<close>

lemma chan_inv_set_call:
  assumes inv: "chan_inv s" and keep: "phase_slot (Some p) = phase_slot (ch_calls s c)" and ok: "returned_ok c p"
  shows "chan_inv (set_call c p s)"
proof -
  have eq: "phase_slot (ch_calls (set_call c p s) d) = phase_slot (ch_calls s d)" for d
    using keep by simp
  note D = chan_invD [OF inv]
  show ?thesis
  proof (rule chan_invI, unfold eq)
    show "length (ch_shards (set_call c p s)) = 16" using D(1) by simp
    show "k = inflight_shard d \<and> phase_slot (ch_calls s d) = Some n \<and> \<not> sl_done (ch_slots (set_call c p s) n)"
      if "k < 16" "(ch_shards (set_call c p s) ! k) d = Some n" for k d n
      using that D(2) [of k d n] by simp
    show "n < ch_next (set_call c p s) \<and> slot_ok d (ch_slots (set_call c p s) n) \<and>
        (sl_done (ch_slots (set_call c p s) n) \<or> shard_get d (set_call c p s) = Some n)"
      if "phase_slot (ch_calls s d) = Some n" for d n
      using that D(3) [of d n] by simp
    show "d = e" if "phase_slot (ch_calls s d) = Some n" "phase_slot (ch_calls s e) = Some n" for d e n
      using that by (rule D(4))
    show "returned_ok d q" if "ch_calls (set_call c p s) d = Some q" for d q
      using that ok D(5) [of d q] by (auto split: if_splits)
  qed
qed

text \<open>A call that gives up its slot.\<close>

lemma chan_inv_drop_call:
  assumes inv: "chan_inv s" and none: "phase_slot (Some p) = None" and ok: "returned_ok c p"
  shows "chan_inv (set_call c p (shard_set c None s))"
proof (rule chan_invI)
  note D = chan_invD [OF inv]
  show "length (ch_shards (set_call c p (shard_set c None s))) = 16" using D(1) by simp
  show "k = inflight_shard d \<and> phase_slot (ch_calls (set_call c p (shard_set c None s)) d) = Some n \<and>
      \<not> sl_done (ch_slots (set_call c p (shard_set c None s)) n)"
    if "k < 16" "(ch_shards (set_call c p (shard_set c None s)) ! k) d = Some n" for k d n
    using that D(1) D(2) [of k d n] none by (auto simp: entry_shard_set split: if_splits)
  show "n < ch_next (set_call c p (shard_set c None s)) \<and> slot_ok d (ch_slots (set_call c p (shard_set c None s)) n) \<and>
      (sl_done (ch_slots (set_call c p (shard_set c None s)) n) \<or> shard_get d (set_call c p (shard_set c None s)) = Some n)"
    if "phase_slot (ch_calls (set_call c p (shard_set c None s)) d) = Some n" for d n
    using that D(1) D(3) [of d n] none by (auto simp: shard_get_set split: if_splits)
  show "d = e" if "phase_slot (ch_calls (set_call c p (shard_set c None s)) d) = Some n"
    "phase_slot (ch_calls (set_call c p (shard_set c None s)) e) = Some n" for d e n
    using that D(4) [of d n e] none by (auto split: if_splits)
  show "returned_ok d q" if "ch_calls (set_call c p (shard_set c None s)) d = Some q" for d q
    using that D(5) [of d q] ok by (auto split: if_splits)
qed

text \<open>A slot that no call owns may change.\<close>

lemma chan_inv_free_slot:
  assumes inv: "chan_inv s" and free: "\<And>c. phase_slot (ch_calls s c) \<noteq> Some n"
  shows "chan_inv (s\<lparr>ch_slots := (ch_slots s)(n := sl)\<rparr>)"
proof (rule chan_invI)
  note D = chan_invD [OF inv]
  let ?s = "s\<lparr>ch_slots := (ch_slots s)(n := sl)\<rparr>"
  show "length (ch_shards ?s) = 16" using D(1) by simp
  show "k = inflight_shard d \<and> phase_slot (ch_calls ?s d) = Some m \<and> \<not> sl_done (ch_slots ?s m)"
    if "k < 16" "(ch_shards ?s ! k) d = Some m" for k d m
    using that D(2) [of k d m] free [of d] by auto
  show "m < ch_next ?s \<and> slot_ok d (ch_slots ?s m) \<and> (sl_done (ch_slots ?s m) \<or> shard_get d ?s = Some m)"
    if "phase_slot (ch_calls ?s d) = Some m" for d m
    using that D(3) [of d m] free [of d] by (auto simp: shard_get_def)
qed (use chan_invD(4,5) [OF inv] in auto)

section \<open>Every step keeps the invariant\<close>

lemma err_connection_kind [simp]: "err_kind (err_connection d) = KConnection"
  by (simp add: err_connection_def)

lemma closed_error_kind [simp]: "err_kind (closed_error s) = KConnection"
  by (simp add: closed_error_def split: option.split)

lemma inv_request_check:
  assumes "chan_inv s" and "case ch_calls s c of None \<Rightarrow> True | Some (PReturned _) \<Rightarrow> True | _ \<Rightarrow> False"
  shows "chan_inv (request_check c s)"
  unfolding request_check_def
  by (rule chan_inv_set_call [OF assms(1)])
    (use assms(2) in \<open>auto simp: returned_ok_def split: option.splits phase.splits\<close>)

lemma inv_request_send:
  assumes "chan_inv s" and "ch_calls s c = Some (PInserted n)"
  shows "chan_inv (request_send c n req s)"
  using assms chan_inv_set_call [of "s\<lparr>ch_queue := ch_queue s @ [req]\<rparr>" "PWaiting n" c]
    chan_inv_drop_call [of s PFailing c]
  by (simp add: request_send_def returned_ok_def)

lemma inv_request_closed:
  "chan_inv s \<Longrightarrow> ch_calls s c = Some PFailing \<Longrightarrow> chan_inv (request_closed c s)"
  unfolding request_closed_def by (rule chan_inv_set_call) (simp_all add: returned_ok_def)

lemma inv_request_timeout: "chan_inv s \<Longrightarrow> chan_inv (request_timeout c s)"
  unfolding request_timeout_def
  by (rule chan_inv_drop_call) (simp_all add: returned_ok_def timeout_error_def)

lemma inv_request_insert:
  assumes inv: "chan_inv s" and c: "ch_calls s c = Some PChecked"
  shows "chan_inv (request_insert c s)"
proof (rule chan_invI)
  note D = chan_invD [OF inv]
  let ?m = "ch_next s"
  let ?s = "request_insert c s"
  have calls: "ch_calls ?s = (ch_calls s)(c := Some (PInserted ?m))"
    and slots: "ch_slots ?s = (ch_slots s)(?m := slot_new)" and nxt: "ch_next ?s = Suc ?m"
    by (simp_all add: request_insert_def)
  have entry: "(ch_shards ?s ! k) d = (if k = inflight_shard c \<and> d = c then Some ?m else (ch_shards s ! k) d)"
    if "k < 16" for k d
    using that D(1) by (simp add: request_insert_def entry_shard_set)
  have get: "shard_get d ?s = (if d = c then Some ?m else shard_get d s)" for d
    using D(1) by (simp add: request_insert_def shard_get_set) (simp add: shard_get_def)
  have fresh: "phase_slot (ch_calls s d) \<noteq> Some ?m" for d
    using D(3) [of d ?m] by auto
  show "length (ch_shards ?s) = 16" using D(1) by (simp add: request_insert_def)
  show "k = inflight_shard d \<and> phase_slot (ch_calls ?s d) = Some n \<and> \<not> sl_done (ch_slots ?s n)"
    if "k < 16" "(ch_shards ?s ! k) d = Some n" for k d n
    using that D(2) [of k d n] c fresh [of d] by (auto simp: entry calls slots slot_new_def split: if_splits)
  show "n < ch_next ?s \<and> slot_ok d (ch_slots ?s n) \<and> (sl_done (ch_slots ?s n) \<or> shard_get d ?s = Some n)"
    if "phase_slot (ch_calls ?s d) = Some n" for d n
    using that D(3) [of d n] by (auto simp: calls slots nxt get slot_ok_def slot_new_def split: if_splits)
  show "d = e" if "phase_slot (ch_calls ?s d) = Some n" "phase_slot (ch_calls ?s e) = Some n" for d e n
    using that D(4) [of d n e] fresh by (auto simp: calls split: if_splits)
  show "returned_ok d q" if "ch_calls ?s d = Some q" for d q
    using that D(5) [of d q] by (auto simp: calls returned_ok_def split: if_splits)
qed

text \<open>The slots of a set of calls are filled and their entries taken out of the table: the response pump
  does it for one call, \<open>mark_broken\<close> for a shard.\<close>

lemma inv_fill_slots:
  assumes inv: "chan_inv s" and len: "length T = 16"
    and T: "\<And>k d. k < 16 \<Longrightarrow> (T ! k) d = (if d \<in> C then None else (ch_shards s ! k) d)"
    and C: "\<And>d. d \<in> C \<Longrightarrow> r d = Inl e \<and> err_kind e = KConnection \<or> (\<exists>frame. r d = Inr frame \<and> correlation_id frame = d)"
    and f: "\<And>n. f n = (if \<exists>d \<in> C. shard_get d s = Some n then fill (ch_slots s n) (r (THE d. shard_get d s = Some n)) else ch_slots s n)"
  shows "chan_inv (s\<lparr>ch_shards := T, ch_slots := f\<rparr>)"
proof (rule chan_invI)
  note D = chan_invD [OF inv]
  let ?s = "s\<lparr>ch_shards := T, ch_slots := f\<rparr>"
  have own: "shard_get d s = Some n \<Longrightarrow> phase_slot (ch_calls s d) = Some n \<and> \<not> sl_done (ch_slots s n)" for d n
    using D(2) [of "inflight_shard d" d n] by (simp add: shard_get_def)
  have uniq: "(THE d. shard_get d s = Some n) = d" if "shard_get d s = Some n" for d n
    using that own D(4) by (intro the_equality) blast+
  have keep: "f n = ch_slots s n" if "phase_slot (ch_calls s d) = Some n" "d \<notin> C" for d n
    using that own D(4) by (metis f)
  have filled: "f n = fill (ch_slots s n) (r d)" if "shard_get d s = Some n" "d \<in> C" for d n
    using that uniq by (metis f)
  show "length (ch_shards ?s) = 16" using len by simp
  show "k = inflight_shard d \<and> phase_slot (ch_calls ?s d) = Some n \<and> \<not> sl_done (ch_slots ?s n)"
    if "k < 16" "(ch_shards ?s ! k) d = Some n" for k d n
    using that D(2) [of k d n] keep [of d n] by (auto simp: T split: if_splits)
  show "n < ch_next ?s \<and> slot_ok d (ch_slots ?s n) \<and> (sl_done (ch_slots ?s n) \<or> shard_get d ?s = Some n)"
    if owned: "phase_slot (ch_calls ?s d) = Some n" for d n
  proof (cases "d \<in> C \<and> shard_get d s = Some n")
    case True
    then have "f n = fill (ch_slots s n) (r d)" "\<not> sl_done (ch_slots s n)" using filled own by blast+
    moreover have "n < ch_next s" using owned D(3) by simp
    ultimately show ?thesis using True C [of d] by (auto simp: fill_def slot_ok_def)
  next
    case False
    have "f n = ch_slots s n"
    proof (cases "d \<in> C")
      case True
      with False have "\<not> (\<exists>d' \<in> C. shard_get d' s = Some n)"
        using own D(4) owned by (metis select_convs(6) surjective update_convs(3,4))
      then show ?thesis by (simp add: f)
    qed (use keep owned in simp)
    with False owned D(3) [of d n] show ?thesis
      by (auto simp: shard_get_def T)
  qed
  show "d = e'" if "phase_slot (ch_calls ?s d) = Some n" "phase_slot (ch_calls ?s e') = Some n" for d e' n
    using that D(4) by simp
  show "returned_ok d q" if "ch_calls ?s d = Some q" for d q
    using that D(5) by simp
qed

lemma inv_pump_respond:
  assumes inv: "chan_inv s"
  shows "chan_inv (pump_respond frame s)"
proof (cases "shard_get (correlation_id frame) s")
  case None
  then show ?thesis using inv by (simp add: pump_respond_def)
next
  case (Some n)
  let ?c = "correlation_id frame"
  have len: "length (ch_shards s) = 16" by (rule chan_inv_length [OF inv])
  have "chan_inv (s\<lparr>ch_shards := ch_shards (shard_set ?c None s),
      ch_slots := (ch_slots s)(n := fill (ch_slots s n) (Inr frame))\<rparr>)"
  proof (rule inv_fill_slots [OF inv, where C = "{?c}" and r = "\<lambda>_. Inr frame"])
    show "length (ch_shards (shard_set ?c None s)) = 16" using len by simp
    show "(ch_shards (shard_set ?c None s) ! k) d = (if d \<in> {?c} then None else (ch_shards s ! k) d)" if "k < 16" for k d
      using that len chan_inv_entry [OF inv that, of ?c]
      by (cases "(ch_shards s ! k) ?c") (auto simp: entry_shard_set)
  qed (use Some in auto)
  moreover have "pump_respond frame s = s\<lparr>ch_shards := ch_shards (shard_set ?c None s),
      ch_slots := (ch_slots s)(n := fill (ch_slots s n) (Inr frame))\<rparr>"
    using Some by (simp add: pump_respond_def shard_set_def)
  ultimately show ?thesis by simp
qed

lemma inv_broken_drain:
  assumes inv: "chan_inv s"
  shows "chan_inv (broken_drain w detail k s)"
proof (cases "k < length (ch_shards s)")
  case True
  let ?C = "{d. (ch_shards s ! k) d \<noteq> None}"
  let ?f = "\<lambda>n. if n \<in> ran (ch_shards s ! k) then fill (ch_slots s n) (Inl (err_connection detail)) else ch_slots s n"
  have len: "length (ch_shards s) = 16" by (rule chan_inv_length [OF inv])
  with True have k: "k < 16" by simp
  have shard: "inflight_shard d = k" if "(ch_shards s ! k) d = Some n" for d n
    using chan_inv_entry [OF inv k that] by simp
  have ran: "n \<in> ran (ch_shards s ! k) \<longleftrightarrow> (\<exists>d \<in> ?C. shard_get d s = Some n)" for n
    using shard by (fastforce simp: ran_def shard_get_def)
  have "chan_inv (s\<lparr>ch_shards := (ch_shards s)[k := \<lambda>_. None], ch_slots := ?f\<rparr>)"
  proof (rule inv_fill_slots [OF inv, where C = ?C and r = "\<lambda>_. Inl (err_connection detail)"])
    show "length ((ch_shards s)[k := \<lambda>_. None]) = 16" using len by simp
    show "((ch_shards s)[k := \<lambda>_. None] ! j) d = (if d \<in> ?C then None else (ch_shards s ! j) d)" if "j < 16" for j d
    proof (cases "j = k")
      case False
      have "(ch_shards s ! j) d = None" if "(ch_shards s ! k) d \<noteq> None"
        using False that shard [of d] chan_inv_entry [OF inv \<open>j < 16\<close>, of d]
        by (cases "(ch_shards s ! j) d") auto
      with False show ?thesis by auto
    qed (use len k in auto)
    show "?f n = (if \<exists>d \<in> ?C. shard_get d s = Some n then fill (ch_slots s n) (Inl (err_connection detail)) else ch_slots s n)" for n
      by (simp only: ran)
  qed auto
  then show ?thesis using True by (simp add: broken_drain_def Let_def)
qed (simp add: broken_drain_def inv)

lemma inv_request_wake:
  assumes inv: "chan_inv s" and c: "ch_calls s c = Some (PWaiting n)" and fin: "sl_done (ch_slots s n)"
  shows "chan_inv (request_wake c n s)"
proof -
  have own: "phase_slot (ch_calls s c) = Some n" using c by simp
  have ok: "slot_ok c (ch_slots s n)" using chan_inv_owned [OF inv own] by simp
  have none: "shard_get c s = None"
    using chan_inv_entry [OF inv, of "inflight_shard c" c] own fin by (cases "shard_get c s") (auto simp: shard_get_def)
  have sh: "(ch_shards s)[inflight_shard c := (ch_shards s ! inflight_shard c)(c := None)] = ch_shards s"
    using none by (simp add: shard_get_def fun_upd_idem list_update_id)
  then have same: "shard_set c None s = s" by (simp add: shard_set_def)
  obtain r where r: "sl_result (ch_slots s n) = Some r" using ok fin by (auto simp: slot_ok_def split: option.splits)
  let ?p = "PReturned (case r of Inr frame \<Rightarrow> if correlation_id frame \<noteq> c then Inl mismatch_error else Inr frame | Inl e \<Rightarrow> Inl e)"
  let ?sl = "(ch_slots s n)\<lparr>sl_result := None\<rparr>"
  have "chan_inv (set_call c ?p (shard_set c None s))"
    using ok r fin by (intro chan_inv_drop_call [OF inv]) (auto simp: returned_ok_def slot_ok_def split: sum.splits)
  then have "chan_inv ((set_call c ?p s)\<lparr>ch_slots := (ch_slots (set_call c ?p s))(n := ?sl)\<rparr>)"
    unfolding same by (rule chan_inv_free_slot) (use chan_inv_distinct [OF inv own] in auto)
  moreover have "request_wake c n s = (set_call c ?p s)\<lparr>ch_slots := (ch_slots (set_call c ?p s))(n := ?sl)\<rparr>"
    using fin r sh
    by (cases r) (simp_all add: request_wake_def poll_def Let_def set_call_def shard_set_def shard_get_def)
  ultimately show ?thesis by simp
qed

lemma inv_abort [simp]: "chan_inv (abort w s) = chan_inv s" "chan_inv (broken_abort w s) = chan_inv s"
proof -
  show a: "chan_inv (abort w s) = chan_inv s" for w s
    by (simp add: abort_def split: pump.split)
  show "chan_inv (broken_abort w s) = chan_inv s" by (cases w) (simp_all add: a)
qed

lemma chan_inv_step: "chan_step timed s s' \<Longrightarrow> chan_inv s \<Longrightarrow> chan_inv s'"
proof (induction rule: chan_step.induct)
  case (begin_call s c)
  then show ?case by (intro inv_request_check)
next
  case (wake s c n)
  then show ?case by (intro inv_request_wake)
qed (simp_all add: inv_request_insert inv_request_send inv_request_closed inv_request_timeout inv_pump_respond
    inv_broken_drain pump_write_def broken_swap_def broken_error_def)

lemma chan_inv_new: "chan_inv channel_new"
  by (simp add: chan_inv_def channel_new_def)

lemma chan_reachable_inv: "chan_reachable timed s \<Longrightarrow> chan_inv s"
  by (induction rule: chan_reachable.induct) (auto simp: chan_inv_new intro: chan_inv_step)

section \<open>Properties\<close>

text \<open>C6: No call of a channel gets another call's answer. In every interleaving of calls, pumps and
  closing: a call that returned a frame returned one with its own correlation id, a call that failed
  failed with a connection error, no two calls share a slot, and a call that waits for an answer it has
  not got yet is in the in-flight table under its correlation id, where the response pump will look.\<close>

theorem channel_calls_safe:
  assumes "chan_reachable timed s"
  shows "(ch_calls s c = Some (PReturned (Inr frame)) \<longrightarrow> correlation_id frame = c) \<and>
    (ch_calls s c = Some (PReturned (Inl e)) \<longrightarrow> err_kind e = KConnection) \<and>
    (ch_calls s c = Some (PWaiting n) \<and> ch_calls s d = Some (PWaiting n) \<longrightarrow> c = d) \<and>
    (ch_calls s c = Some (PWaiting n) \<and> \<not> sl_done (ch_slots s n) \<longrightarrow> shard_get c s = Some n)"
proof -
  note inv = chan_reachable_inv [OF assms]
  have "correlation_id frame = c" if "ch_calls s c = Some (PReturned (Inr frame))"
    using chan_inv_returned [OF inv that] by (simp add: returned_ok_def)
  moreover have "err_kind e = KConnection" if "ch_calls s c = Some (PReturned (Inl e))"
    using chan_inv_returned [OF inv that] by (simp add: returned_ok_def)
  moreover have "c = d" if "ch_calls s c = Some (PWaiting n)" "ch_calls s d = Some (PWaiting n)"
    using chan_inv_distinct [OF inv, of c n d] that by simp
  moreover have "shard_get c s = Some n" if "ch_calls s c = Some (PWaiting n)" "\<not> sl_done (ch_slots s n)"
    using chan_inv_owned [OF inv, of c n] that by simp
  ultimately show ?thesis by blast
qed

text \<open>A call that has been sent and waits.\<close>

definition sent_call :: "i64 \<Rightarrow> bytes \<Rightarrow> chan" where
  "sent_call c req = request_send c 0 req (request_insert c (request_check c channel_new))"

lemma sent_call_reachable: "chan_reachable timed (sent_call c req)"
proof -
  have 1: "chan_reachable timed (request_check c channel_new)"
    by (rule chan_reachable.step [OF chan_reachable.init], rule chan_step.begin_call) (simp add: channel_new_def)
  have 2: "chan_reachable timed (request_insert c (request_check c channel_new))"
    by (rule chan_reachable.step [OF 1], rule chan_step.insert)
      (simp add: request_check_def is_available_def channel_new_def)
  show ?thesis unfolding sent_call_def
    by (rule chan_reachable.step [OF 2], rule chan_step.send)
      (simp add: request_insert_def request_check_def channel_new_def)
qed

lemma sent_call_waits:
  "ch_calls (sent_call c req) c = Some (PWaiting 0)" "\<not> sl_done (ch_slots (sent_call c req) 0)"
  "ch_pumps (sent_call c req) w = Running" "ch_closed (sent_call c req) = False"
  "ch_queue (sent_call c req) = [req]"
  by (simp_all add: sent_call_def request_send_def request_insert_def request_check_def channel_new_def set_call_def
      shard_set_def slot_new_def)

theorem channel_calls_safe_witness:
  "shard_get 5 (sent_call 5 [1]) = Some 0"
  using channel_calls_safe [OF sent_call_reachable [of False 5 "[1]"], of 5 _ _ 0 5] sent_call_waits [of 5 "[1]"] by simp

text \<open>An answer completes its call. When the response pump reads the frame of a call that waits, the
  call returns that frame, and no other call is touched; when \<open>mark_broken\<close> drains the shard of a call
  that waits, the call returns the connection error; and with a request timeout a call that waits can
  return whatever the server does.\<close>

theorem answer_completes_call:
  assumes "chan_reachable timed s" and "ch_calls s c = Some (PWaiting n)" and "\<not> sl_done (ch_slots s n)"
    and "correlation_id frame = c"
  shows "ch_calls (request_wake c n (pump_respond frame s)) = (ch_calls s)(c \<mapsto> PReturned (Inr frame)) \<and>
    (m \<noteq> n \<longrightarrow> ch_slots (request_wake c n (pump_respond frame s)) m = ch_slots s m) \<and>
    ch_calls (request_wake c n (broken_drain w detail (inflight_shard c) s)) c =
      Some (PReturned (Inl (err_connection detail))) \<and>
    chan_step True s (request_timeout c s) \<and> ch_calls (request_timeout c s) c = Some (PReturned (Inl timeout_error))"
proof -
  note inv = chan_reachable_inv [OF assms(1)]
  have get: "shard_get c s = Some n" using chan_inv_owned [OF inv, of c n] assms(2,3) by simp
  then have ran: "n \<in> ran (ch_shards s ! inflight_shard c)" by (auto simp: shard_get_def ran_def)
  have len: "length (ch_shards s) = 16" by (rule chan_inv_length [OF inv])
  have 1: "ch_calls (request_wake c n (pump_respond frame s)) = (ch_calls s)(c \<mapsto> PReturned (Inr frame))"
    using get assms(3,4) by (simp add: pump_respond_def request_wake_def poll_def fill_def Let_def)
  have 2: "ch_slots (request_wake c n (pump_respond frame s)) m = ch_slots s m" if "m \<noteq> n"
    using get assms(3,4) that by (simp add: pump_respond_def request_wake_def poll_def fill_def Let_def)
  have 3: "ch_calls (request_wake c n (broken_drain w detail (inflight_shard c) s)) c =
      Some (PReturned (Inl (err_connection detail)))"
    using ran len assms(3) by (simp add: broken_drain_def request_wake_def poll_def fill_def Let_def set_pump_def)
  have 4: "chan_step True s (request_timeout c s)" using assms(2) by (intro chan_step.timeout) simp_all
  have 5: "ch_calls (request_timeout c s) c = Some (PReturned (Inl timeout_error))" by (simp add: request_timeout_def)
  show ?thesis using 1 2 3 4 5 by blast
qed

definition sample_frame :: "i64 \<Rightarrow> response_frame" where
  "sample_frame c = \<lparr>correlation_id = c, frame_flag = Success, frame_body = [], payload_offset = 0, frame_topology_version = None\<rparr>"

theorem answer_completes_call_witness:
  "ch_calls (request_wake 5 0 (pump_respond (sample_frame 5) (sent_call 5 [1]))) 5 = Some (PReturned (Inr (sample_frame 5)))"
  using answer_completes_call [OF sent_call_reachable [of False 5 "[1]"], of 5 0 "sample_frame 5"] sent_call_waits [of 5 "[1]"]
  by (simp add: sample_frame_def)

section \<open>Calls that are never answered\<close>

text \<open>A call that waits on a channel nobody will ever answer or break again.\<close>

definition lost_call :: "i64 \<Rightarrow> chan \<Rightarrow> bool" where
  "lost_call c s \<longleftrightarrow> (\<exists>n. ch_calls s c = Some (PWaiting n) \<and> \<not> sl_done (ch_slots s n)) \<and>
     ch_closed s \<and> ch_pumps s Writer = Gone \<and> ch_pumps s Responder = Gone \<and>
     (case ch_pumps s Closer of Running \<Rightarrow> True | BkError _ b \<Rightarrow> b | BkAbort \<Rightarrow> True | Gone \<Rightarrow> True | BkDrain _ _ \<Rightarrow> False)"

lemma pumps_of_calls [simp]:
  "ch_pumps (set_call c p s) = ch_pumps s" "ch_closed (set_call c p s) = ch_closed s"
  "ch_pumps (shard_set c v s) = ch_pumps s" "ch_closed (shard_set c v s) = ch_closed s"
  by (simp_all add: set_call_def shard_set_def)

lemma lost_call_step:
  assumes step: "chan_step False s s'" and inv: "chan_inv s" and lost: "lost_call c s"
  shows "lost_call c s'"
proof -
  obtain n where c: "ch_calls s c = Some (PWaiting n)" and open_slot: "\<not> sl_done (ch_slots s n)"
    using lost by (auto simp: lost_call_def)
  have own: "phase_slot (ch_calls s c) = Some n" using c by simp
  have n: "n < ch_next s" using chan_inv_owned [OF inv own] by simp
  have other: "m \<noteq> n" if "ch_calls s d = Some (PWaiting m)" "d \<noteq> c" for d m
    using chan_inv_distinct [OF inv own, of d] that by auto
  have lostI: "lost_call c t" if "ch_calls t c = ch_calls s c" "ch_slots t n = ch_slots s n" "ch_closed t"
      "ch_pumps t Writer = Gone" "ch_pumps t Responder = Gone"
      "case ch_pumps t Closer of Running \<Rightarrow> True | BkError _ b \<Rightarrow> b | BkAbort \<Rightarrow> True | Gone \<Rightarrow> True | BkDrain _ _ \<Rightarrow> False" for t
    using that c open_slot by (auto simp: lost_call_def)
  note L = lost [unfolded lost_call_def]
  from step show ?thesis
  proof cases
    case (begin_call d)
    with c L show ?thesis by (intro lostI) (auto simp: request_check_def split: option.splits phase.splits)
  next
    case (insert d)
    with c L n show ?thesis by (intro lostI) (auto simp: request_insert_def)
  next
    case (send d m req)
    with c L show ?thesis by (intro lostI) (auto simp: request_send_def)
  next
    case (fail d)
    with c L show ?thesis by (intro lostI) (auto simp: request_closed_def)
  next
    case (wake d m)
    then have "d \<noteq> c" "m \<noteq> n" using c open_slot other [of d m] by auto
    with wake c L show ?thesis
      by (intro lostI) (auto simp: request_wake_def Let_def split: option.splits sum.splits)
  next
    case flush
    with L show ?thesis by simp
  next
    case (respond frame)
    with L show ?thesis by simp
  next
    case (swap w detail)
    with L have "w = Closer" by (cases w) auto
    with swap L show ?thesis by (intro lostI) (auto simp: broken_swap_def set_pump_def)
  next
    case (error w detail b)
    with L have "w = Closer" by (cases w) auto
    with error L show ?thesis by (intro lostI) (auto simp: broken_error_def set_pump_def)
  next
    case (drain w detail k)
    with L show ?thesis by (cases w) auto
  next
    case (abort w)
    with L have "w = Closer" by (cases w) auto
    with abort L show ?thesis by (intro lostI) (auto simp: abort_def set_pump_def)
  qed simp
qed

text \<open>First way: both pumps fail at once. The writer pump has swapped \<open>closed\<close> and waits for the lock of
  the error text; the response pump finds the channel closed, does not drain, and aborts the writer pump
  before it drains.\<close>

definition both_fail :: "i64 \<Rightarrow> chan" where
  "both_fail c = broken_abort Responder (broken_error Responder [] True (broken_swap Responder []
     (broken_swap Writer [] (sent_call c []))))"

lemma both_fail_lost: "chan_reachable timed (both_fail c)" "lost_call c (both_fail c)"
proof -
  let ?s1 = "broken_swap Writer [] (sent_call c [])"
  let ?s2 = "broken_swap Responder [] ?s1"
  let ?s3 = "broken_error Responder [] True ?s2"
  have 1: "chan_reachable timed ?s1"
    by (rule chan_reachable.step [OF sent_call_reachable], rule chan_step.swap) (rule sent_call_waits)
  have 2: "chan_reachable timed ?s2"
    by (rule chan_reachable.step [OF 1], rule chan_step.swap)
      (simp add: broken_swap_def set_pump_def sent_call_waits)
  have 3: "chan_reachable timed ?s3"
    by (rule chan_reachable.step [OF 2], rule chan_step.error)
      (simp add: broken_swap_def set_pump_def)
  show "chan_reachable timed (both_fail c)" unfolding both_fail_def
    by (rule chan_reachable.step [OF 3], rule chan_step.abort)
      (simp add: broken_error_def set_pump_def)
  show "lost_call c (both_fail c)"
    using sent_call_waits [of c "[]"]
    by (simp add: lost_call_def both_fail_def broken_swap_def broken_error_def set_pump_def abort_def)
qed

text \<open>Second way: a call that found the channel open registers after the response pump has drained the
  table, and before it has aborted the writer pump, whose queue still takes the request.\<close>

lemma drains_complete:
  assumes "chan_reachable timed s" and "ch_pumps s w = BkDrain detail k" and "k \<le> length (ch_shards s)"
  shows "\<exists>t. chan_reachable timed t \<and> ch_pumps t = (ch_pumps s)(w := BkAbort) \<and> ch_calls t = ch_calls s \<and>
    ch_closed t = ch_closed s"
  using assms
proof (induction "length (ch_shards s) - k" arbitrary: s k)
  case 0
  then have "chan_reachable timed (broken_drain w detail k s)"
    by (intro chan_reachable.step [OF 0(2)] chan_step.drain)
  with 0 show ?case by (intro exI [of _ "broken_drain w detail k s"]) (simp add: broken_drain_def set_pump_def)
next
  case (Suc m)
  let ?s = "broken_drain w detail k s"
  have k: "k < length (ch_shards s)" using Suc.hyps(2) by simp
  have r: "chan_reachable timed ?s" using Suc.prems by (intro chan_reachable.step [OF Suc.prems(1)] chan_step.drain)
  have "\<exists>t. chan_reachable timed t \<and> ch_pumps t = (ch_pumps ?s)(w := BkAbort) \<and> ch_calls t = ch_calls ?s \<and>
    ch_closed t = ch_closed ?s"
    by (rule Suc.hyps(1) [of _ "Suc k"]) (use Suc.hyps(2) k r in \<open>simp_all add: broken_drain_def Let_def set_pump_def\<close>)
  with k show ?case by (simp add: broken_drain_def Let_def set_pump_def)
qed

lemma late_insert_lost: "\<exists>s. chan_reachable timed s \<and> lost_call c s"
proof -
  let ?s1 = "request_check c channel_new"
  let ?s2 = "broken_swap Responder [] ?s1"
  let ?s3 = "broken_error Responder [] False ?s2"
  have 1: "chan_reachable timed ?s1"
    by (rule chan_reachable.step [OF chan_reachable.init], rule chan_step.begin_call) (simp add: channel_new_def)
  have p1: "ch_pumps ?s1 = (\<lambda>_. Running)" "ch_closed ?s1 = False" "ch_calls ?s1 c = Some PChecked"
    by (simp_all add: request_check_def channel_new_def is_available_def)
  have 2: "chan_reachable timed ?s2"
    by (rule chan_reachable.step [OF 1], rule chan_step.swap) (simp add: p1)
  have 3: "chan_reachable timed ?s3"
    by (rule chan_reachable.step [OF 2], rule chan_step.error) (simp add: broken_swap_def set_pump_def p1)
  obtain t where t: "chan_reachable timed t" "ch_pumps t = (ch_pumps ?s3)(Responder := BkAbort)"
      "ch_calls t = ch_calls ?s3" "ch_closed t = ch_closed ?s3"
    using drains_complete [OF 3, of Responder "[]" 0] by (auto simp: broken_error_def set_pump_def)
  have pt: "ch_pumps t Writer = Running" "ch_pumps t Closer = Running" "ch_pumps t Responder = BkAbort" "ch_closed t"
      "ch_calls t c = Some PChecked"
    using t p1 by (simp_all add: broken_error_def broken_swap_def set_pump_def)
  let ?t1 = "request_insert c t"
  let ?t2 = "request_send c (ch_next t) [] ?t1"
  have 4: "chan_reachable timed ?t1" by (rule chan_reachable.step [OF t(1)], rule chan_step.insert) (rule pt)
  have 5: "chan_reachable timed ?t2"
    by (rule chan_reachable.step [OF 4], rule chan_step.send) (simp add: request_insert_def)
  have p2: "ch_pumps ?t2 = ch_pumps t" "ch_closed ?t2" "ch_calls ?t2 c = Some (PWaiting (ch_next t))"
      "\<not> sl_done (ch_slots ?t2 (ch_next t))"
    using pt by (simp_all add: request_send_def request_insert_def slot_new_def)
  have 6: "chan_reachable timed (broken_abort Responder ?t2)"
    by (rule chan_reachable.step [OF 5], rule chan_step.abort) (simp add: p2 pt)
  have "lost_call c (broken_abort Responder ?t2)"
    using p2 pt by (simp add: lost_call_def abort_def set_pump_def)
  with 6 show ?thesis by blast
qed



section \<open>Notifications\<close>

text \<open>The listeners of notifications and the frames that came before their listener. A listener is the
  frames it has been sent and whether its receiver is still there. The two maps have a lock each, so that
  \<open>register_notification_listener\<close> and \<open>dispatch_notification\<close> are two steps each.\<close>

type_synonym notification_key = "i16 \<times> i64"

record notifications =
  n_listeners :: "notification_key \<Rightarrow> (bool \<times> response_frame list) option"
  n_pending :: "notification_key \<Rightarrow> response_frame list option"

definition notifications_new :: notifications where
  "notifications_new = \<lparr>n_listeners = (\<lambda>_. None), n_pending = (\<lambda>_. None)\<rparr>"

definition register_insert :: "notification_key \<Rightarrow> notifications \<Rightarrow> notifications" where
  "register_insert key s = s\<lparr>n_listeners := (n_listeners s)(key \<mapsto> (True, []))\<rparr>"

definition listener_send :: "notification_key \<Rightarrow> response_frame list \<Rightarrow> notifications \<Rightarrow> notifications" where
  "listener_send key frames s = s\<lparr>n_listeners := (n_listeners s)(key := (case n_listeners s key of
      Some (True, got) \<Rightarrow> Some (True, got @ frames) | l \<Rightarrow> l))\<rparr>"

definition register_flush :: "notification_key \<Rightarrow> notifications \<Rightarrow> notifications" where
  "register_flush key s = (case n_pending s key of
      None \<Rightarrow> s
    | Some frames \<Rightarrow> listener_send key frames (s\<lparr>n_pending := (n_pending s)(key := None)\<rparr>))"

text \<open>The first half of a dispatch says whether the frame is delivered.\<close>

definition dispatch_look :: "notification_key \<Rightarrow> response_frame \<Rightarrow> notifications \<Rightarrow> bool \<times> notifications" where
  "dispatch_look key frame s = (case n_listeners s key of
      Some (True, got) \<Rightarrow> (True, listener_send key [frame] s)
    | _ \<Rightarrow> (False, s))"

definition dispatch_pend :: "notification_key \<Rightarrow> response_frame \<Rightarrow> notifications \<Rightarrow> notifications" where
  "dispatch_pend key frame s = s\<lparr>n_pending := (n_pending s)(key \<mapsto>
     (case n_pending s key of None \<Rightarrow> [] | Some fs \<Rightarrow> fs) @ [frame])\<rparr>"

definition dispatch_notification :: "notification_key \<Rightarrow> response_frame \<Rightarrow> notifications \<Rightarrow> notifications" where
  "dispatch_notification key frame s = (case dispatch_look key frame s of
      (True, s') \<Rightarrow> s' | (False, s') \<Rightarrow> dispatch_pend key frame s')"

definition register_notification_listener :: "notification_key \<Rightarrow> notifications \<Rightarrow> notifications" where
  "register_notification_listener key s = register_flush key (register_insert key s)"

definition remove_notification_listener :: "notification_key \<Rightarrow> notifications \<Rightarrow> notifications" where
  "remove_notification_listener key s = s\<lparr>n_listeners := (n_listeners s)(key := None), n_pending := (n_pending s)(key := None)\<rparr>"

lemma dispatch_unheard:
  assumes "n_listeners s key = None"
  shows "n_listeners (fold (dispatch_notification key) fs s) = n_listeners s \<and>
    (case n_pending (fold (dispatch_notification key) fs s) key of None \<Rightarrow> [] | Some gs \<Rightarrow> gs) =
    (case n_pending s key of None \<Rightarrow> [] | Some gs \<Rightarrow> gs) @ fs"
  using assms
  by (induction fs arbitrary: s) (simp_all add: dispatch_notification_def dispatch_look_def dispatch_pend_def)

lemma dispatch_heard:
  assumes "n_listeners s key = Some (True, got)"
  shows "n_listeners (fold (dispatch_notification key) fs s) key = Some (True, got @ fs) \<and>
    n_pending (fold (dispatch_notification key) fs s) = n_pending s"
  using assms
  by (induction fs arbitrary: s got)
    (simp_all add: dispatch_notification_def dispatch_look_def listener_send_def)


end
