(* ===== verification/OpCodes.thy ===== *)
theory OpCodes
  imports Prelude
begin

text \<open>The operation codes of \<open>api/mod.rs\<close> and their cast to the 16-bit number on the wire.\<close>

section \<open>Operation codes\<close>

datatype (plugins only: size) op_code =
    OpHeartbeat
  | OpGetIdleTimeout
  | OpCacheGetNames
  | OpCacheCreateWithName
  | OpCacheGetOrCreateWithName
  | OpCacheCreateWithConfiguration
  | OpCacheGetOrCreateWithConfiguration
  | OpCacheGetConfiguration
  | OpCacheDestroy
  | OpCacheGet
  | OpCachePut
  | OpCachePutIfAbsent
  | OpCacheGetAll
  | OpCachePutAll
  | OpCacheGetAndPut
  | OpCacheGetAndReplace
  | OpCacheGetAndRemove
  | OpCacheGetAndPutIfAbsent
  | OpCacheReplace
  | OpCacheReplaceIfEquals
  | OpCacheContainsKey
  | OpCacheContainsKeys
  | OpCacheClear
  | OpCacheClearKey
  | OpCacheClearKeys
  | OpCacheRemoveKey
  | OpCacheRemoveIfEquals
  | OpCacheRemoveKeys
  | OpCacheRemoveAll
  | OpCacheGetSize
  | OpCachePutAllConflict
  | OpCacheRemoveAllConflict
  | OpCacheInvoke
  | OpCacheInvokeAll
  | OpCachePartitions
  | OpQueryScan
  | OpQueryScanCursorGetPage
  | OpQuerySql
  | OpQuerySqlCursorGetPage
  | OpResourceClose
  | OpQuerySqlFields
  | OpQuerySqlFieldsCursorGetPage
  | OpQueryContinuous
  | OpQueryContinuousEvent
  | OpQueryIndex
  | OpQueryIndexCursorGetPage
  | OpTxStart
  | OpTxEnd
  | OpGetBinaryTypeName
  | OpRegisterBinaryTypeName
  | OpGetBinaryType
  | OpPutBinaryType
  | OpGetBinaryConfiguration
  | OpClusterGetState
  | OpClusterChangeState
  | OpClusterChangeWalState
  | OpClusterGetWalState
  | OpClusterGroupGetNodeIds
  | OpClusterGroupGetNodeInfo
  | OpClusterGroupGetNodeEndpoints
  | OpClusterGetDataCenterNodes
  | OpComputeTaskExecute
  | OpComputeTaskFinished
  | OpServiceInvoke
  | OpServiceGetDescriptors
  | OpServiceGetDescriptor
  | OpServiceGetTopology
  | OpDataStreamerStart
  | OpDataStreamerAddData
  | OpAtomicLongCreate
  | OpAtomicLongRemove
  | OpAtomicLongExists
  | OpAtomicLongValueGet
  | OpAtomicLongValueAddAndGet
  | OpAtomicLongValueGetAndSet
  | OpAtomicLongValueCompareAndSet
  | OpAtomicLongValueCompareAndSetAndGet
  | OpSetGetOrCreate
  | OpSetClose
  | OpSetExists
  | OpSetValueAdd
  | OpSetValueAddAll
  | OpSetValueRemove
  | OpSetValueRemoveAll
  | OpSetValueContains
  | OpSetValueContainsAll
  | OpSetValueRetainAll
  | OpSetSize
  | OpSetClear
  | OpSetIteratorStart
  | OpSetIteratorGetPage
  | OpOpStopWarmup

fun op_code_i16 :: "op_code \<Rightarrow> i16" where
  "op_code_i16 OpHeartbeat = 1"
| "op_code_i16 OpGetIdleTimeout = 2"
| "op_code_i16 OpCacheGetNames = 1050"
| "op_code_i16 OpCacheCreateWithName = 1051"
| "op_code_i16 OpCacheGetOrCreateWithName = 1052"
| "op_code_i16 OpCacheCreateWithConfiguration = 1053"
| "op_code_i16 OpCacheGetOrCreateWithConfiguration = 1054"
| "op_code_i16 OpCacheGetConfiguration = 1055"
| "op_code_i16 OpCacheDestroy = 1056"
| "op_code_i16 OpCacheGet = 1000"
| "op_code_i16 OpCachePut = 1001"
| "op_code_i16 OpCachePutIfAbsent = 1002"
| "op_code_i16 OpCacheGetAll = 1003"
| "op_code_i16 OpCachePutAll = 1004"
| "op_code_i16 OpCacheGetAndPut = 1005"
| "op_code_i16 OpCacheGetAndReplace = 1006"
| "op_code_i16 OpCacheGetAndRemove = 1007"
| "op_code_i16 OpCacheGetAndPutIfAbsent = 1008"
| "op_code_i16 OpCacheReplace = 1009"
| "op_code_i16 OpCacheReplaceIfEquals = 1010"
| "op_code_i16 OpCacheContainsKey = 1011"
| "op_code_i16 OpCacheContainsKeys = 1012"
| "op_code_i16 OpCacheClear = 1013"
| "op_code_i16 OpCacheClearKey = 1014"
| "op_code_i16 OpCacheClearKeys = 1015"
| "op_code_i16 OpCacheRemoveKey = 1016"
| "op_code_i16 OpCacheRemoveIfEquals = 1017"
| "op_code_i16 OpCacheRemoveKeys = 1018"
| "op_code_i16 OpCacheRemoveAll = 1019"
| "op_code_i16 OpCacheGetSize = 1020"
| "op_code_i16 OpCachePutAllConflict = 1022"
| "op_code_i16 OpCacheRemoveAllConflict = 1023"
| "op_code_i16 OpCacheInvoke = 1024"
| "op_code_i16 OpCacheInvokeAll = 1025"
| "op_code_i16 OpCachePartitions = 1101"
| "op_code_i16 OpQueryScan = 2000"
| "op_code_i16 OpQueryScanCursorGetPage = 2001"
| "op_code_i16 OpQuerySql = 2002"
| "op_code_i16 OpQuerySqlCursorGetPage = 2003"
| "op_code_i16 OpResourceClose = 0"
| "op_code_i16 OpQuerySqlFields = 2004"
| "op_code_i16 OpQuerySqlFieldsCursorGetPage = 2005"
| "op_code_i16 OpQueryContinuous = 2006"
| "op_code_i16 OpQueryContinuousEvent = 2007"
| "op_code_i16 OpQueryIndex = 2008"
| "op_code_i16 OpQueryIndexCursorGetPage = 2009"
| "op_code_i16 OpTxStart = 4000"
| "op_code_i16 OpTxEnd = 4001"
| "op_code_i16 OpGetBinaryTypeName = 3000"
| "op_code_i16 OpRegisterBinaryTypeName = 3001"
| "op_code_i16 OpGetBinaryType = 3002"
| "op_code_i16 OpPutBinaryType = 3003"
| "op_code_i16 OpGetBinaryConfiguration = 3004"
| "op_code_i16 OpClusterGetState = 5000"
| "op_code_i16 OpClusterChangeState = 5001"
| "op_code_i16 OpClusterChangeWalState = 5002"
| "op_code_i16 OpClusterGetWalState = 5003"
| "op_code_i16 OpClusterGroupGetNodeIds = 5100"
| "op_code_i16 OpClusterGroupGetNodeInfo = 5101"
| "op_code_i16 OpClusterGroupGetNodeEndpoints = 5102"
| "op_code_i16 OpClusterGetDataCenterNodes = 5103"
| "op_code_i16 OpComputeTaskExecute = 6000"
| "op_code_i16 OpComputeTaskFinished = 6001"
| "op_code_i16 OpServiceInvoke = 7000"
| "op_code_i16 OpServiceGetDescriptors = 7001"
| "op_code_i16 OpServiceGetDescriptor = 7002"
| "op_code_i16 OpServiceGetTopology = 7003"
| "op_code_i16 OpDataStreamerStart = 8000"
| "op_code_i16 OpDataStreamerAddData = 8001"
| "op_code_i16 OpAtomicLongCreate = 9000"
| "op_code_i16 OpAtomicLongRemove = 9001"
| "op_code_i16 OpAtomicLongExists = 9002"
| "op_code_i16 OpAtomicLongValueGet = 9003"
| "op_code_i16 OpAtomicLongValueAddAndGet = 9004"
| "op_code_i16 OpAtomicLongValueGetAndSet = 9005"
| "op_code_i16 OpAtomicLongValueCompareAndSet = 9006"
| "op_code_i16 OpAtomicLongValueCompareAndSetAndGet = 9007"
| "op_code_i16 OpSetGetOrCreate = 9010"
| "op_code_i16 OpSetClose = 9011"
| "op_code_i16 OpSetExists = 9012"
| "op_code_i16 OpSetValueAdd = 9013"
| "op_code_i16 OpSetValueAddAll = 9014"
| "op_code_i16 OpSetValueRemove = 9015"
| "op_code_i16 OpSetValueRemoveAll = 9016"
| "op_code_i16 OpSetValueContains = 9017"
| "op_code_i16 OpSetValueContainsAll = 9018"
| "op_code_i16 OpSetValueRetainAll = 9019"
| "op_code_i16 OpSetSize = 9020"
| "op_code_i16 OpSetClear = 9021"
| "op_code_i16 OpSetIteratorStart = 9022"
| "op_code_i16 OpSetIteratorGetPage = 9023"
| "op_code_i16 OpOpStopWarmup = 10000"

text \<open>\<open>is_read_only_op\<close> of \<open>transport.rs\<close>, on the number.\<close>

definition is_read_only_op :: "i16 \<Rightarrow> bool" where
  "is_read_only_op op_code \<longleftrightarrow> op_code \<in> set (map op_code_i16
    [OpCacheGetNames, OpCacheGet, OpCacheContainsKey, OpCacheContainsKeys, OpCacheGetConfiguration,
     OpCacheGetSize, OpCacheGetAll, OpQueryScan, OpQueryContinuous, OpClusterGetState, OpClusterGetWalState,
     OpClusterGroupGetNodeIds, OpClusterGroupGetNodeInfo, OpServiceGetDescriptors, OpServiceGetDescriptor,
     OpGetIdleTimeout, OpServiceGetTopology, OpGetBinaryTypeName, OpGetBinaryType, OpGetBinaryConfiguration])"

end
