(* ===== verification/RoundTrip.thy ===== *)
theory RoundTrip
  imports Channel OpCodes
begin

text \<open>
  Round trips of \<open>ChannelManager\<close>, \<open>ignite-rs/src/transport.rs\<close>: which channel a request goes to, the
  retry loop, the retry policy and the routes. What the network does is an argument: the channel that
  \<open>default_channel\<close> yields at an attempt, the outcome of \<open>Channel::request\<close> on it, the outcome of a
  reconnect. What the code does is the result and the trace of its actions.
\<close>

section \<open>Retry policy\<close>

record retry_context =
  rc_op_code :: i16
  rc_attempt :: nat
  rc_address :: rstring
  rc_error_kind :: error_kind
  rc_error_message :: rstring
  rc_read_only :: bool

datatype retry_decision = Retry | Stop

datatype retry_policy =
    RpDefault
  | RpNever
  | RpReadOnly
  | RpCustom "retry_context \<Rightarrow> ignite_error + retry_decision"

definition should_retry :: "retry_policy \<Rightarrow> i16 \<Rightarrow> nat \<Rightarrow> rstring \<Rightarrow> ignite_error \<Rightarrow> ignite_error + bool" where
  "should_retry policy op_code attempt address err =
    (if \<not> is_connection_related err then Inr False
     else case policy of
       RpDefault \<Rightarrow> Inr True
     | RpNever \<Rightarrow> Inr False
     | RpReadOnly \<Rightarrow> Inr (is_read_only_op op_code)
     | RpCustom decide \<Rightarrow>
         (case decide \<lparr>rc_op_code = op_code, rc_attempt = attempt, rc_address = address,
              rc_error_kind = err_kind err, rc_error_message = err_desc err,
              rc_read_only = is_read_only_op op_code\<rparr> of
            Inr Retry \<Rightarrow> Inr True
          | Inr Stop \<Rightarrow> Inr False
          | Inl policy_err \<Rightarrow> Inl (err_new (rstr ''retry policy for '' @ address @ rstr '' failed: '' @ err_desc policy_err))))"

section \<open>The retry loop\<close>

text \<open>What a round trip does: events, requests handed to a channel, reconnects, changes of the topology and
  of the affinity cache.\<close>

datatype action =
    AStarted rstring
  | ARequest rstring bytes
  | ATopologyChange topology_version
  | ASucceeded rstring
  | AFailed rstring rstring
  | AClosed rstring rstring
  | ARetried rstring rstring
  | AReconnect rstring
  | AInvalidateAffinity

type_synonym round_trip_result = "ignite_error + (flag \<times> bytes \<times> nat \<times> rstring)"

text \<open>What the world answers, attempt by attempt: the address of the default channel, the outcome of the
  request with these bytes, and the failure of a reconnect.\<close>

record world =
  w_default :: "nat \<Rightarrow> rstring"
  w_request :: "nat \<Rightarrow> rstring \<Rightarrow> bytes \<Rightarrow> ignite_error + response_frame"
  w_reconnect :: "nat \<Rightarrow> rstring \<Rightarrow> ignite_error option"

record trip_conf =
  tc_retry_limit :: nat
  tc_policy :: retry_policy
  tc_track_events :: bool

definition topology_actions :: "response_frame \<Rightarrow> action list" where
  "topology_actions response = (case frame_topology_version response of None \<Rightarrow> [] | Some v \<Rightarrow> [ATopologyChange v])"

definition outcome_events :: "bool \<Rightarrow> rstring \<Rightarrow> response_frame \<Rightarrow> action list" where
  "outcome_events track address response =
    (if track then (case frame_flag response of Success \<Rightarrow> [ASucceeded address] | Failure _ msg \<Rightarrow> [AFailed address msg])
     else [])"

definition response_result :: "rstring \<Rightarrow> response_frame \<Rightarrow> round_trip_result" where
  "response_result address response =
    Inr (frame_flag response, frame_body response, payload_offset response, address)"

text \<open>\<open>round_trip_internal\<close> from an attempt on. \<open>request\<close> is the buffer the loop still holds: it is cloned,
  and taken out (leaving an empty one) when \<open>attempt + 1 \<ge> max_attempts\<close>.\<close>

function round_trip_loop ::
    "trip_conf \<Rightarrow> world \<Rightarrow> i16 \<Rightarrow> nat \<Rightarrow> bool \<Rightarrow> bytes \<Rightarrow> action list \<times> round_trip_result" where
  "round_trip_loop conf w op_code attempt started request =
    (let max_attempts = tc_retry_limit conf;
         track = tc_track_events conf;
         address = w_default w attempt;
         start = (if track \<and> \<not> started then [AStarted address] else []);
         is_last = (max_attempts \<le> attempt + 1);
         (req, request') = (if is_last then (request, []) else (request, request))
     in case w_request w attempt address req of
          Inr response \<Rightarrow>
            (start @ [ARequest address req] @ topology_actions response @ outcome_events track address response,
             response_result address response)
        | Inl err \<Rightarrow>
            (let failed = start @ [ARequest address req] @ (if track then [AFailed address (err_desc err)] else [])
             in case should_retry (tc_policy conf) op_code (attempt + 1) address err of
                  Inl e \<Rightarrow> (failed, Inl e)
                | Inr False \<Rightarrow> (failed, Inl err)
                | Inr True \<Rightarrow>
                    (if max_attempts \<le> attempt then (failed @ [AClosed address (err_desc err)], Inl err)
                     else let retried = failed @ [AClosed address (err_desc err)] @ (if track then [ARetried address (err_desc err)] else []) @
                              [AReconnect address]
                          in case w_reconnect w attempt address of
                               Some e \<Rightarrow> (retried, Inl e)
                             | None \<Rightarrow>
                                 (case round_trip_loop conf w op_code (attempt + 1) (started \<or> track) request' of
                                    (acts, result) \<Rightarrow> (retried @ acts, result)))))"
  by pat_completeness auto
termination
  by (relation "measure (\<lambda>(conf, w, op_code, attempt, started, request). Suc (tc_retry_limit conf) - attempt)") auto

declare round_trip_loop.simps [simp del]

definition round_trip_internal :: "trip_conf \<Rightarrow> world \<Rightarrow> i16 \<Rightarrow> bytes \<Rightarrow> action list \<times> round_trip_result" where
  "round_trip_internal conf w op_code request = round_trip_loop conf w op_code 0 False request"

section \<open>Routes\<close>

record request_route =
  pinned_address :: "rstring option"
  preferred_node_id :: "rstring option"
  allow_retry :: bool

definition route_default :: request_route where
  "route_default = \<lparr>pinned_address = None, preferred_node_id = None, allow_retry = False\<rparr>"

definition route_pinned :: "rstring \<Rightarrow> request_route" where
  "route_pinned address = \<lparr>pinned_address = Some address, preferred_node_id = None, allow_retry = False\<rparr>"

definition route_preferred_node :: "rstring \<Rightarrow> request_route" where
  "route_preferred_node nid = \<lparr>pinned_address = None, preferred_node_id = Some nid, allow_retry = True\<rparr>"

definition route_is_default :: "request_route \<Rightarrow> bool" where
  "route_is_default route \<longleftrightarrow> pinned_address route = None \<and> preferred_node_id route = None"

text \<open>\<open>select_channel_for_route\<close>: the lookups by address and by node are the channel manager's.\<close>

definition select_channel_for_route ::
    "(rstring \<Rightarrow> rstring option) \<Rightarrow> (rstring \<Rightarrow> rstring option) \<Rightarrow> request_route \<Rightarrow> rstring option" where
  "select_channel_for_route for_address for_node route = (case pinned_address route of
      Some address \<Rightarrow> for_address address
    | None \<Rightarrow> (case preferred_node_id route of Some nid \<Rightarrow> for_node nid | None \<Rightarrow> None))"

definition lost_context :: ignite_error where
  "lost_context = err_new (rstr ''Transaction context has been lost due to connection errors'')"

text \<open>The request on the selected channel is \<open>once\<close>; what follows in the retry loop is the world \<open>w\<close>.\<close>

definition round_trip_with_route ::
    "trip_conf \<Rightarrow> world \<Rightarrow> (rstring \<Rightarrow> rstring option) \<Rightarrow> (rstring \<Rightarrow> rstring option) \<Rightarrow>
     (rstring \<Rightarrow> bytes \<Rightarrow> ignite_error + response_frame) \<Rightarrow> i16 \<Rightarrow> bytes \<Rightarrow> request_route \<Rightarrow>
     action list \<times> round_trip_result" where
  "round_trip_with_route conf w for_address for_node once op_code request route =
    (if route_is_default route then round_trip_internal conf w op_code request
     else case select_channel_for_route for_address for_node route of
       None \<Rightarrow> (if pinned_address route = None then round_trip_internal conf w op_code request
                else ([], Inl lost_context))
     | Some address \<Rightarrow>
         (let track = tc_track_events conf;
              start = (if track then [AStarted address] else []) @ [ARequest address request]
          in case once address request of
               Inr response \<Rightarrow> (start @ topology_actions response @ outcome_events track address response,
                  response_result address response)
             | Inl err \<Rightarrow>
                 (let failed = start @ (if track then [AFailed address (err_desc err)] else []) @
                     [AClosed address (err_desc err)]
                  in if allow_retry route
                     then (case round_trip_internal conf w op_code request of
                             (acts, result) \<Rightarrow> (failed @ AInvalidateAffinity # acts, result))
                     else (failed, Inl err))))"

text \<open>\<open>send_with_route\<close> and \<open>send_and_read_with_route\<close>, once the request is encoded.\<close>

definition send_result :: "round_trip_result \<Rightarrow> ignite_error + unit" where
  "send_result r = (case r of
      Inl e \<Rightarrow> Inl e
    | Inr (Success, _, _, _) \<Rightarrow> Inr ()
    | Inr (Failure status msg, _, _, _) \<Rightarrow> Inl (from_server_status status msg))"

definition read_result :: "'a reader \<Rightarrow> round_trip_result \<Rightarrow> (ignite_error + 'a outcome)" where
  "read_result rd r = (case r of
      Inl e \<Rightarrow> Inl e
    | Inr (Success, body, offset, _) \<Rightarrow> Inr (rd (drop offset body))
    | Inr (Failure status msg, _, _, _) \<Rightarrow> Inl (from_server_status status msg))"

section \<open>Requests of a trace\<close>

fun requests_of :: "action list \<Rightarrow> bytes list" where
  "requests_of [] = []"
| "requests_of (ARequest a b # acts) = b # requests_of acts"
| "requests_of (_ # acts) = requests_of acts"

lemma requests_of_append [simp]: "requests_of (xs @ ys) = requests_of xs @ requests_of ys"
  by (induction xs rule: requests_of.induct) simp_all

lemma requests_of_events [simp]:
  "requests_of (topology_actions r) = []" "requests_of (outcome_events track a r) = []"
  by (simp_all add: topology_actions_def outcome_events_def split: option.split flag.split)

text \<open>The buffers the loop hands out from an attempt on, when every attempt fails.\<close>

definition trip_requests :: "nat \<Rightarrow> nat \<Rightarrow> bytes \<Rightarrow> bytes list" where
  "trip_requests limit attempt request =
    (if limit \<le> attempt then [request] else replicate (limit - attempt) request @ [[]])"

lemma trip_requests_step:
  "attempt < limit \<Longrightarrow>
    trip_requests limit attempt request = request # trip_requests limit (Suc attempt) (if limit \<le> attempt + 1 then [] else request)"
  by (cases "limit - attempt") (auto simp: trip_requests_def Suc_diff_Suc)

lemma trip_requests_Cons: "\<exists>rest. trip_requests limit attempt request = request # rest"
  by (cases "limit - attempt") (auto simp: trip_requests_def)

text \<open>One turn of the loop.\<close>

lemma loop_answer:
  assumes "w_request w attempt (w_default w attempt) request = Inr response"
  shows "snd (round_trip_loop conf w op_code attempt started request) = response_result (w_default w attempt) response"
    and "requests_of (fst (round_trip_loop conf w op_code attempt started request)) = [request]"
  using assms by (subst round_trip_loop.simps, simp add: Let_def)+

lemma loop_stop:
  assumes "w_request w attempt (w_default w attempt) request = Inl err"
    and "should_retry (tc_policy conf) op_code (attempt + 1) (w_default w attempt) err = Inr False \<or>
         tc_retry_limit conf \<le> attempt \<and> should_retry (tc_policy conf) op_code (attempt + 1) (w_default w attempt) err = Inr True"
  shows "snd (round_trip_loop conf w op_code attempt started request) = Inl err"
    and "requests_of (fst (round_trip_loop conf w op_code attempt started request)) = [request]"
  using assms by (subst round_trip_loop.simps, auto simp: Let_def)+

lemma loop_retry:
  assumes "w_request w attempt (w_default w attempt) request = Inl err"
    and "should_retry (tc_policy conf) op_code (attempt + 1) (w_default w attempt) err = Inr True"
    and "attempt < tc_retry_limit conf" and "w_reconnect w attempt (w_default w attempt) = None"
    and "rest = round_trip_loop conf w op_code (Suc attempt) (started \<or> tc_track_events conf)
      (if tc_retry_limit conf \<le> attempt + 1 then [] else request)"
  shows "snd (round_trip_loop conf w op_code attempt started request) = snd rest"
    and "requests_of (fst (round_trip_loop conf w op_code attempt started request)) = request # requests_of (fst rest)"
  using assms by (subst round_trip_loop.simps, auto simp: Let_def split: prod.split)+

text \<open>Whatever the network does, what the loop hands out is a beginning of \<open>trip_requests\<close>, and not empty.\<close>

lemma loop_turn:
  "requests_of (fst (round_trip_loop conf w op_code attempt started request)) = [request] \<or>
   attempt < tc_retry_limit conf \<and>
   (\<exists>st. requests_of (fst (round_trip_loop conf w op_code attempt started request)) =
     request # requests_of (fst (round_trip_loop conf w op_code (Suc attempt) st
       (if tc_retry_limit conf \<le> attempt + 1 then [] else request))))"
proof (cases "w_request w attempt (w_default w attempt) request")
  case (Inr response)
  then show ?thesis by (simp add: loop_answer)
next
  case (Inl err)
  show ?thesis
  proof (cases "should_retry (tc_policy conf) op_code (attempt + 1) (w_default w attempt) err = Inr True \<and>
      attempt < tc_retry_limit conf \<and> w_reconnect w attempt (w_default w attempt) = None")
    case True
    then show ?thesis using Inl loop_retry(2) by (metis (no_types))
  next
    case False
    then show ?thesis
      by (subst round_trip_loop.simps)
        (auto simp: Inl Let_def not_le split: sum.splits bool.splits option.splits)
  qed
qed

lemma loop_requests_prefix:
  "\<exists>k. requests_of (fst (round_trip_loop conf w op_code attempt started request)) =
    take (Suc k) (trip_requests (tc_retry_limit conf) attempt request)"
proof (induction "tc_retry_limit conf - attempt" arbitrary: attempt started request)
  case 0
  then show ?case using loop_turn [of conf w op_code attempt started request] by (auto simp: trip_requests_def)
next
  case (Suc m)
  let ?req = "if tc_retry_limit conf \<le> attempt + 1 then [] else request"
  from loop_turn [of conf w op_code attempt started request] show ?case
  proof (elim disjE conjE exE)
    assume "requests_of (fst (round_trip_loop conf w op_code attempt started request)) = [request]"
    then show ?thesis using trip_requests_Cons [of "tc_retry_limit conf" attempt request] by (metis take_Suc_Cons take0)
  next
    fix st
    assume lt: "attempt < tc_retry_limit conf" and go: "requests_of (fst (round_trip_loop conf w op_code attempt started request)) =
        request # requests_of (fst (round_trip_loop conf w op_code (Suc attempt) st ?req))"
    have "m = tc_retry_limit conf - Suc attempt" using Suc.hyps(2) by simp
    from Suc.hyps(1) [OF this] obtain k where
      "requests_of (fst (round_trip_loop conf w op_code (Suc attempt) st ?req)) =
        take (Suc k) (trip_requests (tc_retry_limit conf) (Suc attempt) ?req)"
      by blast
    with go show ?thesis by (intro exI [of _ "Suc k"]) (simp only: trip_requests_step [OF lt] take_Suc_Cons)
  qed
qed

text \<open>The attempts of a round trip: each hands out the buffer that \<open>trip_requests\<close> gives it, fails with a
  connection error the policy retries, and the reconnect succeeds.\<close>

definition attempt_fails :: "trip_conf \<Rightarrow> world \<Rightarrow> i16 \<Rightarrow> nat \<Rightarrow> bytes \<Rightarrow> bool" where
  "attempt_fails conf w op_code attempt req \<longleftrightarrow>
    (case w_request w attempt (w_default w attempt) req of
       Inl err \<Rightarrow> should_retry (tc_policy conf) op_code (attempt + 1) (w_default w attempt) err = Inr True
     | Inr _ \<Rightarrow> False) \<and>
    w_reconnect w attempt (w_default w attempt) = None"

lemma loop_attempts:
  assumes "attempt + n \<le> tc_retry_limit conf"
    and "\<forall>i < n. attempt_fails conf w op_code (attempt + i) (trip_requests (tc_retry_limit conf) attempt request ! i)"
    and "w_request w (attempt + n) (w_default w (attempt + n)) (trip_requests (tc_retry_limit conf) attempt request ! n) = Inr response"
  shows "snd (round_trip_loop conf w op_code attempt started request) = response_result (w_default w (attempt + n)) response \<and>
    requests_of (fst (round_trip_loop conf w op_code attempt started request)) =
      take (Suc n) (trip_requests (tc_retry_limit conf) attempt request)"
  using assms
proof (induction n arbitrary: attempt started request)
  case 0
  then show ?case using trip_requests_Cons [of "tc_retry_limit conf" attempt request]
    by (auto simp: loop_answer)
next
  case (Suc n)
  let ?req = "if tc_retry_limit conf \<le> attempt + 1 then [] else request"
  have lt: "attempt < tc_retry_limit conf" using Suc.prems(1) by simp
  note step = trip_requests_step [OF lt, of request]
  have fails: "attempt_fails conf w op_code attempt request"
    using Suc.prems(2) by (metis Nat.add_0_right nth_Cons_0 step zero_less_Suc)
  then obtain err where err: "w_request w attempt (w_default w attempt) request = Inl err"
    and retry: "should_retry (tc_policy conf) op_code (attempt + 1) (w_default w attempt) err = Inr True"
    and rec: "w_reconnect w attempt (w_default w attempt) = None"
    by (auto simp: attempt_fails_def split: sum.splits)
  note turn = loop_retry [OF err retry lt rec refl, of started]
  have "\<forall>i < n. attempt_fails conf w op_code (Suc attempt + i) (trip_requests (tc_retry_limit conf) (Suc attempt) ?req ! i)"
    using Suc.prems(2) unfolding step by fastforce
  moreover have "w_request w (Suc attempt + n) (w_default w (Suc attempt + n))
      (trip_requests (tc_retry_limit conf) (Suc attempt) ?req ! n) = Inr response"
    using Suc.prems(3) unfolding step by simp
  ultimately show ?case
    using Suc.IH [of "Suc attempt" ?req "started \<or> tc_track_events conf"] Suc.prems(1) turn unfolding step by simp
qed

lemma never_once:
  "tc_policy conf = RpNever \<Longrightarrow> requests_of (fst (round_trip_internal conf w op_code request)) = [request]"
  by (simp add: round_trip_internal_def, subst round_trip_loop.simps)
    (auto simp: Let_def should_retry_def split: sum.splits)

section \<open>A sample network\<close>

text \<open>The first two attempts fail and the third is answered; \<open>sample_once\<close> fails.\<close>

definition sample_answer :: response_frame where
  "sample_answer = \<lparr>correlation_id = 1, frame_flag = Success, frame_body = [0, 0, 7], payload_offset = 2,
     frame_topology_version = None\<rparr>"

definition sample_world :: world where
  "sample_world = \<lparr>w_default = \<lambda>_. rstr ''a:10800'',
     w_request = \<lambda>attempt _ _. if attempt < 2 then Inl (err_connection (rstr ''reset'')) else Inr sample_answer,
     w_reconnect = \<lambda>_ _. None\<rparr>"

definition sample_conf :: "retry_policy \<Rightarrow> trip_conf" where
  "sample_conf policy = \<lparr>tc_retry_limit = 2, tc_policy = policy, tc_track_events = True\<rparr>"

lemma sample_policy: "tc_policy (sample_conf policy) = policy"
  by (simp add: sample_conf_def)

section \<open>Properties\<close>

text \<open>C8: The retry loop ends after at most \<open>retry_limit + 1\<close> attempts, each of which hands exactly one buffer to
  a channel. The buffers are copies of the request, with one exception: the attempt after \<open>retry_limit\<close>
  failed ones (\<open>retry_limit\<close> positive), which the loop still makes, gets the empty buffer left behind by
  taking the request out one attempt too early. A request that is not retried by the policy is sent once.\<close>
theorem retries_bounded:
  "let limit = tc_retry_limit conf; sent = requests_of (fst (round_trip_internal conf w op_code request))
   in 1 \<le> List.length sent \<and> List.length sent \<le> Suc limit \<and>
      (\<exists>k. sent = take (Suc k) (if limit = 0 then [request] else replicate limit request @ [[]])) \<and>
      (tc_policy conf = RpNever \<longrightarrow> sent = [request])"
proof -
  obtain k where "requests_of (fst (round_trip_internal conf w op_code request)) =
      take (Suc k) (trip_requests (tc_retry_limit conf) 0 request)"
    using loop_requests_prefix unfolding round_trip_internal_def by blast
  moreover have "List.length (trip_requests (tc_retry_limit conf) 0 request) = Suc (tc_retry_limit conf)"
    by (simp add: trip_requests_def)
  moreover have "trip_requests (tc_retry_limit conf) 0 request =
      (if tc_retry_limit conf = 0 then [request] else replicate (tc_retry_limit conf) request @ [[]])"
    by (simp add: trip_requests_def)
  ultimately show ?thesis using never_once [of conf w op_code request] by (auto simp: Let_def)
qed

theorem retries_bounded_witness:
  "tc_policy (sample_conf RpNever) = RpNever \<and>
   requests_of (fst (round_trip_internal (sample_conf RpNever) sample_world 1000 [1, 2])) = [[1, 2]]"
  using retries_bounded [of "sample_conf RpNever" sample_world 1000 "[1, 2]"] by (simp add: sample_conf_def Let_def)

text \<open>C7: Liveness of the retry loop: when the first \<open>n\<close> attempts fail with connection errors that the policy
  retries and the reconnects succeed, and attempt \<open>n\<close> (within \<open>retry_limit\<close>) gets a response, the round
  trip returns that response, flag, body, offset and address, after handing out \<open>n + 1\<close> buffers.\<close>
theorem retries_reach_answer:
  assumes "n \<le> tc_retry_limit conf"
    and "\<forall>i < n. attempt_fails conf w op_code i (trip_requests (tc_retry_limit conf) 0 request ! i)"
    and "w_request w n (w_default w n) (trip_requests (tc_retry_limit conf) 0 request ! n) = Inr response"
  shows "snd (round_trip_internal conf w op_code request) =
      Inr (frame_flag response, frame_body response, payload_offset response, w_default w n) \<and>
    requests_of (fst (round_trip_internal conf w op_code request)) = take (Suc n) (trip_requests (tc_retry_limit conf) 0 request)"
  using loop_attempts [of 0 n conf w op_code request response False] assms
  by (simp add: round_trip_internal_def response_result_def)

theorem retries_reach_answer_witness:
  "snd (round_trip_internal (sample_conf RpDefault) sample_world 1000 [1, 2]) =
     Inr (Success, [0, 0, 7], 2, rstr ''a:10800'') \<and>
   requests_of (fst (round_trip_internal (sample_conf RpDefault) sample_world 1000 [1, 2])) = [[1, 2], [1, 2], []]"
  using retries_reach_answer [of 2 "sample_conf RpDefault" sample_world 1000 "[1, 2]" sample_answer]
  by (simp add: sample_conf_def sample_world_def sample_answer_def attempt_fails_def should_retry_def
      is_connection_related_def err_connection_def trip_requests_def numeral_2_eq_2)

text \<open>Routes. A request pinned to an address (a transaction's) goes to that channel once, whatever the retry
  policy, and its failure is returned; without the channel the call fails with the lost-context error
  and sends nothing. A request that prefers a node falls back to the retry loop when there is no channel
  to the node or the request on it fails: then the affinity cache is dropped and the request sent again,
  also under the policy that never retries.\<close>
theorem routes_spec:
  "(case fa address of
      None \<Rightarrow> round_trip_with_route conf w fa fn once op_code request (route_pinned address) = ([], Inl lost_context)
    | Some chan \<Rightarrow>
        requests_of (fst (round_trip_with_route conf w fa fn once op_code request (route_pinned address))) = [request] \<and>
        snd (round_trip_with_route conf w fa fn once op_code request (route_pinned address)) =
          (case once chan request of Inl err \<Rightarrow> Inl err | Inr response \<Rightarrow> response_result chan response)) \<and>
   (let preferred = round_trip_with_route conf w fa fn once op_code request (route_preferred_node nid);
        loop = round_trip_internal conf w op_code request
    in case fn nid of
      None \<Rightarrow> preferred = loop
    | Some chan \<Rightarrow> (case once chan request of
        Inr response \<Rightarrow> requests_of (fst preferred) = [request] \<and> snd preferred = response_result chan response
      | Inl err \<Rightarrow> requests_of (fst preferred) = request # requests_of (fst loop) \<and> snd preferred = snd loop \<and>
          AInvalidateAffinity \<in> set (fst preferred) \<and>
          (tc_policy conf = RpNever \<longrightarrow> requests_of (fst preferred) = [request, request])))"
  using never_once [of conf w op_code request]
  by (auto simp: round_trip_with_route_def route_is_default_def route_pinned_def route_preferred_node_def
      select_channel_for_route_def Let_def split: option.split sum.split prod.split)

theorem routes_spec_witness:
  "requests_of (fst (round_trip_with_route (sample_conf RpNever) sample_world (\<lambda>_. None) Some
     (\<lambda>_ _. Inl (err_connection [])) 1000 [1, 2] (route_preferred_node [7]))) = [[1, 2], [1, 2]]"
  using routes_spec [where fa = "\<lambda>_. None" and fn = Some and once = "\<lambda>_ _. Inl (err_connection [])" and nid = "[7]"
      and conf = "sample_conf RpNever" and w = sample_world and op_code = 1000 and request = "[1, 2]"]
  unfolding Let_def option.case sum.case using sample_policy by blast

end
