(* ===== verification/Requests.thy ===== *)
theory Requests
  imports OpCodes ObjectSize DataTypes CacheConfig
begin

text \<open>
  Requests and responses: the traits \<open>WriteableReq\<close> and
  \<open>WritableType\<close> as an interface between a writer and the size it announces, the key-value requests and
  responses of \<open>api/key_value.rs\<close>, and the request frame of \<open>transport.rs\<close>.
\<close>

section \<open>Writers and the sizes they announce\<close>

definition wseq :: "writer list \<Rightarrow> writer" where
  "wseq ws = foldr wthen ws (wr [])"

definition sseq :: "sizer list \<Rightarrow> sizer" where
  "sseq ss = foldr sadd ss (sret 0)"

text \<open>The contract of \<open>write\<close> and \<open>size\<close>: what is written does not depend on the registry, and when the
  write succeeds the announced size is its length.\<close>

locale announced =
  fixes w :: "'a \<Rightarrow> writer" and sz :: "'a \<Rightarrow> sizer"
  assumes write_steady: "steady (w x)"
    and size_written: "run (w x) = Inr bs \<Longrightarrow> fst (sz x reg) = Some (length bs)"

definition sized :: "writer \<Rightarrow> sizer \<Rightarrow> bool" where
  "sized m s \<longleftrightarrow> steady m \<and> (\<forall>bs reg. run m = Inr bs \<longrightarrow> fst (s reg) = Some (length bs))"

named_theorems sized_intros

lemma sized_announced: "announced w sz \<Longrightarrow> sized (w x) (sz x)"
  by (simp add: announced_def sized_def)

lemma announced_sized: "(\<And>x. sized (w x) (sz x)) \<Longrightarrow> announced w sz"
  by (simp add: announced_def sized_def)

lemma sized_wr [sized_intros]: "length bs = n \<Longrightarrow> sized (wr bs) (sret n)"
  by (simp add: sized_def steady_intros)

lemma sized_wthen [sized_intros]: "sized m a \<Longrightarrow> sized k b \<Longrightarrow> sized (wthen m k) (sadd a b)"
  unfolding sized_def by (auto simp: steady_intros intro!: fst_sadd_run [of m k])

lemma sized_wseq:
  "list_all2 sized ws ss \<Longrightarrow> sized (wseq ws) (sseq ss)"
  unfolding wseq_def sseq_def by (induction ws ss rule: list_all2_induct) (simp_all add: sized_intros)

lemma sized_wseq_map:
  "(\<And>x. x \<in> set xs \<Longrightarrow> sized (w x) (sz x)) \<Longrightarrow> sized (wseq (map w xs)) (sseq (map sz xs))"
  by (rule sized_wseq) (simp add: list.rel_map list_all2_same)

interpretation ignite_values: announced "write_value lc" "value_size lc" for lc
  by unfold_locales (simp_all add: steady_intros value_size_written)

lemma sized_values [sized_intros]: "sized (write_values lc vs) (values_size lc vs)"
  by (simp add: sized_def steady_intros value_size_written)

section \<open>Key-value requests\<close>

definition KEEP_BINARY_FLAG_MASK :: u8 where "KEEP_BINARY_FLAG_MASK = 1"
definition TRANSACTIONAL_FLAG_MASK :: u8 where "TRANSACTIONAL_FLAG_MASK = 2"
definition EXPIRY_POLICY_FLAG_MASK :: u8 where "EXPIRY_POLICY_FLAG_MASK = 4"

record cache_info =
  ci_cache_id :: i32
  ci_flags :: u8
  ci_expiry_policy :: "expiry_policy option"
  ci_tx_id :: "i32 option"

definition cache_info_new :: "i32 \<Rightarrow> cache_info" where
  "cache_info_new cache_id = \<lparr>ci_cache_id = cache_id, ci_flags = 0, ci_expiry_policy = None, ci_tx_id = None\<rparr>"

definition with_keep_binary :: "cache_info \<Rightarrow> bool \<Rightarrow> cache_info" where
  "with_keep_binary self keep_binary =
    (if keep_binary then self\<lparr>ci_flags := ci_flags self OR KEEP_BINARY_FLAG_MASK\<rparr> else self)"

definition with_tx_id :: "cache_info \<Rightarrow> i32 option \<Rightarrow> cache_info" where
  "with_tx_id self tx_id =
    (if tx_id \<noteq> None then self\<lparr>ci_tx_id := tx_id, ci_flags := ci_flags self OR TRANSACTIONAL_FLAG_MASK\<rparr>
     else self\<lparr>ci_tx_id := tx_id\<rparr>)"

definition with_expiry_policy :: "cache_info \<Rightarrow> expiry_policy option \<Rightarrow> cache_info" where
  "with_expiry_policy self p =
    (if p \<noteq> None then self\<lparr>ci_expiry_policy := p, ci_flags := ci_flags self OR EXPIRY_POLICY_FLAG_MASK\<rparr>
     else self\<lparr>ci_expiry_policy := p\<rparr>)"

definition write_cache_info :: "cache_info \<Rightarrow> bytes" where
  "write_cache_info info =
    write_i32 (ci_cache_id info) @ write_u8 (ci_flags info) @
    (case ci_expiry_policy info of None \<Rightarrow> [] | Some p \<Rightarrow>
       write_i64 (to_wire (create p)) @ write_i64 (to_wire (update p)) @ write_i64 (to_wire (access p))) @
    (case ci_tx_id info of None \<Rightarrow> [] | Some tx_id \<Rightarrow> write_i32 tx_id)"

definition cache_info_size :: "cache_info \<Rightarrow> nat" where
  "cache_info_size info = 4 + 1 + (if ci_expiry_policy info \<noteq> None then 8 * 3 else 0) +
    (if ci_tx_id info \<noteq> None then 4 else 0)"

datatype ('k, 'v) cache_req =
    CrGet cache_info 'k
  | CrGetAll cache_info "'k list"
  | CrPut cache_info 'k 'v
  | CrPutAll cache_info "('k \<times> 'v) list"
  | CrContainsKey cache_info 'k
  | CrContainsKeys cache_info "'k list"
  | CrGetAndPut cache_info 'k 'v
  | CrGetAndReplace cache_info 'k 'v
  | CrGetAndRemove cache_info 'k
  | CrPutIfAbsent cache_info 'k 'v
  | CrGetAndPutIfAbsent cache_info 'k 'v
  | CrReplace cache_info 'k 'v
  | CrReplaceIfEquals cache_info 'k 'v 'v
  | CrClear cache_info
  | CrClearKey cache_info 'k
  | CrClearKeys cache_info "'k list"
  | CrRemoveKey cache_info 'k
  | CrRemoveIfEquals cache_info 'k 'v
  | CrGetSize cache_info "cache_peek_mode list"
  | CrRemoveKeys cache_info "'k list"
  | CrRemoveAll cache_info
  | CrQueryScan cache_info i32
  | CrQuerySqlFieldsArgs cache_info "rstring option" i32 rstring "ignite_value list"
  | CrCursorGetPage i64
  | CrCursorClose i64

definition write_opt_str :: "rstring option \<Rightarrow> bytes" where
  "write_opt_str v = (case v of Some s \<Rightarrow> write_string_type_code s | None \<Rightarrow> write_null)"

definition opt_str_size :: "rstring option \<Rightarrow> nat" where
  "opt_str_size v = (case v of Some s \<Rightarrow> 1 + 4 + str_len s | None \<Rightarrow> 1)"

definition write_key_req :: "('k \<Rightarrow> writer) \<Rightarrow> cache_info \<Rightarrow> 'k \<Rightarrow> writer" where
  "write_key_req wk info key = wthen (wr (write_cache_info info)) (wk key)"

definition write_keys_req :: "('k \<Rightarrow> writer) \<Rightarrow> cache_info \<Rightarrow> 'k list \<Rightarrow> writer" where
  "write_keys_req wk info ks =
    wthen (wr (write_cache_info info @ write_i32 (i32_of_usize (length ks)))) (wseq (map wk ks))"

definition write_key_value_req :: "('k \<Rightarrow> writer) \<Rightarrow> ('v \<Rightarrow> writer) \<Rightarrow> cache_info \<Rightarrow> 'k \<Rightarrow> 'v \<Rightarrow> writer" where
  "write_key_value_req wk wv info key val = wthen (wr (write_cache_info info)) (wthen (wk key) (wv val))"

definition write_pair :: "('k \<Rightarrow> writer) \<Rightarrow> ('v \<Rightarrow> writer) \<Rightarrow> 'k \<times> 'v \<Rightarrow> writer" where
  "write_pair wk wv p = wthen (wk (fst p)) (wv (snd p))"

definition pair_size :: "('k \<Rightarrow> sizer) \<Rightarrow> ('v \<Rightarrow> sizer) \<Rightarrow> 'k \<times> 'v \<Rightarrow> sizer" where
  "pair_size sk sv p = sadd (sk (fst p)) (sv (snd p))"

fun cache_req_write ::
    "lowercase \<Rightarrow> ('k \<Rightarrow> writer) \<Rightarrow> ('v \<Rightarrow> writer) \<Rightarrow> ('k, 'v) cache_req \<Rightarrow> writer" where
  "cache_req_write lc wk wv (CrGet info key) = write_key_req wk info key"
| "cache_req_write lc wk wv (CrContainsKey info key) = write_key_req wk info key"
| "cache_req_write lc wk wv (CrGetAndRemove info key) = write_key_req wk info key"
| "cache_req_write lc wk wv (CrClearKey info key) = write_key_req wk info key"
| "cache_req_write lc wk wv (CrRemoveKey info key) = write_key_req wk info key"
| "cache_req_write lc wk wv (CrGetAll info ks) = write_keys_req wk info ks"
| "cache_req_write lc wk wv (CrContainsKeys info ks) = write_keys_req wk info ks"
| "cache_req_write lc wk wv (CrClearKeys info ks) = write_keys_req wk info ks"
| "cache_req_write lc wk wv (CrRemoveKeys info ks) = write_keys_req wk info ks"
| "cache_req_write lc wk wv (CrPut info key val) = write_key_value_req wk wv info key val"
| "cache_req_write lc wk wv (CrGetAndPut info key val) = write_key_value_req wk wv info key val"
| "cache_req_write lc wk wv (CrGetAndReplace info key val) = write_key_value_req wk wv info key val"
| "cache_req_write lc wk wv (CrPutIfAbsent info key val) = write_key_value_req wk wv info key val"
| "cache_req_write lc wk wv (CrGetAndPutIfAbsent info key val) = write_key_value_req wk wv info key val"
| "cache_req_write lc wk wv (CrReplace info key val) = write_key_value_req wk wv info key val"
| "cache_req_write lc wk wv (CrRemoveIfEquals info key val) = write_key_value_req wk wv info key val"
| "cache_req_write lc wk wv (CrPutAll info pairs) =
    wthen (wr (write_cache_info info @ write_i32 (i32_of_usize (length pairs)))) (wseq (map (write_pair wk wv) pairs))"
| "cache_req_write lc wk wv (CrReplaceIfEquals info key old new) =
    wthen (wr (write_cache_info info)) (wthen (wk key) (wthen (wv old) (wv new)))"
| "cache_req_write lc wk wv (CrClear info) = wr (write_cache_info info)"
| "cache_req_write lc wk wv (CrRemoveAll info) = wr (write_cache_info info)"
| "cache_req_write lc wk wv (CrGetSize info modes) =
    wr (write_cache_info info @ write_i32 (i32_of_usize (length modes)) @
        concat (map (\<lambda>mode. write_u8 (cache_peek_mode_u8 mode)) modes))"
| "cache_req_write lc wk wv (CrQueryScan info pg_sz) =
    wr (write_cache_info (with_keep_binary info True) @ write_null @ write_i32 pg_sz @ write_i32 (- 1) @
        write_bool False)"
| "cache_req_write lc wk wv (CrQuerySqlFieldsArgs info schema page_size sql args) =
    wthen (wr (write_cache_info (with_keep_binary info True) @ write_opt_str schema @ write_i32 page_size @
        write_i32 (- 1) @ write_string_type_code sql @ write_i32 (i32_of_usize (length args))))
      (wthen (write_values lc args)
        (wr (write_u8 0 @ write_bool False @ write_bool False @ write_bool False @ write_bool False @
          write_bool False @ write_bool False @ write_i64 0 @ write_bool True)))"
| "cache_req_write lc wk wv (CrCursorGetPage cursor_id) = wr (write_i64 cursor_id)"
| "cache_req_write lc wk wv (CrCursorClose cursor_id) = wr (write_i64 cursor_id)"

definition key_req_size :: "('k \<Rightarrow> sizer) \<Rightarrow> cache_info \<Rightarrow> 'k \<Rightarrow> sizer" where
  "key_req_size sk info key = sadd (sret (cache_info_size info)) (sk key)"

definition keys_req_size :: "('k \<Rightarrow> sizer) \<Rightarrow> cache_info \<Rightarrow> 'k list \<Rightarrow> sizer" where
  "keys_req_size sk info ks = sadd (sret (cache_info_size info + 4)) (sseq (map sk ks))"

definition key_value_req_size :: "('k \<Rightarrow> sizer) \<Rightarrow> ('v \<Rightarrow> sizer) \<Rightarrow> cache_info \<Rightarrow> 'k \<Rightarrow> 'v \<Rightarrow> sizer" where
  "key_value_req_size sk sv info key val = sadd (sret (cache_info_size info)) (sadd (sk key) (sv val))"

fun cache_req_size ::
    "lowercase \<Rightarrow> ('k \<Rightarrow> sizer) \<Rightarrow> ('v \<Rightarrow> sizer) \<Rightarrow> ('k, 'v) cache_req \<Rightarrow> sizer" where
  "cache_req_size lc sk sv (CrGet info key) = key_req_size sk info key"
| "cache_req_size lc sk sv (CrContainsKey info key) = key_req_size sk info key"
| "cache_req_size lc sk sv (CrGetAndRemove info key) = key_req_size sk info key"
| "cache_req_size lc sk sv (CrClearKey info key) = key_req_size sk info key"
| "cache_req_size lc sk sv (CrRemoveKey info key) = key_req_size sk info key"
| "cache_req_size lc sk sv (CrGetAll info ks) = keys_req_size sk info ks"
| "cache_req_size lc sk sv (CrContainsKeys info ks) = keys_req_size sk info ks"
| "cache_req_size lc sk sv (CrClearKeys info ks) = keys_req_size sk info ks"
| "cache_req_size lc sk sv (CrRemoveKeys info ks) = keys_req_size sk info ks"
| "cache_req_size lc sk sv (CrPut info key val) = key_value_req_size sk sv info key val"
| "cache_req_size lc sk sv (CrGetAndPut info key val) = key_value_req_size sk sv info key val"
| "cache_req_size lc sk sv (CrGetAndReplace info key val) = key_value_req_size sk sv info key val"
| "cache_req_size lc sk sv (CrPutIfAbsent info key val) = key_value_req_size sk sv info key val"
| "cache_req_size lc sk sv (CrGetAndPutIfAbsent info key val) = key_value_req_size sk sv info key val"
| "cache_req_size lc sk sv (CrReplace info key val) = key_value_req_size sk sv info key val"
| "cache_req_size lc sk sv (CrRemoveIfEquals info key val) = key_value_req_size sk sv info key val"
| "cache_req_size lc sk sv (CrPutAll info pairs) =
    sadd (sret (cache_info_size info + 4)) (sseq (map (pair_size sk sv) pairs))"
| "cache_req_size lc sk sv (CrReplaceIfEquals info key old new) =
    sadd (sret (cache_info_size info)) (sadd (sk key) (sadd (sv old) (sv new)))"
| "cache_req_size lc sk sv (CrClear info) = sret (cache_info_size info)"
| "cache_req_size lc sk sv (CrRemoveAll info) = sret (cache_info_size info)"
| "cache_req_size lc sk sv (CrGetSize info modes) = sret (cache_info_size info + 4 + length modes)"
| "cache_req_size lc sk sv (CrQueryScan info pg_sz) =
    sret (cache_info_size (with_keep_binary info True) + 1 + 4 + 4 + 1)"
| "cache_req_size lc sk sv (CrQuerySqlFieldsArgs info schema page_size sql args) =
    sadd (sret (cache_info_size (with_keep_binary info True) + opt_str_size schema + 4 + 4 +
        (1 + 4 + str_len sql) + 4))
      (sadd (values_size lc args) (sret (1 + 1 * 6 + 8 + 1)))"
| "cache_req_size lc sk sv (CrCursorGetPage cursor_id) = sret 8"
| "cache_req_size lc sk sv (CrCursorClose cursor_id) = sret 8"

lemma length_write_cache_info [simp]: "length (write_cache_info info) = cache_info_size info"
  by (simp add: write_cache_info_def cache_info_size_def split: option.split)

lemma length_write_opt_str [simp]: "length (write_opt_str v) = opt_str_size v"
  by (simp add: write_opt_str_def opt_str_size_def write_null_def split: option.split)

lemma length_concat_modes [simp]:
  "length (concat (map (\<lambda>mode. write_u8 (cache_peek_mode_u8 mode)) modes)) = length modes"
  by (induction modes) simp_all

lemma cache_req_sized:
  assumes k: "announced wk sk" and v: "announced wv sv"
  shows "sized (cache_req_write lc wk wv req) (cache_req_size lc sk sv req)"
proof -
  note kv = sized_announced [OF k] sized_announced [OF v]
  show ?thesis
    by (cases req)
      (auto simp: write_key_req_def key_req_size_def write_keys_req_def keys_req_size_def
        write_key_value_req_def key_value_req_size_def write_pair_def pair_size_def write_null_def
        intro!: sized_intros sized_wseq_map kv)
qed

section \<open>Responses\<close>

text \<open>\<open>K::read\<close> and \<open>V::read\<close> are arguments.\<close>

definition cache_data_object_read :: "'v option reader \<Rightarrow> 'v option reader" where
  "cache_data_object_read rv = rbind rv ret"

definition read_row :: "'k option reader \<Rightarrow> 'v option reader \<Rightarrow> ('k option \<times> 'v option) reader" where
  "read_row rk rv = rbind rk (\<lambda>key. rbind rv (\<lambda>val. ret (key, val)))"

definition cache_pairs_read :: "'k option reader \<Rightarrow> 'v option reader \<Rightarrow> ('k option \<times> 'v option) list reader" where
  "cache_pairs_read rk rv = rbind read_i32 (\<lambda>count. repeat_read (i32_range count) (read_row rk rv))"

record ('k, 'v) cursor_open_resp =
  open_cursor_id :: i64
  open_rows :: "('k option \<times> 'v option) list"
  open_has_more :: bool

record ('k, 'v) cursor_page_resp =
  page_rows :: "('k option \<times> 'v option) list"
  page_has_more :: bool

definition cursor_page_read :: "'k option reader \<Rightarrow> 'v option reader \<Rightarrow> ('k, 'v) cursor_page_resp reader" where
  "cursor_page_read rk rv = rbind read_i32 (\<lambda>count. rbind (with_capacity count) (\<lambda>_.
     rbind (repeat_read (i32_range count) (read_row rk rv)) (\<lambda>rows. rbind read_bool (\<lambda>has_more.
       ret \<lparr>page_rows = rows, page_has_more = has_more\<rparr>))))"

definition cursor_open_read :: "'k option reader \<Rightarrow> 'v option reader \<Rightarrow> ('k, 'v) cursor_open_resp reader" where
  "cursor_open_read rk rv = rbind read_i64 (\<lambda>cursor_id. rbind read_i32 (\<lambda>count. rbind (with_capacity count) (\<lambda>_.
     rbind (repeat_read (i32_range count) (read_row rk rv)) (\<lambda>rows. rbind read_bool (\<lambda>has_more.
       ret \<lparr>open_cursor_id = cursor_id, open_rows = rows, open_has_more = has_more\<rparr>)))))"

definition cache_size_read :: "i64 reader" where
  "cache_size_read = rbind read_i64 ret"

definition cache_bool_read :: "bool reader" where
  "cache_bool_read = rbind read_bool ret"

text \<open>What a server writes for rows and pages.\<close>

definition server_row :: "('k \<Rightarrow> bytes) \<Rightarrow> ('v \<Rightarrow> bytes) \<Rightarrow> 'k option \<times> 'v option \<Rightarrow> bytes" where
  "server_row wk wv row = opt_item_write wk (fst row) @ opt_item_write wv (snd row)"

definition server_rows :: "('k \<Rightarrow> bytes) \<Rightarrow> ('v \<Rightarrow> bytes) \<Rightarrow> ('k option \<times> 'v option) list \<Rightarrow> bytes" where
  "server_rows wk wv rows = write_i32 (i32_of_usize (length rows)) @ concat (map (server_row wk wv) rows)"

definition good_rows :: "('k \<Rightarrow> bool) \<Rightarrow> ('v \<Rightarrow> bool) \<Rightarrow> ('k option \<times> 'v option) list \<Rightarrow> bool" where
  "good_rows okk okv rows \<longleftrightarrow>
    length rows < 2 ^ 31 \<and> list_all (\<lambda>row. pred_option okk (fst row) \<and> pred_option okv (snd row)) rows"

locale wire_pair = k: wire_type wk sk rk okk ck + v: wire_type wv sv rv okv cv
  for wk sk rk okk ck and wv sv rv okv cv
begin

lemma good_rows_length: "good_rows okk okv rows \<Longrightarrow> length rows < 2147483648"
  by (simp add: good_rows_def)

lemma row_read_write:
  "pred_option okk (fst row) \<Longrightarrow> pred_option okv (snd row) \<Longrightarrow>
    read_row (readable_read rk) (readable_read rv) (server_row wk wv row @ s) = Ok row s"
  by (simp add: reader_simps read_row_def server_row_def k.item_read_write v.item_read_write)

lemma rows_read_write:
  assumes "good_rows okk okv rows"
  shows "repeat_read (length rows) (read_row (readable_read rk) (readable_read rv))
    (concat (map (server_row wk wv) rows) @ s) = Ok rows s"
  using repeat_read_concat [of rows "read_row (readable_read rk) (readable_read rv)" "server_row wk wv" "\<lambda>r. r" s]
    assms by (auto simp: good_rows_def list_all_iff row_read_write)

lemma pairs_read_back:
  "good_rows okk okv rows \<Longrightarrow>
    cache_pairs_read (readable_read rk) (readable_read rv) (server_rows wk wv rows @ s) = Ok rows s"
  by (simp add: reader_simps cache_pairs_read_def server_rows_def i32.dec_enc len_casts rows_read_write good_rows_length)

lemma page_read_back:
  "good_rows okk okv rows \<Longrightarrow>
    cursor_page_read (readable_read rk) (readable_read rv) (server_rows wk wv rows @ write_bool m @ s) =
      Ok \<lparr>page_rows = rows, page_has_more = m\<rparr> s"
  by (simp add: reader_simps cursor_page_read_def server_rows_def i32.dec_enc len_casts good_rows_length
      rows_read_write read_bool_write)

lemma open_read_back:
  "good_rows okk okv rows \<Longrightarrow>
    cursor_open_read (readable_read rk) (readable_read rv) (write_i64 cid @ server_rows wk wv rows @ write_bool m @ s) =
      Ok \<lparr>open_cursor_id = cid, open_rows = rows, open_has_more = m\<rparr> s"
  by (simp add: reader_simps cursor_open_read_def server_rows_def i32.dec_enc i64.dec_enc len_casts
      good_rows_length rows_read_write read_bool_write)

end

interpretation int_string: wire_pair "write_type TcInt write_i32" "size_type 4" "read_type read_i32" "\<lambda>_. True" TcInt
    string_write string_size "read_type read_string" ok_string TcString ..

end
