(* ===== verification/Exec.thy ===== *)
theory Exec
  imports Requests RoundTrip
begin

text \<open>
  Executing a request: the request frame of \<open>transport.rs\<close>, the calls \<open>send\<close>, \<open>send_with_route\<close>,
  \<open>send_and_read\<close>, \<open>send_and_read_with_route\<close> and \<open>send_and_read_with_meta\<close> of \<open>ChannelManager\<close>, which
  \<open>TokioExec\<close> (\<open>exec.rs\<close>) passes on. What a round trip returns is an argument, a function of the calls
  made before and of the call; the state keeps the calls made and the correlation counter.
\<close>

section \<open>Request frames\<close>

definition REQ_HEADER_SIZE_BYTES :: nat where "REQ_HEADER_SIZE_BYTES = 10"

text \<open>\<open>encode_request_into\<close>: four bytes are reserved for the length, which is patched in at the end.\<close>

definition encode_request_into :: "i16 \<Rightarrow> i64 \<Rightarrow> writer \<Rightarrow> writer" where
  "encode_request_into op_code corr_id payload =
    wbind (wthen (wr (write_i32 0 @ write_i16 op_code @ write_i64 corr_id)) payload) (\<lambda>buf.
      wret (write_i32 (i32_of_usize (length buf - 4)) @ drop 4 buf))"

text \<open>\<open>encode_request_pooled\<close>: \<open>None\<close> is a panic of \<open>size\<close>, which is called first.\<close>

definition encode_request_pooled ::
    "i16 \<Rightarrow> i64 \<Rightarrow> writer \<Rightarrow> sizer \<Rightarrow> registry \<Rightarrow> (io_error + bytes) option \<times> registry" where
  "encode_request_pooled op_code corr_id payload psize reg = (case psize reg of
      (None, reg') \<Rightarrow> (None, reg')
    | (Some n, reg') \<Rightarrow>
        (case encode_request_into op_code corr_id payload reg' of (r, reg'') \<Rightarrow> (Some r, reg'')))"

definition request_frame :: "i16 \<Rightarrow> i64 \<Rightarrow> bytes \<Rightarrow> bytes" where
  "request_frame op_code corr_id payload =
    write_i32 (i32_of_usize (REQ_HEADER_SIZE_BYTES + length payload)) @ write_i16 op_code @ write_i64 corr_id @ payload"

lemma run_encode_request_into:
  "run (encode_request_into op_code corr_id payload) =
    (case run payload of Inl e \<Rightarrow> Inl e | Inr bs \<Rightarrow> Inr (request_frame op_code corr_id bs))"
  by (auto simp: run_def encode_request_into_def wbind_def wthen_def wr_def wret_def request_frame_def
      REQ_HEADER_SIZE_BYTES_def algebra_simps split: sum.split prod.split)

section \<open>Results and calls\<close>

text \<open>A call returns a value or an error, panics, or (a decoder out of fuel) is unfinished.\<close>

datatype 'a result = Done 'a | Failed conn_error | Panicked | Unfinished

type_synonym call = "op_code \<times> bytes \<times> request_route"

record session =
  calls :: "call list"
  next_correlation_id :: i64

type_synonym transport = "call list \<Rightarrow> call \<Rightarrow> round_trip_result"
type_synonym ('s, 'a) act = "'s \<Rightarrow> 'a result \<times> 's"

definition aret :: "'a \<Rightarrow> ('s, 'a) act" where
  "aret x s = (Done x, s)"

definition afail :: "conn_error \<Rightarrow> ('s, 'a) act" where
  "afail e s = (Failed e, s)"

definition abind :: "('s, 'a) act \<Rightarrow> ('a \<Rightarrow> ('s, 'b) act) \<Rightarrow> ('s, 'b) act" where
  "abind m f s = (case m s of
      (Done x, s') \<Rightarrow> f x s'
    | (Failed e, s') \<Rightarrow> (Failed e, s')
    | (Panicked, s') \<Rightarrow> (Panicked, s')
    | (Unfinished, s') \<Rightarrow> (Unfinished, s'))"

definition client_error :: "string \<Rightarrow> conn_error" where
  "client_error msg = CError (err_new (rstr msg))"

text \<open>\<open>is_connection_related\<close> of an error: an error with a message of its own is looked at by its text.\<close>

definition mentions_connection :: "rstring \<Rightarrow> bool" where
  "mentions_connection text = list_ex (str_contains (to_ascii_lowercase text)) connection_needles"

fun message_mentions :: "conn_error \<Rightarrow> bool" where
  "message_mentions (CError e) = mentions_connection (err_desc e)"
| "message_mentions (CDecode (Ignite msg)) = mentions_connection (rstr msg)"
| "message_mentions (CDecode (IoE (IoOther msg))) = mentions_connection (rstr msg)"
| "message_mentions (CDecode (IoE (IoUnsupported msg))) = mentions_connection (rstr msg)"
| "message_mentions (CDecode (IoE (IoInvalidInput msg))) = mentions_connection msg"
| "message_mentions (CDecode (ExpectedGot msg c)) = mentions_connection (rstr msg)"
| "message_mentions (CDecode (IgniteFmt msg xs)) = mentions_connection (rstr msg)"
| "message_mentions (CDecode _) = False"
| "message_mentions (CCause prefix e) = (mentions_connection (rstr prefix) \<or> message_mentions e)"

fun connection_related :: "conn_error \<Rightarrow> bool" where
  "connection_related (CError e) = is_connection_related e"
| "connection_related e = message_mentions e"

text \<open>\<open>Cursor::new(\<dots>)\<close> and \<open>T::read\<close>: what the decoder makes of the payload.\<close>

definition decoded :: "'a outcome \<Rightarrow> 'a result" where
  "decoded r = (case r of Ok x _ \<Rightarrow> Done x | Err e _ \<Rightarrow> Failed (CDecode e) | Panic \<Rightarrow> Panicked | NoFuel \<Rightarrow> Unfinished)"

text \<open>The part the calls share: the correlation id is taken, the request encoded, the round trip made.\<close>

definition perform ::
    "transport \<Rightarrow> op_code \<Rightarrow> writer \<Rightarrow> sizer \<Rightarrow> request_route \<Rightarrow> ('z session_scheme, flag \<times> bytes \<times> nat \<times> rstring) act" where
  "perform net op payload psize route s =
    (let corr_id = next_correlation_id s; s' = s\<lparr>next_correlation_id := corr_id + 1\<rparr>
     in case fst (encode_request_pooled (op_code_i16 op) corr_id payload psize registry_default) of
          None \<Rightarrow> (Panicked, s')
        | Some (Inl e) \<Rightarrow> (Failed (CDecode (IoE e)), s')
        | Some (Inr request) \<Rightarrow>
            (case net (calls s) (op, request, route) of
               Inl e \<Rightarrow> (Failed (CError e), s'\<lparr>calls := calls s @ [(op, request, route)]\<rparr>)
             | Inr r \<Rightarrow> (Done r, s'\<lparr>calls := calls s @ [(op, request, route)]\<rparr>)))"

definition send_with_route ::
    "transport \<Rightarrow> op_code \<Rightarrow> writer \<Rightarrow> sizer \<Rightarrow> request_route \<Rightarrow> ('z session_scheme, unit) act" where
  "send_with_route net op payload psize route = abind (perform net op payload psize route) (\<lambda>r.
     case r of
       (Success, _, _, _) \<Rightarrow> aret ()
     | (Failure status err_msg, _, _, _) \<Rightarrow> afail (CError (from_server_status status err_msg)))"

definition send :: "transport \<Rightarrow> op_code \<Rightarrow> writer \<Rightarrow> sizer \<Rightarrow> ('z session_scheme, unit) act" where
  "send net op payload psize = send_with_route net op payload psize route_default"

definition send_and_read_with_meta ::
    "transport \<Rightarrow> 'a reader \<Rightarrow> op_code \<Rightarrow> writer \<Rightarrow> sizer \<Rightarrow> request_route \<Rightarrow> ('z session_scheme, 'a \<times> rstring) act" where
  "send_and_read_with_meta net rd op payload psize route = abind (perform net op payload psize route) (\<lambda>r.
     case r of
       (Success, body, offset, address) \<Rightarrow>
         abind (\<lambda>s. (decoded (rd (drop offset body)), s)) (\<lambda>x. aret (x, address))
     | (Failure status err_msg, _, _, _) \<Rightarrow> afail (CError (from_server_status status err_msg)))"

definition send_and_read_with_route ::
    "transport \<Rightarrow> 'a reader \<Rightarrow> op_code \<Rightarrow> writer \<Rightarrow> sizer \<Rightarrow> request_route \<Rightarrow> ('z session_scheme, 'a) act" where
  "send_and_read_with_route net rd op payload psize route = abind (perform net op payload psize route) (\<lambda>r.
     case r of
       (Success, body, offset, _) \<Rightarrow> (\<lambda>s. (decoded (rd (drop offset body)), s))
     | (Failure status err_msg, _, _, _) \<Rightarrow> afail (CError (from_server_status status err_msg)))"

definition send_and_read :: "transport \<Rightarrow> 'a reader \<Rightarrow> op_code \<Rightarrow> writer \<Rightarrow> sizer \<Rightarrow> ('z session_scheme, 'a) act" where
  "send_and_read net rd op payload psize = send_and_read_with_route net rd op payload psize route_default"

section \<open>Facts\<close>

lemma abind_simps [simp]:
  "m s = (Done x, s') \<Longrightarrow> abind m f s = f x s'"
  "m s = (Failed e, s') \<Longrightarrow> abind m f s = (Failed e, s')"
  "m s = (Panicked, s') \<Longrightarrow> abind m f s = (Panicked, s')"
  "m s = (Unfinished, s') \<Longrightarrow> abind m f s = (Unfinished, s')"
  by (simp_all add: abind_def)

lemma aret_apply [simp]: "aret x s = (Done x, s)"
  by (simp add: aret_def)

lemma afail_apply [simp]: "afail e s = (Failed e, s)"
  by (simp add: afail_def)

text \<open>A writer and its size that keep their contract: the request is encoded, to the frame of its payload.\<close>

lemma encode_sized:
  assumes sized: "sized payload psize" and run: "run payload = Inr bs"
  shows "fst (encode_request_pooled op corr payload psize registry_default) = Some (Inr (request_frame op corr bs))"
proof -
  have steady: "steady payload" and n: "fst (psize registry_default) = Some (length bs)"
    using sized run by (auto simp: sized_def)
  obtain reg' where sz: "psize registry_default = (Some (length bs), reg')" using n by (metis fst_conv prod.exhaust)
  have "fst (payload reg') = Inr bs" using steady_fst [OF steady] run by simp
  then obtain reg'' where w: "payload reg' = (Inr bs, reg'')" by (metis fst_conv prod.exhaust)
  show ?thesis
    by (simp add: encode_request_pooled_def sz encode_request_into_def wthen_def wbind_def wr_def wret_def w
        request_frame_def REQ_HEADER_SIZE_BYTES_def algebra_simps)
qed

lemma encode_fails:
  assumes "steady payload" and "run payload = Inl e" and "fst (psize registry_default) \<noteq> None"
  shows "fst (encode_request_pooled op corr payload psize registry_default) = Some (Inl e)"
proof -
  obtain n reg' where sz: "psize registry_default = (Some n, reg')" using assms(3) by (metis fst_conv not_None_eq prod.exhaust)
  have "fst (payload reg') = Inl e" using steady_fst [OF assms(1)] assms(2) by simp
  then obtain reg'' where w: "payload reg' = (Inl e, reg'')" by (metis fst_conv prod.exhaust)
  show ?thesis by (simp add: encode_request_pooled_def sz encode_request_into_def wthen_def wbind_def wr_def wret_def w)
qed

text \<open>What a call may add to the log: at most one request, on the route it was given.\<close>

lemma perform_log:
  "calls (snd (perform net op payload psize route s)) = calls s \<or>
   (\<exists>request. calls (snd (perform net op payload psize route s)) = calls s @ [(op, request, route)])"
  by (auto simp: perform_def Let_def split: option.split sum.split)

lemma perform_sized:
  assumes "sized payload psize" and "run payload = Inr bs"
  shows "perform net op payload psize route s =
    (let call = (op, request_frame (op_code_i16 op) (next_correlation_id s) bs, route)
     in (case net (calls s) call of Inl e \<Rightarrow> Failed (CError e) | Inr r \<Rightarrow> Done r,
         s\<lparr>next_correlation_id := next_correlation_id s + 1, calls := calls s @ [call]\<rparr>))"
  by (simp add: perform_def encode_sized [OF assms] Let_def split: sum.split)

lemma run_prefixed: "run (wthen (wr a) m) = Inr bs \<Longrightarrow> \<exists>rest. bs = a @ rest"
  by (auto simp: run_def wthen_def wbind_def wr_def wret_def split: sum.splits prod.splits)

text \<open>What a call adds to the session: nothing, or the request with its flags.\<close>

lemma perform_log_sized:
  assumes "sized payload psize" and "\<And>bs. run payload = Inr bs \<Longrightarrow> \<exists>rest. bs = a @ rest"
  shows "\<exists>log. calls (snd (perform net op payload psize route s)) = calls s @ log \<and>
    (log = [] \<or> (\<exists>corr rest. log = [(op, request_frame (op_code_i16 op) corr (a @ rest), route)]))"
proof (cases "run payload")
  case (Inl e)
  have "perform net op payload psize route s = (Panicked, s\<lparr>next_correlation_id := next_correlation_id s + 1\<rparr>) \<or>
    perform net op payload psize route s = (Failed (CDecode (IoE e)), s\<lparr>next_correlation_id := next_correlation_id s + 1\<rparr>)"
  proof (cases "fst (psize registry_default)")
    case None
    then show ?thesis by (auto simp: perform_def encode_request_pooled_def Let_def split: prod.split)
  next
    case (Some n)
    then show ?thesis using encode_fails [of payload e psize] Inl assms(1) by (simp add: perform_def sized_def Let_def)
  qed
  then show ?thesis by auto
next
  case (Inr bs)
  then show ?thesis using perform_sized [OF assms(1) Inr, of net op route s] assms(2) [OF Inr] by (auto simp: Let_def)
qed

text \<open>A call changes the log and the counter only.\<close>

lemma perform_frame: "\<exists>n cs. snd (perform net op payload psize route s) = s\<lparr>next_correlation_id := n, calls := cs\<rparr>"
  by (cases s) (auto simp: perform_def Let_def split: option.split sum.split)

lemma abind_state: "(\<And>x t. snd (f x t) = t) \<Longrightarrow> snd (abind m f s) = snd (m s)"
  by (auto simp: abind_def split: prod.split result.split)

lemma send_with_route_state: "snd (send_with_route net op payload psize route s) = snd (perform net op payload psize route s)"
  unfolding send_with_route_def by (rule abind_state) (simp split: prod.split flag.split)

lemma send_and_read_state:
  "snd (send_and_read_with_route net rd op payload psize route s) = snd (perform net op payload psize route s)"
  unfolding send_and_read_with_route_def by (rule abind_state) (simp split: prod.split flag.split)

lemma send_and_read_meta_state:
  "snd (send_and_read_with_meta net rd op payload psize route s) = snd (perform net op payload psize route s)"
  unfolding send_and_read_with_meta_def
  by (rule abind_state) (simp add: abind_def split: prod.split flag.split result.split)

section \<open>Properties\<close>

text \<open>Key-value requests on the wire. Whatever the request and the types of its keys and values, as long as
  these announce the sizes they write: when the payload is written, the size announced beforehand is its
  length, the pooled encoder does not panic or fail, and the frame is the length of what follows, the
  operation code, the correlation id and the payload. A server that reads the length finds exactly the
  rest of the frame.\<close>
theorem cache_request_framed:
  assumes "announced wk sk" and "announced wv sv"
    and "run (cache_req_write lc wk wv req) = Inr bs" and "length bs < 2 ^ 31 - 10"
  shows "fst (cache_req_size lc sk sv req reg) = Some (length bs) \<and>
    (\<exists>frame rest. fst (encode_request_pooled op corr (cache_req_write lc wk wv req) (cache_req_size lc sk sv req) registry_default) =
        Some (Inr frame) \<and>
      read_i32 frame = Ok (i32_of_usize (length rest)) rest \<and> usize_of_i32 (i32_of_usize (length rest)) = length rest \<and>
      rest = write_i16 op @ write_i64 corr @ bs \<and> length frame = length bs + 14)"
proof -
  note sized = cache_req_sized [OF assms(1,2), of lc req]
  have "fst (cache_req_size lc sk sv req reg) = Some (length bs)" using sized assms(3) by (auto simp: sized_def)
  moreover have "read_i32 (request_frame op corr bs) =
      Ok (i32_of_usize (length (write_i16 op @ write_i64 corr @ bs))) (write_i16 op @ write_i64 corr @ bs)"
    by (simp add: request_frame_def REQ_HEADER_SIZE_BYTES_def i32.dec_enc)
  ultimately show ?thesis
    using assms(4) by (auto simp: encode_sized [OF sized assms(3)] usize_of_i32_of_usize request_frame_def)
qed

theorem cache_request_framed_witness:
  "fst (cache_req_size (\<lambda>s. s) (\<lambda>k. sret (size_type 4 k)) (\<lambda>v. sret (string_size v))
     (CrPut (cache_info_new 7) (5 :: i32) [97]) registry_default) = Some 16"
  using cache_request_framed [of "\<lambda>k. wr (write_type TcInt write_i32 k)" "\<lambda>k. sret (size_type 4 k)"
      "\<lambda>v. wr (string_write v)" "\<lambda>v. sret (string_size v)" "\<lambda>s. s" "CrPut (cache_info_new 7) 5 [97]"
      "write_cache_info (cache_info_new 7) @ write_type TcInt write_i32 5 @ string_write [97]" registry_default]
  by (simp add: announced_sized sized_wr w_i32.size_write w_string.size_write write_key_value_req_def run_def
      wthen_def wbind_def wr_def wret_def cache_info_size_def cache_info_new_def size_type_def string_size_def str_len_def
      utf8_char_def)

end
