(* ===== verification/Transactions.thy ===== *)
theory Transactions
  imports Exec
begin

text \<open>
  Transactions, \<open>ignite-rs/src/tx.rs\<close>: options and requests, the state of a transaction, its end, and its
  lifetime. A transaction is shared by its owner and by the cache handles made from it; the state lock
  makes \<open>end\<close>, \<open>mark_lost\<close> and the spawned rollback atomic, except that the future of \<open>end\<close> may be
  dropped while it waits for the answer.
\<close>

section \<open>Options and requests\<close>

datatype transaction_concurrency = Optimistic | Pessimistic
datatype transaction_isolation = ReadCommitted | RepeatableRead | Serializable

fun transaction_concurrency_u8 :: "transaction_concurrency \<Rightarrow> u8" where
  "transaction_concurrency_u8 Optimistic = 0"
| "transaction_concurrency_u8 Pessimistic = 1"

fun transaction_isolation_u8 :: "transaction_isolation \<Rightarrow> u8" where
  "transaction_isolation_u8 ReadCommitted = 0"
| "transaction_isolation_u8 RepeatableRead = 1"
| "transaction_isolation_u8 Serializable = 2"

record transaction_options =
  concurrency :: transaction_concurrency
  isolation :: transaction_isolation
  tx_timeout :: duration
  tx_label :: "rstring option"

definition transaction_options_default :: transaction_options where
  "transaction_options_default =
    \<lparr>concurrency = Pessimistic, isolation = RepeatableRead, tx_timeout = 0, tx_label = None\<rparr>"

definition with_concurrency :: "transaction_options \<Rightarrow> transaction_concurrency \<Rightarrow> transaction_options" where
  "with_concurrency self c = self\<lparr>concurrency := c\<rparr>"

definition with_isolation :: "transaction_options \<Rightarrow> transaction_isolation \<Rightarrow> transaction_options" where
  "with_isolation self i = self\<lparr>isolation := i\<rparr>"

definition with_timeout :: "transaction_options \<Rightarrow> duration \<Rightarrow> transaction_options" where
  "with_timeout self t = self\<lparr>tx_timeout := t\<rparr>"

definition with_label :: "transaction_options \<Rightarrow> rstring \<Rightarrow> transaction_options" where
  "with_label self l = self\<lparr>tx_label := Some l\<rparr>"

definition tx_start_write :: "transaction_options \<Rightarrow> bytes" where
  "tx_start_write options =
    [transaction_concurrency_u8 (concurrency options)] @ [transaction_isolation_u8 (isolation options)] @
    write_i64 (word_of_nat (as_millis (tx_timeout options))) @
    (case tx_label options of Some label \<Rightarrow> write_string_type_code label | None \<Rightarrow> write_null)"

definition tx_start_size :: "transaction_options \<Rightarrow> nat" where
  "tx_start_size options = 1 + 1 + 8 + (case tx_label options of Some label \<Rightarrow> 1 + 4 + str_len label | None \<Rightarrow> 1)"

definition tx_start_read :: "i32 reader" where
  "tx_start_read = rbind read_i32 ret"

definition tx_end_write :: "i32 \<Rightarrow> bool \<Rightarrow> bytes" where
  "tx_end_write tx_id committed = write_i32 tx_id @ write_bool committed"

definition tx_end_size :: nat where
  "tx_end_size = 4 + 1"

section \<open>State\<close>

datatype transaction_state = TxActive | TxCommitted | TxRolledBack | TxLost

record transaction_inner =
  inner_tx_id :: i32
  inner_pinned_address :: rstring
  inner_options :: transaction_options

text \<open>The session with the state of the transaction, the number of cache handles that hold it, and whether
  its owner still exists.\<close>

record tx_session = session +
  tx_state :: transaction_state
  tx_handles :: nat
  tx_owner :: bool

definition tx_start ::
    "transport \<Rightarrow> bool \<Rightarrow> transaction_options \<Rightarrow> (session, transaction_inner) act" where
  "tx_start net supports_transactions options =
    (if \<not> supports_transactions
     then afail (client_error ''Transactions are not supported by the server's protocol version, required version 1.5.0'')
     else abind (send_and_read_with_meta net tx_start_read OpTxStart (wr (tx_start_write options))
         (sret (tx_start_size options)) route_default)
       (\<lambda>(tx_id, address). aret \<lparr>inner_tx_id = tx_id, inner_pinned_address = address, inner_options = options\<rparr>))"

definition tx_begin :: "session \<Rightarrow> tx_session" where
  "tx_begin s = \<lparr>calls = calls s, next_correlation_id = next_correlation_id s, tx_state = TxActive, tx_handles = 0, tx_owner = True\<rparr>"

definition LOST_PREFIX :: string where
  "LOST_PREFIX = ''Transaction context has been lost due to connection errors: ''"

fun map_failed :: "(conn_error \<Rightarrow> conn_error) \<Rightarrow> 'a result \<Rightarrow> 'a result" where
  "map_failed f (Failed e) = Failed (f e)"
| "map_failed f r = r"

definition send_tx_end :: "transport \<Rightarrow> transaction_inner \<Rightarrow> bool \<Rightarrow> ('z session_scheme, unit) act" where
  "send_tx_end net inner committed =
    send_with_route net OpTxEnd (wr (tx_end_write (inner_tx_id inner) committed)) (sret tx_end_size)
      (route_pinned (inner_pinned_address inner))"

definition end_tx :: "transport \<Rightarrow> transaction_inner \<Rightarrow> bool \<Rightarrow> (tx_session, unit) act" where
  "end_tx net inner committed s = (case tx_state s of
      TxCommitted \<Rightarrow> (Failed (client_error ''The transaction is already closed''), s)
    | TxRolledBack \<Rightarrow> (Failed (client_error ''The transaction is already closed''), s)
    | TxLost \<Rightarrow> (Failed (client_error ''Transaction context has been lost due to connection errors''), s)
    | TxActive \<Rightarrow>
        (case send_tx_end net inner committed s of
           (r, s') \<Rightarrow> (map_failed (CCause LOST_PREFIX) r,
             s'\<lparr>tx_state := (if committed then TxCommitted else TxRolledBack)\<rparr>)))"

definition commit :: "transport \<Rightarrow> transaction_inner \<Rightarrow> (tx_session, unit) act" where
  "commit net inner = end_tx net inner True"

definition rollback :: "transport \<Rightarrow> transaction_inner \<Rightarrow> (tx_session, unit) act" where
  "rollback net inner = end_tx net inner False"

definition ensure_cache_ops_allowed :: "(tx_session, unit) act" where
  "ensure_cache_ops_allowed s = (case tx_state s of
      TxActive \<Rightarrow> (Done (), s)
    | TxCommitted \<Rightarrow> (Failed (client_error ''The transaction is already closed''), s)
    | TxRolledBack \<Rightarrow> (Failed (client_error ''The transaction is already closed''), s)
    | TxLost \<Rightarrow> (Failed (client_error ''Transaction context has been lost due to connection errors. Cache operations are prohibited until current transaction closed.''), s))"

definition ensure_clear_allowed :: "string \<Rightarrow> (tx_session, unit) act" where
  "ensure_clear_allowed op_name = abind ensure_cache_ops_allowed (\<lambda>_.
     afail (client_error (''non-transactional ClientCache '' @ op_name @ '' operation within a transaction.'')))"

definition mark_lost :: "tx_session \<Rightarrow> tx_session" where
  "mark_lost s = s\<lparr>tx_state := TxLost\<rparr>"

definition route_tx :: "transaction_inner \<Rightarrow> (tx_session, request_route) act" where
  "route_tx inner = abind ensure_cache_ops_allowed (\<lambda>_. aret (route_pinned (inner_pinned_address inner)))"

text \<open>\<open>Drop for Transaction\<close> inside a runtime: nothing when another handle holds the transaction; otherwise the
  spawned task rolls an active transaction back.\<close>

definition drop_transaction :: "transport \<Rightarrow> transaction_inner \<Rightarrow> tx_session \<Rightarrow> tx_session" where
  "drop_transaction net inner s =
    (if tx_handles s \<noteq> 0 then s\<lparr>tx_owner := False\<rparr>
     else if tx_state s \<noteq> TxActive then s\<lparr>tx_owner := False\<rparr>
     else snd (send_tx_end net inner False (s\<lparr>tx_owner := False, tx_state := TxRolledBack\<rparr>)))"

section \<open>Lifetime of a transaction\<close>

text \<open>\<open>cancel\<close> says whether the future of a commit or rollback may be dropped while it waits for the answer:
  the request has been made, and the state is still active.\<close>

inductive tx_step :: "bool \<Rightarrow> transport \<Rightarrow> transaction_inner \<Rightarrow> tx_session \<Rightarrow> tx_session \<Rightarrow> bool"
  for cancel net inner where
  end_step: "tx_owner s \<Longrightarrow> tx_step cancel net inner s (snd (end_tx net inner committed s))"
| end_cancelled: "cancel \<Longrightarrow> tx_owner s \<Longrightarrow> tx_state s = TxActive \<Longrightarrow>
    tx_step cancel net inner s (snd (send_tx_end net inner committed s))"
| open_cache: "tx_owner s \<or> 0 < tx_handles s \<Longrightarrow> tx_step cancel net inner s (s\<lparr>tx_handles := tx_handles s + 1\<rparr>)"
| drop_cache: "0 < tx_handles s \<Longrightarrow> tx_step cancel net inner s (s\<lparr>tx_handles := tx_handles s - 1\<rparr>)"
| lost: "0 < tx_handles s \<Longrightarrow> tx_step cancel net inner s (mark_lost s)"
| dropped: "tx_owner s \<Longrightarrow> tx_step cancel net inner s (drop_transaction net inner s)"

inductive tx_reach :: "bool \<Rightarrow> transport \<Rightarrow> transaction_inner \<Rightarrow> tx_session \<Rightarrow> tx_session \<Rightarrow> bool"
  for cancel net inner s0 where
  tx_refl: "tx_reach cancel net inner s0 s0"
| tx_next: "tx_reach cancel net inner s0 s \<Longrightarrow> tx_step cancel net inner s s' \<Longrightarrow> tx_reach cancel net inner s0 s'"

inductive_simps tx_step_iff: "tx_step cancel net inner s s'"

section \<open>Facts\<close>

lemma length_tx_start_write: "length (tx_start_write options) = tx_start_size options"
  by (simp add: tx_start_write_def tx_start_size_def write_null_def split: option.split)

lemma sized_tx_start: "sized (wr (tx_start_write options)) (sret (tx_start_size options))"
  by (rule sized_wr) (rule length_tx_start_write)

lemma sized_tx_end: "sized (wr (tx_end_write tx_id committed)) (sret tx_end_size)"
  by (rule sized_wr) (simp add: tx_end_write_def tx_end_size_def)

lemma run_wr [simp]: "run (wr bs) = Inr bs"
  by (simp add: run_def wr_def)

definition tx_end_call :: "transaction_inner \<Rightarrow> i64 \<Rightarrow> bool \<Rightarrow> call" where
  "tx_end_call inner corr committed =
    (OpTxEnd, request_frame (op_code_i16 OpTxEnd) corr (tx_end_write (inner_tx_id inner) committed),
     route_pinned (inner_pinned_address inner))"

lemma send_tx_end_state:
  "snd (send_tx_end net inner committed s) =
    s\<lparr>next_correlation_id := next_correlation_id s + 1,
      calls := calls s @ [tx_end_call inner (next_correlation_id s) committed]\<rparr>"
  by (auto simp: send_tx_end_def send_with_route_def abind_def tx_end_call_def Let_def
      perform_sized [OF sized_tx_end run_wr] split: sum.split flag.split)

text \<open>The end requests among the calls of a session since it began.\<close>

definition tx_ends :: "call list \<Rightarrow> call list" where
  "tx_ends cs = filter (\<lambda>(op, _, _). op = OpTxEnd) cs"

lemma tx_ends_append [simp]: "tx_ends (a @ b) = tx_ends a @ tx_ends b"
  by (simp add: tx_ends_def)

lemma tx_ends_call [simp]: "tx_ends [tx_end_call inner corr committed] = [tx_end_call inner corr committed]"
  by (simp add: tx_ends_def tx_end_call_def)

text \<open>The invariant of an uncancelled transaction: an active one has sent no end request, and at most one is
  ever sent, to the address the transaction began on.\<close>

definition tx_inv :: "transaction_inner \<Rightarrow> call list \<Rightarrow> tx_session \<Rightarrow> bool" where
  "tx_inv inner before s \<longleftrightarrow>
    (tx_state s = TxActive \<longrightarrow> calls s = before) \<and>
    (calls s = before \<or> (\<exists>corr committed. calls s = before @ [tx_end_call inner corr committed] \<and>
       (tx_state s = TxCommitted \<longrightarrow> committed) \<and> (tx_state s = TxRolledBack \<longrightarrow> \<not> committed)))"

lemma end_tx_state:
  "snd (end_tx net inner committed s) =
    (if tx_state s = TxActive
     then s\<lparr>next_correlation_id := next_correlation_id s + 1,
       calls := calls s @ [tx_end_call inner (next_correlation_id s) committed],
       tx_state := if committed then TxCommitted else TxRolledBack\<rparr>
     else s)"
proof -
  obtain r t where "send_tx_end net inner committed s = (r, t)" by fastforce
  with send_tx_end_state [of net inner committed s] show ?thesis
    by (simp add: end_tx_def split: transaction_state.split)
qed

lemma drop_transaction_state:
  "drop_transaction net inner s =
    (if tx_handles s = 0 \<and> tx_state s = TxActive
     then s\<lparr>next_correlation_id := next_correlation_id s + 1,
       calls := calls s @ [tx_end_call inner (next_correlation_id s) False],
       tx_owner := False, tx_state := TxRolledBack\<rparr>
     else s\<lparr>tx_owner := False\<rparr>)"
  by (simp add: drop_transaction_def send_tx_end_state)

lemmas tx_effects = end_tx_state drop_transaction_state send_tx_end_state mark_lost_def

lemma tx_inv_step:
  assumes "tx_step False net inner s s'" and "tx_inv inner before s"
  shows "tx_inv inner before s'"
  using assms by cases (fastforce simp: tx_inv_def tx_effects split: if_splits)+

lemma tx_inv_reach:
  assumes "tx_reach False net inner (tx_begin s0) s"
  shows "tx_inv inner (calls s0) s"
  using assms
proof induction
  case tx_refl
  then show ?case by (simp add: tx_inv_def tx_begin_def)
qed (blast intro: tx_inv_step)

text \<open>A lost transaction stays lost, and is never ended; one that outlives its owner never rolls back.\<close>

lemma lost_stays:
  assumes "tx_reach cancel net inner s t" and "tx_state s = TxLost"
  shows "tx_state t = TxLost \<and> calls t = calls s"
  using assms by induction (auto simp: tx_step_iff tx_effects)

lemma orphan_stays:
  assumes "tx_reach cancel net inner s t" and "\<not> tx_owner s"
  shows "\<not> tx_owner t \<and> calls t = calls s"
  using assms by induction (auto simp: tx_step_iff tx_effects)

lemma tx_reach_trans:
  "tx_reach cancel net inner s t \<Longrightarrow> tx_reach cancel net inner t u \<Longrightarrow> tx_reach cancel net inner s u"
  by (rotate_tac, induction rule: tx_reach.induct) (auto intro: tx_next)

section \<open>Properties\<close>

definition sample_inner :: transaction_inner where
  "sample_inner = \<lparr>inner_tx_id = 3, inner_pinned_address = [104], inner_options = transaction_options_default\<rparr>"

definition sample_session :: session where
  "sample_session = \<lparr>calls = [], next_correlation_id = 1\<rparr>"



text \<open>What ends a transaction and what does not. The transaction of a dropped handle is rolled back when no
  cache handle is left, and otherwise never: the last cache handle does not end it either. A lost
  transaction can not be closed, though the error of its operations asks for that. And a commit whose
  future is dropped while it waits leaves the transaction active, so that a second end request follows.\<close>
theorem tx_not_ended:
  "(\<exists>s. tx_reach False net inner (tx_begin s0) s \<and> tx_state s = TxActive \<and> \<not> tx_owner s \<and>
      (\<forall>cancel t. tx_reach cancel net inner s t \<longrightarrow> calls t = calls s0)) \<and>
   (\<exists>s. tx_reach False net inner (tx_begin s0) s \<and> tx_owner s \<and> tx_state s = TxLost \<and>
      (\<forall>cancel t. tx_reach cancel net inner s t \<longrightarrow> tx_state t = TxLost \<and> calls t = calls s0)) \<and>
   (\<exists>s a b. tx_reach True net inner (tx_begin s0) s \<and>
      calls s = calls s0 @ [tx_end_call inner a True, tx_end_call inner b False])"
proof -
  let ?s1 = "(tx_begin s0)\<lparr>tx_handles := 1\<rparr>"
  have r1: "tx_reach False net inner (tx_begin s0) ?s1"
    using tx_next [OF tx_refl open_cache, of "tx_begin s0" False net inner] by (simp add: tx_begin_def)
  have "tx_reach False net inner (tx_begin s0) (drop_transaction net inner ?s1)"
    by (rule tx_next [OF r1 dropped]) (simp add: tx_begin_def)
  then have leak: "tx_reach False net inner (tx_begin s0) (?s1\<lparr>tx_owner := False\<rparr>)"
    by (simp add: drop_transaction_state)
  have lost: "tx_reach False net inner (tx_begin s0) (mark_lost ?s1)"
    by (rule tx_next [OF r1 tx_step.lost]) simp
  have "tx_reach True net inner (tx_begin s0) (snd (send_tx_end net inner True (tx_begin s0)))" (is "tx_reach _ _ _ _ ?s2")
    by (rule tx_next [OF tx_refl end_cancelled]) (simp_all add: tx_begin_def)
  moreover have "tx_step True net inner ?s2 (drop_transaction net inner ?s2)"
    by (rule dropped) (simp add: send_tx_end_state tx_begin_def)
  ultimately have twice: "tx_reach True net inner (tx_begin s0) (drop_transaction net inner ?s2)"
    by (rule tx_next)
  have "calls t = calls s0" if "tx_reach cancel net inner (?s1\<lparr>tx_owner := False\<rparr>) t" for cancel t
    using orphan_stays [OF that] by (simp add: tx_begin_def)
  with leak have "\<exists>s. tx_reach False net inner (tx_begin s0) s \<and> tx_state s = TxActive \<and> \<not> tx_owner s \<and>
      (\<forall>cancel t. tx_reach cancel net inner s t \<longrightarrow> calls t = calls s0)"
    by (intro exI [of _ "?s1\<lparr>tx_owner := False\<rparr>"]) (simp add: tx_begin_def)
  moreover have "tx_state t = TxLost \<and> calls t = calls s0" if "tx_reach cancel net inner (mark_lost ?s1) t" for cancel t
    using lost_stays [OF that] by (simp add: tx_begin_def mark_lost_def)
  with lost have "\<exists>s. tx_reach False net inner (tx_begin s0) s \<and> tx_owner s \<and> tx_state s = TxLost \<and>
      (\<forall>cancel t. tx_reach cancel net inner s t \<longrightarrow> tx_state t = TxLost \<and> calls t = calls s0)"
    by (intro exI [of _ "mark_lost ?s1"]) (simp add: tx_begin_def mark_lost_def)
  moreover have "calls (drop_transaction net inner ?s2) = calls s0 @
      [tx_end_call inner (next_correlation_id s0) True, tx_end_call inner (next_correlation_id s0 + 1) False]"
    by (simp add: tx_effects tx_begin_def)
  ultimately show ?thesis using twice by blast
qed

theorem tx_not_ended_witness:
  "\<exists>s. tx_reach False (\<lambda>_ _. Inl lost_context) sample_inner (tx_begin sample_session) s \<and> tx_state s = TxActive \<and>
     \<not> tx_owner s \<and> (\<forall>cancel t. tx_reach cancel (\<lambda>_ _. Inl lost_context) sample_inner s t \<longrightarrow> calls t = [])"
  using tx_not_ended [of "\<lambda>_ _. Inl lost_context" sample_inner sample_session] by (auto simp: sample_session_def)

end
