(* ===== verification/Streamer.thy ===== *)
theory Streamer
  imports Exec
begin

text \<open>
  The data streamer, \<open>ignite-rs/src/streamer.rs\<close>: its flags and requests, and the life of its server
  resource, from the batch that opens it to the request that closes it.
\<close>

section \<open>Configuration and requests\<close>

definition FLAG_ALLOW_OVERWRITE :: u8 where "FLAG_ALLOW_OVERWRITE = 1"
definition FLAG_SKIP_STORE :: u8 where "FLAG_SKIP_STORE = 2"
definition FLAG_KEEP_BINARY :: u8 where "FLAG_KEEP_BINARY = 4"
definition FLAG_FLUSH :: u8 where "FLAG_FLUSH = 8"
definition FLAG_CLOSE :: u8 where "FLAG_CLOSE = 16"

lemmas streamer_flag_defs = FLAG_ALLOW_OVERWRITE_def FLAG_SKIP_STORE_def FLAG_KEEP_BINARY_def FLAG_FLUSH_def FLAG_CLOSE_def

record data_streamer_config =
  allow_overwrite :: bool
  skip_store :: bool
  per_node_buffer_size :: i32
  per_thread_buffer_size :: i32

definition data_streamer_config_default :: data_streamer_config where
  "data_streamer_config_default =
    \<lparr>allow_overwrite = True, skip_store = False, per_node_buffer_size = - 1, per_thread_buffer_size = - 1\<rparr>"

definition with_allow_overwrite :: "data_streamer_config \<Rightarrow> bool \<Rightarrow> data_streamer_config" where
  "with_allow_overwrite self allow = self\<lparr>allow_overwrite := allow\<rparr>"

definition with_skip_store :: "data_streamer_config \<Rightarrow> bool \<Rightarrow> data_streamer_config" where
  "with_skip_store self skip = self\<lparr>skip_store := skip\<rparr>"

definition with_per_node_buffer_size :: "data_streamer_config \<Rightarrow> i32 \<Rightarrow> data_streamer_config" where
  "with_per_node_buffer_size self n = self\<lparr>per_node_buffer_size := n\<rparr>"

definition with_per_thread_buffer_size :: "data_streamer_config \<Rightarrow> i32 \<Rightarrow> data_streamer_config" where
  "with_per_thread_buffer_size self n = self\<lparr>per_thread_buffer_size := n\<rparr>"

definition streamer_flags :: "data_streamer_config \<Rightarrow> bool \<Rightarrow> bool \<Rightarrow> u8" where
  "streamer_flags self flush close =
    (let flags = FLAG_KEEP_BINARY;
         flags = (if allow_overwrite self then flags OR FLAG_ALLOW_OVERWRITE else flags);
         flags = (if skip_store self then flags OR FLAG_SKIP_STORE else flags);
         flags = (if flush then flags OR FLAG_FLUSH else flags)
     in if close then flags OR FLAG_CLOSE else flags)"

text \<open>Writers of keys and values, and their sizes, as \<open>K\<close> and \<open>V\<close> give them.\<close>

record ('k, 'v) entry_types =
  et_wk :: "'k \<Rightarrow> writer"
  et_sk :: "'k \<Rightarrow> sizer"
  et_wv :: "'v \<Rightarrow> writer"
  et_sv :: "'v \<Rightarrow> sizer"

definition batch_write :: "('k, 'v) entry_types \<Rightarrow> ('k \<times> 'v) list \<Rightarrow> writer" where
  "batch_write ty entries = wseq (map (write_pair (et_wk ty) (et_wv ty)) entries)"

definition batch_size :: "('k, 'v) entry_types \<Rightarrow> ('k \<times> 'v) list \<Rightarrow> sizer" where
  "batch_size ty entries = sseq (map (pair_size (et_sk ty) (et_sv ty)) entries)"

definition streamer_start_write ::
    "('k, 'v) entry_types \<Rightarrow> i32 \<Rightarrow> u8 \<Rightarrow> data_streamer_config \<Rightarrow> ('k \<times> 'v) list \<Rightarrow> writer" where
  "streamer_start_write ty cache_id flags config entries =
    wthen (wr (write_i32 cache_id @ write_u8 flags @ write_i32 (per_node_buffer_size config) @
        write_i32 (per_thread_buffer_size config) @ write_null @ write_i32 (i32_of_usize (length entries))))
      (batch_write ty entries)"

definition streamer_start_size :: "('k, 'v) entry_types \<Rightarrow> ('k \<times> 'v) list \<Rightarrow> sizer" where
  "streamer_start_size ty entries = sadd (sret (4 + 1 + 4 + 4 + 1 + 4)) (batch_size ty entries)"

definition streamer_add_data_write :: "('k, 'v) entry_types \<Rightarrow> i64 \<Rightarrow> u8 \<Rightarrow> ('k \<times> 'v) list \<Rightarrow> writer" where
  "streamer_add_data_write ty resource_id flags entries =
    wthen (wr (write_i64 resource_id @ write_u8 flags @ write_i32 (i32_of_usize (length entries)))) (batch_write ty entries)"

definition streamer_add_data_size :: "('k, 'v) entry_types \<Rightarrow> ('k \<times> 'v) list \<Rightarrow> sizer" where
  "streamer_add_data_size ty entries = sadd (sret (8 + 1 + 4)) (batch_size ty entries)"

definition streamer_start_read :: "i64 reader" where
  "streamer_start_read = rbind read_i64 ret"

section \<open>The streamer\<close>

record streamer = session +
  resource_id :: "i64 option"
  closed :: bool

definition streamer_new :: "session \<Rightarrow> streamer" where
  "streamer_new s = \<lparr>calls = calls s, next_correlation_id = next_correlation_id s, resource_id = None, closed = False\<rparr>"

definition closed_streamer :: conn_error where
  "closed_streamer = client_error ''Data streamer is already closed''"

definition send_add_data ::
    "transport \<Rightarrow> ('k, 'v) entry_types \<Rightarrow> i64 \<Rightarrow> u8 \<Rightarrow> ('k \<times> 'v) list \<Rightarrow> (streamer, unit) act" where
  "send_add_data net ty rid flags entries =
    send net OpDataStreamerAddData (streamer_add_data_write ty rid flags entries) (streamer_add_data_size ty entries)"

definition add_data ::
    "transport \<Rightarrow> ('k, 'v) entry_types \<Rightarrow> i32 \<Rightarrow> data_streamer_config \<Rightarrow> ('k \<times> 'v) list \<Rightarrow> (streamer, unit) act" where
  "add_data net ty cache_id config entries s =
    (if closed s then (Failed closed_streamer, s)
     else case resource_id s of
       None \<Rightarrow> abind (send_and_read net streamer_start_read OpDataStreamerStart
             (streamer_start_write ty cache_id (streamer_flags config False False) config entries)
             (streamer_start_size ty entries))
           (\<lambda>rid s'. (Done (), s'\<lparr>resource_id := Some rid\<rparr>)) s
     | Some rid \<Rightarrow> send_add_data net ty rid
         (streamer_flags config False False AND NOT (FLAG_ALLOW_OVERWRITE OR FLAG_SKIP_STORE OR FLAG_KEEP_BINARY)) entries s)"

definition flush :: "transport \<Rightarrow> ('k, 'v) entry_types \<Rightarrow> (streamer, unit) act" where
  "flush net ty s =
    (if closed s then (Failed closed_streamer, s)
     else case resource_id s of
       None \<Rightarrow> (Done (), s)
     | Some rid \<Rightarrow> send_add_data net ty rid FLAG_FLUSH [] s)"

definition close :: "transport \<Rightarrow> ('k, 'v) entry_types \<Rightarrow> (streamer, unit) act" where
  "close net ty s =
    (if closed s then (Done (), s)
     else let s' = s\<lparr>closed := True, resource_id := None\<rparr>
          in case resource_id s of
               None \<Rightarrow> (Done (), s')
             | Some rid \<Rightarrow> send_add_data net ty rid FLAG_CLOSE [] s')"

definition add_data_and_close ::
    "transport \<Rightarrow> ('k, 'v) entry_types \<Rightarrow> i32 \<Rightarrow> data_streamer_config \<Rightarrow> ('k \<times> 'v) list \<Rightarrow> (streamer, unit) act" where
  "add_data_and_close net ty cache_id config entries s =
    (if closed s then (Failed closed_streamer, s)
     else let s' = s\<lparr>closed := True, resource_id := None\<rparr>
          in case resource_id s of
               None \<Rightarrow> abind (send_and_read net streamer_start_read OpDataStreamerStart
                   (streamer_start_write ty cache_id (streamer_flags config False True) config entries)
                   (streamer_start_size ty entries)) (\<lambda>_. aret ()) s'
             | Some rid \<Rightarrow> send_add_data net ty rid FLAG_CLOSE entries s')"

text \<open>\<open>Drop\<close> inside a runtime: the close request is sent by a task of its own.\<close>

definition drop_streamer :: "transport \<Rightarrow> ('k, 'v) entry_types \<Rightarrow> streamer \<Rightarrow> streamer" where
  "drop_streamer net ty s =
    (if closed s then s
     else case resource_id s of
       None \<Rightarrow> s
     | Some rid \<Rightarrow> snd (send_add_data net ty rid FLAG_CLOSE [] (s\<lparr>resource_id := None\<rparr>)))"

section \<open>Requests of a streamer\<close>

text \<open>The flags in the frame of a request, and whether it closes the resource.\<close>

definition closing :: "call \<Rightarrow> bool" where
  "closing c = (case c of (op, frame, _) \<Rightarrow>
    (op = OpDataStreamerStart \<and> bit (frame ! 18) 4) \<or> (op = OpDataStreamerAddData \<and> bit (frame ! 22) 4))"

definition start_call :: "i64 \<Rightarrow> i32 \<Rightarrow> u8 \<Rightarrow> bytes \<Rightarrow> call" where
  "start_call corr cache_id flags rest =
    (OpDataStreamerStart, request_frame (op_code_i16 OpDataStreamerStart) corr (write_i32 cache_id @ write_u8 flags @ rest), route_default)"

definition add_call :: "i64 \<Rightarrow> i64 \<Rightarrow> u8 \<Rightarrow> bytes \<Rightarrow> call" where
  "add_call corr rid flags rest =
    (OpDataStreamerAddData, request_frame (op_code_i16 OpDataStreamerAddData) corr (write_i64 rid @ write_u8 flags @ rest), route_default)"

lemma write_u8_single [simp]: "write_u8 b = [b]"
  by (simp add: write_u8_def)

lemma closing_start_call [simp]: "closing (start_call corr cache_id flags rest) = bit flags 4"
  by (simp add: closing_def start_call_def request_frame_def nth_append del: op_code_i16.simps)

lemma closing_add_call [simp]: "closing (add_call corr rid flags rest) = bit flags 4"
  by (simp add: closing_def add_call_def request_frame_def nth_append del: op_code_i16.simps)

lemma flag_bits [simp]:
  "\<not> bit (streamer_flags config False False) 4" "bit (streamer_flags config False True) 4"
  "\<not> bit (streamer_flags config False False AND NOT FLAG_ALLOW_OVERWRITE AND NOT FLAG_SKIP_STORE AND NOT FLAG_KEEP_BINARY) 4"
  "\<not> bit FLAG_FLUSH 4" "bit FLAG_CLOSE 4"
  by (simp_all add: streamer_flags_def streamer_flag_defs bit_simps Let_def)

text \<open>Types whose values announce what they write.\<close>

definition announcing :: "('k, 'v) entry_types \<Rightarrow> bool" where
  "announcing ty \<longleftrightarrow> announced (et_wk ty) (et_sk ty) \<and> announced (et_wv ty) (et_sv ty)"

lemma sized_batch: "announcing ty \<Longrightarrow> sized (batch_write ty entries) (batch_size ty entries)"
  unfolding announcing_def batch_write_def batch_size_def write_pair_def pair_size_def
  by (auto intro!: sized_wseq_map sized_intros dest: sized_announced)

lemma sized_streamer_requests:
  assumes "announcing ty"
  shows "sized (streamer_start_write ty cache_id flags config entries) (streamer_start_size ty entries)"
    and "sized (streamer_add_data_write ty rid flags entries) (streamer_add_data_size ty entries)"
  unfolding streamer_start_write_def streamer_start_size_def streamer_add_data_write_def streamer_add_data_size_def
  by (auto intro!: sized_intros sized_batch [OF assms] simp: write_null_def)

lemma streamer_payload_prefix:
  "run (streamer_start_write ty cache_id flags config entries) = Inr bs \<Longrightarrow> \<exists>rest. bs = (write_i32 cache_id @ write_u8 flags) @ rest"
  "run (streamer_add_data_write ty rid flags entries) = Inr bs \<Longrightarrow> \<exists>rest. bs = (write_i64 rid @ write_u8 flags) @ rest"
  unfolding streamer_start_write_def streamer_add_data_write_def by (drule run_prefixed, force)+

lemma send_add_data_log:
  assumes "announcing ty"
  shows "\<exists>log. calls (snd (send_add_data net ty rid flags entries s)) = calls s @ log \<and>
    (log = [] \<or> (\<exists>corr rest. log = [add_call corr rid flags rest]))"
  unfolding send_add_data_def send_def send_with_route_state add_call_def append_assoc [symmetric]
  by (rule perform_log_sized [OF sized_streamer_requests(2) [OF assms] streamer_payload_prefix(2)])

lemma start_log:
  assumes "announcing ty"
  shows "\<exists>log. calls (snd (perform net OpDataStreamerStart (streamer_start_write ty cache_id flags config entries)
      (streamer_start_size ty entries) route_default s)) = calls s @ log \<and>
    (log = [] \<or> (\<exists>corr rest. log = [start_call corr cache_id flags rest]))"
  unfolding start_call_def append_assoc [symmetric]
  by (rule perform_log_sized [OF sized_streamer_requests(1) [OF assms] streamer_payload_prefix(1)])

section \<open>Life of a streamer\<close>

text \<open>A streamer is used until it is consumed by \<open>add_data_and_close\<close> or dropped; the flag says that it is
  still there.\<close>

inductive streamer_life ::
    "transport \<Rightarrow> ('k, 'v) entry_types \<Rightarrow> i32 \<Rightarrow> data_streamer_config \<Rightarrow> session \<Rightarrow> bool \<Rightarrow> streamer \<Rightarrow> bool"
  for net ty cache_id config s0 where
  life_new: "streamer_life net ty cache_id config s0 True (streamer_new s0)"
| life_add: "streamer_life net ty cache_id config s0 True s \<Longrightarrow>
    streamer_life net ty cache_id config s0 True (snd (add_data net ty cache_id config entries s))"
| life_flush: "streamer_life net ty cache_id config s0 True s \<Longrightarrow>
    streamer_life net ty cache_id config s0 True (snd (flush net ty s))"
| life_close: "streamer_life net ty cache_id config s0 True s \<Longrightarrow>
    streamer_life net ty cache_id config s0 True (snd (close net ty s))"
| life_end: "streamer_life net ty cache_id config s0 True s \<Longrightarrow>
    streamer_life net ty cache_id config s0 False (snd (add_data_and_close net ty cache_id config entries s))"
| life_drop: "streamer_life net ty cache_id config s0 True s \<Longrightarrow>
    streamer_life net ty cache_id config s0 False (drop_streamer net ty s)"

text \<open>The requests: failed attempts to open and the one that opened the resource, then requests on the
  resource \<open>rid\<close>.\<close>

definition is_start_call :: "call \<Rightarrow> bool" where
  "is_start_call c \<longleftrightarrow> (\<exists>corr cache_id flags rest. c = start_call corr cache_id flags rest)"

definition is_add_call :: "i64 \<Rightarrow> call \<Rightarrow> bool" where
  "is_add_call rid c \<longleftrightarrow> (\<exists>corr flags rest. c = add_call corr rid flags rest)"

definition streamer_requests :: "call list \<Rightarrow> i64 \<Rightarrow> call list \<Rightarrow> call list \<Rightarrow> streamer \<Rightarrow> bool" where
  "streamer_requests before rid starts uses s \<longleftrightarrow>
    calls s = before @ starts @ uses \<and>
    list_all is_start_call starts \<and> list_all (is_add_call rid) uses \<and> (uses = [] \<or> starts \<noteq> [])"

definition streamer_inv :: "call list \<Rightarrow> bool \<Rightarrow> streamer \<Rightarrow> bool" where
  "streamer_inv before live s \<longleftrightarrow> (\<exists>rid starts uses. streamer_requests before rid starts uses s \<and>
    (resource_id s = None \<and> live \<and> \<not> closed s \<longrightarrow> uses = []) \<and>
    (resource_id s \<noteq> None \<longrightarrow> resource_id s = Some rid \<and> starts \<noteq> [] \<and> \<not> closed s) \<and>
    (live \<and> \<not> closed s \<longrightarrow> (\<forall>c \<in> set (starts @ uses). \<not> closing c)) \<and>
    (\<forall>c \<in> set (butlast (starts @ uses)). \<not> closing c))"

lemma is_calls [simp]: "is_start_call (start_call corr cache_id flags rest)" "is_add_call rid (add_call corr rid flags rest)"
  unfolding is_start_call_def is_add_call_def by blast+

lemma streamer_invI:
  assumes "streamer_requests before rid starts uses s"
    and "resource_id s = None \<Longrightarrow> live \<Longrightarrow> \<not> closed s \<Longrightarrow> uses = []"
    and "resource_id s \<noteq> None \<Longrightarrow> resource_id s = Some rid \<and> starts \<noteq> [] \<and> \<not> closed s"
    and "live \<Longrightarrow> \<not> closed s \<Longrightarrow> \<forall>c \<in> set (starts @ uses). \<not> closing c"
    and "\<forall>c \<in> set (butlast (starts @ uses)). \<not> closing c"
  shows "streamer_inv before live s"
  unfolding streamer_inv_def
  by (intro exI [of _ rid] exI [of _ starts] exI [of _ uses]) (use assms in auto)

text \<open>Using the open resource once more.\<close>

lemma inv_use:
  assumes ann: "announcing ty" and inv: "streamer_inv before True s" and rid: "resource_id s = Some rid"
    and s': "\<exists>log. calls s' = calls s @ log \<and> (log = [] \<or> (\<exists>corr rest. log = [add_call corr rid flags rest]))"
    and st: "bit flags 4 \<Longrightarrow> \<not> (live \<and> \<not> closed s')"
    and res: "resource_id s' = Some rid \<and> \<not> closed s' \<or> resource_id s' = None \<and> (\<not> live \<or> closed s')"
  shows "streamer_inv before live s'"
proof -
  from inv rid obtain starts uses where req: "streamer_requests before rid starts uses s"
    and open_s: "starts \<noteq> []" "\<not> closed s" and quiet: "\<forall>c \<in> set (starts @ uses). \<not> closing c"
    unfolding streamer_inv_def by auto
  from s' obtain log where log: "calls s' = calls s @ log" "log = [] \<or> (\<exists>corr rest. log = [add_call corr rid flags rest])"
    by blast
  have "streamer_requests before rid starts (uses @ log) s'"
    using req log open_s by (auto simp: streamer_requests_def)
  moreover have "\<forall>c \<in> set (butlast (starts @ uses @ log)). \<not> closing c"
    using quiet log(2) by (auto simp: butlast_append dest: in_set_butlastD split: if_splits)
  ultimately show ?thesis
    using quiet log(2) open_s(1) st res by (intro streamer_invI [of before rid starts "uses @ log"]) auto
qed

text \<open>Opening the resource, or failing to.\<close>

lemma inv_start:
  assumes inv: "streamer_inv before True s" and none: "resource_id s = None" and alive: "\<not> closed s"
    and s': "\<exists>log. calls s' = calls s @ log \<and> (log = [] \<or> (\<exists>corr rest. log = [start_call corr cache_id flags rest]))"
    and st: "bit flags 4 \<Longrightarrow> \<not> (live \<and> \<not> closed s')"
    and res: "resource_id s' = None \<or> resource_id s' = Some rid \<and> \<not> closed s' \<and> calls s' \<noteq> calls s"
  shows "streamer_inv before live s'"
proof -
  from inv none alive obtain rid' starts where req: "streamer_requests before rid' starts [] s"
    and quiet: "\<forall>c \<in> set starts. \<not> closing c"
    unfolding streamer_inv_def by fastforce
  from s' obtain log where log: "calls s' = calls s @ log" "log = [] \<or> (\<exists>corr rest. log = [start_call corr cache_id flags rest])"
    by blast
  have "streamer_requests before rid (starts @ log) [] s'"
    using req log by (auto simp: streamer_requests_def)
  moreover have "\<forall>c \<in> set (butlast (starts @ log)). \<not> closing c"
    using quiet log(2) by (auto simp: butlast_append dest: in_set_butlastD split: if_splits)
  ultimately show ?thesis
    using quiet log st res by (intro streamer_invI [of before rid "starts @ log" "[]"]) auto
qed

text \<open>The fields of the streamer after a request.\<close>

lemma send_add_data_keeps [simp]:
  "resource_id (snd (send_add_data net ty rid flags entries s)) = resource_id s"
  "closed (snd (send_add_data net ty rid flags entries s)) = closed s"
  using perform_frame [of net OpDataStreamerAddData "streamer_add_data_write ty rid flags entries" "streamer_add_data_size ty entries"
      route_default s]
  by (auto simp: send_add_data_def send_def send_with_route_state)

lemma send_start_keeps:
  fixes s :: streamer
  assumes "snd (send_and_read net rd op payload psize s) = s'"
  shows "resource_id s' = resource_id s" "closed s' = closed s"
  using perform_frame [of net op payload psize route_default s] assms
  by (auto simp: send_and_read_def send_and_read_state)

lemma start_log_read:
  assumes "announcing ty"
    and "snd (send_and_read net streamer_start_read OpDataStreamerStart (streamer_start_write ty cache_id flags config entries)
      (streamer_start_size ty entries) s) = s'"
  shows "\<exists>log. calls s' = calls s @ log \<and> (log = [] \<or> (\<exists>corr rest. log = [start_call corr cache_id flags rest]))"
  using start_log [OF assms(1), of net cache_id flags config entries s] assms(2)
  by (auto simp: send_and_read_def send_and_read_state)

text \<open>A request that got an answer has been made.\<close>

lemma done_calls:
  "send_and_read net rd op payload psize s = (Done x, s') \<Longrightarrow> calls s' \<noteq> calls s"
  by (auto simp: send_and_read_def send_and_read_with_route_def abind_def perform_def Let_def
      split: option.splits sum.splits prod.splits flag.splits result.splits)

lemma inv_add_data:
  assumes "announcing ty" and "streamer_inv before True s"
  shows "streamer_inv before True (snd (add_data net ty cache_id config entries s))"
proof (cases "closed s")
  case True
  then show ?thesis using assms by (simp add: add_data_def)
next
  case open_s: False
  show ?thesis
  proof (cases "resource_id s")
    case (Some rid)
    show ?thesis
      using open_s Some by (simp add: add_data_def)
        (rule inv_use [OF assms Some send_add_data_log [OF assms(1)]]; simp)
  next
    case None
    obtain r s' where start: "send_and_read net streamer_start_read OpDataStreamerStart
        (streamer_start_write ty cache_id (streamer_flags config False False) config entries) (streamer_start_size ty entries) s = (r, s')"
      by fastforce
    note keeps = send_start_keeps [OF arg_cong [OF start, of snd, unfolded snd_conv]]
    note log = start_log_read [OF assms(1) arg_cong [OF start, of snd, unfolded snd_conv]]
    have failed: "streamer_inv before True s'"
      by (rule inv_start [OF assms(2) None open_s log]) (use keeps None in simp_all)
    show ?thesis
    proof (cases r)
      case (Done rid)
      have "streamer_inv before True (s'\<lparr>resource_id := Some rid\<rparr>)"
        by (rule inv_start [OF assms(2) None open_s, where cache_id = cache_id and flags = "streamer_flags config False False" and rid = rid])
          (use log keeps open_s done_calls [OF start [unfolded Done]] in simp_all)
      then show ?thesis using open_s None start Done by (simp add: add_data_def abind_def)
    qed (use open_s None start failed in \<open>simp_all add: add_data_def abind_def\<close>)
  qed
qed

lemma inv_flush:
  assumes "announcing ty" and "streamer_inv before True s"
  shows "streamer_inv before True (snd (flush net ty s))"
proof (cases "closed s \<or> resource_id s = None")
  case True
  then show ?thesis using assms by (auto simp: flush_def)
next
  case False
  then obtain rid where "resource_id s = Some rid" by auto
  with False show ?thesis
    by (simp add: flush_def) (rule inv_use [OF assms _ send_add_data_log [OF assms(1)]]; simp)
qed

text \<open>The request that closes: on the open resource, or none when there is no resource.\<close>

lemma inv_close_use:
  assumes "announcing ty" and "streamer_inv before True s" and "resource_id s = Some rid"
    and "s' = s\<lparr>closed := c, resource_id := None\<rparr>" and "\<not> live \<or> c"
  shows "streamer_inv before live (snd (send_add_data net ty rid FLAG_CLOSE entries s'))"
  using send_add_data_log [OF assms(1), of net rid FLAG_CLOSE entries s'] assms(3-5)
  by (intro inv_use [OF assms(1-3)]) auto

lemma inv_no_resource:
  assumes "streamer_inv before True s" and "resource_id s = None"
  shows "streamer_inv before live (s\<lparr>closed := True, resource_id := None\<rparr>)" and "streamer_inv before False s"
  using assms unfolding streamer_inv_def streamer_requests_def by auto

lemma inv_close:
  assumes "announcing ty" and "streamer_inv before True s"
  shows "streamer_inv before True (snd (close net ty s))"
  using assms inv_no_resource(1) [OF assms(2)] inv_close_use [OF assms]
  by (auto simp: close_def Let_def split: option.split)

lemma inv_closed: "streamer_inv before True s \<Longrightarrow> closed s \<Longrightarrow> streamer_inv before False s"
  unfolding streamer_inv_def by blast

lemma inv_drop:
  assumes "announcing ty" and "streamer_inv before True s"
  shows "streamer_inv before False (drop_streamer net ty s)"
  using assms inv_no_resource(2) [OF assms(2)] inv_closed [OF assms(2)]
    inv_close_use [OF assms, of _ "s\<lparr>resource_id := None\<rparr>" "closed s"]
  by (auto simp: drop_streamer_def split: option.split)

lemma inv_add_data_and_close:
  assumes "announcing ty" and "streamer_inv before True s"
  shows "streamer_inv before False (snd (add_data_and_close net ty cache_id config entries s))"
proof (cases "closed s \<or> resource_id s \<noteq> None")
  case True
  then show ?thesis using assms inv_closed [OF assms(2)] inv_close_use [OF assms]
    by (auto simp: add_data_and_close_def Let_def)
next
  case False
  let ?s = "s\<lparr>closed := True, resource_id := None\<rparr>"
  obtain r s' where start: "send_and_read net streamer_start_read OpDataStreamerStart
      (streamer_start_write ty cache_id (streamer_flags config False True) config entries) (streamer_start_size ty entries) ?s = (r, s')"
    by fastforce
  note snd_start = arg_cong [OF start, of snd, unfolded snd_conv]
  have "streamer_inv before False s'"
    using start_log_read [OF assms(1) snd_start] send_start_keeps [OF snd_start] False
    by (intro inv_start [OF assms(2), where cache_id = cache_id and flags = "streamer_flags config False True"]) simp_all
  moreover have "snd (add_data_and_close net ty cache_id config entries s) = s'"
    using False start by (simp add: add_data_and_close_def Let_def abind_def split: result.split)
  ultimately show ?thesis by simp
qed

lemma streamer_life_inv:
  assumes "announcing ty" and "streamer_life net ty cache_id config s0 live s"
  shows "streamer_inv (calls s0) live s"
  using assms(2)
proof induction
  case life_new
  show ?case
    by (rule streamer_invI [where starts = "[]" and uses = "[]"]) (simp_all add: streamer_requests_def streamer_new_def)
qed (simp_all add: assms(1) inv_add_data inv_flush inv_close inv_drop inv_add_data_and_close)

section \<open>Properties\<close>

definition sample_types :: "(i32, rstring) entry_types" where
  "sample_types = \<lparr>et_wk = \<lambda>k. wr (write_type TcInt write_i32 k), et_sk = \<lambda>k. sret (size_type 4 k),
     et_wv = \<lambda>v. wr (string_write v), et_sv = \<lambda>v. sret (string_size v)\<rparr>"

definition sample_net :: transport where
  "sample_net cs c = Inr (Success, write_i64 9, 0, [104])"

text \<open>C17: The life of a data streamer, for any types of keys and values that announce what they write, any
  sequence of batches, flushes and closes, ended or not by a last batch or a drop, and any answers. It sends
  requests that open a resource (of which only the last can have succeeded), then requests on that one
  resource, each with the resource id. A request with the close flag is the last that is ever sent, and
  an open streamer has sent none. After \<open>close\<close> nothing is sent.\<close>
theorem streamer_lifecycle:
  assumes "announcing ty" and "streamer_life net ty cache_id config s0 live s"
  shows "(\<exists>rid starts uses. calls s = calls s0 @ starts @ uses \<and>
      list_all is_start_call starts \<and> list_all (is_add_call rid) uses \<and> (uses = [] \<or> starts \<noteq> []) \<and>
      (resource_id s \<noteq> None \<longrightarrow> resource_id s = Some rid \<and> starts \<noteq> []) \<and>
      (live \<and> \<not> closed s \<longrightarrow> list_all (\<lambda>c. \<not> closing c) (starts @ uses)) \<and>
      list_all (\<lambda>c. \<not> closing c) (butlast (starts @ uses))) \<and>
    (closed s \<longrightarrow> calls (snd (add_data net ty cache_id config entries s)) = calls s \<and>
       calls (snd (flush net ty s)) = calls s \<and> calls (snd (close net ty s)) = calls s \<and>
       calls (snd (add_data_and_close net ty cache_id config entries s)) = calls s \<and> drop_streamer net ty s = s)"
proof -
  obtain rid starts uses where "streamer_requests (calls s0) rid starts uses s"
    and "resource_id s \<noteq> None \<longrightarrow> resource_id s = Some rid \<and> starts \<noteq> [] \<and> \<not> closed s"
    and "live \<and> \<not> closed s \<longrightarrow> (\<forall>c \<in> set (starts @ uses). \<not> closing c)"
    and "\<forall>c \<in> set (butlast (starts @ uses)). \<not> closing c"
    using streamer_life_inv [OF assms] unfolding streamer_inv_def by blast
  then have "\<exists>rid starts uses. calls s = calls s0 @ starts @ uses \<and>
      list_all is_start_call starts \<and> list_all (is_add_call rid) uses \<and> (uses = [] \<or> starts \<noteq> []) \<and>
      (resource_id s \<noteq> None \<longrightarrow> resource_id s = Some rid \<and> starts \<noteq> []) \<and>
      (live \<and> \<not> closed s \<longrightarrow> list_all (\<lambda>c. \<not> closing c) (starts @ uses)) \<and>
      list_all (\<lambda>c. \<not> closing c) (butlast (starts @ uses))"
    unfolding streamer_requests_def list_all_iff by (intro exI [of _ rid] exI [of _ starts] exI [of _ uses]) simp
  then show ?thesis
    by (simp add: add_data_def flush_def close_def add_data_and_close_def drop_streamer_def)
qed

theorem streamer_lifecycle_witness:
  "\<exists>rid starts uses.
     calls (snd (close sample_net sample_types (snd (add_data sample_net sample_types 1 data_streamer_config_default [(5, [97])]
       (streamer_new \<lparr>calls = [], next_correlation_id = 1\<rparr>))))) = starts @ uses \<and>
     list_all is_start_call starts \<and> list_all (is_add_call rid) uses"
proof -
  let ?s0 = "\<lparr>calls = [], next_correlation_id = 1\<rparr>"
  have ann: "announcing sample_types"
    by (simp add: announcing_def sample_types_def announced_sized sized_wr w_i32.size_write w_string.size_write)
  have "streamer_life sample_net sample_types 1 data_streamer_config_default ?s0 True
      (snd (close sample_net sample_types (snd (add_data sample_net sample_types 1 data_streamer_config_default [(5, [97])]
        (streamer_new ?s0)))))"
    by (intro life_close life_add life_new)
  from conjunct1 [OF streamer_lifecycle [OF ann this]] show ?thesis unfolding session.simps append_Nil by blast
qed

end
