(* ===== verification/Cursor.thy ===== *)
theory Cursor
  imports Exec
begin

text \<open>
  Query cursors, \<open>EntryCursor\<close> of \<open>ignite-rs/src/cursor.rs\<close>: the first page that came with the query, the
  pages that are fetched, and the server resource that is closed.
\<close>

section \<open>The cursor\<close>

record ('k, 'v) cursor_conf =
  cc_route :: request_route
  cc_cursor_id :: i64
  cc_page_op :: op_code
  cc_close_on_exhaustion :: bool
  cc_read_key :: "'k option reader"
  cc_read_value :: "'v option reader"

type_synonym ('k, 'v) row = "'k option \<times> 'v option"

record ('k, 'v) entry_cursor = session +
  pending_rows :: "('k, 'v) row list"
  has_more_pages :: bool
  cursor_closed :: bool

definition cursor_new :: "('k, 'v) row list \<Rightarrow> bool \<Rightarrow> session \<Rightarrow> ('k, 'v) entry_cursor" where
  "cursor_new rows hm s = \<lparr>calls = calls s, next_correlation_id = next_correlation_id s,
     pending_rows = rows, has_more_pages = hm, cursor_closed = False\<rparr>"

definition cursor_has_more :: "('k, 'v) entry_cursor \<Rightarrow> bool" where
  "cursor_has_more self \<longleftrightarrow> pending_rows self \<noteq> [] \<or> has_more_pages self"

definition send_cursor_close :: "transport \<Rightarrow> ('k, 'v) cursor_conf \<Rightarrow> (('k, 'v) entry_cursor, unit) act" where
  "send_cursor_close net conf = send_with_route net OpResourceClose (wr (write_i64 (cc_cursor_id conf))) (sret 8) (cc_route conf)"

definition cursor_close :: "transport \<Rightarrow> ('k, 'v) cursor_conf \<Rightarrow> (('k, 'v) entry_cursor, unit) act" where
  "cursor_close net conf self =
    (if cursor_closed self then (Done (), self)
     else abind (send_cursor_close net conf) (\<lambda>_ s. (Done (), s\<lparr>cursor_closed := True\<rparr>)) self)"

definition mark_exhausted :: "transport \<Rightarrow> ('k, 'v) cursor_conf \<Rightarrow> ('k, 'v) entry_cursor \<Rightarrow> ('k, 'v) entry_cursor" where
  "mark_exhausted net conf self =
    (if cursor_closed self then self
     else if cc_close_on_exhaustion conf then snd (cursor_close net conf self)
     else self\<lparr>cursor_closed := True\<rparr>)"

definition next_page :: "transport \<Rightarrow> ('k, 'v) cursor_conf \<Rightarrow> (('k, 'v) entry_cursor, ('k, 'v) row list) act" where
  "next_page net conf self =
    (if pending_rows self \<noteq> [] then
       let rows = pending_rows self; self' = self\<lparr>pending_rows := []\<rparr>
       in (Done rows, if \<not> has_more_pages self' then mark_exhausted net conf self' else self')
     else if \<not> has_more_pages self then (Done [], mark_exhausted net conf self)
     else abind (send_and_read_with_route net (cursor_page_read (cc_read_key conf) (cc_read_value conf))
         (cc_page_op conf) (wr (write_i64 (cc_cursor_id conf))) (sret 8) (cc_route conf))
       (\<lambda>resp s. let s' = s\<lparr>has_more_pages := page_has_more resp\<rparr>
          in (Done (page_rows resp), if \<not> has_more_pages s' then mark_exhausted net conf s' else s')) self)"

text \<open>\<open>fetch_all\<close>: the loop ends at the first empty page; \<open>fuel\<close> bounds its turns.\<close>

fun fetch_loop ::
    "nat \<Rightarrow> transport \<Rightarrow> ('k, 'v) cursor_conf \<Rightarrow> ('k, 'v) row list \<Rightarrow> (('k, 'v) entry_cursor, ('k, 'v) row list) act" where
  "fetch_loop 0 net conf rows self = (Unfinished, self)"
| "fetch_loop (Suc fuel) net conf rows self =
    abind (next_page net conf) (\<lambda>page. if page = [] then aret rows else fetch_loop fuel net conf (rows @ page)) self"

definition drop_cursor :: "transport \<Rightarrow> ('k, 'v) cursor_conf \<Rightarrow> ('k, 'v) entry_cursor \<Rightarrow> ('k, 'v) entry_cursor" where
  "drop_cursor net conf self = (if cursor_closed self then self else snd (send_cursor_close net conf self))"

text \<open>\<open>fetch_all\<close> consumes the cursor, which is dropped when it returns.\<close>

definition fetch_all :: "nat \<Rightarrow> transport \<Rightarrow> ('k, 'v) cursor_conf \<Rightarrow> (('k, 'v) entry_cursor, ('k, 'v) row list) act" where
  "fetch_all fuel net conf self = (case fetch_loop fuel net conf [] self of (r, s) \<Rightarrow> (r, drop_cursor net conf s))"

section \<open>What the operations send\<close>

definition page_call :: "('k, 'v) cursor_conf \<Rightarrow> i64 \<Rightarrow> call" where
  "page_call conf corr =
    (cc_page_op conf, request_frame (op_code_i16 (cc_page_op conf)) corr (write_i64 (cc_cursor_id conf)), cc_route conf)"

definition close_call :: "('k, 'v) cursor_conf \<Rightarrow> i64 \<Rightarrow> call" where
  "close_call conf corr = (OpResourceClose, request_frame (op_code_i16 OpResourceClose) corr (write_i64 (cc_cursor_id conf)), cc_route conf)"

lemma sized_cursor_id: "sized (wr (write_i64 i)) (sret 8)"
  by (rule sized_wr) simp

lemma run_cursor_id: "run (wr (write_i64 i)) = Inr (write_i64 i)"
  by (simp add: run_def wr_def)

lemmas perform_cursor = perform_sized [OF sized_cursor_id run_cursor_id]

lemma send_cursor_close_state:
  "snd (send_cursor_close net conf s) =
    s\<lparr>next_correlation_id := next_correlation_id s + 1, calls := calls s @ [close_call conf (next_correlation_id s)]\<rparr>"
  by (simp add: send_cursor_close_def send_with_route_state perform_cursor Let_def close_call_def)

lemma cursor_close_state:
  "\<not> cursor_closed s \<Longrightarrow> \<exists>c. snd (cursor_close net conf s) =
    s\<lparr>next_correlation_id := next_correlation_id s + 1, calls := calls s @ [close_call conf (next_correlation_id s)],
      cursor_closed := c\<rparr>"
  using send_cursor_close_state [of net conf s]
  by (cases "send_cursor_close net conf s", cases "fst (send_cursor_close net conf s)")
    (auto simp: cursor_close_def abind_def intro: exI [of _ False] exI [of _ True])

lemma page_read:
  assumes "net (calls s) (page_call conf (next_correlation_id s)) = Inr (Success, body, 0, addr)"
    and "cursor_page_read (cc_read_key conf) (cc_read_value conf) body = Ok resp rest"
  shows "send_and_read_with_route net (cursor_page_read (cc_read_key conf) (cc_read_value conf)) (cc_page_op conf)
      (wr (write_i64 (cc_cursor_id conf))) (sret 8) (cc_route conf) s =
    (Done resp, s\<lparr>next_correlation_id := next_correlation_id s + 1, calls := calls s @ [page_call conf (next_correlation_id s)]\<rparr>)"
  using assms by (simp add: send_and_read_with_route_def perform_cursor Let_def page_call_def abind_def decoded_def)

section \<open>A server that holds pages\<close>

text \<open>The page requests in a log, and a server that answers them with pages, in order, from the one after
  \<open>base\<close> such requests on; what it answers to anything else, and what it does after the last page, is free.\<close>

definition page_calls :: "op_code \<Rightarrow> call list \<Rightarrow> nat" where
  "page_calls op cs = length (filter (\<lambda>c. fst c = op) cs)"

definition serves_pages ::
    "transport \<Rightarrow> ('k, 'v) cursor_conf \<Rightarrow> ('k, 'v) row list list \<Rightarrow> (('k, 'v) row list \<Rightarrow> bytes) \<Rightarrow> nat \<Rightarrow> bool" where
  "serves_pages net conf pages enc base \<longleftrightarrow>
    (\<forall>cs corr n. page_calls (cc_page_op conf) cs = base + n \<and> n < length pages \<longrightarrow>
      (\<exists>addr. net cs (page_call conf corr) =
        Inr (Success, enc (pages ! n) @ write_bool (Suc n < length pages), 0, addr)))"

definition reads_pages :: "('k, 'v) cursor_conf \<Rightarrow> ('k, 'v) row list list \<Rightarrow> (('k, 'v) row list \<Rightarrow> bytes) \<Rightarrow> bool" where
  "reads_pages conf pages enc \<longleftrightarrow> (\<forall>rows \<in> set pages. \<forall>hm.
    cursor_page_read (cc_read_key conf) (cc_read_value conf) (enc rows @ write_bool hm) =
      Ok \<lparr>page_rows = rows, page_has_more = hm\<rparr> [])"

lemma page_calls_append [simp]: "page_calls op (a @ b) = page_calls op a + page_calls op b"
  by (simp add: page_calls_def)

lemma page_calls_page [simp]: "page_calls (cc_page_op conf) [page_call conf corr] = 1"
  by (simp add: page_calls_def page_call_def)

lemma page_calls_close [simp]: "op \<noteq> OpResourceClose \<Longrightarrow> page_calls op [close_call conf corr] = 0"
  by (simp add: page_calls_def close_call_def)

lemma mark_exhausted_keeps [simp]:
  "pending_rows (mark_exhausted net conf s) = pending_rows s"
  "has_more_pages (mark_exhausted net conf s) = has_more_pages s"
  "op \<noteq> OpResourceClose \<Longrightarrow> page_calls op (calls (mark_exhausted net conf s)) = page_calls op (calls s)"
  using cursor_close_state [of s net conf] by (auto simp: mark_exhausted_def)

text \<open>One page of the server.\<close>

lemma next_page_served:
  assumes serves: "serves_pages net conf pages enc base" "reads_pages conf pages enc"
    and n: "page_calls (cc_page_op conf) (calls s) = base + n" "n < length pages"
    and s: "pending_rows s = []" "has_more_pages s"
    and op: "cc_page_op conf \<noteq> OpResourceClose"
  shows "\<exists>s'. next_page net conf s = (Done (pages ! n), s') \<and> pending_rows s' = [] \<and>
    has_more_pages s' = (Suc n < length pages) \<and> page_calls (cc_page_op conf) (calls s') = base + Suc n"
proof -
  obtain addr where "net (calls s) (page_call conf (next_correlation_id s)) =
      Inr (Success, enc (pages ! n) @ write_bool (Suc n < length pages), 0, addr)"
    using serves(1) n unfolding serves_pages_def by blast
  from page_read [where net = net, OF this, of "\<lparr>page_rows = pages ! n, page_has_more = Suc n < length pages\<rparr>" "[]"] serves(2) n(2)
  have "send_and_read_with_route net (cursor_page_read (cc_read_key conf) (cc_read_value conf)) (cc_page_op conf)
      (wr (write_i64 (cc_cursor_id conf))) (sret 8) (cc_route conf) s =
    (Done \<lparr>page_rows = pages ! n, page_has_more = Suc n < length pages\<rparr>,
     s\<lparr>next_correlation_id := next_correlation_id s + 1, calls := calls s @ [page_call conf (next_correlation_id s)]\<rparr>)"
    unfolding reads_pages_def by simp
  then show ?thesis using s n op by (auto simp: next_page_def abind_def Let_def)
qed

lemma fetch_served:
  assumes serves: "serves_pages net conf pages enc base" "reads_pages conf pages enc"
    and op: "cc_page_op conf \<noteq> OpResourceClose"
    and "length pages - n < fuel" and "n \<le> length pages"
    and "page_calls (cc_page_op conf) (calls s) = base + n"
    and "pending_rows s = []" and "has_more_pages s = (n < length pages)"
  shows "\<exists>s'. fetch_loop fuel net conf rows s = (Done (rows @ concat (takeWhile (\<lambda>p. p \<noteq> []) (drop n pages))), s') \<and>
    page_calls (cc_page_op conf) (calls s') =
      base + min (length pages) (Suc (n + length (takeWhile (\<lambda>p. p \<noteq> []) (drop n pages))))"
  using assms(4-)
proof (induction fuel arbitrary: n rows s)
  case 0
  then show ?case by simp
next
  case (Suc fuel)
  show ?case
  proof (cases "n < length pages")
    case False
    with Suc.prems op show ?thesis by (simp add: next_page_def abind_def min_def)
  next
    case True
    obtain s' where page: "next_page net conf s = (Done (pages ! n), s')" and s': "pending_rows s' = []"
        "has_more_pages s' = (Suc n < length pages)" "page_calls (cc_page_op conf) (calls s') = base + Suc n"
      using next_page_served [OF serves Suc.prems(3) True Suc.prems(4) _ op] Suc.prems(5) True by blast
    have drop: "drop n pages = pages ! n # drop (Suc n) pages" using True by (simp add: Cons_nth_drop_Suc)
    show ?thesis
    proof (cases "pages ! n = []")
      case True
      then show ?thesis using page s' drop \<open>n < length pages\<close> by (simp add: abind_def min_def)
    next
      case False
      from Suc.IH [of "Suc n" s' "rows @ pages ! n"] Suc.prems(1) True s' show ?thesis
        by (auto simp: abind_def page False drop)
    qed
  qed
qed

lemma drop_cursor_keeps: "op \<noteq> OpResourceClose \<Longrightarrow> page_calls op (calls (drop_cursor net conf s)) = page_calls op (calls s)"
  by (simp add: drop_cursor_def send_cursor_close_state)

text \<open>The first page came with the query.\<close>

lemma fetch_first:
  assumes serves: "serves_pages net conf pages enc (page_calls (cc_page_op conf) (calls s0))" "reads_pages conf pages enc"
    and op: "cc_page_op conf \<noteq> OpResourceClose" and fuel: "length pages + 2 \<le> fuel"
    and rows: "all = (if first = [] then pages else first # pages)"
  shows "\<exists>s'. fetch_loop fuel net conf [] (cursor_new first (pages \<noteq> []) s0) = (Done (concat (takeWhile (\<lambda>p. p \<noteq> []) all)), s') \<and>
    page_calls (cc_page_op conf) (calls s') = page_calls (cc_page_op conf) (calls s0) +
      min (length pages) (Suc (length (takeWhile (\<lambda>p. p \<noteq> []) pages)))"
proof (cases "first = []")
  case True
  then show ?thesis
    using fetch_served [OF serves op, of 0 fuel "cursor_new [] (pages \<noteq> []) s0" "[]"] fuel rows
    by (simp add: cursor_new_def)
next
  case False
  obtain k where k: "fuel = Suc k" "length pages < k" using fuel by (cases fuel) auto
  let ?s = "cursor_new first (pages \<noteq> []) s0"
  obtain s1 where s1: "next_page net conf ?s = (Done first, s1)" "pending_rows s1 = []" "has_more_pages s1 = (0 < length pages)"
      "page_calls (cc_page_op conf) (calls s1) = page_calls (cc_page_op conf) (calls s0)"
    using False op by (fastforce simp: next_page_def cursor_new_def Let_def)
  from fetch_served [OF serves op, of 0 k s1 first] k s1 False rows show ?thesis by (simp add: abind_def)
qed

section \<open>Properties\<close>

text \<open>C16: Fetching all rows of a cursor, for any cacheable types of keys and values. When the server holds the
  pages after the first and answers the page requests in order, \<open>fetch_all\<close> returns the rows of the first
  page and of the pages, in order, up to the first empty page (an empty first page is skipped), and asks
  for each page at most once. When no page is empty all rows are returned and every page has been asked for
  once. \<open>length pages + 2\<close> turns are enough.\<close>
theorem fetch_all_rows:
  assumes "wire_pair wk sk rk okk ck wv sv rv okv cv"
    and "cc_read_key conf = readable_read rk" and "cc_read_value conf = readable_read rv"
    and "list_all (good_rows okk okv) pages" and "cc_page_op conf \<noteq> OpResourceClose"
    and "serves_pages net conf pages (server_rows wk wv) (page_calls (cc_page_op conf) (calls s0))"
    and "length pages + 2 \<le> fuel"
  shows "let (r, s) = fetch_all fuel net conf (cursor_new first (pages \<noteq> []) s0);
      asked = page_calls (cc_page_op conf) (calls s) - page_calls (cc_page_op conf) (calls s0)
    in r = Done (concat (takeWhile (\<lambda>p. p \<noteq> []) (if first = [] then pages else first # pages))) \<and>
       asked \<le> length pages \<and> ([] \<notin> set pages \<longrightarrow> r = Done (first @ concat pages) \<and> asked = length pages)"
proof -
  have reads: "reads_pages conf pages (server_rows wk wv)"
    using wire_pair.page_read_back [OF assms(1), of _ _ "[]"] assms(2-4)
    by (simp add: reads_pages_def list_all_iff)
  obtain s' where loop: "fetch_loop fuel net conf [] (cursor_new first (pages \<noteq> []) s0) =
      (Done (concat (takeWhile (\<lambda>p. p \<noteq> []) (if first = [] then pages else first # pages))), s')"
    and asked: "page_calls (cc_page_op conf) (calls s') = page_calls (cc_page_op conf) (calls s0) +
      min (length pages) (Suc (length (takeWhile (\<lambda>p. p \<noteq> []) pages)))"
    using fetch_first [OF assms(6) reads assms(5,7) refl] by blast
  have all: "takeWhile (\<lambda>p. p \<noteq> []) pages = pages" if "[] \<notin> set pages"
    using that by (metis (mono_tags, lifting) takeWhile_eq_all_conv)
  show ?thesis
    by (cases "[] \<in> set pages")
      (simp_all add: fetch_all_def loop drop_cursor_keeps [OF assms(5)] asked Let_def all del: takeWhile_eq_all_conv)
qed

definition sample_cursor :: "(i32, rstring) cursor_conf" where
  "sample_cursor = \<lparr>cc_route = route_default, cc_cursor_id = 5, cc_page_op = OpQueryScanCursorGetPage, cc_close_on_exhaustion = False,
     cc_read_key = readable_read (read_type read_i32), cc_read_value = readable_read (read_type read_string)\<rparr>"

definition sample_pages :: "(i32, rstring) row list list" where
  "sample_pages = [[(Some 1, Some [97])], [(Some 2, None)]]"

definition sample_server :: transport where
  "sample_server cs c = (let n = page_calls OpQueryScanCursorGetPage cs
    in Inr (Success, server_rows (write_type TcInt write_i32) string_write (sample_pages ! n) @ write_bool (Suc n < length sample_pages), 0, []))"

theorem fetch_all_rows_witness:
  "fst (fetch_all 4 sample_server sample_cursor (cursor_new [(Some 0, None)] True \<lparr>calls = [], next_correlation_id = 1\<rparr>)) =
    Done [(Some 0, None), (Some 1, Some [97]), (Some 2, None)]"
proof -
  have "list_all (good_rows (\<lambda>_. True) ok_string) sample_pages"
    by (simp add: sample_pages_def good_rows_def ok_string_def scalar_def str_len_def utf8_char_def)
  moreover have "serves_pages sample_server sample_cursor sample_pages (server_rows (write_type TcInt write_i32) string_write)
      (page_calls (cc_page_op sample_cursor) (calls \<lparr>calls = [], next_correlation_id = 1\<rparr>))"
    by (simp add: serves_pages_def sample_server_def sample_cursor_def page_calls_def Let_def)
  ultimately show ?thesis
    using fetch_all_rows [OF int_string.wire_pair_axioms, of sample_cursor sample_pages sample_server
        "\<lparr>calls = [], next_correlation_id = 1\<rparr>" 4 "[(Some 0, None)]"]
    by (simp add: sample_cursor_def sample_pages_def Let_def split: prod.splits)
qed

end
