(* ===== verification/CacheOps.thy ===== *)
theory CacheOps
  imports Transactions Cursor
begin

text \<open>
  Operations of a cache, \<open>CacheCore\<close> of \<open>ignite-rs/src/cache.rs\<close>: the checks of the transaction the cache may
  belong to, the choice of a route, the request, and what a failure does to the transaction. The types of
  keys and values and the affinity lookup of the channel manager are arguments.
\<close>

section \<open>A cache\<close>

record ('k, 'v) cache_core =
  core_id :: i32
  core_tx :: "transaction_inner option"
  core_expiry_policy :: "expiry_policy option"
  core_lc :: lowercase
  core_wk :: "'k \<Rightarrow> writer"
  core_sk :: "'k \<Rightarrow> sizer"
  core_rk :: "'k option reader"
  core_wv :: "'v \<Rightarrow> writer"
  core_sv :: "'v \<Rightarrow> sizer"
  core_rv :: "'v option reader"

definition core_with_expiry_policy :: "('k, 'v) cache_core \<Rightarrow> expiry_policy \<Rightarrow> ('k, 'v) cache_core" where
  "core_with_expiry_policy self p = self\<lparr>core_expiry_policy := Some p\<rparr>"

definition cache_info_of :: "('k, 'v) cache_core \<Rightarrow> bool \<Rightarrow> cache_info" where
  "cache_info_of self keep_binary =
    (let info = with_expiry_policy (with_keep_binary (cache_info_new (core_id self)) keep_binary) (core_expiry_policy self)
     in case core_tx self of Some tx \<Rightarrow> with_tx_id info (Some (inner_tx_id tx)) | None \<Rightarrow> info)"

definition tx_route :: "('k, 'v) cache_core \<Rightarrow> (tx_session, request_route option) act" where
  "tx_route self = (case core_tx self of
      Some tx \<Rightarrow> abind (route_tx tx) (\<lambda>route. aret (Some route))
    | None \<Rightarrow> aret None)"

definition ensure_tx_cache_ops_allowed :: "('k, 'v) cache_core \<Rightarrow> (tx_session, unit) act" where
  "ensure_tx_cache_ops_allowed self = (case core_tx self of Some tx \<Rightarrow> ensure_cache_ops_allowed | None \<Rightarrow> aret ())"

definition core_ensure_clear_allowed :: "('k, 'v) cache_core \<Rightarrow> string \<Rightarrow> (tx_session, unit) act" where
  "core_ensure_clear_allowed self op_name = (case core_tx self of Some tx \<Rightarrow> ensure_clear_allowed op_name | None \<Rightarrow> aret ())"

text \<open>\<open>marshal_key\<close>: the size is asked first, and may panic.\<close>

definition marshal_key :: "('k \<Rightarrow> writer) \<Rightarrow> ('k \<Rightarrow> sizer) \<Rightarrow> 'k \<Rightarrow> ('s, bytes) act" where
  "marshal_key wk sk key s = (case fst (sk key registry_default) of
      None \<Rightarrow> (Panicked, s)
    | Some _ \<Rightarrow> (case run (wk key) of Inl e \<Rightarrow> (Failed (CDecode (IoE e)), s) | Inr bs \<Rightarrow> (Done bs, s)))"

type_synonym node_lookup = "i32 \<Rightarrow> bytes \<Rightarrow> bool \<Rightarrow> rstring option"

definition prepare_key_route ::
    "node_lookup \<Rightarrow> ('k, 'v) cache_core \<Rightarrow> 'k \<Rightarrow> bool \<Rightarrow> (tx_session, bytes \<times> request_route) act" where
  "prepare_key_route aff self key primary =
    abind (marshal_key (core_wk self) (core_sk self) key) (\<lambda>prepared_key.
    abind (tx_route self) (\<lambda>tx_route.
      case tx_route of
        Some route \<Rightarrow> aret (prepared_key, route)
      | None \<Rightarrow> aret (prepared_key, case aff (core_id self) prepared_key primary of
            Some nid \<Rightarrow> route_preferred_node nid
          | None \<Rightarrow> route_default)))"

definition map_tx_err :: "('k, 'v) cache_core \<Rightarrow> (tx_session, 'a) act \<Rightarrow> (tx_session, 'a) act" where
  "map_tx_err self m s = (case m s of
      (Failed err, s') \<Rightarrow>
        (if core_tx self \<noteq> None \<and> connection_related err
         then (Failed (CCause ''Transaction context has been lost due to connection errors. Cache operations are prohibited until current transaction closed. Cause: '' err),
               mark_lost s')
         else (Failed err, s'))
    | r \<Rightarrow> r)"

section \<open>Requests with a key, and requests without\<close>

text \<open>A request whose key is already marshaled, and a request with keys of the cache's type.\<close>

definition prepared_write :: "('k, 'v) cache_core \<Rightarrow> (bytes, 'v) cache_req \<Rightarrow> writer" where
  "prepared_write self req = cache_req_write (core_lc self) wr (core_wv self) req"

definition prepared_size :: "('k, 'v) cache_core \<Rightarrow> (bytes, 'v) cache_req \<Rightarrow> sizer" where
  "prepared_size self req = cache_req_size (core_lc self) (\<lambda>bs. sret (length bs)) (core_sv self) req"

definition plain_write :: "('k, 'v) cache_core \<Rightarrow> ('k, 'v) cache_req \<Rightarrow> writer" where
  "plain_write self req = cache_req_write (core_lc self) (core_wk self) (core_wv self) req"

definition plain_size :: "('k, 'v) cache_core \<Rightarrow> ('k, 'v) cache_req \<Rightarrow> sizer" where
  "plain_size self req = cache_req_size (core_lc self) (core_sk self) (core_sv self) req"

definition key_read ::
    "transport \<Rightarrow> node_lookup \<Rightarrow> ('k, 'v) cache_core \<Rightarrow> 'a reader \<Rightarrow> op_code \<Rightarrow> 'k \<Rightarrow> bool \<Rightarrow>
     (cache_info \<Rightarrow> bytes \<Rightarrow> (bytes, 'v) cache_req) \<Rightarrow> (tx_session, 'a) act" where
  "key_read net aff self rd op key primary req =
    abind (ensure_tx_cache_ops_allowed self) (\<lambda>_.
    abind (prepare_key_route aff self key primary) (\<lambda>(prepared_key, route).
      let r = req (cache_info_of self False) prepared_key
      in map_tx_err self (send_and_read_with_route net rd op (prepared_write self r) (prepared_size self r) route)))"

definition bulk_read ::
    "transport \<Rightarrow> ('k, 'v) cache_core \<Rightarrow> 'a reader \<Rightarrow> op_code \<Rightarrow> (cache_info \<Rightarrow> ('k, 'v) cache_req) \<Rightarrow> (tx_session, 'a) act" where
  "bulk_read net self rd op req =
    abind (ensure_tx_cache_ops_allowed self) (\<lambda>_.
    abind (tx_route self) (\<lambda>route.
      let r = req (cache_info_of self False)
      in map_tx_err self (send_and_read_with_route net rd op (plain_write self r) (plain_size self r)
        (case route of Some rt \<Rightarrow> rt | None \<Rightarrow> route_default))))"

definition bulk_send ::
    "transport \<Rightarrow> ('k, 'v) cache_core \<Rightarrow> op_code \<Rightarrow> (cache_info \<Rightarrow> ('k, 'v) cache_req) \<Rightarrow> (tx_session, unit) act" where
  "bulk_send net self op req =
    abind (ensure_tx_cache_ops_allowed self) (\<lambda>_.
    abind (tx_route self) (\<lambda>route.
      let r = req (cache_info_of self False)
      in map_tx_err self (send_with_route net op (plain_write self r) (plain_size self r)
        (case route of Some rt \<Rightarrow> rt | None \<Rightarrow> route_default))))"

section \<open>The operations\<close>

definition cache_get :: "transport \<Rightarrow> node_lookup \<Rightarrow> ('k, 'v) cache_core \<Rightarrow> 'k \<Rightarrow> (tx_session, 'v option) act" where
  "cache_get net aff self key = key_read net aff self (cache_data_object_read (core_rv self)) OpCacheGet key False CrGet"

definition cache_get_all ::
    "transport \<Rightarrow> ('k, 'v) cache_core \<Rightarrow> 'k list \<Rightarrow> (tx_session, ('k option \<times> 'v option) list) act" where
  "cache_get_all net self ks =
    bulk_read net self (cache_pairs_read (core_rk self) (core_rv self)) OpCacheGetAll (\<lambda>info. CrGetAll info ks)"

definition cache_put :: "transport \<Rightarrow> node_lookup \<Rightarrow> ('k, 'v) cache_core \<Rightarrow> 'k \<Rightarrow> 'v \<Rightarrow> (tx_session, unit) act" where
  "cache_put net aff self key val =
    abind (ensure_tx_cache_ops_allowed self) (\<lambda>_.
    abind (prepare_key_route aff self key True) (\<lambda>(prepared_key, route).
      let r = CrPut (cache_info_of self False) prepared_key val
      in map_tx_err self (send_with_route net OpCachePut (prepared_write self r) (prepared_size self r) route)))"

definition cache_put_all :: "transport \<Rightarrow> ('k, 'v) cache_core \<Rightarrow> ('k \<times> 'v) list \<Rightarrow> (tx_session, unit) act" where
  "cache_put_all net self pairs = bulk_send net self OpCachePutAll (\<lambda>info. CrPutAll info pairs)"

definition cache_contains_key :: "transport \<Rightarrow> node_lookup \<Rightarrow> ('k, 'v) cache_core \<Rightarrow> 'k \<Rightarrow> (tx_session, bool) act" where
  "cache_contains_key net aff self key = key_read net aff self cache_bool_read OpCacheContainsKey key False CrContainsKey"

definition cache_contains_keys :: "transport \<Rightarrow> ('k, 'v) cache_core \<Rightarrow> 'k list \<Rightarrow> (tx_session, bool) act" where
  "cache_contains_keys net self ks = bulk_read net self cache_bool_read OpCacheContainsKeys (\<lambda>info. CrContainsKeys info ks)"

definition cache_get_and_put :: "transport \<Rightarrow> node_lookup \<Rightarrow> ('k, 'v) cache_core \<Rightarrow> 'k \<Rightarrow> 'v \<Rightarrow> (tx_session, 'v option) act" where
  "cache_get_and_put net aff self key val =
    key_read net aff self (cache_data_object_read (core_rv self)) OpCacheGetAndPut key True (\<lambda>info k. CrGetAndPut info k val)"

definition cache_get_and_replace :: "transport \<Rightarrow> node_lookup \<Rightarrow> ('k, 'v) cache_core \<Rightarrow> 'k \<Rightarrow> 'v \<Rightarrow> (tx_session, 'v option) act" where
  "cache_get_and_replace net aff self key val =
    key_read net aff self (cache_data_object_read (core_rv self)) OpCacheGetAndReplace key True (\<lambda>info k. CrGetAndReplace info k val)"

definition cache_get_and_remove :: "transport \<Rightarrow> node_lookup \<Rightarrow> ('k, 'v) cache_core \<Rightarrow> 'k \<Rightarrow> (tx_session, 'v option) act" where
  "cache_get_and_remove net aff self key =
    key_read net aff self (cache_data_object_read (core_rv self)) OpCacheGetAndRemove key True CrGetAndRemove"

definition cache_put_if_absent :: "transport \<Rightarrow> node_lookup \<Rightarrow> ('k, 'v) cache_core \<Rightarrow> 'k \<Rightarrow> 'v \<Rightarrow> (tx_session, bool) act" where
  "cache_put_if_absent net aff self key val =
    key_read net aff self cache_bool_read OpCachePutIfAbsent key True (\<lambda>info k. CrPutIfAbsent info k val)"

definition cache_get_and_put_if_absent ::
    "transport \<Rightarrow> node_lookup \<Rightarrow> ('k, 'v) cache_core \<Rightarrow> 'k \<Rightarrow> 'v \<Rightarrow> (tx_session, 'v option) act" where
  "cache_get_and_put_if_absent net aff self key val =
    key_read net aff self (cache_data_object_read (core_rv self)) OpCacheGetAndPutIfAbsent key True
      (\<lambda>info k. CrGetAndPutIfAbsent info k val)"

definition cache_replace :: "transport \<Rightarrow> node_lookup \<Rightarrow> ('k, 'v) cache_core \<Rightarrow> 'k \<Rightarrow> 'v \<Rightarrow> (tx_session, bool) act" where
  "cache_replace net aff self key val =
    key_read net aff self cache_bool_read OpCacheReplace key True (\<lambda>info k. CrReplace info k val)"

definition cache_replace_if_equals ::
    "transport \<Rightarrow> node_lookup \<Rightarrow> ('k, 'v) cache_core \<Rightarrow> 'k \<Rightarrow> 'v \<Rightarrow> 'v \<Rightarrow> (tx_session, bool) act" where
  "cache_replace_if_equals net aff self key old new =
    key_read net aff self cache_bool_read OpCacheReplaceIfEquals key True (\<lambda>info k. CrReplaceIfEquals info k old new)"

definition cache_clear :: "transport \<Rightarrow> ('k, 'v) cache_core \<Rightarrow> (tx_session, unit) act" where
  "cache_clear net self =
    abind (core_ensure_clear_allowed self ''clear'') (\<lambda>_.
      let r = CrClear (cache_info_of self False)
      in send_with_route net OpCacheClear (plain_write self r) (plain_size self r) route_default)"

definition cache_clear_key :: "transport \<Rightarrow> node_lookup \<Rightarrow> ('k, 'v) cache_core \<Rightarrow> 'k \<Rightarrow> (tx_session, unit) act" where
  "cache_clear_key net aff self key =
    abind (core_ensure_clear_allowed self ''clear'') (\<lambda>_.
    abind (prepare_key_route aff self key True) (\<lambda>(prepared_key, route).
      let r = CrClearKey (cache_info_of self False) prepared_key
      in send_with_route net OpCacheClearKey (prepared_write self r) (prepared_size self r) route))"

definition cache_clear_keys :: "transport \<Rightarrow> ('k, 'v) cache_core \<Rightarrow> 'k list \<Rightarrow> (tx_session, unit) act" where
  "cache_clear_keys net self ks =
    abind (core_ensure_clear_allowed self ''clear'') (\<lambda>_.
      let r = CrClearKeys (cache_info_of self False) ks
      in send_with_route net OpCacheClearKeys (plain_write self r) (plain_size self r) route_default)"

definition cache_remove_key :: "transport \<Rightarrow> node_lookup \<Rightarrow> ('k, 'v) cache_core \<Rightarrow> 'k \<Rightarrow> (tx_session, bool) act" where
  "cache_remove_key net aff self key = key_read net aff self cache_bool_read OpCacheRemoveKey key True CrRemoveKey"

definition cache_remove_if_equals :: "transport \<Rightarrow> node_lookup \<Rightarrow> ('k, 'v) cache_core \<Rightarrow> 'k \<Rightarrow> 'v \<Rightarrow> (tx_session, bool) act" where
  "cache_remove_if_equals net aff self key val =
    key_read net aff self cache_bool_read OpCacheRemoveIfEquals key True (\<lambda>info k. CrRemoveIfEquals info k val)"

definition cache_get_size_peek_modes :: "transport \<Rightarrow> ('k, 'v) cache_core \<Rightarrow> cache_peek_mode list \<Rightarrow> (tx_session, i64) act" where
  "cache_get_size_peek_modes net self modes = bulk_read net self cache_size_read OpCacheGetSize (\<lambda>info. CrGetSize info modes)"

definition cache_get_size :: "transport \<Rightarrow> ('k, 'v) cache_core \<Rightarrow> (tx_session, i64) act" where
  "cache_get_size net self = bulk_read net self cache_size_read OpCacheGetSize (\<lambda>info. CrGetSize info [])"

definition cache_get_size_peek_mode :: "transport \<Rightarrow> ('k, 'v) cache_core \<Rightarrow> cache_peek_mode \<Rightarrow> (tx_session, i64) act" where
  "cache_get_size_peek_mode net self mode = bulk_read net self cache_size_read OpCacheGetSize (\<lambda>info. CrGetSize info [mode])"

definition cache_remove_keys :: "transport \<Rightarrow> ('k, 'v) cache_core \<Rightarrow> 'k list \<Rightarrow> (tx_session, unit) act" where
  "cache_remove_keys net self ks = bulk_send net self OpCacheRemoveKeys (\<lambda>info. CrRemoveKeys info ks)"

definition cache_remove_all :: "transport \<Rightarrow> ('k, 'v) cache_core \<Rightarrow> (tx_session, unit) act" where
  "cache_remove_all net self = bulk_send net self OpCacheRemoveAll CrRemoveAll"

definition cache_query_close :: "transport \<Rightarrow> ('k, 'v) cache_core \<Rightarrow> i64 \<Rightarrow> (tx_session, unit) act" where
  "cache_query_close net self cursor_id =
    abind (tx_route self) (\<lambda>route.
      map_tx_err self (send_with_route net OpResourceClose (plain_write self (CrCursorClose cursor_id))
        (plain_size self (CrCursorClose cursor_id)) (case route of Some rt \<Rightarrow> rt | None \<Rightarrow> route_default)))"

section \<open>What an operation may do\<close>

definition usable :: "('k, 'v) cache_core \<Rightarrow> tx_session \<Rightarrow> bool" where
  "usable self s \<longleftrightarrow> core_tx self = None \<or> tx_state s = TxActive"

definition allowed_route :: "('k, 'v) cache_core \<Rightarrow> request_route \<Rightarrow> bool" where
  "allowed_route self route \<longleftrightarrow> (case core_tx self of
      Some tx \<Rightarrow> route = route_pinned (inner_pinned_address tx)
    | None \<Rightarrow> route = route_default \<or> (\<exists>nid. route = route_preferred_node nid))"

definition cache_call :: "('k, 'v) cache_core \<Rightarrow> call \<Rightarrow> bool" where
  "cache_call self c \<longleftrightarrow> (\<exists>op corr rest route. allowed_route self route \<and>
    c = (op, request_frame (op_code_i16 op) corr (write_cache_info (cache_info_of self False) @ rest), route))"

text \<open>\<open>m\<close> makes at most one request, one of the cache's; on a closed or lost transaction it fails and makes
  none; the transaction stays as it was, or is lost with a failure.\<close>

definition keeps_tx :: "('k, 'v) cache_core \<Rightarrow> (tx_session, 'a) act \<Rightarrow> tx_session \<Rightarrow> bool" where
  "keeps_tx self m s \<longleftrightarrow>
    (\<exists>log. calls (snd (m s)) = calls s @ log \<and> length log \<le> 1 \<and> list_all (cache_call self) log) \<and>
    (tx_state (snd (m s)) = tx_state s \<or> tx_state (snd (m s)) = TxLost \<and> core_tx self \<noteq> None \<and> (\<exists>e. fst (m s) = Failed e)) \<and>
    (\<not> usable self s \<longrightarrow> snd (m s) = s \<and> (\<exists>e. fst (m s) = Failed e))"

definition core_announces :: "('k, 'v) cache_core \<Rightarrow> bool" where
  "core_announces self \<longleftrightarrow> announced (core_wk self) (core_sk self) \<and> announced (core_wv self) (core_sv self)"

lemma keeps_txI:
  assumes "snd (m s) = s \<and> (usable self s \<or> (\<exists>e. fst (m s) = Failed e)) \<or>
      usable self s \<and> (\<exists>log. calls (snd (m s)) = calls s @ log \<and> length log \<le> 1 \<and> list_all (cache_call self) log) \<and>
      (tx_state (snd (m s)) = tx_state s \<or> tx_state (snd (m s)) = TxLost \<and> core_tx self \<noteq> None \<and> (\<exists>e. fst (m s) = Failed e))"
  shows "keeps_tx self m s"
  using assms unfolding keeps_tx_def by (elim disjE conjE) (auto intro: exI [of _ "[]"])

lemma keeps_tx_cong: "m s = n s \<Longrightarrow> keeps_tx self m s = keeps_tx self n s"
  by (simp add: keeps_tx_def)

lemma cache_callI:
  "allowed_route self route \<Longrightarrow>
    cache_call self (op, request_frame (op_code_i16 op) corr (write_cache_info (cache_info_of self False) @ rest), route)"
  unfolding cache_call_def by blast

lemma ensure_ops: "ensure_tx_cache_ops_allowed self s = (if usable self s then (Done (), s) else (fst (ensure_cache_ops_allowed s), s))"
  "\<not> usable self s \<Longrightarrow> \<exists>e. fst (ensure_cache_ops_allowed s) = Failed e"
  by (auto simp: ensure_tx_cache_ops_allowed_def ensure_cache_ops_allowed_def usable_def
      split: option.splits transaction_state.splits)

lemma tx_route_usable:
  "usable self s \<Longrightarrow> tx_route self s = (Done (map_option (\<lambda>tx. route_pinned (inner_pinned_address tx)) (core_tx self)), s)"
  by (auto simp: tx_route_def route_tx_def ensure_cache_ops_allowed_def usable_def abind_def split: option.splits)

lemma prepare_usable:
  assumes "usable self s"
  shows "prepare_key_route aff self key primary s =
    (case marshal_key (core_wk self) (core_sk self) key s of
       (Done kb, _) \<Rightarrow> (Done (kb, case core_tx self of
           Some tx \<Rightarrow> route_pinned (inner_pinned_address tx)
         | None \<Rightarrow> (case aff (core_id self) kb primary of Some nid \<Rightarrow> route_preferred_node nid | None \<Rightarrow> route_default)), s)
     | (Failed e, _) \<Rightarrow> (Failed e, s) | (Panicked, _) \<Rightarrow> (Panicked, s) | (Unfinished, _) \<Rightarrow> (Unfinished, s))"
  using tx_route_usable [OF assms]
  by (auto simp: prepare_key_route_def abind_def marshal_key_def split: option.splits sum.splits)

lemma prepare_allowed:
  assumes "usable self s" and "prepare_key_route aff self key primary s = (Done (kb, route), s')"
  shows "s' = s \<and> allowed_route self route"
  using assms(2) unfolding prepare_usable [OF assms(1)]
  by (auto simp: allowed_route_def split: prod.splits result.splits option.splits)

lemma prepare_state: "usable self s \<Longrightarrow> snd (prepare_key_route aff self key primary s) = s"
  by (simp add: prepare_usable split: prod.splits result.splits)

text \<open>Requests of the cache begin with its cache info.\<close>

definition leading_info :: "('k, 'v) cache_req \<Rightarrow> cache_info option" where
  "leading_info req = (case req of
      CrGet info _ \<Rightarrow> Some info | CrGetAll info _ \<Rightarrow> Some info | CrPut info _ _ \<Rightarrow> Some info | CrPutAll info _ \<Rightarrow> Some info
    | CrContainsKey info _ \<Rightarrow> Some info | CrContainsKeys info _ \<Rightarrow> Some info | CrGetAndPut info _ _ \<Rightarrow> Some info
    | CrGetAndReplace info _ _ \<Rightarrow> Some info | CrGetAndRemove info _ \<Rightarrow> Some info | CrPutIfAbsent info _ _ \<Rightarrow> Some info
    | CrGetAndPutIfAbsent info _ _ \<Rightarrow> Some info | CrReplace info _ _ \<Rightarrow> Some info | CrReplaceIfEquals info _ _ _ \<Rightarrow> Some info
    | CrClear info \<Rightarrow> Some info | CrClearKey info _ \<Rightarrow> Some info | CrClearKeys info _ \<Rightarrow> Some info | CrRemoveKey info _ \<Rightarrow> Some info
    | CrRemoveIfEquals info _ _ \<Rightarrow> Some info | CrGetSize info _ \<Rightarrow> Some info | CrRemoveKeys info _ \<Rightarrow> Some info
    | CrRemoveAll info \<Rightarrow> Some info | _ \<Rightarrow> None)"

lemma cache_req_prefix:
  assumes "run (cache_req_write lc wk wv req) = Inr bs" and "leading_info req = Some info"
  shows "\<exists>rest. bs = write_cache_info info @ rest"
proof -
  have prefix: "\<exists>rest. bs = a @ rest" if "run (wthen (wr (a @ b)) m) = Inr bs" for a b m
    using run_prefixed [OF that] by auto
  show ?thesis
    using assms prefix [where b = "[]"] prefix
    by (cases req) (auto simp: leading_info_def write_key_req_def write_keys_req_def write_key_value_req_def run_def wr_def)
qed

text \<open>A request of the cache, alone and under \<open>map_tx_err\<close>.\<close>

lemma request_keeps:
  assumes "usable self s" and "snd (m s) = snd (perform net op payload psize route s)"
    and "sized payload psize" and "\<And>bs. run payload = Inr bs \<Longrightarrow> \<exists>rest. bs = write_cache_info (cache_info_of self False) @ rest"
    and "allowed_route self route"
  shows "keeps_tx self m s" and "keeps_tx self (map_tx_err self m) s"
proof -
  obtain log where log: "calls (snd (m s)) = calls s @ log"
    "log = [] \<or> (\<exists>corr rest. log = [(op, request_frame (op_code_i16 op) corr (write_cache_info (cache_info_of self False) @ rest), route)])"
    using perform_log_sized [OF assms(3,4), of net op route s] assms(2) by auto
  have ok: "length log \<le> 1 \<and> list_all (cache_call self) log"
    using log(2) assms(5) by (auto simp: cache_callI)
  have st: "tx_state (snd (m s)) = tx_state s"
    using perform_frame [of net op payload psize route s] assms(2) by auto
  show "keeps_tx self m s" using assms(1) log(1) ok st by (intro keeps_txI) blast
  obtain r t where m: "m s = (r, t)" by fastforce
  show "keeps_tx self (map_tx_err self m) s"
    using assms(1) log(1) ok st unfolding m
    by (intro keeps_txI) (cases r; auto simp: map_tx_err_def m mark_lost_def)
qed

lemma guarded_keeps:
  assumes "\<And>x. usable self s \<Longrightarrow> keeps_tx self (f x) s"
  shows "keeps_tx self (abind (ensure_tx_cache_ops_allowed self) f) s"
  using assms ensure_ops [of self s] by (cases "usable self s") (auto simp: abind_def keeps_tx_def split: result.split)

lemma routed_keeps:
  assumes "usable self s"
    and "\<And>route. allowed_route self (case route of Some rt \<Rightarrow> rt | None \<Rightarrow> route_default) \<Longrightarrow> keeps_tx self (f route) s"
  shows "keeps_tx self (abind (tx_route self) f) s"
  using assms(2) [of "map_option (\<lambda>tx. route_pinned (inner_pinned_address tx)) (core_tx self)"] tx_route_usable [OF assms(1)]
  by (auto simp: abind_def keeps_tx_def allowed_route_def split: option.splits)

lemma prepared_keeps:
  assumes "usable self s" and "\<And>kb route. allowed_route self route \<Longrightarrow> keeps_tx self (f (kb, route)) s"
  shows "keeps_tx self (abind (prepare_key_route aff self key primary) f) s"
proof -
  obtain r s' where prep: "prepare_key_route aff self key primary s = (r, s')" by fastforce
  have "s' = s" using prepare_state [OF assms(1), of aff key primary] prep by simp
  note prep = prep [unfolded this]
  show ?thesis
  proof (cases r)
    case (Done p)
    obtain kb route where p: "p = (kb, route)" by fastforce
    have "allowed_route self route" using prepare_allowed [OF assms(1)] prep Done p by blast
    then have "keeps_tx self (f (kb, route)) s" by (rule assms(2))
    moreover have "abind (prepare_key_route aff self key primary) f s = f (kb, route) s"
      by (simp add: abind_def prep Done p)
    ultimately show ?thesis using keeps_tx_cong by metis
  qed (rule keeps_txI, simp add: abind_def prep assms(1))+
qed

lemma sized_requests:
  assumes "core_announces self"
  shows "sized (prepared_write self req) (prepared_size self req)" "sized (plain_write self req') (plain_size self req')"
  using assms unfolding core_announces_def prepared_write_def prepared_size_def plain_write_def plain_size_def
  by (auto intro!: cache_req_sized announced_sized sized_intros)

text \<open>The three shapes of an operation, and the two of a clear.\<close>

lemma request_prefix:
  "run (prepared_write self req) = Inr bs \<Longrightarrow> leading_info req = Some info \<Longrightarrow> \<exists>rest. bs = write_cache_info info @ rest"
  "run (plain_write self req') = Inr bs \<Longrightarrow> leading_info req' = Some info \<Longrightarrow> \<exists>rest. bs = write_cache_info info @ rest"
  unfolding prepared_write_def plain_write_def by (rule cache_req_prefix; assumption)+

lemma key_read_keeps:
  assumes "core_announces self" and "\<And>info kb. leading_info (req info kb) = Some info"
  shows "keeps_tx self (key_read net aff self rd op key primary req) s"
  unfolding key_read_def Let_def
  by (intro guarded_keeps prepared_keeps, assumption, simp,
      rule request_keeps(2) [OF _ send_and_read_state sized_requests(1) [OF assms(1)]])
    (auto intro: request_prefix(1) [OF _ assms(2)])

lemma bulk_read_keeps:
  assumes "core_announces self" and "\<And>info. leading_info (req info) = Some info"
  shows "keeps_tx self (bulk_read net self rd op req) s"
  unfolding bulk_read_def Let_def
  by (intro guarded_keeps routed_keeps, assumption,
      rule request_keeps(2) [OF _ send_and_read_state sized_requests(2) [OF assms(1)]])
    (auto intro: request_prefix(2) [OF _ assms(2)])

lemma bulk_send_keeps:
  assumes "core_announces self" and "\<And>info. leading_info (req info) = Some info"
  shows "keeps_tx self (bulk_send net self op req) s"
  unfolding bulk_send_def Let_def
  by (intro guarded_keeps routed_keeps, assumption,
      rule request_keeps(2) [OF _ send_with_route_state sized_requests(2) [OF assms(1)]])
    (auto intro: request_prefix(2) [OF _ assms(2)])

lemma clear_keeps:
  assumes "core_tx self = None \<Longrightarrow> keeps_tx self (f ()) s"
  shows "keeps_tx self (abind (core_ensure_clear_allowed self op_name) f) s"
proof (cases "core_tx self")
  case None
  then have "abind (core_ensure_clear_allowed self op_name) f s = f () s" by (simp add: core_ensure_clear_allowed_def abind_def)
  with assms [OF None] show ?thesis using keeps_tx_cong by metis
next
  case (Some tx)
  then show ?thesis
    by (intro keeps_txI) (auto simp: core_ensure_clear_allowed_def ensure_clear_allowed_def ensure_cache_ops_allowed_def
        abind_def split: transaction_state.split)
qed

lemma plain_default_keeps:
  assumes "core_announces self" and "core_tx self = None" and "leading_info req = Some (cache_info_of self False)"
  shows "keeps_tx self (send_with_route net op (plain_write self req) (plain_size self req) route_default) s"
  by (rule request_keeps(1) [OF _ send_with_route_state sized_requests(2) [OF assms(1)]])
    (use assms in \<open>auto simp: usable_def allowed_route_def intro: request_prefix\<close>)

lemma put_keeps:
  assumes "core_announces self"
  shows "keeps_tx self (cache_put net aff self key val) s"
  unfolding cache_put_def Let_def
  by (intro guarded_keeps prepared_keeps, assumption, simp,
      rule request_keeps(2) [OF _ send_with_route_state sized_requests(1) [OF assms(1)]])
    (auto simp: leading_info_def intro: request_prefix)

lemma clear_key_keeps:
  assumes "core_announces self"
  shows "keeps_tx self (cache_clear_key net aff self key) s"
  unfolding cache_clear_key_def Let_def
  by (intro clear_keeps prepared_keeps, simp add: usable_def, simp,
      rule request_keeps(1) [OF _ send_with_route_state sized_requests(1) [OF assms(1)]])
    (auto simp: usable_def leading_info_def intro: request_prefix)

text \<open>Any operation on entries of a cache, its result forgotten.\<close>

definition void :: "(tx_session, 'a) act \<Rightarrow> (tx_session, unit) act" where
  "void m = abind m (\<lambda>_. aret ())"

inductive cache_op :: "transport \<Rightarrow> node_lookup \<Rightarrow> ('k, 'v) cache_core \<Rightarrow> (tx_session, unit) act \<Rightarrow> bool"
  for net aff self where
  "cache_op net aff self (void (cache_get net aff self key))"
| "cache_op net aff self (void (cache_get_all net self ks))"
| "cache_op net aff self (cache_put net aff self key val)"
| "cache_op net aff self (cache_put_all net self pairs)"
| "cache_op net aff self (void (cache_contains_key net aff self key))"
| "cache_op net aff self (void (cache_contains_keys net self ks))"
| "cache_op net aff self (void (cache_get_and_put net aff self key val))"
| "cache_op net aff self (void (cache_get_and_replace net aff self key val))"
| "cache_op net aff self (void (cache_get_and_remove net aff self key))"
| "cache_op net aff self (void (cache_put_if_absent net aff self key val))"
| "cache_op net aff self (void (cache_get_and_put_if_absent net aff self key val))"
| "cache_op net aff self (void (cache_replace net aff self key val))"
| "cache_op net aff self (void (cache_replace_if_equals net aff self key old new))"
| "cache_op net aff self (cache_clear net self)"
| "cache_op net aff self (cache_clear_key net aff self key)"
| "cache_op net aff self (cache_clear_keys net self ks)"
| "cache_op net aff self (void (cache_remove_key net aff self key))"
| "cache_op net aff self (void (cache_remove_if_equals net aff self key val))"
| "cache_op net aff self (void (cache_get_size net self))"
| "cache_op net aff self (void (cache_get_size_peek_mode net self mode))"
| "cache_op net aff self (void (cache_get_size_peek_modes net self modes))"
| "cache_op net aff self (cache_remove_keys net self ks)"
| "cache_op net aff self (cache_remove_all net self)"

lemma void_keeps: "keeps_tx self m s \<Longrightarrow> keeps_tx self (void m) s"
  by (auto simp: keeps_tx_def void_def abind_def split: prod.split result.split)

lemma cache_op_keeps:
  assumes "core_announces self" and "cache_op net aff self m"
  shows "keeps_tx self m s"
  using assms(2)
  by cases
    (simp_all add: cache_get_def cache_get_all_def cache_put_all_def cache_contains_key_def cache_contains_keys_def
      cache_get_and_put_def cache_get_and_replace_def cache_get_and_remove_def cache_put_if_absent_def
      cache_get_and_put_if_absent_def cache_replace_def cache_replace_if_equals_def cache_clear_def cache_clear_keys_def
      cache_remove_key_def cache_remove_if_equals_def cache_get_size_def cache_get_size_peek_mode_def
      cache_get_size_peek_modes_def cache_remove_keys_def cache_remove_all_def Let_def
      void_keeps key_read_keeps bulk_read_keeps bulk_send_keeps clear_keeps plain_default_keeps put_keeps clear_key_keeps leading_info_def assms(1))

section \<open>Get and put\<close>

definition key_route :: "node_lookup \<Rightarrow> ('k, 'v) cache_core \<Rightarrow> bytes \<Rightarrow> bool \<Rightarrow> request_route" where
  "key_route aff self kb primary = (case core_tx self of
      Some tx \<Rightarrow> route_pinned (inner_pinned_address tx)
    | None \<Rightarrow> (case aff (core_id self) kb primary of Some nid \<Rightarrow> route_preferred_node nid | None \<Rightarrow> route_default))"

lemma marshal_announced:
  assumes "announced wk sk" and "run (wk key) = Inr kb"
  shows "marshal_key wk sk key s = (Done kb, s)"
  using announced.size_written [OF assms, of registry_default] assms(2) by (simp add: marshal_key_def)

lemma prepare_announced:
  assumes "core_announces self" and "usable self s" and "run (core_wk self key) = Inr kb"
  shows "prepare_key_route aff self key primary s = (Done (kb, key_route aff self kb primary), s)"
  using marshal_announced [of "core_wk self" "core_sk self" key kb s] assms
  by (simp add: prepare_usable key_route_def core_announces_def)

lemma run_wthen_steady [simp]:
  "steady k \<Longrightarrow> run (wthen m k) = (case run m of Inl e \<Rightarrow> Inl e | Inr a \<Rightarrow> (case run k of Inl e \<Rightarrow> Inl e | Inr b \<Rightarrow> Inr (a @ b)))"
  using steady_fst [of k] by (auto simp: run_def wthen_def wbind_def wret_def split: sum.split prod.split) (metis fst_conv sum.distinct sum.inject)+

lemma get_payload: "run (prepared_write self (CrGet info kb)) = Inr (write_cache_info info @ kb)"
  by (simp add: prepared_write_def write_key_req_def steady_intros)

lemma put_payload:
  assumes "core_announces self" and "run (core_wv self val) = Inr vb"
  shows "run (prepared_write self (CrPut info kb val)) = Inr (write_cache_info info @ kb @ vb)"
proof -
  have "steady (core_wv self val)" using assms(1) by (simp add: core_announces_def announced_def)
  then show ?thesis using assms(2) by (simp add: prepared_write_def write_key_value_req_def steady_intros)
qed

lemma map_tx_err_calls: "calls (snd (map_tx_err self m s)) = calls (snd (m s))"
  by (auto simp: map_tx_err_def mark_lost_def split: prod.split result.split)

lemma map_tx_err_result:
  "(case fst (m s) of
      Failed _ \<Rightarrow> (\<exists>e. fst (map_tx_err self m s) = Failed e)
    | r \<Rightarrow> fst (map_tx_err self m s) = r)"
  by (auto simp: map_tx_err_def split: prod.split result.split)

text \<open>The answer of a call as its result.\<close>

lemma read_result_of:
  assumes "sized payload psize" and "run payload = Inr bs"
    and "call = (op, request_frame (op_code_i16 op) (next_correlation_id s) bs, route)"
  shows "fst (send_and_read_with_route net rd op payload psize route s) =
    (case net (calls s) call of
       Inl e \<Rightarrow> Failed (CError e)
     | Inr (Success, body, offset, _) \<Rightarrow> decoded (rd (drop offset body))
     | Inr (Failure status msg, _, _, _) \<Rightarrow> Failed (CError (from_server_status status msg)))"
  unfolding send_and_read_with_route_def abind_def perform_sized [OF assms(1,2)] assms(3)
  by (auto simp: Let_def split: sum.split flag.split prod.split)

lemma get_call:
  assumes "core_announces self" and "usable self s" and "run (core_wk self key) = Inr kb"
  shows "let call = (OpCacheGet, request_frame 1000 (next_correlation_id s) (write_cache_info (cache_info_of self False) @ kb),
        key_route aff self kb False)
    in calls (snd (cache_get net aff self key s)) = calls s @ [call] \<and>
       (case net (calls s) call of
          Inr (Success, body, offset, _) \<Rightarrow> (case core_rv self (drop offset body) of
              Ok v _ \<Rightarrow> fst (cache_get net aff self key s) = Done v
            | Err _ _ \<Rightarrow> (\<exists>e. fst (cache_get net aff self key s) = Failed e)
            | Panic \<Rightarrow> fst (cache_get net aff self key s) = Panicked
            | NoFuel \<Rightarrow> fst (cache_get net aff self key s) = Unfinished)
        | _ \<Rightarrow> (\<exists>e. fst (cache_get net aff self key s) = Failed e))"
proof -
  let ?req = "CrGet (cache_info_of self False) kb"
  let ?m = "send_and_read_with_route net (cache_data_object_read (core_rv self)) OpCacheGet (prepared_write self ?req)
      (prepared_size self ?req) (key_route aff self kb False)"
  note sized = sized_requests(1) [OF assms(1), of ?req]
  have get: "cache_get net aff self key s = map_tx_err self ?m s"
    using ensure_ops(1) [of self s] prepare_announced [OF assms] assms(2)
    by (simp add: cache_get_def key_read_def abind_def Let_def)
  have "calls (snd (?m s)) = calls s @ [(OpCacheGet, request_frame 1000 (next_correlation_id s)
      (write_cache_info (cache_info_of self False) @ kb), key_route aff self kb False)]"
    by (simp add: send_and_read_state perform_sized [OF sized get_payload] Let_def)
  moreover note read_result_of [OF sized get_payload refl, where net = net and rd = "cache_data_object_read (core_rv self)" and s = s and
      route = "key_route aff self kb False" and op = OpCacheGet]
    map_tx_err_result [where m = ?m and s = s and self = self]
  ultimately show ?thesis
    by (auto simp: get map_tx_err_calls Let_def decoded_def cache_data_object_read_def rbind_def
        split: sum.splits flag.splits prod.splits outcome.splits)
qed

lemma put_call:
  assumes "core_announces self" and "usable self s" and "run (core_wk self key) = Inr kb" and "run (core_wv self val) = Inr vb"
  shows "calls (snd (cache_put net aff self key val s)) =
    calls s @ [(OpCachePut, request_frame 1001 (next_correlation_id s) (write_cache_info (cache_info_of self False) @ kb @ vb),
      key_route aff self kb True)]"
proof -
  let ?req = "CrPut (cache_info_of self False) kb val"
  note sized = sized_requests(1) [OF assms(1), of ?req]
  have "cache_put net aff self key val s = map_tx_err self (send_with_route net OpCachePut (prepared_write self ?req)
      (prepared_size self ?req) (key_route aff self kb True)) s"
    using ensure_ops(1) [of self s] prepare_announced [OF assms(1-3)] assms(2) by (simp add: cache_put_def abind_def Let_def)
  then show ?thesis
    by (simp add: map_tx_err_calls send_with_route_state perform_sized [OF sized put_payload [OF assms(1,4)]] Let_def)
qed

section \<open>Properties\<close>

definition sample_core :: "transaction_inner option \<Rightarrow> (i32, rstring) cache_core" where
  "sample_core tx = \<lparr>core_id = 7, core_tx = tx, core_expiry_policy = None, core_lc = (\<lambda>s. s),
     core_wk = \<lambda>k. wr (write_type TcInt write_i32 k), core_sk = \<lambda>k. sret (size_type 4 k), core_rk = readable_read (read_type read_i32),
     core_wv = \<lambda>v. wr (string_write v), core_sv = \<lambda>v. sret (string_size v), core_rv = readable_read (read_type read_string)\<rparr>"

lemma sample_core_announces: "core_announces (sample_core tx)"
  by (simp add: core_announces_def sample_core_def announced_sized sized_wr w_i32.size_write w_string.size_write)



text \<open>Get and put on the wire. On a usable cache, a get sends one request with the marshaled key, a put one
  with the marshaled key and value, each with the cache info; the request goes to the address of the
  transaction or else to the node that the affinity lookup names for the marshaled key (any copy for a get,
  the primary for a put). A get returns what the value type reads in a successful answer.\<close>
theorem get_put_wire:
  assumes "core_announces self" and "core_tx self = None \<or> tx_state s = TxActive"
    and "run (core_wk self key) = Inr kb" and "run (core_wv self val) = Inr vb"
  shows "let info = write_cache_info (cache_info_of self False); corr = next_correlation_id s;
      route = (\<lambda>primary. case core_tx self of
          Some tx \<Rightarrow> route_pinned (inner_pinned_address tx)
        | None \<Rightarrow> (case aff (core_id self) kb primary of Some nid \<Rightarrow> route_preferred_node nid | None \<Rightarrow> route_default));
      get_call = (OpCacheGet, request_frame 1000 corr (info @ kb), route False);
      put_call = (OpCachePut, request_frame 1001 corr (info @ kb @ vb), route True)
    in calls (snd (cache_get net aff self key s)) = calls s @ [get_call] \<and>
       calls (snd (cache_put net aff self key val s)) = calls s @ [put_call] \<and>
       (case net (calls s) get_call of
          Inr (Success, body, offset, _) \<Rightarrow> (case core_rv self (drop offset body) of
              Ok v _ \<Rightarrow> fst (cache_get net aff self key s) = Done v
            | Err _ _ \<Rightarrow> (\<exists>e. fst (cache_get net aff self key s) = Failed e)
            | Panic \<Rightarrow> fst (cache_get net aff self key s) = Panicked
            | NoFuel \<Rightarrow> fst (cache_get net aff self key s) = Unfinished)
        | _ \<Rightarrow> (\<exists>e. fst (cache_get net aff self key s) = Failed e))"
  using get_call [where self = self and s = s and kb = kb and net = net and aff = aff]
    put_call [where self = self and s = s and kb = kb and val = val and net = net and aff = aff] assms
  by (simp add: Let_def usable_def key_route_def)

theorem get_put_wire_witness:
  "calls (snd (cache_get (\<lambda>_ _. Inr (Success, [101], 0, [])) (\<lambda>_ _ _. Some [110]) (sample_core None) 5 (tx_begin sample_session))) =
    [(OpCacheGet, request_frame 1000 1 (write_cache_info (cache_info_of (sample_core None) False) @ write_type TcInt write_i32 5),
      route_preferred_node [110])]"
  using get_put_wire [OF sample_core_announces, of None "tx_begin sample_session" 5 "write_type TcInt write_i32 5" "[97]"
      "string_write [97]" "\<lambda>_ _ _. Some [110]" "\<lambda>_ _. Inr (Success, [101], 0, [])"]
  by (simp add: sample_core_def Let_def tx_begin_def sample_session_def)

end
