(* ===== verification/Events.thy ===== *)
theory Events
  imports Wire
begin

text \<open>
  Client-side events, \<open>ignite-rs/src/events.rs\<close>: the subscriptions, the bounded history and what a
  subscriber receives. The broadcast channel of tokio hands every event to the receivers that exist;
  \<open>sent\<close> keeps the events handed to it, so that a receiver is the number of events sent before it.
\<close>

section \<open>Events\<close>

record event_subscriptions =
  sub_connection :: bool
  sub_request :: bool
  sub_lifecycle :: bool

definition subscriptions_all :: event_subscriptions where
  "subscriptions_all = \<lparr>sub_connection = True, sub_request = True, sub_lifecycle = True\<rparr>"

datatype connection_event_kind = ConnectAttempt | Connected | ConnectFailed | ConnClosed | ReconnectAttempt | Reconnected
datatype request_event_kind = ReqStarted | ReqSucceeded | ReqFailed | ReqRetried
datatype lifecycle_event_kind = LifeCreated | LifeFailed | LifeClosed

datatype client_event =
    ConnectionEvent connection_event_kind rstring "rstring option"
  | RequestEvent request_event_kind i16 i64 rstring "rstring option"
  | LifecycleEvent lifecycle_event_kind "rstring option"

definition EVENT_HISTORY_LIMIT :: nat where "EVENT_HISTORY_LIMIT = 256"

record event_bus =
  bus_history :: "client_event list"
  bus_subscriptions :: event_subscriptions
  sent :: "client_event list"

definition bus_new :: "event_subscriptions \<Rightarrow> event_bus" where
  "bus_new subs = \<lparr>bus_history = [], bus_subscriptions = subs, sent = []\<rparr>"

definition bus_record :: "client_event \<Rightarrow> event_bus \<Rightarrow> event_bus" where
  "bus_record ev bus =
    (let history = (if length (bus_history bus) = EVENT_HISTORY_LIMIT then drop 1 (bus_history bus) else bus_history bus)
     in bus\<lparr>bus_history := history @ [ev]\<rparr>)"

definition bus_send :: "client_event \<Rightarrow> event_bus \<Rightarrow> event_bus" where
  "bus_send ev bus = (bus_record ev bus)\<lparr>sent := sent bus @ [ev]\<rparr>"

definition emit_connection :: "connection_event_kind \<Rightarrow> rstring \<Rightarrow> rstring option \<Rightarrow> event_bus \<Rightarrow> event_bus" where
  "emit_connection kind address detail bus =
    (if \<not> sub_connection (bus_subscriptions bus) then bus else bus_send (ConnectionEvent kind address detail) bus)"

definition has_request_subscribers :: "event_bus \<Rightarrow> bool" where
  "has_request_subscribers bus = sub_request (bus_subscriptions bus)"

definition emit_request :: "request_event_kind \<Rightarrow> i16 \<Rightarrow> i64 \<Rightarrow> rstring \<Rightarrow> rstring option \<Rightarrow> event_bus \<Rightarrow> event_bus" where
  "emit_request kind op_code correlation_id address detail bus =
    (if \<not> sub_request (bus_subscriptions bus) then bus
     else bus_send (RequestEvent kind op_code correlation_id address detail) bus)"

definition emit_lifecycle :: "lifecycle_event_kind \<Rightarrow> rstring option \<Rightarrow> event_bus \<Rightarrow> event_bus" where
  "emit_lifecycle kind detail bus =
    (if \<not> sub_lifecycle (bus_subscriptions bus) then bus else bus_send (LifecycleEvent kind detail) bus)"

text \<open>A subscription made in the state \<open>bus\<close>, as the events it yields once \<open>later\<close> is the state: the history
  at the time of the subscription, then what was sent since. The relay of the replayed subscriptions
  keeps the order.\<close>

definition subscribe :: "event_bus \<Rightarrow> event_bus \<Rightarrow> client_event list" where
  "subscribe bus later = bus_history bus @ drop (length (sent bus)) (sent later)"

section \<open>Reachable states\<close>

inductive bus_step :: "event_bus \<Rightarrow> event_bus \<Rightarrow> bool" where
  connection: "bus_step bus (emit_connection kind address detail bus)"
| request: "bus_step bus (emit_request rkind op_code corr address detail bus)"
| lifecycle: "bus_step bus (emit_lifecycle lkind detail bus)"

inductive_cases bus_stepE: "bus_step bus bus'"

fun subscribed :: "event_subscriptions \<Rightarrow> client_event \<Rightarrow> bool" where
  "subscribed subs (ConnectionEvent _ _ _) = sub_connection subs"
| "subscribed subs (RequestEvent _ _ _ _ _) = sub_request subs"
| "subscribed subs (LifecycleEvent _ _) = sub_lifecycle subs"

definition last_n :: "nat \<Rightarrow> 'a list \<Rightarrow> 'a list" where
  "last_n n xs = drop (length xs - n) xs"

definition bus_ok :: "event_bus \<Rightarrow> bool" where
  "bus_ok bus \<longleftrightarrow> bus_history bus = last_n EVENT_HISTORY_LIMIT (sent bus) \<and>
    list_all (subscribed (bus_subscriptions bus)) (sent bus)"

lemma bus_step_send: "bus_step bus bus' \<Longrightarrow> bus' = bus \<or> (\<exists>ev. subscribed (bus_subscriptions bus) ev \<and> bus' = bus_send ev bus)"
  by (elim bus_stepE; simp add: emit_connection_def emit_request_def emit_lifecycle_def; metis subscribed.simps)

lemma bus_ok_new: "bus_ok (bus_new subs)"
  by (simp add: bus_ok_def bus_new_def last_n_def)

lemma length_last_n [simp]: "length (last_n n xs) = min n (length xs)"
  by (simp add: last_n_def min_def)

lemma last_n_snoc:
  "0 < n \<Longrightarrow> last_n n (xs @ [x]) = (if n \<le> length xs then drop 1 (last_n n xs) else last_n n xs) @ [x]"
  by (simp add: last_n_def Suc_diff_le)

lemma bus_ok_send: "bus_ok bus \<Longrightarrow> subscribed (bus_subscriptions bus) ev \<Longrightarrow> bus_ok (bus_send ev bus)"
  by (simp add: bus_ok_def bus_send_def bus_record_def last_n_snoc EVENT_HISTORY_LIMIT_def Let_def min_def)

lemma bus_ok_step: "bus_step bus bus' \<Longrightarrow> bus_ok bus \<Longrightarrow> bus_ok bus'"
  using bus_step_send bus_ok_send by blast

lemma bus_sent_grows: "bus_step\<^sup>*\<^sup>* bus bus' \<Longrightarrow>
  \<exists>evs. sent bus' = sent bus @ evs \<and> bus_subscriptions bus' = bus_subscriptions bus"
proof (induction rule: rtranclp_induct)
  case base
  then show ?case by simp
next
  case (step b b')
  then show ?case using bus_step_send [OF step.hyps(2)] by (auto simp: bus_send_def bus_record_def Let_def)
qed

lemma bus_ok_steps: "bus_step\<^sup>*\<^sup>* bus bus' \<Longrightarrow> bus_ok bus \<Longrightarrow> bus_ok bus'"
  by (induction rule: rtranclp_induct) (auto intro: bus_ok_step)

text \<open>Events. Only events of the subscribed kinds are sent; a subscriber gets, in order and without a gap,
  the last 256 events sent before it subscribed (all of them if there were fewer) and every event
  after.\<close>
theorem events_replayed:
  assumes "bus_step\<^sup>*\<^sup>* (bus_new subs) bus" and "bus_step\<^sup>*\<^sup>* bus later"
  shows "list_all (subscribed subs) (sent later) \<and>
    (\<exists>before. sent later = before @ subscribe bus later \<and> length (sent bus) = length before + min 256 (length (sent bus)))"
proof -
  have ok: "bus_ok bus" "bus_ok later"
    using bus_ok_steps [OF assms(1) bus_ok_new] bus_ok_steps [OF assms(2)] by auto
  have subs: "bus_subscriptions later = subs"
    using bus_sent_grows [OF assms(1)] bus_sent_grows [OF assms(2)] by (auto simp: bus_new_def)
  obtain evs where evs: "sent later = sent bus @ evs" using bus_sent_grows [OF assms(2)] by auto
  have "sent later = take (length (sent bus) - 256) (sent bus) @ subscribe bus later"
    using ok(1) evs by (simp add: subscribe_def bus_ok_def last_n_def EVENT_HISTORY_LIMIT_def)
  then show ?thesis using ok(2) subs by (auto simp: bus_ok_def min_def intro!: exI [of _ "take (length (sent bus) - 256) (sent bus)"])
qed

theorem events_replayed_witness:
  "subscribe (emit_lifecycle LifeCreated None (bus_new subscriptions_all))
     (emit_connection ConnClosed [97] None (emit_lifecycle LifeCreated None (bus_new subscriptions_all))) =
   [LifecycleEvent LifeCreated None, ConnectionEvent ConnClosed [97] None] \<and>
   (\<exists>before. sent (emit_connection ConnClosed [97] None (emit_lifecycle LifeCreated None (bus_new subscriptions_all))) =
     before @ [LifecycleEvent LifeCreated None, ConnectionEvent ConnClosed [97] None])"
proof -
  let ?b = "emit_lifecycle LifeCreated None (bus_new subscriptions_all)"
  let ?l = "emit_connection ConnClosed [97] None ?b"
  have "bus_step\<^sup>*\<^sup>* (bus_new subscriptions_all) ?b" "bus_step\<^sup>*\<^sup>* ?b ?l"
    by (blast intro: bus_step.intros)+
  from events_replayed [OF this] obtain before where "sent ?l = before @ subscribe ?b ?l" by blast
  moreover have "subscribe ?b ?l = [LifecycleEvent LifeCreated None, ConnectionEvent ConnClosed [97] None]"
    by (simp add: subscribe_def emit_lifecycle_def emit_connection_def bus_new_def subscriptions_all_def bus_send_def
        bus_record_def EVENT_HISTORY_LIMIT_def)
  ultimately show ?thesis by metis
qed

end
