(* ===== verification/Addresses.thy ===== *)
theory Addresses
  imports RoundTrip CacheConfig Events
begin

text \<open>
  Addresses: the address specifications of \<open>ClientConfig\<close> and its validation (\<open>ignite-rs/src/lib.rs\<close>), the
  ports of endpoints, the endpoints a cluster announces and their decoding (\<open>ignite-rs/src/transport.rs\<close>).
  A failure is the message of the \<open>IgniteError\<close>.
\<close>

section \<open>Address specifications\<close>

definition DEFAULT_THIN_CLIENT_PORT :: nat where "DEFAULT_THIN_CLIENT_PORT = 10800"
definition DEFAULT_THIN_CLIENT_PORT_RANGE :: nat where "DEFAULT_THIN_CLIENT_PORT_RANGE = 100"

definition failed :: "string \<Rightarrow> rstring \<Rightarrow> ignite_error" where
  "failed prefix detail = err_new (rstr prefix @ detail)"

definition split_host_and_port_spec :: "rstring \<Rightarrow> ignite_error + rstring \<times> rstring option" where
  "split_host_and_port_spec spec = (case strip_prefix 91 spec of
      Some rest \<Rightarrow> (case split_at_char 93 rest of
          None \<Rightarrow> Inl (failed ''Invalid bracketed address: '' spec)
        | Some (host, tail) \<Rightarrow>
            (if tail = [] then Inr (host, None)
             else case strip_prefix 58 tail of
               Some port_spec \<Rightarrow> Inr (host, Some port_spec)
             | None \<Rightarrow> Inl (failed ''Invalid bracketed address: '' spec)))
    | None \<Rightarrow>
        (let colon_count = length (filter (\<lambda>c. c = 58) spec)
         in if colon_count = 0 then Inr (spec, None)
            else if 1 < colon_count then Inl (failed ''IPv6 addresses must be bracketed: '' spec)
            else case rsplit_once 58 spec of
              None \<Rightarrow> Inl (failed ''Invalid address: '' spec)
            | Some (host, port_spec) \<Rightarrow>
                (if trim host = [] then Inl (failed ''Invalid address: '' spec)
                 else Inr (host, Some port_spec))))"

definition parse_port :: "rstring \<Rightarrow> ignite_error + u16" where
  "parse_port port_spec = (case parse_u16 port_spec of Some p \<Rightarrow> Inr p | None \<Rightarrow> Inl (failed ''Invalid port: '' port_spec))"

definition port_range :: "nat \<Rightarrow> nat \<Rightarrow> u16 list" where
  "port_range a b = map word_of_nat [a..<Suc b]"

definition parse_ports :: "rstring option \<Rightarrow> ignite_error + u16 list" where
  "parse_ports port_spec = (case port_spec of
      None \<Rightarrow> Inr (port_range DEFAULT_THIN_CLIENT_PORT (DEFAULT_THIN_CLIENT_PORT + DEFAULT_THIN_CLIENT_PORT_RANGE))
    | Some spec \<Rightarrow> (case split_dots spec of
          Some (a, b) \<Rightarrow> (case parse_port a of
              Inl e \<Rightarrow> Inl e
            | Inr start \<Rightarrow> (case parse_port b of
                Inl e \<Rightarrow> Inl e
              | Inr stop \<Rightarrow> (if unat stop < unat start then Inl (failed ''Invalid port range: '' spec)
                              else Inr (port_range (unat start) (unat stop)))))
        | None \<Rightarrow> (case parse_port spec of Inl e \<Rightarrow> Inl e | Inr p \<Rightarrow> Inr [p])))"

definition format_endpoint :: "rstring \<Rightarrow> u16 \<Rightarrow> rstring" where
  "format_endpoint host port =
    (if 58 \<in> set host then [91] @ host @ [93, 58] @ fmt_nat (unat port) else host @ [58] @ fmt_nat (unat port))"

definition parse_address_spec :: "rstring \<Rightarrow> ignite_error + rstring list" where
  "parse_address_spec spec0 = (let spec = trim spec0
     in if spec = [] then Inl (failed ''At least one non-empty address expected'' [])
        else case split_host_and_port_spec spec of
          Inl e \<Rightarrow> Inl e
        | Inr (host, port_spec) \<Rightarrow> (case parse_ports port_spec of
            Inl e \<Rightarrow> Inl e
          | Inr ports \<Rightarrow> Inr (map (format_endpoint host) ports)))"

section \<open>Configuration\<close>

record reconnect_throttle =
  rt_window :: duration
  rt_max_attempts :: nat

text \<open>The fields of \<open>ClientConfig\<close> that validation and the channel manager read (the options of the socket and
  the pauses between attempts are left out); \<open>cf_resolver\<close> is what the address resolver returns when it is
  asked.\<close>

record client_config =
  cf_addresses :: "rstring list"
  cf_resolver :: "rstring list option"
  cf_username :: "rstring option"
  cf_password :: "rstring option"
  cf_user_attributes :: "(rstring \<times> rstring) list"
  cf_handshake_timeout :: "duration option"
  cf_request_timeout :: "duration option"
  cf_heartbeat_enabled :: bool
  cf_heartbeat_interval :: "duration option"
  cf_partition_awareness_enabled :: bool
  cf_retry_policy :: retry_policy
  cf_retry_limit :: nat
  cf_reconnect_throttle :: "reconnect_throttle option"
  cf_event_subscriptions :: event_subscriptions
  cf_connection_pool_size :: nat

definition from_addresses :: "rstring list \<Rightarrow> client_config" where
  "from_addresses addresses = \<lparr>cf_addresses = addresses, cf_resolver = None, cf_username = None, cf_password = None,
     cf_user_attributes = [], cf_handshake_timeout = None, cf_request_timeout = None, cf_heartbeat_enabled = False, cf_heartbeat_interval = None,
     cf_partition_awareness_enabled = True, cf_retry_policy = RpDefault, cf_retry_limit = 1, cf_reconnect_throttle = None,
     cf_event_subscriptions = \<lparr>sub_connection = False, sub_request = False, sub_lifecycle = False\<rparr>, cf_connection_pool_size = 1\<rparr>"

definition with_connection_pool_size :: "client_config \<Rightarrow> nat \<Rightarrow> client_config" where
  "with_connection_pool_size self n = self\<lparr>cf_connection_pool_size := max n 1\<rparr>"

definition resolved_addresses :: "client_config \<Rightarrow> ignite_error + rstring list" where
  "resolved_addresses self =
    (let addresses = (case cf_resolver self of Some found \<Rightarrow> found | None \<Rightarrow> cf_addresses self)
     in if list_ex (\<lambda>a. trim a = []) addresses then Inl (failed ''At least one non-empty address expected'' [])
        else Inr addresses)"

fun parse_all :: "rstring list \<Rightarrow> ignite_error + rstring list" where
  "parse_all [] = Inr []"
| "parse_all (a # as) = (case parse_address_spec a of
      Inl e \<Rightarrow> Inl e
    | Inr eps \<Rightarrow> (case parse_all as of Inl e \<Rightarrow> Inl e | Inr rest \<Rightarrow> Inr (eps @ rest)))"

definition normalized_addresses :: "client_config \<Rightarrow> ignite_error + rstring list" where
  "normalized_addresses self = (case resolved_addresses self of Inl e \<Rightarrow> Inl e | Inr addresses \<Rightarrow> parse_all addresses)"

definition zero_timeout :: "duration option \<Rightarrow> bool" where
  "zero_timeout t = (case t of Some d \<Rightarrow> d = 0 | None \<Rightarrow> False)"

definition validate :: "client_config \<Rightarrow> ignite_error + unit" where
  "validate self =
    (if cf_username self = None \<and> cf_password self \<noteq> None then Inl (failed ''Username expected when password is configured!'' [])
     else if zero_timeout (cf_handshake_timeout self) then Inl (failed ''handshake_timeout cannot be zero'' [])
     else if zero_timeout (cf_request_timeout self) then Inl (failed ''request_timeout cannot be zero'' [])
     else if zero_timeout (cf_heartbeat_interval self) then Inl (failed ''heartbeat_interval cannot be zero'' [])
     else if zero_timeout (map_option rt_window (cf_reconnect_throttle self))
       then Inl (failed ''reconnect_throttle.window cannot be zero'' [])
     else if cf_resolver self = None
       then (case normalized_addresses self of
           Inl e \<Rightarrow> Inl e
         | Inr normalized \<Rightarrow> (if normalized = [] then Inl (failed ''At least one address expected'' []) else Inr ()))
     else Inr ())"

section \<open>Ports of endpoints\<close>

definition endpoint_port :: "rstring \<Rightarrow> u16 option" where
  "endpoint_port address = (case strip_prefix 91 address of
      Some host \<Rightarrow> Option.bind (split_at_char 93 host) (\<lambda>(_, tail). Option.bind (strip_prefix 58 tail) parse_u16)
    | None \<Rightarrow> Option.bind (rsplit_once 58 address) (\<lambda>(_, port). parse_u16 port))"

text \<open>One turn of the loop of \<open>lowest_port_indices\<close>.\<close>

definition lowest_step :: "nat \<times> rstring \<Rightarrow> u16 option \<times> nat list \<Rightarrow> u16 option \<times> nat list" where
  "lowest_step ia acc = (case endpoint_port (snd ia) of
      None \<Rightarrow> acc
    | Some port \<Rightarrow> (case acc of
        (None, indices) \<Rightarrow> (Some port, indices @ [fst ia])
      | (Some current_min, indices) \<Rightarrow>
          (if port < current_min then (Some port, [fst ia])
           else if port = current_min then (Some current_min, indices @ [fst ia])
           else (Some current_min, indices))))"

definition lowest_port_indices :: "rstring list \<Rightarrow> nat list" where
  "lowest_port_indices addresses = snd (fold lowest_step (enumerate 0 addresses) (None, []))"

text \<open>\<open>initial_start_index\<close>; \<open>cursor\<close> is the value of the process-wide counter.\<close>

definition initial_start_index :: "nat \<Rightarrow> rstring list \<Rightarrow> nat" where
  "initial_start_index cursor addresses =
    (let candidates = lowest_port_indices addresses
     in if candidates = [] then 0 else candidates ! (cursor mod length candidates))"

section \<open>Facts\<close>

definition plain_host :: "rstring \<Rightarrow> bool" where
  "plain_host h \<longleftrightarrow> h \<noteq> [] \<and> 58 \<notin> set h \<and> hd h \<noteq> 91 \<and> \<not> is_whitespace (hd h) \<and> \<not> is_whitespace (last h)"

definition v6_host :: "rstring \<Rightarrow> bool" where
  "v6_host h \<longleftrightarrow> 58 \<in> set h \<and> 93 \<notin> set h"

lemma trim_id: "s \<noteq> [] \<Longrightarrow> \<not> is_whitespace (hd s) \<Longrightarrow> \<not> is_whitespace (last s) \<Longrightarrow> trim s = s"
  by (cases s) (auto simp: trim_def hd_rev [symmetric] dropWhile_eq_self_iff simp del: hd_rev)

lemma digit_space: "is_digit c \<Longrightarrow> \<not> is_whitespace c"
  by (auto simp: is_digit_def is_whitespace_def)

lemma last_fmt_nat: "is_digit (last (fmt_nat n))"
  by (rule fmt_nat_chars [of _ n]) simp

lemma colon_not_digit: "58 \<notin> set (fmt_nat n)" "46 \<notin> set (fmt_nat n)"
  using fmt_nat_chars digit_not by blast+

lemma split_plain: "plain_host h \<Longrightarrow> split_host_and_port_spec h = Inr (h, None)"
  by (cases h) (auto simp: split_host_and_port_spec_def plain_host_def strip_prefix_def Let_def filter_empty_conv)

lemma split_plain_port:
  assumes "plain_host h" and "58 \<notin> set ps"
  shows "split_host_and_port_spec (h @ 58 # ps) = Inr (h, Some ps)"
proof -
  have "trim h \<noteq> []" using assms(1) trim_id [of h] by (auto simp: plain_host_def)
  moreover have "filter (\<lambda>c. c = 58) h = []" "filter (\<lambda>c. c = 58) ps = []"
    using assms by (auto simp: plain_host_def filter_empty_conv)
  moreover have "strip_prefix 91 (h @ 58 # ps) = None"
    using assms(1) by (cases h) (auto simp: strip_prefix_def plain_host_def)
  ultimately show ?thesis
    by (simp add: split_host_and_port_spec_def rsplit_once_last [OF assms(2)] Let_def)
qed

lemma split_bracketed:
  "93 \<notin> set h \<Longrightarrow> split_host_and_port_spec (91 # h @ [93, 58] @ ps) = Inr (h, Some ps)"
  by (simp add: split_host_and_port_spec_def strip_prefix_def split_at_char_first)

lemma parse_port_fmt [simp]: "parse_port (fmt_nat (unat p)) = Inr p"
  by (simp add: parse_port_def parse_u16_fmt)

lemma split_dots_none: "46 \<notin> set s \<Longrightarrow> split_dots s = None"
  by (induction s rule: split_dots.induct) auto

lemma parse_ports_one: "parse_ports (Some (fmt_nat (unat p))) = Inr [p]"
  by (simp add: parse_ports_def split_dots_none colon_not_digit)

lemma parse_ports_range:
  fixes a b :: u16
  shows "parse_ports (Some (fmt_nat (unat a) @ [46, 46] @ fmt_nat (unat b))) =
    (if unat b < unat a then Inl (failed ''Invalid port range: '' (fmt_nat (unat a) @ [46, 46] @ fmt_nat (unat b)))
     else Inr (port_range (unat a) (unat b)))"
  by (simp add: parse_ports_def split_dots_first colon_not_digit)

lemma spec_trimmed:
  assumes "plain_host h" and "ps \<noteq> []" and "is_digit (last ps)"
  shows "trim (h @ 58 # ps) = h @ 58 # ps"
  by (rule trim_id) (use assms in \<open>auto simp: plain_host_def digit_space\<close>)

lemma bracket_trimmed:
  assumes "ps \<noteq> []" and "is_digit (last ps)"
  shows "trim (91 # h @ [93, 58] @ ps) = 91 # h @ [93, 58] @ ps"
proof (rule trim_id)
  show "\<not> is_whitespace (hd (91 # h @ [93, 58] @ ps))" by (simp add: is_whitespace_def)
qed (use assms in \<open>simp_all add: digit_space\<close>)

lemma endpoint_port_format:
  assumes "plain_host h \<or> v6_host h"
  shows "endpoint_port (format_endpoint h p) = Some p"
proof (cases "58 \<in> set h")
  case True
  then have "93 \<notin> set h" using assms by (auto simp: plain_host_def v6_host_def)
  then show ?thesis
    using True by (simp add: endpoint_port_def format_endpoint_def strip_prefix_def split_at_char_first parse_u16_fmt)
next
  case False
  then have "strip_prefix 91 (h @ 58 # fmt_nat (unat p)) = None"
    using assms by (cases h) (auto simp: strip_prefix_def plain_host_def v6_host_def)
  then show ?thesis
    using False by (simp add: endpoint_port_def format_endpoint_def rsplit_once_last colon_not_digit parse_u16_fmt)
qed

text \<open>The indices of the lowest port.\<close>

lemma lowest_state:
  assumes "fold lowest_step (enumerate 0 as) (None, []) = (m, is)"
  shows "(m = None \<longleftrightarrow> (\<forall>a \<in> set as. endpoint_port a = None)) \<and>
    (\<forall>q. m = Some q \<longrightarrow> (\<forall>a \<in> set as. \<forall>p. endpoint_port a = Some p \<longrightarrow> q \<le> p)) \<and>
    is = (if m = None then [] else filter (\<lambda>i. endpoint_port (as ! i) = m) [0..<length as]) \<and> (m \<noteq> None \<longrightarrow> is \<noteq> [])"
  using assms
proof (induction as arbitrary: m "is" rule: rev_induct)
  case Nil
  then show ?case by simp
next
  case (snoc a as)
  obtain m0 is0 where st: "fold lowest_step (enumerate 0 as) (None, []) = (m0, is0)" by fastforce
  note IH = snoc.IH [OF st]
  have step: "(m, is) = lowest_step (length as, a) (m0, is0)"
    using snoc.prems st by (simp add: enumerate_append_eq)
  have old: "filter (\<lambda>i. endpoint_port ((as @ [a]) ! i) = x) [0..<length as] = filter (\<lambda>i. endpoint_port (as ! i) = x) [0..<length as]" for x
    by (rule filter_cong) (auto simp: nth_append)
  show ?case
  proof (cases "endpoint_port a")
    case None
    then show ?thesis using IH step by (auto simp: lowest_step_def old)
  next
    case (Some port)
    show ?thesis
    proof (cases m0)
      case m0: None
      then have "filter (\<lambda>i. endpoint_port (as ! i) = Some port) [0..<length as] = []"
        using IH by (auto simp: filter_empty_conv)
      with m0 Some IH step show ?thesis by (auto simp: lowest_step_def old)
    next
      case m0: (Some q)
      then have "filter (\<lambda>i. endpoint_port (as ! i) = Some port) [0..<length as] = []" if "port < q"
        using IH that by (fastforce simp: filter_empty_conv)
      with m0 Some IH step show ?thesis
        by (cases "port < q"; cases "port = q") (auto simp: lowest_step_def old intro: order_trans less_imp_le)
    qed
  qed
qed

lemma start_index_lowest:
  assumes "a \<in> set as" and "endpoint_port a = Some p"
  shows "initial_start_index cursor as < length as \<and>
    (\<exists>q. endpoint_port (as ! initial_start_index cursor as) = Some q \<and> (\<forall>b \<in> set as. \<forall>r. endpoint_port b = Some r \<longrightarrow> q \<le> r))"
proof -
  obtain m "is" where st: "fold lowest_step (enumerate 0 as) (None, []) = (m, is)" by fastforce
  note low = lowest_state [OF st]
  from low assms obtain q where m: "m = Some q" by (metis not_None_eq)
  then have "is \<noteq> []" using low by blast
  then have "is ! (cursor mod length is) \<in> set is" by simp
  moreover have "initial_start_index cursor as = is ! (cursor mod length is)"
    using \<open>is \<noteq> []\<close> st by (simp add: initial_start_index_def lowest_port_indices_def Let_def)
  ultimately show ?thesis using low m by auto
qed

section \<open>Properties\<close>

text \<open>Address specifications. A host stands for the 101 ports from 10800; a host with a port or a range of
  ports for these, in order, and a reversed range is refused; an IPv6 host needs brackets and its
  endpoints get them. The port of every endpoint is the one it was made with. A configuration that
  validates without a resolver has at least one endpoint. The first connection is tried at an endpoint of
  the lowest port, whatever the counter says.\<close>
theorem address_endpoints:
  fixes p a b :: u16
  assumes "plain_host h" and "v6_host v"
  shows "parse_address_spec h = Inr (map (format_endpoint h) (port_range 10800 10900)) \<and>
    parse_address_spec (h @ [58] @ fmt_nat (unat p)) = Inr [format_endpoint h p] \<and>
    parse_address_spec ([91] @ v @ [93, 58] @ fmt_nat (unat p)) = Inr [[91] @ v @ [93, 58] @ fmt_nat (unat p)] \<and>
    parse_address_spec (h @ [58] @ fmt_nat (unat a) @ [46, 46] @ fmt_nat (unat b)) =
      (if a \<le> b then Inr (map (format_endpoint h) (port_range (unat a) (unat b)))
       else Inl (failed ''Invalid port range: '' (fmt_nat (unat a) @ [46, 46] @ fmt_nat (unat b)))) \<and>
    endpoint_port (format_endpoint h p) = Some p \<and> endpoint_port (format_endpoint v p) = Some p \<and>
    (validate conf = Inr () \<and> cf_resolver conf = None \<longrightarrow> (\<exists>e es. normalized_addresses conf = Inr (e # es))) \<and>
    (e \<in> set es \<and> endpoint_port e = Some q \<longrightarrow>
      (\<exists>r. endpoint_port (es ! initial_start_index cursor es) = Some r \<and> r \<le> q \<and> initial_start_index cursor es < length es))"
proof (intro conjI impI)
  have h: "h \<noteq> []" "trim h = h" using assms(1) by (auto simp: plain_host_def intro: trim_id)
  show "parse_address_spec h = Inr (map (format_endpoint h) (port_range 10800 10900))"
    using h split_plain [OF assms(1)]
    by (simp add: parse_address_spec_def parse_ports_def DEFAULT_THIN_CLIENT_PORT_def DEFAULT_THIN_CLIENT_PORT_RANGE_def Let_def)
  show "parse_address_spec (h @ [58] @ fmt_nat (unat p)) = Inr [format_endpoint h p]"
    using spec_trimmed [OF assms(1), of "fmt_nat (unat p)"] split_plain_port [OF assms(1) colon_not_digit(1)]
    by (simp add: parse_address_spec_def parse_ports_one last_fmt_nat Let_def)
  show "parse_address_spec ([91] @ v @ [93, 58] @ fmt_nat (unat p)) = Inr [[91] @ v @ [93, 58] @ fmt_nat (unat p)]"
    using bracket_trimmed [of "fmt_nat (unat p)" v] split_bracketed [of v "fmt_nat (unat p)"] assms(2)
    by (simp add: parse_address_spec_def parse_ports_one last_fmt_nat Let_def v6_host_def format_endpoint_def)
  show "parse_address_spec (h @ [58] @ fmt_nat (unat a) @ [46, 46] @ fmt_nat (unat b)) =
      (if a \<le> b then Inr (map (format_endpoint h) (port_range (unat a) (unat b)))
       else Inl (failed ''Invalid port range: '' (fmt_nat (unat a) @ [46, 46] @ fmt_nat (unat b))))"
    using spec_trimmed [OF assms(1), of "fmt_nat (unat a) @ [46, 46] @ fmt_nat (unat b)"] parse_ports_range [of a b]
      split_plain_port [OF assms(1), of "fmt_nat (unat a) @ [46, 46] @ fmt_nat (unat b)"]
    by (auto simp: parse_address_spec_def last_fmt_nat Let_def colon_not_digit word_le_nat_alt not_le)
  show "endpoint_port (format_endpoint h p) = Some p" "endpoint_port (format_endpoint v p) = Some p"
    using assms by (simp_all add: endpoint_port_format)
  show "\<exists>e es. normalized_addresses conf = Inr (e # es)" if "validate conf = Inr () \<and> cf_resolver conf = None"
    using that by (auto simp: validate_def neq_Nil_conv split: if_splits sum.splits)
  show "\<exists>r. endpoint_port (es ! initial_start_index cursor es) = Some r \<and> r \<le> q \<and> initial_start_index cursor es < length es"
    if "e \<in> set es \<and> endpoint_port e = Some q"
    using start_index_lowest [of e es q cursor] that by blast
qed

theorem address_endpoints_witness:
  "parse_address_spec (rstr ''db:10800..10801'') = Inr [rstr ''db:10800'', rstr ''db:10801'']"
proof -
  have f: "fmt_nat (unat (10800 :: u16)) = rstr ''10800''" "fmt_nat (unat (10801 :: u16)) = rstr ''10801''"
    by (simp_all add: fmt_nat.simps rstr_def)
  have "plain_host (rstr ''db'')" "v6_host (rstr ''::1'')"
    by (simp_all add: plain_host_def v6_host_def rstr_def is_whitespace_def)
  from address_endpoints [OF this, of 0 10800 10801]
  have "parse_address_spec (rstr ''db'' @ [58] @ rstr ''10800'' @ [46, 46] @ rstr ''10801'') =
      Inr (map (format_endpoint (rstr ''db'')) (port_range 10800 10801))"
    unfolding f by simp
  moreover have "map (format_endpoint (rstr ''db'')) (port_range 10800 10801) = [rstr ''db:10800'', rstr ''db:10801'']"
    using f by (simp add: port_range_def format_endpoint_def rstr_def upt_conv_Cons)
  ultimately show ?thesis by (simp add: rstr_def)
qed

end
