(* ===== verification/Manager.thy ===== *)
theory Manager
  imports Addresses Exec Affinity Events
begin

text \<open>
  The channel manager, \<open>ChannelManager\<close> of \<open>ignite-rs/src/transport.rs\<close>: the pool of channels with the
  indices that requests read without a lock, the choice of a channel, connecting and reconnecting, and
  the topology the cluster announces.

  A channel is a number, given in the order of the connections; \<open>mg_info\<close> keeps its address and what the
  handshake found. What the outside does is the argument \<open>w\<close>: the outcome of \<open>Channel::connect\<close> and of
  \<open>Channel::request\<close>, which channels still work, and the order in which a \<open>HashMap\<close> is iterated. It may be
  different every time: \<open>mg_clock\<close> counts the connections and requests made. The operations run one after the
  other, which is what the guards of the code (\<open>reconnect_guard\<close>, \<open>channel_connect_guard\<close>,
  \<open>discovery_refresh_guard\<close>) are for. Keys and correlation ids are counted without a bound where they are
  only used as names.
\<close>

section \<open>State\<close>

record mchannel =
  mc_address :: rstring
  mc_metadata :: connection_metadata

type_synonym channel_pool = "(rstring \<times> nat) list"
type_synonym address_index = "rstring \<rightharpoonup> nat list"

record mworld =
  mw_connect :: "nat \<Rightarrow> rstring \<Rightarrow> ignite_error + connection_metadata"
  mw_request :: "nat \<Rightarrow> nat \<Rightarrow> bytes \<Rightarrow> ignite_error + response_frame"
  mw_works :: "nat \<Rightarrow> nat \<Rightarrow> bool"
  mw_order :: "nat \<Rightarrow> channel_pool \<Rightarrow> channel_pool"
  mw_show :: "rerror \<Rightarrow> rstring"
  mw_show_duration :: "duration \<Rightarrow> rstring"

record manager =
  mg_count :: nat
  mg_info :: "nat \<Rightarrow> mchannel"
  mg_closed :: "nat list"
  mg_clock :: nat
  mg_channels :: channel_pool
  mg_channels_by_address :: address_index
  mg_default_candidates :: "nat list"
  mg_node_channels :: "rstring \<rightharpoonup> nat"
  mg_active :: nat
  mg_cached_active :: nat
  mg_topology :: topology_cache
  mg_affinity :: affinity_cache
  mg_event_bus :: event_bus
  mg_next_correlation_id :: i64
  mg_next_channel_key :: nat
  mg_next_default_channel_index :: u64
  mg_reconnect_attempts :: "nat list"

definition address_of :: "manager \<Rightarrow> nat \<Rightarrow> rstring" where
  "address_of m c = mc_address (mg_info m c)"

definition node_id_of :: "manager \<Rightarrow> nat \<Rightarrow> rstring option" where
  "node_id_of m c = server_node_id (mc_metadata (mg_info m c))"

definition caps_of :: "manager \<Rightarrow> nat \<Rightarrow> connection_capabilities" where
  "caps_of m c = capabilities (mc_metadata (mg_info m c))"

definition channel_available :: "mworld \<Rightarrow> manager \<Rightarrow> nat \<Rightarrow> bool" where
  "channel_available w m c \<longleftrightarrow> c \<notin> set (mg_closed m) \<and> mw_works w (mg_clock m) c"

definition pool_values :: "mworld \<Rightarrow> manager \<Rightarrow> nat list" where
  "pool_values w m = map snd (mw_order w (mg_clock m) (mg_channels m))"

definition emit_conn :: "connection_event_kind \<Rightarrow> rstring \<Rightarrow> rstring option \<Rightarrow> manager \<Rightarrow> manager" where
  "emit_conn kind address detail m = m\<lparr>mg_event_bus := emit_connection kind address detail (mg_event_bus m)\<rparr>"

section \<open>Indices\<close>

definition group_of :: "address_index \<Rightarrow> rstring \<Rightarrow> nat list" where
  "group_of by_address address = (case by_address address of None \<Rightarrow> [] | Some grp \<Rightarrow> grp)"

definition build_channels_by_address :: "manager \<Rightarrow> nat list \<Rightarrow> address_index" where
  "build_channels_by_address m channels =
    fold (\<lambda>c by_address. by_address(address_of m c \<mapsto> group_of by_address (address_of m c) @ [c])) channels Map.empty"

definition build_default_candidates :: "address_index \<Rightarrow> rstring list \<Rightarrow> nat list" where
  "build_default_candidates by_address eps = fold push_unique (concat (map (group_of by_address) eps)) []"

definition store_channels_by_address :: "mworld \<Rightarrow> manager \<Rightarrow> manager" where
  "store_channels_by_address w m =
    (let indexed = build_channels_by_address m (pool_values w m)
     in m\<lparr>mg_channels_by_address := indexed,
          mg_default_candidates := build_default_candidates indexed (cached_endpoints (mg_topology m))\<rparr>)"

definition refresh_default_candidates :: "mworld \<Rightarrow> manager \<Rightarrow> manager" where
  "refresh_default_candidates w m =
    m\<lparr>mg_default_candidates := build_default_candidates (build_channels_by_address m (pool_values w m))
        (cached_endpoints (mg_topology m))\<rparr>"

definition pool_insert :: "rstring \<Rightarrow> nat \<Rightarrow> channel_pool \<Rightarrow> channel_pool" where
  "pool_insert key c pool = filter (\<lambda>(k, _). k \<noteq> key) pool @ [(key, c)]"

definition insert_channel :: "mworld \<Rightarrow> nat \<Rightarrow> manager \<Rightarrow> manager" where
  "insert_channel w c m =
    (let key = address_of m c @ rstr ''#ch'' @ fmt_nat (mg_next_channel_key m)
     in store_channels_by_address w (m\<lparr>mg_next_channel_key := mg_next_channel_key m + 1,
          mg_channels := pool_insert key c (mg_channels m)\<rparr>))"

definition available_channels_from_index :: "mworld \<Rightarrow> manager \<Rightarrow> rstring list \<Rightarrow> nat list" where
  "available_channels_from_index w m addresses =
    fold push_unique (filter (channel_available w m) (concat (map (group_of (mg_channels_by_address m)) addresses))) []"

section \<open>Choosing a channel\<close>

definition channel_for_address :: "mworld \<Rightarrow> manager \<Rightarrow> rstring \<Rightarrow> nat option" where
  "channel_for_address w m address = List.find (channel_available w m) (group_of (mg_channels_by_address m) address)"

definition default_channel_fallback :: "mworld \<Rightarrow> manager \<Rightarrow> nat" where
  "default_channel_fallback w m = (if channel_available w m (mg_cached_active m) then mg_cached_active m else mg_active m)"

definition available_channels_by_addresses :: "mworld \<Rightarrow> manager \<Rightarrow> rstring list \<Rightarrow> nat list" where
  "available_channels_by_addresses w m addresses =
    (let available = available_channels_from_index w m addresses;
         seen_active = list_ex (\<lambda>c. c = mg_active m) available
     in if \<not> seen_active \<and> channel_available w m (mg_active m) then available @ [mg_active m] else available)"

text \<open>The data center of \<open>conf\<close> is the user attribute \<open>IGNITE_DATA_CENTER_ID\<close>.\<close>

definition data_center_id :: "client_config \<Rightarrow> rstring option" where
  "data_center_id conf = map_of (cf_user_attributes conf) IGNITE_DATA_CENTER_ID"

definition current_dc_channels :: "client_config \<Rightarrow> mworld \<Rightarrow> manager \<Rightarrow> nat list" where
  "current_dc_channels conf w m =
    (if \<not> cf_partition_awareness_enabled conf \<or> data_center_id conf = None then []
     else let node_ids = current_dc_nodes (mg_topology m)
          in if node_ids = [] then []
             else available_channels_from_index w m (concat (map (\<lambda>nid. endpoints_for_node nid (mg_topology m)) node_ids)))"

definition default_channel_candidates :: "client_config \<Rightarrow> mworld \<Rightarrow> manager \<Rightarrow> nat list" where
  "default_channel_candidates conf w m =
    (let dc = current_dc_channels conf w m
     in if dc \<noteq> [] then dc
        else let available = available_channels_by_addresses w m (cached_endpoints (mg_topology m))
             in if available \<noteq> [] then available else [mg_active m])"

definition next_default_index :: "manager \<Rightarrow> manager" where
  "next_default_index m = m\<lparr>mg_next_default_channel_index := mg_next_default_channel_index m + 1\<rparr>"

definition default_channel_dc_aware :: "client_config \<Rightarrow> mworld \<Rightarrow> manager \<Rightarrow> nat \<times> manager" where
  "default_channel_dc_aware conf w m =
    (let candidates = default_channel_candidates conf w m
     in if candidates = [] then (default_channel_fallback w m, m)
        else if length candidates = 1 then (candidates ! 0, m)
        else (candidates ! (unat (mg_next_default_channel_index m) mod length candidates), next_default_index m))"

text \<open>The scan from the start index: \<open>start.wrapping_add(step) % len\<close>.\<close>

definition scan_from :: "(nat \<Rightarrow> bool) \<Rightarrow> nat list \<Rightarrow> u64 \<Rightarrow> nat option" where
  "scan_from avail candidates start =
    List.find avail (map (\<lambda>step. candidates ! (unat (start + word_of_nat step) mod length candidates)) [0..<length candidates])"

definition default_channel :: "client_config \<Rightarrow> mworld \<Rightarrow> manager \<Rightarrow> nat \<times> manager" where
  "default_channel conf w m =
    (if cf_partition_awareness_enabled conf \<and> data_center_id conf \<noteq> None then default_channel_dc_aware conf w m
     else let candidates = mg_default_candidates m
      in if length candidates = 0 then (default_channel_fallback w m, m)
         else if length candidates = 1
           then (if channel_available w m (candidates ! 0) then candidates ! 0 else default_channel_fallback w m, m)
         else let start = mg_next_default_channel_index m; m' = next_default_index m
           in case scan_from (channel_available w m') candidates start of
                Some c \<Rightarrow> (c, m')
              | None \<Rightarrow> (default_channel_fallback w m', m'))"

section \<open>Steps on the manager\<close>

type_synonym 'a mact = "(manager, 'a) act"

definition amod :: "(manager \<Rightarrow> manager) \<Rightarrow> unit mact" where
  "amod f m = (Done (), f m)"

definition aget :: "(manager \<Rightarrow> 'a) \<Rightarrow> 'a mact" where
  "aget f m = (Done (f m), m)"

definition athen :: "unit mact \<Rightarrow> 'a mact \<Rightarrow> 'a mact" where
  "athen m n = abind m (\<lambda>_. n)"

text \<open>The error of a call as a value; a panic stays a panic.\<close>

definition atry :: "'a mact \<Rightarrow> (conn_error + 'a) mact" where
  "atry act m = (case act m of
      (Done x, m') \<Rightarrow> (Done (Inr x), m')
    | (Failed e, m') \<Rightarrow> (Done (Inl e), m')
    | (Panicked, m') \<Rightarrow> (Panicked, m')
    | (Unfinished, m') \<Rightarrow> (Unfinished, m'))"

definition lift_error :: "ignite_error + 'a \<Rightarrow> 'a mact" where
  "lift_error r = (case r of Inl e \<Rightarrow> afail (CError e) | Inr x \<Rightarrow> aret x)"

text \<open>\<open>to_string\<close> of an error; the text of the errors of a decoder is an argument.\<close>

fun describe :: "mworld \<Rightarrow> conn_error \<Rightarrow> rstring" where
  "describe w (CError e) = err_desc e"
| "describe w (CDecode e) = mw_show w e"
| "describe w (CCause prefix e) = rstr prefix @ describe w e"

section \<open>Connecting\<close>

definition channel_connect :: "mworld \<Rightarrow> rstring \<Rightarrow> (ignite_error + nat) mact" where
  "channel_connect w address m = (let m' = m\<lparr>mg_clock := mg_clock m + 1\<rparr> in
    case mw_connect w (mg_clock m) address of
      Inl e \<Rightarrow> (Done (Inl e), m')
    | Inr metadata \<Rightarrow> (Done (Inr (mg_count m)),
        m'\<lparr>mg_count := mg_count m + 1,
           mg_info := (mg_info m)(mg_count m := \<lparr>mc_address = address, mc_metadata = metadata\<rparr>)\<rparr>))"

text \<open>\<open>Channel::connect\<close> and, when it succeeds, \<open>insert_channel\<close>.\<close>

definition open_channel :: "mworld \<Rightarrow> rstring \<Rightarrow> (ignite_error + nat) mact" where
  "open_channel w address = abind (channel_connect w address) (\<lambda>r. case r of
      Inl e \<Rightarrow> aret (Inl e)
    | Inr c \<Rightarrow> athen (amod (insert_channel w c)) (aret (Inr c)))"

definition aggregate_connect_errors :: "ignite_error list \<Rightarrow> ignite_error" where
  "aggregate_connect_errors errors =
    (let detail = (case errors of [] \<Rightarrow> [] | e # es \<Rightarrow> err_desc e @ concat (map (\<lambda>e. rstr '' | '' @ err_desc e) es));
         message = rstr ''Failed to connect to any configured address: '' @ detail
     in if list_ex (\<lambda>e. err_kind e = KAuthentication) errors then err_authentication message
        else if list_ex (\<lambda>e. err_kind e = KTls) errors then err_tls message
        else if list_ex (\<lambda>e. err_kind e = KHandshake) errors then err_handshake message
        else err_connection message)"

definition record_identity :: "rstring \<Rightarrow> nat \<Rightarrow> manager \<Rightarrow> manager" where
  "record_identity nid c m = m\<lparr>
     mg_topology := record_node_endpoint nid (address_of m c) (record_node nid (mg_topology m)),
     mg_node_channels := (mg_node_channels m)(nid \<mapsto> c)\<rparr>"

definition cache_channel_identity :: "mworld \<Rightarrow> nat \<Rightarrow> manager \<Rightarrow> manager" where
  "cache_channel_identity w c m = (case node_id_of m c of
      None \<Rightarrow> m
    | Some nid \<Rightarrow> refresh_default_candidates w (record_identity nid c m))"

section \<open>Internal requests\<close>

text \<open>The part that \<open>send_internal_on_channel\<close>, \<open>send_internal_and_read_on_channel\<close> and
  \<open>send_internal_and_get_payload_on_channel\<close> share: the payload of a successful response.\<close>

definition internal_request :: "mworld \<Rightarrow> nat \<Rightarrow> op_code \<Rightarrow> bytes \<Rightarrow> bytes mact" where
  "internal_request w c op payload m =
    (let corr_id = mg_next_correlation_id m; m1 = m\<lparr>mg_next_correlation_id := corr_id + 1\<rparr>
     in case run (encode_request_into (op_code_i16 op) corr_id (wr payload)) of
          Inl e \<Rightarrow> (Failed (CDecode (IoE e)), m1)
        | Inr request \<Rightarrow>
            (let m2 = m1\<lparr>mg_clock := mg_clock m + 1\<rparr>
             in case mw_request w (mg_clock m) c request of
                  Inl e \<Rightarrow> (Failed (CError e), m2)
                | Inr frame \<Rightarrow> (case frame_flag frame of
                    Success \<Rightarrow> (Done (drop (payload_offset frame) (frame_body frame)), m2)
                  | Failure status err_msg \<Rightarrow> (Failed (CError (from_server_status status err_msg)), m2))))"

definition send_internal :: "mworld \<Rightarrow> op_code \<Rightarrow> unit mact" where
  "send_internal w op = abind (aget mg_active) (\<lambda>c. abind (internal_request w c op []) (\<lambda>_. aret ()))"

definition send_internal_and_read_on_channel :: "mworld \<Rightarrow> 'a reader \<Rightarrow> nat \<Rightarrow> op_code \<Rightarrow> bytes \<Rightarrow> 'a mact" where
  "send_internal_and_read_on_channel w rd c op payload =
    abind (internal_request w c op payload) (\<lambda>bs m. (decoded (rd bs), m))"

definition send_internal_and_read :: "mworld \<Rightarrow> 'a reader \<Rightarrow> op_code \<Rightarrow> 'a mact" where
  "send_internal_and_read w rd op =
    abind (aget mg_active) (\<lambda>c. send_internal_and_read_on_channel w rd c op [])"

section \<open>Discovery\<close>

definition read_flexible_string :: "rstring reader" where
  "read_flexible_string = rbind read_u8 (\<lambda>first. case type_code_try_from first of
      Some TcString \<Rightarrow> read_string
    | Some TcNull \<Rightarrow> ret []
    | Some other \<Rightarrow> fail (ExpectedGot ''string'' (type_code_u8 other))
    | None \<Rightarrow> rbind (read_exact 3) (\<lambda>len_tail.
        let str_len = word_of_nat (of_le (first # len_tail)) :: i32
        in if sint str_len < 0 then fail (Ignite ''negative string length'')
           else rbind (read_vec (usize_of_i32 str_len)) (\<lambda>bs. case utf8_decode bs of
               Some v \<Rightarrow> ret v
             | None \<Rightarrow> fail (IoE InvalidUtf8))))"

definition node_endpoints_write :: "i64 \<Rightarrow> i64 \<Rightarrow> bytes" where
  "node_endpoints_write start_version end_version = write_i64 start_version @ write_i64 end_version"

record node_endpoints_resp =
  ner_topology_version :: i64
  ner_added_nodes :: "discovered_node list"
  ner_removed_node_ids :: "rstring list"

definition read_discovered_node :: "discovered_node reader" where
  "read_discovered_node = rbind read_uuid_string (\<lambda>nid. rbind read_i32 (\<lambda>port. rbind read_i32 (\<lambda>addr_count.
     if sint addr_count < 0 then fail (Ignite ''negative node address count'')
     else rbind (with_capacity addr_count) (\<lambda>_.
       rmap (\<lambda>hosts. discovered_node.make nid (map (\<lambda>host. host @ [58] @ fmt_int (sint port)) hosts))
         (repeat_read (i32_range addr_count) read_flexible_string)))))"

definition node_endpoints_read :: "node_endpoints_resp reader" where
  "node_endpoints_read = rbind read_i64 (\<lambda>version. rbind read_i32 (\<lambda>added_count.
     if sint added_count < 0 then fail (Ignite ''negative node additions count'')
     else rbind (with_capacity added_count) (\<lambda>_.
       rbind (repeat_read (i32_range added_count) read_discovered_node) (\<lambda>added.
       rbind read_i32 (\<lambda>removed_count.
         if sint removed_count < 0 then fail (Ignite ''negative node removals count'')
         else rbind (with_capacity removed_count) (\<lambda>_.
           rbind (repeat_read (i32_range removed_count) read_uuid_string) (\<lambda>removed.
             ret \<lparr>ner_topology_version = version, ner_added_nodes = added, ner_removed_node_ids = removed\<rparr>)))))))"

definition data_center_nodes_write :: "rstring \<Rightarrow> bytes" where
  "data_center_nodes_write dc = write_string dc"

definition data_center_nodes_read :: "rstring list reader" where
  "data_center_nodes_read = rbind read_i32 (\<lambda>count.
     if sint count < 0 then fail (Ignite ''negative data center nodes count'')
     else rbind (with_capacity count) (\<lambda>_. repeat_read (i32_range count) read_uuid_string))"

text \<open>\<open>normalize_discovered_nodes\<close>: with a resolver, an announced endpoint is replaced by the resolved
  addresses of the same port.\<close>

definition resolved_by_port :: "rstring list \<Rightarrow> u16 \<Rightarrow> rstring list option" where
  "resolved_by_port eps port =
    (let found = filter (\<lambda>e. endpoint_port e = Some port) eps in if found = [] then None else Some found)"

definition map_endpoint :: "rstring list \<Rightarrow> rstring \<Rightarrow> rstring list" where
  "map_endpoint eps endpoint = (case endpoint_port endpoint of
      Some port \<Rightarrow> (case resolved_by_port eps port of Some mapped \<Rightarrow> mapped | None \<Rightarrow> [endpoint])
    | None \<Rightarrow> [endpoint])"

definition normalize_discovered_nodes :: "client_config \<Rightarrow> discovered_node list \<Rightarrow> ignite_error + discovered_node list" where
  "normalize_discovered_nodes conf added =
    (if cf_resolver conf = None then Inr added
     else case normalized_addresses conf of
       Inl e \<Rightarrow> Inl e
     | Inr eps \<Rightarrow> Inr (map (discovered_node.node_endpoints_update (\<lambda>eps0. dedupe (concat (map (map_endpoint eps) eps0)))) added))"

definition hex_prefix :: "bytes \<Rightarrow> nat \<Rightarrow> rstring" where
  "hex_prefix bs limit = concat (map (\<lambda>b. write_hex 2 (ucast b)) (take limit bs))"

definition decode_endpoints :: "mworld \<Rightarrow> bytes \<Rightarrow> node_endpoints_resp mact" where
  "decode_endpoints w raw_body m = (case decoded (node_endpoints_read raw_body) of
      Failed err \<Rightarrow> (Failed (CError (err_new (rstr ''failed to decode discovered endpoints response ('' @
          fmt_nat (length raw_body) @ rstr '' bytes, prefix '' @ hex_prefix raw_body 32 @ rstr ''): '' @ describe w err))), m)
    | r \<Rightarrow> (r, m))"

definition drop_channels :: "mworld \<Rightarrow> (nat \<Rightarrow> bool) \<Rightarrow> manager \<Rightarrow> manager" where
  "drop_channels w gone m =
    (let removed = filter gone (map snd (mg_channels m));
         m' = store_channels_by_address w (m\<lparr>mg_channels := filter (\<lambda>(_, c). \<not> gone c) (mg_channels m)\<rparr>)
     in m'\<lparr>mg_closed := mg_closed m' @ removed\<rparr>)"

definition prune_removed_node_channels :: "mworld \<Rightarrow> rstring list \<Rightarrow> manager \<Rightarrow> manager" where
  "prune_removed_node_channels w removed m =
    (if removed = [] then m
     else drop_channels w (\<lambda>c. case node_id_of m c of Some nid \<Rightarrow> nid \<in> set removed | None \<Rightarrow> False)
       (m\<lparr>mg_node_channels := (mg_node_channels m) |` (- set removed)\<rparr>))"

definition prune_removed_seed_channels :: "mworld \<Rightarrow> rstring list \<Rightarrow> rstring \<Rightarrow> manager \<Rightarrow> manager" where
  "prune_removed_seed_channels w removed active_address m =
    (if removed = [] then m
     else let retained = snap_discovered_endpoints (snapshot (mg_topology m))
          in drop_channels w (\<lambda>c. address_of m c \<in> set removed \<and> address_of m c \<noteq> active_address \<and>
               address_of m c \<notin> set retained) m)"

text \<open>The discovered endpoints, once they are decoded.\<close>

definition apply_node_endpoints :: "mworld \<Rightarrow> node_endpoints_resp \<Rightarrow> discovered_node list \<Rightarrow> manager \<Rightarrow> manager" where
  "apply_node_endpoints w resp added m =
    (let m1 = m\<lparr>mg_topology := apply_discovery_update (TopologyVersion (ner_topology_version resp) 0) added
           (ner_removed_node_ids resp) (mg_topology m)\<rparr>
     in refresh_default_candidates w (prune_removed_node_channels w (ner_removed_node_ids resp) m1))"

definition prime_channel :: "mworld \<Rightarrow> rstring \<Rightarrow> unit mact" where
  "prime_channel w address m =
    (if channel_for_address w m address \<noteq> None then (Done (), m)
     else athen (amod (emit_conn ConnectAttempt address None)) (abind (open_channel w address) (\<lambda>r. case r of
         Inr c \<Rightarrow> athen (amod (cache_channel_identity w c)) (amod (emit_conn Connected address None))
       | Inl err \<Rightarrow> amod (emit_conn ConnectFailed address (Some (err_desc err))))) m)"

fun prime_all :: "mworld \<Rightarrow> rstring \<Rightarrow> rstring list \<Rightarrow> unit mact" where
  "prime_all w active_address [] = aret ()"
| "prime_all w active_address (address # rest) =
    athen (if address = active_address then aret () else prime_channel w address) (prime_all w active_address rest)"

definition prime_discovered_channels :: "mworld \<Rightarrow> rstring \<Rightarrow> unit mact" where
  "prime_discovered_channels w active_address =
    abind (aget (\<lambda>m. cached_endpoints (mg_topology m))) (prime_all w active_address)"

definition start_topology_version :: "manager \<Rightarrow> i64" where
  "start_topology_version m = (case current_topology_version (mg_topology m) of Some v \<Rightarrow> major v | None \<Rightarrow> - 1)"

definition refresh_topology_from_channel :: "client_config \<Rightarrow> mworld \<Rightarrow> nat \<Rightarrow> unit mact" where
  "refresh_topology_from_channel conf w c m =
    (if \<not> cf_partition_awareness_enabled conf \<or> \<not> connection_capabilities.node_endpoints (caps_of m c) then (Done (), m)
     else abind (internal_request w c OpClusterGroupGetNodeEndpoints (node_endpoints_write (start_topology_version m) (- 1))) (\<lambda>raw_body.
       abind (decode_endpoints w raw_body) (\<lambda>resp.
       abind (lift_error (normalize_discovered_nodes conf (ner_added_nodes resp))) (\<lambda>added.
       athen (amod (apply_node_endpoints w resp added)) (prime_discovered_channels w (address_of m c))))) m)"

definition on_channel_connected :: "client_config \<Rightarrow> mworld \<Rightarrow> nat \<Rightarrow> unit mact" where
  "on_channel_connected conf w c =
    athen (amod (cache_channel_identity w c)) (\<lambda>m.
      if \<not> cf_partition_awareness_enabled conf then (Done (), m)
      else if connection_capabilities.node_endpoints (caps_of m c)
        then abind (atry (refresh_topology_from_channel conf w c)) (\<lambda>r. case r of
            Inr _ \<Rightarrow> aret ()
          | Inl err \<Rightarrow> athen (amod (emit_conn ConnectFailed (address_of m c)
                (Some (rstr ''failed to refresh discovered endpoints: '' @ describe w err))))
              (prime_discovered_channels w (address_of m c))) m
        else prime_discovered_channels w (address_of m c) m)"

section \<open>Connecting to any endpoint\<close>

text \<open>The channel to an address, and whether it is new.\<close>

definition take_channel :: "mworld \<Rightarrow> bool \<Rightarrow> rstring \<Rightarrow> (ignite_error + nat \<times> bool) mact" where
  "take_channel w reconnect address m = (case channel_for_address w m address of
      Some existing \<Rightarrow> (if channel_available w m existing then (Done (Inr (existing, False)), m)
        else athen (amod (emit_conn (if reconnect then ReconnectAttempt else ConnectAttempt) address None))
          (abind (open_channel w address) (\<lambda>r. aret (map_sum id (\<lambda>c. (c, True)) r))) m)
    | None \<Rightarrow> athen (amod (emit_conn (if reconnect then ReconnectAttempt else ConnectAttempt) address None))
        (abind (open_channel w address) (\<lambda>r. aret (map_sum id (\<lambda>c. (c, True)) r))) m)"

definition topology_mark_active :: "rstring \<Rightarrow> manager \<Rightarrow> manager" where
  "topology_mark_active address m = m\<lparr>mg_topology := mark_active address (mg_topology m)\<rparr>"

fun connect_loop :: "client_config \<Rightarrow> mworld \<Rightarrow> bool \<Rightarrow> rstring list \<Rightarrow> ignite_error list \<Rightarrow> nat mact" where
  "connect_loop conf w reconnect [] errors = afail (CError (aggregate_connect_errors errors))"
| "connect_loop conf w reconnect (address # rest) errors =
    abind (take_channel w reconnect address) (\<lambda>r. case r of
        Inr (c, inserted_new) \<Rightarrow>
          athen (if inserted_new then on_channel_connected conf w c else aret ())
          (athen (amod (topology_mark_active address))
          (athen (amod (emit_conn (if reconnect then Reconnected else Connected) address None)) (aret c)))
      | Inl err \<Rightarrow>
          athen (amod (emit_conn ConnectFailed address (Some (err_desc err))))
            (connect_loop conf w reconnect rest (errors @ [err])))"

definition rotated :: "nat \<Rightarrow> rstring list \<Rightarrow> rstring list" where
  "rotated start addresses = map (\<lambda>step. addresses ! ((start + step) mod length addresses)) [0..<length addresses]"

definition connect_any :: "client_config \<Rightarrow> mworld \<Rightarrow> nat \<Rightarrow> bool \<Rightarrow> nat mact" where
  "connect_any conf w start_index reconnect =
    abind (aget (\<lambda>m. cached_endpoints (mg_topology m))) (\<lambda>addresses.
      connect_loop conf w reconnect (rotated start_index addresses) [])"

definition connect_specific :: "client_config \<Rightarrow> mworld \<Rightarrow> rstring \<Rightarrow> nat mact" where
  "connect_specific conf w address m = (case channel_for_address w m address of
      Some existing \<Rightarrow> (Done existing, m)
    | None \<Rightarrow> athen (amod (emit_conn ConnectAttempt address None)) (abind (open_channel w address) (\<lambda>r. case r of
          Inl e \<Rightarrow> afail (CError e)
        | Inr c \<Rightarrow> athen (on_channel_connected conf w c)
            (athen (amod (emit_conn Connected address None)) (aret c)))) m)"

section \<open>Reconnecting\<close>

text \<open>\<open>record_reconnect_attempt\<close> at the instant \<open>now\<close> of the monotonic clock.\<close>

definition record_reconnect_attempt ::
    "mworld \<Rightarrow> reconnect_throttle option \<Rightarrow> nat \<Rightarrow> nat list \<Rightarrow> (ignite_error + unit) \<times> nat list" where
  "record_reconnect_attempt w throttle now attempts = (case throttle of
      None \<Rightarrow> (Inr (), attempts)
    | Some th \<Rightarrow>
        (let attempts = dropWhile (\<lambda>t. rt_window th \<le> now - t) attempts
         in if rt_max_attempts th \<le> length attempts
            then (Inl (err_connection (rstr ''Reconnect throttling is applied: more than '' @ fmt_nat (rt_max_attempts th) @
                   rstr '' reconnect attempts within '' @ mw_show_duration w (rt_window th))), attempts)
            else (Inr (), attempts @ [now])))"

definition refresh_seed_endpoints :: "client_config \<Rightarrow> mworld \<Rightarrow> rstring list mact" where
  "refresh_seed_endpoints conf w m =
    (if cf_resolver conf = None then (Done [], m)
     else abind (lift_error (normalized_addresses conf)) (\<lambda>next m.
       (case replace_seed_endpoints next (mg_topology m) of
          (removed, tc) \<Rightarrow> (Done removed, refresh_default_candidates w (m\<lparr>mg_topology := tc\<rparr>)))) m)"

definition set_active :: "nat \<Rightarrow> manager \<Rightarrow> manager" where
  "set_active c m = m\<lparr>mg_active := c, mg_cached_active := c\<rparr>"

definition reconnect_from :: "client_config \<Rightarrow> mworld \<Rightarrow> nat \<Rightarrow> rstring \<Rightarrow> nat mact" where
  "reconnect_from conf w now failed_address m =
    (if address_of m (mg_active m) \<noteq> failed_address \<and> channel_available w m (mg_active m) then (Done (mg_active m), m)
     else case record_reconnect_attempt w (cf_reconnect_throttle conf) now (mg_reconnect_attempts m) of
       (r, attempts) \<Rightarrow>
         abind (lift_error r) (\<lambda>_.
         abind (refresh_seed_endpoints conf w) (\<lambda>removed.
         abind (aget (\<lambda>m. next_index_after failed_address (mg_topology m))) (\<lambda>start_index.
         abind (connect_any conf w start_index True) (\<lambda>c.
         athen (amod (set_active c))
         (athen (amod (\<lambda>m. prune_removed_seed_channels w removed (address_of m c) m)) (aret c))))))
         (m\<lparr>mg_reconnect_attempts := attempts\<rparr>))"

section \<open>Channels by node\<close>

fun first_reachable :: "client_config \<Rightarrow> mworld \<Rightarrow> rstring list \<Rightarrow> nat option mact" where
  "first_reachable conf w [] = aret None"
| "first_reachable conf w (endpoint # rest) =
    abind (aget (\<lambda>m. channel_for_address w m endpoint)) (\<lambda>existing. case existing of
        Some c \<Rightarrow> aret (Some c)
      | None \<Rightarrow> abind (atry (connect_specific conf w endpoint)) (\<lambda>r. case r of
            Inr c \<Rightarrow> aret (Some c)
          | Inl _ \<Rightarrow> first_reachable conf w rest))"

definition channel_for_node_slow :: "client_config \<Rightarrow> mworld \<Rightarrow> rstring \<Rightarrow> nat option mact" where
  "channel_for_node_slow conf w nid m =
    (case List.find (\<lambda>c. channel_available w m c \<and> node_id_of m c = Some nid) (pool_values w m) of
       Some existing \<Rightarrow> (Done (Some existing), m\<lparr>mg_node_channels := (mg_node_channels m)(nid \<mapsto> existing)\<rparr>)
     | None \<Rightarrow> first_reachable conf w (endpoints_for_node nid (mg_topology m)) m)"

definition channel_for_node_id :: "client_config \<Rightarrow> mworld \<Rightarrow> rstring \<Rightarrow> nat option mact" where
  "channel_for_node_id conf w nid m =
    (case mg_node_channels m nid of
       Some c \<Rightarrow> if channel_available w m c then (Done (Some c), m) else channel_for_node_slow conf w nid m
     | None \<Rightarrow> channel_for_node_slow conf w nid m)"

section \<open>Topology changes\<close>

definition handle_topology_change :: "client_config \<Rightarrow> mworld \<Rightarrow> topology_version \<Rightarrow> unit mact" where
  "handle_topology_change conf w version m =
    (if \<not> cf_partition_awareness_enabled conf then (Done (), m)
     else let m1 = m\<lparr>mg_affinity := invalidate (mg_affinity m), mg_topology := clear_current_dc_nodes (mg_topology m)\<rparr>;
              c = mg_active m1
          in if \<not> connection_capabilities.node_endpoints (caps_of m1 c)
             then (Done (), m1\<lparr>mg_topology := set_topology_version version (mg_topology m1)\<rparr>)
             else abind (atry (refresh_topology_from_channel conf w c)) (\<lambda>_. aret ()) m1)"

definition refresh_data_center_nodes :: "client_config \<Rightarrow> mworld \<Rightarrow> unit mact" where
  "refresh_data_center_nodes conf w m = (case data_center_id conf of
      None \<Rightarrow> (Done (), m\<lparr>mg_topology := clear_current_dc_nodes (mg_topology m)\<rparr>)
    | Some dc \<Rightarrow>
        (let c = mg_active m
         in if \<not> connection_capabilities.dc_aware (caps_of m c)
            then (Done (), m\<lparr>mg_topology := clear_current_dc_nodes (mg_topology m)\<rparr>)
            else abind (send_internal_and_read_on_channel w data_center_nodes_read c OpClusterGetDataCenterNodes
                (data_center_nodes_write dc)) (\<lambda>nodes.
              amod (\<lambda>m. m\<lparr>mg_topology := set_current_dc_nodes nodes (mg_topology m)\<rparr>)) m))"

section \<open>Start\<close>

text \<open>The state while the first connection is made: no channel yet.\<close>

definition blank_manager :: "client_config \<Rightarrow> rstring list \<Rightarrow> event_bus \<Rightarrow> manager" where
  "blank_manager conf seeds bus = \<lparr>mg_count = 0,
     mg_info = (\<lambda>_. \<lparr>mc_address = [], mc_metadata = \<lparr>capabilities = capabilities_of [], server_node_id = None\<rparr>\<rparr>),
     mg_closed = [], mg_clock = 0, mg_channels = [], mg_channels_by_address = Map.empty, mg_default_candidates = [],
     mg_node_channels = Map.empty, mg_active = 0, mg_cached_active = 0, mg_topology = topology_new seeds,
     mg_affinity = affinity_new, mg_event_bus = bus, mg_next_correlation_id = 1,
     mg_next_channel_key = cf_connection_pool_size conf, mg_next_default_channel_index = 0, mg_reconnect_attempts = []\<rparr>"

fun initial_loop :: "mworld \<Rightarrow> bool \<Rightarrow> rstring list \<Rightarrow> ignite_error list \<Rightarrow> (ignite_error + nat) mact" where
  "initial_loop w reconnect [] errors = aret (Inl (aggregate_connect_errors errors))"
| "initial_loop w reconnect (address # rest) errors =
    athen (amod (emit_conn (if reconnect then ReconnectAttempt else ConnectAttempt) address None))
    (abind (channel_connect w address) (\<lambda>r. case r of
        Inr c \<Rightarrow> athen (amod (topology_mark_active address))
          (athen (amod (emit_conn (if reconnect then Reconnected else Connected) address None)) (aret (Inr c)))
      | Inl err \<Rightarrow> athen (amod (emit_conn ConnectFailed address (Some (err_desc err))))
          (initial_loop w reconnect rest (errors @ [err]))))"

definition connect_any_initial_once :: "mworld \<Rightarrow> nat \<Rightarrow> bool \<Rightarrow> (ignite_error + nat) mact" where
  "connect_any_initial_once w start_index reconnect =
    abind (aget (\<lambda>m. cached_endpoints (mg_topology m))) (\<lambda>addresses.
      initial_loop w reconnect (rotated start_index addresses) [])"

fun initial_rounds :: "mworld \<Rightarrow> nat \<Rightarrow> bool \<Rightarrow> nat \<Rightarrow> ignite_error list \<Rightarrow> nat mact" where
  "initial_rounds w start_index reconnect 0 errors = afail (CError (aggregate_connect_errors errors))"
| "initial_rounds w start_index reconnect (Suc n) errors =
    abind (connect_any_initial_once w start_index reconnect) (\<lambda>r. case r of
        Inr c \<Rightarrow> aret c
      | Inl err \<Rightarrow> initial_rounds w start_index reconnect n (errors @ [err]))"

definition connect_any_initial :: "client_config \<Rightarrow> mworld \<Rightarrow> nat \<Rightarrow> bool \<Rightarrow> nat mact" where
  "connect_any_initial conf w start_index reconnect = initial_rounds w start_index reconnect (cf_retry_limit conf + 1) []"

definition pool_channel :: "rstring \<Rightarrow> nat \<Rightarrow> nat \<Rightarrow> manager \<Rightarrow> manager" where
  "pool_channel address i c m =
    m\<lparr>mg_channels := pool_insert (address @ rstr ''#pool'' @ fmt_nat i) c (mg_channels m)\<rparr>"

fun fill_pool :: "mworld \<Rightarrow> rstring \<Rightarrow> nat list \<Rightarrow> unit mact" where
  "fill_pool w address [] = aret ()"
| "fill_pool w address (i # rest) =
    abind (channel_connect w address) (\<lambda>r.
      athen (case r of Inr c \<Rightarrow> amod (pool_channel address i c) | Inl _ \<Rightarrow> aret ()) (fill_pool w address rest))"

text \<open>\<open>ChannelManager::new_with_event_bus\<close>; \<open>cursor\<close> is the value of \<open>NEXT_DEFAULT_START_INDEX\<close>.\<close>

definition new_manager :: "client_config \<Rightarrow> mworld \<Rightarrow> nat \<Rightarrow> event_bus \<Rightarrow> unit result \<times> manager" where
  "new_manager conf w cursor bus = (case validate conf of
      Inl e \<Rightarrow> (Failed (CError e), blank_manager conf [] bus)
    | Inr _ \<Rightarrow> (case normalized_addresses conf of
        Inl e \<Rightarrow> (Failed (CError e), blank_manager conf [] bus)
      | Inr seeds \<Rightarrow>
          abind (connect_any_initial conf w (initial_start_index cursor seeds) False) (\<lambda>c.
          abind (aget (\<lambda>m. address_of m c)) (\<lambda>address.
          athen (amod (pool_channel address 0 c))
          (athen (fill_pool w address [1..<cf_connection_pool_size conf])
          (athen (amod (store_channels_by_address w))
          (athen (amod (set_active c))
          (athen (on_channel_connected conf w c)
          (amod (\<lambda>m. m\<lparr>mg_event_bus := emit_lifecycle LifeCreated None (mg_event_bus m)\<rparr>))))))))
          (blank_manager conf seeds bus)))"

end
