(* ===== verification/ManagerPool.thy ===== *)
theory ManagerPool
  imports Manager "HOL-Library.Multiset"
begin

text \<open>
  The invariant of the channel manager and that every operation of \<open>Manager\<close> keeps it, whatever the
  outside does; what the lookups and the choice of a channel return; the throttling of reconnects.
\<close>

section \<open>The invariant\<close>

definition pool :: "manager \<Rightarrow> nat set" where
  "pool m = snd ` set (mg_channels m)"

text \<open>The number at the end of a key of the pool and the character before it, the end of \<open>#ch\<close> or of \<open>#pool\<close>.\<close>

definition key_tag :: "rstring \<Rightarrow> nat \<times> rstring" where
  "key_tag key = (hd (dropWhile is_digit (rev key)), rev (takeWhile is_digit (rev key)))"

definition keys_ok :: "nat \<Rightarrow> channel_pool \<Rightarrow> bool" where
  "keys_ok n channels \<longleftrightarrow> (\<forall>key \<in> fst ` set channels. \<exists>i. key_tag key = (108, fmt_nat i) \<or> i < n \<and> key_tag key = (104, fmt_nat i))"

text \<open>The part that does not speak of the indices or of the active channel.\<close>

definition pool_base :: "manager \<Rightarrow> bool" where
  "pool_base m \<longleftrightarrow>
    distinct (map fst (mg_channels m)) \<and> distinct (map snd (mg_channels m)) \<and>
    (\<forall>c \<in> pool m. c < mg_count m \<and> c \<notin> set (mg_closed m)) \<and> (\<forall>c \<in> set (mg_closed m). c < mg_count m) \<and>
    (\<forall>nid c. mg_node_channels m nid = Some c \<longrightarrow> c < mg_count m \<and> node_id_of m c = Some nid) \<and>
    keys_ok (mg_next_channel_key m) (mg_channels m) \<and>
    topology_inv (mg_topology m) \<and> affinity_inv (mg_affinity m) \<and> bus_ok (mg_event_bus m)"

definition index_ok :: "manager \<Rightarrow> bool" where
  "index_ok m \<longleftrightarrow> (\<forall>a. distinct (group_of (mg_channels_by_address m) a) \<and>
    set (group_of (mg_channels_by_address m) a) = {c \<in> pool m. address_of m c = a})"

definition candidates_ok :: "manager \<Rightarrow> bool" where
  "candidates_ok m \<longleftrightarrow> distinct (mg_default_candidates m) \<and>
    set (mg_default_candidates m) = {c \<in> pool m. address_of m c \<in> set (cached_endpoints (mg_topology m))}"

definition active_ok :: "manager \<Rightarrow> bool" where
  "active_ok m \<longleftrightarrow> mg_active m < mg_count m \<and> mg_cached_active m = mg_active m"

definition manager_ok :: "manager \<Rightarrow> bool" where
  "manager_ok m \<longleftrightarrow> pool_base m \<and> index_ok m \<and> candidates_ok m \<and> active_ok m"

definition any_order :: "mworld \<Rightarrow> bool" where
  "any_order w \<longleftrightarrow> (\<forall>t p. mset (mw_order w t p) = mset p)"

section \<open>Building the indices\<close>

lemma group_build: "group_of (build_channels_by_address m cs) a = filter (\<lambda>c. address_of m c = a) cs"
  by (induction cs rule: rev_induct) (auto simp: build_channels_by_address_def group_of_def)

lemma set_fold_push: "set (fold push_unique xs ys) = set xs \<union> set ys"
  by (induction xs arbitrary: ys) auto

lemma distinct_fold_push: "distinct (fold push_unique xs ys) = distinct ys"
  by (induction xs arbitrary: ys) auto

lemma candidates_set:
  "set (build_default_candidates idx eps) = (\<Union>a \<in> set eps. set (group_of idx a))"
  "distinct (build_default_candidates idx eps)"
  by (simp_all add: build_default_candidates_def set_fold_push distinct_fold_push)

lemma pool_values_set: "any_order w \<Longrightarrow> set (pool_values w m) = pool m"
  unfolding any_order_def pool_values_def pool_def by (metis image_set mset_map set_mset_mset)

lemma pool_values_distinct:
  assumes "any_order w" and "distinct (map snd (mg_channels m))"
  shows "distinct (pool_values w m)"
proof -
  have "mset (pool_values w m) = mset (map snd (mg_channels m))"
    using assms(1) by (simp add: any_order_def pool_values_def)
  then show ?thesis using assms(2) by (metis mset_eq_imp_distinct_iff)
qed

lemma build_ok:
  assumes "any_order w" and "distinct (map snd (mg_channels m))"
  shows "distinct (group_of (build_channels_by_address m (pool_values w m)) a)"
    and "set (group_of (build_channels_by_address m (pool_values w m)) a) = {c \<in> pool m. address_of m c = a}"
  using pool_values_set [OF assms(1), of m] pool_values_distinct [OF assms] by (auto simp: group_build)

text \<open>The fields the predicates look at.\<close>

lemma info_fields [simp]:
  "address_of (m\<lparr>mg_channels := x1\<rparr>) = address_of m" "address_of (m\<lparr>mg_channels_by_address := x2\<rparr>) = address_of m"
  "address_of (m\<lparr>mg_default_candidates := x3\<rparr>) = address_of m" "address_of (m\<lparr>mg_topology := x4\<rparr>) = address_of m"
  "address_of (m\<lparr>mg_node_channels := x5\<rparr>) = address_of m" "address_of (m\<lparr>mg_closed := x6\<rparr>) = address_of m"
  "address_of (m\<lparr>mg_next_channel_key := x7\<rparr>) = address_of m" "address_of (m\<lparr>mg_event_bus := x8\<rparr>) = address_of m"
  "node_id_of (m\<lparr>mg_channels := x1\<rparr>) = node_id_of m" "node_id_of (m\<lparr>mg_channels_by_address := x2\<rparr>) = node_id_of m"
  "node_id_of (m\<lparr>mg_default_candidates := x3\<rparr>) = node_id_of m" "node_id_of (m\<lparr>mg_topology := x4\<rparr>) = node_id_of m"
  "node_id_of (m\<lparr>mg_node_channels := x5\<rparr>) = node_id_of m" "node_id_of (m\<lparr>mg_closed := x6\<rparr>) = node_id_of m"
  "node_id_of (m\<lparr>mg_next_channel_key := x7\<rparr>) = node_id_of m" "node_id_of (m\<lparr>mg_event_bus := x8\<rparr>) = node_id_of m"
  by (auto simp: address_of_def node_id_of_def fun_eq_iff)

lemma pool_fields [simp]:
  "pool (m\<lparr>mg_channels_by_address := x2\<rparr>) = pool m" "pool (m\<lparr>mg_default_candidates := x3\<rparr>) = pool m"
  "pool (m\<lparr>mg_topology := x4\<rparr>) = pool m" "pool (m\<lparr>mg_node_channels := x5\<rparr>) = pool m"
  "pool (m\<lparr>mg_closed := x6\<rparr>) = pool m" "pool (m\<lparr>mg_event_bus := x8\<rparr>) = pool m"
  by (simp_all add: pool_def)

lemma store_ok:
  assumes "any_order w" and "pool_base m"
  shows "pool_base (store_channels_by_address w m)" and "index_ok (store_channels_by_address w m)"
    and "candidates_ok (store_channels_by_address w m)"
proof -
  have d: "distinct (map snd (mg_channels m))" using assms(2) by (simp add: pool_base_def)
  show "pool_base (store_channels_by_address w m)"
    using assms(2) by (simp add: store_channels_by_address_def pool_base_def Let_def)
  show "index_ok (store_channels_by_address w m)"
    by (simp add: store_channels_by_address_def index_ok_def Let_def build_ok [OF assms(1) d])
  show "candidates_ok (store_channels_by_address w m)"
    by (auto simp: store_channels_by_address_def candidates_ok_def Let_def candidates_set build_ok [OF assms(1) d])
qed

lemma store_active: "active_ok (store_channels_by_address w m) = active_ok m"
  by (simp add: store_channels_by_address_def Let_def active_ok_def)

lemma refresh_ok:
  assumes "any_order w" and "pool_base m" and "index_ok m" and "active_ok m"
  shows "manager_ok (refresh_default_candidates w m)"
proof -
  have d: "distinct (map snd (mg_channels m))" using assms(2) by (simp add: pool_base_def)
  show ?thesis
    using assms by (auto simp: manager_ok_def refresh_default_candidates_def pool_base_def index_ok_def active_ok_def
        candidates_ok_def candidates_set build_ok [OF assms(1) d])
qed

section \<open>Steps\<close>

text \<open>What every operation does to a state that satisfies the invariant: it keeps it, and the channels that
  exist keep their address and what the handshake found.\<close>

definition evolves :: "manager \<Rightarrow> manager \<Rightarrow> bool" where
  "evolves m m' \<longleftrightarrow> manager_ok m' \<and> mg_count m \<le> mg_count m' \<and> (\<forall>c < mg_count m. mg_info m' c = mg_info m c)"

lemma evolves_refl: "manager_ok m \<Longrightarrow> evolves m m"
  by (simp add: evolves_def)

lemma evolves_trans: "evolves m m' \<Longrightarrow> evolves m' m'' \<Longrightarrow> evolves m m''"
  by (auto simp: evolves_def)

lemma evolvesD:
  assumes "evolves m m'" and "c < mg_count m"
  shows "c < mg_count m'" "address_of m' c = address_of m c" "node_id_of m' c = node_id_of m c" "caps_of m' c = caps_of m c"
  using assms by (auto simp: evolves_def address_of_def node_id_of_def caps_of_def)

lemma evolves_ok: "evolves m m' \<Longrightarrow> manager_ok m'"
  by (simp add: evolves_def)

lemma evolves_abind:
  assumes "evolves m (snd (a m))" and "\<And>x m'. a m = (Done x, m') \<Longrightarrow> evolves m m' \<Longrightarrow> evolves m' (snd (f x m'))"
  shows "evolves m (snd (abind a f m))"
proof -
  obtain r m' where a: "a m = (r, m')" by fastforce
  show ?thesis using assms a evolves_trans by (cases r) (fastforce simp: abind_def)+
qed

lemma evolves_athen:
  "evolves m (snd (a m)) \<Longrightarrow> (\<And>m'. a m = (Done (), m') \<Longrightarrow> evolves m m' \<Longrightarrow> evolves m' (snd (b m'))) \<Longrightarrow>
   evolves m (snd (athen a b m))"
  unfolding athen_def by (rule evolves_abind) auto

lemma evolves_atry: "evolves m (snd (a m)) \<Longrightarrow> evolves m (snd (atry a m))"
  by (auto simp: atry_def split: prod.split result.split)

lemma act_simps [simp]:
  "amod f m = (Done (), f m)" "aget g m = (Done (g m), m)" "abind (aget g) k m = k (g m) m"
  by (simp_all add: amod_def aget_def abind_def)

lemma athen_amod: "athen (amod f) n m = n (f m)"
  by (simp add: amod_def abind_def athen_def)

lemma lift_error_state [simp]: "snd (lift_error r m) = m"
  by (simp add: lift_error_def split: sum.split)

section \<open>Changes of the state\<close>

text \<open>Fields outside the invariant.\<close>

lemma outside_ok [simp]:
  "manager_ok (m\<lparr>mg_clock := t\<rparr>) = manager_ok m"
  "manager_ok (m\<lparr>mg_next_correlation_id := i\<rparr>) = manager_ok m"
  "manager_ok (m\<lparr>mg_next_default_channel_index := j\<rparr>) = manager_ok m"
  "manager_ok (m\<lparr>mg_reconnect_attempts := as\<rparr>) = manager_ok m"
  by (simp_all add: manager_ok_def pool_base_def index_ok_def candidates_ok_def active_ok_def pool_def address_of_def node_id_of_def)

lemma emit_evolves: "manager_ok m \<Longrightarrow> evolves m (emit_conn kind address detail m)"
  using bus_ok_step [OF bus_step.connection, of "mg_event_bus m"]
  by (simp add: evolves_def emit_conn_def manager_ok_def pool_base_def index_ok_def candidates_ok_def active_ok_def)

text \<open>A new topology with the same endpoints.\<close>

lemma topology_evolves:
  assumes "manager_ok m" and "topology_inv tc" and "cached_endpoints tc = cached_endpoints (mg_topology m)"
  shows "evolves m (m\<lparr>mg_topology := tc\<rparr>)"
  using assms
  by (simp add: evolves_def manager_ok_def pool_base_def index_ok_def candidates_ok_def active_ok_def)

lemma topology_refreshed:
  assumes "any_order w" and "manager_ok m" and "topology_inv tc"
  shows "evolves m (refresh_default_candidates w (m\<lparr>mg_topology := tc\<rparr>))"
proof -
  have "manager_ok (refresh_default_candidates w (m\<lparr>mg_topology := tc\<rparr>))"
    by (rule refresh_ok [OF assms(1)])
      (use assms in \<open>simp_all add: manager_ok_def pool_base_def index_ok_def active_ok_def\<close>)
  then show ?thesis by (simp add: evolves_def refresh_default_candidates_def)
qed

lemma mark_evolves: "manager_ok m \<Longrightarrow> evolves m (topology_mark_active address m)"
  unfolding topology_mark_active_def
  by (rule topology_evolves) (auto simp: mark_active_def manager_ok_def pool_base_def intro: inv_topology_step topology_step.mark [unfolded mark_active_def])

lemma key_tag_suffix:
  "key_tag (a @ rstr ''#ch'' @ fmt_nat n) = (104, fmt_nat n)" "key_tag (a @ rstr ''#pool'' @ fmt_nat n) = (108, fmt_nat n)"
proof -
  have "takeWhile is_digit (rev (fmt_nat n) @ x # xs) = rev (fmt_nat n)" "dropWhile is_digit (rev (fmt_nat n) @ x # xs) = x # xs"
    if "\<not> is_digit x" for x xs
    using that by (simp_all add: takeWhile_tail fmt_nat_chars takeWhile_append dropWhile_append)
  then show "key_tag (a @ rstr ''#ch'' @ fmt_nat n) = (104, fmt_nat n)" "key_tag (a @ rstr ''#pool'' @ fmt_nat n) = (108, fmt_nat n)"
    by (simp_all add: key_tag_def rstr_def is_digit_def)
qed

lemma fmt_nat_inj: "fmt_nat i = fmt_nat j \<longleftrightarrow> i = j"
  by (metis fmt_nat_value)

lemma pool_insert_fresh: "key \<notin> fst ` set p \<Longrightarrow> pool_insert key c p = p @ [(key, c)]"
  unfolding pool_insert_def by (simp add: filter_id_conv) force

lemma key_fresh: "keys_ok n p \<Longrightarrow> a @ rstr ''#ch'' @ fmt_nat n \<notin> fst ` set p"
  using key_tag_suffix(1) [of a n] by (fastforce simp: keys_ok_def fmt_nat_inj)

lemma keys_ok_filter: "keys_ok n p \<Longrightarrow> keys_ok n (filter P p)"
  by (auto simp: keys_ok_def)

lemma keys_ok_add: "keys_ok n p \<Longrightarrow> keys_ok (Suc n) (p @ [(a @ rstr ''#ch'' @ fmt_nat n, c)])"
  using key_tag_suffix(1) [of a n] by (fastforce simp: keys_ok_def less_Suc_eq)

lemma insert_evolves:
  assumes "any_order w" and "manager_ok m" and "c < mg_count m" and "c \<notin> pool m" and "c \<notin> set (mg_closed m)"
  shows "evolves m (insert_channel w c m)" and "c \<in> pool (insert_channel w c m)"
proof -
  let ?key = "address_of m c @ rstr ''#ch'' @ fmt_nat (mg_next_channel_key m)"
  let ?m = "m\<lparr>mg_next_channel_key := mg_next_channel_key m + 1, mg_channels := pool_insert ?key c (mg_channels m)\<rparr>"
  have base: "pool_base m" using assms(2) by (simp add: manager_ok_def)
  then have fresh: "?key \<notin> fst ` set (mg_channels m)" by (auto simp: pool_base_def key_fresh)
  note ins = pool_insert_fresh [OF fresh]
  have p: "pool ?m = insert c (pool m)" by (auto simp: pool_def ins)
  have "pool_base ?m"
    using base assms(3-5) fresh unfolding pool_base_def p
    by (auto simp: ins pool_def keys_ok_add)
  note ok = store_ok [OF assms(1) this]
  have eq: "insert_channel w c m = store_channels_by_address w ?m" by (simp add: insert_channel_def Let_def)
  show "evolves m (insert_channel w c m)"
    using ok assms(2) unfolding eq
    by (simp add: evolves_def manager_ok_def store_active) (simp add: store_channels_by_address_def Let_def active_ok_def)
  show "c \<in> pool (insert_channel w c m)"
    using p unfolding eq by (simp add: store_channels_by_address_def Let_def pool_def)
qed

section \<open>Opening channels\<close>

text \<open>A new channel gets a number that nothing refers to yet.\<close>

lemma connect_old:
  assumes "c < mg_count m"
  shows "mg_info (snd (channel_connect w address m)) c = mg_info m c"
  using assms by (auto simp: channel_connect_def Let_def split: sum.split)

lemma connect_fields [simp]:
  "mg_channels (snd (channel_connect w address m)) = mg_channels m"
  "mg_closed (snd (channel_connect w address m)) = mg_closed m"
  "mg_node_channels (snd (channel_connect w address m)) = mg_node_channels m"
  "mg_next_channel_key (snd (channel_connect w address m)) = mg_next_channel_key m"
  "mg_topology (snd (channel_connect w address m)) = mg_topology m"
  "mg_affinity (snd (channel_connect w address m)) = mg_affinity m"
  "mg_event_bus (snd (channel_connect w address m)) = mg_event_bus m"
  "mg_channels_by_address (snd (channel_connect w address m)) = mg_channels_by_address m"
  "mg_default_candidates (snd (channel_connect w address m)) = mg_default_candidates m"
  "mg_active (snd (channel_connect w address m)) = mg_active m"
  "mg_cached_active (snd (channel_connect w address m)) = mg_cached_active m"
  "pool (snd (channel_connect w address m)) = pool m"
  "mg_count m \<le> mg_count (snd (channel_connect w address m))"
  by (auto simp: channel_connect_def Let_def pool_def split: sum.split)

lemma connect_base:
  assumes "pool_base m"
  shows "pool_base (snd (channel_connect w address m))"
    and "channel_connect w address m = (Done (Inr c), m') \<Longrightarrow>
      c < mg_count m' \<and> c \<notin> pool m' \<and> c \<notin> set (mg_closed m') \<and> address_of m' c = address"
proof -
  let ?m = "snd (channel_connect w address m)"
  have "node_id_of ?m c = node_id_of m c" if "c < mg_count m" for c using connect_old [OF that] by (simp add: node_id_of_def)
  then show "pool_base ?m" using assms unfolding pool_base_def by (auto intro: less_le_trans [OF _ connect_fields(13)])
  have "\<forall>c \<in> pool m. c \<noteq> mg_count m" "mg_count m \<notin> set (mg_closed m)" using assms by (auto simp: pool_base_def)
  then show "c < mg_count m' \<and> c \<notin> pool m' \<and> c \<notin> set (mg_closed m') \<and> address_of m' c = address"
    if "channel_connect w address m = (Done (Inr c), m')"
    using that by (force simp: channel_connect_def Let_def pool_def address_of_def split: sum.splits)
qed

lemma connect_evolves:
  assumes "manager_ok m"
  shows "evolves m (snd (channel_connect w address m))"
proof -
  let ?m = "snd (channel_connect w address m)"
  have old: "address_of ?m c = address_of m c" if "c < mg_count m" for c using connect_old [OF that] by (simp add: address_of_def)
  have lt: "\<forall>c \<in> pool m. c < mg_count m" using assms by (auto simp: manager_ok_def pool_base_def)
  have "index_ok ?m" using assms old lt by (auto simp: manager_ok_def index_ok_def)
  moreover have "candidates_ok ?m" using assms old lt by (auto simp: manager_ok_def candidates_ok_def)
  moreover have "active_ok ?m" using assms by (auto simp: manager_ok_def active_ok_def intro: less_le_trans [OF _ connect_fields(13)])
  moreover have "pool_base ?m" using assms connect_base(1) by (simp add: manager_ok_def)
  ultimately show ?thesis by (simp add: evolves_def manager_ok_def connect_old)
qed

lemma connect_fresh:
  "manager_ok m \<Longrightarrow> channel_connect w address m = (Done (Inr c), m') \<Longrightarrow>
    c < mg_count m' \<and> c \<notin> pool m' \<and> c \<notin> set (mg_closed m') \<and> address_of m' c = address"
  using connect_base(2) unfolding manager_ok_def by blast

lemma connect_Done: "\<exists>r m'. channel_connect w address m = (Done r, m')"
  by (cases "mw_connect w (mg_clock m) address") (simp_all add: channel_connect_def Let_def)

lemma open_evolves:
  assumes "any_order w" and "manager_ok m"
  shows "evolves m (snd (open_channel w address m))"
  unfolding open_channel_def
proof (rule evolves_abind)
  show "evolves m (snd (channel_connect w address m))" by (rule connect_evolves [OF assms(2)])
  fix r m' assume c: "channel_connect w address m = (Done r, m')" and ev: "evolves m m'"
  show "evolves m' (snd ((case r of Inl e \<Rightarrow> aret (Inl e) | Inr c \<Rightarrow> athen (amod (insert_channel w c)) (aret (Inr c))) m'))"
    using c connect_fresh [OF assms(2)] insert_evolves(1) [OF assms(1) evolves_ok [OF ev]] evolves_refl [OF evolves_ok [OF ev]]
    by (cases r) (auto simp: athen_amod)
qed

lemma store_fields [simp]:
  "mg_count (store_channels_by_address w m) = mg_count m" "mg_info (store_channels_by_address w m) = mg_info m"
  "mg_channels (store_channels_by_address w m) = mg_channels m" "mg_topology (store_channels_by_address w m) = mg_topology m"
  "mg_closed (store_channels_by_address w m) = mg_closed m"
  by (simp_all add: store_channels_by_address_def Let_def)

lemma insert_fields [simp]:
  "mg_count (insert_channel w c m) = mg_count m" "mg_info (insert_channel w c m) = mg_info m"
  by (simp_all add: insert_channel_def Let_def)

text \<open>The channel that is opened: it is in the pool, and goes to the address.\<close>

lemma open_channel_Inr:
  assumes "any_order w" and "manager_ok m" and "open_channel w address m = (Done (Inr c), m')"
  shows "c < mg_count m' \<and> c \<in> pool m' \<and> address_of m' c = address"
proof -
  obtain m1 where c: "channel_connect w address m = (Done (Inr c), m1)" and m': "m' = insert_channel w c m1"
    using assms(3) by (auto simp: open_channel_def abind_def athen_amod split: prod.splits result.splits sum.splits)
  have ok: "manager_ok m1" using connect_evolves [OF assms(2), of w address] c by (simp add: evolves_def)
  show ?thesis
    using connect_fresh [OF assms(2) c] insert_evolves(2) [OF assms(1) ok] unfolding m' by (auto simp: address_of_def)
qed

section \<open>Identities, removals and discovery\<close>

lemma identity_evolves:
  assumes "any_order w" and "manager_ok m" and "c < mg_count m"
  shows "evolves m (cache_channel_identity w c m)"
proof (cases "node_id_of m c")
  case None
  then show ?thesis using assms(2) by (simp add: cache_channel_identity_def evolves_refl)
next
  case (Some nid)
  let ?tc = "record_node_endpoint nid (address_of m c) (record_node nid (mg_topology m))"
  have "topology_inv ?tc"
    using assms(2) inv_topology_step [OF topology_step.node_endpoint] inv_topology_step [OF topology_step.node]
    by (simp add: manager_ok_def pool_base_def)
  moreover have "manager_ok (refresh_default_candidates w (record_identity nid c m))"
    by (rule refresh_ok [OF assms(1)])
      (use assms Some calculation in \<open>auto simp: record_identity_def manager_ok_def pool_base_def index_ok_def active_ok_def\<close>)
  ultimately show ?thesis
    by (simp add: Some cache_channel_identity_def evolves_def refresh_default_candidates_def record_identity_def)
qed

lemma drop_base:
  assumes "pool_base m"
  shows "pool_base (m\<lparr>mg_channels := filter (\<lambda>(_, c). \<not> gone c) (mg_channels m),
    mg_closed := mg_closed m @ filter gone (map snd (mg_channels m))\<rparr>)" (is "pool_base ?m")
proof -
  have p: "pool ?m = {c \<in> pool m. \<not> gone c}" by (force simp: pool_def)
  have d: "distinct (map fst (filter (\<lambda>(_, c). \<not> gone c) (mg_channels m)))"
    "distinct (map snd (filter (\<lambda>(_, c). \<not> gone c) (mg_channels m)))"
    using assms by (auto simp: pool_base_def intro: distinct_map_filter)
  have "\<forall>c \<in> set (map snd (mg_channels m)). c < mg_count m" using assms by (auto simp: pool_base_def pool_def)
  then show ?thesis using assms d unfolding pool_base_def p by (auto simp: node_id_of_def keys_ok_filter)
qed

lemma drop_channels_swap:
  "drop_channels w gone m = store_channels_by_address w (m\<lparr>mg_channels := filter (\<lambda>(_, c). \<not> gone c) (mg_channels m),
    mg_closed := mg_closed m @ filter gone (map snd (mg_channels m))\<rparr>)"
  by (simp add: drop_channels_def store_channels_by_address_def Let_def pool_values_def build_channels_by_address_def address_of_def)

lemma drop_ok:
  assumes "any_order w" and "pool_base m" and "active_ok m"
  shows "manager_ok (drop_channels w gone m)"
  using store_ok [OF assms(1) drop_base [OF assms(2)]] assms(3) unfolding drop_channels_swap
  by (simp add: manager_ok_def store_active) (simp add: active_ok_def)

lemma drop_fields [simp]:
  "mg_count (drop_channels w gone m) = mg_count m" "mg_info (drop_channels w gone m) = mg_info m"
  "mg_topology (drop_channels w gone m) = mg_topology m"
  by (simp_all add: drop_channels_swap)

text \<open>After the removal of nodes no channel and no entry of theirs is left, and the channels are closed.\<close>

lemma prune_nodes_ok:
  assumes "any_order w" and "pool_base m" and "index_ok m" and "active_ok m"
  shows "pool_base (prune_removed_node_channels w removed m)" "index_ok (prune_removed_node_channels w removed m)"
    "active_ok (prune_removed_node_channels w removed m)"
proof -
  have "pool_base (m\<lparr>mg_node_channels := (mg_node_channels m) |` (- set removed)\<rparr>)"
    "active_ok (m\<lparr>mg_node_channels := (mg_node_channels m) |` (- set removed)\<rparr>)"
    using assms by (auto simp: pool_base_def active_ok_def restrict_map_def split: if_splits)
  note drop_ok [OF assms(1) this]
  then show "pool_base (prune_removed_node_channels w removed m)" "index_ok (prune_removed_node_channels w removed m)"
    "active_ok (prune_removed_node_channels w removed m)"
    using assms by (auto simp: prune_removed_node_channels_def manager_ok_def)
qed

lemma prune_fields [simp]:
  "mg_count (prune_removed_node_channels w removed m) = mg_count m"
  "mg_info (prune_removed_node_channels w removed m) = mg_info m"
  "mg_topology (prune_removed_node_channels w removed m) = mg_topology m"
  by (simp_all add: prune_removed_node_channels_def)

lemma discovery_evolves:
  assumes "any_order w" and "manager_ok m"
  shows "evolves m (apply_node_endpoints w resp added m)"
proof -
  let ?tc = "apply_discovery_update (TopologyVersion (ner_topology_version resp) 0) added (ner_removed_node_ids resp) (mg_topology m)"
  have "topology_inv ?tc" using assms(2) by (auto simp: manager_ok_def pool_base_def intro: inv_topology_step topology_step.discovery)
  then have "pool_base (m\<lparr>mg_topology := ?tc\<rparr>)" "index_ok (m\<lparr>mg_topology := ?tc\<rparr>)" "active_ok (m\<lparr>mg_topology := ?tc\<rparr>)"
    using assms(2) by (simp_all add: manager_ok_def pool_base_def index_ok_def active_ok_def)
  note ok = refresh_ok [OF assms(1) prune_nodes_ok [OF assms(1) this]]
  show ?thesis
    using ok by (simp add: evolves_def apply_node_endpoints_def Let_def) (simp add: refresh_default_candidates_def)
qed

lemma prune_seeds_evolves:
  assumes "any_order w" and "manager_ok m"
  shows "evolves m (prune_removed_seed_channels w removed active_address m)"
  using drop_ok [OF assms(1)] assms(2)
  by (simp add: prune_removed_seed_channels_def evolves_def Let_def manager_ok_def)

section \<open>Operations\<close>

lemma evolves_emit_then: "manager_ok m \<Longrightarrow> (\<And>m'. evolves m m' \<Longrightarrow> evolves m' (snd (n m'))) \<Longrightarrow>
  evolves m (snd (athen (amod (emit_conn kind a d)) n m))"
  by (rule evolves_athen) (auto simp: emit_evolves)

lemma internal_evolves: "manager_ok m \<Longrightarrow> evolves m (snd (internal_request w c op payload m))"
  by (auto simp: internal_request_def Let_def evolves_def split: sum.split flag.split)

lemma prime_channel_evolves:
  assumes "any_order w" and "manager_ok m"
  shows "evolves m (snd (prime_channel w address m))"
proof (cases "channel_for_address w m address")
  case (Some c)
  then show ?thesis using assms(2) by (simp add: prime_channel_def evolves_refl)
next
  case None
  have "evolves m (snd (athen (amod (emit_conn ConnectAttempt address None)) (abind (open_channel w address) (\<lambda>r. case r of
         Inr c \<Rightarrow> athen (amod (cache_channel_identity w c)) (amod (emit_conn Connected address None))
       | Inl err \<Rightarrow> amod (emit_conn ConnectFailed address (Some (err_desc err))))) m))"
  proof (intro evolves_emit_then assms(2) evolves_abind open_evolves assms(1))
    fix m1 r m2
    assume m1: "evolves m m1" and r: "open_channel w address m1 = (Done r, m2)" and m2: "evolves m1 m2"
    show "evolves m2 (snd ((case r of
         Inr c \<Rightarrow> athen (amod (cache_channel_identity w c)) (amod (emit_conn Connected address None))
       | Inl err \<Rightarrow> amod (emit_conn ConnectFailed address (Some (err_desc err)))) m2))"
    proof (cases r)
      case (Inl e)
      then show ?thesis using emit_evolves [OF evolves_ok [OF m2]] by simp
    next
      case (Inr c)
      have "evolves m2 (cache_channel_identity w c m2)"
        using open_channel_Inr [OF assms(1) evolves_ok [OF m1]] r Inr identity_evolves [OF assms(1) evolves_ok [OF m2]] by blast
      then show ?thesis using Inr emit_evolves [OF evolves_ok] evolves_trans by (simp add: athen_amod)
    qed
  qed (use evolves_ok in blast)
  then show ?thesis using None by (simp add: prime_channel_def)
qed

lemma prime_all_evolves: "any_order w \<Longrightarrow> manager_ok m \<Longrightarrow> evolves m (snd (prime_all w active addresses m))"
proof (induction addresses arbitrary: m)
  case Nil
  then show ?case by (simp add: evolves_refl)
next
  case (Cons a as)
  then show ?case
    by (auto intro!: evolves_athen evolves_refl prime_channel_evolves dest!: evolves_ok)
qed

lemma prime_evolves: "any_order w \<Longrightarrow> manager_ok m \<Longrightarrow> evolves m (snd (prime_discovered_channels w active m))"
  by (simp add: prime_discovered_channels_def prime_all_evolves)

lemma decode_state [simp]: "snd (decode_endpoints w bs m) = m"
  by (simp add: decode_endpoints_def split: result.split)

lemma refresh_topology_evolves:
  assumes "any_order w" and "manager_ok m"
  shows "evolves m (snd (refresh_topology_from_channel conf w c m))"
  unfolding refresh_topology_from_channel_def
  using assms
  by (auto intro!: evolves_abind evolves_athen internal_evolves evolves_refl prime_evolves discovery_evolves dest!: evolves_ok)

lemma connected_evolves:
  assumes "any_order w" and "manager_ok m" and "c < mg_count m"
  shows "evolves m (snd (on_channel_connected conf w c m))"
  unfolding on_channel_connected_def
proof (rule evolves_athen)
  show "evolves m (snd (amod (cache_channel_identity w c) m))" using identity_evolves [OF assms] by simp
  fix m1 assume "evolves m m1"
  then have ok: "manager_ok m1" by (rule evolves_ok)
  show "evolves m1 (snd (if \<not> cf_partition_awareness_enabled conf then (Done (), m1)
      else if connection_capabilities.node_endpoints (caps_of m1 c)
        then abind (atry (refresh_topology_from_channel conf w c)) (\<lambda>r. case r of
            Inr _ \<Rightarrow> aret ()
          | Inl err \<Rightarrow> athen (amod (emit_conn ConnectFailed (address_of m1 c)
                (Some (rstr ''failed to refresh discovered endpoints: '' @ describe w err))))
              (prime_discovered_channels w (address_of m1 c))) m1
        else prime_discovered_channels w (address_of m1 c) m1))"
    using ok assms(1)
    by (auto intro!: evolves_abind evolves_atry refresh_topology_evolves evolves_emit_then prime_evolves
        evolves_refl split: sum.split dest!: evolves_ok)
qed

lemma open_tagged_evolves:
  assumes "any_order w" and "manager_ok m"
  shows "evolves m (snd (athen (amod (emit_conn kind a d)) (abind (open_channel w address) (\<lambda>r. aret (g r))) m))"
  by (intro evolves_emit_then assms evolves_abind open_evolves) (auto intro: evolves_refl evolves_ok)

lemma take_evolves: "any_order w \<Longrightarrow> manager_ok m \<Longrightarrow> evolves m (snd (take_channel w reconnect address m))"
  unfolding take_channel_def by (auto intro: open_tagged_evolves evolves_refl split: option.split)

text \<open>A lookup by address returns an available channel of the pool to that address, if there is one.\<close>

lemma channel_for_address_Some:
  assumes "manager_ok m" and "channel_for_address w m address = Some c"
  shows "c \<in> pool m \<and> address_of m c = address \<and> channel_available w m c \<and> c < mg_count m"
proof -
  have "c \<in> set (group_of (mg_channels_by_address m) address)" "channel_available w m c"
    using assms(2) by (auto simp: channel_for_address_def find_Some_iff)
  then show ?thesis using assms(1) by (auto simp: manager_ok_def index_ok_def pool_base_def)
qed

lemma channel_for_address_None:
  assumes "manager_ok m" and "channel_for_address w m address = None" and "c \<in> pool m" and "address_of m c = address"
  shows "\<not> channel_available w m c"
proof -
  have "c \<in> set (group_of (mg_channels_by_address m) address)"
    using assms(1,3,4) by (auto simp: manager_ok_def index_ok_def)
  then show ?thesis using assms(2) by (auto simp: channel_for_address_def find_None_iff)
qed

lemma tagged_Inr: "map_sum id (\<lambda>c. (c, True)) x = Inr (c, n) \<longleftrightarrow> x = Inr c \<and> n"
  by (cases x) auto

lemma take_channel_Inr:
  assumes "any_order w" and "manager_ok m" and "take_channel w reconnect address m = (Done (Inr (c, new)), m')"
  shows "c < mg_count m' \<and> address_of m' c = address"
proof -
  have opened: "c < mg_count m' \<and> address_of m' c = address"
    if "athen (amod (emit_conn kind address None)) (abind (open_channel w address) (\<lambda>r. aret (map_sum id (\<lambda>c. (c, True)) r))) m =
      (Done (Inr (c, new)), m')" for kind
  proof -
    obtain r m1 where o1: "open_channel w address (emit_conn kind address None m) = (r, m1)" by fastforce
    then have "r = Done (Inr c)" "m1 = m'"
      using that by (cases r; auto simp: athen_amod abind_def tagged_Inr)+
    then show ?thesis
      using open_channel_Inr [OF assms(1) evolves_ok [OF emit_evolves [OF assms(2)]]] o1 by blast
  qed
  show ?thesis
    using assms(3) opened channel_for_address_Some [OF assms(2)]
    by (auto simp: take_channel_def split: option.splits if_splits)
qed

lemma connect_loop_evolves:
  assumes "any_order w" and "manager_ok m"
  shows "evolves m (snd (connect_loop conf w reconnect addresses errors m))"
  using assms(2)
proof (induction addresses arbitrary: m errors)
  case Nil
  then show ?case by (simp add: evolves_refl)
next
  case (Cons a as)
  show ?case unfolding connect_loop.simps
  proof (rule evolves_abind)
    show "evolves m (snd (take_channel w reconnect a m))" by (rule take_evolves [OF assms(1) Cons.prems])
    fix r m1 assume r: "take_channel w reconnect a m = (Done r, m1)" and m1: "evolves m m1"
    note ok = evolves_ok [OF m1]
    show "evolves m1 (snd ((case r of
        Inr (c, inserted_new) \<Rightarrow>
          athen (if inserted_new then on_channel_connected conf w c else aret ())
          (athen (amod (topology_mark_active a))
          (athen (amod (emit_conn (if reconnect then Reconnected else Connected) a None)) (aret c)))
      | Inl err \<Rightarrow>
          athen (amod (emit_conn ConnectFailed a (Some (err_desc err))))
            (connect_loop conf w reconnect as (errors @ [err]))) m1))"
    proof (cases r)
      case (Inl e)
      then show ?thesis using Cons.IH ok by (auto intro!: evolves_emit_then dest!: evolves_ok)
    next
      case (Inr cn)
      obtain c new where cn: "cn = (c, new)" by fastforce
      have c: "c < mg_count m1" using take_channel_Inr [OF assms(1) Cons.prems] r Inr cn by blast
      show ?thesis
        unfolding Inr cn sum.case prod.case
        using ok c assms(1)
        by (auto intro!: evolves_athen connected_evolves evolves_refl mark_evolves emit_evolves dest!: evolves_ok)
    qed
  qed
qed

lemma connect_any_evolves: "any_order w \<Longrightarrow> manager_ok m \<Longrightarrow> evolves m (snd (connect_any conf w start reconnect m))"
  by (simp add: connect_any_def connect_loop_evolves)

text \<open>The channel \<open>connect_any\<close> returns goes to one of the endpoints.\<close>

lemma connect_loop_Done:
  assumes "any_order w" and "manager_ok m" and "connect_loop conf w reconnect addresses errors m = (Done c, m')"
  shows "c < mg_count m' \<and> address_of m' c \<in> set addresses"
  using assms(2,3)
proof (induction addresses arbitrary: m errors)
  case Nil
  then show ?case by simp
next
  case (Cons a as)
  obtain r m1 where r: "take_channel w reconnect a m = (r, m1)" by fastforce
  then obtain x where x: "r = Done x" using Cons.prems(2) by (cases r) (auto simp: abind_def)
  have m1: "evolves m m1" using take_evolves [OF assms(1) Cons.prems(1), of reconnect a] r by simp
  show ?case
  proof (cases x)
    case (Inl e)
    have "connect_loop conf w reconnect as (errors @ [e]) (emit_conn ConnectFailed a (Some (err_desc e)) m1) = (Done c, m')"
      using Cons.prems(2) r x Inl by (simp add: athen_amod)
    from Cons.IH [OF evolves_ok [OF emit_evolves [OF evolves_ok [OF m1]]] this] show ?thesis by simp
  next
    case (Inr cn)
    obtain d new where cn: "cn = (d, new)" by fastforce
    have d: "d < mg_count m1" "address_of m1 d = a" using take_channel_Inr [OF assms(1) Cons.prems(1)] r x Inr cn by blast+
    let ?first = "if new then on_channel_connected conf w d else aret ()"
    have ev: "evolves m1 (snd (?first m1))"
      using connected_evolves [OF assms(1) evolves_ok [OF m1] d(1)] evolves_refl [OF evolves_ok [OF m1]] by simp
    have "athen ?first (athen (amod (topology_mark_active a))
          (athen (amod (emit_conn (if reconnect then Reconnected else Connected) a None)) (aret d))) m1 = (Done c, m')"
      using Cons.prems(2) r x Inr cn by simp
    then obtain m2 where m2: "?first m1 = (Done (), m2)" "d = c"
      "m' = emit_conn (if reconnect then Reconnected else Connected) a None (topology_mark_active a m2)"
      by (auto simp: athen_def abind_def split: prod.splits result.splits)
    have "c < mg_count m2" "address_of m2 c = a" using evolvesD [OF ev, of d] d m2 by auto
    then show ?thesis using m2(3) by (simp add: emit_conn_def topology_mark_active_def address_of_def)
  qed
qed

lemma connect_specific_evolves:
  assumes "any_order w" and "manager_ok m"
  shows "evolves m (snd (connect_specific conf w address m))"
proof (cases "channel_for_address w m address")
  case (Some c)
  then show ?thesis using assms(2) by (simp add: connect_specific_def evolves_refl)
next
  case None
  have "evolves m (snd (athen (amod (emit_conn ConnectAttempt address None)) (abind (open_channel w address) (\<lambda>r. case r of
          Inl e \<Rightarrow> afail (CError e)
        | Inr c \<Rightarrow> athen (on_channel_connected conf w c)
            (athen (amod (emit_conn Connected address None)) (aret c)))) m))"
    using assms
    by (auto intro!: evolves_emit_then evolves_abind open_evolves evolves_athen connected_evolves evolves_refl emit_evolves
        split: sum.split dest!: evolves_ok dest: open_channel_Inr [OF assms(1), THEN conjunct1])
  then show ?thesis using None by (simp add: connect_specific_def)
qed

lemma active_evolves: "manager_ok m \<Longrightarrow> c < mg_count m \<Longrightarrow> evolves m (set_active c m)"
  by (simp add: evolves_def set_active_def manager_ok_def pool_base_def index_ok_def candidates_ok_def active_ok_def pool_def
      address_of_def node_id_of_def)

lemma refresh_seeds_evolves:
  assumes "any_order w" and "manager_ok m"
  shows "evolves m (snd (refresh_seed_endpoints conf w m))"
proof -
  have "evolves m' (refresh_default_candidates w (m'\<lparr>mg_topology := tc\<rparr>))"
    if "manager_ok m'" "replace_seed_endpoints seeds (mg_topology m') = (removed, tc)" for m' seeds removed tc
    using that inv_topology_step [OF topology_step.replace_seeds, of "mg_topology m'" seeds]
    by (intro topology_refreshed [OF assms(1)]) (auto simp: manager_ok_def pool_base_def)
  then show ?thesis
    using assms(2) unfolding refresh_seed_endpoints_def
    by (auto intro!: evolves_abind evolves_refl split: prod.split dest!: evolves_ok)
qed

lemma reconnect_evolves:
  assumes "any_order w" and "manager_ok m"
  shows "evolves m (snd (reconnect_from conf w now failed_address m))"
proof -
  define tail where "tail = abind (refresh_seed_endpoints conf w) (\<lambda>removed.
    abind (aget (\<lambda>m. next_index_after failed_address (mg_topology m))) (\<lambda>start_index.
    abind (connect_any conf w start_index True) (\<lambda>c.
    athen (amod (set_active c))
    (athen (amod (\<lambda>m. prune_removed_seed_channels w removed (address_of m c) m)) (aret c)))))"
  have tail: "evolves m' (snd (tail m'))" if "manager_ok m'" for m'
    unfolding tail_def using that assms(1)
    by (auto intro!: evolves_abind refresh_seeds_evolves evolves_athen connect_any_evolves active_evolves prune_seeds_evolves
        evolves_refl connect_loop_evolves dest!: evolves_ok dest: connect_loop_Done [OF assms(1), THEN conjunct1] simp: connect_any_def)
  have attempts: "evolves m (snd (abind (lift_error r) (\<lambda>_. tail) (m\<lparr>mg_reconnect_attempts := attempts\<rparr>)))" for r attempts
  proof (rule evolves_trans)
    show "evolves m (m\<lparr>mg_reconnect_attempts := attempts\<rparr>)" using assms(2) by (simp add: evolves_def)
    show "evolves (m\<lparr>mg_reconnect_attempts := attempts\<rparr>)
        (snd (abind (lift_error r) (\<lambda>_. tail) (m\<lparr>mg_reconnect_attempts := attempts\<rparr>)))"
      using assms(2) by (auto intro!: evolves_abind evolves_refl tail dest!: evolves_ok)
  qed
  show ?thesis
    using assms(2) attempts unfolding reconnect_from_def tail_def by (auto intro: evolves_refl split: prod.split)
qed

lemma first_reachable_evolves: "any_order w \<Longrightarrow> manager_ok m \<Longrightarrow> evolves m (snd (first_reachable conf w eps m))"
proof (induction eps arbitrary: m)
  case Nil
  then show ?case by (simp add: evolves_refl)
next
  case (Cons e es)
  then show ?case
    by (auto intro!: evolves_abind evolves_atry connect_specific_evolves evolves_refl split: option.split sum.split dest!: evolves_ok)
qed

lemma node_slow_evolves:
  assumes "any_order w" and "manager_ok m"
  shows "evolves m (snd (channel_for_node_slow conf w nid m))"
proof (cases "List.find (\<lambda>c. channel_available w m c \<and> node_id_of m c = Some nid) (pool_values w m)")
  case None
  then show ?thesis using first_reachable_evolves [OF assms] by (simp add: channel_for_node_slow_def)
next
  case (Some c)
  then have "c \<in> pool m" "node_id_of m c = Some nid"
    using pool_values_set [OF assms(1), of m] by (auto simp: find_Some_iff set_conv_nth)
  then show ?thesis
    using Some assms(2)
    by (auto simp: channel_for_node_slow_def evolves_def manager_ok_def pool_base_def index_ok_def candidates_ok_def active_ok_def)
qed

lemma channel_for_node_evolves:
  "any_order w \<Longrightarrow> manager_ok m \<Longrightarrow> evolves m (snd (channel_for_node_id conf w nid m))"
  unfolding channel_for_node_id_def by (auto intro: node_slow_evolves evolves_refl split: option.split)

lemma affinity_evolves: "manager_ok m \<Longrightarrow> affinity_inv ac \<Longrightarrow> evolves m (m\<lparr>mg_affinity := ac\<rparr>)"
  by (simp add: evolves_def manager_ok_def pool_base_def index_ok_def candidates_ok_def active_ok_def pool_def
      address_of_def node_id_of_def)

text \<open>The changes of the topology that leave the endpoints alone.\<close>

lemma quiet_topology:
  assumes "manager_ok m"
  shows "evolves m (m\<lparr>mg_topology := clear_current_dc_nodes (mg_topology m)\<rparr>)"
    and "evolves m (m\<lparr>mg_topology := set_topology_version v (mg_topology m)\<rparr>)"
    and "evolves m (m\<lparr>mg_topology := set_current_dc_nodes ns (mg_topology m)\<rparr>)"
proof -
  have inv: "topology_inv (mg_topology m)" using assms by (simp add: manager_ok_def pool_base_def)
  show "evolves m (m\<lparr>mg_topology := clear_current_dc_nodes (mg_topology m)\<rparr>)"
    by (rule topology_evolves [OF assms inv_topology_step [OF topology_step.clear_dc inv]]) (simp add: clear_current_dc_nodes_def)
  show "evolves m (m\<lparr>mg_topology := set_topology_version v (mg_topology m)\<rparr>)"
    by (rule topology_evolves [OF assms inv_topology_step [OF topology_step.version inv]]) (simp add: set_topology_version_def)
  show "evolves m (m\<lparr>mg_topology := set_current_dc_nodes ns (mg_topology m)\<rparr>)"
    by (rule topology_evolves [OF assms inv_topology_step [OF topology_step.dc_nodes inv]]) (simp add: set_current_dc_nodes_def)
qed

lemma topology_change_evolves:
  assumes "any_order w" and "manager_ok m"
  shows "evolves m (snd (handle_topology_change conf w version m))"
proof -
  let ?m1 = "m\<lparr>mg_affinity := invalidate (mg_affinity m), mg_topology := clear_current_dc_nodes (mg_topology m)\<rparr>"
  have "affinity_inv (invalidate (mg_affinity m))" using assms(2) by (simp add: manager_ok_def pool_base_def inv_invalidate)
  from affinity_evolves [OF assms(2) this] have e1: "evolves m ?m1"
    using quiet_topology(1) [OF evolves_ok] evolves_trans by fastforce
  have "evolves ?m1 (snd (abind (atry (refresh_topology_from_channel conf w (mg_active m))) (\<lambda>_. aret ()) ?m1))"
    using evolves_ok [OF e1] assms(1) by (auto intro!: evolves_abind evolves_atry refresh_topology_evolves evolves_refl dest!: evolves_ok)
  moreover have "evolves ?m1 (?m1\<lparr>mg_topology := set_topology_version version (mg_topology ?m1)\<rparr>)"
    by (rule quiet_topology(2) [OF evolves_ok [OF e1]])
  ultimately show ?thesis
    using evolves_refl [OF assms(2)] evolves_trans [OF e1] by (auto simp: handle_topology_change_def Let_def)
qed

lemma data_center_evolves: "manager_ok m \<Longrightarrow> evolves m (snd (refresh_data_center_nodes conf w m))"
  unfolding refresh_data_center_nodes_def send_internal_and_read_on_channel_def
  by (auto intro!: evolves_abind internal_evolves quiet_topology evolves_refl simp: Let_def split: option.split dest!: evolves_ok)

lemma next_index_evolves: "manager_ok m \<Longrightarrow> evolves m (next_default_index m)"
  by (simp add: evolves_def next_default_index_def)

lemma default_evolves: "manager_ok m \<Longrightarrow> evolves m (snd (default_channel conf w m))"
  by (auto simp: default_channel_def default_channel_dc_aware_def Let_def evolves_refl next_index_evolves split: option.split)

section \<open>Start\<close>

text \<open>While the first channels are opened there is no active channel yet.\<close>

definition early :: "nat \<Rightarrow> manager \<Rightarrow> bool" where
  "early n m \<longleftrightarrow> pool_base m \<and> (\<forall>key \<in> fst ` set (mg_channels m). \<exists>i < n. key_tag key = (108, fmt_nat i))"

lemma early_blank: "bus_ok bus \<Longrightarrow> early 0 (blank_manager conf seeds bus)"
  by (simp add: early_def pool_base_def blank_manager_def pool_def keys_ok_def inv_topology_new inv_new)

lemma early_emit: "early n m \<Longrightarrow> early n (emit_conn kind address detail m)"
  using bus_ok_step [OF bus_step.connection, of "mg_event_bus m"] by (simp add: early_def pool_base_def emit_conn_def)

lemma early_mark: "early n m \<Longrightarrow> early n (topology_mark_active address m)"
  using inv_topology_step [OF topology_step.mark, of "mg_topology m"]
  by (simp add: early_def pool_base_def topology_mark_active_def)

lemma early_connect: "early n m \<Longrightarrow> early n (snd (channel_connect w address m))"
  by (simp add: early_def connect_base(1))

lemma early_pool_channel:
  assumes "early n m" and "n \<le> i" and "c < mg_count m" and "c \<notin> pool m" and "c \<notin> set (mg_closed m)"
  shows "early (Suc i) (pool_channel address i c m)" and "c \<in> pool (pool_channel address i c m)"
proof -
  let ?key = "address @ rstr ''#pool'' @ fmt_nat i"
  have "?key \<notin> fst ` set (mg_channels m)"
    using assms(1,2) key_tag_suffix(2) [of address i] by (fastforce simp: early_def fmt_nat_inj)
  note ins = pool_insert_fresh [OF this] this
  have p: "pool (pool_channel address i c m) = insert c (pool m)" by (auto simp: pool_channel_def pool_def ins(1))
  show "c \<in> pool (pool_channel address i c m)" by (simp add: p)
  have "keys_ok (mg_next_channel_key m) (mg_channels m @ [(?key, c)])"
    using assms(1) key_tag_suffix(2) [of address i] by (auto simp: early_def pool_base_def keys_ok_def)
  then have "pool_base (pool_channel address i c m)"
    using assms ins(2) unfolding early_def pool_base_def p by (auto simp: pool_channel_def ins(1) pool_def)
  moreover have "\<exists>j < Suc i. key_tag key = (108, fmt_nat j)" if "key = ?key \<or> key \<in> fst ` set (mg_channels m)" for key
    using that assms(1,2) key_tag_suffix(2) [of address i] unfolding early_def by (meson less_SucI less_le_trans lessI)
  ultimately show "early (Suc i) (pool_channel address i c m)" by (auto simp: early_def pool_channel_def ins(1))
qed

lemma early_mono: "early n m \<Longrightarrow> n \<le> k \<Longrightarrow> early k m"
  unfolding early_def by (meson less_le_trans)

text \<open>The channel the first connection yields is known and in no pool yet.\<close>

definition unpooled :: "manager \<Rightarrow> nat \<Rightarrow> bool" where
  "unpooled m c \<longleftrightarrow> c < mg_count m \<and> c \<notin> pool m \<and> c \<notin> set (mg_closed m)"

lemma initial_loop_early:
  "early n m \<Longrightarrow> early n (snd (initial_loop w reconnect addresses errors m)) \<and>
    (\<forall>c m'. initial_loop w reconnect addresses errors m = (Done (Inr c), m') \<longrightarrow> unpooled m' c)"
proof (induction addresses arbitrary: m errors)
  case Nil
  then show ?case by simp
next
  case (Cons a as)
  let ?m0 = "emit_conn (if reconnect then ReconnectAttempt else ConnectAttempt) a None m"
  have m0: "early n ?m0" by (rule early_emit [OF Cons.prems])
  obtain r m1 where c: "channel_connect w a ?m0 = (Done r, m1)" using connect_Done by blast
  have m1: "early n m1" using early_connect [OF m0, of w a] c by simp
  show ?case
  proof (cases r)
    case (Inl e)
    then show ?thesis using Cons.IH [OF early_emit [OF m1]] c by (simp add: athen_amod)
  next
    case (Inr d)
    have "unpooled m1 d" using connect_base(2) [of ?m0 w a d m1] m0 c Inr by (simp add: early_def unpooled_def)
    then show ?thesis
      using early_emit [OF early_mark [OF m1]] c Inr
      by (simp add: athen_amod unpooled_def pool_def emit_conn_def topology_mark_active_def)
  qed
qed

lemma initial_rounds_early:
  "early n m \<Longrightarrow> early n (snd (initial_rounds w start reconnect k errors m)) \<and>
    (\<forall>c m'. initial_rounds w start reconnect k errors m = (Done c, m') \<longrightarrow> unpooled m' c)"
proof (induction k arbitrary: m errors)
  case 0
  then show ?case by simp
next
  case (Suc k)
  obtain r m1 where r: "connect_any_initial_once w start reconnect m = (r, m1)" by fastforce
  have m1: "early n m1" "\<And>c. r = Done (Inr c) \<Longrightarrow> unpooled m1 c"
    using initial_loop_early [OF Suc.prems, of w reconnect] r by (simp_all add: connect_any_initial_once_def) (metis snd_conv)+
  show ?case
    using Suc.IH [OF m1(1)] m1 r by (cases r) (auto simp: abind_def split: sum.split)
qed

lemma fill_pool_early:
  "early n m \<Longrightarrow> sorted is \<Longrightarrow> distinct is \<Longrightarrow> \<forall>i \<in> set is. n \<le> i \<Longrightarrow>
    pool_base (snd (fill_pool w address is m)) \<and> mg_count m \<le> mg_count (snd (fill_pool w address is m))"
proof (induction "is" arbitrary: n m)
  case Nil
  then show ?case by (simp add: early_def)
next
  case (Cons i "is")
  obtain r m1 where c: "channel_connect w address m = (Done r, m1)" using connect_Done by blast
  have m1: "early n m1" "mg_count m \<le> mg_count m1"
    using early_connect [OF Cons.prems(1), of w address] connect_fields(13) [of m w address] c by simp_all
  let ?m2 = "case r of Inr c \<Rightarrow> pool_channel address i c m1 | Inl _ \<Rightarrow> m1"
  have "early (Suc i) ?m2"
  proof (cases r)
    case (Inl e)
    then show ?thesis using early_mono [OF m1(1), of "Suc i"] Cons.prems(4) by simp
  next
    case (Inr d)
    then show ?thesis
      using early_pool_channel(1) [OF m1(1), of i d address] connect_base(2) [of m w address d m1] Cons.prems(1,4) c
      by (simp add: early_def)
  qed
  moreover have "mg_count ?m2 = mg_count m1" by (simp add: pool_channel_def split: sum.split)
  moreover have "fill_pool w address (i # is) m = fill_pool w address is ?m2"
    using c by (cases r) (simp_all add: athen_amod athen_def)
  moreover have "sorted is" "distinct is" "\<forall>j \<in> set is. Suc i \<le> j" using Cons.prems(2,3) by (auto simp: Suc_le_eq less_le)
  ultimately show ?case using Cons.IH [of "Suc i" ?m2] m1(2) by simp
qed

lemma new_manager_ok:
  assumes "any_order w" and "bus_ok bus" and "new_manager conf w cursor bus = (Done (), m)"
  shows "manager_ok m"
proof -
  obtain seeds where seeds: "normalized_addresses conf = Inr seeds" and "validate conf = Inr ()"
    using assms(3) by (auto simp: new_manager_def split: sum.splits)
  let ?m0 = "blank_manager conf seeds bus"
  let ?first = "connect_any_initial conf w (initial_start_index cursor seeds) False"
  obtain r m1 where r: "?first ?m0 = (r, m1)" by fastforce
  then obtain c where c: "r = Done c" using assms(3) seeds \<open>validate conf = Inr ()\<close> by (cases r) (auto simp: new_manager_def abind_def)
  have m1: "early 0 m1" "unpooled m1 c"
    using initial_rounds_early [OF early_blank [OF assms(2), of conf seeds], of w "initial_start_index cursor seeds" False "cf_retry_limit conf + 1" "[]"] r c
    by (simp_all add: connect_any_initial_def del: initial_rounds.simps)
  let ?m2 = "pool_channel (address_of m1 c) 0 c m1"
  have m2: "early (Suc 0) ?m2" "mg_count ?m2 = mg_count m1"
    using early_pool_channel(1) [OF m1(1), of 0 c] m1(2) by (simp_all add: unpooled_def) (simp add: pool_channel_def)
  obtain r3 m3 where r3: "fill_pool w (address_of m1 c) [1..<cf_connection_pool_size conf] ?m2 = (r3, m3)" by fastforce
  have m3: "pool_base m3" "c < mg_count m3"
    using fill_pool_early [OF m2(1), of "[1..<cf_connection_pool_size conf]" w "address_of m1 c"] r3 m1(2) m2(2)
    by (auto simp: unpooled_def)
  let ?m4 = "set_active c (store_channels_by_address w m3)"
  have m4: "manager_ok ?m4" "c < mg_count ?m4"
    using store_ok [OF assms(1) m3(1)] m3(2)
    by (simp_all add: manager_ok_def set_active_def active_ok_def pool_base_def index_ok_def candidates_ok_def pool_def
        address_of_def node_id_of_def)
  let ?life = "\<lambda>m. m\<lparr>mg_event_bus := emit_lifecycle LifeCreated None (mg_event_bus m)\<rparr>"
  have "r3 = Done ()" "m = ?life (snd (on_channel_connected conf w c ?m4))"
    using assms(3) seeds \<open>validate conf = Inr ()\<close> r c r3
    by (cases r3; cases "fst (on_channel_connected conf w c ?m4)";
        auto simp: new_manager_def athen_amod athen_def abind_def split: prod.splits result.splits)+
  moreover have "manager_ok (?life m')" if "manager_ok m'" for m'
    using that bus_ok_step [OF bus_step.lifecycle, of "mg_event_bus m'"]
    by (simp add: manager_ok_def pool_base_def index_ok_def candidates_ok_def active_ok_def)
  ultimately show ?thesis using evolves_ok [OF connected_evolves [OF assms(1) m4]] by blast
qed

end
