(* ===== verification/ManagerTrips.thy ===== *)
theory ManagerTrips
  imports ManagerPool
begin

text \<open>
  Requests through the channel manager, \<open>ignite-rs/src/transport.rs\<close>: the retry loop on the state of
  \<open>Manager\<close>, the routes, the lookup of the node of a key, the capabilities that callers ask for, the heartbeat and
  the end of a manager. The loop is shown to be a run of the loop of \<open>RoundTrip\<close>, whose world is what the manager
  and the network do.
\<close>

section \<open>The retry loop on the manager\<close>

definition emit_req :: "bool \<Rightarrow> request_event_kind \<Rightarrow> i16 \<Rightarrow> i64 \<Rightarrow> rstring \<Rightarrow> rstring option \<Rightarrow> manager \<Rightarrow> manager" where
  "emit_req track kind op_code corr_id address detail m =
    (if track then m\<lparr>mg_event_bus := emit_request kind op_code corr_id address detail (mg_event_bus m)\<rparr> else m)"

definition emit_outcome :: "bool \<Rightarrow> i16 \<Rightarrow> i64 \<Rightarrow> rstring \<Rightarrow> response_frame \<Rightarrow> manager \<Rightarrow> manager" where
  "emit_outcome track op_code corr_id address response = (case frame_flag response of
      Success \<Rightarrow> emit_req track ReqSucceeded op_code corr_id address None
    | Failure _ err_msg \<Rightarrow> emit_req track ReqFailed op_code corr_id address (Some err_msg))"

definition tick :: "manager \<Rightarrow> manager" where
  "tick m = m\<lparr>mg_clock := mg_clock m + 1\<rparr>"

text \<open>A response: its topology version is handled, then the outcome is announced.\<close>

definition trip_response ::
    "client_config \<Rightarrow> mworld \<Rightarrow> bool \<Rightarrow> i16 \<Rightarrow> i64 \<Rightarrow> rstring \<Rightarrow> response_frame \<Rightarrow> unit mact" where
  "trip_response conf w track op_code corr_id address response =
    athen (case frame_topology_version response of
        Some version \<Rightarrow> handle_topology_change conf w version
      | None \<Rightarrow> aret ())
    (amod (emit_outcome track op_code corr_id address response))"

text \<open>The error of a reconnect, which the loop returns.\<close>

definition ignite_of :: "mworld \<Rightarrow> conn_error \<Rightarrow> ignite_error" where
  "ignite_of w e = (case e of CError x \<Rightarrow> x | _ \<Rightarrow> err_new (describe w e))"

text \<open>\<open>round_trip_internal\<close> from an attempt on; \<open>now\<close> is the instant of a reconnect. Beside the result it returns
  the trace of its actions.\<close>

function trip_loop ::
    "client_config \<Rightarrow> mworld \<Rightarrow> (nat \<Rightarrow> nat) \<Rightarrow> bool \<Rightarrow> i16 \<Rightarrow> i64 \<Rightarrow> nat \<Rightarrow> bool \<Rightarrow> bytes \<Rightarrow> (action list \<times> round_trip_result) mact" where
  "trip_loop conf w now track op_code corr_id attempt started request m =
    (let max_attempts = cf_retry_limit conf;
         (c, m0) = default_channel conf w m;
         address = address_of m0 c;
         starts = (track \<and> \<not> started);
         m1 = emit_req starts ReqStarted op_code corr_id address None m0;
         start = (if starts then [AStarted address] else []);
         is_last = (max_attempts \<le> attempt + 1);
         (req, request') = (if is_last then (request, []) else (request, request));
         m2 = tick m1
     in case mw_request w (mg_clock m1) c req of
          Inr response \<Rightarrow>
            abind (trip_response conf w track op_code corr_id address response) (\<lambda>_.
              aret (start @ [ARequest address req] @ topology_actions response @ outcome_events track address response,
                response_result address response)) m2
        | Inl err \<Rightarrow>
            (let failed = start @ [ARequest address req] @ (if track then [AFailed address (err_desc err)] else []);
                 m3 = emit_req track ReqFailed op_code corr_id address (Some (err_desc err)) m2
             in case should_retry (cf_retry_policy conf) op_code (attempt + 1) address err of
                  Inl e \<Rightarrow> (Done (failed, Inl e), m3)
                | Inr False \<Rightarrow> (Done (failed, Inl err), m3)
                | Inr True \<Rightarrow>
                    (let m4 = emit_conn ConnClosed address (Some (err_desc err)) m3
                     in if max_attempts \<le> attempt then (Done (failed @ [AClosed address (err_desc err)], Inl err), m4)
                        else let m5 = emit_req track ReqRetried op_code corr_id address (Some (err_desc err)) m4;
                                 retried = failed @ [AClosed address (err_desc err)] @
                                   (if track then [ARetried address (err_desc err)] else []) @ [AReconnect address]
                             in case reconnect_from conf w (now (mg_clock m5)) address m5 of
                                  (Failed e, m6) \<Rightarrow> (Done (retried, Inl (ignite_of w e)), m6)
                                | (Panicked, m6) \<Rightarrow> (Panicked, m6)
                                | (Unfinished, m6) \<Rightarrow> (Unfinished, m6)
                                | (Done _, m6) \<Rightarrow>
                                    (case trip_loop conf w now track op_code corr_id (attempt + 1) (started \<or> track) request' m6 of
                                       (Done (acts, result), m7) \<Rightarrow> (Done (retried @ acts, result), m7)
                                     | r \<Rightarrow> r))))"
  by pat_completeness auto
termination
  by (relation "measure (\<lambda>(conf, w, now, track, op_code, corr_id, attempt, started, request, m). Suc (cf_retry_limit conf) - attempt)") auto

declare trip_loop.simps [simp del]

definition trip_internal ::
    "client_config \<Rightarrow> mworld \<Rightarrow> (nat \<Rightarrow> nat) \<Rightarrow> bool \<Rightarrow> i16 \<Rightarrow> i64 \<Rightarrow> bytes \<Rightarrow> (action list \<times> round_trip_result) mact" where
  "trip_internal conf w now emit_request_events op_code corr_id request m =
    trip_loop conf w now (emit_request_events \<and> has_request_subscribers (mg_event_bus m)) op_code corr_id 0 False request m"

section \<open>Routes on the manager\<close>

definition select_channel :: "client_config \<Rightarrow> mworld \<Rightarrow> request_route \<Rightarrow> nat option mact" where
  "select_channel conf w route m = (case pinned_address route of
      Some address \<Rightarrow> (Done (channel_for_address w m address), m)
    | None \<Rightarrow> (case preferred_node_id route of
        Some nid \<Rightarrow> channel_for_node_id conf w nid m
      | None \<Rightarrow> (Done None, m)))"

definition prepend :: "action list \<Rightarrow> (action list \<times> round_trip_result) mact \<Rightarrow> (action list \<times> round_trip_result) mact" where
  "prepend acts act = abind act (\<lambda>(more_acts, result). aret (acts @ more_acts, result))"

definition trip_once ::
    "client_config \<Rightarrow> mworld \<Rightarrow> (nat \<Rightarrow> nat) \<Rightarrow> bool \<Rightarrow> i16 \<Rightarrow> i64 \<Rightarrow> bytes \<Rightarrow> request_route \<Rightarrow> nat \<Rightarrow>
     (action list \<times> round_trip_result) mact" where
  "trip_once conf w now emit_request_events op_code corr_id request route c m =
    (let track = (emit_request_events \<and> has_request_subscribers (mg_event_bus m));
         address = address_of m c;
         m1 = emit_req track ReqStarted op_code corr_id address None m;
         start = (if track then [AStarted address] else []) @ [ARequest address request];
         m2 = tick m1
     in case mw_request w (mg_clock m1) c request of
          Inr response \<Rightarrow>
            abind (trip_response conf w track op_code corr_id address response) (\<lambda>_.
              aret (start @ topology_actions response @ outcome_events track address response, response_result address response)) m2
        | Inl err \<Rightarrow>
            (let m3 = emit_conn ConnClosed address (Some (err_desc err))
                   (emit_req track ReqFailed op_code corr_id address (Some (err_desc err)) m2);
                 failed = start @ (if track then [AFailed address (err_desc err)] else []) @ [AClosed address (err_desc err)]
             in if allow_retry route
                then prepend (failed @ [AInvalidateAffinity])
                  (trip_internal conf w now emit_request_events op_code corr_id request)
                  (m3\<lparr>mg_affinity := invalidate (mg_affinity m3)\<rparr>)
                else (Done (failed, Inl err), m3)))"

definition trip_with_route ::
    "client_config \<Rightarrow> mworld \<Rightarrow> (nat \<Rightarrow> nat) \<Rightarrow> bool \<Rightarrow> i16 \<Rightarrow> i64 \<Rightarrow> bytes \<Rightarrow> request_route \<Rightarrow>
     (action list \<times> round_trip_result) mact" where
  "trip_with_route conf w now emit_request_events op_code corr_id request route =
    (if route_is_default route then trip_internal conf w now emit_request_events op_code corr_id request
     else abind (select_channel conf w route) (\<lambda>selected. case selected of
         Some c \<Rightarrow> trip_once conf w now emit_request_events op_code corr_id request route c
       | None \<Rightarrow>
           (if pinned_address route = None then trip_internal conf w now emit_request_events op_code corr_id request
            else aret ([], Inl lost_context))))"

section \<open>The node of a key\<close>

text \<open>\<open>send_and_get_payload_with_meta\<close> for a payload that is written without fail.\<close>

definition get_payload_with_meta ::
    "client_config \<Rightarrow> mworld \<Rightarrow> (nat \<Rightarrow> nat) \<Rightarrow> op_code \<Rightarrow> bytes \<Rightarrow> request_route \<Rightarrow> (bytes \<times> rstring) mact" where
  "get_payload_with_meta conf w now op payload route m =
    (let corr_id = mg_next_correlation_id m; m1 = m\<lparr>mg_next_correlation_id := corr_id + 1\<rparr>
     in case run (encode_request_into (op_code_i16 op) corr_id (wr payload)) of
          Inl e \<Rightarrow> (Failed (CDecode (IoE e)), m1)
        | Inr request \<Rightarrow>
            abind (trip_with_route conf w now True (op_code_i16 op) corr_id request route) (\<lambda>(_, result). case result of
                Inl e \<Rightarrow> afail (CError e)
              | Inr (Success, body, offset, address) \<Rightarrow> aret (drop offset body, address)
              | Inr (Failure status err_msg, _, _, _) \<Rightarrow> afail (CError (from_server_status status err_msg))) m1)"

definition invalidate_affinity_cache :: "i32 \<Rightarrow> manager \<Rightarrow> manager" where
  "invalidate_affinity_cache cache_id m = m\<lparr>mg_affinity := invalidate_cache cache_id (mg_affinity m)\<rparr>"

definition partitions_request :: "client_config \<Rightarrow> manager \<Rightarrow> i32 \<Rightarrow> cache_partitions_request" where
  "partitions_request conf m cache_id = \<lparr>
     cache_partitions_request.all_affinity_mappings = connection_capabilities.all_affinity_mappings (caps_of m (mg_active m)),
     custom_mappings_required = False,
     include_dc_id = connection_capabilities.dc_aware (caps_of m (mg_active m)),
     dc_id = data_center_id conf, cache_ids = [cache_id]\<rparr>"

definition ensure_affinity_mapping :: "client_config \<Rightarrow> mworld \<Rightarrow> (nat \<Rightarrow> nat) \<Rightarrow> i32 \<Rightarrow> unit mact" where
  "ensure_affinity_mapping conf w now cache_id m =
    (if \<not> affinity_needs_refresh cache_id (mg_affinity m) then (Done (), m)
     else let all_mappings = connection_capabilities.all_affinity_mappings (caps_of m (mg_active m))
      in abind (atry (get_payload_with_meta conf w now OpCachePartitions
           (partitions_request_write (partitions_request conf m cache_id)) route_default)) (\<lambda>r. case r of
         Inl err \<Rightarrow> athen (amod (invalidate_affinity_cache cache_id)) (afail err)
       | Inr (raw_body, address) \<Rightarrow>
           abind (aget (\<lambda>m. case channel_for_address w m address of
               Some c \<Rightarrow> (connection_capabilities.dc_aware (caps_of m c), connection_capabilities.all_affinity_mappings (caps_of m c))
             | None \<Rightarrow> (False, all_mappings))) (\<lambda>(dc, all).
           case decoded (read_with_flags dc all raw_body) of
             Done response \<Rightarrow>
               athen (amod (\<lambda>m. m\<lparr>mg_affinity :=
                   affinity_apply (response_version response) (response_caches response) (mg_affinity m)\<rparr>))
               (if dc then abind (atry (refresh_data_center_nodes conf w)) (\<lambda>_. aret ()) else aret ())
           | Failed err \<Rightarrow> athen (amod (invalidate_affinity_cache cache_id)) (afail err)
           | Panicked \<Rightarrow> (\<lambda>m. (Panicked, m))
           | Unfinished \<Rightarrow> (\<lambda>m. (Unfinished, m)))) m)"

text \<open>The lookups in the affinity cache may panic on a key of a wrong length.\<close>

definition looked_up :: "rstring access \<Rightarrow> rstring option mact" where
  "looked_up r m = (case r of Returns x \<Rightarrow> (Done x, m) | Panics \<Rightarrow> (Panicked, m))"

definition affinity_node_for_key ::
    "client_config \<Rightarrow> mworld \<Rightarrow> (nat \<Rightarrow> nat) \<Rightarrow> i32 \<Rightarrow> bytes \<Rightarrow> bool \<Rightarrow> rstring option mact" where
  "affinity_node_for_key conf w now cache_id marshaled_key primary m =
    (if \<not> cf_partition_awareness_enabled conf then (Done None, m)
     else if is_single_node (mg_affinity m) then (Done None, m)
     else abind (looked_up (resolve_node_for_key (mg_affinity m) cache_id marshaled_key primary)) (\<lambda>found. case found of
         Some node \<Rightarrow> aret (Some node)
       | None \<Rightarrow> abind (atry (ensure_affinity_mapping conf w now cache_id)) (\<lambda>r. case r of
             Inl _ \<Rightarrow> aret None
           | Inr _ \<Rightarrow> abind (aget mg_affinity) (\<lambda>ac. looked_up (node_for_marshaled_key ac cache_id marshaled_key primary)))) m)"

definition affinity_node_for_partition ::
    "client_config \<Rightarrow> mworld \<Rightarrow> (nat \<Rightarrow> nat) \<Rightarrow> i32 \<Rightarrow> i32 \<Rightarrow> bool \<Rightarrow> rstring option mact" where
  "affinity_node_for_partition conf w now cache_id part primary m =
    (if \<not> cf_partition_awareness_enabled conf then (Done None, m)
     else abind (atry (ensure_affinity_mapping conf w now cache_id)) (\<lambda>r. case r of
         Inl _ \<Rightarrow> aret None
       | Inr _ \<Rightarrow> aget (\<lambda>m. node_for_partition (mg_affinity m) cache_id part primary)) m)"

section \<open>Capabilities\<close>

text \<open>The calls \<open>supports_transactions\<close>, \<open>supports_cache_invoke\<close> and so on, and those that read two capabilities: all
  ask the default channel.\<close>

definition default_capability :: "(connection_capabilities \<Rightarrow> 'a) \<Rightarrow> client_config \<Rightarrow> mworld \<Rightarrow> 'a mact" where
  "default_capability cap conf w m = (case default_channel conf w m of (c, m') \<Rightarrow> (Done (cap (caps_of m' c)), m'))"

definition sql_fields_capabilities :: "client_config \<Rightarrow> mworld \<Rightarrow> (bool \<times> bool) mact" where
  "sql_fields_capabilities = default_capability (\<lambda>caps. (query_partitions_batch_size caps, query_initiator_id caps))"

definition index_query_capabilities :: "client_config \<Rightarrow> mworld \<Rightarrow> (bool \<times> bool) mact" where
  "index_query_capabilities = default_capability (\<lambda>caps. (index_query caps, index_query_limit caps))"

definition service_invoke_capabilities :: "client_config \<Rightarrow> mworld \<Rightarrow> (bool \<times> bool) mact" where
  "service_invoke_capabilities = default_capability (\<lambda>caps. (service_invoke caps, service_invoke_callctx caps))"

section \<open>Heartbeat and end\<close>

definition DEFAULT_HEARTBEAT_INTERVAL :: duration where "DEFAULT_HEARTBEAT_INTERVAL = 30000000000"
definition MIN_RECOMMENDED_HEARTBEAT_INTERVAL :: duration where "MIN_RECOMMENDED_HEARTBEAT_INTERVAL = 500000000"

definition resolve_heartbeat_interval :: "client_config \<Rightarrow> mworld \<Rightarrow> duration option mact" where
  "resolve_heartbeat_interval conf w m =
    (if \<not> heartbeat (caps_of m (mg_active m)) then (Done None, m)
     else let configured = (case cf_heartbeat_interval conf of Some d \<Rightarrow> d | None \<Rightarrow> DEFAULT_HEARTBEAT_INTERVAL)
      in abind (atry (send_internal_and_read w read_i64 OpGetIdleTimeout)) (\<lambda>r.
        aret (Some (case r of
            Inr millis \<Rightarrow> (if 0 < sint millis
              then min configured (max (from_millis (nat (sint millis)) div 3) MIN_RECOMMENDED_HEARTBEAT_INTERVAL)
              else configured)
          | Inl _ \<Rightarrow> configured))) m)"

text \<open>\<open>heartbeat_tick\<close>; \<open>idle\<close> is how long the active channel has not sent anything.\<close>

definition heartbeat_tick :: "client_config \<Rightarrow> mworld \<Rightarrow> (nat \<Rightarrow> nat) \<Rightarrow> duration \<Rightarrow> duration \<Rightarrow> unit mact" where
  "heartbeat_tick conf w now idle interval m =
    (let c = mg_active m; address = address_of m c
     in if \<not> channel_available w m c then abind (atry (reconnect_from conf w (now (mg_clock m)) address)) (\<lambda>_. aret ()) m
        else if idle \<le> interval then (Done (), m)
        else abind (atry (send_internal w OpHeartbeat)) (\<lambda>r. case r of
            Inr _ \<Rightarrow> aret ()
          | Inl _ \<Rightarrow> (\<lambda>m. abind (atry (reconnect_from conf w (now (mg_clock m)) address)) (\<lambda>_. aret ()) m)) m)"

text \<open>\<open>drop\<close>: the channels whose tasks are aborted, and the last events.\<close>

definition drop_manager :: "mworld \<Rightarrow> manager \<Rightarrow> nat list \<times> manager" where
  "drop_manager w m =
    (let m1 = emit_conn ConnClosed (address_of m (mg_active m)) None m;
         channels = pool_values w m1;
         to_abort = (if list_ex (\<lambda>c. address_of m1 c = address_of m1 (mg_active m1)) channels then channels
                     else channels @ [mg_active m1])
     in (to_abort, m1\<lparr>mg_event_bus := emit_lifecycle LifeClosed None (mg_event_bus m1)\<rparr>))"

section \<open>The invariant\<close>

lemma emit_req_evolves: "manager_ok m \<Longrightarrow> evolves m (emit_req track kind op_code corr_id address detail m)"
  using bus_ok_step [OF bus_step.request, of "mg_event_bus m"]
  by (simp add: emit_req_def evolves_def manager_ok_def pool_base_def index_ok_def candidates_ok_def active_ok_def)

lemma emit_outcome_evolves: "manager_ok m \<Longrightarrow> evolves m (emit_outcome track op_code corr_id address response m)"
  by (simp add: emit_outcome_def emit_req_evolves split: flag.split)

lemma tick_evolves: "manager_ok m \<Longrightarrow> evolves m (tick m)"
  by (simp add: tick_def evolves_def)

lemma response_evolves:
  "any_order w \<Longrightarrow> manager_ok m \<Longrightarrow> evolves m (snd (trip_response conf w track op_code corr_id address response m))"
  unfolding trip_response_def
  by (auto intro!: evolves_athen topology_change_evolves emit_outcome_evolves evolves_refl split: option.split dest!: evolves_ok)

lemma answered_evolves:
  "any_order w \<Longrightarrow> manager_ok m \<Longrightarrow>
    evolves m (snd (abind (trip_response conf w track op_code corr_id address response) (\<lambda>_. aret x) m))"
  by (auto intro!: evolves_abind response_evolves evolves_refl dest!: evolves_ok)

text \<open>One turn of the loop: what it does before the next attempt, if there is one.\<close>

definition trip_start :: "client_config \<Rightarrow> mworld \<Rightarrow> bool \<Rightarrow> bool \<Rightarrow> i16 \<Rightarrow> i64 \<Rightarrow> manager \<Rightarrow> nat \<times> rstring \<times> manager" where
  "trip_start conf w track started op_code corr_id m = (case default_channel conf w m of
     (c, m0) \<Rightarrow> (c, address_of m0 c, emit_req (track \<and> \<not> started) ReqStarted op_code corr_id (address_of m0 c) None m0))"

definition trip_failed :: "bool \<Rightarrow> i16 \<Rightarrow> i64 \<Rightarrow> rstring \<Rightarrow> ignite_error \<Rightarrow> manager \<Rightarrow> manager" where
  "trip_failed track op_code corr_id address err m =
    emit_req track ReqFailed op_code corr_id address (Some (err_desc err)) (tick m)"

definition trip_retry :: "bool \<Rightarrow> i16 \<Rightarrow> i64 \<Rightarrow> rstring \<Rightarrow> ignite_error \<Rightarrow> manager \<Rightarrow> manager" where
  "trip_retry track op_code corr_id address err m =
    emit_req track ReqRetried op_code corr_id address (Some (err_desc err))
      (emit_conn ConnClosed address (Some (err_desc err)) (trip_failed track op_code corr_id address err m))"

lemma trip_start_evolves:
  "manager_ok m \<Longrightarrow> trip_start conf w track started op_code corr_id m = (c, address, m1) \<Longrightarrow> evolves m m1"
  using default_evolves [of m conf w] emit_req_evolves evolves_ok evolves_trans
  by (fastforce simp: trip_start_def split: prod.splits)

lemma trip_failed_evolves: "manager_ok m \<Longrightarrow> evolves m (trip_failed track op_code corr_id address err m)"
  unfolding trip_failed_def by (meson emit_req_evolves evolves_ok evolves_trans tick_evolves)

lemma trip_retry_evolves:
  "manager_ok m \<Longrightarrow> evolves m (trip_retry track op_code corr_id address err m)"
  "manager_ok m \<Longrightarrow> evolves m (emit_conn ConnClosed address d (trip_failed track op_code corr_id address err m))"
  unfolding trip_retry_def by (meson emit_req_evolves emit_evolves evolves_ok evolves_trans trip_failed_evolves)+

lemma trip_startD:
  assumes "trip_start conf w track started op_code corr_id m = (c, address, m1)"
  shows "\<exists>m0. default_channel conf w m = (c, m0) \<and> address_of m0 c = address \<and>
    emit_req (track \<and> \<not> started) ReqStarted op_code corr_id address None m0 = m1"
  using assms by (auto simp: trip_start_def split: prod.splits)

text \<open>The ways a turn ends.\<close>

lemma trip_loop_answer:
  assumes "trip_start conf w track started op_code corr_id m = (c, address, m1)" and "mw_request w (mg_clock m1) c request = Inr response"
  shows "trip_loop conf w now track op_code corr_id attempt started request m =
    abind (trip_response conf w track op_code corr_id address response) (\<lambda>_.
      aret ((if track \<and> \<not> started then [AStarted address] else []) @ [ARequest address request] @ topology_actions response @
        outcome_events track address response, response_result address response)) (tick m1)"
  using assms(2) trip_startD [OF assms(1)] by (subst trip_loop.simps) (auto simp: Let_def)

lemma trip_loop_stop:
  assumes "trip_start conf w track started op_code corr_id m = (c, address, m1)" and "mw_request w (mg_clock m1) c request = Inl err"
    and "should_retry (cf_retry_policy conf) op_code (attempt + 1) address err = r" and "r \<noteq> Inr True"
  shows "trip_loop conf w now track op_code corr_id attempt started request m =
    (Done ((if track \<and> \<not> started then [AStarted address] else []) @ [ARequest address request] @
       (if track then [AFailed address (err_desc err)] else []), Inl (case r of Inl e \<Rightarrow> e | Inr _ \<Rightarrow> err)),
     trip_failed track op_code corr_id address err m1)"
  using assms(2-) trip_startD [OF assms(1)] by (subst trip_loop.simps) (cases r; auto simp: Let_def trip_failed_def)

lemma trip_loop_give_up:
  assumes "trip_start conf w track started op_code corr_id m = (c, address, m1)" and "mw_request w (mg_clock m1) c request = Inl err"
    and "should_retry (cf_retry_policy conf) op_code (attempt + 1) address err = Inr True" and "cf_retry_limit conf \<le> attempt"
  shows "trip_loop conf w now track op_code corr_id attempt started request m =
    (Done ((if track \<and> \<not> started then [AStarted address] else []) @ [ARequest address request] @
       (if track then [AFailed address (err_desc err)] else []) @ [AClosed address (err_desc err)], Inl err),
     emit_conn ConnClosed address (Some (err_desc err)) (trip_failed track op_code corr_id address err m1))"
  using assms(2-) trip_startD [OF assms(1)] by (subst trip_loop.simps) (auto simp: Let_def trip_failed_def)

lemma trip_loop_retry:
  assumes "trip_start conf w track started op_code corr_id m = (c, address, m1)" and "mw_request w (mg_clock m1) c request = Inl err"
    and "should_retry (cf_retry_policy conf) op_code (attempt + 1) address err = Inr True" and "attempt < cf_retry_limit conf"
    and "m5 = trip_retry track op_code corr_id address err m1"
    and "retried = (if track \<and> \<not> started then [AStarted address] else []) @ [ARequest address request] @
       (if track then [AFailed address (err_desc err)] else []) @ [AClosed address (err_desc err)] @
       (if track then [ARetried address (err_desc err)] else []) @ [AReconnect address]"
  shows "trip_loop conf w now track op_code corr_id attempt started request m =
    (case reconnect_from conf w (now (mg_clock m5)) address m5 of
       (Failed e, m6) \<Rightarrow> (Done (retried, Inl (ignite_of w e)), m6)
     | (Panicked, m6) \<Rightarrow> (Panicked, m6)
     | (Unfinished, m6) \<Rightarrow> (Unfinished, m6)
     | (Done _, m6) \<Rightarrow>
         (case trip_loop conf w now track op_code corr_id (attempt + 1) (started \<or> track)
             (if cf_retry_limit conf \<le> attempt + 1 then [] else request) m6 of
            (Done (acts, result), m7) \<Rightarrow> (Done (retried @ acts, result), m7)
          | r \<Rightarrow> r))"
proof -
  obtain m0 where m0: "default_channel conf w m = (c, m0)" "address_of m0 c = address"
    "emit_req (track \<and> \<not> started) ReqStarted op_code corr_id address None m0 = m1"
    using trip_startD [OF assms(1)] by blast
  have m5: "emit_req track ReqRetried op_code corr_id address (Some (err_desc err)) (emit_conn ConnClosed address (Some (err_desc err))
      (emit_req track ReqFailed op_code corr_id address (Some (err_desc err)) (tick m1))) = m5"
    by (simp add: assms(5) trip_retry_def trip_failed_def)
  have taken: "(if cf_retry_limit conf \<le> attempt + 1 then (request, []) else (request, request)) =
      (request, if cf_retry_limit conf \<le> attempt + 1 then [] else request)"
    by simp
  show ?thesis
    unfolding assms(6) using assms(2-4)
    by (subst trip_loop.simps) (simp only: Let_def m0 prod.case taken sum.case bool.case m5 if_False not_le [symmetric] append_assoc)
qed

lemma trip_loop_evolves:
  assumes "any_order w" and "manager_ok m"
  shows "evolves m (snd (trip_loop conf w now track op_code corr_id attempt started request m))"
  using assms(2)
proof (induction "cf_retry_limit conf - attempt" arbitrary: attempt started request m rule: less_induct)
  case less
  obtain c address m1 where st: "trip_start conf w track started op_code corr_id m = (c, address, m1)"
    by (metis prod_cases3)
  have m1: "evolves m m1" by (rule trip_start_evolves [OF less.prems st])
  note ok = evolves_ok [OF m1]
  show ?case
  proof (cases "mw_request w (mg_clock m1) c request")
    case (Inr response)
    have tick: "evolves m (tick m1)" by (rule evolves_trans [OF m1 tick_evolves [OF ok]])
    show ?thesis
      unfolding trip_loop_answer [OF st Inr] by (rule evolves_trans [OF tick answered_evolves [OF assms(1) evolves_ok [OF tick]]])
  next
    case (Inl err)
    let ?r = "should_retry (cf_retry_policy conf) op_code (attempt + 1) address err"
    consider (stop) "?r \<noteq> Inr True" | (up) "?r = Inr True" "cf_retry_limit conf \<le> attempt"
      | (again) "?r = Inr True" "attempt < cf_retry_limit conf" by fastforce
    then show ?thesis
    proof cases
      case stop
      then show ?thesis
        unfolding trip_loop_stop [OF st Inl refl stop] using trip_failed_evolves [OF ok] evolves_trans [OF m1] by simp
    next
      case up
      then show ?thesis
        unfolding trip_loop_give_up [OF st Inl up] using trip_retry_evolves(2) [OF ok] evolves_trans [OF m1] by simp
    next
      case again
      define m5 where "m5 = trip_retry track op_code corr_id address err m1"
      have m5: "evolves m m5" unfolding m5_def by (rule evolves_trans [OF m1 trip_retry_evolves(1) [OF ok]])
      obtain r6 m6 where r6: "reconnect_from conf w (now (mg_clock m5)) address m5 = (r6, m6)" by fastforce
      have m6: "evolves m m6"
        using reconnect_evolves [OF assms(1) evolves_ok [OF m5], of conf "now (mg_clock m5)" address] r6 evolves_trans [OF m5] by simp
      let ?rest = "trip_loop conf w now track op_code corr_id (attempt + 1) (started \<or> track)
             (if cf_retry_limit conf \<le> attempt + 1 then [] else request) m6"
      obtain r7 m7 where r7: "?rest = (r7, m7)" by fastforce
      have "cf_retry_limit conf - (attempt + 1) < cf_retry_limit conf - attempt" using again(2) by simp
      from less.hyps [OF this evolves_ok [OF m6]] r7 have m7: "evolves m m7" using evolves_trans [OF m6] by (metis snd_conv)
      show ?thesis
        unfolding trip_loop_retry [OF st Inl again m5_def refl] r6
        using m6 m7 r7 by (cases r6; cases r7) (auto split: prod.split)
    qed
  qed
qed

lemma trip_internal_evolves:
  "any_order w \<Longrightarrow> manager_ok m \<Longrightarrow> evolves m (snd (trip_internal conf w now emits op_code corr_id request m))"
  unfolding trip_internal_def by (rule trip_loop_evolves)

lemma prepend_evolves: "evolves m (snd (act m)) \<Longrightarrow> evolves m (snd (prepend acts act m))"
  unfolding prepend_def by (rule evolves_abind) (auto simp: evolves_refl evolves_ok split: prod.split)

lemma select_evolves: "any_order w \<Longrightarrow> manager_ok m \<Longrightarrow> evolves m (snd (select_channel conf w route m))"
  unfolding select_channel_def by (auto intro: evolves_refl channel_for_node_evolves split: option.split)

lemma trip_once_evolves:
  assumes "any_order w" and "manager_ok m"
  shows "evolves m (snd (trip_once conf w now emits op_code corr_id request route c m))"
proof -
  define track where "track = (emits \<and> has_request_subscribers (mg_event_bus m))"
  define m1 where "m1 = emit_req track ReqStarted op_code corr_id (address_of m c) None m"
  have m1: "evolves m m1" unfolding m1_def by (rule emit_req_evolves [OF assms(2)])
  have tick: "evolves m (tick m1)" by (rule evolves_trans [OF m1 tick_evolves [OF evolves_ok [OF m1]]])
  show ?thesis
  proof (cases "mw_request w (mg_clock m1) c request")
    case (Inr response)
    show ?thesis
      unfolding trip_once_def Let_def track_def [symmetric] m1_def [symmetric] Inr sum.case
      by (rule evolves_trans [OF tick answered_evolves [OF assms(1) evolves_ok [OF tick]]])
  next
    case (Inl err)
    define m3 where "m3 = emit_conn ConnClosed (address_of m c) (Some (err_desc err))
      (emit_req track ReqFailed op_code corr_id (address_of m c) (Some (err_desc err)) (tick m1))"
    have m3: "evolves m m3"
      using evolves_trans [OF m1 trip_retry_evolves(2) [OF evolves_ok [OF m1]]] by (simp add: m3_def trip_failed_def)
    have inv: "evolves m (m3\<lparr>mg_affinity := invalidate (mg_affinity m3)\<rparr>)"
      using evolves_ok [OF m3] by (intro evolves_trans [OF m3 affinity_evolves]) (auto simp: manager_ok_def pool_base_def inv_invalidate)
    have "evolves m (snd (prepend acts (trip_internal conf w now emits op_code corr_id request)
        (m3\<lparr>mg_affinity := invalidate (mg_affinity m3)\<rparr>)))" for acts
      by (intro evolves_trans [OF inv] prepend_evolves trip_internal_evolves assms(1) evolves_ok [OF inv])
    then show ?thesis
      unfolding trip_once_def Let_def track_def [symmetric] m1_def [symmetric] Inl sum.case m3_def [symmetric] using m3 by simp
  qed
qed

lemma trip_route_evolves:
  assumes "any_order w" and "manager_ok m"
  shows "evolves m (snd (trip_with_route conf w now emits op_code corr_id request route m))"
  unfolding trip_with_route_def using assms
  by (auto intro!: trip_internal_evolves evolves_abind select_evolves trip_once_evolves evolves_refl split: option.split dest!: evolves_ok)

lemma payload_evolves:
  assumes "any_order w" and "manager_ok m"
  shows "evolves m (snd (get_payload_with_meta conf w now op payload route m))"
proof -
  let ?m1 = "m\<lparr>mg_next_correlation_id := mg_next_correlation_id m + 1\<rparr>"
  have m1: "evolves m ?m1" using assms(2) by (simp add: evolves_def)
  have "evolves ?m1 (snd (abind (trip_with_route conf w now True o1 corr request route) (\<lambda>(_, result). case result of
                Inl e \<Rightarrow> afail (CError e)
              | Inr (Success, body, offset, address) \<Rightarrow> aret (drop offset body, address)
              | Inr (Failure status err_msg, _, _, _) \<Rightarrow> afail (CError (from_server_status status err_msg))) ?m1))" for o1 corr request
    using assms(1) evolves_ok [OF m1]
    by (auto intro!: evolves_abind trip_route_evolves evolves_refl split: prod.split sum.split flag.split dest!: evolves_ok)
  then show ?thesis
    using m1 evolves_trans [OF m1] by (auto simp: get_payload_with_meta_def Let_def split: sum.split)
qed

lemma invalidate_evolves: "manager_ok m \<Longrightarrow> evolves m (invalidate_affinity_cache cache_id m)"
  unfolding invalidate_affinity_cache_def
  by (rule affinity_evolves) (auto simp: manager_ok_def pool_base_def inv_invalidate_cache)

lemma apply_evolves:
  assumes "manager_ok m" and "decoded (read_with_flags dc al bs) = Done response"
  shows "evolves m (m\<lparr>mg_affinity := affinity_apply v (response_caches response) (mg_affinity m)\<rparr>)"
  using assms read_with_flags_sane [of dc al bs response]
  by (intro affinity_evolves inv_apply) (auto simp: manager_ok_def pool_base_def decoded_def split: outcome.splits)

lemma ensure_evolves:
  assumes "any_order w" and "manager_ok m"
  shows "evolves m (snd (ensure_affinity_mapping conf w now cache_id m))"
  unfolding ensure_affinity_mapping_def Let_def using assms
  by (auto intro!: evolves_abind evolves_atry payload_evolves evolves_athen invalidate_evolves evolves_refl apply_evolves
      data_center_evolves split: sum.split prod.split result.split dest!: evolves_ok)

lemma looked_up_state [simp]: "snd (looked_up r m) = m"
  by (simp add: looked_up_def split: access.split)

lemma affinity_node_evolves:
  assumes "any_order w" and "manager_ok m"
  shows "evolves m (snd (affinity_node_for_key conf w now cache_id key primary m))"
    and "evolves m (snd (affinity_node_for_partition conf w now cache_id part primary m))"
  unfolding affinity_node_for_key_def affinity_node_for_partition_def using assms
  by (auto intro!: evolves_abind evolves_atry ensure_evolves evolves_refl split: option.split sum.split dest!: evolves_ok)

lemma capability_evolves: "manager_ok m \<Longrightarrow> evolves m (snd (default_capability cap conf w m))"
  using default_evolves [of m conf w] by (auto simp: default_capability_def split: prod.split)

lemma heartbeat_evolves:
  assumes "any_order w" and "manager_ok m"
  shows "evolves m (snd (resolve_heartbeat_interval conf w m))" and "evolves m (snd (heartbeat_tick conf w now idle interval m))"
  unfolding resolve_heartbeat_interval_def heartbeat_tick_def send_internal_and_read_def send_internal_and_read_on_channel_def
    send_internal_def using assms
  by (auto intro!: evolves_abind evolves_atry internal_evolves reconnect_evolves evolves_refl simp: Let_def split: sum.split dest!: evolves_ok)

section \<open>Refinement\<close>

lemma round_trip_cong:
  assumes "\<And>a. attempt \<le> a \<Longrightarrow> w_default W a = w_default V a \<and> w_request W a = w_request V a \<and> w_reconnect W a = w_reconnect V a"
  shows "round_trip_loop conf W op_code attempt started request = round_trip_loop conf V op_code attempt started request"
  using assms
proof (induction "tc_retry_limit conf - attempt" arbitrary: attempt started request rule: less_induct)
  case less
  have here: "w_default W attempt = w_default V attempt" "w_request W attempt = w_request V attempt"
    "w_reconnect W attempt = w_reconnect V attempt" using less.prems by auto
  have later: "round_trip_loop conf W op_code (Suc attempt) st req = round_trip_loop conf V op_code (Suc attempt) st req"
    if "\<not> tc_retry_limit conf \<le> attempt" for st req
    using that less.prems by (intro less.hyps) auto
  show ?case
    by (subst (1 2) round_trip_loop.simps) (simp add: here later Let_def split: sum.split bool.split option.split)
qed

text \<open>A world of \<open>RoundTrip\<close> that only passes on what the network answered.\<close>

definition honest :: "mworld \<Rightarrow> world \<Rightarrow> bool" where
  "honest w W \<longleftrightarrow> (\<forall>n a b frame. w_request W n a b = Inr frame \<longrightarrow> (\<exists>t c. mw_request w t c b = Inr frame))"

definition silent_world :: world where
  "silent_world = \<lparr>w_default = (\<lambda>_. []), w_request = (\<lambda>_ _ _. Inl (err_new [])), w_reconnect = (\<lambda>_ _. None)\<rparr>"

definition with_attempt :: "nat \<Rightarrow> rstring \<Rightarrow> bytes \<Rightarrow> ignite_error + response_frame \<Rightarrow> ignite_error option \<Rightarrow> world \<Rightarrow> world" where
  "with_attempt attempt address request outcome reconnected W = \<lparr>
     w_default = (w_default W)(attempt := address),
     w_request = (w_request W)(attempt := (\<lambda>a b. if a = address \<and> b = request then outcome else Inl (err_new []))),
     w_reconnect = (w_reconnect W)(attempt := (\<lambda>_. reconnected))\<rparr>"

lemma honest_silent: "honest w silent_world"
  by (simp add: honest_def silent_world_def)

lemma honest_with: "honest w W \<Longrightarrow> (\<And>frame. outcome = Inr frame \<Longrightarrow> \<exists>t c. mw_request w t c request = Inr frame) \<Longrightarrow>
  honest w (with_attempt attempt address request outcome reconnected W)"
  by (auto simp: honest_def with_attempt_def split: if_splits)

lemma with_attempt_simps [simp]:
  "w_default (with_attempt attempt address request outcome reconnected W) attempt = address"
  "w_request (with_attempt attempt address request outcome reconnected W) attempt address request = outcome"
  "w_reconnect (with_attempt attempt address request outcome reconnected W) attempt address = reconnected"
  by (simp_all add: with_attempt_def)

lemma with_attempt_later:
  "round_trip_loop conf (with_attempt attempt address request outcome reconnected W) op_code (Suc attempt) st req =
   round_trip_loop conf W op_code (Suc attempt) st req"
  by (rule round_trip_cong) (auto simp: with_attempt_def)

definition trip_conf_of :: "client_config \<Rightarrow> bool \<Rightarrow> trip_conf" where
  "trip_conf_of conf track = \<lparr>tc_retry_limit = cf_retry_limit conf, tc_policy = cf_retry_policy conf, tc_track_events = track\<rparr>"

lemma trip_conf_of_simps [simp]:
  "tc_retry_limit (trip_conf_of conf track) = cf_retry_limit conf" "tc_policy (trip_conf_of conf track) = cf_retry_policy conf"
  "tc_track_events (trip_conf_of conf track) = track"
  by (simp_all add: trip_conf_of_def)

lemma trip_loop_refines:
  assumes "trip_loop conf w now track op_code corr_id attempt started request m = (Done (acts, result), m')"
  shows "\<exists>W. honest w W \<and> round_trip_loop (trip_conf_of conf track) W op_code attempt started request = (acts, result)"
  using assms
proof (induction "cf_retry_limit conf - attempt" arbitrary: attempt started request m acts rule: less_induct)
  case less
  obtain c address m1 where st: "trip_start conf w track started op_code corr_id m = (c, address, m1)"
    by (metis prod_cases3)
  let ?out = "mw_request w (mg_clock m1) c request"
  have honest: "honest w (with_attempt attempt address request ?out reconnected W)" if "honest w W" for reconnected W
    using that by (intro honest_with) auto
  let ?W = "with_attempt attempt address request ?out None silent_world"
  note hW = honest [OF honest_silent]
  show ?case
  proof (cases ?out)
    case (Inr response)
    have "(acts, result) = ((if track \<and> \<not> started then [AStarted address] else []) @ [ARequest address request] @
        topology_actions response @ outcome_events track address response, response_result address response)"
      using less.prems unfolding trip_loop_answer [OF st Inr] by (auto simp: abind_def split: prod.splits result.splits)
    then have "round_trip_loop (trip_conf_of conf track) ?W op_code attempt started request = (acts, result)"
      by (subst round_trip_loop.simps) (simp add: Let_def Inr)
    then show ?thesis using hW by blast
  next
    case (Inl err)
    let ?r = "should_retry (cf_retry_policy conf) op_code (attempt + 1) address err"
    consider (stop) "?r \<noteq> Inr True" | (up) "?r = Inr True" "cf_retry_limit conf \<le> attempt"
      | (again) "?r = Inr True" "attempt < cf_retry_limit conf" by fastforce
    then show ?thesis
    proof cases
      case stop
      have "round_trip_loop (trip_conf_of conf track) ?W op_code attempt started request = (acts, result)"
        using less.prems stop unfolding trip_loop_stop [OF st Inl refl stop]
        by (subst round_trip_loop.simps) (cases ?r; auto simp: Let_def Inl)
      then show ?thesis using hW by blast
    next
      case up
      have "round_trip_loop (trip_conf_of conf track) ?W op_code attempt started request = (acts, result)"
        using less.prems up unfolding trip_loop_give_up [OF st Inl up]
        by (subst round_trip_loop.simps) (auto simp: Let_def Inl)
      then show ?thesis using hW by blast
    next
      case again
      define m5 where "m5 = trip_retry track op_code corr_id address err m1"
      define retried where "retried = (if track \<and> \<not> started then [AStarted address] else []) @ [ARequest address request] @
       (if track then [AFailed address (err_desc err)] else []) @ [AClosed address (err_desc err)] @
       (if track then [ARetried address (err_desc err)] else []) @ [AReconnect address]"
      obtain r6 m6 where r6: "reconnect_from conf w (now (mg_clock m5)) address m5 = (r6, m6)" by fastforce
      note loop = less.prems [unfolded trip_loop_retry [OF st Inl again m5_def retried_def] r6]
      show ?thesis
      proof (cases r6)
        case (Failed e)
        let ?V = "with_attempt attempt address request ?out (Some (ignite_of w e)) silent_world"
        have "round_trip_loop (trip_conf_of conf track) ?V op_code attempt started request = (acts, result)"
          using loop Failed again by (subst round_trip_loop.simps) (auto simp: Let_def Inl retried_def)
        then show ?thesis using hW by blast
      next
        case (Done d)
        obtain acts' where rest: "trip_loop conf w now track op_code corr_id (attempt + 1) (started \<or> track)
             (if cf_retry_limit conf \<le> attempt + 1 then [] else request) m6 = (Done (acts', result), m')" and acts: "acts = retried @ acts'"
          using loop Done by (auto split: prod.splits result.splits)
        have "cf_retry_limit conf - (attempt + 1) < cf_retry_limit conf - attempt" using again(2) by simp
        from less.hyps [OF this rest] obtain W where W: "honest w W"
          "round_trip_loop (trip_conf_of conf track) W op_code (attempt + 1) (started \<or> track)
             (if cf_retry_limit conf \<le> attempt + 1 then [] else request) = (acts', result)" by blast
        let ?V = "with_attempt attempt address request ?out None W"
        have "round_trip_loop (trip_conf_of conf track) ?V op_code attempt started request = (acts, result)"
          using W(2) again acts by (subst round_trip_loop.simps) (auto simp: Let_def Inl retried_def with_attempt_later)
        then show ?thesis using honest [OF W(1)] by blast
      qed (use loop in auto)
    qed
  qed
qed

end
