(* ===== verification/Reconnect.thy ===== *)
theory Reconnect
  imports ManagerTrips
begin

text \<open>
  What the channel manager promises its callers: the reachable states and their lookups, the choice of the
  default channel, the throttling of reconnects, and that a reconnect finds an endpoint that answers.
\<close>

section \<open>Reachable states\<close>

text \<open>The operations that callers and background tasks run; the configuration's resolver and the outside may
  answer differently at every step.\<close>

inductive manager_step :: "manager \<Rightarrow> manager \<Rightarrow> bool" where
  default: "manager_step m (snd (default_channel conf w m))"
| reconnect: "any_order w \<Longrightarrow> manager_step m (snd (reconnect_from conf w now address m))"
| by_node: "any_order w \<Longrightarrow> manager_step m (snd (channel_for_node_id conf w nid m))"
| specific: "any_order w \<Longrightarrow> manager_step m (snd (connect_specific conf w address m))"
| topology: "any_order w \<Longrightarrow> manager_step m (snd (handle_topology_change conf w version m))"
| trip: "any_order w \<Longrightarrow> manager_step m (snd (trip_with_route conf w clock emits op_code corr_id request route m))"
| key_node: "any_order w \<Longrightarrow> manager_step m (snd (affinity_node_for_key conf w clock cache_id key primary m))"
| partition_node: "any_order w \<Longrightarrow> manager_step m (snd (affinity_node_for_partition conf w clock cache_id part primary m))"
| forget: "manager_step m (invalidate_affinity_cache cache_id m)"
| capability: "manager_step m (snd (default_capability (cap :: connection_capabilities \<Rightarrow> bool \<times> bool) conf w m))"
| interval: "any_order w \<Longrightarrow> manager_step m (snd (resolve_heartbeat_interval conf w m))"
| beat: "any_order w \<Longrightarrow> manager_step m (snd (heartbeat_tick conf w clock idle interval m))"

inductive manager_reachable :: "manager \<Rightarrow> bool" where
  start: "any_order w \<Longrightarrow> new_manager conf w cursor (bus_new subs) = (Done (), m) \<Longrightarrow> manager_reachable m"
| step: "manager_reachable m \<Longrightarrow> manager_step m m' \<Longrightarrow> manager_reachable m'"

lemma manager_step_evolves: "manager_step m m' \<Longrightarrow> manager_ok m \<Longrightarrow> evolves m m'"
  by (induction rule: manager_step.induct)
    (auto intro: default_evolves reconnect_evolves channel_for_node_evolves connect_specific_evolves topology_change_evolves
      trip_route_evolves affinity_node_evolves invalidate_evolves capability_evolves heartbeat_evolves)

lemma manager_reachable_ok: "manager_reachable m \<Longrightarrow> manager_ok m"
  by (induction rule: manager_reachable.induct) (auto intro: new_manager_ok bus_ok_new evolves_ok manager_step_evolves)

section \<open>The default channel\<close>

lemma scan_from_find:
  fixes start :: u64
  assumes "unat start + length cs \<le> 2 ^ 64"
  shows "scan_from avail cs start = List.find avail (map (\<lambda>step. cs ! ((unat start + step) mod length cs)) [0..<length cs])"
proof -
  have "unat (start + word_of_nat step) = unat start + step" if "step < length cs" for step
    using that assms by (simp add: unat_word_ariths unat_of_nat)
  then show ?thesis unfolding scan_from_def by (intro arg_cong [where f = "List.find avail"] map_cong) auto
qed

lemma rotation_covers:
  fixes i n start :: nat
  assumes "i < n"
  shows "\<exists>step < n. (start + step) mod n = i"
proof -
  have "(start + (i + n - start mod n) mod n) mod n = (start mod n + (i + n - start mod n)) mod n" by (simp add: mod_simps)
  also have "start mod n + (i + n - start mod n) = i + n" using assms mod_less_divisor [of n start] by linarith
  finally show ?thesis using assms by (intro exI [of _ "(i + n - start mod n) mod n"]) simp
qed

lemma scan_from_spec:
  fixes start :: u64
  assumes "unat start + length cs \<le> 2 ^ 64"
  shows "scan_from avail cs start = None \<longleftrightarrow> (\<forall>c \<in> set cs. \<not> avail c)"
    and "scan_from avail cs start = Some c \<Longrightarrow> c \<in> set cs \<and> avail c"
    and "cs \<noteq> [] \<Longrightarrow> avail (cs ! (unat start mod length cs)) \<Longrightarrow> scan_from avail cs start = Some (cs ! (unat start mod length cs))"
proof -
  let ?scan = "map (\<lambda>step. cs ! ((unat start + step) mod length cs)) [0..<length cs]"
  have "set ?scan = set cs"
  proof
    show "set ?scan \<subseteq> set cs" by (auto intro!: nth_mem mod_less_divisor)
    show "set cs \<subseteq> set ?scan"
    proof
      fix c assume "c \<in> set cs"
      then obtain i where "i < length cs" "c = cs ! i" by (auto simp: in_set_conv_nth)
      moreover from this obtain step where "step < length cs" "(unat start + step) mod length cs = i"
        using rotation_covers by blast
      ultimately show "c \<in> set ?scan" by (auto intro!: image_eqI [of _ _ step])
    qed
  qed
  then show "scan_from avail cs start = None \<longleftrightarrow> (\<forall>c \<in> set cs. \<not> avail c)"
    by (auto simp: scan_from_find [OF assms] find_None_iff simp del: set_map)
  show "c \<in> set cs \<and> avail c" if "scan_from avail cs start = Some c"
    using that \<open>set ?scan = set cs\<close> unfolding scan_from_find [OF assms]
    by (metis (no_types, lifting) find_Some_iff nth_mem)
  show "scan_from avail cs start = Some (cs ! (unat start mod length cs))"
    if "cs \<noteq> []" "avail (cs ! (unat start mod length cs))"
    using that unfolding scan_from_find [OF assms] by (cases cs) (simp_all add: upt_conv_Cons del: upt_Suc)
qed

section \<open>Throttling\<close>

text \<open>The attempts a throttled manager lets through, of those made at the given instants, and the same with the
  whole history: an attempt passes when fewer than \<open>max_attempts\<close> passed within the window before it.\<close>

fun passed :: "mworld \<Rightarrow> reconnect_throttle \<Rightarrow> nat list \<Rightarrow> nat list \<Rightarrow> nat list" where
  "passed w th attempts [] = []"
| "passed w th attempts (now # later) = (case record_reconnect_attempt w (Some th) now attempts of
      (Inr _, attempts') \<Rightarrow> now # passed w th attempts' later
    | (Inl _, attempts') \<Rightarrow> passed w th attempts' later)"

definition recent :: "reconnect_throttle \<Rightarrow> nat \<Rightarrow> nat list \<Rightarrow> nat list" where
  "recent th now history = filter (\<lambda>t. now - t < rt_window th) history"

fun passed_by_history :: "reconnect_throttle \<Rightarrow> nat list \<Rightarrow> nat list \<Rightarrow> nat list" where
  "passed_by_history th history [] = []"
| "passed_by_history th history (now # later) =
    (if length (recent th now history) < rt_max_attempts th then now # passed_by_history th (history @ [now]) later
     else passed_by_history th history later)"

lemma sorted_dropWhile:
  "sorted ts \<Longrightarrow> dropWhile (\<lambda>t. n \<le> now - t) ts = filter (\<lambda>t. now - t < n) (ts :: nat list)"
proof (induction ts)
  case Nil
  then show ?case by simp
next
  case (Cons t ts)
  show ?case
  proof (cases "n \<le> now - t")
    case True
    then show ?thesis using Cons by simp
  next
    case False
    then have "\<forall>x \<in> set (t # ts). now - x < n" using Cons.prems by fastforce
    then have "filter (\<lambda>t. now - t < n) (t # ts) = t # ts" by (rule filter_True)
    then show ?thesis using False by simp
  qed
qed

lemma recent_recent: "now \<le> later \<Longrightarrow> recent th later (recent th now history) = recent th later history"
  unfolding recent_def by (auto intro!: filter_cong)

lemma record_attempt:
  assumes "sorted attempts"
  shows "record_reconnect_attempt w (Some th) now attempts =
    (if length (recent th now attempts) < rt_max_attempts th then (Inr (), recent th now attempts @ [now])
     else (Inl (err_connection (rstr ''Reconnect throttling is applied: more than '' @ fmt_nat (rt_max_attempts th) @
             rstr '' reconnect attempts within '' @ mw_show_duration w (rt_window th))), recent th now attempts))"
  by (simp add: record_reconnect_attempt_def sorted_dropWhile [OF assms] recent_def)

lemma recent_sorted: "sorted history \<Longrightarrow> sorted (recent th now history)"
  unfolding recent_def by (metis map_ident sorted_filter)

text \<open>What is dropped at an instant never matters again.\<close>

lemma recent_agree:
  assumes "\<forall>t \<ge> now. recent th t a = recent th t b"
  shows "now \<le> t \<Longrightarrow> recent th t (recent th now a @ [now]) = recent th t (b @ [now])"
    and "now \<le> t \<Longrightarrow> recent th t (recent th now a) = recent th t b"
  using assms recent_recent [of now t th a] by (simp_all add: recent_def)

lemma passed_history:
  assumes "sorted (now # later)" and "sorted attempts" and "\<forall>t \<in> set attempts. t \<le> now"
    and "\<forall>t \<ge> now. recent th t attempts = recent th t history"
  shows "passed w th attempts (now # later) = passed_by_history th history (now # later)"
  using assms
proof (induction later arbitrary: now attempts history)
  case Nil
  then show ?case by (simp add: record_attempt)
next
  case (Cons l later)
  have agree: "recent th now attempts = recent th now history" using Cons.prems(4) by simp
  have le: "now \<le> l" "sorted (l # later)" using Cons.prems(1) by auto
  have IH: "sorted as \<Longrightarrow> \<forall>t \<in> set as. t \<le> l \<Longrightarrow> \<forall>t \<ge> l. recent th t as = recent th t hs \<Longrightarrow>
    passed w th as (l # later) = passed_by_history th hs (l # later)" for as hs
    using Cons.IH [OF le(2)] by blast
  have sub: "set (recent th now attempts) \<subseteq> set attempts" by (auto simp: recent_def)
  have bound: "\<forall>t \<in> set (recent th now attempts). t \<le> now" using sub Cons.prems(3) by blast
  show ?case
  proof (cases "length (recent th now attempts) < rt_max_attempts th")
    case True
    have "passed w th (recent th now attempts @ [now]) (l # later) = passed_by_history th (history @ [now]) (l # later)"
      by (rule IH) (use recent_sorted [OF Cons.prems(2)] bound le recent_agree(1) [OF Cons.prems(4)] in
          \<open>auto simp: sorted_append\<close>)
    then show ?thesis
      using True agree by (simp add: record_attempt [OF Cons.prems(2)] del: passed.simps(2) passed_by_history.simps(2))
        (simp add: record_attempt [OF Cons.prems(2)])
  next
    case False
    have "passed w th (recent th now attempts) (l # later) = passed_by_history th history (l # later)"
      by (rule IH) (use recent_sorted [OF Cons.prems(2)] bound le recent_agree(2) [OF Cons.prems(4)] in auto)
    then show ?thesis using False agree by (simp add: record_attempt [OF Cons.prems(2)])
  qed
qed

lemma history_bounded:
  assumes "sorted instants" and "\<forall>t \<in> set history. \<forall>t' \<in> set instants. t \<le> t'"
    and "\<forall>t. length (filter (\<lambda>x. x \<le> t \<and> t - x < rt_window th) history) \<le> rt_max_attempts th"
  shows "length (filter (\<lambda>x. x \<le> t \<and> t - x < rt_window th) (history @ passed_by_history th history instants)) \<le> rt_max_attempts th"
  using assms
proof (induction instants arbitrary: history)
  case Nil
  then show ?case by simp
next
  case (Cons now instants)
  show ?case
  proof (cases "length (recent th now history) < rt_max_attempts th")
    case False
    then show ?thesis using Cons by simp
  next
    case True
    have "length (filter (\<lambda>x. x \<le> t \<and> t - x < rt_window th) (history @ [now])) \<le> rt_max_attempts th" for t
    proof (cases "now \<le> t")
      case False
      then show ?thesis using Cons.prems(3) by simp
    next
      case le: True
      have "filter (\<lambda>x. x \<le> t \<and> t - x < rt_window th) history = filter (\<lambda>x. x \<le> t \<and> t - x < rt_window th) (recent th now history)"
        unfolding recent_def filter_filter by (rule filter_cong) (use le in auto)
      then have "length (filter (\<lambda>x. x \<le> t \<and> t - x < rt_window th) history) \<le> length (recent th now history)"
        by (metis length_filter_le)
      then show ?thesis using True by simp
    qed
    then show ?thesis using Cons.IH [of "history @ [now]"] Cons.prems True by (auto simp: sorted_append)
  qed
qed

section \<open>Reconnecting reaches an endpoint\<close>

text \<open>A discovery response never leaves the decoder without an outcome. It may make it panic (a typed host name
  of a negative length), which \<open>tame\<close> excludes.\<close>

lemma fueled_endpoints: "fueled L node_endpoints_read"
proof -
  have flex: "fueled L read_flexible_string" "shrinks 0 read_flexible_string" for L
    unfolding read_flexible_string_def Let_def
    by (auto intro!: fuel_intros progress_intros split: option.split type_code.split)
  have cap: "fueled L (with_capacity n)" "shrinks 0 (with_capacity n)" for L n
    by (auto simp: fueled_def shrinks_def with_capacity_def panic_def)
  have uuid: "fueled L read_uuid_string" "shrinks 0 read_uuid_string" for L
    unfolding read_uuid_string_def by (auto intro!: fuel_intros progress_intros)
  have node: "fueled L read_discovered_node" "shrinks 0 read_discovered_node" for L
    unfolding read_discovered_node_def by (auto intro!: fuel_intros progress_intros flex cap uuid)
  show ?thesis
    unfolding node_endpoints_read_def by (auto intro!: fuel_intros progress_intros node cap uuid)
qed

definition tame :: "mworld \<Rightarrow> bool" where
  "tame w \<longleftrightarrow> (\<forall>t c request frame. mw_request w t c request = Inr frame \<longrightarrow>
    node_endpoints_read (drop (payload_offset frame) (frame_body frame)) \<noteq> Panic)"

definition outcome_known :: "'a result \<Rightarrow> bool" where
  "outcome_known r \<longleftrightarrow> r \<noteq> Panicked \<and> r \<noteq> Unfinished"

lemma outcome_known_simps [simp]:
  "outcome_known (Done x)" "outcome_known (Failed e)" "\<not> outcome_known Panicked" "\<not> outcome_known Unfinished"
  by (simp_all add: outcome_known_def)

lemma open_Done: "\<exists>r m'. open_channel w address m = (Done r, m')"
proof -
  obtain r m1 where "channel_connect w address m = (Done r, m1)" using connect_Done by blast
  then show ?thesis by (cases r) (simp_all add: open_channel_def athen_amod)
qed

lemma open_answers:
  assumes "\<And>t. \<exists>md. mw_connect w t address = Inr md"
  shows "\<exists>c m'. open_channel w address m = (Done (Inr c), m')"
proof -
  obtain md where "mw_connect w (mg_clock m) address = Inr md" using assms by blast
  then show ?thesis by (simp add: open_channel_def channel_connect_def Let_def athen_amod)
qed

lemma prime_channel_Done: "\<exists>m'. prime_channel w address m = (Done (), m')"
proof -
  obtain r m1 where "open_channel w address (emit_conn ConnectAttempt address None m) = (Done r, m1)" using open_Done by blast
  then show ?thesis by (cases r) (simp_all add: prime_channel_def athen_amod)
qed

lemma prime_all_Done: "\<exists>m'. prime_all w active addresses m = (Done (), m')"
proof (induction addresses arbitrary: m)
  case Nil
  then show ?case by simp
next
  case (Cons a as)
  obtain m1 where "(if a = active then aret () else prime_channel w a) m = (Done (), m1)"
    using prime_channel_Done [of w a m] by (cases "a = active") auto
  then show ?case using Cons.IH [of m1] by (simp add: athen_def)
qed

lemma prime_Done: "\<exists>m'. prime_discovered_channels w active m = (Done (), m')"
  using prime_all_Done by (simp add: prime_discovered_channels_def)

lemma internal_known:
  "outcome_known (fst (internal_request w c op payload m))"
  "fst (internal_request w c op payload m) = Done bs \<Longrightarrow>
    \<exists>t request frame. mw_request w t c request = Inr frame \<and> bs = drop (payload_offset frame) (frame_body frame)"
  by (auto simp: internal_request_def Let_def split: sum.splits flag.splits)

lemma decode_known:
  assumes "node_endpoints_read bs \<noteq> Panic"
  shows "outcome_known (fst (decode_endpoints w bs m))"
  using assms fueledD [OF fueled_endpoints [of "Suc (length bs)"], of bs]
  by (cases "node_endpoints_read bs") (simp_all add: decode_endpoints_def decoded_def)

lemma known_abind:
  assumes "outcome_known (fst (a m))" and "\<And>x m'. a m = (Done x, m') \<Longrightarrow> outcome_known (fst (f x m'))"
  shows "outcome_known (fst (abind a f m))"
proof -
  obtain r m' where a: "a m = (r, m')" by fastforce
  then show ?thesis using assms by (cases r) (simp_all add: abind_def)
qed

lemma refresh_known:
  assumes "tame w"
  shows "outcome_known (fst (refresh_topology_from_channel conf w c m))"
proof -
  have dec: "outcome_known (fst (decode_endpoints w bs m'))"
    if "internal_request w c OpClusterGroupGetNodeEndpoints payload m = (Done bs, m')" for bs m' payload
    using that assms internal_known(2) [of w c OpClusterGroupGetNodeEndpoints payload m bs] decode_known
    by (fastforce simp: tame_def)
  have tl: "outcome_known (fst (athen (amod f) (prime_discovered_channels w a) m'))" for f a m'
    using prime_Done [of w a "f m'"] by (auto simp: athen_amod)
  show ?thesis
    unfolding refresh_topology_from_channel_def
    using dec tl by (auto intro!: known_abind internal_known(1) simp: lift_error_def split: sum.split)
qed

lemma connected_Done:
  assumes "tame w"
  shows "\<exists>m'. on_channel_connected conf w c m = (Done (), m')"
proof -
  let ?m = "cache_channel_identity w c m"
  obtain r m1 where r: "refresh_topology_from_channel conf w c ?m = (r, m1)" by fastforce
  have "outcome_known r" using refresh_known [OF assms, of conf c ?m] r by simp
  then show ?thesis
    using r prime_Done [of w "address_of ?m c" ?m]
      prime_Done [of w "address_of ?m c"]
    by (cases r) (auto simp: on_channel_connected_def athen_amod atry_def abind_def)
qed

lemma take_Done: "\<exists>r m'. take_channel w reconnect address m = (Done r, m')"
proof -
  have "\<exists>r m'. athen (amod (emit_conn kind address None)) (abind (open_channel w address) (\<lambda>r. aret (g r))) m = (Done r, m')"
    for kind and g :: "ignite_error + nat \<Rightarrow> ignite_error + nat \<times> bool"
    using open_Done [of w address "emit_conn kind address None m"] by (auto simp: athen_amod)
  then show ?thesis by (auto simp: take_channel_def split: option.split)
qed

lemma take_answers:
  assumes "\<And>t. \<exists>md. mw_connect w t address = Inr md"
  shows "\<exists>c m'. take_channel w reconnect address m = (Done (Inr c), m')"
proof -
  have "\<exists>c m'. athen (amod (emit_conn kind address None)) (abind (open_channel w address)
      (\<lambda>r. aret (map_sum id (\<lambda>c. (c, True)) r))) m = (Done (Inr c), m')" for kind
    using open_answers [OF assms, of "emit_conn kind address None m"] by (auto simp: athen_amod)
  then show ?thesis by (auto simp: take_channel_def split: option.split)
qed

lemma connect_loop_reaches:
  assumes "tame w" and "a \<in> set addresses" and "\<And>t. \<exists>md. mw_connect w t a = Inr md"
  shows "\<exists>c m'. connect_loop conf w reconnect addresses errors m = (Done c, m')"
  using assms(2)
proof (induction addresses arbitrary: m errors)
  case Nil
  then show ?case by simp
next
  case (Cons b bs)
  obtain r m1 where r: "take_channel w reconnect b m = (Done r, m1)" using take_Done by blast
  show ?case
  proof (cases r)
    case (Inl e)
    then have "b \<noteq> a" using take_answers [OF assms(3), of reconnect m] r by auto
    then show ?thesis using Cons r Inl by (simp add: athen_amod)
  next
    case (Inr cn)
    then show ?thesis
      using r connected_Done [OF assms(1), of conf "fst cn" m1]
      by (cases "snd cn") (auto simp: athen_amod athen_def case_prod_unfold)
  qed
qed

lemma rotated_set: "set (rotated start addresses) = set addresses"
proof
  show "set (rotated start addresses) \<subseteq> set addresses" by (auto simp: rotated_def intro!: nth_mem mod_less_divisor)
  show "set addresses \<subseteq> set (rotated start addresses)"
  proof
    fix a assume "a \<in> set addresses"
    then obtain i where "i < length addresses" "a = addresses ! i" by (auto simp: in_set_conv_nth)
    moreover from this obtain step where "step < length addresses" "(start + step) mod length addresses = i"
      using rotation_covers by blast
    ultimately show "a \<in> set (rotated start addresses)" by (auto simp: rotated_def intro!: image_eqI [of _ _ step])
  qed
qed

lemma rotated_length [simp]: "length (rotated start addresses) = length addresses"
  by (simp add: rotated_def)

lemma rotated_hd: "addresses \<noteq> [] \<Longrightarrow> \<exists>rest. rotated start addresses = addresses ! (start mod length addresses) # rest"
  by (cases addresses) (simp_all add: rotated_def upt_conv_Cons del: upt_Suc)

section \<open>A manager of one endpoint\<close>

text \<open>For the witnesses: two channels to one server that takes every connection.\<close>

definition lone_world :: mworld where
  "lone_world = \<lparr>mw_connect = (\<lambda>_ a. Inr \<lparr>capabilities = capabilities_of [], server_node_id = Some a\<rparr>),
     mw_request = (\<lambda>_ _ _. Inl (err_connection [])), mw_works = (\<lambda>_ _. True), mw_order = (\<lambda>_ p. p),
     mw_show = (\<lambda>_. []), mw_show_duration = (\<lambda>_. [])\<rparr>"

definition lone_config :: client_config where
  "lone_config = (from_addresses [rstr ''a:1''])\<lparr>cf_partition_awareness_enabled := False, cf_retry_limit := 0, cf_connection_pool_size := 2\<rparr>"

lemma lone_addresses: "normalized_addresses lone_config = Inr [rstr ''a:1'']" "validate lone_config = Inr ()"
  by (simp_all add: normalized_addresses_def resolved_addresses_def lone_config_def from_addresses_def parse_address_spec_def validate_def
    split_host_and_port_spec_def strip_prefix_def trim_def is_whitespace_def rstr_def rsplit_once_def split_at_char_def parse_ports_def
    split_dots.simps parse_port_def parse_u16_def format_endpoint_def fmt_nat.simps zero_timeout_def strip_plus_def is_digit_def Let_def)

lemma lone_fields: "cf_retry_limit lone_config = 0" "cf_connection_pool_size lone_config = 2"
  "cf_partition_awareness_enabled lone_config = False" "data_center_id lone_config = None" "cf_resolver lone_config = None"
  "cf_reconnect_throttle lone_config = None"
  by (simp_all add: lone_config_def from_addresses_def data_center_id_def)

definition lone_manager :: manager where
  "lone_manager = snd (new_manager lone_config lone_world 0 (bus_new subscriptions_all))"

lemma rotated_single: "rotated start [a] = [a]"
  by (simp add: rotated_def)

lemma lone_connect: "channel_connect lone_world a m = (Done (Inr (mg_count m)), m\<lparr>mg_clock := mg_clock m + 1, mg_count := mg_count m + 1,
  mg_info := (mg_info m)(mg_count m := \<lparr>mc_address = a, mc_metadata = \<lparr>capabilities = capabilities_of [], server_node_id = Some a\<rparr>\<rparr>)\<rparr>)"
  by (simp add: channel_connect_def lone_world_def)


lemma lone_order: "mw_order lone_world t p = p" "any_order lone_world"
  by (simp_all add: lone_world_def any_order_def)

lemma lone_first: "cached_endpoints (mg_topology m) = [a] \<Longrightarrow> connect_any_initial lone_config lone_world start False m =
   (Done (mg_count m), emit_conn Connected a None (topology_mark_active a (snd (channel_connect lone_world a (emit_conn ConnectAttempt a None m)))))"
  by (simp add: connect_any_initial_def connect_any_initial_once_def lone_fields rotated_single lone_connect athen_amod emit_conn_def)

lemma lone_fill: "fill_pool lone_world a [Suc 0..<2] m = (Done (), pool_channel a 1 (mg_count m) (snd (channel_connect lone_world a m)))"
  by (simp add: upt_conv_Cons lone_connect athen_amod athen_def)

lemma lone_connected: "on_channel_connected lone_config lone_world c m = (Done (), cache_channel_identity lone_world c m)"
  by (simp add: on_channel_connected_def athen_amod lone_fields)

lemma lone_started: "new_manager lone_config lone_world 0 (bus_new subscriptions_all) = (Done (), lone_manager)"
  by (simp add: lone_manager_def new_manager_def lone_addresses lone_first blank_manager_def topology_new_def dedupe_def
    athen_amod athen_def lone_fields lone_fill lone_connected Let_def)

lemma lone_state: "mg_default_candidates lone_manager = [0, 1]" "mg_next_default_channel_index lone_manager = 0"
  "cached_endpoints (mg_topology lone_manager) = [rstr ''a:1'']" "mg_active lone_manager = 0" "mg_closed lone_manager = []"
  "address_of lone_manager 0 = rstr ''a:1''"
  by (simp_all add: lone_manager_def new_manager_def lone_addresses lone_first
    athen_amod athen_def lone_fields lone_fill lone_connected Let_def lone_connect lone_order
    blank_manager_def emit_conn_def topology_mark_active_def
    topology_new_def dedupe_def mark_active_def pool_channel_def pool_insert_def
    store_channels_by_address_def set_active_def cache_channel_identity_def node_id_of_def address_of_def
    pool_values_def build_channels_by_address_def build_default_candidates_def group_of_def push_unique_def refresh_default_candidates_def record_identity_def
    record_node_def record_node_endpoint_def refresh_cache_from_def rebuild_cache_def merged_endpoints_def flatten_discovered_nodes_def fmt_nat_inj)

lemma lone_reachable: "manager_reachable lone_manager"
  using manager_reachable.start [OF lone_order(2) lone_started] .

text \<open>Close to its end the counter wraps, and the scan can then leave a candidate out.\<close>

lemma scan_from_wraps: "scan_from (\<lambda>c. c = 2) [0, 1, 2] 0xFFFFFFFFFFFFFFFF = None"
  by (simp add: scan_from_def upt_conv_Cons)

section \<open>Properties\<close>

text \<open>C9: The pool and its indices. In every state the manager reaches, whatever the cluster and the network
  do: the channels of the pool are distinct, exist, have distinct keys and are none of those the manager
  closed; the index by address holds for every address exactly the channels of the pool to it, so a lookup
  returns an available one whenever there is one, and never another; the candidates for requests without a
  route are exactly the channels of the pool to a known endpoint; the index by node points to channels
  of that node; the copy of the active channel that requests read is the active channel; the
  topology and the affinity cache satisfy their invariants.\<close>
theorem manager_pool:
  assumes "manager_reachable m"
  shows "distinct (map fst (mg_channels m)) \<and> distinct (map snd (mg_channels m)) \<and>
    (\<forall>c \<in> pool m. c < mg_count m \<and> c \<notin> set (mg_closed m)) \<and>
    (\<forall>a. set (group_of (mg_channels_by_address m) a) = {c \<in> pool m. address_of m c = a}) \<and>
    (\<forall>w a. case channel_for_address w m a of
        Some c \<Rightarrow> c \<in> pool m \<and> address_of m c = a \<and> channel_available w m c
      | None \<Rightarrow> \<not> (\<exists>c \<in> pool m. address_of m c = a \<and> channel_available w m c)) \<and>
    distinct (mg_default_candidates m) \<and>
    set (mg_default_candidates m) = {c \<in> pool m. address_of m c \<in> set (cached_endpoints (mg_topology m))} \<and>
    (\<forall>nid c. mg_node_channels m nid = Some c \<longrightarrow> node_id_of m c = Some nid) \<and>
    mg_active m < mg_count m \<and> mg_cached_active m = mg_active m \<and>
    topology_inv (mg_topology m) \<and> affinity_inv (mg_affinity m)"
proof -
  have ok: "manager_ok m" by (rule manager_reachable_ok [OF assms])
  then have "pool_base m" "index_ok m" "candidates_ok m" "active_ok m" by (simp_all add: manager_ok_def)
  moreover have "case channel_for_address w m a of
        Some c \<Rightarrow> c \<in> pool m \<and> address_of m c = a \<and> channel_available w m c
      | None \<Rightarrow> \<not> (\<exists>c \<in> pool m. address_of m c = a \<and> channel_available w m c)" for w a
    using channel_for_address_Some [OF ok, of w a] channel_for_address_None [OF ok, of w a] by (auto split: option.split)
  ultimately show ?thesis by (simp add: pool_base_def index_ok_def candidates_ok_def active_ok_def)
qed

theorem manager_pool_witness:
  "set (group_of (mg_channels_by_address lone_manager) (rstr ''a:1'')) = {c \<in> pool lone_manager. address_of lone_manager c = rstr ''a:1''} \<and>
   mg_cached_active lone_manager = mg_active lone_manager"
  using manager_pool [OF lone_reachable] by blast

text \<open>The default channel, without a data center. While some candidate is available, an available candidate is
  chosen; when none is, the active channel. With several candidates the choice goes round: it is the one
  the counter points to if that is available, and the counter moves on. (The scan adds to the counter with
  wrap-around, so this is stated for a counter that is not about to wrap.)\<close>
theorem default_channel_choice:
  assumes "manager_reachable m" and "data_center_id conf = None"
    and "unat (mg_next_default_channel_index m) + length (mg_default_candidates m) \<le> 2 ^ 64"
    and "default_channel conf w m = (c, m')"
  shows "((\<exists>d \<in> set (mg_default_candidates m). channel_available w m d) \<longrightarrow> c \<in> set (mg_default_candidates m) \<and> channel_available w m c) \<and>
    (\<not> (\<exists>d \<in> set (mg_default_candidates m). channel_available w m d) \<longrightarrow> c = mg_active m) \<and>
    (1 < length (mg_default_candidates m) \<longrightarrow>
      mg_next_default_channel_index m' = mg_next_default_channel_index m + 1 \<and>
      (let next = mg_default_candidates m ! (unat (mg_next_default_channel_index m) mod length (mg_default_candidates m))
       in channel_available w m next \<longrightarrow> c = next))"
proof -
  let ?cs = "mg_default_candidates m" and ?i = "mg_next_default_channel_index m"
  have cached: "mg_cached_active m = mg_active m"
    using manager_reachable_ok [OF assms(1)] by (simp add: manager_ok_def active_ok_def)
  have av: "channel_available w (next_default_index m) = channel_available w m"
    by (simp add: channel_available_def next_default_index_def fun_eq_iff)
  have fb: "default_channel_fallback w m = mg_active m" "default_channel_fallback w (next_default_index m) = mg_active m"
    using cached by (simp_all add: default_channel_fallback_def next_default_index_def)
  note scan = scan_from_spec [OF assms(3), where avail = "channel_available w m"]
  consider (none) "?cs = []" | (one) d where "?cs = [d]" | (many) "1 < length ?cs"
    by (cases ?cs rule: remdups_adj.cases) auto
  then show ?thesis
  proof cases
    case none
    then show ?thesis using assms(2,4) fb by (auto simp: default_channel_def Let_def)
  next
    case one
    then show ?thesis using assms(2,4) fb by (auto simp: default_channel_def Let_def)
  next
    case many
    then have choice: "(c, m') = (case scan_from (channel_available w m) ?cs ?i of
        Some c \<Rightarrow> (c, next_default_index m) | None \<Rightarrow> (mg_active m, next_default_index m))"
      using assms(2,4) fb by (cases ?cs) (auto simp: default_channel_def Let_def av split: if_splits option.splits)
    have "mg_next_default_channel_index (next_default_index m) = ?i + 1" by (simp add: next_default_index_def)
    moreover have "?cs \<noteq> []" using many by auto
    ultimately show ?thesis
      using choice scan(1) scan(2) scan(3) by (cases "scan_from (channel_available w m) ?cs ?i") (auto simp: Let_def)
  qed
qed

theorem default_channel_choice_witness:
  "\<exists>m'. default_channel lone_config lone_world lone_manager = (0, m') \<and> mg_next_default_channel_index m' = 1"
proof -
  obtain c m' where d: "default_channel lone_config lone_world lone_manager = (c, m')" by fastforce
  have "channel_available lone_world lone_manager 0" by (simp add: channel_available_def lone_world_def lone_state)
  then show ?thesis
    using default_channel_choice [OF lone_reachable lone_fields(4) _ d] d by (simp add: lone_state)
qed

text \<open>C12: Throttling of reconnects. Of the attempts made one after the other, those pass before which fewer than
  \<open>max_attempts\<close> passed within the window: the manager, which forgets the older ones, decides as one that
  remembers them all. So in no window of that length do more than \<open>max_attempts\<close> pass.\<close>
theorem reconnect_throttled:
  assumes "sorted instants"
  shows "passed w th [] instants = passed_by_history th [] instants \<and>
    length (filter (\<lambda>x. x \<le> t \<and> t - x < rt_window th) (passed w th [] instants)) \<le> rt_max_attempts th"
proof -
  have "passed w th [] instants = passed_by_history th [] instants"
    using passed_history [of _ _ "[]" th "[]" w] assms by (cases instants) auto
  then show ?thesis using history_bounded [OF assms, of "[]" th t] by simp
qed

theorem reconnect_throttled_witness:
  "passed lone_world \<lparr>rt_window = 10, rt_max_attempts = 2\<rparr> [] [0, 1, 5, 10, 11] = [0, 1, 10, 11]"
  using reconnect_throttled [of "[0, 1, 5, 10, 11]" lone_world "\<lparr>rt_window = 10, rt_max_attempts = 2\<rparr>" 0]
  by (simp add: recent_def)



text \<open>With two available candidates the default channel alternates.\<close>

lemma two_candidates:
  assumes "manager_reachable m" and "data_center_id conf = None"
    and "mg_default_candidates m = [c0, c1]" and "channel_available w m c0" and "channel_available w m c1"
    and "unat (mg_next_default_channel_index m) + 3 \<le> 2 ^ 64"
  obtains d0 d1 where "default_channel conf w m = (d0, next_default_index m)"
    and "default_channel conf w (next_default_index m) = (d1, next_default_index (next_default_index m))"
    and "{d0, d1} = {c0, c1}" and "d0 \<noteq> d1"
proof -
  let ?i = "unat (mg_next_default_channel_index m)"
  have distinct: "c0 \<noteq> c1" using manager_reachable_ok [OF assms(1)] assms(3) by (auto simp: manager_ok_def candidates_ok_def)
  have pick: "default_channel conf w m' = ([c0, c1] ! (unat (mg_next_default_channel_index m') mod 2), next_default_index m')"
    if "mg_default_candidates m' = [c0, c1]" "mg_closed m' = mg_closed m" "mg_clock m' = mg_clock m"
      "unat (mg_next_default_channel_index m') + 2 \<le> 2 ^ 64" for m'
  proof -
    have av: "channel_available w m'' = channel_available w m" if "mg_closed m'' = mg_closed m" "mg_clock m'' = mg_clock m" for m''
      using that by (simp add: channel_available_def fun_eq_iff)
    let ?j = "unat (mg_next_default_channel_index m') mod 2"
    have "channel_available w m ([c0, c1] ! ?j)" using assms(4,5) by (cases "?j = 0") auto
    moreover have len: "length [c0, c1] = 2" by simp
    ultimately have "scan_from (channel_available w m) [c0, c1] (mg_next_default_channel_index m') = Some ([c0, c1] ! ?j)"
      using scan_from_spec(3) [of "mg_next_default_channel_index m'" "[c0, c1]" "channel_available w m", unfolded len] that(4) by blast
    moreover have "channel_available w (next_default_index m') = channel_available w m" "channel_available w m' = channel_available w m"
      by (rule av; use that(2,3) in \<open>simp add: next_default_index_def\<close>)+
    ultimately show ?thesis using that(1) assms(2) by (simp add: default_channel_def Let_def del: nth_Cons_numeral)
  qed
  let ?m1 = "next_default_index m"
  have i1: "unat (mg_next_default_channel_index ?m1) = ?i + 1"
    using assms(6) by (simp add: next_default_index_def unat_word_ariths)
  have first: "default_channel conf w m = ([c0, c1] ! (?i mod 2), ?m1)" using pick [of m] assms(3,6) by simp
  have second: "default_channel conf w ?m1 = ([c0, c1] ! ((?i + 1) mod 2), next_default_index ?m1)"
    using pick [of ?m1] assms(3,6) i1 by (simp add: next_default_index_def)
  have "{[c0, c1] ! (?i mod 2), [c0, c1] ! ((?i + 1) mod 2)} = {c0, c1} \<and> [c0, c1] ! (?i mod 2) \<noteq> [c0, c1] ! ((?i + 1) mod 2)"
  proof (cases "?i mod 2 = 0")
    case True
    then have "(?i + 1) mod 2 = Suc 0" by (simp add: mod_Suc)
    then show ?thesis using True distinct by simp
  next
    case False
    then have "?i mod 2 = Suc 0" "(?i + 1) mod 2 = 0" by (simp_all add: mod_Suc)
    then show ?thesis using distinct by auto
  qed
  with first second that show thesis by blast
qed

text \<open>Asking for a capability moves the round robin on. With two available candidates, the capability is read
  off one channel and the request that relies on it goes to the other one: in a cluster of mixed versions
  the check is always made on the wrong server.\<close>
theorem capability_checked_elsewhere:
  assumes "manager_reachable m" and "data_center_id conf = None"
    and "mg_default_candidates m = [c0, c1]" and "channel_available w m c0" and "channel_available w m c1"
    and "unat (mg_next_default_channel_index m) + 3 \<le> 2 ^ 64"
  shows "\<exists>checked m1 used m2. default_capability cap conf w m = (Done (cap (caps_of m1 checked)), m1) \<and>
    default_channel conf w m1 = (used, m2) \<and> {checked, used} = {c0, c1} \<and> checked \<noteq> used"
proof -
  obtain d0 d1 where d: "default_channel conf w m = (d0, next_default_index m)"
      "default_channel conf w (next_default_index m) = (d1, next_default_index (next_default_index m))" "{d0, d1} = {c0, c1}" "d0 \<noteq> d1"
    using two_candidates [OF assms] by blast
  moreover have "default_capability cap conf w m = (Done (cap (caps_of (next_default_index m) d0)), next_default_index m)"
    using d(1) by (simp add: default_capability_def)
  ultimately show ?thesis by blast
qed

theorem capability_checked_elsewhere_witness:
  "\<exists>checked m1 used m2. default_capability transactions lone_config lone_world lone_manager = (Done (transactions (caps_of m1 checked)), m1) \<and>
     default_channel lone_config lone_world m1 = (used, m2) \<and> checked \<noteq> used"
proof -
  have "channel_available lone_world lone_manager c" for c by (simp add: channel_available_def lone_world_def lone_state)
  moreover have "unat (mg_next_default_channel_index lone_manager) + 3 \<le> 2 ^ 64" by (simp add: lone_state)
  ultimately show ?thesis
    using capability_checked_elsewhere [OF lone_reachable lone_fields(4) lone_state(1), of lone_world transactions] by blast
qed

text \<open>A resource of the server belongs to the connection it was made on, and a client names it again by the address of that
  connection (the pinned route of cursors, transactions and notification listeners). With a pool of two
  connections to one address, two requests one after the other go to the two connections, but what is
  pinned to their address goes to the same one in both cases: for one of the two it is the other connection.\<close>
theorem pinned_to_other_connection:
  assumes "manager_reachable m" and "data_center_id conf = None"
    and "mg_default_candidates m = [c0, c1]" and "channel_available w m c0" and "channel_available w m c1"
    and "address_of m c0 = a" and "address_of m c1 = a"
    and "unat (mg_next_default_channel_index m) + 3 \<le> 2 ^ 64"
  shows "\<exists>d0 m1 d1 m2 p. default_channel conf w m = (d0, m1) \<and> default_channel conf w m1 = (d1, m2) \<and> {d0, d1} = {c0, c1} \<and>
    address_of m1 d0 = a \<and> address_of m2 d1 = a \<and>
    select_channel conf w (route_pinned a) m1 = (Done (Some p), m1) \<and> select_channel conf w (route_pinned a) m2 = (Done (Some p), m2) \<and>
    (p \<noteq> d0 \<or> p \<noteq> d1)"
proof -
  let ?m1 = "next_default_index m" and ?m2 = "next_default_index (next_default_index m)"
  obtain d0 d1 where d: "default_channel conf w m = (d0, ?m1)" "default_channel conf w ?m1 = (d1, ?m2)" "{d0, d1} = {c0, c1}" "d0 \<noteq> d1"
    using two_candidates [OF assms(1-5,8)] by blast
  have "c0 \<in> pool m" using manager_reachable_ok [OF assms(1)] assms(3) by (auto simp: manager_ok_def candidates_ok_def)
  then obtain p where p: "channel_for_address w m a = Some p"
    using channel_for_address_None [OF manager_reachable_ok [OF assms(1)], of w a] assms(4,6) by (cases "channel_for_address w m a") auto
  have same: "channel_for_address w ?m1 = channel_for_address w m" "channel_for_address w ?m2 = channel_for_address w m"
    "address_of ?m1 = address_of m" "address_of ?m2 = address_of m"
    by (simp_all add: fun_eq_iff channel_for_address_def channel_available_def [abs_def] next_default_index_def address_of_def)
  have "address_of m d0 = a" "address_of m d1 = a" using d(3) assms(6,7) by (auto simp: doubleton_eq_iff)
  with d p same show ?thesis by (auto simp: select_channel_def route_pinned_def)
qed

theorem pinned_to_other_connection_witness:
  "\<exists>d0 m1 d1 m2 p. default_channel lone_config lone_world lone_manager = (d0, m1) \<and> default_channel lone_config lone_world m1 = (d1, m2) \<and>
    {d0, d1} = {0, 1} \<and> address_of m1 d0 = rstr ''a:1'' \<and> address_of m2 d1 = rstr ''a:1'' \<and>
    select_channel lone_config lone_world (route_pinned (rstr ''a:1'')) m1 = (Done (Some p), m1) \<and>
    select_channel lone_config lone_world (route_pinned (rstr ''a:1'')) m2 = (Done (Some p), m2) \<and> (p \<noteq> d0 \<or> p \<noteq> d1)"
proof -
  have av: "channel_available lone_world lone_manager c" for c by (simp add: channel_available_def lone_world_def lone_state)
  have idx: "unat (mg_next_default_channel_index lone_manager) + 3 \<le> 2 ^ 64" by (simp add: lone_state)
  have "set (mg_default_candidates lone_manager) =
      {c \<in> pool lone_manager. address_of lone_manager c \<in> set (cached_endpoints (mg_topology lone_manager))}"
    using manager_reachable_ok [OF lone_reachable] by (simp add: manager_ok_def candidates_ok_def)
  then have "address_of lone_manager 0 = rstr ''a:1''" "address_of lone_manager 1 = rstr ''a:1''" by (auto simp: lone_state)
  from pinned_to_other_connection [OF lone_reachable lone_fields(4) lone_state(1) av av this idx] show ?thesis .
qed



end
