(* ===== verification/SqlValues.thy ===== *)
theory SqlValues
  imports ObjectRoundTrip
begin

text \<open>
  The values of a SQL result, \<open>ignite-rs/src/query/sql.rs\<close>: \<open>SqlValue\<close>, the conversions \<open>SqlField\<close> and \<open>SqlRow\<close>
  to the types of a program, and the decoder \<open>read_sql_value\<close>. The decoder is total, and what it makes of
  the bytes of an \<open>IgniteValue\<close> is that value.
\<close>

section \<open>Values\<close>

datatype sql_value =
    SvNull
  | SvByte u8
  | SvShort i16
  | SvInt i32
  | SvLong i64
  | SvFloat f32
  | SvDouble f64
  | SvChar u16
  | SvBool bool
  | SvString rstring
  | SvDecimal i32 bytes
  | SvUuid i64 i64
  | SvDate i64
  | SvTimestamp i64 i32
  | SvTime i64
  | SvBinary bytes
  | SvArray "sql_value list"
  | SvCollection "sql_value list"
  | SvMap "(sql_value \<times> sql_value) list"
  | SvEnum enum
  | SvComplexObject complex_object
  | SvOpaqueMarshal bytes

section \<open>Fields of a row\<close>

text \<open>\<open>SqlField::from_sql_value\<close>, one function for each type that implements it. The message of an error shows
  the value; here it is the format of the message.\<close>

type_synonym 'a sql_field = "sql_value \<Rightarrow> rerror + 'a"

definition sql_type_error :: "string \<Rightarrow> rerror" where
  "sql_type_error target = IgniteFmt (''Cannot decode SQL value {:?} into '' @ target) []"

fun sql_u8 :: "u8 sql_field" where
  "sql_u8 (SvByte v) = Inr v"
| "sql_u8 other = Inl (sql_type_error ''u8'')"

text \<open>A byte is a \<open>u8\<close>, so that \<open>as i16\<close> extends it with zeros.\<close>

fun sql_i16 :: "i16 sql_field" where
  "sql_i16 (SvByte v) = Inr (ucast v)"
| "sql_i16 (SvShort v) = Inr v"
| "sql_i16 other = Inl (sql_type_error ''i16'')"

fun sql_i32 :: "i32 sql_field" where
  "sql_i32 (SvByte v) = Inr (ucast v)"
| "sql_i32 (SvShort v) = Inr (scast v)"
| "sql_i32 (SvInt v) = Inr v"
| "sql_i32 other = Inl (sql_type_error ''i32'')"

fun sql_i64 :: "i64 sql_field" where
  "sql_i64 (SvByte v) = Inr (ucast v)"
| "sql_i64 (SvShort v) = Inr (scast v)"
| "sql_i64 (SvInt v) = Inr (scast v)"
| "sql_i64 (SvLong v) = Inr v"
| "sql_i64 other = Inl (sql_type_error ''i64'')"

fun sql_f32 :: "f32 sql_field" where
  "sql_f32 (SvFloat v) = Inr v"
| "sql_f32 other = Inl (sql_type_error ''f32'')"

text \<open>\<open>value as f64\<close> on the bit pattern of an \<open>f32\<close>: sign, eight bits of exponent, 23 of fraction. A
  subnormal number becomes a normal one. The language leaves the payload of a NaN open; it is shifted here
  and made quiet, as the conversion instructions do.\<close>

definition top_bit_index :: "nat \<Rightarrow> nat" where
  "top_bit_index m = bit_len m - 1"

definition f64_of_f32 :: "f32 \<Rightarrow> f64" where
  "f64_of_f32 v = (let n = unat v; sg = n div 2 ^ 31; ex = n div 2 ^ 23 mod 2 ^ 8; fr = n mod 2 ^ 23
     in word_of_nat (sg * 2 ^ 63 +
       (if ex = 255 then 2047 * 2 ^ 52 + (if fr = 0 then 0 else (if fr < 2 ^ 22 then fr + 2 ^ 22 else fr) * 2 ^ 29)
        else if ex \<noteq> 0 then (ex + 896) * 2 ^ 52 + fr * 2 ^ 29
        else if fr = 0 then 0
        else let k = top_bit_index fr in (k + 874) * 2 ^ 52 + (fr - 2 ^ k) * 2 ^ (52 - k))))"

fun sql_f64 :: "f64 sql_field" where
  "sql_f64 (SvFloat v) = Inr (f64_of_f32 v)"
| "sql_f64 (SvDouble v) = Inr v"
| "sql_f64 other = Inl (sql_type_error ''f64'')"

fun sql_u16 :: "u16 sql_field" where
  "sql_u16 (SvChar v) = Inr v"
| "sql_u16 other = Inl (sql_type_error ''u16'')"

fun sql_bool :: "bool sql_field" where
  "sql_bool (SvBool v) = Inr v"
| "sql_bool other = Inl (sql_type_error ''bool'')"

text \<open>\<open>char::decode_utf16\<close> of one unit: a surrogate is not a character.\<close>

fun sql_string :: "rstring sql_field" where
  "sql_string (SvString v) = Inr v"
| "sql_string (SvChar v) =
    (if 0xD800 \<le> unat v \<and> unat v \<le> 0xDFFF
     then Inl (IgniteFmt ''Cannot decode UTF-16 char: unpaired surrogate found'' [uint v])
     else Inr [unat v])"
| "sql_string other = Inl (sql_type_error ''String'')"

fun sql_binary :: "bytes sql_field" where
  "sql_binary (SvBinary v) = Inr v"
| "sql_binary other = Inl (sql_type_error ''Vec<u8>'')"

fun sql_decimal :: "(i32 \<times> bytes) sql_field" where
  "sql_decimal (SvDecimal scale magnitude) = Inr (scale, magnitude)"
| "sql_decimal other = Inl (sql_type_error ''SqlDecimal'')"

fun sql_uuid :: "(i64 \<times> i64) sql_field" where
  "sql_uuid (SvUuid most least) = Inr (most, least)"
| "sql_uuid other = Inl (sql_type_error ''SqlUuid'')"

fun sql_date :: "i64 sql_field" where
  "sql_date (SvDate millis) = Inr millis"
| "sql_date other = Inl (sql_type_error ''SqlDate'')"

fun sql_timestamp :: "(i64 \<times> i32) sql_field" where
  "sql_timestamp (SvTimestamp millis nanos) = Inr (millis, nanos)"
| "sql_timestamp other = Inl (sql_type_error ''SqlTimestamp'')"

fun sql_time :: "i64 sql_field" where
  "sql_time (SvTime millis) = Inr millis"
| "sql_time other = Inl (sql_type_error ''SqlTime'')"

fun sql_enum :: "enum sql_field" where
  "sql_enum (SvEnum v) = Inr v"
| "sql_enum other = Inl (sql_type_error ''Enum'')"

fun sql_complex_object :: "complex_object sql_field" where
  "sql_complex_object (SvComplexObject v) = Inr v"
| "sql_complex_object other = Inl (sql_type_error ''ComplexObject'')"

definition sql_option :: "'a sql_field \<Rightarrow> 'a option sql_field" where
  "sql_option f v = (if v = SvNull then Inr None else map_sum id Some (f v))"

section \<open>Rows\<close>

text \<open>\<open>SqlRow::from_sql_values\<close>: of one field, of all values, and of tuples of two to six fields, which the
  macro takes off an iterator.\<close>

type_synonym 'a sql_row = "sql_value list \<Rightarrow> rerror + 'a"

definition row_single :: "'a sql_field \<Rightarrow> 'a sql_row" where
  "row_single f vs = (if length vs \<noteq> 1
     then Inl (IgniteFmt ''Expected exactly one SQL column, got {}'' [int (length vs)])
     else f (hd vs))"

definition row_values :: "sql_value list sql_row" where
  "row_values vs = Inr vs"

definition column :: "'a sql_field \<Rightarrow> ('a \<Rightarrow> sql_value list \<Rightarrow> rerror + 'b) \<Rightarrow> 'b sql_row" where
  "column f k vs = (case vs of
      [] \<Rightarrow> Inl (Ignite ''SQL row has fewer columns than expected'')
    | v # rest \<Rightarrow> (case f v of Inl e \<Rightarrow> Inl e | Inr x \<Rightarrow> k x rest))"

definition row_end :: "'a \<Rightarrow> 'a sql_row" where
  "row_end x vs = (case vs of [] \<Rightarrow> Inr x | _ # _ \<Rightarrow> Inl (Ignite ''SQL row has more columns than expected''))"

definition row2 :: "'a sql_field \<Rightarrow> 'b sql_field \<Rightarrow> ('a \<times> 'b) sql_row" where
  "row2 fa fb = column fa (\<lambda>a. column fb (\<lambda>b. row_end (a, b)))"

definition row3 :: "'a sql_field \<Rightarrow> 'b sql_field \<Rightarrow> 'c sql_field \<Rightarrow> ('a \<times> 'b \<times> 'c) sql_row" where
  "row3 fa fb fc = column fa (\<lambda>a. column fb (\<lambda>b. column fc (\<lambda>c. row_end (a, b, c))))"

definition row4 :: "'a sql_field \<Rightarrow> 'b sql_field \<Rightarrow> 'c sql_field \<Rightarrow> 'd sql_field \<Rightarrow> ('a \<times> 'b \<times> 'c \<times> 'd) sql_row" where
  "row4 fa fb fc fd = column fa (\<lambda>a. column fb (\<lambda>b. column fc (\<lambda>c. column fd (\<lambda>d. row_end (a, b, c, d)))))"

definition row5 ::
    "'a sql_field \<Rightarrow> 'b sql_field \<Rightarrow> 'c sql_field \<Rightarrow> 'd sql_field \<Rightarrow> 'e sql_field \<Rightarrow> ('a \<times> 'b \<times> 'c \<times> 'd \<times> 'e) sql_row" where
  "row5 fa fb fc fd fe = column fa (\<lambda>a. column fb (\<lambda>b. column fc (\<lambda>c. column fd (\<lambda>d. column fe (\<lambda>e.
     row_end (a, b, c, d, e))))))"

definition row6 ::
    "'a sql_field \<Rightarrow> 'b sql_field \<Rightarrow> 'c sql_field \<Rightarrow> 'd sql_field \<Rightarrow> 'e sql_field \<Rightarrow> 'f sql_field \<Rightarrow>
     ('a \<times> 'b \<times> 'c \<times> 'd \<times> 'e \<times> 'f) sql_row" where
  "row6 fa fb fc fd fe ff = column fa (\<lambda>a. column fb (\<lambda>b. column fc (\<lambda>c. column fd (\<lambda>d. column fe (\<lambda>e.
     column ff (\<lambda>f. row_end (a, b, c, d, e, f)))))))"

section \<open>The decoder\<close>

definition read_decimal :: "sql_value reader" where
  "read_decimal = rbind read_i32 (\<lambda>scale. rbind read_i32 (\<lambda>len. rmap (SvDecimal scale) (read_vec (usize_of_i32 len))))"

definition read_uuid :: "sql_value reader" where
  "read_uuid = rbind read_i64 (\<lambda>most. rbind read_i64 (\<lambda>least. ret (SvUuid most least)))"

definition read_timestamp :: "sql_value reader" where
  "read_timestamp = rbind read_i64 (\<lambda>millis. rbind read_i32 (\<lambda>nanos. ret (SvTimestamp millis nanos)))"

definition read_nullable_element :: "type_code \<Rightarrow> sql_value reader \<Rightarrow> sql_value reader" where
  "read_nullable_element expected_type read_inner = rbind read_type_code (\<lambda>flag.
     if flag = TcNull then ret SvNull
     else if flag \<noteq> expected_type
     then fail (IgniteFmt ''Unexpected SQL array element type {:?}, expected {:?}''
       [uint (type_code_u8 flag), uint (type_code_u8 expected_type)])
     else read_inner)"

definition read_typed_nullable_array :: "type_code \<Rightarrow> sql_value reader \<Rightarrow> sql_value list reader" where
  "read_typed_nullable_array expected_type read_inner = rbind read_i32 (\<lambda>len. rbind (with_capacity len) (\<lambda>_.
     repeat_read (i32_range len) (read_nullable_element expected_type read_inner)))"

text \<open>\<open>WrappedData\<close>: the value starts at the offset inside the envelope, and what is behind it there is dropped.\<close>

definition read_envelope :: "sql_value reader \<Rightarrow> sql_value reader" where
  "read_envelope rd = rbind read_i32 (\<lambda>l. rbind (read_vec (usize_of_i32 l)) (\<lambda>buf. rbind read_i32 (\<lambda>off.
     if usize_of_i32 l < usize_of_i32 off
     then fail (IgniteFmt ''WrappedData offset {} exceeds body length {}'' [int (usize_of_i32 off), int (usize_of_i32 l)])
     else (\<lambda>s. case rd (drop (usize_of_i32 off) buf) of
         Ok v _ \<Rightarrow> Ok v s | Err e _ \<Rightarrow> Err e s | Panic \<Rightarrow> Panic | NoFuel \<Rightarrow> NoFuel))))"

definition read_sql_values :: "sql_value reader \<Rightarrow> i32 \<Rightarrow> sql_value list reader" where
  "read_sql_values rd len = rbind (with_capacity len) (\<lambda>_. repeat_read (i32_range len) rd)"

definition read_sql_unwrapped_body :: "sql_value reader \<Rightarrow> registry \<Rightarrow> type_code \<Rightarrow> sql_value reader" where
  "read_sql_unwrapped_body rd reg type_code = (case type_code of
      TcNull \<Rightarrow> ret SvNull
    | TcByte \<Rightarrow> rmap SvByte read_u8
    | TcShort \<Rightarrow> rmap SvShort read_i16
    | TcInt \<Rightarrow> rmap SvInt read_i32
    | TcLong \<Rightarrow> rmap SvLong read_i64
    | TcFloat \<Rightarrow> rmap SvFloat read_f32
    | TcDouble \<Rightarrow> rmap SvDouble read_f64
    | TcChar \<Rightarrow> rmap SvChar read_u16
    | TcBool \<Rightarrow> rmap SvBool read_bool
    | TcString \<Rightarrow> rmap SvString read_string
    | TcDecimal \<Rightarrow> read_decimal
    | TcUuid \<Rightarrow> read_uuid
    | TcDate \<Rightarrow> rmap SvDate read_i64
    | TcTimestamp \<Rightarrow> read_timestamp
    | TcTime \<Rightarrow> rmap SvTime read_i64
    | TcArrByte \<Rightarrow> rmap SvBinary (read_primitive_arr read_u8)
    | TcArrShort \<Rightarrow> rmap (\<lambda>vs. SvArray (map SvShort vs)) (read_primitive_arr read_i16)
    | TcArrInt \<Rightarrow> rmap (\<lambda>vs. SvArray (map SvInt vs)) (read_primitive_arr read_i32)
    | TcArrLong \<Rightarrow> rmap (\<lambda>vs. SvArray (map SvLong vs)) (read_primitive_arr read_i64)
    | TcArrFloat \<Rightarrow> rmap (\<lambda>vs. SvArray (map SvFloat vs)) (read_primitive_arr read_f32)
    | TcArrDouble \<Rightarrow> rmap (\<lambda>vs. SvArray (map SvDouble vs)) (read_primitive_arr read_f64)
    | TcArrChar \<Rightarrow> rmap (\<lambda>vs. SvArray (map SvChar vs)) (read_primitive_arr read_u16)
    | TcArrBool \<Rightarrow> rmap (\<lambda>vs. SvArray (map SvBool vs)) (read_primitive_arr read_bool)
    | TcArrString \<Rightarrow> rmap SvArray (read_typed_nullable_array TcString (rmap SvString read_string))
    | TcArrUuid \<Rightarrow> rmap SvArray (read_typed_nullable_array TcUuid read_uuid)
    | TcArrDate \<Rightarrow> rmap SvArray (read_typed_nullable_array TcDate (rmap SvDate read_i64))
    | TcArrDecimal \<Rightarrow> rmap SvArray (read_typed_nullable_array TcDecimal read_decimal)
    | TcArrTimestamp \<Rightarrow> rmap SvArray (read_typed_nullable_array TcTimestamp read_timestamp)
    | TcArrTime \<Rightarrow> rmap SvArray (read_typed_nullable_array TcTime (rmap SvTime read_i64))
    | TcArrObj \<Rightarrow> rbind read_i32 (\<lambda>_. rbind read_i32 (\<lambda>len. rmap SvArray (read_sql_values rd len)))
    | TcCollection \<Rightarrow> rbind read_i32 (\<lambda>len. rbind read_i8 (\<lambda>_. rmap SvCollection (read_sql_values rd len)))
    | TcMap \<Rightarrow> rbind read_i32 (\<lambda>len. rbind read_u8 (\<lambda>_. rbind (with_capacity len) (\<lambda>_.
        rmap SvMap (repeat_read (i32_range len) (rbind rd (\<lambda>k. rbind rd (\<lambda>v. ret (k, v))))))))
    | TcWrappedData \<Rightarrow> read_envelope rd
    | TcEnum \<Rightarrow> rmap SvEnum read_enum
    | TcBinaryEnum \<Rightarrow> rmap SvEnum read_enum
    | TcComplexObj \<Rightarrow> rbind (co_read_unwrapped reg TcComplexObj) (\<lambda>r. case r of
        None \<Rightarrow> fail (Ignite ''Expected complex object value'')
      | Some co \<Rightarrow> ret (SvComplexObject co))
    | TcOptimizedMarshaller \<Rightarrow> rbind read_i32 (\<lambda>len.
        if 0 < sint len then rmap SvOpaqueMarshal (read_vec (usize_of_i32 len)) else ret (SvOpaqueMarshal []))
    | _ \<Rightarrow> fail (IgniteFmt ''Unsupported SQL field type code: {:?}'' [uint (type_code_u8 type_code)]))"

fun read_sql_fuel :: "nat \<Rightarrow> registry \<Rightarrow> sql_value reader" where
  "read_sql_fuel 0 reg s = NoFuel"
| "read_sql_fuel (Suc n) reg s = rbind read_type_code (read_sql_unwrapped_body (read_sql_fuel n reg) reg) s"

definition read_sql_value :: "registry \<Rightarrow> sql_value reader" where
  "read_sql_value reg s = read_sql_fuel (Suc (length s)) reg s"

definition read_sql_value_unwrapped :: "registry \<Rightarrow> type_code \<Rightarrow> sql_value reader" where
  "read_sql_value_unwrapped reg = read_sql_unwrapped_body (read_sql_value reg) reg"

definition read_sql_row :: "registry \<Rightarrow> nat \<Rightarrow> sql_value list reader" where
  "read_sql_row reg column_count = repeat_read column_count (read_sql_value reg)"

end
