(* ===== verification/SqlDecoding.thy ===== *)
theory SqlDecoding
  imports SqlValues
begin

text \<open>
  The decoder of SQL values: it ends on every input, satisfies the equations of the source, and agrees with
  the encoder of \<open>IgniteValue\<close>. The conversions of fields keep the numbers they convert.
\<close>

section \<open>The decoder is total\<close>

lemma shrinks_sql_parts [progress_intros]:
  "shrinks 0 read_decimal" "shrinks 0 read_uuid" "shrinks 0 read_timestamp"
  unfolding read_decimal_def read_uuid_def read_timestamp_def by (intro progress_intros)+

lemma fueled_sql_parts [fuel_intros]:
  "fueled L read_decimal" "fueled L read_uuid" "fueled L read_timestamp"
  unfolding read_decimal_def read_uuid_def read_timestamp_def by (intro fuel_intros progress_intros)+

lemma shrinks0_read_type_code [progress_intros]: "shrinks 0 read_type_code"
  by (rule shrinks_mono [OF shrinks_read_type_code]) simp

lemma read_primitive_arr_ok [progress_intros]: "shrinks 0 r \<Longrightarrow> shrinks 0 (read_primitive_arr r)"
  and fueled_primitive_arr [fuel_intros]: "fueled L r \<Longrightarrow> shrinks 0 r \<Longrightarrow> fueled L (read_primitive_arr r)"
  unfolding read_primitive_arr_def by (intro progress_intros fuel_intros; assumption)+

lemma shrinks_nullable [progress_intros]: "shrinks 0 r \<Longrightarrow> shrinks 0 (read_typed_nullable_array tc r)"
  and fueled_nullable [fuel_intros]: "fueled L r \<Longrightarrow> shrinks 0 r \<Longrightarrow> fueled L (read_typed_nullable_array tc r)"
proof -
  show "shrinks 0 r \<Longrightarrow> shrinks 0 (read_typed_nullable_array tc r)"
    unfolding read_typed_nullable_array_def read_nullable_element_def by (intro progress_intros)
  assume r: "fueled L r" "shrinks 0 r"
  have "fueled L (read_nullable_element tc r)" "shrinks 0 (read_nullable_element tc r)"
    unfolding read_nullable_element_def using r by (auto intro!: fuel_intros progress_intros)
  then show "fueled L (read_typed_nullable_array tc r)"
    unfolding read_typed_nullable_array_def by (intro progress_intros fuel_intros)
qed

lemma shrinks_sql_values [progress_intros]: "shrinks 0 rd \<Longrightarrow> shrinks 0 (read_sql_values rd len)"
  and fueled_sql_values [fuel_intros]: "fueled L rd \<Longrightarrow> shrinks 0 rd \<Longrightarrow> fueled L (read_sql_values rd len)"
  unfolding read_sql_values_def by (intro progress_intros fuel_intros; assumption)+

lemma agree_sql_values [agree_intros]:
  "agree L rd rd' \<Longrightarrow> shrinks 0 rd \<Longrightarrow> agree L (read_sql_values rd len) (read_sql_values rd' len)"
  unfolding read_sql_values_def by (intro agree_intros progress_intros)

definition finish_envelope :: "sql_value reader \<Rightarrow> i32 \<Rightarrow> bytes \<Rightarrow> sql_value reader" where
  "finish_envelope rd l buf = rbind read_i32 (\<lambda>off.
     if usize_of_i32 l < usize_of_i32 off
     then fail (IgniteFmt ''WrappedData offset {} exceeds body length {}'' [int (usize_of_i32 off), int (usize_of_i32 l)])
     else (\<lambda>s. case rd (drop (usize_of_i32 off) buf) of
         Ok v _ \<Rightarrow> Ok v s | Err e _ \<Rightarrow> Err e s | Panic \<Rightarrow> Panic | NoFuel \<Rightarrow> NoFuel))"

lemma read_envelope_eq: "read_envelope rd = rbind read_i32 (\<lambda>l. rbind (read_vec (usize_of_i32 l)) (finish_envelope rd l))"
  by (simp add: read_envelope_def finish_envelope_def [abs_def])

lemma shrinks_envelope [progress_intros]: "shrinks 0 (read_envelope rd)"
proof -
  have "shrinks 0 (\<lambda>s. case r of Ok v _ \<Rightarrow> Ok v s | Err e _ \<Rightarrow> Err e s | Panic \<Rightarrow> Panic | NoFuel \<Rightarrow> NoFuel)"
    for r :: "sql_value outcome"
    by (cases r) (simp_all add: shrinks_def)
  then show ?thesis unfolding read_envelope_def by (intro progress_intros)
qed

lemma fueled_envelope [fuel_intros]: "fueled L rd \<Longrightarrow> fueled L (read_envelope rd)"
proof -
  assume rd: "fueled L rd"
  have "fueled L (finish_envelope rd l data)" if "length data < L" for data l
    unfolding finish_envelope_def
    by (rule fueled_rbind [OF i32.dec_fueled i32.dec_shrinks])
      (use that fueledD [OF rd] in \<open>auto simp: fueled_def split: outcome.split\<close>)
  then show ?thesis
    unfolding read_envelope_eq by (intro fueled_rbind fueled_read_vec_then i32.dec_fueled i32.dec_shrinks)
qed

lemma agree_envelope [agree_intros]: "agree L rd rd' \<Longrightarrow> agree L (read_envelope rd) (read_envelope rd')"
proof -
  assume rd: "agree L rd rd'"
  have "finish_envelope rd l data = finish_envelope rd' l data" if "length data < L" for data l
    unfolding finish_envelope_def using that agreeD [OF rd, of "drop k data" for k] by (simp cong: if_cong)
  then show ?thesis
    unfolding read_envelope_eq by (intro agree_rbind agree_refl agree_read_vec_then i32.dec_shrinks)
qed

lemma fueled_co_read_unwrapped [fuel_intros]: "fueled L (co_read_unwrapped reg tc)"
  by (simp add: fueled_def co_read_total)

lemma fueled_if [fuel_intros]: "fueled L a \<Longrightarrow> fueled L b \<Longrightarrow> fueled L (if c then a else b)"
  by simp

lemma shrinks_sql_body: "shrinks 0 rd \<Longrightarrow> shrinks 0 (read_sql_unwrapped_body rd reg tc)"
  unfolding read_sql_unwrapped_body_def
  by (cases tc; simp only: type_code.case; intro progress_intros; assumption?)

lemma fueled_sql_body: "fueled L rd \<Longrightarrow> shrinks 0 rd \<Longrightarrow> fueled L (read_sql_unwrapped_body rd reg tc)"
  unfolding read_sql_unwrapped_body_def
  by (cases tc; simp only: type_code.case; intro fuel_intros progress_intros; assumption?)

lemma agree_sql_body:
  "agree L rd rd' \<Longrightarrow> shrinks 0 rd \<Longrightarrow> agree L (read_sql_unwrapped_body rd reg tc) (read_sql_unwrapped_body rd' reg tc)"
  unfolding read_sql_unwrapped_body_def
  by (cases tc; simp only: type_code.case; intro agree_refl agree_intros progress_intros; assumption?)

lemma read_sql_fuel_Suc: "read_sql_fuel (Suc n) reg = rbind read_type_code (read_sql_unwrapped_body (read_sql_fuel n reg) reg)"
  by (simp add: fun_eq_iff)

lemma shrinks_sql_fuel: "shrinks 0 (read_sql_fuel n reg)"
proof (induction n)
  case 0
  show ?case by (simp add: shrinks_def)
next
  case (Suc n)
  then show ?case unfolding read_sql_fuel_Suc by (intro shrinks_rbind0 shrinks0_read_type_code shrinks_sql_body)
qed

lemma fueled_sql_fuel: "fueled n (read_sql_fuel n reg)"
proof (induction n)
  case 0
  show ?case by (simp add: fueled_def)
next
  case (Suc n)
  then show ?case
    unfolding read_sql_fuel_Suc
    by (intro fueled_first [OF fueled_read_type_code shrinks_read_type_code] fueled_sql_body shrinks_sql_fuel) simp_all
qed

lemma sql_fuel_enough: "n \<le> m \<Longrightarrow> agree n (read_sql_fuel n reg) (read_sql_fuel m reg)"
proof (induction n arbitrary: m)
  case 0
  show ?case by (simp add: agree_def)
next
  case (Suc n)
  then obtain k where m: "m = Suc k" and nk: "n \<le> k" by (cases m) auto
  show ?case
    unfolding m read_sql_fuel_Suc
    by (intro agree_first [OF shrinks_read_type_code] agree_sql_body shrinks_sql_fuel Suc.IH [OF nk]) simp
qed

lemma agree_read_sql_value: "agree n (read_sql_fuel n reg) (read_sql_value reg)"
  unfolding agree_def
proof (intro allI impI)
  fix s :: bytes
  assume "length s < n"
  then have "agree (Suc (length s)) (read_sql_fuel (Suc (length s)) reg) (read_sql_fuel n reg)" by (intro sql_fuel_enough) simp
  then show "read_sql_fuel n reg s = read_sql_value reg s" unfolding read_sql_value_def agree_def by simp
qed

lemma shrinks_read_sql_value [progress_intros]: "shrinks 0 (read_sql_value reg)"
  using shrinks_sql_fuel unfolding shrinks_def read_sql_value_def by blast

lemma fueled_read_sql_value [fuel_intros]: "fueled L (read_sql_value reg)"
  using fueled_sql_fuel unfolding fueled_def read_sql_value_def by blast

lemma read_sql_value_unfold: "read_sql_value reg s = rbind read_type_code (read_sql_value_unwrapped reg) s"
proof -
  have "agree (Suc (length s)) (read_sql_fuel (Suc (length s)) reg) (rbind read_type_code (read_sql_value_unwrapped reg))"
    unfolding read_sql_fuel_Suc read_sql_value_unwrapped_def
    by (intro agree_first [OF shrinks_read_type_code] agree_sql_body shrinks_sql_fuel agree_read_sql_value) simp
  then show ?thesis by (simp add: agree_def read_sql_value_def)
qed

lemma read_sql_value_code [reader_simps]:
  "read_sql_value reg (write_u8 (type_code_u8 tc) @ s) = read_sql_value_unwrapped reg tc s"
  by (simp add: read_sql_value_unfold rbind_Ok read_type_code_write)

section \<open>Values of the encoder\<close>

text \<open>The SQL value of an \<open>IgniteValue\<close>: the kinds of collections and maps are dropped, arrays are arrays.\<close>

fun sql_of :: "ignite_value \<Rightarrow> sql_value" where
  "sql_of (IvByte a) = SvByte a"
| "sql_of (IvString s) = SvString s"
| "sql_of (IvLong b) = SvLong b"
| "sql_of (IvInt c) = SvInt c"
| "sql_of (IvShort d) = SvShort d"
| "sql_of (IvFloat e) = SvFloat e"
| "sql_of (IvDouble f) = SvDouble f"
| "sql_of (IvChar g) = SvChar g"
| "sql_of (IvBool h) = SvBool h"
| "sql_of (IvUuid i j) = SvUuid i j"
| "sql_of (IvDate k) = SvDate k"
| "sql_of (IvTime l) = SvTime l"
| "sql_of (IvBinary bs) = SvBinary bs"
| "sql_of (IvObject co) = SvComplexObject co"
| "sql_of (IvArray vs) = SvArray (map sql_of vs)"
| "sql_of (IvEnum n) = SvEnum n"
| "sql_of (IvTimestamp q r) = SvTimestamp q r"
| "sql_of (IvDecimal t bs) = SvDecimal t bs"
| "sql_of IvNull = SvNull"
| "sql_of (IvMap t es) = SvMap (map (\<lambda>(k, v). (sql_of k, sql_of v)) es)"
| "sql_of (IvCollection t vs) = SvCollection (map sql_of vs)"
| "sql_of (IvOpaqueMarshal bs) = SvOpaqueMarshal bs"
| "sql_of (IvPreEncoded bs) = SvNull"
| "sql_of (IvArrTyped c vs) = SvArray (map sql_of vs)"

fun typed_element :: "type_code \<Rightarrow> ignite_value \<Rightarrow> bool" where
  "typed_element tc IvNull = True"
| "typed_element tc (IvString _) = (tc = TcArrString)"
| "typed_element tc (IvUuid _ _) = (tc = TcArrUuid)"
| "typed_element tc (IvDate _) = (tc = TcArrDate)"
| "typed_element tc (IvDecimal _ _) = (tc = TcArrDecimal)"
| "typed_element tc (IvTimestamp _ _) = (tc = TcArrTimestamp)"
| "typed_element tc (IvTime _) = (tc = TcArrTime)"
| "typed_element tc _ = False"

text \<open>The values of which this is true: decodable ones in which the elements of a typed array have its type.\<close>

fun sql_readable :: "lowercase \<Rightarrow> registry \<Rightarrow> ignite_value \<Rightarrow> bool" where
  "sql_readable lc reg (IvArray vs) = list_all (sql_readable lc reg) vs"
| "sql_readable lc reg (IvCollection t vs) = list_all (sql_readable lc reg) vs"
| "sql_readable lc reg (IvArrTyped c vs) =
    (decodable lc reg (IvArrTyped c vs) \<and> list_all (\<lambda>v. \<forall>tc. c = type_code_u8 tc \<longrightarrow> typed_element tc v) vs)"
| "sql_readable lc reg (IvMap t es) = list_all (\<lambda>e. sql_readable lc reg (fst e) \<and> sql_readable lc reg (snd e)) es"
| "sql_readable lc reg v = decodable lc reg v"

lemma sql_readable_decodable: "sql_readable lc reg v \<Longrightarrow> decodable lc reg v"
  by (induction lc reg v rule: sql_readable.induct) (auto simp: list_all_iff)

definition sql_decodes :: "registry \<Rightarrow> bytes \<Rightarrow> sql_value \<Rightarrow> bool" where
  "sql_decodes reg bs v \<longleftrightarrow> (\<forall>s. read_sql_value reg (bs @ s) = Ok v s)"

lemma sql_decodesI:
  assumes "\<And>s. read_sql_value_unwrapped reg tc (b @ s) = Ok v s"
  shows "sql_decodes reg (write_u8 (type_code_u8 tc) @ b) v"
  using assms by (simp add: sql_decodes_def read_sql_value_code)

lemmas sql_leaf = read_sql_value_unwrapped_def read_sql_unwrapped_body_def rmap_def rbind_Ok
  read_uuid_def read_timestamp_def read_decimal_def

lemma sql_simple:
  "sql_decodes reg (enc_value lc (IvByte a)) (SvByte a)"
  "sql_decodes reg (enc_value lc (IvLong b)) (SvLong b)"
  "sql_decodes reg (enc_value lc (IvInt c)) (SvInt c)"
  "sql_decodes reg (enc_value lc (IvShort d)) (SvShort d)"
  "sql_decodes reg (enc_value lc (IvFloat e)) (SvFloat e)"
  "sql_decodes reg (enc_value lc (IvDouble f)) (SvDouble f)"
  "sql_decodes reg (enc_value lc (IvChar g)) (SvChar g)"
  "sql_decodes reg (enc_value lc (IvBool h)) (SvBool h)"
  "sql_decodes reg (enc_value lc (IvUuid i j)) (SvUuid i j)"
  "sql_decodes reg (enc_value lc (IvDate k)) (SvDate k)"
  "sql_decodes reg (enc_value lc (IvTime l)) (SvTime l)"
  "sql_decodes reg (enc_value lc (IvEnum m)) (SvEnum m)"
  "sql_decodes reg (enc_value lc (IvTimestamp n q)) (SvTimestamp n q)"
  unfolding enc_simple by (rule sql_decodesI; simp add: sql_leaf; fail)+

lemma sql_null: "sql_decodes reg (enc_value lc IvNull) SvNull"
  unfolding enc_simple by (simp add: sql_decodes_def read_sql_value_code sql_leaf)

lemma concat_write_u8: "concat (map write_u8 bs) = bs"
  by (induction bs) (simp_all add: write_u8_eq)

lemma read_u8s: "length bs < 2 ^ 31 \<Longrightarrow> read_primitive_arr read_u8 (write_i32 (i32_of_usize (length bs)) @ bs @ s) = Ok bs s"
  using u8.read_primitive_arr_write [of bs s] by (simp add: u8.write_arr_def concat_write_u8 list_all_iff)

lemma sql_sized:
  "ok_string s \<Longrightarrow> sql_decodes reg (enc_value lc (IvString s)) (SvString s)"
  "length bs < 2 ^ 31 \<Longrightarrow> sql_decodes reg (enc_value lc (IvBinary bs)) (SvBinary bs)"
  "length bs < 2 ^ 31 \<Longrightarrow> sql_decodes reg (enc_value lc (IvDecimal t bs)) (SvDecimal t bs)"
  unfolding enc_simple
  by (rule sql_decodesI; simp add: sql_leaf read_string_write read_u8s len_casts read_vec_append; fail)+

lemma sql_opaque: "length bs < 2 ^ 31 \<Longrightarrow> sql_decodes reg (enc_value lc (IvOpaqueMarshal bs)) (SvOpaqueMarshal bs)"
  unfolding enc_simple
  by (rule sql_decodesI, cases "bs = []") (simp_all add: sql_leaf len_casts read_vec_append)

subsection \<open>Containers\<close>

lemma repeat_sql:
  assumes "\<And>v. v \<in> set vs \<Longrightarrow> sql_decodes reg (enc_value lc v) (sql_of v)"
  shows "repeat_read (length vs) (read_sql_value reg) (concat (map (enc_value lc) vs) @ s) = Ok (map sql_of vs) s"
  using assms by (intro repeat_read_concat) (simp add: sql_decodes_def)

lemma sql_containers:
  assumes "\<And>v. v \<in> set vs \<Longrightarrow> sql_decodes reg (enc_value lc v) (sql_of v)"
    and acc: "list_all (accepted lc) vs" and len: "length vs < 2 ^ 31"
  shows "sql_decodes reg (enc_value lc (IvArray vs)) (sql_of (IvArray vs))"
    and "sql_decodes reg (enc_value lc (IvCollection t vs)) (sql_of (IvCollection t vs))"
proof -
  have i8: "read_i8 (write_u8 b @ s) = Ok b s" for b s
    using i8.dec_enc_any [of b s] by (simp add: write_i8_def write_u8_def)
  note facts = sql_leaf read_sql_values_def i8 i32_range_of_usize [OF len] with_capacity_of_usize [OF len] repeat_sql [OF assms(1)]
  show "sql_decodes reg (enc_value lc (IvArray vs)) (sql_of (IvArray vs))"
    and "sql_decodes reg (enc_value lc (IvCollection t vs)) (sql_of (IvCollection t vs))"
    unfolding enc_containers(1,2) [OF acc] by (rule sql_decodesI; simp add: facts; fail)+
qed

lemma sql_map:
  assumes "\<And>e. e \<in> set es \<Longrightarrow> sql_decodes reg (enc_value lc (fst e)) (sql_of (fst e)) \<and>
      sql_decodes reg (enc_value lc (snd e)) (sql_of (snd e))"
    and acc: "list_all (\<lambda>(k, v). accepted lc k \<and> accepted lc v) es" and len: "length es < 2 ^ 31"
  shows "sql_decodes reg (enc_value lc (IvMap t es)) (sql_of (IvMap t es))"
proof -
  have "repeat_read (length es) (rbind (read_sql_value reg) (\<lambda>k. rbind (read_sql_value reg) (\<lambda>v. ret (k, v))))
      (concat (map (\<lambda>(k, v). enc_value lc k @ enc_value lc v) es) @ s) = Ok (map (\<lambda>(k, v). (sql_of k, sql_of v)) es) s" for s
    using assms(1) by (intro repeat_read_concat) (fastforce simp: sql_decodes_def rbind_Ok)
  then show ?thesis
    unfolding enc_containers(4) [OF acc]
    by (intro sql_decodesI) (simp add: sql_leaf i32_range_of_usize [OF len] with_capacity_of_usize [OF len])
qed

text \<open>The code of the elements of a typed array, and how such an element is read.\<close>

fun element_code :: "type_code \<Rightarrow> type_code" where
  "element_code TcArrString = TcString"
| "element_code TcArrUuid = TcUuid"
| "element_code TcArrDate = TcDate"
| "element_code TcArrDecimal = TcDecimal"
| "element_code TcArrTimestamp = TcTimestamp"
| "element_code tc = TcTime"

lemma nullable_element:
  assumes "typed_element tc v" and "tc \<in> {TcArrString, TcArrUuid, TcArrDate, TcArrDecimal, TcArrTimestamp, TcArrTime}"
    and "sql_decodes reg (enc_value lc v) (sql_of v)"
  shows "read_nullable_element (element_code tc) (read_sql_value_unwrapped reg (element_code tc)) (enc_value lc v @ s) = Ok (sql_of v) s"
proof (cases "v = IvNull")
  case True
  then show ?thesis by (simp add: enc_simple read_nullable_element_def rbind_Ok read_type_code_write)
next
  case False
  then obtain b where b: "enc_value lc v = write_u8 (type_code_u8 (element_code tc)) @ b" and "element_code tc \<noteq> TcNull"
    using assms(1,2) by (cases v) (auto simp: enc_simple)
  then show ?thesis
    using assms(3) by (simp add: sql_decodes_def read_sql_value_code read_nullable_element_def rbind_Ok read_type_code_write)
qed

lemma typed_arrays:
  assumes "tc \<in> {TcArrString, TcArrUuid, TcArrDate, TcArrDecimal, TcArrTimestamp, TcArrTime}"
  shows "read_sql_value_unwrapped reg tc = rmap SvArray
    (read_typed_nullable_array (element_code tc) (read_sql_value_unwrapped reg (element_code tc)))"
  using assms by (auto simp: read_sql_value_unwrapped_def read_sql_unwrapped_body_def)

lemma sql_typed_array:
  assumes "\<And>v. v \<in> set vs \<Longrightarrow> sql_decodes reg (enc_value lc v) (sql_of v) \<and> typed_element tc v"
    and tc: "tc \<in> {TcArrString, TcArrUuid, TcArrDate, TcArrDecimal, TcArrTimestamp, TcArrTime}"
    and acc: "list_all (accepted lc) vs" and len: "length vs < 2 ^ 31"
  shows "sql_decodes reg (enc_value lc (IvArrTyped (type_code_u8 tc) vs)) (sql_of (IvArrTyped (type_code_u8 tc) vs))"
proof -
  have "repeat_read (length vs) (read_nullable_element (element_code tc) (read_sql_value_unwrapped reg (element_code tc)))
      (concat (map (enc_value lc) vs) @ s) = Ok (map sql_of vs) s" for s
    using assms(1) nullable_element [OF _ tc] by (intro repeat_read_concat) blast
  then show ?thesis
    unfolding enc_containers(3) [OF acc]
    by (intro sql_decodesI) (simp add: typed_arrays [OF tc] read_typed_nullable_array_def rmap_def rbind_Ok
        i32_range_of_usize [OF len] with_capacity_of_usize [OF len])
qed

lemma sql_object:
  assumes "decodable lc reg (IvObject co)" and "length (enc_value lc (IvObject co)) < 2 ^ 31"
  shows "sql_decodes reg (enc_value lc (IvObject co)) (SvComplexObject co)"
proof -
  obtain sch vs where co: "co = ComplexObject sch vs" by (cases co)
  have dec: "list_all (decodable lc reg) vs" and proper: "proper_object sch vs" and res: "resolves lc reg sch"
    using assms(1) by (auto simp: co)
  note acc = decodable_lists(1) [OF dec]
  have "length (concat (map (enc_value lc) vs)) < 2 ^ 31"
    using assms(2) by (simp add: co enc_object [OF proper acc] object_bytes_def object_data_def finish_data_def Let_def)
  note small = small_parts [OF this dec]
  have parts: "decodes reg (enc_value lc v) v \<and> enc_value lc v \<noteq> []" if "v \<in> set vs" for v
    using dec that small(2) [OF that] by (auto simp: list_all_iff decodable_nonempty intro: decodable_decodes)
  obtain bs where bs: "enc_value lc (IvObject co) = write_u8 (type_code_u8 TcComplexObj) @ bs"
    and body: "\<And>s. read_unwrapped_body (co_read reg) (co_read_unwrapped reg) reg TcComplexObj (bs @ s) = Ok (Some co) s"
    using unwrapped_object [OF parts acc proper res] assms(2) unfolding co by blast
  show ?thesis
    unfolding bs by (intro sql_decodesI) (simp add: sql_leaf co_read_unwrapped_unfold body)
qed

lemma readable_lists:
  "list_all (sql_readable lc reg) vs \<Longrightarrow> list_all (decodable lc reg) vs"
  by (auto simp: list_all_iff sql_readable_decodable)

lemma typed_readable:
  assumes "typed_element tc v" and "decodable lc reg v" and "length (enc_value lc v) < 2 ^ 31"
  shows "sql_decodes reg (enc_value lc v) (sql_of v)"
proof (cases "\<exists>x. v = IvString x")
  case True
  then obtain x where v: "v = IvString x" by blast
  have "str_len x < 2 ^ 31" using assms(3) by (simp add: v enc_simple)
  then show ?thesis using assms(2) sql_sized(1) [of x] by (simp add: v ok_string_def)
next
  case False
  then show ?thesis
    using assms by (cases v) (auto simp: sql_null intro!: sql_simple sql_sized, auto simp: enc_simple)
qed

lemma sql_readable_decodes:
  "sql_readable lc reg v \<Longrightarrow> length (enc_value lc v) < 2 ^ 31 \<Longrightarrow> sql_decodes reg (enc_value lc v) (sql_of v)"
proof (induction lc reg v rule: sql_readable.induct)
  case (1 lc reg vs)
  then have dec: "list_all (decodable lc reg) vs" by (auto dest: readable_lists)
  note acc = decodable_lists(1) [OF dec]
  have "length (concat (map (enc_value lc) vs)) < 2 ^ 31" using 1(3) by (simp add: enc_containers(1) [OF acc])
  note small = small_parts [OF this dec]
  show ?case by (rule sql_containers) (use 1 small acc in \<open>auto simp: list_all_iff\<close>)
next
  case (2 lc reg t vs)
  then have dec: "list_all (decodable lc reg) vs" by (auto dest: readable_lists)
  note acc = decodable_lists(1) [OF dec]
  have "length (concat (map (enc_value lc) vs)) < 2 ^ 31" using 2(3) by (simp add: enc_containers(2) [OF acc])
  note small = small_parts [OF this dec]
  show ?case by (rule sql_containers) (use 2 small acc in \<open>auto simp: list_all_iff\<close>)
next
  case (3 lc reg c vs)
  then have dec: "list_all (decodable lc reg) vs" by simp
  note acc = decodable_lists(1) [OF dec]
  obtain tc where c: "c = type_code_u8 tc"
    and tc: "tc \<in> {TcArrString, TcArrUuid, TcArrDate, TcArrDecimal, TcArrTimestamp, TcArrTime}"
    using 3(1) by auto
  have "length (concat (map (enc_value lc) vs)) < 2 ^ 31" using 3(2) by (simp add: enc_containers(3) [OF acc])
  note small = small_parts [OF this dec]
  show ?case
    unfolding c
    by (rule sql_typed_array [OF _ tc acc small(1)])
      (use 3(1) small dec c in \<open>auto simp: list_all_iff intro!: typed_readable\<close>)
next
  case (4 lc reg t es)
  then have "list_all (\<lambda>e. decodable lc reg (fst e) \<and> decodable lc reg (snd e)) es"
    by (auto simp: list_all_iff sql_readable_decodable)
  then have acc: "list_all (\<lambda>(k, v). accepted lc k \<and> accepted lc v) es" by (rule decodable_lists)
  let ?e = "\<lambda>(k, v). enc_value lc k @ enc_value lc v"
  have small: "length (concat (map ?e es)) < 2 ^ 31" using 4(4) by (simp add: enc_containers(4) [OF acc])
  have ne: "?e e \<noteq> []" if "e \<in> set es" for e
    using 4(3) that by (auto simp: list_all_iff case_prod_unfold dest!: sql_readable_decodable decodable_nonempty)
  have part: "length (enc_value lc (fst e)) < 2 ^ 31 \<and> length (enc_value lc (snd e)) < 2 ^ 31" if "e \<in> set es" for e
    using length_concat_mem [OF that, of ?e] small by (auto simp: case_prod_unfold)
  show ?case
    by (rule sql_map [OF _ acc]) (use 4 part length_le_concat [of es ?e] ne small in \<open>auto simp: list_all_iff\<close>)
qed (use sql_simple sql_sized sql_null sql_opaque sql_object in \<open>auto simp: enc_simple ok_string_def\<close>)

section \<open>Numbers\<close>

text \<open>The integer a value stands for, as the code takes it (a byte without its sign), and its width.\<close>

fun sql_int :: "sql_value \<Rightarrow> (nat \<times> int) option" where
  "sql_int (SvByte v) = Some (1, uint v)"
| "sql_int (SvShort v) = Some (2, sint v)"
| "sql_int (SvInt v) = Some (4, sint v)"
| "sql_int (SvLong v) = Some (8, sint v)"
| "sql_int v = None"

definition converts_to :: "nat \<Rightarrow> (sql_value \<Rightarrow> rerror + 'a::len word) \<Rightarrow> sql_value \<Rightarrow> bool" where
  "converts_to width f v \<longleftrightarrow> (case sql_int v of
      Some (k, n) \<Rightarrow> if k \<le> width then (\<exists>w. f v = Inr w \<and> sint w = n) else isl (f v)
    | None \<Rightarrow> isl (f v))"

lemma sint_zext:
  "sint (ucast (v :: u8) :: i16) = uint v" "sint (ucast v :: i32) = uint v" "sint (ucast v :: i64) = uint v"
  using uint_lt2p [of v] by (simp_all add: sint_uint unsigned_ucast_eq take_bit_int_eq_self)
    (auto intro!: signed_take_bit_int_eq_self order_trans [OF _ uint_ge_0 [of v]])

lemma sint_sext:
  "sint (scast (a :: i16) :: i32) = sint a" "sint (scast a :: i64) = sint a" "sint (scast (b :: i32) :: i64) = sint b"
  using sint_ge [of a] sint_lt [of a] sint_ge [of b] sint_lt [of b]
  by (auto simp: signed_scast_eq intro!: signed_take_bit_int_eq_self)

lemma conversions: "converts_to 2 sql_i16 v" "converts_to 4 sql_i32 v" "converts_to 8 sql_i64 v"
  by (cases v; simp add: converts_to_def sint_zext sint_sext)+

text \<open>Floats: sign, exponent and fraction of a bit pattern, and the magnitude of a finite number in units of the
  least one of its format (\<open>2^-149\<close> for 32 bits, \<open>2^-1074\<close> for 64 bits).\<close>

definition float_sign :: "nat \<Rightarrow> nat \<Rightarrow> nat \<Rightarrow> nat" where
  "float_sign eb fb n = n div 2 ^ (eb + fb)"

definition float_exponent :: "nat \<Rightarrow> nat \<Rightarrow> nat \<Rightarrow> nat" where
  "float_exponent eb fb n = n div 2 ^ fb mod 2 ^ eb"

definition float_fraction :: "nat \<Rightarrow> nat \<Rightarrow> nat" where
  "float_fraction fb n = n mod 2 ^ fb"

definition float_units :: "nat \<Rightarrow> nat \<Rightarrow> nat \<Rightarrow> nat" where
  "float_units eb fb n = (let ex = float_exponent eb fb n; fr = float_fraction fb n
     in if ex = 0 then fr else (2 ^ fb + fr) * 2 ^ (ex - 1))"

lemma float_pack:
  assumes "ex < 2 ^ eb" and "fr < 2 ^ fb" and n: "n = sg * 2 ^ (eb + fb) + (ex * 2 ^ fb + fr)"
  shows "float_sign eb fb n = sg" "float_exponent eb fb n = ex" "float_fraction fb n = fr"
proof -
  have low: "ex * 2 ^ fb + fr < 2 ^ (eb + fb)"
  proof -
    have "ex * 2 ^ fb + fr < Suc ex * 2 ^ fb" using assms(2) by simp
    also have "\<dots> \<le> 2 ^ eb * 2 ^ fb" using assms(1) by (intro mult_le_mono1) simp
    finally show ?thesis by (simp add: power_add)
  qed
  then show "float_sign eb fb n = sg" by (simp add: float_sign_def n)
  have "n = (sg * 2 ^ eb + ex) * 2 ^ fb + fr" by (simp add: n power_add algebra_simps)
  then have "n div 2 ^ fb = sg * 2 ^ eb + ex" "n mod 2 ^ fb = fr" using assms(2) by simp_all
  then show "float_exponent eb fb n = ex" "float_fraction fb n = fr"
    using assms(1) by (simp_all add: float_exponent_def float_fraction_def)
qed

lemma top_bit_index_bounds: "0 < m \<Longrightarrow> 2 ^ top_bit_index m \<le> m \<and> m < 2 * 2 ^ top_bit_index m"
proof (induction m rule: bit_len.induct)
  case (1 n)
  show ?case
  proof (cases "n = 1")
    case True
    then show ?thesis by (simp add: top_bit_index_def bit_len.simps)
  next
    case False
    with 1 have "2 ^ top_bit_index (n div 2) \<le> n div 2 \<and> n div 2 < 2 * 2 ^ top_bit_index (n div 2)" by simp
    moreover have "top_bit_index n = Suc (top_bit_index (n div 2))"
      using 1(2) False by (simp add: top_bit_index_def bit_len.simps [of n] bit_len.simps [of "n div 2"])
    ultimately show ?thesis by (simp; arith)
  qed
qed

lemma f64_of_f32_pack:
  fixes v :: f32
  defines "sg \<equiv> float_sign 8 23 (unat v)" and "ex \<equiv> float_exponent 8 23 (unat v)" and "fr \<equiv> float_fraction 23 (unat v)"
  assumes "ex' < 2048" and "fr' < 2 ^ 52" and "f64_of_f32 v = word_of_nat (sg * 2 ^ 63 + (ex' * 2 ^ 52 + fr'))"
  shows "float_sign 11 52 (unat (f64_of_f32 v)) = sg" "float_exponent 11 52 (unat (f64_of_f32 v)) = ex'"
    "float_fraction 52 (unat (f64_of_f32 v)) = fr'"
proof -
  have "unat v < 2 ^ 32" using unsigned_less [of v, where ?'a = nat] by simp
  then have "sg < 2" unfolding sg_def float_sign_def by simp
  then have "sg * 2 ^ 63 + (ex' * 2 ^ 52 + fr') < 2 ^ 64" using assms(4,5) by simp
  then have n: "unat (f64_of_f32 v) = sg * 2 ^ (11 + 52) + (ex' * 2 ^ 52 + fr')"
    unfolding assms(6) by (simp only: unat_of_nat take_bit_eq_mod) simp
  show "float_sign 11 52 (unat (f64_of_f32 v)) = sg" "float_exponent 11 52 (unat (f64_of_f32 v)) = ex'"
    "float_fraction 52 (unat (f64_of_f32 v)) = fr'"
    using float_pack [OF _ _ n] assms(4,5) by simp_all
qed

lemma f64_of_f32_exact:
  fixes v :: f32
  defines "ex \<equiv> float_exponent 8 23 (unat v)" and "fr \<equiv> float_fraction 23 (unat v)"
  shows "float_sign 11 52 (unat (f64_of_f32 v)) = float_sign 8 23 (unat v) \<and>
    (if ex = 255 then float_exponent 11 52 (unat (f64_of_f32 v)) = 2047 \<and> (float_fraction 52 (unat (f64_of_f32 v)) = 0 \<longleftrightarrow> fr = 0)
     else float_exponent 11 52 (unat (f64_of_f32 v)) < 2047 \<and>
       float_units 11 52 (unat (f64_of_f32 v)) = float_units 8 23 (unat v) * 2 ^ 925)"
proof -
  have fr: "fr < 2 ^ 23" and ex: "ex < 256" by (simp_all add: fr_def ex_def float_fraction_def float_exponent_def)
  have def: "f64_of_f32 v = word_of_nat (float_sign 8 23 (unat v) * 2 ^ 63 +
       (if ex = 255 then 2047 * 2 ^ 52 + (if fr = 0 then 0 else (if fr < 2 ^ 22 then fr + 2 ^ 22 else fr) * 2 ^ 29)
        else if ex \<noteq> 0 then (ex + 896) * 2 ^ 52 + fr * 2 ^ 29
        else if fr = 0 then 0
        else (top_bit_index fr + 874) * 2 ^ 52 + (fr - 2 ^ top_bit_index fr) * 2 ^ (52 - top_bit_index fr)))"
    unfolding f64_of_f32_def Let_def ex_def fr_def float_sign_def float_exponent_def float_fraction_def by simp
  note pack = f64_of_f32_pack [of _ _ v]
  consider (special) "ex = 255" | (normal) "ex \<noteq> 255" "ex \<noteq> 0" | (zero) "ex = 0" "fr = 0" | (sub) "ex = 0" "fr \<noteq> 0" by blast
  then show ?thesis
  proof cases
    case special
    let ?f = "if fr = 0 then 0 else (if fr < 2 ^ 22 then fr + 2 ^ 22 else fr) * 2 ^ 29"
    have "?f < 2 ^ 52" using fr by simp
    from pack [of 2047, OF _ this] show ?thesis using special by (simp add: def)
  next
    case normal
    have "fr * 2 ^ 29 < 2 ^ 52" using fr by simp
    note p = pack [of "ex + 896", OF _ this]
    have p: "float_sign 11 52 (unat (f64_of_f32 v)) = float_sign 8 23 (unat v)"
      "float_exponent 11 52 (unat (f64_of_f32 v)) = ex + 896" "float_fraction 52 (unat (f64_of_f32 v)) = fr * 2 ^ 29"
      using p ex normal unfolding def by simp_all
    obtain e where e: "ex = Suc e" using normal by (cases ex) auto
    have "(2 ^ 52 + fr * 2 ^ 29) * 2 ^ (e + 896) = ((2 ^ 23 + fr) * 2 ^ e) * (2 ^ 925 :: nat)"
    proof -
      have "(2 :: nat) ^ 52 = 2 ^ 23 * 2 ^ 29" "(2 :: nat) ^ (e + 896) = 2 ^ e * 2 ^ 896" "(2 :: nat) ^ 925 = 2 ^ 29 * 2 ^ 896"
        by (simp_all only: power_add [symmetric]) simp_all
      then show ?thesis by (simp only:) (simp only: distrib_right [symmetric] mult.assoc mult.left_commute)
    qed
    then show ?thesis
      using p normal ex
      by (simp add: float_units_def Let_def ex_def [symmetric] fr_def [symmetric] e add.commute [of e] del: power_numeral)
  next
    case zero
    then show ?thesis using pack [of 0 0] by (simp add: def float_units_def Let_def ex_def [symmetric] fr_def [symmetric])
  next
    case sub
    define k where "k = top_bit_index fr"
    have k: "2 ^ k \<le> fr" "fr < 2 * 2 ^ k" using top_bit_index_bounds [of fr] sub by (simp_all add: k_def)
    have "(2 :: nat) ^ k < 2 ^ 23" using k(1) fr by simp
    then have k23: "k < 23" by (rule power_less_imp_less_exp [rotated]) simp
    have split: "(2 :: nat) ^ 52 = 2 ^ k * 2 ^ (52 - k)" using k23 by (simp only: power_add [symmetric]) simp
    have "(fr - 2 ^ k) * 2 ^ (52 - k) < 2 ^ 52" unfolding split using k by simp
    note p = pack [of "k + 874", OF _ this]
    have p: "float_sign 11 52 (unat (f64_of_f32 v)) = float_sign 8 23 (unat v)"
      "float_exponent 11 52 (unat (f64_of_f32 v)) = k + 874" "float_fraction 52 (unat (f64_of_f32 v)) = (fr - 2 ^ k) * 2 ^ (52 - k)"
      using p k23 sub unfolding def by (simp_all add: k_def)
    have "2 ^ 52 + (fr - 2 ^ k) * 2 ^ (52 - k) = fr * 2 ^ (52 - k)"
      unfolding split using k(1) by (simp add: diff_mult_distrib)
    moreover have "fr * 2 ^ (52 - k) * 2 ^ (k + 873) = fr * (2 ^ 925 :: nat)"
    proof -
      have "(2 :: nat) ^ (52 - k) * 2 ^ (k + 873) = 2 ^ 925" using k23 by (simp only: power_add [symmetric]) simp
      then show ?thesis by (simp only: mult.assoc)
    qed
    ultimately show ?thesis
      using p sub k23
      by (simp add: float_units_def Let_def ex_def [symmetric] fr_def [symmetric] add.commute [of k] del: power_numeral)
  qed
qed

lemma column_Inr: "column f k vs = Inr y \<longleftrightarrow> (\<exists>v rest x. vs = v # rest \<and> f v = Inr x \<and> k x rest = Inr y)"
  by (auto simp: column_def split: list.splits sum.splits)

lemma row_end_Inr: "row_end x vs = Inr y \<longleftrightarrow> vs = [] \<and> y = x"
  by (auto simp: row_end_def split: list.splits)

lemma row_columns:
  "row2 fa fb vs = Inr (a, b) \<longleftrightarrow> (\<exists>va vb. vs = [va, vb] \<and> fa va = Inr a \<and> fb vb = Inr b)"
  "row3 fa fb fc vs = Inr (a, b, c) \<longleftrightarrow> (\<exists>va vb vc. vs = [va, vb, vc] \<and> fa va = Inr a \<and> fb vb = Inr b \<and> fc vc = Inr c)"
  "row4 fa fb fc fd vs = Inr (a, b, c, d) \<longleftrightarrow>
     (\<exists>va vb vc vd. vs = [va, vb, vc, vd] \<and> fa va = Inr a \<and> fb vb = Inr b \<and> fc vc = Inr c \<and> fd vd = Inr d)"
  "row5 fa fb fc fd fe vs = Inr (a, b, c, d, e) \<longleftrightarrow>
     (\<exists>va vb vc vd ve. vs = [va, vb, vc, vd, ve] \<and> fa va = Inr a \<and> fb vb = Inr b \<and> fc vc = Inr c \<and> fd vd = Inr d \<and> fe ve = Inr e)"
  "row6 fa fb fc fd fe ff vs = Inr (a, b, c, d, e, f) \<longleftrightarrow>
     (\<exists>va vb vc vd ve vf. vs = [va, vb, vc, vd, ve, vf] \<and> fa va = Inr a \<and> fb vb = Inr b \<and> fc vc = Inr c \<and>
       fd vd = Inr d \<and> fe ve = Inr e \<and> ff vf = Inr f)"
  by (auto simp: row2_def row3_def row4_def row5_def row6_def column_Inr row_end_Inr)

section \<open>Properties\<close>

text \<open>C37: SQL values. The decoder ends on every input with a value, an error or a panic, and satisfies the equation
  of the source, with no fuel in it. Every value that the writer of \<open>IgniteValue\<close> accepts (an argument of a
  query, say) and whose typed arrays hold elements of their type is read back as that value: nested arrays,
  collections, maps and objects included, with exactly the rest of the stream left.\<close>
theorem sql_values_read:
  assumes "sql_readable lc reg v"
  shows "read_sql_value reg t \<noteq> NoFuel \<and> read_sql_value reg t = rbind read_type_code (read_sql_value_unwrapped reg) t \<and>
    (\<exists>bs. fst (write_value lc v reg0) = Inr bs \<and>
      (length bs < 2 ^ 31 \<longrightarrow> read_sql_value reg (bs @ s) = Ok (sql_of v) s))"
  using decodable_accepted [OF sql_readable_decodable [OF assms]] sql_readable_decodes [OF assms]
    fueledD [OF fueled_read_sql_value [where reg = reg] lessI [of "length t"]] read_sql_value_unfold [of reg t]
  by (auto simp: run_accepted sql_decodes_def steady_fst [OF steady_write_value])

theorem sql_values_read_witness:
  "\<exists>bs. fst (write_value id (IvArray [IvNull, IvMap 1 [(IvInt 1, IvBinary [2, 3])]]) registry_default) = Inr bs \<and>
    (length bs < 2 ^ 31 \<longrightarrow> read_sql_value registry_default (bs @ [9]) =
      Ok (SvArray [SvNull, SvMap [(SvInt 1, SvBinary [2, 3])]]) [9])"
  using sql_values_read [of id registry_default "IvArray [IvNull, IvMap 1 [(IvInt 1, IvBinary [2, 3])]]" "[]" registry_default "[9]"]
  by simp

text \<open>C38: Types of columns. A column converts to a 16-, 32- or 64-bit integer exactly when it holds an integer of at most that
  width, and the number is kept, except that a byte is taken without its sign. A 32-bit float converts to
  a 64-bit one of the same sign and the same value (in units of the least number of each format), an
  infinity to an infinity and a NaN to a NaN. A row converts to a tuple exactly when it has as many columns and
  each converts; a null converts to an optional field only.\<close>
theorem sql_conversions:
  "converts_to 2 sql_i16 v \<and> converts_to 4 sql_i32 v \<and> converts_to 8 sql_i64 v \<and>
   (\<exists>y. sql_f64 (SvFloat x) = Inr y \<and> float_sign 11 52 (unat y) = float_sign 8 23 (unat x) \<and>
     (if float_exponent 8 23 (unat x) = 255
      then float_exponent 11 52 (unat y) = 2047 \<and> (float_fraction 52 (unat y) = 0 \<longleftrightarrow> float_fraction 23 (unat x) = 0)
      else float_exponent 11 52 (unat y) < 2047 \<and> float_units 11 52 (unat y) = float_units 8 23 (unat x) * 2 ^ 925)) \<and>
   (row_single fa vs = Inr a \<longleftrightarrow> (\<exists>va. vs = [va] \<and> fa va = Inr a)) \<and>
   (row2 fa fb vs = Inr (a, b) \<longleftrightarrow> (\<exists>va vb. vs = [va, vb] \<and> fa va = Inr a \<and> fb vb = Inr b)) \<and>
   (row3 fa fb fc vs = Inr (a, b, c) \<longleftrightarrow> (\<exists>va vb vc. vs = [va, vb, vc] \<and> fa va = Inr a \<and> fb vb = Inr b \<and> fc vc = Inr c)) \<and>
   (row4 fa fb fc fd vs = Inr (a, b, c, d) \<longleftrightarrow>
     (\<exists>va vb vc vd. vs = [va, vb, vc, vd] \<and> fa va = Inr a \<and> fb vb = Inr b \<and> fc vc = Inr c \<and> fd vd = Inr d)) \<and>
   (row5 fa fb fc fd fe vs = Inr (a, b, c, d, e) \<longleftrightarrow>
     (\<exists>va vb vc vd ve. vs = [va, vb, vc, vd, ve] \<and> fa va = Inr a \<and> fb vb = Inr b \<and> fc vc = Inr c \<and> fd vd = Inr d \<and> fe ve = Inr e)) \<and>
   (row6 fa fb fc fd fe ff vs = Inr (a, b, c, d, e, f) \<longleftrightarrow>
     (\<exists>va vb vc vd ve vf. vs = [va, vb, vc, vd, ve, vf] \<and> fa va = Inr a \<and> fb vb = Inr b \<and> fc vc = Inr c \<and>
       fd vd = Inr d \<and> fe ve = Inr e \<and> ff vf = Inr f)) \<and>
   sql_option fa SvNull = Inr None \<and> isl (sql_i64 SvNull) \<and> isl (sql_f64 SvNull) \<and> isl (sql_string SvNull)"
proof -
  have single: "row_single fa vs = Inr a \<longleftrightarrow> (\<exists>va. vs = [va] \<and> fa va = Inr a)"
    by (cases vs rule: remdups_adj.cases) (auto simp: row_single_def)
  show ?thesis
    using conversions [of v] f64_of_f32_exact [of x] single
    by (simp add: row_columns sql_option_def)
qed

end
