(* ===== verification/Queries.thy ===== *)
theory Queries
  imports CacheOps SqlDecoding
begin

text \<open>
  The queries of \<open>ignite-rs/src/query\<close>: scan, SQL, SQL fields, index and continuous queries with their
  builders and checks, and the requests they are sent as. Setters of a single field are record updates. The
  capabilities of the server, which decide on optional fields, are arguments.
\<close>

section \<open>Scan queries\<close>

record scan_query =
  sc_page_size :: i32
  sc_partition :: "i32 option"
  sc_local :: bool

definition scan_query_new :: scan_query where
  "scan_query_new = \<lparr>sc_page_size = 1024, sc_partition = None, sc_local = False\<rparr>"

definition scan_query_write :: "cache_info \<Rightarrow> scan_query \<Rightarrow> bytes" where
  "scan_query_write info q =
    write_cache_info (with_keep_binary info True) @ write_null @ write_i32 (sc_page_size q) @
    write_i32 (case sc_partition q of Some p \<Rightarrow> p | None \<Rightarrow> - 1) @ write_bool (sc_local q)"

definition scan_query_size :: "cache_info \<Rightarrow> nat" where
  "scan_query_size info = cache_info_size (with_keep_binary info True) + 1 + 4 + 4 + 1"

section \<open>SQL fields queries\<close>

record sql_fields_query =
  sf_schema :: "rstring option"
  sf_sql :: rstring
  sf_page_size :: i32
  sf_args :: "ignite_value list"
  sf_distributed_joins :: bool
  sf_local :: bool
  sf_replicated_only :: bool
  sf_enforce_join_order :: bool
  sf_collocated :: bool
  sf_lazy :: bool
  sf_timeout_ms :: i64
  sf_include_field_names :: bool
  sf_update_batch_size :: i32
  sf_partitions :: "i32 list option"
  sf_query_initiator_id :: "rstring option"

definition sql_fields_query_new :: "rstring \<Rightarrow> sql_fields_query" where
  "sql_fields_query_new sql = \<lparr>sf_schema = None, sf_sql = sql, sf_page_size = 1024, sf_args = [],
     sf_distributed_joins = False, sf_local = False, sf_replicated_only = False, sf_enforce_join_order = False,
     sf_collocated = False, sf_lazy = False, sf_timeout_ms = 0, sf_include_field_names = True,
     sf_update_batch_size = 1, sf_partitions = None, sf_query_initiator_id = None\<rparr>"

definition sf_with_schema :: "sql_fields_query \<Rightarrow> rstring \<Rightarrow> sql_fields_query" where
  "sf_with_schema self schema = self\<lparr>sf_schema := Some schema\<rparr>"

definition sf_with_partitions :: "sql_fields_query \<Rightarrow> i32 list \<Rightarrow> sql_fields_query" where
  "sf_with_partitions self ps = self\<lparr>sf_partitions := Some ps\<rparr>"

definition sf_with_query_initiator_id :: "sql_fields_query \<Rightarrow> rstring \<Rightarrow> sql_fields_query" where
  "sf_with_query_initiator_id self qid = self\<lparr>sf_query_initiator_id := Some qid\<rparr>"

definition sql_fields_validate :: "sql_fields_query \<Rightarrow> string option" where
  "sql_fields_validate self =
    (if trim (sf_sql self) = [] then Some ''Failed to parse SQL''
     else if sf_update_batch_size self <s 1 then Some ''updateBatchSize cannot be lower than 1''
     else case sf_partitions self of
       Some ps \<Rightarrow> if list_ex (\<lambda>p. p <s 0) ps then Some ''Illegal partition'' else None
     | None \<Rightarrow> None)"

record sql_fields_caps =
  cap_partitions_batch_size :: bool
  cap_query_initiator_id :: bool

definition sql_fields_head :: "cache_info \<Rightarrow> sql_fields_query \<Rightarrow> bytes" where
  "sql_fields_head info q =
    write_cache_info (with_keep_binary info True) @ write_opt_str (sf_schema q) @ write_i32 (sf_page_size q) @
    write_i32 (- 1) @ write_string_type_code (sf_sql q) @ write_i32 (i32_of_usize (length (sf_args q)))"

definition sql_fields_tail :: "sql_fields_caps \<Rightarrow> sql_fields_query \<Rightarrow> bytes" where
  "sql_fields_tail caps q =
    write_u8 0 @ write_bool (sf_distributed_joins q) @ write_bool (sf_local q) @ write_bool (sf_replicated_only q) @
    write_bool (sf_enforce_join_order q) @ write_bool (sf_collocated q) @ write_bool (sf_lazy q) @
    write_i64 (sf_timeout_ms q) @ write_bool (sf_include_field_names q) @
    (if cap_partitions_batch_size caps then
       (case sf_partitions q of
          Some ps \<Rightarrow> write_i32 (i32_of_usize (length ps)) @ concat (map write_i32 ps)
        | None \<Rightarrow> write_i32 (- 1)) @ write_i32 (sf_update_batch_size q)
     else []) @
    (if cap_query_initiator_id caps then write_opt_str (sf_query_initiator_id q) else [])"

definition sql_fields_write :: "lowercase \<Rightarrow> sql_fields_caps \<Rightarrow> cache_info \<Rightarrow> sql_fields_query \<Rightarrow> writer" where
  "sql_fields_write lc caps info q =
    wthen (wr (sql_fields_head info q)) (wthen (write_values lc (sf_args q)) (wr (sql_fields_tail caps q)))"

definition sql_fields_size :: "lowercase \<Rightarrow> sql_fields_caps \<Rightarrow> cache_info \<Rightarrow> sql_fields_query \<Rightarrow> sizer" where
  "sql_fields_size lc caps info q =
    sadd (sret (cache_info_size (with_keep_binary info True) + opt_str_size (sf_schema q) + (4 + 4) +
        (1 + 4 + str_len (sf_sql q)) + 4))
      (sadd (values_size lc (sf_args q))
        (sret ((1 + 6 + 8 + 1) +
          (if cap_partitions_batch_size caps
           then 4 + (case sf_partitions q of Some ps \<Rightarrow> length ps * 4 | None \<Rightarrow> 0) + 4 else 0) +
          (if cap_query_initiator_id caps then opt_str_size (sf_query_initiator_id q) else 0))))"

section \<open>SQL queries\<close>

record sql_query =
  sq_type_name :: rstring
  sq_sql :: rstring
  sq_args :: "ignite_value list"
  sq_distributed_joins :: bool
  sq_local :: bool
  sq_replicated_only :: bool
  sq_page_size :: i32
  sq_timeout_ms :: i64

definition sql_query_new :: "rstring \<Rightarrow> rstring \<Rightarrow> sql_query" where
  "sql_query_new type_name sql = \<lparr>sq_type_name = type_name, sq_sql = sql, sq_args = [], sq_distributed_joins = False,
     sq_local = False, sq_replicated_only = False, sq_page_size = 1024, sq_timeout_ms = 0\<rparr>"

definition sql_query_write :: "lowercase \<Rightarrow> cache_info \<Rightarrow> sql_query \<Rightarrow> writer" where
  "sql_query_write lc info q =
    wthen (wr (write_cache_info (with_keep_binary info True) @ write_string_type_code (sq_type_name q) @
        write_string_type_code (sq_sql q) @ write_i32 (i32_of_usize (length (sq_args q)))))
      (wthen (write_values lc (sq_args q))
        (wr (write_bool (sq_distributed_joins q) @ write_bool (sq_local q) @ write_bool (sq_replicated_only q) @
          write_i32 (sq_page_size q) @ write_i64 (sq_timeout_ms q))))"

definition sql_query_size :: "lowercase \<Rightarrow> cache_info \<Rightarrow> sql_query \<Rightarrow> sizer" where
  "sql_query_size lc info q =
    sadd (sret (cache_info_size (with_keep_binary info True) + (1 + 4 + str_len (sq_type_name q)) +
        (1 + 4 + str_len (sq_sql q)) + 4))
      (sadd (values_size lc (sq_args q)) (sret (1 + 1 + 1 + 4 + 8)))"

section \<open>Index queries\<close>

definition CRITERION_TYPE_RANGE :: u8 where "CRITERION_TYPE_RANGE = 0"
definition CRITERION_TYPE_IN :: u8 where "CRITERION_TYPE_IN = 1"
definition COLLECTION_ARR_LIST :: u8 where "COLLECTION_ARR_LIST = 1"

datatype index_query_criterion =
    CriterionRange rstring "ignite_value option" bool "ignite_value option" bool
      \<comment> \<open>field, lower, lower inclusive, upper, upper inclusive\<close>
  | CriterionIn rstring "ignite_value list"

definition criterion_range :: "rstring \<Rightarrow> ignite_value option \<Rightarrow> ignite_value option \<Rightarrow> index_query_criterion" where
  "criterion_range fname lower upper = CriterionRange fname lower True upper True"

definition criterion_gte :: "rstring \<Rightarrow> ignite_value \<Rightarrow> index_query_criterion" where
  "criterion_gte fname v = CriterionRange fname (Some v) True None True"

definition criterion_lte :: "rstring \<Rightarrow> ignite_value \<Rightarrow> index_query_criterion" where
  "criterion_lte fname v = CriterionRange fname None True (Some v) True"

definition criterion_eq :: "rstring \<Rightarrow> ignite_value \<Rightarrow> index_query_criterion" where
  "criterion_eq fname v = CriterionRange fname (Some v) True (Some v) True"

definition write_bound :: "lowercase \<Rightarrow> ignite_value option \<Rightarrow> writer" where
  "write_bound lc b = (case b of Some v \<Rightarrow> write_value lc v | None \<Rightarrow> wr write_null)"

definition bound_size :: "lowercase \<Rightarrow> ignite_value option \<Rightarrow> sizer" where
  "bound_size lc b = (case b of Some v \<Rightarrow> value_size lc v | None \<Rightarrow> sret 1)"

fun write_criterion :: "lowercase \<Rightarrow> index_query_criterion \<Rightarrow> writer" where
  "write_criterion lc (CriterionRange fname lower lower_inclusive upper upper_inclusive) =
    wthen (wr (write_u8 CRITERION_TYPE_RANGE @ write_string_type_code fname @ write_bool lower_inclusive @
        write_bool upper_inclusive @ write_bool (lower = None) @ write_bool (upper = None)))
      (wthen (write_bound lc lower) (write_bound lc upper))"
| "write_criterion lc (CriterionIn fname vs) =
    wthen (wr (write_u8 CRITERION_TYPE_IN @ write_string_type_code fname @ write_i32 (i32_of_usize (length vs))))
      (write_values lc vs)"

fun size_criterion :: "lowercase \<Rightarrow> index_query_criterion \<Rightarrow> sizer" where
  "size_criterion lc (CriterionRange fname lower lower_inclusive upper upper_inclusive) =
    sadd (sret (1 + (1 + 4 + str_len fname) + (1 + 1) + (1 + 1))) (sadd (bound_size lc lower) (bound_size lc upper))"
| "size_criterion lc (CriterionIn fname vs) =
    sadd (sret (1 + (1 + 4 + str_len fname) + 4)) (values_size lc vs)"

record index_query =
  iq_value_type :: rstring
  iq_index_name :: "rstring option"
  iq_criteria :: "index_query_criterion list"
  iq_page_size :: i32
  iq_partition :: "i32 option"
  iq_local :: bool
  iq_limit :: "i32 option"

definition index_query_new :: "rstring \<Rightarrow> index_query" where
  "index_query_new value_type = \<lparr>iq_value_type = value_type, iq_index_name = None, iq_criteria = [], iq_page_size = 1024,
     iq_partition = None, iq_local = False, iq_limit = None\<rparr>"

definition iq_with_criterion :: "index_query \<Rightarrow> index_query_criterion \<Rightarrow> index_query" where
  "iq_with_criterion self c = self\<lparr>iq_criteria := iq_criteria self @ [c]\<rparr>"

record index_query_caps =
  cap_index_query :: bool
  cap_index_query_limit :: bool

definition index_query_head :: "index_query_caps \<Rightarrow> cache_info \<Rightarrow> index_query \<Rightarrow> bytes" where
  "index_query_head caps info q =
    write_cache_info (with_keep_binary info True) @ write_i32 (iq_page_size q) @ write_bool (iq_local q) @
    write_i32 (case iq_partition q of Some p \<Rightarrow> p | None \<Rightarrow> - 1) @
    (if cap_index_query_limit caps then write_i32 (case iq_limit q of Some l \<Rightarrow> l | None \<Rightarrow> 0) else []) @
    write_string_type_code (iq_value_type q) @ write_opt_str (iq_index_name q)"

definition index_query_write :: "lowercase \<Rightarrow> index_query_caps \<Rightarrow> cache_info \<Rightarrow> index_query \<Rightarrow> writer" where
  "index_query_write lc caps info q =
    wthen (wr (index_query_head caps info q))
      (wthen (if iq_criteria q = [] then wr write_null
         else wthen (wr (write_u8 COLLECTION_ARR_LIST @ write_i32 (i32_of_usize (length (iq_criteria q)))))
           (wseq (map (write_criterion lc) (iq_criteria q))))
        (wr write_null))"

definition index_query_size :: "lowercase \<Rightarrow> index_query_caps \<Rightarrow> cache_info \<Rightarrow> index_query \<Rightarrow> sizer" where
  "index_query_size lc caps info q =
    sadd (sret (cache_info_size (with_keep_binary info True) + 4 + 1 + 4 + (if cap_index_query_limit caps then 4 else 0) +
        (1 + 4 + str_len (iq_value_type q)) + opt_str_size (iq_index_name q)))
      (sadd (if iq_criteria q = [] then sret 1
         else sadd (sret (1 + 4)) (sseq (map (size_criterion lc) (iq_criteria q))))
        (sret 1))"

section \<open>Continuous queries\<close>

text \<open>The time interval is a \<open>Duration\<close>, here its milliseconds, which \<open>as i64\<close> cuts to 64 bits.\<close>

record continuous_query =
  cq_page_size :: i32
  cq_time_interval :: nat
  cq_include_expired :: bool

definition continuous_query_new :: continuous_query where
  "continuous_query_new = \<lparr>cq_page_size = 1, cq_time_interval = 0, cq_include_expired = False\<rparr>"

definition continuous_query_write :: "cache_info \<Rightarrow> continuous_query \<Rightarrow> bytes" where
  "continuous_query_write info q =
    write_i32 (ci_cache_id info) @ write_u8 (ci_flags info AND KEEP_BINARY_FLAG_MASK) @ write_i32 (cq_page_size q) @
    write_i64 (word_of_nat (cq_time_interval q)) @ write_bool (cq_include_expired q) @ write_null"

definition continuous_query_size :: nat where
  "continuous_query_size = 4 + 1 + 4 + 8 + 1 + 1"

section \<open>The requests announce their size\<close>

lemma length_concat_write_i32 [simp]: "length (concat (map write_i32 ps)) = 4 * length ps"
  by (rule i32.length_concat_enc)

lemma length_query_parts [simp]:
  "length write_null = 1" "length (write_string_type_code v) = 5 + str_len v" "length (write_opt_str w) = opt_str_size w"
  by (simp_all add: write_null_def write_string_type_code_def str_len_def write_opt_str_def opt_str_size_def split: option.split)

lemma sized_scan_query: "sized (wr (scan_query_write info q)) (sret (scan_query_size info))"
  by (rule sized_wr) (simp add: scan_query_write_def scan_query_size_def)

lemma sized_sql_fields: "sized (sql_fields_write lc caps info q) (sql_fields_size lc caps info q)"
  unfolding sql_fields_write_def sql_fields_size_def
  by (intro sized_intros) (auto simp: sql_fields_head_def sql_fields_tail_def split: option.split)

lemma sized_sql_query: "sized (sql_query_write lc info q) (sql_query_size lc info q)"
  unfolding sql_query_write_def sql_query_size_def by (intro sized_intros) simp_all

lemma sized_bound [sized_intros]: "sized (write_bound lc b) (bound_size lc b)"
  using sized_announced [OF ignite_values.announced_axioms] by (auto simp: write_bound_def bound_size_def intro!: sized_wr split: option.split)

lemma sized_criterion: "sized (write_criterion lc c) (size_criterion lc c)"
  by (cases c) (auto intro!: sized_intros)

lemma sized_index_query: "sized (index_query_write lc caps info q) (index_query_size lc caps info q)"
  unfolding index_query_write_def index_query_size_def
  by (auto intro!: sized_intros sized_wseq_map sized_criterion simp: index_query_head_def split: option.split)

lemma sized_continuous_query: "sized (wr (continuous_query_write info q)) (sret continuous_query_size)"
  by (rule sized_wr) (simp add: continuous_query_write_def continuous_query_size_def)

lemmas sized_queries = sized_scan_query sized_sql_fields sized_sql_query sized_index_query sized_continuous_query

end
