(* ===== verification/SqlCursor.thy ===== *)
theory SqlCursor
  imports Queries
begin

text \<open>
  Results of SQL fields queries: \<open>SqlFieldsOpenResponse\<close> and \<open>read_sql_fields_page\<close> of \<open>query/sql.rs\<close>, and
  \<open>SqlFieldsCursor\<close> of \<open>cursor.rs\<close>. The locale \<open>page_source\<close> is what the loop of \<open>fetch_all\<close> relies on; the SQL
  cursor and the entry cursor provide it whenever the server holds pages.
\<close>

section \<open>Responses\<close>

record sql_fields_open =
  so_cursor_id :: i64
  so_field_names :: "rstring list"
  so_rows :: "sql_value list list"
  so_has_more :: bool

definition read_column_name :: "rstring reader" where
  "read_column_name = rbind (readable_read (read_type read_string)) (\<lambda>r. case r of
      Some name \<Rightarrow> ret name
    | None \<Rightarrow> fail (Ignite ''SQL fields response contained null field name''))"

definition read_sql_rows :: "registry \<Rightarrow> nat \<Rightarrow> sql_value list list reader" where
  "read_sql_rows reg column_count = rbind read_i32 (\<lambda>row_count. rbind (with_capacity row_count) (\<lambda>_.
     repeat_read (i32_range row_count) (read_sql_row reg column_count)))"

definition sql_fields_open_read :: "registry \<Rightarrow> sql_fields_open reader" where
  "sql_fields_open_read reg = rbind read_i64 (\<lambda>cursor_id. rbind read_i32 (\<lambda>column_count.
     rbind (with_capacity column_count) (\<lambda>_. rbind (repeat_read (i32_range column_count) read_column_name) (\<lambda>names.
     rbind (read_sql_rows reg (i32_range column_count)) (\<lambda>rows. rbind read_bool (\<lambda>has_more.
       ret \<lparr>so_cursor_id = cursor_id, so_field_names = names, so_rows = rows, so_has_more = has_more\<rparr>))))))"

definition raw_page_body_read :: "bytes reader" where
  "raw_page_body_read s = Ok s []"

definition read_sql_fields_page :: "registry \<Rightarrow> bytes \<Rightarrow> nat \<Rightarrow> (sql_value list list \<times> bool) outcome" where
  "read_sql_fields_page reg body column_count =
    rbind (read_sql_rows reg column_count) (\<lambda>rows. rbind read_bool (\<lambda>has_more. ret (rows, has_more))) body"

section \<open>The cursor\<close>

record 'row sql_cursor_conf =
  qc_route :: request_route
  qc_cursor_id :: i64
  qc_field_names :: "rstring list"
  qc_row :: "'row sql_row"
  qc_registry :: registry

record 'row sql_fields_cursor = session +
  qpending_rows :: "'row list"
  qhas_more :: bool
  qclosed :: bool

text \<open>\<open>for row in rows \<lbrace> push(Row::from_sql_values(row)?) \<rbrace>\<close>.\<close>

fun convert_rows :: "'row sql_row \<Rightarrow> sql_value list list \<Rightarrow> rerror + 'row list" where
  "convert_rows f [] = Inr []"
| "convert_rows f (r # rs) = (case f r of
      Inl e \<Rightarrow> Inl e
    | Inr x \<Rightarrow> (case convert_rows f rs of Inl e \<Rightarrow> Inl e | Inr xs \<Rightarrow> Inr (x # xs)))"

definition converted :: "rerror + 'a \<Rightarrow> 'a result" where
  "converted r = (case r of Inl e \<Rightarrow> Failed (CDecode e) | Inr x \<Rightarrow> Done x)"

definition sql_cursor_new ::
    "'row sql_row \<Rightarrow> request_route \<Rightarrow> registry \<Rightarrow> sql_fields_open \<Rightarrow> session \<Rightarrow>
     ('row sql_cursor_conf \<times> 'row sql_fields_cursor) result" where
  "sql_cursor_new f route reg opened s = (case convert_rows f (so_rows opened) of
      Inl e \<Rightarrow> Failed (CDecode e)
    | Inr rows \<Rightarrow> Done
        (\<lparr>qc_route = route, qc_cursor_id = so_cursor_id opened, qc_field_names = so_field_names opened, qc_row = f, qc_registry = reg\<rparr>,
         \<lparr>calls = calls s, next_correlation_id = next_correlation_id s, qpending_rows = rows, qhas_more = so_has_more opened,
          qclosed = False\<rparr>))"

definition sql_cursor_has_more :: "'row sql_fields_cursor \<Rightarrow> bool" where
  "sql_cursor_has_more self \<longleftrightarrow> qpending_rows self \<noteq> [] \<or> qhas_more self"

definition sql_next_page :: "transport \<Rightarrow> 'row sql_cursor_conf \<Rightarrow> ('row sql_fields_cursor, 'row list) act" where
  "sql_next_page net conf self =
    (if qpending_rows self \<noteq> [] then
       (Done (qpending_rows self),
        let self' = self\<lparr>qpending_rows := []\<rparr> in if qhas_more self' then self' else self'\<lparr>qclosed := True\<rparr>)
     else if \<not> qhas_more self then (Done [], self\<lparr>qclosed := True\<rparr>)
     else abind (send_and_read_with_route net raw_page_body_read OpQuerySqlFieldsCursorGetPage
         (wr (write_i64 (qc_cursor_id conf))) (sret 8) (qc_route conf))
       (\<lambda>body. abind (\<lambda>s. (decoded (read_sql_fields_page (qc_registry conf) body (length (qc_field_names conf))), s))
         (\<lambda>(rows, has_more) s.
           let s' = s\<lparr>qhas_more := has_more\<rparr>; s'' = (if qhas_more s' then s' else s'\<lparr>qclosed := True\<rparr>)
           in (converted (convert_rows (qc_row conf) rows), s''))) self)"

definition send_sql_close :: "transport \<Rightarrow> 'row sql_cursor_conf \<Rightarrow> ('row sql_fields_cursor, unit) act" where
  "send_sql_close net conf = send_with_route net OpResourceClose (wr (write_i64 (qc_cursor_id conf))) (sret 8) (qc_route conf)"

definition sql_cursor_close :: "transport \<Rightarrow> 'row sql_cursor_conf \<Rightarrow> ('row sql_fields_cursor, unit) act" where
  "sql_cursor_close net conf self =
    (if qclosed self then (Done (), self)
     else abind (send_sql_close net conf) (\<lambda>_ s. (Done (), s\<lparr>qclosed := True\<rparr>)) self)"

definition drop_sql_cursor :: "transport \<Rightarrow> 'row sql_cursor_conf \<Rightarrow> 'row sql_fields_cursor \<Rightarrow> 'row sql_fields_cursor" where
  "drop_sql_cursor net conf self = (if qclosed self then self else snd (send_sql_close net conf self))"

text \<open>The loop of \<open>fetch_all\<close>, for any way to get a page; \<open>fuel\<close> bounds its turns.\<close>

fun drain :: "nat \<Rightarrow> ('s, 'r list) act \<Rightarrow> 'r list \<Rightarrow> ('s, 'r list) act" where
  "drain 0 step rows s = (Unfinished, s)"
| "drain (Suc n) step rows s = abind step (\<lambda>page. if page = [] then aret rows else drain n step (rows @ page)) s"

definition sql_fetch_all :: "nat \<Rightarrow> transport \<Rightarrow> 'row sql_cursor_conf \<Rightarrow> ('row sql_fields_cursor, 'row list) act" where
  "sql_fetch_all fuel net conf self = (case drain fuel (sql_next_page net conf) [] self of (r, s) \<Rightarrow> (r, drop_sql_cursor net conf s))"

section \<open>Pages from a source\<close>

locale page_source =
  fixes step :: "('s, 'r list) act" and ready :: "nat \<Rightarrow> 's \<Rightarrow> bool" and pages :: "'r list list"
  assumes serve: "ready n s \<Longrightarrow> n < length pages \<Longrightarrow> \<exists>s'. step s = (Done (pages ! n), s') \<and> ready (Suc n) s'"
    and exhausted: "ready (length pages) s \<Longrightarrow> \<exists>s'. step s = (Done [], s') \<and> ready (length pages) s'"
begin

lemma drain_pages:
  assumes "ready n s" and "n \<le> length pages" and "length pages - n < fuel"
  shows "\<exists>s'. drain fuel step rows s = (Done (rows @ concat (takeWhile (\<lambda>p. p \<noteq> []) (drop n pages))), s') \<and>
    ready (min (length pages) (Suc (n + length (takeWhile (\<lambda>p. p \<noteq> []) (drop n pages))))) s'"
  using assms
proof (induction fuel arbitrary: n s rows)
  case 0
  then show ?case by simp
next
  case (Suc fuel)
  show ?case
  proof (cases "n < length pages")
    case False
    then have "n = length pages" using Suc.prems(2) by simp
    then show ?thesis using exhausted [of s] Suc.prems(1) by (auto simp: abind_def min_def)
  next
    case True
    obtain s' where page: "step s = (Done (pages ! n), s')" "ready (Suc n) s'" using serve [OF Suc.prems(1) True] by blast
    have drop: "drop n pages = pages ! n # drop (Suc n) pages" using True by (simp add: Cons_nth_drop_Suc)
    show ?thesis
    proof (cases "pages ! n = []")
      case True
      then show ?thesis using page drop \<open>n < length pages\<close> by (simp add: abind_def min.absorb2 Suc_leI)
    next
      case False
      from Suc.IH [OF page(2), of "rows @ pages ! n"] Suc.prems(3) True show ?thesis
        by (auto simp: abind_def page False drop)
    qed
  qed
qed

end

section \<open>What the SQL cursor sends\<close>

definition sql_page_call :: "'row sql_cursor_conf \<Rightarrow> i64 \<Rightarrow> call" where
  "sql_page_call conf corr = (OpQuerySqlFieldsCursorGetPage,
     request_frame (op_code_i16 OpQuerySqlFieldsCursorGetPage) corr (write_i64 (qc_cursor_id conf)), qc_route conf)"

definition sql_close_call :: "'row sql_cursor_conf \<Rightarrow> i64 \<Rightarrow> call" where
  "sql_close_call conf corr =
    (OpResourceClose, request_frame (op_code_i16 OpResourceClose) corr (write_i64 (qc_cursor_id conf)), qc_route conf)"

lemma send_sql_close_state:
  "snd (send_sql_close net conf s) =
    s\<lparr>next_correlation_id := next_correlation_id s + 1, calls := calls s @ [sql_close_call conf (next_correlation_id s)]\<rparr>"
  by (simp add: send_sql_close_def send_with_route_state perform_cursor Let_def sql_close_call_def)

lemma sql_page_read:
  assumes "net (calls s) (sql_page_call conf (next_correlation_id s)) = Inr (Success, body, 0, addr)"
  shows "send_and_read_with_route net raw_page_body_read OpQuerySqlFieldsCursorGetPage
      (wr (write_i64 (qc_cursor_id conf))) (sret 8) (qc_route conf) s =
    (Done body, s\<lparr>next_correlation_id := next_correlation_id s + 1,
      calls := calls s @ [sql_page_call conf (next_correlation_id s)]\<rparr>)"
  using assms
  by (simp add: send_and_read_with_route_def perform_cursor Let_def sql_page_call_def abind_def decoded_def raw_page_body_read_def)

section \<open>A server that holds pages\<close>

text \<open>Rows as a server sends them: values of the encoder, converted by the row type of the cursor.\<close>

definition server_sql_rows :: "lowercase \<Rightarrow> ignite_value list list \<Rightarrow> bytes" where
  "server_sql_rows lc rows = write_i32 (i32_of_usize (length rows)) @ concat (map (\<lambda>row. concat (map (enc_value lc) row)) rows)"

definition good_sql_rows :: "lowercase \<Rightarrow> registry \<Rightarrow> nat \<Rightarrow> ignite_value list list \<Rightarrow> bool" where
  "good_sql_rows lc reg width rows \<longleftrightarrow> length rows < 2 ^ 31 \<and>
    list_all (\<lambda>row. length row = width \<and> list_all (\<lambda>v. sql_readable lc reg v \<and> length (enc_value lc v) < 2 ^ 31) row) rows"

lemma read_sql_rows_back:
  assumes "good_sql_rows lc reg width rows"
  shows "read_sql_rows reg width (server_sql_rows lc rows @ s) = Ok (map (map sql_of) rows) s"
proof -
  have row: "read_sql_row reg width (concat (map (enc_value lc) row) @ t) = Ok (map sql_of row) t" if "row \<in> set rows" for row t
    unfolding read_sql_row_def
    using that assms sql_readable_decodes repeat_read_concat [of row "read_sql_value reg" "enc_value lc" sql_of t]
    by (auto simp: good_sql_rows_def list_all_iff sql_decodes_def)
  have "repeat_read (length rows) (read_sql_row reg width) (concat (map (\<lambda>row. concat (map (enc_value lc) row)) rows) @ s) =
      Ok (map (map sql_of) rows) s"
    using row by (rule repeat_read_concat)
  then show ?thesis
    using assms by (simp add: read_sql_rows_def server_sql_rows_def good_sql_rows_def rbind_Ok len_casts)
qed

lemma read_sql_page_back:
  "good_sql_rows lc reg width rows \<Longrightarrow>
    read_sql_fields_page reg (server_sql_rows lc rows @ write_bool hm) width = Ok (map (map sql_of) rows, hm) []"
  using bool.dec_enc_any [of hm "[]"] by (simp add: read_sql_fields_page_def rbind_Ok read_sql_rows_back)

lemma convert_rows_all: "(\<And>r. r \<in> set rows \<Longrightarrow> f (g r) = Inr (h r)) \<Longrightarrow> convert_rows f (map g rows) = Inr (map h rows)"
  by (induction rows) auto

definition sql_page_log :: "'row sql_cursor_conf \<Rightarrow> i64 \<Rightarrow> nat \<Rightarrow> call list" where
  "sql_page_log conf corr n = map (\<lambda>i. sql_page_call conf (corr + word_of_nat i)) [0..<n]"

lemma sql_page_log_simps [simp]:
  "sql_page_log conf corr 0 = []"
  "sql_page_log conf corr (Suc n) = sql_page_log conf corr n @ [sql_page_call conf (corr + word_of_nat n)]"
  by (simp_all add: sql_page_log_def)

text \<open>The server answers the page requests of the cursor, made one after the other, with its pages, whose rows
  convert to the row type of the cursor.\<close>

locale sql_server =
  fixes net :: transport and conf :: "'row sql_cursor_conf" and lc :: lowercase and log0 :: "call list" and corr0 :: i64
    and pages :: "ignite_value list list list" and conv :: "ignite_value list \<Rightarrow> 'row"
  assumes serves: "n < length pages \<Longrightarrow>
      \<exists>addr. net (log0 @ sql_page_log conf corr0 n) (sql_page_call conf (corr0 + word_of_nat n)) =
        Inr (Success, server_sql_rows lc (pages ! n) @ write_bool (Suc n < length pages), 0, addr)"
    and good: "rows \<in> set pages \<Longrightarrow> good_sql_rows lc (qc_registry conf) (length (qc_field_names conf)) rows"
    and typed: "rows \<in> set pages \<Longrightarrow> row \<in> set rows \<Longrightarrow> qc_row conf (map sql_of row) = Inr (conv row)"
begin

definition sql_ready :: "nat \<Rightarrow> 'row sql_fields_cursor \<Rightarrow> bool" where
  "sql_ready n s \<longleftrightarrow> qpending_rows s = [] \<and> qhas_more s = (n < length pages) \<and> qclosed s = (n = length pages) \<and>
    calls s = log0 @ sql_page_log conf corr0 n \<and> next_correlation_id s = corr0 + word_of_nat n"

lemma sql_page_served:
  assumes "sql_ready n s" and "n < length pages"
  shows "\<exists>s'. sql_next_page net conf s = (Done (map conv (pages ! n)), s') \<and> sql_ready (Suc n) s'"
proof -
  have page: "pages ! n \<in> set pages" using assms(2) by simp
  obtain addr where net: "net (calls s) (sql_page_call conf (next_correlation_id s)) =
      Inr (Success, server_sql_rows lc (pages ! n) @ write_bool (Suc n < length pages), 0, addr)"
    using serves [OF assms(2)] assms(1) by (auto simp: sql_ready_def)
  have "convert_rows (qc_row conf) (map (map sql_of) (pages ! n)) = Inr (map conv (pages ! n))"
    by (rule convert_rows_all) (rule typed [OF page])
  then show ?thesis
    using assms read_sql_page_back [OF good [OF page], of "Suc n < length pages"]
    by (simp add: sql_next_page_def sql_ready_def abind_def [of "send_and_read_with_route _ _ _ _ _ _"] sql_page_read [where net = net and s = s and conf = conf, OF net])
      (auto simp: abind_def decoded_def converted_def Let_def)
qed

lemma sql_pages_done: "sql_ready (length pages) s \<Longrightarrow> \<exists>s'. sql_next_page net conf s = (Done [], s') \<and> sql_ready (length pages) s'"
  by (simp add: sql_next_page_def sql_ready_def)

end

sublocale sql_server \<subseteq> page_source "sql_next_page net conf" sql_ready "map (map conv) pages"
  by unfold_locales (use sql_page_served sql_pages_done in auto)

context sql_server
begin

lemma takeWhile_rows:
  "takeWhile (\<lambda>p. p \<noteq> []) (map (map conv) ps) = map (map conv) (takeWhile (\<lambda>p. p \<noteq> []) ps)"
  by (simp add: takeWhile_map comp_def)

definition asked_pages :: nat where
  "asked_pages = min (length pages) (Suc (length (takeWhile (\<lambda>p. p \<noteq> []) pages)))"

lemma fetch_sql:
  assumes conf: "sql_cursor_new (qc_row conf) (qc_route conf) (qc_registry conf) opened \<lparr>calls = log0, next_correlation_id = corr0\<rparr> = Done (conf, self)"
    and opened: "so_has_more opened = (pages \<noteq> [])" "so_rows opened = map (map sql_of) first"
    and first: "\<And>row. row \<in> set first \<Longrightarrow> qc_row conf (map sql_of row) = Inr (conv row)"
    and fuel: "length pages + 2 \<le> fuel"
  shows "\<exists>s. sql_fetch_all fuel net conf self =
      (Done (map conv (concat (takeWhile (\<lambda>p. p \<noteq> []) (if first = [] then pages else first # pages)))), s) \<and>
    calls s = log0 @ sql_page_log conf corr0 asked_pages @
      (if asked_pages < length pages then [sql_close_call conf (corr0 + word_of_nat asked_pages)] else [])"
proof -
  have "convert_rows (qc_row conf) (map (map sql_of) first) = Inr (map conv first)" by (rule convert_rows_all) (rule first)
  then have self: "self = \<lparr>calls = log0, next_correlation_id = corr0, qpending_rows = map conv first, qhas_more = (pages \<noteq> []), qclosed = False\<rparr>"
    using conf opened by (simp add: sql_cursor_new_def)
  have "\<exists>s. drain fuel (sql_next_page net conf) [] self =
      (Done (map conv (concat (takeWhile (\<lambda>p. p \<noteq> []) (if first = [] then pages else first # pages)))), s) \<and> sql_ready asked_pages s"
  proof (cases "first = []")
    case True
    obtain k where k: "fuel = Suc k" using fuel by (cases fuel) auto
    show ?thesis
    proof (cases "pages = []")
      case True
      have "sql_ready asked_pages (self\<lparr>qclosed := True\<rparr>)" unfolding sql_ready_def asked_pages_def self by (simp add: True \<open>first = []\<close>)
      then show ?thesis using True \<open>first = []\<close> by (simp add: self k sql_next_page_def abind_def)
    next
      case False
      then have "sql_ready 0 self" using True by (simp add: sql_ready_def self)
      from drain_pages [OF this, of fuel "[]"] fuel True show ?thesis
        by (auto simp: takeWhile_rows map_concat asked_pages_def)
    qed
  next
    case False
    obtain k where k: "fuel = Suc k" "length pages < k" using fuel by (cases fuel) auto
    define s1 where "s1 = self\<lparr>qpending_rows := [], qclosed := (pages = [])\<rparr>"
    have s1: "sql_next_page net conf self = (Done (map conv first), s1)" "sql_ready 0 s1"
      using False by (auto simp: sql_next_page_def self sql_ready_def s1_def Let_def)
    from drain_pages [OF s1(2), of k "map conv first"] k False show ?thesis
      by (auto simp: abind_def s1(1) takeWhile_rows map_concat asked_pages_def)
  qed
  then show ?thesis
    by (auto simp: sql_fetch_all_def drop_sql_cursor_def send_sql_close_state sql_ready_def asked_pages_def min_def)
qed

end

text \<open>The entry cursor is a source of pages as well.\<close>

locale entry_server =
  fixes net :: transport and conf :: "('k, 'v) cursor_conf" and pages :: "('k, 'v) row list list"
    and enc :: "('k, 'v) row list \<Rightarrow> bytes" and base :: nat
  assumes serves_entries: "serves_pages net conf pages enc base" and reads_entries: "reads_pages conf pages enc"
    and page_op: "cc_page_op conf \<noteq> OpResourceClose"
begin

definition entry_ready :: "nat \<Rightarrow> ('k, 'v) entry_cursor \<Rightarrow> bool" where
  "entry_ready n s \<longleftrightarrow> pending_rows s = [] \<and> has_more_pages s = (n < length pages) \<and>
    page_calls (cc_page_op conf) (calls s) = base + n"

end

sublocale entry_server \<subseteq> page_source "next_page net conf" entry_ready pages
proof
  fix n s
  assume "entry_ready n s" and "n < length pages"
  then show "\<exists>s'. next_page net conf s = (Done (pages ! n), s') \<and> entry_ready (Suc n) s'"
    using next_page_served [OF serves_entries reads_entries, of s n] page_op by (auto simp: entry_ready_def)
next
  fix s
  assume "entry_ready (length pages) s"
  then show "\<exists>s'. next_page net conf s = (Done [], s') \<and> entry_ready (length pages) s'"
    using page_op by (auto simp: entry_ready_def next_page_def)
qed

lemma fetch_loop_drain: "fetch_loop fuel net conf rows = drain fuel (next_page net conf) rows"
  by (induction fuel arbitrary: rows) (rule ext, simp cong: if_cong)+

interpretation sample_entries: entry_server sample_server sample_cursor sample_pages "server_rows (write_type TcInt write_i32) string_write" 0
proof
  show "serves_pages sample_server sample_cursor sample_pages (server_rows (write_type TcInt write_i32) string_write) 0"
    by (simp add: serves_pages_def sample_server_def sample_cursor_def page_calls_def Let_def)
  have "list_all (good_rows (\<lambda>_. True) ok_string) sample_pages"
    by (simp add: sample_pages_def good_rows_def ok_string_def scalar_def str_len_def utf8_char_def)
  then show "reads_pages sample_cursor sample_pages (server_rows (write_type TcInt write_i32) string_write)"
    using wire_pair.page_read_back [OF int_string.wire_pair_axioms, of _ _ "[]"]
    by (simp add: reads_pages_def list_all_iff sample_cursor_def)
qed (simp add: sample_cursor_def)

section \<open>A sample server\<close>

definition sample_sql_conf :: "(i64 \<times> rstring option) sql_cursor_conf" where
  "sample_sql_conf = \<lparr>qc_route = route_pinned [97], qc_cursor_id = 5, qc_field_names = [[105], [110]],
     qc_row = row2 sql_i64 (sql_option sql_string), qc_registry = registry_default\<rparr>"

definition sample_sql_pages :: "ignite_value list list list" where
  "sample_sql_pages = [[[IvInt 1, IvString [97]]], [[IvShort (- 2), IvNull]]]"

definition sample_sql_server :: transport where
  "sample_sql_server cs c = (let n = length cs
    in Inr (Success, server_sql_rows id (sample_sql_pages ! n) @ write_bool (Suc n < length sample_sql_pages), 0, []))"

definition sample_conv :: "ignite_value list \<Rightarrow> i64 \<times> rstring option" where
  "sample_conv row = (case row of
      [IvInt i, IvString t] \<Rightarrow> (scast i, Some t)
    | [IvShort i, IvNull] \<Rightarrow> (scast i, None)
    | _ \<Rightarrow> (0, None))"

interpretation sample_sql: sql_server sample_sql_server sample_sql_conf id "[]" 1 sample_sql_pages sample_conv
proof
  fix n rows row
  show "n < length sample_sql_pages \<Longrightarrow>
      \<exists>addr. sample_sql_server ([] @ sql_page_log sample_sql_conf 1 n) (sql_page_call sample_sql_conf (1 + word_of_nat n)) =
        Inr (Success, server_sql_rows id (sample_sql_pages ! n) @ write_bool (Suc n < length sample_sql_pages), 0, addr)"
    by (simp add: sample_sql_server_def sql_page_log_def Let_def)
  show "rows \<in> set sample_sql_pages \<Longrightarrow> good_sql_rows id (qc_registry sample_sql_conf) (length (qc_field_names sample_sql_conf)) rows"
    by (auto simp: sample_sql_pages_def good_sql_rows_def sample_sql_conf_def enc_simple valid_rstring_def scalar_def
        str_len_def utf8_encode_def utf8_char_def)
  show "rows \<in> set sample_sql_pages \<Longrightarrow> row \<in> set rows \<Longrightarrow> qc_row sample_sql_conf (map sql_of row) = Inr (sample_conv row)"
    by (auto simp: sample_sql_pages_def sample_sql_conf_def sample_conv_def row2_def column_def row_end_def sql_option_def)
qed

end
