(* ===== verification/CacheQueries.thy ===== *)
theory CacheQueries
  imports SqlCursor
begin

text \<open>
  The query operations of a cache, \<open>CacheCore\<close> of \<open>ignite-rs/src/cache.rs\<close>: scan, SQL, SQL fields and index
  queries, which send one request and leave a cursor that is pinned to the node that answered. The capabilities
  of the server and the affinity lookup of a partition are arguments. A cursor starts with the log of the
  session at the time it is made.
\<close>

section \<open>The operations\<close>

type_synonym partition_lookup = "i32 \<Rightarrow> i32 \<Rightarrow> bool \<Rightarrow> rstring option"

definition route_for_partition ::
    "partition_lookup \<Rightarrow> ('k, 'v) cache_core \<Rightarrow> i32 \<Rightarrow> bool \<Rightarrow> (tx_session, request_route option) act" where
  "route_for_partition affp self p primary = abind (tx_route self) (\<lambda>r. case r of
      Some route \<Rightarrow> aret (Some route)
    | None \<Rightarrow> aret (map_option route_preferred_node (affp (core_id self) p primary)))"

definition or_default :: "request_route option \<Rightarrow> request_route" where
  "or_default r = (case r of Some route \<Rightarrow> route | None \<Rightarrow> route_default)"

definition session_of :: "tx_session \<Rightarrow> session" where
  "session_of s = \<lparr>calls = calls s, next_correlation_id = next_correlation_id s\<rparr>"

definition open_entry_cursor ::
    "transport \<Rightarrow> ('k, 'v) cache_core \<Rightarrow> op_code \<Rightarrow> op_code \<Rightarrow> bool \<Rightarrow> writer \<Rightarrow> sizer \<Rightarrow> request_route option \<Rightarrow>
     (tx_session, ('k, 'v) cursor_conf \<times> ('k, 'v) entry_cursor) act" where
  "open_entry_cursor net self op page_op close_on_exhaustion payload psize route =
    abind (map_tx_err self (send_and_read_with_meta net (cursor_open_read (core_rk self) (core_rv self)) op payload psize (or_default route)))
      (\<lambda>(opened, address) s. (Done
        (\<lparr>cc_route = route_pinned address, cc_cursor_id = open_cursor_id opened, cc_page_op = page_op,
          cc_close_on_exhaustion = close_on_exhaustion, cc_read_key = core_rk self, cc_read_value = core_rv self\<rparr>,
         cursor_new (open_rows opened) (open_has_more opened) (session_of s)), s))"

definition scan_query_impl ::
    "transport \<Rightarrow> partition_lookup \<Rightarrow> ('k, 'v) cache_core \<Rightarrow> scan_query \<Rightarrow>
     (tx_session, ('k, 'v) cursor_conf \<times> ('k, 'v) entry_cursor) act" where
  "scan_query_impl net affp self query =
    abind (ensure_tx_cache_ops_allowed self) (\<lambda>_.
    abind (case sc_partition query of Some p \<Rightarrow> route_for_partition affp self p False | None \<Rightarrow> tx_route self) (\<lambda>route.
      open_entry_cursor net self OpQueryScan OpQueryScanCursorGetPage False
        (wr (scan_query_write (cache_info_of self True) query)) (sret (scan_query_size (cache_info_of self True))) route))"

definition index_query_impl ::
    "transport \<Rightarrow> partition_lookup \<Rightarrow> index_query_caps \<Rightarrow> ('k, 'v) cache_core \<Rightarrow> index_query \<Rightarrow>
     (tx_session, ('k, 'v) cursor_conf \<times> ('k, 'v) entry_cursor) act" where
  "index_query_impl net affp caps self query =
    abind (ensure_tx_cache_ops_allowed self) (\<lambda>_.
      if \<not> cap_index_query caps then afail (client_error ''QUERY_INDEX is not supported by the server'')
      else if \<not> cap_index_query_limit caps \<and> (case iq_limit query of Some v \<Rightarrow> 0 <s v | None \<Rightarrow> False)
      then afail (client_error ''IndexQuery.limit > 0 requires server feature INDEX_QUERY_LIMIT'')
      else abind (case iq_partition query of Some p \<Rightarrow> route_for_partition affp self p False | None \<Rightarrow> tx_route self) (\<lambda>route.
        open_entry_cursor net self OpQueryIndex OpQueryIndexCursorGetPage False
          (index_query_write (core_lc self) caps (cache_info_of self True) query)
          (index_query_size (core_lc self) caps (cache_info_of self True) query) route))"

definition sql_query_impl ::
    "transport \<Rightarrow> ('k, 'v) cache_core \<Rightarrow> sql_query \<Rightarrow> (tx_session, ('k, 'v) cursor_conf \<times> ('k, 'v) entry_cursor) act" where
  "sql_query_impl net self query =
    abind (ensure_tx_cache_ops_allowed self) (\<lambda>_.
    abind (tx_route self) (\<lambda>route.
      open_entry_cursor net self OpQuerySql OpQuerySqlCursorGetPage True
        (sql_query_write (core_lc self) (cache_info_of self True) query)
        (sql_query_size (core_lc self) (cache_info_of self True) query) route))"

definition query_scan_impl ::
    "nat \<Rightarrow> transport \<Rightarrow> partition_lookup \<Rightarrow> ('k, 'v) cache_core \<Rightarrow> i32 \<Rightarrow> (tx_session, ('k, 'v) row list) act" where
  "query_scan_impl fuel net affp self page_size =
    abind (scan_query_impl net affp self (scan_query_new\<lparr>sc_page_size := page_size\<rparr>)) (\<lambda>(conf, cursor) s.
      case fetch_all fuel net conf cursor of (r, c) \<Rightarrow>
        (r, s\<lparr>calls := calls c, next_correlation_id := next_correlation_id c\<rparr>))"

definition sql_fields_open_response_impl ::
    "transport \<Rightarrow> sql_fields_caps \<Rightarrow> registry \<Rightarrow> ('k, 'v) cache_core \<Rightarrow> sql_fields_query \<Rightarrow>
     (tx_session, sql_fields_open \<times> rstring) act" where
  "sql_fields_open_response_impl net caps reg self query = (case sql_fields_validate query of
      Some msg \<Rightarrow> afail (client_error msg)
    | None \<Rightarrow>
        abind (ensure_tx_cache_ops_allowed self) (\<lambda>_.
        abind (tx_route self) (\<lambda>route.
          map_tx_err self (send_and_read_with_meta net (sql_fields_open_read reg) OpQuerySqlFields
            (sql_fields_write (core_lc self) caps (cache_info_of self True) query)
            (sql_fields_size (core_lc self) caps (cache_info_of self True) query) (or_default route)))))"

definition sql_fields_impl ::
    "transport \<Rightarrow> sql_fields_caps \<Rightarrow> registry \<Rightarrow> ('k, 'v) cache_core \<Rightarrow> 'row sql_row \<Rightarrow> sql_fields_query \<Rightarrow>
     (tx_session, 'row sql_cursor_conf \<times> 'row sql_fields_cursor) act" where
  "sql_fields_impl net caps reg self f query =
    abind (sql_fields_open_response_impl net caps reg self query) (\<lambda>(opened, address) s.
      (sql_cursor_new f (route_pinned address) reg opened (session_of s), s))"

section \<open>The first page of a SQL fields query\<close>

definition server_sql_open :: "lowercase \<Rightarrow> i64 \<Rightarrow> rstring list \<Rightarrow> ignite_value list list \<Rightarrow> bool \<Rightarrow> bytes" where
  "server_sql_open lc cid names rows hm =
    write_i64 cid @ write_i32 (i32_of_usize (length names)) @ concat (map string_write names) @ server_sql_rows lc rows @ write_bool hm"

lemma read_column_name_back: "ok_string name \<Longrightarrow> read_column_name (string_write name @ s) = Ok name s"
  by (simp add: read_column_name_def rbind_Ok w_string.read_write)

lemma sql_open_read_back:
  assumes "list_all ok_string names" and "length names < 2 ^ 31" and "good_sql_rows lc reg (length names) rows"
  shows "sql_fields_open_read reg (server_sql_open lc cid names rows hm) =
    Ok \<lparr>so_cursor_id = cid, so_field_names = names, so_rows = map (map sql_of) rows, so_has_more = hm\<rparr> []"
proof -
  have "repeat_read (length names) read_column_name (concat (map string_write names) @ s) = Ok names s" for s
    using repeat_read_concat [of names read_column_name string_write "\<lambda>n. n" s] assms(1)
    by (simp add: list_all_iff read_column_name_back)
  then show ?thesis
    using bool.dec_enc_any [of hm "[]"] assms(2)
    by (simp add: sql_fields_open_read_def server_sql_open_def rbind_Ok len_casts read_sql_rows_back [OF assms(3)])
qed

section \<open>What is sent, and the cursor\<close>

definition sql_fields_call ::
    "('k, 'v) cache_core \<Rightarrow> sql_fields_caps \<Rightarrow> sql_fields_query \<Rightarrow> i64 \<Rightarrow> call" where
  "sql_fields_call self caps query corr = (OpQuerySqlFields,
     request_frame 2004 corr (sql_fields_head (cache_info_of self True) query @
       concat (map (enc_value (core_lc self)) (sf_args query)) @ sql_fields_tail caps query),
     case core_tx self of Some tx \<Rightarrow> route_pinned (inner_pinned_address tx) | None \<Rightarrow> route_default)"

lemma run_sql_fields:
  "list_all (accepted lc) (sf_args q) \<Longrightarrow> run (sql_fields_write lc caps info q) =
    Inr (sql_fields_head info q @ concat (map (enc_value lc) (sf_args q)) @ sql_fields_tail caps q)"
  by (simp add: sql_fields_write_def steady_intros run_write_values)

lemma send_and_read_meta_result:
  assumes "sized payload psize" and "run payload = Inr bs"
    and "net (calls s) (op, request_frame (op_code_i16 op) (next_correlation_id s) bs, route) = Inr (Success, body, 0, addr)"
    and "rd body = Ok x rest"
  shows "send_and_read_with_meta net rd op payload psize route s =
    (Done (x, addr), s\<lparr>next_correlation_id := next_correlation_id s + 1,
      calls := calls s @ [(op, request_frame (op_code_i16 op) (next_correlation_id s) bs, route)]\<rparr>)"
  using assms(3,4) by (simp add: send_and_read_with_meta_def abind_def perform_sized [OF assms(1,2)] Let_def decoded_def)

lemma sql_fields_opened:
  assumes "sql_fields_validate query = None" and "usable self s" and "list_all (accepted (core_lc self)) (sf_args query)"
    and "net (calls s) (sql_fields_call self caps query (next_correlation_id s)) = Inr (Success, body, 0, addr)"
    and "sql_fields_open_read reg body = Ok opened rest"
  shows "sql_fields_impl net caps reg self f query s =
    (let s' = s\<lparr>next_correlation_id := next_correlation_id s + 1,
        calls := calls s @ [sql_fields_call self caps query (next_correlation_id s)]\<rparr>
     in (sql_cursor_new f (route_pinned addr) reg opened (session_of s'), s'))"
proof -
  let ?route = "case core_tx self of Some tx \<Rightarrow> route_pinned (inner_pinned_address tx) | None \<Rightarrow> route_default"
  have route: "or_default (map_option (\<lambda>tx. route_pinned (inner_pinned_address tx)) (core_tx self)) = ?route"
    by (simp add: or_default_def split: option.split)
  have call: "sql_fields_call self caps query corr = (OpQuerySqlFields, request_frame (op_code_i16 OpQuerySqlFields) corr
      (sql_fields_head (cache_info_of self True) query @ concat (map (enc_value (core_lc self)) (sf_args query)) @
       sql_fields_tail caps query), ?route)" for corr
    by (simp add: sql_fields_call_def)
  have "send_and_read_with_meta net (sql_fields_open_read reg) OpQuerySqlFields
      (sql_fields_write (core_lc self) caps (cache_info_of self True) query)
      (sql_fields_size (core_lc self) caps (cache_info_of self True) query) ?route s =
    (Done (opened, addr), s\<lparr>next_correlation_id := next_correlation_id s + 1,
        calls := calls s @ [sql_fields_call self caps query (next_correlation_id s)]\<rparr>)"
    using send_and_read_meta_result [where net = net and s = s and rd = "sql_fields_open_read reg" and op = OpQuerySqlFields,
        OF sized_sql_fields run_sql_fields [OF assms(3)]] assms(4,5) unfolding call by blast
  then show ?thesis
    using assms(1,2) ensure_ops(1) [of self s] tx_route_usable [OF assms(2)]
    by (simp add: sql_fields_impl_def sql_fields_open_response_impl_def abind_def map_tx_err_def route Let_def)
qed

subsection \<open>Cursors of entries\<close>

definition query_route :: "partition_lookup \<Rightarrow> ('k, 'v) cache_core \<Rightarrow> i32 option \<Rightarrow> request_route" where
  "query_route affp self part = (case core_tx self of
      Some tx \<Rightarrow> route_pinned (inner_pinned_address tx)
    | None \<Rightarrow> (case part of
        Some p \<Rightarrow> (case affp (core_id self) p False of Some nid \<Rightarrow> route_preferred_node nid | None \<Rightarrow> route_default)
      | None \<Rightarrow> route_default))"

definition opened_cursor ::
    "('k, 'v) cache_core \<Rightarrow> op_code \<Rightarrow> bool \<Rightarrow> ('k, 'v) cursor_open_resp \<Rightarrow> rstring \<Rightarrow> tx_session \<Rightarrow>
     ('k, 'v) cursor_conf \<times> ('k, 'v) entry_cursor" where
  "opened_cursor self page_op close_on_exhaustion opened addr s =
    (\<lparr>cc_route = route_pinned addr, cc_cursor_id = open_cursor_id opened, cc_page_op = page_op,
      cc_close_on_exhaustion = close_on_exhaustion, cc_read_key = core_rk self, cc_read_value = core_rv self\<rparr>,
     cursor_new (open_rows opened) (open_has_more opened) (session_of s))"

definition after_call :: "tx_session \<Rightarrow> op_code \<Rightarrow> bytes \<Rightarrow> request_route \<Rightarrow> tx_session" where
  "after_call s op bs route = s\<lparr>next_correlation_id := next_correlation_id s + 1,
     calls := calls s @ [(op, request_frame (op_code_i16 op) (next_correlation_id s) bs, route)]\<rparr>"

lemma open_entry_cursor_result:
  assumes "sized payload psize" and "run payload = Inr bs"
    and "\<And>call. net (calls s) call = Inr (Success, body, 0, addr)"
    and "cursor_open_read (core_rk self) (core_rv self) body = Ok opened rest"
  shows "open_entry_cursor net self op page_op coe payload psize route s =
    (Done (opened_cursor self page_op coe opened addr (after_call s op bs (or_default route))), after_call s op bs (or_default route))"
  using send_and_read_meta_result [where net = net and s = s and rd = "cursor_open_read (core_rk self) (core_rv self)",
      OF assms(1,2) assms(3) assms(4), of op "or_default route"]
  by (simp add: open_entry_cursor_def abind_def map_tx_err_def opened_cursor_def after_call_def)

lemma routes_usable:
  assumes "usable self s"
  shows "\<exists>route. (case part of Some p \<Rightarrow> route_for_partition affp self p False | None \<Rightarrow> tx_route self) s = (Done route, s) \<and>
    or_default route = query_route affp self part"
  using tx_route_usable [OF assms]
  by (auto simp: route_for_partition_def abind_def query_route_def or_default_def split: option.splits)

lemma abind_Done: "m s = (Done x, s') \<Longrightarrow> abind m f s = f x s'"
  by (simp add: abind_def)

lemma not_usable_fails:
  "\<not> usable self s \<Longrightarrow> \<exists>e. abind (ensure_tx_cache_ops_allowed self) f s = (Failed e, s)"
  using ensure_ops [of self s] by (auto simp: abind_def)

lemma ensured: "usable self s \<Longrightarrow> abind (ensure_tx_cache_ops_allowed self) f s = f () s"
  using ensure_ops(1) [of self s] by (simp add: abind_def)

section \<open>Properties\<close>

text \<open>C36: A SQL fields query from end to end. On a usable cache a valid query with arguments the encoder accepts is sent
  as one request, to the transaction's address if there is one. A server that answers it with a first page and
  holds further pages answers the page requests, which go to the node that answered the query, with rows of
  encoded values, as many to a row as there are columns. Then the query leaves a cursor and \<open>fetch_all\<close> returns the
  rows of the first page and of the pages, in order and converted to the row type, up to the first empty
  page (an empty first page is skipped). It asks for each page at most once, and closes the cursor on the server
  with exactly one request if it stopped before the last page and with none if not. When no page is
  empty all rows are returned. \<open>length pages + 2\<close> turns are enough.\<close>
theorem sql_query_rows:
  fixes self :: "('k, 'v) cache_core" and conv :: "ignite_value list \<Rightarrow> 'row" and caps query s addr cid names f reg
  defines "query_call \<equiv> sql_fields_call self caps query (next_correlation_id s)"
  defines "conf \<equiv> \<lparr>qc_route = route_pinned addr, qc_cursor_id = cid, qc_field_names = names, qc_row = f, qc_registry = reg\<rparr>"
  assumes "sql_fields_validate query = None" and "core_tx self = None \<or> tx_state s = TxActive"
    and "list_all (accepted (core_lc self)) (sf_args query)"
    and "net (calls s) (query_call) = Inr (Success, server_sql_open lc cid names first (pages \<noteq> []), 0, addr)"
    and "list_all ok_string names" and "length names < 2 ^ 31" and "good_sql_rows lc reg (length names) first"
    and "\<And>row. row \<in> set first \<Longrightarrow> f (map sql_of row) = Inr (conv row)"
    and "sql_server net conf lc (calls s @ [query_call]) (next_correlation_id s + 1) pages conv"
    and "length pages + 2 \<le> fuel"
  shows "\<exists>cursor s1 s2. sql_fields_impl net caps reg self f query s = (Done (conf, cursor), s1) \<and> calls s1 = calls s @ [query_call] \<and>
    sql_fetch_all fuel net conf cursor =
      (Done (map conv (concat (takeWhile (\<lambda>p. p \<noteq> []) (if first = [] then pages else first # pages)))), s2) \<and>
    (let asked = min (length pages) (Suc (length (takeWhile (\<lambda>p. p \<noteq> []) pages))); corr = next_correlation_id s + 1
     in calls s2 = calls s1 @ sql_page_log conf corr asked @
       (if asked < length pages then [sql_close_call conf (corr + word_of_nat asked)] else [])) \<and>
    ([] \<notin> set pages \<longrightarrow> fst (sql_fetch_all fuel net conf cursor) = Done (map conv (first @ concat pages)))"
proof -
  let ?opened = "\<lparr>so_cursor_id = cid, so_field_names = names, so_rows = map (map sql_of) first, so_has_more = (pages \<noteq> [])\<rparr>"
  let ?s1 = "s\<lparr>next_correlation_id := next_correlation_id s + 1, calls := calls s @ [query_call]\<rparr>"
  note opened = sql_open_read_back [OF assms(7-9), of cid "pages \<noteq> []"]
  have impl: "sql_fields_impl net caps reg self f query s = (sql_cursor_new f (route_pinned addr) reg ?opened (session_of ?s1), ?s1)"
    using sql_fields_opened [OF assms(3) _ assms(5), of s net caps _ addr reg ?opened "[]" f] assms(4,6) opened
    by (simp add: usable_def query_call_def Let_def)
  have "convert_rows f (map (map sql_of) first) = Inr (map conv first)" by (rule convert_rows_all) (rule assms(10))
  then obtain cursor where cursor: "sql_cursor_new f (route_pinned addr) reg ?opened (session_of ?s1) = Done (conf, cursor)"
    by (simp add: sql_cursor_new_def conf_def)
  obtain s2 where fetch: "sql_fetch_all fuel net conf cursor =
      (Done (map conv (concat (takeWhile (\<lambda>p. p \<noteq> []) (if first = [] then pages else first # pages)))), s2)"
    and log: "calls s2 = calls s @ [query_call] @
      sql_page_log conf (next_correlation_id s + 1) (min (length pages) (Suc (length (takeWhile (\<lambda>p. p \<noteq> []) pages)))) @
      (if min (length pages) (Suc (length (takeWhile (\<lambda>p. p \<noteq> []) pages))) < length pages
       then [sql_close_call conf (next_correlation_id s + 1 + word_of_nat (min (length pages) (Suc (length (takeWhile (\<lambda>p. p \<noteq> []) pages)))))] else [])"
    using sql_server.fetch_sql [OF assms(11), of ?opened cursor first fuel] cursor assms(10,12)
    by (auto simp: sql_server.asked_pages_def [OF assms(11)] session_of_def conf_def)
  have all: "takeWhile (\<lambda>p. p \<noteq> []) pages = pages" if "[] \<notin> set pages"
    using that by (metis (mono_tags, lifting) takeWhile_eq_all_conv)
  have "fst (sql_fetch_all fuel net conf cursor) = Done (map conv (first @ concat pages))" if "[] \<notin> set pages"
    by (simp add: fetch all [OF that] del: takeWhile_eq_all_conv)
  with impl cursor fetch log show ?thesis by (auto simp: Let_def)
qed

definition sample_sql_query :: sql_fields_query where
  "sample_sql_query = (sql_fields_query_new (rstr ''select i, n from t where i > ?''))\<lparr>sf_args := [IvInt 0]\<rparr>"

definition sample_query_server :: transport where
  "sample_query_server cs c = (case cs of
      [] \<Rightarrow> Inr (Success, server_sql_open id 5 [[105], [110]] [] True, 0, [97])
    | _ # pages_asked \<Rightarrow> sample_sql_server pages_asked c)"

theorem sql_query_rows_witness:
  "\<exists>cursor s1 s2. sql_fields_impl sample_query_server \<lparr>cap_partitions_batch_size = True, cap_query_initiator_id = False\<rparr> registry_default
      (sample_core None) (row2 sql_i64 (sql_option sql_string)) sample_sql_query (tx_begin sample_session) = (Done (sample_sql_conf, cursor), s1) \<and>
    sql_fetch_all 4 sample_query_server sample_sql_conf cursor = (Done [(1, Some [97]), (- 2, None)], s2)"
proof -
  let ?caps = "\<lparr>cap_partitions_batch_size = True, cap_query_initiator_id = False\<rparr>"
  let ?s = "tx_begin sample_session"
  let ?call = "sql_fields_call (sample_core None) ?caps sample_sql_query (next_correlation_id ?s)"
  have s: "calls ?s = []" "next_correlation_id ?s = 1" by (simp_all add: tx_begin_def sample_session_def)
  have conf: "sample_sql_conf = \<lparr>qc_route = route_pinned [97], qc_cursor_id = 5, qc_field_names = [[105], [110]],
      qc_row = row2 sql_i64 (sql_option sql_string), qc_registry = registry_default\<rparr>"
    by (simp add: sample_sql_conf_def)
  have valid: "sql_fields_validate sample_sql_query = None"
    by (simp add: sql_fields_validate_def sample_sql_query_def sql_fields_query_new_def trim_def rstr_def is_whitespace_def
        of_char_def word_sless_alt)
  have args: "list_all (accepted (core_lc (sample_core None))) (sf_args sample_sql_query)"
    by (simp add: sample_sql_query_def sql_fields_query_new_def sample_core_def accepted_def write_value.simps)
  have answer: "sample_query_server (calls ?s) ?call = Inr (Success, server_sql_open id 5 [[105], [110]] [] (sample_sql_pages \<noteq> []), 0, [97])"
    by (simp add: s sample_query_server_def sample_sql_pages_def)
  have names: "list_all ok_string [[105], [110]]" "good_sql_rows id registry_default (length [[105], [110 :: nat]]) []"
    by (simp_all add: ok_string_def scalar_def str_len_def utf8_char_def good_sql_rows_def)
  have "sql_server sample_query_server sample_sql_conf id (calls ?s @ [?call]) (next_correlation_id ?s + 1) sample_sql_pages sample_conv"
    using sample_sql.serves sample_sql.good sample_sql.typed
    by (unfold_locales) (simp_all add: s sample_query_server_def sample_sql_server_def sql_page_log_def Let_def)
  from sql_query_rows [where s = ?s and net = sample_query_server and conv = sample_conv and first = "[]" and fuel = 4,
      OF valid _ args answer names(1) _ names(2) _ this [unfolded conf]]
  show ?thesis
    by (auto simp: sample_core_def sample_sql_pages_def sample_conv_def conf)
qed

text \<open>Scan, SQL and index queries. On a usable cache each is sent as one request with the cache info, to the address of the
  transaction, or else to a node that holds the partition asked for, or else by default; when the server
  answers, the query leaves a cursor with the rows of the answer that is pinned to the node that answered. On a
  closed or lost transaction a query fails and nothing is sent; nor is an index query sent to a server without
  index queries, or one with a positive limit to a server without limits.\<close>
theorem entry_queries:
  fixes self :: "('k, 'v) cache_core"
  assumes "\<And>call. net (calls s) call = Inr (Success, body, 0, addr)"
    and "cursor_open_read (core_rk self) (core_rv self) body = Ok opened rest"
    and "run (sql_query_write (core_lc self) (cache_info_of self True) sq) = Inr sql_bs"
    and "run (index_query_write (core_lc self) caps (cache_info_of self True) iq) = Inr index_bs"
  shows "let limited = (\<not> cap_index_query_limit caps \<and> (case iq_limit iq of Some v \<Rightarrow> 0 <s v | None \<Rightarrow> False));
      scan_bs = scan_query_write (cache_info_of self True) q
    in if core_tx self = None \<or> tx_state s = TxActive
       then (let s' = after_call s OpQueryScan scan_bs (query_route affp self (sc_partition q))
             in scan_query_impl net affp self q s = (Done (opened_cursor self OpQueryScanCursorGetPage False opened addr s'), s')) \<and>
         (let s' = after_call s OpQuerySql sql_bs (query_route affp self None)
          in sql_query_impl net self sq s = (Done (opened_cursor self OpQuerySqlCursorGetPage True opened addr s'), s')) \<and>
         (if cap_index_query caps \<and> \<not> limited
          then let s' = after_call s OpQueryIndex index_bs (query_route affp self (iq_partition iq))
            in index_query_impl net affp caps self iq s = (Done (opened_cursor self OpQueryIndexCursorGetPage False opened addr s'), s')
          else \<exists>e. index_query_impl net affp caps self iq s = (Failed e, s))
       else (\<exists>e. scan_query_impl net affp self q s = (Failed e, s)) \<and> (\<exists>e. sql_query_impl net self sq s = (Failed e, s)) \<and>
         (\<exists>e. index_query_impl net affp caps self iq s = (Failed e, s))"
proof (cases "usable self s")
  case False
  have "\<exists>e. scan_query_impl net affp self q s = (Failed e, s)" "\<exists>e. sql_query_impl net self sq s = (Failed e, s)"
    "\<exists>e. index_query_impl net affp caps self iq s = (Failed e, s)"
    unfolding scan_query_impl_def sql_query_impl_def index_query_impl_def by (rule not_usable_fails [OF False])+
  then show ?thesis unfolding usable_def [symmetric] Let_def using False by simp
next
  case True
  note opened_by = open_entry_cursor_result [where net = net and s = s, OF _ _ assms(1,2)]
  have scan: "scan_query_impl net affp self q s =
      (let s' = after_call s OpQueryScan (scan_query_write (cache_info_of self True) q) (query_route affp self (sc_partition q))
       in (Done (opened_cursor self OpQueryScanCursorGetPage False opened addr s'), s'))"
    using routes_usable [where part = "sc_partition q" and affp = affp, OF True] opened_by [OF sized_scan_query run_wr]
    by (auto simp: scan_query_impl_def ensured [OF True] abind_Done Let_def)
  have sql: "sql_query_impl net self sq s = (let s' = after_call s OpQuerySql sql_bs (query_route affp self None)
       in (Done (opened_cursor self OpQuerySqlCursorGetPage True opened addr s'), s'))"
    using routes_usable [where part = None and affp = affp, OF True] opened_by [OF sized_sql_query assms(3)]
    by (auto simp: sql_query_impl_def ensured [OF True] abind_Done Let_def)
  have index: "index_query_impl net affp caps self iq s =
      (let s' = after_call s OpQueryIndex index_bs (query_route affp self (iq_partition iq))
       in (Done (opened_cursor self OpQueryIndexCursorGetPage False opened addr s'), s'))"
    if "cap_index_query caps" "\<not> (\<not> cap_index_query_limit caps \<and> (case iq_limit iq of Some v \<Rightarrow> 0 <s v | None \<Rightarrow> False))"
    using routes_usable [where part = "iq_partition iq" and affp = affp, OF True] opened_by [OF sized_index_query assms(4)] that
    by (auto simp: index_query_impl_def ensured [OF True] abind_Done Let_def)
  have guard: "\<exists>e. index_query_impl net affp caps self iq s = (Failed e, s)"
    if "\<not> cap_index_query caps \<or> \<not> cap_index_query_limit caps \<and> (case iq_limit iq of Some v \<Rightarrow> 0 <s v | None \<Rightarrow> False)"
    using that by (auto simp: index_query_impl_def ensured [OF True])
  show ?thesis
    unfolding usable_def [symmetric] Let_def using True scan [unfolded Let_def] sql [unfolded Let_def] index [unfolded Let_def] guard
    by (auto simp del: not_all)
qed

definition sample_index_query :: index_query where
  "sample_index_query = iq_with_criterion (index_query_new (rstr ''T'')) (criterion_eq (rstr ''f'') (IvInt 3))"

theorem entry_queries_witness:
  "\<exists>cursor. scan_query_impl (\<lambda>_ _. Inr (Success, write_i64 5 @ write_i32 0 @ write_bool False, 0, [97])) (\<lambda>_ _ _. Some [110]) (sample_core None)
      (scan_query_new\<lparr>sc_partition := Some 3\<rparr>) (tx_begin sample_session) =
    (Done cursor, after_call (tx_begin sample_session) OpQueryScan
      (scan_query_write (cache_info_of (sample_core None) True) (scan_query_new\<lparr>sc_partition := Some 3\<rparr>)) (route_preferred_node [110]))"
proof -
  let ?body = "write_i64 5 @ write_i32 0 @ write_bool False"
  let ?core = "sample_core None" and ?caps = "\<lparr>cap_index_query = True, cap_index_query_limit = True\<rparr>"
  have body: "cursor_open_read (core_rk ?core) (core_rv ?core) ?body = Ok \<lparr>open_cursor_id = 5, open_rows = [], open_has_more = False\<rparr> []"
    using bool.dec_enc_any [of False "[]"]
    by (simp add: cursor_open_read_def rbind_def i32_range_def with_capacity_def)
  obtain sql_bs where sql: "run (sql_query_write (core_lc ?core) (cache_info_of ?core True) (sql_query_new [116] [115])) = Inr sql_bs"
    by (simp add: sql_query_write_def sql_query_new_def steady_intros write_value.simps)
  have "accepted lc (IvInt 3)" for lc by (simp add: accepted_def write_value.simps)
  then obtain index_bs where index: "run (index_query_write (core_lc ?core) ?caps (cache_info_of ?core True) sample_index_query) = Inr index_bs"
    by (simp add: index_query_write_def sample_index_query_def iq_with_criterion_def index_query_new_def criterion_eq_def
        write_bound_def steady_intros wseq_def run_accepted)
  have "core_tx ?core = None" by (simp add: sample_core_def)
  with entry_queries [where net = "\<lambda>_ _. Inr (Success, ?body, 0, [97])" and s = "tx_begin sample_session" and
      affp = "\<lambda>_ _ _. Some [110]" and q = "scan_query_new\<lparr>sc_partition := Some 3\<rparr>", OF refl body sql index]
  show ?thesis by (simp add: Let_def query_route_def)
qed

text \<open>A cursor that is never closed. When the rows of the first page do not convert to the row type, the query fails with
  that error; the cursor the server opened, of which it said that there are more pages, is not closed: the
  query has been the only request, and nothing is left that could be dropped.\<close>
theorem sql_cursor_leak:
  assumes "sql_fields_validate query = None" and "core_tx self = None \<or> tx_state s = TxActive"
    and "list_all (accepted (core_lc self)) (sf_args query)"
    and "net (calls s) (sql_fields_call self caps query (next_correlation_id s)) =
      Inr (Success, server_sql_open lc cid names first True, 0, addr)"
    and "list_all ok_string names" and "length names < 2 ^ 31" and "good_sql_rows lc reg (length names) first"
    and "convert_rows f (map (map sql_of) first) = Inl e"
  shows "\<exists>s'. sql_fields_impl net caps reg self f query s = (Failed (CDecode e), s') \<and>
    calls s' = calls s @ [sql_fields_call self caps query (next_correlation_id s)] \<and>
    fst (sql_fields_call self caps query (next_correlation_id s)) \<noteq> OpResourceClose"
  using sql_fields_opened [where net = net and s = s and f = f and reg = reg, OF assms(1) _ assms(3,4) sql_open_read_back [OF assms(5-7)]] assms(2,8)
  by (simp add: usable_def sql_cursor_new_def Let_def sql_fields_call_def)

theorem sql_cursor_leak_witness:
  "\<exists>s'. sql_fields_impl (\<lambda>_ _. Inr (Success, server_sql_open id 5 [[105]] [[IvNull]] True, 0, [97]))
      \<lparr>cap_partitions_batch_size = True, cap_query_initiator_id = False\<rparr> registry_default
      (sample_core None) (row_single sql_i64) (sql_fields_query_new (rstr ''q'')) (tx_begin sample_session) =
    (Failed (CDecode (sql_type_error ''i64'')), s')"
proof -
  let ?net = "\<lambda>_ _. Inr (Success, server_sql_open id 5 [[105]] [[IvNull]] True, 0, [97])" and ?core = "sample_core None"
  let ?query = "sql_fields_query_new (rstr ''q'')"
  have valid: "sql_fields_validate ?query = None"
    by (simp add: sql_fields_validate_def sql_fields_query_new_def trim_def rstr_def is_whitespace_def of_char_def word_sless_alt)
  have tx: "core_tx ?core = None \<or> tx_state (tx_begin sample_session) = TxActive"
    and args: "list_all (accepted (core_lc ?core)) (sf_args ?query)"
    by (simp_all add: sample_core_def sql_fields_query_new_def)
  have names: "list_all ok_string [[105]]" "length [[105 :: nat]] < 2 ^ 31" "good_sql_rows id registry_default (length [[105 :: nat]]) [[IvNull]]"
    by (simp_all add: ok_string_def scalar_def str_len_def utf8_char_def good_sql_rows_def enc_simple)
  have "convert_rows (row_single sql_i64) (map (map sql_of) [[IvNull]]) = Inl (sql_type_error ''i64'')" by (simp add: row_single_def)
  from sql_cursor_leak [where net = ?net and s = "tx_begin sample_session" and cid = 5 and addr = "[97]" and
      caps = "\<lparr>cap_partitions_batch_size = True, cap_query_initiator_id = False\<rparr>", OF valid tx args refl names this]
  show ?thesis by blast
qed

end
