(* ===== verification/Continuous.thy ===== *)
theory Continuous
  imports CacheQueries
begin

text \<open>
  Continuous queries, \<open>ignite-rs/src/query/continuous.rs\<close>: the events of a notification, the cursor that hands them
  out, and the named listeners of a cache with the tasks that serve them (\<open>cache.rs\<close>). A listener of
  notifications is a queue of frames that may still grow (\<open>Channel\<close> has the dispatch of frames to listeners).
\<close>

section \<open>Events\<close>

datatype cache_entry_event_type = EventCreated | EventUpdated | EventRemoved | EventExpired

record ('k, 'v) cache_entry_event =
  ev_type :: cache_entry_event_type
  ev_key :: 'k
  ev_old_value :: "'v option"
  ev_value :: "'v option"

definition read_event :: "'k option reader \<Rightarrow> 'v option reader \<Rightarrow> ('k, 'v) cache_entry_event reader" where
  "read_event rk rv = rbind rk (\<lambda>k. case k of
      None \<Rightarrow> fail (Ignite ''continuous query event key was null'')
    | Some key \<Rightarrow> rbind rv (\<lambda>old_value. rbind rv (\<lambda>val. rbind read_u8 (\<lambda>t.
        let event = (\<lambda>et. ret \<lparr>ev_type = et, ev_key = key, ev_old_value = old_value, ev_value = val\<rparr>)
        in if t = 0 then event EventCreated else if t = 1 then event EventUpdated
           else if t = 2 then event EventRemoved else if t = 3 then event EventExpired
           else fail (IgniteFmt ''unknown continuous query event type {}'' [uint t])))))"

definition decode_notification_batch ::
    "'k option reader \<Rightarrow> 'v option reader \<Rightarrow> bytes \<Rightarrow> ('k, 'v) cache_entry_event list outcome" where
  "decode_notification_batch rk rv payload = rbind read_i32 (\<lambda>count.
     if count <s 0 then fail (Ignite ''negative continuous query event count'')
     else repeat_read (i32_range count) (read_event rk rv)) payload"

section \<open>The cursor\<close>

text \<open>The receiver of a channel of frames: what is in the channel, and whether a sender is left. A read of an empty
  channel waits while there is one.\<close>

datatype 'a polled = Waits | Ready 'a

record receiver =
  rx_queue :: "(conn_error + bytes) list"
  rx_live :: bool

definition recv :: "receiver \<Rightarrow> (conn_error + bytes) option polled \<times> receiver" where
  "recv rx = (case rx_queue rx of
      x # xs \<Rightarrow> (Ready (Some x), rx\<lparr>rx_queue := xs\<rparr>)
    | [] \<Rightarrow> (if rx_live rx then Waits else Ready None, rx))"

record ('k, 'v) continuous_cursor =
  cu_address :: rstring
  cu_resource_id :: i64
  cu_receiver :: receiver
  cu_pending :: "('k, 'v) cache_entry_event list"
  cu_closed :: bool
  cu_read_key :: "'k option reader"
  cu_read_value :: "'v option reader"

definition next_batch ::
    "('k, 'v) continuous_cursor \<Rightarrow> ('k, 'v) cache_entry_event list option result polled \<times> ('k, 'v) continuous_cursor" where
  "next_batch self =
    (if cu_pending self \<noteq> [] then (Ready (Done (Some (cu_pending self))), self\<lparr>cu_pending := []\<rparr>)
     else case recv (cu_receiver self) of
       (Waits, rx) \<Rightarrow> (Waits, self\<lparr>cu_receiver := rx\<rparr>)
     | (Ready None, rx) \<Rightarrow> (Ready (Done None), self\<lparr>cu_receiver := rx\<rparr>)
     | (Ready (Some (Inl e)), rx) \<Rightarrow> (Ready (Failed e), self\<lparr>cu_receiver := rx\<rparr>)
     | (Ready (Some (Inr payload)), rx) \<Rightarrow>
         (Ready (case decoded (decode_notification_batch (cu_read_key self) (cu_read_value self) payload) of
             Done events \<Rightarrow> Done (Some events) | Failed e \<Rightarrow> Failed e | Panicked \<Rightarrow> Panicked | Unfinished \<Rightarrow> Unfinished),
          self\<lparr>cu_receiver := rx\<rparr>))"

definition next_event ::
    "('k, 'v) continuous_cursor \<Rightarrow> ('k, 'v) cache_entry_event option result polled \<times> ('k, 'v) continuous_cursor" where
  "next_event self = (case cu_pending self of
      event # rest \<Rightarrow> (Ready (Done (Some event)), self\<lparr>cu_pending := rest\<rparr>)
    | [] \<Rightarrow> (case next_batch self of
        (Waits, s) \<Rightarrow> (Waits, s)
      | (Ready (Failed e), s) \<Rightarrow> (Ready (Failed e), s)
      | (Ready Panicked, s) \<Rightarrow> (Ready Panicked, s)
      | (Ready Unfinished, s) \<Rightarrow> (Ready Unfinished, s)
      | (Ready (Done None), s) \<Rightarrow> (Ready (Done None), s)
      | (Ready (Done (Some events)), s) \<Rightarrow> (case events of
            [] \<Rightarrow> (Ready (Done None), s\<lparr>cu_pending := []\<rparr>)
          | event # rest \<Rightarrow> (Ready (Done (Some event)), s\<lparr>cu_pending := rest\<rparr>))))"

text \<open>Closing and dropping: the listener of notifications is removed from the channel, and the resource is closed with
  a request on the default route.\<close>

definition continuous_key :: "('k, 'v) continuous_cursor \<Rightarrow> notification_key" where
  "continuous_key self = (op_code_i16 OpQueryContinuousEvent, cu_resource_id self)"

definition send_continuous_close :: "transport \<Rightarrow> ('k, 'v) continuous_cursor \<Rightarrow> (session, unit) act" where
  "send_continuous_close net self = send net OpResourceClose (wr (write_i64 (cu_resource_id self))) (sret 8)"

definition remove_listener ::
    "('k, 'v) continuous_cursor \<Rightarrow> (rstring \<Rightarrow> notifications option) \<Rightarrow> rstring \<Rightarrow> notifications option" where
  "remove_listener self chans = chans(cu_address self := map_option (remove_notification_listener (continuous_key self)) (chans (cu_address self)))"

definition continuous_close ::
    "transport \<Rightarrow> ('k, 'v) continuous_cursor \<Rightarrow> (rstring \<Rightarrow> notifications option) \<Rightarrow> session \<Rightarrow>
     unit result \<times> ('k, 'v) continuous_cursor \<times> (rstring \<Rightarrow> notifications option) \<times> session" where
  "continuous_close net self chans s =
    (if cu_closed self then (Done (), self, chans, s)
     else case send_continuous_close net self s of
       (Done _, s') \<Rightarrow> (Done (), self\<lparr>cu_closed := True\<rparr>, remove_listener self chans, s')
     | (r, s') \<Rightarrow> (r, self, remove_listener self chans, s'))"

definition drop_continuous ::
    "transport \<Rightarrow> ('k, 'v) continuous_cursor \<Rightarrow> (rstring \<Rightarrow> notifications option) \<Rightarrow> session \<Rightarrow>
     (rstring \<Rightarrow> notifications option) \<times> session" where
  "drop_continuous net self chans s =
    (if cu_closed self then (chans, s) else (remove_listener self chans, snd (send_continuous_close net self s)))"

text \<open>The query. The listener is registered on the channel to the address that answered, if there is one
  (\<open>chans\<close>); the frames that came before are in its queue.\<close>

definition continuous_query_impl ::
    "transport \<Rightarrow> ('k, 'v) cache_core \<Rightarrow> continuous_query \<Rightarrow> (rstring \<Rightarrow> notifications option) \<Rightarrow> tx_session \<Rightarrow>
     ('k, 'v) continuous_cursor result \<times> (rstring \<Rightarrow> notifications option) \<times> tx_session" where
  "continuous_query_impl net self query chans s =
    (case abind (ensure_tx_cache_ops_allowed self) (\<lambda>_. abind (tx_route self) (\<lambda>route.
        map_tx_err self (send_and_read_with_meta net (rbind read_i64 ret) OpQueryContinuous
          (wr (continuous_query_write (cache_info_of self False) query)) (sret continuous_query_size) (or_default route)))) s of
      (Done (resource_id, address), s') \<Rightarrow>
        (case chans address of
           None \<Rightarrow> (Failed (client_error ''Notification channel is not available''), chans, s')
         | Some n \<Rightarrow>
             (let key = (op_code_i16 OpQueryContinuousEvent, resource_id); n' = register_notification_listener key n
              in (Done \<lparr>cu_address = address, cu_resource_id = resource_id,
                    cu_receiver = \<lparr>rx_queue = (case n_listeners n' key of
                        Some (_, frames) \<Rightarrow> map (\<lambda>f. Inr (drop (payload_offset f) (frame_body f))) frames | None \<Rightarrow> []), rx_live = True\<rparr>,
                    cu_pending = [], cu_closed = False, cu_read_key = core_rk self, cu_read_value = core_rv self\<rparr>,
                  chans(address \<mapsto> n'), s')))
    | (Failed e, s') \<Rightarrow> (Failed e, chans, s')
    | (Panicked, s') \<Rightarrow> (Panicked, chans, s')
    | (Unfinished, s') \<Rightarrow> (Unfinished, chans, s'))"

section \<open>Named listeners\<close>

text \<open>The registry (\<open>CacheListenerRegistry\<close>) maps a cache and a name to the sender of a close channel; here to the
  number of the task that holds its receiver. A task is opening (its query is under way), serving, ending
  (it has left its loop) or over. The messages in its close channel are counted; the sender is dropped with
  the entry of the registry.\<close>

datatype task_phase = TkOpening | TkServing | TkEnding | TkOver

record listener_task =
  lt_key :: "i32 \<times> rstring"
  lt_phase :: task_phase
  lt_closes :: nat
  lt_sender :: bool
  lt_handle_closed :: bool

record listener_world =
  lw_registry :: "(i32 \<times> rstring) \<Rightarrow> nat option"
  lw_tasks :: "nat \<Rightarrow> listener_task"
  lw_next :: nat

definition listener_world_new :: listener_world where
  "listener_world_new = \<lparr>lw_registry = (\<lambda>_. None),
     lw_tasks = (\<lambda>_. \<lparr>lt_key = (0, []), lt_phase = TkOver, lt_closes = 0, lt_sender = False, lt_handle_closed = True\<rparr>), lw_next = 0\<rparr>"

definition set_task :: "nat \<Rightarrow> listener_task \<Rightarrow> listener_world \<Rightarrow> listener_world" where
  "set_task t x w = w\<lparr>lw_tasks := (lw_tasks w)(t := x)\<rparr>"

text \<open>\<open>register\<close> fails when the name is taken. \<open>deregister\<close> takes the sender out of the registry; it is dropped,
  after a message if the caller sends one.\<close>

definition listener_register :: "i32 \<times> rstring \<Rightarrow> listener_world \<Rightarrow> listener_world option" where
  "listener_register key w = (if lw_registry w key \<noteq> None then None
     else Some (w\<lparr>lw_registry := (lw_registry w)(key \<mapsto> lw_next w),
       lw_tasks := (lw_tasks w)(lw_next w :=
         \<lparr>lt_key = key, lt_phase = TkOpening, lt_closes = 0, lt_sender = True, lt_handle_closed = False\<rparr>),
       lw_next := Suc (lw_next w)\<rparr>))"

definition listener_deregister :: "bool \<Rightarrow> i32 \<times> rstring \<Rightarrow> listener_world \<Rightarrow> listener_world" where
  "listener_deregister notify key w = (case lw_registry w key of
      None \<Rightarrow> w
    | Some t \<Rightarrow> set_task t ((lw_tasks w t)\<lparr>lt_closes := lt_closes (lw_tasks w t) + (if notify then 1 else 0), lt_sender := False\<rparr>)
        (w\<lparr>lw_registry := (lw_registry w)(key := None)\<rparr>))"

datatype listener_action =
    LsRegister "i32 \<times> rstring"        \<comment> \<open>the first half of \<open>register_cache_entry_listener\<close>\<close>
  | LsOpened nat                      \<comment> \<open>its query has succeeded, the task runs\<close>
  | LsOpenFailed nat                  \<comment> \<open>its query has failed\<close>
  | LsCloseHandle nat                 \<comment> \<open>\<open>close\<close> or drop of a \<open>RegisteredCacheEntryListener\<close>\<close>
  | LsDeregister "i32 \<times> rstring"      \<comment> \<open>\<open>deregister_cache_entry_listener\<close>\<close>
  | LsStop nat                        \<comment> \<open>the task leaves its loop\<close>
  | LsFinish nat                      \<comment> \<open>the task ends\<close>

text \<open>A serving task leaves its loop on a message, when the sender of its close channel is gone, or when the query ends
  or fails.\<close>

fun listener_step :: "listener_action \<Rightarrow> listener_world \<Rightarrow> listener_world" where
  "listener_step (LsRegister key) w = (case listener_register key w of Some w' \<Rightarrow> w' | None \<Rightarrow> w)"
| "listener_step (LsOpened t) w =
    (if lt_phase (lw_tasks w t) = TkOpening then set_task t ((lw_tasks w t)\<lparr>lt_phase := TkServing\<rparr>) w else w)"
| "listener_step (LsOpenFailed t) w =
    (if lt_phase (lw_tasks w t) = TkOpening
     then listener_deregister False (lt_key (lw_tasks w t)) (set_task t ((lw_tasks w t)\<lparr>lt_phase := TkOver, lt_handle_closed := True\<rparr>) w)
     else w)"
| "listener_step (LsCloseHandle t) w =
    (if lt_phase (lw_tasks w t) = TkOpening \<or> lt_handle_closed (lw_tasks w t) then w
     else listener_deregister True (lt_key (lw_tasks w t)) (set_task t ((lw_tasks w t)\<lparr>lt_handle_closed := True\<rparr>) w))"
| "listener_step (LsDeregister key) w = listener_deregister True key w"
| "listener_step (LsStop t) w =
    (if lt_phase (lw_tasks w t) = TkServing then set_task t ((lw_tasks w t)\<lparr>lt_phase := TkEnding\<rparr>) w else w)"
| "listener_step (LsFinish t) w =
    (if lt_phase (lw_tasks w t) = TkEnding
     then listener_deregister False (lt_key (lw_tasks w t)) (set_task t ((lw_tasks w t)\<lparr>lt_phase := TkOver\<rparr>) w)
     else w)"

definition listener_run :: "listener_action list \<Rightarrow> listener_world" where
  "listener_run steps = fold listener_step steps listener_world_new"

section \<open>Events come out in order\<close>

text \<open>The results of \<open>n\<close> calls of \<open>next_event\<close>.\<close>

fun next_events ::
    "nat \<Rightarrow> ('k, 'v) continuous_cursor \<Rightarrow> ('k, 'v) cache_entry_event option result polled list \<times> ('k, 'v) continuous_cursor" where
  "next_events 0 self = ([], self)"
| "next_events (Suc n) self = (case next_event self of (r, s) \<Rightarrow> (case next_events n s of (rs, s') \<Rightarrow> (r # rs, s')))"

lemma next_events_append:
  "next_events (m + n) self = (case next_events m self of (rs, s) \<Rightarrow> (case next_events n s of (rs', s') \<Rightarrow> (rs @ rs', s')))"
  by (induction m arbitrary: self) (auto split: prod.splits)

lemma next_events_pending:
  "next_events (length es) (self\<lparr>cu_pending := es\<rparr>) = (map (\<lambda>e. Ready (Done (Some e))) es, self\<lparr>cu_pending := []\<rparr>)"
  by (induction es) (simp_all add: next_event_def)

lemma next_events_batch:
  assumes "cu_pending self = []" and "rx_queue (cu_receiver self) = Inr payload # queue"
    and "decode_notification_batch (cu_read_key self) (cu_read_value self) payload = Ok (e # es) rest"
  shows "next_events (length (e # es)) self = (map (\<lambda>e. Ready (Done (Some e))) (e # es),
    self\<lparr>cu_receiver := (cu_receiver self)\<lparr>rx_queue := queue\<rparr>\<rparr>)"
proof -
  let ?s = "self\<lparr>cu_receiver := (cu_receiver self)\<lparr>rx_queue := queue\<rparr>, cu_pending := es\<rparr>"
  have "next_event self = (Ready (Done (Some e)), ?s)"
    using assms by (simp add: next_event_def next_batch_def recv_def decoded_def)
  moreover have "next_events (length es) ?s = (map (\<lambda>e. Ready (Done (Some e))) es, ?s\<lparr>cu_pending := []\<rparr>)"
    using next_events_pending [of es ?s] by simp
  moreover have "?s\<lparr>cu_pending := []\<rparr> = self\<lparr>cu_receiver := (cu_receiver self)\<lparr>rx_queue := queue\<rparr>\<rparr>"
    using assms(1) by (cases self) simp
  ultimately show ?thesis by simp
qed

lemma next_events_all:
  assumes "cu_pending self = []" and "rx_queue (cu_receiver self) = map (Inr \<circ> fst) batches @ queue"
    and "list_all (\<lambda>(payload, events). events \<noteq> [] \<and>
      (\<exists>rest. decode_notification_batch (cu_read_key self) (cu_read_value self) payload = Ok events rest)) batches"
  shows "next_events (length (concat (map snd batches))) self = (map (\<lambda>e. Ready (Done (Some e))) (concat (map snd batches)),
    self\<lparr>cu_receiver := (cu_receiver self)\<lparr>rx_queue := queue\<rparr>\<rparr>)"
  using assms
proof (induction batches arbitrary: self)
  case Nil
  then show ?case by (cases self) (auto intro: receiver.equality)
next
  case (Cons b batches)
  obtain payload e es where b: "b = (payload, e # es)" using Cons.prems(3) by (cases b; cases "snd b") auto
  let ?s = "self\<lparr>cu_receiver := (cu_receiver self)\<lparr>rx_queue := map (Inr \<circ> fst) batches @ queue\<rparr>\<rparr>"
  have "next_events (length (e # es)) self = (map (\<lambda>e. Ready (Done (Some e))) (e # es), ?s)"
    using Cons.prems by (intro next_events_batch [where payload = payload and rest = "SOME r. decode_notification_batch (cu_read_key self) (cu_read_value self) payload = Ok (e # es) r"])
      (auto simp: b intro: someI)
  moreover have "next_events (length (concat (map snd batches))) ?s =
      (map (\<lambda>e. Ready (Done (Some e))) (concat (map snd batches)), self\<lparr>cu_receiver := (cu_receiver self)\<lparr>rx_queue := queue\<rparr>\<rparr>)"
    using Cons.IH [of ?s] Cons.prems by simp
  ultimately show ?case using next_events_append [of "length (e # es)" "length (concat (map snd batches))" self] by (simp add: b)
qed

section \<open>The registry and its tasks\<close>

text \<open>An entry of the registry is a task of that name, with a close channel that is open and empty; the task of an open
  close channel has the entry.\<close>

definition listeners_ok :: "listener_world \<Rightarrow> bool" where
  "listeners_ok w \<longleftrightarrow> (\<forall>t \<ge> lw_next w. \<not> lt_sender (lw_tasks w t) \<and> lt_closes (lw_tasks w t) = 0) \<and>
    (\<forall>t. lt_closes (lw_tasks w t) \<le> 1) \<and>
    (\<forall>key t. lw_registry w key = Some t \<longleftrightarrow> lt_sender (lw_tasks w t) \<and> lt_key (lw_tasks w t) = key) \<and>
    (\<forall>t. lt_sender (lw_tasks w t) \<longrightarrow> lt_closes (lw_tasks w t) = 0)"

lemma listeners_okD:
  assumes "listeners_ok w"
  shows "lw_registry w key = Some t \<Longrightarrow> lt_sender (lw_tasks w t) \<and> lt_key (lw_tasks w t) = key"
    "lt_sender (lw_tasks w t) \<Longrightarrow> lw_registry w (lt_key (lw_tasks w t)) = Some t"
    "lt_sender (lw_tasks w t) \<Longrightarrow> lt_closes (lw_tasks w t) = 0" "lt_closes (lw_tasks w t) \<le> 1"
    "lt_sender (lw_tasks w t) \<Longrightarrow> t < lw_next w" "lw_next w \<le> t \<Longrightarrow> lt_closes (lw_tasks w t) = 0"
  using assms unfolding listeners_ok_def by (blast, blast, blast, blast, meson not_le, blast)

lemma listeners_okI:
  assumes "\<And>key t. lw_registry w key = Some t \<Longrightarrow> lt_sender (lw_tasks w t) \<and> lt_key (lw_tasks w t) = key"
    and "\<And>t. lt_sender (lw_tasks w t) \<Longrightarrow> lw_registry w (lt_key (lw_tasks w t)) = Some t \<and> lt_closes (lw_tasks w t) = 0 \<and> t < lw_next w"
    and "\<And>t. lt_closes (lw_tasks w t) \<le> 1 \<and> (lw_next w \<le> t \<longrightarrow> lt_closes (lw_tasks w t) = 0)"
  shows "listeners_ok w"
  using assms unfolding listeners_ok_def by (metis not_le)

lemma listeners_ok_new: "listeners_ok listener_world_new"
  by (simp add: listeners_ok_def listener_world_new_def)

lemma listeners_ok_set:
  "listeners_ok w \<Longrightarrow> lt_key x = lt_key (lw_tasks w t) \<Longrightarrow> lt_closes x = lt_closes (lw_tasks w t) \<Longrightarrow> lt_sender x = lt_sender (lw_tasks w t) \<Longrightarrow>
    listeners_ok (set_task t x w)"
  by (simp add: listeners_ok_def set_task_def)

lemma listeners_ok_deregister: "listeners_ok w \<Longrightarrow> listeners_ok (listener_deregister notify key w)"
proof (cases "lw_registry w key")
  case (Some t)
  assume "listeners_ok w"
  note ok = listeners_okD [OF this]
  have t: "lt_sender (lw_tasks w t)" "lt_key (lw_tasks w t) = key" using ok(1) [OF Some] by simp_all
  let ?w = "listener_deregister notify key w"
  obtain x where w: "lw_registry ?w = (lw_registry w)(key := None)" "lw_tasks ?w = (lw_tasks w)(t := x)" "lw_next ?w = lw_next w"
    and x: "\<not> lt_sender x" "lt_closes x \<le> 1"
    using Some ok(3) [OF t(1)] by (simp add: listener_deregister_def set_task_def)
  show ?thesis
  proof (rule listeners_okI)
    fix k u
    assume "lw_registry ?w k = Some u"
    then have u: "lw_registry w k = Some u" "k \<noteq> key" by (auto simp: w split: if_splits)
    then have "u \<noteq> t" using ok(1) [OF u(1)] t(2) by auto
    then show "lt_sender (lw_tasks ?w u) \<and> lt_key (lw_tasks ?w u) = k" using ok(1) [OF u(1)] by (simp add: w)
  next
    fix u
    assume "lt_sender (lw_tasks ?w u)"
    then have u: "u \<noteq> t" "lt_sender (lw_tasks w u)" using x by (auto simp: w split: if_splits)
    have "lt_key (lw_tasks w u) \<noteq> key" using ok(2) [OF u(2)] Some u(1) by auto
    then show "lw_registry ?w (lt_key (lw_tasks ?w u)) = Some u \<and> lt_closes (lw_tasks ?w u) = 0 \<and> u < lw_next ?w"
      using ok(2,3,5) [OF u(2)] u(1) by (simp add: w)
  next
    fix u
    show "lt_closes (lw_tasks ?w u) \<le> 1 \<and> (lw_next ?w \<le> u \<longrightarrow> lt_closes (lw_tasks ?w u) = 0)"
      using ok(4) [of u] ok(6) [of u] x(2) ok(5) [OF t(1)] by (simp add: w)
  qed
qed (simp add: listener_deregister_def)

lemma listeners_ok_register: "listeners_ok w \<Longrightarrow> listener_register key w = Some w' \<Longrightarrow> listeners_ok w'"
proof -
  assume "listeners_ok w" and reg: "listener_register key w = Some w'"
  note ok = listeners_okD [OF this(1)]
  have "\<not> lt_sender (lw_tasks w (lw_next w))" using ok(5) by blast
  then show ?thesis
    using reg ok
    by (intro listeners_okI) (fastforce simp: listener_register_def less_Suc_eq split: if_splits)+
qed

lemma listeners_ok_step: "listeners_ok w \<Longrightarrow> listeners_ok (listener_step a w)"
  by (cases a) (auto simp: listeners_ok_deregister listeners_ok_set split: option.split dest: listeners_ok_register)

lemma listeners_ok_run: "listeners_ok (listener_run steps)"
proof -
  have "listeners_ok w \<Longrightarrow> listeners_ok (fold listener_step steps w)" for w
    by (induction steps arbitrary: w) (simp_all add: listeners_ok_step)
  then show ?thesis by (simp add: listener_run_def listeners_ok_new)
qed

section \<open>Properties\<close>


definition sample_continuous :: "(i32, rstring) continuous_cursor" where
  "sample_continuous = \<lparr>cu_address = [97], cu_resource_id = 3,
     cu_receiver = \<lparr>rx_queue = [Inr (write_i32 1 @ write_type TcInt write_i32 7 @ write_null @ string_write [98] @ write_u8 0)], rx_live = True\<rparr>,
     cu_pending = [], cu_closed = False, cu_read_key = readable_read (read_type read_i32), cu_read_value = readable_read (read_type read_string)\<rparr>"


text \<open>C40: Named listeners. Whatever registrations, closes, deregistrations and ends of tasks there are and in
  whatever order, a name stands for at most one task, the one whose close channel is open, and no task is
  told to close twice. But closing goes by the name and not by the task: a handle whose task is over closes
  a newer listener of that name; and a task that ends after its name was taken again takes the close channel
  away from the newer listener, which then ends without having been closed.\<close>
theorem listener_names:
  assumes "key = lt_key (lw_tasks (listener_run steps) t)" and "lt_sender (lw_tasks (listener_run steps) t)"
  shows "lw_registry (listener_run steps) key = Some t \<and> lt_closes (lw_tasks (listener_run steps) t) = 0 \<and>
    lt_closes (lw_tasks (listener_run steps) u) \<le> 1 \<and>
    (lt_sender (lw_tasks (listener_run steps) u) \<and> lt_key (lw_tasks (listener_run steps) u) = key \<longrightarrow> u = t) \<and>
    (let w = listener_run [LsRegister key, LsOpened 0, LsStop 0, LsFinish 0, LsRegister key, LsOpened 1, LsCloseHandle 0]
     in lt_phase (lw_tasks w 1) = TkServing \<and> \<not> lt_handle_closed (lw_tasks w 1) \<and> lt_closes (lw_tasks w 1) = 1) \<and>
    (let w = listener_run [LsRegister key, LsOpened 0, LsCloseHandle 0, LsRegister key, LsOpened 1, LsStop 0, LsFinish 0]
     in lt_phase (lw_tasks w 1) = TkServing \<and> \<not> lt_handle_closed (lw_tasks w 1) \<and> lt_closes (lw_tasks w 1) = 0 \<and>
        \<not> lt_sender (lw_tasks w 1) \<and> lw_registry w key = None)"
proof -
  have "lw_registry (listener_run steps) key = Some t" "lt_closes (lw_tasks (listener_run steps) t) = 0"
    "lt_closes (lw_tasks (listener_run steps) u) \<le> 1"
    "lt_sender (lw_tasks (listener_run steps) u) \<and> lt_key (lw_tasks (listener_run steps) u) = key \<longrightarrow> lw_registry (listener_run steps) key = Some u"
    using listeners_ok_run [of steps] assms unfolding listeners_ok_def by blast+
  moreover have "let w = listener_run [LsRegister key, LsOpened 0, LsStop 0, LsFinish 0, LsRegister key, LsOpened 1, LsCloseHandle 0]
     in lt_phase (lw_tasks w 1) = TkServing \<and> \<not> lt_handle_closed (lw_tasks w 1) \<and> lt_closes (lw_tasks w 1) = 1"
    by (simp add: listener_run_def listener_register_def listener_deregister_def set_task_def listener_world_new_def Let_def)
  moreover have "let w = listener_run [LsRegister key, LsOpened 0, LsCloseHandle 0, LsRegister key, LsOpened 1, LsStop 0, LsFinish 0]
     in lt_phase (lw_tasks w 1) = TkServing \<and> \<not> lt_handle_closed (lw_tasks w 1) \<and> lt_closes (lw_tasks w 1) = 0 \<and>
        \<not> lt_sender (lw_tasks w 1) \<and> lw_registry w key = None"
    by (simp add: listener_run_def listener_register_def listener_deregister_def set_task_def listener_world_new_def Let_def)
  ultimately show ?thesis by auto
qed

theorem listener_names_witness:
  "lw_registry (listener_run [LsRegister (1, [97])]) (1, [97]) = Some 0"
proof -
  have "(1, [97]) = lt_key (lw_tasks (listener_run [LsRegister (1, [97])]) 0)" "lt_sender (lw_tasks (listener_run [LsRegister (1, [97])]) 0)"
    by (simp_all add: listener_run_def listener_register_def listener_world_new_def)
  from listener_names [OF this] show ?thesis by blast
qed

end
