(* ===== verification/ServerModel.thy ===== *)
theory ServerModel
  imports CacheOps
begin

text \<open>
  What the client may rely on from a server that keeps a state: a service says how a request (operation and
  payload) is answered in a state and which state it leaves. The locale \<open>stateful_server\<close> is the contract between a
  transport and a service; the facts proved in it carry the data structures and the cache. The contract is met by
  the transport that replays its log on any given service.
\<close>

section \<open>Services\<close>

type_synonym 'st service = "op_code \<Rightarrow> bytes \<Rightarrow> 'st \<Rightarrow> (flag \<times> bytes \<times> 'st) option"

text \<open>The payload of a frame stands behind the length, the operation code and the correlation id.\<close>

definition frame_payload :: "bytes \<Rightarrow> bytes" where
  "frame_payload frame = drop 14 frame"

definition request_call :: "op_code \<Rightarrow> i64 \<Rightarrow> bytes \<Rightarrow> request_route \<Rightarrow> call" where
  "request_call op corr payload route = (op, request_frame (op_code_i16 op) corr payload, route)"

text \<open>The node an affinity lookup names, or the default route.\<close>

definition route_of :: "node_lookup \<Rightarrow> i32 \<Rightarrow> bytes \<Rightarrow> request_route" where
  "route_of aff cache_id key = (case aff cache_id key True of Some node \<Rightarrow> route_preferred_node node | None \<Rightarrow> route_default)"

definition replay_state :: "'st service \<Rightarrow> 'st \<Rightarrow> call list \<Rightarrow> 'st" where
  "replay_state svc init log = fold (\<lambda>(op, frame, _) st. case svc op (frame_payload frame) st of
      Some (_, _, st') \<Rightarrow> st' | None \<Rightarrow> st) log init"

definition replay_net :: "'st service \<Rightarrow> 'st \<Rightarrow> transport" where
  "replay_net svc init log c = (case c of (op, frame, route) \<Rightarrow>
    (case svc op (frame_payload frame) (replay_state svc init log) of
       Some (flag, reply, _) \<Rightarrow> Inr (flag, reply, 0, [])
     | None \<Rightarrow> Inr (Failure 1 [], [], 0, [])))"

lemma frame_payload_request [simp]: "frame_payload (request_frame op corr payload) = payload"
  by (simp add: frame_payload_def request_frame_def)

lemma i64_back: "read_i64 (write_i64 v) = Ok v []" and bool_back: "read_bool (write_bool b) = Ok b []"
  using i64.dec_enc_any [of v "[]"] bool.dec_enc_any [of b "[]"] by simp_all

section \<open>The contract\<close>

locale stateful_server =
  fixes net :: transport and svc :: "'st service" and state_of :: "call list \<Rightarrow> 'st"
  assumes answers: "svc op payload (state_of log) = Some (flag, reply, st') \<Longrightarrow>
      \<exists>addr. net log (request_call op corr payload route) = Inr (flag, reply, 0, addr)"
    and moves: "svc op payload (state_of log) = Some (flag, reply, st') \<Longrightarrow>
      state_of (log @ [request_call op corr payload route]) = st'"
begin

lemma perform_served:
  assumes "sized payload psize" and "run payload = Inr bs" and "svc op bs (state_of (calls s)) = Some (flag, reply, st')"
  obtains addr s' where "perform net op payload psize route s = (Done (flag, reply, 0, addr), s')"
    and "state_of (calls s') = st'" and "calls s' = calls s @ [request_call op (next_correlation_id s) bs route]"
proof -
  obtain addr where "net (calls s) (request_call op (next_correlation_id s) bs route) = Inr (flag, reply, 0, addr)"
    using answers [OF assms(3)] by blast
  with perform_sized [OF assms(1,2), of net op route s] moves [OF assms(3), of "next_correlation_id s" route] that
  show ?thesis by (simp add: request_call_def Let_def)
qed

lemma read_served:
  assumes "sized payload psize" and "run payload = Inr bs" and "svc op bs (state_of (calls s)) = Some (Success, reply, st')"
    and "rd reply = Ok x rest"
  shows "\<exists>s'. send_and_read_with_route net rd op payload psize route s = (Done x, s') \<and> state_of (calls s') = st'"
  by (rule perform_served [where route = route, OF assms(1-3)]) (use assms(4) in \<open>auto simp: send_and_read_with_route_def decoded_def\<close>)

lemma read_refused:
  assumes "sized payload psize" and "run payload = Inr bs"
    and "svc op bs (state_of (calls s)) = Some (Failure status msg, reply, st')"
  shows "\<exists>s'. send_and_read_with_route net rd op payload psize route s =
      (Failed (CError (from_server_status status msg)), s') \<and> state_of (calls s') = st'"
  by (rule perform_served [where route = route, OF assms]) (auto simp: send_and_read_with_route_def)

lemma send_served:
  assumes "sized payload psize" and "run payload = Inr bs" and "svc op bs (state_of (calls s)) = Some (Success, reply, st')"
  shows "\<exists>s'. send_with_route net op payload psize route s = (Done (), s') \<and> state_of (calls s') = st'"
  by (rule perform_served [where route = route, OF assms]) (auto simp: send_with_route_def)

lemma send_refused:
  assumes "sized payload psize" and "run payload = Inr bs"
    and "svc op bs (state_of (calls s)) = Some (Failure status msg, reply, st')"
  shows "\<exists>s'. send_with_route net op payload psize route s =
      (Failed (CError (from_server_status status msg)), s') \<and> state_of (calls s') = st'"
  by (rule perform_served [where route = route, OF assms]) (auto simp: send_with_route_def)

end

text \<open>Replaying the log on a service meets the contract, whatever the service and its first state.\<close>

interpretation replay: stateful_server "replay_net svc init" svc "replay_state svc init" for svc init
  by unfold_locales (auto simp: replay_net_def replay_state_def request_call_def)

section \<open>Sequences of operations\<close>

text \<open>A client that makes its operations one after the other, and goes on after an error.\<close>

fun trace :: "('o \<Rightarrow> 's \<Rightarrow> 'r \<times> 's) \<Rightarrow> 'o list \<Rightarrow> 's \<Rightarrow> 'r list \<times> 's" where
  "trace f [] s = ([], s)"
| "trace f (x # xs) s = (case f x s of (r, s') \<Rightarrow> case trace f xs s' of (rs, s'') \<Rightarrow> (r # rs, s''))"

lemma trace_refines:
  assumes "\<And>x s. good x \<Longrightarrow> fst (f x s) = fst (g x (view s)) \<and> view (snd (f x s)) = snd (g x (view s))" and "list_all good xs"
  shows "fst (trace f xs s) = fst (trace g xs (view s)) \<and> view (snd (trace f xs s)) = snd (trace g xs (view s))"
  using assms(2)
proof (induction xs arbitrary: s)
  case (Cons x xs)
  then show ?case using assms(1) [of x s] Cons.IH [of "snd (f x s)"] by (auto split: prod.split simp: prod_eq_iff)
qed simp

end
