(* ===== verification/AtomicLong.thy ===== *)
theory AtomicLong
  imports ServerModel
begin

text \<open>
  Distributed counters: \<open>AtomicConfiguration\<close> and \<open>AtomicLong\<close> of \<open>ignite-rs/src/data_structures.rs\<close>, with their
  requests and responses. The plain \<open>i64\<close> arithmetic of \<open>get_and_add\<close> depends on the build: with overflow
  checks it panics, without it wraps; the flag \<open>checks\<close> says which. The operations are shown to be those of a
  sequential counter, for any server that keeps one.
\<close>

section \<open>Configuration and handle\<close>

record atomic_configuration =
  ac_reserve_size :: i32
  ac_cache_mode :: cache_mode
  ac_backups :: i32
  ac_group_name :: "rstring option"

definition atomic_configuration_default :: atomic_configuration where
  "atomic_configuration_default =
    \<lparr>ac_reserve_size = 1, ac_cache_mode = CmPartitioned, ac_backups = 1, ac_group_name = None\<rparr>"

definition DEFAULT_DS_GROUP_NAME :: rstring where
  "DEFAULT_DS_GROUP_NAME = rstr ''default-ds-group''"

definition ATOMICS_CACHE_PREFIX :: rstring where
  "ATOMICS_CACHE_PREFIX = rstr ''ignite-sys-atomic-cache@''"

record atomic_long =
  al_name :: rstring
  al_group_name :: "rstring option"
  al_cache_id :: i32

definition atomic_long_new :: "rstring \<Rightarrow> rstring option \<Rightarrow> atomic_long" where
  "atomic_long_new name group_name =
    (let group = (case group_name of Some g \<Rightarrow> g | None \<Rightarrow> DEFAULT_DS_GROUP_NAME)
     in \<lparr>al_name = name, al_group_name = group_name,
         al_cache_id = string_to_java_hashcode (ATOMICS_CACHE_PREFIX @ group)\<rparr>)"

section \<open>Requests and responses\<close>

definition atomic_long_create_write :: "rstring \<Rightarrow> i64 \<Rightarrow> atomic_configuration option \<Rightarrow> bytes" where
  "atomic_long_create_write name initial_value config =
    string_write name @ write_i64 initial_value @ write_bool (config \<noteq> None) @
    (case config of
       Some c \<Rightarrow> write_i32 (ac_reserve_size c) @ write_u8 (ucast (cache_mode_i32 (ac_cache_mode c))) @ write_i32 (ac_backups c) @
         option_write string_write (ac_group_name c)
     | None \<Rightarrow> [])"

definition atomic_long_create_size :: "rstring \<Rightarrow> atomic_configuration option \<Rightarrow> nat" where
  "atomic_long_create_size name config = string_size name + 8 + 1 +
    (case config of Some c \<Rightarrow> 4 + 1 + 4 + option_size string_size (ac_group_name c) | None \<Rightarrow> 0)"

definition atomic_identity_write :: "rstring \<Rightarrow> rstring option \<Rightarrow> bytes" where
  "atomic_identity_write name group_name = string_write name @ option_write string_write group_name"

definition atomic_identity_size :: "rstring \<Rightarrow> rstring option \<Rightarrow> nat" where
  "atomic_identity_size name group_name = string_size name + option_size string_size group_name"

definition atomic_long_write :: "rstring \<Rightarrow> rstring option \<Rightarrow> i64 \<Rightarrow> bytes" where
  "atomic_long_write name group_name v = atomic_identity_write name group_name @ write_i64 v"

definition atomic_long_size :: "rstring \<Rightarrow> rstring option \<Rightarrow> nat" where
  "atomic_long_size name group_name = atomic_identity_size name group_name + 8"

definition atomic_cas_write :: "rstring \<Rightarrow> rstring option \<Rightarrow> i64 \<Rightarrow> i64 \<Rightarrow> bytes" where
  "atomic_cas_write name group_name expected v = atomic_identity_write name group_name @ write_i64 expected @ write_i64 v"

definition atomic_cas_size :: "rstring \<Rightarrow> rstring option \<Rightarrow> nat" where
  "atomic_cas_size name group_name = atomic_identity_size name group_name + 16"

definition bool_response_read :: "bool reader" where "bool_response_read = read_bool"
definition long_response_read :: "i64 reader" where "long_response_read = read_i64"
definition int_response_read :: "i32 reader" where "int_response_read = read_i32"

section \<open>Operations\<close>

text \<open>\<open>route\<close>: the name is the key whose primary node is asked.\<close>

definition atomic_route :: "node_lookup \<Rightarrow> atomic_long \<Rightarrow> ('s, request_route) act" where
  "atomic_route aff self =
    abind (marshal_key (\<lambda>n. wr (string_write n)) (\<lambda>n. sret (string_size n)) (al_name self)) (\<lambda>key.
      aret (case aff (al_cache_id self) key True of Some node \<Rightarrow> route_preferred_node node | None \<Rightarrow> route_default))"

definition atomic_call ::
    "transport \<Rightarrow> node_lookup \<Rightarrow> atomic_long \<Rightarrow> 'a reader \<Rightarrow> op_code \<Rightarrow> bytes \<Rightarrow> nat \<Rightarrow> ('z session_scheme, 'a) act" where
  "atomic_call net aff self rd op payload psize =
    abind (atomic_route aff self) (\<lambda>route. send_and_read_with_route net rd op (wr payload) (sret psize) route)"

definition atomic_get :: "transport \<Rightarrow> node_lookup \<Rightarrow> atomic_long \<Rightarrow> ('z session_scheme, i64) act" where
  "atomic_get net aff self = atomic_call net aff self long_response_read OpAtomicLongValueGet
    (atomic_identity_write (al_name self) (al_group_name self)) (atomic_identity_size (al_name self) (al_group_name self))"

definition add_and_get :: "transport \<Rightarrow> node_lookup \<Rightarrow> atomic_long \<Rightarrow> i64 \<Rightarrow> ('z session_scheme, i64) act" where
  "add_and_get net aff self delta = atomic_call net aff self long_response_read OpAtomicLongValueAddAndGet
    (atomic_long_write (al_name self) (al_group_name self) delta) (atomic_long_size (al_name self) (al_group_name self))"

text \<open>A plain \<open>+\<close> or \<open>-\<close> on \<open>i64\<close>, given the exact result.\<close>

definition i64_result :: "bool \<Rightarrow> int \<Rightarrow> ('s, i64) act" where
  "i64_result checks v s = (if checks \<and> \<not> (- (2 ^ 63) \<le> v \<and> v < 2 ^ 63) then (Panicked, s) else (Done (word_of_int v), s))"

definition get_and_add :: "bool \<Rightarrow> transport \<Rightarrow> node_lookup \<Rightarrow> atomic_long \<Rightarrow> i64 \<Rightarrow> ('z session_scheme, i64) act" where
  "get_and_add checks net aff self delta =
    abind (add_and_get net aff self delta) (\<lambda>r. i64_result checks (sint r - sint delta))"

definition increment_and_get :: "transport \<Rightarrow> node_lookup \<Rightarrow> atomic_long \<Rightarrow> ('z session_scheme, i64) act" where
  "increment_and_get net aff self = add_and_get net aff self 1"

definition get_and_increment :: "bool \<Rightarrow> transport \<Rightarrow> node_lookup \<Rightarrow> atomic_long \<Rightarrow> ('z session_scheme, i64) act" where
  "get_and_increment checks net aff self = abind (increment_and_get net aff self) (\<lambda>r. i64_result checks (sint r - 1))"

definition decrement_and_get :: "transport \<Rightarrow> node_lookup \<Rightarrow> atomic_long \<Rightarrow> ('z session_scheme, i64) act" where
  "decrement_and_get net aff self = add_and_get net aff self (-1)"

definition get_and_decrement :: "bool \<Rightarrow> transport \<Rightarrow> node_lookup \<Rightarrow> atomic_long \<Rightarrow> ('z session_scheme, i64) act" where
  "get_and_decrement checks net aff self = abind (decrement_and_get net aff self) (\<lambda>r. i64_result checks (sint r + 1))"

definition get_and_set :: "transport \<Rightarrow> node_lookup \<Rightarrow> atomic_long \<Rightarrow> i64 \<Rightarrow> ('z session_scheme, i64) act" where
  "get_and_set net aff self v = atomic_call net aff self long_response_read OpAtomicLongValueGetAndSet
    (atomic_long_write (al_name self) (al_group_name self) v) (atomic_long_size (al_name self) (al_group_name self))"

definition compare_and_set :: "transport \<Rightarrow> node_lookup \<Rightarrow> atomic_long \<Rightarrow> i64 \<Rightarrow> i64 \<Rightarrow> ('z session_scheme, bool) act" where
  "compare_and_set net aff self expected v = atomic_call net aff self bool_response_read OpAtomicLongValueCompareAndSet
    (atomic_cas_write (al_name self) (al_group_name self) expected v) (atomic_cas_size (al_name self) (al_group_name self))"

definition compare_and_set_and_get ::
    "transport \<Rightarrow> node_lookup \<Rightarrow> atomic_long \<Rightarrow> i64 \<Rightarrow> i64 \<Rightarrow> ('z session_scheme, i64) act" where
  "compare_and_set_and_get net aff self expected v =
    abind (atomic_call net aff self long_response_read OpAtomicLongValueCompareAndSetAndGet
        (atomic_cas_write (al_name self) (al_group_name self) expected v) (atomic_cas_size (al_name self) (al_group_name self)))
      (\<lambda>seen. if seen = expected then aret v else aret seen)"

definition atomic_removed :: "transport \<Rightarrow> node_lookup \<Rightarrow> atomic_long \<Rightarrow> ('z session_scheme, bool) act" where
  "atomic_removed net aff self = abind (atomic_call net aff self bool_response_read OpAtomicLongExists
      (atomic_identity_write (al_name self) (al_group_name self)) (atomic_identity_size (al_name self) (al_group_name self)))
    (\<lambda>exists. aret (\<not> exists))"

definition atomic_close :: "transport \<Rightarrow> node_lookup \<Rightarrow> atomic_long \<Rightarrow> ('z session_scheme, unit) act" where
  "atomic_close net aff self = abind (atomic_route aff self) (\<lambda>route.
    send_with_route net OpAtomicLongRemove (wr (atomic_identity_write (al_name self) (al_group_name self)))
      (sret (atomic_identity_size (al_name self) (al_group_name self))) route)"

definition atomic_long_get_or_create ::
    "transport \<Rightarrow> node_lookup \<Rightarrow> rstring \<Rightarrow> atomic_configuration option \<Rightarrow> i64 \<Rightarrow> bool \<Rightarrow>
     ('z session_scheme, atomic_long option) act" where
  "atomic_long_get_or_create net aff name config initial_value do_create =
    abind (if do_create then send net OpAtomicLongCreate (wr (atomic_long_create_write name initial_value config))
               (sret (atomic_long_create_size name config)) else aret ()) (\<lambda>_.
    let handle = atomic_long_new name (Option.bind config ac_group_name)
    in if do_create then aret (Some handle)
       else abind (atomic_removed net aff handle) (\<lambda>removed. aret (if removed then None else Some handle)))"

section \<open>A sequential counter\<close>

text \<open>The operations on a handle, and what a counter that exists or not does on them. Only \<open>get_and_add\<close> and
  its kin may panic, in a build with overflow checks: the counter has moved by then.\<close>

datatype atomic_op =
    AGet | AIncrementAndGet | AGetAndIncrement | ADecrementAndGet | AGetAndDecrement
  | AAddAndGet i64 | AGetAndAdd i64 | AGetAndSet i64 | ACompareAndSet i64 i64 | ACompareAndSetAndGet i64 i64
  | ARemoved | AClose

datatype atomic_value = VLong i64 | VBool bool | VUnit

definition amap :: "('a \<Rightarrow> 'b) \<Rightarrow> ('s, 'a) act \<Rightarrow> ('s, 'b) act" where
  "amap f m = abind m (\<lambda>x. aret (f x))"

fun atomic_perform ::
    "bool \<Rightarrow> transport \<Rightarrow> node_lookup \<Rightarrow> atomic_long \<Rightarrow> atomic_op \<Rightarrow> ('z session_scheme, atomic_value) act" where
  "atomic_perform checks net aff self AGet = amap VLong (atomic_get net aff self)"
| "atomic_perform checks net aff self AIncrementAndGet = amap VLong (increment_and_get net aff self)"
| "atomic_perform checks net aff self AGetAndIncrement = amap VLong (get_and_increment checks net aff self)"
| "atomic_perform checks net aff self ADecrementAndGet = amap VLong (decrement_and_get net aff self)"
| "atomic_perform checks net aff self AGetAndDecrement = amap VLong (get_and_decrement checks net aff self)"
| "atomic_perform checks net aff self (AAddAndGet d) = amap VLong (add_and_get net aff self d)"
| "atomic_perform checks net aff self (AGetAndAdd d) = amap VLong (get_and_add checks net aff self d)"
| "atomic_perform checks net aff self (AGetAndSet v) = amap VLong (get_and_set net aff self v)"
| "atomic_perform checks net aff self (ACompareAndSet e v) = amap VBool (compare_and_set net aff self e v)"
| "atomic_perform checks net aff self (ACompareAndSetAndGet e v) = amap VLong (compare_and_set_and_get net aff self e v)"
| "atomic_perform checks net aff self ARemoved = amap VBool (atomic_removed net aff self)"
| "atomic_perform checks net aff self AClose = amap (\<lambda>_. VUnit) (atomic_close net aff self)"

definition counter_old :: "bool \<Rightarrow> i64 \<Rightarrow> i64 \<Rightarrow> atomic_value result" where
  "counter_old checks v d =
    (if checks \<and> \<not> (- (2 ^ 63) \<le> sint v + sint d \<and> sint v + sint d < 2 ^ 63) then Panicked else Done (VLong v))"

fun counter_step :: "bool \<Rightarrow> conn_error \<Rightarrow> atomic_op \<Rightarrow> i64 option \<Rightarrow> atomic_value result \<times> i64 option" where
  "counter_step checks err AClose c = (Done VUnit, None)"
| "counter_step checks err ARemoved c = (Done (VBool (c = None)), c)"
| "counter_step checks err op None = (Failed err, None)"
| "counter_step checks err AGet (Some v) = (Done (VLong v), Some v)"
| "counter_step checks err AIncrementAndGet (Some v) = (Done (VLong (v + 1)), Some (v + 1))"
| "counter_step checks err AGetAndIncrement (Some v) = (counter_old checks v 1, Some (v + 1))"
| "counter_step checks err ADecrementAndGet (Some v) = (Done (VLong (v - 1)), Some (v - 1))"
| "counter_step checks err AGetAndDecrement (Some v) = (counter_old checks v (-1), Some (v - 1))"
| "counter_step checks err (AAddAndGet d) (Some v) = (Done (VLong (v + d)), Some (v + d))"
| "counter_step checks err (AGetAndAdd d) (Some v) = (counter_old checks v d, Some (v + d))"
| "counter_step checks err (AGetAndSet n) (Some v) = (Done (VLong v), Some n)"
| "counter_step checks err (ACompareAndSet e n) (Some v) = (Done (VBool (v = e)), Some (if v = e then n else v))"
| "counter_step checks err (ACompareAndSetAndGet e n) (Some v) =
    (let v' = (if v = e then n else v) in (Done (VLong v'), Some v'))"

section \<open>The service of the server\<close>

text \<open>What a server that keeps the counter does with a request that names it: a value request answers with the
  value after an addition, with the one before a swap, a comparison with its success or with the value it saw;
  a counter that does not exist is refused with the given status.\<close>

definition named_tail :: "bytes \<Rightarrow> bytes \<Rightarrow> bytes option" where
  "named_tail name payload = (if take (length name) payload = name then Some (drop (length name) payload) else None)"

definition two_longs :: "bytes \<Rightarrow> (i64 \<times> i64) option" where
  "two_longs bs = (case read_i64 bs of Ok a rest \<Rightarrow> (case read_i64 rest of Ok b _ \<Rightarrow> Some (a, b) | _ \<Rightarrow> None) | _ \<Rightarrow> None)"

definition one_long :: "bytes \<Rightarrow> i64 option" where
  "one_long bs = (case read_i64 bs of Ok a _ \<Rightarrow> Some a | _ \<Rightarrow> None)"

definition counter_service :: "i32 \<Rightarrow> rstring \<Rightarrow> atomic_long \<Rightarrow> i64 option service" where
  "counter_service status msg self op payload c =
    (if op = OpAtomicLongCreate then
       map_option (\<lambda>v. (Success, [], Some (case c of Some old \<Rightarrow> old | None \<Rightarrow> v)))
         (Option.bind (named_tail (string_write (al_name self)) payload) one_long)
     else Option.bind (named_tail (atomic_identity_write (al_name self) (al_group_name self)) payload) (\<lambda>tail.
       if op = OpAtomicLongRemove then Some (Success, [], None)
       else if op = OpAtomicLongExists then Some (Success, write_bool (c \<noteq> None), c)
       else if op \<notin> {OpAtomicLongValueGet, OpAtomicLongValueAddAndGet, OpAtomicLongValueGetAndSet,
                     OpAtomicLongValueCompareAndSet, OpAtomicLongValueCompareAndSetAndGet} then None
       else (case c of
         None \<Rightarrow> Some (Failure status msg, [], None)
       | Some v \<Rightarrow>
           if op = OpAtomicLongValueGet then Some (Success, write_i64 v, Some v)
           else if op = OpAtomicLongValueAddAndGet then map_option (\<lambda>d. (Success, write_i64 (v + d), Some (v + d))) (one_long tail)
           else if op = OpAtomicLongValueGetAndSet then map_option (\<lambda>n. (Success, write_i64 v, Some n)) (one_long tail)
           else if op = OpAtomicLongValueCompareAndSet
           then map_option (\<lambda>(e, n). (Success, write_bool (v = e), Some (if v = e then n else v))) (two_longs tail)
           else map_option (\<lambda>(e, n). (Success, write_i64 v, Some (if v = e then n else v))) (two_longs tail))))"


lemma named_tail_append [simp]: "named_tail name (name @ rest) = Some rest"
  by (simp add: named_tail_def)

lemma named_tail_self [simp]: "named_tail name name = Some []"
  by (simp add: named_tail_def)

lemma longs_read [simp]: "one_long (write_i64 a @ rest) = Some a" "one_long (write_i64 a) = Some a"
    "two_longs (write_i64 a @ write_i64 b) = Some (a, b)"
  using i64.dec_enc_any [of a "[]"] i64.dec_enc_any [of b "[]"] by (simp_all add: one_long_def two_longs_def)

lemma sized_atomic:
  "length (atomic_identity_write name g) = atomic_identity_size name g"
  "length (atomic_long_write name g v) = atomic_long_size name g"
  "length (atomic_cas_write name g e v) = atomic_cas_size name g"
  "length (atomic_long_create_write name v config) = atomic_long_create_size name config"
  by (simp_all add: atomic_identity_write_def atomic_identity_size_def atomic_long_write_def atomic_long_size_def
      atomic_cas_write_def atomic_cas_size_def atomic_long_create_write_def atomic_long_create_size_def
      w_string.option_length w_string.size_write split: option.split)

lemma atomic_route_result: "atomic_route aff self s = (Done (route_of aff (al_cache_id self) (string_write (al_name self))), s)"
  by (simp add: atomic_route_def marshal_key_def route_of_def abind_def run_def wr_def wret_def sret_def)

lemma old_value: "i64_result checks (sint (v + d) - sint d) s =
    (if checks \<and> \<not> (- (2 ^ 63) \<le> sint v + sint d \<and> sint v + sint d < 2 ^ 63) then Panicked else Done v, s)"
proof -
  let ?k = "sint v + sint d"
  have wrap: "sint (v + d) = (?k + 2 ^ 63) mod 2 ^ 64 - 2 ^ 63"
    by (simp add: sint_word_ariths signed_take_bit_eq_take_bit_shift take_bit_eq_mod)
  have bounds: "- (2 ^ 63) \<le> sint v" "sint v < 2 ^ 63" "- (2 ^ 63) \<le> sint d" "sint d < 2 ^ 63"
    using sint_ge [of v] sint_lt [of v] sint_ge [of d] sint_lt [of d] by simp_all
  have "(- (2 ^ 63) \<le> sint (v + d) - sint d \<and> sint (v + d) - sint d < 2 ^ 63) = (- (2 ^ 63) \<le> ?k \<and> ?k < 2 ^ 63)"
  proof -
    consider "?k < - (2 ^ 63)" | "- (2 ^ 63) \<le> ?k" "?k < 2 ^ 63" | "2 ^ 63 \<le> ?k" by linarith
    then show ?thesis
    proof cases
      case 1
      have "(?k + 2 ^ 63) mod 2 ^ 64 = (?k + 2 ^ 63 + 2 ^ 64) mod 2 ^ 64" by (rule mod_add_self2 [symmetric])
      also have "\<dots> = ?k + 2 ^ 63 + 2 ^ 64" by (rule mod_pos_pos_trivial) (use 1 bounds in simp_all)
      finally show ?thesis using 1 bounds unfolding wrap by simp
    next
      case 2
      have "(?k + 2 ^ 63) mod 2 ^ 64 = ?k + 2 ^ 63" by (rule mod_pos_pos_trivial) (use 2 in simp_all)
      then show ?thesis using 2 bounds unfolding wrap by simp
    next
      case 3
      have "(?k + 2 ^ 63) mod 2 ^ 64 = (?k + 2 ^ 63 - 2 ^ 64) mod 2 ^ 64" by (rule minus_mod_self2 [symmetric])
      also have "\<dots> = ?k + 2 ^ 63 - 2 ^ 64" by (rule mod_pos_pos_trivial) (use 3 bounds in simp_all)
      finally show ?thesis using 3 bounds unfolding wrap by simp
    qed
  qed
  moreover have "word_of_int (sint (v + d) - sint d) = v" by simp
  ultimately show ?thesis by (simp add: i64_result_def)
qed

lemma steps_by_one:
  "get_and_increment checks net aff self = get_and_add checks net aff self 1"
  "get_and_decrement checks net aff self = get_and_add checks net aff self (-1)"
  by (simp_all add: get_and_increment_def increment_and_get_def get_and_decrement_def decrement_and_get_def get_and_add_def)

section \<open>Refinement\<close>

locale counter_server = stateful_server net "counter_service status msg self" state_of
  for net :: transport and status :: i32 and msg :: rstring and self :: atomic_long and state_of :: "call list \<Rightarrow> i64 option"
begin

definition refused :: conn_error where
  "refused = CError (from_server_status status msg)"

lemma call_result:
  assumes "length payload = psize" and "counter_service status msg self op payload (state_of (calls s)) = Some (flag, reply, c)"
  shows "\<exists>s'. atomic_call net aff self rd op payload psize s =
      (case flag of Success \<Rightarrow> decoded (rd reply) | Failure st m \<Rightarrow> Failed (CError (from_server_status st m)), s') \<and>
    state_of (calls s') = c"
proof -
  let ?route = "route_of aff (al_cache_id self) (string_write (al_name self))"
  obtain addr s' where "perform net op (wr payload) (sret psize) ?route s = (Done (flag, reply, 0, addr), s')" "state_of (calls s') = c"
    using perform_served [where route = ?route and s = s and op = op, OF sized_wr [OF assms(1)] run_wr assms(2)] by metis
  then show ?thesis
    by (auto simp: atomic_call_def abind_def atomic_route_result send_and_read_with_route_def split: flag.split)
qed

lemma add_step:
  "\<exists>s'. add_and_get net aff self d s = (case state_of (calls s) of Some v \<Rightarrow> Done (v + d) | None \<Rightarrow> Failed refused, s') \<and>
    state_of (calls s') = map_option (\<lambda>v. v + d) (state_of (calls s))"
  using call_result [where op = OpAtomicLongValueAddAndGet and s = s and rd = read_i64 and aff = aff, OF sized_atomic(2) [of "al_name self" "al_group_name self" d]]
  by (cases "state_of (calls s)")
    (auto simp: add_and_get_def long_response_read_def counter_service_def atomic_long_write_def refused_def decoded_def i64_back)

lemma old_step:
  "\<exists>s'. amap VLong (get_and_add checks net aff self d) s =
      (case state_of (calls s) of Some v \<Rightarrow> counter_old checks v d | None \<Rightarrow> Failed refused, s') \<and>
    state_of (calls s') = map_option (\<lambda>v. v + d) (state_of (calls s))"
  using add_step [of aff d s]
  by (cases "state_of (calls s)") (auto simp: amap_def get_and_add_def old_value abind_def counter_old_def split: result.split)

lemma get_step:
  "\<exists>s'. atomic_get net aff self s = (case state_of (calls s) of Some v \<Rightarrow> Done v | None \<Rightarrow> Failed refused, s') \<and>
    state_of (calls s') = state_of (calls s)"
  using call_result [where op = OpAtomicLongValueGet and s = s and rd = read_i64 and aff = aff, OF sized_atomic(1) [of "al_name self" "al_group_name self"]]
  by (cases "state_of (calls s)")
    (auto simp: atomic_get_def long_response_read_def counter_service_def refused_def decoded_def i64_back)

lemma set_step:
  "\<exists>s'. get_and_set net aff self n s = (case state_of (calls s) of Some v \<Rightarrow> Done v | None \<Rightarrow> Failed refused, s') \<and>
    state_of (calls s') = map_option (\<lambda>_. n) (state_of (calls s))"
  using call_result [where op = OpAtomicLongValueGetAndSet and s = s and rd = read_i64 and aff = aff, OF sized_atomic(2) [of "al_name self" "al_group_name self" n]]
  by (cases "state_of (calls s)")
    (auto simp: get_and_set_def long_response_read_def counter_service_def atomic_long_write_def refused_def decoded_def i64_back)

lemma cas_step:
  "\<exists>s'. compare_and_set net aff self e n s = (case state_of (calls s) of Some v \<Rightarrow> Done (v = e) | None \<Rightarrow> Failed refused, s') \<and>
    state_of (calls s') = map_option (\<lambda>v. if v = e then n else v) (state_of (calls s))"
  using call_result [where op = OpAtomicLongValueCompareAndSet and s = s and rd = read_bool and aff = aff, OF sized_atomic(3) [of "al_name self" "al_group_name self" e n]]
  by (cases "state_of (calls s)")
    (auto simp: compare_and_set_def bool_response_read_def counter_service_def atomic_cas_write_def refused_def decoded_def bool_back)

lemma cas_get_step:
  "\<exists>s'. compare_and_set_and_get net aff self e n s =
      (case state_of (calls s) of Some v \<Rightarrow> Done (if v = e then n else v) | None \<Rightarrow> Failed refused, s') \<and>
    state_of (calls s') = map_option (\<lambda>v. if v = e then n else v) (state_of (calls s))"
  using call_result [where op = OpAtomicLongValueCompareAndSetAndGet and s = s and rd = read_i64 and aff = aff, OF sized_atomic(3) [of "al_name self" "al_group_name self" e n]]
  by (cases "state_of (calls s)")
    (auto simp: compare_and_set_and_get_def long_response_read_def counter_service_def atomic_cas_write_def refused_def decoded_def
      i64_back abind_def)

lemma removed_step:
  "\<exists>s'. atomic_removed net aff self s = (Done (state_of (calls s) = None), s') \<and> state_of (calls s') = state_of (calls s)"
  using call_result [where op = OpAtomicLongExists and s = s and rd = read_bool and aff = aff, OF sized_atomic(1) [of "al_name self" "al_group_name self"]]
  by (auto simp: atomic_removed_def bool_response_read_def counter_service_def decoded_def bool_back abind_def)

lemma close_step: "\<exists>s'. atomic_close net aff self s = (Done (), s') \<and> state_of (calls s') = None"
proof -
  have "counter_service status msg self OpAtomicLongRemove (atomic_identity_write (al_name self) (al_group_name self)) (state_of (calls s)) =
      Some (Success, [], None)" by (simp add: counter_service_def)
  from send_served [where s = s, OF sized_wr [OF sized_atomic(1)] run_wr this] show ?thesis
    by (simp add: atomic_close_def abind_def atomic_route_result)
qed

lemma step_refines:
  "\<exists>s'. atomic_perform checks net aff self op s = (fst (counter_step checks refused op (state_of (calls s))), s') \<and>
    state_of (calls s') = snd (counter_step checks refused op (state_of (calls s)))"
proof (cases op)
  case AGet
  then show ?thesis using get_step [of aff s] by (cases "state_of (calls s)") (auto simp: amap_def)
next
  case (AGetAndSet n)
  then show ?thesis using set_step [of aff n s] by (cases "state_of (calls s)") (auto simp: amap_def)
next
  case (ACompareAndSet e n)
  then show ?thesis using cas_step [of aff e n s] by (cases "state_of (calls s)") (auto simp: amap_def)
next
  case (ACompareAndSetAndGet e n)
  then show ?thesis using cas_get_step [of aff e n s] by (cases "state_of (calls s)") (auto simp: amap_def Let_def)
next
  case ARemoved
  then show ?thesis using removed_step [of aff s] by (auto simp: amap_def)
next
  case AClose
  then show ?thesis using close_step [of aff s] by (auto simp: amap_def)
next
  case (AAddAndGet d)
  then show ?thesis using add_step [of aff d s] by (cases "state_of (calls s)") (auto simp: amap_def)
next
  case AIncrementAndGet
  then show ?thesis using add_step [of aff 1 s] by (cases "state_of (calls s)") (auto simp: amap_def increment_and_get_def)
next
  case ADecrementAndGet
  then show ?thesis using add_step [of aff "-1" s] by (cases "state_of (calls s)") (auto simp: amap_def decrement_and_get_def)
next
  case (AGetAndAdd d)
  then show ?thesis using old_step [of checks aff d s] by (cases "state_of (calls s)") auto
next
  case AGetAndIncrement
  then show ?thesis using old_step [of checks aff 1 s] by (cases "state_of (calls s)") (auto simp: steps_by_one)
next
  case AGetAndDecrement
  then show ?thesis using old_step [of checks aff "-1" s] by (cases "state_of (calls s)") (auto simp: steps_by_one)
qed

lemma ops_refine:
  "fst (trace (atomic_perform checks net aff self) ops s) = fst (trace (counter_step checks refused) ops (state_of (calls s))) \<and>
   state_of (calls (snd (trace (atomic_perform checks net aff self) ops s))) =
     snd (trace (counter_step checks refused) ops (state_of (calls s)))"
proof -
  have "fst (atomic_perform checks net aff self op s) = fst (counter_step checks refused op (state_of (calls s))) \<and>
      state_of (calls (snd (atomic_perform checks net aff self op s))) = snd (counter_step checks refused op (state_of (calls s)))"
    for op s using step_refines [of checks aff op s] by auto
  from trace_refines [where f = "atomic_perform checks net aff self" and g = "counter_step checks refused" and good = "\<lambda>_. True"
      and view = "\<lambda>s. state_of (calls s)", OF this, of ops s]
  show ?thesis by (simp add: list_all_iff)
qed

lemma created:
  assumes "self = atomic_long_new name (Option.bind config ac_group_name)"
  shows "\<exists>s'. atomic_long_get_or_create net aff name config v do_create s =
      (Done (if do_create \<or> state_of (calls s) \<noteq> None then Some self else None), s') \<and>
    state_of (calls s') = (if do_create \<and> state_of (calls s) = None then Some v else state_of (calls s))"
proof (cases do_create)
  case True
  let ?c = "case state_of (calls s) of Some old \<Rightarrow> old | None \<Rightarrow> v"
  have "counter_service status msg self OpAtomicLongCreate (atomic_long_create_write name v config) (state_of (calls s)) =
      Some (Success, [], Some ?c)"
    by (simp add: counter_service_def atomic_long_create_write_def assms atomic_long_new_def Let_def)
  from send_served [where s = s and route = route_default, OF sized_wr [OF sized_atomic(4)] run_wr this] True assms show ?thesis
    by (auto simp: atomic_long_get_or_create_def send_def abind_def Let_def split: option.splits)
next
  case False
  then show ?thesis using removed_step [of aff s] assms
    by (auto simp: atomic_long_get_or_create_def abind_def Let_def)
qed

end

section \<open>Properties\<close>

text \<open>C18: A distributed counter is a counter. For a server that keeps the value of the counter as the service
  says, any sequence of operations on a handle returns, operation by operation, what a sequential 64-bit
  counter returns, and leaves the server with the value that counter has: the results that the client computes
  itself (the old value of \<open>get_and_add\<close>, the outcome of \<open>compare_and_set_and_get\<close>) are right. In a build
  with overflow checks, \<open>get_and_add\<close> and its kin panic exactly when the addition wraps, after the server
  has made it. \<open>get_or_create\<close> creates the counter unless it exists, or says that there is none.\<close>
theorem atomic_long_counter:
  assumes "stateful_server net (counter_service status msg self) state_of"
    and "self = atomic_long_new name (Option.bind config ac_group_name)"
  shows "let err = CError (from_server_status status msg);
      done_ops = trace (atomic_perform checks net aff self) ops s;
      spec = trace (counter_step checks err) ops (state_of (calls s));
      opened = atomic_long_get_or_create net aff name config v do_create s
    in fst done_ops = fst spec \<and> state_of (calls (snd done_ops)) = snd spec \<and>
      fst opened = Done (if do_create \<or> state_of (calls s) \<noteq> None then Some self else None) \<and>
      state_of (calls (snd opened)) = (if do_create \<and> state_of (calls s) = None then Some v else state_of (calls s))"
  using counter_server.ops_refine [OF counter_server.intro [OF assms(1)], of checks aff ops s]
    counter_server.created [OF counter_server.intro [OF assms(1)] assms(2), of aff v do_create s]
  by (auto simp: Let_def counter_server.refused_def [OF counter_server.intro [OF assms(1)]])

theorem atomic_long_counter_witness:
  "fst (trace (atomic_perform True
      (replay_net (counter_service 1011 [] (atomic_long_new (rstr ''seq'') None)) (Some (2 ^ 63 - 2))) (\<lambda>_ _ _. None)
      (atomic_long_new (rstr ''seq'') None))
    [AIncrementAndGet, ACompareAndSetAndGet 5 6, AGetAndIncrement, ARemoved, AClose, AGet]
    \<lparr>calls = [], next_correlation_id = 1\<rparr>) =
   [Done (VLong (2 ^ 63 - 1)), Done (VLong (2 ^ 63 - 1)), Panicked, Done (VBool False), Done VUnit,
    Failed (CError (from_server_status 1011 []))]"
  using atomic_long_counter [OF replay.stateful_server_axioms,
      where name = "rstr ''seq''" and config = None and checks = True and aff = "\<lambda>_ _ _. None" and v = 0 and do_create = True
        and ops = "[AIncrementAndGet, ACompareAndSetAndGet 5 6, AGetAndIncrement, ARemoved, AClose, AGet]"
        and s = "\<lparr>calls = [], next_correlation_id = 1\<rparr>" and self = "atomic_long_new (rstr ''seq'') None",
      of 1011 "[]" "Some (2 ^ 63 - 2)"]
  by (simp add: Let_def replay_state_def counter_old_def)

end
