(* ===== verification/IgniteSet.thy ===== *)
theory IgniteSet
  imports AtomicLong SqlCursor
begin

text \<open>
  Distributed sets: \<open>CollectionConfiguration\<close>, \<open>IgniteSet\<close> and \<open>SetCursor\<close> of
  \<open>ignite-rs/src/data_structures.rs\<close>, with their requests and responses. The operations are shown to be those of
  a mathematical set, for any server that keeps one; the cursor is another source of pages.
\<close>

section \<open>Configuration and handle\<close>

record collection_configuration =
  clc_atomicity_mode :: atomicity_mode
  clc_cache_mode :: cache_mode
  clc_backups :: i32
  clc_group_name :: "rstring option"
  clc_colocated :: bool

definition collection_configuration_default :: collection_configuration where
  "collection_configuration_default = \<lparr>clc_atomicity_mode = AmAtomic, clc_cache_mode = CmPartitioned, clc_backups = 0,
    clc_group_name = None, clc_colocated = False\<rparr>"

text \<open>The type \<open>T\<close> of the elements is given by its writer, its size and its reader.\<close>

record 'v element_type =
  el_write :: "'v \<Rightarrow> writer"
  el_size :: "'v \<Rightarrow> sizer"
  el_read :: "'v option reader"

record ignite_set =
  is_name :: rstring
  is_colocated :: bool
  is_cache_id :: i32
  is_page_size :: i32
  is_server_keep_binary :: bool

definition with_page_size :: "ignite_set \<Rightarrow> i32 \<Rightarrow> conn_error + ignite_set" where
  "with_page_size self page_size =
    (if page_size \<le>s 0 then Inl (client_error ''Page size must be greater than 0.'') else Inr (self\<lparr>is_page_size := page_size\<rparr>))"

definition with_server_keep_binary :: "ignite_set \<Rightarrow> bool \<Rightarrow> ignite_set" where
  "with_server_keep_binary self keep_binary = self\<lparr>is_server_keep_binary := keep_binary\<rparr>"

section \<open>Requests and responses\<close>

definition set_get_or_create_write :: "rstring \<Rightarrow> collection_configuration option \<Rightarrow> bytes" where
  "set_get_or_create_write name config = string_write name @ write_bool (config \<noteq> None) @
    (case config of
       Some c \<Rightarrow> write_u8 (ucast (atomicity_mode_i32 (clc_atomicity_mode c))) @ write_u8 (ucast (cache_mode_i32 (clc_cache_mode c))) @
         write_i32 (clc_backups c) @ option_write string_write (clc_group_name c) @ write_bool (clc_colocated c)
     | None \<Rightarrow> [])"

definition set_get_or_create_size :: "rstring \<Rightarrow> collection_configuration option \<Rightarrow> nat" where
  "set_get_or_create_size name config = string_size name + 1 +
    (case config of Some c \<Rightarrow> 1 + 1 + 4 + option_size string_size (clc_group_name c) + 1 | None \<Rightarrow> 0)"

record set_get_or_create_response =
  sr_exists :: bool
  sr_colocated :: bool
  sr_cache_id :: i32

definition set_get_or_create_read :: "set_get_or_create_response reader" where
  "set_get_or_create_read = rbind read_bool (\<lambda>exists.
     if \<not> exists then ret \<lparr>sr_exists = exists, sr_colocated = False, sr_cache_id = 0\<rparr>
     else rbind read_bool (\<lambda>colocated. rbind read_i32 (\<lambda>cache_id.
       ret \<lparr>sr_exists = exists, sr_colocated = colocated, sr_cache_id = cache_id\<rparr>)))"

definition set_identity_write :: "ignite_set \<Rightarrow> bytes" where
  "set_identity_write self = string_write (is_name self) @ write_i32 (is_cache_id self) @ write_bool (is_colocated self)"

definition set_identity_size :: "ignite_set \<Rightarrow> nat" where
  "set_identity_size self = string_size (is_name self) + 4 + 1"

definition set_single_key_write :: "'v element_type \<Rightarrow> ignite_set \<Rightarrow> 'v \<Rightarrow> writer" where
  "set_single_key_write ty self v =
    wthen (wr (set_identity_write self @ write_bool (is_server_keep_binary self))) (el_write ty v)"

definition set_single_key_size :: "'v element_type \<Rightarrow> ignite_set \<Rightarrow> 'v \<Rightarrow> sizer" where
  "set_single_key_size ty self v = sadd (sret (set_identity_size self + 1)) (el_size ty v)"

definition set_multi_key_write :: "'v element_type \<Rightarrow> ignite_set \<Rightarrow> 'v list \<Rightarrow> writer" where
  "set_multi_key_write ty self vs =
    wthen (wr (set_identity_write self @ write_bool (is_server_keep_binary self) @ write_i32 (i32_of_usize (length vs))))
      (wseq (map (el_write ty) vs))"

definition set_multi_key_size :: "'v element_type \<Rightarrow> ignite_set \<Rightarrow> 'v list \<Rightarrow> sizer" where
  "set_multi_key_size ty self vs = sadd (sret (set_identity_size self + 1 + 4)) (sseq (map (el_size ty) vs))"

definition set_iterator_start_write :: "ignite_set \<Rightarrow> bytes" where
  "set_iterator_start_write self = set_identity_write self @ write_i32 (is_page_size self)"

definition set_iterator_start_size :: "ignite_set \<Rightarrow> nat" where
  "set_iterator_start_size self = set_identity_size self + 4"

definition set_iterator_get_page_write :: "i64 \<Rightarrow> i32 \<Rightarrow> bytes" where
  "set_iterator_get_page_write resource_id page_size = write_i64 resource_id @ write_i32 page_size"

definition set_iterator_get_page_size :: nat where
  "set_iterator_get_page_size = 8 + 4"

definition read_set_item :: "'v option reader \<Rightarrow> 'v reader" where
  "read_set_item rv = rbind rv (\<lambda>item. case item of
      Some v \<Rightarrow> ret v
    | None \<Rightarrow> fail (Ignite ''Ignite set iterator returned null item''))"

definition read_set_items :: "'v option reader \<Rightarrow> 'v list reader" where
  "read_set_items rv = rbind read_i32 (\<lambda>count. repeat_read (i32_range count) (read_set_item rv))"

record 'v set_iterator_open =
  io_items :: "'v list"
  io_has_more :: bool
  io_resource_id :: "i64 option"

definition set_iterator_open_read :: "'v option reader \<Rightarrow> 'v set_iterator_open reader" where
  "set_iterator_open_read rv = rbind (read_set_items rv) (\<lambda>items. rbind read_bool (\<lambda>has_more.
     rbind (if has_more then rmap Some read_i64 else ret None) (\<lambda>resource_id.
       ret \<lparr>io_items = items, io_has_more = has_more, io_resource_id = resource_id\<rparr>)))"

definition set_iterator_page_read :: "'v option reader \<Rightarrow> ('v list \<times> bool) reader" where
  "set_iterator_page_read rv = rbind (read_set_items rv) (\<lambda>items. rbind read_bool (\<lambda>has_more. ret (items, has_more)))"

section \<open>Operations\<close>

definition set_get_or_create ::
    "transport \<Rightarrow> rstring \<Rightarrow> collection_configuration option \<Rightarrow> ('z session_scheme, ignite_set option) act" where
  "set_get_or_create net name config =
    abind (send_and_read net set_get_or_create_read OpSetGetOrCreate (wr (set_get_or_create_write name config))
        (sret (set_get_or_create_size name config)))
      (\<lambda>resp. if \<not> sr_exists resp then aret None
        else aret (Some \<lparr>is_name = name, is_colocated = sr_colocated resp, is_cache_id = sr_cache_id resp,
          is_page_size = 1024, is_server_keep_binary = True\<rparr>))"

text \<open>Where an element lives: with the name of a colocated set, by itself otherwise.\<close>

definition name_key :: "ignite_set \<Rightarrow> ('s, bytes) act" where
  "name_key self = marshal_key (\<lambda>h. wr (write_type TcInt write_i32 h)) (\<lambda>h. sret (size_type 4 h))
    (string_to_java_hashcode (is_name self))"

definition preferred :: "request_route option \<Rightarrow> request_route" where
  "preferred r = (case r of Some route \<Rightarrow> route | None \<Rightarrow> route_default)"

definition route_for_key :: "node_lookup \<Rightarrow> 'v element_type \<Rightarrow> ignite_set \<Rightarrow> 'v \<Rightarrow> ('s, request_route) act" where
  "route_for_key aff ty self v =
    abind (if is_colocated self then name_key self else marshal_key (el_write ty) (el_size ty) v)
      (\<lambda>affinity_value. aret (preferred (map_option route_preferred_node (aff (is_cache_id self) affinity_value True))))"

definition route_for_first :: "node_lookup \<Rightarrow> 'v element_type \<Rightarrow> ignite_set \<Rightarrow> 'v list \<Rightarrow> ('s, request_route) act" where
  "route_for_first aff ty self vs = (case vs of v # _ \<Rightarrow> route_for_key aff ty self v | [] \<Rightarrow> aret route_default)"

definition iterator_route :: "node_lookup \<Rightarrow> ignite_set \<Rightarrow> ('s, request_route) act" where
  "iterator_route aff self =
    (if \<not> is_colocated self then aret route_default
     else abind (name_key self) (\<lambda>affinity_value.
       aret (preferred (map_option route_preferred_node (aff (is_cache_id self) affinity_value True)))))"

definition set_single ::
    "transport \<Rightarrow> node_lookup \<Rightarrow> 'v element_type \<Rightarrow> ignite_set \<Rightarrow> op_code \<Rightarrow> 'v \<Rightarrow> ('z session_scheme, bool) act" where
  "set_single net aff ty self op v = abind (route_for_key aff ty self v) (\<lambda>route.
    send_and_read_with_route net bool_response_read op (set_single_key_write ty self v) (set_single_key_size ty self v) route)"

definition set_multi ::
    "transport \<Rightarrow> node_lookup \<Rightarrow> 'v element_type \<Rightarrow> ignite_set \<Rightarrow> op_code \<Rightarrow> 'v list \<Rightarrow> ('z session_scheme, bool) act" where
  "set_multi net aff ty self op vs = abind (route_for_first aff ty self vs) (\<lambda>route.
    send_and_read_with_route net bool_response_read op (set_multi_key_write ty self vs) (set_multi_key_size ty self vs) route)"

definition set_add :: "transport \<Rightarrow> node_lookup \<Rightarrow> 'v element_type \<Rightarrow> ignite_set \<Rightarrow> 'v \<Rightarrow> ('z session_scheme, bool) act" where
  "set_add net aff ty self v = set_single net aff ty self OpSetValueAdd v"

definition set_add_all :: "transport \<Rightarrow> node_lookup \<Rightarrow> 'v element_type \<Rightarrow> ignite_set \<Rightarrow> 'v list \<Rightarrow> ('z session_scheme, bool) act" where
  "set_add_all net aff ty self vs = (if vs = [] then aret False else set_multi net aff ty self OpSetValueAddAll vs)"

definition set_contains :: "transport \<Rightarrow> node_lookup \<Rightarrow> 'v element_type \<Rightarrow> ignite_set \<Rightarrow> 'v \<Rightarrow> ('z session_scheme, bool) act" where
  "set_contains net aff ty self v = set_single net aff ty self OpSetValueContains v"

definition set_contains_all :: "transport \<Rightarrow> node_lookup \<Rightarrow> 'v element_type \<Rightarrow> ignite_set \<Rightarrow> 'v list \<Rightarrow> ('z session_scheme, bool) act" where
  "set_contains_all net aff ty self vs = (if vs = [] then aret False else set_multi net aff ty self OpSetValueContainsAll vs)"

definition set_remove :: "transport \<Rightarrow> node_lookup \<Rightarrow> 'v element_type \<Rightarrow> ignite_set \<Rightarrow> 'v \<Rightarrow> ('z session_scheme, bool) act" where
  "set_remove net aff ty self v = set_single net aff ty self OpSetValueRemove v"

definition set_remove_all :: "transport \<Rightarrow> node_lookup \<Rightarrow> 'v element_type \<Rightarrow> ignite_set \<Rightarrow> 'v list \<Rightarrow> ('z session_scheme, bool) act" where
  "set_remove_all net aff ty self vs = (if vs = [] then aret False else set_multi net aff ty self OpSetValueRemoveAll vs)"

definition set_retain_all :: "transport \<Rightarrow> node_lookup \<Rightarrow> 'v element_type \<Rightarrow> ignite_set \<Rightarrow> 'v list \<Rightarrow> ('z session_scheme, bool) act" where
  "set_retain_all net aff ty self vs = set_multi net aff ty self OpSetValueRetainAll vs"

definition set_clear :: "transport \<Rightarrow> ignite_set \<Rightarrow> ('z session_scheme, unit) act" where
  "set_clear net self = send net OpSetClear (wr (set_identity_write self)) (sret (set_identity_size self))"

definition set_size :: "transport \<Rightarrow> ignite_set \<Rightarrow> ('z session_scheme, i32) act" where
  "set_size net self = send_and_read net int_response_read OpSetSize (wr (set_identity_write self)) (sret (set_identity_size self))"

definition set_is_empty :: "transport \<Rightarrow> ignite_set \<Rightarrow> ('z session_scheme, bool) act" where
  "set_is_empty net self = abind (set_size net self) (\<lambda>n. aret (n = 0))"

definition set_removed :: "transport \<Rightarrow> ignite_set \<Rightarrow> ('z session_scheme, bool) act" where
  "set_removed net self = abind (send_and_read net bool_response_read OpSetExists (wr (set_identity_write self)) (sret (set_identity_size self)))
    (\<lambda>exists. aret (\<not> exists))"

definition set_close :: "transport \<Rightarrow> ignite_set \<Rightarrow> ('z session_scheme, unit) act" where
  "set_close net self = send net OpSetClose (wr (set_identity_write self)) (sret (set_identity_size self))"

section \<open>The cursor\<close>

record 'v set_cursor = session +
  it_resource_id :: "i64 option"
  it_pending_items :: "'v list"
  it_has_more :: bool
  it_closed :: bool

definition set_iter ::
    "transport \<Rightarrow> node_lookup \<Rightarrow> 'v element_type \<Rightarrow> ignite_set \<Rightarrow> (session, 'v set_cursor) act" where
  "set_iter net aff ty self =
    abind (iterator_route aff self) (\<lambda>route.
    abind (send_and_read_with_route net (set_iterator_open_read (el_read ty)) OpSetIteratorStart
        (wr (set_iterator_start_write self)) (sret (set_iterator_start_size self)) route)
      (\<lambda>response s. (Done \<lparr>calls = calls s, next_correlation_id = next_correlation_id s, it_resource_id = io_resource_id response,
        it_pending_items = io_items response, it_has_more = io_has_more response, it_closed = False\<rparr>, s)))"

definition send_set_close :: "transport \<Rightarrow> i64 \<Rightarrow> ('z session_scheme, unit) act" where
  "send_set_close net resource_id = send net OpResourceClose (wr (write_i64 resource_id)) (sret 8)"

definition set_cursor_close :: "transport \<Rightarrow> ('v set_cursor, unit) act" where
  "set_cursor_close net self =
    (if it_closed self then (Done (), self)
     else (case it_resource_id self of
       Some resource_id \<Rightarrow>
         abind (send_set_close net resource_id) (\<lambda>_ s. (Done (), s\<lparr>it_closed := True\<rparr>)) (self\<lparr>it_resource_id := None\<rparr>)
     | None \<Rightarrow> (Done (), self\<lparr>it_closed := True\<rparr>)))"

definition close_ignored :: "transport \<Rightarrow> 'v set_cursor \<Rightarrow> 'v set_cursor" where
  "close_ignored net self = snd (set_cursor_close net self)"

definition set_next_page :: "transport \<Rightarrow> 'v element_type \<Rightarrow> i32 \<Rightarrow> ('v set_cursor, 'v list) act" where
  "set_next_page net ty page_size self =
    (if it_pending_items self \<noteq> [] then
       (Done (it_pending_items self),
        let self' = self\<lparr>it_pending_items := []\<rparr> in if it_has_more self' then self' else close_ignored net self')
     else if \<not> it_has_more self then (Done [], close_ignored net self)
     else (case it_resource_id self of
       None \<Rightarrow> (Failed (client_error ''set cursor resource id missing''), self)
     | Some resource_id \<Rightarrow>
         abind (send_and_read net (set_iterator_page_read (el_read ty)) OpSetIteratorGetPage
             (wr (set_iterator_get_page_write resource_id page_size)) (sret set_iterator_get_page_size))
           (\<lambda>(items, has_more) s.
             let s' = s\<lparr>it_has_more := has_more\<rparr>
             in (Done items, if has_more then s' else close_ignored net (s'\<lparr>it_resource_id := None\<rparr>))) self))"

definition drop_set_cursor :: "transport \<Rightarrow> 'v set_cursor \<Rightarrow> 'v set_cursor" where
  "drop_set_cursor net self =
    (if it_closed self then self
     else (case it_resource_id self of
       Some resource_id \<Rightarrow> snd (send_set_close net resource_id (self\<lparr>it_resource_id := None\<rparr>))
     | None \<Rightarrow> self))"

definition set_fetch_all :: "nat \<Rightarrow> transport \<Rightarrow> 'v element_type \<Rightarrow> i32 \<Rightarrow> ('v set_cursor, 'v list) act" where
  "set_fetch_all fuel net ty page_size self =
    (case drain fuel (set_next_page net ty page_size) [] self of (r, s) \<Rightarrow> (r, drop_set_cursor net s))"

section \<open>A mathematical set\<close>

datatype 'v set_op =
    SAdd 'v | SAddAll "'v list" | SContains 'v | SContainsAll "'v list" | SRemove 'v | SRemoveAll "'v list" | SRetainAll "'v list"
  | SClear | SSize | SIsEmpty | SRemoved | SClose

datatype set_value = SetBool bool | SetInt i32 | SetUnit

fun set_perform ::
    "transport \<Rightarrow> node_lookup \<Rightarrow> 'v element_type \<Rightarrow> ignite_set \<Rightarrow> 'v set_op \<Rightarrow> ('z session_scheme, set_value) act" where
  "set_perform net aff ty self (SAdd v) = amap SetBool (set_add net aff ty self v)"
| "set_perform net aff ty self (SAddAll vs) = amap SetBool (set_add_all net aff ty self vs)"
| "set_perform net aff ty self (SContains v) = amap SetBool (set_contains net aff ty self v)"
| "set_perform net aff ty self (SContainsAll vs) = amap SetBool (set_contains_all net aff ty self vs)"
| "set_perform net aff ty self (SRemove v) = amap SetBool (set_remove net aff ty self v)"
| "set_perform net aff ty self (SRemoveAll vs) = amap SetBool (set_remove_all net aff ty self vs)"
| "set_perform net aff ty self (SRetainAll vs) = amap SetBool (set_retain_all net aff ty self vs)"
| "set_perform net aff ty self SClear = amap (\<lambda>_. SetUnit) (set_clear net self)"
| "set_perform net aff ty self SSize = amap SetInt (set_size net self)"
| "set_perform net aff ty self SIsEmpty = amap SetBool (set_is_empty net self)"
| "set_perform net aff ty self SRemoved = amap SetBool (set_removed net self)"
| "set_perform net aff ty self SClose = amap (\<lambda>_. SetUnit) (set_close net self)"

text \<open>What the bulk operations do to a set of the server: whether it changed, or contains them, and the new set.\<close>

fun set_effect :: "op_code \<Rightarrow> 'v list \<Rightarrow> 'v set \<Rightarrow> (bool \<times> 'v set) option" where
  "set_effect OpSetValueAdd vs S = Some (\<not> set vs \<subseteq> S, S \<union> set vs)"
| "set_effect OpSetValueAddAll vs S = Some (\<not> set vs \<subseteq> S, S \<union> set vs)"
| "set_effect OpSetValueContains vs S = Some (set vs \<subseteq> S, S)"
| "set_effect OpSetValueContainsAll vs S = Some (set vs \<subseteq> S, S)"
| "set_effect OpSetValueRemove vs S = Some (set vs \<inter> S \<noteq> {}, S - set vs)"
| "set_effect OpSetValueRemoveAll vs S = Some (set vs \<inter> S \<noteq> {}, S - set vs)"
| "set_effect OpSetValueRetainAll vs S = Some (\<not> S \<subseteq> set vs, S \<inter> set vs)"
| "set_effect _ vs S = None"

definition effect_value :: "conn_error \<Rightarrow> op_code \<Rightarrow> 'v list \<Rightarrow> 'v set option \<Rightarrow> set_value result \<times> 'v set option" where
  "effect_value err op vs c = (case c of
      None \<Rightarrow> (Failed err, None)
    | Some S \<Rightarrow> (case set_effect op vs S of Some (b, S') \<Rightarrow> (Done (SetBool b), Some S') | None \<Rightarrow> (Failed err, c)))"

fun set_step :: "conn_error \<Rightarrow> 'v set_op \<Rightarrow> 'v set option \<Rightarrow> set_value result \<times> 'v set option" where
  "set_step err (SAdd v) c = effect_value err OpSetValueAdd [v] c"
| "set_step err (SAddAll vs) c = (if vs = [] then (Done (SetBool False), c) else effect_value err OpSetValueAddAll vs c)"
| "set_step err (SContains v) c = effect_value err OpSetValueContains [v] c"
| "set_step err (SContainsAll vs) c = (if vs = [] then (Done (SetBool False), c) else effect_value err OpSetValueContainsAll vs c)"
| "set_step err (SRemove v) c = effect_value err OpSetValueRemove [v] c"
| "set_step err (SRemoveAll vs) c = (if vs = [] then (Done (SetBool False), c) else effect_value err OpSetValueRemoveAll vs c)"
| "set_step err (SRetainAll vs) c = effect_value err OpSetValueRetainAll vs c"
| "set_step err SClear c = (case c of Some _ \<Rightarrow> (Done SetUnit, Some {}) | None \<Rightarrow> (Failed err, None))"
| "set_step err SSize c = (case c of Some S \<Rightarrow> (Done (SetInt (i32_of_usize (card S))), c) | None \<Rightarrow> (Failed err, None))"
| "set_step err SIsEmpty c = (case c of Some S \<Rightarrow> (Done (SetBool (i32_of_usize (card S) = 0)), c) | None \<Rightarrow> (Failed err, None))"
| "set_step err SRemoved c = (Done (SetBool (c = None)), c)"
| "set_step err SClose c = (Done SetUnit, None)"

section \<open>The service of the server\<close>

definition is_single :: "op_code \<Rightarrow> bool" where
  "is_single op \<longleftrightarrow> op \<in> {OpSetValueAdd, OpSetValueContains, OpSetValueRemove}"

definition element_of :: "'v option reader \<Rightarrow> 'v reader" where
  "element_of rv = rbind rv (\<lambda>item. case item of Some v \<Rightarrow> ret v | None \<Rightarrow> fail (Ignite ''null element''))"

definition elements_of :: "'v element_type \<Rightarrow> op_code \<Rightarrow> bytes \<Rightarrow> 'v list option" where
  "elements_of ty op tail =
    (case (rbind read_bool (\<lambda>_. if is_single op then rmap (\<lambda>v. [v]) (element_of (el_read ty))
        else rbind read_i32 (\<lambda>n. repeat_read (i32_range n) (element_of (el_read ty))))) tail of
       Ok vs _ \<Rightarrow> Some vs | _ \<Rightarrow> None)"

definition set_service :: "i32 \<Rightarrow> rstring \<Rightarrow> 'v element_type \<Rightarrow> ignite_set \<Rightarrow> 'v set option service" where
  "set_service status msg ty self op payload c =
    Option.bind (named_tail (set_identity_write self) payload) (\<lambda>tail.
      if op = OpSetClose then Some (Success, [], None)
      else if op = OpSetExists then Some (Success, write_bool (c \<noteq> None), c)
      else (case c of
        None \<Rightarrow> Some (Failure status msg, [], None)
      | Some S \<Rightarrow>
          if op = OpSetClear then Some (Success, [], Some {})
          else if op = OpSetSize then Some (Success, write_i32 (i32_of_usize (card S)), c)
          else Option.bind (elements_of ty op tail) (\<lambda>vs.
            map_option (\<lambda>(b, S'). (Success, write_bool b, Some S')) (set_effect op vs S))))"

text \<open>An element that its type writes and reads back.\<close>

definition good_element :: "'v element_type \<Rightarrow> 'v \<Rightarrow> bool" where
  "good_element ty v \<longleftrightarrow> (\<exists>bs. run (el_write ty v) = Inr bs \<and> (\<forall>s. el_read ty (bs @ s) = Ok (Some v) s))"

fun set_op_elements :: "'v set_op \<Rightarrow> 'v list" where
  "set_op_elements (SAdd v) = [v]"
| "set_op_elements (SContains v) = [v]"
| "set_op_elements (SRemove v) = [v]"
| "set_op_elements (SAddAll vs) = vs"
| "set_op_elements (SContainsAll vs) = vs"
| "set_op_elements (SRemoveAll vs) = vs"
| "set_op_elements (SRetainAll vs) = vs"
| "set_op_elements _ = []"

definition good_set_op :: "'v element_type \<Rightarrow> 'v set_op \<Rightarrow> bool" where
  "good_set_op ty op \<longleftrightarrow> list_all (good_element ty) (set_op_elements op) \<and> length (set_op_elements op) < 2 ^ 31"

section \<open>What the requests carry\<close>

lemma steady_wseq_map: "(\<And>x. steady (w x)) \<Longrightarrow> steady (wseq (map w xs))"
  unfolding wseq_def by (induction xs) (simp_all add: steady_intros)

lemma run_wseq_map:
  assumes "\<And>x. steady (w x)" and "\<And>x. x \<in> set xs \<Longrightarrow> run (w x) = Inr (enc x)"
  shows "run (wseq (map w xs)) = Inr (concat (map enc xs))"
  using assms(2)
proof (induction xs)
  case Nil
  then show ?case by (simp add: wseq_def)
next
  case (Cons x xs)
  then show ?case using steady_wseq_map [where w = w and xs = xs, OF assms(1)]
    by (simp add: wseq_def run_wthen steady_intros assms(1))
qed

lemma element_read: "el_read ty (bs @ s) = Ok (Some v) s \<Longrightarrow> element_of (el_read ty) (bs @ s) = Ok v s"
  by (simp add: element_of_def rbind_Ok)

lemma single_request:
  assumes "announced (el_write ty) (el_size ty)" and "good_element ty v" and "is_single op"
  shows "\<exists>bs. run (set_single_key_write ty self v) = Inr (set_identity_write self @ bs) \<and> elements_of ty op bs = Some [v]"
proof -
  obtain vb where vb: "run (el_write ty v) = Inr vb" "el_read ty (vb @ []) = Ok (Some v) []"
    using assms(2) unfolding good_element_def by blast
  have "run (set_single_key_write ty self v) = Inr (set_identity_write self @ write_bool (is_server_keep_binary self) @ vb)"
    using assms(1) by (simp add: set_single_key_write_def run_wthen steady_intros announced_def vb(1))
  moreover have "elements_of ty op (write_bool (is_server_keep_binary self) @ vb) = Some [v]"
    using element_read [OF vb(2)] assms(3) by (simp add: elements_of_def rbind_Ok rmap_Ok)
  ultimately show ?thesis by blast
qed

lemma multi_request:
  assumes "announced (el_write ty) (el_size ty)" and "list_all (good_element ty) vs" and "length vs < 2 ^ 31" and "\<not> is_single op"
  shows "\<exists>bs. run (set_multi_key_write ty self vs) = Inr (set_identity_write self @ bs) \<and> elements_of ty op bs = Some vs"
proof -
  obtain enc where enc: "\<And>v. v \<in> set vs \<Longrightarrow> run (el_write ty v) = Inr (enc v) \<and> (\<forall>s. el_read ty (enc v @ s) = Ok (Some v) s)"
    using assms(2) unfolding list_all_iff good_element_def by metis
  let ?body = "write_bool (is_server_keep_binary self) @ write_i32 (i32_of_usize (length vs)) @ concat (map enc vs)"
  have "run (wseq (map (el_write ty) vs)) = Inr (concat (map enc vs))"
    using assms(1) enc by (intro run_wseq_map) (auto simp: announced_def)
  then have "run (set_multi_key_write ty self vs) = Inr (set_identity_write self @ ?body)"
    using assms(1) by (simp add: set_multi_key_write_def run_wthen steady_intros announced_def steady_wseq_map)
  moreover have "repeat_read (length vs) (element_of (el_read ty)) (concat (map enc vs) @ []) = Ok (map (\<lambda>v. v) vs) []"
    by (rule repeat_read_concat) (simp add: element_read enc)
  then have "elements_of ty op ?body = Some vs"
    using assms(3,4) by (simp add: elements_of_def rbind_Ok len_casts)
  ultimately show ?thesis by blast
qed

section \<open>Refinement\<close>

lemma sized_set_requests:
  assumes "announced (el_write ty) (el_size ty)"
  shows "sized (set_single_key_write ty self v) (set_single_key_size ty self v)"
    and "sized (set_multi_key_write ty self vs) (set_multi_key_size ty self vs)"
  unfolding set_single_key_write_def set_single_key_size_def set_multi_key_write_def set_multi_key_size_def
  by (intro sized_intros sized_wseq_map sized_announced [OF assms];
      simp add: set_identity_write_def set_identity_size_def w_string.size_write)+

lemma amap_aret: "amap f (aret x) s = (Done (f x), s)"
  by (simp add: amap_def abind_def)

lemma length_set_identity: "length (set_identity_write self) = set_identity_size self"
  by (simp add: set_identity_write_def set_identity_size_def w_string.size_write)

lemma marshal_good:
  assumes "announced (el_write ty) (el_size ty)" and "good_element ty v"
  shows "\<exists>key. marshal_key (el_write ty) (el_size ty) v s = (Done key, s)"
  using assms by (auto simp: good_element_def marshal_key_def announced_def)

lemma name_key_result: "name_key self s = (Done (write_type TcInt write_i32 (string_to_java_hashcode (is_name self))), s)"
  by (simp add: name_key_def marshal_key_def sret_def)

definition iteration_route :: "node_lookup \<Rightarrow> ignite_set \<Rightarrow> request_route" where
  "iteration_route aff self =
    (if is_colocated self then route_of aff (is_cache_id self) (write_type TcInt write_i32 (string_to_java_hashcode (is_name self)))
     else route_default)"

lemma iterator_route_result: "iterator_route aff self s = (Done (iteration_route aff self), s)"
  by (simp add: iterator_route_def iteration_route_def name_key_result preferred_def route_of_def abind_def split: option.split)

lemma route_for_key_result:
  assumes "announced (el_write ty) (el_size ty)" and "good_element ty v"
  shows "\<exists>route. route_for_key aff ty self v s = (Done route, s)"
proof -
  obtain key where "marshal_key (el_write ty) (el_size ty) v s = (Done key, s)" using marshal_good [OF assms, of s] by auto
  then show ?thesis by (cases "is_colocated self") (auto simp: route_for_key_def name_key_result abind_def)
qed

lemma route_for_first_result:
  assumes "announced (el_write ty) (el_size ty)" and "list_all (good_element ty) vs"
  shows "\<exists>route. route_for_first aff ty self vs s = (Done route, s)"
  using route_for_key_result [OF assms(1)] assms(2) by (cases vs) (auto simp: route_for_first_def)

locale set_server = stateful_server net "set_service status msg ty self" state_of
  for net :: transport and status :: i32 and msg :: rstring and ty :: "'v element_type" and self :: ignite_set
    and state_of :: "call list \<Rightarrow> 'v set option" +
  assumes element_type: "announced (el_write ty) (el_size ty)"
begin

definition set_refused :: conn_error where
  "set_refused = CError (from_server_status status msg)"

text \<open>A request that carries elements.\<close>

lemma effect_served:
  assumes "sized payload psize" and "run payload = Inr (set_identity_write self @ bs)" and "elements_of ty op bs = Some vs"
    and "set_effect op vs {} \<noteq> None"
  shows "\<exists>s'. amap SetBool (send_and_read_with_route net bool_response_read op payload psize route) s =
      (fst (effect_value set_refused op vs (state_of (calls s))), s') \<and>
    state_of (calls s') = snd (effect_value set_refused op vs (state_of (calls s)))"
proof -
  have op: "op \<noteq> OpSetClose" "op \<noteq> OpSetExists" "op \<noteq> OpSetClear" "op \<noteq> OpSetSize" using assms(4) by auto
  show ?thesis
  proof (cases "state_of (calls s)")
    case None
    then have "set_service status msg ty self op (set_identity_write self @ bs) (state_of (calls s)) = Some (Failure status msg, [], None)"
      by (simp add: set_service_def op)
    from read_refused [where s = s and rd = bool_response_read and route = route, OF assms(1,2) this] None show ?thesis
      by (auto simp: amap_def effect_value_def set_refused_def)
  next
    case (Some S)
    obtain b S' where eff: "set_effect op vs S = Some (b, S')" using assms(4) by (cases op) auto
    have "set_service status msg ty self op (set_identity_write self @ bs) (state_of (calls s)) = Some (Success, write_bool b, Some S')"
      by (simp add: set_service_def op Some assms(3) eff)
    from read_served [where s = s and rd = bool_response_read and route = route, OF assms(1,2) this, of b "[]"] Some eff show ?thesis
      by (auto simp: amap_def effect_value_def bool_response_read_def bool_back)
  qed
qed

lemma single_step:
  assumes "good_element ty v" and "is_single op"
  shows "\<exists>s'. amap SetBool (set_single net aff ty self op v) s = (fst (effect_value set_refused op [v] (state_of (calls s))), s') \<and>
    state_of (calls s') = snd (effect_value set_refused op [v] (state_of (calls s)))"
proof -
  obtain bs where bs: "run (set_single_key_write ty self v) = Inr (set_identity_write self @ bs)" "elements_of ty op bs = Some [v]"
    using single_request [OF element_type assms] by blast
  obtain route where "route_for_key aff ty self v s = (Done route, s)" using route_for_key_result [OF element_type assms(1), of aff self s] by auto
  moreover have "set_effect op [v] ({} :: 'v set) \<noteq> None" using assms(2) by (auto simp: is_single_def)
  ultimately show ?thesis
    using effect_served [OF sized_set_requests(1) [OF element_type] bs, of route s]
    by (simp add: set_single_def amap_def abind_def)
qed

lemma multi_step:
  assumes "list_all (good_element ty) vs" and "length vs < 2 ^ 31" and "\<not> is_single op" and "set_effect op vs ({} :: 'v set) \<noteq> None"
  shows "\<exists>s'. amap SetBool (set_multi net aff ty self op vs) s = (fst (effect_value set_refused op vs (state_of (calls s))), s') \<and>
    state_of (calls s') = snd (effect_value set_refused op vs (state_of (calls s)))"
proof -
  obtain bs where bs: "run (set_multi_key_write ty self vs) = Inr (set_identity_write self @ bs)" "elements_of ty op bs = Some vs"
    using multi_request [OF element_type assms(1-3)] by blast
  obtain route where "route_for_first aff ty self vs s = (Done route, s)" using route_for_first_result [OF element_type assms(1), of aff self s] by auto
  then show ?thesis
    using effect_served [OF sized_set_requests(2) [OF element_type] bs assms(4), of route s]
    by (simp add: set_multi_def amap_def abind_def)
qed

lemma identity_read:
  assumes "set_service status msg ty self op (set_identity_write self) (state_of (calls s)) = Some (flag, reply, c)"
  shows "\<exists>s'. send_and_read net rd op (wr (set_identity_write self)) (sret (set_identity_size self)) s =
      (case flag of Success \<Rightarrow> decoded (rd reply) | Failure st m \<Rightarrow> Failed (CError (from_server_status st m)), s') \<and>
    state_of (calls s') = c"
proof -
  obtain addr s' where "perform net op (wr (set_identity_write self)) (sret (set_identity_size self)) route_default s =
      (Done (flag, reply, 0, addr), s')" "state_of (calls s') = c"
    using perform_served [where route = route_default and s = s and op = op, OF sized_wr [OF length_set_identity] run_wr assms] by metis
  then show ?thesis by (auto simp: send_and_read_def send_and_read_with_route_def abind_def split: flag.split)
qed

lemma identity_send:
  assumes "set_service status msg ty self op (set_identity_write self) (state_of (calls s)) = Some (flag, reply, c)"
  shows "\<exists>s'. send net op (wr (set_identity_write self)) (sret (set_identity_size self)) s =
      (case flag of Success \<Rightarrow> Done () | Failure st m \<Rightarrow> Failed (CError (from_server_status st m)), s') \<and> state_of (calls s') = c"
proof -
  obtain addr s' where "perform net op (wr (set_identity_write self)) (sret (set_identity_size self)) route_default s =
      (Done (flag, reply, 0, addr), s')" "state_of (calls s') = c"
    using perform_served [where route = route_default and s = s and op = op, OF sized_wr [OF length_set_identity] run_wr assms] by metis
  then show ?thesis by (auto simp: send_def send_with_route_def abind_def split: flag.split)
qed

lemma size_step:
  "\<exists>s'. set_size net self s =
      (case state_of (calls s) of Some S \<Rightarrow> Done (i32_of_usize (card S)) | None \<Rightarrow> Failed set_refused, s') \<and>
    state_of (calls s') = state_of (calls s)"
  using identity_read [where op = OpSetSize and s = s and rd = read_i32] i32.dec_enc_any [of _ "[]"]
  by (cases "state_of (calls s)") (auto simp: set_size_def int_response_read_def set_service_def set_refused_def decoded_def)

lemma removed_step:
  "\<exists>s'. set_removed net self s = (Done (state_of (calls s) = None), s') \<and> state_of (calls s') = state_of (calls s)"
  using identity_read [where op = OpSetExists and s = s and rd = read_bool]
  by (auto simp: set_removed_def bool_response_read_def set_service_def decoded_def bool_back abind_def)

lemma clear_step:
  "\<exists>s'. set_clear net self s = (case state_of (calls s) of Some S \<Rightarrow> Done () | None \<Rightarrow> Failed set_refused, s') \<and>
    state_of (calls s') = map_option (\<lambda>_. {}) (state_of (calls s))"
  using identity_send [where op = OpSetClear and s = s]
  by (cases "state_of (calls s)") (auto simp: set_clear_def set_service_def set_refused_def)

lemma close_step: "\<exists>s'. set_close net self s = (Done (), s') \<and> state_of (calls s') = None"
  using identity_send [where op = OpSetClose and s = s] by (simp add: set_close_def set_service_def)

lemma set_step_refines:
  assumes "good_set_op ty op"
  shows "\<exists>s'. set_perform net aff ty self op s = (fst (set_step set_refused op (state_of (calls s))), s') \<and>
    state_of (calls s') = snd (set_step set_refused op (state_of (calls s)))"
proof -
  have els: "list_all (good_element ty) (set_op_elements op)" "length (set_op_elements op) < 2 ^ 31"
    using assms by (simp_all add: good_set_op_def)
  note multi = multi_step [OF els, where aff = aff and s = s]
  show ?thesis
  proof (cases op)
    case (SAdd v)
    then show ?thesis using single_step [of v OpSetValueAdd aff s] els by (simp add: set_add_def is_single_def)
  next
    case (SContains v)
    then show ?thesis using single_step [of v OpSetValueContains aff s] els by (simp add: set_contains_def is_single_def)
  next
    case (SRemove v)
    then show ?thesis using single_step [of v OpSetValueRemove aff s] els by (simp add: set_remove_def is_single_def)
  next
    case (SAddAll vs)
    then show ?thesis using multi [of OpSetValueAddAll] by (auto simp: set_add_all_def is_single_def amap_aret)
  next
    case (SContainsAll vs)
    then show ?thesis using multi [of OpSetValueContainsAll] by (auto simp: set_contains_all_def is_single_def amap_aret)
  next
    case (SRemoveAll vs)
    then show ?thesis using multi [of OpSetValueRemoveAll] by (auto simp: set_remove_all_def is_single_def amap_aret)
  next
    case (SRetainAll vs)
    then show ?thesis using multi [of OpSetValueRetainAll] by (auto simp: set_retain_all_def is_single_def)
  next
    case SSize
    then show ?thesis using size_step [of s] by (cases "state_of (calls s)") (auto simp: amap_def)
  next
    case SIsEmpty
    then show ?thesis using size_step [of s] by (cases "state_of (calls s)") (auto simp: amap_def set_is_empty_def abind_def)
  next
    case SClear
    then show ?thesis using clear_step [of s] by (cases "state_of (calls s)") (auto simp: amap_def)
  next
    case SRemoved
    then show ?thesis using removed_step [of s] by (auto simp: amap_def)
  next
    case SClose
    then show ?thesis using close_step [of s] by (auto simp: amap_def)
  qed
qed

lemma set_ops_refine:
  assumes "list_all (good_set_op ty) ops"
  shows "fst (trace (set_perform net aff ty self) ops s) = fst (trace (set_step set_refused) ops (state_of (calls s))) \<and>
    state_of (calls (snd (trace (set_perform net aff ty self) ops s))) = snd (trace (set_step set_refused) ops (state_of (calls s)))"
proof -
  have "fst (set_perform net aff ty self op s) = fst (set_step set_refused op (state_of (calls s))) \<and>
      state_of (calls (snd (set_perform net aff ty self op s))) = snd (set_step set_refused op (state_of (calls s)))"
    if "good_set_op ty op" for op s using set_step_refines [OF that, of aff s] by auto
  from trace_refines [where f = "set_perform net aff ty self" and g = "set_step set_refused" and good = "good_set_op ty"
      and view = "\<lambda>s. state_of (calls s)", OF this assms, of s]
  show ?thesis .
qed

end

section \<open>Pages of a set\<close>

definition set_page_call :: "i64 \<Rightarrow> i32 \<Rightarrow> i64 \<Rightarrow> call" where
  "set_page_call resource_id page_size corr =
    request_call OpSetIteratorGetPage corr (set_iterator_get_page_write resource_id page_size) route_default"

definition set_page_log :: "i64 \<Rightarrow> i32 \<Rightarrow> i64 \<Rightarrow> nat \<Rightarrow> call list" where
  "set_page_log resource_id page_size corr n = map (\<lambda>i. set_page_call resource_id page_size (corr + word_of_nat i)) [0..<n]"

lemma set_page_log_simps [simp]:
  "set_page_log r p corr 0 = []"
  "set_page_log r p corr (Suc n) = set_page_log r p corr n @ [set_page_call r p (corr + word_of_nat n)]"
  by (simp_all add: set_page_log_def)

definition server_items :: "('v \<Rightarrow> bytes) \<Rightarrow> 'v list \<Rightarrow> bytes" where
  "server_items enc items = write_i32 (i32_of_usize (length items)) @ concat (map enc items)"

lemma read_set_items_back:
  assumes "length items < 2 ^ 31" and "\<And>v t. v \<in> set items \<Longrightarrow> rv (enc v @ t) = Ok (Some v) t"
  shows "read_set_items rv (server_items enc items @ s) = Ok items s"
proof -
  have "repeat_read (length items) (read_set_item rv) (concat (map enc items) @ s) = Ok (map (\<lambda>v. v) items) s"
    by (rule repeat_read_concat) (simp add: read_set_item_def rbind_Ok assms(2))
  then show ?thesis using assms(1) by (simp add: read_set_items_def server_items_def rbind_Ok len_casts)
qed

lemma read_set_page_back:
  assumes "length items < 2 ^ 31" and "\<And>v t. v \<in> set items \<Longrightarrow> rv (enc v @ t) = Ok (Some v) t"
  shows "set_iterator_page_read rv (server_items enc items @ write_bool hm) = Ok (items, hm) []"
  by (simp add: set_iterator_page_read_def rbind_Ok read_set_items_back [OF assms] bool_back)

text \<open>The server holds the pages of an iteration, and gives them out one request after the other.\<close>

locale set_page_server =
  fixes net :: transport and ty :: "'v element_type" and enc :: "'v \<Rightarrow> bytes" and resource_id :: i64 and page_size :: i32
    and log0 :: "call list" and corr0 :: i64 and pages :: "'v list list"
  assumes serves: "n < length pages \<Longrightarrow>
      \<exists>addr. net (log0 @ set_page_log resource_id page_size corr0 n) (set_page_call resource_id page_size (corr0 + word_of_nat n)) =
        Inr (Success, server_items enc (pages ! n) @ write_bool (Suc n < length pages), 0, addr)"
    and items: "page \<in> set pages \<Longrightarrow> length page < 2 ^ 31"
    and readable: "page \<in> set pages \<Longrightarrow> v \<in> set page \<Longrightarrow> el_read ty (enc v @ t) = Ok (Some v) t"
begin

definition set_ready :: "nat \<Rightarrow> 'v set_cursor \<Rightarrow> bool" where
  "set_ready n s \<longleftrightarrow> it_pending_items s = [] \<and> it_has_more s = (n < length pages) \<and>
    it_resource_id s = (if n < length pages then Some resource_id else None) \<and> it_closed s = (n = length pages) \<and>
    calls s = log0 @ set_page_log resource_id page_size corr0 n \<and> next_correlation_id s = corr0 + word_of_nat n"

lemma set_page_served:
  assumes "set_ready n s" and "n < length pages"
  shows "\<exists>s'. set_next_page net ty page_size s = (Done (pages ! n), s') \<and> set_ready (Suc n) s'"
proof -
  have page: "pages ! n \<in> set pages" using assms(2) by simp
  obtain addr where net: "net (calls s) (set_page_call resource_id page_size (next_correlation_id s)) =
      Inr (Success, server_items enc (pages ! n) @ write_bool (Suc n < length pages), 0, addr)"
    using serves [OF assms(2)] assms(1) by (auto simp: set_ready_def)
  have "length (set_iterator_get_page_write resource_id page_size) = set_iterator_get_page_size"
    by (simp add: set_iterator_get_page_write_def set_iterator_get_page_size_def)
  from perform_sized [OF sized_wr [OF this] run_wr, of net OpSetIteratorGetPage route_default s] net
  have "send_and_read net (set_iterator_page_read (el_read ty)) OpSetIteratorGetPage
      (wr (set_iterator_get_page_write resource_id page_size)) (sret set_iterator_get_page_size) s =
    (Done (pages ! n, Suc n < length pages), s\<lparr>next_correlation_id := next_correlation_id s + 1,
      calls := calls s @ [set_page_call resource_id page_size (next_correlation_id s)]\<rparr>)"
    using read_set_page_back [where rv = "el_read ty" and enc = enc and items = "pages ! n", OF items [OF page] readable [OF page]]
    by (simp add: send_and_read_def send_and_read_with_route_def abind_def Let_def set_page_call_def request_call_def decoded_def)
  then show ?thesis using assms
    by (auto simp: set_next_page_def set_ready_def abind_def Let_def close_ignored_def set_cursor_close_def)
qed

lemma set_pages_done: "set_ready (length pages) s \<Longrightarrow> \<exists>s'. set_next_page net ty page_size s = (Done [], s') \<and> set_ready (length pages) s'"
  by (auto simp: set_next_page_def set_ready_def close_ignored_def set_cursor_close_def)

end

sublocale set_page_server \<subseteq> page_source "set_next_page net ty page_size" set_ready pages
  by unfold_locales (use set_page_served set_pages_done in auto)

definition set_close_call :: "i64 \<Rightarrow> i64 \<Rightarrow> call" where
  "set_close_call resource_id corr = request_call OpResourceClose corr (write_i64 resource_id) route_default"

lemma send_set_close_state:
  "snd (send_set_close net r s) =
    s\<lparr>next_correlation_id := next_correlation_id s + 1, calls := calls s @ [set_close_call r (next_correlation_id s)]\<rparr>"
  using perform_sized [OF sized_wr [of "write_i64 r" 8] run_wr, of net OpResourceClose route_default s]
  by (simp add: send_set_close_def send_def send_with_route_state set_close_call_def request_call_def Let_def)

definition asked_set_pages :: "'v list list \<Rightarrow> nat" where
  "asked_set_pages pages = min (length pages) (Suc (length (takeWhile (\<lambda>p. p \<noteq> []) pages)))"

context set_page_server
begin

lemma fetch_set:
  assumes cursor: "self = \<lparr>calls = log0, next_correlation_id = corr0, it_resource_id = (if pages \<noteq> [] then Some resource_id else None),
      it_pending_items = first, it_has_more = (pages \<noteq> []), it_closed = False\<rparr>"
    and fuel: "length pages + 2 \<le> fuel"
  shows "\<exists>s. set_fetch_all fuel net ty page_size self =
      (Done (concat (takeWhile (\<lambda>p. p \<noteq> []) (if first = [] then pages else first # pages))), s) \<and>
    calls s = log0 @ set_page_log resource_id page_size corr0 (asked_set_pages pages) @
      (if asked_set_pages pages < length pages then [set_close_call resource_id (corr0 + word_of_nat (asked_set_pages pages))] else [])"
proof -
  obtain k where k: "fuel = Suc k" "length pages < k" using fuel by (cases fuel) auto
  have "\<exists>s. drain fuel (set_next_page net ty page_size) [] self =
      (Done (concat (takeWhile (\<lambda>p. p \<noteq> []) (if first = [] then pages else first # pages))), s) \<and> set_ready (asked_set_pages pages) s"
  proof (cases "first = []")
    case True
    show ?thesis
    proof (cases "pages = []")
      case True
      have "set_ready (asked_set_pages pages) (self\<lparr>it_closed := True\<rparr>)"
        unfolding set_ready_def asked_set_pages_def cursor by (simp add: True \<open>first = []\<close>)
      then show ?thesis using True \<open>first = []\<close>
        by (simp add: cursor k set_next_page_def abind_def close_ignored_def set_cursor_close_def)
    next
      case False
      then have "set_ready 0 self" using True by (simp add: set_ready_def cursor)
      from drain_pages [OF this, of fuel "[]"] fuel True show ?thesis by (auto simp: asked_set_pages_def)
    qed
  next
    case False
    define s1 where "s1 = self\<lparr>it_pending_items := [], it_closed := (pages = [])\<rparr>"
    have s1: "set_next_page net ty page_size self = (Done first, s1)" "set_ready 0 s1"
      using False by (auto simp: set_next_page_def cursor set_ready_def s1_def Let_def close_ignored_def set_cursor_close_def)
    from drain_pages [OF s1(2), of k first] k False show ?thesis
      by (auto simp: abind_def s1(1) asked_set_pages_def)
  qed
  then show ?thesis
    by (auto simp: set_fetch_all_def drop_set_cursor_def send_set_close_state set_ready_def asked_set_pages_def min_def)
qed

end

section \<open>Properties\<close>

text \<open>C19: A distributed set is a set. For a server that keeps the set as the service says, and elements that
  their type writes and reads back, any sequence of operations on a handle returns, operation by operation, what
  a mathematical set returns, and leaves the server with the elements that set has. With no elements to work
  on, \<open>add_all\<close>, \<open>remove_all\<close> and \<open>contains_all\<close> return \<open>false\<close> and ask nobody; for \<open>contains_all\<close> that
  is not what a set answers.\<close>
theorem ignite_set_refines:
  assumes "stateful_server net (set_service status msg ty self) state_of"
    and "announced (el_write ty) (el_size ty)" and "list_all (good_set_op ty) ops"
  shows "let done_ops = trace (set_perform net aff ty self) ops s;
      spec = trace (set_step (CError (from_server_status status msg))) ops (state_of (calls s))
    in fst done_ops = fst spec \<and> state_of (calls (snd done_ops)) = snd spec"
proof -
  have "set_server net status msg ty self state_of" using assms(1,2) by (simp add: set_server_def set_server_axioms_def)
  from set_server.set_ops_refine [OF this assms(3), of aff s] set_server.set_refused_def [OF this] show ?thesis by (simp add: Let_def)
qed

definition int_elements :: "i32 element_type" where
  "int_elements = \<lparr>el_write = \<lambda>v. wr (write_type TcInt write_i32 v), el_size = \<lambda>v. sret (size_type 4 v),
    el_read = readable_read (read_type read_i32)\<rparr>"

definition sample_set :: "bool \<Rightarrow> ignite_set" where
  "sample_set colocated = \<lparr>is_name = rstr ''s'', is_colocated = colocated, is_cache_id = 7, is_page_size = 2, is_server_keep_binary = True\<rparr>"

lemma announced_ints: "announced (el_write int_elements) (el_size int_elements)"
  by (simp add: int_elements_def announced_sized sized_wr w_i32.size_write)

lemma good_ints: "good_element int_elements v"
  by (simp add: good_element_def int_elements_def w_i32.read_write)

theorem ignite_set_refines_witness:
  "fst (trace (set_perform (replay_net (set_service 1 [] int_elements (sample_set False)) (Some {1, 2})) (\<lambda>_ _ _. None)
      int_elements (sample_set False))
    [SAdd 3, SContainsAll [1, 3], SRetainAll [3, 4], SSize, SContainsAll [], SRemoveAll [3], SIsEmpty, SClose, SAdd 1]
    \<lparr>calls = [], next_correlation_id = 1\<rparr>) =
   [Done (SetBool True), Done (SetBool True), Done (SetBool True), Done (SetInt 1), Done (SetBool False), Done (SetBool True),
    Done (SetBool True), Done SetUnit, Failed (CError (from_server_status 1 []))]"
  using ignite_set_refines [OF replay.stateful_server_axioms announced_ints,
      where ops = "[SAdd 3, SContainsAll [1, 3], SRetainAll [3, 4], SSize, SContainsAll [], SRemoveAll [3], SIsEmpty, SClose, SAdd 1]"
        and aff = "\<lambda>_ _ _. None" and s = "\<lparr>calls = [], next_correlation_id = 1\<rparr>",
      of 1 "[]" "sample_set False" "Some {1, 2}"]
  by (simp add: Let_def replay_state_def effect_value_def good_set_op_def good_ints i32_of_usize_def Int_insert_left)

text \<open>C20: Iterating over a set. When the server opens the iteration with a first page and holds the others, the
  iteration returns the elements of the pages in order, up to the first page that is empty, and ends: one
  request per page, and the resource of the server is released, by the last page or by a close. The iteration
  is started on the node the set is colocated on, but its pages and its end are asked for on the default route,
  although the resource belongs to the connection that started it.\<close>
theorem set_iteration:
  assumes "start = request_call OpSetIteratorStart (next_correlation_id s) (set_iterator_start_write self)
      (iteration_route aff self)"
    and "net (calls s) start = Inr (Success, server_items enc first @ write_bool (pages \<noteq> []) @
      (if pages \<noteq> [] then write_i64 rid else []), 0, addr)"
    and "set_page_server net ty enc rid (is_page_size self) (calls s @ [start]) (next_correlation_id s + 1) pages"
    and "length first < 2 ^ 31" and "\<And>v t. v \<in> set first \<Longrightarrow> el_read ty (enc v @ t) = Ok (Some v) t"
    and "length pages + 2 \<le> fuel"
  shows "\<exists>cursor s1 s2. set_iter net aff ty self s = (Done cursor, s1) \<and>
    set_fetch_all fuel net ty (is_page_size self) cursor =
      (Done (concat (takeWhile (\<lambda>p. p \<noteq> []) (if first = [] then pages else first # pages))), s2) \<and>
    calls s2 = calls s @ start # set_page_log rid (is_page_size self) (next_correlation_id s + 1) (asked_set_pages pages) @
      (if asked_set_pages pages < length pages
       then [set_close_call rid (next_correlation_id s + 1 + word_of_nat (asked_set_pages pages))] else [])"
proof -
  let ?s1 = "s\<lparr>next_correlation_id := next_correlation_id s + 1, calls := calls s @ [start]\<rparr>"
  let ?route = "iteration_route aff self"
  let ?cursor = "\<lparr>calls = calls s @ [start], next_correlation_id = next_correlation_id s + 1,
      it_resource_id = (if pages \<noteq> [] then Some rid else None), it_pending_items = first, it_has_more = (pages \<noteq> []), it_closed = False\<rparr>"
  have read: "set_iterator_open_read (el_read ty) (server_items enc first @ write_bool (pages \<noteq> []) @ (if pages \<noteq> [] then write_i64 rid else [])) =
      Ok \<lparr>io_items = first, io_has_more = (pages \<noteq> []), io_resource_id = (if pages \<noteq> [] then Some rid else None)\<rparr> []"
    by (simp add: set_iterator_open_read_def rbind_Ok rmap_Ok read_set_items_back [OF assms(4,5)] i64_back bool_back)
  have "length (set_iterator_start_write self) = set_iterator_start_size self"
    by (simp add: set_iterator_start_write_def set_iterator_start_size_def length_set_identity)
  from perform_sized [OF sized_wr [OF this] run_wr, of net OpSetIteratorStart ?route s] assms(1,2)
  have "send_and_read_with_route net (set_iterator_open_read (el_read ty)) OpSetIteratorStart (wr (set_iterator_start_write self))
      (sret (set_iterator_start_size self)) ?route s =
    (Done \<lparr>io_items = first, io_has_more = (pages \<noteq> []), io_resource_id = (if pages \<noteq> [] then Some rid else None)\<rparr>, ?s1)"
    by (simp add: send_and_read_with_route_def abind_def [of "perform _ _ _ _ _"] Let_def request_call_def read [simplified] decoded_def)
  then have "set_iter net aff ty self s = (Done ?cursor, ?s1)"
    by (simp add: set_iter_def iterator_route_result abind_def)
  moreover from set_page_server.fetch_set [OF assms(3) refl assms(6), of first]
  obtain s2 where "set_fetch_all fuel net ty (is_page_size self) ?cursor =
      (Done (concat (takeWhile (\<lambda>p. p \<noteq> []) (if first = [] then pages else first # pages))), s2)"
    and "calls s2 = calls s @ start # set_page_log rid (is_page_size self) (next_correlation_id s + 1) (asked_set_pages pages) @
      (if asked_set_pages pages < length pages
       then [set_close_call rid (next_correlation_id s + 1 + word_of_nat (asked_set_pages pages))] else [])"
    by auto
  ultimately show ?thesis by blast
qed

definition sample_pages_server :: "call list \<Rightarrow> i32 list \<Rightarrow> i32 list list \<Rightarrow> transport" where
  "sample_pages_server log0 first pages log c =
    (let n = length log - length log0; enc = write_type TcInt write_i32
     in if log = log0 then Inr (Success, server_items enc first @ write_bool (pages \<noteq> []) @ (if pages \<noteq> [] then write_i64 9 else []), 0, [])
        else if n \<le> length pages then Inr (Success, server_items enc (pages ! (n - 1)) @ write_bool (n < length pages), 0, [])
        else Inr (Success, [], 0, []))"

theorem set_iteration_witness:
  "\<exists>cursor s1 s2. set_iter (sample_pages_server [] [1, 2] [[3], [], [4]]) (\<lambda>_ _ _. Some (rstr ''node'')) int_elements (sample_set True)
      \<lparr>calls = [], next_correlation_id = 1\<rparr> = (Done cursor, s1) \<and>
    set_fetch_all 5 (sample_pages_server [] [1, 2] [[3], [], [4]]) int_elements 2 cursor = (Done [1, 2, 3], s2) \<and>
    map (\<lambda>(op, _, route). (op, route)) (calls s2) =
      [(OpSetIteratorStart, route_preferred_node (rstr ''node'')), (OpSetIteratorGetPage, route_default),
       (OpSetIteratorGetPage, route_default), (OpResourceClose, route_default)]"
proof -
  let ?net = "sample_pages_server [] [1, 2] [[3], [], [4]]" and ?aff = "\<lambda>_ _ _. Some (rstr ''node'')"
  let ?start = "request_call OpSetIteratorStart 1 (set_iterator_start_write (sample_set True)) (iteration_route ?aff (sample_set True))"
  have server: "set_page_server ?net int_elements (write_type TcInt write_i32) 9 2 [?start] 2 [[3], [], [4]]"
    by unfold_locales (auto simp: sample_pages_server_def Let_def set_page_log_def int_elements_def w_i32.read_write)
  have "?net [] ?start = Inr (Success, server_items (write_type TcInt write_i32) [1, 2] @ write_bool ([[3], [], [4 :: i32]] \<noteq> []) @
      (if [[3], [], [4 :: i32]] \<noteq> [] then write_i64 9 else []), 0, [])"
    by (simp add: sample_pages_server_def Let_def)
  from set_iteration [where s = "\<lparr>calls = [], next_correlation_id = 1\<rparr>" and self = "sample_set True" and aff = ?aff and net = ?net
      and ty = int_elements and fuel = 5 and start = ?start and pages = "[[3], [], [4]]" and first = "[1, 2]" and rid = 9
      and enc = "write_type TcInt write_i32" and addr = "[]", simplified session.simps append_Nil append_Nil2, OF refl this] server
  obtain cursor s1 s2 where got: "set_iter ?net ?aff int_elements (sample_set True) \<lparr>calls = [], next_correlation_id = 1\<rparr> = (Done cursor, s1)"
      "set_fetch_all 5 ?net int_elements (is_page_size (sample_set True)) cursor =
        (Done (concat (takeWhile (\<lambda>p. p \<noteq> []) (if [1, 2 :: i32] = [] then [[3], [], [4]] else [1, 2] # [[3], [], [4]]))), s2)"
    and log: "calls s2 = ?start # set_page_log 9 (is_page_size (sample_set True)) (1 + 1) (asked_set_pages [[3], [], [4 :: i32]]) @
      (if asked_set_pages [[3], [], [4 :: i32]] < length [[3], [], [4 :: i32]]
       then [set_close_call 9 (1 + 1 + word_of_nat (asked_set_pages [[3], [], [4 :: i32]]))] else [])"
    by (auto simp: sample_set_def int_elements_def w_i32.read_write)
  have "map (\<lambda>(op, _, route). (op, route)) (calls s2) =
      [(OpSetIteratorStart, route_preferred_node (rstr ''node'')), (OpSetIteratorGetPage, route_default),
       (OpSetIteratorGetPage, route_default), (OpResourceClose, route_default)]"
    by (simp add: log asked_set_pages_def set_page_log_def set_page_call_def set_close_call_def request_call_def
        iteration_route_def route_of_def sample_set_def upt_rec)
  moreover have "set_fetch_all 5 ?net int_elements 2 cursor = (Done [1, 2, 3], s2)" using got(2) by (simp add: sample_set_def)
  ultimately show ?thesis using got(1) by (intro exI conjI)
qed

end
