(* ===== verification/BinaryTypes.thy ===== *)
theory BinaryTypes
  imports ServerModel ObjectDecoding
begin

text \<open>
  The binary object API of \<open>ignite-rs/src/binary.rs\<close>: metadata of types and its wire format, the requests that
  get and put it, enums, the conversion of a value to an object, and the builder of objects. The operations work
  on a session that carries the registry of the process (theory \<open>BinaryRegistry\<close>); \<open>lc\<close> is \<open>str::to_lowercase\<close>.
\<close>

section \<open>Metadata\<close>

datatype binary_name_mapper_mode = BasicFull | BasicSimple | CustomMapper | UnknownMapper u8

definition name_mapper_from_wire :: "u8 \<Rightarrow> binary_name_mapper_mode" where
  "name_mapper_from_wire v =
    (if v = 0 then BasicFull else if v = 1 then BasicSimple else if v = 2 then CustomMapper else UnknownMapper v)"

record binary_configuration_info =
  bc_compact_footer :: bool
  bc_name_mapper_mode :: binary_name_mapper_mode

record binary_field_metadata =
  bf_name :: rstring
  bf_type_id :: i32
  bf_field_id :: i32

record binary_schema =
  bsc_id :: i32
  bsc_field_ids :: "i32 list"

record binary_enum_variant =
  be_name :: rstring
  be_ordinal :: i32

record binary_type_metadata =
  bt_type_id :: i32
  bt_type_name :: rstring
  bt_affinity_key_field_name :: "rstring option"
  bt_fields :: "binary_field_metadata list"
  bt_is_enum :: bool
  bt_enum_values :: "binary_enum_variant list"
  bt_schemas :: "binary_schema list"

definition into_registered :: "binary_type_metadata \<Rightarrow> registered_type" where
  "into_registered self = \<lparr>rt_type_id = bt_type_id self, rt_type_name = bt_type_name self,
    rt_affinity_key_field_name = bt_affinity_key_field_name self,
    rt_fields = map (\<lambda>f. \<lparr>rf_name = bf_name f, rf_type_id = bf_type_id f, rf_field_id = bf_field_id f\<rparr>) (bt_fields self),
    rt_is_enum = bt_is_enum self,
    rt_enum_values = map (\<lambda>v. (be_name v, be_ordinal v)) (bt_enum_values self),
    rt_schemas = map (\<lambda>s. \<lparr>rs_id = bsc_id s, rs_field_ids = bsc_field_ids s\<rparr>) (bt_schemas self)\<rparr>"

definition from_registered :: "registered_type \<Rightarrow> binary_type_metadata" where
  "from_registered r = \<lparr>bt_type_id = rt_type_id r, bt_type_name = rt_type_name r,
    bt_affinity_key_field_name = rt_affinity_key_field_name r,
    bt_fields = map (\<lambda>f. \<lparr>bf_name = rf_name f, bf_type_id = rf_type_id f, bf_field_id = rf_field_id f\<rparr>) (rt_fields r),
    bt_is_enum = rt_is_enum r,
    bt_enum_values = map (\<lambda>(name, ordinal). \<lparr>be_name = name, be_ordinal = ordinal\<rparr>) (rt_enum_values r),
    bt_schemas = map (\<lambda>s. \<lparr>bsc_id = rs_id s, bsc_field_ids = rs_field_ids s\<rparr>) (rt_schemas r)\<rparr>"

definition metadata_from_schema :: "lowercase \<Rightarrow> complex_object_schema \<Rightarrow> binary_type_metadata" where
  "metadata_from_schema lc schema = from_registered (registered_type_from_schema lc schema)"

fun co_enum_ordinal :: "complex_object \<Rightarrow> i32 option" where
  "co_enum_ordinal (ComplexObject schema [IvEnum e]) = Some (enum_ordinal e)"
| "co_enum_ordinal _ = None"

definition co_is_enum :: "complex_object \<Rightarrow> bool" where
  "co_is_enum object \<longleftrightarrow> co_enum_ordinal object \<noteq> None"

definition binary_type_id :: "lowercase \<Rightarrow> rstring \<Rightarrow> i32" where
  "binary_type_id lc type_name = string_to_java_hashcode (lc type_name)"

definition metadata_from_object :: "lowercase \<Rightarrow> complex_object \<Rightarrow> binary_type_metadata" where
  "metadata_from_object lc object =
    (if co_is_enum object
     then \<lparr>bt_type_id = string_to_java_hashcode (lc (schema_type_name (co_schema object))),
           bt_type_name = schema_type_name (co_schema object), bt_affinity_key_field_name = None, bt_fields = [],
           bt_is_enum = True, bt_enum_values = [], bt_schemas = []\<rparr>
     else metadata_from_schema lc (co_schema object))"

section \<open>Wire format\<close>

definition write_field_metadata :: "binary_field_metadata \<Rightarrow> bytes" where
  "write_field_metadata f = string_write (bf_name f) @ write_i32 (bf_type_id f) @ write_i32 (bf_field_id f)"

definition write_enum_variant :: "binary_enum_variant \<Rightarrow> bytes" where
  "write_enum_variant v = string_write (be_name v) @ write_i32 (be_ordinal v)"

definition write_binary_schema :: "binary_schema \<Rightarrow> bytes" where
  "write_binary_schema s = write_i32 (bsc_id s) @ write_counted write_i32 (bsc_field_ids s)"

definition write_binary_metadata :: "binary_type_metadata \<Rightarrow> bytes" where
  "write_binary_metadata meta =
    write_i32 (bt_type_id meta) @ string_write (bt_type_name meta) @
    option_write string_write (bt_affinity_key_field_name meta) @
    write_counted write_field_metadata (bt_fields meta) @ write_bool (bt_is_enum meta) @
    (if bt_is_enum meta then write_counted write_enum_variant (bt_enum_values meta) else []) @
    write_counted write_binary_schema (bt_schemas meta)"

definition binary_metadata_size :: "binary_type_metadata \<Rightarrow> nat" where
  "binary_metadata_size meta =
    4 + string_size (bt_type_name meta) + option_size string_size (bt_affinity_key_field_name meta) + 4 +
    sum_list (map (\<lambda>f. string_size (bf_name f) + 4 + 4) (bt_fields meta)) + 1 +
    (if bt_is_enum meta then 4 + sum_list (map (\<lambda>v. string_size (be_name v) + 4) (bt_enum_values meta)) else 0) + 4 +
    sum_list (map (\<lambda>s. 4 + 4 + length (bsc_field_ids s) * 4) (bt_schemas meta))"

definition read_required_name :: "string \<Rightarrow> rstring reader" where
  "read_required_name msg = rbind (readable_read (read_type read_string)) (\<lambda>r. case r of
      Some name \<Rightarrow> ret name | None \<Rightarrow> fail (Ignite msg))"

definition read_field_metadata :: "binary_field_metadata reader" where
  "read_field_metadata = rbind (read_required_name ''binary metadata field name was null'') (\<lambda>name.
     rbind read_i32 (\<lambda>type_id. rbind read_i32 (\<lambda>field_id.
       ret \<lparr>bf_name = name, bf_type_id = type_id, bf_field_id = field_id\<rparr>)))"

definition read_enum_variant :: "binary_enum_variant reader" where
  "read_enum_variant = rbind (read_required_name ''binary enum value name was null'') (\<lambda>name.
     rbind read_i32 (\<lambda>ordinal. ret \<lparr>be_name = name, be_ordinal = ordinal\<rparr>))"

definition read_binary_schema :: "binary_schema reader" where
  "read_binary_schema = rbind read_i32 (\<lambda>sid. rbind (read_counted read_i32) (\<lambda>field_ids.
     ret \<lparr>bsc_id = sid, bsc_field_ids = field_ids\<rparr>))"

definition flatten_option :: "'a option option \<Rightarrow> 'a option" where
  "flatten_option v = (case v of Some x \<Rightarrow> x | None \<Rightarrow> None)"

definition read_binary_metadata :: "binary_type_metadata reader" where
  "read_binary_metadata =
    rbind read_i32 (\<lambda>type_id.
    rbind (read_required_name ''binary metadata type_name was null'') (\<lambda>type_name.
    rbind (rmap flatten_option (readable_read (option_read_unwrapped (read_type read_string)))) (\<lambda>affinity_key.
    rbind (read_counted read_field_metadata) (\<lambda>fields.
    rbind read_bool (\<lambda>is_enum.
    rbind (if is_enum then read_counted read_enum_variant else ret []) (\<lambda>enum_values.
    rbind (read_counted read_binary_schema) (\<lambda>schemas.
      ret \<lparr>bt_type_id = type_id, bt_type_name = type_name, bt_affinity_key_field_name = affinity_key, bt_fields = fields,
           bt_is_enum = is_enum, bt_enum_values = enum_values, bt_schemas = schemas\<rparr>)))))))"

definition binary_type_get_read :: "binary_type_metadata option reader" where
  "binary_type_get_read = rbind read_bool (\<lambda>has_meta. if \<not> has_meta then ret None else rmap Some read_binary_metadata)"

definition binary_configuration_read :: "binary_configuration_info reader" where
  "binary_configuration_read = rbind read_bool (\<lambda>compact_footer. rbind read_u8 (\<lambda>mode.
     ret \<lparr>bc_compact_footer = compact_footer, bc_name_mapper_mode = name_mapper_from_wire mode\<rparr>))"

definition string_resp_read :: "rstring reader" where
  "string_resp_read = read_required_name ''binary type name response was null''"

definition JAVA_PLATFORM_ID :: u8 where "JAVA_PLATFORM_ID = 0"

definition type_name_get_write :: "i32 \<Rightarrow> bytes" where
  "type_name_get_write type_id = write_u8 JAVA_PLATFORM_ID @ write_i32 type_id"

definition type_name_put_write :: "i32 \<Rightarrow> rstring \<Rightarrow> bytes" where
  "type_name_put_write type_id type_name = write_u8 JAVA_PLATFORM_ID @ write_i32 type_id @ string_write type_name"

definition type_name_put_size :: "rstring \<Rightarrow> nat" where
  "type_name_put_size type_name = 1 + 4 + string_size type_name"

section \<open>Operations\<close>

record bin_session = session +
  bin_registry :: registry

definition register :: "registered_type \<Rightarrow> (bin_session, unit) act" where
  "register meta s = (Done (), s\<lparr>bin_registry := register_type meta (bin_registry s)\<rparr>)"

definition bare_type :: "i32 \<Rightarrow> rstring \<Rightarrow> bool \<Rightarrow> registered_type" where
  "bare_type type_id type_name is_enum = \<lparr>rt_type_id = type_id, rt_type_name = type_name, rt_affinity_key_field_name = None,
    rt_fields = [], rt_is_enum = is_enum, rt_enum_values = [], rt_schemas = []\<rparr>"

definition build_enum :: "lowercase \<Rightarrow> rstring \<Rightarrow> i32 \<Rightarrow> (bin_session, complex_object) act" where
  "build_enum lc type_name ordinal = abind (register (bare_type (binary_type_id lc type_name) type_name True)) (\<lambda>_.
     aret (ComplexObject \<lparr>schema_type_name = type_name, schema_fields = []\<rparr>
       [IvEnum \<lparr>enum_type_id = binary_type_id lc type_name, enum_ordinal = ordinal\<rparr>]))"

definition unregistered_variant :: "rstring \<Rightarrow> rstring \<Rightarrow> conn_error" where
  "unregistered_variant variant_name type_name =
    CError (err_new (rstr ''Enum variant '' @ [39] @ variant_name @ [39] @ rstr '' for type '' @ [39] @ type_name @ [39] @ rstr '' is not registered''))"

definition build_enum_name :: "lowercase \<Rightarrow> rstring \<Rightarrow> rstring \<Rightarrow> (bin_session, complex_object) act" where
  "build_enum_name lc type_name variant_name s =
    (case Option.bind (type_by_id (bin_registry s) (binary_type_id lc type_name))
        (\<lambda>meta. map_option snd (find (\<lambda>(name, ordinal). name = variant_name) (rt_enum_values meta))) of
       Some ordinal \<Rightarrow> build_enum lc type_name ordinal s
     | None \<Rightarrow> (Failed (unregistered_variant variant_name type_name), s))"

text \<open>\<open>to_binary\<close>: the value is written (which registers the schemas of objects) and read back as an object.\<close>

definition to_binary :: "writer \<Rightarrow> sizer \<Rightarrow> (bin_session, complex_object) act" where
  "to_binary w sz s =
    (case sz (bin_registry s) of
       (None, reg) \<Rightarrow> (Panicked, s\<lparr>bin_registry := reg\<rparr>)
     | (Some _, reg) \<Rightarrow> (case w reg of
         (Inl e, reg') \<Rightarrow> (Failed (CDecode (IoE e)), s\<lparr>bin_registry := reg'\<rparr>)
       | (Inr payload, reg') \<Rightarrow>
           (decoded ((rbind read_type_code
              (\<lambda>tc. rbind (co_read_unwrapped reg' tc) (\<lambda>r. case r of
                 Some object \<Rightarrow> ret object
               | None \<Rightarrow> fail (Ignite ''binary conversion returned null'')))) payload), s\<lparr>bin_registry := reg'\<rparr>)))"

definition put_type :: "transport \<Rightarrow> binary_type_metadata \<Rightarrow> (bin_session, unit) act" where
  "put_type net meta = abind (send net OpPutBinaryType (wr (write_binary_metadata meta)) (sret (binary_metadata_size meta)))
    (\<lambda>_. register (into_registered meta))"

definition register_enum ::
    "transport \<Rightarrow> lowercase \<Rightarrow> rstring \<Rightarrow> binary_enum_variant list \<Rightarrow> (bin_session, binary_type_metadata) act" where
  "register_enum net lc type_name variants =
    (let meta = \<lparr>bt_type_id = binary_type_id lc type_name, bt_type_name = type_name, bt_affinity_key_field_name = None,
           bt_fields = [], bt_is_enum = True, bt_enum_values = variants,
           bt_schemas = [\<lparr>bsc_id = get_schema_id lc (map (\<lambda>v. \<lparr>field_name = be_name v, field_type = ItEnum\<rparr>) variants),
             bsc_field_ids = map (\<lambda>v. string_to_java_hashcode (lc (be_name v))) variants\<rparr>]\<rparr>
     in abind (put_type net meta) (\<lambda>_. aret meta))"

definition get_binary_configuration :: "transport \<Rightarrow> bool \<Rightarrow> (bin_session, binary_configuration_info) act" where
  "get_binary_configuration net supported =
    (if \<not> supported then afail (client_error ''BINARY_CONFIGURATION is not supported by the server'')
     else send_and_read net binary_configuration_read OpGetBinaryConfiguration (wr []) (sret 0))"

definition get_type_name :: "transport \<Rightarrow> i32 \<Rightarrow> (bin_session, rstring) act" where
  "get_type_name net type_id s = (case registry_type_name (bin_registry s) type_id of
      Some name \<Rightarrow> (Done name, s)
    | None \<Rightarrow>
        abind (send_and_read net string_resp_read OpGetBinaryTypeName (wr (type_name_get_write type_id)) (sret (1 + 4)))
          (\<lambda>name. abind (register (bare_type type_id name False)) (\<lambda>_. aret name)) s)"

definition register_type_name :: "transport \<Rightarrow> i32 \<Rightarrow> rstring \<Rightarrow> (bin_session, bool) act" where
  "register_type_name net type_id type_name =
    abind (send_and_read net read_bool OpRegisterBinaryTypeName (wr (type_name_put_write type_id type_name)) (sret (type_name_put_size type_name)))
      (\<lambda>accepted. if accepted then abind (register (bare_type type_id type_name False)) (\<lambda>_. aret accepted) else aret accepted)"

definition get_type :: "transport \<Rightarrow> i32 \<Rightarrow> (bin_session, binary_type_metadata option) act" where
  "get_type net type_id s = (case type_by_id (bin_registry s) type_id of
      Some registered \<Rightarrow> (Done (Some (from_registered registered)), s)
    | None \<Rightarrow>
        abind (send_and_read net binary_type_get_read OpGetBinaryType (wr (write_i32 type_id)) (sret 4))
          (\<lambda>meta. case meta of
             Some m \<Rightarrow> abind (register (into_registered m)) (\<lambda>_. aret (Some m))
           | None \<Rightarrow> aret None) s)"

definition register_object_type :: "transport \<Rightarrow> lowercase \<Rightarrow> complex_object \<Rightarrow> (bin_session, unit) act" where
  "register_object_type net lc object = put_type net (metadata_from_object lc object)"

section \<open>The builder\<close>

record binary_object_builder =
  bb_type_name :: rstring
  bb_fields :: "(rstring \<times> ignite_value) list"

definition builder_new :: "rstring \<Rightarrow> binary_object_builder" where
  "builder_new type_name = \<lparr>bb_type_name = type_name, bb_fields = []\<rparr>"

definition set_field_value :: "binary_object_builder \<Rightarrow> rstring \<Rightarrow> ignite_value \<Rightarrow> binary_object_builder" where
  "set_field_value self name v = self\<lparr>bb_fields := bb_fields self @ [(name, v)]\<rparr>"

definition builder_schema :: "binary_object_builder \<Rightarrow> complex_object_schema" where
  "builder_schema self = \<lparr>schema_type_name = bb_type_name self,
    schema_fields = map (\<lambda>(name, v). \<lparr>field_name = name, field_type = ignite_type_of v\<rparr>) (bb_fields self)\<rparr>"

definition build_object :: "lowercase \<Rightarrow> binary_object_builder \<Rightarrow> registry \<Rightarrow> complex_object \<times> registry" where
  "build_object lc self reg = (ComplexObject (builder_schema self) (map snd (bb_fields self)), register_complex_schema lc (builder_schema self) reg)"

definition value_from_option :: "('a \<Rightarrow> ignite_value) \<Rightarrow> 'a option \<Rightarrow> ignite_value" where
  "value_from_option into v = (case v of Some x \<Rightarrow> into x | None \<Rightarrow> IvNull)"

section \<open>Round trip of metadata\<close>

definition ok_metadata :: "binary_type_metadata \<Rightarrow> bool" where
  "ok_metadata meta \<longleftrightarrow> ok_string (bt_type_name meta) \<and> pred_option ok_string (bt_affinity_key_field_name meta) \<and>
    ok_counted (\<lambda>f. ok_string (bf_name f)) (bt_fields meta) \<and> ok_counted (\<lambda>v. ok_string (be_name v)) (bt_enum_values meta) \<and>
    ok_counted (\<lambda>s. ok_counted (\<lambda>_. True) (bsc_field_ids s)) (bt_schemas meta) \<and>
    (bt_is_enum meta \<or> bt_enum_values meta = [])"

lemma read_name_back: "ok_string name \<Longrightarrow> read_required_name msg (string_write name @ s) = Ok name s"
  by (simp add: read_required_name_def rbind_Ok w_string.read_write)

lemma shrinks_read_name [progress_intros]: "shrinks 0 (read_required_name msg)"
  unfolding read_required_name_def by (auto intro!: progress_intros shrinks_readable_read read_type_string_laws split: option.split)

lemma fueled_read_name [fuel_intros]: "fueled L (read_required_name msg)"
  unfolding read_required_name_def
  by (auto intro!: fuel_intros progress_intros shrinks_readable_read fueled_readable_read read_type_string_laws split: option.split)

interpretation c_meta_field: codec write_field_metadata read_field_metadata "\<lambda>f. ok_string (bf_name f)"
  by unfold_locales
    (auto simp: write_field_metadata_def read_field_metadata_def rbind_Ok read_name_back intro!: progress_intros fuel_intros)

interpretation c_enum_variant: codec write_enum_variant read_enum_variant "\<lambda>v. ok_string (be_name v)"
  by unfold_locales
    (auto simp: write_enum_variant_def read_enum_variant_def rbind_Ok read_name_back intro!: progress_intros fuel_intros)

interpretation c_ids: codec "write_counted write_i32" "read_counted read_i32" "ok_counted (\<lambda>_. True)"
  by (rule i32.counted)

interpretation c_binary_schema: codec write_binary_schema read_binary_schema "\<lambda>s. ok_counted (\<lambda>_. True) (bsc_field_ids s)"
  by unfold_locales
    (auto simp: write_binary_schema_def read_binary_schema_def rbind_Ok c_ids.dec_enc intro!: progress_intros fuel_intros c_ids.dec_shrinks c_ids.dec_fueled)

lemma metadata_back:
  assumes "ok_metadata meta"
  shows "read_binary_metadata (write_binary_metadata meta @ s) = Ok meta s"
proof -
  have "rmap flatten_option (readable_read (option_read_unwrapped (read_type read_string)))
      (option_write string_write (bt_affinity_key_field_name meta) @ t) = Ok (bt_affinity_key_field_name meta) t" for t
    using w_string.option_read_write [of "bt_affinity_key_field_name meta" t] assms
    by (auto simp: ok_metadata_def rmap_Ok flatten_option_def split: option.split)
  then show ?thesis
    using assms c_enum_variant.counted
    by (auto simp: read_binary_metadata_def write_binary_metadata_def rbind_Ok read_name_back ok_metadata_def
        codec.dec_enc [OF c_meta_field.counted] codec.dec_enc [OF c_enum_variant.counted] codec.dec_enc [OF c_binary_schema.counted])
qed

lemma length_counted: "length (write_counted enc xs) = 4 + sum_list (map (\<lambda>x. length (enc x)) xs)"
  by (simp add: write_counted_def length_concat comp_def)

lemma length_binary_metadata: "length (write_binary_metadata meta) = binary_metadata_size meta"
proof -
  have "length (write_counted write_i32 ids) = 4 + length ids * 4" for ids
    by (simp add: length_counted sum_list_triv)
  then show ?thesis
    by (simp add: write_binary_metadata_def binary_metadata_size_def length_counted write_field_metadata_def write_enum_variant_def
        write_binary_schema_def w_string.size_write w_string.option_length add.assoc)
qed

lemma registered_back [simp]: "from_registered (into_registered meta) = meta"
  by (cases meta) (auto simp: from_registered_def into_registered_def comp_def intro!: map_idI)

lemma metadata_type_id [simp]: "rt_type_id (into_registered meta) = bt_type_id meta"
  by (simp add: into_registered_def)

section \<open>A server that knows the types\<close>

definition catalog_service :: "(i32 \<rightharpoonup> binary_type_metadata) service" where
  "catalog_service op payload known =
    (if op = OpGetBinaryType then
       (case read_i32 payload of
          Ok type_id _ \<Rightarrow> Some (Success, (case known type_id of Some m \<Rightarrow> write_bool True @ write_binary_metadata m | None \<Rightarrow> write_bool False), known)
        | _ \<Rightarrow> None)
     else if op = OpGetBinaryTypeName then
       (case read_i32 (drop 1 payload) of
          Ok type_id _ \<Rightarrow> map_option (\<lambda>m. (Success, string_write (bt_type_name m), known)) (known type_id)
        | _ \<Rightarrow> None)
     else if op = OpPutBinaryType then
       (case read_binary_metadata payload of
          Ok m _ \<Rightarrow> if known (bt_type_id m) = None then Some (Success, [], known(bt_type_id m \<mapsto> m)) else None
        | _ \<Rightarrow> None)
     else None)"

locale catalog_server = stateful_server net catalog_service state_of
  for net :: transport and state_of :: "call list \<Rightarrow> (i32 \<rightharpoonup> binary_type_metadata)"
begin

lemma perform_read:
  assumes "length payload = n" and "catalog_service op payload (state_of (calls s)) = Some (Success, reply, st)" and "rd reply = Ok x rest"
  shows "\<exists>s'. send_and_read net rd op (wr payload) (sret n) s = (Done x, s') \<and> state_of (calls s') = st \<and>
    length (calls s') = Suc (length (calls s)) \<and> bin_registry s' = bin_registry s"
proof -
  obtain addr s' where p: "perform net op (wr payload) (sret n) route_default s = (Done (Success, reply, 0, addr), s')" "state_of (calls s') = st"
      "calls s' = calls s @ [request_call op (next_correlation_id s) payload route_default]"
    using perform_served [where route = route_default and s = s and op = op, OF sized_wr [OF assms(1)] run_wr assms(2)] by metis
  moreover have "bin_registry s' = bin_registry s" using perform_frame [of net op "wr payload" "sret n" route_default s] p(1) by auto
  ultimately show ?thesis using assms(3)
    by (auto simp: send_and_read_def send_and_read_with_route_def abind_def decoded_def)
qed

lemma get_type_asks:
  assumes "bin_registry s tid = None" and "state_of (calls s) tid = Some m" and "ok_metadata m" and "bt_type_id m = tid"
  shows "\<exists>s'. get_type net tid s = (Done (Some m), s') \<and> state_of (calls s') = state_of (calls s) \<and>
    length (calls s') = Suc (length (calls s)) \<and> bin_registry s' = (bin_registry s)(tid \<mapsto> into_registered m)"
proof -
  have "binary_type_get_read (write_bool True @ write_binary_metadata m) = Ok (Some m) []"
    using metadata_back [OF assms(3), of "[]"] by (simp add: binary_type_get_read_def rbind_Ok rmap_Ok)
  moreover have "catalog_service OpGetBinaryType (write_i32 tid) (state_of (calls s)) =
      Some (Success, write_bool True @ write_binary_metadata m, state_of (calls s))"
    using i32.dec_enc_any [of tid "[]"] by (simp add: catalog_service_def assms(2))
  ultimately show ?thesis
    using perform_read [where s = s and n = 4 and payload = "write_i32 tid" and rd = binary_type_get_read and op = OpGetBinaryType] assms(1,4)
    by (fastforce simp: get_type_def type_by_id_def abind_def register_def register_type_def)
qed

lemma get_type_unknown:
  assumes "bin_registry s tid = None" and "state_of (calls s) tid = None"
  shows "\<exists>s'. get_type net tid s = (Done None, s') \<and> state_of (calls s') = state_of (calls s) \<and>
    length (calls s') = Suc (length (calls s)) \<and> bin_registry s' = bin_registry s"
proof -
  have "binary_type_get_read (write_bool False) = Ok None []" using bool.dec_enc_any [of False "[]"] by (simp add: binary_type_get_read_def rbind_def)
  moreover have "catalog_service OpGetBinaryType (write_i32 tid) (state_of (calls s)) = Some (Success, write_bool False, state_of (calls s))"
    using i32.dec_enc_any [of tid "[]"] by (simp add: catalog_service_def assms(2))
  ultimately show ?thesis
    using perform_read [where s = s and n = 4 and payload = "write_i32 tid" and rd = binary_type_get_read and op = OpGetBinaryType] assms(1)
    by (fastforce simp: get_type_def type_by_id_def abind_def)
qed

lemma get_type_name_asks:
  assumes "bin_registry s tid = None" and "state_of (calls s) tid = Some m" and "ok_metadata m"
  shows "\<exists>s'. get_type_name net tid s = (Done (bt_type_name m), s') \<and> state_of (calls s') = state_of (calls s) \<and>
    length (calls s') = Suc (length (calls s)) \<and> bin_registry s' = (bin_registry s)(tid \<mapsto> bare_type tid (bt_type_name m) False)"
proof -
  have "string_resp_read (string_write (bt_type_name m)) = Ok (bt_type_name m) []"
    using read_name_back [of "bt_type_name m" _ "[]"] assms(3) by (simp add: string_resp_read_def ok_metadata_def)
  moreover have "catalog_service OpGetBinaryTypeName (type_name_get_write tid) (state_of (calls s)) =
      Some (Success, string_write (bt_type_name m), state_of (calls s))"
    using i32.dec_enc_any [of tid "[]"] by (simp add: catalog_service_def type_name_get_write_def assms(2))
  ultimately show ?thesis
    using perform_read [where s = s and n = "1 + 4" and payload = "type_name_get_write tid" and rd = string_resp_read and op = OpGetBinaryTypeName] assms(1)
    by (fastforce simp: get_type_name_def registry_type_name_def type_by_id_def abind_def register_def register_type_def bare_type_def type_name_get_write_def)
qed

lemma put_type_known:
  assumes "bin_registry s (bt_type_id m) = None" and "state_of (calls s) (bt_type_id m) = None" and "ok_metadata m"
  shows "\<exists>s'. put_type net m s = (Done (), s') \<and> state_of (calls s') = (state_of (calls s))(bt_type_id m \<mapsto> m) \<and>
    bin_registry s' = (bin_registry s)(bt_type_id m \<mapsto> into_registered m)"
proof -
  have "catalog_service OpPutBinaryType (write_binary_metadata m) (state_of (calls s)) = Some (Success, [], (state_of (calls s))(bt_type_id m \<mapsto> m))"
    using metadata_back [OF assms(3), of "[]"] by (simp add: catalog_service_def assms(2))
  then obtain addr s' where p: "perform net OpPutBinaryType (wr (write_binary_metadata m)) (sret (binary_metadata_size m)) route_default s =
      (Done (Success, [], 0, addr), s')" "state_of (calls s') = (state_of (calls s))(bt_type_id m \<mapsto> m)"
    using perform_served [where route = route_default and s = s, OF sized_wr [OF length_binary_metadata] run_wr] by metis
  moreover have "bin_registry s' = bin_registry s"
    using perform_frame [of net OpPutBinaryType "wr (write_binary_metadata m)" "sret (binary_metadata_size m)" route_default s] p(1) by auto
  ultimately show ?thesis using assms(1)
    by (auto simp: put_type_def send_def send_with_route_def abind_def register_def register_type_def)
qed

end

section \<open>Properties\<close>

text \<open>Metadata of binary types on the wire. Metadata whose names and counts fit the protocol, with enum
  constants for an enum only, is read back as it was written, whatever follows, and is announced with the size it
  has.\<close>
theorem metadata_round_trip:
  assumes "ok_metadata meta"
  shows "read_binary_metadata (write_binary_metadata meta @ s) = Ok meta s \<and>
    length (write_binary_metadata meta) = binary_metadata_size meta \<and> from_registered (into_registered meta) = meta"
  using assms by (simp add: metadata_back length_binary_metadata)

text \<open>C27: Looking up types. With a server that knows the types, a type that the client has not seen is asked for
  once, returned as the server has it, and answered from the registry afterwards; a type that is put is there. But
  once the client has only asked for the name of a type, the metadata that it returns for it has no fields and
  no schemas, whatever the server knows, and the server is not asked.\<close>
theorem types_looked_up:
  assumes "stateful_server net catalog_service state_of" and "bin_registry s tid = None" and "bt_type_id m = tid" and "ok_metadata m"
  shows "(state_of (calls s) tid = Some m \<longrightarrow>
      (\<exists>s1. get_type net tid s = (Done (Some m), s1) \<and> length (calls s1) = Suc (length (calls s)) \<and>
         get_type net tid s1 = (Done (Some m), s1)) \<and>
      (\<exists>s2. get_type_name net tid s = (Done (bt_type_name m), s2) \<and>
         get_type net tid s2 = (Done (Some (from_registered (bare_type tid (bt_type_name m) False))), s2))) \<and>
    (state_of (calls s) tid = None \<longrightarrow>
      (\<exists>s1. get_type net tid s = (Done None, s1) \<and>
        (\<exists>s2. put_type net m s1 = (Done (), s2) \<and> state_of (calls s2) tid = Some m \<and> get_type net tid s2 = (Done (Some m), s2))))"
proof -
  have srv: "catalog_server net state_of" using assms(1) by (simp add: catalog_server_def)
  have cached: "get_type net tid s' = (Done (Some (from_registered r)), s')" if "bin_registry s' tid = Some r" for s' r
    using that by (simp add: get_type_def type_by_id_def)
  have known: "\<exists>s1. get_type net tid s = (Done (Some m), s1) \<and> length (calls s1) = Suc (length (calls s)) \<and>
         get_type net tid s1 = (Done (Some m), s1)"
    and named: "\<exists>s2. get_type_name net tid s = (Done (bt_type_name m), s2) \<and>
         get_type net tid s2 = (Done (Some (from_registered (bare_type tid (bt_type_name m) False))), s2)"
    if "state_of (calls s) tid = Some m"
    using catalog_server.get_type_asks [OF srv assms(2) that assms(4,3)] catalog_server.get_type_name_asks [OF srv assms(2) that assms(4)]
    by (fastforce simp: cached)+
  have unknown: "\<exists>s1. get_type net tid s = (Done None, s1) \<and>
      (\<exists>s2. put_type net m s1 = (Done (), s2) \<and> state_of (calls s2) tid = Some m \<and> get_type net tid s2 = (Done (Some m), s2))"
    if none: "state_of (calls s) tid = None"
  proof -
    obtain s1 where s1: "get_type net tid s = (Done None, s1)" "state_of (calls s1) tid = None" "bin_registry s1 tid = None"
      using catalog_server.get_type_unknown [OF srv assms(2) none] none assms(2) by auto
    then obtain s2 where "put_type net m s1 = (Done (), s2)" "state_of (calls s2) tid = Some m" "bin_registry s2 tid = Some (into_registered m)"
      using catalog_server.put_type_known [OF srv, of s1 m] assms(3,4) by auto
    with s1 cached [of s2] show ?thesis by auto
  qed
  show ?thesis using known named unknown by blast
qed

definition sample_metadata :: binary_type_metadata where
  "sample_metadata = \<lparr>bt_type_id = 42, bt_type_name = rstr ''P'', bt_affinity_key_field_name = Some (rstr ''id''),
    bt_fields = [\<lparr>bf_name = rstr ''id'', bf_type_id = 3, bf_field_id = 7\<rparr>], bt_is_enum = False, bt_enum_values = [],
    bt_schemas = [\<lparr>bsc_id = 13, bsc_field_ids = [7]\<rparr>]\<rparr>"

lemma sample_metadata_ok: "ok_metadata sample_metadata"
  by (simp add: ok_metadata_def sample_metadata_def ok_counted_def ok_string_def valid_rstring_def str_len_def rstr_def scalar_def utf8_char_def)

theorem metadata_round_trip_witness: "read_binary_metadata (write_binary_metadata sample_metadata @ [1]) = Ok sample_metadata [1]"
  using metadata_round_trip [OF sample_metadata_ok, of "[1]"] by simp

theorem types_looked_up_witness:
  "\<exists>s2. get_type_name (replay_net catalog_service [42 \<mapsto> sample_metadata]) 42
      \<lparr>calls = [], next_correlation_id = 1, bin_registry = Map.empty\<rparr> = (Done (rstr ''P''), s2) \<and>
    map_option bt_fields (case get_type (replay_net catalog_service [42 \<mapsto> sample_metadata]) 42 s2 of (Done r, _) \<Rightarrow> r | _ \<Rightarrow> None) = Some []"
  using types_looked_up [OF replay.stateful_server_axioms, of "\<lparr>calls = [], next_correlation_id = 1, bin_registry = Map.empty\<rparr>" 42 sample_metadata
      "[42 \<mapsto> sample_metadata]"] sample_metadata_ok
  by (auto simp: replay_state_def sample_metadata_def from_registered_def bare_type_def)

end
