(* ===== verification/ReplicationInvoke.thy ===== *)
theory ReplicationInvoke
  imports BinaryTypes CacheQueries
begin

text \<open>
  Conflict operations and entry processors: \<open>ignite-rs/src/replication.rs\<close> and \<open>ignite-rs/src/invoke.rs\<close> with the
  operations of \<open>CacheCore\<close> in \<open>cache.rs\<close> that send them. Whether the server has the feature is an argument.
\<close>

section \<open>Versions\<close>

definition GRID_CACHE_VERSION_TYPE_NAME :: rstring where
  "GRID_CACHE_VERSION_TYPE_NAME = rstr ''org.apache.ignite.internal.processors.cache.version.GridCacheVersion''"

definition NODE_ORDER_MASK :: i32 where "NODE_ORDER_MASK = 0x07FFFFFF"
definition DR_ID_SHIFT :: nat where "DR_ID_SHIFT = 27"
definition EXPIRE_TIME_ETERNAL :: i64 where "EXPIRE_TIME_ETERNAL = 0"

record cache_version =
  cv_topology_version :: i32
  cv_order :: i64
  cv_node_order :: i32
  cv_data_center_id :: u8

text \<open>\<open>CacheVersion::new\<close> asserts its arguments: \<open>None\<close> is the panic.\<close>

definition cache_version_new :: "i32 \<Rightarrow> i64 \<Rightarrow> i32 \<Rightarrow> u8 \<Rightarrow> cache_version option" where
  "cache_version_new top_ver order node_order data_center_id =
    (if \<not> 0 \<le>s node_order then None
     else if \<not> node_order \<le>s NODE_ORDER_MASK then None
     else if \<not> data_center_id < 32 then None
     else Some \<lparr>cv_topology_version = top_ver, cv_order = order, cv_node_order = node_order,
       cv_data_center_id = data_center_id\<rparr>)"

definition node_order_dr_id :: "cache_version \<Rightarrow> i32" where
  "node_order_dr_id self = cv_node_order self OR push_bit DR_ID_SHIFT (ucast (cv_data_center_id self))"

definition version_builder :: "cache_version \<Rightarrow> binary_object_builder" where
  "version_builder self =
    set_field_value (set_field_value (set_field_value (builder_new GRID_CACHE_VERSION_TYPE_NAME)
      (rstr ''topVer'') (IvInt (cv_topology_version self)))
      (rstr ''nodeOrderDrId'') (IvInt (node_order_dr_id self)))
      (rstr ''order'') (IvLong (cv_order self))"

definition version_write :: "lowercase \<Rightarrow> cache_version \<Rightarrow> writer" where
  "version_write lc self reg = (case build_object lc (version_builder self) reg of (object, reg') \<Rightarrow> write_object lc object reg')"

definition version_size :: "lowercase \<Rightarrow> cache_version \<Rightarrow> sizer" where
  "version_size lc self reg = (case build_object lc (version_builder self) reg of (object, reg') \<Rightarrow> object_size lc object reg')"

record 'v conflict_entry =
  ce_value :: 'v
  ce_version :: cache_version
  ce_expire_time :: i64

definition conflict_entry_new :: "'v \<Rightarrow> cache_version \<Rightarrow> 'v conflict_entry" where
  "conflict_entry_new v version = \<lparr>ce_value = v, ce_version = version, ce_expire_time = EXPIRE_TIME_ETERNAL\<rparr>"

section \<open>Conflict requests\<close>

definition write_conflict :: "lowercase \<Rightarrow> ('k \<Rightarrow> writer) \<Rightarrow> ('v \<Rightarrow> writer) \<Rightarrow> 'k \<times> 'v conflict_entry \<Rightarrow> writer" where
  "write_conflict lc wk wv = (\<lambda>(key, entry).
    wthen (wk key) (wthen (wv (ce_value entry)) (wthen (version_write lc (ce_version entry)) (wr (write_i64 (ce_expire_time entry))))))"

definition size_conflict :: "lowercase \<Rightarrow> ('k \<Rightarrow> sizer) \<Rightarrow> ('v \<Rightarrow> sizer) \<Rightarrow> 'k \<times> 'v conflict_entry \<Rightarrow> sizer" where
  "size_conflict lc sk sv = (\<lambda>(key, entry).
    sadd (sk key) (sadd (sv (ce_value entry)) (sadd (version_size lc (ce_version entry)) (sret 8))))"

definition put_all_conflict_write ::
    "lowercase \<Rightarrow> ('k \<Rightarrow> writer) \<Rightarrow> ('v \<Rightarrow> writer) \<Rightarrow> cache_info \<Rightarrow> ('k \<times> 'v conflict_entry) list \<Rightarrow> writer" where
  "put_all_conflict_write lc wk wv info entries =
    wthen (wr (write_cache_info info @ write_i32 (i32_of_usize (length entries)))) (wseq (map (write_conflict lc wk wv) entries))"

definition put_all_conflict_size ::
    "lowercase \<Rightarrow> ('k \<Rightarrow> sizer) \<Rightarrow> ('v \<Rightarrow> sizer) \<Rightarrow> cache_info \<Rightarrow> ('k \<times> 'v conflict_entry) list \<Rightarrow> sizer" where
  "put_all_conflict_size lc sk sv info entries =
    sadd (sret (cache_info_size info + 4)) (sseq (map (size_conflict lc sk sv) entries))"

definition write_removal :: "lowercase \<Rightarrow> ('k \<Rightarrow> writer) \<Rightarrow> 'k \<times> cache_version \<Rightarrow> writer" where
  "write_removal lc wk = (\<lambda>(key, version). wthen (wk key) (version_write lc version))"

definition size_removal :: "lowercase \<Rightarrow> ('k \<Rightarrow> sizer) \<Rightarrow> 'k \<times> cache_version \<Rightarrow> sizer" where
  "size_removal lc sk = (\<lambda>(key, version). sadd (sk key) (version_size lc version))"

definition remove_all_conflict_write ::
    "lowercase \<Rightarrow> ('k \<Rightarrow> writer) \<Rightarrow> cache_info \<Rightarrow> ('k \<times> cache_version) list \<Rightarrow> writer" where
  "remove_all_conflict_write lc wk info entries =
    wthen (wr (write_cache_info info @ write_i32 (i32_of_usize (length entries)))) (wseq (map (write_removal lc wk) entries))"

definition remove_all_conflict_size ::
    "lowercase \<Rightarrow> ('k \<Rightarrow> sizer) \<Rightarrow> cache_info \<Rightarrow> ('k \<times> cache_version) list \<Rightarrow> sizer" where
  "remove_all_conflict_size lc sk info entries =
    sadd (sret (cache_info_size info + 4)) (sseq (map (size_removal lc sk) entries))"

section \<open>Entry processors\<close>

datatype 'v invoke_all_result = InvokeValue "'v option" | InvokeError rstring

definition JAVA_CLIENT_PLATFORM :: u8 where "JAVA_CLIENT_PLATFORM = 1"

text \<open>What follows the keys: the processor, the platform and the arguments.\<close>

definition processor_write :: "lowercase \<Rightarrow> complex_object \<Rightarrow> ignite_value list \<Rightarrow> writer" where
  "processor_write lc processor args =
    wthen (write_object lc processor)
      (wthen (wr (write_u8 JAVA_CLIENT_PLATFORM @ write_i32 (i32_of_usize (length args)))) (write_values lc args))"

definition processor_size :: "lowercase \<Rightarrow> complex_object \<Rightarrow> ignite_value list \<Rightarrow> sizer" where
  "processor_size lc processor args = sadd (object_size lc processor) (sadd (sret (1 + 4)) (values_size lc args))"

definition invoke_write ::
    "lowercase \<Rightarrow> ('k \<Rightarrow> writer) \<Rightarrow> cache_info \<Rightarrow> 'k \<Rightarrow> complex_object \<Rightarrow> ignite_value list \<Rightarrow> writer" where
  "invoke_write lc wk info key processor args =
    wthen (wr (write_cache_info info)) (wthen (wk key) (processor_write lc processor args))"

definition invoke_size ::
    "lowercase \<Rightarrow> ('k \<Rightarrow> sizer) \<Rightarrow> cache_info \<Rightarrow> 'k \<Rightarrow> complex_object \<Rightarrow> ignite_value list \<Rightarrow> sizer" where
  "invoke_size lc sk info key processor args =
    sadd (sret (cache_info_size info)) (sadd (sk key) (processor_size lc processor args))"

definition invoke_all_write ::
    "lowercase \<Rightarrow> ('k \<Rightarrow> writer) \<Rightarrow> cache_info \<Rightarrow> bytes option \<Rightarrow> 'k list \<Rightarrow> complex_object \<Rightarrow> ignite_value list \<Rightarrow> writer" where
  "invoke_all_write lc wk info first_key remaining_keys processor args =
    wthen (wr (write_cache_info info @ write_i32 (i32_of_usize ((if first_key \<noteq> None then 1 else 0) + length remaining_keys))))
      (wthen (case first_key of Some kb \<Rightarrow> wr kb | None \<Rightarrow> wr [])
        (wthen (wseq (map wk remaining_keys)) (processor_write lc processor args)))"

definition invoke_all_size ::
    "lowercase \<Rightarrow> ('k \<Rightarrow> sizer) \<Rightarrow> cache_info \<Rightarrow> bytes option \<Rightarrow> 'k list \<Rightarrow> complex_object \<Rightarrow> ignite_value list \<Rightarrow> sizer" where
  "invoke_all_size lc sk info first_key remaining_keys processor args =
    sadd (sret (cache_info_size info + 4)) (sadd (sret (case first_key of Some kb \<Rightarrow> length kb | None \<Rightarrow> 0))
      (sadd (sseq (map sk remaining_keys)) (processor_size lc processor args)))"

definition read_invoke_entry :: "'k option reader \<Rightarrow> 'v option reader \<Rightarrow> ('k option \<times> 'v invoke_all_result) reader" where
  "read_invoke_entry rk rv = rbind rk (\<lambda>key. rbind read_bool (\<lambda>success.
     if success then rmap (\<lambda>v. (key, InvokeValue v)) rv else rmap (\<lambda>msg. (key, InvokeError msg)) read_string))"

definition invoke_all_read :: "'k option reader \<Rightarrow> 'v option reader \<Rightarrow> ('k option \<times> 'v invoke_all_result) list reader" where
  "invoke_all_read rk rv = read_counted (read_invoke_entry rk rv)"

section \<open>Operations of a cache\<close>

definition put_all_conflict ::
    "transport \<Rightarrow> bool \<Rightarrow> ('k, 'v) cache_core \<Rightarrow> ('k \<times> 'v conflict_entry) list \<Rightarrow> (tx_session, unit) act" where
  "put_all_conflict net supported self entries =
    abind (ensure_tx_cache_ops_allowed self) (\<lambda>_.
      if \<not> supported then afail (client_error ''DATA_REPLICATION_OPERATIONS is not supported by the server'')
      else abind (tx_route self) (\<lambda>route.
        map_tx_err self (send_with_route net OpCachePutAllConflict
          (put_all_conflict_write (core_lc self) (core_wk self) (core_wv self) (cache_info_of self False) entries)
          (put_all_conflict_size (core_lc self) (core_sk self) (core_sv self) (cache_info_of self False) entries) (or_default route))))"

definition remove_all_conflict ::
    "transport \<Rightarrow> bool \<Rightarrow> ('k, 'v) cache_core \<Rightarrow> ('k \<times> cache_version) list \<Rightarrow> (tx_session, unit) act" where
  "remove_all_conflict net supported self entries =
    abind (ensure_tx_cache_ops_allowed self) (\<lambda>_.
      if \<not> supported then afail (client_error ''DATA_REPLICATION_OPERATIONS is not supported by the server'')
      else abind (tx_route self) (\<lambda>route.
        map_tx_err self (send_with_route net OpCacheRemoveAllConflict
          (remove_all_conflict_write (core_lc self) (core_wk self) (cache_info_of self False) entries)
          (remove_all_conflict_size (core_lc self) (core_sk self) (cache_info_of self False) entries) (or_default route))))"

definition invoke_binary ::
    "transport \<Rightarrow> node_lookup \<Rightarrow> bool \<Rightarrow> ('k, 'v) cache_core \<Rightarrow> 'r option reader \<Rightarrow> 'k \<Rightarrow> complex_object \<Rightarrow> ignite_value list \<Rightarrow>
     (tx_session, 'r option) act" where
  "invoke_binary net aff supported self rd key processor args =
    abind (ensure_tx_cache_ops_allowed self) (\<lambda>_.
      if \<not> supported then afail (client_error ''CACHE_INVOKE is not supported by the server'')
      else abind (prepare_key_route aff self key True) (\<lambda>(prepared_key, route).
        map_tx_err self (send_and_read_with_route net (cache_data_object_read rd) OpCacheInvoke
          (invoke_write (core_lc self) wr (cache_info_of self False) prepared_key processor args)
          (invoke_size (core_lc self) (\<lambda>kb. sret (length kb)) (cache_info_of self False) prepared_key processor args) route)))"

definition prepare_first :: "('k, 'v) cache_core \<Rightarrow> 'k list \<Rightarrow> (tx_session, bytes option \<times> 'k list) act" where
  "prepare_first self keys = (case keys of
      first # remaining \<Rightarrow> abind (marshal_key (core_wk self) (core_sk self) first) (\<lambda>kb. aret (Some kb, remaining))
    | [] \<Rightarrow> aret (None, []))"

definition invoke_all_binary ::
    "transport \<Rightarrow> node_lookup \<Rightarrow> bool \<Rightarrow> ('k, 'v) cache_core \<Rightarrow> 'r option reader \<Rightarrow> 'k list \<Rightarrow> complex_object \<Rightarrow> ignite_value list \<Rightarrow>
     (tx_session, ('k option \<times> 'r invoke_all_result) list) act" where
  "invoke_all_binary net aff supported self rd keys processor args =
    abind (ensure_tx_cache_ops_allowed self) (\<lambda>_.
      if \<not> supported then afail (client_error ''CACHE_INVOKE is not supported by the server'')
      else abind (prepare_first self keys) (\<lambda>(first_key, remaining_keys).
      abind (tx_route self) (\<lambda>tx.
        let route = (case (tx, first_key) of
            (Some route, _) \<Rightarrow> route
          | (None, Some kb) \<Rightarrow> route_of aff (core_id self) kb
          | (None, None) \<Rightarrow> route_default)
        in map_tx_err self (send_and_read_with_route net (invoke_all_read (core_rk self) rd) OpCacheInvokeAll
          (invoke_all_write (core_lc self) (core_wk self) (cache_info_of self False) first_key remaining_keys processor args)
          (invoke_all_size (core_lc self) (core_sk self) (cache_info_of self False) first_key remaining_keys processor args) route))))"

section \<open>Versions on the wire\<close>

definition version_object :: "cache_version \<Rightarrow> complex_object" where
  "version_object v = ComplexObject (builder_schema (version_builder v)) [IvInt (cv_topology_version v), IvInt (node_order_dr_id v), IvLong (cv_order v)]"

lemma version_write_object: "version_write lc v = wbind (wregister lc (builder_schema (version_builder v))) (\<lambda>_. write_object lc (version_object v))"
  by (rule ext) (simp add: version_write_def wbind_def wregister_def build_object_def version_object_def version_builder_def
      set_field_value_def builder_new_def)

lemma steady_version [steady_intros]: "steady (version_write lc v)"
  unfolding version_write_object by (intro steady_intros)

lemma run_version: "run (version_write lc v) = run (write_object lc (version_object v))"
  unfolding version_write_object by (simp add: run_wbind steady_intros)

lemma sized_object [sized_intros]: "sized (write_object lc co) (object_size lc co)"
  by (simp add: sized_def steady_intros value_size_written(4))

lemma sized_version [sized_intros]: "sized (version_write lc v) (version_size lc v)"
  using value_size_written(4) [of lc "version_object v"]
  by (auto simp: sized_def steady_intros run_version version_size_def build_object_def version_object_def version_builder_def
      set_field_value_def builder_new_def)

lemma version_proper: "proper_object (builder_schema (version_builder v)) (co_values (version_object v))"
  by (simp add: proper_object_def builder_schema_def version_builder_def set_field_value_def builder_new_def version_object_def
      GRID_CACHE_VERSION_TYPE_NAME_def JAVA_LONG_def JAVA_STRING_def rstr_def)

lemma version_run: "run (version_write lc v) = Inr (enc_value lc (IvObject (version_object v)))"
proof -
  have "accepted lc (IvObject (version_object v))"
    using version_proper [of v] unfolding version_object_def by (intro accepted_containers) (simp_all add: accepted_def write_value.simps)
  then have "run (write_value lc (IvObject (version_object v))) = Inr (enc_value lc (IvObject (version_object v)))" by (simp add: run_accepted)
  then show ?thesis by (simp add: run_version write_value.simps del: write_object.simps)
qed

lemma packed_bits:
  assumes "cache_version_new t ord n d = Some v"
  shows "node_order_dr_id v AND NODE_ORDER_MASK = n" and "ucast (drop_bit DR_ID_SHIFT (node_order_dr_id v)) = d"
proof -
  have v: "cv_node_order v = n" "cv_data_center_id v = d" and n: "0 \<le>s n" "n \<le>s NODE_ORDER_MASK" and d: "d < 32"
    using assms by (auto simp: cache_version_new_def split: if_splits)
  have "0 \<le> sint n" and "sint n < 2 ^ 27" using n by (simp_all add: word_sle_eq NODE_ORDER_MASK_def)
  then have "uint n < 2 ^ 27" using uint_of_nonneg [of n] by simp
  then have n27: "take_bit 27 n = n" by (simp add: word_uint_eq_iff unsigned_take_bit_eq take_bit_int_eq_self_iff)
  then have n0: "drop_bit 27 n = 0" by (metis drop_bit_take_bit cancel_comm_monoid_add_class.diff_cancel take_bit_0)
  have d5: "take_bit 5 d = d" using d by (simp add: word_uint_eq_iff unsigned_take_bit_eq take_bit_int_eq_self_iff word_less_def)
  have "node_order_dr_id v AND NODE_ORDER_MASK = take_bit 27 (node_order_dr_id v)"
    unfolding take_bit_eq_mask by (simp add: NODE_ORDER_MASK_def mask_eq_exp_minus_1)
  then show "node_order_dr_id v AND NODE_ORDER_MASK = n"
    by (simp add: node_order_dr_id_def v DR_ID_SHIFT_def take_bit_push_bit n27)
  have "drop_bit 27 (push_bit 27 (ucast d :: i32)) = take_bit 5 (ucast d)"
    by (rule bit_word_eqI) (auto simp: bit_simps)
  moreover have "ucast (ucast d :: i32) = d" by (rule bit_word_eqI) (simp add: bit_simps)
  ultimately show "ucast (drop_bit DR_ID_SHIFT (node_order_dr_id v)) = d"
    by (simp add: node_order_dr_id_def v DR_ID_SHIFT_def drop_bit_or n0) (simp add: d5 flip: unsigned_take_bit_eq)
qed

section \<open>Requests and their sizes\<close>

lemma sized_conflicts:
  assumes "announced wk sk" and "announced wv sv"
  shows "sized (put_all_conflict_write lc wk wv info entries) (put_all_conflict_size lc sk sv info entries)"
    and "sized (remove_all_conflict_write lc wk info removals) (remove_all_conflict_size lc sk info removals)"
  unfolding put_all_conflict_write_def put_all_conflict_size_def write_conflict_def size_conflict_def remove_all_conflict_write_def
    remove_all_conflict_size_def write_removal_def size_removal_def
  by (auto intro!: sized_intros sized_wseq_map sized_announced [OF assms(1)] sized_announced [OF assms(2)] split: prod.split)

lemma sized_processor [sized_intros]: "sized (processor_write lc processor args) (processor_size lc processor args)"
  unfolding processor_write_def processor_size_def by (intro sized_intros) simp

lemma sized_invoke: "sized (invoke_write lc wr info kb processor args) (invoke_size lc (\<lambda>kb. sret (length kb)) info kb processor args)"
  unfolding invoke_write_def invoke_size_def by (intro sized_intros) simp_all

lemma sized_invoke_all:
  assumes "announced wk sk"
  shows "sized (invoke_all_write lc wk info first ks processor args) (invoke_all_size lc sk info first ks processor args)"
  unfolding invoke_all_write_def invoke_all_size_def
  by (auto intro!: sized_intros sized_wseq_map sized_announced [OF assms] split: option.split)

lemma requests_prefixed:
  "run (put_all_conflict_write lc wk wv info entries) = Inr bs \<Longrightarrow> \<exists>rest. bs = write_cache_info info @ rest"
  "run (remove_all_conflict_write lc wk info removals) = Inr bs \<Longrightarrow> \<exists>rest. bs = write_cache_info info @ rest"
  "run (invoke_write lc w info key processor args) = Inr bs \<Longrightarrow> \<exists>rest. bs = write_cache_info info @ rest"
  "run (invoke_all_write lc wk info first ks processor args) = Inr bs \<Longrightarrow> \<exists>rest. bs = write_cache_info info @ rest"
  unfolding put_all_conflict_write_def remove_all_conflict_write_def invoke_write_def invoke_all_write_def
  by (drule run_prefixed; auto)+

lemma feature_keeps:
  assumes "usable self s" and "supported \<Longrightarrow> keeps_tx self m s"
  shows "keeps_tx self (if \<not> supported then afail e else m) s"
  using assms by (auto intro: keeps_txI)

lemma or_default_allowed: "allowed_route self (case route of Some rt \<Rightarrow> rt | None \<Rightarrow> route_default) \<Longrightarrow> allowed_route self (or_default route)"
  by (simp add: or_default_def)

lemma marshal_state: "\<exists>r. marshal_key wk sk key s = (r, s)"
  by (auto simp: marshal_key_def split: option.split sum.split)

lemma bind_same_state:
  assumes "m s = (r, s)" and "usable self s" and "\<And>x. keeps_tx self (f x) s"
  shows "keeps_tx self (abind m f) s"
proof (cases r)
  case (Done x)
  then have "abind m f s = f x s" by (simp add: assms(1))
  then show ?thesis using keeps_tx_cong assms(3) by metis
qed (use assms(1,2) in \<open>auto intro!: keeps_txI\<close>)

lemma put_conflict_keeps:
  assumes "core_announces self"
  shows "keeps_tx self (put_all_conflict net supported self entries) s"
  unfolding put_all_conflict_def
  by (intro guarded_keeps feature_keeps routed_keeps, assumption, assumption,
      rule request_keeps(2) [OF _ send_with_route_state sized_conflicts(1)])
    (use assms in \<open>auto simp: core_announces_def intro: requests_prefixed or_default_allowed\<close>)

lemma remove_conflict_keeps:
  assumes "core_announces self"
  shows "keeps_tx self (remove_all_conflict net supported self removals) s"
  unfolding remove_all_conflict_def
  by (intro guarded_keeps feature_keeps routed_keeps, assumption, assumption,
      rule request_keeps(2) [OF _ send_with_route_state sized_conflicts(2)])
    (use assms in \<open>auto simp: core_announces_def intro: requests_prefixed or_default_allowed\<close>)

lemma invoke_keeps:
  assumes "core_announces self"
  shows "keeps_tx self (invoke_binary net aff supported self rd key processor args) s"
  unfolding invoke_binary_def
  by (intro guarded_keeps feature_keeps prepared_keeps, assumption, assumption, simp,
      rule request_keeps(2) [OF _ send_and_read_state sized_invoke])
    (auto intro: requests_prefixed)

lemma invoke_all_keeps:
  assumes "core_announces self"
  shows "keeps_tx self (invoke_all_binary net aff supported self rd keys processor args) s"
proof -
  have "\<exists>r. prepare_first self keys s = (r, s)"
    using marshal_state [of "core_wk self" "core_sk self" "hd keys" s]
    by (auto simp: prepare_first_def abind_def split: list.split result.split)
  then obtain r where split: "prepare_first self keys s = (r, s)" by blast
  have route: "allowed_route self (case tx of None \<Rightarrow> (case first_key of None \<Rightarrow> route_default | Some kb \<Rightarrow> route_of aff (core_id self) kb)
      | Some route \<Rightarrow> route)"
    if "allowed_route self (case tx of Some rt \<Rightarrow> rt | None \<Rightarrow> route_default)" for tx first_key
    using that by (auto simp: allowed_route_def route_of_def route_default_def route_pinned_def split: option.splits)
  show ?thesis
    unfolding invoke_all_binary_def Let_def
    by (intro guarded_keeps feature_keeps, assumption, rule bind_same_state [where s = s and m = "prepare_first self keys", OF split], assumption, clarify,
        intro routed_keeps, assumption, rule request_keeps(2) [OF _ send_and_read_state sized_invoke_all])
      (use assms in \<open>auto simp: core_announces_def intro: requests_prefixed intro!: route\<close>)
qed

section \<open>Responses\<close>

definition server_invoke_entry :: "('k \<Rightarrow> bytes) \<Rightarrow> ('v option \<Rightarrow> bytes) \<Rightarrow> 'k \<times> 'v invoke_all_result \<Rightarrow> bytes" where
  "server_invoke_entry ek ev e = ek (fst e) @ (case snd e of
      InvokeValue v \<Rightarrow> write_bool True @ ev v
    | InvokeError msg \<Rightarrow> write_bool False @ write_string msg)"

definition ok_invoke_entry ::
    "'k option reader \<Rightarrow> 'v option reader \<Rightarrow> ('k \<Rightarrow> bytes) \<Rightarrow> ('v option \<Rightarrow> bytes) \<Rightarrow> 'k \<times> 'v invoke_all_result \<Rightarrow> bool" where
  "ok_invoke_entry rk rv ek ev e \<longleftrightarrow> (\<forall>s. rk (ek (fst e) @ s) = Ok (Some (fst e)) s) \<and> (case snd e of
      InvokeValue v \<Rightarrow> \<forall>s. rv (ev v @ s) = Ok v s
    | InvokeError msg \<Rightarrow> ok_string msg)"

lemma invoke_entry_back:
  assumes "ok_invoke_entry rk rv ek ev e"
  shows "read_invoke_entry rk rv (server_invoke_entry ek ev e @ t) = Ok (case e of (k, r) \<Rightarrow> (Some k, r)) t"
proof (cases "snd e")
  case (InvokeValue v)
  with assms show ?thesis
    by (cases e) (auto simp: ok_invoke_entry_def server_invoke_entry_def read_invoke_entry_def rbind_Ok rmap_Ok)
next
  case (InvokeError msg)
  with assms have "ok_string msg" and "rk (ek (fst e) @ write_bool False @ write_string msg @ t) = Ok (Some (fst e)) (write_bool False @ write_string msg @ t)"
    by (auto simp: ok_invoke_entry_def)
  with InvokeError show ?thesis
    by (cases e) (simp add: server_invoke_entry_def read_invoke_entry_def rbind_Ok rbind_Ok [where m = read_bool, OF read_bool_write] rmap_Ok read_string_write)
qed

lemma invoke_entries_back:
  assumes "list_all (ok_invoke_entry rk rv ek ev) es" and "length es < 2 ^ 31"
  shows "invoke_all_read rk rv (write_counted (server_invoke_entry ek ev) es @ s) = Ok (map (\<lambda>(k, r). (Some k, r)) es) s"
proof -
  have "repeat_read (length es) (read_invoke_entry rk rv) (concat (map (server_invoke_entry ek ev) es) @ s) =
      Ok (map (\<lambda>(k, r). (Some k, r)) es) s"
    by (rule repeat_read_concat) (rule invoke_entry_back, use assms(1) in \<open>simp add: list_all_iff\<close>)
  then show ?thesis using assms(2) by (simp add: invoke_all_read_def read_counted_def write_counted_def rbind_Ok len_casts)
qed

section \<open>Properties\<close>

lemma unsupported_fails:
  "snd (put_all_conflict net False self entries s) = s \<and> (\<exists>e. fst (put_all_conflict net False self entries s) = Failed e)"
  "snd (remove_all_conflict net False self removals s) = s \<and> (\<exists>e. fst (remove_all_conflict net False self removals s) = Failed e)"
  "snd (void (invoke_binary net aff False self rd key processor args) s) = s \<and>
   (\<exists>e. fst (void (invoke_binary net aff False self rd key processor args) s) = Failed e)"
  "snd (void (invoke_all_binary net aff False self rd keys processor args) s) = s \<and>
   (\<exists>e. fst (void (invoke_all_binary net aff False self rd keys processor args) s) = Failed e)"
  using ensure_ops(2) [of self s]
  by (cases "usable self s";
      auto simp: put_all_conflict_def remove_all_conflict_def invoke_binary_def invoke_all_binary_def void_def ensure_ops(1) abind_def)+



text \<open>Versions of conflicting entries. A version that is created (the order of the node fits 27 bits, the data
  center 5) packs both into one number from which both are read back, so that no two versions are sent alike;
  it is written as the binary object with these fields, and read back as that object wherever the registry knows
  the schema. The answer of the server to a bulk invocation is read entry by entry, value or error.\<close>
theorem conflict_versions:
  assumes "cache_version_new top_ver ord n d = Some v" and "knows_schema lc reg (builder_schema (version_builder v))"
    and "length (enc_value lc (IvObject (version_object v))) < 2 ^ 31"
    and "list_all (ok_invoke_entry rk rv ek ev) es" and "length es < 2 ^ 31"
  shows "node_order_dr_id v AND NODE_ORDER_MASK = n \<and> ucast (drop_bit DR_ID_SHIFT (node_order_dr_id v)) = d \<and>
    (\<exists>bs. run (version_write lc v) = Inr bs \<and> fst (version_size lc v registry_default) = Some (length bs) \<and>
      (\<forall>s. co_read reg (bs @ s) = Ok (Some (version_object v)) s)) \<and>
    co_field (version_object v) (rstr ''topVer'') = Some (IvInt top_ver) \<and>
    co_field (version_object v) (rstr ''nodeOrderDrId'') = Some (IvInt (node_order_dr_id v)) \<and>
    co_field (version_object v) (rstr ''order'') = Some (IvLong ord) \<and>
    invoke_all_read rk rv (write_counted (server_invoke_entry ek ev) es @ s) = Ok (map (\<lambda>(k, r). (Some k, r)) es) s"
proof -
  let ?sch = "builder_schema (version_builder v)"
  have fields: "schema_fields ?sch \<noteq> []" "canon_schema ?sch = ?sch"
    by (simp_all add: builder_schema_def version_builder_def set_field_value_def builder_new_def canon_schema_def canon_field_def)
  have "decodable lc reg (IvObject (version_object v))"
    using version_proper [of v] knows_schema_resolves [OF assms(2) fields] unfolding version_object_def by simp
  then have "co_read reg (enc_value lc (IvObject (version_object v)) @ t) = Ok (Some (version_object v)) t" for t
    using assms(3) co_read_object unfolding version_object_def by blast
  moreover have "fst (version_size lc v registry_default) = Some (length (enc_value lc (IvObject (version_object v))))"
    using sized_version [of lc v] version_run [of lc v] by (auto simp: sized_def)
  moreover have "cv_topology_version v = top_ver" "cv_order v = ord"
    using assms(1) by (auto simp: cache_version_new_def split: if_splits)
  ultimately show ?thesis
    using packed_bits [OF assms(1)] version_run [of lc v] invoke_entries_back [OF assms(4,5), of s]
    by (simp add: co_field_def version_object_def builder_schema_def version_builder_def set_field_value_def builder_new_def rstr_def)
qed


definition sample_version :: cache_version where
  "sample_version = \<lparr>cv_topology_version = 4, cv_order = 5, cv_node_order = 6, cv_data_center_id = 1\<rparr>"

lemma sample_version_small: "length (enc_value id (IvObject (version_object sample_version))) < 2 ^ 31"
proof -
  have "list_all (accepted id) (co_values (version_object sample_version))" by (simp add: version_object_def accepted_def write_value.simps)
  then have "enc_value id (IvObject (version_object sample_version)) = object_bytes id (builder_schema (version_builder sample_version))
      (object_data id (builder_schema (version_builder sample_version)) (co_values (version_object sample_version)))"
    using enc_object [OF version_proper [of sample_version]] by (simp add: version_object_def)
  then show ?thesis
    by (simp add: object_bytes_def object_data_def finish_data_def Let_def length_write_footer)
      (simp add: version_object_def enc_simple builder_schema_def version_builder_def set_field_value_def builder_new_def offset_width_def)
qed

theorem conflict_versions_witness:
  "node_order_dr_id sample_version = 134217734 \<and>
   (\<exists>bs. run (version_write id sample_version) = Inr bs \<and>
     (\<forall>s. co_read (register_complex_schema id (builder_schema (version_builder sample_version)) Map.empty) (bs @ s) =
       Ok (Some (version_object sample_version)) s))"
proof -
  let ?sch = "builder_schema (version_builder sample_version)"
  have kn: "knows_schema id (register_complex_schema id ?sch Map.empty) ?sch"
    by (rule register_knows_schema)
      (simp add: schema_compatible_def builder_schema_def version_builder_def set_field_value_def builder_new_def field_id_of_def
        string_to_java_hashcode_def java_hash_step_def rstr_def)
  have cv: "cache_version_new 4 5 6 1 = Some sample_version"
    by (simp add: cache_version_new_def sample_version_def NODE_ORDER_MASK_def word_sle_eq)
  have "list_all (ok_invoke_entry (read_type read_i32 TcInt) (read_type read_i32 TcInt) write_i32 (\<lambda>_. [])) []" by simp
  from conflict_versions [OF cv kn sample_version_small this]
  have "\<exists>bs. run (version_write id sample_version) = Inr bs \<and>
     (\<forall>s. co_read (register_complex_schema id ?sch Map.empty) (bs @ s) = Ok (Some (version_object sample_version)) s)" by auto
  then show ?thesis by (simp add: node_order_dr_id_def sample_version_def DR_ID_SHIFT_def)
qed

end
