(* ===== verification/Cluster.thy ===== *)
theory Cluster
  imports SqlDecoding ServerModel
begin

text \<open>
  The cluster API of \<open>ignite-rs/src/cluster.rs\<close>: state and write-ahead log requests, and groups of nodes with their
  selectors. The ids and the nodes that the client has learned are a cache behind a lock, here a part of the
  session. What the features of the server are and the nanoseconds of the clock are arguments.
\<close>

section \<open>Data\<close>

datatype cluster_state = CsInactive | CsActive | CsActiveReadOnly

fun cluster_state_u8 :: "cluster_state \<Rightarrow> u8" where
  "cluster_state_u8 CsInactive = 0"
| "cluster_state_u8 CsActive = 1"
| "cluster_state_u8 CsActiveReadOnly = 2"

definition cluster_state_from_wire :: "u8 \<Rightarrow> cluster_state reader" where
  "cluster_state_from_wire v =
    (if v = 0 then ret CsInactive else if v = 1 then ret CsActive else if v = 2 then ret CsActiveReadOnly
     else fail (IgniteFmt ''Unexpected cluster state ordinal {}'' [uint v]))"

definition cluster_state_read :: "cluster_state reader" where
  "cluster_state_read = rbind read_u8 cluster_state_from_wire"

record cluster_node_version =
  cnv_major :: u8
  cnv_minor :: u8
  cnv_maintenance :: u8
  cnv_stage :: rstring
  cnv_revision_timestamp :: i64
  cnv_revision_hash :: bytes

record cluster_node =
  cn_id :: rstring
  cn_attributes :: "rstring \<rightharpoonup> sql_value"
  cn_addresses :: "rstring list"
  cn_host_names :: "rstring list"
  cn_order :: i64
  cn_is_local :: bool
  cn_is_daemon :: bool
  cn_is_client :: bool
  cn_consistent_id :: sql_value
  cn_version :: cluster_node_version

datatype selector =
    SelNodeIds "rstring list" | SelOthers "rstring list" | SelServers | SelClients
  | SelAttribute rstring "sql_value option" | SelHosts "rstring list" | SelRandom | SelOldest | SelYoungest

record cluster_cache =
  cl_topology_version :: "i64 option"
  cl_node_ids :: "rstring list"
  cl_nodes :: "rstring \<rightharpoonup> cluster_node"

definition cluster_cache_default :: cluster_cache where
  "cluster_cache_default = \<lparr>cl_topology_version = None, cl_node_ids = [], cl_nodes = Map.empty\<rparr>"

record cluster_session = session +
  cl_cache :: cluster_cache

section \<open>Node ids\<close>

text \<open>\<open>&hex[..16]\<close> and \<open>&hex[16..]\<close>: \<open>None\<close> is the panic of a slice that ends inside a character.\<close>

fun split_bytes :: "nat \<Rightarrow> rstring \<Rightarrow> (rstring \<times> rstring) option" where
  "split_bytes 0 s = Some ([], s)"
| "split_bytes (Suc n) [] = None"
| "split_bytes (Suc n) (c # cs) =
    (let w = length (utf8_char c)
     in if w = 0 \<or> Suc n < w then None else map_option (\<lambda>(a, b). (c # a, b)) (split_bytes (Suc n - w) cs))"

definition hex_digit :: "nat \<Rightarrow> nat option" where
  "hex_digit c =
    (if 48 \<le> c \<and> c \<le> 57 then Some (c - 48)
     else if 97 \<le> c \<and> c \<le> 102 then Some (c - 87)
     else if 65 \<le> c \<and> c \<le> 70 then Some (c - 55)
     else None)"

definition invalid_digit :: rstring where
  "invalid_digit = rstr ''invalid digit found in string''"

text \<open>\<open>u64::from_str_radix(_, 16)\<close> on a text of 16 bytes, where it does not overflow: a leading plus is taken.\<close>

fun hex_value :: "nat \<Rightarrow> rstring \<Rightarrow> nat option" where
  "hex_value acc [] = Some acc"
| "hex_value acc (c # cs) = (case hex_digit c of None \<Rightarrow> None | Some d \<Rightarrow> hex_value (16 * acc + d) cs)"

definition from_str_radix16 :: "rstring \<Rightarrow> rstring + u64" where
  "from_str_radix16 s = (case hex_value 0 (strip_plus s) of None \<Rightarrow> Inl invalid_digit | Some v \<Rightarrow> Inr (word_of_nat v))"

text \<open>\<open>parse_uuid_parts\<close>: \<open>None\<close> is a panic, \<open>Inl\<close> the message of the error.\<close>

definition parse_uuid_parts :: "rstring \<Rightarrow> (rstring + i64 \<times> i64) option" where
  "parse_uuid_parts uuid =
    (let hex = filter (\<lambda>c. c \<noteq> 45) uuid
     in if str_len hex \<noteq> 32 then Some (Inl (rstr ''Invalid UUID string '' @ [39] @ uuid @ [39]))
        else (case split_bytes 16 hex of
            None \<Rightarrow> None
          | Some (a, b) \<Rightarrow> Some (case from_str_radix16 a of
                Inl e \<Rightarrow> Inl e
              | Inr most \<Rightarrow> (case from_str_radix16 b of Inl e \<Rightarrow> Inl e | Inr least \<Rightarrow> Inr (most, least)))))"

text \<open>A node id in a request. The ids are those the server sent, written by \<open>read_uuid_string\<close>, on which the
  parser neither panics nor fails; the panic has no place in a writer and is written as an error.\<close>

definition node_id_write :: "rstring \<Rightarrow> writer" where
  "node_id_write nid = (case parse_uuid_parts nid of
      Some (Inr (most, least)) \<Rightarrow> wr (write_i64 most @ write_i64 least)
    | Some (Inl msg) \<Rightarrow> wfail (IoInvalidInput msg)
    | None \<Rightarrow> wfail (IoInvalidInput []))"

definition node_ids_write :: "rstring list \<Rightarrow> writer" where
  "node_ids_write ids = wthen (wr (write_i32 (i32_of_usize (length ids)))) (wseq (map node_id_write ids))"

definition node_ids_size :: "rstring list \<Rightarrow> nat" where
  "node_ids_size ids = 4 + length ids * 16"

section \<open>Requests and responses\<close>

definition change_state_write :: "cluster_state \<Rightarrow> bool \<Rightarrow> bool \<Rightarrow> bytes" where
  "change_state_write state force_deactivation supports_flag =
    write_u8 (cluster_state_u8 state) @ (if supports_flag then write_bool force_deactivation else [])"

definition change_state_size :: "bool \<Rightarrow> nat" where
  "change_state_size supports_flag = 1 + (if supports_flag then 1 else 0)"

definition wal_state_write :: "rstring \<Rightarrow> bool option \<Rightarrow> bytes" where
  "wal_state_write cache_name enable = write_string cache_name @ (case enable of Some e \<Rightarrow> write_bool e | None \<Rightarrow> [])"

definition wal_state_size :: "rstring \<Rightarrow> bool option \<Rightarrow> nat" where
  "wal_state_size cache_name enable = 4 + str_len cache_name + (case enable of Some _ \<Rightarrow> 1 | None \<Rightarrow> 0)"

definition node_ids_request_write :: "i64 \<Rightarrow> bytes" where
  "node_ids_request_write version = write_i64 version @ write_i32 0"

definition read_uuids :: "string \<Rightarrow> rstring list reader" where
  "read_uuids msg = rbind read_i32 (\<lambda>count.
     if sint count < 0 then fail (Ignite msg)
     else rbind (with_capacity count) (\<lambda>_. repeat_read (i32_range count) read_uuid_string))"

definition node_ids_response_read :: "(i64 \<times> rstring list) option reader" where
  "node_ids_response_read = rbind read_bool (\<lambda>changed.
     if \<not> changed then ret None
     else rbind read_i64 (\<lambda>version. rmap (\<lambda>ids. Some (version, ids)) (read_uuids ''negative cluster node id count'')))"

definition cluster_typed_string :: "rstring reader" where
  "cluster_typed_string = rbind read_type_code (\<lambda>code. case code of
      TcString \<Rightarrow> read_string
    | TcNull \<Rightarrow> ret []
    | _ \<Rightarrow> fail (ExpectedGot ''String type code in cluster node attribute'' (type_code_u8 code)))"

definition cluster_string_collection :: "rstring list reader" where
  "cluster_string_collection = rbind read_type_code (\<lambda>code. case code of
      TcNull \<Rightarrow> ret []
    | TcCollection \<Rightarrow> rbind read_i32 (\<lambda>count.
        if sint count < 0 then fail (Ignite ''negative string collection count'')
        else rbind read_u8 (\<lambda>col_type. rbind (with_capacity count) (\<lambda>_. repeat_read (i32_range count) cluster_typed_string)))
    | _ \<Rightarrow> fail (ExpectedGot ''Collection type code'' (type_code_u8 code)))"

definition read_revision_hash :: "bytes reader" where
  "read_revision_hash = rbind read_u8 (\<lambda>type_code.
     if type_code = type_code_u8 TcNull then ret []
     else rbind read_i32 (\<lambda>count. if sint count < 0 then ret [] else read_vec (usize_of_i32 count)))"

definition read_node_version :: "cluster_node_version reader" where
  "read_node_version = rbind read_u8 (\<lambda>major. rbind read_u8 (\<lambda>minor. rbind read_u8 (\<lambda>maintenance.
     rbind cluster_typed_string (\<lambda>stage. rbind read_i64 (\<lambda>timestamp. rbind read_revision_hash (\<lambda>revision_hash.
       ret \<lparr>cnv_major = major, cnv_minor = minor, cnv_maintenance = maintenance, cnv_stage = stage,
            cnv_revision_timestamp = timestamp, cnv_revision_hash = revision_hash\<rparr>))))))"

definition read_attribute :: "registry \<Rightarrow> (rstring \<times> sql_value) reader" where
  "read_attribute reg = rbind cluster_typed_string (\<lambda>name. rmap (\<lambda>v. (name, v)) (read_sql_value reg))"

definition read_cluster_node :: "registry \<Rightarrow> cluster_node reader" where
  "read_cluster_node reg = rbind read_u8 (\<lambda>uuid_type.
     if uuid_type \<noteq> type_code_u8 TcUuid then fail (Ignite ''expected UUID type code for cluster node id'')
     else rbind read_uuid_string (\<lambda>nid. rbind read_i32 (\<lambda>attr_count.
       if sint attr_count < 0 then fail (Ignite ''negative cluster node attribute count'')
       else rbind (with_capacity attr_count) (\<lambda>_. rbind (repeat_read (i32_range attr_count) (read_attribute reg)) (\<lambda>attrs.
       rbind cluster_string_collection (\<lambda>addresses. rbind cluster_string_collection (\<lambda>hosts.
       rbind read_i64 (\<lambda>order. rbind read_bool (\<lambda>local. rbind read_bool (\<lambda>daemon. rbind read_bool (\<lambda>client.
       rbind (read_sql_value reg) (\<lambda>consistent_id. rbind read_node_version (\<lambda>version.
         ret \<lparr>cn_id = nid, cn_attributes = foldl (\<lambda>m (k, v). m(k \<mapsto> v)) Map.empty attrs, cn_addresses = addresses,
              cn_host_names = hosts, cn_order = order, cn_is_local = local, cn_is_daemon = daemon, cn_is_client = client,
              cn_consistent_id = consistent_id, cn_version = version\<rparr>)))))))))))))"

definition node_info_response_read :: "registry \<Rightarrow> cluster_node list reader" where
  "node_info_response_read reg = rbind read_i32 (\<lambda>count.
     if sint count < 0 then fail (Ignite ''negative cluster node info count'')
     else rbind (with_capacity count) (\<lambda>_. repeat_read (i32_range count) (read_cluster_node reg)))"

section \<open>Operations\<close>

definition cluster_get_state :: "transport \<Rightarrow> ('z session_scheme, cluster_state) act" where
  "cluster_get_state net = send_and_read net cluster_state_read OpClusterGetState (wr []) (sret 0)"

definition set_state_with_force :: "transport \<Rightarrow> bool \<Rightarrow> bool \<Rightarrow> cluster_state \<Rightarrow> bool \<Rightarrow> ('z session_scheme, unit) act" where
  "set_state_with_force net supports_states supports_flag state force_deactivation =
    (if cluster_state_u8 state > 1 \<and> \<not> supports_states then afail (client_error ''Cluster state is not supported by the server'')
     else if \<not> supports_flag \<and> \<not> force_deactivation
     then afail (client_error ''Force deactivation flag is not supported by the server'')
     else send net OpClusterChangeState (wr (change_state_write state force_deactivation supports_flag)) (sret (change_state_size supports_flag)))"

definition set_state :: "transport \<Rightarrow> bool \<Rightarrow> bool \<Rightarrow> cluster_state \<Rightarrow> ('z session_scheme, unit) act" where
  "set_state net supports_states supports_flag state = set_state_with_force net supports_states supports_flag state True"

definition change_wal_state :: "transport \<Rightarrow> rstring \<Rightarrow> bool \<Rightarrow> ('z session_scheme, bool) act" where
  "change_wal_state net cache_name enable =
    send_and_read net read_bool OpClusterChangeWalState (wr (wal_state_write cache_name (Some enable))) (sret (wal_state_size cache_name (Some enable)))"

definition enable_wal :: "transport \<Rightarrow> rstring \<Rightarrow> ('z session_scheme, bool) act" where
  "enable_wal net cache_name = change_wal_state net cache_name True"

definition disable_wal :: "transport \<Rightarrow> rstring \<Rightarrow> ('z session_scheme, bool) act" where
  "disable_wal net cache_name = change_wal_state net cache_name False"

definition is_wal_enabled :: "transport \<Rightarrow> rstring \<Rightarrow> ('z session_scheme, bool) act" where
  "is_wal_enabled net cache_name =
    send_and_read net read_bool OpClusterGetWalState (wr (wal_state_write cache_name None)) (sret (wal_state_size cache_name None))"

definition with_selector :: "selector list \<Rightarrow> selector \<Rightarrow> selector list" where
  "with_selector selectors s = selectors @ [s]"

text \<open>A group is the list of its selectors; \<open>group\<close> of a cluster has none.\<close>

definition cluster_group :: "selector list" where "cluster_group = []"
definition for_servers :: "selector list \<Rightarrow> selector list" where "for_servers g = with_selector g SelServers"
definition default_servers :: "selector list" where "default_servers = for_servers cluster_group"
definition for_clients :: "selector list \<Rightarrow> selector list" where "for_clients g = with_selector g SelClients"
definition for_node_ids :: "selector list \<Rightarrow> rstring list \<Rightarrow> selector list" where "for_node_ids g ids = with_selector g (SelNodeIds ids)"
definition for_node_id :: "selector list \<Rightarrow> rstring \<Rightarrow> selector list" where "for_node_id g nid = with_selector g (SelNodeIds [nid])"
definition for_nodes :: "selector list \<Rightarrow> cluster_node list \<Rightarrow> selector list" where "for_nodes g ns = for_node_ids g (map cn_id ns)"
definition for_node :: "selector list \<Rightarrow> cluster_node \<Rightarrow> selector list" where "for_node g n = for_node_id g (cn_id n)"
definition for_others :: "selector list \<Rightarrow> cluster_node list \<Rightarrow> selector list" where "for_others g ns = with_selector g (SelOthers (map cn_id ns))"
definition for_attribute :: "selector list \<Rightarrow> rstring \<Rightarrow> sql_value option \<Rightarrow> selector list" where
  "for_attribute g name v = with_selector g (SelAttribute name v)"
definition for_host :: "selector list \<Rightarrow> rstring \<Rightarrow> selector list" where "for_host g host = with_selector g (SelHosts [host])"
definition for_hosts :: "selector list \<Rightarrow> rstring list \<Rightarrow> selector list" where "for_hosts g hosts = with_selector g (SelHosts hosts)"
definition for_random :: "selector list \<Rightarrow> selector list" where "for_random g = with_selector g SelRandom"
definition for_oldest :: "selector list \<Rightarrow> selector list" where "for_oldest g = with_selector g SelOldest"
definition for_youngest :: "selector list \<Rightarrow> selector list" where "for_youngest g = with_selector g SelYoungest"

text \<open>\<open>min_by_key\<close> keeps the first of the least, \<open>max_by_key\<close> the last of the greatest.\<close>

definition min_by_order :: "cluster_node list \<Rightarrow> cluster_node option" where
  "min_by_order ns = (case ns of [] \<Rightarrow> None | n # rest \<Rightarrow> Some (foldl (\<lambda>best x. if sint (cn_order x) < sint (cn_order best) then x else best) n rest))"

definition max_by_order :: "cluster_node list \<Rightarrow> cluster_node option" where
  "max_by_order ns = (case ns of [] \<Rightarrow> None | n # rest \<Rightarrow> Some (foldl (\<lambda>best x. if sint (cn_order best) \<le> sint (cn_order x) then x else best) n rest))"

text \<open>\<open>veq\<close> is the \<open>PartialEq\<close> of \<open>SqlValue\<close>, which on floats is not the equality of bit patterns.\<close>

fun apply_selector :: "(sql_value \<Rightarrow> sql_value \<Rightarrow> bool) \<Rightarrow> nat \<Rightarrow> selector \<Rightarrow> cluster_node list \<Rightarrow> cluster_node list" where
  "apply_selector veq nanos (SelNodeIds ids) ns = filter (\<lambda>n. cn_id n \<in> set ids) ns"
| "apply_selector veq nanos (SelOthers ids) ns = filter (\<lambda>n. cn_id n \<notin> set ids) ns"
| "apply_selector veq nanos SelServers ns = filter (\<lambda>n. \<not> cn_is_client n) ns"
| "apply_selector veq nanos SelClients ns = filter cn_is_client ns"
| "apply_selector veq nanos (SelAttribute name (Some v)) ns = filter (\<lambda>n. case cn_attributes n name of Some a \<Rightarrow> veq a v | None \<Rightarrow> False) ns"
| "apply_selector veq nanos (SelAttribute name None) ns = filter (\<lambda>n. cn_attributes n name \<noteq> None) ns"
| "apply_selector veq nanos (SelHosts hosts) ns = filter (\<lambda>n. list_ex (\<lambda>h. h \<in> set hosts) (cn_host_names n)) ns"
| "apply_selector veq nanos SelRandom ns = (if ns \<noteq> [] then [ns ! (nanos mod length ns)] else ns)"
| "apply_selector veq nanos SelOldest ns = (case min_by_order ns of Some n \<Rightarrow> [n] | None \<Rightarrow> ns)"
| "apply_selector veq nanos SelYoungest ns = (case max_by_order ns of Some n \<Rightarrow> [n] | None \<Rightarrow> ns)"

definition apply_selectors :: "(sql_value \<Rightarrow> sql_value \<Rightarrow> bool) \<Rightarrow> nat \<Rightarrow> cluster_node list \<Rightarrow> selector list \<Rightarrow> cluster_node list" where
  "apply_selectors veq nanos ns selectors = foldl (\<lambda>xs s. apply_selector veq nanos s xs) ns selectors"

definition request_node_ids :: "transport \<Rightarrow> bool \<Rightarrow> ('z cluster_session_scheme, rstring list) act" where
  "request_node_ids net groups s =
    (if \<not> groups then (Failed (client_error ''CLUSTER_GROUPS is not supported by the server''), s)
     else abind (send_and_read net node_ids_response_read OpClusterGroupGetNodeIds
         (wr (node_ids_request_write (case cl_topology_version (cl_cache s) of Some v \<Rightarrow> v | None \<Rightarrow> 0))) (sret (8 + 4)))
       (\<lambda>response s'. case response of
          Some (version, ids) \<Rightarrow>
            (let cache = (cl_cache s')\<lparr>cl_topology_version := Some version, cl_node_ids := ids,
                   cl_nodes := (cl_nodes (cl_cache s')) |` set ids\<rparr>
             in (Done ids, s'\<lparr>cl_cache := cache\<rparr>))
        | None \<Rightarrow> (Done (cl_node_ids (cl_cache s')), s')) s)"

definition request_nodes_by_ids :: "transport \<Rightarrow> bool \<Rightarrow> registry \<Rightarrow> rstring list \<Rightarrow> ('z cluster_session_scheme, cluster_node list) act" where
  "request_nodes_by_ids net groups reg ids s =
    (let missing_ids = filter (\<lambda>i. cl_nodes (cl_cache s) i = None) ids
     in abind (if missing_ids = [] then aret ()
         else if \<not> groups then afail (client_error ''CLUSTER_GROUPS is not supported by the server'')
         else abind (send_and_read net (node_info_response_read reg) OpClusterGroupGetNodeInfo
                (node_ids_write missing_ids) (sret (node_ids_size missing_ids)))
           (\<lambda>ns s'. (Done (), s'\<lparr>cl_cache := (cl_cache s')\<lparr>cl_nodes := foldl (\<lambda>m n. m(cn_id n \<mapsto> n)) (cl_nodes (cl_cache s')) ns\<rparr>\<rparr>)))
       (\<lambda>_ s'. (Done (List.map_filter (cl_nodes (cl_cache s')) ids), s')) s)"

definition group_nodes :: "transport \<Rightarrow> bool \<Rightarrow> registry \<Rightarrow> (sql_value \<Rightarrow> sql_value \<Rightarrow> bool) \<Rightarrow> nat \<Rightarrow> selector list \<Rightarrow> ('z cluster_session_scheme, cluster_node list) act" where
  "group_nodes net groups reg veq nanos selectors =
    abind (request_node_ids net groups) (\<lambda>ids. abind (request_nodes_by_ids net groups reg ids) (\<lambda>ns.
      aret (apply_selectors veq nanos ns selectors)))"

definition group_node_ids :: "transport \<Rightarrow> bool \<Rightarrow> registry \<Rightarrow> (sql_value \<Rightarrow> sql_value \<Rightarrow> bool) \<Rightarrow> nat \<Rightarrow> selector list \<Rightarrow> ('z cluster_session_scheme, rstring list) act" where
  "group_node_ids net groups reg veq nanos selectors =
    (if selectors = [] then request_node_ids net groups
     else abind (group_nodes net groups reg veq nanos selectors) (\<lambda>ns. aret (map cn_id ns)))"

definition group_node :: "transport \<Rightarrow> bool \<Rightarrow> registry \<Rightarrow> (sql_value \<Rightarrow> sql_value \<Rightarrow> bool) \<Rightarrow> nat \<Rightarrow> selector list \<Rightarrow> rstring \<Rightarrow> ('z cluster_session_scheme, cluster_node option) act" where
  "group_node net groups reg veq nanos selectors nid =
    abind (group_nodes net groups reg veq nanos selectors) (\<lambda>ns. aret (find (\<lambda>n. cn_id n = nid) ns))"

section \<open>Ids are read back\<close>

lemma hex_digit_HEX: "d < 16 \<Longrightarrow> hex_digit (HEX ! d) = Some d \<and> HEX ! d < 128 \<and> HEX ! d \<noteq> 43 \<and> HEX ! d \<noteq> 45"
proof -
  assume "d < 16"
  then have "d \<in> set [0..<16]" by simp
  then show ?thesis by (auto simp: HEX_def rstr_def hex_digit_def upt_rec)
qed

lemma nibble: "unat (drop_bit (4 * n) v AND 0xf :: u64) = unat v div 16 ^ n mod 16"
proof -
  have "drop_bit (4 * n) v AND 0xf = take_bit 4 (drop_bit (4 * n) v)" by (simp add: take_bit_eq_mask mask_eq_exp_minus_1)
  moreover have "unat v < 2 ^ 64" using unsigned_less [of v] by simp
  then have "take_bit 64 (unat v) = unat v" by (simp add: take_bit_nat_eq_self)
  ultimately have "unat (drop_bit (4 * n) v AND 0xf) = take_bit 4 (drop_bit (4 * n) (unat v))"
    by (simp add: unsigned_take_bit_eq unsigned_drop_bit_eq)
  then show ?thesis by (simp add: take_bit_eq_mod drop_bit_eq_div power_mult)
qed

lemma write_hex_Suc: "write_hex (Suc n) v = HEX ! (unat v div 16 ^ n mod 16) # write_hex n v"
  by (simp add: write_hex_def nibble)

lemma write_hex_chars: "c \<in> set (write_hex n v) \<Longrightarrow> c < 128 \<and> c \<noteq> 43 \<and> c \<noteq> 45"
proof (induction n)
  case (Suc n)
  then show ?case using hex_digit_HEX [of "unat v div 16 ^ n mod 16"] by (auto simp: write_hex_Suc)
qed (simp add: write_hex_def)

lemma length_write_hex [simp]: "length (write_hex n v) = n"
  by (simp add: write_hex_def)

lemma hex_value_write: "hex_value acc (write_hex n v @ rest) = hex_value (acc * 16 ^ n + unat v mod 16 ^ n) rest"
proof (induction n arbitrary: acc)
  case 0
  then show ?case by (simp add: write_hex_def)
next
  case (Suc n)
  let ?d = "unat v div 16 ^ n mod 16"
  have "unat v mod 16 ^ Suc n = 16 ^ n * ?d + unat v mod 16 ^ n"
    using mod_mult2_eq [of "unat v" "16 ^ n" 16] by (simp add: mult.commute)
  moreover have "hex_digit (HEX ! ?d) = Some ?d" using hex_digit_HEX by simp
  ultimately show ?case using Suc.IH [of "16 * acc + ?d"] by (simp add: write_hex_Suc algebra_simps)
qed

lemma split_bytes_ascii:
  "\<forall>c \<in> set s. c < 128 \<Longrightarrow> n \<le> length s \<Longrightarrow> split_bytes n s = Some (take n s, drop n s)"
proof (induction n s rule: split_bytes.induct)
  case (3 n c cs)
  then have "length (utf8_char c) = 1" by (simp add: utf8_char_def)
  with 3 show ?case by (simp add: Let_def)
qed simp_all

lemma str_len_ascii: "\<forall>c \<in> set s. c < 128 \<Longrightarrow> str_len s = length s"
  by (induction s) (simp_all add: str_len_def utf8_encode_def utf8_char_def)

lemma uuid_hex:
  "filter (\<lambda>c. c \<noteq> 45) (uuid_string most least) =
    (write_hex 8 (ucast (ucast (drop_bit 32 most) :: u32)) @ write_hex 4 (ucast (ucast (drop_bit 16 most AND 0xffff) :: u16)) @
     write_hex 4 (ucast (ucast (most AND 0xffff) :: u16))) @
    (write_hex 4 (ucast (ucast (drop_bit 48 least) :: u16)) @ write_hex 12 (least AND 0x0000ffffffffffff))"
proof -
  have "filter (\<lambda>c. c \<noteq> 45) (write_hex n v) = write_hex n v" for n v
    by (rule filter_True) (use write_hex_chars in blast)
  then show ?thesis by (simp add: uuid_string_def write_hex_u32_def write_hex_u16_def write_hex_u48_def dash_def rstr_def)
qed

lemma unat_parts:
  fixes v :: u64
  shows "unat (ucast (ucast (drop_bit 32 v) :: u32) :: u64) = unat v div 2 ^ 32"
    and "unat (ucast (ucast (drop_bit 16 v AND 0xffff) :: u16) :: u64) = unat v div 2 ^ 16 mod 2 ^ 16"
    and "unat (ucast (ucast (v AND 0xffff) :: u16) :: u64) = unat v mod 2 ^ 16"
    and "unat (ucast (ucast (drop_bit 48 v) :: u16) :: u64) = unat v div 2 ^ 48"
    and "unat (v AND 0x0000ffffffffffff) = unat v mod 2 ^ 48"
proof -
  have v: "unat v < 2 ^ 64" using unsigned_less [of v] by simp
  have m16: "w AND 0xffff = take_bit 16 w" and m48: "w AND 0x0000ffffffffffff = take_bit 48 w" for w :: u64
    by (simp_all add: take_bit_eq_mask mask_eq_exp_minus_1)
  have t: "take_bit 64 (unat v) = unat v" using v by (simp add: take_bit_nat_eq_self)
  show "unat (ucast (ucast (drop_bit 32 v) :: u32) :: u64) = unat v div 2 ^ 32"
    "unat (ucast (ucast (drop_bit 16 v AND 0xffff) :: u16) :: u64) = unat v div 2 ^ 16 mod 2 ^ 16"
    "unat (ucast (ucast (v AND 0xffff) :: u16) :: u64) = unat v mod 2 ^ 16"
    "unat (ucast (ucast (drop_bit 48 v) :: u16) :: u64) = unat v div 2 ^ 48"
    "unat (v AND 0x0000ffffffffffff) = unat v mod 2 ^ 48"
    unfolding m16 m48 using v
    by (simp_all add: unsigned_ucast_eq unsigned_take_bit_eq unsigned_drop_bit_eq t)
      (simp_all add: take_bit_eq_mod drop_bit_eq_div mod_less less_mult_imp_div_less)
qed

lemma hex_parts:
  "hex_value 0 (write_hex 8 (ucast (ucast (drop_bit 32 v) :: u32)) @ write_hex 4 (ucast (ucast (drop_bit 16 v AND 0xffff) :: u16)) @
     write_hex 4 (ucast (ucast (v AND 0xffff) :: u16))) = Some (unat v)"
  "hex_value 0 (write_hex 4 (ucast (ucast (drop_bit 48 v) :: u16)) @ write_hex 12 (v AND 0x0000ffffffffffff)) = Some (unat v)"
proof -
  have v: "unat v < 2 ^ 64" using unsigned_less [of v] by simp
  have a: "unat v div 2 ^ 32 < 2 ^ 32" "unat v div 2 ^ 48 < 2 ^ 16" using v by (simp_all add: less_mult_imp_div_less)
  have "take_bit 64 (unat v) = unat v" using v by (simp add: take_bit_nat_eq_self)
  then have "unat (drop_bit 16 v) = drop_bit 16 (unat v)" by (simp add: unsigned_drop_bit_eq)
  then have d: "unat (drop_bit 16 v) = unat v div 2 ^ 16" by (simp only: drop_bit_eq_div)
  have s: "(unat v div 2 ^ 32 * 2 ^ 16 + unat v div 2 ^ 16 mod 2 ^ 16) = unat v div 2 ^ 16"
    using div_mult2_eq [of "unat v" "2 ^ 16" "2 ^ 16"] by simp
  show "hex_value 0 (write_hex 8 (ucast (ucast (drop_bit 32 v) :: u32)) @ write_hex 4 (ucast (ucast (drop_bit 16 v AND 0xffff) :: u16)) @
     write_hex 4 (ucast (ucast (v AND 0xffff) :: u16))) = Some (unat v)"
    unfolding hex_value_write hex_value_write [where rest = "[]", simplified append_Nil2] unat_parts d using a s by simp
  show "hex_value 0 (write_hex 4 (ucast (ucast (drop_bit 48 v) :: u16)) @ write_hex 12 (v AND 0x0000ffffffffffff)) = Some (unat v)"
    unfolding hex_value_write hex_value_write [where rest = "[]", simplified append_Nil2] unat_parts using a by simp
qed

lemma from_str_radix16_hex:
  assumes "hex_value 0 s = Some (unat v)" and "\<forall>c \<in> set s. c \<noteq> 43"
  shows "from_str_radix16 s = Inr v"
proof -
  have "strip_plus s = s" using assms(2) by (cases s) (auto simp: strip_plus_def)
  then show ?thesis by (simp add: from_str_radix16_def assms(1))
qed

lemma parse_uuid_string: "parse_uuid_parts (uuid_string most least) = Some (Inr (most, least))"
proof -
  let ?a = "write_hex 8 (ucast (ucast (drop_bit 32 most) :: u32)) @ write_hex 4 (ucast (ucast (drop_bit 16 most AND 0xffff) :: u16)) @
     write_hex 4 (ucast (ucast (most AND 0xffff) :: u16))"
  let ?b = "write_hex 4 (ucast (ucast (drop_bit 48 least) :: u16)) @ write_hex 12 (least AND 0x0000ffffffffffff)"
  have chars: "\<forall>c \<in> set (?a @ ?b). c < 128" "\<forall>c \<in> set ?a. c \<noteq> 43" "\<forall>c \<in> set ?b. c \<noteq> 43"
    using write_hex_chars by (simp_all, blast+)
  have len: "length ?a = 16" "length ?b = 16" by simp_all
  have "str_len (?a @ ?b) = 32" using str_len_ascii [OF chars(1)] len by simp
  moreover have "split_bytes 16 (?a @ ?b) = Some (?a, ?b)" using split_bytes_ascii [OF chars(1), of 16] len by simp
  ultimately show ?thesis
    using from_str_radix16_hex [OF hex_parts(1) chars(2)] from_str_radix16_hex [OF hex_parts(2) chars(3)]
    unfolding parse_uuid_parts_def Let_def uuid_hex by (simp only: if_False option.case prod.case sum.case simp_thms)
qed

lemma uuid_string_inject: "uuid_string a b = uuid_string c d \<longleftrightarrow> a = c \<and> b = d"
  by (metis parse_uuid_string old.sum.inject(2) option.inject prod.inject)


section \<open>A server with a topology\<close>

type_synonym uid = "u64 \<times> u64"

definition uid_string :: "uid \<Rightarrow> rstring" where
  "uid_string i = uuid_string (fst i) (snd i)"

definition uid_bytes :: "uid \<Rightarrow> bytes" where
  "uid_bytes i = write_i64 (fst i) @ write_i64 (snd i)"

definition uids_bytes :: "uid list \<Rightarrow> bytes" where
  "uids_bytes ids = write_i32 (i32_of_usize (length ids)) @ concat (map uid_bytes ids)"

text \<open>The answer to a client that knows version \<open>known\<close>: nothing new, or the ids of the current version.\<close>

definition ids_reply :: "i64 \<Rightarrow> uid list \<Rightarrow> i64 \<Rightarrow> bytes" where
  "ids_reply version ids known = (if known = version then write_bool False else write_bool True @ write_i64 version @ uids_bytes ids)"

lemma wseq_wr: "wseq (map (\<lambda>x. wr (f x)) xs) = wr (concat (map f xs))"
  by (induction xs) (simp_all add: wseq_def wthen_def wbind_def wr_def wret_def fun_eq_iff)

lemma uid_string_inject [simp]: "uid_string i = uid_string j \<longleftrightarrow> i = j"
  by (auto simp: uid_string_def uuid_string_inject prod_eq_iff)

lemma length_uids_bytes: "length (uids_bytes ids) = node_ids_size (map uid_string ids)"
  by (simp add: uids_bytes_def node_ids_size_def length_concat o_def uid_bytes_def sum_list_triv)

lemma node_ids_write_uids: "node_ids_write (map uid_string ids) = wr (uids_bytes ids)"
proof -
  have "node_id_write \<circ> uid_string = (\<lambda>i. wr (uid_bytes i))"
    by (auto simp: node_id_write_def uid_string_def uid_bytes_def parse_uuid_string)
  then show ?thesis
    by (simp add: node_ids_write_def wseq_wr uids_bytes_def) (simp add: wthen_def wbind_def wr_def wret_def fun_eq_iff)
qed

lemma read_uuids_back:
  assumes "length ids < 2 ^ 31"
  shows "read_uuids msg (uids_bytes ids) = Ok (map uid_string ids) []"
proof -
  have "repeat_read (length ids) read_uuid_string (concat (map uid_bytes ids) @ []) = Ok (map uid_string ids) []"
    by (rule repeat_read_concat) (simp add: uid_bytes_def uid_string_def read_uuid_string_def rbind_Ok)
  then show ?thesis
    using assms by (simp add: read_uuids_def uids_bytes_def rbind_Ok i32_range_of_usize with_capacity_of_usize sint_i32_of_usize)
qed

lemma ids_reply_back:
  assumes "length ids < 2 ^ 31"
  shows "node_ids_response_read (ids_reply version ids known) =
    Ok (if known = version then None else Some (version, map uid_string ids)) []"
  using read_uuids_back [OF assms, of "''negative cluster node id count''"]
  by (simp add: ids_reply_def node_ids_response_read_def rbind_Ok rmap_Ok rbind_Ok [where m = read_bool, OF bool_back])


text \<open>What the cache of the client holds: the ids of a version the server had, and true information on nodes.\<close>

definition known_topology :: "(i64 \<Rightarrow> uid list) \<Rightarrow> (uid \<Rightarrow> cluster_node) \<Rightarrow> 'z cluster_session_scheme \<Rightarrow> bool" where
  "known_topology ids_at info s \<longleftrightarrow>
    (\<forall>v. cl_topology_version (cl_cache s) = Some v \<longrightarrow> cl_node_ids (cl_cache s) = map uid_string (ids_at v)) \<and>
    (\<forall>k n. cl_nodes (cl_cache s) k = Some n \<longrightarrow> (\<exists>i. k = uid_string i \<and> n = info i))"

definition held :: "'z cluster_session_scheme \<Rightarrow> uid \<Rightarrow> bool" where
  "held s i \<longleftrightarrow> cl_nodes (cl_cache s) (uid_string i) \<noteq> None"

definition ids_call :: "'z cluster_session_scheme \<Rightarrow> call" where
  "ids_call s = request_call OpClusterGroupGetNodeIds (next_correlation_id s)
    (node_ids_request_write (case cl_topology_version (cl_cache s) of Some v \<Rightarrow> v | None \<Rightarrow> 0)) route_default"

locale topology_server =
  fixes net :: transport and reg :: registry and version_of :: "call list \<Rightarrow> i64" and ids_at :: "i64 \<Rightarrow> uid list"
    and info :: "uid \<Rightarrow> cluster_node"
  assumes ids_answered: "\<exists>addr. net log (request_call OpClusterGroupGetNodeIds corr (node_ids_request_write known) route_default) =
      Inr (Success, ids_reply (version_of log) (ids_at (version_of log)) known, 0, addr)"
    and info_answered: "length ids < 2 ^ 31 \<Longrightarrow>
      \<exists>reply addr. net log (request_call OpClusterGroupGetNodeInfo corr (uids_bytes ids) route_default) = Inr (Success, reply, 0, addr) \<and>
        node_info_response_read reg reply = Ok (map info (filter (\<lambda>i. i \<in> set (ids_at (version_of log))) ids)) []"
    and named: "cn_id (info i) = uid_string i"
    and started: "version_of log \<noteq> 0"
    and few: "length (ids_at v) < 2 ^ 31"
begin

lemma request_ids:
  assumes "known_topology ids_at info s"
  shows "\<exists>s'. request_node_ids net True s = (Done (map uid_string (ids_at (version_of (calls s)))), s') \<and> known_topology ids_at info s' \<and>
    cl_topology_version (cl_cache s') = Some (version_of (calls s)) \<and> calls s' = calls s @ [ids_call s] \<and>
    (\<forall>i \<in> set (ids_at (version_of (calls s))). held s' i = held s i) \<and> cluster_session.more s' = cluster_session.more s"
proof -
  let ?known = "case cl_topology_version (cl_cache s) of Some v \<Rightarrow> v | None \<Rightarrow> 0"
  let ?v = "version_of (calls s)"
  let ?call = "request_call OpClusterGroupGetNodeIds (next_correlation_id s) (node_ids_request_write ?known) route_default"
  obtain addr where "net (calls s) ?call = Inr (Success, ids_reply ?v (ids_at ?v) ?known, 0, addr)" using ids_answered by blast
  moreover have "length (node_ids_request_write ?known) = 8 + 4" by (simp add: node_ids_request_write_def)
  ultimately have "send_and_read net node_ids_response_read OpClusterGroupGetNodeIds (wr (node_ids_request_write ?known)) (sret (8 + 4)) s =
    (Done (if ?known = ?v then None else Some (?v, map uid_string (ids_at ?v))),
      s\<lparr>next_correlation_id := next_correlation_id s + 1, calls := calls s @ [?call]\<rparr>)"
    using perform_sized [OF sized_wr run_wr, of "node_ids_request_write ?known" "8 + 4" net OpClusterGroupGetNodeIds route_default s]
    by (simp add: send_and_read_def send_and_read_with_route_def abind_def [of "perform _ _ _ _ _"] Let_def request_call_def decoded_def
        ids_reply_back [OF few])
  then show ?thesis
    using assms started [of "calls s"]
    by (auto simp: ids_call_def request_node_ids_def abind_def known_topology_def held_def restrict_map_def split: option.splits if_splits)
qed

lemma insert_nodes:
  "foldl (\<lambda>m n. m(cn_id n \<mapsto> n)) m (map info is) (uid_string j) = (if j \<in> set is then Some (info j) else m (uid_string j))"
  by (induction "is" arbitrary: m) (auto simp: named)

lemma inserted_nodes:
  "foldl (\<lambda>m n. m(cn_id n \<mapsto> n)) m (map info is) k = Some n \<Longrightarrow> m k = Some n \<or> (\<exists>i. k = uid_string i \<and> n = info i)"
  by (induction "is" arbitrary: m) (fastforce simp: named split: if_splits)+

lemma request_nodes:
  assumes "known_topology ids_at info s" and "length ids < 2 ^ 31"
  shows "\<exists>s'. request_nodes_by_ids net True reg (map uid_string ids) s =
      (Done (map info (filter (\<lambda>i. held s i \<or> i \<in> set (ids_at (version_of (calls s)))) ids)), s') \<and> known_topology ids_at info s' \<and>
    cl_topology_version (cl_cache s') = cl_topology_version (cl_cache s) \<and>
    length (calls s') = length (calls s) + (if list_all (held s) ids then 0 else 1) \<and> cluster_session.more s' = cluster_session.more s \<and>
    (\<exists>ext. calls s' = calls s @ ext)"
proof -
  let ?missing = "filter (\<lambda>i. \<not> held s i) ids" and ?present = "set (ids_at (version_of (calls s)))"
  have miss: "filter (\<lambda>i. cl_nodes (cl_cache s) i = None) (map uid_string ids) = map uid_string ?missing"
    by (simp add: filter_map o_def held_def)
  have cached: "cl_nodes (cl_cache s) (uid_string i) = (if held s i then Some (info i) else None)" for i
    using assms(1) uid_string_inject unfolding known_topology_def held_def by (metis not_None_eq)
  have mf: "List.map_filter m (map uid_string ids) = map info (filter P ids)"
    if "\<And>i. i \<in> set ids \<Longrightarrow> m (uid_string i) = (if P i then Some (info i) else None)" for m P
    using that by (induction ids) (auto split: option.split)
  show ?thesis
  proof (cases "?missing = []")
    case True
    then have all: "list_all (held s) ids" by (auto simp: list_all_iff filter_empty_conv)
    then have "List.map_filter (cl_nodes (cl_cache s)) (map uid_string ids) =
        map info (filter (\<lambda>i. held s i \<or> i \<in> ?present) ids)"
      by (intro mf) (auto simp: cached list_all_iff)
    with all assms(1) True show ?thesis by (simp add: request_nodes_by_ids_def Let_def miss)
  next
    case False
    let ?call = "request_call OpClusterGroupGetNodeInfo (next_correlation_id s) (uids_bytes ?missing) route_default"
    let ?s1 = "s\<lparr>next_correlation_id := next_correlation_id s + 1, calls := calls s @ [?call]\<rparr>"
    let ?got = "filter (\<lambda>i. i \<in> ?present) ?missing"
    let ?m = "foldl (\<lambda>m n. m(cn_id n \<mapsto> n)) (cl_nodes (cl_cache s)) (map info ?got)"
    let ?s2 = "?s1\<lparr>cl_cache := (cl_cache s)\<lparr>cl_nodes := ?m\<rparr>\<rparr>"
    have "length ?missing < 2 ^ 31" using assms(2) length_filter_le [of "\<lambda>i. \<not> held s i" ids] by linarith
    then obtain reply addr where "net (calls s) ?call = Inr (Success, reply, 0, addr)"
      and "node_info_response_read reg reply = Ok (map info ?got) []"
      using info_answered by blast
    then have "send_and_read net (node_info_response_read reg) OpClusterGroupGetNodeInfo (node_ids_write (map uid_string ?missing))
        (sret (node_ids_size (map uid_string ?missing))) s = (Done (map info ?got), ?s1)"
      using perform_sized [OF sized_wr [OF length_uids_bytes [of ?missing]] run_wr, of net OpClusterGroupGetNodeInfo route_default s]
      by (simp add: send_and_read_def send_and_read_with_route_def abind_def [of "perform _ _ _ _ _"] Let_def request_call_def decoded_def
          node_ids_write_uids del: filter_filter)
    then have run: "request_nodes_by_ids net True reg (map uid_string ids) s = (Done (List.map_filter ?m (map uid_string ids)), ?s2)"
      using False by (simp add: request_nodes_by_ids_def Let_def miss abind_def del: filter_filter)
    have m: "?m (uid_string i) = (if held s i \<or> i \<in> set ?got then Some (info i) else None)" for i
      unfolding insert_nodes by (simp add: cached)
    have "List.map_filter ?m (map uid_string ids) = map info (filter (\<lambda>i. held s i \<or> i \<in> ?present) ids)"
      by (rule mf) (unfold m, auto)
    moreover have "known_topology ids_at info ?s2"
    proof -
      have "\<exists>i. k = uid_string i \<and> n = info i" if "?m k = Some n" for k n
        using inserted_nodes [OF that] assms(1) unfolding known_topology_def by blast
      then show ?thesis using assms(1) by (simp add: known_topology_def)
    qed
    moreover have "\<not> list_all (held s) ids" using False by (auto simp: list_all_iff filter_empty_conv)
    ultimately show ?thesis using run by simp
  qed
qed

lemma nodes_of_group:
  fixes s :: "'z cluster_session_scheme"
  defines "ids \<equiv> ids_at (version_of (calls s))" and "later \<equiv> ids_at (version_of (calls s @ [ids_call s]))"
  assumes "known_topology ids_at info s"
  shows "\<exists>s'. group_nodes net True reg veq nanos selectors s =
      (Done (apply_selectors veq nanos (map info (filter (\<lambda>i. held s i \<or> i \<in> set later) ids)) selectors), s') \<and>
    known_topology ids_at info s' \<and> cl_topology_version (cl_cache s') = Some (version_of (calls s)) \<and>
    length (calls s') = length (calls s) + (if list_all (held s) ids then 1 else 2) \<and> cluster_session.more s' = cluster_session.more s \<and>
    (\<exists>ext. calls s' = calls s @ ext)"
proof -
  from request_ids [OF assms(3)] obtain s1 where s1: "request_node_ids net True s = (Done (map uid_string ids), s1)"
      "known_topology ids_at info s1" "cl_topology_version (cl_cache s1) = Some (version_of (calls s))" "calls s1 = calls s @ [ids_call s]"
    and same: "\<forall>i \<in> set ids. held s1 i = held s i" "cluster_session.more s1 = cluster_session.more s"
    unfolding ids_def by blast
  have "length ids < 2 ^ 31" unfolding ids_def by (rule few)
  from request_nodes [OF s1(2) this] obtain s2 where s2: "request_nodes_by_ids net True reg (map uid_string ids) s1 =
        (Done (map info (filter (\<lambda>i. held s1 i \<or> i \<in> set (ids_at (version_of (calls s1)))) ids)), s2)"
      "known_topology ids_at info s2" "cl_topology_version (cl_cache s2) = cl_topology_version (cl_cache s1)"
      "length (calls s2) = length (calls s1) + (if list_all (held s1) ids then 0 else 1)"
      "cluster_session.more s2 = cluster_session.more s1" "\<exists>ext. calls s2 = calls s1 @ ext"
    by blast
  have "filter (\<lambda>i. held s1 i \<or> i \<in> set (ids_at (version_of (calls s1)))) ids = filter (\<lambda>i. held s i \<or> i \<in> set later) ids"
    by (rule filter_cong) (use same(1) in \<open>simp_all add: s1(4) later_def\<close>)
  moreover have "list_all (held s1) ids = list_all (held s) ids" using same(1) by (simp add: list_all_iff)
  moreover have "\<exists>ext. calls s2 = calls s @ ext" using s1(4) s2(6) by auto
  ultimately show ?thesis using s1 s2(1-5) same(2) by (simp add: group_nodes_def abind_def)
qed

end

section \<open>The nodes that selectors leave\<close>

lemma fold_choice: "foldl (\<lambda>best x. if P best x then x else best) n rest \<in> set (n # rest)"
proof (induction rest arbitrary: n)
  case (Cons a rest)
  show ?case using Cons.IH [of "if P n a then a else n"] by (auto split: if_splits)
qed simp

lemma apply_selector_subset: "set (apply_selector veq nanos sel ns) \<subseteq> set ns"
proof -
  have "min_by_order ns = Some n \<or> max_by_order ns = Some n \<Longrightarrow> n \<in> set ns" for n
    using fold_choice by (fastforce simp: min_by_order_def max_by_order_def split: list.splits)
  then show ?thesis by (induction veq nanos sel ns rule: apply_selector.induct) (auto split: option.splits)
qed

lemma apply_selectors_subset: "set (apply_selectors veq nanos ns sels) \<subseteq> set ns"
  unfolding apply_selectors_def
proof (induction sels arbitrary: ns)
  case (Cons sel sels)
  then show ?case using apply_selector_subset [of veq nanos sel ns] by fastforce
qed simp

lemma chosen_uids:
  assumes "set chosen \<subseteq> set (map info is)"
  shows "\<exists>us. chosen = map info us"
  using assms by (induction chosen) (auto, metis list.simps(9))

lemma chosen_ids:
  assumes "topology_server net reg version_of ids_at info" and "known_topology ids_at info s" and "selectors \<noteq> []"
    and "chosen = apply_selectors veq nanos (map info (filter (\<lambda>i. held s i \<or> i \<in> set (ids_at (version_of (calls s @ [ids_call s]))))
      (ids_at (version_of (calls s))))) selectors"
  shows "\<exists>us s1. map info us = chosen \<and> group_node_ids net True reg veq nanos selectors s = (Done (map uid_string us), s1) \<and>
    length (calls s1) \<le> length (calls s) + 2 \<and> cluster_session.more s1 = cluster_session.more s \<and> known_topology ids_at info s1 \<and>
    (\<exists>ext. calls s1 = calls s @ ext)"
proof -
  from topology_server.nodes_of_group [OF assms(1,2), of veq nanos selectors] obtain s1
    where s1: "group_nodes net True reg veq nanos selectors s = (Done chosen, s1)" "cluster_session.more s1 = cluster_session.more s"
        "known_topology ids_at info s1" "\<exists>ext. calls s1 = calls s @ ext"
      and len: "length (calls s1) = length (calls s) + (if list_all (held s) (ids_at (version_of (calls s))) then 1 else 2)"
    unfolding assms(4) by blast
  from len have "length (calls s1) \<le> length (calls s) + 2" by (simp split: if_splits)
  from apply_selectors_subset have "set chosen \<subseteq> set (map info (filter (\<lambda>i. held s i \<or>
      i \<in> set (ids_at (version_of (calls s @ [ids_call s])))) (ids_at (version_of (calls s)))))"
    unfolding assms(4) .
  from chosen_uids [OF this] obtain us where us: "chosen = map info us" by blast
  then have "map cn_id chosen = map uid_string us" by (simp add: topology_server.named [OF assms(1)])
  with s1 us assms(3) \<open>length (calls s1) \<le> length (calls s) + 2\<close> show ?thesis by (auto simp: group_node_ids_def abind_def)
qed

section \<open>Properties\<close>

text \<open>C26: Nodes of a group. For a server that answers from its topology, and a cache that holds what the server has
  said before, a group asks for the ids of the nodes once, and once more for the nodes it has no information on; it returns
  what the selectors leave of the nodes of the topology the first answer told, and the cache is again true and at that
  version. A node that leaves between the two requests is missing from the result, without an error.\<close>
theorem cluster_nodes:
  assumes "topology_server net reg version_of ids_at info" and "known_topology ids_at info s"
    and "ids = ids_at (version_of (calls s))" and "later = ids_at (version_of (calls s @ [ids_call s]))"
  shows "\<exists>s'. group_nodes net True reg veq nanos selectors s =
      (Done (apply_selectors veq nanos (map info (filter (\<lambda>i. held s i \<or> i \<in> set later) ids)) selectors), s') \<and>
    known_topology ids_at info s' \<and> cl_topology_version (cl_cache s') = Some (version_of (calls s)) \<and>
    length (calls s') = length (calls s) + (if list_all (held s) ids then 1 else 2)"
  using topology_server.nodes_of_group [OF assms(1,2), where veq = veq and nanos = nanos and selectors = selectors]
  unfolding assms(3,4) by blast

text \<open>A server with a topology of version 5, in which node \<open>(0, n)\<close> has order \<open>n\<close>.\<close>

definition sample_info :: "uid \<Rightarrow> cluster_node" where
  "sample_info i = \<lparr>cn_id = uid_string i, cn_attributes = Map.empty, cn_addresses = [], cn_host_names = [], cn_order = snd i,
    cn_is_local = False, cn_is_daemon = False, cn_is_client = (snd i = 2), cn_consistent_id = SvNull,
    cn_version = \<lparr>cnv_major = 2, cnv_minor = 1, cnv_maintenance = 7, cnv_stage = [], cnv_revision_timestamp = 0, cnv_revision_hash = []\<rparr>\<rparr>"

definition sample_info_bytes :: "uid \<Rightarrow> bytes" where
  "sample_info_bytes i = write_u8 (type_code_u8 TcUuid) @ uid_bytes i @ write_i32 0 @ write_u8 (type_code_u8 TcNull) @
    write_u8 (type_code_u8 TcNull) @ write_i64 (snd i) @ write_bool False @ write_bool False @ write_bool (snd i = 2) @
    write_u8 (type_code_u8 TcNull) @ write_u8 2 @ write_u8 1 @ write_u8 7 @ write_u8 (type_code_u8 TcNull) @ write_i64 0 @
    write_u8 (type_code_u8 TcNull)"

lemma read_sql_null: "read_sql_value reg (write_u8 (type_code_u8 TcNull) @ t) = Ok SvNull t"
  by (simp add: read_sql_value_def rbind_Ok read_type_code_write read_sql_unwrapped_body_def)

lemma typed_null: "cluster_typed_string (write_u8 (type_code_u8 TcNull) @ t) = Ok [] t"
    "cluster_string_collection (write_u8 (type_code_u8 TcNull) @ t) = Ok [] t"
    "read_revision_hash (write_u8 (type_code_u8 TcNull) @ t) = Ok [] t"
  by (simp_all add: cluster_typed_string_def cluster_string_collection_def read_revision_hash_def rbind_Ok read_type_code_write)

lemma sample_info_back: "read_cluster_node reg (sample_info_bytes i @ t) = Ok (sample_info i) t"
  by (simp add: read_cluster_node_def sample_info_bytes_def uid_bytes_def rbind_Ok read_uuid_string_def read_node_version_def
      typed_null read_sql_null sample_info_def uid_string_def i32_range_def with_capacity_def
      rbind_Ok [where m = read_bool, OF bool.dec_enc_any])

definition read_uids :: "uid list reader" where
  "read_uids = rbind read_i32 (\<lambda>count. repeat_read (i32_range count) (rbind read_i64 (\<lambda>a. rbind read_i64 (\<lambda>b. ret (a, b)))))"

lemma read_uids_back: "length ids < 2 ^ 31 \<Longrightarrow> read_uids (uids_bytes ids) = Ok ids []"
  using repeat_read_concat [of ids "rbind read_i64 (\<lambda>a. rbind read_i64 (\<lambda>b. ret (a, b)))" uid_bytes "\<lambda>i. i" "[]"]
  by (simp add: read_uids_def uids_bytes_def uid_bytes_def rbind_Ok i32_range_of_usize)

definition sample_topology_net :: transport where
  "sample_topology_net log c = (case c of (op, frame, route) \<Rightarrow>
    if op = OpClusterGroupGetNodeIds
    then (case read_i64 (frame_payload frame) of
        Ok known _ \<Rightarrow> Inr (Success, ids_reply 5 [(0, 3), (0, 1), (0, 2)] known, 0, [])
      | _ \<Rightarrow> Inr (Failure 1 [], [], 0, []))
    else (case read_uids (frame_payload frame) of
        Ok ids _ \<Rightarrow> (let found = filter (\<lambda>i. i \<in> set [(0, 3), (0, 1), (0, 2)]) ids
          in Inr (Success, write_i32 (i32_of_usize (length found)) @ concat (map sample_info_bytes found), 0, []))
      | _ \<Rightarrow> Inr (Failure 1 [], [], 0, [])))"

interpretation sample_topology: topology_server sample_topology_net reg "\<lambda>_. 5" "\<lambda>_. [(0, 3), (0, 1), (0, 2)]" sample_info for reg
proof unfold_locales
  fix log corr and ids :: "uid list"
  assume few: "length ids < 2 ^ 31"
  let ?found = "filter (\<lambda>i. i \<in> set [(0, 3), (0, 1), (0, 2)]) ids"
  have "length ?found < 2 ^ 31" using few length_filter_le [of "\<lambda>i. i \<in> set [(0, 3), (0, 1), (0, 2)]" ids] by linarith
  moreover have "repeat_read (length ?found) (read_cluster_node reg) (concat (map sample_info_bytes ?found) @ []) = Ok (map sample_info ?found) []"
    by (rule repeat_read_concat) (simp add: sample_info_back)
  ultimately have "node_info_response_read reg (write_i32 (i32_of_usize (length ?found)) @ concat (map sample_info_bytes ?found)) =
      Ok (map sample_info ?found) []"
    by (simp add: node_info_response_read_def rbind_Ok i32_range_of_usize with_capacity_of_usize sint_i32_of_usize)
  with read_uids_back [OF few]
  show "\<exists>reply addr. sample_topology_net log (request_call OpClusterGroupGetNodeInfo corr (uids_bytes ids) route_default) =
      Inr (Success, reply, 0, addr) \<and> node_info_response_read reg reply = Ok (map sample_info ?found) []"
    by (simp add: sample_topology_net_def request_call_def Let_def)
qed (simp_all add: sample_topology_net_def request_call_def node_ids_request_write_def sample_info_def)

theorem cluster_nodes_witness:
  "\<exists>s'. group_nodes sample_topology_net True Map.empty (\<lambda>_ _. False) 0 [SelServers, SelOldest]
      \<lparr>calls = [], next_correlation_id = 1, cl_cache = cluster_cache_default\<rparr> = (Done [sample_info (0, 1)], s') \<and> length (calls s') = 2"
proof -
  let ?s = "\<lparr>calls = [], next_correlation_id = 1, cl_cache = cluster_cache_default\<rparr>"
  have "known_topology (\<lambda>_. [(0, 3), (0, 1), (0, 2)]) sample_info ?s" by (simp add: known_topology_def cluster_cache_default_def)
  from cluster_nodes [OF sample_topology.topology_server_axioms this refl refl, of Map.empty "\<lambda>_ _. False" 0 "[SelServers, SelOldest]"]
  show ?thesis
    by (simp add: held_def cluster_cache_default_def apply_selectors_def sample_info_def min_by_order_def numeral_2_eq_2) blast
qed

end
