(* ===== verification/Compute.thy ===== *)
theory Compute
  imports Cluster Continuous
begin

text \<open>
  Compute tasks, \<open>ignite-rs/src/compute/mod.rs\<close>: the request that starts a task on a group of nodes, the listener that
  waits for its end, and the calls on a task (\<open>wait\<close>, \<open>cancel\<close>, the drop) under every interleaving with the
  notifications and failures of the channel. The argument and the result of a task are types that are written and read.
\<close>

section \<open>Starting a task\<close>

definition FLAG_NO_FAILOVER :: u8 where "FLAG_NO_FAILOVER = 0x01"
definition FLAG_NO_RESULT_CACHE :: u8 where "FLAG_NO_RESULT_CACHE = 0x02"

record compute =
  cp_cluster_group :: "selector list"
  cp_flags :: u8
  cp_timeout_ms :: i64

definition compute_new :: "selector list option \<Rightarrow> compute" where
  "compute_new g = \<lparr>cp_cluster_group = (case g of Some selectors \<Rightarrow> selectors | None \<Rightarrow> default_servers), cp_flags = 0, cp_timeout_ms = 0\<rparr>"

definition with_cluster_group :: "compute \<Rightarrow> selector list \<Rightarrow> compute" where
  "with_cluster_group self g = self\<lparr>cp_cluster_group := g\<rparr>"

definition with_timeout_ms :: "compute \<Rightarrow> i64 \<Rightarrow> compute" where
  "with_timeout_ms self t = self\<lparr>cp_timeout_ms := t\<rparr>"

definition with_no_failover :: "compute \<Rightarrow> compute" where
  "with_no_failover self = self\<lparr>cp_flags := cp_flags self OR FLAG_NO_FAILOVER\<rparr>"

definition with_no_result_cache :: "compute \<Rightarrow> compute" where
  "with_no_result_cache self = self\<lparr>cp_flags := cp_flags self OR FLAG_NO_RESULT_CACHE\<rparr>"

definition compute_execute_write :: "('a \<Rightarrow> writer) \<Rightarrow> rstring list \<Rightarrow> u8 \<Rightarrow> i64 \<Rightarrow> rstring \<Rightarrow> 'a option \<Rightarrow> writer" where
  "compute_execute_write wa ids flags timeout_ms task_name arg =
    wthen (node_ids_write ids) (wthen (wr (write_u8 flags @ write_i64 timeout_ms @ write_string_type_code task_name))
      (case arg of Some a \<Rightarrow> wa a | None \<Rightarrow> wr write_null))"

definition compute_execute_size :: "('a \<Rightarrow> sizer) \<Rightarrow> rstring list \<Rightarrow> rstring \<Rightarrow> 'a option \<Rightarrow> sizer" where
  "compute_execute_size sa ids task_name arg =
    sadd (sret (4 + length ids * 16)) (sadd (sret (1 + 8 + 1 + 4 + str_len task_name)) (case arg of Some a \<Rightarrow> sa a | None \<Rightarrow> sret 1))"

text \<open>The channels by address are those that are available; on one of them the listener is registered.\<close>

record compute_session = cluster_session +
  cs_chans :: "rstring \<Rightarrow> notifications option"

record frame_receiver =
  fr_queue :: "(conn_error + response_frame) list"
  fr_live :: bool

definition frame_recv :: "frame_receiver \<Rightarrow> (conn_error + response_frame) option polled \<times> frame_receiver" where
  "frame_recv rx = (case fr_queue rx of
      x # xs \<Rightarrow> (Ready (Some x), rx\<lparr>fr_queue := xs\<rparr>)
    | [] \<Rightarrow> (if fr_live rx then Waits else Ready None, rx))"

record compute_task =
  ct_address :: rstring
  ct_task_id :: i64
  ct_receiver :: "frame_receiver option"
  ct_cancelled :: bool

definition task_key :: "i64 \<Rightarrow> notification_key" where
  "task_key task_id = (op_code_i16 OpComputeTaskFinished, task_id)"

definition queued :: "notification_key \<Rightarrow> notifications \<Rightarrow> (conn_error + response_frame) list" where
  "queued key n = (case n_listeners n key of Some (_, frames) \<Rightarrow> map Inr frames | None \<Rightarrow> [])"

definition listen :: "rstring \<Rightarrow> i64 \<Rightarrow> ('z compute_session_scheme, compute_task) act" where
  "listen address task_id s = (case cs_chans s address of
      None \<Rightarrow> (Failed (client_error ''Notification channel is not available''), s)
    | Some n \<Rightarrow> (let n' = register_notification_listener (task_key task_id) n
        in (Done \<lparr>ct_address = address, ct_task_id = task_id,
              ct_receiver = Some \<lparr>fr_queue = queued (task_key task_id) n', fr_live = True\<rparr>, ct_cancelled = False\<rparr>,
            s\<lparr>cs_chans := (cs_chans s)(address \<mapsto> n')\<rparr>)))"

definition execute_async ::
    "transport \<Rightarrow> bool \<Rightarrow> bool \<Rightarrow> registry \<Rightarrow> (sql_value \<Rightarrow> sql_value \<Rightarrow> bool) \<Rightarrow> nat \<Rightarrow> compute \<Rightarrow>
     ('a \<Rightarrow> writer) \<Rightarrow> ('a \<Rightarrow> sizer) \<Rightarrow> rstring \<Rightarrow> 'a option \<Rightarrow> ('z compute_session_scheme, compute_task) act" where
  "execute_async net supported groups reg veq nanos self wa sa task_name arg =
    (if \<not> supported then afail (client_error ''Compute grid functionality for thin client is not supported by the server'')
     else abind (group_node_ids net groups reg veq nanos (cp_cluster_group self)) (\<lambda>cluster_node_ids.
       if cluster_node_ids = [] then afail (client_error ''Cluster group is empty.'')
       else abind (send_and_read_with_meta net read_i64 OpComputeTaskExecute
           (compute_execute_write wa cluster_node_ids (cp_flags self) (cp_timeout_ms self) task_name arg)
           (compute_execute_size sa cluster_node_ids task_name arg) route_default)
         (\<lambda>(task_id, address). listen address task_id)))"

section \<open>Calls on a task\<close>

definition RESOURCE_DOES_NOT_EXIST :: i32 where "RESOURCE_DOES_NOT_EXIST = 1011"

definition unlisten :: "rstring \<Rightarrow> i64 \<Rightarrow> 'z compute_session_scheme \<Rightarrow> 'z compute_session_scheme" where
  "unlisten address task_id s =
    s\<lparr>cs_chans := (cs_chans s)(address := map_option (remove_notification_listener (task_key task_id)) (cs_chans s address))\<rparr>"

text \<open>Whether the answer to the close request lets \<open>cancel\<close> go on.\<close>

definition cancel_accepted :: "unit result \<Rightarrow> bool" where
  "cancel_accepted r = (case r of
      Done _ \<Rightarrow> True
    | Failed (CError e) \<Rightarrow> err_server_status e = Some RESOURCE_DOES_NOT_EXIST
    | _ \<Rightarrow> False)"

definition task_cancel ::
    "transport \<Rightarrow> compute_task \<Rightarrow> 'z compute_session_scheme \<Rightarrow> unit result \<times> compute_task \<times> 'z compute_session_scheme" where
  "task_cancel net self s =
    (if ct_cancelled self then (Done (), self, s)
     else case send_with_route net OpResourceClose (wr (write_i64 (ct_task_id self))) (sret 8) (route_pinned (ct_address self)) s of
       (r, s') \<Rightarrow> (if cancel_accepted r then (Done (), self\<lparr>ct_cancelled := True\<rparr>, unlisten (ct_address self) (ct_task_id self) s')
                  else (r, self\<lparr>ct_cancelled := True\<rparr>, s')))"

text \<open>\<open>wait\<close> in three parts: taking the receiver, receiving, and reading the frame.\<close>

definition wait_take :: "compute_task \<Rightarrow> (conn_error + frame_receiver) \<times> compute_task" where
  "wait_take self =
    (if ct_cancelled self then (Inl (client_error ''Task was cancelled''), self)
     else case ct_receiver self of
       None \<Rightarrow> (Inl (client_error ''Compute task result was already consumed''), self)
     | Some rx \<Rightarrow> (Inr rx, self\<lparr>ct_receiver := None\<rparr>))"

definition frame_result :: "'r option reader \<Rightarrow> response_frame \<Rightarrow> 'r option result" where
  "frame_result rd frame = (case frame_flag frame of
      Success \<Rightarrow> (if length (frame_body frame) \<le> payload_offset frame then Done None
                  else decoded (rd (drop (payload_offset frame) (frame_body frame))))
    | Failure status err_msg \<Rightarrow> Failed (CError (from_server_status status err_msg)))"

definition received :: "'r option reader \<Rightarrow> (conn_error + response_frame) option \<Rightarrow> 'r option result" where
  "received rd m = (case m of
      None \<Rightarrow> Failed (client_error ''Compute task notification channel closed'')
    | Some (Inl e) \<Rightarrow> Failed e
    | Some (Inr frame) \<Rightarrow> frame_result rd frame)"

text \<open>The listener is removed when a frame has come, not on an error.\<close>

definition task_wait ::
    "'r option reader \<Rightarrow> compute_task \<Rightarrow> 'z compute_session_scheme \<Rightarrow> 'r option result polled \<times> compute_task \<times> 'z compute_session_scheme" where
  "task_wait rd self s = (case wait_take self of
      (Inl e, self') \<Rightarrow> (Ready (Failed e), self', s)
    | (Inr rx, self') \<Rightarrow> (case frame_recv rx of
        (Waits, _) \<Rightarrow> (Waits, self', s)
      | (Ready m, _) \<Rightarrow> (Ready (received rd m), self',
          case m of Some (Inr _) \<Rightarrow> unlisten (ct_address self) (ct_task_id self) s | _ \<Rightarrow> s)))"

definition drop_task :: "compute_task \<Rightarrow> 'z compute_session_scheme \<Rightarrow> 'z compute_session_scheme" where
  "drop_task self s = (if ct_cancelled self then s else unlisten (ct_address self) (ct_task_id self) s)"

definition compute_execute ::
    "transport \<Rightarrow> bool \<Rightarrow> bool \<Rightarrow> registry \<Rightarrow> (sql_value \<Rightarrow> sql_value \<Rightarrow> bool) \<Rightarrow> nat \<Rightarrow> compute \<Rightarrow>
     ('a \<Rightarrow> writer) \<Rightarrow> ('a \<Rightarrow> sizer) \<Rightarrow> 'r option reader \<Rightarrow> rstring \<Rightarrow> 'a option \<Rightarrow>
     'z compute_session_scheme \<Rightarrow> 'r option result polled \<times> 'z compute_session_scheme" where
  "compute_execute net supported groups reg veq nanos self wa sa rd task_name arg s =
    (case execute_async net supported groups reg veq nanos self wa sa task_name arg s of
       (Done task, s') \<Rightarrow> (case task_wait rd task s' of
           (Waits, _, s'') \<Rightarrow> (Waits, s'')
         | (Ready r, task', s'') \<Rightarrow> (Ready r, drop_task task' s''))
     | (Failed e, s') \<Rightarrow> (Ready (Failed e), s')
     | (Panicked, s') \<Rightarrow> (Ready Panicked, s')
     | (Unfinished, s') \<Rightarrow> (Ready Unfinished, s'))"

section \<open>Interleavings\<close>

text \<open>One task with any number of calls of \<open>wait\<close> and \<open>cancel\<close>, while the channel delivers notifications and may break.
  \<open>tw_rx\<close> is the channel of frames (\<open>fr_live\<close>: the listener is registered), \<open>tw_open\<close> says that its receiver has not been
  dropped. \<open>tw_taker\<close>, \<open>tw_frames\<close> and \<open>tw_error\<close> record the call that took the receiver, the frames that came while the
  listener was registered, and the error of the channel; \<open>tw_canceller\<close> the call that sent the close request.\<close>

datatype 'r wait_phase = WaitNew | WaitReceiving | WaitReturned "'r option result" | WaitAbandoned
datatype cancel_phase = CancelNew | CancelSending | CancelReturned "unit result"

record 'r task_world =
  tw_rx :: frame_receiver
  tw_open :: bool
  tw_cancelled :: bool
  tw_dropped :: bool
  tw_waits :: "nat \<Rightarrow> 'r wait_phase"
  tw_cancels :: "nat \<Rightarrow> cancel_phase"
  tw_closes :: nat
  tw_taker :: "nat option"
  tw_frames :: "response_frame list"
  tw_error :: "conn_error option"
  tw_canceller :: "nat option"

definition task_of :: "rstring \<Rightarrow> i64 \<Rightarrow> 'r task_world \<Rightarrow> compute_task" where
  "task_of address task_id w = \<lparr>ct_address = address, ct_task_id = task_id,
    ct_receiver = (if tw_taker w = None then Some (tw_rx w) else None), ct_cancelled = tw_cancelled w\<rparr>"

definition task_started :: "response_frame list \<Rightarrow> 'r task_world" where
  "task_started frames = \<lparr>tw_rx = \<lparr>fr_queue = map Inr frames, fr_live = True\<rparr>, tw_open = True, tw_cancelled = False, tw_dropped = False,
    tw_waits = (\<lambda>_. WaitNew), tw_cancels = (\<lambda>_. CancelNew), tw_closes = 0, tw_taker = None, tw_frames = frames, tw_error = None, tw_canceller = None\<rparr>"

definition stop_listening :: "'r task_world \<Rightarrow> 'r task_world" where
  "stop_listening w = w\<lparr>tw_rx := (tw_rx w)\<lparr>fr_live := False\<rparr>\<rparr>"

definition push :: "conn_error + response_frame \<Rightarrow> 'r task_world \<Rightarrow> 'r task_world" where
  "push m w = (if tw_open w then w\<lparr>tw_rx := (tw_rx w)\<lparr>fr_queue := fr_queue (tw_rx w) @ [m]\<rparr>\<rparr> else w)"

definition under_way :: "'r task_world \<Rightarrow> bool" where
  "under_way w \<longleftrightarrow> (case tw_taker w of Some n \<Rightarrow> tw_waits w n = WaitReceiving | None \<Rightarrow> False) \<or>
    (case tw_canceller w of Some n \<Rightarrow> tw_cancels w n = CancelSending | None \<Rightarrow> False)"

datatype task_action =
    ActWait nat | ActReceive nat | ActAbandon nat | ActCancel nat | ActAnswer nat "unit result"
  | ActNotify response_frame | ActBroken conn_error | ActDrop

fun task_step :: "rstring \<Rightarrow> i64 \<Rightarrow> 'r option reader \<Rightarrow> task_action \<Rightarrow> 'r task_world \<Rightarrow> 'r task_world option" where
  "task_step address task_id rd (ActWait n) w = (if tw_waits w n \<noteq> WaitNew \<or> tw_dropped w then None
     else case wait_take (task_of address task_id w) of
       (Inl e, _) \<Rightarrow> Some (w\<lparr>tw_waits := (tw_waits w)(n := WaitReturned (Failed e))\<rparr>)
     | (Inr _, _) \<Rightarrow> Some (w\<lparr>tw_waits := (tw_waits w)(n := WaitReceiving), tw_taker := Some n\<rparr>))"
| "task_step address task_id rd (ActReceive n) w = (if tw_waits w n \<noteq> WaitReceiving then None
     else case frame_recv (tw_rx w) of
       (Waits, _) \<Rightarrow> None
     | (Ready m, rx) \<Rightarrow>
         (let w' = w\<lparr>tw_rx := rx, tw_open := False, tw_waits := (tw_waits w)(n := WaitReturned (received rd m))\<rparr>
          in Some (case m of Some (Inr _) \<Rightarrow> stop_listening w' | _ \<Rightarrow> w')))"
| "task_step address task_id rd (ActAbandon n) w = (if tw_waits w n \<noteq> WaitReceiving then None
     else Some (w\<lparr>tw_waits := (tw_waits w)(n := WaitAbandoned), tw_open := False\<rparr>))"
| "task_step address task_id rd (ActCancel n) w = (if tw_cancels w n \<noteq> CancelNew \<or> tw_dropped w then None
     else if tw_cancelled w then Some (w\<lparr>tw_cancels := (tw_cancels w)(n := CancelReturned (Done ()))\<rparr>)
     else Some (w\<lparr>tw_cancelled := True, tw_closes := Suc (tw_closes w), tw_cancels := (tw_cancels w)(n := CancelSending), tw_canceller := Some n\<rparr>))"
| "task_step address task_id rd (ActAnswer n r) w = (if tw_cancels w n \<noteq> CancelSending then None
     else if cancel_accepted r then Some (stop_listening (w\<lparr>tw_cancels := (tw_cancels w)(n := CancelReturned (Done ()))\<rparr>))
     else Some (w\<lparr>tw_cancels := (tw_cancels w)(n := CancelReturned r)\<rparr>))"
| "task_step address task_id rd (ActNotify frame) w =
    Some (if fr_live (tw_rx w) then push (Inr frame) (w\<lparr>tw_frames := tw_frames w @ [frame]\<rparr>) else w)"
| "task_step address task_id rd (ActBroken e) w =
    Some (if fr_live (tw_rx w) then stop_listening (push (Inl e) (w\<lparr>tw_error := Some e\<rparr>)) else w)"
| "task_step address task_id rd ActDrop w =
    (if tw_dropped w \<or> under_way w then None
     else let w' = w\<lparr>tw_dropped := True, tw_open := False\<rparr> in Some (if tw_cancelled w then w' else stop_listening w'))"

inductive task_reachable :: "rstring \<Rightarrow> i64 \<Rightarrow> 'r option reader \<Rightarrow> response_frame list \<Rightarrow> 'r task_world \<Rightarrow> bool"
  for address task_id rd frames where
  started: "task_reachable address task_id rd frames (task_started frames)"
| stepped: "task_reachable address task_id rd frames w \<Longrightarrow> task_step address task_id rd a w = Some w' \<Longrightarrow>
    task_reachable address task_id rd frames w'"

fun task_run :: "rstring \<Rightarrow> i64 \<Rightarrow> 'r option reader \<Rightarrow> task_action list \<Rightarrow> 'r task_world \<Rightarrow> 'r task_world option" where
  "task_run address task_id rd [] w = Some w"
| "task_run address task_id rd (a # as) w = Option.bind (task_step address task_id rd a w) (task_run address task_id rd as)"

lemma task_run_reachable:
  "task_reachable address task_id rd frames w \<Longrightarrow> task_run address task_id rd as w = Some w' \<Longrightarrow> task_reachable address task_id rd frames w'"
  by (induction "as" arbitrary: w) (auto simp: Option.bind_eq_Some_conv intro: task_reachable.stepped simp del: task_step.simps)

text \<open>What the one wait that takes the receiver returns.\<close>

definition task_outcome :: "'r option reader \<Rightarrow> 'r task_world \<Rightarrow> 'r option result" where
  "task_outcome rd w = (case tw_frames w of
      frame # _ \<Rightarrow> frame_result rd frame
    | [] \<Rightarrow> (case tw_error w of Some e \<Rightarrow> Failed e | None \<Rightarrow> Failed (client_error ''Compute task notification channel closed'')))"

definition awaited :: "'r task_world \<Rightarrow> (conn_error + response_frame) list" where
  "awaited w = map Inr (tw_frames w) @ (case tw_error w of Some e \<Rightarrow> [Inl e] | None \<Rightarrow> [])"

definition turned_away :: "'r option result \<Rightarrow> bool" where
  "turned_away r \<longleftrightarrow> r = Failed (client_error ''Task was cancelled'') \<or> r = Failed (client_error ''Compute task result was already consumed'')"

definition wait_ok :: "'r option reader \<Rightarrow> 'r task_world \<Rightarrow> nat \<Rightarrow> bool" where
  "wait_ok rd w n = (case tw_waits w n of
      WaitNew \<Rightarrow> tw_taker w \<noteq> Some n
    | WaitReceiving \<Rightarrow> tw_taker w = Some n \<and> tw_open w
    | WaitAbandoned \<Rightarrow> tw_taker w = Some n \<and> \<not> tw_open w
    | WaitReturned r \<Rightarrow> (if tw_taker w = Some n then r = task_outcome rd w \<and> \<not> tw_open w \<and> \<not> fr_live (tw_rx w) else turned_away r))"

definition cancel_ok :: "'r task_world \<Rightarrow> nat \<Rightarrow> bool" where
  "cancel_ok w n = (case tw_cancels w n of
      CancelNew \<Rightarrow> tw_canceller w \<noteq> Some n
    | CancelSending \<Rightarrow> tw_canceller w = Some n
    | CancelReturned r \<Rightarrow> (if tw_canceller w = Some n then fr_live (tw_rx w) \<longrightarrow> r \<noteq> Done () else r = Done ()))"

definition listener_ok :: "'r task_world \<Rightarrow> bool" where
  "listener_ok w \<longleftrightarrow> (tw_open w \<longrightarrow> fr_queue (tw_rx w) = awaited w) \<and> (tw_error w \<noteq> None \<longrightarrow> \<not> fr_live (tw_rx w)) \<and>
    tw_closes w = (if tw_cancelled w then 1 else 0) \<and> tw_cancelled w = (tw_canceller w \<noteq> None) \<and>
    (tw_taker w = None \<and> \<not> tw_dropped w \<longrightarrow> tw_open w) \<and> (tw_dropped w \<longrightarrow> \<not> tw_open w) \<and> (tw_dropped w \<and> \<not> tw_cancelled w \<longrightarrow> \<not> fr_live (tw_rx w))"

definition task_inv :: "'r option reader \<Rightarrow> 'r task_world \<Rightarrow> bool" where
  "task_inv rd w \<longleftrightarrow> (\<forall>n. wait_ok rd w n) \<and> (\<forall>n. cancel_ok w n) \<and> listener_ok w"

lemma wait_take_of: "wait_take (task_of address task_id w) =
    (if tw_cancelled w then (Inl (client_error ''Task was cancelled''), task_of address task_id w)
     else case tw_taker w of
       Some _ \<Rightarrow> (Inl (client_error ''Compute task result was already consumed''), task_of address task_id w)
     | None \<Rightarrow> (Inr (tw_rx w), (task_of address task_id w)\<lparr>ct_receiver := None\<rparr>))"
  by (simp add: wait_take_def task_of_def split: option.split)

lemma task_outcome_awaited: "received rd (case awaited w of x # _ \<Rightarrow> Some x | [] \<Rightarrow> None) = task_outcome rd w"
  by (simp add: received_def awaited_def task_outcome_def split: list.split option.split)


lemmas task_ok_defs = wait_ok_def cancel_ok_def listener_ok_def

lemma task_views [simp]:
  "task_outcome rd (w\<lparr>tw_waits := a\<rparr>) = task_outcome rd w" "task_outcome rd (w\<lparr>tw_taker := b\<rparr>) = task_outcome rd w"
  "task_outcome rd (w\<lparr>tw_rx := c\<rparr>) = task_outcome rd w" "task_outcome rd (w\<lparr>tw_open := d\<rparr>) = task_outcome rd w"
  "task_outcome rd (w\<lparr>tw_cancels := e\<rparr>) = task_outcome rd w" "task_outcome rd (w\<lparr>tw_canceller := b\<rparr>) = task_outcome rd w"
  "task_outcome rd (w\<lparr>tw_cancelled := d\<rparr>) = task_outcome rd w" "task_outcome rd (w\<lparr>tw_dropped := d\<rparr>) = task_outcome rd w"
  "task_outcome rd (w\<lparr>tw_closes := k\<rparr>) = task_outcome rd w"
  "awaited (w\<lparr>tw_waits := a\<rparr>) = awaited w" "awaited (w\<lparr>tw_taker := b\<rparr>) = awaited w" "awaited (w\<lparr>tw_rx := c\<rparr>) = awaited w"
  "awaited (w\<lparr>tw_open := d\<rparr>) = awaited w" "awaited (w\<lparr>tw_cancels := e\<rparr>) = awaited w" "awaited (w\<lparr>tw_canceller := b\<rparr>) = awaited w"
  "awaited (w\<lparr>tw_cancelled := d\<rparr>) = awaited w" "awaited (w\<lparr>tw_dropped := d\<rparr>) = awaited w" "awaited (w\<lparr>tw_closes := k\<rparr>) = awaited w"
  by (simp_all add: task_outcome_def awaited_def split: list.split option.split)

lemma task_inv_started: "task_inv rd (task_started frames)"
  by (simp add: task_inv_def task_ok_defs task_started_def awaited_def)

lemma task_invE:
  assumes "task_inv rd w"
  obtains "\<And>m. wait_ok rd w m" and "\<And>m. cancel_ok w m" and "listener_ok w"
  using assms by (simp add: task_inv_def)

lemma task_invI: "(\<And>m. wait_ok rd w m) \<Longrightarrow> (\<And>m. cancel_ok w m) \<Longrightarrow> listener_ok w \<Longrightarrow> task_inv rd w"
  by (simp add: task_inv_def)

lemma task_inv_wait:
  assumes "task_inv rd w" and "task_step address task_id rd (ActWait n) w = Some w'"
  shows "task_inv rd w'"
proof -
  from assms(1) obtain ok: "\<And>m. wait_ok rd w m" "\<And>m. cancel_ok w m" "listener_ok w" by (rule task_invE) blast
  from assms(2) have new: "tw_waits w n = WaitNew" "\<not> tw_dropped w" by (auto split: if_splits)
  have "(\<exists>r. turned_away r \<and> w' = w\<lparr>tw_waits := (tw_waits w)(n := WaitReturned r)\<rparr>) \<or>
      tw_taker w = None \<and> \<not> tw_cancelled w \<and> w' = w\<lparr>tw_waits := (tw_waits w)(n := WaitReceiving), tw_taker := Some n\<rparr>"
    using assms(2) new by (auto simp: wait_take_of turned_away_def split: if_splits option.splits)
  then show ?thesis
  proof (elim disjE exE conjE)
    fix r assume w': "turned_away r" "w' = w\<lparr>tw_waits := (tw_waits w)(n := WaitReturned r)\<rparr>"
    show ?thesis
    proof (rule task_invI)
      show "wait_ok rd w' m" for m
        using ok(1) [of m] ok(1) [of n] w' new by (auto simp: wait_ok_def split: wait_phase.splits)
      show "cancel_ok w' m" for m using ok(2) [of m] w' by (auto simp: cancel_ok_def split: cancel_phase.splits)
      show "listener_ok w'" using ok(3) w' by (auto simp: listener_ok_def)
    qed
  next
    assume w': "tw_taker w = None" "w' = w\<lparr>tw_waits := (tw_waits w)(n := WaitReceiving), tw_taker := Some n\<rparr>"
    show ?thesis
    proof (rule task_invI)
      show "wait_ok rd w' m" for m
        using ok(1) [of m] ok(3) w' new by (auto simp: wait_ok_def listener_ok_def split: wait_phase.splits)
      show "cancel_ok w' m" for m using ok(2) [of m] w' by (auto simp: cancel_ok_def split: cancel_phase.splits)
      show "listener_ok w'" using ok(3) w' by (auto simp: listener_ok_def)
    qed
  qed
qed

lemma task_inv_receive:
  assumes "task_inv rd w" and "task_step address task_id rd (ActReceive n) w = Some w'"
  shows "task_inv rd w'"
proof -
  from assms(1) obtain ok: "\<And>m. wait_ok rd w m" "\<And>m. cancel_ok w m" "listener_ok w" by (rule task_invE) blast
  from assms(2) have phase: "tw_waits w n = WaitReceiving" by (auto split: if_splits)
  with ok(1) [of n] have taker: "tw_taker w = Some n" "tw_open w" by (simp_all add: wait_ok_def)
  with ok(3) have queue: "fr_queue (tw_rx w) = awaited w" by (simp add: listener_ok_def)
  let ?done = "\<lambda>rx. w\<lparr>tw_rx := rx, tw_open := False, tw_waits := (tw_waits w)(n := WaitReturned (task_outcome rd w))\<rparr>"
  have "\<exists>rx. w' = ?done rx \<and> \<not> fr_live rx"
  proof (cases "awaited w")
    case Nil
    with assms(2) phase have "w' = ?done (tw_rx w) \<and> \<not> fr_live (tw_rx w)"
      by (auto simp: frame_recv_def queue Let_def task_outcome_awaited [symmetric] split: if_splits)
    then show ?thesis by blast
  next
    case (Cons x xs)
    let ?rx = "(tw_rx w)\<lparr>fr_queue := xs\<rparr>"
    have outcome: "task_outcome rd w = received rd (Some x)" using Cons by (simp add: task_outcome_awaited [symmetric])
    show ?thesis
    proof (cases x)
      case (Inl e)
      with Cons have "tw_error w \<noteq> None" by (auto simp: awaited_def Cons_eq_append_conv split: option.splits)
      with ok(3) have "\<not> fr_live ?rx" by (simp add: listener_ok_def)
      moreover have "w' = ?done ?rx" using assms(2) phase Cons Inl outcome by (simp add: frame_recv_def queue Let_def)
      ultimately show ?thesis by blast
    next
      case (Inr f)
      have "w' = stop_listening (?done ?rx)" using assms(2) phase Cons Inr outcome by (simp add: frame_recv_def queue Let_def)
      also have "\<dots> = ?done (?rx\<lparr>fr_live := False\<rparr>)" by (cases w) (simp add: stop_listening_def)
      finally have "w' = ?done (?rx\<lparr>fr_live := False\<rparr>)" .
      then show ?thesis by (intro exI [of _ "?rx\<lparr>fr_live := False\<rparr>"]) simp
    qed
  qed
  then obtain rx where w': "w' = w\<lparr>tw_rx := rx, tw_open := False, tw_waits := (tw_waits w)(n := WaitReturned (task_outcome rd w))\<rparr>"
    and rx: "\<not> fr_live rx" by blast
  show ?thesis
  proof (rule task_invI)
    show "wait_ok rd w' m" for m using ok(1) [of m] taker rx unfolding w' by (auto simp: wait_ok_def split: wait_phase.splits)
    show "cancel_ok w' m" for m using ok(2) [of m] rx unfolding w' by (auto simp: cancel_ok_def split: cancel_phase.splits)
    show "listener_ok w'" using ok(3) taker rx unfolding w' by (auto simp: listener_ok_def)
  qed
qed

lemma task_inv_cancel:
  assumes "task_inv rd w" and "task_step address task_id rd (ActCancel n) w = Some w'"
  shows "task_inv rd w'"
proof -
  from assms(1) obtain ok: "\<And>m. wait_ok rd w m" "\<And>m. cancel_ok w m" "listener_ok w" by (rule task_invE) blast
  from assms(2) have new: "tw_cancels w n = CancelNew" by (auto split: if_splits)
  have w': "w' = (if tw_cancelled w then w\<lparr>tw_cancels := (tw_cancels w)(n := CancelReturned (Done ()))\<rparr>
      else w\<lparr>tw_cancelled := True, tw_closes := Suc (tw_closes w), tw_cancels := (tw_cancels w)(n := CancelSending), tw_canceller := Some n\<rparr>)"
    using assms(2) by (simp split: if_splits)
  show ?thesis
  proof (rule task_invI)
    show "wait_ok rd w' m" for m using ok(1) [of m] by (cases "tw_waits w m") (simp_all add: w' wait_ok_def)
    show "cancel_ok w' m" for m
      using ok(2) [of m] ok(2) [of n] ok(3) new
      by (cases "m = n"; cases "tw_cancelled w"; cases "tw_cancels w m") (auto simp: w' cancel_ok_def listener_ok_def)
    show "listener_ok w'" using ok(3) by (simp add: w' listener_ok_def)
  qed
qed

lemma task_inv_answer:
  assumes "task_inv rd w" and "task_step address task_id rd (ActAnswer n r) w = Some w'"
  shows "task_inv rd w'"
proof -
  from assms(1) obtain ok: "\<And>m. wait_ok rd w m" "\<And>m. cancel_ok w m" "listener_ok w" by (rule task_invE) blast
  from assms(2) have sending: "tw_cancels w n = CancelSending" by (auto split: if_splits)
  with ok(2) [of n] have canceller: "tw_canceller w = Some n" by (simp add: cancel_ok_def)
  have w': "w' = (if cancel_accepted r then stop_listening (w\<lparr>tw_cancels := (tw_cancels w)(n := CancelReturned (Done ()))\<rparr>)
      else w\<lparr>tw_cancels := (tw_cancels w)(n := CancelReturned r)\<rparr>)"
    using assms(2) by (simp split: if_splits)
  show ?thesis
  proof (rule task_invI)
    show "wait_ok rd w' m" for m using ok(1) [of m] by (cases "tw_waits w m") (simp_all add: w' wait_ok_def stop_listening_def)
    have "r \<noteq> Done ()" if "\<not> cancel_accepted r" using that by (auto simp: cancel_accepted_def)
    then show "cancel_ok w' m" for m
      using ok(2) [of m] canceller by (cases "m = n"; cases "tw_cancels w m") (auto simp: w' cancel_ok_def stop_listening_def)
    show "listener_ok w'" using ok(3) by (simp add: w' listener_ok_def stop_listening_def)
  qed
qed

lemma task_inv_notify:
  assumes "task_inv rd w" and "task_step address task_id rd (ActNotify frame) w = Some w'"
  shows "task_inv rd w'"
proof (cases "fr_live (tw_rx w)")
  case True
  from assms(1) obtain ok: "\<And>m. wait_ok rd w m" "\<And>m. cancel_ok w m" "listener_ok w" by (rule task_invE) blast
  from True assms(2) have w': "w' = push (Inr frame) (w\<lparr>tw_frames := tw_frames w @ [frame]\<rparr>)" by simp
  show ?thesis
  proof (rule task_invI)
    show "wait_ok rd w' m" for m using ok(1) [of m] True by (auto simp: w' wait_ok_def push_def split: wait_phase.splits if_splits)
    show "cancel_ok w' m" for m using ok(2) [of m] by (auto simp: w' cancel_ok_def push_def split: cancel_phase.splits)
    show "listener_ok w'" using ok(3) True by (auto simp: w' listener_ok_def push_def awaited_def)
  qed
qed (use assms in simp)

lemma task_inv_broken:
  assumes "task_inv rd w" and "task_step address task_id rd (ActBroken e) w = Some w'"
  shows "task_inv rd w'"
proof (cases "fr_live (tw_rx w)")
  case True
  from assms(1) obtain ok: "\<And>m. wait_ok rd w m" "\<And>m. cancel_ok w m" "listener_ok w" by (rule task_invE) blast
  from True assms(2) have w': "w' = stop_listening (push (Inl e) (w\<lparr>tw_error := Some e\<rparr>))" by simp
  show ?thesis
  proof (rule task_invI)
    show "wait_ok rd w' m" for m
      using ok(1) [of m] True by (auto simp: w' wait_ok_def push_def stop_listening_def split: wait_phase.splits if_splits)
    show "cancel_ok w' m" for m using ok(2) [of m] by (auto simp: w' cancel_ok_def push_def stop_listening_def split: cancel_phase.splits)
    show "listener_ok w'" using ok(3) True by (auto simp: w' listener_ok_def push_def stop_listening_def awaited_def)
  qed
qed (use assms in simp)

lemma task_inv_abandon:
  assumes "task_inv rd w" and "task_step address task_id rd (ActAbandon n) w = Some w'"
  shows "task_inv rd w'"
proof -
  from assms(1) obtain ok: "\<And>m. wait_ok rd w m" "\<And>m. cancel_ok w m" "listener_ok w" by (rule task_invE) blast
  from assms(2) have phase: "tw_waits w n = WaitReceiving" by (auto split: if_splits)
  with ok(1) [of n] have taker: "tw_taker w = Some n" by (simp add: wait_ok_def)
  from phase assms(2) have w': "w' = w\<lparr>tw_waits := (tw_waits w)(n := WaitAbandoned), tw_open := False\<rparr>" by simp
  show ?thesis
  proof (rule task_invI)
    show "wait_ok rd w' m" for m using ok(1) [of m] taker by (auto simp: w' wait_ok_def split: wait_phase.splits)
    show "cancel_ok w' m" for m using ok(2) [of m] by (auto simp: w' cancel_ok_def split: cancel_phase.splits)
    show "listener_ok w'" using ok(3) taker by (auto simp: w' listener_ok_def)
  qed
qed

lemma task_inv_drop:
  assumes "task_inv rd w" and "task_step address task_id rd ActDrop w = Some w'"
  shows "task_inv rd w'"
proof -
  from assms(1) obtain ok: "\<And>m. wait_ok rd w m" "\<And>m. cancel_ok w m" "listener_ok w" by (rule task_invE) blast
  from assms(2) have idle: "\<not> under_way w" "\<not> tw_dropped w" by (auto split: if_splits)
  have w': "w' = (let v = w\<lparr>tw_dropped := True, tw_open := False\<rparr> in if tw_cancelled w then v else stop_listening v)"
    using assms(2) idle by (simp add: Let_def)
  show ?thesis
  proof (rule task_invI)
    show "wait_ok rd w' m" for m
      using ok(1) [of m] idle by (cases "tw_waits w m") (auto simp: w' wait_ok_def stop_listening_def under_way_def Let_def)
    show "cancel_ok w' m" for m using ok(2) [of m] by (auto simp: w' cancel_ok_def stop_listening_def Let_def split: cancel_phase.splits)
    show "listener_ok w'" using ok(3) by (auto simp: w' listener_ok_def stop_listening_def Let_def)
  qed
qed

lemma task_inv_reachable: "task_reachable address task_id rd frames w \<Longrightarrow> task_inv rd w"
proof (induction rule: task_reachable.induct)
  case started
  show ?case by (rule task_inv_started)
next
  case (stepped w a w')
  then show ?case
    by (cases a) (auto simp del: task_step.simps intro: task_inv_wait task_inv_receive task_inv_cancel task_inv_answer
        task_inv_notify task_inv_broken task_inv_abandon task_inv_drop)
qed

section \<open>Executing a task\<close>

lemma sized_compute_execute:
  assumes "announced wa sa"
  shows "sized (compute_execute_write wa (map uid_string us) flags t name arg) (compute_execute_size sa (map uid_string us) name arg)"
proof -
  have "length (uids_bytes us) = 4 + length us * 16" using length_uids_bytes [of us] by (simp add: node_ids_size_def)
  moreover have "sized (case arg of Some a \<Rightarrow> wa a | None \<Rightarrow> wr write_null) (case arg of Some a \<Rightarrow> sa a | None \<Rightarrow> sret 1)"
    using sized_announced [OF assms] by (auto intro!: sized_wr simp: write_null_def split: option.split)
  ultimately show ?thesis
    unfolding compute_execute_write_def compute_execute_size_def node_ids_write_uids
    by (auto intro!: sized_intros)
qed

definition execute_payload :: "uid list \<Rightarrow> compute \<Rightarrow> rstring \<Rightarrow> bytes \<Rightarrow> bytes" where
  "execute_payload us self name arg_bytes = uids_bytes us @ write_u8 (cp_flags self) @ write_i64 (cp_timeout_ms self) @
    write_string_type_code name @ arg_bytes"

lemma run_compute_execute:
  assumes "announced wa sa" and "run (case arg of Some a \<Rightarrow> wa a | None \<Rightarrow> wr write_null) = Inr bs"
  shows "run (compute_execute_write wa (map uid_string us) (cp_flags self) (cp_timeout_ms self) name arg) = Inr (execute_payload us self name bs)"
proof -
  have "steady (case arg of Some a \<Rightarrow> wa a | None \<Rightarrow> wr write_null)"
    using announced.write_steady [OF assms(1)] by (auto intro: steady_intros split: option.split)
  then show ?thesis
    using assms(2) by (simp add: compute_execute_write_def node_ids_write_uids run_wthen steady_intros execute_payload_def)
qed

lemma chans_of_more: "cluster_session.more s' = cluster_session.more s \<Longrightarrow> cs_chans s' = cs_chans s"
  for s s' :: "'z compute_session_scheme"
  by (cases s; cases s') simp

definition early_frames :: "i64 \<Rightarrow> notifications \<Rightarrow> response_frame list" where
  "early_frames task_id n = (case n_pending n (task_key task_id) of Some fs \<Rightarrow> fs | None \<Rightarrow> [])"

lemma listen_result:
  assumes "cs_chans s address = Some n"
  shows "\<exists>n'. listen address task_id s =
      (Done \<lparr>ct_address = address, ct_task_id = task_id,
        ct_receiver = Some \<lparr>fr_queue = map Inr (early_frames task_id n), fr_live = True\<rparr>, ct_cancelled = False\<rparr>,
       s\<lparr>cs_chans := (cs_chans s)(address \<mapsto> n')\<rparr>) \<and>
    n_listeners n' (task_key task_id) = Some (True, early_frames task_id n) \<and> n_pending n' (task_key task_id) = None"
proof -
  let ?n = "register_notification_listener (task_key task_id) n"
  have "n_listeners ?n (task_key task_id) = Some (True, early_frames task_id n)" "n_pending ?n (task_key task_id) = None"
    by (simp_all add: early_frames_def register_notification_listener_def register_insert_def register_flush_def listener_send_def
        split: option.split)
  with assms show ?thesis by (intro exI [of _ ?n]) (simp add: listen_def Let_def queued_def)
qed

lemma execute_chosen:
  assumes "topology_server net reg version_of ids_at info" and "known_topology ids_at info s" and "cp_cluster_group self \<noteq> []"
    and "chosen = apply_selectors veq nanos (map info (filter (\<lambda>i. held s i \<or> i \<in> set (ids_at (version_of (calls s @ [ids_call s]))))
      (ids_at (version_of (calls s))))) (cp_cluster_group self)"
    and "\<And>log corr payload. net log (request_call OpComputeTaskExecute corr payload route_default) = Inr (Success, write_i64 task_id, 0, address)"
    and "announced wa sa" and "run (case arg of Some a \<Rightarrow> wa a | None \<Rightarrow> wr write_null) = Inr bs" and "cs_chans s address = Some n"
    and "chosen \<noteq> []"
  obtains us corr s1 s2 n2 where "map info us = chosen" and "calls s1 \<noteq> []" and "length (calls s1) \<le> length (calls s) + 3"
    and "last (calls s1) = request_call OpComputeTaskExecute corr (execute_payload us self name bs) route_default"
    and "execute_async net True True reg veq nanos self wa sa name arg s =
        (Done \<lparr>ct_address = address, ct_task_id = task_id,
          ct_receiver = Some \<lparr>fr_queue = map Inr (early_frames task_id n), fr_live = True\<rparr>, ct_cancelled = False\<rparr>, s1)"
    and "compute_execute net True True reg veq nanos self wa sa rd name arg s =
        (case early_frames task_id n of [] \<Rightarrow> Waits | frame # _ \<Rightarrow> Ready (frame_result rd frame), s2)"
    and "calls s2 = calls s1" and "cs_chans s2 address = Some n2" and "n_pending n2 (task_key task_id) = None"
    and "n_listeners n2 (task_key task_id) = (if early_frames task_id n = [] then Some (True, []) else None)"
    and "\<exists>ext. calls s1 = calls s @ ext" and "length (calls s) < length (calls s1)"
proof -
  from chosen_ids [OF assms(1-4)] obtain us s0 where us: "map info us = chosen"
    and ids: "group_node_ids net True reg veq nanos (cp_cluster_group self) s = (Done (map uid_string us), s0)"
    and s0: "length (calls s0) \<le> length (calls s) + 2" "cs_chans s0 = cs_chans s" "\<exists>ext. calls s0 = calls s @ ext"
    using chans_of_more by blast
  have "us \<noteq> []" using us assms(9) by auto
  let ?call = "request_call OpComputeTaskExecute (next_correlation_id s0) (execute_payload us self name bs) route_default"
  let ?s1 = "s0\<lparr>next_correlation_id := next_correlation_id s0 + 1, calls := calls s0 @ [?call]\<rparr>"
  have "send_and_read_with_meta net read_i64 OpComputeTaskExecute
      (compute_execute_write wa (map uid_string us) (cp_flags self) (cp_timeout_ms self) name arg)
      (compute_execute_size sa (map uid_string us) name arg) route_default s0 = (Done (task_id, address), ?s1)"
    using send_and_read_meta_result [where net = net and s = s0 and rd = read_i64 and op = OpComputeTaskExecute and route = route_default,
        OF sized_compute_execute [OF assms(6)] run_compute_execute [OF assms(6,7)] _ i64_back]
      assms(5) [of "calls s0" "next_correlation_id s0" "execute_payload us self name bs"]
    by (simp add: request_call_def)
  moreover have "cs_chans ?s1 address = Some n" using s0(2) assms(8) by simp
  from listen_result [OF this, of task_id] obtain n' where n': "listen address task_id ?s1 =
      (Done \<lparr>ct_address = address, ct_task_id = task_id,
        ct_receiver = Some \<lparr>fr_queue = map Inr (early_frames task_id n), fr_live = True\<rparr>, ct_cancelled = False\<rparr>,
       ?s1\<lparr>cs_chans := (cs_chans ?s1)(address \<mapsto> n')\<rparr>)"
    "n_listeners n' (task_key task_id) = Some (True, early_frames task_id n)" "n_pending n' (task_key task_id) = None" by blast
  ultimately have exec: "execute_async net True True reg veq nanos self wa sa name arg s =
      (Done \<lparr>ct_address = address, ct_task_id = task_id,
        ct_receiver = Some \<lparr>fr_queue = map Inr (early_frames task_id n), fr_live = True\<rparr>, ct_cancelled = False\<rparr>,
       ?s1\<lparr>cs_chans := (cs_chans ?s1)(address \<mapsto> n')\<rparr>)"
    using ids \<open>us \<noteq> []\<close> by (simp add: execute_async_def abind_def)
  let ?s2 = "?s1\<lparr>cs_chans := (cs_chans ?s1)(address \<mapsto> n')\<rparr>"
  obtain s3 n3 where s3: "compute_execute net True True reg veq nanos self wa sa rd name arg s =
      (case early_frames task_id n of [] \<Rightarrow> Waits | frame # _ \<Rightarrow> Ready (frame_result rd frame), s3)"
    "calls s3 = calls ?s2" "cs_chans s3 address = Some n3" "n_pending n3 (task_key task_id) = None"
    "n_listeners n3 (task_key task_id) = (if early_frames task_id n = [] then Some (True, []) else None)"
    using n'(2,3)
    by (cases "early_frames task_id n") (simp_all add: compute_execute_def exec task_wait_def wait_take_def frame_recv_def received_def
        drop_task_def unlisten_def remove_notification_listener_def)
  have "calls ?s2 \<noteq> []" "length (calls ?s2) \<le> length (calls s) + 3" "last (calls ?s2) = ?call" "\<exists>ext. calls ?s2 = calls s @ ext"
      "length (calls s) < length (calls ?s2)" using s0(1,3) by auto
  from that [OF us this(1-3) exec s3 this(4,5)] show thesis .
qed

section \<open>Properties\<close>

text \<open>C23: Executing a task. The task is sent to the nodes that the selectors of the group leave of the topology, in one request
  behind those of the group; an empty group is an error and nothing is sent. The listener is registered for the id of the task on
  the channel that answered, and gets the notifications that have come before; \<open>execute\<close> returns what the first notification
  says and removes the listener, or waits with the listener in place.\<close>
theorem compute_executes:
  assumes "topology_server net reg version_of ids_at info" and "known_topology ids_at info s" and "cp_cluster_group self \<noteq> []"
    and "chosen = apply_selectors veq nanos (map info (filter (\<lambda>i. held s i \<or> i \<in> set (ids_at (version_of (calls s @ [ids_call s]))))
      (ids_at (version_of (calls s))))) (cp_cluster_group self)"
    and "\<And>log corr payload. net log (request_call OpComputeTaskExecute corr payload route_default) = Inr (Success, write_i64 task_id, 0, address)"
    and "announced wa sa" and "run (case arg of Some a \<Rightarrow> wa a | None \<Rightarrow> wr write_null) = Inr bs" and "cs_chans s address = Some n"
  shows "(chosen = [] \<longrightarrow> (\<exists>s1. execute_async net True True reg veq nanos self wa sa name arg s =
      (Failed (client_error ''Cluster group is empty.''), s1) \<and> length (calls s1) \<le> length (calls s) + 2)) \<and>
    (chosen \<noteq> [] \<longrightarrow> (\<exists>us corr s1 s2 n2. map info us = chosen \<and>
      calls s1 \<noteq> [] \<and> length (calls s1) \<le> length (calls s) + 3 \<and>
      last (calls s1) = request_call OpComputeTaskExecute corr (execute_payload us self name bs) route_default \<and>
      execute_async net True True reg veq nanos self wa sa name arg s =
        (Done \<lparr>ct_address = address, ct_task_id = task_id,
          ct_receiver = Some \<lparr>fr_queue = map Inr (early_frames task_id n), fr_live = True\<rparr>, ct_cancelled = False\<rparr>, s1) \<and>
      compute_execute net True True reg veq nanos self wa sa rd name arg s =
        (case early_frames task_id n of [] \<Rightarrow> Waits | frame # _ \<Rightarrow> Ready (frame_result rd frame), s2) \<and>
      calls s2 = calls s1 \<and> cs_chans s2 address = Some n2 \<and> n_pending n2 (task_key task_id) = None \<and>
      n_listeners n2 (task_key task_id) = (if early_frames task_id n = [] then Some (True, []) else None)))"
proof (cases "chosen = []")
  case True
  from chosen_ids [OF assms(1-4)] obtain us s0 where "map info us = chosen"
    and "group_node_ids net True reg veq nanos (cp_cluster_group self) s = (Done (map uid_string us), s0)"
    and "length (calls s0) \<le> length (calls s) + 2" by blast
  with True show ?thesis by (auto simp: execute_async_def abind_def)
next
  case False
  from assms False obtain us corr s1 s2 n2 where "map info us = chosen" "calls s1 \<noteq> []" "length (calls s1) \<le> length (calls s) + 3"
    "last (calls s1) = request_call OpComputeTaskExecute corr (execute_payload us self name bs) route_default"
    "execute_async net True True reg veq nanos self wa sa name arg s =
        (Done \<lparr>ct_address = address, ct_task_id = task_id,
          ct_receiver = Some \<lparr>fr_queue = map Inr (early_frames task_id n), fr_live = True\<rparr>, ct_cancelled = False\<rparr>, s1)"
    "compute_execute net True True reg veq nanos self wa sa rd name arg s =
        (case early_frames task_id n of [] \<Rightarrow> Waits | frame # _ \<Rightarrow> Ready (frame_result rd frame), s2)"
    "calls s2 = calls s1" "cs_chans s2 address = Some n2" "n_pending n2 (task_key task_id) = None"
    "n_listeners n2 (task_key task_id) = (if early_frames task_id n = [] then Some (True, []) else None)"
    by (rule execute_chosen [where name = name and rd = rd])
  with False show ?thesis by blast
qed

definition sample_compute_net :: transport where
  "sample_compute_net log c = (if fst c = OpComputeTaskExecute then Inr (Success, write_i64 7, 0, rstr ''n'') else sample_topology_net log c)"

lemma sample_compute_topology: "topology_server sample_compute_net reg (\<lambda>_. 5) (\<lambda>_. [(0, 3), (0, 1), (0, 2)]) sample_info"
proof
  show "\<exists>addr. sample_compute_net log (request_call OpClusterGroupGetNodeIds corr (node_ids_request_write known) route_default) =
      Inr (Success, ids_reply 5 [(0, 3), (0, 1), (0, 2)] known, 0, addr)" for log corr known
    using sample_topology.ids_answered [of log corr known] by (simp add: sample_compute_net_def request_call_def)
  show "\<exists>reply addr. sample_compute_net log (request_call OpClusterGroupGetNodeInfo corr (uids_bytes ids) route_default) = Inr (Success, reply, 0, addr) \<and>
      node_info_response_read reg reply = Ok (map sample_info (filter (\<lambda>i. i \<in> set [(0, 3), (0, 1), (0, 2)]) ids)) []"
    if "length ids < 2 ^ 31" for log corr ids
    using sample_topology.info_answered [OF that, of log corr] by (simp add: sample_compute_net_def request_call_def)
qed (simp_all add: sample_topology.named)

definition sample_finished_frame :: response_frame where
  "sample_finished_frame = \<lparr>correlation_id = 7, frame_flag = Success, frame_body = write_type TcInt write_i32 42, payload_offset = 0, frame_topology_version = None\<rparr>"

theorem compute_executes_witness:
  "\<exists>s2. compute_execute sample_compute_net True True Map.empty (\<lambda>_ _. False) 0 (compute_new None)
      (\<lambda>v. wr (write_type TcInt write_i32 v)) (\<lambda>v. sret (size_type 4 v)) (readable_read (read_type read_i32)) (rstr ''task'') (Some 1)
      \<lparr>calls = [], next_correlation_id = 1, cl_cache = cluster_cache_default,
       cs_chans = [rstr ''n'' \<mapsto> notifications_new\<lparr>n_pending := [task_key 7 \<mapsto> [sample_finished_frame]]\<rparr>]\<rparr> = (Ready (Done (Some 42)), s2)"
proof -
  let ?s = "\<lparr>calls = [], next_correlation_id = 1, cl_cache = cluster_cache_default,
    cs_chans = [rstr ''n'' \<mapsto> notifications_new\<lparr>n_pending := [task_key 7 \<mapsto> [sample_finished_frame]]\<rparr>]\<rparr>"
  let ?n = "notifications_new\<lparr>n_pending := [task_key 7 \<mapsto> [sample_finished_frame]]\<rparr>"
  let ?chosen = "[sample_info (0, 3), sample_info (0, 1)]"
  have known: "known_topology (\<lambda>_. [(0, 3), (0, 1), (0, 2)]) sample_info ?s" by (simp add: known_topology_def cluster_cache_default_def)
  have group: "cp_cluster_group (compute_new None) = [SelServers]"
    by (simp add: compute_new_def default_servers_def for_servers_def with_selector_def cluster_group_def)
  have chosen: "?chosen = apply_selectors (\<lambda>_ _. False) 0 (map sample_info (filter (\<lambda>i. held ?s i \<or> i \<in> set [(0, 3), (0, 1), (0, 2)])
      [(0, 3), (0, 1), (0, 2)])) (cp_cluster_group (compute_new None))"
    by (simp add: group apply_selectors_def sample_info_def)
  have answer: "sample_compute_net log (request_call OpComputeTaskExecute corr payload route_default) = Inr (Success, write_i64 7, 0, rstr ''n'')"
    for log corr payload by (simp add: sample_compute_net_def request_call_def)
  have ann: "announced (\<lambda>v :: i32. wr (write_type TcInt write_i32 v)) (\<lambda>v. sret (size_type 4 v))"
    by (simp add: announced_sized sized_wr w_i32.size_write)
  have early: "early_frames 7 ?n = [sample_finished_frame]" by (simp add: early_frames_def)
  have result: "frame_result (readable_read (read_type read_i32)) sample_finished_frame = Done (Some 42)"
    using w_i32.read_write [of 42 "[]"] by (simp add: frame_result_def sample_finished_frame_def decoded_def write_type_def)
  have nonempty: "cp_cluster_group (compute_new None) \<noteq> []" by (simp add: group)
  have runs: "run (case Some (1 :: i32) of Some a \<Rightarrow> wr (write_type TcInt write_i32 a) | None \<Rightarrow> wr write_null) = Inr (write_type TcInt write_i32 1)"
    by simp
  have chan: "cs_chans ?s (rstr ''n'') = Some ?n" by simp
  from compute_executes [where reg = Map.empty and rd = "readable_read (read_type read_i32)" and name = "rstr ''task''",
      OF sample_compute_topology known nonempty chosen answer ann runs chan] result
  show ?thesis unfolding early by auto
qed

text \<open>C22: Calls on a compute task. Whatever the order of the calls of \<open>wait\<close> and \<open>cancel\<close>, of notifications, failures of
  the channel and the drop: at most one close request is sent; one call of \<open>wait\<close> at most takes the receiver, and when it
  returns, it returns what the first notification says, else the error of the channel, else that the channel of
  notifications is closed; every other call that returns is turned away. The call that has taken the receiver can go on as
  soon as a notification has come, the channel has failed or the listener is gone. Once a cancel has succeeded or the task
  has been dropped, the listener is gone, unless the close request of the one cancel that sends it is under way or has
  failed.\<close>
theorem compute_task_calls:
  assumes "task_reachable address task_id rd frames w"
  shows "tw_closes w \<le> 1 \<and>
    (\<forall>n r. tw_waits w n = WaitReturned r \<longrightarrow> turned_away r \<or> tw_taker w = Some n \<and> r = task_outcome rd w) \<and>
    (\<forall>n. tw_waits w n = WaitReceiving \<longrightarrow> tw_taker w = Some n \<and>
      (task_step address task_id rd (ActReceive n) w \<noteq> None \<longleftrightarrow> tw_frames w \<noteq> [] \<or> tw_error w \<noteq> None \<or> \<not> fr_live (tw_rx w))) \<and>
    (fr_live (tw_rx w) \<and> (tw_cancelled w \<or> tw_dropped w) \<longrightarrow>
      (\<exists>n. tw_canceller w = Some n \<and> (tw_cancels w n = CancelSending \<or> (\<exists>r. tw_cancels w n = CancelReturned r \<and> r \<noteq> Done ()))))"
proof -
  from task_inv_reachable [OF assms] obtain ok: "\<And>m. wait_ok rd w m" "\<And>m. cancel_ok w m" "listener_ok w" by (rule task_invE) blast
  have "turned_away r \<or> tw_taker w = Some n \<and> r = task_outcome rd w" if "tw_waits w n = WaitReturned r" for n r
    using ok(1) [of n] that by (auto simp: wait_ok_def split: if_splits)
  moreover have "tw_taker w = Some n \<and>
      (task_step address task_id rd (ActReceive n) w \<noteq> None \<longleftrightarrow> tw_frames w \<noteq> [] \<or> tw_error w \<noteq> None \<or> \<not> fr_live (tw_rx w))"
    if "tw_waits w n = WaitReceiving" for n
    using ok(1) [of n] ok(3) that
    by (auto simp: wait_ok_def listener_ok_def frame_recv_def awaited_def Let_def split: list.splits option.splits)
  moreover have "\<exists>n. tw_canceller w = Some n \<and> (tw_cancels w n = CancelSending \<or> (\<exists>r. tw_cancels w n = CancelReturned r \<and> r \<noteq> Done ()))"
    if live: "fr_live (tw_rx w)" and "tw_cancelled w \<or> tw_dropped w"
  proof -
    from that ok(3) obtain n where "tw_canceller w = Some n" by (auto simp: listener_ok_def)
    with ok(2) [of n] live show ?thesis by (cases "tw_cancels w n") (auto simp: cancel_ok_def)
  qed
  ultimately show ?thesis using ok(3) by (simp add: listener_ok_def)
qed

text \<open>A cancel that fails leaves the listener of the task registered for ever: the flag is set before the request, so
  that a second cancel reports success without doing anything and the drop removes nothing. A wait that is abandoned
  takes the result with it.\<close>
theorem failed_cancel_leaks:
  fixes rd :: "'r option reader"
  assumes "\<not> cancel_accepted r"
  shows "(\<exists>w. task_run address task_id rd [ActCancel 0, ActAnswer 0 r, ActCancel 1, ActDrop, ActNotify frame] (task_started []) = Some w \<and>
      tw_cancels w 0 = CancelReturned r \<and> tw_cancels w 1 = CancelReturned (Done ()) \<and> tw_dropped w \<and> fr_live (tw_rx w)) \<and>
    (\<exists>w. task_run address task_id rd [ActWait 0, ActAbandon 0, ActNotify frame, ActWait 1] (task_started []) = Some w \<and>
      tw_frames w = [frame] \<and> tw_waits w 1 = WaitReturned (Failed (client_error ''Compute task result was already consumed'')))"
  using assms by (simp add: task_started_def under_way_def Let_def push_def wait_take_of)

theorem failed_cancel_leaks_witness:
  "\<exists>w. task_run [] 7 (rmap Some read_i32) [ActCancel 0, ActAnswer 0 Panicked, ActCancel 1, ActDrop,
      ActNotify \<lparr>correlation_id = 7, frame_flag = Success, frame_body = [], payload_offset = 0, frame_topology_version = None\<rparr>]
      (task_started []) = Some w \<and>
    tw_cancels w 1 = CancelReturned (Done ()) \<and> fr_live (tw_rx w)"
proof -
  have "\<not> cancel_accepted Panicked" by (simp add: cancel_accepted_def)
  from failed_cancel_leaks [OF this, of "[]" 7 "rmap Some read_i32"
      "\<lparr>correlation_id = 7, frame_flag = Success, frame_body = [], payload_offset = 0, frame_topology_version = None\<rparr>"]
  show ?thesis by blast
qed

theorem compute_task_calls_witness:
  "\<exists>w. task_run [] 7 (rmap Some read_i32) [ActWait 0, ActCancel 0, ActWait 1, ActAnswer 0 (Done ()), ActReceive 0] (task_started []) = Some w \<and>
    tw_waits w 0 = WaitReturned (Failed (client_error ''Compute task notification channel closed'')) \<and>
    tw_waits w 1 = WaitReturned (Failed (client_error ''Task was cancelled'')) \<and> tw_closes w \<le> 1"
proof -
  let ?as = "[ActWait 0, ActCancel 0, ActWait 1, ActAnswer 0 (Done ()), ActReceive 0]"
  have "\<exists>w. task_run [] 7 (rmap Some read_i32) ?as (task_started []) = Some w \<and>
      tw_waits w 0 = WaitReturned (Failed (client_error ''Compute task notification channel closed'')) \<and>
      tw_waits w 1 = WaitReturned (Failed (client_error ''Task was cancelled''))"
    by (simp add: task_started_def wait_take_of cancel_accepted_def stop_listening_def frame_recv_def received_def Let_def)
  then obtain w where w: "task_run [] 7 (rmap Some read_i32) ?as (task_started []) = Some w"
      "tw_waits w 0 = WaitReturned (Failed (client_error ''Compute task notification channel closed''))"
      "tw_waits w 1 = WaitReturned (Failed (client_error ''Task was cancelled''))"
    by blast
  from compute_task_calls [OF task_run_reachable [OF task_reachable.started w(1)]] w show ?thesis by blast
qed

end
