(* ===== verification/Services.thy ===== *)
theory Services
  imports Cluster CacheQueries
begin

text \<open>
  Services, \<open>ignite-rs/src/services.rs\<close>: descriptors, the cached topology of a service, and the invocation of a method on a
  node of a group that runs the service. The topology version that the client knows after a log of calls is an
  argument (\<open>known_major\<close>), as are the capabilities of the server; \<open>lc\<close> is \<open>str::to_lowercase\<close>.
\<close>

section \<open>Data\<close>

definition FLAG_PARAMETER_TYPES_MASK :: u8 where "FLAG_PARAMETER_TYPES_MASK = 0x02"

datatype service_platform = PlatformJava | PlatformDotNet | PlatformUnknown u8

record service_descriptor =
  sd_name :: rstring
  sd_class_name :: rstring
  sd_total_count :: i32
  sd_max_per_node_count :: i32
  sd_cache_name :: rstring
  sd_origin_node_id :: rstring
  sd_platform :: service_platform

text \<open>The attributes of a call are a hash map; the list has them in the order in which the map is iterated.\<close>

type_synonym service_call_context = "(rstring \<times> ignite_value) list"

definition with_attribute :: "service_call_context \<Rightarrow> rstring \<Rightarrow> rstring \<Rightarrow> service_call_context" where
  "with_attribute ctx name v = AList.update name (IvString v) ctx"

definition with_binary_attribute :: "service_call_context \<Rightarrow> rstring \<Rightarrow> bytes \<Rightarrow> service_call_context" where
  "with_binary_attribute ctx name v = AList.update name (IvBinary v) ctx"

record cached_service_topology =
  st_topology_version :: "i64 option"
  st_node_ids :: "rstring list"

record services_session = cluster_session +
  sv_topology_cache :: "rstring \<rightharpoonup> cached_service_topology"

record service_proxy =
  sp_cluster_group :: "selector list"
  sp_name :: rstring
  sp_timeout_ms :: i64
  sp_call_context :: "service_call_context option"

definition services_group :: "selector list option \<Rightarrow> selector list" where
  "services_group g = (case g of Some selectors \<Rightarrow> selectors | None \<Rightarrow> default_servers)"

definition service :: "selector list \<Rightarrow> rstring \<Rightarrow> service_proxy" where
  "service g name = \<lparr>sp_cluster_group = g, sp_name = name, sp_timeout_ms = 0, sp_call_context = None\<rparr>"

definition proxy_with_timeout_ms :: "service_proxy \<Rightarrow> i64 \<Rightarrow> service_proxy" where
  "proxy_with_timeout_ms self t = self\<lparr>sp_timeout_ms := t\<rparr>"

definition with_call_context :: "service_proxy \<Rightarrow> service_call_context \<Rightarrow> service_proxy" where
  "with_call_context self ctx = self\<lparr>sp_call_context := Some ctx\<rparr>"

section \<open>Types of parameters\<close>

definition array_class :: "rstring \<Rightarrow> rstring" where
  "array_class name =
    (if name = rstr ''[B'' then rstr ''byte[]'' else if name = rstr ''[S'' then rstr ''short[]''
     else if name = rstr ''[I'' then rstr ''int[]'' else if name = rstr ''[J'' then rstr ''long[]''
     else if name = rstr ''[F'' then rstr ''float[]'' else if name = rstr ''[D'' then rstr ''double[]''
     else if name = rstr ''[C'' then rstr ''char[]'' else if name = rstr ''[Z'' then rstr ''boolean[]''
     else name)"

text \<open>What stands behind the last dot or dollar sign.\<close>

definition simple_name :: "rstring \<Rightarrow> rstring" where
  "simple_name name = rev (takeWhile (\<lambda>c. c \<noteq> 46 \<and> c \<noteq> 36) (rev name))"

definition simple_name_lowercase :: "lowercase \<Rightarrow> rstring \<Rightarrow> rstring" where
  "simple_name_lowercase lc class_name = lc (simple_name (array_class class_name))"

text \<open>The arms of the match, in order: a lower-case simple name, the full name that its guard asks for, and the id.\<close>

definition predefined_types :: "(rstring \<times> rstring option \<times> i32) list" where
  "predefined_types = map (\<lambda>(simple, full, i). (rstr simple, map_option rstr full, i))
    [(''object'', None, -1), (''byte'', Some ''java.lang.Byte'', 1), (''short'', Some ''java.lang.Short'', 2), (''integer'', None, 3),
     (''long'', Some ''java.lang.Long'', 4), (''float'', Some ''java.lang.Float'', 5), (''double'', Some ''java.lang.Double'', 6),
     (''character'', None, 7), (''boolean'', Some ''java.lang.Boolean'', 8), (''string'', Some ''java.lang.String'', 9),
     (''uuid'', Some ''java.util.UUID'', 10), (''date'', Some ''java.util.Date'', 11), (''timestamp'', Some ''java.sql.Timestamp'', 33),
     (''time'', Some ''java.sql.Time'', 36), (''bigdecimal'', Some ''java.math.BigDecimal'', 30), (''byte[]'', None, 12),
     (''short[]'', None, 13), (''int[]'', None, 14), (''long[]'', None, 15), (''float[]'', None, 16), (''double[]'', None, 17),
     (''char[]'', None, 18), (''boolean[]'', None, 19)]"

definition param_type_id :: "lowercase \<Rightarrow> rstring \<Rightarrow> i32" where
  "param_type_id lc java_class_name =
    (let simple_lower = simple_name_lowercase lc java_class_name
     in case find (\<lambda>(simple, full, _). simple = simple_lower \<and> (full = None \<or> full = Some java_class_name)) predefined_types of
          Some (_, _, i) \<Rightarrow> i
        | None \<Rightarrow> string_to_java_hashcode simple_lower)"

fun default_param_type_id :: "lowercase \<Rightarrow> ignite_value \<Rightarrow> i32" where
  "default_param_type_id lc (IvByte _) = 1"
| "default_param_type_id lc (IvShort _) = 2"
| "default_param_type_id lc (IvInt _) = 3"
| "default_param_type_id lc (IvLong _) = 4"
| "default_param_type_id lc (IvFloat _) = 5"
| "default_param_type_id lc (IvDouble _) = 6"
| "default_param_type_id lc (IvChar _) = 7"
| "default_param_type_id lc (IvBool _) = 8"
| "default_param_type_id lc (IvString _) = 9"
| "default_param_type_id lc (IvUuid _ _) = 10"
| "default_param_type_id lc (IvDate _) = 11"
| "default_param_type_id lc (IvBinary _) = 12"
| "default_param_type_id lc (IvArray _) = 23"
| "default_param_type_id lc (IvEnum _) = 28"
| "default_param_type_id lc (IvTimestamp _ _) = 33"
| "default_param_type_id lc (IvTime _) = 36"
| "default_param_type_id lc (IvDecimal _ _) = 30"
| "default_param_type_id lc (IvObject obj) = param_type_id lc (schema_type_name (co_schema obj))"
| "default_param_type_id lc _ = -1"

section \<open>Requests and responses\<close>

definition name_request_write :: "rstring \<Rightarrow> bytes" where
  "name_request_write name = write_string name"

definition name_request_size :: "rstring \<Rightarrow> nat" where
  "name_request_size name = 4 + str_len name"

definition write_attribute :: "lowercase \<Rightarrow> rstring \<times> ignite_value \<Rightarrow> writer" where
  "write_attribute lc = (\<lambda>(key, v). wthen (wr (string_write key)) (write_value lc v))"

definition size_attribute :: "lowercase \<Rightarrow> rstring \<times> ignite_value \<Rightarrow> sizer" where
  "size_attribute lc = (\<lambda>(key, v). sadd (sret (str_len key + 1 + 4)) (value_size lc v))"

definition write_nullable_map :: "lowercase \<Rightarrow> service_call_context option \<Rightarrow> writer" where
  "write_nullable_map lc ctx = (case ctx of
      Some vs \<Rightarrow> wthen (wr (write_i32 (i32_of_usize (length vs)))) (wseq (map (write_attribute lc) vs))
    | None \<Rightarrow> wr (write_i32 (-1)))"

definition nullable_map_size :: "lowercase \<Rightarrow> service_call_context option \<Rightarrow> sizer" where
  "nullable_map_size lc ctx = (case ctx of
      Some vs \<Rightarrow> sadd (sret 4) (sseq (map (size_attribute lc) vs))
    | None \<Rightarrow> sret 4)"

definition write_argument :: "lowercase \<Rightarrow> i32 \<times> ignite_value \<Rightarrow> writer" where
  "write_argument lc = (\<lambda>(type_id, arg). wthen (wr (write_i32 type_id)) (write_value lc arg))"

definition size_argument :: "lowercase \<Rightarrow> i32 \<times> ignite_value \<Rightarrow> sizer" where
  "size_argument lc = (\<lambda>(_, arg). sadd (sret 4) (value_size lc arg))"

definition service_invoke_write ::
    "lowercase \<Rightarrow> service_proxy \<Rightarrow> rstring list \<Rightarrow> rstring \<Rightarrow> (i32 \<times> ignite_value) list \<Rightarrow> bool \<Rightarrow> writer" where
  "service_invoke_write lc self ids method_name args callctx_supported =
    wthen (wr (write_string_type_code (sp_name self) @ write_u8 FLAG_PARAMETER_TYPES_MASK @ write_i64 (sp_timeout_ms self)))
    (wthen (node_ids_write ids)
    (wthen (wr (write_string_type_code method_name @ write_i32 (i32_of_usize (length args))))
    (wthen (wseq (map (write_argument lc) args))
      (if sp_call_context self \<noteq> None \<or> callctx_supported then write_nullable_map lc (sp_call_context self) else wr []))))"

definition service_invoke_size ::
    "lowercase \<Rightarrow> service_proxy \<Rightarrow> rstring list \<Rightarrow> rstring \<Rightarrow> (i32 \<times> ignite_value) list \<Rightarrow> bool \<Rightarrow> sizer" where
  "service_invoke_size lc self ids method_name args callctx_supported =
    sadd (sret (1 + 4 + str_len (sp_name self) + 1 + 8)) (sadd (sret (4 + length ids * 16))
    (sadd (sret (1 + 4 + str_len method_name + 4)) (sadd (sseq (map (size_argument lc) args))
      (if sp_call_context self \<noteq> None \<or> callctx_supported then nullable_map_size lc (sp_call_context self) else sret 0))))"

definition service_platform_of :: "u8 \<Rightarrow> service_platform" where
  "service_platform_of b = (if b = 0 then PlatformJava else if b = 1 then PlatformDotNet else PlatformUnknown b)"

definition service_descriptor_read :: "service_descriptor reader" where
  "service_descriptor_read = rbind read_string (\<lambda>name. rbind read_string (\<lambda>class_name. rbind read_i32 (\<lambda>total_count.
     rbind read_i32 (\<lambda>max_per_node. rbind read_string (\<lambda>cache_name. rbind read_uuid_string (\<lambda>origin. rbind read_u8 (\<lambda>b.
       ret \<lparr>sd_name = name, sd_class_name = class_name, sd_total_count = total_count, sd_max_per_node_count = max_per_node,
            sd_cache_name = cache_name, sd_origin_node_id = origin, sd_platform = service_platform_of b\<rparr>)))))))"

definition service_descriptors_read :: "service_descriptor list reader" where
  "service_descriptors_read = rbind read_i32 (\<lambda>count.
     if sint count < 0 then fail (Ignite ''negative service descriptor count'')
     else rbind (with_capacity count) (\<lambda>_. repeat_read (i32_range count) service_descriptor_read))"

definition service_topology_read :: "rstring list reader" where
  "service_topology_read = read_uuids ''negative service topology count''"

section \<open>Operations\<close>

definition service_descriptors :: "transport \<Rightarrow> bool \<Rightarrow> ('z session_scheme, service_descriptor list) act" where
  "service_descriptors net supported =
    (if \<not> supported then afail (client_error ''GET_SERVICE_DESCRIPTORS is not supported by the server'')
     else send_and_read net service_descriptors_read OpServiceGetDescriptors (wr []) (sret 0))"

definition get_service_descriptor :: "transport \<Rightarrow> bool \<Rightarrow> rstring \<Rightarrow> ('z session_scheme, service_descriptor) act" where
  "get_service_descriptor net supported name =
    (if \<not> supported then afail (client_error ''GET_SERVICE_DESCRIPTORS is not supported by the server'')
     else send_and_read net service_descriptor_read OpServiceGetDescriptor (wr (name_request_write name)) (sret (name_request_size name)))"

definition service_topology :: "transport \<Rightarrow> (call list \<Rightarrow> i64 option) \<Rightarrow> rstring \<Rightarrow> ('z services_session_scheme, rstring list) act" where
  "service_topology net known_major name s =
    (let current = known_major (calls s);
         ask = abind (send_and_read net service_topology_read OpServiceGetTopology (wr (name_request_write name)) (sret (name_request_size name)))
           (\<lambda>ids s'. (Done ids, s'\<lparr>sv_topology_cache := (sv_topology_cache s')(name \<mapsto> \<lparr>st_topology_version = current, st_node_ids = ids\<rparr>)\<rparr>))
     in case sv_topology_cache s name of
          Some cached \<Rightarrow> (if st_topology_version cached = current \<and> st_node_ids cached \<noteq> [] then (Done (st_node_ids cached), s) else ask s)
        | None \<Rightarrow> ask s)"

definition service_route :: "rstring list \<Rightarrow> rstring list \<Rightarrow> request_route" where
  "service_route ids topology = (case find (\<lambda>n. n \<in> set ids) topology of Some n \<Rightarrow> route_preferred_node n | None \<Rightarrow> route_default)"

record service_caps =
  sc_service_invoke :: bool
  sc_service_invoke_callctx :: bool

definition invoke_typed ::
    "transport \<Rightarrow> bool \<Rightarrow> registry \<Rightarrow> (sql_value \<Rightarrow> sql_value \<Rightarrow> bool) \<Rightarrow> nat \<Rightarrow> (call list \<Rightarrow> i64 option) \<Rightarrow> service_caps \<Rightarrow> lowercase \<Rightarrow>
     'r option reader \<Rightarrow> service_proxy \<Rightarrow> rstring \<Rightarrow> (i32 \<times> ignite_value) list \<Rightarrow> ('z services_session_scheme, 'r option) act" where
  "invoke_typed net groups reg veq nanos known_major caps lc rd self method_name args =
    abind (group_node_ids net groups reg veq nanos (sp_cluster_group self)) (\<lambda>ids.
      if ids = [] then afail (client_error ''Cluster group is empty.'')
      else abind (service_topology net known_major (sp_name self)) (\<lambda>topology_nodes.
        if sp_call_context self \<noteq> None \<and> \<not> sc_service_invoke_callctx caps
        then afail (client_error ''SERVICE_INVOKE_CALLCTX is not supported by the server'')
        else if sp_call_context self = None \<and> \<not> sc_service_invoke caps
        then afail (client_error ''SERVICE_INVOKE is not supported by the server'')
        else send_and_read_with_route net rd OpServiceInvoke
          (service_invoke_write lc self ids method_name args (sc_service_invoke_callctx caps))
          (service_invoke_size lc self ids method_name args (sc_service_invoke_callctx caps)) (service_route ids topology_nodes)))"

definition invoke ::
    "transport \<Rightarrow> bool \<Rightarrow> registry \<Rightarrow> (sql_value \<Rightarrow> sql_value \<Rightarrow> bool) \<Rightarrow> nat \<Rightarrow> (call list \<Rightarrow> i64 option) \<Rightarrow> service_caps \<Rightarrow> lowercase \<Rightarrow>
     'r option reader \<Rightarrow> service_proxy \<Rightarrow> rstring \<Rightarrow> ignite_value list \<Rightarrow> ('z services_session_scheme, 'r option) act" where
  "invoke net groups reg veq nanos known_major caps lc rd self method_name args =
    invoke_typed net groups reg veq nanos known_major caps lc rd self method_name (map (\<lambda>arg. (default_param_type_id lc arg, arg)) args)"

section \<open>Facts\<close>

lemma sized_attribute: "sized (write_attribute lc a) (size_attribute lc a)"
  by (cases a) (auto simp: write_attribute_def size_attribute_def w_string.size_write string_size_def intro!: sized_intros sized_announced [OF ignite_values.announced_axioms])

lemma sized_argument: "sized (write_argument lc a) (size_argument lc a)"
  by (cases a) (auto simp: write_argument_def size_argument_def intro!: sized_intros sized_announced [OF ignite_values.announced_axioms])

lemma sized_nullable_map: "sized (write_nullable_map lc ctx) (nullable_map_size lc ctx)"
  by (auto simp: write_nullable_map_def nullable_map_size_def intro!: sized_intros sized_wseq_map sized_attribute split: option.split)

lemma sized_service_invoke:
  "sized (service_invoke_write lc self (map uid_string us) name args ctx) (service_invoke_size lc self (map uid_string us) name args ctx)"
proof -
  have "length (uids_bytes us) = 4 + length us * 16" using length_uids_bytes [of us] by (simp add: node_ids_size_def)
  then show ?thesis
    unfolding service_invoke_write_def service_invoke_size_def node_ids_write_uids
    by (auto intro!: sized_intros sized_wseq_map sized_argument sized_nullable_map)
qed

section \<open>The topology of a service\<close>

text \<open>Ids that the server gave for a service while the client knew a topology version.\<close>

definition answered_at ::
    "(call list \<Rightarrow> i64 option) \<Rightarrow> (call list \<Rightarrow> rstring \<Rightarrow> uid list) \<Rightarrow> call list \<Rightarrow> rstring \<Rightarrow> i64 option \<Rightarrow> rstring list \<Rightarrow> bool" where
  "answered_at known_major deployed log name v ids \<longleftrightarrow>
    (\<exists>k \<le> length log. known_major (take k log) = v \<and> ids = map uid_string (deployed (take k log) name))"

definition fresh_cache ::
    "(call list \<Rightarrow> i64 option) \<Rightarrow> (call list \<Rightarrow> rstring \<Rightarrow> uid list) \<Rightarrow> 'z services_session_scheme \<Rightarrow> bool" where
  "fresh_cache known_major deployed s \<longleftrightarrow> (\<forall>name c. sv_topology_cache s name = Some c \<longrightarrow>
    answered_at known_major deployed (calls s) name (st_topology_version c) (st_node_ids c))"

lemma answered_later: "answered_at known_major deployed log name v ids \<Longrightarrow> answered_at known_major deployed (log @ ext) name v ids"
proof -
  assume "answered_at known_major deployed log name v ids"
  then obtain k where "k \<le> length log" "known_major (take k log) = v" "ids = map uid_string (deployed (take k log) name)"
    unfolding answered_at_def by blast
  then show ?thesis unfolding answered_at_def by (intro exI [of _ k]) simp
qed

lemma fresh_later:
  "fresh_cache known_major deployed s \<Longrightarrow> calls s' = calls s @ ext \<Longrightarrow> sv_topology_cache s' = sv_topology_cache s \<Longrightarrow>
    fresh_cache known_major deployed s'"
  by (simp add: fresh_cache_def answered_later)

locale service_server =
  fixes net :: transport and deployed :: "call list \<Rightarrow> rstring \<Rightarrow> uid list"
  assumes topology_answered: "\<exists>addr. net log (request_call OpServiceGetTopology corr (name_request_write name) route_default) =
      Inr (Success, uids_bytes (deployed log name), 0, addr)"
    and few_deployed: "length (deployed log name) < 2 ^ 31"
begin

definition topology_call :: "rstring \<Rightarrow> 'z services_session_scheme \<Rightarrow> call" where
  "topology_call name s = request_call OpServiceGetTopology (next_correlation_id s) (name_request_write name) route_default"

lemma ask_topology:
  "send_and_read net service_topology_read OpServiceGetTopology (wr (name_request_write name)) (sret (name_request_size name)) s =
    (Done (map uid_string (deployed (calls s) name)),
     s\<lparr>next_correlation_id := next_correlation_id s + 1, calls := calls s @ [topology_call name s]\<rparr>)"
proof -
  obtain addr where "net (calls s) (topology_call name s) = Inr (Success, uids_bytes (deployed (calls s) name), 0, addr)"
    unfolding topology_call_def using topology_answered by blast
  moreover have "length (name_request_write name) = name_request_size name" by (simp add: name_request_write_def name_request_size_def)
  ultimately show ?thesis
    using perform_sized [OF sized_wr run_wr, of "name_request_write name" "name_request_size name" net OpServiceGetTopology route_default s]
    by (simp add: send_and_read_def send_and_read_with_route_def abind_def [of "perform _ _ _ _ _"] Let_def request_call_def topology_call_def
        decoded_def service_topology_read_def read_uuids_back [OF few_deployed])
qed

lemma topology_of_service:
  assumes "fresh_cache known_major deployed s"
  shows "\<exists>ids s'. service_topology net known_major name s = (Done ids, s') \<and>
    answered_at known_major deployed (calls s) name (known_major (calls s)) ids \<and> fresh_cache known_major deployed s' \<and>
    cl_cache s' = cl_cache s \<and> (calls s' = calls s \<or> calls s' = calls s @ [topology_call name s]) \<and>
    sv_topology_cache s' name = Some \<lparr>st_topology_version = known_major (calls s), st_node_ids = ids\<rparr>"
proof (cases "\<exists>c. sv_topology_cache s name = Some c \<and> st_topology_version c = known_major (calls s) \<and> st_node_ids c \<noteq> []")
  case True
  then obtain c where "sv_topology_cache s name = Some c" "st_topology_version c = known_major (calls s)" "st_node_ids c \<noteq> []" by blast
  moreover from this assms have "answered_at known_major deployed (calls s) name (known_major (calls s)) (st_node_ids c)"
    by (metis fresh_cache_def)
  ultimately show ?thesis using assms by (cases c) (auto simp: service_topology_def Let_def)
next
  case False
  let ?ids = "map uid_string (deployed (calls s) name)"
  let ?s = "s\<lparr>next_correlation_id := next_correlation_id s + 1, calls := calls s @ [topology_call name s],
      sv_topology_cache := (sv_topology_cache s)(name \<mapsto> \<lparr>st_topology_version = known_major (calls s), st_node_ids = ?ids\<rparr>)\<rparr>"
  have now: "answered_at known_major deployed (calls s) name (known_major (calls s)) ?ids"
    by (auto simp: answered_at_def intro!: exI [of _ "length (calls s)"])
  have "service_topology net known_major name s = (Done ?ids, ?s)"
    using False by (auto simp: service_topology_def Let_def abind_def ask_topology split: option.split)
  moreover have "fresh_cache known_major deployed ?s"
    using assms answered_later [OF now] answered_later by (auto simp: fresh_cache_def)
  ultimately show ?thesis using now by auto
qed

end

section \<open>Properties\<close>


text \<open>A server on which the service \<open>s\<close> runs on the nodes 2 and 1, and which answers an invocation with 42.\<close>

definition sample_service_net :: transport where
  "sample_service_net log c = (case c of (op, frame, route) \<Rightarrow>
    if op = OpServiceGetTopology then Inr (Success, uids_bytes [(0, 2), (0, 1)], 0, [])
    else if op = OpServiceInvoke then Inr (Success, write_type TcInt write_i32 42, 0, [])
    else sample_topology_net log c)"

lemma sample_service_topology: "topology_server sample_service_net reg (\<lambda>_. 5) (\<lambda>_. [(0, 3), (0, 1), (0, 2)]) sample_info"
proof
  show "\<exists>addr. sample_service_net log (request_call OpClusterGroupGetNodeIds corr (node_ids_request_write known) route_default) =
      Inr (Success, ids_reply 5 [(0, 3), (0, 1), (0, 2)] known, 0, addr)" for log corr known
    using sample_topology.ids_answered [of log corr known] by (simp add: sample_service_net_def request_call_def)
  show "\<exists>reply addr. sample_service_net log (request_call OpClusterGroupGetNodeInfo corr (uids_bytes ids) route_default) = Inr (Success, reply, 0, addr) \<and>
      node_info_response_read reg reply = Ok (map sample_info (filter (\<lambda>i. i \<in> set [(0, 3), (0, 1), (0, 2)]) ids)) []"
    if "length ids < 2 ^ 31" for log corr ids
    using sample_topology.info_answered [OF that, of log corr] by (simp add: sample_service_net_def request_call_def)
qed (simp_all add: sample_topology.named)

interpretation sample_services: service_server sample_service_net "\<lambda>_ _. [(0, 2), (0, 1)]"
  by unfold_locales (simp_all add: sample_service_net_def request_call_def)

definition sample_proxy :: service_proxy where
  "sample_proxy = service (services_group None) (rstr ''s'')"


lemma wrapper_types:
  assumes "\<And>s. list_all (\<lambda>c. c < 128) s \<Longrightarrow> lc s = to_ascii_lowercase s"
  shows "default_param_type_id lc (IvByte b) = param_type_id lc (rstr ''java.lang.Byte'')"
    "default_param_type_id lc (IvShort h) = param_type_id lc (rstr ''java.lang.Short'')"
    "default_param_type_id lc (IvInt i) = param_type_id lc (rstr ''java.lang.Integer'')"
    "default_param_type_id lc (IvLong l) = param_type_id lc (rstr ''java.lang.Long'')"
    "default_param_type_id lc (IvFloat f) = param_type_id lc (rstr ''java.lang.Float'')"
    "default_param_type_id lc (IvDouble d) = param_type_id lc (rstr ''java.lang.Double'')"
    "default_param_type_id lc (IvChar c) = param_type_id lc (rstr ''java.lang.Character'')"
    "default_param_type_id lc (IvBool t) = param_type_id lc (rstr ''java.lang.Boolean'')"
    "default_param_type_id lc (IvString u) = param_type_id lc (rstr ''java.lang.String'')"
    "default_param_type_id lc (IvUuid l l') = param_type_id lc (rstr ''java.util.UUID'')"
    "default_param_type_id lc (IvDate l) = param_type_id lc (rstr ''java.util.Date'')"
    "default_param_type_id lc (IvTime l) = param_type_id lc (rstr ''java.sql.Time'')"
    "default_param_type_id lc (IvTimestamp l i) = param_type_id lc (rstr ''java.sql.Timestamp'')"
    "default_param_type_id lc (IvDecimal i bs) = param_type_id lc (rstr ''java.math.BigDecimal'')"
    "default_param_type_id lc (IvBinary bs) = param_type_id lc (rstr ''[B'')"
  by (simp_all add: param_type_id_def simple_name_lowercase_def simple_name_def array_class_def rstr_def assms predefined_types_def to_ascii_lowercase_def)

lemma any_package:
  assumes "\<And>s. list_all (\<lambda>c. c < 128) s \<Longrightarrow> lc s = to_ascii_lowercase s"
  shows "param_type_id lc (pkg @ rstr ''.Integer'') = 3" "param_type_id lc (pkg @ rstr ''.Character'') = 7" "param_type_id lc (pkg @ rstr ''.Object'') = -1"
proof -
  have "array_class (pkg @ rstr ''.Integer'') = pkg @ rstr ''.Integer''" "array_class (pkg @ rstr ''.Character'') = pkg @ rstr ''.Character''"
    "array_class (pkg @ rstr ''.Object'') = pkg @ rstr ''.Object''"
    by (auto simp: array_class_def rstr_def dest: arg_cong [where f = length])
  moreover have "simple_name (pkg @ rstr ''.Integer'') = rstr ''Integer''" "simple_name (pkg @ rstr ''.Character'') = rstr ''Character''"
    "simple_name (pkg @ rstr ''.Object'') = rstr ''Object''"
    by (simp_all add: simple_name_def rstr_def)
  ultimately show "param_type_id lc (pkg @ rstr ''.Integer'') = 3" "param_type_id lc (pkg @ rstr ''.Character'') = 7"
      "param_type_id lc (pkg @ rstr ''.Object'') = -1"
    unfolding param_type_id_def simple_name_lowercase_def Let_def
    by (simp_all add: assms rstr_def to_ascii_lowercase_def predefined_types_def)
qed

text \<open>Types of parameters. The id that an argument gets by its variant is the one of the Java class that stands for it.
  Every class with the simple name \<open>Integer\<close>, \<open>Character\<close> or \<open>Object\<close> gets the id of the predefined class, whatever its package.\<close>
theorem parameter_types:
  assumes "\<And>s. list_all (\<lambda>c. c < 128) s \<Longrightarrow> lc s = to_ascii_lowercase s"
  shows "default_param_type_id lc (IvByte b) = param_type_id lc (rstr ''java.lang.Byte'') \<and>
    default_param_type_id lc (IvShort h) = param_type_id lc (rstr ''java.lang.Short'') \<and>
    default_param_type_id lc (IvInt i) = param_type_id lc (rstr ''java.lang.Integer'') \<and>
    default_param_type_id lc (IvLong l) = param_type_id lc (rstr ''java.lang.Long'') \<and>
    default_param_type_id lc (IvFloat f) = param_type_id lc (rstr ''java.lang.Float'') \<and>
    default_param_type_id lc (IvDouble d) = param_type_id lc (rstr ''java.lang.Double'') \<and>
    default_param_type_id lc (IvChar c) = param_type_id lc (rstr ''java.lang.Character'') \<and>
    default_param_type_id lc (IvBool t) = param_type_id lc (rstr ''java.lang.Boolean'') \<and>
    default_param_type_id lc (IvString u) = param_type_id lc (rstr ''java.lang.String'') \<and>
    default_param_type_id lc (IvUuid l l') = param_type_id lc (rstr ''java.util.UUID'') \<and>
    default_param_type_id lc (IvDate l) = param_type_id lc (rstr ''java.util.Date'') \<and>
    default_param_type_id lc (IvTime l) = param_type_id lc (rstr ''java.sql.Time'') \<and>
    default_param_type_id lc (IvTimestamp l i) = param_type_id lc (rstr ''java.sql.Timestamp'') \<and>
    default_param_type_id lc (IvDecimal i bs) = param_type_id lc (rstr ''java.math.BigDecimal'') \<and>
    default_param_type_id lc (IvBinary bs) = param_type_id lc (rstr ''[B'') \<and>
    param_type_id lc (pkg @ rstr ''.Integer'') = 3 \<and> param_type_id lc (pkg @ rstr ''.Character'') = 7 \<and> param_type_id lc (pkg @ rstr ''.Object'') = -1"
  using wrapper_types [OF assms] any_package [OF assms] by simp

theorem parameter_types_witness:
  "default_param_type_id to_ascii_lowercase (IvInt 5) = param_type_id to_ascii_lowercase (rstr ''java.lang.Integer'') \<and>
   param_type_id to_ascii_lowercase (rstr ''com.acme.Integer'') = 3"
  using parameter_types [OF refl, where pkg = "rstr ''com.acme''" and i = 5] by (simp add: rstr_def)

end
