(* ===== verification/BulkPut.thy ===== *)
theory BulkPut
  imports BinaryTypes Compute
begin

text \<open>
  The objects of the bulk-put compute task, \<open>ignite-rs/src/compute/bulk_put.rs\<close>: the parameters as Java objects, the metadata of
  their types, and the decoding of the result. Hash maps are lists in the order of their iteration. A message that
  shows a value with its debug format is kept without the value.
\<close>

section \<open>Parameters\<close>

definition model_class :: "string \<Rightarrow> rstring" where
  "model_class name = rstr ''ru.sbrf.ucpcloud.ignite.server.tasks.model.'' @ rstr name"

definition BULK_PUT_PARAMS :: rstring where "BULK_PUT_PARAMS = model_class ''BulkPutParams''"
definition PUT_PARAMS :: rstring where "PUT_PARAMS = model_class ''PutParams''"
definition INDEX_CONTEXT :: rstring where "INDEX_CONTEXT = model_class ''IndexContext''"
definition SAVE_STRATEGY :: rstring where "SAVE_STRATEGY = model_class ''SaveStrategy''"
definition PUT_RESULT :: rstring where "PUT_RESULT = model_class ''PutResult''"
definition BULK_PUT_RESPONSE_PARAMS :: rstring where "BULK_PUT_RESPONSE_PARAMS = model_class ''BulkPutResponseParams''"
definition PUT_ALL_COMPUTE_TASK :: rstring where "PUT_ALL_COMPUTE_TASK = rstr ''ru.sbrf.ucpcloud.ignite.server.tasks.PutAllComputeTask''"
definition COLLECTION_SUBTYPE_ARRAYLIST :: u8 where "COLLECTION_SUBTYPE_ARRAYLIST = 1"
definition MAP_SUBTYPE_HASHMAP :: u8 where "MAP_SUBTYPE_HASHMAP = 1"

datatype save_strategy = SsTransaction | SsAtomic

fun save_strategy_ordinal :: "save_strategy \<Rightarrow> i32" where
  "save_strategy_ordinal SsTransaction = 0"
| "save_strategy_ordinal SsAtomic = 1"

definition save_strategy_type_id :: "lowercase \<Rightarrow> i32" where
  "save_strategy_type_id lc = string_to_java_hashcode (lc SAVE_STRATEGY)"

definition save_strategy_value :: "lowercase \<Rightarrow> save_strategy \<Rightarrow> ignite_value" where
  "save_strategy_value lc s = IvEnum \<lparr>enum_type_id = save_strategy_type_id lc, enum_ordinal = save_strategy_ordinal s\<rparr>"

record index_context =
  index_name_to_unique :: "(rstring \<times> bool) list"
  index_name_to_atomic :: "(rstring \<times> bool) list"
  index_name_to_cache_name :: "(rstring \<times> rstring) list"

definition index_context_empty :: index_context where
  "index_context_empty = \<lparr>index_name_to_unique = [], index_name_to_atomic = [], index_name_to_cache_name = []\<rparr>"

definition map_bool_to_ignite :: "(rstring \<times> bool) list \<Rightarrow> ignite_value" where
  "map_bool_to_ignite m = IvMap MAP_SUBTYPE_HASHMAP (map (\<lambda>(k, v). (IvString k, IvBool v)) m)"

definition map_string_to_ignite :: "(rstring \<times> rstring) list \<Rightarrow> ignite_value" where
  "map_string_to_ignite m = IvMap MAP_SUBTYPE_HASHMAP (map (\<lambda>(k, v). (IvString k, IvString v)) m)"

text \<open>The conversions build objects, and building registers the schema in the process-wide registry.\<close>

definition index_context_builder :: "index_context \<Rightarrow> binary_object_builder" where
  "index_context_builder self =
    set_field_value (set_field_value (set_field_value (builder_new INDEX_CONTEXT)
      (rstr ''indexName2UniqueFactor'') (map_bool_to_ignite (index_name_to_unique self)))
      (rstr ''indexName2AtomicFactor'') (map_bool_to_ignite (index_name_to_atomic self)))
      (rstr ''indexName2CacheName'') (map_string_to_ignite (index_name_to_cache_name self))"

definition index_context_to_binary :: "lowercase \<Rightarrow> index_context \<Rightarrow> registry \<Rightarrow> complex_object \<times> registry" where
  "index_context_to_binary lc self = build_object lc (index_context_builder self)"

definition index_context_write :: "lowercase \<Rightarrow> index_context \<Rightarrow> writer" where
  "index_context_write lc self reg = (case index_context_to_binary lc self reg of (co, reg') \<Rightarrow> write_object lc co reg')"

definition index_context_size :: "lowercase \<Rightarrow> index_context \<Rightarrow> sizer" where
  "index_context_size lc self reg = (case index_context_to_binary lc self reg of (co, reg') \<Rightarrow> object_size lc co reg')"

record put_params =
  pp_cache_name :: rstring
  pp_key :: ignite_value
  pp_object :: complex_object
  pp_force_update :: bool
  pp_index_context :: index_context
  pp_is_secondary_indexes_exists :: bool
  pp_save_strategy :: save_strategy
  pp_index :: i32

definition put_params_new :: "rstring \<Rightarrow> ignite_value \<Rightarrow> complex_object \<Rightarrow> bool \<Rightarrow> index_context \<Rightarrow> bool \<Rightarrow> save_strategy \<Rightarrow> put_params" where
  "put_params_new cache_name key object force_update ctx secondary strategy =
    \<lparr>pp_cache_name = cache_name, pp_key = key, pp_object = object, pp_force_update = force_update, pp_index_context = ctx,
     pp_is_secondary_indexes_exists = secondary, pp_save_strategy = strategy, pp_index = 0\<rparr>"

text \<open>\<open>None\<close> is a panic: of \<open>size\<close>, or of the \<open>expect\<close> on the write.\<close>

definition encode_wrapped_binary_object :: "lowercase \<Rightarrow> complex_object \<Rightarrow> registry \<Rightarrow> bytes option \<times> registry" where
  "encode_wrapped_binary_object lc object reg = (case object_size lc object reg of
      (None, reg') \<Rightarrow> (None, reg')
    | (Some _, reg') \<Rightarrow> (case write_object lc object reg' of
        (Inl e, reg'') \<Rightarrow> (None, reg'')
      | (Inr wrapped, reg'') \<Rightarrow>
          (Some (write_u8 (type_code_u8 TcWrappedData) @ write_i32 (i32_of_usize (length wrapped)) @ wrapped @ write_i32 0), reg'')))"

definition put_params_builder :: "lowercase \<Rightarrow> put_params \<Rightarrow> bytes \<Rightarrow> complex_object \<Rightarrow> binary_object_builder" where
  "put_params_builder lc self object_wrapped ctx =
    foldl (\<lambda>b (name, v). set_field_value b (rstr name) v) (builder_new PUT_PARAMS)
      [(''cacheName'', IvString (pp_cache_name self)), (''key'', pp_key self), (''object'', IvPreEncoded object_wrapped),
       (''forceUpdate'', IvBool (pp_force_update self)), (''indexContext'', IvObject ctx),
       (''isSecondaryIndexesExists'', IvBool (pp_is_secondary_indexes_exists self)),
       (''saveStrategy'', save_strategy_value lc (pp_save_strategy self)), (''index'', IvInt (pp_index self))]"

definition put_params_to_binary :: "lowercase \<Rightarrow> put_params \<Rightarrow> registry \<Rightarrow> complex_object option \<times> registry" where
  "put_params_to_binary lc self reg = (case encode_wrapped_binary_object lc (pp_object self) reg of
      (None, reg') \<Rightarrow> (None, reg')
    | (Some object_wrapped, reg') \<Rightarrow> (case index_context_to_binary lc (pp_index_context self) reg' of (ctx, reg'') \<Rightarrow>
        (case build_object lc (put_params_builder lc self object_wrapped ctx) reg'' of (co, reg''') \<Rightarrow> (Some co, reg'''))))"

fun put_params_objects :: "lowercase \<Rightarrow> put_params list \<Rightarrow> registry \<Rightarrow> complex_object list option \<times> registry" where
  "put_params_objects lc [] reg = (Some [], reg)"
| "put_params_objects lc (pp # pps) reg = (case put_params_to_binary lc pp reg of
      (None, reg') \<Rightarrow> (None, reg')
    | (Some co, reg') \<Rightarrow> (case put_params_objects lc pps reg' of (r, reg'') \<Rightarrow> (map_option (\<lambda>cos. co # cos) r, reg'')))"

definition bulk_builder :: "complex_object list \<Rightarrow> binary_object_builder" where
  "bulk_builder cos = set_field_value (builder_new BULK_PUT_PARAMS) (rstr ''putParamsList'') (IvCollection COLLECTION_SUBTYPE_ARRAYLIST (map IvObject cos))"

definition bulk_put_params_to_binary :: "lowercase \<Rightarrow> put_params list \<Rightarrow> registry \<Rightarrow> complex_object option \<times> registry" where
  "bulk_put_params_to_binary lc pps reg = (case put_params_objects lc pps reg of
      (None, reg') \<Rightarrow> (None, reg')
    | (Some cos, reg') \<Rightarrow> (case build_object lc (bulk_builder cos) reg' of (co, reg'') \<Rightarrow> (Some co, reg'')))"

text \<open>The object is built again for the size and for the bytes. A request is sized before it is written, so that a
  panic is one of the size; the writer has no panic, and fails there.\<close>

definition put_params_size :: "lowercase \<Rightarrow> put_params \<Rightarrow> sizer" where
  "put_params_size lc self reg = (case put_params_to_binary lc self reg of
      (None, reg') \<Rightarrow> (None, reg')
    | (Some co, reg') \<Rightarrow> object_size lc co reg')"

definition put_params_write :: "lowercase \<Rightarrow> put_params \<Rightarrow> writer" where
  "put_params_write lc self reg = (case put_params_to_binary lc self reg of
      (None, reg') \<Rightarrow> (Inl (IoOther ''panic''), reg')
    | (Some co, reg') \<Rightarrow> write_object lc co reg')"

definition bulk_put_size :: "lowercase \<Rightarrow> put_params list \<Rightarrow> sizer" where
  "bulk_put_size lc pps reg = (case bulk_put_params_to_binary lc pps reg of
      (None, reg') \<Rightarrow> (None, reg')
    | (Some co, reg') \<Rightarrow> object_size lc co reg')"

definition bulk_put_write :: "lowercase \<Rightarrow> put_params list \<Rightarrow> writer" where
  "bulk_put_write lc pps reg = (case bulk_put_params_to_binary lc pps reg of
      (None, reg') \<Rightarrow> (Inl (IoOther ''panic''), reg')
    | (Some co, reg') \<Rightarrow> write_object lc co reg')"

section \<open>Results\<close>

datatype put_status = PsAdded | PsRewriteSameVersion | PsRewriteNewerVersion | PsAlreadyExist | PsError

definition put_status_from_ordinal :: "i32 \<Rightarrow> put_status option" where
  "put_status_from_ordinal n = (if n = 0 then Some PsAdded else if n = 1 then Some PsRewriteSameVersion
     else if n = 2 then Some PsRewriteNewerVersion else if n = 3 then Some PsAlreadyExist else if n = 4 then Some PsError else None)"

fun is_data_in_grid_changed :: "put_status \<Rightarrow> bool" where
  "is_data_in_grid_changed PsAlreadyExist = False"
| "is_data_in_grid_changed PsError = False"
| "is_data_in_grid_changed _ = True"

record put_result =
  pr_status :: put_status
  pr_message :: "rstring option"
  pr_key :: ignite_value
  pr_index :: i32

definition put_result_from_object :: "complex_object \<Rightarrow> rerror + put_result" where
  "put_result_from_object obj = (case co_field obj (rstr ''status'') of
      Some (IvEnum e) \<Rightarrow> (case put_status_from_ordinal (enum_ordinal e) of
          None \<Rightarrow> Inl (IgniteFmt ''PutResult: unknown PutStatus ordinal {}'' [sint (enum_ordinal e)])
        | Some status \<Rightarrow>
            (let rest = (\<lambda>message. case co_field obj (rstr ''index'') of
                Some (IvInt v) \<Rightarrow> Inr \<lparr>pr_status = status, pr_message = message,
                  pr_key = (case co_field obj (rstr ''key'') of Some k \<Rightarrow> k | None \<Rightarrow> IvNull), pr_index = v\<rparr>
              | _ \<Rightarrow> Inl (Ignite ''PutResult.index: expected Int, got {:?}''))
             in case co_field obj (rstr ''message'') of
                  Some (IvString m) \<Rightarrow> rest (Some m)
                | Some IvNull \<Rightarrow> rest None
                | None \<Rightarrow> rest None
                | _ \<Rightarrow> Inl (Ignite ''PutResult.message: expected String or Null, got {:?}'')))
    | _ \<Rightarrow> Inl (Ignite ''PutResult.status: expected Enum, got {:?}''))"

fun result_entries :: "(ignite_value \<times> ignite_value) list \<Rightarrow> (i32 \<rightharpoonup> put_result) \<Rightarrow> rerror + (i32 \<rightharpoonup> put_result)" where
  "result_entries [] m = Inr m"
| "result_entries ((k, v) # es) m = (case k of
      IvInt index \<Rightarrow> (case v of
          IvObject obj \<Rightarrow> (case put_result_from_object obj of Inl e \<Rightarrow> Inl e | Inr r \<Rightarrow> result_entries es (m(index \<mapsto> r)))
        | _ \<Rightarrow> Inl (Ignite ''BulkPutResponseParams: map value must be PutResult, got {:?}''))
    | _ \<Rightarrow> Inl (Ignite ''BulkPutResponseParams: map key must be Int, got {:?}''))"

definition bulk_put_response_from_object :: "complex_object \<Rightarrow> rerror + (i32 \<rightharpoonup> put_result)" where
  "bulk_put_response_from_object obj = (case co_field obj (rstr ''putResultMap'') of
      None \<Rightarrow> Inl (Ignite ''BulkPutResponseParams: missing `putResultMap` field'')
    | Some (IvMap _ entries) \<Rightarrow> result_entries entries Map.empty
    | Some IvNull \<Rightarrow> Inr Map.empty
    | Some _ \<Rightarrow> Inl (Ignite ''BulkPutResponseParams.putResultMap: expected Map, got {:?}''))"

definition bulk_put_response_read_unwrapped :: "registry \<Rightarrow> type_code \<Rightarrow> (i32 \<rightharpoonup> put_result) option reader" where
  "bulk_put_response_read_unwrapped reg type_code = (case type_code of
      TcNull \<Rightarrow> ret None
    | TcComplexObj \<Rightarrow> rbind (co_read_unwrapped reg TcComplexObj) (\<lambda>r. case r of
        None \<Rightarrow> fail (Ignite ''BulkPutResponseParams: null ComplexObj'')
      | Some obj \<Rightarrow> (case bulk_put_response_from_object obj of Inl e \<Rightarrow> fail e | Inr m \<Rightarrow> ret (Some m)))
    | _ \<Rightarrow> fail (ExpectedGot ''BulkPutResponseParams: expected ComplexObj or Null'' (type_code_u8 type_code)))"

definition bulk_put_response_read :: "registry \<Rightarrow> (i32 \<rightharpoonup> put_result) option reader" where
  "bulk_put_response_read reg = rbind read_type_code (bulk_put_response_read_unwrapped reg)"

section \<open>Metadata\<close>

fun ignite_type_to_code :: "ignite_type \<Rightarrow> type_code" where
  "ignite_type_to_code ItByte = TcByte"
| "ignite_type_to_code ItString = TcString"
| "ignite_type_to_code ItLong = TcLong"
| "ignite_type_to_code ItInt = TcInt"
| "ignite_type_to_code ItShort = TcShort"
| "ignite_type_to_code ItFloat = TcFloat"
| "ignite_type_to_code ItDouble = TcDouble"
| "ignite_type_to_code ItChar = TcChar"
| "ignite_type_to_code ItBool = TcBool"
| "ignite_type_to_code ItUuid = TcUuid"
| "ignite_type_to_code ItDate = TcDate"
| "ignite_type_to_code ItTime = TcTime"
| "ignite_type_to_code ItBinary = TcArrByte"
| "ignite_type_to_code ItObject = TcComplexObj"
| "ignite_type_to_code ItArray = TcArrObj"
| "ignite_type_to_code ItEnum = TcEnum"
| "ignite_type_to_code ItTimestamp = TcTimestamp"
| "ignite_type_to_code (ItDecimal _ _) = TcDecimal"
| "ignite_type_to_code ItNull = TcNull"
| "ignite_type_to_code ItMap = TcMap"
| "ignite_type_to_code ItCollection = TcCollection"

definition bulk_field_metadata :: "lowercase \<Rightarrow> rstring \<Rightarrow> type_code \<Rightarrow> binary_field_metadata" where
  "bulk_field_metadata lc name code = \<lparr>bf_name = name, bf_type_id = tc_i32 code, bf_field_id = string_to_java_hashcode (lc name)\<rparr>"

definition metadata_with_codes :: "lowercase \<Rightarrow> rstring \<Rightarrow> (rstring \<times> ignite_type \<times> type_code) list \<Rightarrow> binary_type_metadata" where
  "metadata_with_codes lc type_name fs =
    (let field_metas = map (\<lambda>(name, ty, code). bulk_field_metadata lc name code) fs
     in \<lparr>bt_type_id = string_to_java_hashcode (lc type_name), bt_type_name = type_name, bt_affinity_key_field_name = None,
         bt_fields = field_metas, bt_is_enum = False, bt_enum_values = [],
         bt_schemas = [\<lparr>bsc_id = get_schema_id lc (map (\<lambda>(name, ty, _). \<lparr>field_name = name, field_type = ty\<rparr>) fs),
           bsc_field_ids = map bf_field_id field_metas\<rparr>]\<rparr>)"

definition metadata_for_schema :: "lowercase \<Rightarrow> rstring \<Rightarrow> (rstring \<times> ignite_type) list \<Rightarrow> binary_type_metadata" where
  "metadata_for_schema lc type_name fs = metadata_with_codes lc type_name (map (\<lambda>(name, ty). (name, ty, ignite_type_to_code ty)) fs)"

definition bulk_put_params_metadata :: "lowercase \<Rightarrow> binary_type_metadata" where
  "bulk_put_params_metadata lc = metadata_for_schema lc BULK_PUT_PARAMS [(rstr ''putParamsList'', ItObject)]"

definition put_params_fields :: "(rstring \<times> ignite_type) list" where
  "put_params_fields = [(rstr ''cacheName'', ItString), (rstr ''key'', ItObject), (rstr ''object'', ItObject), (rstr ''forceUpdate'', ItBool),
    (rstr ''indexContext'', ItObject), (rstr ''isSecondaryIndexesExists'', ItBool), (rstr ''saveStrategy'', ItEnum), (rstr ''index'', ItInt)]"

definition put_params_metadata :: "lowercase \<Rightarrow> binary_type_metadata" where
  "put_params_metadata lc = metadata_with_codes lc PUT_PARAMS
    (map (\<lambda>(name, ty). (name, ty, if name = rstr ''object'' then TcWrappedData else ignite_type_to_code ty)) put_params_fields)"

definition index_context_metadata :: "lowercase \<Rightarrow> binary_type_metadata" where
  "index_context_metadata lc = metadata_for_schema lc INDEX_CONTEXT
    [(rstr ''indexName2UniqueFactor'', ItObject), (rstr ''indexName2AtomicFactor'', ItObject), (rstr ''indexName2CacheName'', ItObject)]"

definition save_strategy_metadata :: "lowercase \<Rightarrow> binary_type_metadata" where
  "save_strategy_metadata lc = \<lparr>bt_type_id = string_to_java_hashcode (lc SAVE_STRATEGY), bt_type_name = SAVE_STRATEGY, bt_affinity_key_field_name = None,
    bt_fields = [], bt_is_enum = True,
    bt_enum_values = [\<lparr>be_name = rstr ''TRANSACTION'', be_ordinal = save_strategy_ordinal SsTransaction\<rparr>,
      \<lparr>be_name = rstr ''ATOMIC'', be_ordinal = save_strategy_ordinal SsAtomic\<rparr>], bt_schemas = []\<rparr>"

definition all_metadata_builders :: "lowercase \<Rightarrow> (rstring \<times> binary_type_metadata) list" where
  "all_metadata_builders lc = [(BULK_PUT_PARAMS, bulk_put_params_metadata lc), (PUT_PARAMS, put_params_metadata lc),
    (INDEX_CONTEXT, index_context_metadata lc), (SAVE_STRATEGY, save_strategy_metadata lc)]"

definition response_builder :: binary_object_builder where
  "response_builder = set_field_value (builder_new BULK_PUT_RESPONSE_PARAMS) (rstr ''putResultMap'') (IvMap 1 [])"

definition result_builder :: "ignite_value list \<Rightarrow> binary_object_builder" where
  "result_builder vs = foldl (\<lambda>b (name, v). set_field_value b (rstr name) v) (builder_new PUT_RESULT)
    (zip [''status'', ''message'', ''key'', ''index''] vs)"

definition prewarm_response_schemas :: "lowercase \<Rightarrow> registry \<Rightarrow> registry" where
  "prewarm_response_schemas lc reg = snd (build_object lc
    (result_builder [IvEnum \<lparr>enum_type_id = 0, enum_ordinal = 0\<rparr>, IvNull, IvLong 0, IvInt 0]) (snd (build_object lc response_builder reg)))"

fun register_names :: "transport \<Rightarrow> (rstring \<times> binary_type_metadata) list \<Rightarrow> (bin_session, unit) act" where
  "register_names net [] = aret ()"
| "register_names net ((type_name, meta) # ms) = abind (register_type_name net (bt_type_id meta) type_name) (\<lambda>_. register_names net ms)"

definition register_types :: "transport \<Rightarrow> lowercase \<Rightarrow> (bin_session, unit) act" where
  "register_types net lc = abind (register_names net (all_metadata_builders lc))
    (\<lambda>_ s. (Done (), s\<lparr>bin_registry := prewarm_response_schemas lc (bin_registry s)\<rparr>))"

section \<open>The task\<close>

record bulk_session = compute_session +
  bk_registry :: registry

definition bin_view :: "'z bulk_session_scheme \<Rightarrow> bin_session" where
  "bin_view s = \<lparr>calls = calls s, next_correlation_id = next_correlation_id s, bin_registry = bk_registry s\<rparr>"

definition bin_update :: "bin_session \<Rightarrow> 'z bulk_session_scheme \<Rightarrow> 'z bulk_session_scheme" where
  "bin_update b s = s\<lparr>calls := calls b, next_correlation_id := next_correlation_id b, bk_registry := bin_registry b\<rparr>"

definition execute_put_all ::
    "transport \<Rightarrow> bool \<Rightarrow> bool \<Rightarrow> (sql_value \<Rightarrow> sql_value \<Rightarrow> bool) \<Rightarrow> nat \<Rightarrow> lowercase \<Rightarrow> compute \<Rightarrow> put_params list \<Rightarrow>
     'z bulk_session_scheme \<Rightarrow> (i32 \<rightharpoonup> put_result) option result polled \<times> 'z bulk_session_scheme" where
  "execute_put_all net supported groups veq nanos lc self params s =
    (case register_types net lc (bin_view s) of
       (Done _, b) \<Rightarrow> compute_execute net supported groups (bin_registry b) veq nanos self (bulk_put_write lc) (bulk_put_size lc)
           (bulk_put_response_read (bin_registry b)) PUT_ALL_COMPUTE_TASK (Some params) (bin_update b s)
     | (Failed e, b) \<Rightarrow> (Ready (Failed e), bin_update b s)
     | (Panicked, b) \<Rightarrow> (Ready Panicked, bin_update b s)
     | (Unfinished, b) \<Rightarrow> (Ready Unfinished, bin_update b s))"


section \<open>Building and sizing\<close>

lemma sadd_extends:
  assumes "\<And>r. registry_extends r (snd (a r))" and "\<And>r. registry_extends r (snd (b r))"
  shows "registry_extends r (snd (sadd a b r))"
  using assms(1) [of r] assms(2) [of "snd (a r)"]
  by (auto simp: sadd_def split: prod.split option.split intro: registry_extends_trans)

lemma sret_extends: "registry_extends r (snd (sret n r))"
  by (simp add: sret_def registry_extends_refl)

lemma size_of_data_extends: "registry_extends r (snd (size_of_data (get_data lc co) r))"
  using steady_extends [OF steady_get_data, of r lc co] by (auto simp: size_of_data_def split: prod.split sum.split)

lemma sizes_extend:
  "registry_extends r (snd (value_size lc v r))"
  "registry_extends r (snd (values_size lc vs r))"
  "registry_extends r (snd (entries_size lc es r))"
  "registry_extends r (snd (object_size lc co r))"
proof (induction lc v and lc vs and lc es and lc co arbitrary: r and r and r and r
    rule: value_size_values_size_entries_size_object_size.induct)
  case (1 lc v)
  then show ?case by (cases v) (auto simp: value_size.simps sret_extends intro: sadd_extends)
next
  case (3 lc item items)
  then show ?case by (simp add: sadd_extends)
next
  case (5 lc k v entries)
  then show ?case by (simp add: sadd_extends)
next
  case (6 lc sch vals)
  then show ?case
    by (cases vals) (auto simp: sret_extends size_of_data_extends size_boxed_string_def registry_extends_refl split: ignite_value.split)
qed (simp_all add: sret_extends)

text \<open>The bytes of a wrapped object, and the object of a parameter; \<open>None\<close> is the panic.\<close>

definition wrapped_object :: "lowercase \<Rightarrow> complex_object \<Rightarrow> bytes option" where
  "wrapped_object lc co = (case run (write_object lc co) of
      Inl e \<Rightarrow> None
    | Inr bs \<Rightarrow> Some (write_u8 (type_code_u8 TcWrappedData) @ write_i32 (i32_of_usize (length bs)) @ bs @ write_i32 0))"

definition object_built :: "binary_object_builder \<Rightarrow> complex_object" where
  "object_built b = ComplexObject (builder_schema b) (map snd (bb_fields b))"

definition params_object :: "lowercase \<Rightarrow> put_params \<Rightarrow> complex_object option" where
  "params_object lc pp = map_option (\<lambda>w. object_built (put_params_builder lc pp w (object_built (index_context_builder (pp_index_context pp)))))
    (wrapped_object lc (pp_object pp))"

definition bulk_object :: "lowercase \<Rightarrow> put_params list \<Rightarrow> complex_object option" where
  "bulk_object lc pps = map_option (\<lambda>cos. object_built (bulk_builder cos)) (those (map (params_object lc) pps))"

lemma build_object_fixed: "build_object lc b reg = (object_built b, register_complex_schema lc (builder_schema b) reg)"
  by (simp add: build_object_def object_built_def)

lemma register_schema_extends: "registry_extends reg (register_complex_schema lc sch reg)"
  by (simp add: register_complex_schema_def register_type_extends)

lemma encode_wrapped_fixed:
  "\<exists>reg'. encode_wrapped_binary_object lc co reg = (wrapped_object lc co, reg') \<and> registry_extends reg reg'"
proof (cases "run (write_object lc co)")
  case (Inl e)
  have "fst (write_object lc co r) = Inl e" for r using steady_fst [OF steady_write_object] Inl by metis
  moreover have "registry_extends r (snd (write_object lc co r))" for r by (rule steady_extends [OF steady_write_object])
  ultimately show ?thesis using Inl sizes_extend(4) [of reg lc co] registry_extends_trans
    unfolding encode_wrapped_binary_object_def wrapped_object_def
    by (auto split: prod.split option.split sum.split) (metis fst_conv sum.distinct(1) snd_conv)+
next
  case (Inr bs)
  obtain reg1 where size: "object_size lc co reg = (Some (length bs), reg1)" and "registry_extends reg reg1"
    using value_size_written(4) [OF Inr, of reg] sizes_extend(4) [of reg lc co] by (metis prod.collapse)
  moreover obtain reg2 where "write_object lc co reg1 = (Inr bs, reg2)" and "registry_extends reg1 reg2"
    using steady_fst [OF steady_write_object, of lc co reg1] steady_extends [OF steady_write_object, of reg1 lc co] Inr
    by (metis prod.collapse)
  ultimately show ?thesis
    using Inr registry_extends_trans by (auto simp: encode_wrapped_binary_object_def wrapped_object_def)
qed

lemma put_params_fixed:
  "\<exists>reg'. put_params_to_binary lc pp reg = (params_object lc pp, reg') \<and> registry_extends reg reg'"
proof -
  obtain reg1 where reg1: "encode_wrapped_binary_object lc (pp_object pp) reg = (wrapped_object lc (pp_object pp), reg1)" "registry_extends reg reg1"
    using encode_wrapped_fixed by blast
  moreover have "registry_extends reg (register_complex_schema lc a (register_complex_schema lc b reg1))" for a b
    using reg1(2) register_schema_extends registry_extends_trans by blast
  ultimately show ?thesis
    by (cases "wrapped_object lc (pp_object pp)")
      (simp_all add: put_params_to_binary_def params_object_def index_context_to_binary_def build_object_fixed)
qed

lemma put_params_objects_fixed:
  "\<exists>reg'. put_params_objects lc pps reg = (those (map (params_object lc) pps), reg') \<and> registry_extends reg reg'"
proof (induction pps arbitrary: reg)
  case Nil
  then show ?case by (simp add: registry_extends_refl)
next
  case (Cons pp pps)
  obtain reg1 where one: "put_params_to_binary lc pp reg = (params_object lc pp, reg1)" "registry_extends reg reg1"
    using put_params_fixed by blast
  obtain reg2 where rest: "put_params_objects lc pps reg1 = (those (map (params_object lc) pps), reg2)" "registry_extends reg1 reg2"
    using Cons.IH by blast
  from one rest registry_extends_trans show ?case by (cases "params_object lc pp") auto
qed

lemma bulk_put_fixed:
  "\<exists>reg'. bulk_put_params_to_binary lc pps reg = (bulk_object lc pps, reg') \<and> registry_extends reg reg'"
proof -
  obtain reg1 where reg1: "put_params_objects lc pps reg = (those (map (params_object lc) pps), reg1)" "registry_extends reg reg1"
    using put_params_objects_fixed by blast
  moreover have "registry_extends reg (register_complex_schema lc a reg1)" for a
    using reg1(2) register_schema_extends registry_extends_trans by blast
  ultimately show ?thesis
    by (cases "those (map (params_object lc) pps)") (simp_all add: bulk_put_params_to_binary_def bulk_object_def build_object_fixed)
qed

lemma bulk_put_run: "run (bulk_put_write lc pps) = (case bulk_object lc pps of None \<Rightarrow> Inl (IoOther ''panic'') | Some co \<Rightarrow> run (write_object lc co))"
proof -
  obtain reg' where "bulk_put_params_to_binary lc pps registry_default = (bulk_object lc pps, reg')" using bulk_put_fixed by blast
  then show ?thesis
    by (cases "bulk_object lc pps") (simp_all add: run_def [of "bulk_put_write lc pps"] bulk_put_write_def steady_fst [OF steady_write_object])
qed

lemma steady_bulk_put [steady_intros]: "steady (bulk_put_write lc pps)"
  unfolding steady_def
proof (intro conjI allI)
  fix r r'
  obtain a b where "bulk_put_params_to_binary lc pps r = (bulk_object lc pps, a)" "bulk_put_params_to_binary lc pps r' = (bulk_object lc pps, b)"
    using bulk_put_fixed by metis
  then show "fst (bulk_put_write lc pps r) = fst (bulk_put_write lc pps r')"
    by (cases "bulk_object lc pps") (simp_all add: bulk_put_write_def steady_fst [OF steady_write_object])
next
  fix r
  obtain a where "bulk_put_params_to_binary lc pps r = (bulk_object lc pps, a)" "registry_extends r a" using bulk_put_fixed by metis
  then show "registry_extends r (snd (bulk_put_write lc pps r))"
    using steady_extends [OF steady_write_object] registry_extends_trans
    by (cases "bulk_object lc pps") (auto simp: bulk_put_write_def)
qed

lemma announced_bulk_put: "announced (bulk_put_write lc) (bulk_put_size lc)"
proof (rule announced_sized)
  fix pps
  have "fst (bulk_put_size lc pps reg) = Some (length bs)" if "run (bulk_put_write lc pps) = Inr bs" for bs reg
  proof -
    obtain reg1 where "bulk_put_params_to_binary lc pps reg = (bulk_object lc pps, reg1)" using bulk_put_fixed by blast
    with that show ?thesis by (cases "bulk_object lc pps") (simp_all add: bulk_put_run bulk_put_size_def value_size_written(4))
  qed
  then show "sized (bulk_put_write lc pps) (bulk_put_size lc pps)" by (simp add: sized_def steady_intros)
qed

lemma accepted_simple: "accepted lc (IvString st)" "accepted lc (IvBool b)" "accepted lc (IvInt i)" "accepted lc (IvEnum e)" "accepted lc (IvPreEncoded bs)"
  by (simp_all add: accepted_def write_value.simps)

lemma params_accepted:
  assumes "params_object lc pp = Some co" and "accepted lc (pp_key pp)"
  shows "accepted lc (IvObject co)"
proof -
  obtain w where co: "co = object_built (put_params_builder lc pp w (object_built (index_context_builder (pp_index_context pp))))"
    using assms(1) by (auto simp: params_object_def)
  have ctx: "accepted lc (IvObject (object_built (index_context_builder c)))" for c
    unfolding object_built_def
    by (rule accepted_containers)
      (auto simp: proper_object_def index_context_builder_def builder_schema_def set_field_value_def builder_new_def INDEX_CONTEXT_def model_class_def
        JAVA_LONG_def JAVA_STRING_def rstr_def map_bool_to_ignite_def map_string_to_ignite_def list_all_iff accepted_simple intro!: accepted_containers)
  show ?thesis unfolding co object_built_def [of "put_params_builder _ _ _ _"]
    by (rule accepted_containers)
      (use ctx assms(2) in \<open>simp_all add: proper_object_def put_params_builder_def builder_schema_def set_field_value_def builder_new_def PUT_PARAMS_def
        model_class_def JAVA_LONG_def JAVA_STRING_def rstr_def save_strategy_value_def accepted_simple\<close>)
qed

lemma those_None: "those xs = None \<longleftrightarrow> None \<in> set xs"
  by (induction xs) (auto split: option.split)

lemma those_Some: "those xs = Some ys \<longleftrightarrow> xs = map Some ys"
proof (induction xs arbitrary: ys)
  case (Cons x xs)
  then show ?case by (cases x; cases ys) auto
qed auto

lemma object_accepted: "accepted lc (IvObject co) \<longleftrightarrow> (\<exists>bs. run (write_object lc co) = Inr bs)"
  by (simp add: accepted_def write_value.simps del: write_object.simps)

lemma params_object_None: "params_object lc pp = None \<longleftrightarrow> \<not> accepted lc (IvObject (pp_object pp))"
  by (cases "run (write_object lc (pp_object pp))") (simp_all add: params_object_def wrapped_object_def object_accepted del: write_object.simps)

section \<open>Reading the response\<close>

text \<open>The schemas the client registers for the response, and a response as an object of these schemas.\<close>

definition response_schema :: complex_object_schema where
  "response_schema = builder_schema response_builder"

definition result_schema :: complex_object_schema where
  "result_schema = builder_schema (result_builder [IvEnum \<lparr>enum_type_id = 0, enum_ordinal = 0\<rparr>, IvNull, IvLong 0, IvInt 0])"

fun put_status_ordinal :: "put_status \<Rightarrow> i32" where
  "put_status_ordinal PsAdded = 0"
| "put_status_ordinal PsRewriteSameVersion = 1"
| "put_status_ordinal PsRewriteNewerVersion = 2"
| "put_status_ordinal PsAlreadyExist = 3"
| "put_status_ordinal PsError = 4"

definition result_object :: "i32 \<Rightarrow> put_result \<Rightarrow> complex_object" where
  "result_object status_type r = ComplexObject result_schema
    [IvEnum \<lparr>enum_type_id = status_type, enum_ordinal = put_status_ordinal (pr_status r)\<rparr>,
     (case pr_message r of None \<Rightarrow> IvNull | Some m \<Rightarrow> IvString m), pr_key r, IvInt (pr_index r)]"

definition response_object :: "u8 \<Rightarrow> i32 \<Rightarrow> (i32 \<times> put_result) list \<Rightarrow> complex_object" where
  "response_object kind status_type results = ComplexObject response_schema
    [IvMap kind (map (\<lambda>(i, r). (IvInt i, IvObject (result_object status_type r))) results)]"

definition ok_result :: "lowercase \<Rightarrow> registry \<Rightarrow> put_result \<Rightarrow> bool" where
  "ok_result lc reg r \<longleftrightarrow> decodable lc reg (pr_key r) \<and> (\<forall>m. pr_message r = Some m \<longrightarrow> valid_rstring m)"

lemma put_status_back [simp]: "put_status_from_ordinal (put_status_ordinal st) = Some st"
  by (cases st) (simp_all add: put_status_from_ordinal_def)

lemma response_schema_simps: "schema_type_name response_schema = BULK_PUT_RESPONSE_PARAMS"
    "schema_fields response_schema = [\<lparr>field_name = rstr ''putResultMap'', field_type = ItMap\<rparr>]"
  by (simp_all add: response_schema_def builder_schema_def response_builder_def set_field_value_def builder_new_def)

lemma result_schema_simps: "schema_type_name result_schema = PUT_RESULT"
    "schema_fields result_schema = [\<lparr>field_name = rstr ''status'', field_type = ItEnum\<rparr>, \<lparr>field_name = rstr ''message'', field_type = ItNull\<rparr>,
      \<lparr>field_name = rstr ''key'', field_type = ItLong\<rparr>, \<lparr>field_name = rstr ''index'', field_type = ItInt\<rparr>]"
  by (simp_all add: result_schema_def builder_schema_def result_builder_def set_field_value_def builder_new_def)

lemma class_names_differ: "BULK_PUT_RESPONSE_PARAMS \<noteq> JAVA_LONG" "BULK_PUT_RESPONSE_PARAMS \<noteq> JAVA_STRING" "PUT_RESULT \<noteq> JAVA_LONG"
    "PUT_RESULT \<noteq> JAVA_STRING"
  by (simp_all add: BULK_PUT_RESPONSE_PARAMS_def PUT_RESULT_def model_class_def JAVA_LONG_def JAVA_STRING_def rstr_def)

lemma response_fields: "schema_fields response_schema \<noteq> []" "canon_schema response_schema = response_schema"
    "schema_fields result_schema \<noteq> []" "canon_schema result_schema = result_schema"
  by (simp_all add: canon_schema_def canon_field_def response_schema_simps result_schema_simps complex_object_schema.equality)

lemma result_from_object: "put_result_from_object (result_object status_type r) = Inr r"
  by (cases r; cases "pr_message r")
    (simp_all add: put_result_from_object_def result_object_def co_field_def result_schema_simps rstr_def)

lemma result_entries_all:
  "result_entries (map (\<lambda>(i, r). (IvInt i, IvObject (result_object status_type r))) results) m = Inr (m ++ map_of (rev results))"
proof (induction results arbitrary: m)
  case (Cons e results)
  then show ?case by (cases e) (simp add: result_from_object map_add_assoc [symmetric] map_of_append, simp add: fun_upd_def)
qed simp

lemma response_from_object: "bulk_put_response_from_object (response_object kind status_type results) = Inr (map_of (rev results))"
  by (simp add: bulk_put_response_from_object_def response_object_def co_field_def response_schema_simps result_entries_all)

lemma response_decodable:
  assumes "resolves lc reg response_schema" and "resolves lc reg result_schema" and "list_all (\<lambda>e. ok_result lc reg (snd e)) results"
  shows "decodable lc reg (IvObject (response_object kind status_type results))"
proof -
  have "decodable lc reg (IvObject (result_object status_type r))" if "ok_result lc reg r" for r
    using that assms(2)
    by (cases "pr_message r") (simp_all add: ok_result_def result_object_def proper_object_def result_schema_simps class_names_differ)
  then show ?thesis using assms(1,3)
    by (auto simp: response_object_def proper_object_def response_schema_simps class_names_differ list_all_iff)
qed

lemma co_read_coded:
  assumes "tc \<noteq> TcNull" and "tc \<noteq> TcWrappedData"
  shows "co_read reg (write_u8 (type_code_u8 tc) @ b) = co_read_unwrapped reg tc b"
  using assms
  by (subst co_read_unfold, cases tc)
    (simp_all only: read_wrapped_data_def rbind_Ok [where m = read_type_code, OF read_type_code_write] type_code.case simp_thms)

lemma response_read_back:
  assumes "decodable lc reg (IvObject (response_object kind status_type results))"
    and "length (enc_value lc (IvObject (response_object kind status_type results))) < 2 ^ 31"
  shows "bulk_put_response_read reg (enc_value lc (IvObject (response_object kind status_type results)) @ s) = Ok (Some (map_of (rev results))) s"
proof -
  obtain vs where obj: "response_object kind status_type results = ComplexObject response_schema vs" by (simp add: response_object_def)
  have "proper_object response_schema vs" and "list_all (accepted lc) vs"
    using assms(1) decodable_lists(1) unfolding obj by auto
  then obtain bs where bs: "enc_value lc (IvObject (ComplexObject response_schema vs)) = write_u8 (type_code_u8 TcComplexObj) @ bs"
    by (cases "object_data lc response_schema vs") (auto simp: enc_object object_bytes_def)
  have "co_read_unwrapped reg TcComplexObj (bs @ s) = Ok (Some (response_object kind status_type results)) s"
    using co_read_object [OF assms [unfolded obj], of s] by (simp add: bs obj co_read_coded)
  then show ?thesis
    using response_from_object [of kind status_type results]
    by (simp add: obj bs bulk_put_response_read_def bulk_put_response_read_unwrapped_def rbind_Ok read_type_code_write)
qed

definition type_id_of :: "lowercase \<Rightarrow> rstring \<Rightarrow> i32" where
  "type_id_of lc name = string_to_java_hashcode (lc name)"

lemma schema_compatible_cong:
  "reg (type_id_of lc (schema_type_name sch)) = reg' (type_id_of lc (schema_type_name sch)) \<Longrightarrow>
    schema_compatible lc reg sch = schema_compatible lc reg' sch"
  by (simp add: schema_compatible_def type_id_of_def)

lemma knows_schema_cong:
  "reg (type_id_of lc (schema_type_name sch)) = reg' (type_id_of lc (schema_type_name sch)) \<Longrightarrow> knows_schema lc reg sch = knows_schema lc reg' sch"
  by (simp add: knows_schema_def type_id_of_def)

lemma register_other_type: "t \<noteq> type_id_of lc (schema_type_name sch) \<Longrightarrow> register_complex_schema lc sch reg t = reg t"
  by (simp add: register_complex_schema_def register_type_lookup registered_type_from_schema_def type_id_of_def)

lemma prewarmed_resolves:
  assumes "schema_compatible lc reg response_schema" and "schema_compatible lc reg result_schema"
    and "type_id_of lc BULK_PUT_RESPONSE_PARAMS \<noteq> type_id_of lc PUT_RESULT"
  shows "resolves lc (prewarm_response_schemas lc reg) response_schema" and "resolves lc (prewarm_response_schemas lc reg) result_schema"
proof -
  let ?r1 = "register_complex_schema lc response_schema reg"
  have pre: "prewarm_response_schemas lc reg = register_complex_schema lc result_schema ?r1"
    by (simp add: prewarm_response_schemas_def build_object_def response_schema_def result_schema_def)
  have "schema_compatible lc ?r1 result_schema"
    using assms(2,3) schema_compatible_cong [of ?r1 lc result_schema reg] register_other_type [of _ lc response_schema reg]
    by (simp add: response_schema_simps result_schema_simps)
  then have "knows_schema lc (prewarm_response_schemas lc reg) result_schema" unfolding pre by (rule register_knows_schema)
  then show "resolves lc (prewarm_response_schemas lc reg) result_schema" using response_fields by (simp add: knows_schema_resolves)
  have "knows_schema lc (prewarm_response_schemas lc reg) response_schema"
    using register_knows_schema [OF assms(1)] assms(3) knows_schema_cong [of "prewarm_response_schemas lc reg" lc response_schema ?r1]
      register_other_type [of _ lc result_schema ?r1]
    by (simp add: pre response_schema_simps result_schema_simps)
  then show "resolves lc (prewarm_response_schemas lc reg) response_schema" using response_fields by (simp add: knows_schema_resolves)
qed

section \<open>Registering the types\<close>

definition register_call :: "i64 \<Rightarrow> i32 \<Rightarrow> rstring \<Rightarrow> call" where
  "register_call corr type_id type_name = request_call OpRegisterBinaryTypeName corr (type_name_put_write type_id type_name) route_default"

fun register_calls :: "i64 \<Rightarrow> (rstring \<times> binary_type_metadata) list \<Rightarrow> call list" where
  "register_calls corr [] = []"
| "register_calls corr ((type_name, meta) # ms) = register_call corr (bt_type_id meta) type_name # register_calls (corr + 1) ms"

definition names_known :: "(i32 \<Rightarrow> bool) \<Rightarrow> (rstring \<times> binary_type_metadata) list \<Rightarrow> registry \<Rightarrow> registry" where
  "names_known granted = fold (\<lambda>(type_name, meta) reg.
    if granted (bt_type_id meta) then register_type (bare_type (bt_type_id meta) type_name False) reg else reg)"

text \<open>A server that answers the registrations: \<open>granted\<close> says which names it takes.\<close>

locale name_server =
  fixes net :: transport and granted :: "i32 \<Rightarrow> bool"
  assumes names_answered: "\<exists>addr. net log (register_call corr type_id type_name) = Inr (Success, write_bool (granted type_id), 0, addr)"
begin

lemma register_one:
  "register_type_name net type_id type_name b = (Done (granted type_id),
    b\<lparr>next_correlation_id := next_correlation_id b + 1, calls := calls b @ [register_call (next_correlation_id b) type_id type_name],
      bin_registry := (if granted type_id then register_type (bare_type type_id type_name False) (bin_registry b) else bin_registry b)\<rparr>)"
proof -
  have sized: "sized (wr (type_name_put_write type_id type_name)) (sret (type_name_put_size type_name))"
    by (rule sized_wr) (simp add: type_name_put_write_def type_name_put_size_def string_write_def string_size_def)
  obtain addr where "net (calls b) (register_call (next_correlation_id b) type_id type_name) = Inr (Success, write_bool (granted type_id), 0, addr)"
    using names_answered by blast
  then show ?thesis
    by (simp add: register_type_name_def send_and_read_def send_and_read_with_route_def perform_sized [OF sized run_wr] abind_def
        register_call_def request_call_def Let_def decoded_def bool_back register_def)
qed

lemma register_all:
  "register_names net ms b = (Done (), b\<lparr>next_correlation_id := next_correlation_id b + of_nat (length ms),
    calls := calls b @ register_calls (next_correlation_id b) ms, bin_registry := names_known granted ms (bin_registry b)\<rparr>)"
proof (induction ms arbitrary: b)
  case (Cons m ms)
  then show ?case by (cases m) (simp add: abind_def register_one names_known_def add.assoc)
qed (simp add: aret_def names_known_def)

lemma types_registered:
  "register_types net lc b = (Done (), b\<lparr>next_correlation_id := next_correlation_id b + 4,
    calls := calls b @ register_calls (next_correlation_id b) (all_metadata_builders lc),
    bin_registry := prewarm_response_schemas lc (names_known granted (all_metadata_builders lc) (bin_registry b))\<rparr>)"
proof -
  have "of_nat (length (all_metadata_builders lc)) = (4 :: i64)" by (simp add: all_metadata_builders_def)
  then show ?thesis by (simp add: register_types_def abind_def register_all)
qed

end

lemma metadata_ids: "map (\<lambda>m. bt_type_id (snd m)) (all_metadata_builders lc) = map (type_id_of lc) [BULK_PUT_PARAMS, PUT_PARAMS, INDEX_CONTEXT, SAVE_STRATEGY]"
  by (simp add: all_metadata_builders_def bulk_put_params_metadata_def put_params_metadata_def index_context_metadata_def save_strategy_metadata_def
      metadata_for_schema_def metadata_with_codes_def type_id_of_def Let_def)

lemma names_known_other:
  "t \<notin> set (map (\<lambda>m. bt_type_id (snd m)) ms) \<Longrightarrow> names_known granted ms reg t = reg t"
  by (induction ms arbitrary: reg) (auto simp: names_known_def register_type_lookup bare_type_def split: prod.split)

definition task_types :: "rstring list" where
  "task_types = [BULK_PUT_PARAMS, PUT_PARAMS, INDEX_CONTEXT, SAVE_STRATEGY, BULK_PUT_RESPONSE_PARAMS, PUT_RESULT]"

definition ready_registry :: "lowercase \<Rightarrow> (i32 \<Rightarrow> bool) \<Rightarrow> registry \<Rightarrow> registry" where
  "ready_registry lc granted reg = prewarm_response_schemas lc (names_known granted (all_metadata_builders lc) reg)"

lemma ready_resolves:
  assumes "distinct (map (type_id_of lc) task_types)" and "schema_compatible lc reg response_schema" and "schema_compatible lc reg result_schema"
  shows "resolves lc (ready_registry lc granted reg) response_schema" and "resolves lc (ready_registry lc granted reg) result_schema"
proof -
  let ?r = "names_known granted (all_metadata_builders lc) reg"
  have "?r (type_id_of lc BULK_PUT_RESPONSE_PARAMS) = reg (type_id_of lc BULK_PUT_RESPONSE_PARAMS)"
    "?r (type_id_of lc PUT_RESULT) = reg (type_id_of lc PUT_RESULT)"
    using assms(1) by (auto intro!: names_known_other simp: metadata_ids task_types_def)
  then have "schema_compatible lc ?r response_schema" "schema_compatible lc ?r result_schema"
    using assms(2,3) schema_compatible_cong [of ?r lc response_schema reg] schema_compatible_cong [of ?r lc result_schema reg]
    by (simp_all add: response_schema_simps result_schema_simps)
  then show "resolves lc (ready_registry lc granted reg) response_schema" and "resolves lc (ready_registry lc granted reg) result_schema"
    using prewarmed_resolves [of lc ?r] assms(1) by (simp_all add: ready_registry_def task_types_def)
qed

section \<open>Properties\<close>

text \<open>The argument of the task. If every object can be written, the argument is, with the announced length, the object of the
  list whose elements hold the wrapped bytes of their objects; if one cannot, the size panics, so that the call does.\<close>
theorem bulk_put_written:
  assumes "list_all (\<lambda>pp. accepted lc (pp_key pp)) params"
  shows "if list_all (\<lambda>pp. accepted lc (IvObject (pp_object pp))) params
    then \<exists>cos. map (params_object lc) params = map Some cos \<and>
      run (bulk_put_write lc params) = Inr (enc_value lc (IvObject (object_built (bulk_builder cos)))) \<and>
      fst (bulk_put_size lc params reg) = Some (length (enc_value lc (IvObject (object_built (bulk_builder cos)))))
    else fst (bulk_put_size lc params reg) = None"
proof (cases "those (map (params_object lc) params)")
  case None
  then obtain pp where "pp \<in> set params" and "params_object lc pp = None" by (auto simp: those_None)
  then have "\<not> list_all (\<lambda>pp. accepted lc (IvObject (pp_object pp))) params" by (auto simp: list_all_iff params_object_None)
  moreover have "bulk_object lc params = None" using None by (simp add: bulk_object_def)
  moreover obtain reg' where "bulk_put_params_to_binary lc params reg = (bulk_object lc params, reg')" using bulk_put_fixed by blast
  ultimately show ?thesis by (simp add: bulk_put_size_def)
next
  case (Some cos)
  then have cos: "map (params_object lc) params = map Some cos" by (simp add: those_Some)
  have all: "list_all (\<lambda>pp. accepted lc (IvObject (pp_object pp))) params"
    unfolding list_all_iff
  proof
    fix pp
    assume "pp \<in> set params"
    then have "params_object lc pp \<in> set (map Some cos)" unfolding cos [symmetric] by simp
    then show "accepted lc (IvObject (pp_object pp))" using params_object_None [of lc pp] by auto
  qed
  have "accepted lc (IvObject co)" if "co \<in> set cos" for co
  proof -
    have "Some co \<in> set (map (params_object lc) params)" using that unfolding cos by simp
    then show ?thesis using assms params_accepted by (auto simp: list_all_iff)
  qed
  then have "accepted lc (IvObject (object_built (bulk_builder cos)))"
    unfolding object_built_def
    by (intro accepted_containers) (auto simp: proper_object_def bulk_builder_def builder_schema_def set_field_value_def builder_new_def
        BULK_PUT_PARAMS_def model_class_def JAVA_LONG_def JAVA_STRING_def rstr_def list_all_iff intro!: accepted_containers)
  then have "run (write_object lc (object_built (bulk_builder cos))) = Inr (enc_value lc (IvObject (object_built (bulk_builder cos))))"
    by (simp add: run_accepted write_value.simps del: write_object.simps)
  then have written: "run (bulk_put_write lc params) = Inr (enc_value lc (IvObject (object_built (bulk_builder cos))))"
    using Some by (simp add: bulk_put_run bulk_object_def del: write_object.simps)
  moreover have "fst (bulk_put_size lc params reg) = Some (length (enc_value lc (IvObject (object_built (bulk_builder cos)))))"
    using sized_announced [OF announced_bulk_put, of lc params] written by (simp add: sized_def)
  ultimately show ?thesis using all cos by auto
qed


definition sample_put_net :: transport where
  "sample_put_net log c = (if fst c = OpRegisterBinaryTypeName then Inr (Success, write_bool True, 0, []) else sample_compute_net log c)"

definition sample_put_result :: put_result where
  "sample_put_result = \<lparr>pr_status = PsAdded, pr_message = None, pr_key = IvLong 5, pr_index = 0\<rparr>"

definition sample_put_params :: put_params where
  "sample_put_params = put_params_new (rstr ''c'') (IvLong 5) (ComplexObject sample_schema sample_values) False index_context_empty False SsAtomic"

definition sample_put_frame :: response_frame where
  "sample_put_frame = \<lparr>correlation_id = 7, frame_flag = Success,
    frame_body = enc_value to_ascii_lowercase (IvObject (response_object 1 3 [(0, sample_put_result)])), payload_offset = 0,
    frame_topology_version = None\<rparr>"

definition sample_put_session :: "bulk_session" where
  "sample_put_session = \<lparr>calls = [], next_correlation_id = 1, cl_cache = cluster_cache_default,
    cs_chans = [rstr ''n'' \<mapsto> notifications_new\<lparr>n_pending := [task_key 7 \<mapsto> [sample_put_frame]]\<rparr>], bk_registry = Map.empty\<rparr>"

lemma sample_put_topology: "topology_server sample_put_net reg (\<lambda>_. 5) (\<lambda>_. [(0, 3), (0, 1), (0, 2)]) sample_info"
proof
  show "\<exists>addr. sample_put_net log (request_call OpClusterGroupGetNodeIds corr (node_ids_request_write known) route_default) =
      Inr (Success, ids_reply 5 [(0, 3), (0, 1), (0, 2)] known, 0, addr)" for log corr known
    using topology_server.ids_answered [OF sample_compute_topology, of log corr known] by (simp add: sample_put_net_def request_call_def)
  show "\<exists>reply addr. sample_put_net log (request_call OpClusterGroupGetNodeInfo corr (uids_bytes ids) route_default) = Inr (Success, reply, 0, addr) \<and>
      node_info_response_read reg reply = Ok (map sample_info (filter (\<lambda>i. i \<in> set [(0, 3), (0, 1), (0, 2)]) ids)) []"
    if "length ids < 2 ^ 31" for log corr ids
    using topology_server.info_answered [OF sample_compute_topology that, of log corr] by (simp add: sample_put_net_def request_call_def)
qed (simp_all add: sample_topology.named)

interpretation sample_names: name_server sample_put_net "\<lambda>_. True"
  by unfold_locales (simp add: sample_put_net_def register_call_def request_call_def)

lemma sample_put_types: "distinct (map (type_id_of to_ascii_lowercase) task_types)"
  by (simp add: task_types_def type_id_of_def BULK_PUT_PARAMS_def PUT_PARAMS_def INDEX_CONTEXT_def SAVE_STRATEGY_def BULK_PUT_RESPONSE_PARAMS_def
      PUT_RESULT_def model_class_def to_ascii_lowercase_def rstr_def string_to_java_hashcode_def java_hash_step_def)

lemma sample_put_schemas: "schema_compatible to_ascii_lowercase Map.empty response_schema" "schema_compatible to_ascii_lowercase Map.empty result_schema"
  by (simp_all add: schema_compatible_def response_schema_simps result_schema_simps field_id_of_def to_ascii_lowercase_def rstr_def
      string_to_java_hashcode_def java_hash_step_def)

lemma sample_put_small: "length (enc_value to_ascii_lowercase (IvObject (response_object 1 3 [(0, sample_put_result)]))) < 2 ^ 31"
proof -
  let ?vs = "[IvEnum \<lparr>enum_type_id = 3, enum_ordinal = 0\<rparr>, IvNull, IvLong 5, IvInt 0]"
  have inner: "proper_object result_schema ?vs" "list_all (accepted to_ascii_lowercase) ?vs"
    by (simp_all add: proper_object_def result_schema_simps class_names_differ accepted_def write_value.simps)
  then have acc: "accepted to_ascii_lowercase (IvObject (ComplexObject result_schema ?vs))" by (rule accepted_containers)
  let ?es = "[(IvInt 0, IvObject (ComplexObject result_schema ?vs))]"
  have outer: "proper_object response_schema [IvMap 1 ?es]" "list_all (accepted to_ascii_lowercase) [IvMap 1 ?es]"
    using acc by (auto simp: proper_object_def response_schema_simps class_names_differ accepted_simple intro!: accepted_containers)
  have "length (enc_value to_ascii_lowercase (IvObject (ComplexObject result_schema ?vs))) < 2 ^ 20"
    by (simp add: enc_object [OF inner] object_bytes_def object_data_def finish_data_def Let_def length_write_footer,
      simp add: enc_simple result_schema_simps offset_width_def write_null_def)
  moreover have "enc_value to_ascii_lowercase (IvMap 1 ?es) = write_u8 (type_code_u8 TcMap) @ write_i32 (i32_of_usize 1) @ write_u8 1 @
      enc_value to_ascii_lowercase (IvInt 0) @ enc_value to_ascii_lowercase (IvObject (ComplexObject result_schema ?vs))"
    using acc accepted_simple by (simp add: enc_containers(4))
  ultimately have "length (enc_value to_ascii_lowercase (IvMap 1 ?es)) < 2 ^ 21" by (simp add: enc_simple)
  then have "length (enc_value to_ascii_lowercase (IvObject (ComplexObject response_schema [IvMap 1 ?es]))) < 2 ^ 31"
    by (simp add: enc_object [OF outer] object_bytes_def object_data_def finish_data_def Let_def length_write_footer,
      simp add: response_schema_simps offset_width_def split: if_splits)
  then show ?thesis by (simp add: response_object_def result_object_def sample_put_result_def)
qed


end
