(* ===== verification/CacheMap.thy ===== *)
theory CacheMap
  imports IgniteSet
begin

text \<open>
  A cache is a map. The operations on the entries of a cache (\<open>cache.rs\<close>, in \<open>CacheOps\<close>) against a server that
  keeps one map: what the requests say, what the answers are read as, and that any sequence of operations returns
  what a map returns.
\<close>

section \<open>Maps\<close>

datatype ('k, 'v) kv_op =
    KGet 'k | KGetAll "'k list" | KPut 'k 'v | KPutAll "('k \<times> 'v) list" | KContainsKey 'k | KContainsKeys "'k list"
  | KGetAndPut 'k 'v | KGetAndReplace 'k 'v | KGetAndRemove 'k | KPutIfAbsent 'k 'v | KGetAndPutIfAbsent 'k 'v
  | KReplace 'k 'v | KReplaceIfEquals 'k 'v 'v | KClear | KClearKey 'k | KClearKeys "'k list" | KRemoveKey 'k
  | KRemoveIfEquals 'k 'v | KSize | KRemoveKeys "'k list" | KRemoveAll

datatype ('k, 'v) kv_value = KvUnit | KvBool bool | KvValue "'v option" | KvRows "('k option \<times> 'v option) list" | KvSize i64

text \<open>The entries found for some keys, each key once.\<close>

definition found :: "('k \<rightharpoonup> 'v) \<Rightarrow> 'k list \<Rightarrow> ('k option \<times> 'v option) list" where
  "found m ks = map (\<lambda>k. (Some k, m k)) (filter (\<lambda>k. m k \<noteq> None) (remdups ks))"

fun map_step :: "('k, 'v) kv_op \<Rightarrow> ('k \<rightharpoonup> 'v) \<Rightarrow> ('k, 'v) kv_value \<times> ('k \<rightharpoonup> 'v)" where
  "map_step (KGet k) m = (KvValue (m k), m)"
| "map_step (KGetAll ks) m = (KvRows (found m ks), m)"
| "map_step (KPut k v) m = (KvUnit, m(k \<mapsto> v))"
| "map_step (KPutAll pairs) m = (KvUnit, m ++ map_of (rev pairs))"
| "map_step (KContainsKey k) m = (KvBool (m k \<noteq> None), m)"
| "map_step (KContainsKeys ks) m = (KvBool (list_all (\<lambda>k. m k \<noteq> None) ks), m)"
| "map_step (KGetAndPut k v) m = (KvValue (m k), m(k \<mapsto> v))"
| "map_step (KGetAndReplace k v) m = (KvValue (m k), if m k = None then m else m(k \<mapsto> v))"
| "map_step (KGetAndRemove k) m = (KvValue (m k), m(k := None))"
| "map_step (KPutIfAbsent k v) m = (KvBool (m k = None), if m k = None then m(k \<mapsto> v) else m)"
| "map_step (KGetAndPutIfAbsent k v) m = (KvValue (m k), if m k = None then m(k \<mapsto> v) else m)"
| "map_step (KReplace k v) m = (KvBool (m k \<noteq> None), if m k = None then m else m(k \<mapsto> v))"
| "map_step (KReplaceIfEquals k old new) m = (KvBool (m k = Some old), if m k = Some old then m(k \<mapsto> new) else m)"
| "map_step KClear m = (KvUnit, Map.empty)"
| "map_step (KClearKey k) m = (KvUnit, m(k := None))"
| "map_step (KClearKeys ks) m = (KvUnit, m |` (- set ks))"
| "map_step (KRemoveKey k) m = (KvBool (m k \<noteq> None), m(k := None))"
| "map_step (KRemoveIfEquals k v) m = (KvBool (m k = Some v), if m k = Some v then m(k := None) else m)"
| "map_step KSize m = (KvSize (word_of_nat (card (dom m))), m)"
| "map_step (KRemoveKeys ks) m = (KvUnit, m |` (- set ks))"
| "map_step KRemoveAll m = (KvUnit, Map.empty)"

text \<open>The operations of the cache.\<close>

fun kv_perform :: "transport \<Rightarrow> node_lookup \<Rightarrow> ('k, 'v) cache_core \<Rightarrow> ('k, 'v) kv_op \<Rightarrow> (tx_session, ('k, 'v) kv_value) act" where
  "kv_perform net aff self (KGet k) = amap KvValue (cache_get net aff self k)"
| "kv_perform net aff self (KGetAll ks) = amap KvRows (cache_get_all net self ks)"
| "kv_perform net aff self (KPut k v) = amap (\<lambda>_. KvUnit) (cache_put net aff self k v)"
| "kv_perform net aff self (KPutAll pairs) = amap (\<lambda>_. KvUnit) (cache_put_all net self pairs)"
| "kv_perform net aff self (KContainsKey k) = amap KvBool (cache_contains_key net aff self k)"
| "kv_perform net aff self (KContainsKeys ks) = amap KvBool (cache_contains_keys net self ks)"
| "kv_perform net aff self (KGetAndPut k v) = amap KvValue (cache_get_and_put net aff self k v)"
| "kv_perform net aff self (KGetAndReplace k v) = amap KvValue (cache_get_and_replace net aff self k v)"
| "kv_perform net aff self (KGetAndRemove k) = amap KvValue (cache_get_and_remove net aff self k)"
| "kv_perform net aff self (KPutIfAbsent k v) = amap KvBool (cache_put_if_absent net aff self k v)"
| "kv_perform net aff self (KGetAndPutIfAbsent k v) = amap KvValue (cache_get_and_put_if_absent net aff self k v)"
| "kv_perform net aff self (KReplace k v) = amap KvBool (cache_replace net aff self k v)"
| "kv_perform net aff self (KReplaceIfEquals k old new) = amap KvBool (cache_replace_if_equals net aff self k old new)"
| "kv_perform net aff self KClear = amap (\<lambda>_. KvUnit) (cache_clear net self)"
| "kv_perform net aff self (KClearKey k) = amap (\<lambda>_. KvUnit) (cache_clear_key net aff self k)"
| "kv_perform net aff self (KClearKeys ks) = amap (\<lambda>_. KvUnit) (cache_clear_keys net self ks)"
| "kv_perform net aff self (KRemoveKey k) = amap KvBool (cache_remove_key net aff self k)"
| "kv_perform net aff self (KRemoveIfEquals k v) = amap KvBool (cache_remove_if_equals net aff self k v)"
| "kv_perform net aff self KSize = amap KvSize (cache_get_size net self)"
| "kv_perform net aff self (KRemoveKeys ks) = amap (\<lambda>_. KvUnit) (cache_remove_keys net self ks)"
| "kv_perform net aff self KRemoveAll = amap (\<lambda>_. KvUnit) (cache_remove_all net self)"

section \<open>The server\<close>

text \<open>What the server reads in a request behind the cache info, and what it answers.\<close>

definition parsed :: "'a reader \<Rightarrow> ('a \<Rightarrow> 'b) \<Rightarrow> bytes \<Rightarrow> 'b option" where
  "parsed r f bs = (case r bs of Ok x _ \<Rightarrow> Some (f x) | _ \<Rightarrow> None)"

definition pair_of :: "('k, 'v) cache_core \<Rightarrow> ('k \<times> 'v) reader" where
  "pair_of self = rbind (element_of (core_rk self)) (\<lambda>k. rbind (element_of (core_rv self)) (\<lambda>v. ret (k, v)))"

definition triple_of :: "('k, 'v) cache_core \<Rightarrow> ('k \<times> 'v \<times> 'v) reader" where
  "triple_of self = rbind (element_of (core_rk self)) (\<lambda>k. rbind (element_of (core_rv self)) (\<lambda>v. rbind (element_of (core_rv self)) (\<lambda>w. ret (k, v, w))))"

definition list_of :: "'a reader \<Rightarrow> 'a list reader" where
  "list_of r = rbind read_i32 (\<lambda>n. repeat_read (i32_range n) r)"

definition request_op :: "('k, 'v) cache_core \<Rightarrow> op_code \<Rightarrow> bytes \<Rightarrow> ('k, 'v) kv_op option" where
  "request_op self op = (let key = parsed (element_of (core_rk self)); pair = (\<lambda>f. parsed (pair_of self) (\<lambda>(k, v). f k v));
      some_keys = parsed (list_of (element_of (core_rk self)))
    in case op of
      OpCacheGet \<Rightarrow> key KGet
    | OpCacheGetAll \<Rightarrow> some_keys KGetAll
    | OpCachePut \<Rightarrow> pair KPut
    | OpCachePutAll \<Rightarrow> parsed (list_of (pair_of self)) KPutAll
    | OpCacheContainsKey \<Rightarrow> key KContainsKey
    | OpCacheContainsKeys \<Rightarrow> some_keys KContainsKeys
    | OpCacheGetAndPut \<Rightarrow> pair KGetAndPut
    | OpCacheGetAndReplace \<Rightarrow> pair KGetAndReplace
    | OpCacheGetAndRemove \<Rightarrow> key KGetAndRemove
    | OpCachePutIfAbsent \<Rightarrow> pair KPutIfAbsent
    | OpCacheGetAndPutIfAbsent \<Rightarrow> pair KGetAndPutIfAbsent
    | OpCacheReplace \<Rightarrow> pair KReplace
    | OpCacheReplaceIfEquals \<Rightarrow> parsed (triple_of self) (\<lambda>(k, old, new). KReplaceIfEquals k old new)
    | OpCacheClear \<Rightarrow> (\<lambda>bs. Some KClear)
    | OpCacheClearKey \<Rightarrow> key KClearKey
    | OpCacheClearKeys \<Rightarrow> some_keys KClearKeys
    | OpCacheRemoveKey \<Rightarrow> key KRemoveKey
    | OpCacheRemoveIfEquals \<Rightarrow> pair KRemoveIfEquals
    | OpCacheGetSize \<Rightarrow> (\<lambda>bs. if bs = write_i32 0 then Some KSize else None)
    | OpCacheRemoveKeys \<Rightarrow> some_keys KRemoveKeys
    | OpCacheRemoveAll \<Rightarrow> (\<lambda>bs. Some KRemoveAll)
    | _ \<Rightarrow> (\<lambda>bs. None))"

definition key_bytes :: "('k, 'v) cache_core \<Rightarrow> 'k \<Rightarrow> bytes" where
  "key_bytes self k = (case run (core_wk self k) of Inr bs \<Rightarrow> bs | Inl _ \<Rightarrow> [])"

definition value_bytes :: "('k, 'v) cache_core \<Rightarrow> 'v \<Rightarrow> bytes" where
  "value_bytes self v = (case run (core_wv self v) of Inr bs \<Rightarrow> bs | Inl _ \<Rightarrow> [])"

definition opt_bytes :: "('a \<Rightarrow> bytes) \<Rightarrow> 'a option \<Rightarrow> bytes" where
  "opt_bytes enc v = (case v of None \<Rightarrow> write_null | Some x \<Rightarrow> enc x)"

fun kv_reply :: "('k, 'v) cache_core \<Rightarrow> ('k, 'v) kv_value \<Rightarrow> bytes" where
  "kv_reply self KvUnit = []"
| "kv_reply self (KvBool b) = write_bool b"
| "kv_reply self (KvValue v) = opt_bytes (value_bytes self) v"
| "kv_reply self (KvRows rows) = write_i32 (i32_of_usize (length rows)) @
    concat (map (\<lambda>row. opt_bytes (key_bytes self) (fst row) @ opt_bytes (value_bytes self) (snd row)) rows)"
| "kv_reply self (KvSize n) = write_i64 n"

definition cache_service :: "('k, 'v) cache_core \<Rightarrow> ('k \<rightharpoonup> 'v) service" where
  "cache_service self op payload m = Option.bind (named_tail (write_cache_info (cache_info_of self False)) payload) (\<lambda>tail.
    map_option (\<lambda>kop. case map_step kop m of (v, m') \<Rightarrow> (Success, kv_reply self v, m')) (request_op self op tail))"

text \<open>Keys and values that their types write and read back, and a null that is read as none.\<close>

definition good_key :: "('k, 'v) cache_core \<Rightarrow> 'k \<Rightarrow> bool" where
  "good_key self k \<longleftrightarrow> (\<exists>bs. run (core_wk self k) = Inr bs \<and> (\<forall>s. core_rk self (bs @ s) = Ok (Some k) s))"

definition good_value :: "('k, 'v) cache_core \<Rightarrow> 'v \<Rightarrow> bool" where
  "good_value self v \<longleftrightarrow> (\<exists>bs. run (core_wv self v) = Inr bs \<and> (\<forall>s. core_rv self (bs @ s) = Ok (Some v) s))"

definition good_map :: "('k, 'v) cache_core \<Rightarrow> ('k \<rightharpoonup> 'v) \<Rightarrow> bool" where
  "good_map self m \<longleftrightarrow> (\<forall>v \<in> ran m. good_value self v)"

fun op_keys :: "('k, 'v) kv_op \<Rightarrow> 'k list" where
  "op_keys (KGetAll ks) = ks"
| "op_keys (KPutAll pairs) = map fst pairs"
| "op_keys (KContainsKeys ks) = ks"
| "op_keys (KClearKeys ks) = ks"
| "op_keys (KRemoveKeys ks) = ks"
| "op_keys (KGet k) = [k]" | "op_keys (KPut k v) = [k]" | "op_keys (KContainsKey k) = [k]" | "op_keys (KGetAndPut k v) = [k]"
| "op_keys (KGetAndReplace k v) = [k]" | "op_keys (KGetAndRemove k) = [k]" | "op_keys (KPutIfAbsent k v) = [k]"
| "op_keys (KGetAndPutIfAbsent k v) = [k]" | "op_keys (KReplace k v) = [k]" | "op_keys (KReplaceIfEquals k v w) = [k]"
| "op_keys (KClearKey k) = [k]" | "op_keys (KRemoveKey k) = [k]" | "op_keys (KRemoveIfEquals k v) = [k]"
| "op_keys KClear = []" | "op_keys KSize = []" | "op_keys KRemoveAll = []"

fun op_values :: "('k, 'v) kv_op \<Rightarrow> 'v list" where
  "op_values (KPutAll pairs) = map snd pairs"
| "op_values (KPut k v) = [v]" | "op_values (KGetAndPut k v) = [v]" | "op_values (KGetAndReplace k v) = [v]" | "op_values (KPutIfAbsent k v) = [v]"
| "op_values (KGetAndPutIfAbsent k v) = [v]" | "op_values (KReplace k v) = [v]" | "op_values (KReplaceIfEquals k v w) = [v, w]"
| "op_values (KRemoveIfEquals k v) = [v]"
| "op_values _ = []"

definition good_op :: "('k, 'v) cache_core \<Rightarrow> ('k, 'v) kv_op \<Rightarrow> bool" where
  "good_op self op \<longleftrightarrow> list_all (good_key self) (op_keys op) \<and> list_all (good_value self) (op_values op) \<and> length (op_keys op) < 2 ^ 31"

section \<open>Requests and answers\<close>

lemma good_keyD: "good_key self k \<Longrightarrow> run (core_wk self k) = Inr (key_bytes self k)" "good_key self k \<Longrightarrow> core_rk self (key_bytes self k @ s) = Ok (Some k) s"
  by (auto simp: good_key_def key_bytes_def)

lemma good_valueD: "good_value self v \<Longrightarrow> run (core_wv self v) = Inr (value_bytes self v)"
    "good_value self v \<Longrightarrow> core_rv self (value_bytes self v @ s) = Ok (Some v) s"
  by (auto simp: good_value_def value_bytes_def)

lemma elements_back:
  "good_key self k \<Longrightarrow> element_of (core_rk self) (key_bytes self k @ s) = Ok k s"
  "good_value self v \<Longrightarrow> element_of (core_rv self) (value_bytes self v @ s) = Ok v s"
  by (simp_all add: element_of_def rbind_Ok good_keyD(2) good_valueD(2))

lemma pair_back: "good_key self k \<Longrightarrow> good_value self v \<Longrightarrow> pair_of self (key_bytes self k @ value_bytes self v @ s) = Ok (k, v) s"
  by (simp add: pair_of_def rbind_Ok elements_back)

lemma triple_back: "good_key self k \<Longrightarrow> good_value self v \<Longrightarrow> good_value self w \<Longrightarrow>
    triple_of self (key_bytes self k @ value_bytes self v @ value_bytes self w @ s) = Ok (k, v, w) s"
  by (simp add: triple_of_def rbind_Ok elements_back)

lemma list_back:
  assumes "\<And>x t. x \<in> set xs \<Longrightarrow> r (enc x @ t) = Ok x t" and "length xs < 2 ^ 31"
  shows "list_of r (write_i32 (i32_of_usize (length xs)) @ concat (map enc xs)) = Ok xs []"
  using repeat_read_concat [of xs r enc "\<lambda>x. x" "[]"] assms by (simp add: list_of_def rbind_Ok len_casts)

lemma parsedI: "r bs = Ok x rest \<Longrightarrow> parsed r f bs = Some (f x)"
  by (simp add: parsed_def)

definition keys_bytes :: "('k, 'v) cache_core \<Rightarrow> 'k list \<Rightarrow> bytes" where
  "keys_bytes self ks = write_i32 (i32_of_usize (length ks)) @ concat (map (key_bytes self) ks)"

definition pairs_bytes :: "('k, 'v) cache_core \<Rightarrow> ('k \<times> 'v) list \<Rightarrow> bytes" where
  "pairs_bytes self ps = write_i32 (i32_of_usize (length ps)) @ concat (map (\<lambda>p. key_bytes self (fst p) @ value_bytes self (snd p)) ps)"

lemma parsed_back:
  "good_key self k \<Longrightarrow> parsed (element_of (core_rk self)) f (key_bytes self k) = Some (f k)"
  "good_key self k \<Longrightarrow> good_value self v \<Longrightarrow> parsed (pair_of self) g (key_bytes self k @ value_bytes self v) = Some (g (k, v))"
  "good_key self k \<Longrightarrow> good_value self v \<Longrightarrow> good_value self w \<Longrightarrow>
    parsed (triple_of self) h (key_bytes self k @ value_bytes self v @ value_bytes self w) = Some (h (k, v, w))"
  "list_all (good_key self) ks \<Longrightarrow> length ks < 2 ^ 31 \<Longrightarrow> parsed (list_of (element_of (core_rk self))) f' (keys_bytes self ks) = Some (f' ks)"
  "list_all (good_key self) (map fst ps) \<Longrightarrow> list_all (good_value self) (map snd ps) \<Longrightarrow> length ps < 2 ^ 31 \<Longrightarrow>
    parsed (list_of (pair_of self)) g' (pairs_bytes self ps) = Some (g' ps)"
  unfolding keys_bytes_def pairs_bytes_def
      apply (rule parsedI, use elements_back(1) [of self k "[]"] in simp)
     apply (rule parsedI, use pair_back [of self k v "[]"] in simp)
    apply (rule parsedI, use triple_back [of self k v w "[]"] in simp)
   apply (rule parsedI, rule list_back, simp_all add: list_all_iff elements_back)
  apply (rule parsedI, rule list_back, simp_all add: pair_back)
  done

lemma payloads:
  assumes "core_announces self"
  shows "run (prepared_write self (CrGet info kb)) = Inr (write_cache_info info @ kb)"
    "run (prepared_write self (CrContainsKey info kb)) = Inr (write_cache_info info @ kb)"
    "run (prepared_write self (CrGetAndRemove info kb)) = Inr (write_cache_info info @ kb)"
    "run (prepared_write self (CrClearKey info kb)) = Inr (write_cache_info info @ kb)"
    "run (prepared_write self (CrRemoveKey info kb)) = Inr (write_cache_info info @ kb)"
    "run (plain_write self (CrClear info)) = Inr (write_cache_info info)"
    "run (plain_write self (CrRemoveAll info)) = Inr (write_cache_info info)"
    "run (plain_write self (CrGetSize info [])) = Inr (write_cache_info info @ write_i32 (i32_of_usize 0))"
  by (simp_all add: prepared_write_def plain_write_def write_key_req_def steady_intros)

lemma value_payloads:
  assumes "core_announces self" and "good_value self v"
  shows "run (prepared_write self (CrPut info kb v)) = Inr (write_cache_info info @ kb @ value_bytes self v)"
    "run (prepared_write self (CrGetAndPut info kb v)) = Inr (write_cache_info info @ kb @ value_bytes self v)"
    "run (prepared_write self (CrGetAndReplace info kb v)) = Inr (write_cache_info info @ kb @ value_bytes self v)"
    "run (prepared_write self (CrPutIfAbsent info kb v)) = Inr (write_cache_info info @ kb @ value_bytes self v)"
    "run (prepared_write self (CrGetAndPutIfAbsent info kb v)) = Inr (write_cache_info info @ kb @ value_bytes self v)"
    "run (prepared_write self (CrReplace info kb v)) = Inr (write_cache_info info @ kb @ value_bytes self v)"
    "run (prepared_write self (CrRemoveIfEquals info kb v)) = Inr (write_cache_info info @ kb @ value_bytes self v)"
    "good_value self w \<Longrightarrow> run (prepared_write self (CrReplaceIfEquals info kb v w)) = Inr (write_cache_info info @ kb @ value_bytes self v @ value_bytes self w)"
proof -
  have "steady (core_wv self v)" for v using assms(1) by (simp add: core_announces_def announced_def)
  note facts = this good_valueD(1) [OF assms(2)] good_valueD(1) [of self w]
  show "run (prepared_write self (CrPut info kb v)) = Inr (write_cache_info info @ kb @ value_bytes self v)"
    "run (prepared_write self (CrGetAndPut info kb v)) = Inr (write_cache_info info @ kb @ value_bytes self v)"
    "run (prepared_write self (CrGetAndReplace info kb v)) = Inr (write_cache_info info @ kb @ value_bytes self v)"
    "run (prepared_write self (CrPutIfAbsent info kb v)) = Inr (write_cache_info info @ kb @ value_bytes self v)"
    "run (prepared_write self (CrGetAndPutIfAbsent info kb v)) = Inr (write_cache_info info @ kb @ value_bytes self v)"
    "run (prepared_write self (CrReplace info kb v)) = Inr (write_cache_info info @ kb @ value_bytes self v)"
    "run (prepared_write self (CrRemoveIfEquals info kb v)) = Inr (write_cache_info info @ kb @ value_bytes self v)"
    "good_value self w \<Longrightarrow> run (prepared_write self (CrReplaceIfEquals info kb v w)) = Inr (write_cache_info info @ kb @ value_bytes self v @ value_bytes self w)"
    by (simp_all add: prepared_write_def write_key_value_req_def steady_intros facts)
qed

lemma keys_payloads:
  assumes "core_announces self" and "list_all (good_key self) ks"
  shows "run (plain_write self (CrGetAll info ks)) = Inr (write_cache_info info @ keys_bytes self ks)"
    "run (plain_write self (CrContainsKeys info ks)) = Inr (write_cache_info info @ keys_bytes self ks)"
    "run (plain_write self (CrClearKeys info ks)) = Inr (write_cache_info info @ keys_bytes self ks)"
    "run (plain_write self (CrRemoveKeys info ks)) = Inr (write_cache_info info @ keys_bytes self ks)"
proof -
  have steady: "steady (core_wk self k)" for k using assms(1) by (simp add: core_announces_def announced_def)
  have "run (wseq (map (core_wk self) ks)) = Inr (concat (map (key_bytes self) ks))"
    using assms(2) by (intro run_wseq_map steady) (simp add: list_all_iff good_keyD(1))
  then show "run (plain_write self (CrGetAll info ks)) = Inr (write_cache_info info @ keys_bytes self ks)"
    "run (plain_write self (CrContainsKeys info ks)) = Inr (write_cache_info info @ keys_bytes self ks)"
    "run (plain_write self (CrClearKeys info ks)) = Inr (write_cache_info info @ keys_bytes self ks)"
    "run (plain_write self (CrRemoveKeys info ks)) = Inr (write_cache_info info @ keys_bytes self ks)"
    by (simp_all add: plain_write_def write_keys_req_def steady_wseq_map steady keys_bytes_def)
qed

lemma pairs_payload:
  assumes "core_announces self" and "list_all (good_key self) (map fst ps)" and "list_all (good_value self) (map snd ps)"
  shows "run (plain_write self (CrPutAll info ps)) = Inr (write_cache_info info @ pairs_bytes self ps)"
proof -
  have steady: "steady (core_wk self k)" "steady (core_wv self v)" for k v using assms(1) by (simp_all add: core_announces_def announced_def)
  then have steady_pair: "steady (write_pair (core_wk self) (core_wv self) p)" for p by (simp add: write_pair_def steady_intros)
  have "run (write_pair (core_wk self) (core_wv self) p) = Inr (key_bytes self (fst p) @ value_bytes self (snd p))" if "p \<in> set ps" for p
    using that assms(2,3) steady by (auto simp: write_pair_def list_all_iff good_keyD(1) good_valueD(1))
  then have "run (wseq (map (write_pair (core_wk self) (core_wv self)) ps)) = Inr (concat (map (\<lambda>p. key_bytes self (fst p) @ value_bytes self (snd p)) ps))"
    by (intro run_wseq_map steady_pair)
  then show ?thesis by (simp add: plain_write_def steady_wseq_map steady_pair pairs_bytes_def)
qed

section \<open>Refinement\<close>

lemma map_tx_err_none: "core_tx self = None \<Longrightarrow> map_tx_err self m = m"
  by (rule ext) (auto simp: map_tx_err_def split: prod.split result.split)

lemma amap_result: "m s = (Done x, s') \<Longrightarrow> amap f m s = (Done (f x), s')"
  by (simp add: amap_def abind_def)

locale cache_server = stateful_server net "cache_service self" state_of
  for net :: transport and self :: "('k, 'v) cache_core" and state_of :: "call list \<Rightarrow> ('k \<rightharpoonup> 'v)" +
  assumes announces: "core_announces self" and no_tx: "core_tx self = None"
    and null_read: "core_rv self (write_null @ rest) = Ok None rest"
begin

lemma usable_here: "usable self s"
  by (simp add: usable_def no_tx)

lemma service_answer:
  assumes "request_op self op tail = Some kop" and "map_step kop m = (v, m')"
  shows "cache_service self op (write_cache_info (cache_info_of self False) @ tail) m = Some (Success, kv_reply self v, m')"
  by (simp add: cache_service_def assms)

lemma plain_served:
  assumes "run (plain_write self req) = Inr (write_cache_info (cache_info_of self False) @ tail)" and "request_op self op tail = Some kop"
    and "map_step kop (state_of (calls s)) = (v, m')"
  shows "rd (kv_reply self v) = Ok x rest \<Longrightarrow>
      \<exists>s'. send_and_read_with_route net rd op (plain_write self req) (plain_size self req) route s = (Done x, s') \<and> state_of (calls s') = m'"
    and "\<exists>s'. send_with_route net op (plain_write self req) (plain_size self req) route s = (Done (), s') \<and> state_of (calls s') = m'"
  using read_served [where s = s and rd = rd and route = route, OF sized_requests(2) [OF announces] assms(1) service_answer [OF assms(2,3)]]
    send_served [where s = s and route = route, OF sized_requests(2) [OF announces] assms(1) service_answer [OF assms(2,3)]]
  by simp_all

lemma prepared_served:
  assumes "run (prepared_write self req) = Inr (write_cache_info (cache_info_of self False) @ tail)" and "request_op self op tail = Some kop"
    and "map_step kop (state_of (calls s)) = (v, m')"
  shows "rd (kv_reply self v) = Ok x rest \<Longrightarrow>
      \<exists>s'. send_and_read_with_route net rd op (prepared_write self req) (prepared_size self req) route s = (Done x, s') \<and> state_of (calls s') = m'"
    and "\<exists>s'. send_with_route net op (prepared_write self req) (prepared_size self req) route s = (Done (), s') \<and> state_of (calls s') = m'"
  using read_served [where s = s and rd = rd and route = route, OF sized_requests(1) [OF announces] assms(1) service_answer [OF assms(2,3)]]
    send_served [where s = s and route = route, OF sized_requests(1) [OF announces] assms(1) service_answer [OF assms(2,3)]]
  by simp_all

lemma key_read_served:
  assumes "good_key self key"
    and "run (prepared_write self (req (cache_info_of self False) (key_bytes self key))) = Inr (write_cache_info (cache_info_of self False) @ tail)"
    and "request_op self op tail = Some kop" and "map_step kop (state_of (calls s)) = (v, m')" and "rd (kv_reply self v) = Ok x rest"
  shows "\<exists>s'. amap f (key_read net aff self rd op key primary req) s = (Done (f x), s') \<and> state_of (calls s') = m'"
proof -
  have "key_read net aff self rd op key primary req s = send_and_read_with_route net rd op
      (prepared_write self (req (cache_info_of self False) (key_bytes self key)))
      (prepared_size self (req (cache_info_of self False) (key_bytes self key))) (key_route aff self (key_bytes self key) primary) s"
    using prepare_announced [OF announces usable_here good_keyD(1) [OF assms(1)]]
    by (simp add: key_read_def abind_def ensure_tx_cache_ops_allowed_def no_tx map_tx_err_none Let_def)
  with prepared_served(1) [where rd = rd and x = x and rest = rest, OF assms(2-5)] show ?thesis by (metis amap_result)
qed

lemma bulk_served:
  assumes "run (plain_write self (req (cache_info_of self False))) = Inr (write_cache_info (cache_info_of self False) @ tail)"
    and "request_op self op tail = Some kop" and "map_step kop (state_of (calls s)) = (v, m')"
  shows "rd (kv_reply self v) = Ok x rest \<Longrightarrow>
      \<exists>s'. amap f (bulk_read net self rd op req) s = (Done (f x), s') \<and> state_of (calls s') = m'"
    and "\<exists>s'. amap g (bulk_send net self op req) s = (Done (g ()), s') \<and> state_of (calls s') = m'"
proof -
  have "bulk_read net self rd op req s = send_and_read_with_route net rd op (plain_write self (req (cache_info_of self False)))
      (plain_size self (req (cache_info_of self False))) route_default s"
    "bulk_send net self op req s = send_with_route net op (plain_write self (req (cache_info_of self False)))
      (plain_size self (req (cache_info_of self False))) route_default s"
    by (simp_all add: bulk_read_def bulk_send_def abind_def ensure_tx_cache_ops_allowed_def tx_route_def no_tx map_tx_err_none Let_def)
  then show "rd (kv_reply self v) = Ok x rest \<Longrightarrow>
      \<exists>s'. amap f (bulk_read net self rd op req) s = (Done (f x), s') \<and> state_of (calls s') = m'"
    and "\<exists>s'. amap g (bulk_send net self op req) s = (Done (g ()), s') \<and> state_of (calls s') = m'"
    using plain_served(1) [where rd = rd and x = x and rest = rest, OF assms] plain_served(2) [OF assms] by (metis amap_result)+
qed

lemma value_back: "good_map self m \<Longrightarrow> cache_data_object_read (core_rv self) (kv_reply self (KvValue (m k))) = Ok (m k) []"
  using null_read [of "[]"] good_valueD(2) [of self _ "[]"]
  by (cases "m k") (auto simp: cache_data_object_read_def opt_bytes_def good_map_def ran_def rbind_Ok)

lemma flag_back: "cache_bool_read (kv_reply self (KvBool b)) = Ok b []" "cache_size_read (kv_reply self (KvSize n)) = Ok n []"
  by (simp_all add: cache_bool_read_def cache_size_read_def rbind_Ok bool_back i64_back)

lemma rows_back:
  assumes "good_map self m" and "list_all (good_key self) ks" and "length ks < 2 ^ 31"
  shows "cache_pairs_read (core_rk self) (core_rv self) (kv_reply self (KvRows (found m ks))) = Ok (found m ks) []"
proof -
  have row: "read_row (core_rk self) (core_rv self) (opt_bytes (key_bytes self) (fst row) @ opt_bytes (value_bytes self) (snd row) @ t) = Ok row t"
    if "row \<in> set (found m ks)" for row t
    using that assms(1,2)
    by (auto simp: found_def list_all_iff read_row_def opt_bytes_def rbind_Ok good_keyD(2) good_valueD(2) good_map_def ran_def)
  have "length (found m ks) \<le> length ks"
    unfolding found_def by (metis length_filter_le length_map length_remdups_leq order_trans)
  then have "length (found m ks) < 2 ^ 31" using assms(3) by simp
  moreover have "repeat_read (length (found m ks)) (read_row (core_rk self) (core_rv self))
      (concat (map (\<lambda>row. opt_bytes (key_bytes self) (fst row) @ opt_bytes (value_bytes self) (snd row)) (found m ks)) @ []) = Ok (map (\<lambda>x. x) (found m ks)) []"
    by (rule repeat_read_concat) (simp add: row)
  ultimately show ?thesis by (simp add: cache_pairs_read_def rbind_Ok len_casts)
qed

lemma key_sent:
  assumes "good_key self key"
    and "run (prepared_write self (req (cache_info_of self False) (key_bytes self key))) = Inr (write_cache_info (cache_info_of self False) @ tail)"
    and "request_op self op tail = Some kop" and "map_step kop (state_of (calls s)) = (v, m')"
  shows "\<exists>s'. amap f (abind (prepare_key_route aff self key primary) (\<lambda>(prepared_key, route).
      send_with_route net op (prepared_write self (req (cache_info_of self False) prepared_key))
        (prepared_size self (req (cache_info_of self False) prepared_key)) route)) s = (Done (f ()), s') \<and> state_of (calls s') = m'"
  using prepared_served(2) [OF assms(2-4), of "key_route aff self (key_bytes self key) primary"]
    prepare_announced [OF announces usable_here good_keyD(1) [OF assms(1)], of aff primary s]
  by (auto simp: amap_def abind_def)

lemma put_form: "cache_put net aff self key val = abind (prepare_key_route aff self key True) (\<lambda>(prepared_key, route).
    send_with_route net OpCachePut (prepared_write self (CrPut (cache_info_of self False) prepared_key val))
      (prepared_size self (CrPut (cache_info_of self False) prepared_key val)) route)"
  by (rule ext) (simp add: cache_put_def ensure_tx_cache_ops_allowed_def no_tx abind_def map_tx_err_none Let_def cong: if_cong)

lemma clear_forms:
  "cache_clear_key net aff self key = abind (prepare_key_route aff self key True) (\<lambda>(prepared_key, route).
    send_with_route net OpCacheClearKey (prepared_write self (CrClearKey (cache_info_of self False) prepared_key))
      (prepared_size self (CrClearKey (cache_info_of self False) prepared_key)) route)"
  "cache_clear net self = send_with_route net OpCacheClear (plain_write self (CrClear (cache_info_of self False)))
    (plain_size self (CrClear (cache_info_of self False))) route_default"
  "cache_clear_keys net self ks = send_with_route net OpCacheClearKeys (plain_write self (CrClearKeys (cache_info_of self False) ks))
    (plain_size self (CrClearKeys (cache_info_of self False) ks)) route_default"
  by (rule ext, simp add: cache_clear_key_def cache_clear_def cache_clear_keys_def core_ensure_clear_allowed_def no_tx abind_def Let_def)+

lemma plain_sent:
  assumes "run (plain_write self req) = Inr (write_cache_info (cache_info_of self False) @ tail)" and "request_op self op tail = Some kop"
    and "map_step kop (state_of (calls s)) = (v, m')"
  shows "\<exists>s'. amap f (send_with_route net op (plain_write self req) (plain_size self req) route_default) s = (Done (f ()), s') \<and> state_of (calls s') = m'"
  using plain_served(2) [OF assms] by (metis amap_result)

definition kv_done :: "('k, 'v) kv_op \<Rightarrow> (tx_session, ('k, 'v) kv_value) act \<Rightarrow> tx_session \<Rightarrow> bool" where
  "kv_done op act s \<longleftrightarrow> (\<exists>s'. act s = (Done (fst (map_step op (state_of (calls s)))), s') \<and> state_of (calls s') = snd (map_step op (state_of (calls s))))"

lemma keyed_steps:
  assumes "good_key self k" and "good_map self (state_of (calls s))"
  shows "kv_done (KGet k) (kv_perform net aff self (KGet k)) s" "kv_done (KContainsKey k) (kv_perform net aff self (KContainsKey k)) s"
    "kv_done (KGetAndRemove k) (kv_perform net aff self (KGetAndRemove k)) s" "kv_done (KRemoveKey k) (kv_perform net aff self (KRemoveKey k)) s"
    "kv_done (KClearKey k) (kv_perform net aff self (KClearKey k)) s"
  unfolding kv_done_def kv_perform.simps cache_get_def cache_contains_key_def cache_get_and_remove_def cache_remove_key_def clear_forms map_step.simps fst_conv snd_conv
  by (rule key_read_served key_sent, rule assms(1), rule payloads [OF announces], simp add: request_op_def parsed_back(1) [OF assms(1)],
      rule map_step.simps; rule value_back [OF assms(2)] flag_back)+

lemma valued_steps:
  assumes "good_key self k" and "good_value self v" and "good_map self (state_of (calls s))"
  shows "kv_done (KGetAndPut k v) (kv_perform net aff self (KGetAndPut k v)) s"
    "kv_done (KGetAndReplace k v) (kv_perform net aff self (KGetAndReplace k v)) s" "kv_done (KPutIfAbsent k v) (kv_perform net aff self (KPutIfAbsent k v)) s"
    "kv_done (KGetAndPutIfAbsent k v) (kv_perform net aff self (KGetAndPutIfAbsent k v)) s" "kv_done (KReplace k v) (kv_perform net aff self (KReplace k v)) s"
    "kv_done (KRemoveIfEquals k v) (kv_perform net aff self (KRemoveIfEquals k v)) s" "kv_done (KPut k v) (kv_perform net aff self (KPut k v)) s"
  unfolding kv_done_def kv_perform.simps cache_get_and_put_def cache_get_and_replace_def cache_put_if_absent_def cache_get_and_put_if_absent_def
    cache_replace_def cache_remove_if_equals_def put_form map_step.simps fst_conv snd_conv
  by (rule key_read_served key_sent, rule assms(1), rule value_payloads [OF announces assms(2)],
      simp add: request_op_def parsed_back(2) [OF assms(1,2)], rule map_step.simps; rule value_back [OF assms(3)] flag_back)+

lemma replace_if_equals_step:
  assumes "good_key self k" and "good_value self v" and "good_value self w"
  shows "kv_done (KReplaceIfEquals k v w) (kv_perform net aff self (KReplaceIfEquals k v w)) s"
  unfolding kv_done_def kv_perform.simps cache_replace_if_equals_def map_step.simps fst_conv snd_conv
  by (rule key_read_served, rule assms(1), rule value_payloads(8) [OF announces assms(2,3)],
      simp add: request_op_def parsed_back(3) [OF assms], rule map_step.simps, rule flag_back)

lemma bulk_steps:
  assumes "list_all (good_key self) ks" and "length ks < 2 ^ 31" and "good_map self (state_of (calls s))"
  shows "kv_done (KGetAll ks) (kv_perform net aff self (KGetAll ks)) s" "kv_done (KContainsKeys ks) (kv_perform net aff self (KContainsKeys ks)) s"
    "kv_done (KRemoveKeys ks) (kv_perform net aff self (KRemoveKeys ks)) s" "kv_done (KClearKeys ks) (kv_perform net aff self (KClearKeys ks)) s"
  unfolding kv_done_def kv_perform.simps cache_get_all_def cache_contains_keys_def cache_remove_keys_def clear_forms map_step.simps fst_conv snd_conv
  by (rule bulk_served plain_sent, rule keys_payloads [OF announces assms(1)], simp add: request_op_def parsed_back(4) [OF assms(1,2)],
      rule map_step.simps; rule rows_back [OF assms(3,1,2)] flag_back)+

lemma put_all_step:
  assumes "list_all (good_key self) (map fst ps)" and "list_all (good_value self) (map snd ps)" and "length ps < 2 ^ 31"
  shows "kv_done (KPutAll ps) (kv_perform net aff self (KPutAll ps)) s"
  unfolding kv_done_def kv_perform.simps cache_put_all_def map_step.simps fst_conv snd_conv
  by (rule bulk_served, rule pairs_payload [OF announces assms(1,2)], simp add: request_op_def parsed_back(5) [OF assms], rule map_step.simps)

lemma whole_steps:
  "kv_done KClear (kv_perform net aff self KClear) s" "kv_done KRemoveAll (kv_perform net aff self KRemoveAll) s"
  "kv_done KSize (kv_perform net aff self KSize) s"
  unfolding kv_done_def kv_perform.simps cache_remove_all_def cache_get_size_def clear_forms map_step.simps fst_conv snd_conv
    apply (rule plain_sent [where tail = "[]"], simp add: payloads [OF announces], simp add: request_op_def, rule map_step.simps)
   apply (rule bulk_served [where tail = "[]"], simp add: payloads [OF announces], simp add: request_op_def, rule map_step.simps)
  apply (rule bulk_served, rule payloads [OF announces], simp add: request_op_def i32_of_usize_def, rule map_step.simps, rule flag_back)
  done

lemma kv_step:
  assumes "good_op self op" and "good_map self (state_of (calls s))"
  shows "kv_done op (kv_perform net aff self op) s"
  using assms by (cases op)
    (auto simp: good_op_def simp del: kv_perform.simps intro: keyed_steps valued_steps replace_if_equals_step bulk_steps put_all_step whole_steps)

end

lemma good_map_step:
  assumes "good_op self op" and "good_map self m"
  shows "good_map self (snd (map_step op m))"
proof -
  have put: "good_map self (m(k \<mapsto> v))" if "good_value self v" for k v using that assms(2) by (auto simp: good_map_def ran_def)
  have drop: "good_map self (m(k := None))" for k using assms(2) by (auto simp: good_map_def ran_def)
  have keep: "good_map self (m |` A)" for A using assms(2) by (auto simp: good_map_def ran_def restrict_map_def split: if_splits)
  have all: "good_map self (m ++ map_of (rev ps))" if "list_all (good_value self) (map snd ps)" for ps
    unfolding good_map_def
  proof
    fix v
    assume "v \<in> ran (m ++ map_of (rev ps))"
    then obtain k where "map_of (rev ps) k = Some v \<or> m k = Some v" by (auto simp: ran_def)
    then have "(k, v) \<in> set ps \<or> m k = Some v" by (auto dest: map_of_SomeD)
    then show "good_value self v" using that assms(2) by (force simp: good_map_def ran_def list_all_iff)
  qed
  show ?thesis using assms put drop keep all by (cases op) (auto simp: good_op_def good_map_def)
qed

lemma trace_refines_inv:
  assumes "\<And>x s. good x \<Longrightarrow> okay (view s) \<Longrightarrow> fst (f x s) = fst (g x (view s)) \<and> view (snd (f x s)) = snd (g x (view s)) \<and> okay (snd (g x (view s)))"
    and "list_all good xs" and "okay (view s)"
  shows "fst (trace f xs s) = fst (trace g xs (view s)) \<and> view (snd (trace f xs s)) = snd (trace g xs (view s))"
  using assms(2,3)
proof (induction xs arbitrary: s)
  case (Cons x xs)
  then show ?case using assms(1) [of x s] Cons.IH [of "snd (f x s)"] by (auto split: prod.split simp: prod_eq_iff)
qed simp

section \<open>Properties\<close>

text \<open>C3: A cache is a map. For a server that keeps the entries of the cache in a map, outside a transaction, and
  with keys and values that their types write and read back: any sequence of operations on the entries (reads and
  writes of one key or of many, the conditional ones, removals, clears and the size) returns, operation by
  operation, what the map returns, and leaves the server with the map it should have.\<close>
theorem cache_is_map:
  assumes "stateful_server net (cache_service self) state_of" and "core_announces self" and "core_tx self = None"
    and "\<And>rest. core_rv self (write_null @ rest) = Ok None rest"
    and "list_all (good_op self) ops" and "good_map self (state_of (calls s))"
  shows "let done_ops = trace (kv_perform net aff self) ops s;
      spec = trace (\<lambda>op m. (Done (fst (map_step op m)), snd (map_step op m))) ops (state_of (calls s))
    in fst done_ops = fst spec \<and> state_of (calls (snd done_ops)) = snd spec"
proof -
  have server: "cache_server net self state_of" using assms(1-4) by (simp add: cache_server_def cache_server_axioms_def)
  have "fst (kv_perform net aff self op s) = Done (fst (map_step op (state_of (calls s)))) \<and>
      state_of (calls (snd (kv_perform net aff self op s))) = snd (map_step op (state_of (calls s))) \<and>
      good_map self (snd (map_step op (state_of (calls s))))" if "good_op self op" "good_map self (state_of (calls s))" for op s
    using cache_server.kv_step [OF server that, of aff] good_map_step [OF that] by (auto simp: cache_server.kv_done_def [OF server])
  then show ?thesis
    using trace_refines_inv [of "good_op self" "good_map self" "\<lambda>s. state_of (calls s)" "kv_perform net aff self"
        "\<lambda>op m. (Done (fst (map_step op m)), snd (map_step op m))" ops s, OF _ assms(5,6)] by (simp add: Let_def)
qed

lemma sample_good: "good_key (sample_core None) k" "ok_string v \<Longrightarrow> good_value (sample_core None) v"
  by (auto simp: good_key_def good_value_def sample_core_def w_i32.read_write w_string.read_write)

lemma sample_null: "core_rv (sample_core None) (write_null @ rest) = Ok None rest"
  using w_string.item_read_write [of None rest] by (simp add: sample_core_def opt_item_write_def write_null_def)

interpretation sample_cache: cache_server "replay_net (cache_service (sample_core None)) init" "sample_core None"
    "replay_state (cache_service (sample_core None)) init" for init
  by unfold_locales (simp_all add: sample_core_announces sample_null, simp add: sample_core_def)

theorem cache_is_map_witness:
  "fst (trace (kv_perform (replay_net (cache_service (sample_core None)) Map.empty) (\<lambda>_ _ _. None) (sample_core None))
    [KPut 1 (rstr ''a''), KPutIfAbsent 1 (rstr ''b''), KGetAndPut 2 (rstr ''c''), KReplaceIfEquals 1 (rstr ''a'') (rstr ''d''), KGetAll [2, 3, 1, 2],
     KRemoveKey 2, KContainsKeys [1, 2], KSize, KClear, KGet 1]
    (tx_begin sample_session)) =
   [Done KvUnit, Done (KvBool False), Done (KvValue None), Done (KvBool True), Done (KvRows [(Some 1, Some (rstr ''d'')), (Some 2, Some (rstr ''c''))]), Done (KvBool True), Done (KvBool False),
    Done (KvSize 1), Done KvUnit, Done (KvValue None)]"
proof -
  let ?core = "sample_core None"
  let ?ops = "[KPut 1 (rstr ''a''), KPutIfAbsent 1 (rstr ''b''), KGetAndPut 2 (rstr ''c''), KReplaceIfEquals 1 (rstr ''a'') (rstr ''d''), KGetAll [2, 3, 1, 2],
     KRemoveKey 2, KContainsKeys [1, 2], KSize, KClear, KGet 1]"
  have strings: "ok_string (rstr ''a'')" "ok_string (rstr ''b'')" "ok_string (rstr ''c'')" "ok_string (rstr ''d'')"
    by (simp_all add: ok_string_def valid_rstring_def scalar_def rstr_def str_len_def utf8_encode_def utf8_char_def)
  have good: "list_all (good_op ?core) ?ops" using strings by (simp add: good_op_def sample_good)
  have empty: "good_map ?core (replay_state (cache_service ?core) Map.empty (calls (tx_begin sample_session)))"
    by (simp add: replay_state_def tx_begin_def sample_session_def good_map_def)
  from cache_is_map [OF replay.stateful_server_axioms sample_core_announces sample_cache.no_tx sample_null good empty, of "\<lambda>_ _ _. None"]
  show ?thesis by (simp add: Let_def replay_state_def tx_begin_def sample_session_def found_def rstr_def)
qed

end
