(* ===== verification/Client.thy ===== *)
theory Client
  imports CacheMap CacheQueries Streamer Compute Services
begin

text \<open>
  The client of \<open>ignite-rs/src/lib.rs\<close>: creating, finding and destroying caches, queries without a cache, the handles of
  the other components, and the choice of protocols and cipher suites for TLS. The configuration of caches is in
  \<open>CacheConfig\<close>, addresses in \<open>Addresses\<close>.
\<close>

section \<open>Caches\<close>

record client_session = session +
  cl_affinity :: affinity_cache

record cache_handle =
  ch_id :: i32
  ch_name :: rstring

definition cache_with_id :: "i32 \<Rightarrow> rstring \<Rightarrow> cache_handle" where
  "cache_with_id cache_id name = \<lparr>ch_id = cache_id, ch_name = name\<rparr>"

definition client_cache :: "rstring \<Rightarrow> cache_handle" where
  "client_cache name = cache_with_id (string_to_java_hashcode name) name"

definition config_send :: "transport \<Rightarrow> op_code \<Rightarrow> config_request \<Rightarrow> ('z session_scheme, unit) act" where
  "config_send net op req = send net op (wr (config_request_write req)) (sret (config_request_size req))"

definition get_cache_names :: "transport \<Rightarrow> ('z session_scheme, rstring list) act" where
  "get_cache_names net = send_and_read net get_names_read OpCacheGetNames (wr (config_request_write CacheGetNames)) (sret (config_request_size CacheGetNames))"

definition create_cache :: "transport \<Rightarrow> rstring \<Rightarrow> ('z session_scheme, cache_handle) act" where
  "create_cache net name = abind (config_send net OpCacheCreateWithName (CacheCreateWithName name)) (\<lambda>_. aret (client_cache name))"

definition get_or_create_cache :: "transport \<Rightarrow> rstring \<Rightarrow> ('z session_scheme, cache_handle) act" where
  "get_or_create_cache net name = abind (config_send net OpCacheGetOrCreateWithName (CacheGetOrCreateWithName name)) (\<lambda>_. aret (client_cache name))"

definition create_cache_with_config :: "transport \<Rightarrow> cache_configuration \<Rightarrow> ('z session_scheme, cache_handle) act" where
  "create_cache_with_config net config =
    abind (config_send net OpCacheCreateWithConfiguration (CacheCreateWithConfig config)) (\<lambda>_. aret (client_cache (cc_name config)))"

definition get_or_create_cache_with_config :: "transport \<Rightarrow> cache_configuration \<Rightarrow> ('z session_scheme, cache_handle) act" where
  "get_or_create_cache_with_config net config =
    abind (config_send net OpCacheGetOrCreateWithConfiguration (CacheGetOrCreateWithConfig config)) (\<lambda>_. aret (client_cache (cc_name config)))"

definition get_cache_config :: "transport \<Rightarrow> rstring \<Rightarrow> ('z session_scheme, cache_configuration) act" where
  "get_cache_config net name = send_and_read net get_config_read OpCacheGetConfiguration
    (wr (config_request_write (CacheGetConfig name))) (sret (config_request_size (CacheGetConfig name)))"

definition destroy_cache :: "transport \<Rightarrow> rstring \<Rightarrow> ('z client_session_scheme, unit) act" where
  "destroy_cache net name = abind (config_send net OpCacheDestroy (CacheDestroy name))
    (\<lambda>_ s. (Done (), s\<lparr>cl_affinity := invalidate_cache (string_to_java_hashcode name) (cl_affinity s)\<rparr>))"

section \<open>Queries and handles\<close>

definition client_sql_fields ::
    "transport \<Rightarrow> sql_fields_caps \<Rightarrow> registry \<Rightarrow> lowercase \<Rightarrow> 'row sql_row \<Rightarrow> sql_fields_query \<Rightarrow>
     ('z session_scheme, 'row sql_cursor_conf \<times> 'row sql_fields_cursor) act" where
  "client_sql_fields net caps reg lc f query = (case sql_fields_validate query of
      Some msg \<Rightarrow> afail (client_error msg)
    | None \<Rightarrow> (let info = with_keep_binary (cache_info_new 0) True
        in abind (send_and_read_with_meta net (sql_fields_open_read reg) OpQuerySqlFields (sql_fields_write lc caps info query)
            (sql_fields_size lc caps info query) route_default)
          (\<lambda>(opened, address) s. (sql_cursor_new f (route_pinned address) reg opened
            \<lparr>calls = calls s, next_correlation_id = next_correlation_id s\<rparr>, s))))"

definition client_services :: "selector list" where
  "client_services = services_group (Some (for_servers cluster_group))"

definition client_compute :: compute where
  "client_compute = compute_new (Some (for_servers cluster_group))"

definition client_atomic_long :: "transport \<Rightarrow> node_lookup \<Rightarrow> rstring \<Rightarrow> i64 \<Rightarrow> bool \<Rightarrow> ('z session_scheme, atomic_long option) act" where
  "client_atomic_long net aff name initial_value do_create = atomic_long_get_or_create net aff name None initial_value do_create"

definition atomic_long_with_config ::
    "transport \<Rightarrow> node_lookup \<Rightarrow> rstring \<Rightarrow> atomic_configuration \<Rightarrow> i64 \<Rightarrow> bool \<Rightarrow> ('z session_scheme, atomic_long option) act" where
  "atomic_long_with_config net aff name config initial_value do_create = atomic_long_get_or_create net aff name (Some config) initial_value do_create"

definition client_set :: "transport \<Rightarrow> rstring \<Rightarrow> collection_configuration option \<Rightarrow> ('z session_scheme, ignite_set option) act" where
  "client_set net name config = set_get_or_create net name config"

definition client_streamer :: "rstring \<Rightarrow> session \<Rightarrow> i32 \<times> streamer" where
  "client_streamer cache_name s = (string_to_java_hashcode cache_name, streamer_new s)"

section \<open>TLS\<close>

text \<open>The versions and suites are those of the TLS library; what is modelled is how the selectors name them.\<close>

datatype tls_version = TLS12 | TLS13

datatype tls_suite =
    TLS13_AES_128_GCM_SHA256 | TLS13_AES_256_GCM_SHA384 | TLS13_CHACHA20_POLY1305_SHA256
  | TLS_ECDHE_ECDSA_WITH_AES_128_GCM_SHA256 | TLS_ECDHE_ECDSA_WITH_AES_256_GCM_SHA384 | TLS_ECDHE_ECDSA_WITH_CHACHA20_POLY1305_SHA256
  | TLS_ECDHE_RSA_WITH_AES_128_GCM_SHA256 | TLS_ECDHE_RSA_WITH_AES_256_GCM_SHA384 | TLS_ECDHE_RSA_WITH_CHACHA20_POLY1305_SHA256

record tls_options =
  tls_protocols :: "rstring list option"
  tls_cipher_suites :: "rstring list option"

definition parse_rustls_protocol_selector :: "rstring \<Rightarrow> ignite_error + tls_version" where
  "parse_rustls_protocol_selector selector =
    (if selector = rstr ''TLSv1.2'' then Inr TLS12
     else if selector = rstr ''TLSv1.3'' then Inr TLS13
     else if to_ascii_lowercase selector = to_ascii_lowercase (rstr ''TLS'')
     then Inl (err_tls (rstr ''The generic TLS selector is ambiguous for rustls; use TLSv1.2 or TLSv1.3''))
     else Inl (err_tls (rstr ''Unsupported rustls protocol selector: '' @ selector)))"

definition suite_names :: "(string \<times> tls_suite) list" where
  "suite_names = [(''TLS13_AES_128_GCM_SHA256'', TLS13_AES_128_GCM_SHA256), (''TLS13_AES_256_GCM_SHA384'', TLS13_AES_256_GCM_SHA384),
    (''TLS13_CHACHA20_POLY1305_SHA256'', TLS13_CHACHA20_POLY1305_SHA256),
    (''TLS_ECDHE_ECDSA_WITH_AES_128_GCM_SHA256'', TLS_ECDHE_ECDSA_WITH_AES_128_GCM_SHA256),
    (''TLS_ECDHE_ECDSA_WITH_AES_256_GCM_SHA384'', TLS_ECDHE_ECDSA_WITH_AES_256_GCM_SHA384),
    (''TLS_ECDHE_ECDSA_WITH_CHACHA20_POLY1305_SHA256'', TLS_ECDHE_ECDSA_WITH_CHACHA20_POLY1305_SHA256),
    (''TLS_ECDHE_RSA_WITH_AES_128_GCM_SHA256'', TLS_ECDHE_RSA_WITH_AES_128_GCM_SHA256),
    (''TLS_ECDHE_RSA_WITH_AES_256_GCM_SHA384'', TLS_ECDHE_RSA_WITH_AES_256_GCM_SHA384),
    (''TLS_ECDHE_RSA_WITH_CHACHA20_POLY1305_SHA256'', TLS_ECDHE_RSA_WITH_CHACHA20_POLY1305_SHA256)]"

definition parse_rustls_cipher_suite_selector :: "rstring \<Rightarrow> ignite_error + tls_suite" where
  "parse_rustls_cipher_suite_selector selector = (case find (\<lambda>(name, _). rstr name = selector) suite_names of
      Some (_, suite) \<Rightarrow> Inr suite
    | None \<Rightarrow> Inl (err_tls (rstr ''Unsupported rustls cipher suite selector: '' @ selector)))"

fun parse_selectors :: "(rstring \<Rightarrow> ignite_error + 'a) \<Rightarrow> rstring list \<Rightarrow> ignite_error + 'a list" where
  "parse_selectors f [] = Inr []"
| "parse_selectors f (s # ss) = (case f s of Inl e \<Rightarrow> Inl e | Inr x \<Rightarrow> (case parse_selectors f ss of Inl e \<Rightarrow> Inl e | Inr xs \<Rightarrow> Inr (x # xs)))"

text \<open>What is passed to the TLS library: the suites, or its own, and the versions. The suites are read first.\<close>

definition tls_selection :: "tls_suite list \<Rightarrow> tls_version list \<Rightarrow> tls_options option \<Rightarrow> ignite_error + tls_suite list \<times> tls_version list" where
  "tls_selection default_suites default_versions options =
    (case (case Option.bind options tls_cipher_suites of Some ss \<Rightarrow> parse_selectors parse_rustls_cipher_suite_selector ss | None \<Rightarrow> Inr default_suites) of
       Inl e \<Rightarrow> Inl e
     | Inr suites \<Rightarrow>
         (case (case Option.bind options tls_protocols of Some ps \<Rightarrow> parse_selectors parse_rustls_protocol_selector ps | None \<Rightarrow> Inr default_versions) of
            Inl e \<Rightarrow> Inl e
          | Inr versions \<Rightarrow> Inr (suites, versions)))"

section \<open>The caches of a cluster\<close>

text \<open>What a cluster does: caches by the id that the name hashes to. The answers are those of the server; a name whose id
  belongs to another name is refused.\<close>

datatype cache_admin =
    ANames | ACreate rstring | AGetOrCreate rstring | ACreateWith cache_configuration | AGetOrCreateWith cache_configuration
  | AConfig rstring | ADestroy rstring

datatype admin_value = AvNames "rstring list" | AvHandle cache_handle | AvConfig cache_configuration | AvUnit

definition id_of :: "cache_configuration \<Rightarrow> i32" where
  "id_of c = string_to_java_hashcode (cc_name c)"

definition cache_at :: "i32 \<Rightarrow> cache_configuration list \<Rightarrow> cache_configuration option" where
  "cache_at i cs = find (\<lambda>c. id_of c = i) cs"

definition add_cache :: "cache_configuration \<Rightarrow> cache_configuration list \<Rightarrow> cache_configuration list option" where
  "add_cache c cs = (if cache_at (id_of c) cs = None then Some (cs @ [c]) else None)"

definition get_or_add :: "cache_configuration \<Rightarrow> cache_configuration list \<Rightarrow> cache_configuration list option" where
  "get_or_add c cs = (case cache_at (id_of c) cs of
      None \<Rightarrow> Some (cs @ [c])
    | Some d \<Rightarrow> if cc_name d = cc_name c then Some cs else None)"

type_synonym client_view = "cache_configuration list \<times> affinity_cache"

definition handle_step :: "conn_error \<Rightarrow> rstring \<Rightarrow> cache_configuration list option \<Rightarrow> client_view \<Rightarrow> admin_value result \<times> client_view" where
  "handle_step err name r st = (case r of
      Some cs \<Rightarrow> (Done (AvHandle (client_cache name)), (cs, snd st))
    | None \<Rightarrow> (Failed err, st))"

fun admin_step :: "conn_error \<Rightarrow> cache_admin \<Rightarrow> client_view \<Rightarrow> admin_value result \<times> client_view" where
  "admin_step err ANames st = (Done (AvNames (map cc_name (fst st))), st)"
| "admin_step err (ACreate name) st = handle_step err name (add_cache (config_new name) (fst st)) st"
| "admin_step err (AGetOrCreate name) st = handle_step err name (get_or_add (config_new name) (fst st)) st"
| "admin_step err (ACreateWith c) st = handle_step err (cc_name c) (add_cache c (fst st)) st"
| "admin_step err (AGetOrCreateWith c) st = handle_step err (cc_name c) (get_or_add c (fst st)) st"
| "admin_step err (AConfig name) st = (case cache_at (string_to_java_hashcode name) (fst st) of
      Some c \<Rightarrow> (Done (AvConfig (canonical_configuration c)), st)
    | None \<Rightarrow> (Failed err, st))"
| "admin_step err (ADestroy name) st = (case cache_at (string_to_java_hashcode name) (fst st) of
      Some _ \<Rightarrow> (Done AvUnit, (filter (\<lambda>c. id_of c \<noteq> string_to_java_hashcode name) (fst st),
        invalidate_cache (string_to_java_hashcode name) (snd st)))
    | None \<Rightarrow> (Failed err, st))"

fun client_perform :: "transport \<Rightarrow> cache_admin \<Rightarrow> (client_session, admin_value) act" where
  "client_perform net ANames = amap AvNames (get_cache_names net)"
| "client_perform net (ACreate name) = amap AvHandle (create_cache net name)"
| "client_perform net (AGetOrCreate name) = amap AvHandle (get_or_create_cache net name)"
| "client_perform net (ACreateWith c) = amap AvHandle (create_cache_with_config net c)"
| "client_perform net (AGetOrCreateWith c) = amap AvHandle (get_or_create_cache_with_config net c)"
| "client_perform net (AConfig name) = amap AvConfig (get_cache_config net name)"
| "client_perform net (ADestroy name) = amap (\<lambda>_. AvUnit) (destroy_cache net name)"

text \<open>The server: \<open>config_of\<close> is how it reads the configuration of a request.\<close>

definition request_name :: "bytes \<Rightarrow> rstring option" where
  "request_name payload = (case string_read payload of Ok r _ \<Rightarrow> r | _ \<Rightarrow> None)"

definition request_id :: "bytes \<Rightarrow> i32 option" where
  "request_id payload = (case read_i32 payload of Ok i _ \<Rightarrow> Some i | _ \<Rightarrow> None)"

definition settled :: "i32 \<Rightarrow> rstring \<Rightarrow> 'st option \<Rightarrow> 'st \<Rightarrow> flag \<times> bytes \<times> 'st" where
  "settled status msg r st = (case r of Some st' \<Rightarrow> (Success, [], st') | None \<Rightarrow> (Failure status msg, [], st))"

definition caches_service ::
    "i32 \<Rightarrow> rstring \<Rightarrow> (bytes \<Rightarrow> cache_configuration option) \<Rightarrow> cache_configuration list service" where
  "caches_service status msg config_of op payload cs =
    (if op = OpCacheGetNames then Some (Success, write_i32 (i32_of_usize (length cs)) @ concat (map (\<lambda>c. write_string_type_code (cc_name c)) cs), cs)
     else if op = OpCacheCreateWithName then map_option (\<lambda>name. settled status msg (add_cache (config_new name) cs) cs) (request_name payload)
     else if op = OpCacheGetOrCreateWithName then map_option (\<lambda>name. settled status msg (get_or_add (config_new name) cs) cs) (request_name payload)
     else if op = OpCacheCreateWithConfiguration then map_option (\<lambda>c. settled status msg (add_cache c cs) cs) (config_of payload)
     else if op = OpCacheGetOrCreateWithConfiguration then map_option (\<lambda>c. settled status msg (get_or_add c cs) cs) (config_of payload)
     else if op = OpCacheGetConfiguration then map_option (\<lambda>i. case cache_at i cs of
         Some c \<Rightarrow> (Success, write_i32 (i32_of_usize (length (server_configuration c))) @ server_configuration c, cs)
       | None \<Rightarrow> (Failure status msg, [], cs)) (request_id payload)
     else if op = OpCacheDestroy then map_option (\<lambda>i. settled status msg
         (if cache_at i cs = None then None else Some (filter (\<lambda>c. id_of c \<noteq> i) cs)) cs) (request_id payload)
     else None)"

fun good_admin :: "(bytes \<Rightarrow> cache_configuration option) \<Rightarrow> cache_admin \<Rightarrow> bool" where
  "good_admin config_of (ACreate name) = ok_string name"
| "good_admin config_of (AGetOrCreate name) = ok_string name"
| "good_admin config_of (ACreateWith c) = (ok_configuration c \<and> config_of (get_cache_configuration_bytes c) = Some c)"
| "good_admin config_of (AGetOrCreateWith c) = (ok_configuration c \<and> config_of (get_cache_configuration_bytes c) = Some c)"
| "good_admin config_of _ = True"

text \<open>The names are counted with 32 bits.\<close>

definition good_caches :: "nat \<Rightarrow> client_view \<Rightarrow> bool" where
  "good_caches n st \<longleftrightarrow> list_all ok_configuration (fst st) \<and> length (fst st) + n < 2 ^ 31"

section \<open>Refinement\<close>

lemma config_new_ok: "ok_string name \<Longrightarrow> ok_configuration (config_new name)" "cc_name (config_new name) = name" "id_of (config_new name) = string_to_java_hashcode name"
  by (simp_all add: ok_configuration_def config_new_def config_default_def server_list_def ok_counted_def id_of_def)

lemma added_good:
  "add_cache c cs = Some cs' \<Longrightarrow> ok_configuration c \<Longrightarrow> good_caches (Suc n) (cs, aff) \<Longrightarrow> good_caches n (cs', aff)"
  "get_or_add c cs = Some cs' \<Longrightarrow> ok_configuration c \<Longrightarrow> good_caches (Suc n) (cs, aff) \<Longrightarrow> good_caches n (cs', aff)"
  by (auto simp: add_cache_def get_or_add_def good_caches_def split: if_splits option.splits)

lemma filtered_good: "good_caches (Suc n) (cs, aff) \<Longrightarrow> good_caches n (filter P cs, aff')"
proof -
  assume a: "good_caches (Suc n) (cs, aff)"
  then have "length (filter P cs) + n < 2 ^ 31" using length_filter_le [of P cs] unfolding good_caches_def fst_conv by linarith
  with a show ?thesis by (auto simp: good_caches_def list_all_iff)
qed

lemma admin_good:
  assumes "good_admin config_of op" and "good_caches (Suc n) st"
  shows "good_caches n (snd (admin_step err op st))"
proof -
  have same: "good_caches n st" using assms(2) by (auto simp: good_caches_def)
  obtain cs aff where st: "st = (cs, aff)" by fastforce
  show ?thesis
    using assms same unfolding st
    by (cases op) (auto simp: handle_step_def config_new_ok filtered_good split: option.split dest: added_good)
qed

lemma names_back:
  assumes "list_all ok_configuration cs" and "length cs < 2 ^ 31"
  shows "get_names_read (write_i32 (i32_of_usize (length cs)) @ concat (map (\<lambda>c. write_string_type_code (cc_name c)) cs)) = Ok (map cc_name cs) []"
  using repeat_read_concat [of cs "rbind string_read (\<lambda>r. case r of None \<Rightarrow> fail (Ignite ''NULL is not expected'') | Some n \<Rightarrow> ret n)"
      "\<lambda>c. write_string_type_code (cc_name c)" cc_name "[]"] assms
  by (simp add: get_names_read_def rbind_Ok len_casts list_all_iff ok_configuration_def string_read_write)

lemma config_back: "ok_configuration c \<Longrightarrow> get_config_read (write_i32 n @ server_configuration c) = Ok (canonical_configuration c) []"
  using read_server_configuration [of c "[]"] by (simp add: get_config_read_def rbind_Ok)

lemma request_parts [simp]: "ok_string name \<Longrightarrow> request_name (write_string_type_code name) = Some name"
    "request_id (write_i32 i @ rest) = Some i" "request_id (write_i32 i) = Some i"
  using string_read_write [of name "[]"] i32.dec_enc_any [of i "[]"] by (simp_all add: request_name_def request_id_def)

lemma cache_at_ok: "cache_at i cs = Some c \<Longrightarrow> list_all ok_configuration cs \<Longrightarrow> ok_configuration c"
  by (auto simp: cache_at_def find_Some_iff list_all_length)

locale caches_server = stateful_server net "caches_service status msg config_of" state_of
  for net :: transport and status :: i32 and msg :: rstring and config_of :: "bytes \<Rightarrow> cache_configuration option"
    and state_of :: "call list \<Rightarrow> cache_configuration list"
begin

definition refused_cache :: conn_error where
  "refused_cache = CError (from_server_status status msg)"

lemma config_sent:
  assumes "caches_service status msg config_of op (config_request_write req) (state_of (calls s)) = Some (settled status msg r (state_of (calls s)))"
  obtains s' where "config_send net op req s = (case r of Some _ \<Rightarrow> Done () | None \<Rightarrow> Failed refused_cache, s')"
    and "state_of (calls s') = (case r of Some cs \<Rightarrow> cs | None \<Rightarrow> state_of (calls s))" and "session.more s' = session.more s"
proof -
  obtain flag reply st where svc: "caches_service status msg config_of op (config_request_write req) (state_of (calls s)) = Some (flag, reply, st)"
    using assms by (cases "settled status msg r (state_of (calls s))") auto
  obtain addr s' where p: "perform net op (wr (config_request_write req)) (sret (config_request_size req)) route_default s = (Done (flag, reply, 0, addr), s')"
    "state_of (calls s') = st"
    using perform_served [where route = route_default and s = s and op = op, OF sized_wr [OF config_requests_announced] run_wr svc] by metis
  then show thesis
    using perform_frame [of net op "wr (config_request_write req)" "sret (config_request_size req)" route_default s] svc assms that
    by (cases r) (auto simp: config_send_def send_def send_with_route_def abind_def settled_def refused_cache_def)
qed

lemma config_asked:
  assumes "caches_service status msg config_of op (config_request_write req) (state_of (calls s)) = Some (flag, reply, state_of (calls s))"
  obtains s' where "send_and_read net rd op (wr (config_request_write req)) (sret (config_request_size req)) s =
      (case flag of Success \<Rightarrow> decoded (rd reply) | Failure st m \<Rightarrow> Failed (CError (from_server_status st m)), s')"
    and "state_of (calls s') = state_of (calls s)" and "session.more s' = session.more s"
proof -
  obtain addr s' where p: "perform net op (wr (config_request_write req)) (sret (config_request_size req)) route_default s = (Done (flag, reply, 0, addr), s')"
    "state_of (calls s') = state_of (calls s)"
    using perform_served [where route = route_default and s = s and op = op, OF sized_wr [OF config_requests_announced] run_wr assms] by metis
  then show thesis
    using perform_frame [of net op "wr (config_request_write req)" "sret (config_request_size req)" route_default s] that
    by (cases flag) (auto simp: send_and_read_def send_and_read_with_route_def abind_def)
qed

definition admin_done :: "cache_admin \<Rightarrow> client_session \<Rightarrow> bool" where
  "admin_done op s \<longleftrightarrow> (let spec = admin_step refused_cache op (state_of (calls s), cl_affinity s)
    in fst (client_perform net op s) = fst spec \<and> (let s' = snd (client_perform net op s) in (state_of (calls s'), cl_affinity s')) = snd spec)"

lemma affinity_kept: "session.more s' = session.more s \<Longrightarrow> cl_affinity s' = cl_affinity s"
  by (cases s; cases s') simp

lemma handle_done:
  assumes "caches_service status msg config_of op (config_request_write req) (state_of (calls s)) = Some (settled status msg r (state_of (calls s)))"
    and "client_perform net aop = amap AvHandle (abind (config_send net op req) (\<lambda>_. aret (client_cache name)))"
    and "admin_step refused_cache aop (state_of (calls s), cl_affinity s) = handle_step refused_cache name r (state_of (calls s), cl_affinity s)"
  shows "admin_done aop s"
proof -
  obtain s' where "config_send net op req s = (case r of Some _ \<Rightarrow> Done () | None \<Rightarrow> Failed refused_cache, s')"
    "state_of (calls s') = (case r of Some cs \<Rightarrow> cs | None \<Rightarrow> state_of (calls s))" "session.more s' = session.more s"
    using config_sent [OF assms(1)] by blast
  then show ?thesis using affinity_kept [of s' s]
    by (cases r) (simp_all add: admin_done_def assms(2,3) amap_def abind_def handle_step_def)
qed

lemma admin_steps:
  assumes "good_admin config_of op" and "good_caches (Suc n) (state_of (calls s), cl_affinity s)"
  shows "admin_done op s"
proof (cases op)
  case ANames
  let ?cs = "state_of (calls s)"
  have ok: "list_all ok_configuration ?cs" "length ?cs < 2 ^ 31" using assms(2) by (simp_all add: good_caches_def)
  have "caches_service status msg config_of OpCacheGetNames (config_request_write CacheGetNames) ?cs =
      Some (Success, write_i32 (i32_of_usize (length ?cs)) @ concat (map (\<lambda>c. write_string_type_code (cc_name c)) ?cs), ?cs)"
    by (simp add: caches_service_def)
  from config_asked [where rd = get_names_read, OF this] obtain s' where
    "get_cache_names net s = (decoded (get_names_read (write_i32 (i32_of_usize (length ?cs)) @ concat (map (\<lambda>c. write_string_type_code (cc_name c)) ?cs))), s')"
    "state_of (calls s') = ?cs" "session.more s' = session.more s" unfolding get_cache_names_def by auto
  then show ?thesis using ANames affinity_kept [of s' s]
    by (simp add: admin_done_def amap_def abind_def names_back [OF ok] decoded_def)
next
  case (AConfig name)
  let ?cs = "state_of (calls s)"
  show ?thesis
  proof (cases "cache_at (string_to_java_hashcode name) ?cs")
    case None
    then have "caches_service status msg config_of OpCacheGetConfiguration (config_request_write (CacheGetConfig name)) ?cs =
        Some (Failure status msg, [], ?cs)" by (simp add: caches_service_def)
    from config_asked [where rd = get_config_read, OF this] obtain s' where "get_cache_config net name s = (Failed refused_cache, s')"
      "state_of (calls s') = ?cs" "session.more s' = session.more s" unfolding get_cache_config_def refused_cache_def by auto
    then show ?thesis using AConfig None affinity_kept [of s' s] by (simp add: admin_done_def amap_def abind_def)
  next
    case (Some c)
    have "list_all ok_configuration ?cs" using assms(2) by (simp add: good_caches_def)
    with Some have "ok_configuration c" by (rule cache_at_ok)
    have "caches_service status msg config_of OpCacheGetConfiguration (config_request_write (CacheGetConfig name)) ?cs =
        Some (Success, write_i32 (i32_of_usize (length (server_configuration c))) @ server_configuration c, ?cs)" by (simp add: caches_service_def Some)
    from config_asked [where rd = get_config_read, OF this] obtain s' where
      "get_cache_config net name s = (Done (canonical_configuration c), s')"
      "state_of (calls s') = ?cs" "session.more s' = session.more s"
      unfolding get_cache_config_def by (auto simp: config_back [OF \<open>ok_configuration c\<close>] decoded_def)
    then show ?thesis using AConfig Some affinity_kept [of s' s] by (simp add: admin_done_def amap_def abind_def)
  qed
next
  case (ADestroy name)
  let ?r = "if cache_at (string_to_java_hashcode name) (state_of (calls s)) = None then None
    else Some (filter (\<lambda>c. id_of c \<noteq> string_to_java_hashcode name) (state_of (calls s)))"
  have "caches_service status msg config_of OpCacheDestroy (config_request_write (CacheDestroy name)) (state_of (calls s)) =
      Some (settled status msg ?r (state_of (calls s)))" by (simp add: caches_service_def)
  then obtain s' where "config_send net OpCacheDestroy (CacheDestroy name) s = (case ?r of Some _ \<Rightarrow> Done () | None \<Rightarrow> Failed refused_cache, s')"
    "state_of (calls s') = (case ?r of Some cs \<Rightarrow> cs | None \<Rightarrow> state_of (calls s))" "session.more s' = session.more s"
    by (rule config_sent)
  then show ?thesis using ADestroy affinity_kept [of s' s]
    by (cases "cache_at (string_to_java_hashcode name) (state_of (calls s))") (simp_all add: admin_done_def amap_def abind_def destroy_cache_def)
next
  case (ACreate name)
  show ?thesis unfolding ACreate
    by (rule handle_done [where req = "CacheCreateWithName name"]) (use ACreate assms(1) in \<open>simp_all add: caches_service_def create_cache_def\<close>)
next
  case (AGetOrCreate name)
  show ?thesis unfolding AGetOrCreate
    by (rule handle_done [where req = "CacheGetOrCreateWithName name"]) (use AGetOrCreate assms(1) in \<open>simp_all add: caches_service_def get_or_create_cache_def\<close>)
next
  case (ACreateWith c)
  show ?thesis unfolding ACreateWith
    by (rule handle_done [where req = "CacheCreateWithConfig c"]) (use ACreateWith assms(1) in \<open>simp_all add: caches_service_def create_cache_with_config_def\<close>)
next
  case (AGetOrCreateWith c)
  show ?thesis unfolding AGetOrCreateWith
    by (rule handle_done [where req = "CacheGetOrCreateWithConfig c"])
      (use AGetOrCreateWith assms(1) in \<open>simp_all add: caches_service_def get_or_create_cache_with_config_def\<close>)
qed

end

lemma trace_refines_bounded:
  assumes "\<And>x s n. good x \<Longrightarrow> okay (Suc n) (view s) \<Longrightarrow>
      fst (f x s) = fst (g x (view s)) \<and> view (snd (f x s)) = snd (g x (view s)) \<and> okay n (snd (g x (view s)))"
    and "list_all good xs" and "okay (length xs) (view s)"
  shows "fst (trace f xs s) = fst (trace g xs (view s)) \<and> view (snd (trace f xs s)) = snd (trace g xs (view s))"
  using assms(2,3)
proof (induction xs arbitrary: s)
  case (Cons x xs)
  then show ?case using assms(1) [of x "length xs" s] Cons.IH [of "snd (f x s)"] by (auto split: prod.split simp: prod_eq_iff)
qed simp

section \<open>Properties\<close>

text \<open>C21: The caches of a cluster. For a server that keeps the configurations of its caches, any sequence of operations
  of the client on caches (names, create, get or create, by name or by configuration, configuration, destroy) returns what the
  catalogue of caches says: handles with the id that the name hashes to, the names in order, the configuration as the server
  holds it, or the refusal; and leaves the catalogue it should. A cache that is destroyed is dropped from what the client
  knows of the distribution of keys, and only then. A configuration must be one that the server reads as it was written.\<close>
theorem client_caches:
  assumes "stateful_server net (caches_service status msg config_of) state_of" and "list_all (good_admin config_of) ops"
    and "list_all ok_configuration (state_of (calls s))" and "length (state_of (calls s)) + length ops < 2 ^ 31"
  shows "let done_ops = trace (client_perform net) ops s;
      spec = trace (admin_step (CError (from_server_status status msg))) ops (state_of (calls s), cl_affinity s)
    in fst done_ops = fst spec \<and> state_of (calls (snd done_ops)) = fst (snd spec) \<and> cl_affinity (snd done_ops) = snd (snd spec)"
proof -
  have server: "caches_server net status msg config_of state_of" using assms(1) by (simp add: caches_server_def)
  let ?view = "\<lambda>s :: client_session. (state_of (calls s), cl_affinity s)"
  have err: "caches_server.refused_cache status msg = CError (from_server_status status msg)" by (rule caches_server.refused_cache_def [OF server])
  have step: "fst (client_perform net op s) = fst (admin_step (CError (from_server_status status msg)) op (?view s)) \<and>
      ?view (snd (client_perform net op s)) = snd (admin_step (CError (from_server_status status msg)) op (?view s)) \<and>
      good_caches n (snd (admin_step (CError (from_server_status status msg)) op (?view s)))"
    if "good_admin config_of op" "good_caches (Suc n) (?view s)" for op s n
    using caches_server.admin_steps [OF server that] admin_good [OF that]
    unfolding caches_server.admin_done_def [OF server] err Let_def by blast
  have "good_caches (length ops) (?view s)" using assms(3,4) by (simp add: good_caches_def)
  from trace_refines_bounded [where view = ?view and okay = good_caches and f = "client_perform net"
      and g = "admin_step (CError (from_server_status status msg))", OF step assms(2) this]
  show ?thesis by (simp add: Let_def prod_eq_iff)
qed

definition sample_config :: cache_configuration where
  "sample_config = (config_new (rstr ''c''))\<lparr>cc_num_backup := 1\<rparr>"

definition sample_config_of :: "bytes \<Rightarrow> cache_configuration option" where
  "sample_config_of bs = (if bs = get_cache_configuration_bytes sample_config then Some sample_config else None)"

interpretation sample_caches: caches_server "replay_net (caches_service 1 [] sample_config_of) []" 1 "[]" sample_config_of
    "replay_state (caches_service 1 [] sample_config_of) []"
  by unfold_locales

lemma sample_config_ok: "ok_configuration sample_config"
  by (simp add: sample_config_def ok_configuration_def config_new_def config_default_def server_list_def ok_counted_def ok_string_ascii rstr_def)

theorem client_caches_witness:
  "fst (trace (client_perform (replay_net (caches_service 1 [] sample_config_of) []))
      [ACreate (rstr ''Aa''), AGetOrCreate (rstr ''BB''), ACreateWith sample_config, ANames, AConfig (rstr ''c''), ADestroy (rstr ''Aa''), ANames]
      \<lparr>calls = [], next_correlation_id = 1, cl_affinity = affinity_new\<rparr>) =
    [Done (AvHandle \<lparr>ch_id = 2112, ch_name = rstr ''Aa''\<rparr>), Failed (CError (from_server_status 1 [])), Done (AvHandle \<lparr>ch_id = 99, ch_name = rstr ''c''\<rparr>),
     Done (AvNames [rstr ''Aa'', rstr ''c'']), Done (AvConfig (canonical_configuration sample_config)), Done AvUnit, Done (AvNames [rstr ''c''])]"
proof -
  let ?ops = "[ACreate (rstr ''Aa''), AGetOrCreate (rstr ''BB''), ACreateWith sample_config, ANames, AConfig (rstr ''c''), ADestroy (rstr ''Aa''), ANames]"
  let ?s = "\<lparr>calls = [], next_correlation_id = 1, cl_affinity = affinity_new\<rparr>"
  have ops: "list_all (good_admin sample_config_of) ?ops"
    by (simp add: sample_config_ok sample_config_of_def ok_string_ascii rstr_def)
  have start: "list_all ok_configuration (replay_state (caches_service 1 [] sample_config_of) [] (calls ?s))"
    "length (replay_state (caches_service 1 [] sample_config_of) [] (calls ?s)) + length ?ops < 2 ^ 31"
    by (simp_all add: replay_state_def)
  have ids: "string_to_java_hashcode (rstr ''Aa'') = 2112" "string_to_java_hashcode (rstr ''BB'') = 2112" "string_to_java_hashcode (rstr ''c'') = 99"
    by (simp_all add: string_to_java_hashcode_def java_hash_step_def rstr_def)
  have names: "cc_name (config_new n) = n" "cc_name sample_config = rstr ''c''" for n by (simp_all add: config_new_def sample_config_def)
  have "rstr ''Aa'' \<noteq> rstr ''BB''" by (simp add: rstr_def)
  with client_caches [OF replay.stateful_server_axioms ops start]
  show ?thesis
    by (simp add: Let_def replay_state_def handle_step_def add_cache_def get_or_add_def cache_at_def id_of_def names ids client_cache_def cache_with_id_def)
qed

text \<open>A query without a cache is the query of a cache with the id 0, outside a transaction and without an expiry policy.\<close>
theorem client_sql_as_cache:
  assumes "core_id self = 0" and "core_tx self = None" and "core_expiry_policy self = None"
  shows "client_sql_fields net caps reg (core_lc self) f query s = sql_fields_impl net caps reg self f query s"
proof -
  have info: "cache_info_of self True = with_keep_binary (cache_info_new 0) True"
    using assms by (simp add: cache_info_of_def with_expiry_policy_def with_keep_binary_def cache_info_new_def)
  show ?thesis
    using assms(2)
    by (cases "sql_fields_validate query") (simp_all add: client_sql_fields_def sql_fields_impl_def sql_fields_open_response_impl_def info
        ensure_tx_cache_ops_allowed_def tx_route_def or_default_def map_tx_err_none abind_def session_of_def Let_def)
qed

lemma rstr_inject: "rstr a = rstr b \<longleftrightarrow> a = b"
  unfolding rstr_def by (rule inj_map_eq_map) (simp add: inj_def)

text \<open>A cipher suite is selected by its name and by no other text; the two versions likewise.\<close>
theorem tls_selectors:
  "parse_rustls_cipher_suite_selector sel = Inr suite \<longleftrightarrow> (\<exists>name. (name, suite) \<in> set suite_names \<and> sel = rstr name)"
  "parse_rustls_protocol_selector sel = Inr version \<longleftrightarrow> sel = rstr (case version of TLS12 \<Rightarrow> ''TLSv1.2'' | TLS13 \<Rightarrow> ''TLSv1.3'')"
proof -
  have names: "find (\<lambda>(n, _). rstr n = rstr name) suite_names = Some (name, suite)" if "(name, suite) \<in> set suite_names" for name
    using that by (auto simp: suite_names_def rstr_inject)
  show "parse_rustls_cipher_suite_selector sel = Inr suite \<longleftrightarrow> (\<exists>name. (name, suite) \<in> set suite_names \<and> sel = rstr name)"
  proof
    assume "parse_rustls_cipher_suite_selector sel = Inr suite"
    then obtain name where "find (\<lambda>(n, _). rstr n = sel) suite_names = Some (name, suite)"
      by (auto simp: parse_rustls_cipher_suite_selector_def split: option.splits)
    then have "(name, suite) \<in> set suite_names \<and> sel = rstr name" by (auto simp: find_Some_iff in_set_conv_nth)
    then show "\<exists>name. (name, suite) \<in> set suite_names \<and> sel = rstr name" by blast
  qed (auto simp: parse_rustls_cipher_suite_selector_def names)
  show "parse_rustls_protocol_selector sel = Inr version \<longleftrightarrow> sel = rstr (case version of TLS12 \<Rightarrow> ''TLSv1.2'' | TLS13 \<Rightarrow> ''TLSv1.3'')"
    by (cases version) (auto simp: parse_rustls_protocol_selector_def rstr_inject)
qed

end
