(* ===== verification/Derive.thy ===== *)
theory Derive
  imports ReplicationInvoke
begin

text \<open>
  The code that \<open>ignite-rs_derive/src/lib.rs\<close> generates for a struct with named fields: the implementations of
  \<open>WritableType\<close> and \<open>ReadableType\<close>. A field comes with the text of its type and the write, size and read of that type; a
  value of the struct is the list of the values of its fields, of a type that holds them all.
\<close>

section \<open>The macro\<close>

record 'u struct_field =
  dv_name :: rstring
  dv_ty :: rstring
  dv_write :: "'u \<Rightarrow> writer"
  dv_size :: "'u \<Rightarrow> sizer"
  dv_read :: "'u option reader"

text \<open>An attribute as \<open>syn\<close> parses it: its path when that is one identifier, and the meta item, if it is one. The parts of
  a literal or of a nested item that the macro does not look at are left out.\<close>

datatype lit = LitStr rstring | LitOther
datatype nested_meta = NmLit lit | NmMeta
datatype attr_meta = MetaPath | MetaNameValue lit | MetaList "nested_meta list"

record attribute =
  at_ident :: "rstring option"
  at_meta :: "attr_meta option"

record 'u struct_input =
  st_ident :: rstring
  st_attrs :: "attribute list"
  st_fields :: "'u struct_field list"

definition infer_ignite_type :: "rstring \<Rightarrow> ignite_type" where
  "infer_ignite_type ty =
    (if ty = rstr ''u8'' then ItByte else if ty = rstr ''u16'' then ItChar else if ty = rstr ''i16'' then ItShort
     else if ty = rstr ''i32'' then ItInt else if ty = rstr ''i64'' then ItLong else if ty = rstr ''f32'' then ItFloat
     else if ty = rstr ''f64'' then ItDouble else if ty = rstr ''bool'' then ItBool else if ty = rstr ''String'' then ItString
     else if ty = rstr ''Vec<u8>'' then ItBinary else ItObject)"

fun first_lit_str :: "nested_meta list \<Rightarrow> rstring option" where
  "first_lit_str (NmLit (LitStr ls) # nested) = Some ls"
| "first_lit_str (_ # nested) = first_lit_str nested"
| "first_lit_str [] = None"

fun get_type_name_override :: "attribute list \<Rightarrow> rstring option" where
  "get_type_name_override [] = None"
| "get_type_name_override (attr # attrs) =
    (if at_ident attr = Some (rstr ''ignite_type_name'')
     then (case at_meta attr of
         Some (MetaNameValue (LitStr ls)) \<Rightarrow> Some ls
       | Some (MetaList nested) \<Rightarrow> (case first_lit_str nested of Some ls \<Rightarrow> Some ls | None \<Rightarrow> get_type_name_override attrs)
       | _ \<Rightarrow> get_type_name_override attrs)
     else get_type_name_override attrs)"

abbreviation st_override :: "'u struct_input \<Rightarrow> rstring option" where
  "st_override input \<equiv> get_type_name_override (st_attrs input)"

definition derived_type_id :: "lowercase \<Rightarrow> 'u struct_input \<Rightarrow> i32" where
  "derived_type_id lc input = (case st_override input of
      Some s \<Rightarrow> string_to_java_hashcode (lc s)
    | None \<Rightarrow> string_to_java_hashcode (lc (st_ident input)))"

definition derived_schema_id :: "'u struct_field list \<Rightarrow> i32" where
  "derived_schema_id fs = foldl schema_id_step FNV1_OFFSET_BASIS (map (\<lambda>f. string_to_java_hashcode (dv_name f)) fs)"

section \<open>The generated writer\<close>

definition derived_schema :: "'u struct_input \<Rightarrow> complex_object_schema" where
  "derived_schema input = \<lparr>schema_type_name = st_ident input,
    schema_fields = map (\<lambda>f. \<lparr>field_name = dv_name f, field_type = infer_ignite_type (dv_ty f)\<rparr>) (st_fields input)\<rparr>"

fun derived_loop :: "'u struct_field list \<Rightarrow> 'u list \<Rightarrow> bytes \<times> bytes \<Rightarrow> (bytes \<times> bytes) regop" where
  "derived_loop (f # fs) (v # vs) d = wbind (dv_write f v) (\<lambda>bs. derived_loop fs vs
    (fst d @ bs, snd d @ write_i32 (string_to_java_hashcode (dv_name f)) @ write_i32 (i32_of_usize COMPLEX_OBJ_HEADER_LEN + i32_of_usize (length (fst d)))))"
| "derived_loop _ _ d = wret d"

definition derived_bytes :: "i32 \<Rightarrow> i32 \<Rightarrow> bytes \<times> bytes \<Rightarrow> bytes" where
  "derived_bytes type_id schema_id d = (case d of (field_data, schema) \<Rightarrow>
    write_u8 (type_code_u8 TcComplexObj) @ write_u8 1 @ write_u16 (FLAG_USER_TYPE OR FLAG_HAS_SCHEMA) @ write_i32 type_id @
    write_i32 (bytes_to_java_hashcode field_data) @
    write_i32 (i32_of_usize COMPLEX_OBJ_HEADER_LEN + i32_of_usize (length field_data) + i32_of_usize (length schema)) @
    write_i32 schema_id @ write_i32 (i32_of_usize COMPLEX_OBJ_HEADER_LEN + i32_of_usize (length field_data)) @ field_data @ schema)"

definition derived_write :: "lowercase \<Rightarrow> 'u struct_input \<Rightarrow> 'u list \<Rightarrow> writer" where
  "derived_write lc input vals = wbind (wregister lc (derived_schema input)) (\<lambda>_. wbind (derived_loop (st_fields input) vals ([], []))
    (\<lambda>d. wr (derived_bytes (derived_type_id lc input) (derived_schema_id (st_fields input)) d)))"

fun derived_fields_size :: "'u struct_field list \<Rightarrow> 'u list \<Rightarrow> sizer" where
  "derived_fields_size (f # fs) (v # vs) = sadd (sadd (dv_size f v) (sret (4 + 4))) (derived_fields_size fs vs)"
| "derived_fields_size _ _ = sret 0"

definition derived_size :: "'u struct_input \<Rightarrow> 'u list \<Rightarrow> sizer" where
  "derived_size input vals = sadd (sret COMPLEX_OBJ_HEADER_LEN) (derived_fields_size (st_fields input) vals)"

section \<open>The generated reader\<close>

fun derived_fields_read :: "'u struct_field list \<Rightarrow> 'u list reader" where
  "derived_fields_read [] = ret []"
| "derived_fields_read (f # fs) = rbind (dv_read f) (\<lambda>r. case r of
      None \<Rightarrow> panic
    | Some v \<Rightarrow> rbind (derived_fields_read fs) (\<lambda>vs. ret (v # vs)))"

definition derived_body_read :: "lowercase \<Rightarrow> 'u struct_input \<Rightarrow> 'u list option reader" where
  "derived_body_read lc input = rbind read_u8 (\<lambda>_. rbind read_u16 (\<lambda>flags.
    if flags AND FLAG_HAS_SCHEMA = 0 then fail (Ignite ''Serialized object schema expected!'')
    else if flags AND FLAG_COMPACT_FOOTER \<noteq> 0 then fail (Ignite ''Compact footer is not supported!'')
    else if flags AND FLAG_OFFSET_ONE_BYTE \<noteq> 0 \<or> flags AND FLAG_OFFSET_TWO_BYTES \<noteq> 0 then fail (Ignite ''Schema offset=4 is expected!'')
    else rbind read_i32 (\<lambda>type_id.
      if type_id \<noteq> derived_type_id lc input
      then fail (IgniteFmt ''Unknown type id! {} expected!'' [sint (derived_type_id lc input)])
      else rbind read_i32 (\<lambda>_. rbind read_i32 (\<lambda>_. rbind read_i32 (\<lambda>_. rbind read_i32 (\<lambda>_.
        rbind (derived_fields_read (st_fields input)) (\<lambda>vals.
        rbind (repeat_read (length (st_fields input)) read_i64) (\<lambda>_. ret (Some vals))))))))))"

definition derived_read_unwrapped :: "lowercase \<Rightarrow> 'u struct_input \<Rightarrow> type_code \<Rightarrow> 'u list option reader" where
  "derived_read_unwrapped lc input type_code = (case type_code of TcNull \<Rightarrow> ret None | _ \<Rightarrow> derived_body_read lc input)"

definition derived_read :: "lowercase \<Rightarrow> 'u struct_input \<Rightarrow> 'u list option reader" where
  "derived_read lc input = readable_read (derived_read_unwrapped lc input)"

section \<open>What is written\<close>

text \<open>A field value that its type writes as \<open>bs\<close>, with the size it announces.\<close>

definition writes_field :: "'u struct_field \<Rightarrow> 'u \<Rightarrow> bytes \<Rightarrow> bool" where
  "writes_field f v bs \<longleftrightarrow> sized (dv_write f v) (dv_size f v) \<and> run (dv_write f v) = Inr bs"

fun derived_footer :: "'u struct_field list \<Rightarrow> bytes list \<Rightarrow> nat \<Rightarrow> bytes" where
  "derived_footer (f # fs) (bs # bss) n = write_i32 (string_to_java_hashcode (dv_name f)) @
    write_i32 (i32_of_usize COMPLEX_OBJ_HEADER_LEN + i32_of_usize n) @ derived_footer fs bss (n + length bs)"
| "derived_footer _ _ n = []"

fun fields_written :: "'u struct_field list \<Rightarrow> 'u list \<Rightarrow> bytes list \<Rightarrow> bool" where
  "fields_written (f # fs) (v # vs) (bs # bss) = (writes_field f v bs \<and> fields_written fs vs bss)"
| "fields_written [] [] [] = True"
| "fields_written _ _ _ = False"

lemma fields_written_iff:
  "fields_written fs vs bss \<longleftrightarrow> length vs = length fs \<and> length bss = length fs \<and> (\<forall>k < length fs. writes_field (fs ! k) (vs ! k) (bss ! k))"
  by (induction fs vs bss rule: fields_written.induct) (auto simp: nth_Cons less_Suc_eq_0_disj split: nat.split)

lemma fields_written_length: "fields_written fs vs bss \<Longrightarrow> length vs = length fs \<and> length bss = length fs"
  by (induction fs vs bss rule: fields_written.induct) auto

lemma derived_loop_steady: "fields_written fs vs bss \<Longrightarrow> steady (derived_loop fs vs d)"
  by (induction fs vs bss arbitrary: d rule: fields_written.induct) (auto simp: writes_field_def sized_def intro!: steady_intros)

lemma derived_loop_run:
  "fields_written fs vs bss \<Longrightarrow> run (derived_loop fs vs d) = Inr (fst d @ concat bss, snd d @ derived_footer fs bss (length (fst d)))"
proof (induction fs vs bss arbitrary: d rule: fields_written.induct)
  case (1 f fs v vs bs bss)
  then have "steady (derived_loop fs vs d')" for d' by (auto intro: derived_loop_steady)
  with 1 show ?case by (simp add: run_wbind writes_field_def)
qed simp_all

lemma derived_write_run:
  assumes "fields_written (st_fields input) vals bss"
  shows "steady (derived_write lc input vals)"
    and "run (derived_write lc input vals) = Inr (derived_bytes (derived_type_id lc input) (derived_schema_id (st_fields input))
      (concat bss, derived_footer (st_fields input) bss 0))"
proof -
  have steady: "steady (wbind (derived_loop (st_fields input) vals ([], [])) (\<lambda>d. wr (derived_bytes t i d)))" for t i
    by (intro steady_intros derived_loop_steady [OF assms])
  show "steady (derived_write lc input vals)" unfolding derived_write_def by (rule steady_wbind [OF steady_wregister steady])
  show "run (derived_write lc input vals) = Inr (derived_bytes (derived_type_id lc input) (derived_schema_id (st_fields input))
      (concat bss, derived_footer (st_fields input) bss 0))"
    by (simp add: derived_write_def run_wbind [where m = "wregister _ _"] steady)
      (simp add: run_wbind steady_intros derived_loop_run [OF assms])
qed

lemma length_derived_footer: "length fs = length bss \<Longrightarrow> length (derived_footer fs bss n) = 8 * length fs"
  by (induction fs bss arbitrary: n rule: list_induct2) simp_all

lemma derived_fields_sized: "fields_written fs vs bss \<Longrightarrow> fst (derived_fields_size fs vs reg) = Some (length (concat bss) + 8 * length fs)"
proof (induction fs vs bss arbitrary: reg rule: fields_written.induct)
  case (1 f fs v vs bs bss)
  have f: "fst (dv_size f v r) = Some (length bs)" for r using 1(2) by (auto simp: writes_field_def sized_def)
  have "fst (sadd (dv_size f v) (sret 8) r) = Some (length bs + 8)" for r using fst_sadd [of "dv_size f v" _ "sret 8", OF f] by simp
  moreover have "fst (derived_fields_size fs vs r) = Some (length (concat bss) + 8 * length fs)" for r using 1 by simp
  ultimately show ?case by (simp add: fst_sadd)
qed simp_all

lemma derived_sized:
  assumes "fields_written (st_fields input) vals bss"
  shows "fst (derived_size input vals reg) = Some (length (derived_bytes t i (concat bss, derived_footer (st_fields input) bss 0)))"
proof -
  have "fst (derived_size input vals reg) = Some (24 + (length (concat bss) + 8 * length (st_fields input)))"
    unfolding derived_size_def by (rule fst_sadd) (simp_all add: derived_fields_sized [OF assms] COMPLEX_OBJ_HEADER_LEN_def)
  then show ?thesis
    using fields_written_length [OF assms] by (simp add: derived_bytes_def length_derived_footer)
qed

section \<open>What is read\<close>

definition reads_field :: "'u struct_field \<Rightarrow> 'u \<Rightarrow> bytes \<Rightarrow> bool" where
  "reads_field f v bs \<longleftrightarrow> (\<forall>s. dv_read f (bs @ s) = Ok (Some v) s)"

lemma derived_fields_back:
  assumes "length vs = length fs" and "length bss = length fs" and "\<And>k. k < length fs \<Longrightarrow> reads_field (fs ! k) (vs ! k) (bss ! k)"
  shows "derived_fields_read fs (concat bss @ s) = Ok vs s"
  using assms
proof (induction fs arbitrary: vs bss)
  case (Cons f fs)
  then obtain v vs' bs bss' where v: "vs = v # vs'" and b: "bss = bs # bss'" by (cases vs; cases bss) auto
  have "reads_field f v bs" using Cons.prems(3) [of 0] by (simp add: v b)
  moreover have "derived_fields_read fs (concat bss' @ s) = Ok vs' s"
    using Cons.prems(3) [of "Suc _"] Cons.prems(1,2) by (intro Cons.IH) (auto simp: v b)
  ultimately show ?case by (simp add: v b reads_field_def rbind_Ok)
qed simp

lemma footer_skipped:
  "length fs = length bss \<Longrightarrow> \<exists>xs. repeat_read (length fs) read_i64 (derived_footer fs bss n @ s) = Ok xs s"
proof (induction fs bss arbitrary: n rule: list_induct2)
  case (Cons f fs bs bss)
  have i64: "\<exists>x. read_i64 (write_i32 a @ write_i32 b @ t) = Ok x t" for a b t
    using read_exact_append [of "write_i32 a @ write_i32 b" 8 t] by (simp add: read_i64_def read_le_def rmap_def rbind_Ok)
  obtain x where x: "read_i64 (write_i32 (string_to_java_hashcode (dv_name f)) @ write_i32 (i32_of_usize COMPLEX_OBJ_HEADER_LEN + i32_of_usize n) @
      derived_footer fs bss (n + length bs) @ s) = Ok x (derived_footer fs bss (n + length bs) @ s)" using i64 by blast
  obtain xs where "repeat_read (length fs) read_i64 (derived_footer fs bss (n + length bs) @ s) = Ok xs s" using Cons.IH by blast
  with x show ?case by (simp add: rbind_Ok)
qed simp

lemma header_accepted:
  "((FLAG_USER_TYPE OR FLAG_HAS_SCHEMA) AND FLAG_HAS_SCHEMA = 0) = False" "FLAG_HAS_SCHEMA \<noteq> 0" "(FLAG_USER_TYPE OR FLAG_HAS_SCHEMA) AND FLAG_COMPACT_FOOTER = 0"
  "(FLAG_USER_TYPE OR FLAG_HAS_SCHEMA) AND FLAG_OFFSET_ONE_BYTE = 0" "(FLAG_USER_TYPE OR FLAG_HAS_SCHEMA) AND FLAG_OFFSET_TWO_BYTES = 0"
  by (simp_all add: FLAG_USER_TYPE_def FLAG_HAS_SCHEMA_def FLAG_COMPACT_FOOTER_def FLAG_OFFSET_ONE_BYTE_def FLAG_OFFSET_TWO_BYTES_def)

lemma derived_read_back:
  assumes "length vals = length (st_fields input)" and "length bss = length (st_fields input)"
    and "\<And>k. k < length (st_fields input) \<Longrightarrow> reads_field (st_fields input ! k) (vals ! k) (bss ! k)"
  shows "derived_read lc input (derived_bytes (derived_type_id lc input) i (concat bss, derived_footer (st_fields input) bss 0) @ s) = Ok (Some vals) s"
proof -
  obtain xs where "repeat_read (length (st_fields input)) read_i64 (derived_footer (st_fields input) bss 0 @ s) = Ok xs s"
    using footer_skipped [of "st_fields input" bss 0 s] assms(2) by auto
  then show ?thesis
    by (simp add: header_accepted derived_read_def derived_bytes_def readable_read_value rbind_Ok derived_read_unwrapped_def
        derived_body_read_def derived_fields_back [OF assms])
qed

section \<open>The struct as an object\<close>

lemma derived_footer_write:
  assumes "length fs = length bss" and "\<And>f. f \<in> set fs \<Longrightarrow> lc (dv_name f) = dv_name f"
  shows "\<exists>offs. length offs = length fs \<and>
    derived_footer fs bss n = write_footer lc 0 (map (\<lambda>f. \<lparr>field_name = dv_name f, field_type = infer_ignite_type (dv_ty f)\<rparr>) fs) offs"
  using assms
proof (induction fs bss arbitrary: n rule: list_induct2)
  case (Cons f fs bs bss)
  obtain offs where "length offs = length fs" "derived_footer fs bss (n + length bs) =
      write_footer lc 0 (map (\<lambda>f. \<lparr>field_name = dv_name f, field_type = infer_ignite_type (dv_ty f)\<rparr>) fs) offs"
    using Cons.IH Cons.prems by fastforce
  with Cons.prems show ?case
    by (intro exI [of _ "(i32_of_usize COMPLEX_OBJ_HEADER_LEN + i32_of_usize n) # offs"])
      (simp add: write_footer_def field_id_of_def write_offset_def FLAG_OFFSET_ONE_BYTE_def FLAG_OFFSET_TWO_BYTES_def)
qed (simp add: write_footer_def)

lemma derived_ids:
  assumes "\<And>f. f \<in> set (st_fields input) \<Longrightarrow> lc (dv_name f) = dv_name f" and "st_override input = None"
  shows "derived_type_id lc input = string_to_java_hashcode (lc (schema_type_name (derived_schema input)))"
    and "derived_schema_id (st_fields input) = get_schema_id lc (schema_fields (derived_schema input))"
proof -
  have "map (\<lambda>f. string_to_java_hashcode (dv_name f)) (st_fields input) = map (\<lambda>f. field_id_of lc (dv_name f)) (st_fields input)"
    using assms(1) by (simp add: field_id_of_def)
  then show "derived_schema_id (st_fields input) = get_schema_id lc (schema_fields (derived_schema input))"
    by (simp only: derived_schema_id_def get_schema_id_def derived_schema_def complex_object_schema.simps map_map comp_def ignite_field.simps)
  show "derived_type_id lc input = string_to_java_hashcode (lc (schema_type_name (derived_schema input)))"
    by (simp add: derived_type_id_def assms(2) derived_schema_def)
qed

lemma derived_object_bytes:
  assumes "\<And>f. f \<in> set (st_fields input) \<Longrightarrow> lc (dv_name f) = dv_name f" and "st_override input = None" and "length bss = length (st_fields input)"
  shows "\<exists>offs. length offs = length (st_fields input) \<and>
    derived_bytes (derived_type_id lc input) (derived_schema_id (st_fields input)) (concat bss, derived_footer (st_fields input) bss 0) =
    object_bytes lc (derived_schema input) (concat bss, write_footer lc 0 (schema_fields (derived_schema input)) offs, 0)"
proof -
  obtain offs where offs: "length offs = length (st_fields input)"
    "derived_footer (st_fields input) bss 0 = write_footer lc 0 (schema_fields (derived_schema input)) offs"
    using derived_footer_write [of "st_fields input" bss lc 0] assms(1,3) by (auto simp: derived_schema_def)
  then show ?thesis
    by (intro exI [of _ offs]) (simp add: derived_bytes_def object_bytes_def derived_ids [OF assms(1,2)] i32_of_usize_add or.commute)
qed

section \<open>Properties\<close>

text \<open>C34: A derived struct on the wire. If the types of the fields write their values with the sizes they announce, and read them
  back, then the struct is written, with the size that it announces, and read back as it was, with the rest of the stream left
  over, whatever the names of the fields and with or without a type name of its own. A struct with a null in place of
  a field is not an error of the reader but a panic.\<close>
theorem struct_round_trip:
  assumes "length vals = length (st_fields input)"
    and "\<forall>k < length (st_fields input). \<exists>bs. writes_field (st_fields input ! k) (vals ! k) bs \<and> reads_field (st_fields input ! k) (vals ! k) bs"
  shows "(\<exists>bs. fst (derived_write lc input vals reg) = Inr bs \<and> fst (derived_size input vals reg') = Some (length bs) \<and>
      derived_read lc input (bs @ s) = Ok (Some vals) s) \<and>
    (\<forall>f fs i h l o'. st_fields input = f # fs \<longrightarrow> dv_read f (write_null @ s) = Ok None s \<longrightarrow>
      derived_read lc input (write_u8 (type_code_u8 TcComplexObj) @ write_u8 1 @ write_u16 (FLAG_USER_TYPE OR FLAG_HAS_SCHEMA) @
        write_i32 (derived_type_id lc input) @ write_i32 h @ write_i32 l @ write_i32 i @ write_i32 o' @ write_null @ s) = Panic)"
proof -
  obtain bs_of where bs_of: "\<And>k. k < length (st_fields input) \<Longrightarrow> writes_field (st_fields input ! k) (vals ! k) (bs_of k) \<and>
      reads_field (st_fields input ! k) (vals ! k) (bs_of k)" using assms(2) by metis
  define bss where "bss = map bs_of [0..<length (st_fields input)]"
  have len: "length bss = length (st_fields input)" by (simp add: bss_def)
  have written: "fields_written (st_fields input) vals bss"
    using assms(1) len bs_of unfolding fields_written_iff by (simp add: bss_def)
  note run = derived_write_run [OF written, where lc = lc]
  have "derived_read lc input (derived_bytes (derived_type_id lc input) (derived_schema_id (st_fields input))
      (concat bss, derived_footer (st_fields input) bss 0) @ s) = Ok (Some vals) s"
    by (rule derived_read_back [OF assms(1) len]) (use bs_of in \<open>simp add: bss_def\<close>)
  moreover have "fst (derived_write lc input vals reg) = Inr (derived_bytes (derived_type_id lc input) (derived_schema_id (st_fields input))
      (concat bss, derived_footer (st_fields input) bss 0))" by (simp add: steady_fst [OF run(1)] run(2))
  ultimately have "\<exists>bs. fst (derived_write lc input vals reg) = Inr bs \<and> fst (derived_size input vals reg') = Some (length bs) \<and>
      derived_read lc input (bs @ s) = Ok (Some vals) s" using derived_sized [OF written] by blast
  moreover have "derived_read lc input (write_u8 (type_code_u8 TcComplexObj) @ write_u8 1 @ write_u16 (FLAG_USER_TYPE OR FLAG_HAS_SCHEMA) @
      write_i32 (derived_type_id lc input) @ write_i32 h @ write_i32 l @ write_i32 i @ write_i32 o' @ write_null @ s) = Panic"
    if "st_fields input = f # fs" "dv_read f (write_null @ s) = Ok None s" for f fs i h l o'
    by (simp add: derived_read_def readable_read_value rbind_Ok derived_read_unwrapped_def derived_body_read_def header_accepted that rbind_Panic)
  ultimately show ?thesis by blast
qed


text \<open>A struct with a type name of its own is written under the id of that name, but its schema is registered under the id of the
  name of the struct: of the type that is on the wire the registry learns nothing from the write.\<close>
theorem override_not_registered:
  assumes "fields_written (st_fields input) vals bss" and "st_override input = Some name"
    and "string_to_java_hashcode (lc name) \<noteq> string_to_java_hashcode (lc (st_ident input))"
    and "\<And>f v r. f \<in> set (st_fields input) \<Longrightarrow> snd (dv_write f v r) = r"
  shows "snd (derived_write lc input vals reg) (derived_type_id lc input) = reg (derived_type_id lc input)"
proof -
  have "snd (derived_loop fs vs d r) = r" if "set fs \<subseteq> set (st_fields input)" for fs vs d r
    using that
  proof (induction fs vs d arbitrary: r rule: derived_loop.induct)
    case (1 f fs v vs d)
    then show ?case using assms(4) [of f v r] by (auto simp: wbind_def split: prod.split sum.split)
  qed (simp_all add: wret_def)
  then have "snd (derived_write lc input vals reg) = register_complex_schema lc (derived_schema input) reg"
    by (auto simp: derived_write_def wbind_def wregister_def wr_def split: prod.split sum.split) (metis order_refl snd_conv)+
  then show ?thesis
    using assms(2,3) by (simp add: register_complex_schema_def register_type_lookup registered_type_from_schema_def derived_schema_def derived_type_id_def)
qed

definition int_field :: "rstring \<Rightarrow> ignite_value struct_field" where
  "int_field name = \<lparr>dv_name = name, dv_ty = rstr ''i32'',
    dv_write = \<lambda>v. case v of IvInt i \<Rightarrow> wr (write_type TcInt write_i32 i) | _ \<Rightarrow> wfail (IoOther ''type''),
    dv_size = \<lambda>v. sret 5, dv_read = rmap (map_option IvInt) (readable_read (read_type read_i32))\<rparr>"

definition sample_struct :: "ignite_value struct_input" where
  "sample_struct = \<lparr>st_ident = rstr ''Point'', st_attrs = [], st_fields = [int_field (rstr ''x''), int_field (rstr ''y'')]\<rparr>"

lemma int_field_good: "writes_field (int_field name) (IvInt i) (enc_value lc (IvInt i))" "reads_field (int_field name) (IvInt i) (enc_value lc (IvInt i))"
  using w_i32.read_write [of i]
  by (simp_all add: writes_field_def reads_field_def int_field_def sized_wr enc_simple write_type_def rmap_def rbind_Ok)

theorem struct_round_trip_witness:
  "\<exists>bs. fst (derived_write id sample_struct [IvInt 1, IvInt 2] registry_default) = Inr bs \<and>
    fst (derived_size sample_struct [IvInt 1, IvInt 2] registry_default) = Some (length bs) \<and>
    derived_read id sample_struct (bs @ [7]) = Ok (Some [IvInt 1, IvInt 2]) [7]"
proof -
  have good: "\<exists>bs. writes_field (int_field name) (IvInt i) bs \<and> reads_field (int_field name) (IvInt i) bs" for name i
    using int_field_good [where lc = id] by blast
  have "length [IvInt 1, IvInt 2] = length (st_fields sample_struct)" by (simp add: sample_struct_def)
  moreover have "\<forall>k < length (st_fields sample_struct). \<exists>bs. writes_field (st_fields sample_struct ! k) ([IvInt 1, IvInt 2] ! k) bs \<and>
      reads_field (st_fields sample_struct ! k) ([IvInt 1, IvInt 2] ! k) bs"
    using good by (auto simp: sample_struct_def less_Suc_eq nth_Cons split: nat.split)
  ultimately show ?thesis using struct_round_trip [of "[IvInt 1, IvInt 2]" sample_struct id registry_default registry_default "[7]"] by blast
qed


end
