(* ===== verification/Spec2Isabelle.thy ===== *)
theory Spec2Isabelle
  imports DataTypes Errors ObjectRoundTrip ObjectSize LazyObject Affinity Topology CacheConfig
    Channel RoundTrip Exec Transactions Streamer Cursor CacheOps Addresses Events Reconnect
    SqlDecoding SqlCursor CacheQueries Continuous IgniteSet BinaryTypes ReplicationInvoke Compute Services BulkPut CacheMap Client Derive
begin

text \<open>
  A verification library for \<open>ignite-rs\<close>, the thin client for Apache Ignite under \<open>ignite-rs/src\<close>.

  \<^bold>\<open>The program.\<close> A client keeps TCP channels to the nodes of a cluster. A cache operation (\<open>cache.rs\<close>)
  marshals its key, finds the node that owns it (\<open>affinity.rs\<close>, from the partition maps of the server and
  the topology in \<open>topology.rs\<close>), encodes a request (\<open>api/\<close>, \<open>protocol/\<close>) and gives it to the channel manager
  (\<open>transport.rs\<close>), which picks a channel, retries and reconnects. A channel (\<open>transport.rs\<close>,
  \<open>connection_async.rs\<close>) writes frames with one task and reads them with another, and completes the calls
  that wait. Transactions, streamers and cursors (\<open>tx.rs\<close>, \<open>streamer.rs\<close>, \<open>cursor.rs\<close>) are sessions of such
  requests that own a resource of the server. Values are Ignite binary objects (\<open>protocol/complex_obj.rs\<close>)
  with a registry of types (\<open>binary_registry.rs\<close>).

  \<^bold>\<open>How the program is modelled.\<close> Machine integers are words, strings lists of Unicode scalar values with
  UTF-8 on the wire (\<open>Utf8\<close>), floats their bit patterns. A decoder is a function from the remaining bytes to a
  value and the rest, an error, a panic or, for the recursive object decoder only, lack of fuel; a writer is a
  function on the type registry that yields bytes or an error, and \<open>size\<close> is one that yields a number or
  panics. A session operation takes and returns the log of the requests it made; what the network answers
  is a function argument, so that a theorem holds for every behaviour of the server. The interleavings of a
  channel are an inductive step relation, as are the lives of transactions and streamers.

  \<^bold>\<open>The theories.\<close>
  \<^item> \<open>Prelude\<close>, \<open>Utf8\<close>, \<open>Text\<close>: decoders, fuel, little-endian numbers; UTF-8; the string functions the code
    uses of the standard library.
  \<^item> \<open>Wire\<close> (\<open>protocol/mod.rs\<close>), \<open>DataTypes\<close> (\<open>protocol/data_types.rs\<close>), \<open>Hashing\<close> (\<open>utils.rs\<close>), \<open>Errors\<close>
    (\<open>error.rs\<close>): the primitives. The locales \<open>codec\<close>, \<open>fixed_codec\<close> and \<open>wire_type\<close> state what a reader, a
    writer and a size owe each other, and are interpreted for every type of the source.
  \<^item> \<open>BinaryRegistry\<close> (\<open>binary_registry.rs\<close>), \<open>ComplexObject\<close>, \<open>ObjectEncoding\<close>, \<open>ObjectDecoding\<close>,
    \<open>ObjectDecodingTotal\<close>, \<open>ObjectRoundTrip\<close>, \<open>ObjectSize\<close>, \<open>LazyObject\<close> (\<open>protocol/complex_obj.rs\<close>): values and
    objects; the decoder always ends, reads back what the encoder wrote at any depth, the announced sizes
    are the written ones, and the lazy reader agrees with the eager one. The fuel of the decoder is the length
    of its input plus one, which \<open>ObjectDecodingTotal\<close> shows to be enough for every input.
  \<^item> \<open>CacheConfig\<close> (\<open>protocol/cache_config.rs\<close>, \<open>api/cache_config.rs\<close>, \<open>cache.rs\<close>): cache configurations.
  \<^item> \<open>BTreeMap\<close>, \<open>Topology\<close> (\<open>topology.rs\<close>), \<open>Affinity\<close> (\<open>affinity.rs\<close>): endpoints and partition maps; the published
    endpoint list is always the one a locked reader computes, and keys are routed to nodes of the map.
  \<^item> \<open>OpCodes\<close> (\<open>api/mod.rs\<close>), \<open>Requests\<close> (\<open>api/key_value.rs\<close>): operation codes, key-value requests and responses. The
    locale \<open>announced\<close> is the contract of \<open>write\<close> and \<open>size\<close>; \<open>wire_pair\<close> that of rows of keys and values.
  \<^item> \<open>Connection\<close> (\<open>connection_async.rs\<close>): handshake and frames.
  \<^item> \<open>Channel\<close>, \<open>RoundTrip\<close> (\<open>transport.rs\<close>): calls in flight under every interleaving of the callers, the two
    pumps, time-outs and failures; retries, the retry policy and routes.
  \<^item> \<open>Exec\<close> (\<open>transport.rs\<close>, \<open>exec.rs\<close>): request frames and the calls that send and decode.
  \<^item> \<open>Transactions\<close> (\<open>tx.rs\<close>), \<open>Streamer\<close> (\<open>streamer.rs\<close>), \<open>Cursor\<close> (\<open>cursor.rs\<close>), \<open>CacheOps\<close> (\<open>cache.rs\<close>): sessions
    and operations. \<open>fetch_all\<close> of a cursor runs with fuel, and two turns more than there are pages are shown
    to be enough.
  \<^item> \<open>Addresses\<close> (\<open>lib.rs\<close>): address specifications, ports, the configuration and its validation. \<open>Events\<close>
    (\<open>events.rs\<close>): what subscribers receive.
  \<^item> \<open>Manager\<close>, \<open>ManagerPool\<close>, \<open>ManagerTrips\<close>, \<open>Reconnect\<close> (\<open>transport.rs\<close>): the channel manager. \<open>Manager\<close> has the pool
    of channels, its indices, connecting, discovery and reconnecting over a world that says what the network
    does; \<open>ManagerPool\<close> the invariant of the pool; \<open>ManagerTrips\<close> round trips, affinity lookups, capabilities and
    the heartbeat on that state, with the retry loop as a refinement of the one in \<open>RoundTrip\<close>; \<open>Reconnect\<close> the
    reachable states and the properties.
  \<^item> \<open>SqlValues\<close>, \<open>SqlDecoding\<close>, \<open>Queries\<close> (\<open>query/sql.rs\<close>, \<open>query/scan.rs\<close>, \<open>query/index.rs\<close>), \<open>SqlCursor\<close>
    (\<open>cursor.rs\<close>), \<open>CacheQueries\<close> (\<open>cache.rs\<close>): SQL values, their decoder and the conversions of columns and
    rows; the queries and their requests; the cursor of SQL rows and the query operations of a cache, up to
    the rows that a query returns. The locale \<open>page_source\<close> is what the loop over pages relies on.
  \<^item> \<open>Continuous\<close> (\<open>query/continuous.rs\<close>, \<open>cache.rs\<close>): continuous queries, their events, and named listeners under
    every order of registrations, closes and ends of tasks.
  \<^item> \<open>ServerModel\<close>: the contract \<open>stateful_server\<close> between a transport and a service of the server that keeps a
    state, with the transport that replays its log as an instance. \<open>AtomicLong\<close> and \<open>IgniteSet\<close>
    (\<open>data_structures.rs\<close>) prove under it that distributed counters and sets are counters and sets, \<open>CacheMap\<close> that a cache is a
    map, \<open>Client\<close> (\<open>lib.rs\<close>) that the operations on caches are those of a catalogue of caches.
  \<^item> \<open>BinaryTypes\<close> (\<open>binary.rs\<close>): type metadata, enums, builders and the lookups of types, which share the registry.
    \<open>ReplicationInvoke\<close> (\<open>replication.rs\<close>, \<open>invoke.rs\<close>, \<open>cache.rs\<close>): versions of conflicting entries, entry processors.
  \<^item> \<open>Cluster\<close> (\<open>cluster.rs\<close>): the state of the cluster, groups of nodes and the cache of what is known of the nodes.
    The locale \<open>topology_server\<close> is what a group relies on from a server whose topology may change.
  \<^item> \<open>Compute\<close> (\<open>compute/mod.rs\<close>): tasks on a group of nodes, from the request to the result, and the calls on a task in
    every interleaving with the notifications and failures of its channel. \<open>BulkPut\<close> (\<open>compute/bulk_put.rs\<close>): the objects of
    the bulk-put task and the task from the registration of its types to the decoded result; the locale \<open>name_server\<close> is
    what the registration relies on. \<open>Services\<close> (\<open>services.rs\<close>): descriptors, types of parameters, and invocations, whose cached topology is shown to be an answer given at the topology version known now;
    the locale \<open>service_server\<close> is what they rely on.
  \<^item> \<open>Derive\<close> (\<open>ignite-rs_derive/src/lib.rs\<close>): the code that the macro generates for a struct; the struct is read back as it was
    written, and what it writes is an object of the schema that it registers.

  \<^bold>\<open>Not modelled.\<close> Sockets, TLS, the async runtime, clocks and logging are I/O. The pool of write buffers and
  the zero-copy slices of response bodies change no result. The tools (\<open>xtask\<close>, \<open>bin/bench_summary.rs\<close>) and the benches run other
  programs and are not part of the client.
\<close>

end
